(* ===== verification/Prelude.thy ===== *)
theory Prelude
  imports Main "HOL-Library.Word"
begin

text \<open>
  The vocabulary that the components share: the error values of the VM, the effect type
  (a state, and a result that is either an exception or a value), the byte strings, and the
  conversions between byte strings and numbers that the sources do with \<open>bn.js\<close>.

  A \<open>BN\<close> of the sources is a mathematical integer here (\<open>int\<close>); its methods \<open>add\<close>, \<open>sub\<close>,
  \<open>mul\<close>, \<open>lt\<close>, \<open>isZero\<close>, ... are the operations of \<open>int\<close>, and the methods whose result depends
  on a width (\<open>toTwos\<close>, \<open>fromTwos\<close>, \<open>notn\<close>, \<open>toArrayLike\<close>, \<open>toNumber\<close>) are defined below
  as \<open>bn.js\<close> documents them. A \<open>Buffer\<close> is a list of bytes.
\<close>

named_theorems eff_defs \<open>unfolding of the effect combinators\<close>
named_theorems eff_rel \<open>compositional rules for relations between the states of an effect\<close>

section \<open>Errors\<close>

text \<open>
  The enum \<open>ERROR\<close> of \<open>vm/src/exceptions.ts\<close>, and one more constructor, \<open>AT\<close>, for the strings
  \<open>ERROR.INVALID_JUMP + ' at ' + describeLocation(runState)\<close> that the jump handlers trap with:
  the code hash, the address and the program counter of \<open>describeLocation\<close>.
\<close>

datatype vm_error =
    OUT_OF_GAS | CODESTORE_OUT_OF_GAS | STACK_UNDERFLOW | STACK_OVERFLOW | INVALID_JUMP
  | INVALID_OPCODE | OUT_OF_RANGE | REVERT | STATIC_STATE_CHANGE | INTERNAL_ERROR
  | CREATE_COLLISION | STOP | REFUND_EXHAUSTED | VALUE_OVERFLOW | INVALID_BEGINSUB
  | INVALID_RETURNSUB | INVALID_JUMPSUB | INVALID_BYTECODE_RESULT | INVALID_EOF_FORMAT
  | INITCODE_SIZE_VIOLATION | BLS_12_381_INVALID_INPUT_LENGTH | BLS_12_381_POINT_NOT_ON_CURVE
  | BLS_12_381_INPUT_EMPTY | BLS_12_381_FP_NOT_IN_FIELD
  | AT vm_error "8 word list" "8 word list" int

text \<open>
  What a \<open>throw\<close> carries: a \<open>VmError\<close> (\<open>errorType\<close> is \<open>'VmError'\<close>), which the interpreter
  turns into a result, or any other JavaScript error, which it lets through.
\<close>

datatype exn = VmError vm_error | JsError string

fun is_vm :: "exn \<Rightarrow> bool" where
  "is_vm (VmError e) = True"
| "is_vm (JsError m) = False"

section \<open>Effects\<close>

text \<open>
  Code that mutates a state and may throw. The state at the throw is kept, because the callers
  of the interpreter read it (gas left, return data).
\<close>

type_synonym ('s, 'a) eff = "'s \<Rightarrow> (exn + 'a) \<times> 's"

definition ret :: "'a \<Rightarrow> ('s, 'a) eff" where
  "ret x s = (Inr x, s)"

definition raise :: "exn \<Rightarrow> ('s, 'a) eff" where
  "raise e s = (Inl e, s)"

definition bnd :: "('s, 'a) eff \<Rightarrow> ('a \<Rightarrow> ('s, 'b) eff) \<Rightarrow> ('s, 'b) eff" where
  "bnd m k s = (case m s of (Inl e, s') \<Rightarrow> (Inl e, s') | (Inr x, s') \<Rightarrow> k x s')"

definition andthen :: "('s, 'a) eff \<Rightarrow> ('s, 'b) eff \<Rightarrow> ('s, 'b) eff" where
  "andthen m n = bnd m (\<lambda>_. n)"

definition gets :: "('s \<Rightarrow> 'a) \<Rightarrow> ('s, 'a) eff" where
  "gets f s = (Inr (f s), s)"

definition modif :: "('s \<Rightarrow> 's) \<Rightarrow> ('s, unit) eff" where
  "modif f s = (Inr (), f s)"

definition of_sum :: "exn + 'a \<Rightarrow> ('s, 'a) eff" where
  "of_sum r s = (r, s)"

definition trap :: "vm_error \<Rightarrow> ('s, 'a) eff" where
  "trap e = raise (VmError e)"

definition when_eff :: "bool \<Rightarrow> ('s, unit) eff \<Rightarrow> ('s, unit) eff" where
  "when_eff b m = (if b then m else ret ())"

definition guard_eff :: "bool \<Rightarrow> exn \<Rightarrow> ('s, unit) eff" where
  "guard_eff b e = (if b then ret () else raise e)"

text \<open>An effect on a part of the state: \<open>g\<close> reads the part, \<open>p\<close> puts it back.\<close>

definition zoom :: "('s \<Rightarrow> 't) \<Rightarrow> ('t \<Rightarrow> 's \<Rightarrow> 's) \<Rightarrow> ('t, 'a) eff \<Rightarrow> ('s, 'a) eff" where
  "zoom g p m s = (case m (g s) of (r, t) \<Rightarrow> (r, p t s))"

text \<open>A loop that runs an effect for every item of a list.\<close>

fun for_each :: "'b list \<Rightarrow> ('b \<Rightarrow> ('s, unit) eff) \<Rightarrow> ('s, unit) eff" where
  "for_each [] f = ret ()"
| "for_each (x # xs) f = andthen (f x) (for_each xs f)"

text \<open>\<open>Set.add\<close> on a set kept in the order of insertion.\<close>

definition set_add :: "'a \<Rightarrow> 'a list \<Rightarrow> 'a list" where
  "set_add x xs = (if x \<in> set xs then xs else xs @ [x])"

lemma set_set_add [simp]: "set (set_add x xs) = insert x (set xs)"
  by (auto simp: set_add_def)

lemmas [eff_defs] = zoom_def

lemmas [eff_defs] = ret_def raise_def bnd_def andthen_def gets_def modif_def of_sum_def
  trap_def when_eff_def guard_eff_def

lemma bnd_ret [simp]: "bnd (ret x) k = k x"
  by (rule ext) (simp add: eff_defs)

lemma ret_bnd [simp]: "bnd m ret = m"
  by (rule ext) (auto simp: eff_defs split: prod.splits sum.splits)

lemma bnd_raise [simp]: "bnd (raise e) k = raise e"
  by (rule ext) (simp add: eff_defs)

lemma bnd_trap [simp]: "bnd (trap e) k = trap e"
  by (simp add: trap_def)

lemma bnd_assoc: "bnd (bnd m k) l = bnd m (\<lambda>x. bnd (k x) l)"
  by (rule ext) (auto simp: eff_defs split: prod.splits sum.splits)

lemma bnd_Inr: "m s = (Inr x, s') \<Longrightarrow> bnd m k s = k x s'"
  by (simp add: bnd_def)

lemma andthen_Inr: "m s = (Inr x, s') \<Longrightarrow> andthen m n s = n s'"
  by (simp add: andthen_def bnd_def)

lemma andthen_Inl: "m s = (Inl e, s') \<Longrightarrow> andthen m n s = (Inl e, s')"
  by (simp add: andthen_def bnd_def)

lemma bnd_Inl: "m s = (Inl e, s') \<Longrightarrow> bnd m k s = (Inl e, s')"
  by (simp add: bnd_def)

text \<open>Effects on the same part of the state compose inside it.\<close>

lemma zoom_bnd:
  assumes "\<And>t s. g (p t s) = t" and "\<And>t u s. p u (p t s) = p u s"
  shows "bnd (zoom g p m) (\<lambda>x. zoom g p (k x)) = zoom g p (bnd m k)"
  by (rule ext) (auto simp: bnd_def zoom_def assms split: prod.splits sum.splits)

lemma zoom_result: "m (g s) = (r, t) \<Longrightarrow> zoom g p m s = (r, p t s)"
  by (simp add: zoom_def)

text \<open>
  Relations between the state before and after an effect, whatever it returns and whatever it
  throws among the exceptions that count. Every relation that holds of no change and composes can
  be shown of a handler piece by piece: the locale has the rules, and a component interprets it on
  the relation it is interested in.
\<close>

locale step_rel =
  fixes R :: "'s \<Rightarrow> 's \<Rightarrow> bool" and counts :: "exn \<Rightarrow> bool"
  assumes R_refl: "R s s"
    and R_trans: "R s t \<Longrightarrow> R t u \<Longrightarrow> R s u"
begin

definition keeps :: "('s, 'a) eff \<Rightarrow> bool" where
  "keeps m \<longleftrightarrow> (\<forall>s r s'. m s = (r, s') \<longrightarrow> (\<forall>e. r = Inl e \<longrightarrow> counts e) \<longrightarrow> R s s')"

lemma keeps_step: "keeps m \<Longrightarrow> m s = (r, s') \<Longrightarrow> (\<And>e. r = Inl e \<Longrightarrow> counts e) \<Longrightarrow> R s s'"
  unfolding keeps_def by blast

lemma keepsI: "(\<And>s. R s (snd (m s))) \<Longrightarrow> keeps m"
  unfolding keeps_def by (metis snd_conv)

lemma keeps_ret: "keeps (ret x)"
  by (rule keepsI) (simp add: ret_def R_refl)

lemma keeps_raise: "keeps (raise e)"
  by (rule keepsI) (simp add: raise_def R_refl)

lemma keeps_trap: "keeps (trap e)"
  by (simp add: trap_def keeps_raise)

lemma keeps_gets: "keeps (gets f)"
  by (rule keepsI) (simp add: gets_def R_refl)

lemma keeps_of_sum: "keeps (of_sum r)"
  by (rule keepsI) (simp add: of_sum_def R_refl)

lemma keeps_modif: "(\<And>s. R s (f s)) \<Longrightarrow> keeps (modif f)"
  by (rule keepsI) (simp add: modif_def)

lemma keeps_bnd:
  assumes "keeps m" "\<And>x. keeps (k x)"
  shows "keeps (bnd m k)"
  unfolding keeps_def
proof (intro allI impI)
  fix s r s'
  assume run: "bnd m k s = (r, s')" and r: "\<forall>e. r = Inl e \<longrightarrow> counts e"
  obtain q t where q: "m s = (q, t)" by force
  show "R s s'"
  proof (cases q)
    case (Inl e)
    with run q have "r = Inl e" "s' = t" by (simp_all add: bnd_def)
    with keeps_step [OF assms(1) q] Inl r show ?thesis by simp
  next
    case (Inr x)
    with run q have "k x t = (r, s')" by (simp add: bnd_def)
    with keeps_step [OF assms(2)] r have "R t s'" by blast
    moreover have "R s t" using keeps_step [OF assms(1) q] Inr by simp
    ultimately show ?thesis using R_trans by blast
  qed
qed

lemma keeps_andthen: "keeps m \<Longrightarrow> keeps n \<Longrightarrow> keeps (andthen m n)"
  by (simp add: andthen_def keeps_bnd)

lemma keeps_when: "keeps m \<Longrightarrow> keeps (when_eff b m)"
  by (simp add: when_eff_def keeps_ret)

lemma keeps_guard: "keeps (guard_eff b e)"
  by (simp add: guard_eff_def keeps_ret keeps_raise)

lemma keeps_zoom: "(\<And>s. R s (p (snd (m (g s))) s)) \<Longrightarrow> keeps (zoom g p m)"
  by (rule keepsI) (simp add: zoom_def split_beta)

lemma keeps_for_each: "(\<And>x. keeps (f x)) \<Longrightarrow> keeps (for_each xs f)"
  by (induction xs) (simp_all add: keeps_ret keeps_andthen)

lemma keeps_if: "(b \<Longrightarrow> keeps m) \<Longrightarrow> (\<not> b \<Longrightarrow> keeps n) \<Longrightarrow> keeps (if b then m else n)"
  by simp

lemma keeps_case_list:
  "keeps m \<Longrightarrow> (\<And>x xs. keeps (k x xs)) \<Longrightarrow> keeps (case l of [] \<Rightarrow> m | x # xs \<Rightarrow> k x xs)"
  by (simp split: list.split)

lemma keeps_case_option:
  "keeps m \<Longrightarrow> (\<And>x. keeps (k x)) \<Longrightarrow> keeps (case l of None \<Rightarrow> m | Some x \<Rightarrow> k x)"
  by (simp split: option.split)

lemma keeps_case_sum:
  "(\<And>x. keeps (k x)) \<Longrightarrow> (\<And>y. keeps (l y)) \<Longrightarrow> keeps (case r of Inl x \<Rightarrow> k x | Inr y \<Rightarrow> l y)"
  by (simp split: sum.split)

lemma keeps_case_prod: "(\<And>x y. keeps (k x y)) \<Longrightarrow> keeps (case p of (x, y) \<Rightarrow> k x y)"
  by (simp split: prod.split)

lemmas keeps_rules = keeps_ret keeps_raise keeps_trap keeps_gets keeps_of_sum keeps_bnd
  keeps_andthen keeps_when keeps_guard keeps_for_each keeps_if keeps_case_list keeps_case_option keeps_case_prod keeps_case_sum

end

text \<open>Effects that throw no \<open>VmError\<close>: what they throw is not turned into a result.\<close>

definition no_vm :: "('s, 'a) eff \<Rightarrow> bool" where
  "no_vm m \<longleftrightarrow> (\<forall>s r s' e. m s = (r, s') \<longrightarrow> r = Inl e \<longrightarrow> \<not> is_vm e)"

lemma no_vm_bnd: "no_vm m \<Longrightarrow> (\<And>x. no_vm (k x)) \<Longrightarrow> no_vm (bnd m k)"
  unfolding no_vm_def bnd_def by (fastforce split: prod.splits sum.splits)

lemma no_vm_of_sum: "(\<And>e. r = Inl e \<Longrightarrow> \<not> is_vm e) \<Longrightarrow> no_vm (of_sum r)"
  by (simp add: no_vm_def of_sum_def)

lemma no_vm_zoom: "no_vm m \<Longrightarrow> no_vm (zoom g p m)"
  unfolding no_vm_def zoom_def by (fastforce split: prod.splits)

lemma no_vm_basic:
  "no_vm (ret x)" "no_vm (gets f)" "no_vm (modif h)" "\<not> is_vm e \<Longrightarrow> no_vm (raise e)"
  by (simp_all add: no_vm_def eff_defs)

lemma no_vm_andthen: "no_vm m \<Longrightarrow> no_vm n \<Longrightarrow> no_vm (andthen m n)"
  by (simp add: andthen_def no_vm_bnd)

lemma no_vm_when: "no_vm m \<Longrightarrow> no_vm (when_eff b m)"
  by (simp add: when_eff_def no_vm_basic)

lemma no_vm_guard: "\<not> is_vm e \<Longrightarrow> no_vm (guard_eff b e)"
  by (simp add: guard_eff_def no_vm_basic)

lemma no_vm_if: "(b \<Longrightarrow> no_vm m) \<Longrightarrow> (\<not> b \<Longrightarrow> no_vm n) \<Longrightarrow> no_vm (if b then m else n)"
  by simp

lemma no_vm_case_option: "no_vm m \<Longrightarrow> (\<And>x. no_vm (k x)) \<Longrightarrow> no_vm (case l of None \<Rightarrow> m | Some x \<Rightarrow> k x)"
  by (simp split: option.split)

lemma no_vm_case_prod: "(\<And>x y. no_vm (k x y)) \<Longrightarrow> no_vm (case p of (x, y) \<Rightarrow> k x y)"
  by (simp split: prod.split)

lemma no_vm_case_sum:
  "(\<And>x. no_vm (k x)) \<Longrightarrow> (\<And>y. no_vm (l y)) \<Longrightarrow> no_vm (case r of Inl x \<Rightarrow> k x | Inr y \<Rightarrow> l y)"
  by (simp split: sum.split)

lemma no_vm_case_list: "no_vm m \<Longrightarrow> (\<And>x xs. no_vm (k x xs)) \<Longrightarrow> no_vm (case l of [] \<Rightarrow> m | x # xs \<Rightarrow> k x xs)"
  by (simp split: list.split)

lemmas no_vm_rules = no_vm_basic no_vm_bnd no_vm_andthen no_vm_when no_vm_guard no_vm_zoom no_vm_if
  no_vm_case_option no_vm_case_prod no_vm_case_list no_vm_case_sum

text \<open>Code that only throws and returns, without a state.\<close>

definition bindS :: "exn + 'a \<Rightarrow> ('a \<Rightarrow> exn + 'b) \<Rightarrow> exn + 'b" where
  "bindS r k = (case r of Inl e \<Rightarrow> Inl e | Inr x \<Rightarrow> k x)"

lemma bindS_simps [simp]: "bindS (Inl e) k = Inl e" "bindS (Inr x) k = k x"
  by (simp_all add: bindS_def)

lemma bindS_Inr_iff: "bindS r k = Inr y \<longleftrightarrow> (\<exists>x. r = Inr x \<and> k x = Inr y)"
  by (cases r) simp_all

section \<open>Bytes and numbers\<close>

type_synonym byte = "8 word"
type_synonym bytes = "8 word list"

text \<open>\<open>new BN(buffer)\<close>: the big-endian value of a buffer.\<close>

definition bn_of_bytes :: "bytes \<Rightarrow> int" where
  "bn_of_bytes bs = foldl (\<lambda>a b. a * 256 + uint b) 0 bs"

text \<open>The last \<open>n\<close> base-256 digits of a number, most significant first.\<close>

fun be_bytes :: "nat \<Rightarrow> int \<Rightarrow> bytes" where
  "be_bytes 0 x = []"
| "be_bytes (Suc n) x = be_bytes n (x div 256) @ [word_of_int x]"

text \<open>\<open>byteLength()\<close>: how many bytes the magnitude of a number takes (0 for zero).\<close>

fun byte_length_nat :: "nat \<Rightarrow> nat" where
  "byte_length_nat n = (if n = 0 then 0 else Suc (byte_length_nat (n div 256)))"

declare byte_length_nat.simps [simp del]

definition byteLength :: "int \<Rightarrow> nat" where
  "byteLength x = byte_length_nat (nat \<bar>x\<bar>)"

text \<open>
  \<open>toArrayLike(Buffer, 'be', length)\<close>: the magnitude in \<open>length\<close> bytes; an assertion fails when it
  does not fit. Without a length (a length of 0 counts as none) it is as long as it needs to be,
  and at least one byte.
\<close>

definition toArrayLike :: "int \<Rightarrow> nat \<Rightarrow> exn + bytes" where
  "toArrayLike x len =
     (let reqLength = (if len = 0 then max 1 (byteLength x) else len)
      in if byteLength x \<le> reqLength then Inr (be_bytes reqLength \<bar>x\<bar>)
         else Inl (JsError ''byte array longer than desired length''))"

definition toArrayLike_min :: "int \<Rightarrow> bytes" where
  "toArrayLike_min x = be_bytes (max 1 (byteLength x)) \<bar>x\<bar>"

text \<open>\<open>toNumber()\<close> asserts that the value fits into 53 bits.\<close>

definition toNumber :: "int \<Rightarrow> exn + nat" where
  "toNumber x = (if \<bar>x\<bar> < 2 ^ 53 then Inr (nat x)
     else Inl (JsError ''Number can only safely store up to 53 bits''))"

text \<open>\<open>toTwos\<close> and \<open>fromTwos\<close>: the two's complement of a width.\<close>

definition toTwos :: "nat \<Rightarrow> int \<Rightarrow> int" where
  "toTwos w x = (if x < 0 then (2 ^ w - 1 - \<bar>x\<bar>) + 1 else x)"

definition fromTwos :: "nat \<Rightarrow> int \<Rightarrow> int" where
  "fromTwos w x = (if bit x (w - 1) then - ((2 ^ w - 1 - x) + 1) else x)"

text \<open>\<open>div\<close> and \<open>mod\<close> of \<open>bn.js\<close> truncate towards zero.\<close>

definition bn_div :: "int \<Rightarrow> int \<Rightarrow> int" where
  "bn_div a b = sgn a * sgn b * (\<bar>a\<bar> div \<bar>b\<bar>)"

definition bn_mod :: "int \<Rightarrow> int \<Rightarrow> int" where
  "bn_mod a b = sgn a * (\<bar>a\<bar> mod \<bar>b\<bar>)"

lemma bn_div_nonneg [simp]: "0 \<le> a \<Longrightarrow> 0 \<le> b \<Longrightarrow> bn_div a b = a div b"
  by (cases "a = 0 \<or> b = 0") (auto simp: bn_div_def)

lemma bn_mod_nonneg [simp]: "0 \<le> a \<Longrightarrow> 0 \<le> b \<Longrightarrow> bn_mod a b = a mod b"
  by (cases "a = 0") (auto simp: bn_mod_def)

text \<open>\<open>buffer.slice(first, end)\<close> for non-negative bounds.\<close>

definition slice :: "'a list \<Rightarrow> nat \<Rightarrow> nat \<Rightarrow> 'a list" where
  "slice xs i j = take (j - i) (drop i xs)"

lemma length_slice [simp]: "length (slice xs i j) = min (j - i) (length xs - i)"
  by (simp add: slice_def min.commute)

lemma slice_empty [simp]: "j \<le> i \<Longrightarrow> slice xs i j = []"
  by (simp add: slice_def)

lemma length_be_bytes [simp]: "length (be_bytes n x) = n"
  by (induction n arbitrary: x) auto

lemma nth_be_bytes: "i < n \<Longrightarrow> be_bytes n x ! i = word_of_int (x div 256 ^ (n - Suc i))"
proof (induction n arbitrary: x)
  case (Suc n)
  show ?case
  proof (cases "i = n")
    case False
    then have "i < n" "Suc n - Suc i = Suc (n - Suc i)" using Suc.prems by simp_all
    then show ?thesis using Suc.IH [of "x div 256"]
      by (simp add: nth_append zdiv_zmult2_eq)
  qed (simp add: nth_append)
qed simp

lemma bn_of_bytes_Nil [simp]: "bn_of_bytes [] = 0"
  by (simp add: bn_of_bytes_def)

lemma bn_of_bytes_snoc [simp]: "bn_of_bytes (bs @ [b]) = bn_of_bytes bs * 256 + uint b"
  by (simp add: bn_of_bytes_def)

lemma uint_byte_less: "uint (b :: 8 word) < 256"
  using uint_lt2p [of b] by simp

lemma unat_byte: "unat (b :: byte) < 256" "unat (b :: byte) div 16 < 16"
proof -
  have "int (unat b) < int 256" using uint_byte_less [of b] by simp
  then show "unat b < 256" by (simp only: of_nat_less_iff)
  then show "unat b div 16 < 16" by (simp add: less_mult_imp_div_less)
qed

lemma bn_of_bytes_range: "0 \<le> bn_of_bytes bs \<and> bn_of_bytes bs < 256 ^ length bs"
proof (induction bs rule: rev_induct)
  case (snoc b bs)
  then show ?case using uint_byte_less [of b] by simp
qed simp

lemma bn_of_bytes_nonneg [simp]: "0 \<le> bn_of_bytes bs"
  using bn_of_bytes_range by blast

lemma bn_of_bytes_less: "bn_of_bytes bs < 256 ^ length bs"
  using bn_of_bytes_range by blast

lemma bn_of_be_bytes: "bn_of_bytes (be_bytes n x) = x mod 256 ^ n"
proof (induction n arbitrary: x)
  case (Suc n)
  have "x mod (256 * 256 ^ n) = 256 * (x div 256 mod 256 ^ n) + x mod 256"
    by (rule zmod_zmult2_eq) simp
  then show ?case
    by (simp add: Suc.IH uint_word_of_int mult.commute)
qed simp

lemma be_bytes_bn_of_bytes: "be_bytes (length bs) (bn_of_bytes bs) = bs"
proof (induction bs rule: rev_induct)
  case (snoc b bs)
  have "(bn_of_bytes bs * 256 + uint b) div 256 = bn_of_bytes bs"
    using uint_byte_less [of b] by simp
  moreover have "(word_of_int (bn_of_bytes bs * 256 + uint b) :: 8 word) = b"
  proof -
    have "(256 :: 8 word) = 0" by simp
    then have "(word_of_int (bn_of_bytes bs) :: 8 word) * 256 = 0" by (simp only: mult_zero_right)
    then show ?thesis by simp
  qed
  ultimately show ?case using snoc by simp
qed simp

lemma byte_length_nat_le_iff: "byte_length_nat n \<le> k \<longleftrightarrow> n < 256 ^ k"
proof (induction n arbitrary: k rule: byte_length_nat.induct)
  case (1 n)
  show ?case
  proof (cases "n = 0")
    case True
    then show ?thesis by (simp add: byte_length_nat.simps)
  next
    case False
    show ?thesis
    proof (cases k)
      case 0
      with False show ?thesis by (simp add: byte_length_nat.simps [of n])
    next
      case (Suc j)
      have "byte_length_nat n \<le> k \<longleftrightarrow> byte_length_nat (n div 256) \<le> j"
        using False Suc by (simp add: byte_length_nat.simps [of n])
      also have "\<dots> \<longleftrightarrow> n div 256 < 256 ^ j"
        using "1.IH" False by blast
      also have "\<dots> \<longleftrightarrow> n < 256 ^ k"
        by (simp add: Suc less_mult_imp_div_less div_less_iff_less_mult mult.commute)
      finally show ?thesis .
    qed
  qed
qed

lemma byteLength_le_iff: "0 \<le> x \<Longrightarrow> byteLength x \<le> k \<longleftrightarrow> x < 256 ^ k"
proof -
  assume "0 \<le> x"
  moreover have "nat x < 256 ^ k \<longleftrightarrow> x < 256 ^ k"
    using \<open>0 \<le> x\<close> by (simp add: nat_less_iff)
  ultimately show ?thesis by (simp add: byteLength_def byte_length_nat_le_iff)
qed

lemma byteLength_0 [simp]: "byteLength 0 = 0"
  by (simp add: byteLength_def byte_length_nat.simps)

lemma toArrayLike_fits:
  "0 \<le> x \<Longrightarrow> x < 256 ^ n \<Longrightarrow> n \<noteq> 0 \<Longrightarrow> toArrayLike x n = Inr (be_bytes n x)"
  by (simp add: toArrayLike_def byteLength_le_iff)

lemma bn_of_toArrayLike_min [simp]: "0 \<le> x \<Longrightarrow> bn_of_bytes (toArrayLike_min x) = x"
  using byteLength_le_iff [of x "max 1 (byteLength x)"]
  by (simp add: toArrayLike_min_def bn_of_be_bytes)

end
