(* ===== verification/Common.thy ===== *)
theory Common
  imports Prelude
begin

text \<open>
  \<open>packages/common/src/index.ts\<close>: which hardfork and which EIPs are active, and the parameters
  they set. The JSON files of \<open>chains\<close>, \<open>hardforks\<close> and \<open>eips\<close> are data: the tables
  \<open>HARDFORK_CHANGES\<close>, \<open>EIPs\<close> and the chain's list of hardforks are fields of the state, and
  nothing is assumed of their content but what a lemma says. A JSON \<open>null\<close> is \<open>None\<close>; a table
  \<open>{name: {v: value}}\<close> is a partial map from names to numbers.
\<close>

type_synonym topics = "string \<rightharpoonup> (string \<rightharpoonup> int)"

record hf_params =
  hf_name :: string
  hf_block :: "int option"
  hf_td :: "int option"

record hf_changes =
  hfc_name :: string
  hfc_eips :: "nat list option"
  hfc_topics :: topics
  hfc_consensus :: "(string \<times> string) option"

record eip_params =
  eip_minimumHardfork :: string
  eip_requiredEIPs :: "nat list"
  eip_topics :: topics

record common =
  HARDFORK_CHANGES :: "(string \<times> hf_changes) list"
  EIPs :: "nat \<rightharpoonup> eip_params"
  hardforks :: "hf_params list"
  chainIdBN :: int
  chainConsensus :: string
  cur_hardfork :: string
  supportedHardforks :: "string list"
  eips :: "nat list"
  chainName :: string
  networkIdBN :: int
  chainConsensusType :: string

section \<open>Hardforks\<close>

definition isSupportedHardfork :: "common \<Rightarrow> string \<Rightarrow> bool" where
  "isSupportedHardfork c hf =
     (if 0 < length (supportedHardforks c) then hf \<in> set (supportedHardforks c) else True)"

definition chooseHardfork :: "common \<Rightarrow> string option \<Rightarrow> bool \<Rightarrow> exn + string" where
  "chooseHardfork c hf onlySupported =
     (case hf of
        None \<Rightarrow> Inr (cur_hardfork c)
      | Some h \<Rightarrow> if onlySupported \<and> \<not> isSupportedHardfork c h
                  then Inl (JsError ''Hardfork not set as supported in supportedHardforks'')
                  else Inr h)"

fun find_hf :: "hf_params list \<Rightarrow> string \<Rightarrow> exn + hf_params" where
  "find_hf [] h = Inl (JsError ''Hardfork not defined for chain'')"
| "find_hf (hf # hfs) h = (if hf_name hf = h then Inr hf else find_hf hfs h)"

definition getHardfork :: "common \<Rightarrow> string \<Rightarrow> exn + hf_params" where
  "getHardfork c h = find_hf (hardforks c) h"

definition setHardfork :: "common \<Rightarrow> string \<Rightarrow> exn + common" where
  "setHardfork c h =
     (if \<not> isSupportedHardfork c h
      then Inl (JsError ''Hardfork not set as supported in supportedHardforks'')
      else if h \<in> fst ` set (HARDFORK_CHANGES c) then Inr (c\<lparr>cur_hardfork := h\<rparr>)
      else Inl (JsError ''Hardfork with name not supported''))"

text \<open>
  The two index variables of \<open>hardforkGteHardfork\<close> start at -1 and are overwritten at every
  match, so they end at the last occurrence.
\<close>

fun last_pos :: "hf_params list \<Rightarrow> string \<Rightarrow> int \<Rightarrow> int \<Rightarrow> int" where
  "last_pos [] h index pos = pos"
| "last_pos (hf # hfs) h index pos =
     last_pos hfs h (index + 1) (if hf_name hf = h then index else pos)"

fun active_hfs :: "common \<Rightarrow> hf_params list \<Rightarrow> int option \<Rightarrow> bool \<Rightarrow> hf_params list" where
  "active_hfs c [] blockNumber onlySupported = []"
| "active_hfs c (hf # hfs) blockNumber onlySupported =
     (case hf_block hf of
        None \<Rightarrow> active_hfs c hfs blockNumber onlySupported
      | Some b \<Rightarrow>
          if (case blockNumber of None \<Rightarrow> False | Some n \<Rightarrow> n < b) then []
          else if onlySupported \<and> \<not> isSupportedHardfork c (hf_name hf)
               then active_hfs c hfs blockNumber onlySupported
          else hf # active_hfs c hfs blockNumber onlySupported)"

definition activeHardforks :: "common \<Rightarrow> int option \<Rightarrow> bool \<Rightarrow> hf_params list" where
  "activeHardforks c blockNumber onlySupported = active_hfs c (hardforks c) blockNumber onlySupported"

definition activeHardfork :: "common \<Rightarrow> int option \<Rightarrow> bool \<Rightarrow> exn + string" where
  "activeHardfork c blockNumber onlySupported =
     (let hfs = activeHardforks c blockNumber onlySupported
      in if 0 < length hfs then Inr (hf_name (last hfs))
         else Inl (JsError ''No (supported) active hardfork found''))"

text \<open>
  The options of \<open>hardforkGteHardfork\<close>: \<open>onlyActive\<close> defaults to false, and an undefined
  \<open>onlySupported\<close> is the default \<open>true\<close> of \<open>_chooseHardfork\<close> and false in \<open>activeHardforks\<close>.
\<close>

definition hardforkGteHardfork ::
  "common \<Rightarrow> string option \<Rightarrow> string \<Rightarrow> bool \<Rightarrow> bool option \<Rightarrow> exn + bool" where
  "hardforkGteHardfork c hardfork1 hardfork2 onlyActive onlySupported =
     bindS (chooseHardfork c hardfork1 (case onlySupported of None \<Rightarrow> True | Some b \<Rightarrow> b)) (\<lambda>h1.
       let hfs = (if onlyActive
                  then activeHardforks c None (case onlySupported of None \<Rightarrow> False | Some b \<Rightarrow> b)
                  else hardforks c);
           posHf1 = last_pos hfs h1 0 (-1);
           posHf2 = last_pos hfs hardfork2 0 (-1)
       in Inr (posHf1 \<ge> posHf2 \<and> posHf2 \<noteq> -1))"

text \<open>\<open>gteHardfork\<close> asks with hardfork 1 null, which never throws.\<close>

definition gteHardfork :: "common \<Rightarrow> string \<Rightarrow> bool" where
  "gteHardfork c h = (hardforkGteHardfork c None h False None = Inr True)"

definition hardforkIsActiveOnChain :: "common \<Rightarrow> string option \<Rightarrow> bool \<Rightarrow> exn + bool" where
  "hardforkIsActiveOnChain c hardfork onlySupported =
     bindS (chooseHardfork c hardfork onlySupported) (\<lambda>h.
       Inr (list_ex (\<lambda>hf. hf_name hf = h \<and> hf_block hf \<noteq> None) (hardforks c)))"

definition hardforkBlockBN :: "common \<Rightarrow> string option \<Rightarrow> exn + int option" where
  "hardforkBlockBN c hardfork =
     bindS (chooseHardfork c hardfork False) (\<lambda>h.
       bindS (getHardfork c h) (\<lambda>hf. Inr (hf_block hf)))"

definition hardforkTD :: "common \<Rightarrow> string option \<Rightarrow> exn + int option" where
  "hardforkTD c hardfork =
     bindS (chooseHardfork c hardfork False) (\<lambda>h.
       bindS (getHardfork c h) (\<lambda>hf. Inr (hf_td hf)))"

definition hardforkIsActiveOnBlock :: "common \<Rightarrow> string option \<Rightarrow> int \<Rightarrow> bool \<Rightarrow> exn + bool" where
  "hardforkIsActiveOnBlock c hardfork blockNumber onlySupported =
     bindS (chooseHardfork c hardfork onlySupported) (\<lambda>h.
       bindS (hardforkBlockBN c (Some h)) (\<lambda>hfBlock.
         Inr (case hfBlock of None \<Rightarrow> False | Some b \<Rightarrow> blockNumber \<ge> b)))"

definition activeOnBlock :: "common \<Rightarrow> int \<Rightarrow> bool \<Rightarrow> exn + bool" where
  "activeOnBlock c blockNumber onlySupported =
     hardforkIsActiveOnBlock c None blockNumber onlySupported"

definition isHardforkBlock :: "common \<Rightarrow> int \<Rightarrow> string option \<Rightarrow> exn + bool" where
  "isHardforkBlock c blockNumber hardfork =
     bindS (chooseHardfork c hardfork False) (\<lambda>h.
       bindS (hardforkBlockBN c (Some h)) (\<lambda>block.
         Inr (case block of None \<Rightarrow> False | Some b \<Rightarrow> b = blockNumber)))"

text \<open>
  The reduction of \<open>nextHardforkBlockBN\<close>: the accumulator is set at the first fork whose block is
  greater. A null block makes an empty \<open>BN\<close>, which is greater than none.
\<close>

fun next_block :: "int \<Rightarrow> hf_params list \<Rightarrow> int option \<Rightarrow> int option" where
  "next_block hfBlock [] acc = acc"
| "next_block hfBlock (hf # hfs) acc =
     next_block hfBlock hfs
       (case hf_block hf of
          None \<Rightarrow> acc
        | Some b \<Rightarrow> if b > hfBlock \<and> acc = None then Some b else acc)"

definition nextHardforkBlockBN :: "common \<Rightarrow> string option \<Rightarrow> exn + int option" where
  "nextHardforkBlockBN c hardfork =
     bindS (chooseHardfork c hardfork False) (\<lambda>h.
       bindS (hardforkBlockBN c (Some h)) (\<lambda>hfBlock.
         Inr (case hfBlock of None \<Rightarrow> None | Some b \<Rightarrow> next_block b (hardforks c) None)))"

definition isNextHardforkBlock :: "common \<Rightarrow> int \<Rightarrow> string option \<Rightarrow> exn + bool" where
  "isNextHardforkBlock c blockNumber hardfork =
     bindS (chooseHardfork c hardfork False) (\<lambda>h.
       bindS (nextHardforkBlockBN c (Some h)) (\<lambda>next.
         Inr (case next of None \<Rightarrow> False | Some b \<Rightarrow> b = blockNumber)))"

text \<open>
  The loop of \<open>getHardforkByBlockNumber\<close>: it returns at once (\<open>Inl\<close>) at a fork without a block
  whose total difficulty is reached, else it carries the fork by block, the two forks by total
  difficulty and the previous fork. \<open>td && hf.td\<close> tests two BNs/numbers for truth: a table entry
  of 0 is falsy, a BN is truthy.
\<close>

record hf_search =
  s_hardfork :: string
  s_minTdHF :: "string option"
  s_maxTdHF :: "string option"
  s_previousHF :: "string option"

fun hf_search_loop :: "hf_params list \<Rightarrow> int \<Rightarrow> int option \<Rightarrow> hf_search \<Rightarrow> string + hf_search" where
  "hf_search_loop [] blockNumber td s = Inr s"
| "hf_search_loop (hf # hfs) blockNumber td s =
     (case hf_block hf of
        None \<Rightarrow>
          (case (td, hf_td hf) of
             (Some t, Some ht) \<Rightarrow>
               if t \<ge> ht then Inl (hf_name hf) else hf_search_loop hfs blockNumber td s
           | _ \<Rightarrow> hf_search_loop hfs blockNumber td s)
      | Some b \<Rightarrow>
          (let s1 = (if blockNumber \<ge> b then s\<lparr>s_hardfork := hf_name hf\<rparr> else s);
               s2 = (case (td, hf_td hf) of
                       (Some t, Some ht) \<Rightarrow>
                         if ht = 0 then s1
                         else if t \<ge> ht then s1\<lparr>s_minTdHF := Some (hf_name hf)\<rparr>
                         else s1\<lparr>s_maxTdHF := s_previousHF s1\<rparr>
                     | _ \<Rightarrow> s1)
           in hf_search_loop hfs blockNumber td (s2\<lparr>s_previousHF := Some (hf_name hf)\<rparr>)))"

definition getHardforkByBlockNumber :: "common \<Rightarrow> int \<Rightarrow> int option \<Rightarrow> exn + string" where
  "getHardforkByBlockNumber c blockNumber td =
     (case hf_search_loop (hardforks c) blockNumber td
         \<lparr>s_hardfork = ''chainstart'', s_minTdHF = None, s_maxTdHF = None, s_previousHF = None\<rparr> of
        Inl name \<Rightarrow> Inr name
      | Inr s \<Rightarrow>
          if td = None then Inr (s_hardfork s)
          else
            bindS (case s_minTdHF s of None \<Rightarrow> Inr True
                   | Some m \<Rightarrow> hardforkGteHardfork c (Some (s_hardfork s)) m False None) (\<lambda>ok1.
              if \<not> ok1 then Inl (JsError
                ''HF determined by block number is lower than the minimum total difficulty HF'')
              else
                bindS (case s_maxTdHF s of None \<Rightarrow> Inr True
                       | Some m \<Rightarrow> hardforkGteHardfork c (Some m) (s_hardfork s) False None) (\<lambda>ok2.
                  if \<not> ok2 then Inl (JsError
                    ''Maximum HF determined by total difficulty is lower than the block number HF'')
                  else Inr (s_hardfork s))))"

definition setHardforkByBlockNumber :: "common \<Rightarrow> int \<Rightarrow> int option \<Rightarrow> exn + common \<times> string" where
  "setHardforkByBlockNumber c blockNumber td =
     bindS (getHardforkByBlockNumber c blockNumber td) (\<lambda>h.
       bindS (setHardfork c h) (\<lambda>c'. Inr (c', h)))"

section \<open>EIPs and parameters\<close>

fun eips_loop :: "common \<Rightarrow> nat \<Rightarrow> (string \<times> hf_changes) list \<Rightarrow> bool" where
  "eips_loop c eip [] = False"
| "eips_loop c eip ((n, hf) # rest) =
     (if gteHardfork c (hfc_name hf) \<and>
         (case hfc_eips hf of None \<Rightarrow> False | Some es \<Rightarrow> eip \<in> set es)
      then True else eips_loop c eip rest)"

definition isActivatedEIP :: "common \<Rightarrow> nat \<Rightarrow> bool" where
  "isActivatedEIP c eip =
     (if eip \<in> set (eips c) then True else eips_loop c eip (HARDFORK_CHANGES c))"

fun required_ok :: "common \<Rightarrow> nat list \<Rightarrow> nat list \<Rightarrow> exn + unit" where
  "required_ok c es [] = Inr ()"
| "required_ok c es (r # rs) =
     (if r \<in> set es \<or> isActivatedEIP c r then required_ok c es rs
      else Inl (JsError ''requires EIP, but is not included in the EIP list''))"

fun check_eips :: "common \<Rightarrow> nat list \<Rightarrow> nat list \<Rightarrow> exn + unit" where
  "check_eips c es [] = Inr ()"
| "check_eips c es (eip # rest) =
     (case EIPs c eip of
        None \<Rightarrow> Inl (JsError ''EIP not supported'')
      | Some p \<Rightarrow>
          if \<not> gteHardfork c (eip_minimumHardfork p)
          then Inl (JsError ''EIP cannot be activated on hardfork'')
          else bindS (required_ok c es (eip_requiredEIPs p)) (\<lambda>_. check_eips c es rest))"

definition setEIPs :: "common \<Rightarrow> nat list \<Rightarrow> exn + common" where
  "setEIPs c es = bindS (check_eips c es es) (\<lambda>_. Inr (c\<lparr>eips := es\<rparr>))"

definition paramByEIP :: "common \<Rightarrow> string \<Rightarrow> string \<Rightarrow> nat \<Rightarrow> exn + int option" where
  "paramByEIP c topic name eip =
     (case EIPs c eip of
        None \<Rightarrow> Inl (JsError ''EIP not supported'')
      | Some p \<Rightarrow>
          (case eip_topics p topic of
             None \<Rightarrow> Inl (JsError ''Topic not defined'')
           | Some t \<Rightarrow> Inr (t name)))"

fun param_eips :: "common \<Rightarrow> string \<Rightarrow> string \<Rightarrow> nat list \<Rightarrow> int option \<Rightarrow> exn + int option" where
  "param_eips c topic name [] v = Inr v"
| "param_eips c topic name (eip # rest) v =
     bindS (paramByEIP c topic name eip) (\<lambda>valueEIP.
       param_eips c topic name rest (case valueEIP of None \<Rightarrow> v | Some x \<Rightarrow> Some x))"

fun param_hf_loop ::
  "common \<Rightarrow> string \<Rightarrow> string \<Rightarrow> string \<Rightarrow> (string \<times> hf_changes) list \<Rightarrow> int option \<Rightarrow> exn + int option" where
  "param_hf_loop c topic name h [] v = Inr v"
| "param_hf_loop c topic name h ((n, hf) # rest) v =
     bindS (case hfc_eips hf of
              Some es \<Rightarrow> param_eips c topic name es v
            | None \<Rightarrow>
                (case hfc_topics hf topic of
                   None \<Rightarrow> Inl (JsError ''Topic not defined'')
                 | Some t \<Rightarrow> Inr (case t name of None \<Rightarrow> v | Some x \<Rightarrow> Some x)))
       (\<lambda>v'. if n = h then Inr v' else param_hf_loop c topic name h rest v')"

definition paramByHardfork :: "common \<Rightarrow> string \<Rightarrow> string \<Rightarrow> string \<Rightarrow> exn + int option" where
  "paramByHardfork c topic name hardfork =
     bindS (chooseHardfork c (Some hardfork) True) (\<lambda>h.
       param_hf_loop c topic name h (HARDFORK_CHANGES c) None)"

fun param_loop :: "common \<Rightarrow> string \<Rightarrow> string \<Rightarrow> nat list \<Rightarrow> exn + int option" where
  "param_loop c topic name [] = paramByHardfork c topic name (cur_hardfork c)"
| "param_loop c topic name (eip # rest) =
     bindS (paramByEIP c topic name eip) (\<lambda>v.
       case v of Some x \<Rightarrow> Inr (Some x) | None \<Rightarrow> param_loop c topic name rest)"

definition param :: "common \<Rightarrow> string \<Rightarrow> string \<Rightarrow> exn + int option" where
  "param c topic name = param_loop c topic name (eips c)"

definition paramByBlock :: "common \<Rightarrow> string \<Rightarrow> string \<Rightarrow> int \<Rightarrow> exn + int option" where
  "paramByBlock c topic name blockNumber =
     (let activeHfs = activeHardforks c (Some blockNumber) False
      in if activeHfs = [] then Inl (JsError ''Cannot read properties of undefined'')
         else paramByHardfork c topic name (hf_name (last activeHfs)))"

text \<open>The object \<open>consensus\<close> of a hardfork is its type and its algorithm.\<close>

fun consensus_loop ::
  "string \<Rightarrow> (string \<times> hf_changes) list \<Rightarrow> (string \<times> string) option \<Rightarrow> (string \<times> string) option" where
  "consensus_loop h [] v = v"
| "consensus_loop h ((n, hf) # rest) v =
     (let v' = (case hfc_consensus hf of None \<Rightarrow> v | Some a \<Rightarrow> Some a)
      in if n = h then v' else consensus_loop h rest v')"

definition consensusAlgorithm :: "common \<Rightarrow> string" where
  "consensusAlgorithm c =
     (case consensus_loop (cur_hardfork c) (HARDFORK_CHANGES c) None of
        Some v \<Rightarrow> if snd v = [] then chainConsensus c else snd v
      | None \<Rightarrow> chainConsensus c)"

definition consensusType :: "common \<Rightarrow> string" where
  "consensusType c =
     (case consensus_loop (cur_hardfork c) (HARDFORK_CHANGES c) None of
        Some v \<Rightarrow> if fst v = [] then chainConsensusType c else fst v
      | None \<Rightarrow> chainConsensusType c)"

section \<open>The order of the hardforks\<close>

definition distinct_names :: "common \<Rightarrow> bool" where
  "distinct_names c \<longleftrightarrow> distinct (map hf_name (hardforks c))"

lemma last_pos_absent: "h \<notin> hf_name ` set hfs \<Longrightarrow> last_pos hfs h i p = p"
  by (induction hfs arbitrary: i p) auto

lemma last_pos_nth:
  "distinct (map hf_name hfs) \<Longrightarrow> k < length hfs \<Longrightarrow> last_pos hfs (hf_name (hfs ! k)) i p = i + int k"
proof (induction hfs arbitrary: k i p)
  case (Cons hf hfs)
  show ?case
  proof (cases k)
    case 0
    then show ?thesis using Cons.prems last_pos_absent [of "hf_name hf" hfs] by simp
  next
    case (Suc j)
    then show ?thesis using Cons by simp
  qed
qed simp

lemma gteHardfork_iff:
  assumes "distinct_names c" "i < length (hardforks c)" "hf_name (hardforks c ! i) = cur_hardfork c"
  shows "gteHardfork c h \<longleftrightarrow> (\<exists>j \<le> i. hf_name (hardforks c ! j) = h)"
proof -
  let ?hfs = "hardforks c"
  have cur: "last_pos ?hfs (cur_hardfork c) 0 (-1) = int i"
    using last_pos_nth [of ?hfs i 0 "-1"] assms by (simp add: distinct_names_def)
  have gte: "gteHardfork c h \<longleftrightarrow> int i \<ge> last_pos ?hfs h 0 (-1) \<and> last_pos ?hfs h 0 (-1) \<noteq> -1"
    by (simp add: gteHardfork_def hardforkGteHardfork_def chooseHardfork_def cur Let_def)
  show ?thesis
  proof (cases "h \<in> hf_name ` set ?hfs")
    case True
    then obtain j where j: "j < length ?hfs" "hf_name (?hfs ! j) = h"
      by (metis imageE in_set_conv_nth)
    have "last_pos ?hfs h 0 (-1) = int j"
      using last_pos_nth [of ?hfs j 0 "-1"] assms(1) j by (simp add: distinct_names_def)
    moreover have "(\<exists>j \<le> i. hf_name (?hfs ! j) = h) \<longleftrightarrow> j \<le> i"
      using assms(1,2) j nth_eq_iff_index_eq [of "map hf_name ?hfs"]
      by (auto simp: distinct_names_def)
    ultimately show ?thesis by (simp add: gte)
  next
    case False
    then have "\<not> (\<exists>j \<le> i. hf_name (?hfs ! j) = h)"
      using assms(2) by (metis imageI nth_mem order.strict_trans1)
    then show ?thesis using last_pos_absent [OF False] by (simp add: gte)
  qed
qed

lemma gteHardfork_mono:
  assumes "distinct_names c" "i \<le> j" "j < length (hardforks c)"
    and "hf_name (hardforks c ! i) = cur_hardfork c"
    and "gteHardfork c h"
  shows "gteHardfork (c\<lparr>cur_hardfork := hf_name (hardforks c ! j)\<rparr>) h"
proof -
  let ?c' = "c\<lparr>cur_hardfork := hf_name (hardforks c ! j)\<rparr>"
  have "gteHardfork ?c' h \<longleftrightarrow> (\<exists>m \<le> j. hf_name (hardforks c ! m) = h)"
    using gteHardfork_iff [of ?c' j h] assms(1,3) by (simp add: distinct_names_def)
  moreover have "\<exists>m \<le> i. hf_name (hardforks c ! m) = h"
    using gteHardfork_iff [of c i h] assms by simp
  ultimately show ?thesis using assms(2) order.trans by blast
qed

lemma eips_loop_iff:
  "eips_loop c e hs \<longleftrightarrow> (\<exists>(n, hf) \<in> set hs. gteHardfork c (hfc_name hf) \<and>
     (\<exists>es. hfc_eips hf = Some es \<and> e \<in> set es))"
  by (induction c e hs rule: eips_loop.induct) (auto split: option.splits)

lemma isActivatedEIP_iff:
  "isActivatedEIP c e \<longleftrightarrow> e \<in> set (eips c) \<or> (\<exists>(n, hf) \<in> set (HARDFORK_CHANGES c).
     gteHardfork c (hfc_name hf) \<and> (\<exists>es. hfc_eips hf = Some es \<and> e \<in> set es))"
  by (simp add: isActivatedEIP_def eips_loop_iff)

section \<open>The hardfork of a block\<close>

lemma hf_search_no_td:
  "hf_search_loop hfs n None s = Inr t \<Longrightarrow>
   s_hardfork t = (let fs = filter (\<lambda>hf. \<exists>b. hf_block hf = Some b \<and> b \<le> n) hfs
                   in if fs = [] then s_hardfork s else hf_name (last fs))"
proof (induction hfs arbitrary: s)
  case (Cons hf hfs)
  show ?case
  proof (cases "hf_block hf")
    case None
    then show ?thesis using Cons by (simp add: Let_def)
  next
    case (Some b)
    define s1 where "s1 = (if b \<le> n then s\<lparr>s_hardfork := hf_name hf\<rparr> else s)\<lparr>s_previousHF := Some (hf_name hf)\<rparr>"
    have "hf_search_loop hfs n None s1 = Inr t"
      using Cons.prems Some by (simp add: s1_def Let_def)
    from Cons.IH [OF this] show ?thesis
      using Some by (simp add: s1_def Let_def)
  qed
qed simp

lemma hf_search_no_td_total: "\<exists>t. hf_search_loop hfs n None s = Inr t"
  by (induction hfs arbitrary: s) (auto simp: Let_def split: option.splits)

section \<open>The next fork block, the EIP list, the parameters\<close>

lemma next_block_acc: "next_block b hfs (Some a) = Some a"
  by (induction hfs) (auto split: option.splits)

lemma next_block_first:
  "next_block b hfs None =
     (case filter (\<lambda>hf. \<exists>n. hf_block hf = Some n \<and> n > b) hfs of
        [] \<Rightarrow> None | hf # _ \<Rightarrow> hf_block hf)"
  by (induction hfs) (auto simp: next_block_acc split: option.splits)

lemma check_eips_ok:
  "check_eips c es rest = Inr () \<Longrightarrow> e \<in> set rest \<Longrightarrow>
     \<exists>p. EIPs c e = Some p \<and> gteHardfork c (eip_minimumHardfork p) \<and>
       required_ok c es (eip_requiredEIPs p) = Inr ()"
  by (induction c es rest rule: check_eips.induct)
    (auto simp: bindS_Inr_iff split: option.splits if_splits)

lemma required_ok_iff:
  "required_ok c es rs = Inr () \<longleftrightarrow> (\<forall>r \<in> set rs. r \<in> set es \<or> isActivatedEIP c r)"
  by (induction c es rs rule: required_ok.induct) auto

lemma isActivatedEIP_setEIPs:
  "isActivatedEIP (c\<lparr>eips := es\<rparr>) e \<longleftrightarrow> e \<in> set es \<or> eips_loop c e (HARDFORK_CHANGES c)"
proof -
  have "gteHardfork (c\<lparr>eips := es\<rparr>) h = gteHardfork c h" for h
    by (simp add: gteHardfork_def hardforkGteHardfork_def chooseHardfork_def Let_def)
  then show ?thesis by (simp add: isActivatedEIP_def eips_loop_iff)
qed

text \<open>Entries after the hardfork asked for do not change a parameter.\<close>

lemma param_hf_loop_prefix:
  "n = h \<Longrightarrow> param_hf_loop c topic name h (xs @ (n, hf) # ys) v =
     param_hf_loop c topic name h (xs @ [(n, hf)]) v"
proof (induction xs arbitrary: v)
  case (Cons x xs)
  obtain m g where "x = (m, g)" by force
  then show ?case using Cons by (simp add: bindS_def split: sum.split)
qed (simp add: bindS_def split: sum.split)

section \<open>The properties of Common\<close>

text \<open>C22. \<open>isActivatedEIP\<close> only accumulates. If the names of the chain's hardforks are distinct, then under the hardfork
  at position \<open>j\<close> it reports exactly the EIPs of the option list and of the lists of the hardforks up to \<open>j\<close>, so what it reports
  under one hardfork it reports under every later one. That a hardfork removes an EIP cannot be said in these
  lists: petersburg removes EIP-1283, which is in none of them, and the pricing of SSTORE asks for the hardfork
  before it by name (\<open>gas.ts\<close>) instead.\<close>

theorem eips_survive_later_hardforks:
  assumes "distinct_names c" "i \<le> j" "j < length (hardforks c)"
    and "hf_name (hardforks c ! i) = cur_hardfork c"
  shows "(isActivatedEIP (c\<lparr>cur_hardfork := hf_name (hardforks c ! j)\<rparr>) e \<longleftrightarrow>
      e \<in> set (eips c) \<or> (\<exists>k n hf es. k \<le> j \<and> (n, hf) \<in> set (HARDFORK_CHANGES c) \<and>
        hfc_name hf = hf_name (hardforks c ! k) \<and> hfc_eips hf = Some es \<and> e \<in> set es)) \<and>
    (isActivatedEIP c e \<longrightarrow> isActivatedEIP (c\<lparr>cur_hardfork := hf_name (hardforks c ! j)\<rparr>) e)"
proof (rule conjI)
  let ?c' = "c\<lparr>cur_hardfork := hf_name (hardforks c ! j)\<rparr>"
  have "gteHardfork ?c' h \<longleftrightarrow> (\<exists>k \<le> j. hf_name (hardforks c ! k) = h)" for h
    using gteHardfork_iff [of ?c' j h] assms(1,3) by (simp add: distinct_names_def)
  then show "isActivatedEIP ?c' e \<longleftrightarrow> e \<in> set (eips c) \<or> (\<exists>k n hf es. k \<le> j \<and> (n, hf) \<in> set (HARDFORK_CHANGES c) \<and>
      hfc_name hf = hf_name (hardforks c ! k) \<and> hfc_eips hf = Some es \<and> e \<in> set es)"
    by (fastforce simp: isActivatedEIP_iff)
  show "isActivatedEIP c e \<longrightarrow> isActivatedEIP ?c' e"
    using gteHardfork_mono [OF assms(1-4)] by (fastforce simp: isActivatedEIP_iff)
qed

definition sample_common :: common where
  "sample_common = \<lparr>
     HARDFORK_CHANGES = [
       (''chainstart'', \<lparr>hfc_name = ''chainstart'', hfc_eips = None, hfc_topics = Map.empty, hfc_consensus = None\<rparr>),
       (''berlin'', \<lparr>hfc_name = ''berlin'', hfc_eips = Some [2929], hfc_topics = Map.empty, hfc_consensus = None\<rparr>),
       (''london'', \<lparr>hfc_name = ''london'', hfc_eips = Some [3198], hfc_topics = Map.empty, hfc_consensus = None\<rparr>)],
     EIPs = [2929 \<mapsto> \<lparr>eip_minimumHardfork = ''chainstart'', eip_requiredEIPs = [], eip_topics = Map.empty\<rparr>,
             2930 \<mapsto> \<lparr>eip_minimumHardfork = ''chainstart'', eip_requiredEIPs = [2929], eip_topics = Map.empty\<rparr>],
     hardforks = [\<lparr>hf_name = ''chainstart'', hf_block = Some 0, hf_td = None\<rparr>,
       \<lparr>hf_name = ''berlin'', hf_block = Some 10, hf_td = None\<rparr>,
       \<lparr>hf_name = ''london'', hf_block = Some 20, hf_td = None\<rparr>],
     chainIdBN = 1, chainConsensus = ''ethash'', cur_hardfork = ''berlin'',
     supportedHardforks = [], eips = [], chainName = ''mainnet'', networkIdBN = 1,
     chainConsensusType = ''pow''\<rparr>"

theorem eips_survive_later_hardforks_witness:
  "isActivatedEIP (sample_common\<lparr>cur_hardfork := hf_name (hardforks sample_common ! 2)\<rparr>) 2929"
proof -
  have "isActivatedEIP sample_common 2929"
    by (simp add: isActivatedEIP_def sample_common_def gteHardfork_def hardforkGteHardfork_def
        chooseHardfork_def Let_def)
  moreover have "distinct_names sample_common" "1 \<le> (2 :: nat)" "2 < length (hardforks sample_common)"
    "hf_name (hardforks sample_common ! 1) = cur_hardfork sample_common"
    by (simp_all add: sample_common_def distinct_names_def)
  ultimately show ?thesis using eips_survive_later_hardforks [of sample_common 1 2 2929] by blast
qed

text \<open>Without a total difficulty, the hardfork of a block is the last fork of the chain's list
  whose block number is set and not after the block, and the first fork when there is none.\<close>

theorem hardfork_of_block:
  "getHardforkByBlockNumber c n None =
     (let fs = filter (\<lambda>hf. \<exists>b. hf_block hf = Some b \<and> b \<le> n) (hardforks c)
      in Inr (if fs = [] then ''chainstart'' else hf_name (last fs)))"
proof -
  obtain t where t: "hf_search_loop (hardforks c) n None
      \<lparr>s_hardfork = ''chainstart'', s_minTdHF = None, s_maxTdHF = None, s_previousHF = None\<rparr> = Inr t"
    using hf_search_no_td_total by blast
  then show ?thesis
    using hf_search_no_td [OF t] by (simp add: getHardforkByBlockNumber_def Let_def)
qed

text \<open>A successful setEIPs leaves a list in which every EIP is known, is allowed on the current
  hardfork, is active, and has every EIP it requires active, as long as the list does not drop an
  EIP that was set before.\<close>

theorem setEIPs_closed:
  assumes "setEIPs c es = Inr c'" "e \<in> set es" "set (eips c) \<subseteq> set es"
  shows "\<exists>p. EIPs c' e = Some p \<and> gteHardfork c' (eip_minimumHardfork p) \<and> isActivatedEIP c' e \<and>
    (\<forall>r \<in> set (eip_requiredEIPs p). isActivatedEIP c' r)"
proof -
  have ok: "check_eips c es es = Inr ()" and c': "c' = c\<lparr>eips := es\<rparr>"
    using assms(1) by (auto simp: setEIPs_def bindS_Inr_iff)
  obtain p where p: "EIPs c e = Some p" "gteHardfork c (eip_minimumHardfork p)"
    "required_ok c es (eip_requiredEIPs p) = Inr ()"
    using check_eips_ok [OF ok assms(2)] by blast
  have "isActivatedEIP c' r" if "r \<in> set (eip_requiredEIPs p)" for r
  proof -
    have "r \<in> set es \<or> r \<in> set (eips c) \<or> eips_loop c r (HARDFORK_CHANGES c)"
      using that p(3) by (auto simp: required_ok_iff isActivatedEIP_def split: if_splits)
    then show ?thesis using assms(3) by (auto simp: c' isActivatedEIP_setEIPs)
  qed
  moreover have "gteHardfork c' (eip_minimumHardfork p)"
    using p(2) by (simp add: c' gteHardfork_def hardforkGteHardfork_def chooseHardfork_def Let_def)
  ultimately show ?thesis
    using p(1) assms(2) by (simp add: c' isActivatedEIP_setEIPs)
qed

theorem setEIPs_closed_witness:
  "\<exists>p. EIPs (sample_common\<lparr>eips := [2930]\<rparr>) 2930 = Some p \<and>
     gteHardfork (sample_common\<lparr>eips := [2930]\<rparr>) (eip_minimumHardfork p) \<and>
     isActivatedEIP (sample_common\<lparr>eips := [2930]\<rparr>) 2930 \<and>
     (\<forall>r \<in> set (eip_requiredEIPs p). isActivatedEIP (sample_common\<lparr>eips := [2930]\<rparr>) r)"
proof -
  have "setEIPs sample_common [2930] = Inr (sample_common\<lparr>eips := [2930]\<rparr>)"
    by (simp add: setEIPs_def isActivatedEIP_def sample_common_def gteHardfork_def
        hardforkGteHardfork_def chooseHardfork_def Let_def)
  from setEIPs_closed [OF this, of 2930] show ?thesis by (simp add: sample_common_def)
qed

text \<open>
  Dropping an EIP from the list while keeping one that requires it passes the checks of
  \<open>setEIPs\<close>, because \<open>isActivatedEIP\<close> still reads the previous list.
\<close>

lemma setEIPs_drops_required:
  defines "c \<equiv> sample_common\<lparr>cur_hardfork := ''chainstart'', eips := [2929]\<rparr>"
  shows "\<exists>c'. setEIPs c [2930] = Inr c' \<and> isActivatedEIP c' 2930 \<and> \<not> isActivatedEIP c' 2929 \<and>
    (\<exists>p. EIPs c' 2930 = Some p \<and> 2929 \<in> set (eip_requiredEIPs p))"
  by (simp add: c_def setEIPs_def isActivatedEIP_def sample_common_def gteHardfork_def
      hardforkGteHardfork_def chooseHardfork_def Let_def)

end
