(* ===== verification/Common_Chains.thy ===== *)
theory Common_Chains
  imports Common
begin

text \<open>
  How a \<open>Common\<close> object is made: the constructor of \<open>packages/common/src/index.ts\<close>, \<open>setChain\<close>,
  \<open>custom\<close> and \<open>forCustomChain\<close>, with the table of chains of \<open>chains/index.ts\<close>. The JSON files of
  the chains, hardforks and EIPs are the record \<open>common_data\<close>; the bootstrap nodes and genesis
  blocks of a chain are left out of \<open>chain_params\<close>, and so is the fork hash of a hardfork. No chain
  is called \<open>names\<close>, the entry under which the table keeps its index.
\<close>

record chain_params =
  ch_name :: string
  ch_chainId :: int
  ch_networkId :: int
  ch_defaultHardfork :: "string option"
  ch_hardforks :: "hf_params list"
  ch_consensusType :: string
  ch_consensusAlgorithm :: string

record common_data =
  cd_hardforkChanges :: "(string \<times> hf_changes) list"
  cd_eips :: "nat \<rightharpoonup> eip_params"
  cd_chains :: "string \<rightharpoonup> chain_params"

definition chain_names :: "int \<rightharpoonup> string" where
  "chain_names = [1 \<mapsto> ''mainnet'', 3 \<mapsto> ''ropsten'', 4 \<mapsto> ''rinkeby'', 42 \<mapsto> ''kovan'',
     5 \<mapsto> ''goerli'', 11155111 \<mapsto> ''sepolia'']"

fun add_chains ::
  "chain_params list \<Rightarrow> (int \<rightharpoonup> string) \<times> (string \<rightharpoonup> chain_params) \<Rightarrow>
   (int \<rightharpoonup> string) \<times> (string \<rightharpoonup> chain_params)" where
  "add_chains [] t = t"
| "add_chains (ch # chs) (names, table) =
     add_chains chs (names(ch_chainId ch \<mapsto> ch_name ch), table(ch_name ch \<mapsto> ch))"

definition getInitializedChains ::
  "common_data \<Rightarrow> chain_params list \<Rightarrow> (int \<rightharpoonup> string) \<times> (string \<rightharpoonup> chain_params)" where
  "getInitializedChains cd customChains = add_chains customChains (chain_names, cd_chains cd)"

definition isSupportedChainId :: "common_data \<Rightarrow> int \<Rightarrow> bool" where
  "isSupportedChainId cd chainId =
     (case fst (getInitializedChains cd []) chainId of None \<Rightarrow> False | Some name \<Rightarrow> name \<noteq> [])"

text \<open>The option \<open>chain\<close> by its type: a number or \<open>BN\<close>, a name, or a dictionary.\<close>

datatype chain_option = ChainId int | ChainName string | ChainObject chain_params

definition chain_by_name :: "(string \<rightharpoonup> chain_params) \<Rightarrow> string \<Rightarrow> exn + chain_params" where
  "chain_by_name table name =
     (case table name of Some ch \<Rightarrow> Inr ch | None \<Rightarrow> Inl (JsError ''Chain with name not supported''))"

definition chain_by_id ::
  "(int \<rightharpoonup> string) \<times> (string \<rightharpoonup> chain_params) \<Rightarrow> int \<Rightarrow> exn + chain_params" where
  "chain_by_id t i =
     (case fst t i of
        None \<Rightarrow> Inl (JsError ''Chain with ID not supported'')
      | Some name \<Rightarrow>
          if name = [] then Inl (JsError ''Chain with ID not supported'')
          else (case snd t name of Some ch \<Rightarrow> Inr ch
                | None \<Rightarrow> Inl (JsError ''Cannot read properties of undefined'')))"

definition getChainParams ::
  "common_data \<Rightarrow> chain_option \<Rightarrow> chain_params list \<Rightarrow> exn + chain_params" where
  "getChainParams cd chain customChains =
     (case chain of
        ChainId i \<Rightarrow> chain_by_id (getInitializedChains cd customChains) i
      | ChainName name \<Rightarrow> chain_by_name (snd (getInitializedChains cd customChains)) name
      | ChainObject ch \<Rightarrow> Inl (JsError ''Chain with name not supported''))"

definition setChain :: "common_data \<Rightarrow> chain_option \<Rightarrow> chain_params list \<Rightarrow> exn + chain_params" where
  "setChain cd chain customChains =
     (case chain of
        ChainObject ch \<Rightarrow>
          if 0 < length customChains
          then Inl (JsError ''Chain must be a string, number, or BN when initialized with customChains passed in'')
          else Inr ch
      | _ \<Rightarrow> getChainParams cd chain customChains)"

record common_opts =
  co_hardfork :: "string option"
  co_supportedHardforks :: "string list option"
  co_eips :: "nat list option"

definition no_opts :: common_opts where
  "no_opts = \<lparr>co_hardfork = None, co_supportedHardforks = None, co_eips = None\<rparr>"

definition common_of_chain :: "common_data \<Rightarrow> chain_params \<Rightarrow> common" where
  "common_of_chain cd ch = \<lparr>HARDFORK_CHANGES = cd_hardforkChanges cd, EIPs = cd_eips cd,
     hardforks = ch_hardforks ch, chainIdBN = ch_chainId ch,
     chainConsensus = ch_consensusAlgorithm ch,
     cur_hardfork = (case ch_defaultHardfork ch of Some h \<Rightarrow> h | None \<Rightarrow> ''istanbul''),
     supportedHardforks = [], eips = [], chainName = ch_name ch, networkIdBN = ch_networkId ch,
     chainConsensusType = ch_consensusType ch\<rparr>"

definition new_common ::
  "common_data \<Rightarrow> chain_option \<Rightarrow> chain_params list \<Rightarrow> common_opts \<Rightarrow> exn + common" where
  "new_common cd chain customChains opts =
     bindS (setChain cd chain customChains) (\<lambda>ch.
       let c0 = common_of_chain cd ch;
           c1 = (case co_supportedHardforks opts of
                   Some hfs \<Rightarrow> c0\<lparr>supportedHardforks := hfs\<rparr> | None \<Rightarrow> c0)
       in bindS (case co_hardfork opts of
                   Some h \<Rightarrow> if h = [] then Inr c1 else setHardfork c1 h
                 | None \<Rightarrow> Inr c1) (\<lambda>c2.
          case co_eips opts of Some es \<Rightarrow> setEIPs c2 es | None \<Rightarrow> Inr c2))"

text \<open>The partial dictionary that overrides the parameters of the base chain is a function on them.\<close>

definition forCustomChain ::
  "common_data \<Rightarrow> chain_option \<Rightarrow> (chain_params \<Rightarrow> chain_params) \<Rightarrow> string option \<Rightarrow>
   string list option \<Rightarrow> exn + common" where
  "forCustomChain cd baseChain customChainParams hardfork supported =
     bindS (getChainParams cd baseChain []) (\<lambda>standardChainParams.
       new_common cd (ChainObject (customChainParams standardChainParams)) []
         \<lparr>co_hardfork = hardfork, co_supportedHardforks = supported, co_eips = None\<rparr>)"

definition custom_params :: "string \<Rightarrow> int \<Rightarrow> chain_params \<Rightarrow> chain_params" where
  "custom_params name chainId ch = ch\<lparr>ch_name := name, ch_chainId := chainId, ch_networkId := chainId\<rparr>"

definition common_custom ::
  "common_data \<Rightarrow> (chain_params \<Rightarrow> chain_params) \<Rightarrow> chain_option option \<Rightarrow> common_opts \<Rightarrow> exn + common" where
  "common_custom cd chainParams baseChain opts =
     bindS (getChainParams cd (case baseChain of Some b \<Rightarrow> b | None \<Rightarrow> ChainName ''mainnet'') [])
       (\<lambda>ch. new_common cd (ChainObject (chainParams (ch\<lparr>ch_name := ''custom-chain''\<rparr>))) [] opts)"

text \<open>
  The supported custom chains by name; the option \<open>hardfork\<close> defaults to Berlin on the two
  Optimism chains.
\<close>

definition default_hardfork :: "string \<Rightarrow> common_opts \<Rightarrow> common_opts" where
  "default_hardfork h opts =
     (case co_hardfork opts of None \<Rightarrow> opts\<lparr>co_hardfork := Some h\<rparr> | Some _ \<Rightarrow> opts)"

definition common_custom_named ::
  "common_data \<Rightarrow> string \<Rightarrow> chain_option option \<Rightarrow> common_opts \<Rightarrow> exn + common" where
  "common_custom_named cd name baseChain opts =
     bindS (getChainParams cd (case baseChain of Some b \<Rightarrow> b | None \<Rightarrow> ChainName ''mainnet'') []) (\<lambda>_.
       if name = ''polygon-mainnet'' then common_custom cd (custom_params name 137) baseChain opts
       else if name = ''polygon-mumbai'' then common_custom cd (custom_params name 80001) baseChain opts
       else if name = ''arbitrum-rinkeby-testnet''
         then common_custom cd (custom_params name 421611) baseChain opts
       else if name = ''x-dai-chain'' then common_custom cd (custom_params name 100) baseChain opts
       else if name = ''optimistic-kovan''
         then common_custom cd (custom_params name 69) baseChain (default_hardfork ''berlin'' opts)
       else if name = ''optimistic-ethereum''
         then common_custom cd (custom_params name 10) baseChain (default_hardfork ''berlin'' opts)
       else Inl (JsError ''Custom chain not supported''))"

section \<open>Lemmas\<close>

lemma setHardfork_fields:
  "setHardfork c h = Inr c' \<Longrightarrow> c' = c\<lparr>cur_hardfork := h\<rparr>"
  by (auto simp: setHardfork_def split: if_splits)

lemma setEIPs_fields: "setEIPs c es = Inr c' \<Longrightarrow> c' = c\<lparr>eips := es\<rparr>"
  by (auto simp: setEIPs_def bindS_Inr_iff)

text \<open>Whatever the options, the object has the chain's id, name and hardforks.\<close>

lemma new_common_chain:
  assumes "new_common cd chain cs opts = Inr c"
  obtains ch where "setChain cd chain cs = Inr ch" "chainIdBN c = ch_chainId ch"
    "chainName c = ch_name ch" "hardforks c = ch_hardforks ch" "networkIdBN c = ch_networkId ch"
  using assms
  by (fastforce simp: new_common_def bindS_Inr_iff common_of_chain_def Let_def
      dest: setHardfork_fields setEIPs_fields split: option.splits if_splits)

lemma forCustomChain_chainId:
  assumes "forCustomChain cd base (custom_params name i) hf hfs = Inr c"
  shows "chainIdBN c = i"
  using assms unfolding forCustomChain_def
  by (auto simp: bindS_Inr_iff setChain_def custom_params_def elim!: new_common_chain)

end
