(* ===== verification/Rlp.thy ===== *)
theory Rlp
  imports Prelude
begin

text \<open>
  \<open>packages/rlp/src/index.ts\<close>: the recursive length prefix encoding, with the hexadecimal detours
  that the source takes for lengths and numbers. A JavaScript string is a \<open>string\<close>, its characters
  being the code points up to 255; a \<open>number\<close> or \<open>bigint\<close> is an \<open>int\<close>. The decoder is two mutually
  recursive functions, the second for the \<open>while\<close> loops over the items of a list.

  The encoder and the decoder are inverse to each other on all byte strings: what is encoded is
  read back, and what the decoder accepts is the encoding of its result.
\<close>

datatype rlp_input =
    In_bytes bytes | In_string string | In_number int | In_null | In_array "rlp_input list"

text \<open>\<open>NestedUint8Array\<close>.\<close>

datatype rlp = Item bytes | Items "rlp list"

section \<open>Hexadecimal strings\<close>

definition hex_digit :: "nat \<Rightarrow> char" where
  "hex_digit d = ''0123456789abcdef'' ! d"

text \<open>\<open>cachedHexes\<close> and \<open>bytesToHex\<close>.\<close>

definition byte_hex :: "byte \<Rightarrow> string" where
  "byte_hex b = [hex_digit (unat b div 16), hex_digit (unat b mod 16)]"

definition bytesToHex :: "bytes \<Rightarrow> string" where
  "bytesToHex bs = concat (map byte_hex bs)"

text \<open>\<open>parseInt(s, 16)\<close>: white space, a sign and the prefix \<open>0x\<close> are skipped, and the digits are read
  up to the first character that is none.\<close>

definition hex_val :: "char \<Rightarrow> nat option" where
  "hex_val c = (let n = (of_char c :: nat)
     in if 48 \<le> n \<and> n \<le> 57 then Some (n - 48)
        else if 97 \<le> n \<and> n \<le> 102 then Some (n - 87)
        else if 65 \<le> n \<and> n \<le> 70 then Some (n - 55) else None)"

definition js_space :: "char \<Rightarrow> bool" where
  "js_space c = (let n = (of_char c :: nat) in n \<in> {9, 10, 11, 12, 13, 32, 160})"

fun read_hex :: "int \<Rightarrow> string \<Rightarrow> int" where
  "read_hex a [] = a"
| "read_hex a (c # cs) = (case hex_val c of None \<Rightarrow> a | Some d \<Rightarrow> read_hex (a * 16 + int d) cs)"

definition parse_unsigned :: "string \<Rightarrow> int option" where
  "parse_unsigned s =
     (let t = (if take 2 s = ''0x'' \<or> take 2 s = ''0X'' then drop 2 s else s)
      in case t of [] \<Rightarrow> None
         | c # cs \<Rightarrow> (case hex_val c of None \<Rightarrow> None | Some d \<Rightarrow> Some (read_hex (int d) cs)))"

definition parseInt16 :: "string \<Rightarrow> int option" where
  "parseInt16 s =
     (case dropWhile js_space s of
        [] \<Rightarrow> None
      | c # cs \<Rightarrow> if c = CHR ''-'' then map_option uminus (parse_unsigned cs)
          else if c = CHR ''+'' then parse_unsigned cs else parse_unsigned (c # cs))"

definition parseHexByte :: "string \<Rightarrow> exn + int" where
  "parseHexByte h = (case parseInt16 h of None \<Rightarrow> Inl (JsError ''Invalid byte sequence'') | Some n \<Rightarrow> Inr n)"

text \<open>An element of a \<open>Uint8Array\<close> keeps the low eight bits of what is stored in it.\<close>

fun hex_pairs :: "string \<Rightarrow> exn + bytes" where
  "hex_pairs (c # d # cs) =
     bindS (parseHexByte [c, d]) (\<lambda>n. bindS (hex_pairs cs) (\<lambda>bs. Inr (word_of_int n # bs)))"
| "hex_pairs cs = Inr []"

definition hexToBytes :: "string \<Rightarrow> exn + bytes" where
  "hexToBytes h =
     (if length h mod 2 \<noteq> 0 then Inl (JsError ''hexToBytes: received invalid unpadded hex'')
      else hex_pairs h)"

text \<open>\<open>toString(16)\<close> and \<open>numberToHex\<close>.\<close>

fun toString16 :: "nat \<Rightarrow> string" where
  "toString16 n = (if n < 16 then [hex_digit n] else toString16 (n div 16) @ [hex_digit (n mod 16)])"

declare toString16.simps [simp del]

definition padToEven :: "string \<Rightarrow> string" where
  "padToEven a = (if length a mod 2 \<noteq> 0 then CHR ''0'' # a else a)"

definition numberToHex :: "int \<Rightarrow> exn + string" where
  "numberToHex n =
     (if n < 0 then Inl (JsError ''Invalid integer as argument, must be unsigned!'')
      else Inr (let hex = toString16 (nat n) in if length hex mod 2 \<noteq> 0 then CHR ''0'' # hex else hex))"

section \<open>Inputs\<close>

definition utf8ToBytes :: "string \<Rightarrow> bytes" where
  "utf8ToBytes s = concat (map (\<lambda>c. let n = (of_char c :: nat)
     in if n < 128 then [of_nat n] else [of_nat (192 + n div 64), of_nat (128 + n mod 64)]) s)"

definition isHexPrefixed :: "string \<Rightarrow> bool" where
  "isHexPrefixed s \<longleftrightarrow> length s \<ge> 2 \<and> s ! 0 = CHR ''0'' \<and> s ! 1 = CHR ''x''"

definition stripHexPrefix :: "string \<Rightarrow> string" where
  "stripHexPrefix s = (if isHexPrefixed s then drop 2 s else s)"

definition toBytes :: "rlp_input \<Rightarrow> exn + bytes" where
  "toBytes v = (case v of
       In_bytes b \<Rightarrow> Inr b
     | In_string s \<Rightarrow> if isHexPrefixed s then hexToBytes (padToEven (stripHexPrefix s)) else Inr (utf8ToBytes s)
     | In_number n \<Rightarrow> if n = 0 then Inr [] else bindS (numberToHex n) hexToBytes
     | In_null \<Rightarrow> Inr []
     | In_array vs \<Rightarrow> Inl (JsError ''toBytes: received unsupported type object''))"

section \<open>Encoding\<close>

definition encodeLength :: "nat \<Rightarrow> nat \<Rightarrow> exn + bytes" where
  "encodeLength len offset =
     (if len < 56 then Inr [of_nat (len + offset)]
      else bindS (numberToHex (int len)) (\<lambda>hexLength.
        let lLength = length hexLength div 2
        in bindS (numberToHex (int (offset + 55 + lLength))) (\<lambda>firstByte.
             hexToBytes (firstByte @ hexLength))))"

definition encode_item :: "bytes \<Rightarrow> exn + bytes" where
  "encode_item inputBuf =
     (if length inputBuf = 1 \<and> inputBuf ! 0 < 128 then Inr inputBuf
      else bindS (encodeLength (length inputBuf) 128) (\<lambda>l. Inr (l @ inputBuf)))"

definition encode_list :: "bytes \<Rightarrow> exn + bytes" where
  "encode_list buf = bindS (encodeLength (length buf) 192) (\<lambda>l. Inr (l @ buf))"

fun rlp_encode :: "rlp_input \<Rightarrow> exn + bytes" and rlp_encode_all :: "rlp_input list \<Rightarrow> exn + bytes" where
  "rlp_encode (In_array vs) = bindS (rlp_encode_all vs) encode_list"
| "rlp_encode v = bindS (toBytes v) encode_item"
| "rlp_encode_all [] = Inr []"
| "rlp_encode_all (v # vs) = bindS (rlp_encode v) (\<lambda>b. bindS (rlp_encode_all vs) (\<lambda>bs. Inr (b @ bs)))"

section \<open>Decoding\<close>

definition safeSlice :: "bytes \<Rightarrow> nat \<Rightarrow> nat \<Rightarrow> exn + bytes" where
  "safeSlice input start end =
     (if end > length input
      then Inl (JsError ''invalid RLP (safeSlice): end slice of Uint8Array out-of-bounds'')
      else Inr (slice input start end))"

definition decodeLength :: "bytes \<Rightarrow> exn + nat" where
  "decodeLength v =
     (if v \<noteq> [] \<and> v ! 0 = 0 then Inl (JsError ''invalid RLP: extra zeros'')
      else bindS (parseHexByte (bytesToHex v)) (\<lambda>n. Inr (nat n)))"

text \<open>The branches of \<open>_decode\<close> for strings.\<close>

definition decode_short_item :: "bytes \<Rightarrow> nat \<Rightarrow> exn + (rlp \<times> bytes)" where
  "decode_short_item input firstByte =
     (let len = firstByte - 0x7f
      in bindS (if firstByte = 0x80 then Inr [] else safeSlice input 1 len) (\<lambda>data.
           if len = 2 \<and> data \<noteq> [] \<and> data ! 0 < 0x80
           then Inl (JsError ''invalid RLP encoding: invalid prefix, single byte < 0x80 are not prefixed'')
           else Inr (Item data, drop len input)))"

definition decode_long_item :: "bytes \<Rightarrow> nat \<Rightarrow> exn + (rlp \<times> bytes)" where
  "decode_long_item input firstByte =
     (let llength = firstByte - 0xb6
      in if length input - 1 < llength
         then Inl (JsError ''invalid RLP: not enough bytes for string length'')
         else bindS (safeSlice input 1 llength) (\<lambda>l. bindS (decodeLength l) (\<lambda>len.
           if len \<le> 55 then Inl (JsError ''invalid RLP: expected string length to be greater than 55'')
           else bindS (safeSlice input llength (len + llength)) (\<lambda>data.
             Inr (Item data, drop (len + llength) input)))))"

text \<open>Where the items of a list are, and what comes after them.\<close>

definition list_bounds :: "bytes \<Rightarrow> nat \<Rightarrow> exn + (bytes \<times> bytes)" where
  "list_bounds input firstByte =
     (if firstByte \<le> 0xf7
      then (let len = firstByte - 0xbf
            in bindS (safeSlice input 1 len) (\<lambda>inner. Inr (inner, drop len input)))
      else (let llength = firstByte - 0xf6
            in bindS (safeSlice input 1 llength) (\<lambda>l. bindS (decodeLength l) (\<lambda>len.
              if len < 56 then Inl (JsError ''invalid RLP: encoded list too short'')
              else (let totalLength = llength + len
                    in if totalLength > length input
                       then Inl (JsError ''invalid RLP: total length is larger than the data'')
                       else bindS (safeSlice input llength totalLength) (\<lambda>inner.
                         Inr (inner, drop totalLength input)))))))"

function (sequential) decode1 :: "bytes \<Rightarrow> exn + (rlp \<times> bytes)"
    and decode_items :: "bytes \<Rightarrow> exn + rlp list" where
  "decode1 [] = Inl (JsError ''Invalid byte sequence'')"
| "decode1 (b # bs) =
     (let firstByte = unat b; input = b # bs
      in if firstByte \<le> 0x7f then Inr (Item [b], bs)
         else if firstByte \<le> 0xb7 then decode_short_item input firstByte
         else if firstByte \<le> 0xbf then decode_long_item input firstByte
         else (case list_bounds input firstByte of
                 Inl e \<Rightarrow> Inl e
               | Inr (inner, rest) \<Rightarrow>
                   (case decode_items inner of Inl e \<Rightarrow> Inl e | Inr ds \<Rightarrow> Inr (Items ds, rest))))"
| "decode_items r =
     (if r = [] then Inr []
      else (case decode1 r of
              Inl e \<Rightarrow> Inl e
            | Inr (d, remainder) \<Rightarrow>
                (case decode_items remainder of Inl e \<Rightarrow> Inl e | Inr ds \<Rightarrow> Inr (d # ds))))"
  by pat_completeness auto

lemma list_bounds_shorter:
  "list_bounds (b # bs) (unat b) = Inr (inner, rest) \<Longrightarrow> 0xbf < unat b \<Longrightarrow>
     length inner \<le> length bs \<and> length rest \<le> length bs"
  by (auto simp: list_bounds_def Let_def safeSlice_def bindS_Inr_iff split: if_splits)

lemma item_shorter:
  "decode_short_item (b # bs) (unat b) = Inr (d, rest) \<Longrightarrow> 0x7f < unat b \<Longrightarrow> length rest \<le> length bs"
  "decode_long_item (b # bs) (unat b) = Inr (d, rest) \<Longrightarrow> 0xb7 < unat b \<Longrightarrow> length rest \<le> length bs"
  by (auto simp: decode_short_item_def decode_long_item_def Let_def safeSlice_def bindS_Inr_iff
      split: if_splits)

lemma decode1_shorter:
  "decode1_decode_items_dom (Inl input) \<Longrightarrow> decode1 input = Inr (d, rest) \<Longrightarrow> length rest < length input"
  by (cases input)
    (auto simp: decode1.psimps Let_def less_Suc_eq_le dest!: item_shorter list_bounds_shorter
      split: if_splits sum.splits prod.splits)

termination decode1
  by (relation "measure (case_sum (\<lambda>input. 2 * length input) (\<lambda>r. 2 * length r + 1))")
    (auto dest!: decode1_shorter list_bounds_shorter)

declare decode1.simps [simp del] decode_items.simps [simp del]

text \<open>What \<open>decode\<close> returns: the data, or with \<open>stream\<close> the data and the remainder; an empty input gives
  plain data in either case.\<close>

datatype decoded = Data rlp | Stream rlp bytes

definition empty_input :: "rlp_input \<Rightarrow> bool" where
  "empty_input v = (case v of In_bytes b \<Rightarrow> b = [] | In_string s \<Rightarrow> s = [] | In_number n \<Rightarrow> n = 0
     | In_null \<Rightarrow> True | In_array vs \<Rightarrow> vs = [])"

definition rlp_decode :: "rlp_input \<Rightarrow> bool \<Rightarrow> exn + decoded" where
  "rlp_decode input stream =
     (if empty_input input then Inr (Data (Item []))
      else bindS (toBytes input) (\<lambda>inputBytes. bindS (decode1 inputBytes) (\<lambda>(data, remainder).
        if stream then Inr (Stream data remainder)
        else if remainder \<noteq> [] then Inl (JsError ''invalid RLP: remainder must be zero'')
        else Inr (Data data))))"

section \<open>Hexadecimal detours\<close>

text \<open>The digits of a string, and what the readers make of a string of lower-case digits.\<close>

definition min_bytes :: "nat \<Rightarrow> bytes" where
  "min_bytes n = be_bytes (byte_length_nat n) (int n)"

lemma hex_val_digit [simp]: "d < 16 \<Longrightarrow> hex_val (hex_digit d) = Some d"
  by (auto simp: hex_digit_def hex_val_def less_Suc_eq numeral_eq_Suc)

lemma digit_plain: "d < 16 \<Longrightarrow> \<not> js_space (hex_digit d) \<and> hex_digit d \<noteq> CHR ''-'' \<and>
    hex_digit d \<noteq> CHR ''+'' \<and> hex_digit d \<noteq> CHR ''x'' \<and> hex_digit d \<noteq> CHR ''X''"
  by (auto simp: hex_digit_def js_space_def less_Suc_eq numeral_eq_Suc)

lemma read_hex_append: "\<forall>c \<in> set s. hex_val c \<noteq> None \<Longrightarrow> read_hex a (s @ t) = read_hex (read_hex a s) t"
  by (induction s arbitrary: a) auto

lemma byte_digits: "uint (b :: byte) = int (unat b div 16) * 16 + int (unat b mod 16)"
  by (metis of_nat_unat of_nat_add of_nat_mult of_nat_numeral div_mult_mod_eq)

lemma read_hex_bytes: "read_hex a (bytesToHex bs) = a * 256 ^ length bs + bn_of_bytes bs"
proof (induction bs rule: rev_induct)
  case (snoc b bs)
  have "\<forall>c \<in> set (bytesToHex bs). hex_val c \<noteq> None"
    using unat_byte by (fastforce simp: bytesToHex_def byte_hex_def)
  then have "read_hex a (bytesToHex (bs @ [b])) = read_hex (read_hex a (bytesToHex bs)) (byte_hex b)"
    by (simp add: bytesToHex_def read_hex_append)
  then show ?case
    using snoc unat_byte [of b] by (simp add: byte_hex_def byte_digits [of b] algebra_simps)
qed (simp add: bytesToHex_def)

lemma parse_bytesToHex:
  assumes "bs \<noteq> []"
  shows "parseHexByte (bytesToHex bs) = Inr (bn_of_bytes bs)"
proof -
  obtain b cs where bs: "bs = b # cs" using assms by (cases bs) auto
  let ?h = "unat b div 16" and ?l = "unat b mod 16"
  have h: "?h < 16" "?l < 16" using unat_byte [of b] by simp_all
  have s: "bytesToHex bs = hex_digit ?h # hex_digit ?l # bytesToHex cs"
    by (simp add: bs bytesToHex_def byte_hex_def)
  have "read_hex 0 (bytesToHex bs) = bn_of_bytes bs" by (simp add: read_hex_bytes)
  then show ?thesis
    using h digit_plain [OF h(1)] digit_plain [OF h(2)]
    by (simp add: parseHexByte_def parseInt16_def parse_unsigned_def s)
qed

lemma hexToBytes_bytesToHex: "hexToBytes (bytesToHex bs) = Inr bs"
proof -
  have "length (bytesToHex bs) = 2 * length bs" by (induction bs) (simp_all add: bytesToHex_def byte_hex_def)
  moreover have "hex_pairs (bytesToHex bs) = Inr bs"
  proof (induction bs)
    case (Cons b bs)
    have "parseHexByte (byte_hex b) = Inr (uint b)"
      using parse_bytesToHex [of "[b]"] by (simp add: bytesToHex_def bn_of_bytes_def)
    with Cons show ?case by (simp add: bytesToHex_def byte_hex_def)
  qed (simp add: bytesToHex_def)
  ultimately show ?thesis by (simp add: hexToBytes_def)
qed

section \<open>The shortest bytes of a number\<close>

lemma min_bytes_simps: "min_bytes 0 = []" "0 < n \<Longrightarrow> min_bytes n = min_bytes (n div 256) @ [of_nat n]"
  by (simp_all add: min_bytes_def byte_length_nat.simps [of n] byte_length_nat.simps [of 0] zdiv_int)

lemma bn_of_min_bytes: "bn_of_bytes (min_bytes n) = int n"
proof (induction n rule: byte_length_nat.induct)
  case (1 n)
  show ?case
  proof (cases "n = 0")
    case False
    then have "bn_of_bytes (min_bytes n) = int (n div 256) * 256 + int n mod 256"
      using 1 by (simp add: min_bytes_simps unsigned_of_nat take_bit_eq_mod zmod_int)
    then show ?thesis by (simp add: zdiv_int zmod_int)
  qed (simp add: min_bytes_simps)
qed

lemma min_bytes_head: "0 < n \<Longrightarrow> min_bytes n \<noteq> [] \<and> min_bytes n ! 0 \<noteq> 0"
proof (induction n rule: byte_length_nat.induct)
  case (1 n)
  show ?case
  proof (cases "n < 256")
    case True
    then have "unat (of_nat n :: byte) = n" by (simp add: unsigned_of_nat take_bit_eq_mod)
    then have "(of_nat n :: byte) \<noteq> 0" using 1 by (metis less_irrefl unsigned_0)
    with 1 True show ?thesis by (simp add: min_bytes_simps(2) [of n] min_bytes_simps(1))
  next
    case False
    then have "0 < n div 256" by (simp add: div_greater_zero_iff)
    with 1 show ?thesis by (simp add: min_bytes_simps(2) [of n] nth_append)
  qed
qed

lemma min_bytes_bn: "v \<noteq> [] \<Longrightarrow> v ! 0 \<noteq> 0 \<Longrightarrow> min_bytes (nat (bn_of_bytes v)) = v"
proof (induction v rule: rev_induct)
  case (snoc b v)
  have b: "bn_of_bytes (v @ [b]) = bn_of_bytes v * 256 + uint b" by simp
  let ?n = "nat (bn_of_bytes (v @ [b]))"
  have d: "?n div 256 = nat (bn_of_bytes v)"
  proof -
    have "?n = nat (bn_of_bytes v) * 256 + unat b"
      by (simp add: nat_add_distrib nat_mult_distrib)
    then show ?thesis using unat_byte(1) [of b] by simp
  qed
  have w: "(of_nat ?n :: byte) = b"
  proof -
    have "int ?n = bn_of_bytes v * 256 + uint b" by simp
    then have "uint (of_nat ?n :: byte) = uint b"
      using uint_byte_less [of b]
      by (simp only: unsigned_of_nat) (simp add: take_bit_eq_mod of_nat_mod)
    then show ?thesis by (rule unsigned_word_eqI)
  qed
  show ?case
  proof (cases "v = []")
    case True
    with snoc.prems have "uint b \<noteq> 0" by (simp add: uint_0_iff)
    then have "0 < unat b" using of_nat_unat [of b, where 'a = int] by (cases "unat b") auto
    with True show ?thesis
      using unat_byte(1) [of b] min_bytes_simps(2) [of "unat b"] by (simp add: min_bytes_simps(1) bn_of_bytes_def)
  next
    case False
    with snoc have m: "min_bytes (nat (bn_of_bytes v)) = v" by (simp add: nth_append)
    then have "0 < nat (bn_of_bytes v)" using False by (cases "nat (bn_of_bytes v)") (auto simp: min_bytes_simps)
    then have "0 < ?n" using d by (metis div_0 neq0_conv)
    with d w m show ?thesis by (simp only: min_bytes_simps(2))
  qed
qed simp

lemma byte_hex_of_nat: "byte_hex (of_nat n) = [hex_digit (n div 16 mod 16), hex_digit (n mod 16)]"
proof -
  have "unat (of_nat n :: byte) = n mod 256" by (simp add: unsigned_of_nat take_bit_eq_mod)
  moreover have "n mod 256 div 16 = n div 16 mod 16" "n mod 256 mod 16 = n mod 16"
    using mod_mult2_eq [of n 16 16] by (simp_all add: mod_mod_cancel)
  ultimately show ?thesis by (simp add: byte_hex_def)
qed

definition pad_hex :: "string \<Rightarrow> string" where
  "pad_hex h = (if length h mod 2 \<noteq> 0 then CHR ''0'' # h else h)"

lemma pad_hex_append: "even (length t) \<Longrightarrow> pad_hex (s @ t) = pad_hex s @ t"
  by (auto simp: pad_hex_def)

lemma pad_toString16: "0 < n \<Longrightarrow> pad_hex (toString16 n) = bytesToHex (min_bytes n)"
proof (induction n rule: byte_length_nat.induct)
  case (1 n)
  have m: "min_bytes n = min_bytes (n div 256) @ [of_nat n]" using 1 by (simp add: min_bytes_simps)
  show ?case
  proof (cases "n < 256")
    case True
    then have "min_bytes n = [of_nat n]" using m by (simp add: min_bytes_simps)
    then have "bytesToHex (min_bytes n) = [hex_digit (n div 16 mod 16), hex_digit (n mod 16)]"
      by (simp add: bytesToHex_def byte_hex_of_nat)
    moreover have "n div 16 < 16" using True by (simp add: less_mult_imp_div_less)
    ultimately show ?thesis
      by (simp add: toString16.simps [of n] toString16.simps [of "n div 16"] pad_hex_def hex_digit_def)
  next
    case False
    have "\<not> n div 16 < 16" using False by (simp add: div_less_iff_less_mult)
    then have "toString16 n = toString16 (n div 256) @ [hex_digit (n div 16 mod 16), hex_digit (n mod 16)]"
      using False by (simp add: toString16.simps [of n] toString16.simps [of "n div 16"] div_mult2_eq [symmetric])
    moreover have "0 < n div 256" using False by (simp add: div_greater_zero_iff)
    ultimately show ?thesis
      using 1 m by (simp add: pad_hex_append bytesToHex_def byte_hex_of_nat)
  qed
qed

lemma numberToHex_bytes: "0 < n \<Longrightarrow> numberToHex (int n) = Inr (bytesToHex (min_bytes n))"
  using pad_toString16 [of n] by (simp add: numberToHex_def Let_def pad_hex_def)

section \<open>What the encoder writes\<close>

text \<open>The header of an item or a list, and the encoding of decoded data.\<close>

definition rlp_header :: "nat \<Rightarrow> nat \<Rightarrow> bytes" where
  "rlp_header len offset =
     (if len < 56 then [of_nat (len + offset)]
      else of_nat (offset + 55 + length (min_bytes len)) # min_bytes len)"

fun rlp_enc :: "rlp \<Rightarrow> bytes" where
  "rlp_enc (Item b) = (if length b = 1 \<and> b ! 0 < 128 then b else rlp_header (length b) 128 @ b)"
| "rlp_enc (Items xs) =
     rlp_header (length (concat (map rlp_enc xs))) 192 @ concat (map rlp_enc xs)"

fun as_input :: "rlp \<Rightarrow> rlp_input" where
  "as_input (Item b) = In_bytes b"
| "as_input (Items xs) = In_array (map as_input xs)"

lemma length_min_bytes_le: "n < 256 ^ k \<Longrightarrow> length (min_bytes n) \<le> k"
  by (simp add: min_bytes_def byte_length_nat_le_iff)

lemma bytesToHex_append: "bytesToHex (bs @ cs) = bytesToHex bs @ bytesToHex cs"
  by (simp add: bytesToHex_def)

lemma length_bytesToHex: "length (bytesToHex bs) = 2 * length bs"
  by (induction bs) (simp_all add: bytesToHex_def byte_hex_def)

lemma encodeLength_header:
  assumes "offset = 128 \<or> offset = 192" "len < 256 ^ 8"
  shows "encodeLength len offset = Inr (rlp_header len offset)"
proof (cases "len < 56")
  case False
  let ?l = "length (min_bytes len)" and ?f = "offset + 55 + length (min_bytes len)"
  have l: "?l \<le> 8" using assms(2) by (rule length_min_bytes_le)
  then have f: "0 < ?f" "?f < 256" using assms(1) by auto
  have n: "numberToHex (int len) = Inr (bytesToHex (min_bytes len))"
    using False by (intro numberToHex_bytes) simp
  have "min_bytes ?f = [of_nat ?f]"
    using f by (subst min_bytes_simps(2)) (simp_all add: min_bytes_simps(1))
  then have "numberToHex (int ?f) = Inr (bytesToHex [of_nat ?f])"
    using numberToHex_bytes [OF f(1)] by simp
  moreover have "bytesToHex [of_nat ?f] @ bytesToHex (min_bytes len) = bytesToHex (of_nat ?f # min_bytes len)"
    by (simp add: bytesToHex_def)
  ultimately show ?thesis
    using False n by (simp only: encodeLength_def rlp_header_def Let_def if_False bindS_simps
        length_bytesToHex nonzero_mult_div_cancel_left hexToBytes_bytesToHex)
qed (simp add: encodeLength_def rlp_header_def)

lemma rlp_encode_enc:
  "length (rlp_enc x) < 256 ^ 8 \<Longrightarrow> rlp_encode (as_input x) = Inr (rlp_enc x)"
proof (induction x)
  case (Item b)
  then show ?case
    by (auto simp: toBytes_def encode_item_def encodeLength_header split: if_splits)
next
  case (Items xs)
  let ?c = "concat (map rlp_enc xs)"
  have c: "length ?c < 256 ^ 8" using Items.prems by simp
  have "rlp_encode_all (map as_input ys) = Inr (concat (map rlp_enc ys))" if "set ys \<subseteq> set xs" for ys
    using that
  proof (induction ys)
    case (Cons y ys)
    have "length (rlp_enc y) \<le> length ?c"
      using Cons.prems by (auto dest!: split_list)
    then have "rlp_encode (as_input y) = Inr (rlp_enc y)" using Items.IH Cons.prems c by auto
    with Cons show ?case by simp
  qed simp
  with c show ?case by (simp add: encode_list_def encodeLength_header)
qed

section \<open>What the decoder reads\<close>

lemma decodeLength_ok:
  "v \<noteq> [] \<Longrightarrow> decodeLength v = (if v ! 0 = 0 then Inl (JsError ''invalid RLP: extra zeros'')
     else Inr (nat (bn_of_bytes v)))"
  by (simp add: decodeLength_def parse_bytesToHex)

lemma header_first:
  assumes "offset = 128 \<or> offset = 192" "len < 256 ^ 8"
  shows "\<exists>b bs. rlp_header len offset = b # bs \<and>
    unat b = (if len < 56 then len + offset else offset + 55 + length bs) \<and>
    (if len < 56 then bs = [] else bs = min_bytes len \<and> 1 \<le> length bs \<and> length bs \<le> 8)"
proof -
  have u: "n < 256 \<Longrightarrow> unat (of_nat n :: byte) = n" for n
    by (simp add: unsigned_of_nat take_bit_eq_mod)
  show ?thesis
  proof (cases "len < 56")
    case True
    then have "len + offset < 256" using assms(1) by auto
    from u [OF this] True show ?thesis by (simp add: rlp_header_def)
  next
    case False
    have l: "length (min_bytes len) \<le> 8" using assms(2) by (rule length_min_bytes_le)
    then have "offset + 55 + length (min_bytes len) < 256" using assms(1) by auto
    from u [OF this] False l min_bytes_head [of len] show ?thesis
      by (simp add: rlp_header_def Suc_le_eq)
  qed
qed

lemma slice_header: "slice (b # xs @ ys) (Suc 0) (Suc (length xs)) = xs"
  "slice (b # xs @ ys @ zs) (Suc (length xs)) (Suc (length xs) + length ys) = ys"
  by (simp_all add: slice_def)

lemma decode_item_header:
  assumes "length data < 256 ^ 8" "\<not> (length data = 1 \<and> data ! 0 < 128)"
  shows "decode1 (rlp_header (length data) 128 @ data @ rest) = Inr (Item data, rest)"
proof -
  obtain b bs where h: "rlp_header (length data) 128 = b # bs"
    "unat b = (if length data < 56 then length data + 128 else 183 + length bs)"
    "if length data < 56 then bs = [] else bs = min_bytes (length data) \<and> 1 \<le> length bs \<and> length bs \<le> 8"
    using header_first [of 128 "length data"] assms(1) by auto
  show ?thesis
  proof (cases "length data < 56")
    case True
    then have "decode_short_item (b # data @ rest) (unat b) = Inr (Item data, rest)"
      using h assms(2) by (auto simp: decode_short_item_def Let_def safeSlice_def slice_def)
    with True h show ?thesis by (simp add: decode1.simps Let_def)
  next
    case False
    then have "0 < length data" by linarith
    from min_bytes_head [OF this] False have bs: "bs = min_bytes (length data)" "bs \<noteq> []" "bs ! 0 \<noteq> 0"
      using h by auto
    have "data \<noteq> []" using False by auto
    have "decode_long_item (b # bs @ data @ rest) (unat b) = Inr (Item data, rest)"
      using False h bs \<open>data \<noteq> []\<close> bn_of_min_bytes [of "length data"] slice_header [of b bs]
      by (simp add: decode_long_item_def Let_def safeSlice_def decodeLength_ok add.commute)
    moreover have "\<not> unat b \<le> 0xb7" "unat b \<le> 0xbf" using h(2,3) False by auto
    ultimately show ?thesis using h(1) by (simp add: decode1.simps Let_def)
  qed
qed

lemma list_bounds_header:
  assumes "length inner < 256 ^ 8"
  shows "\<exists>b bs. rlp_header (length inner) 192 = b # bs \<and> 0xbf < unat b \<and>
    list_bounds (b # bs @ inner @ rest) (unat b) = Inr (inner, rest)"
proof -
  obtain b bs where h: "rlp_header (length inner) 192 = b # bs"
    "unat b = (if length inner < 56 then length inner + 192 else 247 + length bs)"
    "if length inner < 56 then bs = [] else bs = min_bytes (length inner) \<and> 1 \<le> length bs \<and> length bs \<le> 8"
    using header_first [of 192 "length inner"] assms by auto
  show ?thesis
  proof (cases "length inner < 56")
    case True
    then show ?thesis using h by (auto simp: list_bounds_def Let_def safeSlice_def slice_def)
  next
    case False
    then have "0 < length inner" by linarith
    from min_bytes_head [OF this] False have bs: "bs = min_bytes (length inner)" "bs \<noteq> []" "bs ! 0 \<noteq> 0"
      using h by auto
    show ?thesis
      using False h bs bn_of_min_bytes [of "length inner"] slice_header [of b bs]
      by (simp add: list_bounds_def Let_def safeSlice_def decodeLength_ok add.commute)
  qed
qed

lemma rlp_enc_nonempty: "rlp_enc x \<noteq> []"
  by (cases x) (auto simp: rlp_header_def)

lemma decode1_enc: "length (rlp_enc x) < 256 ^ 8 \<Longrightarrow> decode1 (rlp_enc x @ rest) = Inr (x, rest)"
proof (induction x arbitrary: rest)
  case (Item b)
  show ?case
  proof (cases "length b = 1 \<and> b ! 0 < 128")
    case True
    then obtain c where b: "b = [c]" by (cases b) auto
    with True have "c < 128" "unat c \<le> 0x7f" by (simp_all add: word_less_nat_alt)
    with b show ?thesis by (simp add: decode1.simps Let_def)
  next
    case False
    with Item show ?thesis using decode_item_header [of b rest] by auto
  qed
next
  case (Items xs)
  let ?c = "concat (map rlp_enc xs)"
  have c: "length ?c < 256 ^ 8" using Items.prems by simp
  have items: "decode_items (concat (map rlp_enc ys)) = Inr ys" if "set ys \<subseteq> set xs" for ys
    using that
  proof (induction ys)
    case (Cons y ys)
    have "length (rlp_enc y) \<le> length ?c" using Cons.prems by (auto dest!: split_list)
    then have "decode1 (rlp_enc y @ concat (map rlp_enc ys)) = Inr (y, concat (map rlp_enc ys))"
      using Items.IH Cons.prems c by auto
    with Cons show ?case by (simp add: decode_items.simps rlp_enc_nonempty)
  qed (simp add: decode_items.simps)
  obtain b bs where "rlp_header (length ?c) 192 = b # bs" "0xbf < unat b"
    "list_bounds (b # bs @ ?c @ rest) (unat b) = Inr (?c, rest)"
    using list_bounds_header [OF c] by blast
  with items [of xs] show ?case by (simp add: decode1.simps Let_def)
qed

lemma rlp_encode_all_append:
  "rlp_encode_all (xs @ ys) =
     bindS (rlp_encode_all xs) (\<lambda>b. bindS (rlp_encode_all ys) (\<lambda>c. Inr (b @ c)))"
  by (induction xs) (auto simp: bindS_def split: sum.splits)

lemma encoded_enc:
  "rlp_encode (as_input x) = Inr y \<Longrightarrow> length y < 256 ^ 8 \<Longrightarrow> y = rlp_enc x"
proof (induction x arbitrary: y)
  case (Item b)
  then show ?case
    by (auto simp: toBytes_def encode_item_def bindS_Inr_iff encodeLength_header split: if_splits)
next
  case (Items xs)
  from Items.prems(1) obtain c l where c: "rlp_encode_all (map as_input xs) = Inr c"
    "encodeLength (length c) 192 = Inr l" "y = l @ c"
    by (auto simp: bindS_Inr_iff encode_list_def)
  have "c = concat (map rlp_enc ys)"
    if "rlp_encode_all (map as_input ys) = Inr c" "set ys \<subseteq> set xs" "length c < 256 ^ 8" for ys c
    using that by (induction ys arbitrary: c) (fastforce simp: bindS_Inr_iff intro: Items.IH)+
  from this [OF c(1)] have "c = concat (map rlp_enc xs)" using c(3) Items.prems(2) by simp
  with c Items.prems(2) show ?case by (simp add: encodeLength_header)
qed

section \<open>What the decoder accepts\<close>

lemma decode_short_item_enc:
  assumes "decode_short_item (b # bs) (unat b) = Inr (d, rest)" "0x7f < unat b" "unat b \<le> 0xb7"
  shows "b # bs = rlp_enc d @ rest"
proof -
  let ?l = "unat b - 0x80"
  have b: "b = of_nat (?l + 128)" using assms(2) by simp
  have d: "d = Item (take ?l bs)" "rest = drop ?l bs" "?l \<le> length bs"
    "\<not> (?l = 1 \<and> take ?l bs ! 0 < 128)"
    using assms by (auto simp: decode_short_item_def Let_def safeSlice_def bindS_Inr_iff slice_def
      drop_Cons' take_Cons' split: if_splits)
  moreover have "?l < 56" using assms(3) by simp
  ultimately have "rlp_header ?l 128 = [b]" using b by (simp add: rlp_header_def)
  with d show ?thesis by (auto simp: min_absorb2)
qed

text \<open>The header of a long item or list is the one of the length that it announces.\<close>

lemma long_header:
  assumes "decodeLength ls = Inr len" "length ls = k" "ls \<noteq> []" "56 \<le> len"
    "unat b = offset + 55 + k"
  shows "b # ls = rlp_header len offset"
proof -
  have "ls ! 0 \<noteq> 0" "len = nat (bn_of_bytes ls)"
    using assms(1,3) by (auto simp: decodeLength_ok split: if_splits)
  then have "min_bytes len = ls" using min_bytes_bn assms(3) by simp
  moreover have "b = of_nat (offset + 55 + k)" by (simp flip: assms(5))
  ultimately show ?thesis using assms(2,4) by (simp add: rlp_header_def)
qed

lemma decode_long_item_enc:
  assumes "decode_long_item (b # bs) (unat b) = Inr (d, rest)" "0xb7 < unat b"
  shows "b # bs = rlp_enc d @ rest"
proof -
  let ?k = "unat b - 0xb7"
  obtain len where d: "decodeLength (take ?k bs) = Inr len" "55 < len" "len + ?k \<le> length bs"
    "d = Item (take len (drop ?k bs))" "rest = drop len (drop ?k bs)"
    using assms by (auto simp: decode_long_item_def Let_def safeSlice_def bindS_Inr_iff slice_def
      drop_Cons' take_Cons' add.commute split: if_splits)
  have "b # take ?k bs = rlp_header len 128"
    using d assms(2) by (intro long_header [where k = ?k]) auto
  moreover have "b # bs = (b # take ?k bs) @ take len (drop ?k bs) @ drop len (drop ?k bs)"
    by (simp only: append_Cons append_take_drop_id)
  moreover have "length (take len (drop ?k bs)) = len" using d(3) by simp
  ultimately show ?thesis using d(2,4,5) by simp
qed

lemma list_bounds_enc:
  assumes "list_bounds (b # bs) (unat b) = Inr (inner, rest)" "0xbf < unat b"
  shows "b # bs = rlp_header (length inner) 192 @ inner @ rest"
proof (cases "unat b \<le> 0xf7")
  case True
  let ?l = "unat b - 0xc0"
  have d: "inner = take ?l bs" "rest = drop ?l bs" "?l \<le> length bs"
    using assms True by (auto simp: list_bounds_def Let_def safeSlice_def bindS_Inr_iff slice_def
      drop_Cons' take_Cons' split: if_splits)
  have b: "b = of_nat (?l + 192)" using assms(2) by simp
  moreover have "?l < 56" using True by simp
  ultimately have "rlp_header ?l 192 = [b]" by (simp add: rlp_header_def)
  with d show ?thesis by (simp add: min_absorb2)
next
  case False
  let ?k = "unat b - 0xf7"
  obtain len where d: "decodeLength (take ?k bs) = Inr len" "55 < len" "len + ?k \<le> length bs"
    "inner = take len (drop ?k bs)" "rest = drop len (drop ?k bs)"
    using assms False by (auto simp: list_bounds_def Let_def safeSlice_def bindS_Inr_iff slice_def
      drop_Cons' take_Cons' add.commute split: if_splits)
  have "b # take ?k bs = rlp_header len 192"
    using d False by (intro long_header [where k = ?k]) auto
  moreover have "b # bs = (b # take ?k bs) @ take len (drop ?k bs) @ drop len (drop ?k bs)"
    by (simp only: append_Cons append_take_drop_id)
  moreover have "length (take len (drop ?k bs)) = len" using d(3) by simp
  ultimately show ?thesis using d(2,4,5) by simp
qed

lemma decoded_enc:
  "decode1 input = Inr (d, rest) \<Longrightarrow> input = rlp_enc d @ rest"
  "decode_items r = Inr ds \<Longrightarrow> r = concat (map rlp_enc ds)"
proof (induction input and r arbitrary: d rest and ds rule: decode1_decode_items.induct)
  case 1
  then show ?case by (simp add: decode1.simps)
next
  case (2 b bs)
  note hyp = 2
  consider "unat b \<le> 0x7f" | "0x7f < unat b" "unat b \<le> 0xb7" | "0xb7 < unat b" "unat b \<le> 0xbf"
    | "0xbf < unat b" by linarith
  then show ?case
  proof cases
    case 1
    then have "b < 128" by (simp add: word_less_nat_alt)
    with 1 hyp(2) show ?thesis by (auto simp: decode1.simps Let_def)
  next
    case 4
    with hyp(2) obtain inner ds where i: "list_bounds (b # bs) (unat b) = Inr (inner, rest)"
      "decode_items inner = Inr ds" "d = Items ds"
      by (auto simp: decode1.simps Let_def split: sum.splits prod.splits)
    with 4 hyp(1) [of "unat b" "b # bs" "(inner, rest)" inner rest ds] list_bounds_enc [OF i(1)]
    show ?thesis by simp
  next
    case 2
    with hyp(2) show ?thesis by (intro decode_short_item_enc) (auto simp: decode1.simps Let_def)
  next
    case 3
    with hyp(2) show ?thesis by (intro decode_long_item_enc) (auto simp: decode1.simps Let_def)
  qed
next
  case (3 r)
  note hyp = 3
  show ?case
  proof (cases "r = []")
    case False
    with hyp(3) obtain d rest ds' where "decode1 r = Inr (d, rest)" "decode_items rest = Inr ds'" "ds = d # ds'"
      by (auto simp: decode_items.simps [of r] split: sum.splits prod.splits)
    with hyp(1) [OF False] hyp(2) [OF False, of "(d, rest)" d rest] show ?thesis by simp
  qed (use hyp(3) in \<open>simp add: decode_items.simps\<close>)
qed

section \<open>Properties\<close>

text \<open>C13. What is encoded is read back: when \<open>encode\<close> returns bytes for nested arrays of byte arrays, \<open>decode\<close>
  of these bytes returns the same nested arrays, for every nesting and every length below \<open>2 ^ 64\<close>.\<close>

theorem decode_encode:
  assumes "rlp_encode (as_input x) = Inr y" "length y < 2 ^ 64"
  shows "rlp_decode (In_bytes y) False = Inr (Data x)"
proof -
  have "y = rlp_enc x" using encoded_enc [OF assms(1)] assms(2) by simp
  then show ?thesis
    using decode1_enc [of x "[]"] assms(2) rlp_enc_nonempty [of x]
    by (simp add: rlp_decode_def empty_input_def toBytes_def)
qed

theorem decode_encode_witness:
  "rlp_decode (In_bytes [0xc3, 0x81, 0x80, 0xc0]) False = Inr (Data (Items [Item [0x80], Items []]))"
  by (rule decode_encode)
    (simp_all add: toBytes_def encode_item_def encode_list_def encodeLength_def)

text \<open>C14. The decoder accepts nothing but encodings: when \<open>decode\<close> reads a non-empty byte array to its end, the
  encoding of the result is that byte array, so no two byte arrays decode to the same data (headers with
  leading zeros, long headers of short strings and prefixed single bytes are all refused).\<close>

theorem encode_decode:
  assumes "rlp_decode (In_bytes y) False = Inr (Data x)" "y \<noteq> []" "length y < 2 ^ 64"
  shows "rlp_encode (as_input x) = Inr y"
proof -
  have "y = rlp_enc x"
    using assms decoded_enc(1) [of y x "[]"]
    by (auto simp: rlp_decode_def empty_input_def toBytes_def bindS_Inr_iff split: if_splits)
  with assms(3) show ?thesis by (simp add: rlp_encode_enc)
qed

theorem encode_decode_witness: "rlp_encode (as_input (Items [Item [0x80]])) = Inr [0xc2, 0x81, 0x80]"
  by (rule encode_decode)
    (simp_all add: rlp_decode_def empty_input_def toBytes_def decode1.simps decode_items.simps Let_def
      list_bounds_def decode_short_item_def safeSlice_def slice_def)

text \<open>\<open>parseInt\<close> reads a number up to the first character that is no digit, so text that is no hexadecimal
  number passes \<open>hexToBytes\<close>, and so does a sign.\<close>

lemma hexToBytes_accepts_non_hex:
  "hexToBytes ''1g'' = Inr [1]" "hexToBytes ''-f'' = Inr [241]" "hexToBytes ''g1'' = Inl (JsError ''Invalid byte sequence'')"
  by (simp_all add: hexToBytes_def parseHexByte_def parseInt16_def parse_unsigned_def js_space_def hex_val_def)

end
