(* ===== verification/Util_Bytes.thy ===== *)
theory Util_Bytes
  imports Prelude
begin

text \<open>
  The padding helpers of \<open>packages/util/src/bytes.ts\<close> and \<open>types.ts\<close> that the VM calls on
  buffers: \<open>setLength\<close>, \<open>setLengthLeft\<close>, \<open>setLengthRight\<close>, \<open>unpadBuffer\<close> (\<open>stripZeros\<close>) and
  \<open>bnToUnpaddedBuffer\<close>, with what they return: the length asked for, the same number, and the
  shortest representation of a number.
\<close>

text \<open>
  \<open>msg.slice(-length)\<close> with a length of 0 is \<open>msg.slice(-0)\<close>, the whole message: JavaScript has
  no other reading of \<open>-0\<close> there.
\<close>

definition setLength :: "bytes \<Rightarrow> nat \<Rightarrow> bool \<Rightarrow> bytes" where
  "setLength msg len right =
     (if right
      then (if length msg < len then msg @ replicate (len - length msg) 0 else take len msg)
      else (if length msg < len then replicate (len - length msg) 0 @ msg
            else if len = 0 then msg else drop (length msg - len) msg))"

definition setLengthLeft :: "bytes \<Rightarrow> nat \<Rightarrow> bytes" where
  "setLengthLeft msg len = setLength msg len False"

definition setLengthRight :: "bytes \<Rightarrow> nat \<Rightarrow> bytes" where
  "setLengthRight msg len = setLength msg len True"

fun stripZeros :: "bytes \<Rightarrow> bytes" where
  "stripZeros [] = []"
| "stripZeros (b # bs) = (if b = 0 then stripZeros bs else b # bs)"

definition unpadBuffer :: "bytes \<Rightarrow> bytes" where
  "unpadBuffer a = stripZeros a"

definition bnToUnpaddedBuffer :: "int \<Rightarrow> bytes" where
  "bnToUnpaddedBuffer v = unpadBuffer (toArrayLike_min v)"

lemma length_setLengthRight [simp]: "length (setLengthRight msg len) = len"
  by (simp add: setLengthRight_def setLength_def)

lemma length_setLengthLeft [simp]: "0 < len \<Longrightarrow> length (setLengthLeft msg len) = len"
  by (simp add: setLengthLeft_def setLength_def)

lemma setLengthRight_same [simp]: "length msg = len \<Longrightarrow> setLengthRight msg len = msg"
  by (simp add: setLengthRight_def setLength_def)

lemma nth_setLengthRight:
  "i < len \<Longrightarrow> setLengthRight msg len ! i = (if i < length msg then msg ! i else 0)"
  by (simp add: setLengthRight_def setLength_def nth_append)

lemma bn_of_bytes_Cons0 [simp]: "bn_of_bytes (0 # bs) = bn_of_bytes bs"
  by (induction bs rule: rev_induct) (simp_all add: bn_of_bytes_def)

lemma bn_of_bytes_zeros [simp]: "bn_of_bytes (replicate n 0 @ bs) = bn_of_bytes bs"
  by (induction n) auto

lemma bn_of_stripZeros [simp]: "bn_of_bytes (stripZeros bs) = bn_of_bytes bs"
  by (induction bs rule: stripZeros.induct) auto

lemma stripZeros_hd: "stripZeros bs \<noteq> [] \<Longrightarrow> hd (stripZeros bs) \<noteq> 0"
  by (induction bs rule: stripZeros.induct) auto

lemma length_stripZeros: "length (stripZeros bs) \<le> length bs"
  by (induction bs rule: stripZeros.induct) auto

lemma stripZeros_id: "bs = [] \<or> hd bs \<noteq> 0 \<Longrightarrow> stripZeros bs = bs"
  by (cases bs) auto

lemma stripZeros_Nil_iff: "stripZeros bs = [] \<longleftrightarrow> (\<forall>b \<in> set bs. b = 0)"
  by (induction bs rule: stripZeros.induct) auto

lemma stripZeros_setLengthLeft:
  "length bs \<le> n \<Longrightarrow> 0 < n \<Longrightarrow> stripZeros (setLengthLeft bs n) = stripZeros bs"
proof -
  have "stripZeros (replicate k 0 @ bs) = stripZeros bs" for k
    by (induction k) auto
  then show "length bs \<le> n \<Longrightarrow> 0 < n \<Longrightarrow> ?thesis"
    by (simp add: setLengthLeft_def setLength_def)
qed

lemma bn_of_setLengthLeft:
  "length bs \<le> n \<Longrightarrow> 0 < n \<Longrightarrow> bn_of_bytes (setLengthLeft bs n) = bn_of_bytes bs"
  by (simp add: setLengthLeft_def setLength_def)

lemma bn_of_bnToUnpaddedBuffer [simp]: "0 \<le> x \<Longrightarrow> bn_of_bytes (bnToUnpaddedBuffer x) = x"
  by (simp add: bnToUnpaddedBuffer_def unpadBuffer_def)

lemma toArrayLike_min_abs: "toArrayLike_min \<bar>x\<bar> = toArrayLike_min x"
  by (simp add: toArrayLike_min_def byteLength_def)

lemma bn_of_bnToUnpaddedBuffer_abs: "bn_of_bytes (bnToUnpaddedBuffer x) = \<bar>x\<bar>"
  using bn_of_toArrayLike_min [of "\<bar>x\<bar>"]
  by (simp add: bnToUnpaddedBuffer_def unpadBuffer_def toArrayLike_min_abs)

text \<open>Two byte strings without a leading zero are the same when their numbers are.\<close>

lemma bn_of_bytes_append: "bn_of_bytes (xs @ ys) = bn_of_bytes xs * 256 ^ length ys + bn_of_bytes ys"
  by (induction ys rule: rev_induct) (simp_all add: algebra_simps flip: append_assoc)

lemma bn_of_bytes_Cons: "bn_of_bytes (b # bs) = uint b * 256 ^ length bs + bn_of_bytes bs"
  using bn_of_bytes_append [of "[b]" bs] by (simp add: bn_of_bytes_def)

lemma bn_of_bytes_lower:
  assumes "bs \<noteq> []" "hd bs \<noteq> 0" shows "256 ^ (length bs - 1) \<le> bn_of_bytes bs"
proof -
  obtain b cs where bs: "bs = b # cs" using assms by (cases bs) auto
  have "1 \<le> uint b"
    using assms bs by (simp add: bs word_gt_0 word_less_def flip: word_neq_0_conv)
      (metis linorder_not_le uint_0_iff uint_ge_0 zero_less_one_class.zero_le_one
        int_one_le_iff_zero_less order_le_less)
  then have "256 ^ length cs \<le> uint b * 256 ^ length cs"
    using mult_right_mono [of 1 "uint b" "256 ^ length cs"] by simp
  with bn_of_bytes_nonneg [of cs]
  have "256 ^ length cs \<le> uint b * 256 ^ length cs + bn_of_bytes cs" by linarith
  then show ?thesis by (simp only: bs bn_of_bytes_Cons) simp
qed

lemma unpadded_inject:
  assumes "bn_of_bytes xs = bn_of_bytes ys"
    and "xs = [] \<or> hd xs \<noteq> 0" "ys = [] \<or> hd ys \<noteq> 0"
  shows "xs = ys"
proof -
  have le: "length xs \<le> length ys"
    if "bn_of_bytes xs = bn_of_bytes ys" "xs = [] \<or> hd xs \<noteq> 0" for xs ys
  proof (cases "xs = []")
    case False
    then have "256 ^ (length xs - 1) \<le> bn_of_bytes ys"
      using that bn_of_bytes_lower [of xs] by simp
    also have "\<dots> < 256 ^ length ys" by (rule bn_of_bytes_less)
    finally have "length xs - 1 < length ys"
      by (rule power_less_imp_less_exp [rotated]) simp
    then show ?thesis by simp
  qed simp
  have "length xs = length ys"
    using le [of xs ys] le [of ys xs] assms by simp
  then show ?thesis
    by (metis assms(1) be_bytes_bn_of_bytes)
qed

lemma unpadBuffer_min:
  "bnToUnpaddedBuffer (bn_of_bytes bs) = unpadBuffer bs"
proof (rule unpadded_inject)
  show "bn_of_bytes (bnToUnpaddedBuffer (bn_of_bytes bs)) = bn_of_bytes (unpadBuffer bs)"
    by (simp add: unpadBuffer_def)
qed (auto simp: bnToUnpaddedBuffer_def unpadBuffer_def dest: stripZeros_hd)

end
