(* ===== verification/Util_Hex.thy ===== *)
theory Util_Hex
  imports Rlp Util_Bytes
begin

text \<open>
  The conversions of \<open>packages/util/src/bytes.ts\<close> and \<open>internal.ts\<close> between numbers, buffers and
  hexadecimal strings, and the checks of addresses of \<open>account.ts\<close>. A JavaScript string is a
  \<open>string\<close>, as in the theory of the encoding.
\<close>

definition is_hex_char :: "char \<Rightarrow> bool" where
  "is_hex_char c \<longleftrightarrow> hex_val c \<noteq> None"

definition isHexString :: "string \<Rightarrow> nat \<Rightarrow> bool" where
  "isHexString value len \<longleftrightarrow>
     take 2 value = ''0x'' \<and> (\<forall>c \<in> set (drop 2 value). is_hex_char c) \<and>
     (len = 0 \<or> length value = 2 + 2 * len)"

text \<open>\<open>Buffer.from(s, 'hex')\<close> reads pairs of digits up to the first that is none.\<close>

fun buffer_from_hex :: "string \<Rightarrow> bytes" where
  "buffer_from_hex (c # d # s) =
     (case (hex_val c, hex_val d) of
        (Some x, Some y) \<Rightarrow> of_nat (16 * x + y) # buffer_from_hex s
      | _ \<Rightarrow> [])"
| "buffer_from_hex s = []"

definition MAX_SAFE_INTEGER :: int where
  "MAX_SAFE_INTEGER = 2 ^ 53 - 1"

definition intToHex :: "int \<Rightarrow> exn + string" where
  "intToHex i =
     (if i < 0 \<or> MAX_SAFE_INTEGER < i then Inl (JsError ''Received an invalid integer type'')
      else Inr (''0x'' @ toString16 (nat i)))"

definition intToBuffer :: "int \<Rightarrow> exn + bytes" where
  "intToBuffer i = bindS (intToHex i) (\<lambda>hex. Inr (buffer_from_hex (padToEven (drop 2 hex))))"

text \<open>The input of \<open>toBuffer\<close>, by its type.\<close>

datatype to_buffer_input =
    B_null | B_bytes bytes | B_string string | B_number int | B_bn int

definition toBuffer :: "to_buffer_input \<Rightarrow> exn + bytes" where
  "toBuffer v =
     (case v of
        B_null \<Rightarrow> Inr []
      | B_bytes b \<Rightarrow> Inr b
      | B_string s \<Rightarrow>
          if \<not> isHexString s 0
          then Inl (JsError ''Cannot convert string to buffer. toBuffer only supports 0x-prefixed hex strings'')
          else Inr (buffer_from_hex (padToEven (stripHexPrefix s)))
      | B_number n \<Rightarrow> intToBuffer n
      | B_bn n \<Rightarrow> if n < 0 then Inl (JsError ''Cannot convert negative BN to buffer'')
                  else Inr (toArrayLike_min n))"

definition bufferToHex :: "bytes \<Rightarrow> string" where
  "bufferToHex buf = ''0x'' @ bytesToHex buf"

text \<open>\<open>new BN(buf).toNumber()\<close> asserts that the number fits in 53 bits.\<close>

definition bufferToInt :: "bytes \<Rightarrow> exn + int" where
  "bufferToInt buf =
     (let n = bn_of_bytes buf
      in if MAX_SAFE_INTEGER < n then Inl (JsError ''Number can only safely store up to 53 bits'')
         else Inr n)"

definition addHexPrefix :: "string \<Rightarrow> string" where
  "addHexPrefix s = (if isHexPrefixed s then s else ''0x'' @ s)"

fun validateNoLeadingZeroes :: "(string \<times> bytes option) list \<Rightarrow> exn + unit" where
  "validateNoLeadingZeroes [] = Inr ()"
| "validateNoLeadingZeroes ((k, v) # vs) =
     (case v of
        Some b \<Rightarrow> if 0 < length b \<and> b ! 0 = 0 then Inl (JsError (k @ '' cannot have leading zeroes''))
                   else validateNoLeadingZeroes vs
      | None \<Rightarrow> validateNoLeadingZeroes vs)"

section \<open>Addresses as strings\<close>

definition isValidAddress :: "string \<Rightarrow> bool" where
  "isValidAddress hexAddress \<longleftrightarrow>
     take 2 hexAddress = ''0x'' \<and> length hexAddress = 42 \<and>
     (\<forall>c \<in> set (drop 2 hexAddress). is_hex_char c)"

definition lower_char :: "char \<Rightarrow> char" where
  "lower_char c = (let n = (of_char c :: nat) in if 65 \<le> n \<and> n \<le> 90 then char_of (n + 32) else c)"

definition upper_char :: "char \<Rightarrow> char" where
  "upper_char c = (let n = (of_char c :: nat) in if 97 \<le> n \<and> n \<le> 122 then char_of (n - 32) else c)"

text \<open>The decimal digits of a number, for the chain id of EIP-1191.\<close>

fun decimal :: "nat \<Rightarrow> string" where
  "decimal n = (if n < 10 then [char_of (48 + n)] else decimal (n div 10) @ [char_of (48 + n mod 10)])"

declare decimal.simps [simp del]

text \<open>
  \<open>toChecksumAddress\<close>; \<open>keccak\<close> is the hash of the string's bytes, a digit of the hash that is
  missing is \<open>NaN\<close>, which is not at least 8.
\<close>

fun checksum_chars :: "string \<Rightarrow> string \<Rightarrow> string" where
  "checksum_chars [] hash = []"
| "checksum_chars (c # cs) hash =
     (if hash \<noteq> [] \<and> (case hex_val (hd hash) of Some d \<Rightarrow> 8 \<le> d | None \<Rightarrow> False)
      then upper_char c else c) # checksum_chars cs (tl hash)"

definition toChecksumAddress :: "(bytes \<Rightarrow> bytes) \<Rightarrow> string \<Rightarrow> int option \<Rightarrow> exn + string" where
  "toChecksumAddress keccak hexAddress eip1191ChainId =
     (if \<not> isHexString hexAddress 0
      then Inl (JsError ''This method only supports 0x-prefixed hex strings'')
      else
        (let address = map lower_char (stripHexPrefix hexAddress);
             prefix = (case eip1191ChainId of None \<Rightarrow> [] | Some n \<Rightarrow> decimal (nat n) @ ''0x'');
             hash = bytesToHex (keccak (utf8ToBytes (prefix @ address)))
         in Inr (''0x'' @ checksum_chars address hash)))"

definition isValidChecksumAddress :: "(bytes \<Rightarrow> bytes) \<Rightarrow> string \<Rightarrow> int option \<Rightarrow> bool" where
  "isValidChecksumAddress keccak hexAddress eip1191ChainId \<longleftrightarrow>
     isValidAddress hexAddress \<and> toChecksumAddress keccak hexAddress eip1191ChainId = Inr hexAddress"

definition isZeroAddress :: "string \<Rightarrow> bool" where
  "isZeroAddress hexAddress \<longleftrightarrow> bufferToHex (replicate 20 0) = hexAddress"

section \<open>Lemmas\<close>

lemma buffer_from_hex_bytesToHex [simp]: "buffer_from_hex (bytesToHex bs) = bs"
proof (induction bs)
  case (Cons b bs)
  have "unat b div 16 < 16" "unat b mod 16 < 16" using unat_byte [of b] by simp_all
  then show ?case using Cons.IH
    by (simp add: bytesToHex_def byte_hex_def mult.commute)
qed (simp add: bytesToHex_def)

lemma is_hex_bytesToHex: "c \<in> set (bytesToHex bs) \<Longrightarrow> is_hex_char c"
proof (induction bs)
  case (Cons b bs)
  have "unat b div 16 < 16" "unat b mod 16 < 16" using unat_byte [of b] by simp_all
  then show ?case using Cons by (auto simp: bytesToHex_def byte_hex_def is_hex_char_def)
qed (simp add: bytesToHex_def)

lemma isHexString_bufferToHex [simp]: "isHexString (bufferToHex bs) 0"
  by (auto simp: isHexString_def bufferToHex_def intro: is_hex_bytesToHex)

lemma toBuffer_bufferToHex [simp]: "toBuffer (B_string (bufferToHex bs)) = Inr bs"
  by (simp add: toBuffer_def) (simp add: bufferToHex_def stripHexPrefix_def isHexPrefixed_def
      padToEven_def length_bytesToHex)

lemma validateNoLeadingZeroes_iff:
  "validateNoLeadingZeroes vs = Inr () \<longleftrightarrow>
     (\<forall>(k, v) \<in> set vs. \<forall>b. v = Some b \<longrightarrow> b = [] \<or> hd b \<noteq> 0)"
  by (induction vs rule: validateNoLeadingZeroes.induct)
    (auto split: option.splits simp: hd_conv_nth)

lemma hd_bnToUnpaddedBuffer: "bnToUnpaddedBuffer x = [] \<or> hd (bnToUnpaddedBuffer x) \<noteq> 0"
  using stripZeros_hd by (auto simp: bnToUnpaddedBuffer_def unpadBuffer_def)

end
