(* ===== verification/Signature.thy ===== *)
theory Signature
  imports Util_Hex
begin

text \<open>
  \<open>packages/util/src/signature.ts\<close>: signatures with their recovery bit, and the forms in which RPC
  calls pass them. The curve operations of the package \<open>ethereum-cryptography\<close> are arguments:
  \<open>sign msgHash key\<close> is \<open>ecdsaSign\<close> (64 bytes and the recovery bit, or an exception), and
  \<open>recover signature recovery msgHash\<close> is \<open>ecdsaRecover\<close>, converted to an uncompressed key and
  without its type byte. Chain ids and \<open>v\<close> are \<open>BN\<close>s.
\<close>

record ECDSASignature =
  sig_v :: int
  sig_r :: bytes
  sig_s :: bytes

definition ecsign ::
  "(bytes \<Rightarrow> bytes \<Rightarrow> exn + bytes \<times> nat) \<Rightarrow> bytes \<Rightarrow> bytes \<Rightarrow> exn + ECDSASignature" where
  "ecsign sign msgHash privateKey =
     bindS (sign msgHash privateKey) (\<lambda>(signature, recovery).
       Inr \<lparr>sig_v = int recovery + 27, sig_r = slice signature 0 32, sig_s = slice signature 32 64\<rparr>)"

definition ecsign_chainId ::
  "(bytes \<Rightarrow> bytes \<Rightarrow> exn + bytes \<times> nat) \<Rightarrow> bytes \<Rightarrow> bytes \<Rightarrow> int \<Rightarrow> exn + bytes \<times> bytes \<times> bytes" where
  "ecsign_chainId sign msgHash privateKey chainId =
     bindS (sign msgHash privateKey) (\<lambda>(signature, recovery).
       Inr (toArrayLike_min (chainId * 2 + 35 + int recovery), slice signature 0 32,
            slice signature 32 64))"

definition calculateSigRecovery :: "int \<Rightarrow> int option \<Rightarrow> int" where
  "calculateSigRecovery v chainId =
     (if v = 0 \<or> v = 1 then v
      else case chainId of None \<Rightarrow> v - 27 | Some c \<Rightarrow> v - (c * 2 + 35))"

definition isValidSigRecovery :: "int \<Rightarrow> bool" where
  "isValidSigRecovery recovery \<longleftrightarrow> recovery = 0 \<or> recovery = 1"

text \<open>Both halves have 32 bytes, so the total length 64 of \<open>Buffer.concat\<close> cuts nothing.\<close>

definition ecrecover ::
  "(bytes \<Rightarrow> nat \<Rightarrow> bytes \<Rightarrow> bytes option) \<Rightarrow> bytes \<Rightarrow> int \<Rightarrow> bytes \<Rightarrow> bytes \<Rightarrow> int option \<Rightarrow> exn + bytes" where
  "ecrecover recover msgHash v r s chainId =
     (let signature = setLengthLeft r 32 @ setLengthLeft s 32;
          recovery = calculateSigRecovery v chainId
      in if \<not> isValidSigRecovery recovery then Inl (JsError ''Invalid signature v value'')
         else (case recover signature (nat recovery) msgHash of
                 None \<Rightarrow> Inl (JsError ''Public key could not be recover'')
               | Some key \<Rightarrow> Inr key))"

definition toRpcSig :: "int \<Rightarrow> bytes \<Rightarrow> bytes \<Rightarrow> int option \<Rightarrow> exn + string" where
  "toRpcSig v r s chainId =
     (if \<not> isValidSigRecovery (calculateSigRecovery v chainId)
      then Inl (JsError ''Invalid signature v value'')
      else bindS (toBuffer (B_bn v)) (\<lambda>vB.
        Inr (bufferToHex (setLengthLeft r 32 @ setLengthLeft s 32 @ vB))))"

text \<open>
  \<open>toType(v, TypeOutput.Number)\<close> throws for a number above 53 bits. The top bit of the first byte
  of \<open>s\<close> carries the parity; assigning to index 0 of an empty buffer does nothing.
\<close>

definition or_first :: "byte \<Rightarrow> bytes \<Rightarrow> bytes" where
  "or_first m s = (case s of [] \<Rightarrow> [] | b # bs \<Rightarrow> or b m # bs)"

definition and_first :: "byte \<Rightarrow> bytes \<Rightarrow> bytes" where
  "and_first m s = (case s of [] \<Rightarrow> [] | b # bs \<Rightarrow> and b m # bs)"

definition toCompactSig :: "int \<Rightarrow> bytes \<Rightarrow> bytes \<Rightarrow> int option \<Rightarrow> exn + string" where
  "toCompactSig v r s chainId =
     (if \<not> isValidSigRecovery (calculateSigRecovery v chainId)
      then Inl (JsError ''Invalid signature v value'')
      else if MAX_SAFE_INTEGER < v
      then Inl (JsError ''The provided number is greater than MAX_SAFE_INTEGER'')
      else
        (let ss = (if 28 < v \<and> v mod 2 = 1 \<or> v = 1 \<or> v = 28 then or_first 128 s else s)
         in Inr (bufferToHex (setLengthLeft r 32 @ setLengthLeft ss 32))))"

definition fromRpcSig :: "string \<Rightarrow> exn + ECDSASignature" where
  "fromRpcSig sig =
     bindS (toBuffer (B_string sig)) (\<lambda>buf.
     bindS (if 65 \<le> length buf
            then bindS (bufferToInt (drop 64 buf)) (\<lambda>v. Inr (v, slice buf 32 64))
            else if length buf = 64
            then Inr (int (unat (drop_bit 7 (buf ! 32))), and_first 127 (slice buf 32 64))
            else Inl (JsError ''Invalid signature length'')) (\<lambda>(v, s).
       Inr \<lparr>sig_v = (if v < 27 then v + 27 else v), sig_r = slice buf 0 32, sig_s = s\<rparr>))"

definition SECP256K1_N_DIV_2 :: int where
  "SECP256K1_N_DIV_2 = 0x7fffffffffffffffffffffffffffffff5d576e7357a4501ddfe92f46681b20a0"

definition SECP256K1_N :: int where
  "SECP256K1_N = 0xfffffffffffffffffffffffffffffffebaaedce6af48a03bbfd25e8cd0364141"

definition isValidSignature :: "int \<Rightarrow> bytes \<Rightarrow> bytes \<Rightarrow> bool \<Rightarrow> int option \<Rightarrow> bool" where
  "isValidSignature v r s homesteadOrLater chainId =
     (if length r \<noteq> 32 \<or> length s \<noteq> 32 then False
      else if \<not> isValidSigRecovery (calculateSigRecovery v chainId) then False
      else
        (let rBN = bn_of_bytes r; sBN = bn_of_bytes s
         in if rBN = 0 \<or> SECP256K1_N < rBN \<or> sBN = 0 \<or> SECP256K1_N < sBN then False
            else if homesteadOrLater \<and> SECP256K1_N_DIV_2 < sBN then False
            else True))"

definition hashPersonalMessage :: "(bytes \<Rightarrow> bytes) \<Rightarrow> bytes \<Rightarrow> bytes" where
  "hashPersonalMessage keccak message =
     keccak (utf8ToBytes (char_of (25 :: nat) # ''Ethereum Signed Message:'' @ [char_of (10 :: nat)] @
       decimal (length message)) @ message)"

section \<open>Round trips\<close>

lemma fromRpcSig_toRpcSig:
  assumes "v = 27 \<or> v = 28" "length r = 32" "length s = 32"
  shows "bindS (toRpcSig v r s None) fromRpcSig = Inr \<lparr>sig_v = v, sig_r = r, sig_s = s\<rparr>"
proof -
  have small: "toArrayLike_min 27 = [27]" "toArrayLike_min 28 = [28]" by code_simp+
  have "setLengthLeft r 32 = r" "setLengthLeft s 32 = s"
    using assms by (simp_all add: setLengthLeft_def setLength_def)
  moreover have "bufferToInt [27] = Inr 27" "bufferToInt [28] = Inr 28" by code_simp+
  ultimately show ?thesis using assms(1,2,3)
    by (elim disjE) (simp_all add: toRpcSig_def fromRpcSig_def isValidSigRecovery_def
        calculateSigRecovery_def toBuffer_def [of "B_bn _"] small slice_def)
qed

lemma top_bit:
  fixes b :: byte
  assumes "b < 128"
  shows "and b 127 = b" "and (or b 128) 127 = b" "drop_bit 7 b = 0" "drop_bit 7 (or b 128) = 1"
proof -
  have "\<forall>n \<in> set [0..<128]. let b = (of_nat n :: byte) in and b 127 = b \<and> and (or b 128) 127 = b \<and>
      drop_bit 7 b = 0 \<and> drop_bit 7 (or b 128) = 1"
    by code_simp
  moreover have "unat b \<in> set [0..<128]" using assms by (simp add: word_less_nat_alt)
  ultimately have "let c = (of_nat (unat b) :: byte) in and c 127 = c \<and> and (or c 128) 127 = c \<and>
      drop_bit 7 c = 0 \<and> drop_bit 7 (or c 128) = 1" by (rule bspec)
  then show "and b 127 = b" "and (or b 128) 127 = b" "drop_bit 7 b = 0" "drop_bit 7 (or b 128) = 1"
    by (simp_all add: Let_def)
qed

text \<open>The forms in which RPC calls pass a signature are read back as they were written: the 65
  bytes of r, s and v, and the compact form in which the top bit of s carries the parity of v, for
  every s below half of its range, as a valid signature has it.\<close>

theorem rpc_sig_roundtrip:
  assumes "v = 27 \<or> v = 28" "length r = 32" "length s = 32"
  shows "bindS (toRpcSig v r s None) fromRpcSig = Inr \<lparr>sig_v = v, sig_r = r, sig_s = s\<rparr> \<and>
    (s ! 0 < 128 \<longrightarrow>
      bindS (toCompactSig v r s None) fromRpcSig = Inr \<lparr>sig_v = v, sig_r = r, sig_s = s\<rparr>)"
proof (intro conjI impI)
  show "bindS (toRpcSig v r s None) fromRpcSig = Inr \<lparr>sig_v = v, sig_r = r, sig_s = s\<rparr>"
    by (rule fromRpcSig_toRpcSig [OF assms])
next
  assume top: "s ! 0 < 128"
  obtain b bs where s: "s = b # bs" using assms(3) by (cases s) auto
  with top have b: "b < 128" by simp
  have same: "setLengthLeft x 32 = x" if "length x = 32" for x
    using that by (simp add: setLengthLeft_def setLength_def)
  show "bindS (toCompactSig v r s None) fromRpcSig = Inr \<lparr>sig_v = v, sig_r = r, sig_s = s\<rparr>"
    using assms top_bit [OF b]
    by (elim disjE) (simp_all add: s toCompactSig_def fromRpcSig_def isValidSigRecovery_def
        calculateSigRecovery_def MAX_SAFE_INTEGER_def same or_first_def and_first_def slice_def
        nth_append)
qed

theorem rpc_sig_roundtrip_witness:
  "bindS (toCompactSig 28 (replicate 32 200) (replicate 32 100) None) fromRpcSig =
     Inr \<lparr>sig_v = 28, sig_r = replicate 32 200, sig_s = replicate 32 100\<rparr>"
  using rpc_sig_roundtrip [of 28 "replicate 32 200" "replicate 32 100"] by simp

end
