(* ===== verification/Checkpoints.thy ===== *)
theory Checkpoints
  imports Prelude
begin

text \<open>
  The interface of a store with nested checkpoints, as the EVM uses its state manager and its
  transient storage: \<open>checkpoint\<close> on entering a message, \<open>commit\<close> or \<open>revert\<close> on leaving it.
  \<open>cur\<close> is what can be observed of the store, \<open>saved\<close> the observations at the open checkpoints,
  innermost first. The laws say what each operation does to the two; the lemmas say what a
  message that is entered and left does, however its body nests further messages.
\<close>

locale checkpointed =
  fixes checkpoint commit revert :: "('s, unit) eff"
    and cur :: "'s \<Rightarrow> 'v"
    and saved :: "'s \<Rightarrow> 'v list"
    and inv :: "'s \<Rightarrow> bool"
    and writes :: "'s \<Rightarrow> 's \<Rightarrow> bool"
  assumes checkpoint_ok: "inv s \<Longrightarrow> \<exists>s'. checkpoint s = (Inr (), s') \<and> inv s' \<and>
      cur s' = cur s \<and> saved s' = cur s # saved s"
    and commit_ok: "inv s \<Longrightarrow> saved s = v # vs \<Longrightarrow> \<exists>s'. commit s = (Inr (), s') \<and> inv s' \<and>
      cur s' = cur s \<and> saved s' = vs"
    and revert_ok: "inv s \<Longrightarrow> saved s = v # vs \<Longrightarrow> \<exists>s'. revert s = (Inr (), s') \<and> inv s' \<and>
      cur s' = v \<and> saved s' = vs"
    and writes_ok: "inv s \<Longrightarrow> writes s s' \<Longrightarrow> inv s' \<and> saved s' = saved s"
begin

text \<open>The runs of a message's body: writes, and further messages that are entered and left.\<close>

inductive body :: "'s \<Rightarrow> 's \<Rightarrow> bool" where
  body_done: "body s s"
| body_write: "writes s t \<Longrightarrow> body t u \<Longrightarrow> body s u"
| body_commit: "checkpoint s = (Inr (), t) \<Longrightarrow> body t u \<Longrightarrow> commit u = (Inr (), v) \<Longrightarrow>
    body v w \<Longrightarrow> body s w"
| body_revert: "checkpoint s = (Inr (), t) \<Longrightarrow> body t u \<Longrightarrow> revert u = (Inr (), v) \<Longrightarrow>
    body v w \<Longrightarrow> body s w"

lemma body_saved: "body s t \<Longrightarrow> inv s \<Longrightarrow> inv t \<and> saved t = saved s"
proof (induction rule: body.induct)
  case (body_write s t u)
  then show ?case using writes_ok by metis
next
  case (body_commit s t u v w)
  obtain t' where "checkpoint s = (Inr (), t')" "inv t'" "saved t' = cur s # saved s"
    using checkpoint_ok body_commit.prems by blast
  with body_commit have u: "inv u" "saved u = cur s # saved s" by auto
  from commit_ok [OF u] body_commit show ?case by auto
next
  case (body_revert s t u v w)
  obtain t' where "checkpoint s = (Inr (), t')" "inv t'" "saved t' = cur s # saved s"
    using checkpoint_ok body_revert.prems by blast
  with body_revert have u: "inv u" "saved u = cur s # saved s" by auto
  from revert_ok [OF u] body_revert show ?case by auto
qed simp

lemma revert_restores:
  assumes "inv s" "checkpoint s = (Inr (), t)" "body t u"
  shows "\<exists>s'. revert u = (Inr (), s') \<and> inv s' \<and> cur s' = cur s \<and> saved s' = saved s"
proof -
  have "inv t" "saved t = cur s # saved s"
    using checkpoint_ok [OF assms(1)] assms(2) by auto
  with body_saved [OF assms(3)] have "inv u" "saved u = cur s # saved s" by auto
  then show ?thesis by (rule revert_ok)
qed

lemma commit_keeps:
  assumes "inv s" "checkpoint s = (Inr (), t)" "body t u"
  shows "\<exists>s'. commit u = (Inr (), s') \<and> inv s' \<and> cur s' = cur u \<and> saved s' = saved s"
proof -
  have "inv t" "saved t = cur s # saved s"
    using checkpoint_ok [OF assms(1)] assms(2) by auto
  with body_saved [OF assms(3)] have "inv u" "saved u = cur s # saved s" by auto
  then show ?thesis by (rule commit_ok)
qed

end

end
