(* ===== verification/Account_Cache.thy ===== *)
theory Account_Cache
  imports Checkpoints Util_Bytes
begin

text \<open>
  The account of \<open>packages/util/src/account.ts\<close> and the write-back cache of accounts of
  \<open>vm/src/state/cache.ts\<close>. The cache keeps every account in its serialised form; the RLP package
  that packs and unpacks the four fields is an external one, so the model keeps the list of the
  four fields that \<open>raw()\<close> gives and \<open>fromValuesArray\<close> takes. The red-black tree of the cache is a
  map from addresses; it is persistent, so the checkpoint stack holds the trees themselves.
\<close>

section \<open>Accounts\<close>

definition KECCAK256_NULL :: bytes where
  "KECCAK256_NULL = [0xc5, 0xd2, 0x46, 0x01, 0x86, 0xf7, 0x23, 0x3c, 0x92, 0x7e, 0x7d, 0xb2, 0xdc, 0xc7, 0x03, 0xc0, 0xe5, 0x00, 0xb6, 0x53, 0xca, 0x82, 0x27, 0x3b, 0x7b, 0xfa, 0xd8, 0x04, 0x5d, 0x85, 0xa4, 0x70]"

definition KECCAK256_RLP :: bytes where
  "KECCAK256_RLP = [0x56, 0xe8, 0x1f, 0x17, 0x1b, 0xcc, 0x55, 0xa6, 0xff, 0x83, 0x45, 0xe6, 0x92, 0xc0, 0xf8, 0x6e, 0x5b, 0x48, 0xe0, 0x1b, 0x99, 0x6c, 0xad, 0xc0, 0x01, 0x62, 0x2f, 0xb5, 0xe3, 0x63, 0xb4, 0x21]"

definition MAX_UINT64 :: int where
  "MAX_UINT64 = 2 ^ 64 - 1"

record account =
  acc_nonce :: int
  acc_balance :: int
  acc_stateRoot :: bytes
  acc_codeHash :: bytes

definition acc_validate :: "account \<Rightarrow> exn + account" where
  "acc_validate a =
     (if acc_nonce a < 0 then Inl (JsError ''nonce must be greater than zero'')
      else if acc_balance a < 0 then Inl (JsError ''balance must be greater than zero'')
      else if length (acc_stateRoot a) \<noteq> 32 then Inl (JsError ''stateRoot must have a length of 32'')
      else if length (acc_codeHash a) \<noteq> 32 then Inl (JsError ''codeHash must have a length of 32'')
      else Inr a)"

text \<open>\<open>new Account()\<close> with the default values of the constructor.\<close>

definition new_account :: account where
  "new_account = \<lparr>acc_nonce = 0, acc_balance = 0, acc_stateRoot = KECCAK256_RLP, acc_codeHash = KECCAK256_NULL\<rparr>"

text \<open>
  \<open>raw()\<close>; \<open>toArrayLike\<close> writes the magnitude of a number, so a negative balance is not told from
  a positive one.
\<close>

definition acc_raw :: "account \<Rightarrow> bytes list" where
  "acc_raw a = [bnToUnpaddedBuffer (acc_nonce a), bnToUnpaddedBuffer (acc_balance a),
     acc_stateRoot a, acc_codeHash a]"

text \<open>Destructuring a shorter array leaves \<open>undefined\<close>, for which the defaults stand in.\<close>

definition nth_or :: "'a list \<Rightarrow> nat \<Rightarrow> 'a \<Rightarrow> 'a" where
  "nth_or xs i d = (if i < length xs then xs ! i else d)"

definition fromValuesArray :: "bytes list \<Rightarrow> exn + account" where
  "fromValuesArray values =
     acc_validate \<lparr>acc_nonce = bn_of_bytes (nth_or values 0 []),
       acc_balance = bn_of_bytes (nth_or values 1 []),
       acc_stateRoot = nth_or values 2 KECCAK256_RLP,
       acc_codeHash = nth_or values 3 KECCAK256_NULL\<rparr>"

definition isContract :: "account \<Rightarrow> bool" where
  "isContract a \<longleftrightarrow> acc_codeHash a \<noteq> KECCAK256_NULL"

definition isEmpty :: "account \<Rightarrow> bool" where
  "isEmpty a \<longleftrightarrow> acc_balance a = 0 \<and> acc_nonce a = 0 \<and> acc_codeHash a = KECCAK256_NULL"

definition acc_wf :: "account \<Rightarrow> bool" where
  "acc_wf a \<longleftrightarrow> 0 \<le> acc_nonce a \<and> length (acc_stateRoot a) = 32 \<and> length (acc_codeHash a) = 32"

lemma length_KECCAK [simp]: "length KECCAK256_NULL = 32" "length KECCAK256_RLP = 32"
  by (simp_all add: KECCAK256_NULL_def KECCAK256_RLP_def)

lemma new_account_wf [simp]: "acc_wf new_account"
  by (simp add: acc_wf_def new_account_def)

text \<open>Reading back what was written: the same account, except for the sign of the balance.\<close>

lemma fromValuesArray_raw:
  "acc_wf a \<Longrightarrow> fromValuesArray (acc_raw a) = Inr (a\<lparr>acc_balance := \<bar>acc_balance a\<bar>\<rparr>)"
  by (simp add: fromValuesArray_def acc_raw_def nth_or_def acc_validate_def acc_wf_def
      bn_of_bnToUnpaddedBuffer_abs)

lemma fromValuesArray_wf: "fromValuesArray vs = Inr a \<Longrightarrow> acc_wf a \<and> 0 \<le> acc_balance a"
  by (auto simp: fromValuesArray_def acc_validate_def acc_wf_def split: if_splits)

section \<open>The cache\<close>

record cache_entry =
  e_val :: "bytes list"
  e_modified :: bool
  e_deleted :: bool
  e_virtual :: bool

type_synonym cache_tree = "bytes \<rightharpoonup> cache_entry"

record cache =
  c_cache :: cache_tree
  c_checkpoints :: "cache_tree list"

definition new_cache :: cache where
  "new_cache = \<lparr>c_cache = Map.empty, c_checkpoints = []\<rparr>"

definition cache_update :: "bytes \<Rightarrow> account \<Rightarrow> bool \<Rightarrow> bool \<Rightarrow> bool \<Rightarrow> (cache, unit) eff" where
  "cache_update key val modified deleted virtual =
     modif (\<lambda>c. c\<lparr>c_cache := (c_cache c)(key \<mapsto>
       \<lparr>e_val = acc_raw val, e_modified = modified, e_deleted = deleted, e_virtual = virtual\<rparr>)\<rparr>)"

definition cache_put :: "bytes \<Rightarrow> account \<Rightarrow> bool \<Rightarrow> (cache, unit) eff" where
  "cache_put key val fromTrie = (let modified = \<not> fromTrie in cache_update key val modified False False)"

text \<open>\<open>lookup\<close> returns the account and the \<open>virtual\<close> mark it attaches to it.\<close>

definition cache_lookup :: "bytes \<Rightarrow> (cache, (account \<times> bool) option) eff" where
  "cache_lookup key = bnd (gets (\<lambda>c. c_cache c key)) (\<lambda>it.
     case it of
       None \<Rightarrow> ret None
     | Some e \<Rightarrow> bnd (of_sum (fromValuesArray (e_val e))) (\<lambda>a. ret (Some (a, e_virtual e))))"

definition cache_get :: "bytes \<Rightarrow> (cache, account) eff" where
  "cache_get key = bnd (cache_lookup key) (\<lambda>r.
     case r of None \<Rightarrow> ret new_account | Some (a, v) \<Rightarrow> ret a)"

definition cache_keyIsDeleted :: "bytes \<Rightarrow> (cache, bool) eff" where
  "cache_keyIsDeleted key = gets (\<lambda>c. case c_cache c key of None \<Rightarrow> False | Some e \<Rightarrow> e_deleted e)"

text \<open>The callbacks: \<open>getCb\<close> reads the trie, a map to serialised accounts.\<close>

definition getCb :: "(bytes \<rightharpoonup> bytes list) \<Rightarrow> bytes \<Rightarrow> exn + account option" where
  "getCb trie a = (case trie a of None \<Rightarrow> Inr None | Some v \<Rightarrow> map_sum id Some (fromValuesArray v))"

definition cache_getOrLoad :: "(bytes \<rightharpoonup> bytes list) \<Rightarrow> bytes \<Rightarrow> (cache, account) eff" where
  "cache_getOrLoad trie addr = bnd (cache_lookup addr) (\<lambda>r.
     case r of
       Some (a, v) \<Rightarrow> ret a
     | None \<Rightarrow> bnd (of_sum (getCb trie addr)) (\<lambda>loaded.
         case loaded of
           Some a \<Rightarrow> andthen (cache_update addr a False False False) (ret a)
         | None \<Rightarrow> andthen (cache_update addr new_account False False True) (ret new_account)))"

text \<open>
  \<open>flush\<close> visits the entries in the order of their keys and writes each modified one to the trie,
  or removes it from the trie when it was deleted. Different entries have different keys, so what
  is left does not depend on the order. It runs when no checkpoint is open: no checkpoint shares
  the entries that it marks.
\<close>

definition flush_entry :: "cache_entry \<Rightarrow> cache_entry" where
  "flush_entry e =
     (if e_modified e \<and> \<not> e_deleted e then e\<lparr>e_modified := False\<rparr>
      else if e_modified e \<and> e_deleted e
      then e\<lparr>e_modified := False, e_deleted := True, e_virtual := True, e_val := acc_raw new_account\<rparr>
      else e)"

definition flush_trie :: "cache_tree \<Rightarrow> (bytes \<rightharpoonup> bytes list) \<Rightarrow> (bytes \<rightharpoonup> bytes list)" where
  "flush_trie c trie = (\<lambda>k. case c k of
       None \<Rightarrow> trie k
     | Some e \<Rightarrow> if e_modified e \<and> \<not> e_deleted e then Some (e_val e)
                 else if e_modified e \<and> e_deleted e then None else trie k)"

definition cache_flush :: "(bytes \<rightharpoonup> bytes list) \<Rightarrow> (cache, bytes \<rightharpoonup> bytes list) eff" where
  "cache_flush trie = bnd (gets c_cache) (\<lambda>t.
     andthen (modif (\<lambda>c. c\<lparr>c_cache := (\<lambda>k. map_option flush_entry (t k))\<rparr>))
       (ret (flush_trie t trie)))"

definition cache_checkpoint :: "(cache, unit) eff" where
  "cache_checkpoint = modif (\<lambda>c. c\<lparr>c_checkpoints := c_cache c # c_checkpoints c\<rparr>)"

text \<open>
  \<open>pop\<close> of an empty array is \<open>undefined\<close>; a cache without a tree fails at its next use, which the
  model reports at once. The state manager never gets there: its trie throws first.
\<close>

definition cache_revert :: "(cache, unit) eff" where
  "cache_revert = bnd (gets c_checkpoints) (\<lambda>cps.
     case cps of
       [] \<Rightarrow> raise (JsError ''cache reverted without a checkpoint'')
     | t # rest \<Rightarrow> modif (\<lambda>c. c\<lparr>c_cache := t, c_checkpoints := rest\<rparr>))"

definition cache_commit :: "(cache, unit) eff" where
  "cache_commit = modif (\<lambda>c. c\<lparr>c_checkpoints := tl (c_checkpoints c)\<rparr>)"

definition cache_clear :: "(cache, unit) eff" where
  "cache_clear = modif (\<lambda>c. c\<lparr>c_cache := Map.empty\<rparr>)"

definition cache_del :: "bytes \<Rightarrow> (cache, unit) eff" where
  "cache_del key = cache_update key new_account True True True"

section \<open>Checkpoints of the cache\<close>

definition cache_writes :: "cache \<Rightarrow> cache \<Rightarrow> bool" where
  "cache_writes c c' \<longleftrightarrow> (\<exists>t. c' = c\<lparr>c_cache := t\<rparr>)"

interpretation acc_cache: checkpointed cache_checkpoint cache_commit cache_revert c_cache
  c_checkpoints "\<lambda>_. True" cache_writes
  by unfold_locales
    (auto simp: cache_checkpoint_def cache_commit_def cache_revert_def eff_defs cache_writes_def)

section \<open>The account behind an address\<close>

text \<open>
  What a read of an address gives, through the cache or from the trie behind it. \<open>tree_ok\<close> is the
  invariant of the entries: each holds a serialised account, and a deleted one an empty account.
\<close>

definition raw_at :: "(bytes \<rightharpoonup> bytes list) \<Rightarrow> cache_tree \<Rightarrow> bytes \<Rightarrow> bytes list" where
  "raw_at trie t a =
     (case t a of Some e \<Rightarrow> e_val e
      | None \<Rightarrow> (case trie a of Some v \<Rightarrow> v | None \<Rightarrow> acc_raw new_account))"

definition good_raw :: "bytes list \<Rightarrow> bool" where
  "good_raw v \<longleftrightarrow> (\<exists>a. v = acc_raw a)"

definition tree_ok :: "cache_tree \<Rightarrow> bool" where
  "tree_ok t \<longleftrightarrow> (\<forall>k e. t k = Some e \<longrightarrow> good_raw (e_val e) \<and>
     (e_deleted e \<longrightarrow> e_val e = acc_raw new_account))"

definition trie_ok :: "(bytes \<rightharpoonup> bytes list) \<Rightarrow> bool" where
  "trie_ok trie \<longleftrightarrow> (\<forall>k v. trie k = Some v \<longrightarrow> good_raw v)"

lemma good_raw_acc_raw [simp]: "good_raw (acc_raw a)"
  by (auto simp: good_raw_def)

lemma bnToUnpaddedBuffer_abs [simp]: "bnToUnpaddedBuffer \<bar>x\<bar> = bnToUnpaddedBuffer x"
  by (simp add: bnToUnpaddedBuffer_def toArrayLike_min_abs)

lemma fromValuesArray_new [simp]: "fromValuesArray (acc_raw new_account) = Inr new_account"
proof -
  have "new_account\<lparr>acc_balance := \<bar>acc_balance new_account\<bar>\<rparr> = new_account"
    by (simp add: new_account_def)
  then show ?thesis using fromValuesArray_raw [OF new_account_wf] by simp
qed

text \<open>What was read can be written back without a change.\<close>

lemma acc_raw_from:
  "good_raw v \<Longrightarrow> fromValuesArray v = Inr a \<Longrightarrow> acc_raw a = v"
  by (auto simp: good_raw_def acc_raw_def fromValuesArray_def acc_validate_def nth_or_def
      bn_of_bnToUnpaddedBuffer_abs split: if_splits)

lemma raw_at_good: "tree_ok t \<Longrightarrow> trie_ok trie \<Longrightarrow> good_raw (raw_at trie t a)"
  by (auto simp: raw_at_def tree_ok_def trie_ok_def split: option.split)

lemma raw_at_upd_same: "raw_at trie t a = v \<Longrightarrow> e_val e = v \<Longrightarrow> raw_at trie (t(a \<mapsto> e)) = raw_at trie t"
  by (auto simp: raw_at_def fun_eq_iff)

lemma raw_at_upd: "raw_at trie (t(a \<mapsto> e)) = (raw_at trie t)(a := e_val e)"
  by (auto simp: raw_at_def fun_eq_iff)

lemma tree_ok_update:
  "tree_ok t \<Longrightarrow> (d \<Longrightarrow> a = new_account) \<Longrightarrow>
     tree_ok (t(k \<mapsto> \<lparr>e_val = acc_raw a, e_modified = m, e_deleted = d, e_virtual = v\<rparr>))"
  by (auto simp: tree_ok_def)

text \<open>
  A load returns what the address reads, marks the cache at that address, and changes no reading.
\<close>

lemma cache_getOrLoad_result:
  assumes "tree_ok (c_cache c)" "trie_ok trie"
  obtains c' where "cache_getOrLoad trie a c = (fromValuesArray (raw_at trie (c_cache c) a), c')"
    "c_checkpoints c' = c_checkpoints c" "tree_ok (c_cache c')"
    "raw_at trie (c_cache c') = raw_at trie (c_cache c)" "dom (c_cache c) \<subseteq> dom (c_cache c')"
    "\<And>x. fromValuesArray (raw_at trie (c_cache c) a) = Inr x \<Longrightarrow> a \<in> dom (c_cache c')"
proof (cases "c_cache c a")
  case (Some e)
  have "cache_getOrLoad trie a c = (fromValuesArray (raw_at trie (c_cache c) a), c)"
    using Some by (auto simp: cache_getOrLoad_def cache_lookup_def eff_defs raw_at_def
        split: sum.split prod.split)
  then show thesis using assms Some that [of c] by auto
next
  case None
  have good: "good_raw (raw_at trie (c_cache c) a)" using assms by (rule raw_at_good)
  show thesis
  proof (cases "fromValuesArray (raw_at trie (c_cache c) a)")
    case (Inl x)
    then obtain v where v: "trie a = Some v" "raw_at trie (c_cache c) a = v"
      using None by (cases "trie a") (auto simp: raw_at_def)
    then have "cache_getOrLoad trie a c = (fromValuesArray (raw_at trie (c_cache c) a), c)"
      using None Inl by (simp add: cache_getOrLoad_def cache_lookup_def getCb_def eff_defs)
    then show thesis using assms Inl that [of c] by auto
  next
    case (Inr x)
    have x: "acc_raw x = raw_at trie (c_cache c) a" using acc_raw_from [OF good Inr] .
    obtain virt where run: "cache_getOrLoad trie a c = (Inr x,
        c\<lparr>c_cache := (c_cache c)(a \<mapsto> \<lparr>e_val = acc_raw x, e_modified = False, e_deleted = False, e_virtual = virt\<rparr>)\<rparr>)"
    proof (cases "trie a")
      case N: None
      then have "x = new_account" using None Inr by (simp add: raw_at_def)
      then show ?thesis using that [of True] None N
        by (simp add: cache_getOrLoad_def cache_lookup_def getCb_def cache_update_def eff_defs)
    next
      case S: (Some r)
      then have "fromValuesArray r = Inr x" using Inr None by (simp add: raw_at_def)
      then show ?thesis using that [of False] None S
        by (simp add: cache_getOrLoad_def cache_lookup_def getCb_def cache_update_def eff_defs)
    qed
    let ?e = "\<lparr>e_val = acc_raw x, e_modified = False, e_deleted = False, e_virtual = virt\<rparr>"
    have "raw_at trie ((c_cache c)(a \<mapsto> ?e)) = raw_at trie (c_cache c)"
      using x by (intro raw_at_upd_same) auto
    moreover have "tree_ok ((c_cache c)(a \<mapsto> ?e))"
      using assms(1) by (rule tree_ok_update) simp
    ultimately show thesis
      using that [of "c\<lparr>c_cache := (c_cache c)(a \<mapsto> ?e)\<rparr>"] run Inr by auto
  qed
qed

lemma cache_get_result:
  "a \<in> dom (c_cache c) \<Longrightarrow> cache_get a c = (fromValuesArray (raw_at trie (c_cache c) a), c)"
  by (cases "fromValuesArray (raw_at trie (c_cache c) a)")
    (auto simp: cache_get_def cache_lookup_def eff_defs raw_at_def)

text \<open>A flush moves the accounts to the trie and does not change what an address reads.\<close>

lemma flush_raw_at:
  assumes "tree_ok t" "trie_ok trie"
  shows "raw_at (flush_trie t trie) (\<lambda>k. map_option flush_entry (t k)) = raw_at trie t"
    and "tree_ok (\<lambda>k. map_option flush_entry (t k))" and "trie_ok (flush_trie t trie)"
    and "dom (\<lambda>k. map_option flush_entry (t k)) = dom t"
proof -
  show "raw_at (flush_trie t trie) (\<lambda>k. map_option flush_entry (t k)) = raw_at trie t"
    using assms(1) by (auto simp: raw_at_def flush_trie_def flush_entry_def tree_ok_def fun_eq_iff
        split: option.split)
  show "tree_ok (\<lambda>k. map_option flush_entry (t k))"
    using assms(1) by (auto simp: tree_ok_def flush_entry_def)
  show "trie_ok (flush_trie t trie)"
    using assms by (simp add: trie_ok_def tree_ok_def flush_trie_def split: option.split)
  show "dom (\<lambda>k. map_option flush_entry (t k)) = dom t" by auto
qed

end
