(* ===== verification/Vm_Params.thy ===== *)
theory Vm_Params
  imports Common Account_Cache
begin

text \<open>
  What the VM is configured with. \<open>vm_keccak256\<close>, \<open>vm_sha256\<close>, \<open>vm_ripemd160\<close>, \<open>vm_ecdsaRecover\<close> (the
  recovery of an uncompressed public key, without its type byte) and \<open>vm_rlp\<close> (the encoding of a
  list of buffers) are functions of packages that the repository does
  not hold; \<open>vm_merkle_root\<close> is the root hash of a trie with a given content. Nothing is assumed of
  them but what a lemma names. The fields below \<open>vm_param\<close> are the questions that the VM asks the
  object \<open>Common\<close>; \<open>vm_of_common\<close> takes them from the model of it.
\<close>

record vm =
  vm_keccak256 :: "bytes \<Rightarrow> bytes"
  vm_sha256 :: "bytes \<Rightarrow> bytes"
  vm_ripemd160 :: "bytes \<Rightarrow> bytes"
  vm_ecdsaRecover :: "bytes \<Rightarrow> nat \<Rightarrow> bytes \<Rightarrow> bytes option"
  vm_rlp :: "bytes list \<Rightarrow> bytes"
  vm_merkle_root :: "(bytes \<rightharpoonup> bytes) \<Rightarrow> bytes"
  vm_param :: "string \<Rightarrow> string \<Rightarrow> int"
  vm_gteHardfork :: "string \<Rightarrow> bool"
  vm_isActivatedEIP :: "nat \<Rightarrow> bool"
  vm_hardfork :: string
  vm_chainId :: int
  vm_consensusAlgorithm :: string
  vm_consensusType :: string
  vm_eips :: "nat list"
  vm_allowUnlimitedContractSize :: bool

text \<open>
  A parameter is \<open>new BN(common.param(topic, name))\<close>; the topics \<open>gasPrices\<close> and \<open>vm\<close> that the VM
  asks for are in every table, so the lookup does not throw, and a name in no table is \<open>null\<close>,
  which makes the number 0.
\<close>

definition bn_param :: "common \<Rightarrow> string \<Rightarrow> string \<Rightarrow> int" where
  "bn_param c topic name = (case param c topic name of Inr (Some v) \<Rightarrow> v | _ \<Rightarrow> 0)"

definition vm_of_common :: "common \<Rightarrow> vm \<Rightarrow> vm" where
  "vm_of_common c vm = vm\<lparr>vm_param := bn_param c, vm_gteHardfork := gteHardfork c,
     vm_isActivatedEIP := isActivatedEIP c, vm_hardfork := cur_hardfork c, vm_chainId := chainIdBN c,
     vm_consensusAlgorithm := consensusAlgorithm c,
     vm_consensusType := consensusType c, vm_eips := eips c\<rparr>"

abbreviation gasPrice :: "vm \<Rightarrow> string \<Rightarrow> int" where
  "gasPrice vm name \<equiv> vm_param vm ''gasPrices'' name"

end
