(* ===== verification/Checkpoint_Trie.thy ===== *)
theory Checkpoint_Trie
  imports Checkpoints
begin

text \<open>
  \<open>trie/src/checkpointDb.ts\<close> and \<open>trie/src/checkpointTrie.ts\<close>: a key-value database with a stack
  of write caches, and the trie whose root goes with it. The disk under the caches is the level
  database, a map. A cache maps a key to a value, or to \<open>null\<close> for a key that was deleted (or
  looked up and not found): \<open>Some None\<close> here. \<open>'r\<close> is what the trie keeps as its root.

  The laws of \<open>checkpointed\<close> hold of it: a revert brings back the root and every value read
  before, a commit keeps them, at the outermost level as at the inner ones.
\<close>

record 'r db_checkpoint =
  keyValueMap :: "bytes \<rightharpoonup> bytes option"
  cp_root :: 'r

record 'r ctrie =
  trie_root :: 'r
  db_checkpoints :: "'r db_checkpoint list"
  leveldb :: "bytes \<rightharpoonup> bytes"

section \<open>The database\<close>

text \<open>The array \<open>checkpoints\<close> grows at its end; here the innermost checkpoint is the head.\<close>

definition db_isCheckpoint :: "'r ctrie \<Rightarrow> bool" where
  "db_isCheckpoint t \<longleftrightarrow> 0 < length (db_checkpoints t)"

definition db_checkpoint :: "'r \<Rightarrow> ('r ctrie, unit) eff" where
  "db_checkpoint root = modif (\<lambda>t. t\<lparr>db_checkpoints :=
     \<lparr>keyValueMap = Map.empty, cp_root = root\<rparr> # db_checkpoints t\<rparr>)"

text \<open>\<open>batch\<close> with the operations of a cache: each key has one operation.\<close>

definition apply_batch :: "(bytes \<rightharpoonup> bytes option) \<Rightarrow> (bytes \<rightharpoonup> bytes) \<Rightarrow> (bytes \<rightharpoonup> bytes)" where
  "apply_batch kv disk = (\<lambda>k. case kv k of None \<Rightarrow> disk k | Some v \<Rightarrow> v)"

definition db_commit :: "('r ctrie, unit) eff" where
  "db_commit = bnd (gets db_checkpoints) (\<lambda>cps.
     case cps of
       [] \<Rightarrow> raise (JsError ''Cannot destructure undefined'')
     | cp # rest \<Rightarrow>
         (case rest of
            [] \<Rightarrow> modif (\<lambda>t. t\<lparr>db_checkpoints := [],
                    leveldb := apply_batch (keyValueMap cp) (leveldb t)\<rparr>)
          | up # outer \<Rightarrow> modif (\<lambda>t. t\<lparr>db_checkpoints :=
                    up\<lparr>keyValueMap := keyValueMap up ++ keyValueMap cp\<rparr> # outer\<rparr>)))"

definition db_revert :: "('r ctrie, 'r) eff" where
  "db_revert = bnd (gets db_checkpoints) (\<lambda>cps.
     case cps of
       [] \<Rightarrow> raise (JsError ''Cannot destructure undefined'')
     | cp # rest \<Rightarrow> andthen (modif (\<lambda>t. t\<lparr>db_checkpoints := rest\<rparr>)) (ret (cp_root cp)))"

text \<open>The loop of \<open>get\<close> over the caches, innermost first.\<close>

fun db_find :: "'r db_checkpoint list \<Rightarrow> bytes \<Rightarrow> bytes option option" where
  "db_find [] k = None"
| "db_find (cp # cps) k = (case keyValueMap cp k of Some v \<Rightarrow> Some v | None \<Rightarrow> db_find cps k)"

definition db_set :: "bytes \<Rightarrow> bytes option \<Rightarrow> 'r db_checkpoint list \<Rightarrow> 'r db_checkpoint list" where
  "db_set k v cps =
     (case cps of [] \<Rightarrow> [] | cp # rest \<Rightarrow> cp\<lparr>keyValueMap := (keyValueMap cp)(k \<mapsto> v)\<rparr> # rest)"

definition db_get :: "bytes \<Rightarrow> ('r ctrie, bytes option) eff" where
  "db_get k = bnd (gets id) (\<lambda>t.
     case db_find (db_checkpoints t) k of
       Some v \<Rightarrow> ret v
     | None \<Rightarrow>
         (let v = leveldb t k
          in andthen (when_eff (db_isCheckpoint t)
               (modif (\<lambda>t. t\<lparr>db_checkpoints := db_set k v (db_checkpoints t)\<rparr>))) (ret v)))"

definition db_put :: "bytes \<Rightarrow> bytes \<Rightarrow> ('r ctrie, unit) eff" where
  "db_put k v = modif (\<lambda>t.
     if db_isCheckpoint t then t\<lparr>db_checkpoints := db_set k (Some v) (db_checkpoints t)\<rparr>
     else t\<lparr>leveldb := (leveldb t)(k \<mapsto> v)\<rparr>)"

definition db_del :: "bytes \<Rightarrow> ('r ctrie, unit) eff" where
  "db_del k = modif (\<lambda>t.
     if db_isCheckpoint t then t\<lparr>db_checkpoints := db_set k None (db_checkpoints t)\<rparr>
     else t\<lparr>leveldb := (leveldb t)(k := None)\<rparr>)"

section \<open>The trie\<close>

definition trie_checkpoint :: "('r ctrie, unit) eff" where
  "trie_checkpoint = bnd (gets trie_root) db_checkpoint"

definition trie_commit :: "('r ctrie, unit) eff" where
  "trie_commit = bnd (gets db_isCheckpoint) (\<lambda>b.
     if \<not> b then raise (JsError ''trying to commit when not checkpointed'') else db_commit)"

definition trie_revert :: "('r ctrie, unit) eff" where
  "trie_revert = bnd (gets db_isCheckpoint) (\<lambda>b.
     if \<not> b then raise (JsError ''trying to revert when not checkpointed'')
     else bnd db_revert (\<lambda>root. modif (\<lambda>t. t\<lparr>trie_root := root\<rparr>)))"

text \<open>The root changes as nodes are put.\<close>

definition trie_set_root :: "'r \<Rightarrow> ('r ctrie, unit) eff" where
  "trie_set_root r = modif (\<lambda>t. t\<lparr>trie_root := r\<rparr>)"

section \<open>What can be read\<close>

definition db_view :: "(bytes \<rightharpoonup> bytes) \<Rightarrow> 'r db_checkpoint list \<Rightarrow> bytes \<rightharpoonup> bytes" where
  "db_view disk cps = (\<lambda>k. case db_find cps k of Some v \<Rightarrow> v | None \<Rightarrow> disk k)"

definition trie_cur :: "'r ctrie \<Rightarrow> 'r \<times> (bytes \<rightharpoonup> bytes)" where
  "trie_cur t = (trie_root t, db_view (leveldb t) (db_checkpoints t))"

fun trie_saved_aux :: "(bytes \<rightharpoonup> bytes) \<Rightarrow> 'r db_checkpoint list \<Rightarrow> ('r \<times> (bytes \<rightharpoonup> bytes)) list" where
  "trie_saved_aux disk [] = []"
| "trie_saved_aux disk (cp # cps) = (cp_root cp, db_view disk cps) # trie_saved_aux disk cps"

definition trie_saved :: "'r ctrie \<Rightarrow> ('r \<times> (bytes \<rightharpoonup> bytes)) list" where
  "trie_saved t = trie_saved_aux (leveldb t) (db_checkpoints t)"

definition trie_writes :: "'r ctrie \<Rightarrow> 'r ctrie \<Rightarrow> bool" where
  "trie_writes t t' \<longleftrightarrow> (t' = t \<or> db_isCheckpoint t \<and>
     (\<exists>k v r. t' = t\<lparr>db_checkpoints := db_set k v (db_checkpoints t), trie_root := r\<rparr> \<or>
              t' = t\<lparr>trie_root := r\<rparr>))"

lemma length_trie_saved [simp]: "length (trie_saved t) = length (db_checkpoints t)"
proof -
  have "length (trie_saved_aux d cps) = length cps" for d :: "bytes \<rightharpoonup> bytes" and cps :: "'b db_checkpoint list"
    by (induction d cps rule: trie_saved_aux.induct) auto
  then show ?thesis by (simp add: trie_saved_def)
qed

lemma db_view_Cons:
  "db_view disk (cp # cps) k =
     (case keyValueMap cp k of Some v \<Rightarrow> v | None \<Rightarrow> db_view disk cps k)"
  by (simp add: db_view_def split: option.split)

lemma db_get_value: "\<exists>t'. db_get k t = (Inr (db_view (leveldb t) (db_checkpoints t) k), t') \<and>
    trie_cur t' = trie_cur t \<and> trie_saved t' = trie_saved t"
proof (cases "db_find (db_checkpoints t) k")
  case None
  show ?thesis
  proof (cases "db_checkpoints t")
    case Nil
    then show ?thesis
      using None by (simp add: db_get_def eff_defs Let_def db_isCheckpoint_def db_view_def)
  next
    case (Cons cp cps)
    define t' where "t' = t\<lparr>db_checkpoints := db_set k (leveldb t k) (db_checkpoints t)\<rparr>"
    have "db_get k t = (Inr (db_view (leveldb t) (db_checkpoints t) k), t')"
      using None Cons by (simp add: db_get_def eff_defs Let_def db_isCheckpoint_def db_view_def t'_def)
    moreover have "trie_cur t' = trie_cur t"
    proof -
      have "db_find cps k = None" using None Cons by (simp split: option.splits)
      then have "db_view (leveldb t) (db_set k (leveldb t k) (cp # cps)) x = db_view (leveldb t) (cp # cps) x" for x
        using None Cons by (auto simp: db_view_Cons db_set_def db_view_def split: option.splits)
      then show ?thesis by (auto simp: trie_cur_def t'_def Cons)
    qed
    moreover have "trie_saved t' = trie_saved t"
      by (simp add: trie_saved_def t'_def Cons db_set_def)
    ultimately show ?thesis by blast
  qed
qed (simp add: db_get_def eff_defs db_view_def)

lemma db_put_view:
  assumes "db_put k v t = (r, t')"
  shows "r = Inr ()" "db_view (leveldb t') (db_checkpoints t') =
      (db_view (leveldb t) (db_checkpoints t))(k \<mapsto> v)" "trie_saved t' = trie_saved t \<or> \<not> db_isCheckpoint t"
    "trie_root t' = trie_root t"
  using assms by (auto simp: db_put_def eff_defs db_isCheckpoint_def db_set_def trie_saved_def
      db_view_def fun_eq_iff split: list.splits option.splits if_splits)

lemma trie_saved_aux_tl: "trie_saved_aux d cps = v # vs \<Longrightarrow> trie_saved_aux d (tl cps) = vs"
  by (cases cps) auto

lemma trie_commit_ok:
  assumes "trie_saved t = v # vs"
  shows "\<exists>t'. trie_commit t = (Inr (), t') \<and> trie_cur t' = trie_cur t \<and> trie_saved t' = vs"
proof -
  obtain cp rest where cps: "db_checkpoints t = cp # rest"
    using assms by (cases "db_checkpoints t") (auto simp: trie_saved_def)
  show ?thesis
  proof (cases rest)
    case Nil
    have "db_view (apply_batch (keyValueMap cp) (leveldb t)) [] = db_view (leveldb t) [cp]"
      by (rule ext) (simp add: db_view_def apply_batch_def split: option.split)
    then show ?thesis
      using assms cps Nil
      by (simp add: trie_commit_def db_commit_def eff_defs db_isCheckpoint_def trie_cur_def trie_saved_def)
  next
    case (Cons up outer)
    have "db_view (leveldb t) (up\<lparr>keyValueMap := keyValueMap up ++ keyValueMap cp\<rparr> # outer) =
        db_view (leveldb t) (cp # up # outer)"
      by (rule ext) (simp add: db_view_Cons map_add_def split: option.split)
    then show ?thesis
      using assms cps Cons
      by (simp add: trie_commit_def db_commit_def eff_defs db_isCheckpoint_def trie_cur_def trie_saved_def)
  qed
qed

lemma trie_revert_ok:
  assumes "trie_saved t = v # vs"
  shows "\<exists>t'. trie_revert t = (Inr (), t') \<and> trie_cur t' = v \<and> trie_saved t' = vs"
proof -
  obtain cp rest where cps: "db_checkpoints t = cp # rest"
    using assms by (cases "db_checkpoints t") (auto simp: trie_saved_def)
  then show ?thesis
    using assms by (simp add: trie_revert_def db_revert_def eff_defs db_isCheckpoint_def
        trie_cur_def trie_saved_def)
qed

lemma trie_writes_saved: "trie_writes t t' \<Longrightarrow> trie_saved t' = trie_saved t"
  by (cases "db_checkpoints t")
    (auto simp: trie_writes_def trie_saved_def db_set_def db_isCheckpoint_def)

interpretation ctrie: checkpointed trie_checkpoint trie_commit trie_revert trie_cur trie_saved
  "\<lambda>_. True" trie_writes
proof
  fix t :: "'r ctrie"
  have "db_view (leveldb t) (\<lparr>keyValueMap = Map.empty, cp_root = trie_root t\<rparr> # db_checkpoints t) =
      db_view (leveldb t) (db_checkpoints t)"
    by (rule ext) (simp add: db_view_Cons)
  then show "\<exists>t'. trie_checkpoint t = (Inr (), t') \<and> True \<and> trie_cur t' = trie_cur t \<and>
      trie_saved t' = trie_cur t # trie_saved t"
    by (simp add: trie_checkpoint_def db_checkpoint_def eff_defs trie_cur_def trie_saved_def)
qed (simp_all add: trie_commit_ok trie_revert_ok trie_writes_saved)

end
