(* ===== verification/State_Manager.thy ===== *)
theory State_Manager
  imports Vm_Params Checkpoint_Trie "HOL-Library.AList" "HOL-Library.List_Lexorder"
begin

text \<open>
  \<open>vm/src/state/baseStateManager.ts\<close> and \<open>vm/src/state/stateManager.ts\<close>: the accounts, their code
  and storage, and the sets of touched accounts and warm slots, with nested checkpoints.

  The account trie is a \<open>ctrie\<close> whose root is the content of the trie, a map from addresses to
  serialised accounts; its database holds the code. A storage trie is its root hash; the nodes of
  every storage trie ever written stay on the disk, \<open>sm_storage_db\<close>, which maps a root to the
  content behind it (a value is stored without its RLP header). Hex strings of addresses and slots
  are the byte strings themselves. The array \<open>_accessedStorage\<close> grows at its end; here the
  innermost frame is the head. A \<open>Map\<close> of sets is an association list in order of insertion.
\<close>

type_synonym acct_trie = "(bytes \<rightharpoonup> bytes list) ctrie"
type_synonym warm_frame = "(bytes \<times> bytes list) list"

record state_manager =
  sm_trie :: acct_trie
  sm_cache :: cache
  sm_storageTries :: "bytes \<rightharpoonup> bytes"
  sm_storage_db :: "bytes \<rightharpoonup> (bytes \<rightharpoonup> bytes)"
  sm_touched :: "bytes list"
  sm_touchedStack :: "bytes list list"
  sm_originalStorageCache :: "bytes \<rightharpoonup> (bytes \<rightharpoonup> bytes)"
  sm_accessedStorage :: "warm_frame list"
  sm_accessedStorageReverted :: "warm_frame list"
  sm_checkpointCount :: int

definition new_state_manager :: state_manager where
  "new_state_manager = \<lparr>
     sm_trie = \<lparr>trie_root = Map.empty, db_checkpoints = [], leveldb = Map.empty\<rparr>,
     sm_cache = new_cache, sm_storageTries = Map.empty, sm_storage_db = Map.empty,
     sm_touched = [], sm_touchedStack = [], sm_originalStorageCache = Map.empty,
     sm_accessedStorage = [[]], sm_accessedStorageReverted = [[]], sm_checkpointCount = 0\<rparr>"

definition ripemdPrecompileAddress :: bytes where
  "ripemdPrecompileAddress = replicate 19 0 @ [3]"

abbreviation on_trie :: "(acct_trie, 'a) eff \<Rightarrow> (state_manager, 'a) eff" where
  "on_trie \<equiv> zoom sm_trie (\<lambda>t s. s\<lparr>sm_trie := t\<rparr>)"

abbreviation on_cache :: "(cache, 'a) eff \<Rightarrow> (state_manager, 'a) eff" where
  "on_cache \<equiv> zoom sm_cache (\<lambda>c s. s\<lparr>sm_cache := c\<rparr>)"

section \<open>Accounts\<close>

definition sm_getAccount :: "bytes \<Rightarrow> (state_manager, account) eff" where
  "sm_getAccount addr = bnd (gets (\<lambda>s. trie_root (sm_trie s))) (\<lambda>t. on_cache (cache_getOrLoad t addr))"

definition sm_touchAccount :: "bytes \<Rightarrow> (state_manager, unit) eff" where
  "sm_touchAccount addr = modif (\<lambda>s. s\<lparr>sm_touched := set_add addr (sm_touched s)\<rparr>)"

definition sm_putAccount :: "bytes \<Rightarrow> account \<Rightarrow> (state_manager, unit) eff" where
  "sm_putAccount addr a = andthen (on_cache (cache_put addr a False)) (sm_touchAccount addr)"

definition sm_deleteAccount :: "bytes \<Rightarrow> (state_manager, unit) eff" where
  "sm_deleteAccount addr = andthen (on_cache (cache_del addr)) (sm_touchAccount addr)"

definition sm_accountIsEmpty :: "bytes \<Rightarrow> (state_manager, bool) eff" where
  "sm_accountIsEmpty addr = bnd (sm_getAccount addr) (\<lambda>a. ret (isEmpty a))"

definition sm_accountExists :: "bytes \<Rightarrow> (state_manager, bool) eff" where
  "sm_accountExists addr =
     bnd (on_cache (cache_lookup addr)) (\<lambda>account.
     bnd (on_cache (cache_keyIsDeleted addr)) (\<lambda>deleted.
       if (case account of Some (a, virtual) \<Rightarrow> \<not> virtual | None \<Rightarrow> False) \<and> \<not> deleted then ret True
       else gets (\<lambda>s. trie_root (sm_trie s) addr \<noteq> None)))"

definition sm_flush :: "(state_manager, unit) eff" where
  "sm_flush = bnd (gets (\<lambda>s. trie_root (sm_trie s))) (\<lambda>t.
     bnd (on_cache (cache_flush t)) (\<lambda>t'. on_trie (trie_set_root t')))"

definition sm_clearOriginalStorageCache :: "(state_manager, unit) eff" where
  "sm_clearOriginalStorageCache = modif (\<lambda>s. s\<lparr>sm_originalStorageCache := Map.empty\<rparr>)"

definition sm_cleanupTouchedAccounts :: "vm \<Rightarrow> (state_manager, unit) eff" where
  "sm_cleanupTouchedAccounts vm =
     andthen
       (when_eff (vm_gteHardfork vm ''spuriousDragon'')
         (bnd (gets sm_touched) (\<lambda>touchedArray.
            for_each touchedArray (\<lambda>address.
              bnd (sm_accountIsEmpty address) (\<lambda>empty.
                when_eff empty (on_cache (cache_del address)))))))
       (modif (\<lambda>s. s\<lparr>sm_touched := []\<rparr>))"

section \<open>Warm addresses and slots\<close>

definition isWarmedAddress :: "bytes \<Rightarrow> state_manager \<Rightarrow> bool" where
  "isWarmedAddress a s = list_ex (\<lambda>currentMap. map_of currentMap a \<noteq> None) (sm_accessedStorage s)"

definition isWarmedStorage :: "bytes \<Rightarrow> bytes \<Rightarrow> state_manager \<Rightarrow> bool" where
  "isWarmedStorage a slot s =
     list_ex (\<lambda>currentMap. case map_of currentMap a of None \<Rightarrow> False | Some slots \<Rightarrow> slot \<in> set slots)
       (sm_accessedStorage s)"

definition warm_address :: "bytes \<Rightarrow> warm_frame \<Rightarrow> warm_frame" where
  "warm_address a f = (case map_of f a of Some slots \<Rightarrow> f | None \<Rightarrow> AList.update a [] f)"

definition warm_slot :: "bytes \<Rightarrow> bytes \<Rightarrow> warm_frame \<Rightarrow> warm_frame" where
  "warm_slot a slot f =
     AList.update a (set_add slot (case map_of f a of Some slots \<Rightarrow> slots | None \<Rightarrow> [])) f"

text \<open>\<open>this._accessedStorage[length - 1]\<close> is \<open>undefined\<close> for an empty array, and using it throws.\<close>

definition upd_top :: "(warm_frame \<Rightarrow> warm_frame) \<Rightarrow> (state_manager, unit) eff" where
  "upd_top f = bnd (gets sm_accessedStorage) (\<lambda>fs.
     case fs of
       [] \<Rightarrow> raise (JsError ''Cannot read properties of undefined'')
     | frame # rest \<Rightarrow> modif (\<lambda>s. s\<lparr>sm_accessedStorage := f frame # rest\<rparr>))"

definition addWarmedAddress :: "bytes \<Rightarrow> (state_manager, unit) eff" where
  "addWarmedAddress a = upd_top (warm_address a)"

definition addWarmedStorage :: "bytes \<Rightarrow> bytes \<Rightarrow> (state_manager, unit) eff" where
  "addWarmedStorage a slot = upd_top (warm_slot a slot)"

definition clearWarmedAccounts :: "(state_manager, unit) eff" where
  "clearWarmedAccounts =
     modif (\<lambda>s. s\<lparr>sm_accessedStorage := [[]], sm_accessedStorageReverted := [[]]\<rparr>)"

fun merge_frame :: "warm_frame \<Rightarrow> warm_frame \<Rightarrow> warm_frame" where
  "merge_frame target [] = target"
| "merge_frame target ((a, slots) # rest) =
     (let t1 = (case map_of target a of None \<Rightarrow> AList.update a [] target | Some _ \<Rightarrow> target);
          old = (case map_of t1 a of None \<Rightarrow> [] | Some s \<Rightarrow> s)
      in merge_frame (AList.update a (fold set_add slots old) t1) rest)"

definition accessedStorageMerge :: "warm_frame list \<Rightarrow> warm_frame \<Rightarrow> warm_frame list" where
  "accessedStorageMerge storageList storageMap =
     (case storageList of [] \<Rightarrow> [] | target # rest \<Rightarrow> merge_frame target storageMap # rest)"

text \<open>
  \<open>generateAccessList\<close>: the reverted frames come after the live ones in the merged array, whose
  last element is folded into the one before it until one is left. The arrays are reversed here,
  so the first element is folded into the second.
\<close>

fun fold_frames :: "warm_frame list \<Rightarrow> warm_frame" where
  "fold_frames [] = []"
| "fold_frames [f] = f"
| "fold_frames (f # g # rest) = fold_frames (merge_frame g f # rest)"

definition generateAccessList ::
  "bytes list \<Rightarrow> bytes list \<Rightarrow> state_manager \<Rightarrow> (bytes \<times> bytes list) list" where
  "generateAccessList addressesRemoved addressesOnlyStorage s =
     (let merged = sm_accessedStorageReverted s @ sm_accessedStorage s;
          folded = sort_key fst (fold_frames merged)
      in map (\<lambda>(a, slots). (a, sort slots))
           (filter (\<lambda>(a, slots). a \<notin> set addressesRemoved \<and>
              \<not> (a \<in> set addressesOnlyStorage \<and> length slots = 0)) folded))"

section \<open>Code and storage\<close>

definition sm_putContractCode :: "vm \<Rightarrow> bytes \<Rightarrow> bytes \<Rightarrow> (state_manager, unit) eff" where
  "sm_putContractCode vm addr value =
     (let codeHash = vm_keccak256 vm value
      in if codeHash = KECCAK256_NULL then ret ()
         else andthen (on_trie (db_put codeHash value))
           (bnd (sm_getAccount addr) (\<lambda>account.
              sm_putAccount addr (account\<lparr>acc_codeHash := codeHash\<rparr>))))"

definition sm_getContractCode :: "bytes \<Rightarrow> (state_manager, bytes) eff" where
  "sm_getContractCode addr = bnd (sm_getAccount addr) (\<lambda>account.
     if \<not> isContract account then ret []
     else bnd (on_trie (db_get (acc_codeHash account))) (\<lambda>code.
       ret (case code of None \<Rightarrow> [] | Some c \<Rightarrow> c)))"

definition sm_lookupStorageTrie :: "bytes \<Rightarrow> (state_manager, bytes) eff" where
  "sm_lookupStorageTrie addr = bnd (sm_getAccount addr) (\<lambda>account. ret (acc_stateRoot account))"

definition sm_getStorageTrie :: "bytes \<Rightarrow> (state_manager, bytes) eff" where
  "sm_getStorageTrie addr = bnd (gets (\<lambda>s. sm_storageTries s addr)) (\<lambda>storageTrie.
     case storageTrie of None \<Rightarrow> sm_lookupStorageTrie addr | Some root \<Rightarrow> ret root)"

text \<open>The content behind a root: the empty trie has no node on the disk, any other root must be there.\<close>

definition storage_content :: "(bytes \<rightharpoonup> (bytes \<rightharpoonup> bytes)) \<Rightarrow> bytes \<Rightarrow> exn + (bytes \<rightharpoonup> bytes)" where
  "storage_content db root =
     (if root = KECCAK256_RLP then Inr Map.empty
      else case db root of None \<Rightarrow> Inl (JsError ''Missing node in DB'') | Some c \<Rightarrow> Inr c)"

definition storage_read :: "bytes \<Rightarrow> (state_manager, bytes \<rightharpoonup> bytes) eff" where
  "storage_read root = bnd (gets sm_storage_db) (\<lambda>db. of_sum (storage_content db root))"

definition storage_write :: "vm \<Rightarrow> (bytes \<rightharpoonup> bytes) \<Rightarrow> (state_manager, bytes) eff" where
  "storage_write vm c =
     (let root = vm_merkle_root vm c
      in andthen (modif (\<lambda>s. s\<lparr>sm_storage_db := (sm_storage_db s)(root \<mapsto> c)\<rparr>)) (ret root))"

definition sm_getContractStorage :: "bytes \<Rightarrow> bytes \<Rightarrow> (state_manager, bytes) eff" where
  "sm_getContractStorage addr key =
     andthen (guard_eff (length key = 32) (JsError ''Storage key must be 32 bytes long''))
       (bnd (sm_getStorageTrie addr) (\<lambda>root. bnd (storage_read root) (\<lambda>c.
          ret (case c key of None \<Rightarrow> [] | Some v \<Rightarrow> v))))"

text \<open>
  The promise of \<open>_modifyContractStorage\<close> is settled by \<open>resolve\<close> only, so an error in the body of
  the callback leaves its caller waiting; the model reports the error.
\<close>

definition sm_modifyContractStorage ::
  "bytes \<Rightarrow> (bytes \<Rightarrow> (state_manager, bytes) eff) \<Rightarrow> (state_manager, unit) eff" where
  "sm_modifyContractStorage addr modifyTrie =
     bnd (sm_getStorageTrie addr) (\<lambda>root. bnd (modifyTrie root) (\<lambda>root'.
       andthen (modif (\<lambda>s. s\<lparr>sm_storageTries := (sm_storageTries s)(addr \<mapsto> root')\<rparr>))
         (bnd (on_cache (cache_get addr)) (\<lambda>contract.
            andthen (sm_putAccount addr (contract\<lparr>acc_stateRoot := root'\<rparr>))
              (sm_touchAccount addr)))))"

definition storage_put :: "vm \<Rightarrow> bytes \<Rightarrow> bytes \<Rightarrow> bytes \<Rightarrow> (state_manager, bytes) eff" where
  "storage_put vm key value root = bnd (storage_read root) (\<lambda>c.
     if value \<noteq> [] then storage_write vm (c(key \<mapsto> value))
     else if c key = None then ret root
     else storage_write vm (c(key := None)))"

definition sm_putContractStorage :: "vm \<Rightarrow> bytes \<Rightarrow> bytes \<Rightarrow> bytes \<Rightarrow> (state_manager, unit) eff" where
  "sm_putContractStorage vm addr key value =
     andthen (guard_eff (length key = 32) (JsError ''Storage key must be 32 bytes long''))
       (andthen (guard_eff (length value \<le> 32) (JsError ''Storage value cannot be longer than 32 bytes''))
         (sm_modifyContractStorage addr (storage_put vm key (unpadBuffer value))))"

definition sm_clearContractStorage :: "bytes \<Rightarrow> (state_manager, unit) eff" where
  "sm_clearContractStorage addr = sm_modifyContractStorage addr (\<lambda>root. ret KECCAK256_RLP)"

definition sm_getOriginalContractStorage :: "bytes \<Rightarrow> bytes \<Rightarrow> (state_manager, bytes) eff" where
  "sm_getOriginalContractStorage addr key =
     andthen (guard_eff (length key = 32) (JsError ''Storage key must be 32 bytes long''))
       (andthen (modif (\<lambda>s. case sm_originalStorageCache s addr of
            None \<Rightarrow> s\<lparr>sm_originalStorageCache := (sm_originalStorageCache s)(addr \<mapsto> Map.empty)\<rparr>
          | Some m \<Rightarrow> s))
         (bnd (gets (\<lambda>s. the (sm_originalStorageCache s addr) key)) (\<lambda>cached.
            case cached of
              Some v \<Rightarrow> ret v
            | None \<Rightarrow> bnd (sm_getContractStorage addr key) (\<lambda>current.
                andthen (modif (\<lambda>s. s\<lparr>sm_originalStorageCache := (sm_originalStorageCache s)(addr \<mapsto>
                    (the (sm_originalStorageCache s addr))(key \<mapsto> current))\<rparr>)) (ret current)))))"

section \<open>Checkpoints\<close>

definition base_checkpoint :: "(state_manager, unit) eff" where
  "base_checkpoint =
     andthen (on_cache cache_checkpoint)
       (modif (\<lambda>s. s\<lparr>sm_touchedStack := sm_touched s # sm_touchedStack s,
          sm_accessedStorage := [] # sm_accessedStorage s,
          sm_checkpointCount := sm_checkpointCount s + 1\<rparr>))"

definition flush_at_zero :: "(state_manager, unit) eff" where
  "flush_at_zero = bnd (gets sm_checkpointCount) (\<lambda>n.
     when_eff (n = 0) (andthen sm_flush sm_clearOriginalStorageCache))"

definition base_commit :: "(state_manager, unit) eff" where
  "base_commit =
     andthen (on_cache cache_commit)
       (andthen (modif (\<lambda>s. s\<lparr>sm_touchedStack := tl (sm_touchedStack s),
            sm_checkpointCount := sm_checkpointCount s - 1,
            sm_accessedStorage := (case sm_accessedStorage s of
               [] \<Rightarrow> [] | storageMap # rest \<Rightarrow> accessedStorageMerge rest storageMap)\<rparr>))
         flush_at_zero)"

definition base_revert :: "(state_manager, unit) eff" where
  "base_revert =
     andthen (on_cache cache_revert)
       (andthen (modif (\<lambda>s. case sm_accessedStorage s of
             [] \<Rightarrow> s
           | lastItem # rest \<Rightarrow> s\<lparr>sm_accessedStorage := rest,
               sm_accessedStorageReverted := lastItem # sm_accessedStorageReverted s\<rparr>))
         (bnd (gets sm_touchedStack) (\<lambda>ts.
            case ts of
              [] \<Rightarrow> raise (JsError ''Reverting to invalid state checkpoint failed'')
            | touched # rest \<Rightarrow>
                andthen (modif (\<lambda>s. s\<lparr>sm_touchedStack := rest,
                    sm_touched := (if ripemdPrecompileAddress \<in> set (sm_touched s)
                                   then set_add ripemdPrecompileAddress touched else touched),
                    sm_checkpointCount := sm_checkpointCount s - 1\<rparr>))
                  flush_at_zero)))"

definition sm_checkpoint :: "(state_manager, unit) eff" where
  "sm_checkpoint = andthen (on_trie trie_checkpoint) base_checkpoint"

definition sm_commit :: "(state_manager, unit) eff" where
  "sm_commit = andthen (on_trie trie_commit) base_commit"

definition sm_revert :: "(state_manager, unit) eff" where
  "sm_revert = andthen (on_trie trie_revert)
     (andthen (modif (\<lambda>s. s\<lparr>sm_storageTries := Map.empty\<rparr>)) base_revert)"

end
