(* ===== verification/State_Checkpoints.thy ===== *)
theory State_Checkpoints
  imports State_Manager
begin

text \<open>
  The checkpoints of the state manager. \<open>sm_cur\<close> is what can be read: the account behind every
  address, the code behind every hash, and which addresses and slots are warm. \<open>sm_saved\<close> is the
  same at the open checkpoints. The invariant \<open>sm_inv\<close> ties the five stacks together (cache, trie,
  touched sets, warm frames, the counter) and keeps every address that has a storage trie in the
  cache, on which \<open>_modifyContractStorage\<close> relies when it reads the account from the cache alone.
  Every operation keeps the invariant and the saved states, so the state manager is an instance of
  \<open>checkpointed\<close>.
\<close>

section \<open>Warm frames\<close>

type_synonym warm_view = "(bytes \<Rightarrow> bool) \<times> (bytes \<Rightarrow> bytes \<Rightarrow> bool)"

definition frame_slot :: "warm_frame \<Rightarrow> bytes \<Rightarrow> bytes \<Rightarrow> bool" where
  "frame_slot f a k \<longleftrightarrow> (case map_of f a of None \<Rightarrow> False | Some ss \<Rightarrow> k \<in> set ss)"

definition frames_view :: "warm_frame list \<Rightarrow> warm_view" where
  "frames_view fs = ((\<lambda>a. \<exists>f \<in> set fs. a \<in> fst ` set f), (\<lambda>a k. \<exists>f \<in> set fs. frame_slot f a k))"

lemma isWarmedAddress_view: "isWarmedAddress a s = fst (frames_view (sm_accessedStorage s)) a"
  by (induction "sm_accessedStorage s")
    (auto simp: isWarmedAddress_def frames_view_def list_ex_iff map_of_eq_None_iff)

lemma isWarmedStorage_view: "isWarmedStorage a k s = snd (frames_view (sm_accessedStorage s)) a k"
  by (simp add: isWarmedStorage_def frames_view_def list_ex_iff frame_slot_def)

lemma set_fold_set_add [simp]: "set (fold set_add xs ys) = set xs \<union> set ys"
  by (induction xs arbitrary: ys) auto

lemma map_of_update: "map_of (AList.update k v f) = (map_of f)(k \<mapsto> v)"
  by (rule update_conv')

lemma fst_set_map_of: "fst ` set f = dom (map_of f)"
  by (simp add: dom_map_of_conv_image_fst)

lemma merge_frame_dom: "fst ` set (merge_frame target f) = fst ` set target \<union> fst ` set f"
  by (induction target f rule: merge_frame.induct)
    (auto simp: Let_def fst_set_map_of map_of_update split: option.splits)

lemma merge_frame_slot:
  "distinct (map fst f) \<Longrightarrow>
     frame_slot (merge_frame target f) a k \<longleftrightarrow> frame_slot target a k \<or> frame_slot f a k"
proof (induction target f rule: merge_frame.induct)
  case (2 target b slots rest)
  define t1 where "t1 = (case map_of target b of None \<Rightarrow> AList.update b [] target | Some _ \<Rightarrow> target)"
  define old where "old = (case map_of t1 b of None \<Rightarrow> [] | Some s \<Rightarrow> s)"
  have t1: "frame_slot t1 a k = frame_slot target a k"
    by (auto simp: t1_def frame_slot_def map_of_update split: option.splits)
  have "frame_slot (AList.update b (fold set_add slots old) t1) a k \<longleftrightarrow>
      frame_slot t1 a k \<or> (a = b \<and> k \<in> set slots)"
    by (auto simp: frame_slot_def map_of_update old_def split: option.splits)
  moreover have "frame_slot ((b, slots) # rest) a k \<longleftrightarrow> (a = b \<and> k \<in> set slots) \<or> frame_slot rest a k"
  proof -
    have "map_of rest b = None" using "2.prems" by (simp add: map_of_eq_None_iff)
    then show ?thesis by (auto simp: frame_slot_def split: option.splits)
  qed
  ultimately show ?case
    using "2.IH" [OF t1_def refl] "2.prems" t1 by (simp add: Let_def t1_def old_def)
qed (simp add: frame_slot_def)

lemma distinct_merge_frame: "distinct (map fst target) \<Longrightarrow> distinct (map fst (merge_frame target f))"
  by (induction target f rule: merge_frame.induct)
    (auto simp: Let_def distinct_update split: option.splits)

lemma frames_view_merge:
  "distinct (map fst f) \<Longrightarrow> frames_view (merge_frame g f # rest) = frames_view (f # g # rest)"
  by (auto simp: frames_view_def fun_eq_iff merge_frame_slot merge_frame_dom)

section \<open>The invariant and the readings\<close>

type_synonym sm_view = "(bytes \<Rightarrow> bytes list) \<times> (bytes \<rightharpoonup> bytes) \<times> warm_view"

definition sm_cur :: "state_manager \<Rightarrow> sm_view" where
  "sm_cur s = (raw_at (trie_root (sm_trie s)) (c_cache (sm_cache s)),
     snd (trie_cur (sm_trie s)), frames_view (sm_accessedStorage s))"

fun saved_aux :: "cache_tree list \<Rightarrow> ((bytes \<rightharpoonup> bytes list) \<times> (bytes \<rightharpoonup> bytes)) list \<Rightarrow>
    warm_frame list \<Rightarrow> sm_view list" where
  "saved_aux (t # ts) ((r, v) # rs) (f # fs) = (raw_at r t, v, frames_view fs) # saved_aux ts rs fs"
| "saved_aux _ _ _ = []"

definition sm_saved :: "state_manager \<Rightarrow> sm_view list" where
  "sm_saved s = saved_aux (c_checkpoints (sm_cache s)) (trie_saved (sm_trie s)) (sm_accessedStorage s)"

definition sm_inv :: "state_manager \<Rightarrow> bool" where
  "sm_inv s \<longleftrightarrow>
     tree_ok (c_cache (sm_cache s)) \<and> list_all tree_ok (c_checkpoints (sm_cache s)) \<and>
     trie_ok (trie_root (sm_trie s)) \<and> list_all (\<lambda>p. trie_ok (fst p)) (trie_saved (sm_trie s)) \<and>
     length (c_checkpoints (sm_cache s)) = length (sm_touchedStack s) \<and>
     length (trie_saved (sm_trie s)) = length (sm_touchedStack s) \<and>
     length (sm_accessedStorage s) = Suc (length (sm_touchedStack s)) \<and>
     sm_checkpointCount s = int (length (sm_touchedStack s)) \<and>
     list_all (\<lambda>f. distinct (map fst f)) (sm_accessedStorage s) \<and>
     dom (sm_storageTries s) \<subseteq> dom (c_cache (sm_cache s))"

definition sm_keeps_saved :: "state_manager \<Rightarrow> state_manager \<Rightarrow> bool" where
  "sm_keeps_saved s s' \<longleftrightarrow> (sm_inv s \<longrightarrow> sm_inv s' \<and> sm_saved s' = sm_saved s)"

interpretation smk: step_rel sm_keeps_saved "\<lambda>_. True"
  by unfold_locales (auto simp: sm_keeps_saved_def)

lemma smk_step: "smk.keeps m \<Longrightarrow> m s = (r, s') \<Longrightarrow> sm_keeps_saved s s'"
  using smk.keeps_step [of m s r s'] by simp

lemma new_state_manager_inv: "sm_inv new_state_manager"
  by (simp add: sm_inv_def new_state_manager_def new_cache_def tree_ok_def trie_ok_def trie_saved_def)

lemma saved_aux_frames:
  "length fs = length gs \<Longrightarrow> tl fs = tl gs \<Longrightarrow> saved_aux ts rs fs = saved_aux ts rs gs"
  by (cases fs; cases gs; cases ts; cases rs) auto

section \<open>Every operation keeps them\<close>

lemma getAccount_result:
  assumes "sm_inv s"
  obtains s' where "sm_getAccount a s = (fromValuesArray (fst (sm_cur s) a), s')"
    "sm_inv s'" "sm_saved s' = sm_saved s" "sm_cur s' = sm_cur s"
    "\<And>x. fromValuesArray (fst (sm_cur s) a) = Inr x \<Longrightarrow> a \<in> dom (c_cache (sm_cache s'))"
    "sm_storageTries s' = sm_storageTries s" "sm_storage_db s' = sm_storage_db s"
proof -
  have "tree_ok (c_cache (sm_cache s))" "trie_ok (trie_root (sm_trie s))"
    using assms by (auto simp: sm_inv_def)
  from cache_getOrLoad_result [OF this, of a] obtain c' where c':
    "cache_getOrLoad (trie_root (sm_trie s)) a (sm_cache s) =
       (fromValuesArray (raw_at (trie_root (sm_trie s)) (c_cache (sm_cache s)) a), c')"
    "c_checkpoints c' = c_checkpoints (sm_cache s)" "tree_ok (c_cache c')"
    "raw_at (trie_root (sm_trie s)) (c_cache c') = raw_at (trie_root (sm_trie s)) (c_cache (sm_cache s))"
    "dom (c_cache (sm_cache s)) \<subseteq> dom (c_cache c')"
    "\<And>x. fromValuesArray (raw_at (trie_root (sm_trie s)) (c_cache (sm_cache s)) a) = Inr x \<Longrightarrow>
       a \<in> dom (c_cache c')" by blast
  have "dom (sm_storageTries s) \<subseteq> dom (c_cache c')"
  proof -
    have "dom (sm_storageTries s) \<subseteq> dom (c_cache (sm_cache s))"
      using assms unfolding sm_inv_def by (elim conjE)
    then show ?thesis using c'(5) by (rule order.trans)
  qed
  then show thesis
    using c' assms
    by (intro that [of "s\<lparr>sm_cache := c'\<rparr>"])
      (simp_all add: sm_getAccount_def eff_defs sm_cur_def sm_inv_def sm_saved_def del: domIff)
qed

lemma keeps_getAccount: "smk.keeps (sm_getAccount a)"
proof (rule smk.keepsI)
  fix s :: state_manager
  show "sm_keeps_saved s (snd (sm_getAccount a s))"
  proof (cases "sm_inv s")
    case True
    from getAccount_result [OF this, of a] show ?thesis by (metis sm_keeps_saved_def snd_conv)
  qed (simp add: sm_keeps_saved_def)
qed

lemma keeps_touchAccount: "smk.keeps (sm_touchAccount a)"
  by (rule smk.keepsI) (auto simp: sm_touchAccount_def eff_defs sm_keeps_saved_def sm_inv_def sm_saved_def)

lemma keeps_cache_update:
  assumes "d \<longrightarrow> x = new_account"
  shows "smk.keeps (on_cache (cache_update a x m d v))"
proof (rule smk.keepsI)
  fix s :: state_manager
  have "tree_ok (c_cache (sm_cache s)) \<Longrightarrow> tree_ok ((c_cache (sm_cache s))(a \<mapsto>
      \<lparr>e_val = acc_raw x, e_modified = m, e_deleted = d, e_virtual = v\<rparr>))"
    using assms by (intro tree_ok_update) auto
  then show "sm_keeps_saved s (snd (on_cache (cache_update a x m d v) s))"
    by (auto simp: cache_update_def eff_defs sm_keeps_saved_def sm_inv_def sm_saved_def)
qed

lemma keeps_putAccount: "smk.keeps (sm_putAccount a x)"
  unfolding sm_putAccount_def cache_put_def Let_def
  by (intro smk.keeps_rules keeps_cache_update keeps_touchAccount) simp

lemma keeps_cache_del: "smk.keeps (on_cache (cache_del a))"
  unfolding cache_del_def by (rule keeps_cache_update) simp

lemma keeps_deleteAccount: "smk.keeps (sm_deleteAccount a)"
  unfolding sm_deleteAccount_def by (intro smk.keeps_rules keeps_cache_del keeps_touchAccount)

lemma keeps_accountIsEmpty: "smk.keeps (sm_accountIsEmpty a)"
  unfolding sm_accountIsEmpty_def by (intro smk.keeps_rules keeps_getAccount)

lemma keeps_cache_read: "(\<And>c. snd (m c) = c) \<Longrightarrow> smk.keeps (on_cache m)"
  by (rule smk.keeps_zoom) (simp add: smk.R_refl)

lemma cache_lookup_pure: "snd (cache_lookup a c) = c"
  by (auto simp: cache_lookup_def eff_defs split: option.splits prod.splits sum.splits)

lemma keeps_accountExists: "smk.keeps (sm_accountExists a)"
  unfolding sm_accountExists_def
  by (intro smk.keeps_rules keeps_cache_read) (simp_all add: cache_lookup_pure cache_keyIsDeleted_def eff_defs)

lemma keeps_cleanup: "smk.keeps (sm_cleanupTouchedAccounts vm)"
  unfolding sm_cleanupTouchedAccounts_def
  by (intro smk.keeps_rules keeps_accountIsEmpty keeps_cache_del smk.keeps_modif)
    (auto simp: sm_keeps_saved_def sm_inv_def sm_saved_def)

lemma keeps_upd_top:
  assumes "\<And>f. distinct (map fst f) \<Longrightarrow> distinct (map fst (g f))"
  shows "smk.keeps (upd_top g)"
proof (rule smk.keepsI)
  fix s :: state_manager
  show "sm_keeps_saved s (snd (upd_top g s))"
  proof (cases "sm_accessedStorage s")
    case (Cons f fs)
    then have "sm_saved (s\<lparr>sm_accessedStorage := g f # fs\<rparr>) = sm_saved s"
      by (simp add: sm_saved_def) (rule saved_aux_frames, simp_all)
    then show ?thesis
      using Cons assms by (auto simp: upd_top_def eff_defs sm_keeps_saved_def sm_inv_def)
  qed (simp add: upd_top_def eff_defs smk.R_refl)
qed

lemma keeps_addWarmedAddress: "smk.keeps (addWarmedAddress a)"
  unfolding addWarmedAddress_def
  by (rule keeps_upd_top) (simp add: warm_address_def distinct_update split: option.split)

lemma keeps_addWarmedStorage: "smk.keeps (addWarmedStorage a k)"
  unfolding addWarmedStorage_def by (rule keeps_upd_top) (simp add: warm_slot_def distinct_update)

lemma trie_saved_put:
  "trie_saved (snd (db_put k v t)) = trie_saved t"
  "trie_root (snd (db_put k v t)) = trie_root t"
  by (auto simp: db_put_def eff_defs db_isCheckpoint_def trie_saved_def db_set_def split: list.splits)

lemma keeps_code_put: "smk.keeps (on_trie (db_put k v))"
  by (rule smk.keepsI) (auto simp: zoom_def split_beta sm_keeps_saved_def sm_inv_def sm_saved_def
      trie_saved_put simp flip: length_trie_saved)

lemma keeps_code_get: "smk.keeps (on_trie (db_get k))"
proof (rule smk.keepsI)
  fix s :: state_manager
  obtain t' where t': "db_get k (sm_trie s) = (Inr (db_view (leveldb (sm_trie s)) (db_checkpoints (sm_trie s)) k), t')"
    "trie_cur t' = trie_cur (sm_trie s)" "trie_saved t' = trie_saved (sm_trie s)"
    using db_get_value by blast
  then have "trie_root t' = trie_root (sm_trie s)" by (simp add: trie_cur_def)
  with t' show "sm_keeps_saved s (snd (on_trie (db_get k) s))"
    by (auto simp: zoom_def sm_keeps_saved_def sm_inv_def sm_saved_def)
qed

lemma keeps_putContractCode: "smk.keeps (sm_putContractCode vm a v)"
  unfolding sm_putContractCode_def Let_def
  by (intro smk.keeps_rules keeps_code_put keeps_getAccount keeps_putAccount)

lemma keeps_getContractCode: "smk.keeps (sm_getContractCode a)"
  unfolding sm_getContractCode_def by (intro smk.keeps_rules keeps_code_get keeps_getAccount)

lemma keeps_getStorageTrie: "smk.keeps (sm_getStorageTrie a)"
  unfolding sm_getStorageTrie_def sm_lookupStorageTrie_def
  by (intro smk.keeps_rules keeps_getAccount)

lemma getStorageTrie_cached:
  assumes "sm_inv s" "sm_getStorageTrie a s = (Inr r, s')"
  shows "a \<in> dom (c_cache (sm_cache s'))"
proof (cases "sm_storageTries s a")
  case (Some x)
  then show ?thesis
    using assms by (auto simp: sm_getStorageTrie_def eff_defs sm_inv_def)
next
  case None
  from getAccount_result [OF assms(1), of a] obtain t where
    "sm_getAccount a s = (fromValuesArray (fst (sm_cur s) a), t)"
    "\<And>x. fromValuesArray (fst (sm_cur s) a) = Inr x \<Longrightarrow> a \<in> dom (c_cache (sm_cache t))"
    by metis
  then show ?thesis
    using assms(2) None
    by (cases "fromValuesArray (fst (sm_cur s) a)")
      (auto simp: sm_getStorageTrie_def sm_lookupStorageTrie_def eff_defs)
qed

lemma keeps_storage_read: "smk.keeps (storage_read r)"
  unfolding storage_read_def by (intro smk.keeps_rules)

lemma keeps_getContractStorage: "smk.keeps (sm_getContractStorage a k)"
  unfolding sm_getContractStorage_def
  by (intro smk.keeps_rules keeps_getStorageTrie keeps_storage_read)

lemma keeps_getOriginal: "smk.keeps (sm_getOriginalContractStorage a k)"
  unfolding sm_getOriginalContractStorage_def
  by (intro smk.keeps_rules keeps_getContractStorage smk.keeps_modif)
    (auto simp: sm_keeps_saved_def sm_inv_def sm_saved_def split: option.splits)

text \<open>
  The modification of a storage trie: the callback changes the disk only, and the address is in the
  cache when its trie is recorded.
\<close>

lemma sm_db_self: "\<exists>db. s = s\<lparr>sm_storage_db := db\<rparr>"
  by (rule exI [of _ "sm_storage_db s"]) simp

lemma keeps_modifyContractStorage:
  assumes "\<And>r s r' s'. m r s = (r', s') \<Longrightarrow> \<exists>db. s' = s\<lparr>sm_storage_db := db\<rparr>"
  shows "smk.keeps (sm_modifyContractStorage a m)"
proof (rule smk.keepsI)
  fix s :: state_manager
  have rest: "smk.keeps (bnd (on_cache (cache_get a)) (\<lambda>contract.
      andthen (sm_putAccount a (contract\<lparr>acc_stateRoot := root'\<rparr>)) (sm_touchAccount a)))" for root'
    by (intro smk.keeps_rules keeps_putAccount keeps_touchAccount keeps_cache_read)
      (auto simp: cache_get_def eff_defs cache_lookup_def split: option.splits prod.splits sum.splits)
  show "sm_keeps_saved s (snd (sm_modifyContractStorage a m s))"
  proof (cases "sm_inv s")
    case inv: True
    obtain r t where gt: "sm_getStorageTrie a s = (r, t)" by force
    have st: "sm_keeps_saved s t" using keeps_getStorageTrie gt by (rule smk_step)
    show ?thesis
    proof (cases r)
      case (Inr root)
      have a: "a \<in> dom (c_cache (sm_cache t))" using getStorageTrie_cached [OF inv] gt Inr by simp
      obtain r2 db where m: "m root t = (r2, t\<lparr>sm_storage_db := db\<rparr>)"
        using assms [of root t] by (metis surj_pair)
      show ?thesis
      proof (cases r2)
        case (Inr root')
        let ?u = "t\<lparr>sm_storage_db := db, sm_storageTries := (sm_storageTries t)(a \<mapsto> root')\<rparr>"
        have tu: "sm_keeps_saved t ?u"
          using a by (auto simp: sm_keeps_saved_def sm_inv_def sm_saved_def)
        let ?last = "bnd (on_cache (cache_get a)) (\<lambda>contract.
            andthen (sm_putAccount a (contract\<lparr>acc_stateRoot := root'\<rparr>)) (sm_touchAccount a))"
        have "sm_keeps_saved ?u (snd (?last ?u))"
          using smk_step [OF rest surjective_pairing] .
        then have "sm_keeps_saved s (snd (?last ?u))"
          using smk.R_trans [OF smk.R_trans [OF st tu]] by blast
        moreover have "sm_modifyContractStorage a m s = ?last ?u"
          using gt \<open>r = Inr root\<close> m Inr
          by (simp add: sm_modifyContractStorage_def bnd_Inr andthen_def modif_def)
        ultimately show ?thesis by simp
      next
        case (Inl e)
        have "sm_keeps_saved t (t\<lparr>sm_storage_db := db\<rparr>)"
          by (auto simp: sm_keeps_saved_def sm_inv_def sm_saved_def)
        then show ?thesis
          using smk.R_trans [OF st, of "t\<lparr>sm_storage_db := db\<rparr>"] gt \<open>r = Inr root\<close> m Inl
          by (simp add: sm_modifyContractStorage_def bnd_def)
      qed
    qed (use gt st in \<open>simp add: sm_modifyContractStorage_def bnd_def\<close>)
  qed (simp add: sm_keeps_saved_def)
qed

lemma storage_put_db: "storage_put vm k v r s = (r', s') \<Longrightarrow> \<exists>db. s' = s\<lparr>sm_storage_db := db\<rparr>"
  by (auto simp: storage_put_def storage_read_def storage_write_def eff_defs Let_def
      split: sum.splits if_splits intro: sm_db_self)

lemma keeps_putContractStorage: "smk.keeps (sm_putContractStorage vm a k v)"
  unfolding sm_putContractStorage_def
  by (intro smk.keeps_rules keeps_modifyContractStorage) (rule storage_put_db)

lemma keeps_clearContractStorage: "smk.keeps (sm_clearContractStorage a)"
  unfolding sm_clearContractStorage_def
  by (intro keeps_modifyContractStorage)
    (auto simp: eff_defs intro: sm_db_self)

lemmas sm_keeps = keeps_getAccount keeps_touchAccount keeps_putAccount keeps_deleteAccount
  keeps_accountIsEmpty keeps_accountExists keeps_cleanup keeps_addWarmedAddress
  keeps_addWarmedStorage keeps_putContractCode keeps_getContractCode keeps_getContractStorage
  keeps_getOriginal keeps_putContractStorage keeps_clearContractStorage

section \<open>Checkpoint, commit and revert\<close>

lemma flush_at_zero_ok:
  assumes "sm_inv s"
  obtains s' where "flush_at_zero s = (Inr (), s')" "sm_inv s'" "sm_cur s' = sm_cur s"
    "sm_saved s' = sm_saved s"
proof (cases "sm_checkpointCount s = 0")
  case True
  let ?t = "c_cache (sm_cache s)" and ?r = "trie_root (sm_trie s)"
  have ok: "tree_ok ?t" "trie_ok ?r" and cps: "c_checkpoints (sm_cache s) = []"
    "db_checkpoints (sm_trie s) = []"
    using assms True by (auto simp: sm_inv_def)
  then have none: "c_checkpoints (sm_cache s) = []" "trie_saved (sm_trie s) = []"
    "db_checkpoints (sm_trie s) = []"
    by (simp_all add: trie_saved_def)
  have sub: "dom (sm_storageTries s) \<subseteq> dom ?t" using assms unfolding sm_inv_def by (elim conjE)
  note fl = flush_raw_at [OF ok]
  let ?s' = "s\<lparr>sm_cache := (sm_cache s)\<lparr>c_cache := (\<lambda>k. map_option flush_entry (?t k))\<rparr>,
      sm_trie := (sm_trie s)\<lparr>trie_root := flush_trie ?t ?r\<rparr>, sm_originalStorageCache := Map.empty\<rparr>"
  have "flush_at_zero s = (Inr (), ?s')"
    using True by (simp add: flush_at_zero_def sm_flush_def sm_clearOriginalStorageCache_def
        cache_flush_def trie_set_root_def eff_defs)
  moreover have "sm_inv ?s'"
    using assms fl sub by (simp add: sm_inv_def none trie_saved_def del: domIff)
  moreover have "sm_cur ?s' = sm_cur s"
    using fl(1) by (simp add: sm_cur_def trie_cur_def)
  moreover have "sm_saved ?s' = sm_saved s"
    by (simp add: sm_saved_def none trie_saved_def)
  ultimately show thesis by (rule that)
next
  case False
  then have "flush_at_zero s = (Inr (), s)" by (simp add: flush_at_zero_def eff_defs)
  then show thesis using assms that [of s] by simp
qed

lemma sm_checkpoint_ok:
  assumes "sm_inv s"
  shows "\<exists>s'. sm_checkpoint s = (Inr (), s') \<and> sm_inv s' \<and> sm_cur s' = sm_cur s \<and>
    sm_saved s' = sm_cur s # sm_saved s"
proof -
  obtain t' where t': "trie_checkpoint (sm_trie s) = (Inr (), t')"
    "trie_cur t' = trie_cur (sm_trie s)" "trie_saved t' = trie_cur (sm_trie s) # trie_saved (sm_trie s)"
    using ctrie.checkpoint_ok [of "sm_trie s"] by auto
  then have root: "trie_root t' = trie_root (sm_trie s)" by (simp add: trie_cur_def)
  let ?s' = "s\<lparr>sm_trie := t', sm_cache := (sm_cache s)\<lparr>c_checkpoints :=
      c_cache (sm_cache s) # c_checkpoints (sm_cache s)\<rparr>,
      sm_touchedStack := sm_touched s # sm_touchedStack s,
      sm_accessedStorage := [] # sm_accessedStorage s, sm_checkpointCount := sm_checkpointCount s + 1\<rparr>"
  have fv: "frames_view ([] # fs) = frames_view fs" for fs
    by (auto simp: frames_view_def frame_slot_def fun_eq_iff)
  have "sm_checkpoint s = (Inr (), ?s')"
    using t' by (simp add: sm_checkpoint_def base_checkpoint_def cache_checkpoint_def eff_defs)
  moreover have "sm_inv ?s'"
    using assms t' by (simp add: sm_inv_def root trie_cur_def del: domIff length_trie_saved)
  moreover have "sm_cur ?s' = sm_cur s"
    using t' by (simp add: sm_cur_def root fv)
  moreover have "sm_saved ?s' = sm_cur s # sm_saved s"
    using t' by (simp add: sm_saved_def sm_cur_def trie_cur_def)
  ultimately show ?thesis by blast
qed

lemma sm_saved_split:
  assumes "sm_inv s" "sm_saved s = v # vs"
  obtains t ts r d rs f g fs st sts where "c_checkpoints (sm_cache s) = t # ts"
    "trie_saved (sm_trie s) = (r, d) # rs" "sm_accessedStorage s = f # g # fs"
    "sm_touchedStack s = st # sts" "v = (raw_at r t, d, frames_view (g # fs))"
    "vs = saved_aux ts rs (g # fs)"
proof -
  obtain t ts where t: "c_checkpoints (sm_cache s) = t # ts"
    using assms by (cases "c_checkpoints (sm_cache s)") (auto simp: sm_saved_def)
  then obtain st sts where st: "sm_touchedStack s = st # sts"
    using assms(1) by (cases "sm_touchedStack s") (auto simp: sm_inv_def)
  then obtain p rs where p: "trie_saved (sm_trie s) = p # rs"
    using assms(1) by (cases "trie_saved (sm_trie s)") (simp_all add: sm_inv_def del: length_trie_saved)
  obtain f fs' where f: "sm_accessedStorage s = f # fs'"
    using assms(1) by (cases "sm_accessedStorage s") (simp_all add: sm_inv_def)
  then obtain g fs where g: "fs' = g # fs"
    using assms(1) st by (cases fs') (simp_all add: sm_inv_def)
  show thesis
    by (rule that [of t ts "fst p" "snd p" rs f g fs st sts])
      (use assms(2) t st p f g in \<open>cases p; simp add: sm_saved_def\<close>)+
qed

lemma sm_commit_ok:
  assumes inv: "sm_inv s" and sv: "sm_saved s = v # vs"
  shows "\<exists>s'. sm_commit s = (Inr (), s') \<and> sm_inv s' \<and> sm_cur s' = sm_cur s \<and> sm_saved s' = vs"
proof -
  obtain t ts r d rs f g fs st sts where sp: "c_checkpoints (sm_cache s) = t # ts"
    "trie_saved (sm_trie s) = (r, d) # rs" "sm_accessedStorage s = f # g # fs"
    "sm_touchedStack s = st # sts" "v = (raw_at r t, d, frames_view (g # fs))"
    "vs = saved_aux ts rs (g # fs)"
    using sm_saved_split [OF inv sv] .
  obtain t' where t': "trie_commit (sm_trie s) = (Inr (), t')" "trie_cur t' = trie_cur (sm_trie s)"
    "trie_saved t' = rs"
    using ctrie.commit_ok [of "sm_trie s", OF TrueI sp(2)] by blast
  then have root: "trie_root t' = trie_root (sm_trie s)" by (simp add: trie_cur_def)
  have df: "distinct (map fst f)" "distinct (map fst g)" using inv sp(3) by (auto simp: sm_inv_def)
  define s1 where "s1 = s\<lparr>sm_trie := t', sm_cache := (sm_cache s)\<lparr>c_checkpoints := ts\<rparr>,
      sm_touchedStack := sts, sm_checkpointCount := sm_checkpointCount s - 1,
      sm_accessedStorage := merge_frame g f # fs\<rparr>"
  have run: "sm_commit s = flush_at_zero s1"
    using t'(1) sp by (simp add: sm_commit_def base_commit_def cache_commit_def eff_defs
        accessedStorageMerge_def s1_def)
  have "sm_inv s1"
    using inv sp t' distinct_merge_frame [OF df(2), of f]
    by (simp add: sm_inv_def s1_def root del: domIff length_trie_saved)
  moreover have "sm_cur s1 = sm_cur s"
    using t' sp(3) frames_view_merge [OF df(1)] by (simp add: sm_cur_def s1_def root)
  moreover have "sm_saved s1 = vs"
    using t' sp saved_aux_frames [of "merge_frame g f # fs" "g # fs"]
    by (simp add: sm_saved_def s1_def)
  ultimately show ?thesis using run flush_at_zero_ok [of s1] by metis
qed

lemma sm_revert_ok:
  assumes inv: "sm_inv s" and sv: "sm_saved s = v # vs"
  shows "\<exists>s'. sm_revert s = (Inr (), s') \<and> sm_inv s' \<and> sm_cur s' = v \<and> sm_saved s' = vs"
proof -
  obtain t ts r d rs f g fs st sts where sp: "c_checkpoints (sm_cache s) = t # ts"
    "trie_saved (sm_trie s) = (r, d) # rs" "sm_accessedStorage s = f # g # fs"
    "sm_touchedStack s = st # sts" "v = (raw_at r t, d, frames_view (g # fs))"
    "vs = saved_aux ts rs (g # fs)"
    using sm_saved_split [OF inv sv] .
  obtain t' where t': "trie_revert (sm_trie s) = (Inr (), t')" "trie_cur t' = (r, d)" "trie_saved t' = rs"
    using ctrie.revert_ok [of "sm_trie s", OF TrueI sp(2)] by blast
  then have root: "trie_root t' = r" by (simp add: trie_cur_def)
  define s1 where "s1 = s\<lparr>sm_trie := t', sm_storageTries := Map.empty,
      sm_cache := (sm_cache s)\<lparr>c_cache := t, c_checkpoints := ts\<rparr>,
      sm_accessedStorage := g # fs, sm_accessedStorageReverted := f # sm_accessedStorageReverted s,
      sm_touchedStack := sts, sm_touched := (if ripemdPrecompileAddress \<in> set (sm_touched s)
        then set_add ripemdPrecompileAddress st else st),
      sm_checkpointCount := sm_checkpointCount s - 1\<rparr>"
  have run: "sm_revert s = flush_at_zero s1"
    using t'(1) sp by (simp add: sm_revert_def base_revert_def cache_revert_def eff_defs s1_def)
  have "sm_inv s1"
    using inv sp t' by (simp add: sm_inv_def s1_def root del: domIff length_trie_saved)
  moreover have "sm_cur s1 = v"
    using t' sp by (simp add: sm_cur_def s1_def root)
  moreover have "sm_saved s1 = vs"
    using t' sp by (simp add: sm_saved_def s1_def)
  ultimately show ?thesis using run flush_at_zero_ok [of s1] by metis
qed

text \<open>The operations a message's body runs on the state manager.\<close>

inductive sm_writes :: "vm \<Rightarrow> state_manager \<Rightarrow> state_manager \<Rightarrow> bool" for vm where
  "sm_getAccount a s = (r, s') \<Longrightarrow> sm_writes vm s s'"
| "sm_putAccount a x s = (u, s') \<Longrightarrow> sm_writes vm s s'"
| "sm_deleteAccount a s = (u, s') \<Longrightarrow> sm_writes vm s s'"
| "sm_touchAccount a s = (u, s') \<Longrightarrow> sm_writes vm s s'"
| "sm_putContractCode vm a c s = (u, s') \<Longrightarrow> sm_writes vm s s'"
| "sm_getContractCode a s = (c', s') \<Longrightarrow> sm_writes vm s s'"
| "sm_getContractStorage a k s = (c', s') \<Longrightarrow> sm_writes vm s s'"
| "sm_getOriginalContractStorage a k s = (c', s') \<Longrightarrow> sm_writes vm s s'"
| "sm_putContractStorage vm a k c s = (u, s') \<Longrightarrow> sm_writes vm s s'"
| "sm_clearContractStorage a s = (u, s') \<Longrightarrow> sm_writes vm s s'"
| "addWarmedAddress a s = (u, s') \<Longrightarrow> sm_writes vm s s'"
| "addWarmedStorage a k s = (u, s') \<Longrightarrow> sm_writes vm s s'"
| "sm_cleanupTouchedAccounts vm s = (u, s') \<Longrightarrow> sm_writes vm s s'"

lemma sm_writes_keeps: "sm_writes vm s s' \<Longrightarrow> sm_keeps_saved s s'"
  by (induction rule: sm_writes.induct) (erule sm_keeps [THEN smk_step])+

interpretation state_mgr: checkpointed sm_checkpoint sm_commit sm_revert sm_cur sm_saved sm_inv
  "sm_writes vm" for vm
proof
  fix s s' :: state_manager
  show "sm_inv s \<Longrightarrow> \<exists>s'. sm_checkpoint s = (Inr (), s') \<and> sm_inv s' \<and> sm_cur s' = sm_cur s \<and>
      sm_saved s' = sm_cur s # sm_saved s"
    by (rule sm_checkpoint_ok)
  show "sm_inv s \<Longrightarrow> sm_writes vm s s' \<Longrightarrow> sm_inv s' \<and> sm_saved s' = sm_saved s"
    using sm_writes_keeps by (simp add: sm_keeps_saved_def)
next
  fix s :: state_manager and v vs
  show "sm_inv s \<Longrightarrow> sm_saved s = v # vs \<Longrightarrow> \<exists>s'. sm_commit s = (Inr (), s') \<and> sm_inv s' \<and>
      sm_cur s' = sm_cur s \<and> sm_saved s' = vs"
    by (rule sm_commit_ok)
  show "sm_inv s \<Longrightarrow> sm_saved s = v # vs \<Longrightarrow> \<exists>s'. sm_revert s = (Inr (), s') \<and> sm_inv s' \<and>
      sm_cur s' = v \<and> sm_saved s' = vs"
    by (rule sm_revert_ok)
qed

end
