(* ===== verification/Transient_Storage.thy ===== *)
theory Transient_Storage
  imports Checkpoints
begin

text \<open>
  \<open>vm/src/state/transientStorage.ts\<close> (EIP-1153): the slots that live as long as a transaction.
  Every write is journaled with the value it replaced; a checkpoint records the length of the
  journal, a revert undoes the journal down to it. Addresses and keys are the hex strings of
  buffers in the source and the buffers themselves here (hex printing is injective).

  The abstraction is a function from address and key to the value with a stack of saved
  functions; the simulation shows that undoing the journal is the same as restoring a copy.
\<close>

record ts_modification =
  ts_addr :: bytes
  ts_key :: bytes
  ts_prevValue :: bytes

record transient_storage =
  ts_storage :: "bytes \<rightharpoonup> (bytes \<rightharpoonup> bytes)"
  ts_changeJournal :: "ts_modification list"
  ts_indices :: "nat list"

definition new_transient_storage :: transient_storage where
  "new_transient_storage = \<lparr>ts_storage = Map.empty, ts_changeJournal = [], ts_indices = [0]\<rparr>"

definition zero32 :: bytes where
  "zero32 = replicate 32 0"

definition ts_get :: "bytes \<Rightarrow> bytes \<Rightarrow> transient_storage \<Rightarrow> bytes" where
  "ts_get addr key ts =
     (case ts_storage ts addr of
        None \<Rightarrow> zero32
      | Some m \<Rightarrow> (case m key of None \<Rightarrow> zero32 | Some v \<Rightarrow> v))"

definition ts_put :: "bytes \<Rightarrow> bytes \<Rightarrow> bytes \<Rightarrow> (transient_storage, unit) eff" where
  "ts_put addr key val =
     andthen (guard_eff (length key = 32) (JsError ''Transient storage key must be 32 bytes long''))
       (andthen (guard_eff (length val \<le> 32)
           (JsError ''Transient storage value cannot be longer than 32 bytes''))
         (modif (\<lambda>ts.
            let m = (case ts_storage ts addr of None \<Rightarrow> Map.empty | Some m \<Rightarrow> m);
                prevValue = (case m key of None \<Rightarrow> zero32 | Some v \<Rightarrow> v)
            in ts\<lparr>ts_changeJournal := ts_changeJournal ts @
                   [\<lparr>ts_addr = addr, ts_key = key, ts_prevValue = prevValue\<rparr>],
                 ts_storage := (ts_storage ts)(addr \<mapsto> m(key \<mapsto> val))\<rparr>)))"

definition ts_commit :: "(transient_storage, unit) eff" where
  "ts_commit = bnd (gets ts_indices) (\<lambda>is.
     andthen (guard_eff (is \<noteq> []) (JsError ''Nothing to commit''))
       (modif (\<lambda>ts. ts\<lparr>ts_indices := butlast is\<rparr>)))"

definition ts_checkpoint :: "(transient_storage, unit) eff" where
  "ts_checkpoint =
     modif (\<lambda>ts. ts\<lparr>ts_indices := ts_indices ts @ [length (ts_changeJournal ts)]\<rparr>)"

text \<open>
  The loop of \<open>revert\<close> runs from the end of the journal. \<open>get(addr)!\<close> asserts that the address
  has a map, which \<open>put\<close> made before it journaled.
\<close>

definition ts_undo1 :: "ts_modification \<Rightarrow> (bytes \<rightharpoonup> (bytes \<rightharpoonup> bytes)) \<Rightarrow> (bytes \<rightharpoonup> (bytes \<rightharpoonup> bytes))" where
  "ts_undo1 c st = st(ts_addr c \<mapsto> (the (st (ts_addr c)))(ts_key c \<mapsto> ts_prevValue c))"

definition ts_undo :: "ts_modification list \<Rightarrow> (bytes \<rightharpoonup> (bytes \<rightharpoonup> bytes)) \<Rightarrow> (bytes \<rightharpoonup> (bytes \<rightharpoonup> bytes))" where
  "ts_undo cs st = fold ts_undo1 (rev cs) st"

definition ts_revert :: "(transient_storage, unit) eff" where
  "ts_revert = bnd (gets ts_indices) (\<lambda>is.
     if is = [] then raise (JsError ''Nothing to revert'')
     else (let lastCheckpoint = last is
           in modif (\<lambda>ts. ts\<lparr>ts_indices := butlast is,
                ts_storage := ts_undo (drop lastCheckpoint (ts_changeJournal ts)) (ts_storage ts),
                ts_changeJournal := take lastCheckpoint (ts_changeJournal ts)\<rparr>)))"

section \<open>Observable slots, saved slots, the invariant\<close>

definition ts_view :: "(bytes \<rightharpoonup> (bytes \<rightharpoonup> bytes)) \<Rightarrow> bytes \<Rightarrow> bytes \<Rightarrow> bytes" where
  "ts_view st addr key =
     (case st addr of None \<Rightarrow> zero32 | Some m \<Rightarrow> (case m key of None \<Rightarrow> zero32 | Some v \<Rightarrow> v))"

definition ts_cur :: "transient_storage \<Rightarrow> bytes \<Rightarrow> bytes \<Rightarrow> bytes" where
  "ts_cur ts = ts_view (ts_storage ts)"

definition ts_saved :: "transient_storage \<Rightarrow> (bytes \<Rightarrow> bytes \<Rightarrow> bytes) list" where
  "ts_saved ts = map (\<lambda>k. ts_view (ts_undo (drop k (ts_changeJournal ts)) (ts_storage ts)))
     (rev (ts_indices ts))"

definition ts_inv :: "transient_storage \<Rightarrow> bool" where
  "ts_inv ts \<longleftrightarrow> sorted (ts_indices ts) \<and>
     (\<forall>i \<in> set (ts_indices ts). i \<le> length (ts_changeJournal ts)) \<and>
     (\<forall>c \<in> set (ts_changeJournal ts). ts_addr c \<in> dom (ts_storage ts))"

definition ts_writes :: "transient_storage \<Rightarrow> transient_storage \<Rightarrow> bool" where
  "ts_writes ts ts' \<longleftrightarrow> (\<exists>addr key val. ts_put addr key val ts = (Inr (), ts'))"

lemma ts_cur_get: "ts_cur ts addr key = ts_get addr key ts"
  by (simp add: ts_cur_def ts_view_def ts_get_def)

lemma ts_undo_snoc: "ts_undo (cs @ [c]) st = ts_undo cs (ts_undo1 c st)"
  by (simp add: ts_undo_def)

lemma ts_undo_append: "ts_undo (cs @ ds) st = ts_undo cs (ts_undo ds st)"
  by (simp add: ts_undo_def)

lemma ts_undo1_dom: "dom (ts_undo1 c st) = insert (ts_addr c) (dom st)"
  by (simp add: ts_undo1_def)

lemma ts_undo_dom: "a \<in> dom st \<Longrightarrow> a \<in> dom (ts_undo cs st)"
proof (induction cs arbitrary: st rule: rev_induct)
  case (snoc c cs)
  have "a \<in> dom (ts_undo1 c st)" using snoc.prems by (simp only: ts_undo1_dom insert_iff simp_thms)
  then show ?case unfolding ts_undo_snoc by (rule snoc.IH)
qed (simp add: ts_undo_def)

lemma ts_view_undo1:
  "ts_addr c \<in> dom st \<Longrightarrow> ts_view (ts_undo1 c st) a k =
     (if a = ts_addr c \<and> k = ts_key c then ts_prevValue c else ts_view st a k)"
  by (auto simp: ts_view_def ts_undo1_def split: option.split)

text \<open>Undoing depends on what can be observed only.\<close>

lemma ts_view_undo_cong:
  "ts_view st = ts_view st' \<Longrightarrow> \<forall>c \<in> set cs. ts_addr c \<in> dom st \<and> ts_addr c \<in> dom st' \<Longrightarrow>
     ts_view (ts_undo cs st) = ts_view (ts_undo cs st')"
proof (induction cs arbitrary: st st' rule: rev_induct)
  case (snoc c cs)
  have "ts_view (ts_undo1 c st) = ts_view (ts_undo1 c st')"
    using snoc.prems by (intro ext) (simp add: ts_view_undo1 del: domIff)
  moreover have "\<forall>d \<in> set cs. ts_addr d \<in> dom (ts_undo1 c st) \<and> ts_addr d \<in> dom (ts_undo1 c st')"
    using snoc.prems(2) by (simp add: ts_undo1_dom del: domIff)
  ultimately show ?case
    using snoc.IH by (simp only: ts_undo_snoc)
qed (simp add: ts_undo_def)

lemma ts_put_result:
  "length key = 32 \<Longrightarrow> length val \<le> 32 \<Longrightarrow> ts_put addr key val ts =
     (Inr (), ts\<lparr>ts_changeJournal := ts_changeJournal ts @
        [\<lparr>ts_addr = addr, ts_key = key, ts_prevValue = ts_get addr key ts\<rparr>],
      ts_storage := (ts_storage ts)(addr \<mapsto>
        (case ts_storage ts addr of None \<Rightarrow> Map.empty | Some m \<Rightarrow> m)(key \<mapsto> val))\<rparr>)"
  by (simp add: ts_put_def eff_defs Let_def ts_get_def split: option.split)

lemma ts_put_cases:
  assumes "ts_put addr key val ts = (Inr (), ts')"
  shows "length key = 32" "length val \<le> 32"
  using assms by (auto simp: ts_put_def eff_defs split: if_splits)

lemma ts_put_get:
  assumes "ts_put addr key val ts = (Inr (), ts')"
  shows "ts_get a k ts' = (if a = addr \<and> k = key then val else ts_get a k ts)"
proof -
  have "ts_storage ts' = (ts_storage ts)(addr \<mapsto>
      (case ts_storage ts addr of None \<Rightarrow> Map.empty | Some m \<Rightarrow> m)(key \<mapsto> val))"
    using assms ts_put_cases [OF assms] by (simp add: ts_put_result) auto
  then show ?thesis
    by (cases "ts_storage ts addr") (auto simp: ts_get_def)
qed

lemma ts_writes_saved:
  assumes inv: "ts_inv ts" and w: "ts_writes ts ts'"
  shows "ts_inv ts' \<and> ts_saved ts' = ts_saved ts"
proof -
  obtain addr key val where put: "ts_put addr key val ts = (Inr (), ts')"
    using w by (auto simp: ts_writes_def)
  define c where "c = \<lparr>ts_addr = addr, ts_key = key, ts_prevValue = ts_get addr key ts\<rparr>"
  let ?st = "ts_storage ts" and ?j = "ts_changeJournal ts"
  have ts': "ts_changeJournal ts' = ?j @ [c]" "ts_indices ts' = ts_indices ts"
      "ts_storage ts' = ?st(addr \<mapsto>
        (case ?st addr of None \<Rightarrow> Map.empty | Some m \<Rightarrow> m)(key \<mapsto> val))"
    using put ts_put_cases [OF put] by (auto simp: ts_put_result c_def)
  have inv': "ts_inv ts'"
    using inv by (auto simp: ts_inv_def ts' c_def)
  have view: "ts_view (ts_undo1 c (ts_storage ts')) = ts_view ?st"
  proof (intro ext)
    fix a k
    have "ts_addr c \<in> dom (ts_storage ts')" by (simp add: ts' c_def)
    then show "ts_view (ts_undo1 c (ts_storage ts')) a k = ts_view ?st a k"
      using ts_put_get [OF put, of a k]
      by (simp add: ts_view_undo1 c_def del: domIff flip: ts_cur_get ts_cur_def)
  qed
  have "ts_view (ts_undo (drop k (ts_changeJournal ts')) (ts_storage ts')) =
      ts_view (ts_undo (drop k ?j) ?st)" if "k \<in> set (ts_indices ts)" for k
  proof -
    have "k \<le> length ?j" using inv that by (simp add: ts_inv_def)
    then have "ts_undo (drop k (ts_changeJournal ts')) (ts_storage ts') =
        ts_undo (drop k ?j) (ts_undo1 c (ts_storage ts'))"
      by (simp add: ts' ts_undo_snoc)
    moreover have "\<forall>d \<in> set (drop k ?j). ts_addr d \<in> dom (ts_undo1 c (ts_storage ts')) \<and>
        ts_addr d \<in> dom ?st"
      using inv by (auto simp: ts_inv_def ts' ts_undo1_dom dest!: in_set_dropD)
    ultimately show ?thesis
      using ts_view_undo_cong [OF view] by simp
  qed
  then have "ts_saved ts' = ts_saved ts"
    by (simp add: ts_saved_def ts' )
  with inv' show ?thesis ..
qed

lemma ts_saved_nonempty: "ts_saved ts = v # vs \<Longrightarrow> ts_indices ts \<noteq> []"
  by (auto simp: ts_saved_def)

lemma ts_saved_split:
  assumes "ts_saved ts = v # vs"
  obtains iis k where "ts_indices ts = iis @ [k]"
    "v = ts_view (ts_undo (drop k (ts_changeJournal ts)) (ts_storage ts))"
    "vs = map (\<lambda>k. ts_view (ts_undo (drop k (ts_changeJournal ts)) (ts_storage ts))) (rev iis)"
proof (cases "ts_indices ts" rule: rev_cases)
  case Nil
  then show thesis using assms by (simp add: ts_saved_def)
next
  case (snoc ys y)
  then show thesis using assms that [of ys y] by (simp add: ts_saved_def)
qed

lemma ts_revert_ok:
  assumes inv: "ts_inv ts" and sv: "ts_saved ts = v # vs"
  shows "\<exists>ts'. ts_revert ts = (Inr (), ts') \<and> ts_inv ts' \<and> ts_cur ts' = v \<and> ts_saved ts' = vs"
proof -
  obtain iis k where sp: "ts_indices ts = iis @ [k]"
    "v = ts_view (ts_undo (drop k (ts_changeJournal ts)) (ts_storage ts))"
    "vs = map (\<lambda>k. ts_view (ts_undo (drop k (ts_changeJournal ts)) (ts_storage ts))) (rev iis)"
    using ts_saved_split [OF sv] .
  define ts' where "ts' = ts\<lparr>ts_indices := iis,
      ts_storage := ts_undo (drop k (ts_changeJournal ts)) (ts_storage ts),
      ts_changeJournal := take k (ts_changeJournal ts)\<rparr>"
  have le: "i \<le> k" "k \<le> length (ts_changeJournal ts)" if "i \<in> set iis" for i
    using inv sp(1) that by (auto simp: ts_inv_def sorted_append)
  have k: "k \<le> length (ts_changeJournal ts)"
    using inv sp(1) by (auto simp: ts_inv_def)
  have "ts_revert ts = (Inr (), ts')"
    by (simp add: ts_revert_def eff_defs sp(1) ts'_def Let_def)
  moreover have "ts_inv ts'"
  proof -
    have "ts_addr c \<in> dom (ts_undo (drop k (ts_changeJournal ts)) (ts_storage ts))"
      if "c \<in> set (take k (ts_changeJournal ts))" for c
    proof (rule ts_undo_dom)
      show "ts_addr c \<in> dom (ts_storage ts)"
        using inv in_set_takeD [OF that] unfolding ts_inv_def by blast
    qed
    then show ?thesis
      using inv le k by (simp add: ts_inv_def ts'_def sp(1) sorted_append del: domIff)
  qed
  moreover have "ts_cur ts' = v"
    by (simp add: ts_cur_def ts'_def sp(2))
  moreover have "ts_saved ts' = vs"
  proof -
    have "ts_undo (drop i (take k (ts_changeJournal ts)))
        (ts_undo (drop k (ts_changeJournal ts)) (ts_storage ts)) =
        ts_undo (drop i (ts_changeJournal ts)) (ts_storage ts)" if "i \<in> set iis" for i
    proof -
      have "drop i (ts_changeJournal ts) =
          drop i (take k (ts_changeJournal ts)) @ drop k (ts_changeJournal ts)"
        using le [OF that] by (metis append_take_drop_id drop_append drop_0 diff_is_0_eq
            length_take min.absorb2)
      then show ?thesis by (simp add: ts_undo_append)
    qed
    then show ?thesis by (simp add: ts_saved_def ts'_def sp(3))
  qed
  ultimately show ?thesis by blast
qed

lemma ts_commit_ok:
  assumes inv: "ts_inv ts" and sv: "ts_saved ts = v # vs"
  shows "\<exists>ts'. ts_commit ts = (Inr (), ts') \<and> ts_inv ts' \<and> ts_cur ts' = ts_cur ts \<and> ts_saved ts' = vs"
proof -
  obtain iis k where sp: "ts_indices ts = iis @ [k]"
    "vs = map (\<lambda>k. ts_view (ts_undo (drop k (ts_changeJournal ts)) (ts_storage ts))) (rev iis)"
    using ts_saved_split [OF sv] .
  then show ?thesis
    using inv by (simp add: ts_commit_def eff_defs ts_inv_def ts_cur_def ts_saved_def sorted_append)
qed

lemma ts_checkpoint_ok:
  assumes "ts_inv ts"
  shows "\<exists>ts'. ts_checkpoint ts = (Inr (), ts') \<and> ts_inv ts' \<and> ts_cur ts' = ts_cur ts \<and>
    ts_saved ts' = ts_cur ts # ts_saved ts"
  using assms
  by (auto simp: ts_checkpoint_def eff_defs ts_inv_def ts_cur_def ts_saved_def sorted_append ts_undo_def)

interpretation transient: checkpointed ts_checkpoint ts_commit ts_revert ts_cur ts_saved ts_inv ts_writes
  by unfold_locales
    (use ts_checkpoint_ok ts_commit_ok ts_revert_ok ts_writes_saved in \<open>blast+\<close>)

lemma new_transient_inv: "ts_inv new_transient_storage"
  by (simp add: ts_inv_def new_transient_storage_def)

section \<open>The property of the transient storage\<close>

text \<open>C20. Reverting transient storage restores exactly what could be read at the checkpoint: after
  a checkpoint and any sequence of writes and of nested messages, committed or reverted, a revert
  succeeds, every slot reads as it did before the checkpoint, and the enclosing checkpoints are
  untouched.\<close>

theorem transient_revert_restores:
  assumes "ts_inv ts" "ts_checkpoint ts = (Inr (), t)" "transient.body t u"
  shows "\<exists>ts'. ts_revert u = (Inr (), ts') \<and> ts_inv ts' \<and>
    (\<forall>addr key. ts_get addr key ts' = ts_get addr key ts) \<and> ts_saved ts' = ts_saved ts"
  using transient.revert_restores [OF assms] by (metis ts_cur_get)

theorem transient_revert_restores_witness:
  "\<exists>t u. ts_checkpoint new_transient_storage = (Inr (), t) \<and>
    ts_put [1] zero32 [7] t = (Inr (), u) \<and> ts_get [1] zero32 u = [7] \<and>
    (\<exists>ts'. ts_revert u = (Inr (), ts') \<and> ts_inv ts' \<and>
      (\<forall>addr key. ts_get addr key ts' = ts_get addr key new_transient_storage) \<and>
      ts_saved ts' = ts_saved new_transient_storage)"
proof -
  obtain t where t: "ts_checkpoint new_transient_storage = (Inr (), t)"
    by (simp add: ts_checkpoint_def eff_defs)
  obtain u where u: "ts_put [1] zero32 [7] t = (Inr (), u)"
    by (simp add: ts_put_def eff_defs zero32_def)
  have "transient.body t u"
    by (rule transient.body_write [OF _ transient.body_done]) (use u in \<open>auto simp: ts_writes_def\<close>)
  from transient_revert_restores [OF new_transient_inv t this] t u show ?thesis
    by (auto simp: ts_put_get [OF u])
qed

end
