(* ===== verification/Evm_Stack.thy ===== *)
theory Evm_Stack
  imports Prelude
begin

text \<open>
  \<open>vm/src/evm/stack.ts\<close>: the operand stack of a frame (and, with another height limit, its
  return stack). \<open>_store\<close> is a JavaScript array whose last element is the top; the model keeps
  that order. The abstraction \<open>stack_view\<close> is the stack as a list with its top first; the locale
  \<open>bounded_stack\<close> has the laws of a bounded last-in first-out store over it, and what the opcode
  handlers need of it: an instruction that pops \<open>n\<close> operands and pushes a result.
\<close>

definition TWO_POW256 :: int where
  "TWO_POW256 = 2 ^ 256"

definition MAX_INTEGER :: int where
  "MAX_INTEGER = 2 ^ 256 - 1"

record stack =
  store :: "int list"
  maxHeight :: nat

definition new_stack :: "nat option \<Rightarrow> stack" where
  "new_stack h = \<lparr>store = [], maxHeight = (case h of None \<Rightarrow> 1024 | Some n \<Rightarrow> n)\<rparr>"

text \<open>\<open>BN.isBN(value)\<close> holds of every value of the model's type, so its check has no branch.\<close>

definition stack_push :: "int \<Rightarrow> (stack, unit) eff" where
  "stack_push v = bnd (gets id) (\<lambda>st.
     if v > MAX_INTEGER then trap OUT_OF_RANGE
     else if maxHeight st \<le> length (store st) then trap STACK_OVERFLOW
     else modif (\<lambda>st. st\<lparr>store := store st @ [v]\<rparr>))"

definition stack_pop :: "(stack, int) eff" where
  "stack_pop = bnd (gets id) (\<lambda>st.
     if length (store st) < 1 then trap STACK_UNDERFLOW
     else andthen (modif (\<lambda>st. st\<lparr>store := butlast (store st)\<rparr>)) (ret (last (store st))))"

definition stack_popN :: "nat \<Rightarrow> (stack, int list) eff" where
  "stack_popN num = bnd (gets id) (\<lambda>st.
     if length (store st) < num then trap STACK_UNDERFLOW
     else if num = 0 then ret []
     else (let k = length (store st) - num
           in andthen (modif (\<lambda>st. st\<lparr>store := take k (store st)\<rparr>))
                (ret (rev (drop k (store st))))))"

text \<open>The loop of \<open>peek\<close>: \<open>peek\<close> counts up from 1, \<open>left\<close> items are still to be read.\<close>

fun peek_loop :: "int list \<Rightarrow> nat \<Rightarrow> nat \<Rightarrow> exn + int list" where
  "peek_loop st peek 0 = Inr []"
| "peek_loop st peek (Suc left) =
     (if int (length st) - int peek < 0 then Inl (VmError STACK_UNDERFLOW)
      else (case peek_loop st (Suc peek) left of
              Inl e \<Rightarrow> Inl e
            | Inr vs \<Rightarrow> Inr (st ! (length st - peek) # vs)))"

definition stack_peek :: "nat \<Rightarrow> (stack, int list) eff" where
  "stack_peek num = bnd (gets id) (\<lambda>st. of_sum (peek_loop (store st) 1 num))"

definition stack_swap :: "nat \<Rightarrow> (stack, unit) eff" where
  "stack_swap position = bnd (gets id) (\<lambda>st.
     if length (store st) \<le> position then trap STACK_UNDERFLOW
     else (let head = length (store st) - 1;
               i = length (store st) - position - 1;
               tmp = store st ! head
           in modif (\<lambda>st. st\<lparr>store := (store st)[head := store st ! i, i := tmp]\<rparr>)))"

definition stack_dup :: "nat \<Rightarrow> (stack, unit) eff" where
  "stack_dup position = bnd (gets id) (\<lambda>st.
     if length (store st) < position then trap STACK_UNDERFLOW
     else (let i = length (store st) - position in stack_push (store st ! i)))"

section \<open>The stack, top first\<close>

definition stack_view :: "stack \<Rightarrow> int list" where
  "stack_view st = rev (store st)"

definition stack_wf :: "stack \<Rightarrow> bool" where
  "stack_wf st \<longleftrightarrow> length (store st) \<le> maxHeight st \<and> (\<forall>v \<in> set (store st). v \<le> MAX_INTEGER)"

lemma length_stack_view [simp]: "length (stack_view st) = length (store st)"
  by (simp add: stack_view_def)

lemma stack_push_result:
  "stack_push v st =
     (if v > MAX_INTEGER then (Inl (VmError OUT_OF_RANGE), st)
      else if maxHeight st \<le> length (store st) then (Inl (VmError STACK_OVERFLOW), st)
      else (Inr (), st\<lparr>store := store st @ [v]\<rparr>))"
  by (simp add: stack_push_def eff_defs)

lemma stack_popN_result:
  "stack_popN n st =
     (if length (store st) < n then (Inl (VmError STACK_UNDERFLOW), st)
      else (Inr (take n (stack_view st)), st\<lparr>store := take (length (store st) - n) (store st)\<rparr>))"
  by (simp add: stack_popN_def eff_defs Let_def stack_view_def take_rev)

lemma stack_pop_popN:
  "stack_pop = bnd (stack_popN 1) (\<lambda>vs. ret (hd vs))"
proof
  fix st :: stack
  show "stack_pop st = bnd (stack_popN 1) (\<lambda>vs. ret (hd vs)) st"
  proof (cases "store st" rule: rev_cases)
    case Nil
    then show ?thesis by (simp add: stack_pop_def stack_popN_result eff_defs)
  next
    case (snoc ys y)
    then show ?thesis
      by (simp add: stack_pop_def stack_popN_result eff_defs stack_view_def)
  qed
qed

lemma peek_loop_result:
  "1 \<le> p \<Longrightarrow> p \<le> length st + 1 \<Longrightarrow> peek_loop st p n =
     (if p + n \<le> length st + 1 then Inr (take n (drop (p - 1) (rev st)))
      else Inl (VmError STACK_UNDERFLOW))"
proof (induction st p n rule: peek_loop.induct)
  case (2 st p n)
  show ?case
  proof (cases "length st < p")
    case False
    then have "drop (p - 1) (rev st) = st ! (length st - p) # drop p (rev st)"
      using "2.prems" by (simp add: Cons_nth_drop_Suc [symmetric] rev_nth)
    moreover have "(int (length st) - int p < 0) = False"
      using False by simp
    ultimately show ?thesis
      using False "2.IH" "2.prems" by (simp add: not_less)
  qed (use "2.prems" in simp)
qed simp

lemma stack_peek_result:
  "stack_peek n st =
     (if n \<le> length (store st) then Inr (take n (stack_view st))
      else Inl (VmError STACK_UNDERFLOW), st)"
  using peek_loop_result [of 1 "store st" n]
  by (simp add: stack_peek_def eff_defs stack_view_def)

lemma stack_dup_view:
  assumes "0 < n" "n \<le> length (store st)" "stack_wf st" "length (store st) < maxHeight st"
  shows "\<exists>st'. stack_dup n st = (Inr (), st') \<and>
    stack_view st' = stack_view st ! (n - 1) # stack_view st"
proof -
  have mem: "store st ! (length (store st) - n) \<in> set (store st)"
    using assms by (intro nth_mem) simp
  then show ?thesis
    using assms by (simp add: stack_dup_def eff_defs stack_push_result stack_wf_def Let_def
        stack_view_def rev_nth not_less)
qed

lemma stack_swap_view:
  assumes "n < length (store st)"
  shows "\<exists>st'. stack_swap n st = (Inr (), st') \<and>
    stack_view st' = (stack_view st)[0 := stack_view st ! n, n := stack_view st ! 0]"
proof -
  have "rev (store st) ! 0 = store st ! (length (store st) - 1)"
    using assms by (subst rev_nth) auto
  then show ?thesis
    using assms by (simp add: stack_swap_def eff_defs Let_def stack_view_def rev_update rev_nth)
qed

section \<open>The interface of the stack\<close>

locale bounded_stack =
  fixes push :: "int \<Rightarrow> ('s, unit) eff"
    and popN :: "nat \<Rightarrow> ('s, int list) eff"
    and view :: "'s \<Rightarrow> int list"
    and cap :: "'s \<Rightarrow> nat"
    and only :: "'s \<Rightarrow> 's \<Rightarrow> bool"
  assumes only_trans: "only s t \<Longrightarrow> only t u \<Longrightarrow> only s u"
    and push_ok: "v \<le> MAX_INTEGER \<Longrightarrow> length (view s) < cap s \<Longrightarrow>
      \<exists>s'. push v s = (Inr (), s') \<and> view s' = v # view s \<and> cap s' = cap s \<and> only s s'"
    and push_full: "v \<le> MAX_INTEGER \<Longrightarrow> cap s \<le> length (view s) \<Longrightarrow>
      push v s = (Inl (VmError STACK_OVERFLOW), s)"
    and popN_ok: "n \<le> length (view s) \<Longrightarrow>
      \<exists>s'. popN n s = (Inr (take n (view s)), s') \<and> view s' = drop n (view s) \<and>
        cap s' = cap s \<and> only s s'"
    and popN_short: "length (view s) < n \<Longrightarrow> popN n s = (Inl (VmError STACK_UNDERFLOW), s)"
begin

text \<open>An instruction that replaces its \<open>n\<close> operands by a value computed from them.\<close>

lemma alu_ok:
  assumes "n \<le> length (view s)" "0 < n" "length (view s) \<le> cap s"
    and "f (take n (view s)) \<le> MAX_INTEGER"
  shows "\<exists>s'. bnd (popN n) (\<lambda>vs. push (f vs)) s = (Inr (), s') \<and>
    view s' = f (take n (view s)) # drop n (view s) \<and> cap s' = cap s \<and> only s s'"
proof -
  obtain t where t: "popN n s = (Inr (take n (view s)), t)" "view t = drop n (view s)"
    "cap t = cap s" "only s t"
    using popN_ok [OF assms(1)] by blast
  then have "length (view t) < cap t" using assms by simp
  then obtain u where "push (f (take n (view s))) t = (Inr (), u)"
    "view u = f (take n (view s)) # view t" "cap u = cap t" "only t u"
    using push_ok [OF assms(4)] by blast
  with t show ?thesis
    by (auto simp: bnd_def intro: only_trans)
qed

lemma alu_underflow:
  "length (view s) < n \<Longrightarrow>
    bnd (popN n) k s = (Inl (VmError STACK_UNDERFLOW), s)"
  by (simp add: bnd_def popN_short)

lemma popN_after_push:
  assumes "v \<le> MAX_INTEGER" "length (view s) < cap s"
  shows "\<exists>s'. bnd (push v) (\<lambda>_. popN 1) s = (Inr [v], s') \<and> view s' = view s"
proof -
  obtain t where t: "push v s = (Inr (), t)" "view t = v # view s"
    using push_ok [OF assms] by blast
  then obtain u where "popN 1 t = (Inr [v], u)" "view u = view s"
    using popN_ok [of 1 t] by auto
  with t show ?thesis by (simp add: bnd_def)
qed

end

interpretation evm_stack: bounded_stack stack_push stack_popN stack_view maxHeight "\<lambda>_ _. True"
proof
  fix v and s :: stack
  assume "v \<le> MAX_INTEGER"
  then show "length (stack_view s) < maxHeight s \<Longrightarrow> \<exists>s'. stack_push v s = (Inr (), s') \<and>
      stack_view s' = v # stack_view s \<and> maxHeight s' = maxHeight s \<and> True"
    and "maxHeight s \<le> length (stack_view s) \<Longrightarrow>
      stack_push v s = (Inl (VmError STACK_OVERFLOW), s)"
    by (simp_all add: stack_push_result stack_view_def)
next
  fix n and s :: stack
  show "n \<le> length (stack_view s) \<Longrightarrow> \<exists>s'. stack_popN n s = (Inr (take n (stack_view s)), s') \<and>
      stack_view s' = drop n (stack_view s) \<and> maxHeight s' = maxHeight s \<and> True"
    by (simp add: stack_popN_result stack_view_def drop_rev)
  show "length (stack_view s) < n \<Longrightarrow> stack_popN n s = (Inl (VmError STACK_UNDERFLOW), s)"
    by (simp add: stack_popN_result)
qed simp_all

text \<open>Every operation keeps the stack within its height and its range.\<close>

lemma stack_push_wf: "stack_wf st \<Longrightarrow> stack_wf (snd (stack_push v st))"
  by (auto simp: stack_push_result stack_wf_def)

lemma stack_popN_wf: "stack_wf st \<Longrightarrow> stack_wf (snd (stack_popN n st))"
  by (auto simp: stack_popN_result stack_wf_def dest: in_set_takeD)

lemma stack_pop_wf: "stack_wf st \<Longrightarrow> stack_wf (snd (stack_pop st))"
  using stack_popN_wf [of st 1]
  by (auto simp: stack_pop_popN eff_defs split: prod.splits sum.splits)

lemma stack_peek_wf: "stack_wf st \<Longrightarrow> stack_wf (snd (stack_peek n st))"
  by (simp add: stack_peek_result)

lemma stack_dup_wf: "stack_wf st \<Longrightarrow> stack_wf (snd (stack_dup n st))"
  using stack_push_wf by (simp add: stack_dup_def eff_defs Let_def)

lemma stack_swap_wf:
  assumes "stack_wf st" shows "stack_wf (snd (stack_swap n st))"
proof -
  have "set (store (snd (stack_swap n st))) \<subseteq> set (store st)"
    by (auto simp: stack_swap_def eff_defs Let_def set_swap)
  moreover have "length (store (snd (stack_swap n st))) = length (store st)"
    "maxHeight (snd (stack_swap n st)) = maxHeight st"
    by (simp_all add: stack_swap_def eff_defs Let_def)
  ultimately show ?thesis using assms by (auto simp: stack_wf_def)
qed

lemmas stack_wf_steps = stack_push_wf stack_popN_wf stack_pop_wf stack_peek_wf stack_dup_wf
  stack_swap_wf

section \<open>The property of the stack\<close>

text \<open>DUP and SWAP on a well-formed stack that holds enough items: DUPn pushes a copy of the
  n-th item, SWAPn exchanges the top with the item n places below it and changes nothing else, and
  a second SWAPn undoes the first.\<close>

theorem dup_swap_view:
  assumes "stack_wf st" "n < length (store st)" "length (store st) < maxHeight st"
  shows "(\<exists>d. stack_dup (Suc n) st = (Inr (), d) \<and> stack_view d = stack_view st ! n # stack_view st) \<and>
    (\<exists>s. stack_swap n st = (Inr (), s) \<and>
       stack_view s = (stack_view st)[0 := stack_view st ! n, n := stack_view st ! 0] \<and>
       stack_swap n s = (Inr (), st))"
proof
  show "\<exists>d. stack_dup (Suc n) st = (Inr (), d) \<and> stack_view d = stack_view st ! n # stack_view st"
    using stack_dup_view [of "Suc n" st] assms by simp
  let ?h = "length (store st) - 1" and ?i = "length (store st) - n - 1"
  let ?s = "st\<lparr>store := (store st)[?h := store st ! ?i, ?i := store st ! ?h]\<rparr>"
  have sw: "stack_swap n st = (Inr (), ?s)"
    using assms(2) by (simp add: stack_swap_def eff_defs Let_def)
  have "((store st)[?h := store st ! ?i, ?i := store st ! ?h])
      [?h := store st ! ?h, ?i := store st ! ?i] = store st"
    by (intro nth_equalityI) (auto simp: nth_list_update)
  then have "stack_swap n ?s = (Inr (), st)"
    using assms(2) by (cases "?h = ?i") (simp_all add: stack_swap_def eff_defs Let_def)
  with sw show "\<exists>s. stack_swap n st = (Inr (), s) \<and>
       stack_view s = (stack_view st)[0 := stack_view st ! n, n := stack_view st ! 0] \<and>
       stack_swap n s = (Inr (), st)"
    using stack_swap_view [OF assms(2)] by simp
qed

theorem dup_swap_view_witness:
  "(\<exists>d. stack_dup (Suc 1) \<lparr>store = [5, 6], maxHeight = 4\<rparr> = (Inr (), d) \<and> stack_view d = [5, 6, 5]) \<and>
    (\<exists>s. stack_swap 1 \<lparr>store = [5, 6], maxHeight = 4\<rparr> = (Inr (), s) \<and> stack_view s = [5, 6] \<and>
       stack_swap 1 s = (Inr (), \<lparr>store = [5, 6], maxHeight = 4\<rparr>))"
  using dup_swap_view [of "\<lparr>store = [5, 6], maxHeight = 4\<rparr>" 1]
  by (simp add: stack_wf_def MAX_INTEGER_def stack_view_def)

end
