(* ===== verification/Evm_Memory.thy ===== *)
theory Evm_Memory
  imports Util_Bytes
begin

text \<open>
  \<open>vm/src/evm/memory.ts\<close>: the byte-addressed memory of a frame. The class has one field, the
  buffer \<open>_store\<close>, so the state is a byte string. The promise is the one of the yellow paper: an
  unbounded array of zeros of which \<open>_store\<close> holds a prefix that grows by whole words. The
  abstraction \<open>mem_at\<close> reads that array, the locale \<open>byte_memory\<close> has the laws that the opcode
  handlers rely on.
\<close>

type_synonym evm_memory = bytes

definition ceil_to :: "nat \<Rightarrow> nat \<Rightarrow> nat" where
  "ceil_to v c = (let r = v mod c in if r = 0 then v else v + c - r)"

definition mem_extend :: "nat \<Rightarrow> nat \<Rightarrow> evm_memory \<Rightarrow> evm_memory" where
  "mem_extend offset sz st =
     (if sz = 0 then st
      else (let newSize = ceil_to (offset + sz) 32
            in if int newSize - int (length st) > 0
               then st @ replicate (newSize - length st) 0 else st))"

text \<open>The copying loop of \<open>write\<close>.\<close>

fun mem_put :: "evm_memory \<Rightarrow> nat \<Rightarrow> bytes \<Rightarrow> evm_memory" where
  "mem_put st at [] = st"
| "mem_put st at (b # bs) = mem_put (st[at := b]) (Suc at) bs"

definition mem_write :: "nat \<Rightarrow> nat \<Rightarrow> bytes \<Rightarrow> (evm_memory, unit) eff" where
  "mem_write offset sz val =
     (if sz = 0 then ret ()
      else andthen (modif (mem_extend offset sz))
        (andthen (guard_eff (length val = sz) (JsError ''Invalid value size''))
          (bnd (gets length) (\<lambda>n.
             andthen (guard_eff (offset + sz \<le> n) (JsError ''Value exceeds memory capacity''))
               (modif (\<lambda>st. mem_put st offset val))))))"

definition mem_read :: "nat \<Rightarrow> nat \<Rightarrow> (evm_memory, bytes) eff" where
  "mem_read offset sz =
     andthen (modif (mem_extend offset sz))
       (gets (\<lambda>st. let loaded = slice st offset (offset + sz)
                   in if length loaded < sz
                      then loaded @ replicate (sz - length loaded) 0 else loaded))"

section \<open>The memory as an unbounded array of zeros\<close>

definition mem_at :: "evm_memory \<Rightarrow> nat \<Rightarrow> byte" where
  "mem_at st i = (if i < length st then st ! i else 0)"

definition mem_wf :: "evm_memory \<Rightarrow> bool" where
  "mem_wf st \<longleftrightarrow> 32 dvd length st"

lemma ceil_to_ge: "0 < c \<Longrightarrow> v \<le> ceil_to v c"
proof -
  assume "0 < c"
  then have "v mod c < c" by simp
  then have "v \<le> v + c - v mod c" by linarith
  then show ?thesis by (simp add: ceil_to_def Let_def)
qed

lemma ceil_to_dvd: "0 < c \<Longrightarrow> c dvd ceil_to v c"
proof -
  assume c: "0 < c"
  have "v + c - v mod c = (v - v mod c) + c"
    using c by simp
  then have "c dvd v + c - v mod c"
    by (simp only: dvd_add_left_iff [OF dvd_refl] dvd_minus_mod)
  then show ?thesis
    by (simp add: ceil_to_def Let_def mod_eq_0_iff_dvd)
qed

lemma ceil_to_least: "0 < c \<Longrightarrow> ceil_to v c < v + c"
  by (simp add: ceil_to_def Let_def)

lemma length_mem_extend:
  "length (mem_extend offset sz st) =
     (if sz = 0 then length st else max (length st) (ceil_to (offset + sz) 32))"
  by (simp add: mem_extend_def Let_def)

lemma mem_extend_at [simp]: "mem_at (mem_extend offset sz st) i = mem_at st i"
  by (simp add: mem_at_def mem_extend_def Let_def nth_append)

lemma mem_extend_wf: "mem_wf st \<Longrightarrow> mem_wf (mem_extend offset sz st)"
  by (simp add: mem_wf_def length_mem_extend max_def ceil_to_dvd)

lemma mem_extend_covers: "0 < sz \<Longrightarrow> offset + sz \<le> length (mem_extend offset sz st)"
  using ceil_to_ge [of 32 "offset + sz"] by (simp add: length_mem_extend le_max_iff_disj)

lemma length_mem_put [simp]: "length (mem_put st at bs) = length st"
  by (induction st at bs rule: mem_put.induct) auto

lemma mem_put_nth:
  "i < length st \<Longrightarrow> mem_put st at bs ! i =
     (if at \<le> i \<and> i < at + length bs then bs ! (i - at) else st ! i)"
proof (induction st at bs rule: mem_put.induct)
  case (2 st at b bs)
  then show ?case
    by (cases "i = at") (auto simp: nth_Cons' le_Suc_eq)
qed auto

lemma mem_write_result:
  assumes "length val = sz"
  shows "mem_write offset sz val st =
    (Inr (), if sz = 0 then st else mem_put (mem_extend offset sz st) offset val)"
  using assms mem_extend_covers [of sz offset st] by (simp add: mem_write_def eff_defs)

lemma mem_write_at:
  assumes "length val = sz" "mem_write offset sz val st = (r, st')"
  shows "mem_at st' i = (if offset \<le> i \<and> i < offset + sz then val ! (i - offset) else mem_at st i)"
proof (cases "sz = 0")
  case False
  let ?ext = "mem_extend offset sz st"
  have st': "st' = mem_put ?ext offset val"
    using assms False by (simp add: mem_write_result)
  show ?thesis
  proof (cases "i < length ?ext")
    case True
    then show ?thesis
      using assms(1) mem_extend_at [of offset sz st i] by (simp add: st' mem_at_def mem_put_nth)
  next
    case ext: False
    then have "\<not> i < offset + sz"
      using mem_extend_covers [of sz offset st] False by simp
    then show ?thesis
      using ext mem_extend_at [of offset sz st i] by (simp add: st' mem_at_def)
  qed
qed (use assms in \<open>auto simp: mem_write_def eff_defs\<close>)

lemma mem_read_result:
  "mem_read offset sz st = (Inr (map (mem_at st) [offset..<offset + sz]), mem_extend offset sz st)"
proof -
  let ?ext = "mem_extend offset sz st"
  have "slice ?ext offset (offset + sz) = map (mem_at st) [offset..<offset + sz]"
    if "0 < sz"
  proof (rule nth_equalityI)
    show "length (slice ?ext offset (offset + sz)) =
        length (map (mem_at st) [offset..<offset + sz])"
      using mem_extend_covers [OF that, of offset st] by simp
  next
    fix i assume "i < length (slice ?ext offset (offset + sz))"
    then have "i < sz" "offset + i < length ?ext"
      using mem_extend_covers [OF that, of offset st] by auto
    then show "slice ?ext offset (offset + sz) ! i = map (mem_at st) [offset..<offset + sz] ! i"
      using mem_extend_at [of offset sz st "offset + i"]
      by (simp add: slice_def mem_at_def)
  qed
  moreover have "length (slice ?ext offset (offset + sz)) = sz"
    using mem_extend_covers [of sz offset st] by (cases "sz = 0") simp_all
  ultimately show ?thesis
    by (cases "sz = 0") (simp_all add: mem_read_def eff_defs Let_def)
qed

section \<open>The interface of the memory\<close>

text \<open>
  What a user of a memory relies on: a write of the right sz succeeds and changes the bytes it
  names and no other, a read returns the bytes it names and changes none. Every fact about
  sequences of accesses follows.
\<close>

locale byte_memory =
  fixes wr :: "nat \<Rightarrow> nat \<Rightarrow> bytes \<Rightarrow> ('m, unit) eff"
    and rd :: "nat \<Rightarrow> nat \<Rightarrow> ('m, bytes) eff"
    and cell :: "'m \<Rightarrow> nat \<Rightarrow> byte"
  assumes wr_ok: "length v = n \<Longrightarrow> fst (wr i n v m) = Inr ()"
    and wr_at: "length v = n \<Longrightarrow>
      cell (snd (wr i n v m)) k = (if i \<le> k \<and> k < i + n then v ! (k - i) else cell m k)"
    and rd_val: "fst (rd i n m) = Inr (map (cell m) [i..<i + n])"
    and rd_at: "cell (snd (rd i n m)) k = cell m k"
begin

lemma rd_after_wr:
  assumes "length v = n"
  shows "fst (rd i n (snd (wr i n v m))) = Inr v"
proof -
  have "map (cell (snd (wr i n v m))) [i..<i + n] = v"
    using assms by (intro nth_equalityI) (simp_all add: wr_at)
  then show ?thesis by (simp add: rd_val)
qed

lemma rd_disjoint:
  assumes "length v = n" "j + k \<le> i \<or> i + n \<le> j"
  shows "fst (rd j k (snd (wr i n v m))) = fst (rd j k m)"
proof -
  have "map (cell (snd (wr i n v m))) [j..<j + k] = map (cell m) [j..<j + k]"
    using assms by (auto simp: wr_at)
  then show ?thesis by (simp add: rd_val)
qed

lemma rd_rd: "fst (rd i n (snd (rd j k m))) = fst (rd i n m)"
proof -
  have "cell (snd (rd j k m)) = cell m" by (rule ext) (rule rd_at)
  then show ?thesis by (simp only: rd_val)
qed

lemma wr_wr_commute:
  assumes "length v = n" "length w = k" "j + k \<le> i \<or> i + n \<le> j"
  shows "cell (snd (wr j k w (snd (wr i n v m)))) = cell (snd (wr i n v (snd (wr j k w m))))"
  using assms by (intro ext) (auto simp: wr_at)

end

interpretation evm_mem: byte_memory mem_write mem_read mem_at
proof
  fix v :: bytes and n i k m
  assume len: "length v = n"
  obtain r m' where w: "mem_write i n v m = (r, m')" by force
  show "fst (mem_write i n v m) = Inr ()"
    using len by (simp add: mem_write_result)
  show "mem_at (snd (mem_write i n v m)) k =
      (if i \<le> k \<and> k < i + n then v ! (k - i) else mem_at m k)"
    using mem_write_at [OF len w] w by simp
next
  fix i n k m
  show "fst (mem_read i n m) = Inr (map (mem_at m) [i..<i + n])"
    by (simp add: mem_read_result)
  show "mem_at (snd (mem_read i n m)) k = mem_at m k"
    by (simp add: mem_read_result)
qed

lemma mem_write_wf: "mem_wf st \<Longrightarrow> mem_wf (snd (mem_write offset sz val st))"
  using mem_extend_wf [of st offset sz]
  by (simp add: mem_write_def eff_defs mem_wf_def)

lemma mem_read_wf: "mem_wf st \<Longrightarrow> mem_wf (snd (mem_read offset sz st))"
  by (simp add: mem_read_result mem_extend_wf)

lemma mem_write_grows: "length st \<le> length (snd (mem_write offset sz val st))"
  by (simp add: mem_write_def eff_defs length_mem_extend)

lemma mem_read_grows: "length st \<le> length (snd (mem_read offset sz st))"
  by (simp add: mem_read_result length_mem_extend)

section \<open>The property of the memory\<close>

text \<open>C21. The memory behaves as an unbounded array of zero bytes: a write of a value of the given
  size succeeds, changes exactly the bytes it names, keeps the length a multiple of the word size,
  and a later read of any range returns the bytes of that array, wherever the two ranges lie.\<close>

theorem memory_refines_array:
  assumes "length v = n"
  shows "\<exists>m'. mem_write i n v m = (Inr (), m') \<and>
    (\<forall>j k. fst (mem_read j k m') =
       Inr (map (\<lambda>x. if i \<le> x \<and> x < i + n then v ! (x - i) else mem_at m x) [j..<j + k])) \<and>
    (mem_wf m \<longrightarrow> mem_wf m') \<and> length m \<le> length m'"
proof (intro exI conjI allI impI)
  let ?m' = "snd (mem_write i n v m)"
  show "mem_write i n v m = (Inr (), ?m')"
    using evm_mem.wr_ok [OF assms, of i m] by (cases "mem_write i n v m") simp
  show "fst (mem_read j k ?m') =
      Inr (map (\<lambda>x. if i \<le> x \<and> x < i + n then v ! (x - i) else mem_at m x) [j..<j + k])" for j k
    by (simp add: evm_mem.rd_val evm_mem.wr_at [OF assms] cong: map_cong)
  show "mem_wf ?m'" if "mem_wf m" using that by (rule mem_write_wf)
  show "length m \<le> length ?m'" by (rule mem_write_grows)
qed

theorem memory_refines_array_witness:
  "\<exists>m'. mem_write 3 2 [7, 9] [] = (Inr (), m') \<and>
    (\<forall>j k. fst (mem_read j k m') = Inr (map (\<lambda>x. if 3 \<le> x \<and> x < 3 + 2 then [7, 9] ! (x - 3)
       else mem_at [] x) [j..<j + k])) \<and>
    (mem_wf [] \<longrightarrow> mem_wf m') \<and> length ([] :: byte list) \<le> length m'"
  using memory_refines_array [of "[7, 9]" 2 3 "[]"] by simp

end
