(* ===== verification/Evm_State.thy ===== *)
theory Evm_State
  imports State_Checkpoints Transient_Storage Evm_Stack Evm_Memory
begin

text \<open>
  The state that the EVM runs on: the fields of \<open>EVM\<close> (\<open>vm/src/evm/evm.ts\<close>) that one transaction
  changes, of \<open>EEI\<close> and its environment (\<open>eei.ts\<close>), of \<open>RunState\<close> (\<open>interpreter.ts\<close>), and the
  messages and results that pass between frames (\<open>message.ts\<close>, \<open>evm.ts\<close>). The objects that the
  frames share (state manager, transient storage, refund counter) are the record \<open>evm\<close>, which a
  frame holds while it runs and hands on to the frames it calls.

  An address is its 20 bytes. The object \<open>selfdestruct\<close> maps addresses to beneficiaries, in the
  order in which they were added.
\<close>

type_synonym destructs = "(bytes \<times> bytes) list"
type_synonym log_entry = "bytes \<times> bytes list \<times> bytes"

record evm =
  ev_state :: state_manager
  ev_refund :: int
  ev_transientStorage :: transient_storage

text \<open>
  The block header fields that opcodes read; \<open>h_cliqueSigner\<close> is what \<open>cliqueSigner()\<close> recovers,
  when the header has that method, and \<open>env_blockHash\<close> what \<open>blockchain.getBlock(n)\<close> gives.
\<close>

record header =
  h_number :: int
  h_coinbase :: bytes
  h_timestamp :: int
  h_difficulty :: int
  h_prevRandao :: bytes
  h_gasLimit :: int
  h_baseFeePerGas :: "int option"
  h_cliqueSigner :: "bytes option"

record env =
  env_address :: bytes
  env_caller :: bytes
  env_callData :: bytes
  env_callValue :: int
  env_code :: bytes
  env_isStatic :: bool
  env_depth :: nat
  env_gasPrice :: int
  env_origin :: bytes
  env_block :: header
  env_contract :: account
  env_codeAddress :: bytes
  env_blockHash :: "int \<Rightarrow> exn + bytes"

record run_result =
  rr_logs :: "log_entry list"
  rr_returnValue :: "bytes option"
  rr_selfdestruct :: destructs

record eei =
  ei_env :: env
  ei_result :: run_result
  ei_evm :: evm
  ei_lastReturned :: bytes
  ei_gasLeft :: int

record run_state =
  programCounter :: nat
  opCode :: nat
  rs_memory :: evm_memory
  memoryWordCount :: int
  highestMemCost :: int
  rs_stack :: stack
  returnStack :: stack
  rs_code :: bytes
  shouldDoJumpAnalysis :: bool
  validJumps :: "nat list"
  rs_eei :: eei
  messageGasLimit :: "int option"

text \<open>The code of a message is bytecode, or one of the precompiled contracts, named by the number of its address.\<close>

datatype msg_code = Bytecode bytes | Precompile nat

record message =
  m_to :: "bytes option"
  m_value :: int
  m_caller :: bytes
  m_gasLimit :: int
  m_data :: bytes
  m_depth :: nat
  m_code :: "msg_code option"
  m_codeAddress :: "bytes option"
  m_isStatic :: bool
  m_isCompiled :: bool
  m_salt :: "bytes option"
  m_selfdestruct :: "destructs option"
  m_delegatecall :: bool

record exec_result =
  x_exceptionError :: "vm_error option"
  x_gasUsed :: int
  x_returnValue :: bytes
  x_logs :: "log_entry list option"
  x_selfdestruct :: "destructs option"
  x_gasRefund :: "int option"

record evm_result =
  g_gasUsed :: int
  g_createdAddress :: "bytes option"
  g_execResult :: exec_result

text \<open>
  Running a message: the result, and what the callee left in the object \<open>message.selfdestruct\<close>
  that it shares with the caller.
\<close>

type_synonym exec = "message \<Rightarrow> (evm, evm_result \<times> destructs) eff"

text \<open>The constructor of \<open>Message\<close>, for the options that the callers pass.\<close>

definition new_message :: message where
  "new_message = \<lparr>m_to = None, m_value = 0, m_caller = [], m_gasLimit = 0, m_data = [], m_depth = 0,
     m_code = None, m_codeAddress = None, m_isStatic = False, m_isCompiled = False, m_salt = None,
     m_selfdestruct = None, m_delegatecall = False\<rparr>"

definition check_message :: "message \<Rightarrow> exn + message" where
  "check_message m =
     (if m_value m < 0 then Inl (JsError ''value field cannot be negative'') else Inr m)"

definition msg_codeAddress :: "message \<Rightarrow> bytes" where
  "msg_codeAddress m = (case m_codeAddress m of Some a \<Rightarrow> a | None \<Rightarrow>
     (case m_to m of Some a \<Rightarrow> a | None \<Rightarrow> []))"

section \<open>Effects on the parts\<close>

abbreviation on_state :: "(state_manager, 'a) eff \<Rightarrow> (evm, 'a) eff" where
  "on_state \<equiv> zoom ev_state (\<lambda>t s. s\<lparr>ev_state := t\<rparr>)"

abbreviation on_transient :: "(transient_storage, 'a) eff \<Rightarrow> (evm, 'a) eff" where
  "on_transient \<equiv> zoom ev_transientStorage (\<lambda>t s. s\<lparr>ev_transientStorage := t\<rparr>)"

abbreviation on_evm :: "(evm, 'a) eff \<Rightarrow> (eei, 'a) eff" where
  "on_evm \<equiv> zoom ei_evm (\<lambda>t s. s\<lparr>ei_evm := t\<rparr>)"

abbreviation on_eei :: "(eei, 'a) eff \<Rightarrow> (run_state, 'a) eff" where
  "on_eei \<equiv> zoom rs_eei (\<lambda>t s. s\<lparr>rs_eei := t\<rparr>)"

abbreviation on_stack :: "(stack, 'a) eff \<Rightarrow> (run_state, 'a) eff" where
  "on_stack \<equiv> zoom rs_stack (\<lambda>t s. s\<lparr>rs_stack := t\<rparr>)"

abbreviation on_returnStack :: "(stack, 'a) eff \<Rightarrow> (run_state, 'a) eff" where
  "on_returnStack \<equiv> zoom returnStack (\<lambda>t s. s\<lparr>returnStack := t\<rparr>)"

abbreviation on_memory :: "(evm_memory, 'a) eff \<Rightarrow> (run_state, 'a) eff" where
  "on_memory \<equiv> zoom rs_memory (\<lambda>t s. s\<lparr>rs_memory := t\<rparr>)"

end
