(* ===== verification/Eei.thy ===== *)
theory Eei
  imports Evm_State
begin

text \<open>
  \<open>vm/src/evm/eei.ts\<close>: what the opcodes may do to the world. The gas counter and the refund
  counter, the readings of the environment, storage, logs, self-destruction, and the messages that a
  frame sends: the calls and creations take the executor of messages, \<open>exec\<close>, as a parameter, as
  the object holds the EVM it belongs to.
\<close>

section \<open>Gas\<close>

definition useGas :: "int \<Rightarrow> (eei, unit) eff" where
  "useGas amount = bnd (gets (\<lambda>e. ei_gasLeft e - amount)) (\<lambda>left.
     if left < 0
     then andthen (modif (\<lambda>e. e\<lparr>ei_gasLeft := 0\<rparr>)) (trap OUT_OF_GAS)
     else modif (\<lambda>e. e\<lparr>ei_gasLeft := left\<rparr>))"

lemma useGas_result:
  "useGas amount e =
     (if ei_gasLeft e < amount then (Inl (VmError OUT_OF_GAS), e\<lparr>ei_gasLeft := 0\<rparr>)
      else (Inr (), e\<lparr>ei_gasLeft := ei_gasLeft e - amount\<rparr>))"
  by (simp add: useGas_def eff_defs)

definition refundGas :: "int \<Rightarrow> (eei, unit) eff" where
  "refundGas amount = on_evm (modif (\<lambda>v. v\<lparr>ev_refund := ev_refund v + amount\<rparr>))"

definition subRefund :: "int \<Rightarrow> (eei, unit) eff" where
  "subRefund amount = on_evm (bnd (gets (\<lambda>v. ev_refund v - amount)) (\<lambda>left.
     if left < 0
     then andthen (modif (\<lambda>v. v\<lparr>ev_refund := 0\<rparr>)) (trap REFUND_EXHAUSTED)
     else modif (\<lambda>v. v\<lparr>ev_refund := left\<rparr>)))"

definition addStipend :: "int \<Rightarrow> (eei, unit) eff" where
  "addStipend amount = modif (\<lambda>e. e\<lparr>ei_gasLeft := ei_gasLeft e + amount\<rparr>)"

section \<open>Readings\<close>

definition MASK_160 :: int where
  "MASK_160 = 2 ^ 160 - 1"

text \<open>\<open>address.and(MASK_160)\<close> keeps the low 160 bits.\<close>

definition addressToBuffer :: "int \<Rightarrow> bytes" where
  "addressToBuffer address = be_bytes 20 (and address MASK_160)"

definition getAddress :: "eei \<Rightarrow> bytes" where
  "getAddress e = env_address (ei_env e)"

definition getSelfBalance :: "eei \<Rightarrow> int" where
  "getSelfBalance e = acc_balance (env_contract (ei_env e))"

definition getExternalBalance :: "bytes \<Rightarrow> (eei, int) eff" where
  "getExternalBalance address = bnd (gets ei_env) (\<lambda>env.
     if address = env_address env then ret (acc_balance (env_contract env))
     else bnd (on_evm (on_state (sm_getAccount address))) (\<lambda>account. ret (acc_balance account)))"

definition getCaller :: "eei \<Rightarrow> int" where
  "getCaller e = bn_of_bytes (env_caller (ei_env e))"

definition getCallValue :: "eei \<Rightarrow> int" where
  "getCallValue e = env_callValue (ei_env e)"

definition getCallData :: "eei \<Rightarrow> bytes" where
  "getCallData e = env_callData (ei_env e)"

definition getCallDataSize :: "eei \<Rightarrow> int" where
  "getCallDataSize e = int (length (env_callData (ei_env e)))"

definition getCodeSize :: "eei \<Rightarrow> int" where
  "getCodeSize e = int (length (env_code (ei_env e)))"

definition getCode :: "eei \<Rightarrow> bytes" where
  "getCode e = env_code (ei_env e)"

definition eei_isStatic :: "eei \<Rightarrow> bool" where
  "eei_isStatic e = env_isStatic (ei_env e)"

definition getExternalCode :: "int \<Rightarrow> (eei, bytes) eff" where
  "getExternalCode address = on_evm (on_state (sm_getContractCode (addressToBuffer address)))"

definition getExternalCodeSize :: "int \<Rightarrow> (eei, int) eff" where
  "getExternalCodeSize address =
     bnd (on_evm (on_state (sm_getContractCode (addressToBuffer address)))) (\<lambda>code. ret (int (length code)))"

definition getReturnData :: "eei \<Rightarrow> bytes" where
  "getReturnData e = ei_lastReturned e"

definition getReturnDataSize :: "eei \<Rightarrow> int" where
  "getReturnDataSize e = int (length (ei_lastReturned e))"

definition getTxGasPrice :: "eei \<Rightarrow> int" where
  "getTxGasPrice e = env_gasPrice (ei_env e)"

definition getTxOrigin :: "eei \<Rightarrow> int" where
  "getTxOrigin e = bn_of_bytes (env_origin (ei_env e))"

definition getBlockNumber :: "eei \<Rightarrow> int" where
  "getBlockNumber e = h_number (env_block (ei_env e))"

definition getBlockCoinbase :: "vm \<Rightarrow> eei \<Rightarrow> int" where
  "getBlockCoinbase vm e =
     bn_of_bytes
       (if vm_consensusAlgorithm vm = ''clique''
        then (case h_cliqueSigner (env_block (ei_env e)) of Some a \<Rightarrow> a | None \<Rightarrow> replicate 20 0)
        else h_coinbase (env_block (ei_env e)))"

definition getBlockTimestamp :: "eei \<Rightarrow> int" where
  "getBlockTimestamp e = h_timestamp (env_block (ei_env e))"

definition getBlockDifficulty :: "eei \<Rightarrow> int" where
  "getBlockDifficulty e = h_difficulty (env_block (ei_env e))"

definition getBlockPrevRandao :: "eei \<Rightarrow> int" where
  "getBlockPrevRandao e = bn_of_bytes (h_prevRandao (env_block (ei_env e)))"

definition getBlockGasLimit :: "eei \<Rightarrow> int" where
  "getBlockGasLimit e = h_gasLimit (env_block (ei_env e))"

definition getBlockBaseFee :: "(eei, int) eff" where
  "getBlockBaseFee = bnd (gets (\<lambda>e. h_baseFeePerGas (env_block (ei_env e)))) (\<lambda>baseFee.
     case baseFee of None \<Rightarrow> raise (JsError ''Block has no Base Fee'') | Some f \<Rightarrow> ret f)"

definition getBlockHash :: "int \<Rightarrow> (eei, int) eff" where
  "getBlockHash num = bnd (gets (\<lambda>e. env_blockHash (ei_env e) num)) (\<lambda>h.
     bnd (of_sum h) (\<lambda>hash. ret (bn_of_bytes hash)))"

definition isAccountEmpty :: "bytes \<Rightarrow> (eei, bool) eff" where
  "isAccountEmpty address = on_evm (on_state (sm_accountIsEmpty address))"

definition accountExists :: "bytes \<Rightarrow> (eei, bool) eff" where
  "accountExists address = on_evm (on_state (sm_accountExists address))"

section \<open>Storage, logs, results\<close>

definition refresh_contract :: "(eei, unit) eff" where
  "refresh_contract = bnd (gets getAddress) (\<lambda>a.
     bnd (on_evm (on_state (sm_getAccount a))) (\<lambda>account.
       modif (\<lambda>e. e\<lparr>ei_env := (ei_env e)\<lparr>env_contract := account\<rparr>\<rparr>)))"

definition storageStore :: "vm \<Rightarrow> bytes \<Rightarrow> bytes \<Rightarrow> (eei, unit) eff" where
  "storageStore vm key value = bnd (gets getAddress) (\<lambda>a.
     andthen (on_evm (on_state (sm_putContractStorage vm a key value))) refresh_contract)"

definition storageLoad :: "bytes \<Rightarrow> bool \<Rightarrow> (eei, bytes) eff" where
  "storageLoad key original = bnd (gets getAddress) (\<lambda>a.
     if original then on_evm (on_state (sm_getOriginalContractStorage a key))
     else on_evm (on_state (sm_getContractStorage a key)))"

definition transientStorageStore :: "bytes \<Rightarrow> bytes \<Rightarrow> (eei, unit) eff" where
  "transientStorageStore key value = bnd (gets getAddress) (\<lambda>a.
     on_evm (on_transient (ts_put a key value)))"

definition transientStorageLoad :: "bytes \<Rightarrow> eei \<Rightarrow> bytes" where
  "transientStorageLoad key e = ts_get (getAddress e) key (ev_transientStorage (ei_evm e))"

definition finish :: "bytes \<Rightarrow> (eei, unit) eff" where
  "finish returnData =
     andthen (modif (\<lambda>e. e\<lparr>ei_result := (ei_result e)\<lparr>rr_returnValue := Some returnData\<rparr>\<rparr>)) (trap STOP)"

definition eei_revert :: "bytes \<Rightarrow> (eei, unit) eff" where
  "eei_revert returnData =
     andthen (modif (\<lambda>e. e\<lparr>ei_result := (ei_result e)\<lparr>rr_returnValue := Some returnData\<rparr>\<rparr>)) (trap REVERT)"

definition selfDestruct :: "vm \<Rightarrow> bytes \<Rightarrow> (eei, unit) eff" where
  "selfDestruct vm toAddress = bnd (gets id) (\<lambda>e.
     let self = getAddress e
     in andthen (when_eff (map_of (rr_selfdestruct (ei_result e)) self = None)
          (refundGas (gasPrice vm ''selfdestructRefund'')))
       (andthen (modif (\<lambda>e. e\<lparr>ei_result := (ei_result e)\<lparr>rr_selfdestruct :=
            AList.update self toAddress (rr_selfdestruct (ei_result e))\<rparr>\<rparr>))
       (andthen (bnd (on_evm (on_state (sm_getAccount toAddress))) (\<lambda>toAccount.
            on_evm (on_state (sm_putAccount toAddress
              (toAccount\<lparr>acc_balance := acc_balance toAccount + getSelfBalance e\<rparr>)))))
       (andthen (bnd (on_evm (on_state (sm_getAccount self))) (\<lambda>account.
            on_evm (on_state (sm_putAccount self (account\<lparr>acc_balance := 0\<rparr>)))))
         (trap STOP)))))"

definition eei_log :: "bytes \<Rightarrow> int \<Rightarrow> bytes list \<Rightarrow> (eei, unit) eff" where
  "eei_log data numberOfTopics topics =
     (if numberOfTopics < 0 \<or> numberOfTopics > 4 then trap OUT_OF_RANGE
      else if int (length topics) \<noteq> numberOfTopics then trap INTERNAL_ERROR
      else modif (\<lambda>e. e\<lparr>ei_result := (ei_result e)\<lparr>rr_logs :=
        rr_logs (ei_result e) @ [(getAddress e, topics, data)]\<rparr>\<rparr>))"

section \<open>Messages\<close>

definition getReturnCode :: "evm_result \<Rightarrow> int" where
  "getReturnCode results = (case x_exceptionError (g_execResult results) of Some e \<Rightarrow> 0 | None \<Rightarrow> 1)"

definition append_logs :: "evm_result \<Rightarrow> (eei, unit) eff" where
  "append_logs results =
     (case x_logs (g_execResult results) of
        None \<Rightarrow> ret ()
      | Some ls \<Rightarrow> modif (\<lambda>e. e\<lparr>ei_result := (ei_result e)\<lparr>rr_logs := rr_logs (ei_result e) @ ls\<rparr>\<rparr>))"

text \<open>\<open>Object.assign(target, source)\<close>.\<close>

definition object_assign :: "('k \<times> 'v) list \<Rightarrow> ('k \<times> 'v) list \<Rightarrow> ('k \<times> 'v) list" where
  "object_assign target source = fold (\<lambda>(k, v) t. AList.update k v t) source target"

definition set_lastReturned :: "bytes \<Rightarrow> (eei, unit) eff" where
  "set_lastReturned b = modif (\<lambda>e. e\<lparr>ei_lastReturned := b\<rparr>)"

definition merge_selfdestruct :: "destructs \<Rightarrow> (eei, unit) eff" where
  "merge_selfdestruct sd = modif (\<lambda>e. e\<lparr>ei_result := (ei_result e)\<lparr>rr_selfdestruct :=
     object_assign (rr_selfdestruct (ei_result e)) sd\<rparr>\<rparr>)"

definition baseCall :: "vm \<Rightarrow> exec \<Rightarrow> message \<Rightarrow> (eei, int) eff" where
  "baseCall vm exec msg0 =
     bnd (of_sum (check_message msg0)) (\<lambda>msg1. bnd (gets id) (\<lambda>e.
       let msg = msg1\<lparr>m_selfdestruct := Some (rr_selfdestruct (ei_result e))\<rparr>
       in andthen (set_lastReturned [])
         (if int (env_depth (ei_env e)) \<ge> vm_param vm ''vm'' ''stackLimit'' \<or>
             (\<not> m_delegatecall msg \<and> getSelfBalance e < m_value msg)
          then ret 0
          else bnd (on_evm (exec msg)) (\<lambda>(results, selfdestruct).
            let err = x_exceptionError (g_execResult results)
            in andthen (append_logs results)
              (andthen (useGas (g_gasUsed results))
              (andthen (when_eff (err = None \<or> err = Some REVERT)
                   (set_lastReturned (x_returnValue (g_execResult results))))
              (andthen (when_eff (err = None)
                   (andthen (merge_selfdestruct selfdestruct) refresh_contract))
                (ret (getReturnCode results)))))))))"

definition eei_call :: "vm \<Rightarrow> exec \<Rightarrow> int \<Rightarrow> bytes \<Rightarrow> int \<Rightarrow> bytes \<Rightarrow> (eei, int) eff" where
  "eei_call vm exec gasLimit address val data = bnd (gets ei_env) (\<lambda>env.
     baseCall vm exec (new_message\<lparr>m_caller := env_address env, m_gasLimit := gasLimit,
       m_to := Some address, m_value := val, m_data := data, m_isStatic := env_isStatic env,
       m_depth := env_depth env + 1\<rparr>))"

definition eei_callCode :: "vm \<Rightarrow> exec \<Rightarrow> int \<Rightarrow> bytes \<Rightarrow> int \<Rightarrow> bytes \<Rightarrow> (eei, int) eff" where
  "eei_callCode vm exec gasLimit address val data = bnd (gets ei_env) (\<lambda>env.
     baseCall vm exec (new_message\<lparr>m_caller := env_address env, m_gasLimit := gasLimit,
       m_to := Some (env_address env), m_codeAddress := Some address, m_value := val, m_data := data,
       m_isStatic := env_isStatic env, m_depth := env_depth env + 1\<rparr>))"

definition eei_callStatic :: "vm \<Rightarrow> exec \<Rightarrow> int \<Rightarrow> bytes \<Rightarrow> int \<Rightarrow> bytes \<Rightarrow> (eei, int) eff" where
  "eei_callStatic vm exec gasLimit address val data = bnd (gets ei_env) (\<lambda>env.
     baseCall vm exec (new_message\<lparr>m_caller := env_address env, m_gasLimit := gasLimit,
       m_to := Some address, m_value := val, m_data := data, m_isStatic := True,
       m_depth := env_depth env + 1\<rparr>))"

definition eei_callDelegate :: "vm \<Rightarrow> exec \<Rightarrow> int \<Rightarrow> bytes \<Rightarrow> int \<Rightarrow> bytes \<Rightarrow> (eei, int) eff" where
  "eei_callDelegate vm exec gasLimit address val data = bnd (gets ei_env) (\<lambda>env.
     baseCall vm exec (new_message\<lparr>m_caller := env_caller env, m_gasLimit := gasLimit,
       m_to := Some (env_address env), m_codeAddress := Some address, m_value := val, m_data := data,
       m_isStatic := env_isStatic env, m_delegatecall := True, m_depth := env_depth env + 1\<rparr>))"

text \<open>
  \<open>create\<close>; the nonce of the contract is counted up in the object \<open>_env.contract\<close> that the frame
  keeps, and that object is saved.
\<close>

definition create_increment :: "(eei, unit) eff" where
  "create_increment =
     andthen (modif (\<lambda>e. e\<lparr>ei_env := (ei_env e)\<lparr>env_contract :=
         (env_contract (ei_env e))\<lparr>acc_nonce := acc_nonce (env_contract (ei_env e)) + 1\<rparr>\<rparr>\<rparr>))
       (bnd (gets ei_env) (\<lambda>env. on_evm (on_state (sm_putAccount (env_address env) (env_contract env)))))"

definition eei_create :: "vm \<Rightarrow> exec \<Rightarrow> int \<Rightarrow> int \<Rightarrow> bytes \<Rightarrow> bytes option \<Rightarrow> (eei, int) eff" where
  "eei_create vm exec gasLimit val data salt = bnd (gets id) (\<lambda>e.
     bnd (of_sum (check_message (new_message\<lparr>m_caller := getAddress e, m_gasLimit := gasLimit,
         m_value := val, m_data := data, m_salt := salt, m_depth := env_depth (ei_env e) + 1,
         m_selfdestruct := Some (rr_selfdestruct (ei_result e))\<rparr>))) (\<lambda>msg.
     andthen (set_lastReturned [])
       (if int (env_depth (ei_env e)) \<ge> vm_param vm ''vm'' ''stackLimit'' \<or>
           (\<not> m_delegatecall msg \<and> getSelfBalance e < m_value msg)
        then ret 0
        else if acc_nonce (env_contract (ei_env e)) \<ge> MAX_UINT64 then ret 0
        else andthen create_increment
          (if vm_isActivatedEIP vm 3860 \<and> int (length (m_data msg)) > vm_param vm ''vm'' ''maxInitCodeSize''
           then ret 0
           else bnd (on_evm (exec msg)) (\<lambda>(results, selfdestruct).
             let err = x_exceptionError (g_execResult results)
             in andthen (append_logs results)
               (andthen (useGas (g_gasUsed results))
               (andthen (when_eff (err = Some REVERT)
                    (set_lastReturned (x_returnValue (g_execResult results))))
                 (if err = None \<or> err = Some CODESTORE_OUT_OF_GAS
                  then andthen (merge_selfdestruct selfdestruct)
                    (andthen refresh_contract
                      (case g_createdAddress results of
                         Some a \<Rightarrow> ret (bn_of_bytes a)
                       | None \<Rightarrow> ret (getReturnCode results)))
                  else ret (getReturnCode results)))))))))"

definition eei_create2 :: "vm \<Rightarrow> exec \<Rightarrow> int \<Rightarrow> int \<Rightarrow> bytes \<Rightarrow> bytes \<Rightarrow> (eei, int) eff" where
  "eei_create2 vm exec gasLimit val data salt = eei_create vm exec gasLimit val data (Some salt)"

end
