(* ===== verification/Op_Util.thy ===== *)
theory Op_Util
  imports Eei
begin

text \<open>
  The helpers of the opcodes, \<open>vm/src/evm/opcodes/util.ts\<close>, and the storage pricing rules of
  \<open>EIP1283.ts\<close>, \<open>EIP2200.ts\<close> and \<open>EIP2929.ts\<close> in the same directory.
\<close>

section \<open>util.ts\<close>

definition setLengthLeftStorage :: "bytes \<Rightarrow> bytes" where
  "setLengthLeftStorage value =
     (if value = replicate (length value) 0 then [] else setLengthLeft value 32)"

text \<open>The location of \<open>describeLocation\<close> is the last three fields of \<open>AT\<close>.\<close>

definition trap_at :: "vm \<Rightarrow> vm_error \<Rightarrow> (run_state, 'a) eff" where
  "trap_at vm err = bnd (gets id) (\<lambda>rs.
     trap (AT err (vm_keccak256 vm (getCode (rs_eei rs))) (getAddress (rs_eei rs))
       (int (programCounter rs) - 1)))"

definition divCeil :: "int \<Rightarrow> int \<Rightarrow> int" where
  "divCeil a b =
     (let dv = bn_div a b; md = bn_mod a b
      in if md = 0 then dv else if dv < 0 then dv - 1 else dv + 1)"

definition getDataSlice :: "bytes \<Rightarrow> int \<Rightarrow> int \<Rightarrow> exn + bytes" where
  "getDataSlice data offset len =
     (let dlen = int (length data);
          off = (if offset > dlen then dlen else offset);
          end = (if off + len > dlen then dlen else off + len)
      in bindS (toNumber off) (\<lambda>i. bindS (toNumber end) (\<lambda>j. bindS (toNumber len) (\<lambda>n.
           Inr (setLengthRight (slice data i j) n)))))"

definition getFullname :: "nat \<Rightarrow> string \<Rightarrow> string \<times> int option" where
  "getFullname code name =
     (name, if name = ''LOG'' then Some (int code - 0xa0)
            else if name = ''PUSH'' then Some (int code - 0x5f)
            else if name = ''DUP'' then Some (int code - 0x7f)
            else if name = ''SWAP'' then Some (int code - 0x8f) else None)"

text \<open>An index past the end of the array is \<open>undefined\<close>, which equals neither mark.\<close>

definition jumpIsValid :: "run_state \<Rightarrow> nat \<Rightarrow> bool" where
  "jumpIsValid rs dest \<longleftrightarrow> dest < length (validJumps rs) \<and> validJumps rs ! dest = 1"

definition jumpSubIsValid :: "run_state \<Rightarrow> nat \<Rightarrow> bool" where
  "jumpSubIsValid rs dest \<longleftrightarrow> dest < length (validJumps rs) \<and> validJumps rs ! dest = 2"

definition maxCallGas :: "vm \<Rightarrow> int \<Rightarrow> int \<Rightarrow> int" where
  "maxCallGas vm gasLimit gasLeft =
     (if vm_gteHardfork vm ''tangerineWhistle''
      then (let gasAllowed = gasLeft - bn_div gasLeft 64
            in if gasLimit > gasAllowed then gasAllowed else gasLimit)
      else gasLimit)"

definition subMemUsage :: "vm \<Rightarrow> int \<Rightarrow> int \<Rightarrow> (run_state, int) eff" where
  "subMemUsage vm offset len =
     (if len = 0 then ret 0
      else bnd (gets id) (\<lambda>rs.
        let newMemoryWordCount = divCeil (offset + len) 32
        in if newMemoryWordCount \<le> memoryWordCount rs then ret 0
           else (let words = newMemoryWordCount;
                     fee = gasPrice vm ''memory'';
                     quadCoeff = gasPrice vm ''quadCoeffDiv'';
                     cost = words * fee + bn_div (words * words) quadCoeff;
                     grows = cost > highestMemCost rs
                 in andthen (modif (\<lambda>rs. rs\<lparr>
                        highestMemCost := (if grows then cost else highestMemCost rs),
                        memoryWordCount := newMemoryWordCount\<rparr>))
                      (ret (if grows then cost - highestMemCost rs else cost)))))"

definition writeCallOutput :: "int \<Rightarrow> int \<Rightarrow> (run_state, unit) eff" where
  "writeCallOutput outOffset outLength =
     bnd (gets (\<lambda>rs. getReturnData (rs_eei rs))) (\<lambda>returnData.
       if 0 < length returnData
       then bnd (of_sum (toNumber outOffset)) (\<lambda>memOffset.
            bnd (of_sum (toNumber outLength)) (\<lambda>outLen.
              let dataLength = (if length returnData < outLen then length returnData else outLen)
              in bnd (of_sum (getDataSlice returnData 0 (int dataLength))) (\<lambda>data.
                   on_memory (mem_write memOffset dataLength data))))
       else ret ())"

definition updateSstoreGas :: "vm \<Rightarrow> bytes \<Rightarrow> bytes \<Rightarrow> (run_state, int) eff" where
  "updateSstoreGas vm currentStorage value =
     (if (length value = 0 \<and> length currentStorage = 0) \<or>
         (0 < length value \<and> 0 < length currentStorage)
      then ret (gasPrice vm ''sstoreReset'')
      else if length value = 0 \<and> 0 < length currentStorage
      then andthen (on_eei (refundGas (gasPrice vm ''sstoreRefund'')))
        (ret (gasPrice vm ''sstoreReset''))
      else ret (gasPrice vm ''sstoreSet''))"

section \<open>EIP1283.ts\<close>

definition updateSstoreGasEIP1283 :: "vm \<Rightarrow> bytes \<Rightarrow> bytes \<Rightarrow> bytes \<Rightarrow> (run_state, int) eff" where
  "updateSstoreGasEIP1283 vm currentStorage originalStorage value =
     (if currentStorage = value then ret (gasPrice vm ''netSstoreNoopGas'')
      else if originalStorage = currentStorage
      then (if length originalStorage = 0 then ret (gasPrice vm ''netSstoreInitGas'')
            else andthen (when_eff (length value = 0)
                   (on_eei (refundGas (gasPrice vm ''netSstoreClearRefund''))))
                 (ret (gasPrice vm ''netSstoreCleanGas'')))
      else
        andthen
          (when_eff (length originalStorage \<noteq> 0)
             (if length currentStorage = 0
              then on_eei (subRefund (gasPrice vm ''netSstoreClearRefund''))
              else when_eff (length value = 0)
                (on_eei (refundGas (gasPrice vm ''netSstoreClearRefund'')))))
       (andthen
          (when_eff (originalStorage = value)
             (if length originalStorage = 0
              then on_eei (refundGas (gasPrice vm ''netSstoreResetClearRefund''))
              else on_eei (refundGas (gasPrice vm ''netSstoreResetRefund''))))
          (ret (gasPrice vm ''netSstoreDirtyGas''))))"

section \<open>EIP2929.ts\<close>

definition accessAddressEIP2929 :: "vm \<Rightarrow> bytes \<Rightarrow> bool \<Rightarrow> bool \<Rightarrow> (run_state, int) eff" where
  "accessAddressEIP2929 vm address chargeGas isSelfdestruct =
     (if \<not> vm_isActivatedEIP vm 2929 then ret 0
      else bnd (gets (\<lambda>rs. isWarmedAddress address (ev_state (ei_evm (rs_eei rs))))) (\<lambda>warm.
        if \<not> warm
        then andthen (on_eei (on_evm (on_state (addWarmedAddress address))))
          (ret (if chargeGas then gasPrice vm ''coldaccountaccess'' else 0))
        else if chargeGas \<and> \<not> isSelfdestruct then ret (gasPrice vm ''warmstorageread'')
        else ret 0))"

definition accessStorageEIP2929 :: "vm \<Rightarrow> bytes \<Rightarrow> bool \<Rightarrow> (run_state, int) eff" where
  "accessStorageEIP2929 vm key isSstore =
     (if \<not> vm_isActivatedEIP vm 2929 then ret 0
      else bnd (gets (\<lambda>rs. getAddress (rs_eei rs))) (\<lambda>address.
        bnd (gets (\<lambda>rs. isWarmedStorage address key (ev_state (ei_evm (rs_eei rs))))) (\<lambda>warm.
          if \<not> warm
          then andthen (on_eei (on_evm (on_state (addWarmedStorage address key))))
            (ret (gasPrice vm ''coldsload''))
          else if \<not> isSstore then ret (gasPrice vm ''warmstorageread'')
          else ret 0)))"

definition adjustSstoreGasEIP2929 :: "vm \<Rightarrow> bytes \<Rightarrow> int \<Rightarrow> string \<Rightarrow> run_state \<Rightarrow> int" where
  "adjustSstoreGasEIP2929 vm key defaultCost costName rs =
     (if \<not> vm_isActivatedEIP vm 2929 then defaultCost
      else
        (let address = getAddress (rs_eei rs);
             warmRead = gasPrice vm ''warmstorageread'';
             coldSload = gasPrice vm ''coldsload''
         in if isWarmedStorage address key (ev_state (ei_evm (rs_eei rs)))
            then (if costName = ''noop'' then warmRead
                  else if costName = ''initRefund'' then gasPrice vm ''sstoreInitGasEIP2200'' - warmRead
                  else if costName = ''cleanRefund'' then gasPrice vm ''sstoreReset'' - coldSload - warmRead
                  else defaultCost)
            else defaultCost))"

section \<open>EIP2200.ts\<close>

definition updateSstoreGasEIP2200 :: "vm \<Rightarrow> bytes \<Rightarrow> bytes \<Rightarrow> bytes \<Rightarrow> bytes \<Rightarrow> (run_state, int) eff" where
  "updateSstoreGasEIP2200 vm currentStorage originalStorage value key =
     bnd (gets id) (\<lambda>rs.
       if ei_gasLeft (rs_eei rs) \<le> gasPrice vm ''sstoreSentryGasEIP2200'' then trap OUT_OF_GAS
       else if currentStorage = value
       then ret (adjustSstoreGasEIP2929 vm key (gasPrice vm ''sstoreNoopGasEIP2200'') ''noop'' rs)
       else if originalStorage = currentStorage
       then (if length originalStorage = 0 then ret (gasPrice vm ''sstoreInitGasEIP2200'')
             else andthen (when_eff (length value = 0)
                    (on_eei (refundGas (gasPrice vm ''sstoreClearRefundEIP2200''))))
                  (ret (gasPrice vm ''sstoreCleanGasEIP2200'')))
       else
         andthen
           (when_eff (0 < length originalStorage)
              (if length currentStorage = 0
               then on_eei (subRefund (gasPrice vm ''sstoreClearRefundEIP2200''))
               else when_eff (length value = 0)
                 (on_eei (refundGas (gasPrice vm ''sstoreClearRefundEIP2200'')))))
        (andthen
           (when_eff (originalStorage = value)
              (if length originalStorage = 0
               then on_eei (refundGas (adjustSstoreGasEIP2929 vm key
                 (gasPrice vm ''sstoreInitRefundEIP2200'') ''initRefund'' rs))
               else on_eei (refundGas (adjustSstoreGasEIP2929 vm key
                 (gasPrice vm ''sstoreCleanRefundEIP2200'') ''cleanRefund'' rs))))
           (ret (gasPrice vm ''sstoreDirtyGasEIP2200''))))"

section \<open>Rounding and slicing\<close>

lemma divCeil_32:
  assumes "0 \<le> a" shows "divCeil a 32 = (a + 31) div 32"
proof -
  define q r where "q = a div 32" and "r = a mod 32"
  have a: "a = 32 * q + r" "0 \<le> r" "r < 32" by (simp_all add: q_def r_def)
  have "(a + 31) div 32 = (if r = 0 then q else q + 1)"
    using a by (auto simp: div_pos_pos_trivial)
  moreover have "0 \<le> q" using assms by (simp add: q_def)
  ultimately show ?thesis
    using assms by (simp add: divCeil_def Let_def flip: q_def r_def)
qed

lemma divCeil_nonneg: "0 \<le> a \<Longrightarrow> 0 \<le> divCeil a 32"
  by (simp add: divCeil_32)

lemma getDataSlice_ok:
  assumes "0 \<le> offset" "0 \<le> len" "len < 2 ^ 53" "int (length data) < 2 ^ 53"
  shows "getDataSlice data offset len =
    Inr (map (\<lambda>i. if offset + int i < int (length data) then data ! nat (offset + int i) else 0)
      [0..<nat len])"
proof -
  define i where "i = (if offset > int (length data) then length data else nat offset)"
  define j where "j = (if int i + len > int (length data) then length data else i + nat len)"
  have "getDataSlice data offset len = Inr (setLengthRight (slice data i j) (nat len))"
    using assms by (auto simp: getDataSlice_def Let_def toNumber_def i_def j_def nat_add_distrib)
  moreover have "setLengthRight (slice data i j) (nat len) =
      map (\<lambda>i. if offset + int i < int (length data) then data ! nat (offset + int i) else 0)
        [0..<nat len]"
  proof (rule nth_equalityI)
    fix n assume "n < length (setLengthRight (slice data i j) (nat len))"
    then have n: "n < nat len" by simp
    show "setLengthRight (slice data i j) (nat len) ! n =
        map (\<lambda>i. if offset + int i < int (length data) then data ! nat (offset + int i) else 0)
          [0..<nat len] ! n"
    proof (cases "offset + int n < int (length data)")
      case True
      then have "i = nat offset" "n < j - i" "n < length data - i" "nat (offset + int n) = i + n"
        using n assms(1) by (auto simp: i_def j_def)
      then show ?thesis using n True by (simp add: nth_setLengthRight slice_def)
    next
      case False
      then have "length data - i \<le> n \<or> j - i \<le> n"
        using n assms(1) by (auto simp: i_def j_def)
      then show ?thesis using n False by (auto simp: nth_setLengthRight)
    qed
  qed simp
  ultimately show ?thesis by simp
qed

end
