(* ===== verification/Tx.thy ===== *)
theory Tx
  imports Signature Common_Chains Op_Util
begin

text \<open>
  \<open>packages/tx/src\<close>: the three kinds of transactions. \<open>Transaction\<close> (legacy),
  \<open>AccessListEIP2930Transaction\<close> and \<open>FeeMarketEIP1559Transaction\<close> extend \<open>BaseTransaction\<close>: the
  record \<open>transaction\<close> has the base class's fields and a \<open>tx_payload\<close> with those of the subclass.

  RLP, keccak256 and the curve operations come from packages and are fields of \<open>tx_cfg\<close>, with the
  data that \<open>Common\<close> is made from. The fields of \<open>txData\<close> are what \<open>toBuffer\<close> makes of them
  (\<open>undefined\<close>, \<open>null\<close> and the empty string are the empty buffer). The values of a values array have
  the shape of its TypeScript type, buffers and lists of pairs of a buffer and a list of buffers;
  a decoded value of another shape is an error here. The caches of the hash and of the data fee are
  not modelled, and neither are \<open>toJSON\<close>, \<open>errorStr\<close> and the texts that it adds to errors.
\<close>

type_synonym access_list = "(bytes \<times> bytes list) list"

record tx_cfg =
  txc_data :: common_data
  txc_keccak256 :: "bytes \<Rightarrow> bytes"
  txc_encode :: "rlp \<Rightarrow> bytes"
  txc_decode :: "bytes \<Rightarrow> exn + rlp"
  txc_sign :: "bytes \<Rightarrow> bytes \<Rightarrow> exn + bytes \<times> nat"
  txc_recover :: "bytes \<Rightarrow> nat \<Rightarrow> bytes \<Rightarrow> bytes option"

record base_tx =
  tx_nonce :: int
  tx_gasLimit :: int
  tx_to :: "bytes option"
  tx_value :: int
  tx_data :: bytes
  tx_v :: "int option"
  tx_r :: "int option"
  tx_s :: "int option"

text \<open>Legacy: gas price. Access list: chain id, gas price, list. Fee market: chain id, priority fee, fee, list.\<close>

datatype tx_payload =
    Legacy int
  | AccessListEIP2930 int int access_list
  | FeeMarketEIP1559 int int int access_list

record transaction = base_tx +
  tx_common :: common
  tx_capabilities :: "nat list"
  tx_payload :: tx_payload

record tx_input =
  td_nonce :: bytes
  td_gasLimit :: bytes
  td_to :: bytes
  td_value :: bytes
  td_data :: bytes
  td_v :: bytes
  td_r :: bytes
  td_s :: bytes
  td_gasPrice :: bytes
  td_maxPriorityFeePerGas :: bytes
  td_maxFeePerGas :: bytes
  td_chainId :: "int option"
  td_accessList :: access_list

definition no_data :: tx_input where
  "no_data = \<lparr>td_nonce = [], td_gasLimit = [], td_to = [], td_value = [], td_data = [], td_v = [],
     td_r = [], td_s = [], td_gasPrice = [], td_maxPriorityFeePerGas = [], td_maxFeePerGas = [],
     td_chainId = None, td_accessList = []\<rparr>"

definition N_DIV_2 :: int where
  "N_DIV_2 = 0x7fffffffffffffffffffffffffffffff5d576e7357a4501ddfe92f46681b20a0"

section \<open>The base class\<close>

definition tx_type :: "transaction \<Rightarrow> nat" where
  "tx_type t = (case tx_payload t of
     Legacy g \<Rightarrow> 0 | AccessListEIP2930 c g l \<Rightarrow> 1 | FeeMarketEIP1559 c p f l \<Rightarrow> 2)"

definition tx_supports :: "transaction \<Rightarrow> nat \<Rightarrow> bool" where
  "tx_supports t capability \<longleftrightarrow> capability \<in> set (tx_capabilities t)"

fun validateCannotExceedMaxInteger ::
  "(string \<times> int option) list \<Rightarrow> nat \<Rightarrow> bool \<Rightarrow> exn + unit" where
  "validateCannotExceedMaxInteger [] bits cannotEqual = Inr ()"
| "validateCannotExceedMaxInteger ((key, value) # vs) bits cannotEqual =
     (let gt = (\<lambda>m. case value of None \<Rightarrow> False | Some x \<Rightarrow> m < x);
          gte = (\<lambda>m. case value of None \<Rightarrow> False | Some x \<Rightarrow> m \<le> x)
      in if bits = 64 then
           (if cannotEqual
            then if gte MAX_UINT64 then Inl (JsError (key @ '' cannot equal or exceed MAX_UINT64 (2^64-1)''))
                 else validateCannotExceedMaxInteger vs bits cannotEqual
            else if gt MAX_UINT64 then Inl (JsError (key @ '' cannot exceed MAX_UINT64 (2^64-1)''))
                 else validateCannotExceedMaxInteger vs bits cannotEqual)
         else if bits = 256 then
           (if cannotEqual
            then if gte MAX_INTEGER then Inl (JsError (key @ '' cannot equal or exceed MAX_INTEGER (2^256-1)''))
                 else validateCannotExceedMaxInteger vs bits cannotEqual
            else if gt MAX_INTEGER then Inl (JsError (key @ '' cannot exceed MAX_INTEGER (2^256-1)''))
                 else validateCannotExceedMaxInteger vs bits cannotEqual)
         else Inl (JsError ''unimplemented bits value''))"

definition opt_bn :: "bytes \<Rightarrow> int option" where
  "opt_bn b = (if 0 < length b then Some (bn_of_bytes b) else None)"

definition new_base :: "tx_input \<Rightarrow> exn + base_tx" where
  "new_base td =
     (if 0 < length (td_to td) \<and> length (td_to td) \<noteq> 20
      then Inl (JsError ''Invalid address length'')
      else
        (let b = \<lparr>tx_nonce = bn_of_bytes (td_nonce td), tx_gasLimit = bn_of_bytes (td_gasLimit td),
               tx_to = (if 0 < length (td_to td) then Some (td_to td) else None),
               tx_value = bn_of_bytes (td_value td), tx_data = td_data td,
               tx_v = opt_bn (td_v td), tx_r = opt_bn (td_r td), tx_s = opt_bn (td_s td)\<rparr>
         in bindS (validateCannotExceedMaxInteger
                 [(''value'', Some (tx_value b)), (''r'', tx_r b), (''s'', tx_s b)] 256 False) (\<lambda>_.
            bindS (validateCannotExceedMaxInteger [(''gasLimit'', Some (tx_gasLimit b))] 64 False) (\<lambda>_.
            bindS (validateCannotExceedMaxInteger [(''nonce'', Some (tx_nonce b))] 64 True) (\<lambda>_.
            Inr b)))))"

definition tx_isSigned :: "'a base_tx_scheme \<Rightarrow> bool" where
  "tx_isSigned t \<longleftrightarrow> tx_v t \<noteq> None \<and> tx_r t \<noteq> None \<and> tx_s t \<noteq> None"

text \<open>\<open>_getCommon\<close>, with the class's default hardfork; \<open>copy\<close> makes an equal object.\<close>

definition getCommon :: "tx_cfg \<Rightarrow> string \<Rightarrow> common option \<Rightarrow> int option \<Rightarrow> exn + common" where
  "getCommon cfg DEFAULT_HARDFORK common chainId =
     (let opts = no_opts\<lparr>co_hardfork := Some DEFAULT_HARDFORK\<rparr>
      in case chainId of
        Some i \<Rightarrow>
          (case common of
             Some c \<Rightarrow>
               if chainIdBN c \<noteq> i
               then Inl (JsError ''The chain ID does not match the chain ID of Common'')
               else Inr c
           | None \<Rightarrow>
               if isSupportedChainId (txc_data cfg) i
               then new_common (txc_data cfg) (ChainId i) [] opts
               else forCustomChain (txc_data cfg) (ChainId 1) (custom_params ''custom-chain'' i)
                      (Some DEFAULT_HARDFORK) None)
      | None \<Rightarrow>
          (case common of Some c \<Rightarrow> Inr c
           | None \<Rightarrow> new_common (txc_data cfg) (ChainId 1) [] opts))"

text \<open>\<open>packages/tx/src/util.ts\<close>.\<close>

definition checkMaxInitCodeSize :: "common \<Rightarrow> nat \<Rightarrow> exn + unit" where
  "checkMaxInitCodeSize c len =
     (if bn_param c ''vm'' ''maxInitCodeSize'' < int len
      then Inl (JsError ''the initcode size of this transaction is too large'') else Inr ())"

fun verify_slots :: "bytes list \<Rightarrow> exn + unit" where
  "verify_slots [] = Inr ()"
| "verify_slots (k # ks) =
     (if length k \<noteq> 32
      then Inl (JsError ''Invalid EIP-2930 transaction: storage slot length should be 32 bytes'')
      else verify_slots ks)"

fun verifyAccessList :: "access_list \<Rightarrow> exn + unit" where
  "verifyAccessList [] = Inr ()"
| "verifyAccessList ((address, storageSlots) # items) =
     (if length address \<noteq> 20
      then Inl (JsError ''Invalid EIP-2930 transaction: address length should be 20 bytes'')
      else bindS (verify_slots storageSlots) (\<lambda>_. verifyAccessList items))"

definition getDataFeeEIP2930 :: "access_list \<Rightarrow> common \<Rightarrow> int" where
  "getDataFeeEIP2930 accessList c =
     (let slots = sum_list (map (\<lambda>item. length (snd item)) accessList);
          addresses = length accessList
      in int addresses * bn_param c ''gasPrices'' ''accessListAddressCost'' +
         int slots * bn_param c ''gasPrices'' ''accessListStorageKeyCost'')"

section \<open>The constructors\<close>

text \<open>\<open>_validateTxV\<close>: which \<open>v\<close> a legacy transaction may have, and the \<open>Common\<close> it is for.\<close>

definition validateTxV :: "tx_cfg \<Rightarrow> int option \<Rightarrow> common option \<Rightarrow> exn + common" where
  "validateTxV cfg v common =
     (case v of
        None \<Rightarrow> getCommon cfg ''istanbul'' common None
      | Some x \<Rightarrow>
          if x < 37 \<and> x \<noteq> 27 \<and> x \<noteq> 28
          then Inl (JsError ''Legacy txs need either v = 27/28 or v >= 37 (EIP-155 replay protection)'')
          else if x \<noteq> 27 \<and> x \<noteq> 28 \<and>
                  (case common of None \<Rightarrow> True | Some c \<Rightarrow> gteHardfork c ''spuriousDragon'')
          then (case common of
              Some c \<Rightarrow>
                if x \<noteq> chainIdBN c * 2 + 35 \<and> x \<noteq> chainIdBN c * 2 + 36
                then Inl (JsError ''Incompatible EIP155-based V and chain id'')
                else getCommon cfg ''istanbul'' common None
            | None \<Rightarrow>
                (let numSub = (if even (x - 35) then 35 else 36)
                 in getCommon cfg ''istanbul'' common (Some ((x - numSub) div 2))))
          else getCommon cfg ''istanbul'' common None)"

definition new_legacy :: "tx_cfg \<Rightarrow> tx_input \<Rightarrow> common option \<Rightarrow> exn + transaction" where
  "new_legacy cfg td common =
     bindS (new_base td) (\<lambda>b.
     bindS (validateTxV cfg (tx_v b) common) (\<lambda>c.
       let gasPrice = bn_of_bytes (td_gasPrice td)
       in if MAX_INTEGER < gasPrice * tx_gasLimit b
          then Inl (JsError ''gas limit * gasPrice cannot exceed MAX_INTEGER (2^256-1)'')
          else
          bindS (validateCannotExceedMaxInteger [(''gasPrice'', Some gasPrice)] 256 False) (\<lambda>_.
          let caps = (if gteHardfork c ''spuriousDragon''
                      then if \<not> tx_isSigned b then [155]
                           else if tx_v b = Some (chainIdBN c * 2 + 35) \<or>
                                   tx_v b = Some (chainIdBN c * 2 + 36) then [155] else []
                      else [])
          in bindS (if isActivatedEIP c 3860 then checkMaxInitCodeSize c (length (tx_data b)) else Inr ()) (\<lambda>_.
             Inr (base_tx.extend b (transaction.fields c caps (Legacy gasPrice)))))))"

text \<open>The checks that the two typed transactions share: y parity, s, init code.\<close>

definition typed_checks :: "common \<Rightarrow> base_tx \<Rightarrow> exn + unit" where
  "typed_checks c b =
     (if tx_v b \<noteq> None \<and> tx_v b \<noteq> Some 0 \<and> tx_v b \<noteq> Some 1
      then Inl (JsError ''The y-parity of the transaction should either be 0 or 1'')
      else if gteHardfork c ''homestead'' \<and> (case tx_s b of None \<Rightarrow> False | Some s \<Rightarrow> N_DIV_2 < s)
      then Inl (JsError ''Invalid Signature: s-values greater than secp256k1n/2 are considered invalid'')
      else if isActivatedEIP c 3860 then checkMaxInitCodeSize c (length (tx_data b)) else Inr ())"

definition new_eip2930 :: "tx_cfg \<Rightarrow> tx_input \<Rightarrow> common option \<Rightarrow> exn + transaction" where
  "new_eip2930 cfg td common =
     bindS (new_base td) (\<lambda>b.
     bindS (getCommon cfg ''berlin'' common (td_chainId td)) (\<lambda>c.
       if \<not> isActivatedEIP c 2930 then Inl (JsError ''EIP-2930 not enabled on Common'')
       else
       bindS (verifyAccessList (td_accessList td)) (\<lambda>_.
         let gasPrice = bn_of_bytes (td_gasPrice td)
         in bindS (validateCannotExceedMaxInteger [(''gasPrice'', Some gasPrice)] 256 False) (\<lambda>_.
            if MAX_INTEGER < gasPrice * tx_gasLimit b
            then Inl (JsError ''gasLimit * gasPrice cannot exceed MAX_INTEGER'')
            else bindS (typed_checks c b) (\<lambda>_.
              Inr (base_tx.extend b (transaction.fields c [2718, 2930]
                (AccessListEIP2930 (chainIdBN c) gasPrice (td_accessList td)))))))))"

definition new_eip1559 :: "tx_cfg \<Rightarrow> tx_input \<Rightarrow> common option \<Rightarrow> exn + transaction" where
  "new_eip1559 cfg td common =
     bindS (new_base td) (\<lambda>b.
     bindS (getCommon cfg ''london'' common (td_chainId td)) (\<lambda>c.
       if \<not> isActivatedEIP c 1559 then Inl (JsError ''EIP-1559 not enabled on Common'')
       else
       bindS (verifyAccessList (td_accessList td)) (\<lambda>_.
         let maxFee = bn_of_bytes (td_maxFeePerGas td);
             maxPriority = bn_of_bytes (td_maxPriorityFeePerGas td)
         in bindS (validateCannotExceedMaxInteger [(''maxFeePerGas'', Some maxFee),
                     (''maxPriorityFeePerGas'', Some maxPriority)] 256 False) (\<lambda>_.
            if MAX_INTEGER < tx_gasLimit b * maxFee
            then Inl (JsError ''gasLimit * maxFeePerGas cannot exceed MAX_INTEGER (2^256-1)'')
            else if maxFee < maxPriority
            then Inl (JsError ''maxFeePerGas cannot be less than maxPriorityFeePerGas (The total must be the larger of the two)'')
            else bindS (typed_checks c b) (\<lambda>_.
              Inr (base_tx.extend b (transaction.fields c [1559, 2718, 2930]
                (FeeMarketEIP1559 (chainIdBN c) maxPriority maxFee (td_accessList td)))))))))"

section \<open>Fees\<close>

definition toCreationAddress :: "transaction \<Rightarrow> bool" where
  "toCreationAddress t \<longleftrightarrow> (case tx_to t of None \<Rightarrow> True | Some a \<Rightarrow> length a = 0)"

definition data_cost :: "common \<Rightarrow> bytes \<Rightarrow> int" where
  "data_cost c data =
     sum_list (map (\<lambda>b. if b = 0 then bn_param c ''gasPrices'' ''txDataZero''
                        else bn_param c ''gasPrices'' ''txDataNonZero'') data)"

definition base_getDataFee :: "transaction \<Rightarrow> int" where
  "base_getDataFee t =
     (let cost = data_cost (tx_common t) (tx_data t)
      in if tx_to t = None \<and> isActivatedEIP (tx_common t) 3860
         then cost + bn_param (tx_common t) ''gasPrices'' ''initCodeWordCost'' *
                     ((int (length (tx_data t)) + 31) div 32)
         else cost)"

definition legacy_getDataFee :: "transaction \<Rightarrow> int" where
  "legacy_getDataFee t = base_getDataFee t"

definition eip2930_getDataFee :: "transaction \<Rightarrow> access_list \<Rightarrow> int" where
  "eip2930_getDataFee t accessList =
     base_getDataFee t + getDataFeeEIP2930 accessList (tx_common t)"

definition eip1559_getDataFee :: "transaction \<Rightarrow> access_list \<Rightarrow> int" where
  "eip1559_getDataFee t accessList =
     base_getDataFee t + getDataFeeEIP2930 accessList (tx_common t)"

definition getDataFee :: "transaction \<Rightarrow> int" where
  "getDataFee t =
     (case tx_payload t of
        Legacy g \<Rightarrow> legacy_getDataFee t
      | AccessListEIP2930 c g l \<Rightarrow> eip2930_getDataFee t l
      | FeeMarketEIP1559 c p f l \<Rightarrow> eip1559_getDataFee t l)"

definition getBaseFee :: "transaction \<Rightarrow> int" where
  "getBaseFee t =
     (let fee = getDataFee t + bn_param (tx_common t) ''gasPrices'' ''tx''
      in if gteHardfork (tx_common t) ''homestead'' \<and> toCreationAddress t
         then fee + bn_param (tx_common t) ''gasPrices'' ''txCreation'' else fee)"

text \<open>The base fee of the block is an argument that only the fee market transaction reads.\<close>

definition legacy_getUpfrontCost :: "transaction \<Rightarrow> int \<Rightarrow> int" where
  "legacy_getUpfrontCost t price = tx_gasLimit t * price + tx_value t"

definition eip2930_getUpfrontCost :: "transaction \<Rightarrow> int \<Rightarrow> int" where
  "eip2930_getUpfrontCost t price = tx_gasLimit t * price + tx_value t"

definition eip1559_getUpfrontCost :: "transaction \<Rightarrow> int \<Rightarrow> int \<Rightarrow> int \<Rightarrow> int" where
  "eip1559_getUpfrontCost t maxPriorityFeePerGas maxFeePerGas baseFee =
     (let inclusionFeePerGas = min maxPriorityFeePerGas (maxFeePerGas - baseFee);
          gasPrice = inclusionFeePerGas + baseFee
      in tx_gasLimit t * gasPrice + tx_value t)"

definition getUpfrontCost :: "transaction \<Rightarrow> int \<Rightarrow> int" where
  "getUpfrontCost t baseFee =
     (case tx_payload t of
        Legacy g \<Rightarrow> legacy_getUpfrontCost t g
      | AccessListEIP2930 c g l \<Rightarrow> eip2930_getUpfrontCost t g
      | FeeMarketEIP1559 c p f l \<Rightarrow> eip1559_getUpfrontCost t p f baseFee)"

lemmas getUpfrontCost_defs = getUpfrontCost_def legacy_getUpfrontCost_def eip2930_getUpfrontCost_def
  eip1559_getUpfrontCost_def

section \<open>Encodings\<close>

definition opt_item :: "int option \<Rightarrow> rlp" where
  "opt_item v = Item (case v of Some x \<Rightarrow> bnToUnpaddedBuffer x | None \<Rightarrow> [])"

definition to_item :: "transaction \<Rightarrow> rlp" where
  "to_item t = Item (case tx_to t of Some a \<Rightarrow> a | None \<Rightarrow> [])"

definition access_list_rlp :: "access_list \<Rightarrow> rlp" where
  "access_list_rlp l = Items (map (\<lambda>(a, ks). Items [Item a, Items (map Item ks)]) l)"

definition bn_item :: "int \<Rightarrow> rlp" where
  "bn_item x = Item (bnToUnpaddedBuffer x)"

definition legacy_raw :: "transaction \<Rightarrow> int \<Rightarrow> rlp list" where
  "legacy_raw t price =
     [bn_item (tx_nonce t), bn_item price, bn_item (tx_gasLimit t), to_item t,
      bn_item (tx_value t), Item (tx_data t),
      opt_item (tx_v t), opt_item (tx_r t), opt_item (tx_s t)]"

definition eip2930_raw :: "transaction \<Rightarrow> int \<Rightarrow> int \<Rightarrow> access_list \<Rightarrow> rlp list" where
  "eip2930_raw t chainId price accessList =
     [bn_item chainId, bn_item (tx_nonce t), bn_item price, bn_item (tx_gasLimit t), to_item t,
      bn_item (tx_value t), Item (tx_data t), access_list_rlp accessList,
      opt_item (tx_v t), opt_item (tx_r t), opt_item (tx_s t)]"

definition eip1559_raw :: "transaction \<Rightarrow> int \<Rightarrow> int \<Rightarrow> int \<Rightarrow> access_list \<Rightarrow> rlp list" where
  "eip1559_raw t chainId maxPriorityFeePerGas maxFeePerGas accessList =
     [bn_item chainId, bn_item (tx_nonce t), bn_item maxPriorityFeePerGas, bn_item maxFeePerGas,
      bn_item (tx_gasLimit t), to_item t, bn_item (tx_value t), Item (tx_data t),
      access_list_rlp accessList, opt_item (tx_v t), opt_item (tx_r t), opt_item (tx_s t)]"

definition tx_raw :: "transaction \<Rightarrow> rlp list" where
  "tx_raw t =
     (case tx_payload t of
        Legacy g \<Rightarrow> legacy_raw t g
      | AccessListEIP2930 c g l \<Rightarrow> eip2930_raw t c g l
      | FeeMarketEIP1559 c p f l \<Rightarrow> eip1559_raw t c p f l)"

lemmas tx_raw_defs = tx_raw_def legacy_raw_def eip2930_raw_def eip1559_raw_def

definition legacy_serialize :: "tx_cfg \<Rightarrow> transaction \<Rightarrow> int \<Rightarrow> bytes" where
  "legacy_serialize cfg t g = txc_encode cfg (Items (legacy_raw t g))"

definition eip2930_serialize :: "tx_cfg \<Rightarrow> transaction \<Rightarrow> int \<Rightarrow> int \<Rightarrow> access_list \<Rightarrow> bytes" where
  "eip2930_serialize cfg t c g l = 1 # txc_encode cfg (Items (eip2930_raw t c g l))"

definition eip1559_serialize :: "tx_cfg \<Rightarrow> transaction \<Rightarrow> int \<Rightarrow> int \<Rightarrow> int \<Rightarrow> access_list \<Rightarrow> bytes" where
  "eip1559_serialize cfg t c p f l = 2 # txc_encode cfg (Items (eip1559_raw t c p f l))"

definition tx_serialize :: "tx_cfg \<Rightarrow> transaction \<Rightarrow> bytes" where
  "tx_serialize cfg t =
     (case tx_payload t of
        Legacy g \<Rightarrow> legacy_serialize cfg t g
      | AccessListEIP2930 c g l \<Rightarrow> eip2930_serialize cfg t c g l
      | FeeMarketEIP1559 c p f l \<Rightarrow> eip1559_serialize cfg t c p f l)"

lemma tx_serialize_eq: "tx_serialize cfg t =
    (let enc = txc_encode cfg (Items (tx_raw t))
     in if tx_type t = 0 then enc else of_nat (tx_type t) # enc)"
  by (simp add: tx_serialize_def legacy_serialize_def eip2930_serialize_def eip1559_serialize_def
      tx_raw_def tx_type_def split: tx_payload.split)

text \<open>\<open>_getMessageToSign\<close> of a legacy transaction: the chain id is not unpadded.\<close>

definition legacy_message :: "transaction \<Rightarrow> int \<Rightarrow> rlp list" where
  "legacy_message t g =
     [bn_item (tx_nonce t), bn_item g, bn_item (tx_gasLimit t), to_item t,
      bn_item (tx_value t), Item (tx_data t)] @
     (if tx_supports t 155
      then [Item (toArrayLike_min (chainIdBN (tx_common t))), Item [], Item []] else [])"

text \<open>\<open>getMessageToSign(false)\<close> of the typed transactions, and the message of a legacy one, encoded.\<close>

definition eip2930_message :: "tx_cfg \<Rightarrow> transaction \<Rightarrow> int \<Rightarrow> int \<Rightarrow> access_list \<Rightarrow> bytes" where
  "eip2930_message cfg t c g l = 1 # txc_encode cfg (Items (take 8 (eip2930_raw t c g l)))"

definition eip1559_message :: "tx_cfg \<Rightarrow> transaction \<Rightarrow> int \<Rightarrow> int \<Rightarrow> int \<Rightarrow> access_list \<Rightarrow> bytes" where
  "eip1559_message cfg t c p f l = 2 # txc_encode cfg (Items (take 9 (eip1559_raw t c p f l)))"

definition message_bytes :: "tx_cfg \<Rightarrow> transaction \<Rightarrow> bytes" where
  "message_bytes cfg t =
     (case tx_payload t of
        Legacy g \<Rightarrow> txc_encode cfg (Items (legacy_message t g))
      | AccessListEIP2930 c g l \<Rightarrow> eip2930_message cfg t c g l
      | FeeMarketEIP1559 c p f l \<Rightarrow> eip1559_message cfg t c p f l)"

lemmas message_defs = message_bytes_def eip2930_message_def eip1559_message_def

definition getMessageToSign :: "tx_cfg \<Rightarrow> transaction \<Rightarrow> bytes" where
  "getMessageToSign cfg t = txc_keccak256 cfg (message_bytes cfg t)"

definition legacy_hash :: "tx_cfg \<Rightarrow> transaction \<Rightarrow> int \<Rightarrow> exn + bytes" where
  "legacy_hash cfg t g = Inr (txc_keccak256 cfg (txc_encode cfg (Items (legacy_raw t g))))"

definition eip2930_hash :: "tx_cfg \<Rightarrow> transaction \<Rightarrow> int \<Rightarrow> int \<Rightarrow> access_list \<Rightarrow> exn + bytes" where
  "eip2930_hash cfg t c g l =
     (if \<not> tx_isSigned t
      then Inl (JsError ''Cannot call hash method if transaction is not signed'')
      else Inr (txc_keccak256 cfg (eip2930_serialize cfg t c g l)))"

definition eip1559_hash :: "tx_cfg \<Rightarrow> transaction \<Rightarrow> int \<Rightarrow> int \<Rightarrow> int \<Rightarrow> access_list \<Rightarrow> exn + bytes" where
  "eip1559_hash cfg t c p f l =
     (if \<not> tx_isSigned t
      then Inl (JsError ''Cannot call hash method if transaction is not signed'')
      else Inr (txc_keccak256 cfg (eip1559_serialize cfg t c p f l)))"

definition tx_hash :: "tx_cfg \<Rightarrow> transaction \<Rightarrow> exn + bytes" where
  "tx_hash cfg t =
     (case tx_payload t of
        Legacy g \<Rightarrow> legacy_hash cfg t g
      | AccessListEIP2930 c g l \<Rightarrow> eip2930_hash cfg t c g l
      | FeeMarketEIP1559 c p f l \<Rightarrow> eip1559_hash cfg t c p f l)"

section \<open>Signatures\<close>

definition getMessageToVerifySignature :: "tx_cfg \<Rightarrow> transaction \<Rightarrow> exn + bytes" where
  "getMessageToVerifySignature cfg t =
     (if tx_type t = 0 \<and> \<not> tx_isSigned t then Inl (JsError ''This transaction is not signed'')
      else Inr (getMessageToSign cfg t))"

definition s_too_high :: "transaction \<Rightarrow> bool" where
  "s_too_high t \<longleftrightarrow> gteHardfork (tx_common t) ''homestead'' \<and>
     (case tx_s t of Some s \<Rightarrow> N_DIV_2 < s | None \<Rightarrow> False)"

text \<open>The exception of \<open>ecrecover\<close> is replaced by one of the transaction's own.\<close>

definition try_recover :: "exn + bytes \<Rightarrow> exn + bytes" where
  "try_recover r = (case r of Inl e \<Rightarrow> Inl (JsError ''Invalid Signature'') | Inr key \<Rightarrow> Inr key)"

definition legacy_getSenderPublicKey :: "tx_cfg \<Rightarrow> transaction \<Rightarrow> exn + bytes" where
  "legacy_getSenderPublicKey cfg t =
     bindS (getMessageToVerifySignature cfg t) (\<lambda>msgHash.
       if s_too_high t
       then Inl (JsError ''Invalid Signature: s-values greater than secp256k1n/2 are considered invalid'')
       else try_recover (ecrecover (txc_recover cfg) msgHash (the (tx_v t))
              (bnToUnpaddedBuffer (the (tx_r t))) (bnToUnpaddedBuffer (the (tx_s t)))
              (if tx_supports t 155 then Some (chainIdBN (tx_common t)) else None)))"

definition eip2930_getSenderPublicKey :: "tx_cfg \<Rightarrow> transaction \<Rightarrow> exn + bytes" where
  "eip2930_getSenderPublicKey cfg t =
     (if \<not> tx_isSigned t
      then Inl (JsError ''Cannot call this method if transaction is not signed'')
      else bindS (getMessageToVerifySignature cfg t) (\<lambda>msgHash.
        if s_too_high t
        then Inl (JsError ''Invalid Signature: s-values greater than secp256k1n/2 are considered invalid'')
        else try_recover (ecrecover (txc_recover cfg) msgHash (the (tx_v t) + 27)
               (bnToUnpaddedBuffer (the (tx_r t))) (bnToUnpaddedBuffer (the (tx_s t))) None)))"

definition eip1559_getSenderPublicKey :: "tx_cfg \<Rightarrow> transaction \<Rightarrow> exn + bytes" where
  "eip1559_getSenderPublicKey cfg t =
     (if \<not> tx_isSigned t
      then Inl (JsError ''Cannot call this method if transaction is not signed'')
      else bindS (getMessageToVerifySignature cfg t) (\<lambda>msgHash.
        if s_too_high t
        then Inl (JsError ''Invalid Signature: s-values greater than secp256k1n/2 are considered invalid'')
        else try_recover (ecrecover (txc_recover cfg) msgHash (the (tx_v t) + 27)
               (bnToUnpaddedBuffer (the (tx_r t))) (bnToUnpaddedBuffer (the (tx_s t))) None)))"

definition getSenderPublicKey :: "tx_cfg \<Rightarrow> transaction \<Rightarrow> exn + bytes" where
  "getSenderPublicKey cfg t =
     (case tx_payload t of
        Legacy g \<Rightarrow> legacy_getSenderPublicKey cfg t
      | AccessListEIP2930 c g l \<Rightarrow> eip2930_getSenderPublicKey cfg t
      | FeeMarketEIP1559 c p f l \<Rightarrow> eip1559_getSenderPublicKey cfg t)"

text \<open>What the three have in common, for a signed transaction.\<close>

lemma getSenderPublicKey_signed:
  assumes "tx_v t = Some v" "tx_r t = Some r" "tx_s t = Some s"
  shows "getSenderPublicKey cfg t =
     (if s_too_high t
      then Inl (JsError ''Invalid Signature: s-values greater than secp256k1n/2 are considered invalid'')
      else try_recover (ecrecover (txc_recover cfg) (getMessageToSign cfg t)
             (if tx_type t = 0 then v else v + 27) (bnToUnpaddedBuffer r) (bnToUnpaddedBuffer s)
             (if tx_type t = 0 \<and> tx_supports t 155 then Some (chainIdBN (tx_common t)) else None)))"
  using assms by (simp add: getSenderPublicKey_def legacy_getSenderPublicKey_def
      eip2930_getSenderPublicKey_def eip1559_getSenderPublicKey_def getMessageToVerifySignature_def
      tx_isSigned_def tx_type_def split: tx_payload.split)

definition tx_verifySignature :: "tx_cfg \<Rightarrow> transaction \<Rightarrow> bool" where
  "tx_verifySignature cfg t =
     (case getSenderPublicKey cfg t of Inl e \<Rightarrow> False | Inr key \<Rightarrow> length (unpadBuffer key) \<noteq> 0)"

definition pubToAddress :: "(bytes \<Rightarrow> bytes) \<Rightarrow> bytes \<Rightarrow> exn + bytes" where
  "pubToAddress keccak key =
     (if length key = 64 then (let h = keccak key in Inr (drop (length h - 20) h))
      else Inl (JsError ''AssertionError''))"

definition newAddress :: "bytes \<Rightarrow> exn + bytes" where
  "newAddress buf = (if length buf = 20 then Inr buf else Inl (JsError ''Invalid address length''))"

definition getSenderAddress :: "tx_cfg \<Rightarrow> transaction \<Rightarrow> exn + bytes" where
  "getSenderAddress cfg t =
     bindS (getSenderPublicKey cfg t) (\<lambda>key.
     bindS (pubToAddress (txc_keccak256 cfg) key) newAddress)"

text \<open>\<open>validate(true)\<close>: the errors; \<open>validate()\<close> is whether there are none.\<close>

definition tx_validate :: "tx_cfg \<Rightarrow> transaction \<Rightarrow> string list" where
  "tx_validate cfg t =
     (if tx_gasLimit t < getBaseFee t then [''gasLimit is too low''] else []) @
     (if tx_isSigned t \<and> \<not> tx_verifySignature cfg t then [''Invalid Signature''] else [])"

section \<open>Decoding\<close>

definition rlp_buffer :: "rlp \<Rightarrow> exn + bytes" where
  "rlp_buffer x = (case x of Item b \<Rightarrow> Inr b | Items xs \<Rightarrow> Inl (JsError ''not a buffer''))"

fun rlp_buffers :: "rlp list \<Rightarrow> exn + bytes list" where
  "rlp_buffers [] = Inr []"
| "rlp_buffers (x # xs) =
     bindS (rlp_buffer x) (\<lambda>b. bindS (rlp_buffers xs) (\<lambda>bs. Inr (b # bs)))"

definition access_item :: "rlp \<Rightarrow> exn + bytes \<times> bytes list" where
  "access_item x =
     (case x of
        Items [Item a, Items ks] \<Rightarrow> bindS (rlp_buffers ks) (\<lambda>bs. Inr (a, bs))
      | Items (a # ks # _ # _) \<Rightarrow>
          Inl (JsError ''Access list item cannot have 3 elements. It can only have an address, and an array of storage slots.'')
      | _ \<Rightarrow> Inl (JsError ''not an access list item''))"

fun access_items :: "rlp list \<Rightarrow> exn + access_list" where
  "access_items [] = Inr []"
| "access_items (x # xs) =
     bindS (access_item x) (\<lambda>i. bindS (access_items xs) (\<lambda>l. Inr (i # l)))"

definition access_list_of :: "rlp \<Rightarrow> exn + access_list" where
  "access_list_of x = (case x of Items xs \<Rightarrow> access_items xs | Item b \<Rightarrow> Inl (JsError ''not an access list''))"

definition nth_value :: "bytes list \<Rightarrow> nat \<Rightarrow> bytes option" where
  "nth_value bs i = (if i < length bs then Some (bs ! i) else None)"

text \<open>An undefined value becomes the empty buffer.\<close>

definition val :: "bytes option \<Rightarrow> bytes" where
  "val v = (case v of Some b \<Rightarrow> b | None \<Rightarrow> [])"

definition legacy_fromValuesArray :: "tx_cfg \<Rightarrow> rlp list \<Rightarrow> common option \<Rightarrow> exn + transaction" where
  "legacy_fromValuesArray cfg values common =
     (if length values \<noteq> 6 \<and> length values \<noteq> 9
      then Inl (JsError ''Invalid transaction. Only expecting 6 values (for unsigned tx) or 9 values (for signed tx).'')
      else bindS (rlp_buffers values) (\<lambda>bs.
        let f = nth_value bs
        in bindS (validateNoLeadingZeroes [(''nonce'', f 0), (''gasPrice'', f 1), (''gasLimit'', f 2),
                   (''value'', f 4), (''v'', f 6), (''r'', f 7), (''s'', f 8)]) (\<lambda>_.
           new_legacy cfg (no_data\<lparr>td_nonce := val (f 0), td_gasPrice := val (f 1),
             td_gasLimit := val (f 2), td_to := val (f 3), td_value := val (f 4),
             td_data := val (f 5), td_v := val (f 6), td_r := val (f 7), td_s := val (f 8)\<rparr>) common)))"

text \<open>
  The values of a typed transaction: \<open>n\<close> buffers, the access list, and no or three buffers of a
  signature. \<open>v\<close> is passed on as a \<open>BN\<close>, so an empty \<open>v\<close> is the number 0.
\<close>

definition typed_values :: "nat \<Rightarrow> rlp list \<Rightarrow> exn + bytes list \<times> access_list \<times> bytes list" where
  "typed_values n values =
     bindS (rlp_buffers (take n values)) (\<lambda>bs.
     bindS (access_list_of (values ! n)) (\<lambda>l.
     bindS (rlp_buffers (drop (Suc n) values)) (\<lambda>sig. Inr (bs, l, sig))))"

definition v_buffer :: "bytes option \<Rightarrow> bytes" where
  "v_buffer v = (case v of Some b \<Rightarrow> toArrayLike_min (bn_of_bytes b) | None \<Rightarrow> [])"

definition eip2930_fromValuesArray :: "tx_cfg \<Rightarrow> rlp list \<Rightarrow> common option \<Rightarrow> exn + transaction" where
  "eip2930_fromValuesArray cfg values common =
     (if length values \<noteq> 8 \<and> length values \<noteq> 11
      then Inl (JsError ''Invalid EIP-2930 transaction. Only expecting 8 values (for unsigned tx) or 11 values (for signed tx).'')
      else bindS (typed_values 7 values) (\<lambda>(bs, l, sig).
        let f = nth_value bs; g = nth_value sig
        in bindS (validateNoLeadingZeroes [(''nonce'', f 1), (''gasPrice'', f 2), (''gasLimit'', f 3),
                   (''value'', f 5), (''v'', g 0), (''r'', g 1), (''s'', g 2)]) (\<lambda>_.
           new_eip2930 cfg (no_data\<lparr>td_chainId := Some (bn_of_bytes (val (f 0))), td_nonce := val (f 1),
             td_gasPrice := val (f 2), td_gasLimit := val (f 3), td_to := val (f 4),
             td_value := val (f 5), td_data := val (f 6), td_accessList := l,
             td_v := v_buffer (g 0), td_r := val (g 1), td_s := val (g 2)\<rparr>) common)))"

definition eip1559_fromValuesArray :: "tx_cfg \<Rightarrow> rlp list \<Rightarrow> common option \<Rightarrow> exn + transaction" where
  "eip1559_fromValuesArray cfg values common =
     (if length values \<noteq> 9 \<and> length values \<noteq> 12
      then Inl (JsError ''Invalid EIP-1559 transaction. Only expecting 9 values (for unsigned tx) or 12 values (for signed tx).'')
      else bindS (typed_values 8 values) (\<lambda>(bs, l, sig).
        let f = nth_value bs; g = nth_value sig
        in bindS (validateNoLeadingZeroes [(''nonce'', f 1), (''maxPriorityFeePerGas'', f 2),
                   (''maxFeePerGas'', f 3), (''gasLimit'', f 4), (''value'', f 6),
                   (''v'', g 0), (''r'', g 1), (''s'', g 2)]) (\<lambda>_.
           new_eip1559 cfg (no_data\<lparr>td_chainId := Some (bn_of_bytes (val (f 0))), td_nonce := val (f 1),
             td_maxPriorityFeePerGas := val (f 2), td_maxFeePerGas := val (f 3),
             td_gasLimit := val (f 4), td_to := val (f 5), td_value := val (f 6),
             td_data := val (f 7), td_accessList := l,
             td_v := v_buffer (g 0), td_r := val (g 1), td_s := val (g 2)\<rparr>) common)))"

definition legacy_fromSerializedTx :: "tx_cfg \<Rightarrow> bytes \<Rightarrow> common option \<Rightarrow> exn + transaction" where
  "legacy_fromSerializedTx cfg serialized common =
     bindS (txc_decode cfg serialized) (\<lambda>values. case values of
       Items vs \<Rightarrow> legacy_fromValuesArray cfg vs common
     | Item b \<Rightarrow> Inl (JsError ''Invalid serialized tx input. Must be array''))"

definition eip2930_fromSerializedTx :: "tx_cfg \<Rightarrow> bytes \<Rightarrow> common option \<Rightarrow> exn + transaction" where
  "eip2930_fromSerializedTx cfg serialized common =
     (if take 1 serialized \<noteq> [1]
      then Inl (JsError ''Invalid serialized tx input: not an EIP-2930 transaction'')
      else bindS (txc_decode cfg (drop 1 serialized)) (\<lambda>values. case values of
        Items vs \<Rightarrow> eip2930_fromValuesArray cfg vs common
      | Item b \<Rightarrow> Inl (JsError ''Invalid serialized tx input: must be array'')))"

definition eip1559_fromSerializedTx :: "tx_cfg \<Rightarrow> bytes \<Rightarrow> common option \<Rightarrow> exn + transaction" where
  "eip1559_fromSerializedTx cfg serialized common =
     (if take 1 serialized \<noteq> [2]
      then Inl (JsError ''Invalid serialized tx input: not an EIP-1559 transaction'')
      else bindS (txc_decode cfg (drop 1 serialized)) (\<lambda>values. case values of
        Items vs \<Rightarrow> eip1559_fromValuesArray cfg vs common
      | Item b \<Rightarrow> Inl (JsError ''Invalid serialized tx input: must be array'')))"

section \<open>The factory\<close>

text \<open>\<open>packages/tx/src/transactionFactory.ts\<close>; an undefined type is a legacy transaction.\<close>

definition factory_fromTxData ::
  "tx_cfg \<Rightarrow> int option \<Rightarrow> tx_input \<Rightarrow> common option \<Rightarrow> exn + transaction" where
  "factory_fromTxData cfg type td common =
     (case type of
        None \<Rightarrow> new_legacy cfg td common
      | Some n \<Rightarrow>
          if n = 0 then new_legacy cfg td common
          else if n = 1 then new_eip2930 cfg td common
          else if n = 2 then new_eip1559 cfg td common
          else Inl (JsError ''Tx instantiation with type not supported''))"

definition fromSerializedData :: "tx_cfg \<Rightarrow> bytes \<Rightarrow> common option \<Rightarrow> exn + transaction" where
  "fromSerializedData cfg data common =
     (if 0 < length data \<and> data ! 0 \<le> 0x7f
      then if data ! 0 = 1 then eip2930_fromSerializedTx cfg data common
           else if data ! 0 = 2 then eip1559_fromSerializedTx cfg data common
           else Inl (JsError ''TypedTransaction with ID unknown'')
      else legacy_fromSerializedTx cfg data common)"

definition fromBlockBodyData :: "tx_cfg \<Rightarrow> rlp \<Rightarrow> common option \<Rightarrow> exn + transaction" where
  "fromBlockBodyData cfg data common =
     (case data of
        Item b \<Rightarrow> fromSerializedData cfg b common
      | Items vs \<Rightarrow> legacy_fromValuesArray cfg vs common)"

section \<open>Signing\<close>

text \<open>\<open>_processSignature\<close>: the data of the transaction with the signature, as \<open>BN\<close>s.\<close>

definition signed_data :: "transaction \<Rightarrow> int \<Rightarrow> bytes \<Rightarrow> bytes \<Rightarrow> tx_input" where
  "signed_data t v r s = no_data\<lparr>td_nonce := toArrayLike_min (tx_nonce t),
     td_gasLimit := toArrayLike_min (tx_gasLimit t),
     td_to := (case tx_to t of Some a \<Rightarrow> a | None \<Rightarrow> []),
     td_value := toArrayLike_min (tx_value t), td_data := tx_data t,
     td_v := toArrayLike_min v, td_r := toArrayLike_min (bn_of_bytes r),
     td_s := toArrayLike_min (bn_of_bytes s)\<rparr>"

definition legacy_processSignature ::
  "tx_cfg \<Rightarrow> transaction \<Rightarrow> int \<Rightarrow> int \<Rightarrow> bytes \<Rightarrow> bytes \<Rightarrow> exn + transaction" where
  "legacy_processSignature cfg t g v r s =
     (let vBN = (if tx_supports t 155 then v + (chainIdBN (tx_common t) * 2 + 8) else v)
      in new_legacy cfg ((signed_data t vBN r s)\<lparr>td_gasPrice := toArrayLike_min g\<rparr>)
           (Some (tx_common t)))"

definition eip2930_processSignature ::
  "tx_cfg \<Rightarrow> transaction \<Rightarrow> int \<Rightarrow> int \<Rightarrow> access_list \<Rightarrow> int \<Rightarrow> bytes \<Rightarrow> bytes \<Rightarrow> exn + transaction" where
  "eip2930_processSignature cfg t c g l v r s =
     new_eip2930 cfg ((signed_data t (v - 27) r s)\<lparr>td_chainId := Some c,
       td_gasPrice := toArrayLike_min g, td_accessList := l\<rparr>) (Some (tx_common t))"

definition eip1559_processSignature ::
  "tx_cfg \<Rightarrow> transaction \<Rightarrow> int \<Rightarrow> int \<Rightarrow> int \<Rightarrow> access_list \<Rightarrow> int \<Rightarrow> bytes \<Rightarrow> bytes \<Rightarrow> exn + transaction" where
  "eip1559_processSignature cfg t c p f l v r s =
     new_eip1559 cfg ((signed_data t (v - 27) r s)\<lparr>td_chainId := Some c,
       td_maxPriorityFeePerGas := toArrayLike_min p, td_maxFeePerGas := toArrayLike_min f,
       td_accessList := l\<rparr>) (Some (tx_common t))"

definition processSignature ::
  "tx_cfg \<Rightarrow> transaction \<Rightarrow> int \<Rightarrow> bytes \<Rightarrow> bytes \<Rightarrow> exn + transaction" where
  "processSignature cfg t v r s =
     (case tx_payload t of
        Legacy g \<Rightarrow> legacy_processSignature cfg t g v r s
      | AccessListEIP2930 c g l \<Rightarrow> eip2930_processSignature cfg t c g l v r s
      | FeeMarketEIP1559 c p f l \<Rightarrow> eip1559_processSignature cfg t c p f l v r s)"

lemmas processSignature_defs = processSignature_def legacy_processSignature_def
  eip2930_processSignature_def eip1559_processSignature_def

text \<open>
  \<open>sign\<close> changes the object it is called on: a legacy transaction that has a signature without the
  chain id gets the capability of EIP-155 while it is signed. The second part of the result is the
  object afterwards: an exception on the way leaves the capability with it.
\<close>

definition tx_sign :: "tx_cfg \<Rightarrow> bytes \<Rightarrow> (transaction, transaction) eff" where
  "tx_sign cfg privateKey t =
     (if length privateKey \<noteq> 32
      then (Inl (JsError ''Private key must be 32 bytes in length.''), t)
      else
        (let hackApplied = (tx_type t = 0 \<and> gteHardfork (tx_common t) ''spuriousDragon'' \<and>
                             \<not> tx_supports t 155);
             u = (if hackApplied then t\<lparr>tx_capabilities := tx_capabilities t @ [155]\<rparr> else t)
         in case bindS (ecsign (txc_sign cfg) (getMessageToSign cfg u) privateKey) (\<lambda>sig.
                   processSignature cfg u (sig_v sig) (sig_r sig) (sig_s sig)) of
              Inl e \<Rightarrow> (Inl e, u)
            | Inr tx \<Rightarrow> (Inr tx, if hackApplied then u\<lparr>tx_capabilities := remove1 155 (tx_capabilities u)\<rparr> else u)))"

end
