(* ===== verification/Op_Gas.thy ===== *)
theory Op_Gas
  imports Op_Util
begin

text \<open>
  \<open>vm/src/evm/opcodes/gas.ts\<close>: the dynamic part of the price of the opcodes that have one. A handler
  takes the gas counted so far (the base fee), which the source changes in place, and returns it
  changed; it reads its operands with \<open>peek\<close>, counts memory growth, warms addresses and slots, and
  leaves the gas limit of the message that the opcode will send in \<open>messageGasLimit\<close>.
\<close>

type_synonym gas_handler = "int \<Rightarrow> (run_state, int) eff"

definition peeks :: "nat \<Rightarrow> (run_state, int list) eff" where
  "peeks n = on_stack (stack_peek n)"

definition gasLeft_of :: "run_state \<Rightarrow> int" where
  "gasLeft_of rs = ei_gasLeft (rs_eei rs)"

definition static_guard :: "(run_state, unit) eff" where
  "static_guard = bnd (gets (\<lambda>rs. eei_isStatic (rs_eei rs))) (\<lambda>st.
     when_eff st (trap STATIC_STATE_CHANGE))"

definition copyCost :: "vm \<Rightarrow> int \<Rightarrow> int" where
  "copyCost vm dataLength =
     (if dataLength \<noteq> 0 then gasPrice vm ''copy'' * divCeil dataLength 32 else 0)"

definition coldAccess :: "vm \<Rightarrow> int \<Rightarrow> (run_state, int) eff" where
  "coldAccess vm addressBN =
     (if vm_isActivatedEIP vm 2929 then accessAddressEIP2929 vm (addressToBuffer addressBN) True False
      else ret 0)"

definition set_messageGasLimit :: "int option \<Rightarrow> (run_state, unit) eff" where
  "set_messageGasLimit g = modif (\<lambda>rs. rs\<lparr>messageGasLimit := g\<rparr>)"

section \<open>Hashing, copying, memory\<close>

definition gas_SHA3 :: "vm \<Rightarrow> gas_handler" where
  "gas_SHA3 vm gas = bnd (peeks 2) (\<lambda>vs. bnd (subMemUsage vm (vs ! 0) (vs ! 1)) (\<lambda>m.
     ret (gas + m + gasPrice vm ''sha3Word'' * divCeil (vs ! 1) 32)))"

text \<open>BALANCE, EXTCODESIZE and EXTCODEHASH have the same handler.\<close>

definition gas_BALANCE :: "vm \<Rightarrow> gas_handler" where
  "gas_BALANCE vm gas =
     (if vm_isActivatedEIP vm 2929
      then bnd (peeks 1) (\<lambda>vs. bnd (coldAccess vm (vs ! 0)) (\<lambda>c. ret (gas + c)))
      else ret gas)"

definition gas_EXTCODESIZE :: "vm \<Rightarrow> gas_handler" where
  "gas_EXTCODESIZE vm gas =
     (if vm_isActivatedEIP vm 2929
      then bnd (peeks 1) (\<lambda>vs. bnd (coldAccess vm (vs ! 0)) (\<lambda>c. ret (gas + c)))
      else ret gas)"

definition gas_EXTCODEHASH :: "vm \<Rightarrow> gas_handler" where
  "gas_EXTCODEHASH vm gas =
     (if vm_isActivatedEIP vm 2929
      then bnd (peeks 1) (\<lambda>vs. bnd (coldAccess vm (vs ! 0)) (\<lambda>c. ret (gas + c)))
      else ret gas)"

definition gas_CALLDATACOPY :: "vm \<Rightarrow> gas_handler" where
  "gas_CALLDATACOPY vm gas = bnd (peeks 3) (\<lambda>vs. bnd (subMemUsage vm (vs ! 0) (vs ! 2)) (\<lambda>m.
     ret (gas + m + copyCost vm (vs ! 2))))"

definition gas_CODECOPY :: "vm \<Rightarrow> gas_handler" where
  "gas_CODECOPY vm gas = bnd (peeks 3) (\<lambda>vs. bnd (subMemUsage vm (vs ! 0) (vs ! 2)) (\<lambda>m.
     ret (gas + m + copyCost vm (vs ! 2))))"

definition gas_EXTCODECOPY :: "vm \<Rightarrow> gas_handler" where
  "gas_EXTCODECOPY vm gas = bnd (peeks 4) (\<lambda>vs. bnd (subMemUsage vm (vs ! 1) (vs ! 3)) (\<lambda>m.
     bnd (coldAccess vm (vs ! 0)) (\<lambda>c. ret (gas + m + c + copyCost vm (vs ! 3)))))"

definition gas_RETURNDATACOPY :: "vm \<Rightarrow> gas_handler" where
  "gas_RETURNDATACOPY vm gas = bnd (peeks 3) (\<lambda>vs.
     bnd (gets (\<lambda>rs. getReturnDataSize (rs_eei rs))) (\<lambda>size.
       if vs ! 1 + vs ! 2 > size then trap OUT_OF_GAS
       else bnd (subMemUsage vm (vs ! 0) (vs ! 2)) (\<lambda>m. ret (gas + m + copyCost vm (vs ! 2)))))"

definition gas_MLOAD :: "vm \<Rightarrow> gas_handler" where
  "gas_MLOAD vm gas = bnd (peeks 1) (\<lambda>vs. bnd (subMemUsage vm (vs ! 0) 32) (\<lambda>m. ret (gas + m)))"

definition gas_MSTORE :: "vm \<Rightarrow> gas_handler" where
  "gas_MSTORE vm gas = bnd (peeks 1) (\<lambda>vs. bnd (subMemUsage vm (vs ! 0) 32) (\<lambda>m. ret (gas + m)))"

definition gas_MSTORE8 :: "vm \<Rightarrow> gas_handler" where
  "gas_MSTORE8 vm gas = bnd (peeks 1) (\<lambda>vs. bnd (subMemUsage vm (vs ! 0) 1) (\<lambda>m. ret (gas + m)))"

definition gas_RETURN :: "vm \<Rightarrow> gas_handler" where
  "gas_RETURN vm gas = bnd (peeks 2) (\<lambda>vs. bnd (subMemUsage vm (vs ! 0) (vs ! 1)) (\<lambda>m. ret (gas + m)))"

definition gas_REVERT :: "vm \<Rightarrow> gas_handler" where
  "gas_REVERT vm gas = bnd (peeks 2) (\<lambda>vs. bnd (subMemUsage vm (vs ! 0) (vs ! 1)) (\<lambda>m. ret (gas + m)))"

definition gas_LOG :: "vm \<Rightarrow> gas_handler" where
  "gas_LOG vm gas = andthen static_guard (bnd (peeks 2) (\<lambda>vs.
     bnd (gets (\<lambda>rs. int (opCode rs) - 0xa0)) (\<lambda>topicsCount.
       if topicsCount < 0 \<or> topicsCount > 4 then trap OUT_OF_RANGE
       else bnd (subMemUsage vm (vs ! 0) (vs ! 1)) (\<lambda>m.
         ret (gas + m + (gasPrice vm ''logTopic'' * topicsCount + vs ! 1 * gasPrice vm ''logData''))))))"

section \<open>Storage\<close>

definition gas_SLOAD :: "vm \<Rightarrow> gas_handler" where
  "gas_SLOAD vm gas = bnd (peeks 1) (\<lambda>vs. bnd (of_sum (toArrayLike (vs ! 0) 32)) (\<lambda>keyBuf.
     if vm_isActivatedEIP vm 2929
     then bnd (accessStorageEIP2929 vm keyBuf False) (\<lambda>c. ret (gas + c)) else ret gas))"

text \<open>The shortest form of a word: empty for zero, else \<open>toArrayLike(Buffer, 'be')\<close>.\<close>

definition word_buffer :: "int \<Rightarrow> bytes" where
  "word_buffer val = (if val = 0 then [] else toArrayLike_min val)"

definition gas_SSTORE :: "vm \<Rightarrow> gas_handler" where
  "gas_SSTORE vm gas = andthen static_guard (bnd (peeks 2) (\<lambda>vs.
     bnd (of_sum (toArrayLike (vs ! 0) 32)) (\<lambda>keyBuf.
       let value = word_buffer (vs ! 1)
       in bnd (on_eei (storageLoad keyBuf False)) (\<lambda>cur.
          bnd (on_eei (storageLoad keyBuf True)) (\<lambda>orig.
            let currentStorage = setLengthLeftStorage cur; originalStorage = setLengthLeftStorage orig
            in bnd (if vm_hardfork vm = ''constantinople''
                    then updateSstoreGasEIP1283 vm currentStorage originalStorage (setLengthLeftStorage value)
                    else if vm_gteHardfork vm ''istanbul''
                    then updateSstoreGasEIP2200 vm currentStorage originalStorage
                      (setLengthLeftStorage value) keyBuf
                    else updateSstoreGas vm currentStorage (setLengthLeftStorage value)) (\<lambda>c1.
                if vm_isActivatedEIP vm 2929
                then bnd (accessStorageEIP2929 vm keyBuf True) (\<lambda>c2. ret (gas + c1 + c2))
                else ret (gas + c1)))))))"

section \<open>Creations and calls\<close>

definition initCodeCost :: "vm \<Rightarrow> int \<Rightarrow> int" where
  "initCodeCost vm len =
     (if vm_isActivatedEIP vm 3860
      then gasPrice vm ''initCodeWordCost'' * bn_div (len + 31) 32 else 0)"

definition create_limit :: "vm \<Rightarrow> gas_handler" where
  "create_limit vm gas = bnd (gets (\<lambda>rs. gasLeft_of rs - gas)) (\<lambda>left.
     andthen (set_messageGasLimit (Some (maxCallGas vm left left))) (ret gas))"

definition warm_self :: "vm \<Rightarrow> (run_state, int) eff" where
  "warm_self vm =
     (if vm_isActivatedEIP vm 2929
      then bnd (gets (\<lambda>rs. getAddress (rs_eei rs))) (\<lambda>a. accessAddressEIP2929 vm a False False)
      else ret 0)"

definition gas_CREATE :: "vm \<Rightarrow> gas_handler" where
  "gas_CREATE vm gas = andthen static_guard (bnd (peeks 3) (\<lambda>vs.
     bnd (warm_self vm) (\<lambda>c. bnd (subMemUsage vm (vs ! 1) (vs ! 2)) (\<lambda>m.
       create_limit vm (gas + c + m + initCodeCost vm (vs ! 2))))))"

definition gas_CREATE2 :: "vm \<Rightarrow> gas_handler" where
  "gas_CREATE2 vm gas = andthen static_guard (bnd (peeks 4) (\<lambda>vs.
     bnd (subMemUsage vm (vs ! 1) (vs ! 2)) (\<lambda>m. bnd (warm_self vm) (\<lambda>c.
       create_limit vm (gas + m + c + gasPrice vm ''sha3Word'' * divCeil (vs ! 2) 32 +
         initCodeCost vm (vs ! 2))))))"

text \<open>
  The last part of the handlers of the calls: the gas that goes with the message, the check that it
  is there, and the stipend of a call with value.
\<close>

definition add_stipend :: "vm \<Rightarrow> int \<Rightarrow> int \<Rightarrow> (run_state, int) eff" where
  "add_stipend vm val gasLimit =
     (if val \<noteq> 0
      then andthen (on_eei (addStipend (gasPrice vm ''callStipend'')))
        (ret (gasLimit + gasPrice vm ''callStipend''))
      else ret gasLimit)"

definition gas_CALL :: "vm \<Rightarrow> gas_handler" where
  "gas_CALL vm gas0 = bnd (peeks 7) (\<lambda>vs.
     let currentGasLimit = vs ! 0; toAddress = addressToBuffer (vs ! 1); val = vs ! 2
     in bnd (gets (\<lambda>rs. eei_isStatic (rs_eei rs))) (\<lambda>st.
        if st \<and> val \<noteq> 0 then trap STATIC_STATE_CHANGE
        else bnd (subMemUsage vm (vs ! 3) (vs ! 4)) (\<lambda>m1.
          bnd (subMemUsage vm (vs ! 5) (vs ! 6)) (\<lambda>m2.
          bnd (coldAccess vm (vs ! 1)) (\<lambda>c.
          bnd (if vm_gteHardfork vm ''spuriousDragon''
               then bnd (on_eei (isAccountEmpty toAddress)) (\<lambda>empty. ret (empty \<and> val \<noteq> 0))
               else bnd (on_eei (accountExists toAddress)) (\<lambda>exists. ret (\<not> exists))) (\<lambda>new.
            let gas = gas0 + m1 + m2 + c + (if val \<noteq> 0 then gasPrice vm ''callValueTransfer'' else 0) +
                  (if new then gasPrice vm ''callNewAccount'' else 0)
            in bnd (gets gasLeft_of) (\<lambda>left.
               let gasLimit = maxCallGas vm currentGasLimit (left - gas)
               in if gasLimit > left - gas then trap OUT_OF_GAS
                  else if gas > left then trap OUT_OF_GAS
                  else bnd (add_stipend vm val gasLimit) (\<lambda>gl.
                    andthen (set_messageGasLimit (Some gl)) (ret gas)))))))))"

definition gas_CALLCODE :: "vm \<Rightarrow> gas_handler" where
  "gas_CALLCODE vm gas0 = bnd (peeks 7) (\<lambda>vs.
     let currentGasLimit = vs ! 0; val = vs ! 2
     in bnd (subMemUsage vm (vs ! 3) (vs ! 4)) (\<lambda>m1.
        bnd (subMemUsage vm (vs ! 5) (vs ! 6)) (\<lambda>m2.
        bnd (coldAccess vm (vs ! 1)) (\<lambda>c.
          let gas = gas0 + m1 + m2 + c + (if val \<noteq> 0 then gasPrice vm ''callValueTransfer'' else 0)
          in bnd (gets gasLeft_of) (\<lambda>left.
             let gasLimit = maxCallGas vm currentGasLimit (left - gas)
             in if gasLimit > left - gas then trap OUT_OF_GAS
                else bnd (add_stipend vm val gasLimit) (\<lambda>gl.
                  andthen (set_messageGasLimit (Some gl)) (ret gas)))))))"

definition gas_DELEGATECALL :: "vm \<Rightarrow> gas_handler" where
  "gas_DELEGATECALL vm gas0 = bnd (peeks 6) (\<lambda>vs.
     let currentGasLimit = vs ! 0
     in bnd (subMemUsage vm (vs ! 2) (vs ! 3)) (\<lambda>m1.
        bnd (subMemUsage vm (vs ! 4) (vs ! 5)) (\<lambda>m2.
        bnd (coldAccess vm (vs ! 1)) (\<lambda>c.
          let gas = gas0 + m1 + m2 + c
          in bnd (gets gasLeft_of) (\<lambda>left.
             let gasLimit = maxCallGas vm currentGasLimit (left - gas)
             in if gasLimit > left - gas then trap OUT_OF_GAS
                else andthen (set_messageGasLimit (Some gasLimit)) (ret gas))))))"

definition gas_STATICCALL :: "vm \<Rightarrow> gas_handler" where
  "gas_STATICCALL vm gas0 = bnd (peeks 6) (\<lambda>vs.
     let currentGasLimit = vs ! 0
     in bnd (subMemUsage vm (vs ! 2) (vs ! 3)) (\<lambda>m1.
        bnd (subMemUsage vm (vs ! 4) (vs ! 5)) (\<lambda>m2.
        bnd (coldAccess vm (vs ! 1)) (\<lambda>c.
          let gas = gas0 + m1 + m2 + c
          in bnd (gets gasLeft_of) (\<lambda>left.
             andthen (set_messageGasLimit (Some (maxCallGas vm currentGasLimit (left - gas)))) (ret gas))))))"

definition gas_SELFDESTRUCT :: "vm \<Rightarrow> gas_handler" where
  "gas_SELFDESTRUCT vm gas = andthen static_guard (bnd (peeks 1) (\<lambda>vs.
     let selfdestructToAddress = addressToBuffer (vs ! 0)
     in bnd (if vm_gteHardfork vm ''spuriousDragon''
             then bnd (gets (\<lambda>rs. getAddress (rs_eei rs))) (\<lambda>self.
                  bnd (on_eei (getExternalBalance self)) (\<lambda>balance.
                    if balance > 0 then on_eei (isAccountEmpty selfdestructToAddress) else ret False))
             else if vm_gteHardfork vm ''tangerineWhistle''
             then bnd (on_eei (accountExists selfdestructToAddress)) (\<lambda>exists. ret (\<not> exists))
             else ret False) (\<lambda>deductGas.
        let gas1 = gas + (if deductGas then gasPrice vm ''callNewAccount'' else 0)
        in if vm_isActivatedEIP vm 2929
           then bnd (accessAddressEIP2929 vm selfdestructToAddress True True) (\<lambda>c. ret (gas1 + c))
           else ret gas1)))"

section \<open>The table\<close>

definition dynamicGasHandlers :: "vm \<Rightarrow> nat \<Rightarrow> gas_handler option" where
  "dynamicGasHandlers vm op =
     (if 0xa0 \<le> op \<and> op \<le> 0xa4 then Some (gas_LOG vm)
      else map_of [
        (0x20, gas_SHA3 vm), (0x31, gas_BALANCE vm), (0x37, gas_CALLDATACOPY vm),
        (0x39, gas_CODECOPY vm), (0x3b, gas_EXTCODESIZE vm), (0x3c, gas_EXTCODECOPY vm),
        (0x3e, gas_RETURNDATACOPY vm), (0x3f, gas_EXTCODEHASH vm), (0x51, gas_MLOAD vm),
        (0x52, gas_MSTORE vm), (0x53, gas_MSTORE8 vm), (0x54, gas_SLOAD vm), (0x55, gas_SSTORE vm),
        (0xf0, gas_CREATE vm), (0xf1, gas_CALL vm), (0xf2, gas_CALLCODE vm), (0xf3, gas_RETURN vm),
        (0xf4, gas_DELEGATECALL vm), (0xf5, gas_CREATE2 vm), (0xfa, gas_STATICCALL vm),
        (0xfd, gas_REVERT vm), (0xff, gas_SELFDESTRUCT vm)] op)"

end
