(* ===== verification/Op_Alu.thy ===== *)
theory Op_Alu
  imports Op_Gas "HOL-Library.Signed_Division"
begin

unbundle bit_operations_syntax

text \<open>
  \<open>vm/src/evm/opcodes/functions.ts\<close>, the opcodes 0x00 to 0x1d: the arithmetic and bit operations.
  The value that an opcode pushes is a function \<open>alu_*\<close> of its operands, as the source computes it
  with \<open>BN\<close>s; the lemmas say that on words it is the operation of 256-bit machine words. \<open>EXP\<close>
  has two more effects, the price of its exponent and the trap for an exponent out of range.
\<close>

definition push :: "int \<Rightarrow> (run_state, unit) eff" where
  "push v = on_stack (stack_push v)"

definition pops :: "nat \<Rightarrow> (run_state, int list) eff" where
  "pops n = on_stack (stack_popN n)"

definition pop :: "(run_state, int) eff" where
  "pop = on_stack stack_pop"

definition unop :: "(int \<Rightarrow> int) \<Rightarrow> (run_state, unit) eff" where
  "unop f = bnd pop (\<lambda>a. push (f a))"

definition binop :: "(int \<Rightarrow> int \<Rightarrow> int) \<Rightarrow> (run_state, unit) eff" where
  "binop f = bnd (pops 2) (\<lambda>vs. push (f (vs ! 0) (vs ! 1)))"

definition ternop :: "(int \<Rightarrow> int \<Rightarrow> int \<Rightarrow> int) \<Rightarrow> (run_state, unit) eff" where
  "ternop f = bnd (pops 3) (\<lambda>vs. push (f (vs ! 0) (vs ! 1) (vs ! 2)))"

section \<open>The functions\<close>

definition alu_add :: "int \<Rightarrow> int \<Rightarrow> int" where
  "alu_add a b = bn_mod (a + b) TWO_POW256"

definition alu_mul :: "int \<Rightarrow> int \<Rightarrow> int" where
  "alu_mul a b = bn_mod (a * b) TWO_POW256"

definition alu_sub :: "int \<Rightarrow> int \<Rightarrow> int" where
  "alu_sub a b = toTwos 256 (a - b)"

definition alu_div :: "int \<Rightarrow> int \<Rightarrow> int" where
  "alu_div a b = (if b = 0 then b else bn_div a b)"

definition alu_sdiv :: "int \<Rightarrow> int \<Rightarrow> int" where
  "alu_sdiv a b = (if b = 0 then b
     else (let a1 = fromTwos 256 a; b1 = fromTwos 256 b in toTwos 256 (bn_div a1 b1)))"

definition alu_mod :: "int \<Rightarrow> int \<Rightarrow> int" where
  "alu_mod a b = (if b = 0 then b else bn_mod a b)"

definition alu_smod :: "int \<Rightarrow> int \<Rightarrow> int" where
  "alu_smod a b = (if b = 0 then b
     else (let a1 = fromTwos 256 a; b1 = fromTwos 256 b;
               r = bn_mod \<bar>a1\<bar> \<bar>b1\<bar>;
               r1 = (if a1 < 0 then - r else r)
           in toTwos 256 r1))"

definition alu_addmod :: "int \<Rightarrow> int \<Rightarrow> int \<Rightarrow> int" where
  "alu_addmod a b c = (if c = 0 then c else bn_mod (a + b) c)"

definition alu_mulmod :: "int \<Rightarrow> int \<Rightarrow> int \<Rightarrow> int" where
  "alu_mulmod a b c = (if c = 0 then c else bn_mod (a * b) c)"

text \<open>
  \<open>redPow\<close> of \<open>bn.js\<close> raises a residue to a power; square and multiply, from the low bit of the
  exponent.
\<close>

fun pow_mod :: "int \<Rightarrow> nat \<Rightarrow> int \<Rightarrow> int" where
  "pow_mod b n m =
     (if n = 0 then 1 mod m
      else (let h = pow_mod (b * b mod m) (n div 2) m in if odd n then b * h mod m else h))"

declare pow_mod.simps [simp del]

definition alu_exp :: "int \<Rightarrow> int \<Rightarrow> int" where
  "alu_exp b e = (if b = 0 then 0 else pow_mod (b mod TWO_POW256) (nat e) TWO_POW256)"

definition alu_signextend :: "int \<Rightarrow> int \<Rightarrow> int" where
  "alu_signextend k val =
     (if k < 31
      then (let signBit = nat (k * 8 + 7); mask = 2 ^ signBit - 1
            in if bit val signBit then val OR (2 ^ 256 - 1 - mask) else val AND mask)
      else val)"

definition alu_lt :: "int \<Rightarrow> int \<Rightarrow> int" where
  "alu_lt a b = (if a < b then 1 else 0)"

definition alu_gt :: "int \<Rightarrow> int \<Rightarrow> int" where
  "alu_gt a b = (if a > b then 1 else 0)"

definition alu_slt :: "int \<Rightarrow> int \<Rightarrow> int" where
  "alu_slt a b = (if fromTwos 256 a < fromTwos 256 b then 1 else 0)"

definition alu_sgt :: "int \<Rightarrow> int \<Rightarrow> int" where
  "alu_sgt a b = (if fromTwos 256 a > fromTwos 256 b then 1 else 0)"

definition alu_eq :: "int \<Rightarrow> int \<Rightarrow> int" where
  "alu_eq a b = (if a = b then 1 else 0)"

definition alu_iszero :: "int \<Rightarrow> int" where
  "alu_iszero a = (if a = 0 then 1 else 0)"

definition alu_and :: "int \<Rightarrow> int \<Rightarrow> int" where
  "alu_and a b = (a AND b)"

definition alu_or :: "int \<Rightarrow> int \<Rightarrow> int" where
  "alu_or a b = (a OR b)"

definition alu_xor :: "int \<Rightarrow> int \<Rightarrow> int" where
  "alu_xor a b = (a XOR b)"

text \<open>\<open>notn(256)\<close> flips the low 256 bits.\<close>

definition alu_not :: "int \<Rightarrow> int" where
  "alu_not a = a XOR (2 ^ 256 - 1)"

definition alu_byte :: "int \<Rightarrow> int \<Rightarrow> int" where
  "alu_byte pos word =
     (if pos \<ge> 32 then 0 else drop_bit ((31 - nat pos) * 8) word AND 0xff)"

definition alu_shl :: "int \<Rightarrow> int \<Rightarrow> int" where
  "alu_shl a b = (if a \<ge> 256 then 0 else push_bit (nat a) b AND MAX_INTEGER)"

definition alu_shr :: "int \<Rightarrow> int \<Rightarrow> int" where
  "alu_shr a b = (if a \<ge> 256 then 0 else drop_bit (nat a) b)"

definition alu_sar :: "int \<Rightarrow> int \<Rightarrow> int" where
  "alu_sar a b =
     (let isSigned = bit b 255
      in if a \<ge> 256 then (if isSigned then MAX_INTEGER else 0)
         else (let c = drop_bit (nat a) b
               in if isSigned
                  then (let shiftedOutWidth = 255 - nat a;
                            mask = push_bit shiftedOutWidth (drop_bit shiftedOutWidth MAX_INTEGER)
                        in c OR mask)
                  else c))"

section \<open>The handlers\<close>

definition op_STOP :: "(run_state, unit) eff" where
  "op_STOP = trap STOP"

definition op_EXP :: "vm \<Rightarrow> (run_state, unit) eff" where
  "op_EXP vm = bnd (pops 2) (\<lambda>vs.
     let base = vs ! 0; exponent = vs ! 1
     in if exponent = 0 then push 1
        else if byteLength exponent < 1 \<or> byteLength exponent > 32 then trap OUT_OF_RANGE
        else andthen (on_eei (useGas (int (byteLength exponent) * gasPrice vm ''expByte'')))
          (push (alu_exp base exponent)))"

definition op_ADD :: "(run_state, unit) eff" where "op_ADD = binop alu_add"
definition op_MUL :: "(run_state, unit) eff" where "op_MUL = binop alu_mul"
definition op_SUB :: "(run_state, unit) eff" where "op_SUB = binop alu_sub"
definition op_DIV :: "(run_state, unit) eff" where "op_DIV = binop alu_div"
definition op_SDIV :: "(run_state, unit) eff" where "op_SDIV = binop alu_sdiv"
definition op_MOD :: "(run_state, unit) eff" where "op_MOD = binop alu_mod"
definition op_SMOD :: "(run_state, unit) eff" where "op_SMOD = binop alu_smod"
definition op_ADDMOD :: "(run_state, unit) eff" where "op_ADDMOD = ternop alu_addmod"
definition op_MULMOD :: "(run_state, unit) eff" where "op_MULMOD = ternop alu_mulmod"
definition op_SIGNEXTEND :: "(run_state, unit) eff" where "op_SIGNEXTEND = binop alu_signextend"
definition op_LT :: "(run_state, unit) eff" where "op_LT = binop alu_lt"
definition op_GT :: "(run_state, unit) eff" where "op_GT = binop alu_gt"
definition op_SLT :: "(run_state, unit) eff" where "op_SLT = binop alu_slt"
definition op_SGT :: "(run_state, unit) eff" where "op_SGT = binop alu_sgt"
definition op_EQ :: "(run_state, unit) eff" where "op_EQ = binop alu_eq"
definition op_ISZERO :: "(run_state, unit) eff" where "op_ISZERO = unop alu_iszero"
definition op_AND :: "(run_state, unit) eff" where "op_AND = binop alu_and"
definition op_OR :: "(run_state, unit) eff" where "op_OR = binop alu_or"
definition op_XOR :: "(run_state, unit) eff" where "op_XOR = binop alu_xor"
definition op_NOT :: "(run_state, unit) eff" where "op_NOT = unop alu_not"
definition op_BYTE :: "(run_state, unit) eff" where "op_BYTE = binop alu_byte"
definition op_SHL :: "(run_state, unit) eff" where "op_SHL = binop alu_shl"
definition op_SHR :: "(run_state, unit) eff" where "op_SHR = binop alu_shr"
definition op_SAR :: "(run_state, unit) eff" where "op_SAR = binop alu_sar"

end
