(* ===== verification/Op_Functions.thy ===== *)
theory Op_Functions
  imports Op_Alu
begin

text \<open>
  \<open>vm/src/evm/opcodes/functions.ts\<close>, the opcodes from 0x20: hashing, the environment, memory,
  storage, control flow, logs, calls and creations, and the table of all handlers. A conversion with
  \<open>toNumber\<close> or \<open>toArrayLike\<close> that does not fit is a JavaScript error, not a \<open>VmError\<close>.
\<close>

section \<open>Hashing and the environment\<close>

text \<open>The memory operand of SHA3, LOG, RETURN, REVERT and of the calls; an empty one is not read.\<close>

definition mem_operand :: "int \<Rightarrow> int \<Rightarrow> (run_state, bytes) eff" where
  "mem_operand offset len =
     (if len \<noteq> 0
      then bnd (of_sum (toNumber offset)) (\<lambda>o'. bnd (of_sum (toNumber len)) (\<lambda>n.
             on_memory (mem_read o' n)))
      else ret [])"

definition op_SHA3 :: "vm \<Rightarrow> (run_state, unit) eff" where
  "op_SHA3 vm = bnd (pops 2) (\<lambda>vs. bnd (mem_operand (vs ! 0) (vs ! 1)) (\<lambda>data.
     push (bn_of_bytes (vm_keccak256 vm data))))"

definition push_read :: "(eei \<Rightarrow> int) \<Rightarrow> (run_state, unit) eff" where
  "push_read f = bnd (gets (\<lambda>rs. f (rs_eei rs))) push"

definition op_ADDRESS :: "(run_state, unit) eff" where
  "op_ADDRESS = push_read (\<lambda>e. bn_of_bytes (getAddress e))"

definition op_BALANCE :: "(run_state, unit) eff" where
  "op_BALANCE = bnd pop (\<lambda>a. bnd (on_eei (getExternalBalance (addressToBuffer a))) push)"

definition op_ORIGIN :: "(run_state, unit) eff" where "op_ORIGIN = push_read getTxOrigin"
definition op_CALLER :: "(run_state, unit) eff" where "op_CALLER = push_read getCaller"
definition op_CALLVALUE :: "(run_state, unit) eff" where "op_CALLVALUE = push_read getCallValue"

definition op_CALLDATALOAD :: "(run_state, unit) eff" where
  "op_CALLDATALOAD = bnd pop (\<lambda>pos. bnd (gets rs_eei) (\<lambda>e.
     if pos > getCallDataSize e then push 0
     else bnd (of_sum (toNumber pos)) (\<lambda>i.
       let loaded = slice (getCallData e) i (i + 32);
           loaded1 = (if loaded \<noteq> [] then loaded else [0])
       in push (bn_of_bytes (setLengthRight loaded1 32)))))"

definition op_CALLDATASIZE :: "(run_state, unit) eff" where
  "op_CALLDATASIZE = push_read getCallDataSize"

text \<open>The body shared by the copying opcodes: slice the source, write the slice to memory.\<close>

definition copy_to_memory :: "bytes \<Rightarrow> int \<Rightarrow> int \<Rightarrow> int \<Rightarrow> (run_state, unit) eff" where
  "copy_to_memory source memOffset dataOffset dataLength =
     bnd (of_sum (getDataSlice source dataOffset dataLength)) (\<lambda>data.
     bnd (of_sum (toNumber memOffset)) (\<lambda>memOffsetNum.
     bnd (of_sum (toNumber dataLength)) (\<lambda>dataLengthNum.
       on_memory (mem_write memOffsetNum dataLengthNum data))))"

definition op_CALLDATACOPY :: "(run_state, unit) eff" where
  "op_CALLDATACOPY = bnd (pops 3) (\<lambda>vs.
     if vs ! 2 \<noteq> 0
     then bnd (gets (\<lambda>rs. getCallData (rs_eei rs))) (\<lambda>src. copy_to_memory src (vs ! 0) (vs ! 1) (vs ! 2))
     else ret ())"

definition op_CODESIZE :: "(run_state, unit) eff" where "op_CODESIZE = push_read getCodeSize"

definition op_CODECOPY :: "(run_state, unit) eff" where
  "op_CODECOPY = bnd (pops 3) (\<lambda>vs.
     if vs ! 2 \<noteq> 0
     then bnd (gets (\<lambda>rs. getCode (rs_eei rs))) (\<lambda>src. copy_to_memory src (vs ! 0) (vs ! 1) (vs ! 2))
     else ret ())"

definition op_EXTCODESIZE :: "(run_state, unit) eff" where
  "op_EXTCODESIZE = bnd pop (\<lambda>a. bnd (on_eei (getExternalCodeSize a)) push)"

definition op_EXTCODECOPY :: "(run_state, unit) eff" where
  "op_EXTCODECOPY = bnd (pops 4) (\<lambda>vs.
     if vs ! 3 \<noteq> 0
     then bnd (on_eei (getExternalCode (vs ! 0))) (\<lambda>code. copy_to_memory code (vs ! 1) (vs ! 2) (vs ! 3))
     else ret ())"

definition op_EXTCODEHASH :: "vm \<Rightarrow> (run_state, unit) eff" where
  "op_EXTCODEHASH vm = bnd pop (\<lambda>addressBN.
     bnd (on_eei (isAccountEmpty (addressToBuffer addressBN))) (\<lambda>empty.
       if empty then push 0
       else bnd (on_eei (getExternalCode addressBN)) (\<lambda>code.
         if length code = 0 then push (bn_of_bytes KECCAK256_NULL)
         else push (bn_of_bytes (vm_keccak256 vm code)))))"

definition op_RETURNDATASIZE :: "(run_state, unit) eff" where
  "op_RETURNDATASIZE = push_read getReturnDataSize"

definition op_RETURNDATACOPY :: "(run_state, unit) eff" where
  "op_RETURNDATACOPY = bnd (pops 3) (\<lambda>vs.
     if vs ! 2 \<noteq> 0
     then bnd (gets (\<lambda>rs. getReturnData (rs_eei rs))) (\<lambda>src. copy_to_memory src (vs ! 0) (vs ! 1) (vs ! 2))
     else ret ())"

definition op_GASPRICE :: "(run_state, unit) eff" where "op_GASPRICE = push_read getTxGasPrice"

definition op_BLOCKHASH :: "(run_state, unit) eff" where
  "op_BLOCKHASH = bnd pop (\<lambda>number. bnd (gets (\<lambda>rs. getBlockNumber (rs_eei rs) - number)) (\<lambda>diff.
     if diff > 256 \<or> diff \<le> 0 then push 0
     else bnd (on_eei (getBlockHash number)) push))"

definition op_COINBASE :: "vm \<Rightarrow> (run_state, unit) eff" where
  "op_COINBASE vm = push_read (getBlockCoinbase vm)"

definition op_TIMESTAMP :: "(run_state, unit) eff" where "op_TIMESTAMP = push_read getBlockTimestamp"
definition op_NUMBER :: "(run_state, unit) eff" where "op_NUMBER = push_read getBlockNumber"

definition op_DIFFICULTY :: "vm \<Rightarrow> (run_state, unit) eff" where
  "op_DIFFICULTY vm =
     (if vm_isActivatedEIP vm 4399 then push_read getBlockPrevRandao else push_read getBlockDifficulty)"

definition op_GASLIMIT :: "(run_state, unit) eff" where "op_GASLIMIT = push_read getBlockGasLimit"
definition op_CHAINID :: "vm \<Rightarrow> (run_state, unit) eff" where "op_CHAINID vm = push (vm_chainId vm)"
definition op_SELFBALANCE :: "(run_state, unit) eff" where "op_SELFBALANCE = push_read getSelfBalance"
definition op_BASEFEE :: "(run_state, unit) eff" where "op_BASEFEE = bnd (on_eei getBlockBaseFee) push"

section \<open>Memory and storage\<close>

definition op_POP :: "(run_state, unit) eff" where
  "op_POP = bnd pop (\<lambda>_. ret ())"

definition op_MLOAD :: "(run_state, unit) eff" where
  "op_MLOAD = bnd pop (\<lambda>pos. bnd (of_sum (toNumber pos)) (\<lambda>posNum.
     bnd (on_memory (mem_read posNum 32)) (\<lambda>word. push (bn_of_bytes word))))"

definition op_MSTORE :: "(run_state, unit) eff" where
  "op_MSTORE = bnd (pops 2) (\<lambda>vs. bnd (of_sum (toArrayLike (vs ! 1) 32)) (\<lambda>buf.
     bnd (of_sum (toNumber (vs ! 0))) (\<lambda>offsetNum. on_memory (mem_write offsetNum 32 buf))))"

definition op_MSTORE8 :: "(run_state, unit) eff" where
  "op_MSTORE8 = bnd (pops 2) (\<lambda>vs. let buf = [word_of_int (vs ! 1 AND 0xff)] in
     bnd (of_sum (toNumber (vs ! 0))) (\<lambda>offsetNum. on_memory (mem_write offsetNum 1 buf)))"

definition op_SLOAD :: "(run_state, unit) eff" where
  "op_SLOAD = bnd pop (\<lambda>key. bnd (of_sum (toArrayLike key 32)) (\<lambda>keyBuf.
     bnd (on_eei (storageLoad keyBuf False)) (\<lambda>value.
       push (if value \<noteq> [] then bn_of_bytes value else 0))))"

definition op_SSTORE :: "vm \<Rightarrow> (run_state, unit) eff" where
  "op_SSTORE vm = bnd (pops 2) (\<lambda>vs. bnd (of_sum (toArrayLike (vs ! 0) 32)) (\<lambda>keyBuf.
     on_eei (storageStore vm keyBuf (word_buffer (vs ! 1)))))"

definition op_TLOAD :: "(run_state, unit) eff" where
  "op_TLOAD = bnd pop (\<lambda>key. bnd (of_sum (toArrayLike key 32)) (\<lambda>keyBuf.
     bnd (gets (\<lambda>rs. transientStorageLoad keyBuf (rs_eei rs))) (\<lambda>value.
       push (if value \<noteq> [] then bn_of_bytes value else 0))))"

definition op_TSTORE :: "(run_state, unit) eff" where
  "op_TSTORE = andthen static_guard (bnd (pops 2) (\<lambda>vs.
     bnd (of_sum (toArrayLike (vs ! 0) 32)) (\<lambda>keyBuf.
       on_eei (transientStorageStore keyBuf (word_buffer (vs ! 1))))))"

section \<open>Control flow\<close>

definition set_pc :: "nat \<Rightarrow> (run_state, unit) eff" where
  "set_pc n = modif (\<lambda>rs. rs\<lparr>programCounter := n\<rparr>)"

definition jump_to :: "vm \<Rightarrow> int \<Rightarrow> (run_state, unit) eff" where
  "jump_to vm dest = bnd (gets id) (\<lambda>rs.
     if dest > getCodeSize (rs_eei rs) then trap_at vm INVALID_JUMP
     else bnd (of_sum (toNumber dest)) (\<lambda>destNum.
       if \<not> jumpIsValid rs destNum then trap_at vm INVALID_JUMP else set_pc destNum))"

definition op_JUMP :: "vm \<Rightarrow> (run_state, unit) eff" where
  "op_JUMP vm = bnd pop (jump_to vm)"

definition op_JUMPI :: "vm \<Rightarrow> (run_state, unit) eff" where
  "op_JUMPI vm = bnd (pops 2) (\<lambda>vs. when_eff (vs ! 1 \<noteq> 0) (jump_to vm (vs ! 0)))"

definition op_PC :: "(run_state, unit) eff" where
  "op_PC = bnd (gets (\<lambda>rs. int (programCounter rs) - 1)) push"

definition op_MSIZE :: "(run_state, unit) eff" where
  "op_MSIZE = bnd (gets (\<lambda>rs. memoryWordCount rs * 32)) push"

definition op_GAS :: "(run_state, unit) eff" where
  "op_GAS = push_read ei_gasLeft"

definition op_JUMPDEST :: "(run_state, unit) eff" where
  "op_JUMPDEST = ret ()"

definition op_BEGINSUB :: "vm \<Rightarrow> (run_state, unit) eff" where
  "op_BEGINSUB vm = trap_at vm INVALID_BEGINSUB"

definition op_RETURNSUB :: "(run_state, unit) eff" where
  "op_RETURNSUB = bnd (gets (\<lambda>rs. length (store (returnStack rs)))) (\<lambda>n.
     andthen (when_eff (n < 1) (trap INVALID_RETURNSUB))
       (bnd (on_returnStack stack_pop) (\<lambda>dest. bnd (of_sum (toNumber dest)) set_pc)))"

definition op_JUMPSUB :: "vm \<Rightarrow> (run_state, unit) eff" where
  "op_JUMPSUB vm = bnd pop (\<lambda>dest. bnd (gets id) (\<lambda>rs.
     if dest > getCodeSize (rs_eei rs) then trap_at vm INVALID_JUMPSUB
     else bnd (of_sum (toNumber dest)) (\<lambda>destNum.
       if \<not> jumpSubIsValid rs destNum then trap_at vm INVALID_JUMPSUB
       else andthen (on_returnStack (stack_push (int (programCounter rs)))) (set_pc (destNum + 1)))))"

definition op_PUSH0 :: "(run_state, unit) eff" where
  "op_PUSH0 = push 0"

definition op_PUSH :: "vm \<Rightarrow> (run_state, unit) eff" where
  "op_PUSH vm = bnd (gets id) (\<lambda>rs.
     let numToPush = opCode rs - 0x5f
     in if vm_isActivatedEIP vm 3540 \<and> programCounter rs + numToPush > length (rs_code rs)
        then trap OUT_OF_RANGE
        else (let loaded = bn_of_bytes (slice (rs_code rs) (programCounter rs) (programCounter rs + numToPush))
              in andthen (set_pc (programCounter rs + numToPush)) (push loaded)))"

definition op_DUP :: "(run_state, unit) eff" where
  "op_DUP = bnd (gets (\<lambda>rs. opCode rs - 0x7f)) (\<lambda>stackPos. on_stack (stack_dup stackPos))"

definition op_SWAP :: "(run_state, unit) eff" where
  "op_SWAP = bnd (gets (\<lambda>rs. opCode rs - 0x8f)) (\<lambda>stackPos. on_stack (stack_swap stackPos))"

section \<open>Logs and closures\<close>

fun to_arrays :: "int list \<Rightarrow> exn + bytes list" where
  "to_arrays [] = Inr []"
| "to_arrays (a # as) = bindS (toArrayLike a 32) (\<lambda>b. bindS (to_arrays as) (\<lambda>bs. Inr (b # bs)))"

definition op_LOG :: "(run_state, unit) eff" where
  "op_LOG = bnd (pops 2) (\<lambda>vs. bnd (gets (\<lambda>rs. opCode rs - 0xa0)) (\<lambda>topicsCount.
     bnd (pops topicsCount) (\<lambda>topics. bnd (of_sum (to_arrays topics)) (\<lambda>topicsBuf.
       bnd (mem_operand (vs ! 0) (vs ! 1)) (\<lambda>mem.
         on_eei (eei_log mem (int topicsCount) topicsBuf))))))"

text \<open>
  \<open>runState.messageGasLimit!\<close> was set by the gas handler of the same opcode; without it the message
  would have no gas limit, and the first use of it would throw.
\<close>

definition take_messageGasLimit :: "(run_state, int) eff" where
  "take_messageGasLimit = bnd (gets messageGasLimit) (\<lambda>g.
     andthen (set_messageGasLimit None)
       (case g of Some gl \<Rightarrow> ret gl | None \<Rightarrow> raise (JsError ''Cannot read properties of undefined'')))"

definition op_CREATE :: "vm \<Rightarrow> exec \<Rightarrow> (run_state, unit) eff" where
  "op_CREATE vm exec = bnd (pops 3) (\<lambda>vs. bnd take_messageGasLimit (\<lambda>gasLimit.
     bnd (mem_operand (vs ! 1) (vs ! 2)) (\<lambda>data.
       bnd (on_eei (eei_create vm exec gasLimit (vs ! 0) data None)) push)))"

definition op_CREATE2 :: "vm \<Rightarrow> exec \<Rightarrow> (run_state, unit) eff" where
  "op_CREATE2 vm exec = andthen static_guard (bnd (pops 4) (\<lambda>vs. bnd take_messageGasLimit (\<lambda>gasLimit.
     bnd (mem_operand (vs ! 1) (vs ! 2)) (\<lambda>data. bnd (of_sum (toArrayLike (vs ! 3) 32)) (\<lambda>salt.
       bnd (on_eei (eei_create2 vm exec gasLimit (vs ! 0) data salt)) push)))))"

definition op_CALL :: "vm \<Rightarrow> exec \<Rightarrow> (run_state, unit) eff" where
  "op_CALL vm exec = bnd (pops 7) (\<lambda>vs. bnd (mem_operand (vs ! 3) (vs ! 4)) (\<lambda>data.
     bnd take_messageGasLimit (\<lambda>gasLimit.
     bnd (on_eei (eei_call vm exec gasLimit (addressToBuffer (vs ! 1)) (vs ! 2) data)) (\<lambda>r.
       andthen (writeCallOutput (vs ! 5) (vs ! 6)) (push r)))))"

definition op_CALLCODE :: "vm \<Rightarrow> exec \<Rightarrow> (run_state, unit) eff" where
  "op_CALLCODE vm exec = bnd (pops 7) (\<lambda>vs. bnd take_messageGasLimit (\<lambda>gasLimit.
     bnd (mem_operand (vs ! 3) (vs ! 4)) (\<lambda>data.
     bnd (on_eei (eei_callCode vm exec gasLimit (addressToBuffer (vs ! 1)) (vs ! 2) data)) (\<lambda>r.
       andthen (writeCallOutput (vs ! 5) (vs ! 6)) (push r)))))"

definition op_DELEGATECALL :: "vm \<Rightarrow> exec \<Rightarrow> (run_state, unit) eff" where
  "op_DELEGATECALL vm exec = bnd (gets (\<lambda>rs. getCallValue (rs_eei rs))) (\<lambda>value.
     bnd (pops 6) (\<lambda>vs. bnd (mem_operand (vs ! 2) (vs ! 3)) (\<lambda>data.
     bnd take_messageGasLimit (\<lambda>gasLimit.
     bnd (on_eei (eei_callDelegate vm exec gasLimit (addressToBuffer (vs ! 1)) value data)) (\<lambda>r.
       andthen (writeCallOutput (vs ! 4) (vs ! 5)) (push r))))))"

definition op_STATICCALL :: "vm \<Rightarrow> exec \<Rightarrow> (run_state, unit) eff" where
  "op_STATICCALL vm exec = bnd (pops 6) (\<lambda>vs. bnd take_messageGasLimit (\<lambda>gasLimit.
     bnd (mem_operand (vs ! 2) (vs ! 3)) (\<lambda>data.
     bnd (on_eei (eei_callStatic vm exec gasLimit (addressToBuffer (vs ! 1)) 0 data)) (\<lambda>r.
       andthen (writeCallOutput (vs ! 4) (vs ! 5)) (push r)))))"

definition op_RETURN :: "(run_state, unit) eff" where
  "op_RETURN = bnd (pops 2) (\<lambda>vs. bnd (mem_operand (vs ! 0) (vs ! 1)) (\<lambda>data. on_eei (finish data)))"

definition op_REVERT :: "(run_state, unit) eff" where
  "op_REVERT = bnd (pops 2) (\<lambda>vs. bnd (mem_operand (vs ! 0) (vs ! 1)) (\<lambda>data. on_eei (eei_revert data)))"

definition op_SELFDESTRUCT :: "vm \<Rightarrow> (run_state, unit) eff" where
  "op_SELFDESTRUCT vm = bnd pop (\<lambda>a. on_eei (selfDestruct vm (addressToBuffer a)))"

section \<open>The table\<close>

text \<open>The opcodes that have a handler of their own; the ranges are filled from their first members.\<close>

definition single_ops :: "vm \<Rightarrow> exec \<Rightarrow> (nat \<times> (run_state, unit) eff) list" where
  "single_ops vm exec = [
     (0x00, op_STOP), (0x01, op_ADD), (0x02, op_MUL), (0x03, op_SUB), (0x04, op_DIV), (0x05, op_SDIV),
     (0x06, op_MOD), (0x07, op_SMOD), (0x08, op_ADDMOD), (0x09, op_MULMOD), (0x0a, op_EXP vm),
     (0x0b, op_SIGNEXTEND), (0x10, op_LT), (0x11, op_GT), (0x12, op_SLT), (0x13, op_SGT), (0x14, op_EQ),
     (0x15, op_ISZERO), (0x16, op_AND), (0x17, op_OR), (0x18, op_XOR), (0x19, op_NOT), (0x1a, op_BYTE),
     (0x1b, op_SHL), (0x1c, op_SHR), (0x1d, op_SAR), (0x20, op_SHA3 vm), (0x30, op_ADDRESS),
     (0x31, op_BALANCE), (0x32, op_ORIGIN), (0x33, op_CALLER), (0x34, op_CALLVALUE),
     (0x35, op_CALLDATALOAD), (0x36, op_CALLDATASIZE), (0x37, op_CALLDATACOPY), (0x38, op_CODESIZE),
     (0x39, op_CODECOPY), (0x3b, op_EXTCODESIZE), (0x3c, op_EXTCODECOPY), (0x3f, op_EXTCODEHASH vm),
     (0x3d, op_RETURNDATASIZE), (0x3e, op_RETURNDATACOPY), (0x3a, op_GASPRICE), (0x40, op_BLOCKHASH),
     (0x41, op_COINBASE vm), (0x42, op_TIMESTAMP), (0x43, op_NUMBER), (0x44, op_DIFFICULTY vm),
     (0x45, op_GASLIMIT), (0x46, op_CHAINID vm), (0x47, op_SELFBALANCE), (0x48, op_BASEFEE),
     (0x50, op_POP), (0x51, op_MLOAD), (0x52, op_MSTORE), (0x53, op_MSTORE8), (0x54, op_SLOAD),
     (0x55, op_SSTORE vm), (0x56, op_JUMP vm), (0x57, op_JUMPI vm), (0x58, op_PC), (0x59, op_MSIZE),
     (0x5a, op_GAS), (0x5b, op_JUMPDEST), (0x5c, op_BEGINSUB vm), (0x5d, op_RETURNSUB),
     (0x5e, op_JUMPSUB vm), (0x5f, op_PUSH0), (0xb3, op_TLOAD), (0xb4, op_TSTORE),
     (0xf0, op_CREATE vm exec), (0xf5, op_CREATE2 vm exec), (0xf1, op_CALL vm exec),
     (0xf2, op_CALLCODE vm exec), (0xf4, op_DELEGATECALL vm exec), (0xfa, op_STATICCALL vm exec),
     (0xf3, op_RETURN), (0xfd, op_REVERT), (0xff, op_SELFDESTRUCT vm)]"

definition handlers :: "vm \<Rightarrow> exec \<Rightarrow> nat \<Rightarrow> (run_state, unit) eff option" where
  "handlers vm exec op =
     (if 0x60 \<le> op \<and> op \<le> 0x7f then Some (op_PUSH vm)
      else if 0x80 \<le> op \<and> op \<le> 0x8f then Some op_DUP
      else if 0x90 \<le> op \<and> op \<le> 0x9f then Some op_SWAP
      else if 0xa0 \<le> op \<and> op \<le> 0xa4 then Some op_LOG
      else map_of (single_ops vm exec) op)"

end
