(* ===== verification/Op_Codes.thy ===== *)
theory Op_Codes
  imports Op_Functions
begin

text \<open>
  \<open>vm/src/evm/opcodes/codes.ts\<close>: the opcodes of a hardfork, their names, base fees, and whether
  they have a dynamic price. The tables of forks and EIPs are laid over the base table in order;
  custom opcodes are an extension point for the caller of the library and are left out.
\<close>

record opcode_entry =
  oc_name :: string
  oc_isAsync :: bool
  oc_dynamicGas :: bool

record opcode = opcode_entry +
  oc_code :: nat
  oc_fullName :: "string \<times> int option"
  oc_fee :: int

definition oc :: "string \<Rightarrow> bool \<Rightarrow> bool \<Rightarrow> opcode_entry" where
  "oc name isAsync dynamicGas = \<lparr>oc_name = name, oc_isAsync = isAsync, oc_dynamicGas = dynamicGas\<rparr>"

type_synonym opcode_table = "(nat \<times> opcode_entry) list"

definition opcodes :: opcode_table where
  "opcodes = [
     (0x00, oc ''STOP'' False False), (0x01, oc ''ADD'' False False),
     (0x02, oc ''MUL'' False False), (0x03, oc ''SUB'' False False),
     (0x04, oc ''DIV'' False False), (0x05, oc ''SDIV'' False False),
     (0x06, oc ''MOD'' False False), (0x07, oc ''SMOD'' False False),
     (0x08, oc ''ADDMOD'' False False), (0x09, oc ''MULMOD'' False False),
     (0x0a, oc ''EXP'' False False), (0x0b, oc ''SIGNEXTEND'' False False),
     (0x10, oc ''LT'' False False), (0x11, oc ''GT'' False False), (0x12, oc ''SLT'' False False),
     (0x13, oc ''SGT'' False False), (0x14, oc ''EQ'' False False),
     (0x15, oc ''ISZERO'' False False), (0x16, oc ''AND'' False False),
     (0x17, oc ''OR'' False False), (0x18, oc ''XOR'' False False),
     (0x19, oc ''NOT'' False False), (0x1a, oc ''BYTE'' False False),
     (0x20, oc ''SHA3'' False True), (0x30, oc ''ADDRESS'' True False),
     (0x31, oc ''BALANCE'' True True), (0x32, oc ''ORIGIN'' True False),
     (0x33, oc ''CALLER'' True False), (0x34, oc ''CALLVALUE'' True False),
     (0x35, oc ''CALLDATALOAD'' True False), (0x36, oc ''CALLDATASIZE'' True False),
     (0x37, oc ''CALLDATACOPY'' True True), (0x38, oc ''CODESIZE'' False False),
     (0x39, oc ''CODECOPY'' False True), (0x3a, oc ''GASPRICE'' False False),
     (0x3b, oc ''EXTCODESIZE'' True True), (0x3c, oc ''EXTCODECOPY'' True True),
     (0x40, oc ''BLOCKHASH'' True False), (0x41, oc ''COINBASE'' True False),
     (0x42, oc ''TIMESTAMP'' True False), (0x43, oc ''NUMBER'' True False),
     (0x44, oc ''DIFFICULTY'' True False), (0x45, oc ''GASLIMIT'' True False),
     (0x50, oc ''POP'' False False), (0x51, oc ''MLOAD'' False True),
     (0x52, oc ''MSTORE'' False True), (0x53, oc ''MSTORE8'' False True),
     (0x54, oc ''SLOAD'' True True), (0x55, oc ''SSTORE'' True True),
     (0x56, oc ''JUMP'' False False), (0x57, oc ''JUMPI'' False False),
     (0x58, oc ''PC'' False False), (0x59, oc ''MSIZE'' False False),
     (0x5a, oc ''GAS'' False False), (0x5b, oc ''JUMPDEST'' False False),
     (0x60, oc ''PUSH'' False False), (0x61, oc ''PUSH'' False False),
     (0x62, oc ''PUSH'' False False), (0x63, oc ''PUSH'' False False),
     (0x64, oc ''PUSH'' False False), (0x65, oc ''PUSH'' False False),
     (0x66, oc ''PUSH'' False False), (0x67, oc ''PUSH'' False False),
     (0x68, oc ''PUSH'' False False), (0x69, oc ''PUSH'' False False),
     (0x6a, oc ''PUSH'' False False), (0x6b, oc ''PUSH'' False False),
     (0x6c, oc ''PUSH'' False False), (0x6d, oc ''PUSH'' False False),
     (0x6e, oc ''PUSH'' False False), (0x6f, oc ''PUSH'' False False),
     (0x70, oc ''PUSH'' False False), (0x71, oc ''PUSH'' False False),
     (0x72, oc ''PUSH'' False False), (0x73, oc ''PUSH'' False False),
     (0x74, oc ''PUSH'' False False), (0x75, oc ''PUSH'' False False),
     (0x76, oc ''PUSH'' False False), (0x77, oc ''PUSH'' False False),
     (0x78, oc ''PUSH'' False False), (0x79, oc ''PUSH'' False False),
     (0x7a, oc ''PUSH'' False False), (0x7b, oc ''PUSH'' False False),
     (0x7c, oc ''PUSH'' False False), (0x7d, oc ''PUSH'' False False),
     (0x7e, oc ''PUSH'' False False), (0x7f, oc ''PUSH'' False False),
     (0x80, oc ''DUP'' False False), (0x81, oc ''DUP'' False False),
     (0x82, oc ''DUP'' False False), (0x83, oc ''DUP'' False False),
     (0x84, oc ''DUP'' False False), (0x85, oc ''DUP'' False False),
     (0x86, oc ''DUP'' False False), (0x87, oc ''DUP'' False False),
     (0x88, oc ''DUP'' False False), (0x89, oc ''DUP'' False False),
     (0x8a, oc ''DUP'' False False), (0x8b, oc ''DUP'' False False),
     (0x8c, oc ''DUP'' False False), (0x8d, oc ''DUP'' False False),
     (0x8e, oc ''DUP'' False False), (0x8f, oc ''DUP'' False False),
     (0x90, oc ''SWAP'' False False), (0x91, oc ''SWAP'' False False),
     (0x92, oc ''SWAP'' False False), (0x93, oc ''SWAP'' False False),
     (0x94, oc ''SWAP'' False False), (0x95, oc ''SWAP'' False False),
     (0x96, oc ''SWAP'' False False), (0x97, oc ''SWAP'' False False),
     (0x98, oc ''SWAP'' False False), (0x99, oc ''SWAP'' False False),
     (0x9a, oc ''SWAP'' False False), (0x9b, oc ''SWAP'' False False),
     (0x9c, oc ''SWAP'' False False), (0x9d, oc ''SWAP'' False False),
     (0x9e, oc ''SWAP'' False False), (0x9f, oc ''SWAP'' False False),
     (0xa0, oc ''LOG'' False True), (0xa1, oc ''LOG'' False True), (0xa2, oc ''LOG'' False True),
     (0xa3, oc ''LOG'' False True), (0xa4, oc ''LOG'' False True),
     (0xf0, oc ''CREATE'' True True), (0xf1, oc ''CALL'' True True),
     (0xf2, oc ''CALLCODE'' True True), (0xf3, oc ''RETURN'' False True),
     (0xfe, oc ''INVALID'' False False), (0xff, oc ''SELFDESTRUCT'' True True)]"

definition hardforkOpcodes :: "(string \<times> opcode_table) list" where
  "hardforkOpcodes = [
     (''homestead'', [
       (0xf4, oc ''DELEGATECALL'' True True)]),
     (''tangerineWhistle'', [
       (0x54, oc ''SLOAD'' True True), (0xf1, oc ''CALL'' True True),
       (0xf2, oc ''CALLCODE'' True True), (0x3b, oc ''EXTCODESIZE'' True True),
       (0x3c, oc ''EXTCODECOPY'' True True), (0xf4, oc ''DELEGATECALL'' True True),
       (0xff, oc ''SELFDESTRUCT'' True True), (0x31, oc ''BALANCE'' True True)]),
     (''byzantium'', [
       (0xfd, oc ''REVERT'' False True), (0xfa, oc ''STATICCALL'' True True),
       (0x3d, oc ''RETURNDATASIZE'' True False), (0x3e, oc ''RETURNDATACOPY'' True True)]),
     (''constantinople'', [
       (0x1b, oc ''SHL'' False False), (0x1c, oc ''SHR'' False False),
       (0x1d, oc ''SAR'' False False), (0x3f, oc ''EXTCODEHASH'' True True),
       (0xf5, oc ''CREATE2'' True True)]),
     (''istanbul'', [
       (0x46, oc ''CHAINID'' False False), (0x47, oc ''SELFBALANCE'' False False)])]"

definition eipOpcodes :: "(nat \<times> opcode_table) list" where
  "eipOpcodes = [
     (1153, [(0xb3, oc ''TLOAD'' False False), (0xb4, oc ''TSTORE'' False False)]),
     (2315, [(0x5c, oc ''BEGINSUB'' False False), (0x5d, oc ''RETURNSUB'' False False),
       (0x5e, oc ''JUMPSUB'' False False)]),
     (3198, [(0x48, oc ''BASEFEE'' False False)]),
     (3855, [(0x5f, oc ''PUSH0'' False False)])]"

definition toLowerCase :: "string \<Rightarrow> string" where
  "toLowerCase s = map (\<lambda>c. let n = (of_char c :: nat) in if 65 \<le> n \<and> n \<le> 90 then char_of (n + 32) else c) s"

text \<open>The spread \<open>{ ...a, ...b }\<close> of two objects.\<close>

definition opcodeBuilder :: "vm \<Rightarrow> opcode_table" where
  "opcodeBuilder vm =
     fold (\<lambda>(eip, t) b. if vm_isActivatedEIP vm eip then object_assign b t else b) eipOpcodes
       (fold (\<lambda>(hf, t) b. if vm_gteHardfork vm hf then object_assign b t else b) hardforkOpcodes
          opcodes)"

definition createOpcode :: "vm \<Rightarrow> nat \<Rightarrow> opcode_entry \<Rightarrow> opcode" where
  "createOpcode vm code e = \<lparr>oc_name = oc_name e, oc_isAsync = oc_isAsync e,
     oc_dynamicGas = oc_dynamicGas e, oc_code = code, oc_fullName = getFullname code (oc_name e),
     oc_fee = gasPrice vm (toLowerCase (oc_name e))\<rparr>"

definition getOpcodesForHF :: "vm \<Rightarrow> nat \<Rightarrow> opcode option" where
  "getOpcodesForHF vm op = map_option (createOpcode vm op) (map_of (opcodeBuilder vm) op)"

end
