(* ===== verification/Blake2.thy ===== *)
theory Blake2
  imports Prelude
begin

text \<open>
  \<open>vm/src/evm/precompiles/09-blake2f.ts\<close>: the compression function F of BLAKE2b on arrays of 32-bit
  words. A 64-bit number is stored in two entries, the low half first; \<open>a\<close>, \<open>b\<close>, \<open>c\<close>, \<open>d\<close> are the
  indices of low halves. A sum of two entries is a JavaScript number, here an integer, and is reduced
  when it is stored. All indices are below the lengths of the arrays, 32 for the work variables and
  the message, 16 for the state.
\<close>

unbundle bit_operations_syntax

section \<open>64-bit addition in halves\<close>

definition ADD64AA :: "32 word list \<Rightarrow> nat \<Rightarrow> nat \<Rightarrow> 32 word list" where
  "ADD64AA v a b =
     (let o0 = uint (v ! a) + uint (v ! b);
          o1 = uint (v ! (a + 1)) + uint (v ! (b + 1));
          o1' = (if o0 \<ge> 0x100000000 then o1 + 1 else o1)
      in v[a := word_of_int o0, a + 1 := word_of_int o1'])"

definition ADD64AC :: "32 word list \<Rightarrow> nat \<Rightarrow> int \<Rightarrow> int \<Rightarrow> 32 word list" where
  "ADD64AC v a b0 b1 =
     (let o0 = uint (v ! a) + b0;
          o0' = (if b0 < 0 then o0 + 0x100000000 else o0);
          o1 = uint (v ! (a + 1)) + b1;
          o1' = (if o0' \<ge> 0x100000000 then o1 + 1 else o1)
      in v[a := word_of_int o0', a + 1 := word_of_int o1'])"

section \<open>The mixing function\<close>

definition B2B_G ::
  "32 word list \<Rightarrow> 32 word list \<Rightarrow> nat \<Rightarrow> nat \<Rightarrow> nat \<Rightarrow> nat \<Rightarrow> nat \<Rightarrow> nat \<Rightarrow> 32 word list" where
  "B2B_G v mw a b c d ix iy =
     (let x0 = mw ! ix; x1 = mw ! (ix + 1); y0 = mw ! iy; y1 = mw ! (iy + 1);
          v = ADD64AA v a b;
          v = ADD64AC v a (uint x0) (uint x1);
          xor0 = v ! d XOR v ! a; xor1 = v ! (d + 1) XOR v ! (a + 1);
          v = v[d := xor1, d + 1 := xor0];
          v = ADD64AA v c d;
          xor0 = v ! b XOR v ! c; xor1 = v ! (b + 1) XOR v ! (c + 1);
          v = v[b := drop_bit 24 xor0 XOR push_bit 8 xor1, b + 1 := drop_bit 24 xor1 XOR push_bit 8 xor0];
          v = ADD64AA v a b;
          v = ADD64AC v a (uint y0) (uint y1);
          xor0 = v ! d XOR v ! a; xor1 = v ! (d + 1) XOR v ! (a + 1);
          v = v[d := drop_bit 16 xor0 XOR push_bit 16 xor1, d + 1 := drop_bit 16 xor1 XOR push_bit 16 xor0];
          v = ADD64AA v c d;
          xor0 = v ! b XOR v ! c; xor1 = v ! (b + 1) XOR v ! (c + 1)
      in v[b := drop_bit 31 xor1 XOR push_bit 1 xor0, b + 1 := drop_bit 31 xor0 XOR push_bit 1 xor1])"

section \<open>The compression function\<close>

definition BLAKE2B_IV32 :: "32 word list" where
  "BLAKE2B_IV32 = [
     0xf3bcc908, 0x6a09e667, 0x84caa73b, 0xbb67ae85, 0xfe94f82b, 0x3c6ef372, 0x5f1d36f1, 0xa54ff53a,
     0xade682d1, 0x510e527f, 0x2b3e6c1f, 0x9b05688c, 0xfb41bd6b, 0x1f83d9ab, 0x137e2179, 0x5be0cd19]"

definition SIGMA8 :: "nat list" where
  "SIGMA8 = [
     0, 1, 2, 3, 4, 5, 6, 7, 8, 9, 10, 11, 12, 13, 14, 15,
     14, 10, 4, 8, 9, 15, 13, 6, 1, 12, 0, 2, 11, 7, 5, 3,
     11, 8, 12, 0, 5, 2, 15, 13, 10, 14, 3, 6, 7, 1, 9, 4,
     7, 9, 3, 1, 13, 12, 11, 14, 2, 6, 5, 10, 4, 0, 15, 8,
     9, 0, 5, 7, 2, 4, 10, 15, 14, 1, 11, 12, 6, 8, 3, 13,
     2, 12, 6, 10, 0, 11, 8, 3, 4, 13, 7, 5, 15, 14, 1, 9,
     12, 5, 1, 15, 14, 13, 4, 10, 0, 7, 6, 3, 9, 2, 8, 11,
     13, 11, 7, 14, 12, 1, 3, 9, 5, 0, 15, 4, 8, 6, 2, 10,
     6, 15, 14, 9, 11, 3, 0, 8, 12, 2, 13, 7, 1, 4, 10, 5,
     10, 2, 8, 4, 7, 6, 1, 5, 15, 11, 9, 14, 3, 12, 13, 0,
     0, 1, 2, 3, 4, 5, 6, 7, 8, 9, 10, 11, 12, 13, 14, 15,
     14, 10, 4, 8, 9, 15, 13, 6, 1, 12, 0, 2, 11, 7, 5, 3]"

definition SIGMA82 :: "nat list" where
  "SIGMA82 = map (\<lambda>x. x * 2) SIGMA8"

definition blake_init :: "32 word list \<Rightarrow> 32 word list \<Rightarrow> bool \<Rightarrow> 32 word list" where
  "blake_init h t f =
     (let v = map (\<lambda>i. h ! i) [0..<16] @ map (\<lambda>i. BLAKE2B_IV32 ! i) [0..<16];
          v = v[24 := v ! 24 XOR t ! 0];
          v = v[25 := v ! 25 XOR t ! 1];
          v = v[26 := v ! 26 XOR t ! 2];
          v = v[27 := v ! 27 XOR t ! 3]
      in if f then v[28 := NOT (v ! 28), 29 := NOT (v ! 29)] else v)"

definition blake_round :: "32 word list \<Rightarrow> nat \<Rightarrow> 32 word list \<Rightarrow> 32 word list" where
  "blake_round m i v =
     (let ri = (i mod 10) * 16;
          v = B2B_G v m 0 8 16 24 (SIGMA82 ! (ri + 0)) (SIGMA82 ! (ri + 1));
          v = B2B_G v m 2 10 18 26 (SIGMA82 ! (ri + 2)) (SIGMA82 ! (ri + 3));
          v = B2B_G v m 4 12 20 28 (SIGMA82 ! (ri + 4)) (SIGMA82 ! (ri + 5));
          v = B2B_G v m 6 14 22 30 (SIGMA82 ! (ri + 6)) (SIGMA82 ! (ri + 7));
          v = B2B_G v m 0 10 20 30 (SIGMA82 ! (ri + 8)) (SIGMA82 ! (ri + 9));
          v = B2B_G v m 2 12 22 24 (SIGMA82 ! (ri + 10)) (SIGMA82 ! (ri + 11));
          v = B2B_G v m 4 14 16 26 (SIGMA82 ! (ri + 12)) (SIGMA82 ! (ri + 13))
      in B2B_G v m 6 8 18 28 (SIGMA82 ! (ri + 14)) (SIGMA82 ! (ri + 15)))"

text \<open>The rounds that are left, and the number of the next one.\<close>

fun blake_rounds :: "32 word list \<Rightarrow> nat \<Rightarrow> nat \<Rightarrow> 32 word list \<Rightarrow> 32 word list" where
  "blake_rounds m 0 i v = v"
| "blake_rounds m (Suc k) i v = blake_rounds m k (i + 1) (blake_round m i v)"

definition blake_F :: "32 word list \<Rightarrow> 32 word list \<Rightarrow> 32 word list \<Rightarrow> bool \<Rightarrow> nat \<Rightarrow> 32 word list" where
  "blake_F h m t f rounds =
     (let v = blake_rounds m rounds 0 (blake_init h t f)
      in map (\<lambda>i. h ! i XOR v ! i XOR v ! (i + 16)) [0..<16])"

section \<open>Bytes\<close>

definition readUInt32LE :: "bytes \<Rightarrow> nat \<Rightarrow> 32 word" where
  "readUInt32LE b i = word_of_int (horner_sum uint 256 (take 4 (drop i b)))"

definition writeUInt32LE :: "32 word \<Rightarrow> bytes" where
  "writeUInt32LE w = map (\<lambda>k. ucast (drop_bit (8 * k) w)) [0..<4]"

definition read_halves :: "bytes \<Rightarrow> nat \<Rightarrow> 32 word list" where
  "read_halves b n = map (\<lambda>i. readUInt32LE b (i * 4)) [0..<n]"

end
