(* ===== verification/Precompiles.thy ===== *)
theory Precompiles
  imports Op_Codes Signature Blake2
begin

text \<open>
  \<open>vm/src/evm/precompiles\<close>: the contracts at fixed addresses. The signature, hash, identity and
  modular exponentiation contracts 1 to 5, the compression function of BLAKE2 (9), and the two
  contracts that this fork adds, the transfer of Celo (0xfd) and the registry of Celo (0xce10). The
  curve contracts 6 to 8 and the BLS12-381 contracts (0x0a to 0x12) are the argument \<open>others\<close>. The hash functions and the recovery
  of a public key are fields of \<open>vm\<close>.
\<close>

section \<open>Results\<close>

definition exec_ok :: "int \<Rightarrow> bytes \<Rightarrow> exec_result" where
  "exec_ok gasUsed returnValue = \<lparr>x_exceptionError = None, x_gasUsed = gasUsed,
     x_returnValue = returnValue, x_logs = None, x_selfdestruct = None, x_gasRefund = None\<rparr>"

definition VmErrorResult :: "vm_error \<Rightarrow> int \<Rightarrow> exec_result" where
  "VmErrorResult err gasUsed = \<lparr>x_exceptionError = Some err, x_gasUsed = gasUsed,
     x_returnValue = [], x_logs = None, x_selfdestruct = None, x_gasRefund = None\<rparr>"

definition OOGResult :: "int \<Rightarrow> exec_result" where
  "OOGResult gasLimit = VmErrorResult OUT_OF_GAS gasLimit"

definition COOGResult :: "int \<Rightarrow> exec_result" where
  "COOGResult gasUsedCreateCode = VmErrorResult CODESTORE_OUT_OF_GAS gasUsedCreateCode"

definition INVALID_BYTECODE_RESULT_of :: "int \<Rightarrow> exec_result" where
  "INVALID_BYTECODE_RESULT_of gasLimit = VmErrorResult INVALID_BYTECODE_RESULT gasLimit"

definition INVALID_EOF_RESULT :: "int \<Rightarrow> exec_result" where
  "INVALID_EOF_RESULT gasLimit = VmErrorResult INVALID_EOF_FORMAT gasLimit"

text \<open>A precompiled contract: the input and the gas limit to a result, with the state to change.\<close>

type_synonym precompile = "bytes \<Rightarrow> int \<Rightarrow> (evm, exec_result) eff"

section \<open>The contracts 1 to 4\<close>

definition publicToAddress :: "vm \<Rightarrow> bytes \<Rightarrow> exn + bytes" where
  "publicToAddress vm key =
     (if length key = 64 then (let h = vm_keccak256 vm key in Inr (drop (length h - 20) h))
      else Inl (JsError ''AssertionError''))"

definition pre_ecrecover :: "vm \<Rightarrow> precompile" where
  "pre_ecrecover vm input gasLimit =
     (let gasUsed = gasPrice vm ''ecRecover''
      in if gasLimit < gasUsed then ret (OOGResult gasLimit)
         else
           (let data = setLengthRight input 128;
                msgHash = slice data 0 32; v = slice data 32 64;
                r = slice data 64 96; s = slice data 96 128
            in if bn_of_bytes v \<noteq> 27 \<and> bn_of_bytes v \<noteq> 28 then ret (exec_ok gasUsed [])
               else (case ecrecover (vm_ecdsaRecover vm) msgHash (bn_of_bytes v) r s None of
                       Inl e \<Rightarrow> ret (exec_ok gasUsed [])
                     | Inr key \<Rightarrow> bnd (of_sum (publicToAddress vm key)) (\<lambda>a.
                         ret (exec_ok gasUsed (setLengthLeft a 32))))))"

definition word_ceil :: "bytes \<Rightarrow> int" where
  "word_ceil data = (int (length data) + 31) div 32"

definition pre_sha256 :: "vm \<Rightarrow> precompile" where
  "pre_sha256 vm data gasLimit =
     (let gasUsed = gasPrice vm ''sha256'' + gasPrice vm ''sha256Word'' * word_ceil data
      in if gasLimit < gasUsed then ret (OOGResult gasLimit)
         else ret (exec_ok gasUsed (vm_sha256 vm data)))"

text \<open>\<open>ripemd160(data, true)\<close> pads the hash to 32 bytes.\<close>

definition pre_ripemd160 :: "vm \<Rightarrow> precompile" where
  "pre_ripemd160 vm data gasLimit =
     (let gasUsed = gasPrice vm ''ripemd160'' + gasPrice vm ''ripemd160Word'' * word_ceil data
      in if gasLimit < gasUsed then ret (OOGResult gasLimit)
         else ret (exec_ok gasUsed (setLengthLeft (vm_ripemd160 vm data) 32)))"

definition pre_identity :: "vm \<Rightarrow> precompile" where
  "pre_identity vm data gasLimit =
     (let gasUsed = gasPrice vm ''identity'' + gasPrice vm ''identityWord'' * word_ceil data
      in if gasLimit < gasUsed then ret (OOGResult gasLimit)
         else ret (exec_ok gasUsed data))"

section \<open>Modular exponentiation\<close>

definition multComplexity :: "int \<Rightarrow> int" where
  "multComplexity x =
     (if x \<le> 64 then x * x
      else if x \<le> 1024 then x * x div 4 + x * 96 - 3072
      else x * x div 16 + x * 480 - 199680)"

definition multComplexityEIP2565 :: "int \<Rightarrow> int" where
  "multComplexityEIP2565 x = (let words = (x + 7) div 8 in words * words)"

text \<open>The loop over \<open>firstExpBN\<close>: each turn adds one to \<open>bitLen\<close> and shifts out a bit.\<close>

fun bit_loop :: "nat \<Rightarrow> int \<Rightarrow> int" where
  "bit_loop n bitLen = (if n > 0 then bit_loop (n div 2) (bitLen + 1) else bitLen)"

declare bit_loop.simps [simp del]

definition getAdjustedExponentLength :: "bytes \<Rightarrow> int" where
  "getAdjustedExponentLength data =
     (let expBytesStart = (case toNumber (bn_of_bytes (slice data 0 32)) of
            Inr baseLen \<Rightarrow> 96 + baseLen | Inl e \<Rightarrow> 2 ^ 53 - 1 - 32);
          expLen = bn_of_bytes (slice data 32 64);
          firstExpBytes = setLengthRight (slice data expBytesStart (expBytesStart + 32)) 32;
          max32expLen = (if expLen < 32 then 32 - nat expLen else 0);
          firstExpBN = drop_bit (8 * max32expLen) (bn_of_bytes firstExpBytes);
          bitLen = bit_loop (nat firstExpBN) (-1);
          expLenMinus32OrZero = (if expLen - 32 < 0 then 0 else expLen - 32);
          adjustedExpLen = expLenMinus32OrZero * 8
      in if bitLen > 0 then adjustedExpLen + bitLen else adjustedExpLen)"

definition expmod :: "int \<Rightarrow> int \<Rightarrow> int \<Rightarrow> int" where
  "expmod B E M =
     (if E = 0 then bn_mod 1 M
      else if M \<le> 1 then 0
      else pow_mod (B mod M) (nat E) M)"

definition buf_slice :: "bytes \<Rightarrow> int \<Rightarrow> int \<Rightarrow> exn + bytes" where
  "buf_slice data a b = bindS (toNumber a) (\<lambda>i. bindS (toNumber b) (\<lambda>j. Inr (slice data i j)))"

definition padded_slice :: "bytes \<Rightarrow> int \<Rightarrow> int \<Rightarrow> int \<Rightarrow> exn + int" where
  "padded_slice data a b len =
     bindS (buf_slice data a b) (\<lambda>bs. bindS (toNumber len) (\<lambda>n. Inr (bn_of_bytes (setLengthRight bs n))))"

definition pre_modexp :: "vm \<Rightarrow> precompile" where
  "pre_modexp vm data gasLimit =
     (let adj = getAdjustedExponentLength data;
          adjustedELen = (if adj < 1 then 1 else adj);
          bLen = bn_of_bytes (slice data 0 32);
          eLen = bn_of_bytes (slice data 32 64);
          mLen = bn_of_bytes (slice data 64 96);
          maxLen = (if bLen < mLen then mLen else bLen);
          Gquaddivisor = gasPrice vm ''modexpGquaddivisor'';
          bStart = 96; bEnd = bStart + bLen; eStart = bEnd; eEnd = eStart + eLen;
          mStart = eEnd; mEnd = mStart + mLen;
          gasUsed =
            (if \<not> vm_isActivatedEIP vm 2565
             then bn_div (adjustedELen * multComplexity maxLen) Gquaddivisor
             else (let g = bn_div (adjustedELen * multComplexityEIP2565 maxLen) Gquaddivisor
                   in if g < 200 then 200 else g))
      in if gasLimit < gasUsed then ret (OOGResult gasLimit)
         else if bLen = 0
         then bnd (of_sum (bindS (toNumber mLen) (toArrayLike 0))) (\<lambda>out. ret (exec_ok gasUsed out))
         else if mLen = 0 then ret (exec_ok gasUsed [])
         else if bLen > 2147483647 \<or> eLen > 2147483647 \<or> mLen > 2147483647 then ret (OOGResult gasLimit)
         else bnd (of_sum (padded_slice data bStart bEnd bLen)) (\<lambda>B.
              bnd (of_sum (padded_slice data eStart eEnd eLen)) (\<lambda>E.
              bnd (of_sum (padded_slice data mStart mEnd mLen)) (\<lambda>M.
                if mEnd > 2 ^ 53 - 1 then ret (OOGResult gasLimit)
                else (let R = (if M = 0 then 0 else expmod B E M)
                      in bnd (of_sum (bindS (toNumber mLen) (toArrayLike R))) (\<lambda>out.
                           ret (exec_ok gasUsed out)))))))"

section \<open>The contracts of Celo\<close>

definition pre_celoTransfer :: precompile where
  "pre_celoTransfer input gasLimit =
     (let data = setLengthRight input 96;
          fromAddress = slice data 12 32; toAddress = slice data 44 64;
          amount = bn_of_bytes (slice data 64 96)
      in bnd (on_state (sm_getAccount fromAddress)) (\<lambda>fromAccount.
         andthen (on_state (sm_putAccount fromAddress
             (fromAccount\<lparr>acc_balance := acc_balance fromAccount - amount\<rparr>)))
        (bnd (on_state (sm_getAccount toAddress)) (\<lambda>toAccount.
         andthen (on_state (sm_putAccount toAddress
             (toAccount\<lparr>acc_balance := acc_balance toAccount + amount\<rparr>)))
           (ret (exec_ok 0 []))))))"

definition celo_sig :: bytes where "celo_sig = [0xdc, 0xf0, 0xaa, 0xed]"

definition celo_registry :: "(bytes \<times> bytes) list" where
  "celo_registry = [
     ([0xd7, 0xe8, 0x9a, 0xde, 0x84, 0x30, 0x81, 0x9f, 0x08, 0xbf, 0x97, 0xa0, 0x87, 0x28, 0x58, 0x24, 0xaf, 0x33, 0x51, 0xee, 0x12, 0xd7, 0x2a, 0x2d, 0x13, 0x2b, 0x0c, 0x6c, 0x06, 0x87, 0xbf, 0xaf],
      [0x47, 0x1e, 0xce, 0x37, 0x50, 0xda, 0x23, 0x7f, 0x93, 0xb8, 0xe3, 0x39, 0xc5, 0x36, 0x98, 0x9b, 0x89, 0x78, 0xa4, 0x38]),
     ([0xab, 0x7c, 0xa1, 0x10, 0xac, 0x6f, 0x74, 0x0f, 0xa4, 0xbd, 0xcd, 0x66, 0x76, 0x52, 0xab, 0x6f, 0x88, 0x3b, 0x80, 0xda, 0xae, 0xda, 0xf0, 0xcb, 0x53, 0x39, 0x6d, 0xc5, 0xd5, 0xbe, 0x6f, 0x2c],
      [0xef, 0xb8, 0x49, 0x35, 0x23, 0x9d, 0xac, 0xde, 0xcf, 0x7c, 0x5b, 0xa7, 0x6d, 0x8d, 0xe4, 0x0b, 0x07, 0x7b, 0x7b, 0x33]),
     ([0x24, 0xe3, 0x34, 0x47, 0xc8, 0x47, 0xc1, 0x5e, 0x68, 0xfc, 0xa3, 0xf1, 0x5a, 0x63, 0x5d, 0x2d, 0x4d, 0x83, 0xcb, 0x99, 0xd7, 0xbe, 0xfc, 0x90, 0x68, 0xc4, 0xa1, 0x48, 0x52, 0x1f, 0xcc, 0xf4],
      [0x47, 0xa4, 0x72, 0xf4, 0x50, 0x57, 0xa9, 0xd7, 0x9d, 0x62, 0xc6, 0x42, 0x73, 0x67, 0x01, 0x64, 0x09, 0xf4, 0xff, 0x5a])]"

definition pre_celoRegistry :: precompile where
  "pre_celoRegistry input gasLimit =
     (let data = setLengthRight input 36; sig = slice data 0 4; key = slice data 4 36
      in andthen (guard_eff (sig = celo_sig) (JsError ''AssertionError''))
        (case map_of celo_registry key of
           Some a \<Rightarrow> ret (exec_ok 0 (setLengthLeft a 32))
         | None \<Rightarrow> ret (exec_ok 0 (setLengthLeft [0] 32))))"

section \<open>BLAKE2\<close>

definition pre_blake2f :: "vm \<Rightarrow> precompile" where
  "pre_blake2f vm data gasLimit =
     (if length data \<noteq> 213 then ret (VmErrorResult OUT_OF_RANGE gasLimit)
      else if data ! 212 \<noteq> 1 \<and> data ! 212 \<noteq> 0 then ret (VmErrorResult OUT_OF_RANGE gasLimit)
      else
        (let rounds = bn_of_bytes (slice data 0 4); hRaw = slice data 4 68; mRaw = slice data 68 196;
             tRaw = slice data 196 212; f = (data ! 212 = 1);
             gasUsed = gasPrice vm ''blake2Round'' * rounds
         in if gasLimit < gasUsed then ret (OOGResult gasLimit)
            else
              (let h = blake_F (read_halves hRaw 16) (read_halves mRaw 32) (read_halves tRaw 4) f (nat rounds)
               in ret (exec_ok gasUsed (concat (map writeUInt32LE h))))))"

section \<open>Availability\<close>

datatype availability = Hardfork_Check string | EIP_Check nat

definition short_address :: "nat \<Rightarrow> bytes" where
  "short_address n = be_bytes 20 (int n)"

definition precompileAvailability :: "(nat \<times> availability) list" where
  "precompileAvailability = [
     (1, Hardfork_Check ''chainstart''), (2, Hardfork_Check ''chainstart''),
     (3, Hardfork_Check ''chainstart''), (4, Hardfork_Check ''chainstart''),
     (5, Hardfork_Check ''byzantium''), (6, Hardfork_Check ''byzantium''),
     (7, Hardfork_Check ''byzantium''), (8, Hardfork_Check ''byzantium''),
     (9, Hardfork_Check ''istanbul''), (0x0a, EIP_Check 2537), (0x0b, EIP_Check 2537),
     (0x0c, EIP_Check 2537), (0x0d, EIP_Check 2537), (0x0f, EIP_Check 2537), (0x0e, EIP_Check 2537),
     (0x10, EIP_Check 2537), (0x11, EIP_Check 2537), (0x12, EIP_Check 2537),
     (0xfd, Hardfork_Check ''chainstart''), (0xce10, Hardfork_Check ''chainstart'')]"

definition is_available :: "vm \<Rightarrow> availability \<Rightarrow> bool" where
  "is_available vm a =
     (case a of Hardfork_Check hf \<Rightarrow> vm_gteHardfork vm hf | EIP_Check e \<Rightarrow> e \<in> set (vm_eips vm))"

text \<open>The address of an active precompiled contract, as its number.\<close>

definition getPrecompile :: "vm \<Rightarrow> bytes \<Rightarrow> nat option" where
  "getPrecompile vm address =
     (case find (\<lambda>(n, a). short_address n = address) precompileAvailability of
        None \<Rightarrow> None
      | Some (n, a) \<Rightarrow> if is_available vm a then Some n else None)"

text \<open>
  The contracts that are not modelled do not change the state: their input and gas limit give a
  result, or a JavaScript error of the library that they call.
\<close>

type_synonym pure_precompile = "bytes \<Rightarrow> int \<Rightarrow> string + exec_result"

definition run_precompile :: "vm \<Rightarrow> (nat \<Rightarrow> pure_precompile) \<Rightarrow> nat \<Rightarrow> precompile" where
  "run_precompile vm others n =
     (if n = 1 then pre_ecrecover vm else if n = 2 then pre_sha256 vm
      else if n = 3 then pre_ripemd160 vm else if n = 4 then pre_identity vm
      else if n = 5 then pre_modexp vm else if n = 9 then pre_blake2f vm else if n = 0xfd then pre_celoTransfer
      else if n = 0xce10 then pre_celoRegistry
      else (\<lambda>data gasLimit. of_sum (map_sum JsError id (others n data gasLimit))))"

end
