(* ===== verification/Interpreter.thy ===== *)
theory Interpreter
  imports Precompiles
begin

text \<open>
  \<open>vm/src/evm/interpreter.ts\<close> and \<open>opcodes/eof.ts\<close>: the container format of EIP-3540, the analysis
  of jump destinations, one step, and the loop that runs the code of a frame. The loop has a number
  of steps it may take; the events that it emits to observers are left out.
\<close>

section \<open>The object format\<close>

definition EOF_FORMAT :: byte where "EOF_FORMAT = 0xef"
definition EOF_MAGIC :: byte where "EOF_MAGIC = 0x00"
definition EOF_VERSION :: byte where "EOF_VERSION = 0x01"

text \<open>An element past the end is \<open>undefined\<close>, which differs from every number.\<close>

definition at :: "bytes \<Rightarrow> nat \<Rightarrow> byte option" where
  "at c i = (if i < length c then Some (c ! i) else None)"

definition be16 :: "bytes \<Rightarrow> nat \<Rightarrow> nat" where
  "be16 c i = unat (c ! i) * 256 + unat (c ! Suc i)"

definition codeAnalysis :: "bytes \<Rightarrow> (nat \<times> nat) option" where
  "codeAnalysis container =
     (if at container 1 \<noteq> Some EOF_MAGIC \<or> at container 2 \<noteq> Some EOF_VERSION then None
      else if length container > 7 \<and> at container 3 = Some 1 \<and> at container 6 = Some 0
      then (let code = be16 container 4
            in if code < 1 then None
               else if length container \<noteq> 7 + code then None else Some (code, 0))
      else if length container > 10 \<and> at container 3 = Some 1 \<and> at container 6 = Some 2 \<and>
              at container 9 = Some 0
      then (let code = be16 container 4; data = be16 container 7
            in if code < 1 \<or> data < 1 then None
               else if length container \<noteq> 10 + code + data then None else Some (code, data))
      else if length container \<noteq> 0 then None else Some (0, 0))"

text \<open>How many bytes of data follow an opcode: the block of a PUSH1 to PUSH32.\<close>

definition push_data :: "byte \<Rightarrow> nat" where
  "push_data op = (if 0x60 \<le> op \<and> op \<le> 0x7f then unat op - 0x5f else 0)"

definition has_handler :: "byte \<Rightarrow> bool" where
  "has_handler op \<longleftrightarrow> (0x60 \<le> op \<and> op \<le> 0xa4) \<or>
     op \<in> set [0x00, 0x01, 0x02, 0x03, 0x04, 0x05, 0x06, 0x07, 0x08, 0x09, 0x0a, 0x0b,
       0x10, 0x11, 0x12, 0x13, 0x14, 0x15, 0x16, 0x17, 0x18, 0x19, 0x1a, 0x1b, 0x1c, 0x1d, 0x20,
       0x30, 0x31, 0x32, 0x33, 0x34, 0x35, 0x36, 0x37, 0x38, 0x39, 0x3a, 0x3b, 0x3c, 0x3d, 0x3e, 0x3f,
       0x40, 0x41, 0x42, 0x43, 0x44, 0x45, 0x46, 0x47, 0x48,
       0x50, 0x51, 0x52, 0x53, 0x54, 0x55, 0x56, 0x57, 0x58, 0x59, 0x5a, 0x5b, 0x5c, 0x5d, 0x5e, 0x5f,
       0xb3, 0xb4, 0xf0, 0xf1, 0xf2, 0xf3, 0xf4, 0xf5, 0xfa, 0xfd, 0xff]"

function valid_loop :: "bytes \<Rightarrow> nat \<Rightarrow> bool" where
  "valid_loop code x =
     (if x < length code
      then (let opcode = code ! x; x1 = x + 1
            in if \<not> (has_handler opcode \<or> opcode = 0xfe) then False
               else if 0x60 \<le> opcode \<and> opcode \<le> 0x7f
               then (let x2 = x1 + push_data opcode
                     in if int x2 > int (length code) - 1 then False else valid_loop code x2)
               else valid_loop code x1)
      else True)"
  by pat_completeness auto
termination by (relation "measure (\<lambda>(code, x). length code - x)") auto

declare valid_loop.simps [simp del]

definition validOpcodes :: "bytes \<Rightarrow> bool" where
  "validOpcodes code =
     (if \<not> valid_loop code 0 then False
      else code \<noteq> [] \<and> last code \<in> set [0x00, 0xf3, 0xfd, 0xfe, 0xff])"

section \<open>Jump destinations\<close>

function jump_loop :: "bytes \<Rightarrow> nat \<Rightarrow> nat list \<Rightarrow> nat list" where
  "jump_loop code i jumps =
     (if i < length code
      then (let opcode = code ! i
            in if opcode \<le> 0x7f
               then (if opcode \<ge> 0x60 then jump_loop code (i + (unat opcode - 0x5f) + 1) jumps
                     else if opcode = 0x5b then jump_loop code (i + 1) (jumps[i := 1])
                     else if opcode = 0x5c then jump_loop code (i + 1) (jumps[i := 2])
                     else jump_loop code (i + 1) jumps)
               else jump_loop code (i + 1) jumps)
      else jumps)"
  by pat_completeness auto
termination by (relation "measure (\<lambda>(code, i, jumps). length code - i)") auto

declare jump_loop.simps [simp del]

definition getValidJumpDests :: "bytes \<Rightarrow> nat list" where
  "getValidJumpDests code = jump_loop code 0 (replicate (length code) 0)"

section \<open>A step, the loop\<close>

definition lookupOpInfo :: "vm \<Rightarrow> nat \<Rightarrow> opcode option" where
  "lookupOpInfo vm op =
     (case getOpcodesForHF vm op of Some o' \<Rightarrow> Some o' | None \<Rightarrow> getOpcodesForHF vm 0xfe)"

definition no_handler :: exn where
  "no_handler = JsError ''undefined is not a function''"

definition runStep :: "vm \<Rightarrow> exec \<Rightarrow> (run_state, unit) eff" where
  "runStep vm exec = bnd (gets opCode) (\<lambda>op.
     case lookupOpInfo vm op of
       None \<Rightarrow> raise no_handler
     | Some opInfo \<Rightarrow>
         bnd (if oc_dynamicGas opInfo
              then (case dynamicGasHandlers vm op of None \<Rightarrow> raise no_handler
                    | Some h \<Rightarrow> h (oc_fee opInfo))
              else ret (oc_fee opInfo)) (\<lambda>gas.
           if oc_name opInfo = ''INVALID'' then trap INVALID_OPCODE
           else andthen (on_eei (useGas gas))
             (andthen (modif (\<lambda>rs. rs\<lparr>programCounter := programCounter rs + 1\<rparr>))
               (case handlers vm exec (oc_code opInfo) of None \<Rightarrow> raise no_handler | Some h \<Rightarrow> h))))"

definition fetch :: "run_state \<Rightarrow> run_state" where
  "fetch rs =
     (let op = unat (rs_code rs ! programCounter rs)
      in (if shouldDoJumpAnalysis rs \<and> (op = 0x56 \<or> op = 0x57 \<or> op = 0x5e)
          then rs\<lparr>validJumps := getValidJumpDests (rs_code rs), shouldDoJumpAnalysis := False\<rparr>
          else rs)\<lparr>opCode := op\<rparr>)"

fun run_loop :: "vm \<Rightarrow> exec \<Rightarrow> nat \<Rightarrow> (run_state, vm_error option) eff" where
  "run_loop vm exec 0 rs = (Inl (JsError ''out of steps''), rs)"
| "run_loop vm exec (Suc n) rs =
     (if programCounter rs < length (rs_code rs)
      then (case runStep vm exec (fetch rs) of
              (Inl (VmError e), s) \<Rightarrow> (Inr (if e = STOP then None else Some e), s)
            | (Inl (JsError m), s) \<Rightarrow> (Inl (JsError m), s)
            | (Inr _, s) \<Rightarrow> run_loop vm exec n s)
      else (Inr None, rs))"

definition new_run_state :: "eei \<Rightarrow> run_state" where
  "new_run_state e = \<lparr>programCounter = 0, opCode = 0xfe, rs_memory = [], memoryWordCount = 0,
     highestMemCost = 0, rs_stack = new_stack None, returnStack = new_stack (Some 1023), rs_code = [],
     shouldDoJumpAnalysis = True, validJumps = [], rs_eei = e, messageGasLimit = None\<rparr>"

text \<open>\<open>run\<close> starts at 0: the option \<open>pc\<close> is for callers of the library.\<close>

definition interpreter_run :: "vm \<Rightarrow> exec \<Rightarrow> nat \<Rightarrow> bytes \<Rightarrow> (run_state, vm_error option) eff" where
  "interpreter_run vm exec steps code =
     (if \<not> vm_isActivatedEIP vm 3540 \<or> at code 0 \<noteq> Some EOF_FORMAT
      then andthen (modif (\<lambda>rs. rs\<lparr>rs_code := code\<rparr>)) (run_loop vm exec steps)
      else if at code 1 \<noteq> Some EOF_MAGIC then ret (Some INVALID_BYTECODE_RESULT)
      else if at code 2 \<noteq> Some EOF_VERSION then ret (Some INVALID_EOF_FORMAT)
      else (case codeAnalysis code of
              None \<Rightarrow> ret (Some INVALID_EOF_FORMAT)
            | Some (n, d) \<Rightarrow>
                andthen (modif (\<lambda>rs. rs\<lparr>rs_code :=
                    (if d \<noteq> 0 then slice code 10 (10 + n) else slice code 7 (7 + n))\<rparr>))
                  (run_loop vm exec steps)))"

end
