(* ===== verification/Evm.thy ===== *)
theory Evm
  imports Interpreter
begin

text \<open>
  \<open>vm/src/evm/evm.ts\<close>: running a message, a call or a creation, with the checkpoint around it. A
  frame's interpreter takes at most \<open>cx_steps\<close> steps, and messages nest at most as deep as the last
  argument of \<open>executeMessage\<close> says. \<open>cx_*\<close> is what the EVM knows of the transaction and the block,
  and the precompiled contracts that are not modelled.
\<close>

record evm_context =
  cx_gasPrice :: int
  cx_origin :: bytes
  cx_block :: header
  cx_blockHash :: "int \<Rightarrow> exn + bytes"
  cx_steps :: nat
  cx_precompiles :: "nat \<Rightarrow> pure_precompile"

section \<open>Addresses, code, balances\<close>

definition generateAddress :: "vm \<Rightarrow> bytes \<Rightarrow> bytes \<Rightarrow> bytes" where
  "generateAddress vm sender nonce =
     (let nonceBN = bn_of_bytes nonce;
          h = vm_keccak256 vm (vm_rlp vm [sender, if nonceBN = 0 then [] else toArrayLike_min nonceBN])
      in drop (length h - 20) h)"

definition generateAddress2 :: "vm \<Rightarrow> bytes \<Rightarrow> bytes \<Rightarrow> bytes \<Rightarrow> exn + bytes" where
  "generateAddress2 vm sender salt initCode =
     (if length sender \<noteq> 20 \<or> length salt \<noteq> 32 then Inl (JsError ''AssertionError'')
      else (let h = vm_keccak256 vm ([0xff] @ sender @ salt @ vm_keccak256 vm initCode)
            in Inr (drop (length h - 20) h)))"

definition code_bytes :: "msg_code option \<Rightarrow> bytes" where
  "code_bytes c = (case c of Some (Bytecode b) \<Rightarrow> b | _ \<Rightarrow> [])"

definition evm_generateAddress :: "vm \<Rightarrow> message \<Rightarrow> (evm, bytes) eff" where
  "evm_generateAddress vm message =
     (case m_salt message of
        Some salt \<Rightarrow> of_sum (generateAddress2 vm (m_caller message) salt (code_bytes (m_code message)))
      | None \<Rightarrow> bnd (on_state (sm_getAccount (m_caller message))) (\<lambda>acc.
          let newNonce = acc_nonce acc - 1
          in ret (generateAddress vm (m_caller message) (toArrayLike_min newNonce))))"

definition reduceSenderBalance :: "account \<Rightarrow> message \<Rightarrow> (evm, unit) eff" where
  "reduceSenderBalance account message =
     on_state (sm_putAccount (m_caller message)
       (account\<lparr>acc_balance := acc_balance account - m_value message\<rparr>))"

text \<open>\<open>_addToBalance\<close>, and the \<open>try\<close> around it: the error it throws, if any.\<close>

definition addToBalance :: "bytes \<Rightarrow> account \<Rightarrow> message \<Rightarrow> (evm, vm_error option) eff" where
  "addToBalance to toAccount message =
     (let newBalance = acc_balance toAccount + m_value message
      in if newBalance > MAX_INTEGER then ret (Some VALUE_OVERFLOW)
         else andthen (on_state (sm_putAccount to (toAccount\<lparr>acc_balance := newBalance\<rparr>))) (ret None))"

definition loadCode :: "vm \<Rightarrow> message \<Rightarrow> (evm, message) eff" where
  "loadCode vm message =
     (if m_code message = None
      then (case getPrecompile vm (msg_codeAddress message) of
              Some p \<Rightarrow> ret (message\<lparr>m_code := Some (Precompile p), m_isCompiled := True\<rparr>)
            | None \<Rightarrow> bnd (on_state (sm_getContractCode (msg_codeAddress message))) (\<lambda>code.
                ret (message\<lparr>m_code := Some (Bytecode code), m_isCompiled := False\<rparr>)))
      else ret message)"

section \<open>Running the code of a message\<close>

definition new_env :: "evm_context \<Rightarrow> message \<Rightarrow> account \<Rightarrow> env" where
  "new_env cx message contract = (let to = (case m_to message of Some a \<Rightarrow> a | None \<Rightarrow> replicate 20 0) in
     \<lparr>env_address = to, env_caller = m_caller message, env_callData = m_data message,
      env_callValue = m_value message, env_code = code_bytes (m_code message),
      env_isStatic = m_isStatic message, env_depth = m_depth message, env_gasPrice = cx_gasPrice cx,
      env_origin = cx_origin cx, env_block = cx_block cx, env_contract = contract,
      env_codeAddress = msg_codeAddress message, env_blockHash = cx_blockHash cx\<rparr>)"

definition new_eei :: "env \<Rightarrow> evm \<Rightarrow> message \<Rightarrow> eei" where
  "new_eei env ev message = \<lparr>ei_env = env,
     ei_result = \<lparr>rr_logs = [], rr_returnValue = None,
       rr_selfdestruct = (case m_selfdestruct message of Some sd \<Rightarrow> sd | None \<Rightarrow> [])\<rparr>,
     ei_evm = ev, ei_lastReturned = [], ei_gasLeft = m_gasLimit message\<rparr>"

definition frame_result :: "message \<Rightarrow> vm_error option \<Rightarrow> eei \<Rightarrow> exec_result" where
  "frame_result message err e =
     \<lparr>x_exceptionError = err,
      x_gasUsed = (if err \<noteq> None \<and> err \<noteq> Some REVERT \<and> err \<noteq> Some INVALID_EOF_FORMAT
        then m_gasLimit message else m_gasLimit message - ei_gasLeft e),
      x_returnValue = (case rr_returnValue (ei_result e) of Some v \<Rightarrow> v | None \<Rightarrow> []),
      x_logs = Some (if err \<noteq> None then [] else rr_logs (ei_result e)),
      x_selfdestruct = Some (if err \<noteq> None then [] else rr_selfdestruct (ei_result e)),
      x_gasRefund = None\<rparr>"

definition runInterpreter ::
  "vm \<Rightarrow> evm_context \<Rightarrow> exec \<Rightarrow> message \<Rightarrow> (evm, exec_result \<times> destructs) eff" where
  "runInterpreter vm cx exec message =
     bnd (on_state (sm_getAccount (case m_to message of Some a \<Rightarrow> a | None \<Rightarrow> replicate 20 0)))
       (\<lambda>contract ev.
         case interpreter_run vm exec (cx_steps cx) (code_bytes (m_code message))
                (new_run_state (new_eei (new_env cx message contract) ev message)) of
           (Inl x, rs) \<Rightarrow> (Inl x, ei_evm (rs_eei rs))
         | (Inr err, rs) \<Rightarrow>
             (Inr (frame_result message err (rs_eei rs), rr_selfdestruct (ei_result (rs_eei rs))),
              ei_evm (rs_eei rs)))"

definition sd_of :: "message \<Rightarrow> destructs" where
  "sd_of message = (case m_selfdestruct message of Some sd \<Rightarrow> sd | None \<Rightarrow> [])"

definition wrap_result :: "bytes option \<Rightarrow> exec_result \<Rightarrow> evm_result" where
  "wrap_result created r = \<lparr>g_gasUsed = x_gasUsed r, g_createdAddress = created, g_execResult = r\<rparr>"

definition early_exit :: "vm_error option \<Rightarrow> exec_result" where
  "early_exit err = \<lparr>x_exceptionError = err, x_gasUsed = 0, x_returnValue = [], x_logs = None,
     x_selfdestruct = None, x_gasRefund = None\<rparr>"

definition executeCall ::
  "vm \<Rightarrow> evm_context \<Rightarrow> exec \<Rightarrow> bytes \<Rightarrow> message \<Rightarrow> (evm, evm_result \<times> destructs) eff" where
  "executeCall vm cx exec to message0 =
     bnd (on_state (sm_getAccount (m_caller message0))) (\<lambda>account.
     andthen (when_eff (\<not> m_delegatecall message0) (reduceSenderBalance account message0))
    (bnd (on_state (sm_getAccount to)) (\<lambda>toAccount.
     bnd (if \<not> m_delegatecall message0 then addToBalance to toAccount message0 else ret None) (\<lambda>errorMessage.
     bnd (loadCode vm message0) (\<lambda>message.
       if m_code message = Some (Bytecode []) \<or> errorMessage \<noteq> None
       then ret (wrap_result None (early_exit errorMessage), sd_of message)
       else (case m_code message of
               Some (Precompile p) \<Rightarrow>
                 bnd (run_precompile vm (cx_precompiles cx) p (m_data message) (m_gasLimit message)) (\<lambda>r.
                   ret (wrap_result None r, sd_of message))
             | _ \<Rightarrow>
                 bnd (runInterpreter vm cx exec message) (\<lambda>(r, sd). ret (wrap_result None r, sd))))))))"

section \<open>Creations\<close>

definition merge_error :: "exec_result \<Rightarrow> exec_result \<Rightarrow> exec_result" where
  "merge_error result err = result\<lparr>x_exceptionError := x_exceptionError err,
     x_gasUsed := x_gasUsed err, x_returnValue := x_returnValue err\<rparr>"

text \<open>
  After the init code ran: the deposit fee, the limits on the deployed code, and the checks of the
  object format. The second component is \<open>CodestoreOOG\<close>.
\<close>

definition eof_deposit :: "vm \<Rightarrow> int \<Rightarrow> int \<Rightarrow> exec_result \<Rightarrow> exec_result" where
  "eof_deposit vm gasLimit totalGas result0 =
     (let result = (if \<not> vm_isActivatedEIP vm 3540
                    then merge_error result0 (INVALID_BYTECODE_RESULT_of gasLimit) else result0)
      in case codeAnalysis (x_returnValue result) of
           None \<Rightarrow> merge_error result (INVALID_EOF_RESULT gasLimit)
         | Some (code, data) \<Rightarrow>
             if code = 0 then merge_error result (INVALID_EOF_RESULT gasLimit)
             else if vm_isActivatedEIP vm 3670
             then (let codeStart = (if data > 0 then 10 else 7)
                   in if \<not> validOpcodes (slice (x_returnValue result) codeStart (codeStart + code))
                      then merge_error result (INVALID_EOF_RESULT gasLimit)
                      else result\<lparr>x_gasUsed := totalGas\<rparr>)
             else result)"

definition deposit :: "vm \<Rightarrow> int \<Rightarrow> exec_result \<Rightarrow> exec_result \<times> bool" where
  "deposit vm gasLimit result =
     (let ok = (x_exceptionError result = None);
          returnFee = (if ok then int (length (x_returnValue result)) * gasPrice vm ''createData'' else 0);
          totalGas = x_gasUsed result + returnFee;
          allowedCodeSize = \<not> (ok \<and> vm_gteHardfork vm ''spuriousDragon'' \<and>
            int (length (x_returnValue result)) > vm_param vm ''vm'' ''maxCodeSize'')
      in if totalGas \<le> gasLimit \<and> (vm_allowUnlimitedContractSize vm \<or> allowedCodeSize)
         then (if vm_isActivatedEIP vm 3541 \<and> at (x_returnValue result) 0 = Some EOF_FORMAT
               then (eof_deposit vm gasLimit totalGas result, False)
               else (result\<lparr>x_gasUsed := totalGas\<rparr>, False))
         else if vm_gteHardfork vm ''homestead''
         then (merge_error result (OOGResult gasLimit), False)
         else if totalGas - returnFee \<le> gasLimit
         then (merge_error result (COOGResult (totalGas - returnFee)), True)
         else (merge_error result (OOGResult gasLimit), False))"

definition save_code :: "vm \<Rightarrow> bytes \<Rightarrow> exec_result \<Rightarrow> bool \<Rightarrow> (evm, unit) eff" where
  "save_code vm to result CodestoreOOG =
     (if x_exceptionError result = None \<and> x_returnValue result \<noteq> []
      then on_state (sm_putContractCode vm to (x_returnValue result))
      else when_eff (CodestoreOOG \<and> \<not> vm_gteHardfork vm ''homestead'')
        (bnd (on_state (sm_getAccount to)) (\<lambda>account. on_state (sm_putAccount to account))))"

definition run_create ::
  "vm \<Rightarrow> evm_context \<Rightarrow> exec \<Rightarrow> bytes \<Rightarrow> message \<Rightarrow> (evm, evm_result \<times> destructs) eff" where
  "run_create vm cx exec to message =
     bnd (runInterpreter vm cx exec message) (\<lambda>(result0, sd).
       let (result, CodestoreOOG) = deposit vm (m_gasLimit message) result0
       in andthen (save_code vm to result CodestoreOOG) (ret (wrap_result (Some to) result, sd)))"

definition executeCreate ::
  "vm \<Rightarrow> evm_context \<Rightarrow> exec \<Rightarrow> message \<Rightarrow> (evm, evm_result \<times> destructs) eff" where
  "executeCreate vm cx exec message0 =
     bnd (on_state (sm_getAccount (m_caller message0))) (\<lambda>account.
     andthen (reduceSenderBalance account message0)
       (if vm_isActivatedEIP vm 3860 \<and>
           int (length (m_data message0)) > vm_param vm ''vm'' ''maxInitCodeSize''
        then ret (wrap_result None (VmErrorResult INITCODE_SIZE_VIOLATION (m_gasLimit message0)), sd_of message0)
        else
          let message1 = message0\<lparr>m_code := Some (Bytecode (m_data message0)), m_data := []\<rparr>
          in bnd (evm_generateAddress vm message1) (\<lambda>to.
             let message = message1\<lparr>m_to := Some to\<rparr>
             in bnd (on_state (sm_getAccount to)) (\<lambda>toAccount0.
                if acc_nonce toAccount0 > 0 \<or> acc_codeHash toAccount0 \<noteq> KECCAK256_NULL
                then ret (wrap_result (Some to) (VmErrorResult CREATE_COLLISION (m_gasLimit message)), sd_of message)
                else
                  andthen (on_state (sm_clearContractStorage to))
                 (bnd (on_state (sm_getAccount to)) (\<lambda>toAccount1.
                    let toAccount = (if vm_gteHardfork vm ''spuriousDragon''
                          then toAccount1\<lparr>acc_nonce := acc_nonce toAccount1 + 1\<rparr> else toAccount1)
                    in bnd (addToBalance to toAccount message) (\<lambda>errorMessage.
                       if code_bytes (m_code message) = [] \<or> errorMessage \<noteq> None
                       then ret (wrap_result (Some to) (early_exit errorMessage), sd_of message)
                       else run_create vm cx exec to message)))))))"

section \<open>Messages\<close>

definition warm_created :: "vm \<Rightarrow> message \<Rightarrow> (evm, message) eff" where
  "warm_created vm message =
     (if m_to message = None \<and> vm_isActivatedEIP vm 2929
      then (let message1 = message\<lparr>m_code := Some (Bytecode (m_data message))\<rparr>
            in bnd (evm_generateAddress vm message1) (\<lambda>a.
                 andthen (on_state (addWarmedAddress a)) (ret message1)))
      else ret message)"

definition close_message :: "vm \<Rightarrow> int \<Rightarrow> evm_result \<Rightarrow> (evm, evm_result) eff" where
  "close_message vm oldRefund result =
     (let err = x_exceptionError (g_execResult result)
      in andthen (when_eff (err \<noteq> None) (modif (\<lambda>ev. ev\<lparr>ev_refund := oldRefund\<rparr>)))
        (bnd (gets ev_refund) (\<lambda>refund.
          let x0 = g_execResult result;
              x1 = (if err \<noteq> None then x0\<lparr>x_selfdestruct := Some []\<rparr> else x0);
              x2 = x1\<lparr>x_gasRefund := Some refund\<rparr>;
              fails = (err \<noteq> None \<and>
                (vm_gteHardfork vm ''homestead'' \<or> err \<noteq> Some CODESTORE_OUT_OF_GAS))
          in if fails
             then andthen (on_state sm_revert) (andthen (on_transient ts_revert)
                    (ret (result\<lparr>g_execResult := x2\<lparr>x_logs := Some []\<rparr>\<rparr>)))
             else andthen (on_state sm_commit) (andthen (on_transient ts_commit)
                    (ret (result\<lparr>g_execResult := x2\<rparr>))))))"

definition message_body :: "vm \<Rightarrow> evm_context \<Rightarrow> exec \<Rightarrow> exec" where
  "message_body vm cx exec message =
     (case m_to message of
        Some to \<Rightarrow> executeCall vm cx exec to message
      | None \<Rightarrow> executeCreate vm cx exec message)"

definition execute_with :: "vm \<Rightarrow> evm_context \<Rightarrow> exec \<Rightarrow> exec" where
  "execute_with vm cx exec message0 =
     bnd (warm_created vm message0) (\<lambda>message.
     bnd (gets ev_refund) (\<lambda>oldRefund.
     andthen (on_state sm_checkpoint)
    (andthen (on_transient ts_checkpoint)
    (bnd (message_body vm cx exec message) (\<lambda>(result, sd).
     bnd (close_message vm oldRefund result) (\<lambda>result'. ret (result', sd)))))))"

text \<open>The EVM calls itself for the messages of a frame; the last argument bounds the nesting.\<close>

fun executeMessage :: "vm \<Rightarrow> evm_context \<Rightarrow> nat \<Rightarrow> exec" where
  "executeMessage vm cx 0 = (\<lambda>message. raise (JsError ''messages nested too deep''))"
| "executeMessage vm cx (Suc n) = execute_with vm cx (executeMessage vm cx n)"

end
