(* ===== verification/Bloom.thy ===== *)
theory Bloom
  imports Evm_State
begin

text \<open>
  \<open>vm/src/bloom/index.ts\<close>: the Bloom filter of 2048 bits that blocks and receipts carry, and the
  filter of a transaction's logs (\<open>txLogsBloom\<close> of \<open>runTx.ts\<close>). The hash is an argument; it is
  keccak256, whose 32 bytes hold the three pairs of bytes that are read.

  What the filter promises: it never forgets. Whatever is added, before or after, by itself or with
  another filter, is found.
\<close>

definition BYTE_SIZE :: nat where
  "BYTE_SIZE = 256"

definition new_bloom :: bytes where
  "new_bloom = replicate BYTE_SIZE 0"

definition bloom_of :: "bytes \<Rightarrow> exn + bytes" where
  "bloom_of bitvector =
     (if length bitvector = BYTE_SIZE then Inr bitvector
      else Inl (JsError ''bitvectors must be 2048 bits long''))"

text \<open>\<open>readUInt16BE(i * 2)\<close>, masked: the position of the bit, as its byte and the bit in the byte.\<close>

definition bit_position :: "bytes \<Rightarrow> nat \<Rightarrow> nat \<times> nat" where
  "bit_position h i =
     (let first2bytes = unat (h ! (i * 2)) * 256 + unat (h ! (i * 2 + 1));
          loc = and 2047 first2bytes
      in (BYTE_SIZE - drop_bit 3 loc - 1, loc mod 8))"

fun add_bits :: "bytes \<Rightarrow> nat list \<Rightarrow> bytes \<Rightarrow> bytes" where
  "add_bits h [] bitvector = bitvector"
| "add_bits h (i # is) bitvector =
     (let (byteLoc, bitLoc) = bit_position h i
      in add_bits h is (bitvector[byteLoc := or (bitvector ! byteLoc) (push_bit bitLoc 1)]))"

definition bloom_add :: "(bytes \<Rightarrow> bytes) \<Rightarrow> bytes \<Rightarrow> bytes \<Rightarrow> bytes" where
  "bloom_add keccak bitvector e = add_bits (keccak e) [0, 1, 2] bitvector"

fun check_bits :: "bytes \<Rightarrow> nat list \<Rightarrow> bytes \<Rightarrow> bool" where
  "check_bits h [] bitvector = True"
| "check_bits h (i # is) bitvector =
     (let (byteLoc, bitLoc) = bit_position h i
      in if and (bitvector ! byteLoc) (push_bit bitLoc 1) \<noteq> 0 then check_bits h is bitvector else False)"

definition bloom_check :: "(bytes \<Rightarrow> bytes) \<Rightarrow> bytes \<Rightarrow> bytes \<Rightarrow> bool" where
  "bloom_check keccak bitvector e = check_bits (keccak e) [0, 1, 2] bitvector"

definition multiCheck :: "(bytes \<Rightarrow> bytes) \<Rightarrow> bytes \<Rightarrow> bytes list \<Rightarrow> bool" where
  "multiCheck keccak bitvector topics = list_all (bloom_check keccak bitvector) topics"

text \<open>
  The loop of \<open>or\<close> runs one index past the end; a \<open>Buffer\<close> ignores the assignment there.
\<close>

fun or_loop :: "nat list \<Rightarrow> bytes \<Rightarrow> bytes \<Rightarrow> bytes" where
  "or_loop [] bs cs = bs"
| "or_loop (i # is) bs cs =
     or_loop is (if i < length bs then bs[i := or (bs ! i) (cs ! i)] else bs) cs"

definition bloom_or :: "bytes \<Rightarrow> bytes \<Rightarrow> bytes" where
  "bloom_or bs cs = or_loop [0..<Suc BYTE_SIZE] bs cs"

fun add_all :: "(bytes \<Rightarrow> bytes) \<Rightarrow> bytes list \<Rightarrow> bytes \<Rightarrow> bytes" where
  "add_all keccak [] b = b"
| "add_all keccak (t # ts) b = add_all keccak ts (bloom_add keccak b t)"

fun add_logs :: "(bytes \<Rightarrow> bytes) \<Rightarrow> log_entry list \<Rightarrow> bytes \<Rightarrow> bytes" where
  "add_logs keccak [] b = b"
| "add_logs keccak ((address, topics, data) # logs) b =
     add_logs keccak logs (add_all keccak topics (bloom_add keccak b address))"

definition txLogsBloom :: "(bytes \<Rightarrow> bytes) \<Rightarrow> log_entry list option \<Rightarrow> bytes" where
  "txLogsBloom keccak logs =
     (case logs of None \<Rightarrow> new_bloom | Some ls \<Rightarrow> add_logs keccak ls new_bloom)"

section \<open>The filter never forgets\<close>

text \<open>A filter covers another when it has all its bits.\<close>

definition covers :: "bytes \<Rightarrow> bytes \<Rightarrow> bool" where
  "covers c b \<longleftrightarrow> length c = length b \<and> (\<forall>i < length b. \<forall>n. bit (b ! i) n \<longrightarrow> bit (c ! i) n)"

lemma covers_refl [simp]: "covers b b"
  by (simp add: covers_def)

lemma covers_trans [trans]: "covers d c \<Longrightarrow> covers c b \<Longrightarrow> covers d b"
  by (auto simp: covers_def)

lemma covers_update: "covers (b[i := or (b ! i) w]) b"
  by (cases "i < length b") (auto simp: covers_def nth_list_update bit_or_iff)

lemma covers_add_bits: "covers (add_bits h is b) b"
proof (induction "is" arbitrary: b)
  case (Cons i "is")
  then show ?case by (auto simp: Let_def split: prod.split intro: covers_trans covers_update)
qed simp

lemma bit_position_less: "fst (bit_position h i) < BYTE_SIZE"
  by (simp add: bit_position_def Let_def BYTE_SIZE_def)

lemma bit_position_bit: "snd (bit_position h i) < 8"
  by (simp add: bit_position_def Let_def)

lemma and_single: "and (w :: byte) (push_bit n 1) \<noteq> 0 \<longleftrightarrow> bit w n" "and (w :: byte) (2 ^ n) \<noteq> 0 \<longleftrightarrow> bit w n"
  by (simp_all add: push_bit_eq_mult and_exp_eq_0_iff_not_bit)

lemma check_bits_iff:
  "check_bits h is b \<longleftrightarrow> (\<forall>i \<in> set is. bit (b ! fst (bit_position h i)) (snd (bit_position h i)))"
  by (induction "is") (auto simp: Let_def and_single split: prod.splits)

lemma check_covers:
  "covers c b \<Longrightarrow> length b = BYTE_SIZE \<Longrightarrow> check_bits h is b \<Longrightarrow> check_bits h is c"
  using bit_position_less by (auto simp: check_bits_iff covers_def)

lemma add_bits_check: "length b = BYTE_SIZE \<Longrightarrow> check_bits h is (add_bits h is b)"
proof (induction "is" arbitrary: b)
  case (Cons i "is")
  obtain p q where pq: "bit_position h i = (p, q)" by force
  let ?b = "b[p := or (b ! p) (push_bit q 1)]"
  have p: "p < length b" "q < 8"
    using bit_position_less [of h i] bit_position_bit [of h i] Cons.prems pq by simp_all
  then have "bit (?b ! p) q" by (simp add: bit_simps)
  moreover have "covers (add_bits h is ?b) ?b" by (rule covers_add_bits)
  ultimately have "bit (add_bits h is ?b ! p) q" using p by (simp add: covers_def)
  then show ?case using Cons pq p by (simp add: Let_def and_single)
qed simp

lemma length_add_bits [simp]: "length (add_bits h is b) = length b"
  using covers_add_bits by (simp add: covers_def)

lemma covers_add: "covers (bloom_add k b e) b"
  unfolding bloom_add_def by (rule covers_add_bits)

lemma covers_add_all: "covers (add_all k ts b) b"
  by (induction ts arbitrary: b) (auto intro: covers_trans covers_add)

lemma covers_add_logs: "covers (add_logs k logs b) b"
  by (induction k logs b rule: add_logs.induct)
    (auto intro: covers_trans [OF _ covers_trans [OF covers_add_all covers_add]])

lemma covers_or: "covers (or_loop is b c) b"
proof (induction "is" b c rule: or_loop.induct)
  case (2 i "is" b c)
  then show ?case by (auto intro: covers_trans covers_update)
qed simp

lemma or_loop_other:
  assumes "length b = length c" "i < length b" "i \<in> set is" "bit (c ! i) n"
  shows "bit (or_loop is b c ! i) n"
  using assms
proof (induction "is" b c rule: or_loop.induct)
  case (2 j "is" b c)
  let ?b = "b[j := or (b ! j) (c ! j)]"
  show ?case
  proof (cases "i = j")
    case True
    have "covers (or_loop is ?b c) ?b"
      by (rule covers_or)
    moreover have "bit (?b ! i) n"
      using 2 True by (simp add: bit_or_iff)
    ultimately show ?thesis using 2 True by (simp add: covers_def)
  next
    case False
    then show ?thesis using 2 by (auto split: if_splits)
  qed
qed simp

lemma bloom_or_covers:
  assumes "length b = BYTE_SIZE" "length c = BYTE_SIZE"
  shows "covers (bloom_or b c) b" and "covers (bloom_or b c) c"
proof -
  show 1: "covers (bloom_or b c) b"
    unfolding bloom_or_def by (rule covers_or)
  show "covers (bloom_or b c) c"
    using assms 1 or_loop_other [of b c _ "[0..<Suc BYTE_SIZE]"]
    by (auto simp: covers_def bloom_or_def)
qed

lemma check_add: "length b = BYTE_SIZE \<Longrightarrow> bloom_check k (bloom_add k b e) e"
  unfolding bloom_check_def bloom_add_def by (rule add_bits_check)

lemma bloom_check_covers:
  "covers c b \<Longrightarrow> length b = BYTE_SIZE \<Longrightarrow> bloom_check k b e \<Longrightarrow> bloom_check k c e"
  unfolding bloom_check_def by (rule check_covers)

lemma length_bloom_add [simp]: "length (bloom_add k b e) = length b"
  unfolding bloom_add_def by (rule length_add_bits)

lemma length_add_all [simp]: "length (add_all k ts b) = length b"
  using covers_add_all by (simp add: covers_def)

lemma length_add_logs [simp]: "length (add_logs k ls b) = length b"
  using covers_add_logs by (simp add: covers_def)

lemma check_add_all: "length b = BYTE_SIZE \<Longrightarrow> t \<in> set ts \<Longrightarrow> bloom_check k (add_all k ts b) t"
proof (induction ts arbitrary: b)
  case (Cons u ts)
  then show ?case
    using bloom_check_covers [OF covers_add_all [of k ts "bloom_add k b u"] _ check_add [of b k u]]
    by auto
qed simp

lemma check_add_logs:
  assumes "length b = BYTE_SIZE" "(address, topics, data) \<in> set logs" "e \<in> insert address (set topics)"
  shows "bloom_check k (add_logs k logs b) e"
  using assms
proof (induction k logs b rule: add_logs.induct)
  case (2 k a ts d logs b)
  let ?c = "bloom_add k b a" and ?d = "add_all k ts (bloom_add k b a)"
  show ?case
  proof (cases "(address, topics, data) \<in> set logs")
    case True
    then show ?thesis using 2 by simp
  next
    case False
    then have eq: "a = address" "ts = topics" using 2 by auto
    have "bloom_check k ?d e"
      using 2 eq check_add_all [of ?c e ts k]
        bloom_check_covers [OF covers_add_all [of k ts ?c] _ check_add [of b k a]]
      by auto
    then show ?thesis
      using bloom_check_covers [OF covers_add_logs [of k logs ?d]] 2 by simp
  qed
qed simp

lemma length_txLogsBloom [simp]: "length (txLogsBloom k logs) = BYTE_SIZE"
  by (simp add: txLogsBloom_def new_bloom_def split: option.split)

text \<open>The bloom of a block: it starts empty, and \<open>or\<close> merges into it one bloom after the other.\<close>

definition merged_bloom :: "bytes list \<Rightarrow> bytes" where
  "merged_bloom blooms = fold (\<lambda>c b. bloom_or b c) blooms new_bloom"

lemma length_bloom_or: "length b = BYTE_SIZE \<Longrightarrow> length c = BYTE_SIZE \<Longrightarrow> length (bloom_or b c) = BYTE_SIZE"
  using bloom_or_covers(1) by (simp add: covers_def)

lemma fold_covers:
  assumes "length b = BYTE_SIZE" "\<forall>c \<in> set cs. length c = BYTE_SIZE"
  shows "length (fold (\<lambda>c b. bloom_or b c) cs b) = BYTE_SIZE \<and> covers (fold (\<lambda>c b. bloom_or b c) cs b) b \<and>
    (\<forall>c \<in> set cs. covers (fold (\<lambda>c b. bloom_or b c) cs b) c)"
  using assms
proof (induction cs arbitrary: b)
  case (Cons c cs)
  then have c: "length c = BYTE_SIZE" and len: "length (bloom_or b c) = BYTE_SIZE" by (simp_all add: length_bloom_or)
  have "covers (bloom_or b c) b" "covers (bloom_or b c) c" using bloom_or_covers Cons.prems(1) c by simp_all
  with Cons.IH [OF len] Cons.prems(2) show ?case by (auto intro: covers_trans)
qed simp

text \<open>C31. The bloom of a transaction's logs finds the address and the topics of each of its logs, and so does the bloom of a block, into
  which the blooms of all its transactions are merged in any order: a filter never misses what is there. A merged bloom
  has 2048 bits as well.\<close>

theorem bloom_finds_logs:
  assumes "(address, topics, data) \<in> set logs" "\<forall>c \<in> set blooms. length c = BYTE_SIZE"
    and "txLogsBloom keccak (Some logs) \<in> set blooms"
  shows "multiCheck keccak (txLogsBloom keccak (Some logs)) (address # topics) \<and>
    multiCheck keccak (merged_bloom blooms) (address # topics) \<and> length (merged_bloom blooms) = BYTE_SIZE"
proof -
  let ?b = "txLogsBloom keccak (Some logs)"
  have found: "bloom_check keccak ?b e" if "e \<in> set (address # topics)" for e
    using check_add_logs [of new_bloom address topics data logs e keccak] that assms(1)
    by (simp add: txLogsBloom_def new_bloom_def)
  have "covers (merged_bloom blooms) ?b" "length (merged_bloom blooms) = BYTE_SIZE"
    using fold_covers [OF _ assms(2), of new_bloom] assms(3) by (simp_all add: merged_bloom_def new_bloom_def)
  with found show ?thesis by (auto simp: multiCheck_def list_all_iff intro: bloom_check_covers)
qed

theorem bloom_finds_logs_witness:
  "multiCheck (\<lambda>b. replicate 32 7)
     (merged_bloom [replicate 256 9, txLogsBloom (\<lambda>b. replicate 32 7) (Some [([1], [[2], [3]], [])]), replicate 256 0]) [[1], [2], [3]]"
  using bloom_finds_logs [of "[1]" "[[2], [3]]" "[]" "[([1], [[2], [3]], [])]"
      "[replicate 256 9, txLogsBloom (\<lambda>b. replicate 32 7) (Some [([1], [[2], [3]], [])]), replicate 256 0]" "\<lambda>b. replicate 32 7"]
  by (simp add: BYTE_SIZE_def)

end
