(* ===== verification/Run_Tx.thy ===== *)
theory Run_Tx
  imports Tx Evm Bloom
begin

text \<open>
  \<open>vm/src/runTx.ts\<close>: running a transaction. \<open>runTx\<close> sets a checkpoint, warms the access list and
  calls \<open>_runTx\<close>, whose steps are definitions of their own: the checks, buying the gas, the message,
  the settlement of the gas and the receipt. What throws in \<open>_runTx\<close> takes the checkpoint back.

  \<open>tx_world\<close> is what the virtual machine brings along that is not in \<open>vm\<close>: the configuration of the
  transaction package, the blockchain's hashes, the precompiled contracts that are not modelled and
  the bounds of the message (steps of a frame and nesting). The header's gas used is a field of the
  options, as only this function reads it. The state manager is the default one, which has
  \<open>generateAccessList\<close>. Not modelled: the events, the debug output, the texts \<open>_errorMsg\<close> adds to an error,
  and that \<open>results.execResult.gasUsed\<close> is the same object as \<open>results.gasUsed\<close>, so that it changes too.
\<close>

record run_tx_opts =
  o_block :: header
  o_blockHeaderGasUsed :: int
  o_skipNonce :: bool
  o_skipBalance :: bool
  o_skipBlockGasLimitValidation :: bool
  o_reportAccessList :: bool
  o_blockGasUsed :: "int option"

record tx_world =
  w_cfg :: tx_cfg
  w_blockHash :: "int \<Rightarrow> exn + bytes"
  w_steps :: nat
  w_depth :: nat
  w_precompiles :: "nat \<Rightarrow> pure_precompile"

datatype receipt_head = Status nat | StateRoot bytes

record receipt =
  rc_head :: receipt_head
  rc_gasUsed :: bytes
  rc_bitvector :: bytes
  rc_logs :: "log_entry list"

record run_tx_result = evm_result +
  t_bloom :: bytes
  t_amountSpent :: int
  t_receipt :: receipt
  t_accessList :: "access_list option"

section \<open>The parts of a transaction that are read\<close>

definition type_error :: exn where
  "type_error = JsError ''Cannot read properties of undefined''"

text \<open>\<open>block.header.baseFeePerGas!\<close>, used as a number.\<close>

definition block_baseFee :: "header \<Rightarrow> exn + int" where
  "block_baseFee h = (case h_baseFeePerGas h of Some b \<Rightarrow> Inr b | None \<Rightarrow> Inl type_error)"

definition market_fees :: "transaction \<Rightarrow> exn + int \<times> int" where
  "market_fees t = (case tx_payload t of FeeMarketEIP1559 c p f l \<Rightarrow> Inr (p, f) | _ \<Rightarrow> Inl type_error)"

definition tx_gasPrice :: "transaction \<Rightarrow> exn + int" where
  "tx_gasPrice t =
     (case tx_payload t of
        Legacy g \<Rightarrow> Inr g | AccessListEIP2930 c g l \<Rightarrow> Inr g | FeeMarketEIP1559 c p f l \<Rightarrow> Inl type_error)"

definition tx_accessList :: "transaction \<Rightarrow> access_list" where
  "tx_accessList t =
     (case tx_payload t of Legacy g \<Rightarrow> [] | AccessListEIP2930 c g l \<Rightarrow> l | FeeMarketEIP1559 c p f l \<Rightarrow> l)"

text \<open>The keys of \<open>precompiles\<close>, in their order, and \<open>getActivePrecompiles\<close> without custom ones.\<close>

definition precompile_keys :: "nat list" where
  "precompile_keys = [1..<0x13] @ [0xfd, 0xce10]"

definition getActivePrecompiles :: "vm \<Rightarrow> bytes list" where
  "getActivePrecompiles vm =
     map short_address (filter (\<lambda>n. getPrecompile vm (short_address n) \<noteq> None) precompile_keys)"

section \<open>Before the message\<close>

definition warm_tx :: "vm \<Rightarrow> run_tx_opts \<Rightarrow> transaction \<Rightarrow> bytes \<Rightarrow> (state_manager, unit) eff" where
  "warm_tx vm opts t caller =
     when_eff (vm_isActivatedEIP vm 2929)
       (andthen (for_each (getActivePrecompiles vm) addWarmedAddress)
       (andthen (addWarmedAddress caller)
       (andthen (case tx_to t of None \<Rightarrow> ret () | Some a \<Rightarrow> addWarmedAddress a)
         (when_eff (vm_isActivatedEIP vm 3651) (addWarmedAddress (h_coinbase (o_block opts)))))))"

definition check_maxFee :: "vm \<Rightarrow> run_tx_opts \<Rightarrow> transaction \<Rightarrow> exn + unit" where
  "check_maxFee vm opts t =
     (if vm_isActivatedEIP vm 1559
      then bindS (case tx_payload t of FeeMarketEIP1559 c p f l \<Rightarrow> Inr f | _ \<Rightarrow> tx_gasPrice t) (\<lambda>maxFeePerGas.
           bindS (block_baseFee (o_block opts)) (\<lambda>baseFeePerGas.
             if maxFeePerGas < baseFeePerGas
             then Inl (JsError ''maxFeePerGas is less than the baseFeePerGas of the block'') else Inr ()))
      else Inr ())"

definition check_balance :: "run_tx_opts \<Rightarrow> transaction \<Rightarrow> int \<Rightarrow> exn + unit" where
  "check_balance opts t balance =
     (if o_skipBalance opts then Inr ()
      else if balance < getUpfrontCost t (case h_baseFeePerGas (o_block opts) of Some b \<Rightarrow> b | None \<Rightarrow> 0)
      then Inl (JsError ''sender does not have enough funds: the upfront cost'')
      else if tx_supports t 1559
      then bindS (market_fees t) (\<lambda>(maxPriorityFeePerGas, maxFeePerGas).
             if balance < tx_gasLimit t * maxFeePerGas + tx_value t
             then Inl (JsError ''sender does not have enough funds: the max cost'') else Inr ())
      else Inr ())"

definition check_nonce :: "run_tx_opts \<Rightarrow> transaction \<Rightarrow> int \<Rightarrow> exn + unit" where
  "check_nonce opts t nonce =
     (if \<not> o_skipNonce opts \<and> nonce \<noteq> tx_nonce t
      then Inl (JsError ''the tx does not have the correct nonce'') else Inr ())"

text \<open>The gas price and, when it is defined, the fee per gas of the miner.\<close>

definition effective_price :: "vm \<Rightarrow> run_tx_opts \<Rightarrow> transaction \<Rightarrow> exn + int \<times> int option" where
  "effective_price vm opts t =
     (if tx_supports t 1559
      then bindS (block_baseFee (o_block opts)) (\<lambda>baseFee.
           bindS (market_fees t) (\<lambda>(maxPriorityFeePerGas, maxFeePerGas).
             let inclusionFeePerGas = min maxPriorityFeePerGas (maxFeePerGas - baseFee)
             in Inr (inclusionFeePerGas + baseFee, Some inclusionFeePerGas)))
      else bindS (tx_gasPrice t) (\<lambda>price.
           if vm_isActivatedEIP vm 1559
           then bindS (block_baseFee (o_block opts)) (\<lambda>baseFee. Inr (price, Some (price - baseFee)))
           else Inr (price, None)))"

definition check_account :: "vm \<Rightarrow> run_tx_opts \<Rightarrow> transaction \<Rightarrow> account \<Rightarrow> exn + unit" where
  "check_account vm opts t fromAccount =
     (if vm_isActivatedEIP vm 3607 \<and> acc_codeHash fromAccount \<noteq> KECCAK256_NULL
      then Inl (JsError ''invalid sender address, address is not EOA (EIP-3607)'')
      else bindS (check_balance opts t (acc_balance fromAccount)) (\<lambda>_.
           check_nonce opts t (acc_nonce fromAccount)))"

definition buy_gas :: "int \<Rightarrow> transaction \<Rightarrow> account \<Rightarrow> account" where
  "buy_gas price t fromAccount = fromAccount\<lparr>acc_nonce := acc_nonce fromAccount + 1,
     acc_balance := acc_balance fromAccount - tx_gasLimit t * price\<rparr>"

text \<open>The sender, the gas left for the message, the gas price and the miner's fee per gas.\<close>

definition tx_prologue ::
  "vm \<Rightarrow> tx_world \<Rightarrow> run_tx_opts \<Rightarrow> transaction \<Rightarrow> (state_manager, bytes \<times> int \<times> int \<times> int option) eff" where
  "tx_prologue vm w opts t =
     bnd (of_sum (getSenderAddress (w_cfg w) t)) (\<lambda>caller.
     andthen (warm_tx vm opts t caller)
    (andthen (guard_eff (\<not> tx_gasLimit t < getBaseFee t) (JsError ''base fee exceeds gas limit''))
    (let gasLimit = tx_gasLimit t - getBaseFee t
     in andthen (of_sum (check_maxFee vm opts t))
       (bnd (sm_getAccount caller) (\<lambda>fromAccount.
        andthen (of_sum (check_account vm opts t fromAccount))
       (bnd (of_sum (effective_price vm opts t)) (\<lambda>(price, inclusionFeePerGas).
        andthen (sm_putAccount caller (buy_gas price t fromAccount))
          (ret (caller, gasLimit, price, inclusionFeePerGas)))))))))"

section \<open>The message\<close>

definition tx_context :: "tx_world \<Rightarrow> run_tx_opts \<Rightarrow> bytes \<Rightarrow> int \<Rightarrow> evm_context" where
  "tx_context w opts caller price =
     \<lparr>cx_gasPrice = price, cx_origin = caller, cx_block = o_block opts, cx_blockHash = w_blockHash w,
      cx_steps = w_steps w, cx_precompiles = w_precompiles w\<rparr>"

definition tx_to_message :: "transaction \<Rightarrow> bytes \<Rightarrow> int \<Rightarrow> message" where
  "tx_to_message t caller gasLimit = new_message\<lparr>m_caller := caller, m_gasLimit := gasLimit, m_to := tx_to t,
     m_value := tx_value t, m_data := tx_data t\<rparr>"

text \<open>A new \<open>EVM\<close> on the state manager.\<close>

definition run_message ::
  "vm \<Rightarrow> tx_world \<Rightarrow> run_tx_opts \<Rightarrow> transaction \<Rightarrow> bytes \<Rightarrow> int \<Rightarrow> int \<Rightarrow> (state_manager, evm_result) eff" where
  "run_message vm w opts t caller gasLimit price s =
     (case bnd (of_sum (check_message (tx_to_message t caller gasLimit)))
             (executeMessage vm (tx_context w opts caller price) (w_depth w))
             \<lparr>ev_state = s, ev_refund = 0, ev_transientStorage = new_transient_storage\<rparr>
      of (Inl e, ev) \<Rightarrow> (Inl e, ev_state ev)
       | (Inr (result, sd), ev) \<Rightarrow> (Inr result, ev_state ev))"

section \<open>After the message\<close>

text \<open>The gas that is charged: what the message used and the base fee, less the capped refund.\<close>

definition charged_gas :: "vm \<Rightarrow> transaction \<Rightarrow> evm_result \<Rightarrow> int" where
  "charged_gas vm t results =
     (let gasUsed = g_gasUsed results + getBaseFee t;
          gasRefund = (case x_gasRefund (g_execResult results) of Some r \<Rightarrow> r | None \<Rightarrow> 0)
      in if gasRefund \<noteq> 0
         then gasUsed - min gasRefund (bn_div gasUsed (vm_param vm ''gasConfig'' ''maxRefundQuotient''))
         else gasUsed)"

definition tx_miner :: "vm \<Rightarrow> header \<Rightarrow> bytes" where
  "tx_miner vm h =
     (if vm_consensusType vm = ''poa''
      then (case h_cliqueSigner h of Some a \<Rightarrow> a | None \<Rightarrow> replicate 20 0)
      else h_coinbase h)"

definition miner_fee :: "vm \<Rightarrow> int \<Rightarrow> int \<Rightarrow> int option \<Rightarrow> exn + int" where
  "miner_fee vm gasUsed price inclusionFeePerGas =
     (if vm_isActivatedEIP vm 1559
      then (case inclusionFeePerGas of Some fee \<Rightarrow> Inr (gasUsed * fee) | None \<Rightarrow> Inl type_error)
      else Inr (gasUsed * price))"

definition add_balance :: "bytes \<Rightarrow> int \<Rightarrow> (state_manager, unit) eff" where
  "add_balance address amount =
     bnd (sm_getAccount address) (\<lambda>a.
       sm_putAccount address (a\<lparr>acc_balance := acc_balance a + amount\<rparr>))"

text \<open>The sender's refund and the miner's fee, for the gas that is charged.\<close>

definition settle ::
  "vm \<Rightarrow> run_tx_opts \<Rightarrow> transaction \<Rightarrow> bytes \<Rightarrow> int \<Rightarrow> int option \<Rightarrow> int \<Rightarrow> (state_manager, unit) eff" where
  "settle vm opts t caller price inclusionFeePerGas gasUsed =
     andthen (add_balance caller (tx_gasLimit t * price - gasUsed * price))
       (bnd (sm_getAccount (tx_miner vm (o_block opts))) (\<lambda>minerAccount.
        bnd (of_sum (miner_fee vm gasUsed price inclusionFeePerGas)) (\<lambda>fee.
          sm_putAccount (tx_miner vm (o_block opts))
            (minerAccount\<lparr>acc_balance := acc_balance minerAccount + fee\<rparr>))))"

definition delete_destructed :: "exec_result \<Rightarrow> (state_manager, unit) eff" where
  "delete_destructed r =
     (case x_selfdestruct r of
        None \<Rightarrow> ret ()
      | Some sd \<Rightarrow> for_each (map fst sd) sm_deleteAccount)"

definition sm_getStateRoot :: "vm \<Rightarrow> (state_manager, bytes) eff" where
  "sm_getStateRoot vm =
     andthen sm_flush (gets (\<lambda>s. vm_merkle_root vm (\<lambda>k. map_option (vm_rlp vm) (trie_root (sm_trie s) k))))"

definition status_of :: "evm_result \<Rightarrow> receipt_head" where
  "status_of results = Status (if x_exceptionError (g_execResult results) \<noteq> None then 0 else 1)"

definition generateTxReceipt ::
  "vm \<Rightarrow> transaction \<Rightarrow> evm_result \<Rightarrow> bytes \<Rightarrow> int \<Rightarrow> (state_manager, receipt) eff" where
  "generateTxReceipt vm t results bloom cumulativeGasUsed =
     (let baseReceipt = (\<lambda>h. \<lparr>rc_head = h, rc_gasUsed = toArrayLike_min cumulativeGasUsed,
            rc_bitvector = bloom,
            rc_logs = (case x_logs (g_execResult results) of Some ls \<Rightarrow> ls | None \<Rightarrow> [])\<rparr>)
      in if \<not> tx_supports t 2718
         then if vm_gteHardfork vm ''byzantium''
              then ret (baseReceipt (status_of results))
              else bnd (sm_getStateRoot vm) (\<lambda>stateRoot. ret (baseReceipt (StateRoot stateRoot)))
         else ret (baseReceipt (status_of results)))"

definition tx_epilogue ::
  "vm \<Rightarrow> tx_world \<Rightarrow> run_tx_opts \<Rightarrow> transaction \<Rightarrow> bytes \<Rightarrow> int \<Rightarrow> int option \<Rightarrow> evm_result \<Rightarrow>
   (state_manager, run_tx_result) eff" where
  "tx_epilogue vm w opts t caller price inclusionFeePerGas results =
     (let bloom = txLogsBloom (vm_keccak256 vm) (x_logs (g_execResult results));
          gasUsed = charged_gas vm t results
      in andthen (settle vm opts t caller price inclusionFeePerGas gasUsed)
        (andthen (delete_destructed (g_execResult results))
        (andthen (sm_cleanupTouchedAccounts vm)
        (andthen sm_clearOriginalStorageCache
          (let cumulativeGasUsed =
                 (case o_blockGasUsed opts of Some g \<Rightarrow> g | None \<Rightarrow> o_blockHeaderGasUsed opts) + gasUsed
           in bnd (generateTxReceipt vm t results bloom cumulativeGasUsed) (\<lambda>receipt.
                ret (evm_result.extend (results\<lparr>g_gasUsed := gasUsed\<rparr>)
                  (run_tx_result.fields bloom (gasUsed * price) receipt None))))))))"

definition run_tx_inner ::
  "vm \<Rightarrow> tx_world \<Rightarrow> run_tx_opts \<Rightarrow> transaction \<Rightarrow> (state_manager, run_tx_result) eff" where
  "run_tx_inner vm w opts t =
     bnd (tx_prologue vm w opts t) (\<lambda>(caller, gasLimit, price, inclusionFeePerGas).
     bnd (run_message vm w opts t caller gasLimit price)
       (tx_epilogue vm w opts t caller price inclusionFeePerGas))"

section \<open>The checkpoint around it\<close>

definition revert_and_throw :: "exn \<Rightarrow> (state_manager, 'a) eff" where
  "revert_and_throw e = andthen sm_revert (raise e)"

definition warm_list :: "access_list \<Rightarrow> (state_manager, unit) eff" where
  "warm_list l = for_each l (\<lambda>(address, slots).
     andthen (addWarmedAddress address) (for_each slots (addWarmedStorage address)))"

definition typed_setup :: "vm \<Rightarrow> transaction \<Rightarrow> (state_manager, unit) eff" where
  "typed_setup vm t =
     when_eff (tx_supports t 2718 \<and> vm_isActivatedEIP vm 2718)
       (if \<not> vm_isActivatedEIP vm 2930
        then revert_and_throw (JsError ''Cannot run transaction: EIP 2930 is not activated.'')
        else if tx_supports t 1559 \<and> \<not> vm_isActivatedEIP vm 1559
        then revert_and_throw (JsError ''Cannot run transaction: EIP 1559 is not activated.'')
        else warm_list (tx_accessList t))"

text \<open>\<open>catch\<close> and \<open>finally\<close>, as the function uses them.\<close>

definition try_catch :: "('s, 'a) eff \<Rightarrow> (exn \<Rightarrow> ('s, 'a) eff) \<Rightarrow> ('s, 'a) eff" where
  "try_catch m handler s = (case m s of (Inl e, s') \<Rightarrow> handler e s' | (Inr x, s') \<Rightarrow> (Inr x, s'))"

definition finally_do :: "('s, 'a) eff \<Rightarrow> ('s, unit) eff \<Rightarrow> ('s, 'a) eff" where
  "finally_do m f s =
     (case m s of (r, s') \<Rightarrow> (case f s' of (Inl e, s'') \<Rightarrow> (Inl e, s'') | (Inr _, s'') \<Rightarrow> (r, s'')))"

definition report_access ::
  "vm \<Rightarrow> tx_world \<Rightarrow> run_tx_opts \<Rightarrow> transaction \<Rightarrow> run_tx_result \<Rightarrow> (state_manager, run_tx_result) eff" where
  "report_access vm w opts t result =
     (if vm_isActivatedEIP vm 2929 \<and> o_reportAccessList opts
      then bnd (of_sum (getSenderAddress (w_cfg w) t)) (\<lambda>sender.
           let removed = sender # getActivePrecompiles vm;
               onlyStorage = (case tx_to t of Some a \<Rightarrow> [a] | None \<Rightarrow> [])
           in bnd (gets (generateAccessList removed onlyStorage)) (\<lambda>l.
                ret (result\<lparr>t_accessList := Some l\<rparr>)))
      else ret result)"

definition clear_warmed :: "vm \<Rightarrow> (state_manager, unit) eff" where
  "clear_warmed vm = when_eff (vm_isActivatedEIP vm 2929) clearWarmedAccounts"

definition runTx ::
  "vm \<Rightarrow> tx_world \<Rightarrow> run_tx_opts \<Rightarrow> transaction \<Rightarrow> (state_manager, run_tx_result) eff" where
  "runTx vm w opts t =
     andthen (guard_eff (o_skipBlockGasLimitValidation opts \<or> \<not> h_gasLimit (o_block opts) < tx_gasLimit t)
        (JsError ''tx has a higher gas limit than the block''))
    (andthen (clear_warmed vm)
    (andthen sm_checkpoint
    (andthen (typed_setup vm t)
      (finally_do
        (try_catch
          (bnd (run_tx_inner vm w opts t) (\<lambda>result.
             andthen sm_commit (report_access vm w opts t result)))
          revert_and_throw)
        (clear_warmed vm)))))"

end
