(* ===== verification/Block_Header.thy ===== *)
theory Block_Header
  imports Tx
begin

text \<open>
  \<open>block/src/header.ts\<close>: block headers, their checks and their arithmetic (difficulty, gas limit, base
  fee), and the seals of clique. \<open>block_cfg\<close> is what the file takes from elsewhere: the configuration of
  the transaction package (keccak256, RLP and secp256k1 of the registry), and two tables of \<open>Common\<close>
  that are JSON data, the genesis block and the clique parameters of a chain. A JSON \<open>null\<close> in the
  genesis is the number 0 or the empty buffer, as \<open>toBuffer\<close> makes it. The cache of the hash, \<open>toJSON\<close>, \<open>errorStr\<close>
  and the deprecated alias \<open>bloom\<close> are not modelled.
\<close>

record genesis_params =
  gp_gasLimit :: int
  gp_timestamp :: int
  gp_difficulty :: int
  gp_extraData :: bytes
  gp_nonce :: bytes
  gp_stateRoot :: bytes
  gp_baseFeePerGas :: "int option"

record block_cfg =
  bc_tx :: tx_cfg
  bc_genesis :: "common \<Rightarrow> genesis_params"
  bc_period :: "common \<Rightarrow> int"
  bc_epoch :: "common \<Rightarrow> int"

record header_fields =
  bh_parentHash :: bytes
  bh_uncleHash :: bytes
  bh_coinbase :: bytes
  bh_stateRoot :: bytes
  bh_transactionsTrie :: bytes
  bh_receiptTrie :: bytes
  bh_logsBloom :: bytes
  bh_difficulty :: int
  bh_number :: int
  bh_gasLimit :: int
  bh_gasUsed :: int
  bh_timestamp :: int
  bh_extraData :: bytes
  bh_mixHash :: bytes
  bh_nonce :: bytes
  bh_baseFeePerGas :: "int option"

record block_header = header_fields +
  bh_common :: common

record block_opts =
  bo_common :: "common option"
  bo_hardforkByBlockNumber :: "bool option"
  bo_hardforkByTD :: "int option"
  bo_initWithGenesisHeader :: bool
  bo_calcDifficultyFromHeader :: "block_header option"
  bo_cliqueSigner :: "bytes option"

definition no_block_opts :: block_opts where
  "no_block_opts = \<lparr>bo_common = None, bo_hardforkByBlockNumber = None, bo_hardforkByTD = None,
     bo_initWithGenesisHeader = False, bo_calcDifficultyFromHeader = None, bo_cliqueSigner = None\<rparr>"

definition CLIQUE_EXTRA_VANITY :: nat where "CLIQUE_EXTRA_VANITY = 32"
definition CLIQUE_EXTRA_SEAL :: nat where "CLIQUE_EXTRA_SEAL = 65"
definition CLIQUE_DIFF_INTURN :: int where "CLIQUE_DIFF_INTURN = 2"
definition CLIQUE_DIFF_NOTURN :: int where "CLIQUE_DIFF_NOTURN = 1"

definition DEFAULT_GAS_LIMIT :: int where
  "DEFAULT_GAS_LIMIT = 0xffffffffffffff"

definition KECCAK256_RLP_ARRAY :: bytes where
  "KECCAK256_RLP_ARRAY = be_bytes 32 0x1dcc4de8dec75d7aab85b567b6ccd41ad312451b948a7413f0a142fd40d49347"

section \<open>Numbers\<close>

text \<open>\<open>new BN(common.param(topic, name))\<close>; a \<open>null\<close> makes the number 0.\<close>

definition num_param :: "common \<Rightarrow> string \<Rightarrow> string \<Rightarrow> exn + int" where
  "num_param c topic name = bindS (param c topic name) (\<lambda>v. Inr (case v of Some x \<Rightarrow> x | None \<Rightarrow> 0))"

definition num_paramByHardfork :: "common \<Rightarrow> string \<Rightarrow> string \<Rightarrow> string \<Rightarrow> exn + int" where
  "num_paramByHardfork c topic name hardfork =
     bindS (paramByHardfork c topic name hardfork) (\<lambda>v. Inr (case v of Some x \<Rightarrow> x | None \<Rightarrow> 0))"

text \<open>A parameter that is used as a JavaScript number where \<open>null\<close> throws.\<close>

definition js_number :: "int option \<Rightarrow> exn + int" where
  "js_number v = (case v of Some x \<Rightarrow> Inr x | None \<Rightarrow> Inl (JsError ''AssertionError''))"

text \<open>\<open>BN.div\<close> and \<open>BN.mod\<close> assert that the divisor is not zero.\<close>

definition div_checked :: "int \<Rightarrow> int \<Rightarrow> exn + int" where
  "div_checked a b = (if b = 0 then Inl (JsError ''AssertionError'') else Inr (bn_div a b))"

definition mod_checked :: "int \<Rightarrow> int \<Rightarrow> exn + int" where
  "mod_checked a b = (if b = 0 then Inl (JsError ''AssertionError'') else Inr (bn_mod a b))"

text \<open>\<open>buffer.slice(0, end)\<close> for an end that may be negative, and \<open>buffer.slice(-n)\<close>.\<close>

definition slice_to :: "bytes \<Rightarrow> int \<Rightarrow> bytes" where
  "slice_to b e = take (nat (if e < 0 then max 0 (int (length b) + e) else e)) b"

definition slice_last :: "bytes \<Rightarrow> nat \<Rightarrow> bytes" where
  "slice_last b n = drop (length b - n) b"

section \<open>Hash, genesis, clique\<close>

definition header_raw :: "block_header \<Rightarrow> bytes list" where
  "header_raw h =
     [bh_parentHash h, bh_uncleHash h, bh_coinbase h, bh_stateRoot h, bh_transactionsTrie h,
      bh_receiptTrie h, bh_logsBloom h, bnToUnpaddedBuffer (bh_difficulty h),
      bnToUnpaddedBuffer (bh_number h), bnToUnpaddedBuffer (bh_gasLimit h),
      bnToUnpaddedBuffer (bh_gasUsed h), bnToUnpaddedBuffer (bh_timestamp h), bh_extraData h,
      bh_mixHash h, bh_nonce h] @
     (if isActivatedEIP (bh_common h) 1559
      then [bnToUnpaddedBuffer (case bh_baseFeePerGas h of Some f \<Rightarrow> f | None \<Rightarrow> 0)] else [])"

definition rlp_of_raw :: "block_cfg \<Rightarrow> bytes list \<Rightarrow> bytes" where
  "rlp_of_raw cfg raw = txc_encode (bc_tx cfg) (Items (map Item raw))"

definition header_serialize :: "block_cfg \<Rightarrow> block_header \<Rightarrow> bytes" where
  "header_serialize cfg h = rlp_of_raw cfg (header_raw h)"

definition header_hash :: "block_cfg \<Rightarrow> block_header \<Rightarrow> bytes" where
  "header_hash cfg h = txc_keccak256 (bc_tx cfg) (rlp_of_raw cfg (header_raw h))"

definition isGenesis :: "block_header \<Rightarrow> bool" where
  "isGenesis h \<longleftrightarrow> bh_number h = 0"

definition requireClique :: "block_header \<Rightarrow> exn + unit" where
  "requireClique h =
     (if consensusAlgorithm (bh_common h) \<noteq> ''clique''
      then Inl (JsError ''call only supported for clique PoA networks'') else Inr ())"

definition cliqueSigHash :: "block_cfg \<Rightarrow> block_header \<Rightarrow> exn + bytes" where
  "cliqueSigHash cfg h =
     bindS (requireClique h) (\<lambda>_.
       let raw = (header_raw h)[12 := slice_to (bh_extraData h)
             (int (length (bh_extraData h)) - int CLIQUE_EXTRA_SEAL)]
       in Inr (txc_keccak256 (bc_tx cfg) (rlp_of_raw cfg raw)))"

definition cliqueIsEpochTransition :: "block_cfg \<Rightarrow> block_header \<Rightarrow> exn + bool" where
  "cliqueIsEpochTransition cfg h =
     bindS (requireClique h) (\<lambda>_.
     bindS (mod_checked (bh_number h) (bc_epoch cfg (bh_common h))) (\<lambda>r. Inr (r = 0)))"

definition cliqueExtraVanity :: "block_header \<Rightarrow> exn + bytes" where
  "cliqueExtraVanity h = bindS (requireClique h) (\<lambda>_. Inr (take CLIQUE_EXTRA_VANITY (bh_extraData h)))"

definition cliqueExtraSeal :: "block_header \<Rightarrow> exn + bytes" where
  "cliqueExtraSeal h = bindS (requireClique h) (\<lambda>_. Inr (slice_last (bh_extraData h) CLIQUE_EXTRA_SEAL))"

definition cliqueSealBlock :: "block_cfg \<Rightarrow> block_header \<Rightarrow> bytes \<Rightarrow> exn + bytes" where
  "cliqueSealBlock cfg h privateKey =
     bindS (requireClique h) (\<lambda>_.
     bindS (cliqueSigHash cfg h) (\<lambda>sigHash.
     bindS (ecsign (txc_sign (bc_tx cfg)) sigHash privateKey) (\<lambda>signature.
     bindS (intToBuffer (sig_v signature - 27)) (\<lambda>vB.
       let signatureB = sig_r signature @ sig_s signature @ vB;
           extraDataWithoutSeal = slice_to (bh_extraData h)
             (int (length (bh_extraData h)) - int CLIQUE_EXTRA_SEAL)
       in Inr (extraDataWithoutSeal @ signatureB)))))"

fun signer_chunks :: "nat \<Rightarrow> bytes \<Rightarrow> bytes list" where
  "signer_chunks 0 b = []"
| "signer_chunks (Suc n) b = (if length b < 20 then [] else take 20 b # signer_chunks n (drop 20 b))"

text \<open>The signers between the vanity and the seal; the loop takes whole chunks of 20 bytes.\<close>

definition cliqueEpochTransitionSigners :: "block_cfg \<Rightarrow> block_header \<Rightarrow> exn + bytes list" where
  "cliqueEpochTransitionSigners cfg h =
     bindS (cliqueIsEpochTransition cfg h) (\<lambda>transition.
       if \<not> transition then Inl (JsError ''Signers are only included in epoch transition blocks (clique)'')
       else (let e = int (length (bh_extraData h)) - int CLIQUE_EXTRA_SEAL;
                 signerBuffer = drop CLIQUE_EXTRA_VANITY (slice_to (bh_extraData h) e)
             in Inr (signer_chunks (length signerBuffer) signerBuffer)))"

definition cliqueSigner :: "block_cfg \<Rightarrow> block_header \<Rightarrow> exn + bytes" where
  "cliqueSigner cfg h =
     bindS (cliqueExtraSeal h) (\<lambda>extraSeal.
       if length extraSeal = 0 then Inr (replicate 20 0)
       else (let r = slice extraSeal 0 32; s = slice extraSeal 32 64;
                 v = bn_of_bytes (slice extraSeal 64 65) + 27
             in bindS (cliqueSigHash cfg h) (\<lambda>sigHash.
                bindS (ecrecover (txc_recover (bc_tx cfg)) sigHash v r s None) (\<lambda>pubKey.
                bindS (pubToAddress (txc_keccak256 (bc_tx cfg)) pubKey) newAddress))))"

definition cliqueVerifySignature :: "block_cfg \<Rightarrow> block_header \<Rightarrow> bytes list \<Rightarrow> exn + bool" where
  "cliqueVerifySignature cfg h signerList =
     bindS (requireClique h) (\<lambda>_.
     bindS (cliqueSigner cfg h) (\<lambda>signerAddress. Inr (signerAddress \<in> set signerList)))"

section \<open>Difficulty, gas limit, base fee\<close>

definition header_hardfork :: "block_header \<Rightarrow> exn + string" where
  "header_hardfork h =
     (if cur_hardfork (bh_common h) \<noteq> [] then Inr (cur_hardfork (bh_common h))
      else bindS (toNumber (bh_number h)) (\<lambda>n. activeHardfork (bh_common h) (Some (int n)) True))"

definition hf_gte :: "common \<Rightarrow> string \<Rightarrow> string \<Rightarrow> exn + bool" where
  "hf_gte c hardfork1 hardfork2 = hardforkGteHardfork c (Some hardfork1) hardfork2 False None"

text \<open>\<open>MAX(cutoff, addend - (timestamp - parent timestamp) / divisor)\<close>.\<close>

definition difficulty_factor :: "int \<Rightarrow> int \<Rightarrow> int \<Rightarrow> int" where
  "difficulty_factor elapsed divisor addend = (let a = - bn_div elapsed divisor + addend in if -99 > a then -99 else a)"

definition difficulty_step :: "block_header \<Rightarrow> block_header \<Rightarrow> string \<Rightarrow> int \<Rightarrow> exn + int \<times> int" where
  "difficulty_step h parent hardfork offset =
     (let elapsed = bh_timestamp h - bh_timestamp parent; parentDif = bh_difficulty parent
      in bindS (hf_gte (bh_common h) hardfork ''byzantium'') (\<lambda>byzantium.
         if byzantium
         then (let uncleAddend = (if bh_uncleHash parent = KECCAK256_RLP_ARRAY then 1 else 2);
                   dif = parentDif + offset * difficulty_factor elapsed 9 uncleAddend
               in bindS (param (bh_common h) ''pow'' ''difficultyBombDelay'') (\<lambda>v.
                  bindS (js_number v) (\<lambda>delay. Inr (dif, max 0 (bh_number h - delay)))))
         else bindS (hf_gte (bh_common h) hardfork ''homestead'') (\<lambda>homestead.
           if homestead
           then Inr (parentDif + offset * difficulty_factor elapsed 10 1, bh_number h)
           else bindS (paramByHardfork (bh_common h) ''pow'' ''durationLimit'' hardfork) (\<lambda>v.
                bindS (js_number v) (\<lambda>durationLimit.
                  Inr (if bh_timestamp parent + durationLimit > bh_timestamp h
                       then offset + parentDif else parentDif - offset, bh_number h))))))"

definition canonicalDifficulty :: "block_header \<Rightarrow> block_header \<Rightarrow> exn + int" where
  "canonicalDifficulty h parent =
     (if consensusType (bh_common h) \<noteq> ''pow''
      then Inl (JsError ''difficulty calculation is only supported on PoW chains'')
      else if consensusAlgorithm (bh_common h) \<noteq> ''ethash''
      then Inl (JsError ''difficulty calculation currently only supports the ethash algorithm'')
      else bindS (header_hardfork h) (\<lambda>hardfork.
           bindS (num_paramByHardfork (bh_common h) ''pow'' ''minimumDifficulty'' hardfork) (\<lambda>minimumDifficulty.
           bindS (num_paramByHardfork (bh_common h) ''pow'' ''difficultyBoundDivisor'' hardfork) (\<lambda>divisor.
           bindS (div_checked (bh_difficulty parent) divisor) (\<lambda>offset.
           bindS (difficulty_step h parent hardfork offset) (\<lambda>(dif, num).
             let expo = bn_div num 100000 - 2;
                 dif' = (if 0 \<le> expo then dif + 2 ^ nat expo else dif)
             in Inr (if dif' < minimumDifficulty then minimumDifficulty else dif')))))))"

definition validateDifficulty :: "block_header \<Rightarrow> block_header \<Rightarrow> exn + bool" where
  "validateDifficulty h parent = bindS (canonicalDifficulty h parent) (\<lambda>d. Inr (d = bh_difficulty h))"

text \<open>
  The position of the signer among the active signers, which \<open>findIndex\<close> looks up with a call of
  \<open>cliqueSigner\<close>; no position is the remainder of a division. The signers are those of
  \<open>blockchain.cliqueActiveSigners()\<close>, when the blockchain has that method.
\<close>

fun signer_index :: "bytes list \<Rightarrow> bytes \<Rightarrow> int \<Rightarrow> int" where
  "signer_index [] a i = -1"
| "signer_index (b # bs) a i = (if b = a then i else signer_index bs a (i + 1))"

definition validateCliqueDifficulty :: "block_cfg \<Rightarrow> block_header \<Rightarrow> bytes list option \<Rightarrow> exn + bool" where
  "validateCliqueDifficulty cfg h activeSigners =
     bindS (requireClique h) (\<lambda>_.
       if bh_difficulty h \<noteq> CLIQUE_DIFF_INTURN \<and> bh_difficulty h \<noteq> CLIQUE_DIFF_NOTURN
       then Inl (JsError ''difficulty for clique block must be INTURN (2) or NOTURN (1)'')
       else (case activeSigners of
               None \<Rightarrow> Inl (JsError ''PoA blockchain requires method blockchain.cliqueActiveSigners()'')
             | Some signers \<Rightarrow>
                 if length signers = 0 then Inr True
                 else bindS (cliqueSigner cfg h) (\<lambda>signer.
                   let inTurn = (bn_mod (bh_number h) (int (length signers)) = signer_index signers signer 0)
                   in Inr (inTurn \<and> bh_difficulty h = CLIQUE_DIFF_INTURN \<or>
                           \<not> inTurn \<and> bh_difficulty h = CLIQUE_DIFF_NOTURN))))"

definition is_london_block :: "block_header \<Rightarrow> exn + bool" where
  "is_london_block h =
     bindS (hardforkBlockBN (bh_common h) (Some ''london'')) (\<lambda>block. Inr (block = Some (bh_number h)))"

text \<open>
  \<open>gasLimit.gte(paramByHardfork(...))\<close> compares a \<open>BN\<close> with a JavaScript number, which has no field
  \<open>negative\<close>: the comparison is true for every gas limit that is not negative, whatever the
  parameter is. A \<open>null\<close> throws.
\<close>

definition gte_number :: "int \<Rightarrow> int option \<Rightarrow> exn + bool" where
  "gte_number n v = (case v of None \<Rightarrow> Inl (JsError ''Cannot read properties of null'') | Some x \<Rightarrow> Inr (0 \<le> n))"

definition validateGasLimit :: "block_header \<Rightarrow> block_header \<Rightarrow> exn + bool" where
  "validateGasLimit h parent =
     bindS (is_london_block h) (\<lambda>london.
     bindS (if london then bindS (num_param (bh_common h) ''gasConfig'' ''elasticityMultiplier'') (\<lambda>elasticity.
              Inr (bh_gasLimit parent * elasticity)) else Inr (bh_gasLimit parent)) (\<lambda>parentGasLimit.
     bindS (header_hardfork h) (\<lambda>hardfork.
     bindS (num_paramByHardfork (bh_common h) ''gasConfig'' ''gasLimitBoundDivisor'' hardfork) (\<lambda>divisor.
     bindS (div_checked parentGasLimit divisor) (\<lambda>a.
       let maxGasLimit = parentGasLimit + a; minGasLimit = parentGasLimit - a
       in if bh_gasLimit h < maxGasLimit \<and> bh_gasLimit h > minGasLimit
          then bindS (paramByHardfork (bh_common h) ''gasConfig'' ''minGasLimit'' hardfork)
                 (gte_number (bh_gasLimit h))
          else Inr False)))))"

text \<open>The sum and the difference of the base fee and its change.\<close>

definition fee_change :: "int \<Rightarrow> int \<Rightarrow> int \<Rightarrow> int \<Rightarrow> exn + int" where
  "fee_change baseFee gasUsedDelta target denominator =
     bindS (div_checked (baseFee * gasUsedDelta) target) (\<lambda>x. div_checked x denominator)"

definition calcNextBaseFee :: "block_header \<Rightarrow> exn + int" where
  "calcNextBaseFee h =
     (if \<not> isActivatedEIP (bh_common h) 1559
      then Inl (JsError ''calcNextBaseFee() can only be called with EIP1559 being activated'')
      else bindS (num_param (bh_common h) ''gasConfig'' ''elasticityMultiplier'') (\<lambda>elasticity.
           bindS (div_checked (bh_gasLimit h) elasticity) (\<lambda>parentGasTarget.
             case bh_baseFeePerGas h of
               None \<Rightarrow> Inl (JsError ''Cannot read properties of undefined'')
             | Some baseFee \<Rightarrow>
                 if parentGasTarget = bh_gasUsed h then Inr baseFee
                 else bindS (num_param (bh_common h) ''gasConfig'' ''baseFeeMaxChangeDenominator'') (\<lambda>denominator.
                   if bh_gasUsed h > parentGasTarget
                   then bindS (fee_change baseFee (bh_gasUsed h - parentGasTarget) parentGasTarget denominator)
                          (\<lambda>delta. Inr (max delta 1 + baseFee))
                   else bindS (fee_change baseFee (parentGasTarget - bh_gasUsed h) parentGasTarget denominator)
                          (\<lambda>delta. Inr (max (baseFee - delta) 0))))))"

section \<open>Validation against a blockchain\<close>

text \<open>
  What \<open>validate\<close> asks the blockchain: the active signers, and the header of a block by its hash
  (\<open>None\<close> for an error of type \<open>NotFoundError\<close>).
\<close>

record header_chain =
  hc_activeSigners :: "bytes list option"
  hc_getHeader :: "bytes \<Rightarrow> exn + block_header option"

definition require :: "bool \<Rightarrow> string \<Rightarrow> exn + unit" where
  "require ok msg = (if ok then Inr () else Inl (JsError msg))"

definition requireS :: "exn + bool \<Rightarrow> string \<Rightarrow> exn + unit" where
  "requireS r msg = bindS r (\<lambda>ok. require ok msg)"

definition validate_ethash :: "block_header \<Rightarrow> string \<Rightarrow> exn + unit" where
  "validate_ethash h hardfork =
     bindS (paramByHardfork (bh_common h) ''vm'' ''maxExtraDataSize'' hardfork) (\<lambda>v.
       require (int (length (bh_extraData h)) \<le> (case v of Some x \<Rightarrow> x | None \<Rightarrow> 0)) ''invalid amount of extra data'')"

definition validate_clique :: "block_cfg \<Rightarrow> header_chain \<Rightarrow> block_header \<Rightarrow> exn + unit" where
  "validate_clique cfg chain h =
     (let minLength = CLIQUE_EXTRA_VANITY + CLIQUE_EXTRA_SEAL
      in bindS (cliqueIsEpochTransition cfg h) (\<lambda>transition.
         bindS (if \<not> transition
                then require (length (bh_extraData h) = minLength) ''extraData must be 97 bytes on non-epoch transition blocks''
                else bindS (require ((int (length (bh_extraData h)) - int minLength) mod 20 = 0)
                         ''invalid signer list length in extraData'') (\<lambda>_.
                     require (bh_coinbase h = replicate 20 0) ''coinbase must be filled with zeros on epoch transition blocks'')) (\<lambda>_.
         bindS (require (bh_mixHash h = replicate 32 0) ''mixHash must be filled with zeros'') (\<lambda>_.
           requireS (validateCliqueDifficulty cfg h (hc_activeSigners chain)) ''invalid clique difficulty''))))"

definition validate_baseFee :: "block_header \<Rightarrow> block_header \<Rightarrow> exn + unit" where
  "validate_baseFee h parent =
     (if isActivatedEIP (bh_common h) 1559
      then (case bh_baseFeePerGas h of
              None \<Rightarrow> Inl (JsError ''EIP1559 block has no base fee field'')
            | Some baseFee \<Rightarrow>
                bindS (is_london_block h) (\<lambda>london.
                  if london
                  then bindS (num_param (bh_common h) ''gasConfig'' ''initialBaseFee'') (\<lambda>initialBaseFee.
                    require (baseFee = initialBaseFee) ''Initial EIP1559 block does not have initial base fee'')
                  else bindS (calcNextBaseFee parent) (\<lambda>expectedBaseFee.
                    require (baseFee = expectedBaseFee) ''Invalid block: base fee not correct'')))
      else Inr ())"

definition validate_height :: "int option \<Rightarrow> block_header \<Rightarrow> exn + unit" where
  "validate_height height parent =
     (case height of
        None \<Rightarrow> Inr ()
      | Some hgt \<Rightarrow> (let dif = hgt - bh_number parent
          in require (dif < 8 \<and> dif > 1) ''uncle block has a parent that is too old or too young''))"

definition header_validate :: "block_cfg \<Rightarrow> header_chain \<Rightarrow> block_header \<Rightarrow> int option \<Rightarrow> exn + unit" where
  "header_validate cfg chain h height =
     (if isGenesis h then Inr ()
      else bindS (header_hardfork h) (\<lambda>hardfork.
           bindS (if consensusAlgorithm (bh_common h) = ''ethash'' then validate_ethash h hardfork else Inr ()) (\<lambda>_.
           bindS (if consensusAlgorithm (bh_common h) = ''clique'' then validate_clique cfg chain h else Inr ()) (\<lambda>_.
           bindS (hc_getHeader chain (bh_parentHash h)) (\<lambda>found.
             case found of
               None \<Rightarrow> Inl (JsError ''could not find parent header'')
             | Some parent \<Rightarrow>
                 bindS (require (bh_number h = bh_number parent + 1) ''invalid number'') (\<lambda>_.
                 bindS (require (bh_timestamp h > bh_timestamp parent) ''invalid timestamp'') (\<lambda>_.
                 bindS (require (consensusAlgorithm (bh_common h) = ''clique'' \<longrightarrow>
                          bh_timestamp parent + bc_period cfg (bh_common h) \<le> bh_timestamp h)
                        ''invalid timestamp diff (lower than period)'') (\<lambda>_.
                 bindS (if consensusType (bh_common h) = ''pow''
                        then requireS (validateDifficulty h parent) ''invalid difficulty'' else Inr ()) (\<lambda>_.
                 bindS (requireS (validateGasLimit h parent) ''invalid gas limit'') (\<lambda>_.
                 bindS (validate_height height parent) (\<lambda>_.
                 bindS (require (bh_gasUsed h \<le> bh_gasLimit h) ''Invalid block: too much gas used'') (\<lambda>_.
                   validate_baseFee h parent))))))))))))"

section \<open>Construction\<close>

definition zero_nonce :: bytes where
  "zero_nonce = replicate 8 0"

definition check_nonce_length :: "block_header \<Rightarrow> exn + unit" where
  "check_nonce_length h =
     (if length (bh_nonce h) \<noteq> 8
      then if networkIdBN (bh_common h) = 42
           then require (length (bh_nonce h) = 65) ''nonce must be 65 bytes on kovan''
           else Inl (JsError ''nonce must be 8 bytes'')
      else Inr ())"

definition check_pos_fields :: "block_header \<Rightarrow> exn + unit" where
  "check_pos_fields h =
     (if consensusType (bh_common h) = ''pos''
      then require (bh_uncleHash h = KECCAK256_RLP_ARRAY \<and> bh_difficulty h = 0 \<and>
             length (bh_extraData h) \<le> 32 \<and> bh_nonce h = zero_nonce) ''Invalid PoS block''
      else Inr ())"

definition validateHeaderFields :: "block_header \<Rightarrow> exn + unit" where
  "validateHeaderFields h =
     bindS (require (length (bh_parentHash h) = 32) ''parentHash must be 32 bytes'') (\<lambda>_.
     bindS (require (length (bh_stateRoot h) = 32) ''stateRoot must be 32 bytes'') (\<lambda>_.
     bindS (require (length (bh_transactionsTrie h) = 32) ''transactionsTrie must be 32 bytes'') (\<lambda>_.
     bindS (require (length (bh_receiptTrie h) = 32) ''receiptTrie must be 32 bytes'') (\<lambda>_.
     bindS (require (length (bh_mixHash h) = 32) ''mixHash must be 32 bytes'') (\<lambda>_.
     bindS (check_nonce_length h) (\<lambda>_. check_pos_fields h))))))"

definition DAO_ExtraData :: bytes where
  "DAO_ExtraData = [0x64, 0x61, 0x6f, 0x2d, 0x68, 0x61, 0x72, 0x64, 0x2d, 0x66, 0x6f, 0x72, 0x6b]"

definition validateDAOExtraData :: "block_header \<Rightarrow> exn + unit" where
  "validateDAOExtraData h =
     bindS (hardforkIsActiveOnChain (bh_common h) (Some ''dao'') False) (\<lambda>active.
       if \<not> active then Inr ()
       else bindS (hardforkBlockBN (bh_common h) (Some ''dao'')) (\<lambda>block.
         case block of
           None \<Rightarrow> Inr ()
         | Some b \<Rightarrow>
             if b = 0 \<or> bh_number h < b then Inr ()
             else require (\<not> (bh_number h - b \<le> 9 \<and> bh_extraData h \<noteq> DAO_ExtraData))
                    ''extraData should be dao-hard-fork''))"

text \<open>The object \<open>Common\<close> of the header: a copy of the one given, or one for mainnet, at the hardfork of the options.\<close>

definition header_common :: "block_cfg \<Rightarrow> block_opts \<Rightarrow> int \<Rightarrow> exn + common" where
  "header_common cfg opts number =
     bindS (case bo_common opts of
              Some c \<Rightarrow> Inr c
            | None \<Rightarrow> bindS (new_common (txc_data (bc_tx cfg)) (ChainName ''mainnet'') [] no_opts) (\<lambda>c.
                if bo_initWithGenesisHeader opts
                then bindS (setHardforkByBlockNumber c 0 None) (\<lambda>(c', h). Inr c') else Inr c)) (\<lambda>c.
       if bo_hardforkByBlockNumber opts \<noteq> None \<and> bo_hardforkByTD opts \<noteq> None
       then Inl (JsError ''The hardforkByBlockNumber and hardforkByTD options can't be used in conjunction'')
       else if bo_hardforkByBlockNumber opts = Some True \<or> bo_hardforkByTD opts \<noteq> None
       then bindS (setHardforkByBlockNumber c number (bo_hardforkByTD opts)) (\<lambda>(c', h). Inr c')
       else Inr c)"

definition default_baseFee :: "common \<Rightarrow> header_fields \<Rightarrow> exn + int option" where
  "default_baseFee c f =
     (if isActivatedEIP c 1559
      then (case bh_baseFeePerGas f of
              Some b \<Rightarrow> Inr (Some b)
            | None \<Rightarrow> bindS (hardforkBlockBN c (Some ''london'')) (\<lambda>londonHfBlock.
                if londonHfBlock = Some (bh_number f)
                then bindS (num_param c ''gasConfig'' ''initialBaseFee'') (\<lambda>b. Inr (Some b))
                else Inr (Some 7)))
      else if bh_baseFeePerGas f \<noteq> None
      then Inl (JsError ''A base fee for a block can only be set with EIP1559 being activated'')
      else Inr None)"

definition genesis_fields :: "block_cfg \<Rightarrow> common \<Rightarrow> header_fields \<Rightarrow> header_fields" where
  "genesis_fields cfg c f =
     (let g = bc_genesis cfg c;
          f1 = f\<lparr>bh_number := 0,
            bh_gasLimit := (if bh_gasLimit f = DEFAULT_GAS_LIMIT then gp_gasLimit g else bh_gasLimit f),
            bh_timestamp := (if bh_timestamp f = 0 then gp_timestamp g else bh_timestamp f),
            bh_difficulty := (if bh_difficulty f = 0 then gp_difficulty g else bh_difficulty f),
            bh_extraData := (if length (bh_extraData f) = 0 then gp_extraData g else bh_extraData f),
            bh_nonce := (if bh_nonce f = zero_nonce then gp_nonce g else bh_nonce f),
            bh_stateRoot := (if bh_stateRoot f = replicate 32 0 then gp_stateRoot g else bh_stateRoot f)\<rparr>
      in if gteHardfork c ''london'' \<and> gp_baseFeePerGas g \<noteq> None
         then f1\<lparr>bh_baseFeePerGas := gp_baseFeePerGas g\<rparr> else f1)"

definition pad_extraData :: "bytes \<Rightarrow> bytes" where
  "pad_extraData b =
     (let minExtraDataLength = CLIQUE_EXTRA_VANITY + CLIQUE_EXTRA_SEAL
      in if length b < minExtraDataLength then b @ replicate (minExtraDataLength - length b) 0 else b)"

definition new_header :: "block_cfg \<Rightarrow> header_fields \<Rightarrow> block_opts \<Rightarrow> exn + block_header" where
  "new_header cfg f opts =
     bindS (header_common cfg opts (bh_number f)) (\<lambda>c.
     bindS (default_baseFee c f) (\<lambda>baseFee.
       let f1 = f\<lparr>bh_baseFeePerGas := baseFee\<rparr>;
           f2 = (if bo_initWithGenesisHeader opts then genesis_fields cfg c f1 else f1);
           h = header_fields.extend f2 (block_header.fields c)
       in bindS (validateHeaderFields h) (\<lambda>_.
          bindS (validateDAOExtraData h) (\<lambda>_.
          bindS (case bo_calcDifficultyFromHeader opts of
                   Some parent \<Rightarrow> if consensusAlgorithm c = ''ethash''
                     then bindS (canonicalDifficulty h parent) (\<lambda>d. Inr (h\<lparr>bh_difficulty := d\<rparr>)) else Inr h
                 | None \<Rightarrow> Inr h) (\<lambda>h1.
            case bo_cliqueSigner opts of
              None \<Rightarrow> Inr h1
            | Some key \<Rightarrow>
                (let h2 = h1\<lparr>bh_extraData := pad_extraData (bh_extraData h1)\<rparr>
                 in bindS (cliqueSealBlock cfg h2 key) (\<lambda>e. Inr (h2\<lparr>bh_extraData := e\<rparr>))))))))"

text \<open>
  The dictionary of \<open>fromHeaderData\<close>, with its values as the buffers that \<open>toBuffer\<close> makes of them; a
  missing key is \<open>None\<close>.
\<close>

record header_data =
  hd_parentHash :: "bytes option"
  hd_uncleHash :: "bytes option"
  hd_coinbase :: "bytes option"
  hd_stateRoot :: "bytes option"
  hd_transactionsTrie :: "bytes option"
  hd_receiptTrie :: "bytes option"
  hd_logsBloom :: "bytes option"
  hd_difficulty :: "bytes option"
  hd_number :: "bytes option"
  hd_gasLimit :: "bytes option"
  hd_gasUsed :: "bytes option"
  hd_timestamp :: "bytes option"
  hd_extraData :: "bytes option"
  hd_mixHash :: "bytes option"
  hd_nonce :: "bytes option"
  hd_baseFeePerGas :: "bytes option"

definition no_header_data :: header_data where
  "no_header_data = \<lparr>hd_parentHash = None, hd_uncleHash = None, hd_coinbase = None, hd_stateRoot = None,
     hd_transactionsTrie = None, hd_receiptTrie = None, hd_logsBloom = None, hd_difficulty = None,
     hd_number = None, hd_gasLimit = None, hd_gasUsed = None, hd_timestamp = None, hd_extraData = None,
     hd_mixHash = None, hd_nonce = None, hd_baseFeePerGas = None\<rparr>"

definition or_default :: "'a option \<Rightarrow> 'a \<Rightarrow> 'a" where
  "or_default v d = (case v of Some x \<Rightarrow> x | None \<Rightarrow> d)"

definition bn_or :: "bytes option \<Rightarrow> int \<Rightarrow> int" where
  "bn_or v d = (case v of Some b \<Rightarrow> bn_of_bytes b | None \<Rightarrow> d)"

definition fromHeaderData :: "block_cfg \<Rightarrow> header_data \<Rightarrow> block_opts \<Rightarrow> exn + block_header" where
  "fromHeaderData cfg d opts =
     bindS (case hd_coinbase d of Some a \<Rightarrow> newAddress a | None \<Rightarrow> Inr (replicate 20 0)) (\<lambda>coinbase.
       new_header cfg \<lparr>bh_parentHash = or_default (hd_parentHash d) (replicate 32 0),
         bh_uncleHash = or_default (hd_uncleHash d) KECCAK256_RLP_ARRAY, bh_coinbase = coinbase,
         bh_stateRoot = or_default (hd_stateRoot d) (replicate 32 0),
         bh_transactionsTrie = or_default (hd_transactionsTrie d) KECCAK256_RLP,
         bh_receiptTrie = or_default (hd_receiptTrie d) KECCAK256_RLP,
         bh_logsBloom = or_default (hd_logsBloom d) (replicate 256 0),
         bh_difficulty = bn_or (hd_difficulty d) 0, bh_number = bn_or (hd_number d) 0,
         bh_gasLimit = bn_or (hd_gasLimit d) DEFAULT_GAS_LIMIT, bh_gasUsed = bn_or (hd_gasUsed d) 0,
         bh_timestamp = bn_or (hd_timestamp d) 0, bh_extraData = or_default (hd_extraData d) [],
         bh_mixHash = or_default (hd_mixHash d) (replicate 32 0),
         bh_nonce = or_default (hd_nonce d) zero_nonce,
         bh_baseFeePerGas = map_option bn_of_bytes (hd_baseFeePerGas d)\<rparr> opts)"

definition header_fromValuesArray :: "block_cfg \<Rightarrow> bytes list \<Rightarrow> block_opts \<Rightarrow> exn + block_header" where
  "header_fromValuesArray cfg values opts =
     (if length values > 16 then Inl (JsError ''invalid header. More values than expected were received'')
      else if length values < 15 then Inl (JsError ''invalid header. Less values than expected were received'')
      else bindS (newAddress (values ! 2)) (\<lambda>coinbase.
        new_header cfg \<lparr>bh_parentHash = values ! 0, bh_uncleHash = values ! 1, bh_coinbase = coinbase,
          bh_stateRoot = values ! 3, bh_transactionsTrie = values ! 4, bh_receiptTrie = values ! 5,
          bh_logsBloom = values ! 6, bh_difficulty = bn_of_bytes (values ! 7),
          bh_number = bn_of_bytes (values ! 8), bh_gasLimit = bn_of_bytes (values ! 9),
          bh_gasUsed = bn_of_bytes (values ! 10), bh_timestamp = bn_of_bytes (values ! 11),
          bh_extraData = values ! 12, bh_mixHash = values ! 13, bh_nonce = values ! 14,
          bh_baseFeePerGas = map_option bn_of_bytes (nth_value values 15)\<rparr> opts))"

definition fromRLPSerializedHeader :: "block_cfg \<Rightarrow> bytes \<Rightarrow> block_opts \<Rightarrow> exn + block_header" where
  "fromRLPSerializedHeader cfg serialized opts =
     bindS (txc_decode (bc_tx cfg) serialized) (\<lambda>x.
       case x of
         Item b \<Rightarrow> Inl (JsError ''Invalid serialized header input. Must be array'')
       | Items xs \<Rightarrow> bindS (rlp_buffers xs) (\<lambda>values. header_fromValuesArray cfg values opts))"

definition header_genesis :: "block_cfg \<Rightarrow> header_data \<Rightarrow> block_opts \<Rightarrow> exn + block_header" where
  "header_genesis cfg d opts = fromHeaderData cfg d (opts\<lparr>bo_initWithGenesisHeader := True\<rparr>)"

end
