(* ===== verification/Nibbles.thy ===== *)
theory Nibbles
  imports Prelude "HOL-Library.Sublist"
begin

text \<open>
  \<open>packages/trie/src/util/nibbles.ts\<close> and \<open>hex.ts\<close>: keys as lists of half bytes, and the prefix that
  tells leaves from extensions. The lemmas say that the prefix can be read back, that a buffer can
  be got back from its nibbles, and that \<open>matchingNibbleLength\<close> is the length of the common prefix.
\<close>

type_synonym nibbles = "nat list"

definition bufferToNibbles :: "bytes \<Rightarrow> nibbles" where
  "bufferToNibbles key = concat (map (\<lambda>b. [unat b div 16, unat b mod 16]) key)"

fun nibblesToBuffer :: "nibbles \<Rightarrow> bytes" where
  "nibblesToBuffer (p # q # arr) = of_nat (p * 16 + q) # nibblesToBuffer arr"
| "nibblesToBuffer _ = []"

text \<open>The loop over the common indices, then the comparison of the lengths.\<close>

fun nibblesCompare :: "nibbles \<Rightarrow> nibbles \<Rightarrow> int" where
  "nibblesCompare (a # n1) (b # n2) = (if a < b then -1 else if a > b then 1 else nibblesCompare n1 n2)"
| "nibblesCompare [] [] = 0"
| "nibblesCompare [] (b # n2) = -1"
| "nibblesCompare (a # n1) [] = 1"

fun matchingNibbleLength :: "nibbles \<Rightarrow> nibbles \<Rightarrow> nat" where
  "matchingNibbleLength (a # nib1) (b # nib2) = (if a = b then Suc (matchingNibbleLength nib1 nib2) else 0)"
| "matchingNibbleLength _ _ = 0"

definition doKeysMatch :: "nibbles \<Rightarrow> nibbles \<Rightarrow> bool" where
  "doKeysMatch keyA keyB =
     (let len = matchingNibbleLength keyA keyB in len = length keyA \<and> len = length keyB)"

definition addHexPrefix :: "nibbles \<Rightarrow> bool \<Rightarrow> nibbles" where
  "addHexPrefix key terminator =
     (let key1 = (if length key mod 2 = 1 then 1 # key else 0 # 0 # key)
      in if terminator then key1[0 := key1 ! 0 + 2] else key1)"

text \<open>\<open>val[0]\<close> of an empty array is \<open>undefined\<close>, which is neither odd nor greater than 1.\<close>

definition removeHexPrefix :: "nibbles \<Rightarrow> nibbles" where
  "removeHexPrefix val = (if val \<noteq> [] \<and> val ! 0 mod 2 = 1 then drop 1 val else drop 2 val)"

definition isTerminator :: "nibbles \<Rightarrow> bool" where
  "isTerminator key \<longleftrightarrow> key \<noteq> [] \<and> key ! 0 > 1"

section \<open>Common prefixes\<close>

lemma matching_append [simp]: "matchingNibbleLength p (p @ k) = length p"
  by (induction p) simp_all

lemma matching_le: "matchingNibbleLength a b \<le> length a" "matchingNibbleLength a b \<le> length b"
  by (induction a b rule: matchingNibbleLength.induct) auto

lemma matching_take: "take (matchingNibbleLength a b) a = take (matchingNibbleLength a b) b"
  by (induction a b rule: matchingNibbleLength.induct) auto

lemma matching_comm: "matchingNibbleLength a b = matchingNibbleLength b a"
  by (induction a b rule: matchingNibbleLength.induct) (auto elim: matchingNibbleLength.elims)

lemma matching_all_iff: "matchingNibbleLength a b = length a \<longleftrightarrow> prefix a b"
  by (induction a b rule: matchingNibbleLength.induct) auto

lemma doKeysMatch_iff [simp]: "doKeysMatch a b \<longleftrightarrow> a = b"
proof
  assume "doKeysMatch a b"
  then have "matchingNibbleLength a b = length a" "length a = length b" by (simp_all add: doKeysMatch_def Let_def)
  then show "a = b" by (metis matching_all_iff not_equal_is_parallel parallel_def)
qed (simp add: doKeysMatch_def Let_def matching_all_iff)

text \<open>After the common prefix one of the keys ends, or they differ.\<close>

lemma matching_split:
  obtains m a' b' where "a = m @ a'" "b = m @ b'" "matchingNibbleLength a b = length m"
    "a' = [] \<or> b' = [] \<or> hd a' \<noteq> hd b'"
proof -
  let ?n = "matchingNibbleLength a b"
  have "drop ?n a = [] \<or> drop ?n b = [] \<or> hd (drop ?n a) \<noteq> hd (drop ?n b)"
    by (induction a b rule: matchingNibbleLength.induct) auto
  moreover have "a = take ?n a @ drop ?n a" "b = take ?n a @ drop ?n b" "?n = length (take ?n a)"
    using matching_le [of a b] by (simp_all, metis matching_take append_take_drop_id)
  ultimately show thesis using that by blast
qed

section \<open>Round trips\<close>

lemma nibbles_less: "q \<in> set (bufferToNibbles key) \<Longrightarrow> q < 16"
  using unat_byte by (auto simp: bufferToNibbles_def)

lemma length_bufferToNibbles [simp]: "length (bufferToNibbles key) = 2 * length key"
  by (induction key) (simp_all add: bufferToNibbles_def)

lemma nibblesToBuffer_bufferToNibbles [simp]: "nibblesToBuffer (bufferToNibbles key) = key"
proof (induction key)
  case (Cons b key)
  have "of_nat (unat b div 16 * 16 + unat b mod 16) = b" by simp
  with Cons show ?case by (simp add: bufferToNibbles_def)
qed (simp add: bufferToNibbles_def)

lemma bufferToNibbles_inject [simp]: "bufferToNibbles a = bufferToNibbles b \<longleftrightarrow> a = b"
  by (metis nibblesToBuffer_bufferToNibbles)

lemma bufferToNibbles_nibblesToBuffer:
  "even (length arr) \<Longrightarrow> \<forall>q\<in>set arr. q < 16 \<Longrightarrow> bufferToNibbles (nibblesToBuffer arr) = arr"
proof (induction arr rule: nibblesToBuffer.induct)
  case (1 p q arr)
  then have "p * 16 + q < 256" by auto
  then have "unat (of_nat (p * 16 + q) :: byte) = p * 16 + q" by (simp only: unsigned_of_nat) (simp add: take_bit_eq_mod)
  with 1 show ?case by (simp add: bufferToNibbles_def)
qed (simp_all add: bufferToNibbles_def)

lemma hex_prefix:
  "removeHexPrefix (addHexPrefix key t) = key" "isTerminator (addHexPrefix key t) = t"
  "even (length (addHexPrefix key t))"
  "\<forall>q\<in>set key. q < 16 \<Longrightarrow> \<forall>q\<in>set (addHexPrefix key t). q < 16"
  by (auto simp: addHexPrefix_def removeHexPrefix_def isTerminator_def Let_def)

text \<open>What a node stores of its key is read back with the kind of the node.\<close>

lemma stored_key:
  assumes "\<forall>q\<in>set key. q < 16"
  shows "bufferToNibbles (nibblesToBuffer (addHexPrefix key t)) = addHexPrefix key t"
  using assms hex_prefix(3,4) by (intro bufferToNibbles_nibblesToBuffer)

end
