(* ===== verification/Trie_Node.thy ===== *)
theory Trie_Node
  imports Nibbles Rlp
begin

text \<open>
  \<open>packages/trie/src/trieNode.ts\<close>: the three kinds of nodes, and their form as nested arrays of
  buffers, which RLP turns into bytes. A child is an \<open>EmbeddedNode\<close>: the hash of a node, or the raw
  array of a node that is shorter than a hash. \<open>None\<close> is \<open>null\<close>.

  The trie uses keccak256, and the RLP package of version 2 from the registry, both through
  \<open>ethereumjs-util\<close>: they are the fields of \<open>trie_cfg\<close>, together with the option \<open>deleteFromDB\<close>.
\<close>

record trie_cfg =
  cfg_hash :: "bytes \<Rightarrow> bytes"
  cfg_encode :: "rlp \<Rightarrow> bytes"
  cfg_decode :: "bytes \<Rightarrow> exn + rlp"
  deleteFromDB :: bool

datatype trie_node =
    Branch (node_branches: "rlp option list") (node_value: "rlp option")
  | Extension (node_key: nibbles) (node_child: rlp)
  | Leaf (node_key: nibbles) (leaf_value: rlp)

definition new_branch :: trie_node where
  "new_branch = Branch (replicate 16 None) None"

definition rlp_nonempty :: "rlp option \<Rightarrow> rlp option" where
  "rlp_nonempty b = (case b of
       Some (Item bs) \<Rightarrow> if bs = [] then None else b
     | Some (Items xs) \<Rightarrow> if xs = [] then None else b
     | None \<Rightarrow> None)"

text \<open>\<open>get value\<close> of each kind of node.\<close>

definition get_value :: "trie_node \<Rightarrow> rlp option" where
  "get_value node = (case node of Branch cs v \<Rightarrow> rlp_nonempty v | Extension k c \<Rightarrow> Some c | Leaf k v \<Rightarrow> Some v)"

definition set_value :: "rlp option \<Rightarrow> trie_node \<Rightarrow> trie_node" where
  "set_value v node = (case node of Branch cs w \<Rightarrow> Branch cs v
     | Extension k c \<Rightarrow> (case v of Some r \<Rightarrow> Extension k r | None \<Rightarrow> node)
     | Leaf k w \<Rightarrow> (case v of Some r \<Rightarrow> Leaf k r | None \<Rightarrow> node))"

definition set_key :: "nibbles \<Rightarrow> trie_node \<Rightarrow> trie_node" where
  "set_key k node = (case node of Branch cs v \<Rightarrow> node | Extension k' c \<Rightarrow> Extension k c | Leaf k' v \<Rightarrow> Leaf k v)"

definition setBranch :: "nat \<Rightarrow> rlp option \<Rightarrow> trie_node \<Rightarrow> trie_node" where
  "setBranch i v node = (case node of Branch cs w \<Rightarrow> Branch (cs[i := v]) w | _ \<Rightarrow> node)"

definition getBranch :: "rlp option list \<Rightarrow> nat \<Rightarrow> rlp option" where
  "getBranch cs i = (if i < length cs then rlp_nonempty (cs ! i) else None)"

definition getChildren :: "rlp option list \<Rightarrow> (nat \<times> rlp) list" where
  "getChildren cs = concat (map (\<lambda>i. case getBranch cs i of None \<Rightarrow> [] | Some b \<Rightarrow> [(i, b)]) [0..<16])"

text \<open>\<open>raw\<close>: RLP writes \<open>null\<close> as an empty string.\<close>

definition null_raw :: "rlp option \<Rightarrow> rlp" where
  "null_raw b = (case b of None \<Rightarrow> Item [] | Some r \<Rightarrow> r)"

definition node_raw :: "trie_node \<Rightarrow> rlp" where
  "node_raw node = (case node of
       Branch cs v \<Rightarrow> Items (map null_raw cs @ [null_raw v])
     | Extension k c \<Rightarrow> Items [Item (nibblesToBuffer (addHexPrefix k False)), c]
     | Leaf k v \<Rightarrow> Items [Item (nibblesToBuffer (addHexPrefix k True)), v])"

definition node_serialize :: "trie_cfg \<Rightarrow> trie_node \<Rightarrow> bytes" where
  "node_serialize cfg node = cfg_encode cfg (node_raw node)"

definition node_hash :: "trie_cfg \<Rightarrow> trie_node \<Rightarrow> bytes" where
  "node_hash cfg node = cfg_hash cfg (node_serialize cfg node)"

text \<open>The key of a node of two items is a buffer; an array there is refused (it is never written).\<close>

definition decodeRawNode :: "rlp list \<Rightarrow> exn + trie_node" where
  "decodeRawNode raw =
     (if length raw = 17 then Inr (Branch (map Some (take 16 raw)) (Some (raw ! 16)))
      else if length raw = 2
      then (case raw ! 0 of
              Item b \<Rightarrow> (let nibbles = bufferToNibbles b
                in if isTerminator nibbles then Inr (Leaf (removeHexPrefix nibbles) (raw ! 1))
                   else Inr (Extension (removeHexPrefix nibbles) (raw ! 1)))
            | Items _ \<Rightarrow> Inl (JsError ''Invalid node''))
      else Inl (JsError ''Invalid node''))"

definition decodeNode :: "trie_cfg \<Rightarrow> bytes \<Rightarrow> exn + trie_node" where
  "decodeNode cfg raw = bindS (cfg_decode cfg raw) (\<lambda>des.
     case des of Items xs \<Rightarrow> decodeRawNode xs | Item b \<Rightarrow> Inl (JsError ''Invalid node''))"

section \<open>Reading what was written\<close>

text \<open>A decoded node has empty buffers where the written one had \<open>null\<close>.\<close>

definition read_back :: "trie_node \<Rightarrow> trie_node" where
  "read_back node = (case node of
       Branch cs v \<Rightarrow> Branch (map (\<lambda>c. Some (null_raw c)) cs) (Some (null_raw v)) | _ \<Rightarrow> node)"

definition node_ok :: "trie_node \<Rightarrow> bool" where
  "node_ok node \<longleftrightarrow> (case node of Branch cs v \<Rightarrow> length cs = 16
     | Extension k c \<Rightarrow> \<forall>q\<in>set k. q < 16 | Leaf k v \<Rightarrow> \<forall>q\<in>set k. q < 16)"

lemma null_raw_simps [simp]: "null_raw None = Item []" "null_raw (Some r) = r"
  by (simp_all add: null_raw_def)

lemma rlp_nonempty_None [simp]: "rlp_nonempty None = None"
  by (simp add: rlp_nonempty_def)

lemma rlp_nonempty_null [simp]: "rlp_nonempty (Some (null_raw c)) = rlp_nonempty c"
  by (simp add: rlp_nonempty_def null_raw_def split: option.split rlp.split)

lemma decodeRawNode_node_raw:
  assumes "node_ok node" "node_raw node = Items xs"
  shows "decodeRawNode xs = Inr (read_back node)"
proof (cases node)
  case (Branch cs v)
  with assms have "xs = map null_raw cs @ [null_raw v]" "length cs = 16" by (auto simp: node_raw_def node_ok_def)
  with Branch show ?thesis by (simp add: decodeRawNode_def nth_append read_back_def)
next
  case (Extension k c)
  with assms stored_key [of k False] show ?thesis
    by (auto simp: node_raw_def node_ok_def decodeRawNode_def Let_def hex_prefix read_back_def)
next
  case (Leaf k v)
  with assms stored_key [of k True] show ?thesis
    by (auto simp: node_raw_def node_ok_def decodeRawNode_def Let_def hex_prefix read_back_def)
qed

lemma node_raw_Items: "\<exists>xs. node_raw node = Items xs \<and> xs \<noteq> []"
  by (cases node) (simp_all add: node_raw_def)

lemma decodeNode_serialize:
  "node_ok node \<Longrightarrow> cfg_decode cfg (node_serialize cfg node) = Inr (node_raw node) \<Longrightarrow>
     decodeNode cfg (node_serialize cfg node) = Inr (read_back node)"
  using node_raw_Items [of node] by (auto simp: decodeNode_def decodeRawNode_node_raw)

lemma node_raw_read_back [simp]: "node_raw (read_back node) = node_raw node"
  by (cases node) (simp_all add: node_raw_def read_back_def o_def)

end
