(* ===== verification/Merkle_Trie.thy ===== *)
theory Merkle_Trie
  imports Trie_Node Checkpoint_Trie Account_Cache
begin

text \<open>
  \<open>packages/trie/src/baseTrie.ts\<close>: looking up, storing and deleting values in a Merkle Patricia trie
  over the database with checkpoints of \<open>Checkpoint_Trie\<close>; \<open>secure.ts\<close>, which hashes the keys; and
  proofs. A stack of nodes is a list whose head was pushed last. The lock that serialises writers is
  not modelled: one operation runs at a time.
\<close>

section \<open>Nodes and the database\<close>

datatype batch_op = Put_op bytes bytes | Del_op bytes

definition db_apply :: "batch_op \<Rightarrow> (bytes ctrie, unit) eff" where
  "db_apply op = (case op of Put_op k v \<Rightarrow> db_put k v | Del_op k \<Rightarrow> db_del k)"

definition db_batch :: "batch_op list \<Rightarrow> (bytes ctrie, unit) eff" where
  "db_batch ops = for_each ops db_apply"

definition set_root :: "bytes \<Rightarrow> (bytes ctrie, unit) eff" where
  "set_root value = andthen (guard_eff (length value = 32) (JsError ''Invalid root length. Roots are 32 bytes''))
     (trie_set_root value)"

definition missing_node :: exn where
  "missing_node = JsError ''Missing node in DB''"

definition lookupNode :: "trie_cfg \<Rightarrow> rlp \<Rightarrow> (bytes ctrie, trie_node) eff" where
  "lookupNode cfg node = (case node of
       Items raw \<Rightarrow> of_sum (decodeRawNode raw)
     | Item h \<Rightarrow> bnd (db_get h) (\<lambda>value. case value of
         None \<Rightarrow> raise missing_node | Some v \<Rightarrow> of_sum (decodeNode cfg v)))"

text \<open>\<open>try ... catch\<close> with a handler that sees the error.\<close>

definition catch_eff :: "('s, 'a) eff \<Rightarrow> (exn \<Rightarrow> ('s, 'b) eff) \<Rightarrow> ('a \<Rightarrow> ('s, 'b) eff) \<Rightarrow> ('s, 'b) eff" where
  "catch_eff m h k s = (case m s of (Inl e, s') \<Rightarrow> h e s' | (Inr x, s') \<Rightarrow> k x s')"

definition checkRoot :: "trie_cfg \<Rightarrow> bytes \<Rightarrow> (bytes ctrie, bool) eff" where
  "checkRoot cfg root = catch_eff (lookupNode cfg (Item root))
     (\<lambda>e. if e = missing_node then ret False else raise e) (\<lambda>value. ret True)"

section \<open>Finding a path\<close>

record path =
  path_node :: "trie_node option"
  path_remaining :: nibbles
  path_stack :: "trie_node list"

text \<open>
  The walk of \<open>findPath\<close>: \<open>onFound\<close> schedules at most one child, so the nodes are visited one after
  the other. The number bounds how many nodes are visited; every extension that the trie writes has
  a key, so one more than the nibbles of the key is enough (\<open>find_walk_trace\<close> in \<open>Trie_Spec\<close>).
\<close>

fun find_walk :: "trie_cfg \<Rightarrow> bool \<Rightarrow> nat \<Rightarrow> nibbles \<Rightarrow> rlp \<Rightarrow> nibbles \<Rightarrow> trie_node list
    \<Rightarrow> (bytes ctrie, path) eff" where
  "find_walk cfg throwIfMissing 0 targetKey ref keyProgress stack = raise (JsError ''walk does not end'')"
| "find_walk cfg throwIfMissing (Suc n) targetKey ref keyProgress stack =
     catch_eff (lookupNode cfg ref)
       (\<lambda>e. if e = missing_node \<and> \<not> throwIfMissing
            then ret \<lparr>path_node = None, path_remaining = [], path_stack = stack\<rparr> else raise e)
       (\<lambda>node.
          let keyRemainder = drop (matchingNibbleLength keyProgress targetKey) targetKey;
              stack' = node # stack;
              missed = \<lparr>path_node = None, path_remaining = keyRemainder, path_stack = stack'\<rparr>;
              found = \<lparr>path_node = Some node, path_remaining = [], path_stack = stack'\<rparr>
          in case node of
               Branch cs v \<Rightarrow>
                 (case keyRemainder of
                    [] \<Rightarrow> ret found
                  | i # _ \<Rightarrow> (case getBranch cs i of
                        None \<Rightarrow> ret missed
                      | Some c \<Rightarrow> find_walk cfg throwIfMissing n targetKey c (keyProgress @ [i]) stack'))
             | Leaf k v \<Rightarrow> ret (if doKeysMatch keyRemainder k then found else missed)
             | Extension k c \<Rightarrow>
                 (if matchingNibbleLength keyRemainder k \<noteq> length k then ret missed
                  else find_walk cfg throwIfMissing n targetKey c (keyProgress @ k) stack'))"

definition findPath :: "trie_cfg \<Rightarrow> bytes \<Rightarrow> bool \<Rightarrow> (bytes ctrie, path) eff" where
  "findPath cfg key throwIfMissing = bnd (gets trie_root) (\<lambda>root.
     let targetKey = bufferToNibbles key
     in find_walk cfg throwIfMissing (Suc (length targetKey)) targetKey (Item root) [] [])"

definition trie_get :: "trie_cfg \<Rightarrow> bytes \<Rightarrow> bool \<Rightarrow> (bytes ctrie, rlp option) eff" where
  "trie_get cfg key throwIfMissing = bnd (findPath cfg key throwIfMissing) (\<lambda>p.
     ret (case path_node p of
            Some node \<Rightarrow> if path_remaining p = [] then get_value node else None
          | None \<Rightarrow> None))"

section \<open>Saving a stack\<close>

text \<open>\<open>_formatNode\<close>: what refers to a node, and the operations that store or remove it.\<close>

definition formatNode :: "trie_cfg \<Rightarrow> trie_node \<Rightarrow> bool \<Rightarrow> bool \<Rightarrow> rlp \<times> batch_op list" where
  "formatNode cfg node topLevel remove =
     (let rlpNode = node_serialize cfg node
      in if length rlpNode \<ge> 32 \<or> topLevel
         then (let hashRoot = cfg_hash cfg rlpNode
               in (Item hashRoot,
                   if remove then (if deleteFromDB cfg then [Del_op hashRoot] else [])
                   else [Put_op hashRoot rlpNode]))
         else (node_raw node, []))"

text \<open>\<open>key.splice(key.length - n)\<close>: a negative start counts from the end.\<close>

definition cut_key :: "nibbles \<Rightarrow> nat \<Rightarrow> nibbles" where
  "cut_key key n = take (if n \<le> length key then length key - n else 2 * length key - n) key"

fun save_stack :: "trie_cfg \<Rightarrow> nibbles \<Rightarrow> trie_node list \<Rightarrow> rlp option \<Rightarrow> batch_op list
    \<Rightarrow> rlp option \<times> batch_op list" where
  "save_stack cfg key [] lastRoot opStack = (lastRoot, opStack)"
| "save_stack cfg key (node # stack) lastRoot opStack =
     (let (key', node') = (case node of
            Leaf k v \<Rightarrow> (cut_key key (length k), node)
          | Extension k c \<Rightarrow> (cut_key key (length k),
              case lastRoot of None \<Rightarrow> node | Some r \<Rightarrow> Extension k r)
          | Branch cs v \<Rightarrow>
              (case lastRoot of
                 None \<Rightarrow> (key, node)
               | Some r \<Rightarrow> (butlast key, if key = [] then node else setBranch (last key) (Some r) node)));
          (root, ops) = formatNode cfg node' (stack = []) False
      in save_stack cfg key' stack (Some root) (opStack @ ops))"

definition saveStack :: "trie_cfg \<Rightarrow> nibbles \<Rightarrow> trie_node list \<Rightarrow> batch_op list \<Rightarrow> (bytes ctrie, unit) eff" where
  "saveStack cfg key stack opStack =
     (let (lastRoot, ops) = save_stack cfg key stack None opStack
      in andthen (case lastRoot of
             None \<Rightarrow> ret ()
           | Some (Item r) \<Rightarrow> set_root r
           | Some (Items xs) \<Rightarrow> raise (JsError ''Invalid root length. Roots are 32 bytes''))
         (db_batch ops))"

section \<open>Storing\<close>

definition createInitialNode :: "trie_cfg \<Rightarrow> bytes \<Rightarrow> bytes \<Rightarrow> (bytes ctrie, unit) eff" where
  "createInitialNode cfg key value =
     (let newNode = Leaf (bufferToNibbles key) (Item value)
      in andthen (set_root (node_hash cfg newNode))
           (bnd (gets trie_root) (\<lambda>root. db_put root (node_serialize cfg newNode))))"

text \<open>How many nibbles the nodes of a stack account for.\<close>

definition stack_length :: "trie_node list \<Rightarrow> nat" where
  "stack_length stack = sum_list (map (\<lambda>n. case n of Branch cs v \<Rightarrow> 1 | Extension k c \<Rightarrow> length k | Leaf k v \<Rightarrow> length k) stack)"

text \<open>The last case of \<open>_updateNode\<close>: the key leaves an extension or a leaf, a branch goes there.\<close>

definition split_node :: "trie_cfg \<Rightarrow> trie_node \<Rightarrow> nibbles \<Rightarrow> bytes \<Rightarrow> trie_node list \<Rightarrow> trie_node list \<times> batch_op list" where
  "split_node cfg lastNode keyRemainder value stack =
     (let matchingLength = matchingNibbleLength (node_key lastNode) keyRemainder;
          stack1 = (if matchingLength \<noteq> 0
                    then Extension (take matchingLength (node_key lastNode)) (Item value) # stack else stack);
          lastKey = drop matchingLength (node_key lastNode);
          keyRem = drop matchingLength keyRemainder;
          (branch, toSave) = (case lastKey of
              [] \<Rightarrow> (set_value (get_value lastNode) new_branch, [])
            | branchKey # lastKey' \<Rightarrow>
                (if lastKey' \<noteq> [] \<or> is_Leaf lastNode
                 then (let (formattedNode, ops) = formatNode cfg (set_key lastKey' lastNode) False False
                       in (setBranch branchKey (Some formattedNode) new_branch, ops))
                 else (let (_, ops) = formatNode cfg lastNode False True
                       in (setBranch branchKey (get_value lastNode) new_branch, ops))))
      in case keyRem of
           [] \<Rightarrow> (set_value (Some (Item value)) branch # stack1, toSave)
         | _ # leafKey \<Rightarrow> (Leaf leafKey (Item value) # branch # stack1, toSave))"

definition update_stack :: "trie_cfg \<Rightarrow> nibbles \<Rightarrow> bytes \<Rightarrow> nibbles \<Rightarrow> trie_node list
    \<Rightarrow> exn + (trie_node list \<times> batch_op list)" where
  "update_stack cfg key value keyRemainder stack0 =
     (case stack0 of
        [] \<Rightarrow> Inl (JsError ''Stack underflow'')
      | lastNode # stack \<Rightarrow>
          (let matchLeaf = (is_Leaf lastNode \<and>
                 matchingNibbleLength (node_key lastNode) (drop (stack_length stack) key) = length (node_key lastNode) \<and>
                 keyRemainder = [])
           in if matchLeaf then Inr (set_value (Some (Item value)) lastNode # stack, [])
              else (case lastNode of
                      Branch cs v \<Rightarrow>
                        (case keyRemainder of
                           [] \<Rightarrow> Inr (set_value (Some (Item value)) lastNode # stack, [])
                         | _ # leafKey \<Rightarrow> Inr (Leaf leafKey (Item value) # lastNode # stack, []))
                    | _ \<Rightarrow> Inr (split_node cfg lastNode keyRemainder value stack))))"

definition updateNode :: "trie_cfg \<Rightarrow> bytes \<Rightarrow> bytes \<Rightarrow> nibbles \<Rightarrow> trie_node list \<Rightarrow> (bytes ctrie, unit) eff" where
  "updateNode cfg k value keyRemainder stack =
     (let key = bufferToNibbles k
      in bnd (of_sum (update_stack cfg key value keyRemainder stack)) (\<lambda>(stack', toSave).
           saveStack cfg key stack' toSave))"

section \<open>Deleting\<close>

text \<open>\<open>processBranchNode\<close>: the one node left on a branch takes the place of the branch.\<close>

definition processBranchNode :: "nibbles \<Rightarrow> nat \<Rightarrow> trie_node \<Rightarrow> trie_node option \<Rightarrow> trie_node list
    \<Rightarrow> nibbles \<times> trie_node list" where
  "processBranchNode key branchKey branchNode parentNode stack =
     (case parentNode of
        Some (Extension parentKey c) \<Rightarrow>
          (case branchNode of
             Branch cs v \<Rightarrow> (key @ [branchKey], branchNode # Extension (parentKey @ [branchKey]) c # stack)
           | _ \<Rightarrow> (key @ branchKey # node_key branchNode,
                   set_key (parentKey @ branchKey # node_key branchNode) branchNode # stack))
      | Some (Leaf parentKey c) \<Rightarrow>
          (case branchNode of
             Branch cs v \<Rightarrow> (key @ [branchKey], branchNode # Leaf (parentKey @ [branchKey]) c # stack)
           | _ \<Rightarrow> (key @ branchKey # node_key branchNode,
                   set_key (parentKey @ branchKey # node_key branchNode) branchNode # stack))
      | _ \<Rightarrow>
          (let stack1 = (case parentNode of None \<Rightarrow> stack | Some p \<Rightarrow> p # stack)
           in case branchNode of
                Branch cs v \<Rightarrow> (key @ [branchKey], branchNode # Extension [branchKey] (Item []) # stack1)
              | _ \<Rightarrow> (key @ branchKey # node_key branchNode,
                      set_key (branchKey # node_key branchNode) branchNode # stack1)))"

text \<open>The branch from which something was deleted, its parent, and the rest of the stack.\<close>

definition close_branch :: "trie_cfg \<Rightarrow> nibbles \<Rightarrow> trie_node \<Rightarrow> trie_node option \<Rightarrow> trie_node list
    \<Rightarrow> batch_op list \<Rightarrow> (bytes ctrie, unit) eff" where
  "close_branch cfg key lastNode parentNode stack opStack =
     (case getChildren (node_branches lastNode) of
        [(branchNodeKey, branchNode)] \<Rightarrow>
          bnd (lookupNode cfg branchNode) (\<lambda>foundNode.
            let (key', stack') = processBranchNode key branchNodeKey foundNode parentNode stack
            in saveStack cfg key' stack' opStack)
      | _ \<Rightarrow> saveStack cfg key (lastNode # (case parentNode of None \<Rightarrow> stack | Some p \<Rightarrow> p # stack)) opStack)"

definition EMPTY_TRIE_ROOT :: bytes where
  "EMPTY_TRIE_ROOT = KECCAK256_RLP"

definition deleteNode :: "trie_cfg \<Rightarrow> bytes \<Rightarrow> trie_node list \<Rightarrow> (bytes ctrie, unit) eff" where
  "deleteNode cfg k stack0 =
     (let key = bufferToNibbles k
      in case stack0 of
           [] \<Rightarrow> raise (JsError ''The expression evaluated to a falsy value'')
         | [lastNode] \<Rightarrow> set_root EMPTY_TRIE_ROOT
         | lastNode # parentNode # stack \<Rightarrow>
             (case lastNode of
                Branch cs v \<Rightarrow> close_branch cfg key (set_value None lastNode) (Some parentNode) stack []
              | _ \<Rightarrow>
                  (case parentNode of
                     Branch cs v \<Rightarrow>
                       (let key1 = cut_key key (length (node_key lastNode));
                            opStack = snd (formatNode cfg lastNode False True);
                            parent = (if key1 = [] then parentNode else setBranch (last key1) None parentNode)
                        in close_branch cfg (butlast key1) parent
                             (case stack of [] \<Rightarrow> None | p # _ \<Rightarrow> Some p) (tl stack) opStack)
                   | _ \<Rightarrow> raise (JsError ''Expected branch node''))))"

section \<open>The trie\<close>

definition trie_del :: "trie_cfg \<Rightarrow> bytes \<Rightarrow> (bytes ctrie, unit) eff" where
  "trie_del cfg key = bnd (findPath cfg key False) (\<lambda>p.
     when_eff (path_node p \<noteq> None) (deleteNode cfg key (path_stack p)))"

definition trie_put :: "trie_cfg \<Rightarrow> bytes \<Rightarrow> bytes \<Rightarrow> (bytes ctrie, unit) eff" where
  "trie_put cfg key value =
     (if value = [] then trie_del cfg key
      else bnd (gets trie_root) (\<lambda>root.
        if root = KECCAK256_RLP then createInitialNode cfg key value
        else bnd (findPath cfg key False) (\<lambda>p.
          updateNode cfg key value (path_remaining p) (path_stack p))))"

definition batch_op_run :: "trie_cfg \<Rightarrow> batch_op \<Rightarrow> (bytes ctrie, unit) eff" where
  "batch_op_run cfg op = (case op of Put_op k v \<Rightarrow> trie_put cfg k v | Del_op k \<Rightarrow> trie_del cfg k)"

definition trie_batch :: "trie_cfg \<Rightarrow> batch_op list \<Rightarrow> (bytes ctrie, unit) eff" where
  "trie_batch cfg ops = for_each ops (batch_op_run cfg)"

definition new_trie :: "bytes ctrie" where
  "new_trie = \<lparr>trie_root = EMPTY_TRIE_ROOT, db_checkpoints = [], leveldb = Map.empty\<rparr>"

text \<open>\<open>secure.ts\<close>: the same operations on the hash of the key. \<open>put\<close> of an empty value deletes.\<close>

definition secure_get :: "trie_cfg \<Rightarrow> bytes \<Rightarrow> (bytes ctrie, rlp option) eff" where
  "secure_get cfg key = trie_get cfg (cfg_hash cfg key) False"

definition secure_del :: "trie_cfg \<Rightarrow> bytes \<Rightarrow> (bytes ctrie, unit) eff" where
  "secure_del cfg key = trie_del cfg (cfg_hash cfg key)"

definition secure_put :: "trie_cfg \<Rightarrow> bytes \<Rightarrow> bytes \<Rightarrow> (bytes ctrie, unit) eff" where
  "secure_put cfg key val =
     (if val = [] then secure_del cfg key else trie_put cfg (cfg_hash cfg key) val)"

section \<open>Proofs\<close>

definition createProof :: "trie_cfg \<Rightarrow> bytes \<Rightarrow> (bytes ctrie, bytes list) eff" where
  "createProof cfg key = bnd (findPath cfg key False) (\<lambda>p.
     ret (map (node_serialize cfg) (rev (path_stack p))))"

definition fromProof :: "trie_cfg \<Rightarrow> bytes list \<Rightarrow> (bytes ctrie, unit) eff" where
  "fromProof cfg proof = db_batch (map (\<lambda>nodeValue. Put_op (cfg_hash cfg nodeValue) nodeValue) proof)"

definition verifyProof :: "trie_cfg \<Rightarrow> bytes \<Rightarrow> bytes \<Rightarrow> bytes list \<Rightarrow> exn + rlp option" where
  "verifyProof cfg rootHash key proof =
     fst (andthen (set_root rootHash)
       (catch_eff (fromProof cfg proof) (\<lambda>e. raise (JsError ''Invalid proof nodes given''))
         (\<lambda>u. catch_eff (trie_get cfg key True)
            (\<lambda>e. if e = missing_node then raise (JsError ''Invalid proof provided'') else raise e) ret)) new_trie)"

end
