(* ===== verification/Block.thy ===== *)
theory Block
  imports Block_Header Merkle_Trie
begin

text \<open>
  \<open>packages/block/src/block.ts\<close>: a block is a header, transactions, uncle headers and the trie of the
  transactions. The blockchain, which the validation asks for blocks, is an argument. The
  error messages of \<open>validateTransactions\<close> are pairs of the index and the errors of the transaction, where the
  code joins them to one string.
\<close>

record block =
  b_header :: block_header
  b_transactions :: "transaction list"
  b_uncleHeaders :: "block_header list"
  b_txTrie :: "bytes ctrie"

definition b_common :: "block \<Rightarrow> common" where
  "b_common b = bh_common (b_header b)"

definition b_number :: "block \<Rightarrow> int" where
  "b_number b = bh_number (b_header b)"

text \<open>\<open>blockchain.getBlock\<close>: \<open>None\<close> for an error of type \<open>NotFoundError\<close>, which \<open>_getBlockByHash\<close> catches.\<close>

record blockchain =
  bk_activeSigners :: "bytes list option"
  bk_getBlock :: "bytes \<Rightarrow> exn + block option"

definition headers_of :: "blockchain \<Rightarrow> header_chain" where
  "headers_of chain = \<lparr>hc_activeSigners = bk_activeSigners chain,
     hc_getHeader = (\<lambda>h. bindS (bk_getBlock chain h) (\<lambda>found. Inr (map_option b_header found)))\<rparr>"

text \<open>The trie of the transactions uses the same hash and the same RLP package.\<close>

definition tx_trie_cfg :: "block_cfg \<Rightarrow> trie_cfg" where
  "tx_trie_cfg cfg = \<lparr>cfg_hash = txc_keccak256 (bc_tx cfg), cfg_encode = txc_encode (bc_tx cfg),
     cfg_decode = txc_decode (bc_tx cfg), deleteFromDB = False\<rparr>"

section \<open>Construction\<close>

definition new_block ::
  "block_header \<Rightarrow> transaction list \<Rightarrow> block_header list \<Rightarrow> exn + block" where
  "new_block header transactions uncleHeaders =
     (if 0 < length uncleHeaders \<and> consensusType (bh_common header) = ''poa''
      then Inl (JsError ''Block initialization with uncleHeaders on a PoA network is not allowed'')
      else if 0 < length uncleHeaders \<and> consensusType (bh_common header) = ''pos''
      then Inl (JsError ''Block initialization with uncleHeaders on a PoS network is not allowed'')
      else Inr \<lparr>b_header = header, b_transactions = transactions, b_uncleHeaders = uncleHeaders,
             b_txTrie = new_trie\<rparr>)"

text \<open>A loop that builds an array from what a function returns for every item.\<close>

fun map_exn :: "('a \<Rightarrow> exn + 'b) \<Rightarrow> 'a list \<Rightarrow> exn + 'b list" where
  "map_exn f [] = Inr []"
| "map_exn f (x # xs) = bindS (f x) (\<lambda>y. bindS (map_exn f xs) (\<lambda>ys. Inr (y # ys)))"

definition hardfork_default :: "bool option \<Rightarrow> bool option" where
  "hardfork_default v = (case v of None \<Rightarrow> Some True | Some x \<Rightarrow> Some x)"

definition uncle_opts_data :: "block_opts \<Rightarrow> common \<Rightarrow> block_opts" where
  "uncle_opts_data opts c = opts\<lparr>bo_hardforkByBlockNumber := hardfork_default (bo_hardforkByBlockNumber opts),
     bo_common := Some c, bo_calcDifficultyFromHeader := None, bo_hardforkByTD := None\<rparr>"

record block_data =
  bd_header :: header_data
  bd_transactions :: "(int option \<times> tx_input) list"
  bd_uncleHeaders :: "header_data list"

definition fromBlockData :: "block_cfg \<Rightarrow> block_data \<Rightarrow> block_opts \<Rightarrow> exn + block" where
  "fromBlockData cfg d opts =
     bindS (fromHeaderData cfg (bd_header d) opts) (\<lambda>header.
     bindS (map_exn (\<lambda>(type, td). factory_fromTxData (bc_tx cfg) type td (Some (bh_common header)))
              (bd_transactions d)) (\<lambda>transactions.
     bindS (map_exn (\<lambda>uh. fromHeaderData cfg uh (uncle_opts_data opts (bh_common header)))
              (bd_uncleHeaders d)) (\<lambda>uncleHeaders.
       new_block header transactions uncleHeaders)))"

definition block_genesis :: "block_cfg \<Rightarrow> block_data \<Rightarrow> block_opts \<Rightarrow> exn + block" where
  "block_genesis cfg d opts = fromBlockData cfg d (opts\<lparr>bo_initWithGenesisHeader := True\<rparr>)"

text \<open>
  The values of a header as the RLP package decodes them. A byte string has as many values as bytes; the
  third value of one that is long enough is a number, which is no address.
\<close>

definition header_of_rlp :: "block_cfg \<Rightarrow> rlp \<Rightarrow> block_opts \<Rightarrow> exn + block_header" where
  "header_of_rlp cfg x opts =
     (case x of
        Items xs \<Rightarrow> bindS (rlp_buffers xs) (\<lambda>values. header_fromValuesArray cfg values opts)
      | Item b \<Rightarrow>
          if length b > 16 then Inl (JsError ''invalid header. More values than expected were received'')
          else if length b < 15 then Inl (JsError ''invalid header. Less values than expected were received'')
          else Inl (JsError ''Invalid address length''))"

text \<open>A list that may be missing; the items of a byte string are numbers.\<close>

definition list_value :: "rlp list \<Rightarrow> nat \<Rightarrow> exn \<Rightarrow> exn + rlp list" where
  "list_value values i e =
     (if i < length values
      then (case values ! i of Items xs \<Rightarrow> Inr xs | Item b \<Rightarrow> if b = [] then Inr [] else Inl e)
      else Inr [])"

definition uncle_opts_values :: "block_opts \<Rightarrow> common \<Rightarrow> block_opts" where
  "uncle_opts_values opts c = opts\<lparr>bo_common := Some c, bo_calcDifficultyFromHeader := None,
     bo_hardforkByBlockNumber := (if bo_hardforkByTD opts \<noteq> None then None
       else hardfork_default (bo_hardforkByBlockNumber opts))\<rparr>"

definition block_fromValuesArray :: "block_cfg \<Rightarrow> rlp list \<Rightarrow> block_opts \<Rightarrow> exn + block" where
  "block_fromValuesArray cfg values opts =
     (if length values > 3 then Inl (JsError ''invalid block. More values than expected were received'')
      else if values = [] then Inl (JsError ''values is not iterable'')
      else bindS (header_of_rlp cfg (hd values) opts) (\<lambda>header.
           bindS (list_value values 1 (JsError ''Cannot decode transaction: unknown type input'')) (\<lambda>txsData.
           bindS (map_exn (\<lambda>txData. fromBlockBodyData (bc_tx cfg) txData (Some (bh_common header))) txsData)
             (\<lambda>transactions.
           bindS (list_value values 2 (JsError ''values is not iterable'')) (\<lambda>uhsData.
           bindS (map_exn (\<lambda>uh. header_of_rlp cfg uh (uncle_opts_values opts (bh_common header))) uhsData)
             (\<lambda>uncleHeaders.
             new_block header transactions uncleHeaders))))))"

definition fromRLPSerializedBlock :: "block_cfg \<Rightarrow> bytes \<Rightarrow> block_opts \<Rightarrow> exn + block" where
  "fromRLPSerializedBlock cfg serialized opts =
     bindS (txc_decode (bc_tx cfg) serialized) (\<lambda>x.
       case x of
         Item b \<Rightarrow> Inl (JsError ''Invalid serialized block input. Must be array'')
       | Items values \<Rightarrow> block_fromValuesArray cfg values opts)"

section \<open>Serialisation\<close>

definition header_rlp :: "block_header \<Rightarrow> rlp" where
  "header_rlp h = Items (map Item (header_raw h))"

definition tx_rlp :: "block_cfg \<Rightarrow> transaction \<Rightarrow> rlp" where
  "tx_rlp cfg t = (if tx_supports t 2718 then Item (tx_serialize (bc_tx cfg) t) else Items (tx_raw t))"

definition block_raw :: "block_cfg \<Rightarrow> block \<Rightarrow> rlp list" where
  "block_raw cfg b =
     [header_rlp (b_header b), Items (map (tx_rlp cfg) (b_transactions b)),
      Items (map header_rlp (b_uncleHeaders b))]"

definition block_serialize :: "block_cfg \<Rightarrow> block \<Rightarrow> bytes" where
  "block_serialize cfg b = txc_encode (bc_tx cfg) (Items (block_raw cfg b))"

definition block_hash :: "block_cfg \<Rightarrow> block \<Rightarrow> bytes" where
  "block_hash cfg b = header_hash cfg (b_header b)"

definition block_isGenesis :: "block \<Rightarrow> bool" where
  "block_isGenesis b \<longleftrightarrow> isGenesis (b_header b)"

section \<open>The trie of the transactions\<close>

text \<open>\<open>rlp.encode(i)\<close> of a number: its shortest bytes, none for 0.\<close>

definition index_key :: "block_cfg \<Rightarrow> nat \<Rightarrow> bytes" where
  "index_key cfg i = txc_encode (bc_tx cfg) (Item (min_bytes i))"

fun put_txs :: "block_cfg \<Rightarrow> nat \<Rightarrow> transaction list \<Rightarrow> (bytes ctrie, unit) eff" where
  "put_txs cfg i [] = ret ()"
| "put_txs cfg i (t # ts) =
     andthen (trie_put (tx_trie_cfg cfg) (index_key cfg i) (tx_serialize (bc_tx cfg) t)) (put_txs cfg (Suc i) ts)"

definition genTxTrie :: "block_cfg \<Rightarrow> (block, unit) eff" where
  "genTxTrie cfg = bnd (gets b_transactions) (\<lambda>transactions.
     zoom b_txTrie (\<lambda>t b. b\<lparr>b_txTrie := t\<rparr>) (put_txs cfg 0 transactions))"

definition validateTransactionsTrie :: "block_cfg \<Rightarrow> (block, bool) eff" where
  "validateTransactionsTrie cfg = bnd (gets id) (\<lambda>b.
     if length (b_transactions b) = 0 then ret (bh_transactionsTrie (b_header b) = KECCAK256_RLP)
     else andthen (when_eff (trie_root (b_txTrie b) = KECCAK256_RLP) (genTxTrie cfg))
       (gets (\<lambda>b. trie_root (b_txTrie b) = bh_transactionsTrie (b_header b))))"

section \<open>Validation\<close>

definition gasPrice_of :: "transaction \<Rightarrow> int option" where
  "gasPrice_of t = (case tx_payload t of
     Legacy g \<Rightarrow> Some g | AccessListEIP2930 c g l \<Rightarrow> Some g | FeeMarketEIP1559 c p f l \<Rightarrow> None)"

definition maxFeePerGas_of :: "transaction \<Rightarrow> int option" where
  "maxFeePerGas_of t = (case tx_payload t of FeeMarketEIP1559 c p f l \<Rightarrow> Some f | _ \<Rightarrow> None)"

definition below_base_fee :: "int option \<Rightarrow> int option \<Rightarrow> exn + bool" where
  "below_base_fee price baseFee =
     (case (price, baseFee) of (Some p, Some b) \<Rightarrow> Inr (p < b)
      | _ \<Rightarrow> Inl (JsError ''Cannot read properties of undefined''))"

definition base_fee_errors :: "block \<Rightarrow> transaction \<Rightarrow> exn + string list" where
  "base_fee_errors b t =
     (if isActivatedEIP (b_common b) 1559
      then if tx_supports t 1559
           then bindS (below_base_fee (maxFeePerGas_of t) (bh_baseFeePerGas (b_header b))) (\<lambda>low.
             Inr (if low then [''tx unable to pay base fee (EIP-1559 tx)''] else []))
           else bindS (below_base_fee (gasPrice_of t) (bh_baseFeePerGas (b_header b))) (\<lambda>low.
             Inr (if low then [''tx unable to pay base fee (non EIP-1559 tx)''] else []))
      else Inr [])"

fun tx_errors :: "block_cfg \<Rightarrow> block \<Rightarrow> nat \<Rightarrow> transaction list \<Rightarrow> exn + (nat \<times> string list) list" where
  "tx_errors cfg b i [] = Inr []"
| "tx_errors cfg b i (t # ts) =
     bindS (base_fee_errors b t) (\<lambda>feeErrs.
       let errs = tx_validate (bc_tx cfg) t @ feeErrs
       in bindS (tx_errors cfg b (Suc i) ts) (\<lambda>rest. Inr (if 0 < length errs then (i, errs) # rest else rest)))"

definition validateTransactions :: "block_cfg \<Rightarrow> block \<Rightarrow> exn + (nat \<times> string list) list" where
  "validateTransactions cfg b = tx_errors cfg b 0 (b_transactions b)"

definition validateUnclesHash :: "block_cfg \<Rightarrow> block \<Rightarrow> bool" where
  "validateUnclesHash cfg b \<longleftrightarrow>
     txc_keccak256 (bc_tx cfg) (txc_encode (bc_tx cfg) (Items (map header_rlp (b_uncleHeaders b)))) =
       bh_uncleHash (b_header b)"

definition validateData :: "block_cfg \<Rightarrow> bool \<Rightarrow> (block, unit) eff" where
  "validateData cfg onlyHeader = bnd (gets id) (\<lambda>b.
     bnd (of_sum (validateTransactions cfg b)) (\<lambda>txErrors.
       andthen (guard_eff (txErrors = []) (JsError ''invalid transactions''))
         (if onlyHeader then ret ()
          else bnd (validateTransactionsTrie cfg) (\<lambda>validateTxTrie.
            andthen (guard_eff validateTxTrie (JsError ''invalid transaction trie''))
              (guard_eff (validateUnclesHash cfg b) (JsError ''invalid uncle hash''))))))"

section \<open>Uncles\<close>

definition lowest_number :: "int \<Rightarrow> block_header list \<Rightarrow> int" where
  "lowest_number n uncles = fold (\<lambda>h l. if bh_number h < l then bh_number h else l) uncles n"

text \<open>The blocks that the loop over \<open>parentHash\<close> gets from the blockchain.\<close>

fun canonical_blocks :: "blockchain \<Rightarrow> nat \<Rightarrow> bytes \<Rightarrow> exn + block list" where
  "canonical_blocks chain 0 parentHash = Inr []"
| "canonical_blocks chain (Suc n) parentHash =
     bindS (bk_getBlock chain parentHash) (\<lambda>found.
       case found of
         None \<Rightarrow> Inl (JsError ''could not find parent block'')
       | Some parentBlock \<Rightarrow>
           bindS (canonical_blocks chain n (bh_parentHash (b_header parentBlock))) (\<lambda>rest.
             Inr (parentBlock # rest)))"

definition check_uncle :: "block_cfg \<Rightarrow> block list \<Rightarrow> block_header \<Rightarrow> exn + unit" where
  "check_uncle cfg blocks uh =
     (let canonicalChainHashes = map (block_hash cfg) blocks;
          includedUncles = concat (map (\<lambda>b. map (header_hash cfg) (b_uncleHeaders b)) blocks)
      in bindS (require (bh_parentHash uh \<in> set canonicalChainHashes)
             ''The parent hash of the uncle header is not part of the canonical chain'') (\<lambda>_.
         bindS (require (header_hash cfg uh \<notin> set includedUncles)
             ''The uncle is already included in the canonical chain'') (\<lambda>_.
           require (header_hash cfg uh \<notin> set canonicalChainHashes) ''The uncle is a canonical block'')))"

definition validateUncleHeaders :: "block_cfg \<Rightarrow> blockchain \<Rightarrow> block \<Rightarrow> block_header list \<Rightarrow> exn + unit" where
  "validateUncleHeaders cfg chain b uncles =
     (if length uncles = 0 then Inr ()
      else bindS (map_exn (\<lambda>uh. header_validate cfg (headers_of chain) uh (Some (b_number b))) uncles) (\<lambda>_.
           bindS (toNumber (b_number b - lowest_number (b_number b) uncles + 1)) (\<lambda>getBlocks.
           bindS (canonical_blocks chain getBlocks (bh_parentHash (b_header b))) (\<lambda>blocks.
           bindS (map_exn (check_uncle cfg blocks) uncles) (\<lambda>_. Inr ())))))"

definition validateUncles :: "block_cfg \<Rightarrow> blockchain \<Rightarrow> block \<Rightarrow> exn + unit" where
  "validateUncles cfg chain b =
     (if block_isGenesis b then Inr ()
      else bindS (require (length (b_uncleHeaders b) \<le> 2) ''too many uncle headers'') (\<lambda>_.
           bindS (require (distinct (map (header_hash cfg) (b_uncleHeaders b))) ''duplicate uncles'') (\<lambda>_.
             validateUncleHeaders cfg chain b (b_uncleHeaders b))))"

definition block_validate :: "block_cfg \<Rightarrow> blockchain \<Rightarrow> bool \<Rightarrow> (block, unit) eff" where
  "block_validate cfg chain onlyHeader = bnd (gets id) (\<lambda>b.
     andthen (of_sum (header_validate cfg (headers_of chain) (b_header b) None))
       (andthen (of_sum (validateUncles cfg chain b)) (validateData cfg onlyHeader)))"

definition block_canonicalDifficulty :: "block \<Rightarrow> block \<Rightarrow> exn + int" where
  "block_canonicalDifficulty b parent = canonicalDifficulty (b_header b) (b_header parent)"

definition block_validateDifficulty :: "block \<Rightarrow> block \<Rightarrow> exn + bool" where
  "block_validateDifficulty b parent = validateDifficulty (b_header b) (b_header parent)"

definition block_validateGasLimit :: "block \<Rightarrow> block \<Rightarrow> exn + bool" where
  "block_validateGasLimit b parent = validateGasLimit (b_header b) (b_header parent)"

end
