(* ===== verification/Run_Block.thy ===== *)
theory Run_Block
  imports Run_Tx Block
begin

text \<open>
  \<open>vm/src/runBlock.ts\<close> and \<open>vm/src/buildBlock.ts\<close>: running a block, and building one. The state is the
  virtual machine's \<open>Common\<close>, which the number of the block moves to its hardfork, and the state manager.
  \<open>block_world\<close> is what the machine brings along: its options, the configuration of the packages,
  the blockchain and the accounts of the DAO fork (\<open>config/dao_fork_accounts_config.json\<close>). A state root that is
  set is given as the content of the trie behind it, \<open>None\<close> when the trie does not have it. The signer of a clique
  header is recovered before each transaction, where the code does it when it pays the fees; what it throws
  takes the block back in both cases. Not modelled: the events, the debug output, the texts that
  \<open>_errorMsg\<close> adds, and the deprecated \<open>generateTxReceipt\<close> of this file.
\<close>

record block_world =
  bw_vm :: vm
  bw_cfg :: block_cfg
  bw_chain :: blockchain
  bw_tx :: tx_world
  bw_hardforkByBlockNumber :: bool
  bw_hardforkByTD :: "int option"
  bw_DAOAccounts :: "bytes list"
  bw_DAORefundContract :: bytes

record run_block_opts =
  rb_root :: "(bytes \<rightharpoonup> bytes list) option option"
  rb_generate :: bool
  rb_skipBlockValidation :: bool
  rb_skipNonce :: bool
  rb_skipBalance :: bool
  rb_hardforkByTD :: "int option"

record vm_state =
  vs_common :: common
  vs_state :: state_manager

text \<open>The virtual machine at a hardfork: what it reads from \<open>Common\<close>.\<close>

definition vm_at :: "block_world \<Rightarrow> common \<Rightarrow> vm" where
  "vm_at w c = (bw_vm w)\<lparr>
     vm_param := (\<lambda>topic name. case param c topic name of Inr (Some x) \<Rightarrow> x | _ \<Rightarrow> 0),
     vm_gteHardfork := gteHardfork c, vm_isActivatedEIP := isActivatedEIP c, vm_hardfork := cur_hardfork c,
     vm_chainId := chainIdBN c, vm_consensusAlgorithm := consensusAlgorithm c,
     vm_consensusType := consensusType c, vm_eips := eips c\<rparr>"

text \<open>What a transaction reads of the header. A clique header without a seal has no signer.\<close>

definition vm_header :: "block_cfg \<Rightarrow> common \<Rightarrow> block_header \<Rightarrow> exn + header" where
  "vm_header cfg c h =
     bindS (if consensusType c = ''poa'' then bindS (cliqueSigner cfg h) (\<lambda>a. Inr (Some a)) else Inr None) (\<lambda>signer.
       Inr \<lparr>h_number = bh_number h, h_coinbase = bh_coinbase h, h_timestamp = bh_timestamp h,
         h_difficulty = bh_difficulty h, h_prevRandao = bh_mixHash h, h_gasLimit = bh_gasLimit h,
         h_baseFeePerGas = bh_baseFeePerGas h, h_cliqueSigner = signer\<rparr>)"

section \<open>Receipts\<close>

definition receipt_head_rlp :: "receipt_head \<Rightarrow> rlp" where
  "receipt_head_rlp r = Item (case r of StateRoot root \<Rightarrow> root | Status n \<Rightarrow> min_bytes n)"

definition log_rlp :: "log_entry \<Rightarrow> rlp" where
  "log_rlp l = (case l of (address, topics, data) \<Rightarrow> Items [Item address, Items (map Item topics), Item data])"

definition encodeReceipt :: "block_cfg \<Rightarrow> transaction \<Rightarrow> receipt \<Rightarrow> bytes" where
  "encodeReceipt cfg t r =
     (let encoded = txc_encode (bc_tx cfg) (Items [receipt_head_rlp (rc_head r), Item (rc_gasUsed r),
            Item (rc_bitvector r), Items (map log_rlp (rc_logs r))])
      in if \<not> tx_supports t 2718 then encoded else of_nat (tx_type t) # encoded)"

section \<open>The transactions\<close>

record block_results =
  br_bloom :: bytes
  br_gasUsed :: int
  br_receiptTrie :: "bytes ctrie"
  br_receipts :: "receipt list"
  br_results :: "run_tx_result list"

definition no_results :: block_results where
  "no_results = \<lparr>br_bloom = new_bloom, br_gasUsed = 0, br_receiptTrie = new_trie, br_receipts = [], br_results = []\<rparr>"

definition max_gas_limit :: "common \<Rightarrow> block \<Rightarrow> exn + int" where
  "max_gas_limit c b =
     (if isActivatedEIP c 1559
      then bindS (param c ''gasConfig'' ''elasticityMultiplier'') (\<lambda>v.
           bindS (js_number v) (\<lambda>elasticity. Inr (bh_gasLimit (b_header b) * elasticity)))
      else Inr (bh_gasLimit (b_header b)))"

definition block_tx_opts :: "run_block_opts \<Rightarrow> block \<Rightarrow> header \<Rightarrow> int \<Rightarrow> run_tx_opts" where
  "block_tx_opts opts b h gasUsed = \<lparr>o_block = h, o_blockHeaderGasUsed = bh_gasUsed (b_header b),
     o_skipNonce = rb_skipNonce opts, o_skipBalance = rb_skipBalance opts, o_skipBlockGasLimitValidation = False,
     o_reportAccessList = False, o_blockGasUsed = Some gasUsed\<rparr>"

text \<open>What a transaction adds: gas, bloom, and the receipt, also in the trie of the receipts.\<close>

definition add_result :: "block_cfg \<Rightarrow> nat \<Rightarrow> transaction \<Rightarrow> run_tx_result \<Rightarrow> block_results \<Rightarrow> exn + block_results" where
  "add_result cfg i t txRes acc =
     (case trie_put (tx_trie_cfg cfg) (index_key cfg i) (encodeReceipt cfg t (t_receipt txRes)) (br_receiptTrie acc) of
        (Inl e, trie) \<Rightarrow> Inl e
      | (Inr _, trie) \<Rightarrow> Inr \<lparr>br_bloom = bloom_or (br_bloom acc) (t_bloom txRes),
          br_gasUsed = br_gasUsed acc + g_gasUsed txRes, br_receiptTrie = trie,
          br_receipts = br_receipts acc @ [t_receipt txRes], br_results = br_results acc @ [txRes]\<rparr>)"

definition apply_tx ::
  "block_world \<Rightarrow> common \<Rightarrow> run_block_opts \<Rightarrow> block \<Rightarrow> nat \<Rightarrow> transaction \<Rightarrow> block_results \<Rightarrow>
   (state_manager, block_results) eff" where
  "apply_tx w c opts b i t acc =
     bnd (of_sum (max_gas_limit c b)) (\<lambda>maxGasLimit.
     andthen (guard_eff (\<not> maxGasLimit < tx_gasLimit t + br_gasUsed acc)
        (JsError ''tx has a higher gas limit than the block''))
    (bnd (of_sum (vm_header (bw_cfg w) c (b_header b))) (\<lambda>h.
     bnd (runTx (vm_at w c) (bw_tx w) (block_tx_opts opts b h (br_gasUsed acc)) t) (\<lambda>txRes.
       of_sum (add_result (bw_cfg w) i t txRes acc)))))"

fun apply_txs ::
  "block_world \<Rightarrow> common \<Rightarrow> run_block_opts \<Rightarrow> block \<Rightarrow> nat \<Rightarrow> transaction list \<Rightarrow> block_results \<Rightarrow>
   (state_manager, block_results) eff" where
  "apply_txs w c opts b i [] acc = ret acc"
| "apply_txs w c opts b i (t # ts) acc =
     bnd (apply_tx w c opts b i t acc) (apply_txs w c opts b (Suc i) ts)"

definition applyTransactions ::
  "block_world \<Rightarrow> common \<Rightarrow> run_block_opts \<Rightarrow> block \<Rightarrow> (state_manager, block_results) eff" where
  "applyTransactions w c opts b = apply_txs w c opts b 0 (b_transactions b) no_results"

section \<open>Rewards\<close>

definition calculateOmmerReward :: "int \<Rightarrow> int \<Rightarrow> int \<Rightarrow> int" where
  "calculateOmmerReward ommerBlockNumber blockNumber minerReward =
     (let heightDiff = blockNumber - ommerBlockNumber;
          reward = (8 - heightDiff) * bn_div minerReward 8
      in if reward < 0 then 0 else reward)"

definition calculateMinerReward :: "int \<Rightarrow> nat \<Rightarrow> int" where
  "calculateMinerReward minerReward ommersNum =
     (let niblingReward = bn_div minerReward 32; totalNiblingReward = niblingReward * int ommersNum
      in minerReward + totalNiblingReward)"

definition rewardAccount :: "bytes \<Rightarrow> int \<Rightarrow> (state_manager, account) eff" where
  "rewardAccount address reward =
     bnd (sm_getAccount address) (\<lambda>a.
       let account = a\<lparr>acc_balance := acc_balance a + reward\<rparr>
       in andthen (sm_putAccount address account) (ret account))"

definition assignBlockRewards :: "common \<Rightarrow> block \<Rightarrow> (state_manager, unit) eff" where
  "assignBlockRewards c b =
     bnd (of_sum (num_param c ''pow'' ''minerReward'')) (\<lambda>minerReward.
     andthen (for_each (b_uncleHeaders b) (\<lambda>ommer.
         bnd (rewardAccount (bh_coinbase ommer)
           (calculateOmmerReward (bh_number ommer) (b_number b) minerReward)) (\<lambda>_. ret ())))
       (bnd (rewardAccount (bh_coinbase (b_header b))
          (calculateMinerReward minerReward (length (b_uncleHeaders b)))) (\<lambda>_. ret ())))"

section \<open>The block\<close>

definition applyBlock ::
  "block_world \<Rightarrow> common \<Rightarrow> run_block_opts \<Rightarrow> block \<Rightarrow> (state_manager, block_results) eff" where
  "applyBlock w c opts b =
     andthen (when_eff (\<not> rb_skipBlockValidation opts)
         (andthen (guard_eff (\<not> 0x8000000000000000 \<le> bh_gasLimit (b_header b))
             (JsError ''Invalid block with gas limit greater than (2^63 - 1)''))
           (of_sum (fst (block_validate (bw_cfg w) (bw_chain w) False b)))))
       (bnd (applyTransactions w c opts b) (\<lambda>blockResults.
          andthen (when_eff (consensusType (b_common b) = ''pow'') (assignBlockRewards c b))
            (ret blockResults)))"

definition sm_setStateRoot :: "(bytes \<rightharpoonup> bytes list) option \<Rightarrow> (state_manager, unit) eff" where
  "sm_setStateRoot content =
     bnd (gets sm_checkpointCount) (\<lambda>n.
     andthen (guard_eff (n = 0) (JsError ''Cannot set state root with uncommitted checkpoints''))
    (andthen sm_flush
      (case content of
         None \<Rightarrow> raise (JsError ''State trie does not contain state root'')
       | Some root \<Rightarrow> andthen (on_trie (trie_set_root root))
           (andthen (on_cache cache_clear) (modif (\<lambda>s. s\<lparr>sm_storageTries := Map.empty\<rparr>))))))"

text \<open>
  The fork of the DAO. \<open>!state.accountExists(...)\<close> negates a promise and is false, so the refund account is not
  put by itself; \<open>getAccount\<close> gives a new account when there is none.
\<close>

fun dao_loop :: "bytes list \<Rightarrow> int \<Rightarrow> (state_manager, int) eff" where
  "dao_loop [] balance = ret balance"
| "dao_loop (a # as) balance =
     bnd (sm_getAccount a) (\<lambda>account.
       andthen (sm_putAccount a (account\<lparr>acc_balance := 0\<rparr>)) (dao_loop as (balance + acc_balance account)))"

definition applyDAOHardfork :: "block_world \<Rightarrow> (state_manager, unit) eff" where
  "applyDAOHardfork w =
     bnd (sm_getAccount (bw_DAORefundContract w)) (\<lambda>DAORefundAccount.
     bnd (dao_loop (bw_DAOAccounts w) (acc_balance DAORefundAccount)) (\<lambda>balance.
       sm_putAccount (bw_DAORefundContract w) (DAORefundAccount\<lparr>acc_balance := balance\<rparr>)))"

definition is_dao_block :: "common \<Rightarrow> block \<Rightarrow> exn + bool" where
  "is_dao_block c b =
     bindS (hardforkIsActiveOnChain c (Some ''dao'') False) (\<lambda>active.
       if \<not> active then Inr False
       else bindS (hardforkBlockBN c (Some ''dao'')) (\<lambda>block.
            bindS (js_number block) (\<lambda>n. Inr (b_number b = n))))"

text \<open>
  The block with its generated fields. The object has both the generated \<open>bloom\<close> and the old \<open>logsBloom\<close>, and
  \<open>fromHeaderData\<close> reads the old one. The other fields of the transactions and headers are read back.
\<close>

definition header_as_data :: "block_header \<Rightarrow> header_data" where
  "header_as_data h = \<lparr>hd_parentHash = Some (bh_parentHash h), hd_uncleHash = Some (bh_uncleHash h),
     hd_coinbase = Some (bh_coinbase h), hd_stateRoot = Some (bh_stateRoot h),
     hd_transactionsTrie = Some (bh_transactionsTrie h), hd_receiptTrie = Some (bh_receiptTrie h),
     hd_logsBloom = Some (bh_logsBloom h), hd_difficulty = Some (toArrayLike_min (bh_difficulty h)),
     hd_number = Some (toArrayLike_min (bh_number h)), hd_gasLimit = Some (toArrayLike_min (bh_gasLimit h)),
     hd_gasUsed = Some (toArrayLike_min (bh_gasUsed h)), hd_timestamp = Some (toArrayLike_min (bh_timestamp h)),
     hd_extraData = Some (bh_extraData h), hd_mixHash = Some (bh_mixHash h), hd_nonce = Some (bh_nonce h),
     hd_baseFeePerGas = map_option toArrayLike_min (bh_baseFeePerGas h)\<rparr>"

definition opt_bytes :: "int option \<Rightarrow> bytes" where
  "opt_bytes v = (case v of Some x \<Rightarrow> toArrayLike_min x | None \<Rightarrow> [])"

definition tx_as_data :: "transaction \<Rightarrow> int option \<times> tx_input" where
  "tx_as_data t =
     (let d = no_data\<lparr>td_nonce := toArrayLike_min (tx_nonce t), td_gasLimit := toArrayLike_min (tx_gasLimit t),
            td_to := (case tx_to t of Some a \<Rightarrow> a | None \<Rightarrow> []), td_value := toArrayLike_min (tx_value t),
            td_data := tx_data t, td_v := opt_bytes (tx_v t), td_r := opt_bytes (tx_r t), td_s := opt_bytes (tx_s t)\<rparr>
      in (Some (int (tx_type t)), case tx_payload t of
            Legacy g \<Rightarrow> d\<lparr>td_gasPrice := toArrayLike_min g\<rparr>
          | AccessListEIP2930 c g l \<Rightarrow> d\<lparr>td_chainId := Some c, td_gasPrice := toArrayLike_min g, td_accessList := l\<rparr>
          | FeeMarketEIP1559 c p f l \<Rightarrow> d\<lparr>td_chainId := Some c, td_maxPriorityFeePerGas := toArrayLike_min p,
              td_maxFeePerGas := toArrayLike_min f, td_accessList := l\<rparr>))"

definition txs_root :: "block_cfg \<Rightarrow> transaction list \<Rightarrow> exn + bytes" where
  "txs_root cfg ts =
     (case put_txs cfg 0 ts new_trie of (Inl e, trie) \<Rightarrow> Inl e | (Inr _, trie) \<Rightarrow> Inr (trie_root trie))"

definition generated_block :: "block_world \<Rightarrow> common \<Rightarrow> block \<Rightarrow> block_results \<Rightarrow> bytes \<Rightarrow> exn + block" where
  "generated_block w c b result stateRoot =
     bindS (txs_root (bw_cfg w) (b_transactions b)) (\<lambda>transactionsTrie.
       fromBlockData (bw_cfg w)
         \<lparr>bd_header = (header_as_data (b_header b))\<lparr>hd_stateRoot := Some stateRoot,
            hd_gasUsed := Some (toArrayLike_min (br_gasUsed result)),
            hd_receiptTrie := Some (trie_root (br_receiptTrie result)),
            hd_transactionsTrie := Some transactionsTrie\<rparr>,
          bd_transactions = map tx_as_data (b_transactions b),
          bd_uncleHeaders = map header_as_data (b_uncleHeaders b)\<rparr>
         (no_block_opts\<lparr>bo_common := Some c\<rparr>))"

definition check_results :: "block \<Rightarrow> block_results \<Rightarrow> bytes \<Rightarrow> exn + unit" where
  "check_results b result stateRoot =
     bindS (require (trie_root (br_receiptTrie result) = bh_receiptTrie (b_header b)) ''invalid receiptTrie'') (\<lambda>_.
     bindS (require (br_bloom result = bh_logsBloom (b_header b)) ''invalid bloom'') (\<lambda>_.
     bindS (require (br_gasUsed result = bh_gasUsed (b_header b)) ''invalid gasUsed'') (\<lambda>_.
       require (stateRoot = bh_stateRoot (b_header b)) ''invalid block stateRoot'')))"

record run_block_result =
  rr_results :: block_results
  rr_stateRoot :: bytes
  rr_block :: block

definition finish_block ::
  "block_world \<Rightarrow> common \<Rightarrow> run_block_opts \<Rightarrow> block \<Rightarrow> block_results \<Rightarrow> (state_manager, run_block_result) eff" where
  "finish_block w c opts b result =
     bnd (sm_getStateRoot (vm_at w c)) (\<lambda>stateRoot.
     bnd (of_sum (if rb_generate opts then generated_block w c b result stateRoot
                  else bindS (check_results b result stateRoot) (\<lambda>_. Inr b))) (\<lambda>b'.
       ret \<lparr>rr_results = result, rr_stateRoot = stateRoot, rr_block = b'\<rparr>))"

definition before_block :: "block_world \<Rightarrow> common \<Rightarrow> run_block_opts \<Rightarrow> block \<Rightarrow> (state_manager, unit) eff" where
  "before_block w c opts b =
     andthen (case rb_root opts of None \<Rightarrow> ret () | Some content \<Rightarrow> sm_setStateRoot content)
       (bnd (of_sum (is_dao_block c b)) (\<lambda>dao. when_eff dao (applyDAOHardfork w)))"

definition run_block_at ::
  "block_world \<Rightarrow> common \<Rightarrow> run_block_opts \<Rightarrow> block \<Rightarrow> (state_manager, run_block_result) eff" where
  "run_block_at w c opts b =
     andthen (before_block w c opts b)
    (andthen sm_checkpoint
      (bnd (try_catch (applyBlock w c opts b) revert_and_throw) (\<lambda>result.
         andthen sm_commit (finish_block w c opts b result))))"

definition set_block_hardfork :: "block_world \<Rightarrow> run_block_opts \<Rightarrow> int \<Rightarrow> (common, unit) eff" where
  "set_block_hardfork w opts number =
     when_eff (bw_hardforkByBlockNumber w \<or> bw_hardforkByTD w \<noteq> None \<or> rb_hardforkByTD opts \<noteq> None)
       (bnd (gets (\<lambda>c. setHardforkByBlockNumber c number
           (case rb_hardforkByTD opts of Some td \<Rightarrow> Some td | None \<Rightarrow> bw_hardforkByTD w))) (\<lambda>r.
         bnd (of_sum r) (\<lambda>(c, h). modif (\<lambda>_. c))))"

definition runBlock :: "block_world \<Rightarrow> run_block_opts \<Rightarrow> block \<Rightarrow> (vm_state, run_block_result) eff" where
  "runBlock w opts b =
     andthen (zoom vs_common (\<lambda>c s. s\<lparr>vs_common := c\<rparr>) (set_block_hardfork w opts (b_number b)))
       (bnd (gets vs_common) (\<lambda>c. zoom vs_state (\<lambda>t s. s\<lparr>vs_state := t\<rparr>) (run_block_at w c opts b)))"

end
