(* ===== verification/Build_Block.thy ===== *)
theory Build_Block
  imports Run_Block
begin

text \<open>
  \<open>vm/src/buildBlock.ts\<close>: the builder of a block. It runs transactions on the state of the virtual machine, inside
  one checkpoint that it opens with the first; \<open>build\<close> commits the checkpoint, \<open>revert\<close> takes it back, and after
  either every method throws. The state manager of the machine is a field of the state here. The blockchain's
  \<open>putBlock\<close> and the time are arguments.
\<close>

record block_builder =
  bb_gasUsed :: int
  bb_headerData :: header_data
  bb_transactions :: "transaction list"
  bb_transactionResults :: "run_tx_result list"
  bb_checkpointed :: bool
  bb_reverted :: bool
  bb_built :: bool
  bb_state :: state_manager

record builder_world =
  bd_world :: block_world
  bd_common :: common
  bd_blockOpts :: block_opts
  bd_putBlockIntoBlockchain :: bool
  bd_putBlock :: "block \<Rightarrow> exn + unit"

abbreviation on_builder_state :: "(state_manager, 'a) eff \<Rightarrow> (block_builder, 'a) eff" where
  "on_builder_state \<equiv> zoom bb_state (\<lambda>s b. b\<lparr>bb_state := s\<rparr>)"

definition or_else :: "'a option \<Rightarrow> 'a \<Rightarrow> 'a option" where
  "or_else v d = (case v of Some x \<Rightarrow> Some x | None \<Rightarrow> Some d)"

definition new_builder ::
  "builder_world \<Rightarrow> block \<Rightarrow> header_data \<Rightarrow> state_manager \<Rightarrow> exn + block_builder" where
  "new_builder w parentBlock headerData s =
     (let d = headerData\<lparr>
            hd_parentHash := or_else (hd_parentHash headerData) (block_hash (bw_cfg (bd_world w)) parentBlock),
            hd_number := or_else (hd_number headerData) (toArrayLike_min (b_number parentBlock + 1)),
            hd_gasLimit := or_else (hd_gasLimit headerData) (toArrayLike_min (bh_gasLimit (b_header parentBlock)))\<rparr>
      in bindS (if isActivatedEIP (bd_common w) 1559 \<and> hd_baseFeePerGas d = None
                then bindS (calcNextBaseFee (b_header parentBlock)) (\<lambda>fee.
                  Inr (d\<lparr>hd_baseFeePerGas := Some (toArrayLike_min fee)\<rparr>))
                else Inr d) (\<lambda>d'.
           Inr \<lparr>bb_gasUsed = 0, bb_headerData = d', bb_transactions = [], bb_transactionResults = [],
             bb_checkpointed = False, bb_reverted = False, bb_built = False, bb_state = s\<rparr>))"

definition builder_opts :: "builder_world \<Rightarrow> block_opts" where
  "builder_opts w = (bd_blockOpts w)\<lparr>bo_common := Some (bd_common w)\<rparr>"

definition checkStatus :: "(block_builder, unit) eff" where
  "checkStatus = bnd (gets id) (\<lambda>b.
     andthen (guard_eff (\<not> bb_built b) (JsError ''Block has already been built''))
       (guard_eff (\<not> bb_reverted b) (JsError ''State has already been reverted'')))"

section \<open>Adding a transaction\<close>

definition open_checkpoint :: "(block_builder, unit) eff" where
  "open_checkpoint = bnd (gets bb_checkpointed) (\<lambda>c.
     when_eff (\<not> c) (andthen (on_builder_state sm_checkpoint) (modif (\<lambda>b. b\<lparr>bb_checkpointed := True\<rparr>))))"

definition data_gasLimit :: "header_data \<Rightarrow> int" where
  "data_gasLimit d = bn_of_bytes (case hd_gasLimit d of Some b \<Rightarrow> b | None \<Rightarrow> [])"

definition builder_block :: "builder_world \<Rightarrow> header_data \<Rightarrow> transaction list \<Rightarrow> exn + block" where
  "builder_block w d ts = fromBlockData (bw_cfg (bd_world w))
     \<lparr>bd_header = d, bd_transactions = map tx_as_data ts, bd_uncleHeaders = []\<rparr> (builder_opts w)"

definition builder_runTx ::
  "builder_world \<Rightarrow> block \<Rightarrow> transaction \<Rightarrow> (state_manager, run_tx_result) eff" where
  "builder_runTx w b t =
     bnd (of_sum (vm_header (bw_cfg (bd_world w)) (bd_common w) (b_header b))) (\<lambda>h.
       runTx (vm_at (bd_world w) (bd_common w)) (bw_tx (bd_world w))
         \<lparr>o_block = h, o_blockHeaderGasUsed = bh_gasUsed (b_header b), o_skipNonce = False, o_skipBalance = False,
          o_skipBlockGasLimitValidation = False, o_reportAccessList = False, o_blockGasUsed = None\<rparr> t)"

definition addTransaction :: "builder_world \<Rightarrow> transaction \<Rightarrow> (block_builder, run_tx_result) eff" where
  "addTransaction w t =
     andthen checkStatus
    (andthen open_checkpoint
    (bnd (gets id) (\<lambda>b.
       let blockGasRemaining = data_gasLimit (bb_headerData b) - bb_gasUsed b
       in andthen (guard_eff (\<not> tx_gasLimit t > blockGasRemaining)
            (JsError ''tx has a higher gas limit than the remaining gas in the block''))
         (bnd (of_sum (builder_block w ((bb_headerData b)\<lparr>hd_gasUsed := Some (toArrayLike_min (bb_gasUsed b))\<rparr>)
              (bb_transactions b))) (\<lambda>block.
          bnd (on_builder_state (builder_runTx w block t)) (\<lambda>result.
          andthen (modif (\<lambda>b. b\<lparr>bb_transactions := bb_transactions b @ [t],
              bb_transactionResults := bb_transactionResults b @ [result],
              bb_gasUsed := bb_gasUsed b + g_gasUsed result\<rparr>))
            (ret result)))))))"

section \<open>The end\<close>

definition builder_revert :: "(block_builder, unit) eff" where
  "builder_revert =
     andthen checkStatus
       (bnd (gets bb_checkpointed) (\<lambda>c.
          when_eff c (andthen (on_builder_state sm_revert) (modif (\<lambda>b. b\<lparr>bb_reverted := True\<rparr>)))))"

definition builder_bloom :: "run_tx_result list \<Rightarrow> bytes" where
  "builder_bloom results = merged_bloom (map t_bloom results)"

fun put_receipts ::
  "block_cfg \<Rightarrow> nat \<Rightarrow> (transaction \<times> run_tx_result) list \<Rightarrow> (bytes ctrie, unit) eff" where
  "put_receipts cfg i [] = ret ()"
| "put_receipts cfg i ((t, r) # rs) =
     andthen (trie_put (tx_trie_cfg cfg) (index_key cfg i) (encodeReceipt cfg t (t_receipt r)))
       (put_receipts cfg (Suc i) rs)"

definition builder_receiptTrie :: "block_cfg \<Rightarrow> block_builder \<Rightarrow> exn + bytes" where
  "builder_receiptTrie cfg b =
     (case put_receipts cfg 0 (zip (bb_transactions b) (bb_transactionResults b)) new_trie of
        (Inl e, trie) \<Rightarrow> Inl e | (Inr _, trie) \<Rightarrow> Inr (trie_root trie))"

definition rewardMiner :: "builder_world \<Rightarrow> (block_builder, unit) eff" where
  "rewardMiner w =
     bnd (of_sum (num_param (bd_common w) ''pow'' ''minerReward'')) (\<lambda>minerReward.
     bnd (gets (\<lambda>b. case hd_coinbase (bb_headerData b) of Some a \<Rightarrow> newAddress a | None \<Rightarrow> Inr (replicate 20 0))) (\<lambda>r.
     bnd (of_sum r) (\<lambda>coinbase.
     bnd (on_builder_state (rewardAccount coinbase (calculateMinerReward minerReward 0))) (\<lambda>_. ret ()))))"

record seal_opts =
  so_nonce :: "bytes option"
  so_mixHash :: "bytes option"

definition seal_field :: "bytes option \<Rightarrow> bytes option \<Rightarrow> bytes option" where
  "seal_field v d = (case v of Some x \<Rightarrow> Some x | None \<Rightarrow> d)"

definition sealed_data :: "bool \<Rightarrow> seal_opts \<Rightarrow> header_data \<Rightarrow> header_data" where
  "sealed_data pow seal d =
     (if pow then d\<lparr>hd_nonce := seal_field (so_nonce seal) (hd_nonce d),
        hd_mixHash := seal_field (so_mixHash seal) (hd_mixHash d)\<rparr> else d)"

definition final_data ::
  "block_builder \<Rightarrow> int \<Rightarrow> bytes \<Rightarrow> bytes \<Rightarrow> bytes \<Rightarrow> header_data" where
  "final_data b now stateRoot transactionsTrie receiptTrie = (bb_headerData b)\<lparr>hd_stateRoot := Some stateRoot,
     hd_transactionsTrie := Some transactionsTrie, hd_receiptTrie := Some receiptTrie,
     hd_logsBloom := Some (builder_bloom (bb_transactionResults b)),
     hd_gasUsed := Some (toArrayLike_min (bb_gasUsed b)),
     hd_timestamp := or_else (hd_timestamp (bb_headerData b)) (toArrayLike_min now)\<rparr>"

definition built_block ::
  "builder_world \<Rightarrow> int \<Rightarrow> seal_opts \<Rightarrow> bytes \<Rightarrow> block_builder \<Rightarrow> exn + block" where
  "built_block w now seal stateRoot b =
     bindS (txs_root (bw_cfg (bd_world w)) (bb_transactions b)) (\<lambda>transactionsTrie.
     bindS (builder_receiptTrie (bw_cfg (bd_world w)) b) (\<lambda>receiptTrie.
     bindS (builder_block w (sealed_data (consensusType (bd_common w) = ''pow'') seal
              (final_data b now stateRoot transactionsTrie receiptTrie)) (bb_transactions b)) (\<lambda>block.
     bindS (if bd_putBlockIntoBlockchain w then bd_putBlock w block else Inr ()) (\<lambda>_.
       Inr block))))"

definition build :: "builder_world \<Rightarrow> int \<Rightarrow> seal_opts \<Rightarrow> (block_builder, block) eff" where
  "build w now seal =
     andthen checkStatus
    (andthen (when_eff (consensusType (bd_common w) = ''pow'') (rewardMiner w))
    (bnd (on_builder_state (sm_getStateRoot (vm_at (bd_world w) (bd_common w)))) (\<lambda>stateRoot.
     bnd (gets (built_block w now seal stateRoot)) (\<lambda>r.
     bnd (of_sum r) (\<lambda>block.
     andthen (modif (\<lambda>b. b\<lparr>bb_built := True\<rparr>))
    (andthen (bnd (gets bb_checkpointed) (\<lambda>c.
         when_eff c (andthen (on_builder_state sm_commit) (modif (\<lambda>b. b\<lparr>bb_checkpointed := False\<rparr>)))))
       (ret block)))))))"

end
