(* ===== verification/Frame_Rules.thy ===== *)
theory Frame_Rules
  imports Interpreter
begin

text \<open>
  What one opcode can do to the frame it runs in and to the world. \<open>frame_step vm W\<close> relates two
  states of a frame when the world behind it went from one to the other by \<open>W\<close>, the code and the
  environment are the same (but for the copy of the contract's own account), no gas was made out of
  none, and the stacks and the memory stayed well-formed; \<open>flow_step vm W\<close> says in addition that the
  program counter, the return stack and the analysis of jumps did not change. The locale
  \<open>world_rel\<close> is the interface to the world: \<open>W\<close> holds of the operations that the opcodes use and
  composes. Every handler keeps \<open>frame_step vm W\<close>, and all but the jumps keep \<open>flow_step vm W\<close>.
\<close>

named_theorems kept \<open>effects that keep the relations\<close>

definition eei_step :: "vm \<Rightarrow> (evm \<Rightarrow> evm \<Rightarrow> bool) \<Rightarrow> eei \<Rightarrow> eei \<Rightarrow> bool" where
  "eei_step vm W e e' \<longleftrightarrow> W (ei_evm e) (ei_evm e') \<and>
     (\<exists>c. ei_env e' = (ei_env e)\<lparr>env_contract := c\<rparr>) \<and>
     (0 \<le> gasPrice vm ''callStipend'' \<longrightarrow> 0 \<le> ei_gasLeft e \<longrightarrow> 0 \<le> ei_gasLeft e')"

definition frame_step :: "vm \<Rightarrow> (evm \<Rightarrow> evm \<Rightarrow> bool) \<Rightarrow> run_state \<Rightarrow> run_state \<Rightarrow> bool" where
  "frame_step vm W rs rs' \<longleftrightarrow> eei_step vm W (rs_eei rs) (rs_eei rs') \<and> rs_code rs' = rs_code rs \<and>
     (stack_wf (rs_stack rs) \<longrightarrow> stack_wf (rs_stack rs')) \<and>
     maxHeight (rs_stack rs') = maxHeight (rs_stack rs) \<and>
     (mem_wf (rs_memory rs) \<longrightarrow> mem_wf (rs_memory rs'))"

definition flow_step :: "vm \<Rightarrow> (evm \<Rightarrow> evm \<Rightarrow> bool) \<Rightarrow> run_state \<Rightarrow> run_state \<Rightarrow> bool" where
  "flow_step vm W rs rs' \<longleftrightarrow> frame_step vm W rs rs' \<and> programCounter rs' = programCounter rs \<and>
     returnStack rs' = returnStack rs \<and> validJumps rs' = validJumps rs \<and>
     shouldDoJumpAnalysis rs' = shouldDoJumpAnalysis rs \<and> opCode rs' = opCode rs"

locale world_rel =
  fixes vm :: vm and exec :: exec and W :: "evm \<Rightarrow> evm \<Rightarrow> bool"
  assumes W_refl: "W s s"
    and W_trans: "W s t \<Longrightarrow> W t u \<Longrightarrow> W s u"
    and W_state: "sm_writes vm (ev_state s) t' \<Longrightarrow> W s (s\<lparr>ev_state := t'\<rparr>)"
    and W_transient: "ts_put a k v (ev_transientStorage s) = (r, x) \<Longrightarrow>
      W s (s\<lparr>ev_transientStorage := x\<rparr>)"
    and W_refund: "W s (s\<lparr>ev_refund := n\<rparr>)"
    and W_exec: "exec m s = (q, t) \<Longrightarrow> (\<And>e. q = Inl e \<Longrightarrow> is_vm e) \<Longrightarrow> W s t"

sublocale world_rel \<subseteq> ev: step_rel W is_vm
  by unfold_locales (fact W_refl, fact W_trans)

sublocale world_rel \<subseteq> ei: step_rel "eei_step vm W" is_vm
proof
  fix s t u :: eei
  show "eei_step vm W s s"
    unfolding eei_step_def by (auto simp: W_refl intro: exI [of _ "env_contract (ei_env s)"])
  assume "eei_step vm W s t" "eei_step vm W t u"
  then show "eei_step vm W s u" by (auto simp: eei_step_def intro: W_trans)
qed

sublocale world_rel \<subseteq> fr: step_rel "frame_step vm W" is_vm
  by unfold_locales (auto simp: frame_step_def ei.R_refl intro: ei.R_trans)

sublocale world_rel \<subseteq> fl: step_rel "flow_step vm W" is_vm
  by unfold_locales (auto simp: flow_step_def fr.R_refl intro: fr.R_trans)

context world_rel
begin

section \<open>Lifting\<close>

lemma on_state_keeps: "(\<And>s. sm_writes vm s (snd (m s))) \<Longrightarrow> ev.keeps (on_state m)"
  by (rule ev.keeps_zoom) (rule W_state)

lemma on_evm_keeps [kept]:
  assumes "ev.keeps m" shows "ei.keeps (on_evm m)"
  unfolding ei.keeps_def
proof (intro allI impI)
  fix e r e'
  assume run: "on_evm m e = (r, e')" and r: "\<forall>x. r = Inl x \<longrightarrow> is_vm x"
  obtain t where t: "m (ei_evm e) = (r, t)" "e' = e\<lparr>ei_evm := t\<rparr>"
    using run by (auto simp: zoom_def split: prod.splits)
  with ev.keeps_step [OF assms t(1)] r have "W (ei_evm e) t" by blast
  then show "eei_step vm W e e'"
    using t(2) unfolding eei_step_def by (auto intro: exI [of _ "env_contract (ei_env e)"])
qed

lemma on_eei_keeps [kept]:
  assumes "ei.keeps m" shows "fl.keeps (on_eei m)"
  unfolding fl.keeps_def
proof (intro allI impI)
  fix rs r rs'
  assume run: "on_eei m rs = (r, rs')" and r: "\<forall>x. r = Inl x \<longrightarrow> is_vm x"
  obtain t where t: "m (rs_eei rs) = (r, t)" "rs' = rs\<lparr>rs_eei := t\<rparr>"
    using run by (auto simp: zoom_def split: prod.splits)
  with ei.keeps_step [OF assms t(1)] r have "eei_step vm W (rs_eei rs) t" by blast
  then show "flow_step vm W rs rs'"
    using t(2) by (simp add: flow_step_def frame_step_def)
qed

lemma fl_imp_fr: "fl.keeps m \<Longrightarrow> fr.keeps m"
  unfolding fl.keeps_def fr.keeps_def flow_step_def by blast

lemma on_stack_keeps:
  assumes "\<And>st. stack_wf st \<Longrightarrow> stack_wf (snd (m st))" "\<And>st. maxHeight (snd (m st)) = maxHeight st"
  shows "fl.keeps (on_stack m)"
  by (rule fl.keeps_zoom) (simp add: flow_step_def frame_step_def ei.R_refl assms)

lemma on_memory_keeps:
  assumes "\<And>st. mem_wf st \<Longrightarrow> mem_wf (snd (m st))"
  shows "fl.keeps (on_memory m)"
  by (rule fl.keeps_zoom) (simp add: flow_step_def frame_step_def ei.R_refl assms)

section \<open>The world\<close>

lemma state_kept [kept]:
  "ev.keeps (on_state (sm_getAccount a))" "ev.keeps (on_state (sm_putAccount a x))"
  "ev.keeps (on_state (sm_deleteAccount a))" "ev.keeps (on_state (sm_touchAccount a))"
  "ev.keeps (on_state (sm_putContractCode vm a c))" "ev.keeps (on_state (sm_getContractCode a))"
  "ev.keeps (on_state (sm_getContractStorage a k))"
  "ev.keeps (on_state (sm_getOriginalContractStorage a k))"
  "ev.keeps (on_state (sm_putContractStorage vm a k c))"
  "ev.keeps (on_state (sm_clearContractStorage a))"
  "ev.keeps (on_state (addWarmedAddress a))" "ev.keeps (on_state (addWarmedStorage a k))"
  by (rule on_state_keeps, erule sm_writes.intros [OF surjective_pairing] |
      rule on_state_keeps, rule sm_writes.intros [OF surjective_pairing])+

lemma accountIsEmpty_kept [kept]: "ev.keeps (on_state (sm_accountIsEmpty a))"
proof (rule on_state_keeps)
  fix s
  have "snd (sm_accountIsEmpty a s) = snd (sm_getAccount a s)"
    by (simp add: sm_accountIsEmpty_def eff_defs split: prod.splits sum.splits)
  then show "sm_writes vm s (snd (sm_accountIsEmpty a s))"
    using sm_writes.intros(1) [OF surjective_pairing] by simp
qed

lemma accountExists_kept [kept]: "ev.keeps (on_state (sm_accountExists a))"
proof (rule ev.keepsI)
  fix s :: evm
  have "snd (sm_accountExists a t) = t" for t :: state_manager
    using cache_lookup_pure [of a]
    by (auto simp: sm_accountExists_def cache_keyIsDeleted_def eff_defs split: prod.splits sum.splits)
      (metis snd_conv state_manager.surjective state_manager.update_convs(2))+
  then show "W s (snd (on_state (sm_accountExists a) s))"
    by (simp add: zoom_def split_beta W_refl)
qed

lemma transient_kept [kept]: "ev.keeps (on_transient (ts_put a k v))"
  by (rule ev.keeps_zoom) (rule W_transient [OF surjective_pairing])

lemma exec_kept [kept]: "ev.keeps (exec m)"
  unfolding ev.keeps_def using W_exec by blast

lemma refund_kept [kept]: "ev.keeps (modif (\<lambda>v. v\<lparr>ev_refund := f v\<rparr>))"
  by (rule ev.keeps_modif) (rule W_refund)

section \<open>The interface\<close>

lemma eei_same [kept]:
  "ei.keeps (modif (\<lambda>e. e\<lparr>ei_result := f e\<rparr>))"
  "ei.keeps (modif (\<lambda>e. e\<lparr>ei_lastReturned := b\<rparr>))"
  "ei.keeps (modif (\<lambda>e. e\<lparr>ei_env := (ei_env e)\<lparr>env_contract := g e\<rparr>\<rparr>))"
proof -
  have "\<exists>c. ei_env e = (ei_env e)\<lparr>env_contract := c\<rparr>" for e
    by (rule exI [of _ "env_contract (ei_env e)"]) simp
  then show "ei.keeps (modif (\<lambda>e. e\<lparr>ei_result := f e\<rparr>))"
    "ei.keeps (modif (\<lambda>e. e\<lparr>ei_lastReturned := b\<rparr>))"
    "ei.keeps (modif (\<lambda>e. e\<lparr>ei_env := (ei_env e)\<lparr>env_contract := g e\<rparr>\<rparr>))"
    by (auto intro!: ei.keeps_modif simp: eei_step_def W_refl)
qed

lemma gas_kept [kept]: "ei.keeps (useGas n)" "ei.keeps (addStipend (gasPrice vm ''callStipend''))"
proof -
  have "\<exists>c. ei_env e = (ei_env e)\<lparr>env_contract := c\<rparr>" for e
    by (rule exI [of _ "env_contract (ei_env e)"]) simp
  then show "ei.keeps (useGas n)" "ei.keeps (addStipend (gasPrice vm ''callStipend''))"
    by (auto intro!: ei.keepsI simp: eei_step_def W_refl useGas_result addStipend_def modif_def)
qed

lemma eei_kept [kept]:
  "ei.keeps (refundGas n)" "ei.keeps (subRefund n)" "ei.keeps (getExternalBalance a)"
  "ei.keeps (getExternalCode x)" "ei.keeps (getExternalCodeSize x)" "ei.keeps getBlockBaseFee"
  "ei.keeps (getBlockHash x)" "ei.keeps (isAccountEmpty a)" "ei.keeps (accountExists a)"
  "ei.keeps refresh_contract" "ei.keeps (storageLoad k orig)" "ei.keeps (transientStorageStore k v)"
  "ei.keeps (finish bs)" "ei.keeps (eei_revert bs)" "ei.keeps (eei_log bs n ts)"
  "ei.keeps (append_logs q)" "ei.keeps (set_lastReturned b)" "ei.keeps (merge_selfdestruct sd)"
  "ei.keeps create_increment"
  unfolding refundGas_def subRefund_def getExternalBalance_def getExternalCode_def
    getExternalCodeSize_def getBlockBaseFee_def getBlockHash_def isAccountEmpty_def
    accountExists_def refresh_contract_def storageLoad_def transientStorageStore_def finish_def
    eei_revert_def eei_log_def append_logs_def set_lastReturned_def merge_selfdestruct_def
    create_increment_def
  by (intro kept ei.keeps_rules ev.keeps_rules)+

lemma eei_world_kept [kept]:
  "ei.keeps (storageStore vm k v)" "ei.keeps (selfDestruct vm a)"
  unfolding storageStore_def selfDestruct_def Let_def
  by (intro kept ei.keeps_rules ev.keeps_rules)+

lemma baseCall_kept [kept]: "ei.keeps (baseCall vm exec m)"
  unfolding baseCall_def Let_def by (intro kept ei.keeps_rules ev.keeps_rules)

lemma messages_kept [kept]:
  "ei.keeps (eei_call vm exec g a v d)" "ei.keeps (eei_callCode vm exec g a v d)"
  "ei.keeps (eei_callStatic vm exec g a v d)" "ei.keeps (eei_callDelegate vm exec g a v d)"
  "ei.keeps (eei_create vm exec g v d t)"
  unfolding eei_call_def eei_callCode_def eei_callStatic_def eei_callDelegate_def eei_create_def Let_def
  by (intro kept ei.keeps_rules ev.keeps_rules)+

lemma create2_kept [kept]: "ei.keeps (eei_create2 vm exec g v d t)"
  unfolding eei_create2_def by (rule messages_kept)

section \<open>The frame\<close>

lemma maxHeight_same [simp]:
  "maxHeight (snd (stack_push v st)) = maxHeight st" "maxHeight (snd (stack_pop st)) = maxHeight st"
  "maxHeight (snd (stack_popN n st)) = maxHeight st" "maxHeight (snd (stack_peek n st)) = maxHeight st"
  "maxHeight (snd (stack_dup n st)) = maxHeight st" "maxHeight (snd (stack_swap n st)) = maxHeight st"
  by (simp_all add: stack_push_result stack_popN_result stack_peek_result stack_pop_def stack_dup_def
      stack_swap_def eff_defs Let_def)

lemma stack_kept [kept]:
  "fl.keeps (push v)" "fl.keeps pop" "fl.keeps (pops n)" "fl.keeps (peeks n)"
  "fl.keeps (on_stack (stack_dup n))" "fl.keeps (on_stack (stack_swap n))"
  unfolding push_def pop_def pops_def peeks_def
  by (rule on_stack_keeps, erule stack_wf_steps, simp)+

lemma memory_kept [kept]: "fl.keeps (on_memory (mem_write i n b))" "fl.keeps (on_memory (mem_read i n))"
  by (rule on_memory_keeps, erule mem_write_wf mem_read_wf)+

lemma counters_kept [kept]:
  "fl.keeps (modif (\<lambda>rs. rs\<lparr>messageGasLimit := g rs\<rparr>))"
  "fl.keeps (modif (\<lambda>rs. rs\<lparr>highestMemCost := c rs, memoryWordCount := w rs\<rparr>))"
  by (rule fl.keeps_modif, simp add: flow_step_def frame_step_def ei.R_refl)+

lemma helpers_kept [kept]:
  "fl.keeps (unop f1)" "fl.keeps (binop f2)" "fl.keeps (ternop f3)" "fl.keeps (push_read f)"
  "fl.keeps (mem_operand i j)" "fl.keeps (copy_to_memory bs i j k)" "fl.keeps static_guard"
  "fl.keeps (set_messageGasLimit g)" "fl.keeps (subMemUsage vm i j)" "fl.keeps (trap_at vm err)"
  unfolding unop_def binop_def ternop_def push_read_def mem_operand_def copy_to_memory_def
    static_guard_def set_messageGasLimit_def subMemUsage_def trap_at_def Let_def
  by (intro kept fl.keeps_rules)+

lemma sharing_kept [kept]:
  "fl.keeps (writeCallOutput i j)" "fl.keeps take_messageGasLimit" "fl.keeps (updateSstoreGas vm b1 b2)"
  "fl.keeps (updateSstoreGasEIP1283 vm b1 b2 b3)" "fl.keeps (updateSstoreGasEIP2200 vm b1 b2 b3 b4)"
  "fl.keeps (accessAddressEIP2929 vm b1 c d)" "fl.keeps (accessStorageEIP2929 vm b1 c)"
  unfolding writeCallOutput_def take_messageGasLimit_def updateSstoreGas_def
    updateSstoreGasEIP1283_def updateSstoreGasEIP2200_def accessAddressEIP2929_def
    accessStorageEIP2929_def Let_def
  by (intro kept fl.keeps_rules ei.keeps_rules ev.keeps_rules)+

lemma gas_parts_kept [kept]:
  "fl.keeps (coldAccess vm x)" "fl.keeps (create_limit vm g)" "fl.keeps (warm_self vm)"
  "fl.keeps (add_stipend vm v g)"
  unfolding coldAccess_def create_limit_def warm_self_def add_stipend_def
  by (intro kept fl.keeps_rules)+

section \<open>The handlers\<close>

lemma gas_handlers_kept [kept]:
  "fl.keeps (gas_SHA3 vm g)" "fl.keeps (gas_BALANCE vm g)" "fl.keeps (gas_EXTCODESIZE vm g)"
  "fl.keeps (gas_EXTCODEHASH vm g)" "fl.keeps (gas_CALLDATACOPY vm g)"
  "fl.keeps (gas_CODECOPY vm g)" "fl.keeps (gas_EXTCODECOPY vm g)"
  "fl.keeps (gas_RETURNDATACOPY vm g)" "fl.keeps (gas_MLOAD vm g)"
  "fl.keeps (gas_MSTORE vm g)" "fl.keeps (gas_MSTORE8 vm g)" "fl.keeps (gas_RETURN vm g)"
  "fl.keeps (gas_REVERT vm g)" "fl.keeps (gas_LOG vm g)" "fl.keeps (gas_SLOAD vm g)"
  "fl.keeps (gas_SSTORE vm g)" "fl.keeps (gas_CREATE vm g)" "fl.keeps (gas_CREATE2 vm g)"
  "fl.keeps (gas_CALL vm g)" "fl.keeps (gas_CALLCODE vm g)" "fl.keeps (gas_DELEGATECALL vm g)"
  "fl.keeps (gas_STATICCALL vm g)" "fl.keeps (gas_SELFDESTRUCT vm g)"
  unfolding
  gas_SHA3_def gas_BALANCE_def gas_EXTCODESIZE_def gas_EXTCODEHASH_def gas_CALLDATACOPY_def
  gas_CODECOPY_def gas_EXTCODECOPY_def gas_RETURNDATACOPY_def gas_MLOAD_def gas_MSTORE_def
  gas_MSTORE8_def gas_RETURN_def gas_REVERT_def gas_LOG_def gas_SLOAD_def gas_SSTORE_def
  gas_CREATE_def gas_CREATE2_def gas_CALL_def gas_CALLCODE_def gas_DELEGATECALL_def
  gas_STATICCALL_def gas_SELFDESTRUCT_def Let_def
  by (intro kept fl.keeps_rules ei.keeps_rules)+

lemma alu_kept [kept]:
  "fl.keeps op_STOP" "fl.keeps op_ADD" "fl.keeps op_MUL" "fl.keeps op_SUB" "fl.keeps op_DIV"
  "fl.keeps op_SDIV" "fl.keeps op_MOD" "fl.keeps op_SMOD" "fl.keeps op_ADDMOD"
  "fl.keeps op_MULMOD" "fl.keeps op_SIGNEXTEND" "fl.keeps op_LT" "fl.keeps op_GT"
  "fl.keeps op_SLT" "fl.keeps op_SGT" "fl.keeps op_EQ" "fl.keeps op_ISZERO" "fl.keeps op_AND"
  "fl.keeps op_OR" "fl.keeps op_XOR" "fl.keeps op_NOT" "fl.keeps op_BYTE" "fl.keeps op_SHL"
  "fl.keeps op_SHR" "fl.keeps op_SAR" "fl.keeps (op_EXP vm)"
  unfolding
  op_STOP_def op_ADD_def op_MUL_def op_SUB_def op_DIV_def op_SDIV_def op_MOD_def op_SMOD_def
  op_ADDMOD_def op_MULMOD_def op_SIGNEXTEND_def op_LT_def op_GT_def op_SLT_def op_SGT_def
  op_EQ_def op_ISZERO_def op_AND_def op_OR_def op_XOR_def op_NOT_def op_BYTE_def op_SHL_def
  op_SHR_def op_SAR_def op_EXP_def Let_def
  by (intro kept fl.keeps_rules ei.keeps_rules)+

lemma env_kept [kept]:
  "fl.keeps op_ADDRESS" "fl.keeps op_BALANCE" "fl.keeps op_ORIGIN" "fl.keeps op_CALLER"
  "fl.keeps op_CALLVALUE" "fl.keeps op_CALLDATALOAD" "fl.keeps op_CALLDATASIZE"
  "fl.keeps op_CALLDATACOPY" "fl.keeps op_CODESIZE" "fl.keeps op_CODECOPY"
  "fl.keeps op_EXTCODESIZE" "fl.keeps op_EXTCODECOPY" "fl.keeps op_RETURNDATASIZE"
  "fl.keeps op_RETURNDATACOPY" "fl.keeps op_GASPRICE" "fl.keeps op_BLOCKHASH"
  "fl.keeps op_TIMESTAMP" "fl.keeps op_NUMBER" "fl.keeps op_GASLIMIT"
  "fl.keeps op_SELFBALANCE" "fl.keeps op_BASEFEE" "fl.keeps (op_SHA3 vm)"
  "fl.keeps (op_EXTCODEHASH vm)" "fl.keeps (op_COINBASE vm)" "fl.keeps (op_DIFFICULTY vm)"
  "fl.keeps (op_CHAINID vm)"
  unfolding
  op_ADDRESS_def op_BALANCE_def op_ORIGIN_def op_CALLER_def op_CALLVALUE_def
  op_CALLDATALOAD_def op_CALLDATASIZE_def op_CALLDATACOPY_def op_CODESIZE_def op_CODECOPY_def
  op_EXTCODESIZE_def op_EXTCODECOPY_def op_RETURNDATASIZE_def op_RETURNDATACOPY_def
  op_GASPRICE_def op_BLOCKHASH_def op_TIMESTAMP_def op_NUMBER_def op_GASLIMIT_def
  op_SELFBALANCE_def op_BASEFEE_def op_SHA3_def op_EXTCODEHASH_def op_COINBASE_def
  op_DIFFICULTY_def op_CHAINID_def Let_def
  by (intro kept fl.keeps_rules ei.keeps_rules)+

lemma store_kept [kept]:
  "fl.keeps op_POP" "fl.keeps op_MLOAD" "fl.keeps op_MSTORE" "fl.keeps op_MSTORE8"
  "fl.keeps op_SLOAD" "fl.keeps op_TLOAD" "fl.keeps op_TSTORE" "fl.keeps op_PC"
  "fl.keeps op_MSIZE" "fl.keeps op_GAS" "fl.keeps op_JUMPDEST" "fl.keeps op_PUSH0"
  "fl.keeps op_DUP" "fl.keeps op_SWAP" "fl.keeps op_LOG" "fl.keeps op_RETURN"
  "fl.keeps op_REVERT" "fl.keeps (op_SSTORE vm)" "fl.keeps (op_SELFDESTRUCT vm)"
  "fl.keeps (op_BEGINSUB vm)"
  unfolding
  op_POP_def op_MLOAD_def op_MSTORE_def op_MSTORE8_def op_SLOAD_def op_TLOAD_def op_TSTORE_def
  op_PC_def op_MSIZE_def op_GAS_def op_JUMPDEST_def op_PUSH0_def op_DUP_def op_SWAP_def
  op_LOG_def op_RETURN_def op_REVERT_def op_SSTORE_def op_SELFDESTRUCT_def op_BEGINSUB_def
  Let_def
  by (intro kept fl.keeps_rules ei.keeps_rules)+

lemma call_kept [kept]:
  "fl.keeps (op_CREATE vm exec)" "fl.keeps (op_CREATE2 vm exec)" "fl.keeps (op_CALL vm exec)"
  "fl.keeps (op_CALLCODE vm exec)" "fl.keeps (op_DELEGATECALL vm exec)"
  "fl.keeps (op_STATICCALL vm exec)"
  unfolding
  op_CREATE_def op_CREATE2_def op_CALL_def op_CALLCODE_def op_DELEGATECALL_def
  op_STATICCALL_def Let_def
  by (intro kept fl.keeps_rules ei.keeps_rules)+

section \<open>The jumps\<close>

text \<open>The opcodes that move the program counter keep the weaker relation.\<close>

lemma set_pc_kept: "fr.keeps (set_pc n)" "fr.keeps (modif (\<lambda>rs. rs\<lparr>programCounter := c rs\<rparr>))"
  unfolding set_pc_def by (rule fr.keeps_modif, simp add: frame_step_def ei.R_refl)+

lemma on_returnStack_kept: "fr.keeps (on_returnStack m)"
  by (rule fr.keeps_zoom) (simp add: frame_step_def ei.R_refl)

lemma jump_to_kept: "fr.keeps (jump_to vm d)"
  unfolding jump_to_def
  by (intro fr.keeps_rules set_pc_kept helpers_kept [THEN fl_imp_fr])

lemma jumps_kept:
  "fr.keeps (op_JUMP vm)" "fr.keeps (op_JUMPI vm)" "fr.keeps op_RETURNSUB" "fr.keeps (op_JUMPSUB vm)"
  "fr.keeps (op_PUSH vm)"
  unfolding op_JUMP_def op_JUMPI_def op_RETURNSUB_def op_JUMPSUB_def op_PUSH_def Let_def
  by (intro fr.keeps_rules set_pc_kept jump_to_kept on_returnStack_kept
      stack_kept [THEN fl_imp_fr] helpers_kept [THEN fl_imp_fr])+

lemma single_ops_cases:
  "(op, h) \<in> set (single_ops vm exec) \<Longrightarrow> fl.keeps h \<or>
     (op, h) \<in> {(0x56, op_JUMP vm), (0x57, op_JUMPI vm), (0x5d, op_RETURNSUB), (0x5e, op_JUMPSUB vm)}"
  by (simp add: single_ops_def) (elim disjE conjE; simp add: alu_kept env_kept store_kept call_kept)

lemma handlers_cases:
  assumes "handlers vm exec op = Some h"
  obtains "fl.keeps h" "\<not> (0x60 \<le> op \<and> op \<le> 0x7f)"
  | "0x60 \<le> op" "op \<le> 0x7f" "h = op_PUSH vm"
  | "op = 0x56" "h = op_JUMP vm" | "op = 0x57" "h = op_JUMPI vm"
  | "op = 0x5d" "h = op_RETURNSUB" | "op = 0x5e" "h = op_JUMPSUB vm"
proof (cases "0x60 \<le> op \<and> op \<le> 0xa4")
  case True
  then show thesis
    using assms store_kept that(1,2) by (auto simp: handlers_def split: if_splits)
next
  case False
  then have "map_of (single_ops vm exec) op = Some h"
    using assms by (auto simp: handlers_def split: if_splits)
  then have "(op, h) \<in> set (single_ops vm exec)" by (rule map_of_SomeD)
  from single_ops_cases [OF this] show thesis using that False by auto
qed

lemma handlers_kept: "handlers vm exec op = Some h \<Longrightarrow> fr.keeps h"
  by (erule handlers_cases) (auto intro: fl_imp_fr jumps_kept)

lemma dynamicGas_kept: "dynamicGasHandlers vm op = Some h \<Longrightarrow> fl.keeps (h g)"
  unfolding dynamicGasHandlers_def
  by (auto split: if_splits dest!: map_of_SomeD simp: gas_handlers_kept)

section \<open>The loop\<close>

lemma fetch_kept: "frame_step vm W rs (fetch rs)"
  by (simp add: fetch_def Let_def frame_step_def ei.R_refl)

lemma gas_part_kept:
  "fl.keeps (if d then (case dynamicGasHandlers vm op of None \<Rightarrow> raise x | Some h \<Rightarrow> h g) else ret g)"
  by (auto intro: fl.keeps_rules dynamicGas_kept split: option.splits)

lemma op_part_kept: "fr.keeps (case handlers vm exec op of None \<Rightarrow> raise x | Some h \<Rightarrow> h)"
  by (auto intro: fr.keeps_rules handlers_kept split: option.splits)

lemma runStep_kept: "fr.keeps (runStep vm exec)"
  unfolding runStep_def
  by (intro fr.keeps_rules fl_imp_fr [OF gas_part_kept] op_part_kept set_pc_kept
      fl_imp_fr [OF on_eei_keeps] gas_kept)

lemma run_loop_kept: "run_loop vm exec n rs = (Inr q, s) \<Longrightarrow> frame_step vm W rs s"
proof (induction n arbitrary: rs)
  case (Suc n)
  obtain r t where r: "runStep vm exec (fetch rs) = (r, t)" by force
  have t: "frame_step vm W rs t" if "\<And>e. r = Inl e \<Longrightarrow> is_vm e"
    using fr.R_trans [OF fetch_kept] fr.keeps_step [OF runStep_kept r that] by blast
  show ?case
  proof (cases "programCounter rs < length (rs_code rs)")
    case True
    then consider "r = Inr ()" "run_loop vm exec n t = (Inr q, s)" | v where "r = Inl (VmError v)" "s = t"
      using Suc.prems r by (auto split: sum.splits exn.splits)
    then show ?thesis
    proof cases
      case 1
      with t Suc.IH [OF 1(2)] show ?thesis using fr.R_trans by blast
    next
      case 2
      with t show ?thesis by simp
    qed
  next
    case False
    with Suc.prems show ?thesis by (simp add: fr.R_refl)
  qed
qed simp

text \<open>Running a frame that holds no code yet.\<close>

lemma interpreter_run_kept:
  assumes "interpreter_run vm exec n code rs = (Inr q, rs')"
  shows "eei_step vm W (rs_eei rs) (rs_eei rs')"
proof -
  have loop: "eei_step vm W (rs_eei rs) (rs_eei s)"
    if "run_loop vm exec n (rs\<lparr>rs_code := c\<rparr>) = (Inr q, s)" for c s
    using run_loop_kept [OF that] by (simp add: frame_step_def)
  show ?thesis
    using assms
    by (auto simp: interpreter_run_def eff_defs ei.R_refl split: if_splits option.splits prod.splits
        intro: loop)
qed

end

end
