(* ===== verification/Message_Rules.thy ===== *)
theory Message_Rules
  imports Evm Frame_Rules
begin

text \<open>
  The body of a message, between its checkpoint and its commit or revert: it keeps every relation
  of the world that its frames' operations and the messages of its frames keep (locale
  \<open>world_rel\<close>), and it throws no \<open>VmError\<close>: the errors of the VM are results of messages.
\<close>

lemma run_loop_no_vm: "run_loop vm exec n rs = (Inl e, s) \<Longrightarrow> \<not> is_vm e"
  by (induction vm exec n rs rule: run_loop.induct)
    (auto split: if_splits prod.splits sum.splits exn.splits)

lemma interpreter_run_no_vm: "interpreter_run vm exec n code rs = (Inl e, s) \<Longrightarrow> \<not> is_vm e"
  by (auto simp: interpreter_run_def eff_defs run_loop_no_vm
      split: if_splits option.splits prod.splits)

context world_rel
begin

lemma keeps_Let: "(\<And>x. ev.keeps (k x)) \<Longrightarrow> ev.keeps (Let t k)"
  by (simp add: Let_def)

lemma precompiles_kept:
  "ev.keeps (pre_ecrecover vm d g)" "ev.keeps (pre_sha256 vm d g)" "ev.keeps (pre_ripemd160 vm d g)"
  "ev.keeps (pre_identity vm d g)" "ev.keeps (pre_modexp vm d g)" "ev.keeps (pre_celoTransfer d g)"
  "ev.keeps (pre_celoRegistry d g)" "ev.keeps (pre_blake2f vm d g)"
  unfolding pre_ecrecover_def pre_sha256_def pre_ripemd160_def pre_identity_def pre_modexp_def
    pre_celoTransfer_def pre_celoRegistry_def pre_blake2f_def
  by (intro kept keeps_Let ev.keeps_rules)+

lemma precompile_kept [kept]: "ev.keeps (run_precompile vm others n d g)"
  by (simp add: run_precompile_def precompiles_kept ev.keeps_of_sum)

lemma balance_kept [kept]:
  "ev.keeps (reduceSenderBalance a m)" "ev.keeps (addToBalance t a m)" "ev.keeps (loadCode vm m)"
  "ev.keeps (evm_generateAddress vm m)"
  unfolding reduceSenderBalance_def addToBalance_def loadCode_def evm_generateAddress_def Let_def
  by (intro kept ev.keeps_rules)+

lemma runInterpreter_kept [kept]: "ev.keeps (runInterpreter vm cx exec m)"
  unfolding runInterpreter_def
proof (rule ev.keeps_bnd [OF state_kept(1)])
  fix contract :: account
  let ?run = "\<lambda>ev. interpreter_run vm exec (cx_steps cx) (code_bytes (m_code m))
     (new_run_state (new_eei (new_env cx m contract) ev m))"
  show "ev.keeps (\<lambda>ev. case ?run ev of
      (Inl x, rs) \<Rightarrow> (Inl x, ei_evm (rs_eei rs))
    | (Inr err, rs) \<Rightarrow> (Inr (frame_result m err (rs_eei rs), rr_selfdestruct (ei_result (rs_eei rs))),
        ei_evm (rs_eei rs)))"
    unfolding ev.keeps_def
  proof (intro allI impI)
    fix ev r ev'
    assume run: "(case ?run ev of
      (Inl x, rs) \<Rightarrow> (Inl x, ei_evm (rs_eei rs))
    | (Inr err, rs) \<Rightarrow> (Inr (frame_result m err (rs_eei rs), rr_selfdestruct (ei_result (rs_eei rs))),
        ei_evm (rs_eei rs))) = (r, ev')" and r: "\<forall>e. r = Inl e \<longrightarrow> is_vm e"
    obtain q rs where q: "?run ev = (q, rs)" by force
    show "W ev ev'"
    proof (cases q)
      case (Inl e)
      with run q r have "is_vm e" by simp
      moreover have "\<not> is_vm e"
        using q Inl interpreter_run_no_vm by blast
      ultimately show ?thesis by simp
    next
      case (Inr err)
      then have "eei_step vm W (new_eei (new_env cx m contract) ev m) (rs_eei rs)"
        using interpreter_run_kept [of _ _ "new_run_state (new_eei (new_env cx m contract) ev m)"] q
        by (simp add: new_run_state_def)
      then show ?thesis using run q Inr by (simp add: eei_step_def new_eei_def)
    qed
  qed
qed

lemma save_code_kept [kept]: "ev.keeps (save_code vm t r c)"
  unfolding save_code_def by (intro kept ev.keeps_rules)

lemma run_create_kept [kept]: "ev.keeps (run_create vm cx exec t m)"
  unfolding run_create_def Let_def by (intro kept ev.keeps_rules)

lemma executeCall_kept [kept]: "ev.keeps (executeCall vm cx exec t m)"
  unfolding executeCall_def
  by (intro kept ev.keeps_rules) (auto intro!: kept ev.keeps_rules split: option.split msg_code.split)

lemma executeCreate_kept [kept]: "ev.keeps (executeCreate vm cx exec m)"
  unfolding executeCreate_def Let_def by (intro kept ev.keeps_rules)

lemma message_body_kept: "ev.keeps (message_body vm cx exec m)"
  unfolding message_body_def by (intro kept ev.keeps_rules)

lemma warm_created_kept: "ev.keeps (warm_created vm m)"
  unfolding warm_created_def Let_def by (intro kept ev.keeps_rules)

end

end
