(* ===== verification/Samples.thy ===== *)
theory Samples
  imports Evm_State
begin

text \<open>
  Concrete configurations and states on which the witnesses of the properties evaluate: a VM with
  simple hash functions, a world without accounts, a frame with a given stack, code and gas.
\<close>

definition sample_vm :: vm where
  "sample_vm = \<lparr>vm_keccak256 = (\<lambda>bs. replicate 31 7 @ [of_nat (length bs)]),
     vm_sha256 = (\<lambda>bs. replicate 32 1), vm_ripemd160 = (\<lambda>bs. replicate 20 2),
     vm_ecdsaRecover = (\<lambda>sig n h. None), vm_rlp = concat, vm_merkle_root = (\<lambda>c. replicate 32 9),
     vm_param = (\<lambda>topic name. if name = ''stackLimit'' then 1024 else 3),
     vm_gteHardfork = (\<lambda>hf. True), vm_isActivatedEIP = (\<lambda>e. e = 2929), vm_hardfork = ''berlin'',
     vm_chainId = 1, vm_consensusAlgorithm = ''ethash'',
     vm_consensusType = ''pow'', vm_eips = [],
     vm_allowUnlimitedContractSize = False\<rparr>"

definition sample_evm :: evm where
  "sample_evm = \<lparr>ev_state = new_state_manager, ev_refund = 0,
     ev_transientStorage = new_transient_storage\<rparr>"

definition sample_header :: header where
  "sample_header = \<lparr>h_number = 300, h_coinbase = replicate 20 0, h_timestamp = 0, h_difficulty = 0,
     h_prevRandao = replicate 32 0, h_gasLimit = 10000, h_baseFeePerGas = None, h_cliqueSigner = None\<rparr>"

definition sample_env :: "bytes \<Rightarrow> env" where
  "sample_env code = \<lparr>env_address = replicate 20 1, env_caller = replicate 20 2, env_callData = [],
     env_callValue = 0, env_code = code, env_isStatic = False, env_depth = 0, env_gasPrice = 1,
     env_origin = replicate 20 2, env_block = sample_header, env_contract = new_account,
     env_codeAddress = replicate 20 1, env_blockHash = (\<lambda>n. Inr (replicate 32 0))\<rparr>"

definition sample_eei :: "bytes \<Rightarrow> int \<Rightarrow> eei" where
  "sample_eei code gas = \<lparr>ei_env = sample_env code,
     ei_result = \<lparr>rr_logs = [], rr_returnValue = None, rr_selfdestruct = []\<rparr>,
     ei_evm = sample_evm, ei_lastReturned = [], ei_gasLeft = gas\<rparr>"

definition sample_frame :: "bytes \<Rightarrow> int \<Rightarrow> int list \<Rightarrow> run_state" where
  "sample_frame code gas items = \<lparr>programCounter = 0, opCode = 0, rs_memory = [],
     memoryWordCount = 0, highestMemCost = 0,
     rs_stack = \<lparr>store = rev items, maxHeight = 1024\<rparr>,
     returnStack = \<lparr>store = [], maxHeight = 1023\<rparr>, rs_code = code, shouldDoJumpAnalysis = True,
     validJumps = [], rs_eei = sample_eei code gas, messageGasLimit = None\<rparr>"

end
