(* ===== verification/Message_Rollback.thy ===== *)
theory Message_Rollback
  imports Message_Rules Samples
begin

text \<open>
  The checkpoints of the EVM around a message. The state manager and the transient storage together
  are a store with checkpoints (\<open>world_checkpoint\<close> and its companions, as \<open>_executeMessage\<close> calls
  them); the body of a message keeps the saved states whatever it does, by induction on how deep
  messages nest, so a message that fails gives back the world it found.
\<close>

section \<open>The world with its checkpoints\<close>

definition world_checkpoint :: "(evm, unit) eff" where
  "world_checkpoint = andthen (on_state sm_checkpoint) (on_transient ts_checkpoint)"

definition world_commit :: "(evm, unit) eff" where
  "world_commit = andthen (on_state sm_commit) (on_transient ts_commit)"

definition world_revert :: "(evm, unit) eff" where
  "world_revert = andthen (on_state sm_revert) (on_transient ts_revert)"

type_synonym world_view = "sm_view \<times> (bytes \<Rightarrow> bytes \<Rightarrow> bytes)"

definition world_cur :: "evm \<Rightarrow> world_view" where
  "world_cur ev = (sm_cur (ev_state ev), ts_cur (ev_transientStorage ev))"

definition world_saved :: "evm \<Rightarrow> world_view list" where
  "world_saved ev = zip (sm_saved (ev_state ev)) (ts_saved (ev_transientStorage ev))"

definition world_inv :: "evm \<Rightarrow> bool" where
  "world_inv ev \<longleftrightarrow> sm_inv (ev_state ev) \<and> ts_inv (ev_transientStorage ev) \<and>
     length (sm_saved (ev_state ev)) \<le> length (ts_saved (ev_transientStorage ev))"

definition world_keeps :: "evm \<Rightarrow> evm \<Rightarrow> bool" where
  "world_keeps s t \<longleftrightarrow> (world_inv s \<longrightarrow> world_inv t \<and> world_saved t = world_saved s)"

lemma world_saved_Cons:
  assumes "world_inv s" "world_saved s = v # vs"
  obtains a as b bs where "sm_saved (ev_state s) = a # as" "ts_saved (ev_transientStorage s) = b # bs"
    "v = (a, b)" "vs = zip as bs"
  using assms
  by (cases "sm_saved (ev_state s)"; cases "ts_saved (ev_transientStorage s)")
    (auto simp: world_saved_def world_inv_def)

interpretation evm_world: checkpointed world_checkpoint world_commit world_revert world_cur
  world_saved world_inv world_keeps
proof
  fix s :: evm
  assume inv: "world_inv s"
  then obtain x y where "sm_checkpoint (ev_state s) = (Inr (), x)" "sm_inv x"
    "sm_cur x = sm_cur (ev_state s)" "sm_saved x = sm_cur (ev_state s) # sm_saved (ev_state s)"
    "ts_checkpoint (ev_transientStorage s) = (Inr (), y)" "ts_inv y"
    "ts_cur y = ts_cur (ev_transientStorage s)"
    "ts_saved y = ts_cur (ev_transientStorage s) # ts_saved (ev_transientStorage s)"
    using state_mgr.checkpoint_ok transient.checkpoint_ok unfolding world_inv_def by metis
  then show "\<exists>s'. world_checkpoint s = (Inr (), s') \<and> world_inv s' \<and> world_cur s' = world_cur s \<and>
      world_saved s' = world_cur s # world_saved s"
    using inv by (simp add: world_checkpoint_def andthen_def bnd_def zoom_def world_inv_def
        world_cur_def world_saved_def)
next
  fix s :: evm and v vs
  assume inv: "world_inv s" and "world_saved s = v # vs"
  then obtain a as b bs where sv: "sm_saved (ev_state s) = a # as"
    "ts_saved (ev_transientStorage s) = b # bs" "v = (a, b)" "vs = zip as bs"
    using world_saved_Cons by blast
  obtain x y where "sm_commit (ev_state s) = (Inr (), x)" "sm_inv x"
    "sm_cur x = sm_cur (ev_state s)" "sm_saved x = as"
    "ts_commit (ev_transientStorage s) = (Inr (), y)" "ts_inv y"
    "ts_cur y = ts_cur (ev_transientStorage s)" "ts_saved y = bs"
    using state_mgr.commit_ok [OF _ sv(1)] transient.commit_ok [OF _ sv(2)] inv
    unfolding world_inv_def by metis
  then show "\<exists>s'. world_commit s = (Inr (), s') \<and> world_inv s' \<and> world_cur s' = world_cur s \<and>
      world_saved s' = vs"
    using inv sv by (simp add: world_commit_def andthen_def bnd_def zoom_def world_inv_def
        world_cur_def world_saved_def)
  obtain x y where "sm_revert (ev_state s) = (Inr (), x)" "sm_inv x" "sm_cur x = a" "sm_saved x = as"
    "ts_revert (ev_transientStorage s) = (Inr (), y)" "ts_inv y" "ts_cur y = b" "ts_saved y = bs"
    using state_mgr.revert_ok [OF _ sv(1)] transient.revert_ok [OF _ sv(2)] inv
    unfolding world_inv_def by metis
  then show "\<exists>s'. world_revert s = (Inr (), s') \<and> world_inv s' \<and> world_cur s' = v \<and>
      world_saved s' = vs"
    using inv sv by (simp add: world_revert_def andthen_def bnd_def zoom_def world_inv_def
        world_cur_def world_saved_def)
next
  fix s t :: evm
  show "world_inv s \<Longrightarrow> world_keeps s t \<Longrightarrow> world_inv t \<and> world_saved t = world_saved s"
    by (simp add: world_keeps_def)
qed

section \<open>Messages throw no VM errors\<close>

named_theorems calm \<open>effects that throw no error of the VM\<close>

lemma calm_sums:
  "fromValuesArray vs = Inl e \<Longrightarrow> \<not> is_vm e" "getCb t a = Inl e \<Longrightarrow> \<not> is_vm e"
  "toNumber x = Inl e \<Longrightarrow> \<not> is_vm e" "toArrayLike x n = Inl e \<Longrightarrow> \<not> is_vm e"
  "storage_content db r = Inl e \<Longrightarrow> \<not> is_vm e" "generateAddress2 vm b1 b2 b3 = Inl e \<Longrightarrow> \<not> is_vm e"
  "publicToAddress vm k = Inl e \<Longrightarrow> \<not> is_vm e"
  by (auto simp: fromValuesArray_def acc_validate_def getCb_def toNumber_def toArrayLike_def Let_def
      storage_content_def generateAddress2_def publicToAddress_def split: if_splits option.splits)

lemma calm_padded: "padded_slice d a b n = Inl e \<Longrightarrow> \<not> is_vm e"
  by (auto simp: padded_slice_def buf_slice_def bindS_def calm_sums split: sum.splits)

lemma calm_output: "bindS (toNumber n) (toArrayLike x) = Inl e \<Longrightarrow> \<not> is_vm e"
  by (auto simp: bindS_def calm_sums split: sum.splits)

lemma calm_cache [calm]:
  "no_vm (cache_lookup a)" "no_vm (cache_getOrLoad t a)" "no_vm (cache_get a)" "no_vm (cache_put a x f)"
  "no_vm (cache_del a)" "no_vm (cache_flush t)" "no_vm cache_checkpoint" "no_vm cache_commit"
  "no_vm cache_revert"
  unfolding cache_getOrLoad_def cache_get_def cache_lookup_def cache_put_def cache_del_def
    cache_flush_def cache_checkpoint_def cache_commit_def cache_revert_def cache_update_def Let_def
  by (intro no_vm_rules no_vm_of_sum; (rule calm_sums, assumption | simp))+

lemma calm_trie [calm]:
  "no_vm trie_checkpoint" "no_vm trie_commit" "no_vm trie_revert" "no_vm (trie_set_root r)"
  "no_vm (db_put k v)" "no_vm (db_get k)"
  unfolding trie_checkpoint_def trie_commit_def trie_revert_def trie_set_root_def db_put_def db_get_def
    db_checkpoint_def db_commit_def db_revert_def Let_def
  by (intro no_vm_rules; simp)+

lemma calm_accounts [calm]: "no_vm (sm_getAccount a)" "no_vm (sm_putAccount a x)"
  unfolding sm_getAccount_def sm_putAccount_def sm_touchAccount_def by (intro no_vm_rules calm)+

lemma calm_state [calm]:
  "no_vm (sm_getContractCode a)" "no_vm (sm_putContractCode vm a c)" "no_vm (sm_clearContractStorage a)"
  "no_vm (addWarmedAddress a)" "no_vm sm_checkpoint" "no_vm sm_commit" "no_vm sm_revert"
  unfolding sm_getContractCode_def sm_putContractCode_def sm_clearContractStorage_def
    sm_modifyContractStorage_def sm_getStorageTrie_def sm_lookupStorageTrie_def sm_touchAccount_def
    addWarmedAddress_def upd_top_def sm_checkpoint_def sm_commit_def sm_revert_def base_checkpoint_def
    base_commit_def base_revert_def flush_at_zero_def sm_flush_def sm_clearOriginalStorageCache_def Let_def
  by (intro no_vm_rules calm; simp)+

lemma calm_transient [calm]: "no_vm ts_checkpoint" "no_vm ts_commit" "no_vm ts_revert"
  unfolding ts_checkpoint_def ts_commit_def ts_revert_def Let_def by (intro no_vm_rules; simp)+

lemma no_vm_Let: "(\<And>x. no_vm (k x)) \<Longrightarrow> no_vm (Let t k)"
  by (simp add: Let_def)

lemma calm_precompiles:
  "no_vm (pre_ecrecover vm d g)" "no_vm (pre_sha256 vm d g)" "no_vm (pre_ripemd160 vm d g)"
  "no_vm (pre_identity vm d g)" "no_vm (pre_modexp vm d g)" "no_vm (pre_celoTransfer d g)"
  "no_vm (pre_celoRegistry d g)" "no_vm (pre_blake2f vm d g)"
  unfolding pre_ecrecover_def pre_sha256_def pre_ripemd160_def pre_identity_def pre_modexp_def
    pre_celoTransfer_def pre_celoRegistry_def pre_blake2f_def
  by (intro no_vm_Let no_vm_rules no_vm_of_sum calm;
      (rule calm_sums, assumption | rule calm_padded, assumption | rule calm_output, assumption | simp))+

lemma calm_precompile [calm]: "no_vm (run_precompile vm others n d g)"
proof -
  have "no_vm (of_sum (map_sum JsError id r) :: (evm, exec_result) eff)" for r
    by (rule no_vm_of_sum) (cases r; auto)
  then show ?thesis by (simp add: run_precompile_def calm_precompiles)
qed

lemma calm_runInterpreter [calm]: "no_vm (runInterpreter vm cx exec m)"
  unfolding runInterpreter_def
  by (intro no_vm_rules calm)
    (auto simp: no_vm_def interpreter_run_no_vm split: prod.splits sum.splits)

lemma calm_balance [calm]:
  "no_vm (reduceSenderBalance a m)" "no_vm (addToBalance t a m)" "no_vm (loadCode vm m)"
  "no_vm (evm_generateAddress vm m)" "no_vm (save_code vm t r b)"
  unfolding reduceSenderBalance_def addToBalance_def loadCode_def evm_generateAddress_def save_code_def Let_def
  by (intro no_vm_rules no_vm_of_sum calm; (rule calm_sums, assumption | simp))+

lemma calm_create [calm]: "no_vm (run_create vm cx exec t m)"
  unfolding run_create_def Let_def by (intro no_vm_rules calm)

lemma calm_body [calm]:
  "no_vm (executeCall vm cx exec t m)" "no_vm (executeCreate vm cx exec m)"
  unfolding executeCall_def executeCreate_def Let_def
  by (intro no_vm_rules calm; auto intro!: no_vm_rules calm split: option.split msg_code.split)+

lemma calm_execute: "no_vm (execute_with vm cx exec m)"
  unfolding execute_with_def warm_created_def message_body_def close_message_def Let_def
  by (intro no_vm_rules calm)

section \<open>A message keeps the world\<close>

text \<open>The parts of a run of \<open>_executeMessage\<close> that returns.\<close>

lemma execute_with_parts:
  assumes "execute_with vm cx exec m0 s = (Inr (result, sd), t)"
  obtains m s1 s2 s3 r where "warm_created vm m0 s = (Inr m, s1)"
    "world_checkpoint s1 = (Inr (), s2)" "message_body vm cx exec m s2 = (Inr (r, sd), s3)"
    "close_message vm (ev_refund s1) r s3 = (Inr result, t)"
proof -
  obtain m s1 where 1: "warm_created vm m0 s = (Inr m, s1)"
    using assms by (auto simp: execute_with_def bnd_def split: prod.splits sum.splits)
  obtain a where a: "on_state sm_checkpoint s1 = (Inr (), a)"
    using assms 1 by (auto simp: execute_with_def bnd_def andthen_def gets_def split: prod.splits sum.splits)
  obtain s2 where b: "on_transient ts_checkpoint a = (Inr (), s2)"
    using assms 1 a by (auto simp: execute_with_def bnd_def andthen_def gets_def split: prod.splits sum.splits)
  obtain r sd' s3 where c: "message_body vm cx exec m s2 = (Inr (r, sd'), s3)"
    using assms 1 a b by (auto simp: execute_with_def bnd_def andthen_def gets_def split: prod.splits sum.splits)
  have d: "close_message vm (ev_refund s1) r s3 = (Inr result, t)" "sd' = sd"
    using assms 1 a b c by (auto simp: execute_with_def bnd_def andthen_def gets_def ret_def
        split: prod.splits sum.splits)
  show thesis
    by (rule that [OF 1 _ _ d(1)]) (use a b c d(2) in \<open>simp_all add: world_checkpoint_def andthen_def bnd_def\<close>)
qed

text \<open>Whether the message fails in the sense that its changes are taken back.\<close>

definition message_fails :: "vm \<Rightarrow> vm_error option \<Rightarrow> bool" where
  "message_fails vm err \<longleftrightarrow> err \<noteq> None \<and>
     (vm_gteHardfork vm ''homestead'' \<or> err \<noteq> Some CODESTORE_OUT_OF_GAS)"

lemma close_message_parts:
  assumes "close_message vm old r s = (Inr result, t)"
  defines "err \<equiv> x_exceptionError (g_execResult r)"
  defines "s' \<equiv> (if err \<noteq> None then s\<lparr>ev_refund := old\<rparr> else s)"
  shows "x_exceptionError (g_execResult result) = err"
    and "message_fails vm err \<Longrightarrow> world_revert s' = (Inr (), t)"
    and "\<not> message_fails vm err \<Longrightarrow> world_commit s' = (Inr (), t)"
  using assms(1)
  by (auto simp: close_message_def Let_def err_def s'_def message_fails_def world_revert_def
      world_commit_def bnd_def andthen_def gets_def modif_def ret_def when_eff_def
      split: prod.splits sum.splits if_splits)

lemma world_refund [simp]:
  "world_inv (s\<lparr>ev_refund := n\<rparr>) = world_inv s" "world_saved (s\<lparr>ev_refund := n\<rparr>) = world_saved s"
  "world_cur (s\<lparr>ev_refund := n\<rparr>) = world_cur s"
  by (simp_all add: world_inv_def world_saved_def world_cur_def)

lemma zoom_other [simp]:
  "on_state m s = (q, t) \<Longrightarrow> ev_refund t = ev_refund s"
  "on_transient m' s = (q, t) \<Longrightarrow> ev_refund t = ev_refund s"
  by (auto simp: zoom_def split: prod.splits)

lemma world_keeps_state: "sm_writes vm (ev_state s) t' \<Longrightarrow> world_keeps s (s\<lparr>ev_state := t'\<rparr>)"
  using state_mgr.writes_ok [of "ev_state s" vm t']
  by (auto simp: world_keeps_def world_inv_def world_saved_def)

lemma world_keeps_transient:
  "ts_put a k v (ev_transientStorage s) = (r, x) \<Longrightarrow> world_keeps s (s\<lparr>ev_transientStorage := x\<rparr>)"
proof -
  assume put: "ts_put a k v (ev_transientStorage s) = (r, x)"
  show ?thesis
  proof (cases r)
    case (Inl e)
    with put have "x = ev_transientStorage s"
      by (auto simp: ts_put_def eff_defs Let_def split: if_splits)
    then show ?thesis by (simp add: world_keeps_def)
  next
    case (Inr u)
    then have "ts_writes (ev_transientStorage s) x" using put by (auto simp: ts_writes_def)
    then show ?thesis
      using transient.writes_ok [of "ev_transientStorage s" x]
      by (auto simp: world_keeps_def world_inv_def world_saved_def)
  qed
qed

interpretation wk: step_rel world_keeps is_vm
  by unfold_locales (auto simp: world_keeps_def)

lemma world_rel_intro:
  assumes "\<And>m s q t. exec m s = (q, t) \<Longrightarrow> (\<And>e. q = Inl e \<Longrightarrow> is_vm e) \<Longrightarrow> world_keeps s t"
  shows "world_rel vm exec world_keeps"
  by unfold_locales
    (use assms world_keeps_state world_keeps_transient in \<open>auto simp: world_keeps_def\<close>)

text \<open>One message, when the messages of its frames keep the world.\<close>

lemma execute_with_keeps:
  assumes w: "world_rel vm exec world_keeps"
    and run: "execute_with vm cx exec m0 s = (Inr (result, sd), t)" and inv: "world_inv s"
  shows "world_inv t \<and> world_saved t = world_saved s \<and>
    (message_fails vm (x_exceptionError (g_execResult result)) \<longrightarrow>
       (\<exists>m s1. warm_created vm m0 s = (Inr m, s1) \<and> world_cur t = world_cur s1 \<and>
          ev_refund t = ev_refund s1))"
proof -
  obtain m s1 s2 s3 r where p: "warm_created vm m0 s = (Inr m, s1)"
    "world_checkpoint s1 = (Inr (), s2)" "message_body vm cx exec m s2 = (Inr (r, sd), s3)"
    "close_message vm (ev_refund s1) r s3 = (Inr result, t)"
    using execute_with_parts [OF run] .
  have s1: "world_keeps s s1"
    using world_rel.warm_created_kept [OF w] p(1) by (rule wk.keeps_step) simp
  have s3: "world_keeps s2 s3"
    using world_rel.message_body_kept [OF w] p(3) by (rule wk.keeps_step) simp
  have i1: "world_inv s1" "world_saved s1 = world_saved s" using s1 inv by (simp_all add: world_keeps_def)
  have b: "evm_world.body s2 s3"
    using s3 by (rule evm_world.body_write) (rule evm_world.body_done)
  have b': "evm_world.body s2 (s3\<lparr>ev_refund := ev_refund s1\<rparr>)"
    using s3 by (intro evm_world.body_write [OF _ evm_world.body_done]) (simp add: world_keeps_def)
  let ?err = "x_exceptionError (g_execResult r)"
  let ?s = "if ?err \<noteq> None then s3\<lparr>ev_refund := ev_refund s1\<rparr> else s3"
  have bs: "evm_world.body s2 ?s" using b b' by simp
  have err: "x_exceptionError (g_execResult result) = ?err"
    and rev: "message_fails vm ?err \<Longrightarrow> world_revert ?s = (Inr (), t)"
    and com: "\<not> message_fails vm ?err \<Longrightarrow> world_commit ?s = (Inr (), t)"
    using close_message_parts [OF p(4)] by auto
  show ?thesis
  proof (cases "message_fails vm ?err")
    case True
    have t: "world_inv t \<and> world_cur t = world_cur s1 \<and> world_saved t = world_saved s1"
      using evm_world.revert_restores [OF i1(1) p(2) bs] rev [OF True] by auto
    have "ev_refund t = ev_refund s1"
      using rev [OF True] True
      by (auto simp: message_fails_def world_revert_def andthen_def bnd_def split: prod.splits sum.splits dest!: zoom_other)
    with t i1 p(1) show ?thesis by auto
  next
    case False
    then show ?thesis
      using evm_world.commit_keeps [OF i1(1) p(2) bs] com [OF False] i1(2) err by auto
  qed
qed

lemma executeMessage_no_vm: "no_vm (executeMessage vm cx n m)"
  by (cases n) (auto simp: calm_execute intro: no_vm_basic)

text \<open>By induction on how deep messages nest.\<close>

lemma executeMessage_world: "world_rel vm (executeMessage vm cx n) world_keeps"
proof (induction n)
  case 0
  show ?case by (rule world_rel_intro) (simp add: raise_def)
next
  case (Suc n)
  show ?case
  proof (rule world_rel_intro)
    fix m s q t
    assume run: "executeMessage vm cx (Suc n) m s = (q, t)" and q: "\<And>e. q = Inl e \<Longrightarrow> is_vm e"
    show "world_keeps s t"
    proof (cases q)
      case (Inl e)
      with run q executeMessage_no_vm [of vm cx "Suc n" m] show ?thesis
        by (auto simp: no_vm_def)
    next
      case (Inr x)
      then show ?thesis
        using execute_with_keeps [OF Suc.IH, of cx m s "fst x" "snd x" t] run
        by (auto simp: world_keeps_def)
    qed
  qed
qed

text \<open>What is looked up before the checkpoint of a creation changes the warm addresses only.\<close>

definition lasting_view :: "evm \<Rightarrow> (bytes \<Rightarrow> bytes list) \<times> (bytes \<rightharpoonup> bytes) \<times> (bytes \<Rightarrow> bytes \<Rightarrow> bytes)" where
  "lasting_view ev = (fst (sm_cur (ev_state ev)), fst (snd (sm_cur (ev_state ev))),
     ts_cur (ev_transientStorage ev))"

lemma lasting_world: "world_cur t = world_cur s \<Longrightarrow> lasting_view t = lasting_view s"
  by (simp add: lasting_view_def world_cur_def)

lemma warm_created_lasting:
  assumes "warm_created vm m s = (Inr m', t)" "world_inv s"
  shows "lasting_view t = lasting_view s \<and> ev_refund t = ev_refund s"
proof (cases "m_to m = None \<and> vm_isActivatedEIP vm 2929")
  case False
  then show ?thesis using assms(1) by (auto simp: warm_created_def ret_def split: if_splits)
next
  case True
  let ?m = "m\<lparr>m_code := Some (Bytecode (m_data m))\<rparr>"
  obtain a u where u: "evm_generateAddress vm ?m s = (Inr a, u)"
    "on_state (addWarmedAddress a) u = (Inr (), t)"
    using assms(1) True
    by (auto simp: warm_created_def Let_def bnd_def andthen_def ret_def split: prod.splits sum.splits)
  obtain g where g: "sm_getAccount (m_caller m) (ev_state s) = (fromValuesArray (fst (sm_cur (ev_state s)) (m_caller m)), g)"
    "sm_cur g = sm_cur (ev_state s)"
    using getAccount_result assms(2) unfolding world_inv_def by metis
  have "u = s \<or> u = s\<lparr>ev_state := g\<rparr>"
    using u(1) g(1)
    by (auto simp: evm_generateAddress_def eff_defs Let_def split: option.splits prod.splits sum.splits)
  then have "lasting_view u = lasting_view s \<and> ev_refund u = ev_refund s"
    using g(2) by (auto simp: lasting_view_def)
  moreover have "lasting_view t = lasting_view u \<and> ev_refund t = ev_refund u"
    using u(2)
    by (auto simp: addWarmedAddress_def upd_top_def eff_defs lasting_view_def sm_cur_def split: list.splits)
  ultimately show ?thesis by simp
qed

section \<open>The properties\<close>

lemma close_message_result:
  assumes "close_message vm old r s = (Inr result, t)" "x_exceptionError (g_execResult result) \<noteq> None"
  shows "x_selfdestruct (g_execResult result) = Some []"
    "message_fails vm (x_exceptionError (g_execResult result)) \<Longrightarrow> x_logs (g_execResult result) = Some []"
  using assms
  by (auto simp: close_message_def Let_def bnd_def andthen_def gets_def modif_def ret_def when_eff_def
      message_fails_def split: prod.splits sum.splits if_splits)

text \<open>C1. A message that fails leaves no trace: after it, whatever its code and the messages nested in
  it did, every account (nonce, balance, storage root, code hash), the code behind every hash, every
  transient slot and the refund counter are what they were before, the checkpoints of the callers
  are untouched, and no logs and no self-destructs are reported. For a call (but not a creation,
  whose address is warmed first) the warm addresses and slots are restored too.\<close>

theorem failed_message_restores_world:
  assumes "executeMessage vm cx n m s = (Inr (result, sd), t)" "world_inv s"
    and "message_fails vm (x_exceptionError (g_execResult result))"
  shows "lasting_view t = lasting_view s \<and> ev_refund t = ev_refund s \<and>
    world_inv t \<and> world_saved t = world_saved s \<and>
    x_logs (g_execResult result) = Some [] \<and> x_selfdestruct (g_execResult result) = Some [] \<and>
    (m_to m = None \<or> world_cur t = world_cur s)"
proof -
  obtain k where "n = Suc k" using assms(1) by (cases n) (auto simp: raise_def)
  then have run: "execute_with vm cx (executeMessage vm cx k) m s = (Inr (result, sd), t)"
    using assms(1) by simp
  obtain m' s1 where s1: "warm_created vm m s = (Inr m', s1)" "world_cur t = world_cur s1"
    "ev_refund t = ev_refund s1" "world_inv t" "world_saved t = world_saved s"
    using execute_with_keeps [OF executeMessage_world run assms(2)] assms(3) by auto
  moreover have "x_logs (g_execResult result) = Some [] \<and> x_selfdestruct (g_execResult result) = Some []"
    using execute_with_parts [OF run] close_message_result assms(3) by (metis message_fails_def)
  moreover have "m_to m = None \<or> s1 = s"
    using s1(1) by (cases "m_to m") (auto simp: warm_created_def ret_def)
  ultimately show ?thesis
    using warm_created_lasting [OF s1(1) assms(2)] lasting_world [OF s1(2)] by auto
qed

definition sample_cx :: evm_context where
  "sample_cx = \<lparr>cx_gasPrice = 1, cx_origin = replicate 20 2, cx_block = sample_header,
     cx_blockHash = (\<lambda>n. Inr (replicate 32 0)), cx_steps = 100, cx_precompiles = (\<lambda>n d g. Inl [])\<rparr>"

text \<open>A call that sends more than a balance may hold: the sender pays, then the addition overflows.\<close>

definition overflow_call :: message where
  "overflow_call = new_message\<lparr>m_caller := replicate 20 2, m_to := Some (replicate 20 5),
     m_value := 2 ^ 256, m_code := Some (Bytecode [])\<rparr>"

lemma overflow_call_run:
  "case executeMessage sample_vm sample_cx 1 overflow_call sample_evm of
     (Inr (r, sd), t) \<Rightarrow> x_exceptionError (g_execResult r) = Some VALUE_OVERFLOW | _ \<Rightarrow> False"
  by (simp add: overflow_call_def new_message_def execute_with_def warm_created_def eff_defs
      sample_evm_def new_state_manager_def sm_checkpoint_def trie_checkpoint_def db_checkpoint_def
      base_checkpoint_def cache_checkpoint_def new_cache_def ts_checkpoint_def message_body_def
      executeCall_def sm_getAccount_def cache_getOrLoad_def cache_lookup_def getCb_def cache_update_def
      reduceSenderBalance_def sm_putAccount_def cache_put_def sm_touchAccount_def addToBalance_def
      loadCode_def MAX_INTEGER_def new_account_def new_transient_storage_def Let_def early_exit_def
      wrap_result_def close_message_def sm_revert_def trie_revert_def db_isCheckpoint_def db_revert_def
      base_revert_def cache_revert_def flush_at_zero_def sm_flush_def cache_flush_def trie_set_root_def
      sm_clearOriginalStorageCache_def ts_revert_def)

lemma sample_evm_inv: "world_inv sample_evm"
proof -
  have "sm_saved new_state_manager = []"
    by (simp add: sm_saved_def new_state_manager_def new_cache_def)
  then show ?thesis
    by (simp add: world_inv_def sample_evm_def new_state_manager_inv new_transient_inv)
qed

theorem failed_message_restores_world_witness:
  "\<exists>r sd t. executeMessage sample_vm sample_cx 1 overflow_call sample_evm = (Inr (r, sd), t) \<and>
     x_exceptionError (g_execResult r) = Some VALUE_OVERFLOW \<and> world_cur t = world_cur sample_evm"
proof -
  obtain r sd t where run: "executeMessage sample_vm sample_cx 1 overflow_call sample_evm = (Inr (r, sd), t)"
    "x_exceptionError (g_execResult r) = Some VALUE_OVERFLOW"
    using overflow_call_run by (auto split: prod.splits sum.splits)
  then show ?thesis
    using failed_message_restores_world [OF run(1) sample_evm_inv]
    by (simp add: message_fails_def sample_vm_def overflow_call_def)
qed

end
