(* ===== verification/State_Accounts.thy ===== *)
theory State_Accounts
  imports State_Checkpoints
begin

text \<open>
  The accounts and the code behind the checkpoints, without the warm addresses. Running a transaction
  clears the warm addresses whatever checkpoints are open, so the invariant \<open>sm_inv\<close>, which ties the
  frames of warm addresses to the checkpoints, does not hold around transactions; what it says of
  everything else does. \<open>plain\<close> forgets the warm addresses; \<open>acct_inv\<close>, \<open>acct_cur\<close> and \<open>acct_saved\<close>
  are the invariant and the readings of what is left.

  The locale \<open>forgetful\<close> is about effects that cannot see what a function forgets: on states that look
  alike they return the same and leave states that look alike.
\<close>

locale forgetful =
  fixes p :: "'s \<Rightarrow> 's"
  assumes p_idem: "p (p s) = p s"
begin

definition blind :: "('s, 'a) eff \<Rightarrow> bool" where
  "blind m \<longleftrightarrow> (\<forall>s t. p s = p t \<longrightarrow> fst (m s) = fst (m t) \<and> p (snd (m s)) = p (snd (m t)))"

lemma blindI:
  "(\<And>s t. p s = p t \<Longrightarrow> fst (m s) = fst (m t) \<and> p (snd (m s)) = p (snd (m t))) \<Longrightarrow> blind m"
  unfolding blind_def by blast

lemma blindD:
  "blind m \<Longrightarrow> p s = p t \<Longrightarrow> m s = (r, s') \<Longrightarrow> \<exists>t'. m t = (r, t') \<and> p s' = p t'"
  unfolding blind_def by (metis eq_fst_iff snd_conv)

lemma blind_plain: "blind m \<Longrightarrow> m s = (r, s') \<Longrightarrow> \<exists>t. m (p s) = (r, t) \<and> p t = p s'"
  using blindD [of m s "p s"] p_idem by metis

lemma blind_basic:
  "blind (ret x)" "blind (raise e)" "blind (of_sum q)" "blind (guard_eff b e)"
  by (simp_all add: blind_def eff_defs)

lemma blind_gets: "(\<And>s t. p s = p t \<Longrightarrow> f s = f t) \<Longrightarrow> blind (gets f)"
  unfolding blind_def gets_def fst_conv snd_conv by blast

lemma blind_modif: "(\<And>s t. p s = p t \<Longrightarrow> p (f s) = p (f t)) \<Longrightarrow> blind (modif f)"
  unfolding blind_def modif_def fst_conv snd_conv by blast

lemma blind_bnd:
  assumes "blind m" "\<And>x. blind (k x)"
  shows "blind (bnd m k)"
proof (rule blindI)
  fix s t :: 's
  assume st: "p s = p t"
  obtain r s' where s': "m s = (r, s')" by force
  obtain t' where t': "m t = (r, t')" "p s' = p t'"
    using blindD [OF assms(1) st s'] by blast
  show "fst (bnd m k s) = fst (bnd m k t) \<and> p (snd (bnd m k s)) = p (snd (bnd m k t))"
  proof (cases r)
    case (Inl e)
    then show ?thesis using s' t' by (simp add: bnd_def)
  next
    case (Inr x)
    have "fst (k x s') = fst (k x t') \<and> p (snd (k x s')) = p (snd (k x t'))"
      using assms(2) [of x] t'(2) unfolding blind_def by blast
    then show ?thesis using s' t' Inr by (simp add: bnd_def)
  qed
qed

lemma blind_andthen: "blind m \<Longrightarrow> blind n \<Longrightarrow> blind (andthen m n)"
  by (simp add: andthen_def blind_bnd)

lemma blind_when: "blind m \<Longrightarrow> blind (when_eff b m)"
  by (simp add: when_eff_def blind_basic)

lemma blind_for_each: "(\<And>x. blind (f x)) \<Longrightarrow> blind (for_each xs f)"
  by (induction xs) (simp_all add: blind_basic blind_andthen)

lemma blind_zoom:
  assumes "\<And>s t. p s = p t \<Longrightarrow> g s = g t" "\<And>s t x. p s = p t \<Longrightarrow> p (put x s) = p (put x t)"
  shows "blind (zoom g put m)"
proof (rule blindI)
  fix s t :: 's
  assume st: "p s = p t"
  obtain r u where "m (g t) = (r, u)" by force
  then show "fst (zoom g put m s) = fst (zoom g put m t) \<and>
      p (snd (zoom g put m s)) = p (snd (zoom g put m t))"
    using assms(1) [OF st] assms(2) [OF st, of u] by (simp add: zoom_def)
qed

lemma blind_if: "(b \<Longrightarrow> blind m) \<Longrightarrow> (\<not> b \<Longrightarrow> blind n) \<Longrightarrow> blind (if b then m else n)"
  by simp

lemma blind_case_option: "blind m \<Longrightarrow> (\<And>x. blind (k x)) \<Longrightarrow> blind (case l of None \<Rightarrow> m | Some x \<Rightarrow> k x)"
  by (simp split: option.split)

lemma blind_case_list:
  "blind m \<Longrightarrow> (\<And>x xs. blind (k x xs)) \<Longrightarrow> blind (case l of [] \<Rightarrow> m | x # xs \<Rightarrow> k x xs)"
  by (simp split: list.split)

lemma blind_Let: "(\<And>x. blind (k x)) \<Longrightarrow> blind (Let v k)"
  by (simp add: Let_def)

lemmas blind_rules = blind_basic blind_bnd blind_andthen blind_when blind_for_each blind_if
  blind_case_option blind_case_list blind_Let

end

section \<open>Forgetting the warm addresses\<close>

definition plain :: "state_manager \<Rightarrow> state_manager" where
  "plain s = s\<lparr>sm_accessedStorage := replicate (Suc (length (sm_touchedStack s))) [],
     sm_accessedStorageReverted := []\<rparr>"

lemma plain_fields [simp]:
  "sm_trie (plain s) = sm_trie s" "sm_cache (plain s) = sm_cache s"
  "sm_storageTries (plain s) = sm_storageTries s" "sm_storage_db (plain s) = sm_storage_db s"
  "sm_touched (plain s) = sm_touched s" "sm_touchedStack (plain s) = sm_touchedStack s"
  "sm_originalStorageCache (plain s) = sm_originalStorageCache s"
  "sm_checkpointCount (plain s) = sm_checkpointCount s"
  "sm_accessedStorage (plain s) = replicate (Suc (length (sm_touchedStack s))) []"
  by (simp_all add: plain_def)

lemma plain_eq_iff:
  "plain s = plain t \<longleftrightarrow> sm_trie s = sm_trie t \<and> sm_cache s = sm_cache t \<and>
     sm_storageTries s = sm_storageTries t \<and> sm_storage_db s = sm_storage_db t \<and>
     sm_touched s = sm_touched t \<and> sm_touchedStack s = sm_touchedStack t \<and>
     sm_originalStorageCache s = sm_originalStorageCache t \<and> sm_checkpointCount s = sm_checkpointCount t"
  by (cases s; cases t) (auto simp: plain_def)

lemma plain_idem [simp]: "plain (plain s) = plain s"
  by (simp add: plain_eq_iff)

interpretation fg: forgetful plain
  by unfold_locales simp

lemma blind_parts:
  "fg.blind (on_trie m)" "fg.blind (on_cache m')"
  by (rule fg.blind_zoom; simp add: plain_eq_iff)+

lemmas blind_all = fg.blind_rules blind_parts

lemma blind_accounts:
  "fg.blind (sm_getAccount a)" "fg.blind (sm_putAccount a x)" "fg.blind (sm_deleteAccount a)"
  "fg.blind (sm_touchAccount a)" "fg.blind (sm_accountIsEmpty a)"
  unfolding sm_getAccount_def sm_putAccount_def sm_deleteAccount_def sm_touchAccount_def
    sm_accountIsEmpty_def
  by (intro blind_all fg.blind_gets fg.blind_modif; simp add: plain_eq_iff)+

lemma blind_code:
  "fg.blind (sm_putContractCode vm a c)" "fg.blind (sm_getContractCode a)"
  unfolding sm_putContractCode_def sm_getContractCode_def
  by (intro blind_all blind_accounts)+

lemma blind_storage_parts:
  "fg.blind (sm_getStorageTrie a)" "fg.blind (storage_read r)" "fg.blind (storage_write vm c)"
  unfolding sm_getStorageTrie_def sm_lookupStorageTrie_def storage_read_def storage_write_def
  by (intro blind_all blind_accounts fg.blind_gets fg.blind_modif; simp add: plain_eq_iff)+

lemma blind_modify:
  "(\<And>r. fg.blind (m r)) \<Longrightarrow> fg.blind (sm_modifyContractStorage a m)"
  unfolding sm_modifyContractStorage_def
  by (intro blind_all blind_accounts blind_storage_parts fg.blind_modif) (simp_all add: plain_eq_iff)

lemma blind_storage:
  "fg.blind (sm_getContractStorage a k)" "fg.blind (sm_putContractStorage vm a k v)"
  "fg.blind (sm_clearContractStorage a)" "fg.blind (sm_getOriginalContractStorage a k)"
  unfolding sm_getContractStorage_def sm_putContractStorage_def sm_clearContractStorage_def
    sm_getOriginalContractStorage_def storage_put_def
  by (intro blind_modify blind_all blind_storage_parts fg.blind_gets fg.blind_modif;
      auto simp: plain_eq_iff split: option.split)+

lemma blind_cleanup: "fg.blind (sm_cleanupTouchedAccounts vm)"
  unfolding sm_cleanupTouchedAccounts_def
  by (intro blind_all blind_accounts fg.blind_gets fg.blind_modif; simp add: plain_eq_iff)

lemma blind_flush: "fg.blind sm_flush" "fg.blind sm_clearOriginalStorageCache" "fg.blind flush_at_zero"
  unfolding flush_at_zero_def sm_flush_def sm_clearOriginalStorageCache_def
  by (intro blind_all fg.blind_gets fg.blind_modif; simp add: plain_eq_iff)+

lemma blind_checkpoints: "fg.blind sm_checkpoint" "fg.blind sm_commit" "fg.blind sm_revert"
  unfolding sm_checkpoint_def sm_commit_def sm_revert_def base_checkpoint_def base_commit_def
    base_revert_def
  by (intro blind_all blind_flush fg.blind_gets fg.blind_modif;
      auto simp: plain_eq_iff split: list.split)+

section \<open>The invariant and the readings of what is left\<close>

type_synonym acct_view = "(bytes \<Rightarrow> bytes list) \<times> (bytes \<rightharpoonup> bytes)"

definition drop_warm :: "sm_view \<Rightarrow> acct_view" where
  "drop_warm v = (fst v, fst (snd v))"

definition acct_cur :: "state_manager \<Rightarrow> acct_view" where
  "acct_cur s = drop_warm (sm_cur s)"

definition acct_saved :: "state_manager \<Rightarrow> acct_view list" where
  "acct_saved s = map drop_warm (sm_saved (plain s))"

definition acct_inv :: "state_manager \<Rightarrow> bool" where
  "acct_inv s \<longleftrightarrow> sm_inv (plain s)"

lemma acct_cur_plain: "acct_cur (plain s) = acct_cur s"
  by (simp add: acct_cur_def sm_cur_def drop_warm_def)

lemma acct_plain_cong:
  assumes "plain s = plain t"
  shows "acct_inv s = acct_inv t \<and> acct_saved s = acct_saved t \<and> acct_cur s = acct_cur t"
  unfolding acct_inv_def acct_saved_def assms
  using acct_cur_plain [of s] acct_cur_plain [of t] assms by simp

lemma saved_aux_warm:
  "length fs = length gs \<Longrightarrow> map drop_warm (saved_aux ts rs fs) = map drop_warm (saved_aux ts rs gs)"
proof (induction ts rs fs arbitrary: gs rule: saved_aux.induct)
  case (1 t ts r v rs f fs)
  obtain g gs' where gs: "gs = g # gs'" "length fs = length gs'"
    using "1.prems" by (cases gs) auto
  show ?case using "1.IH" [OF gs(2)] by (simp add: gs(1) drop_warm_def)
qed simp_all

lemma list_all_replicate: "list_all P (replicate n x) \<longleftrightarrow> n = 0 \<or> P x"
  by (induction n) auto

lemma sm_inv_plain:
  assumes "sm_inv s"
  shows "acct_inv s" and "acct_saved s = map drop_warm (sm_saved s)"
proof -
  show "acct_inv s"
    using assms unfolding acct_inv_def sm_inv_def by (auto simp: list_all_replicate)
  show "acct_saved s = map drop_warm (sm_saved s)"
    using assms unfolding acct_saved_def sm_saved_def
    by (auto simp: sm_inv_def intro!: saved_aux_warm simp del: replicate.simps)
qed

definition acct_keeps :: "state_manager \<Rightarrow> state_manager \<Rightarrow> bool" where
  "acct_keeps s t \<longleftrightarrow> (acct_inv s \<longrightarrow> acct_inv t \<and> acct_saved t = acct_saved s)"

interpretation ak: step_rel acct_keeps "\<lambda>_. True"
  by unfold_locales (auto simp: acct_keeps_def)

lemma ak_step: "ak.keeps m \<Longrightarrow> m s = (r, s') \<Longrightarrow> acct_keeps s s'"
  using ak.keeps_step [of m s r s'] by simp

lemma blind_keeps:
  assumes "fg.blind m" "smk.keeps m"
  shows "ak.keeps m"
  unfolding ak.keeps_def
proof (intro allI impI)
  fix s r s'
  assume run: "m s = (r, s')"
  obtain t where t: "m (plain s) = (r, t)" "plain t = plain s'"
    using fg.blind_plain [OF assms(1) run] by blast
  show "acct_keeps s s'"
    unfolding acct_keeps_def
  proof
    assume inv: "acct_inv s"
    have "sm_inv t" "sm_saved t = sm_saved (plain s)"
      using smk_step [OF assms(2) t(1)] inv by (simp_all add: sm_keeps_saved_def acct_inv_def)
    then show "acct_inv s' \<and> acct_saved s' = acct_saved s"
      using sm_inv_plain [of t] acct_plain_cong [OF t(2)] by (simp add: acct_saved_def)
  qed
qed

text \<open>Effects that change what is forgotten only.\<close>

definition same_plain :: "state_manager \<Rightarrow> state_manager \<Rightarrow> bool" where
  "same_plain s t \<longleftrightarrow> plain t = plain s"

interpretation pk: step_rel same_plain "\<lambda>_. True"
  by unfold_locales (auto simp: same_plain_def)

lemma plain_keeps: "pk.keeps m \<Longrightarrow> ak.keeps m"
  unfolding pk.keeps_def ak.keeps_def same_plain_def acct_keeps_def using acct_plain_cong by metis

lemma warm_plain:
  "pk.keeps (addWarmedAddress a)" "pk.keeps (addWarmedStorage a k)" "pk.keeps clearWarmedAccounts"
  by (rule pk.keepsI; auto simp: addWarmedAddress_def addWarmedStorage_def clearWarmedAccounts_def
      upd_top_def eff_defs same_plain_def plain_eq_iff split: list.split)+

lemmas acct_warm = warm_plain [THEN plain_keeps]

lemma acct_kept:
  "ak.keeps (sm_getAccount a)" "ak.keeps (sm_putAccount a x)" "ak.keeps (sm_deleteAccount a)"
  "ak.keeps (sm_touchAccount a)" "ak.keeps (sm_putContractCode vm a c)" "ak.keeps (sm_getContractCode a)"
  "ak.keeps (sm_getContractStorage a k)" "ak.keeps (sm_getOriginalContractStorage a k)"
  "ak.keeps (sm_putContractStorage vm a k c)" "ak.keeps (sm_clearContractStorage a)"
  "ak.keeps (sm_cleanupTouchedAccounts vm)"
  by (rule blind_keeps; intro blind_accounts blind_code blind_storage blind_cleanup sm_keeps)+

lemma sm_writes_acct: "sm_writes vm s s' \<Longrightarrow> acct_keeps s s'"
  by (induction rule: sm_writes.induct) (erule acct_kept [THEN ak_step] acct_warm [THEN ak_step])+

lemma acct_saved_Cons:
  assumes "acct_inv s" "acct_saved s = v # vs"
  obtains x xs where "sm_saved (plain s) = x # xs" "v = drop_warm x" "vs = map drop_warm xs"
  using assms by (auto simp: acct_saved_def)

text \<open>What \<open>sm_inv\<close> promises of an effect that is blind, without the warm addresses.\<close>

lemma blind_run:
  assumes "fg.blind m" "m (plain s) = (Inr (), u)" "sm_inv u"
  shows "\<exists>s'. m s = (Inr (), s') \<and> acct_inv s' \<and> acct_cur s' = acct_cur u \<and>
    acct_saved s' = map drop_warm (sm_saved u)"
proof -
  obtain s' where s': "m s = (Inr (), s')" "plain u = plain s'"
    using fg.blindD [OF assms(1) _ assms(2), of s] by auto
  then show ?thesis using acct_plain_cong [OF s'(2)] sm_inv_plain [OF assms(3)] by auto
qed

interpretation accounts: checkpointed sm_checkpoint sm_commit sm_revert acct_cur acct_saved acct_inv
  "sm_writes vm" for vm
proof
  fix s s' :: state_manager
  assume inv: "acct_inv s"
  obtain u where u: "sm_checkpoint (plain s) = (Inr (), u)" "sm_inv u" "sm_cur u = sm_cur (plain s)"
    "sm_saved u = sm_cur (plain s) # sm_saved (plain s)"
    using sm_checkpoint_ok inv unfolding acct_inv_def by blast
  show "\<exists>s'. sm_checkpoint s = (Inr (), s') \<and> acct_inv s' \<and> acct_cur s' = acct_cur s \<and>
      acct_saved s' = acct_cur s # acct_saved s"
    using blind_run [OF blind_checkpoints(1) u(1,2)] u acct_cur_plain [of s]
    by (simp add: acct_cur_def acct_saved_def)
  show "sm_writes vm s s' \<Longrightarrow> acct_inv s' \<and> acct_saved s' = acct_saved s"
    using sm_writes_acct inv by (simp add: acct_keeps_def)
next
  fix s :: state_manager and v vs
  assume inv: "acct_inv s" and sv: "acct_saved s = v # vs"
  obtain x xs where x: "sm_saved (plain s) = x # xs" "v = drop_warm x" "vs = map drop_warm xs"
    using acct_saved_Cons [OF inv sv] .
  obtain u where u: "sm_commit (plain s) = (Inr (), u)" "sm_inv u" "sm_cur u = sm_cur (plain s)"
    "sm_saved u = xs"
    using sm_commit_ok x(1) inv unfolding acct_inv_def by blast
  show "\<exists>s'. sm_commit s = (Inr (), s') \<and> acct_inv s' \<and> acct_cur s' = acct_cur s \<and> acct_saved s' = vs"
    using blind_run [OF blind_checkpoints(2) u(1,2)] u x acct_cur_plain [of s] by (simp add: acct_cur_def)
  obtain u where u: "sm_revert (plain s) = (Inr (), u)" "sm_inv u" "sm_cur u = x" "sm_saved u = xs"
    using sm_revert_ok x(1) inv unfolding acct_inv_def by blast
  show "\<exists>s'. sm_revert s = (Inr (), s') \<and> acct_inv s' \<and> acct_cur s' = v \<and> acct_saved s' = vs"
    using blind_run [OF blind_checkpoints(3) u(1,2)] u x by (simp add: acct_cur_def)
qed

section \<open>Reading and writing accounts\<close>

definition account_at :: "state_manager \<Rightarrow> bytes \<Rightarrow> exn + account" where
  "account_at s a = fromValuesArray (fst (acct_cur s) a)"

lemma account_at_wf: "account_at s a = Inr x \<Longrightarrow> acc_wf x \<and> 0 \<le> acc_balance x"
  by (simp add: account_at_def fromValuesArray_wf)

lemma acct_get:
  assumes "acct_inv s"
  obtains s' where "sm_getAccount a s = (account_at s a, s')" "acct_inv s'" "acct_cur s' = acct_cur s"
    "acct_saved s' = acct_saved s"
proof -
  have inv: "sm_inv (plain s)" using assms by (simp add: acct_inv_def)
  obtain u where u: "sm_getAccount a (plain s) = (fromValuesArray (fst (sm_cur (plain s)) a), u)"
    "sm_inv u" "sm_cur u = sm_cur (plain s)" "sm_saved u = sm_saved (plain s)"
    using getAccount_result [OF inv, of a] by metis
  obtain s' where s': "sm_getAccount a s = (fromValuesArray (fst (sm_cur (plain s)) a), s')" "plain u = plain s'"
    using fg.blindD [OF blind_accounts(1) _ u(1), of s] by auto
  have "fromValuesArray (fst (sm_cur (plain s)) a) = account_at s a"
    using acct_cur_plain [of s] by (simp add: account_at_def acct_cur_def drop_warm_def)
  moreover have "acct_cur s' = acct_cur s" "acct_saved s' = acct_saved s" "acct_inv s'"
    using acct_plain_cong [OF s'(2)] acct_cur_plain [of s] sm_inv_plain [OF u(2)] u(3,4)
    by (simp_all add: acct_cur_def acct_saved_def)
  ultimately show thesis using that [of s'] s'(1) by simp
qed

lemma acct_put:
  assumes "acct_inv s"
  obtains s' where "sm_putAccount a x s = (Inr (), s')" "acct_inv s'" "acct_saved s' = acct_saved s"
    "acct_cur s' = ((fst (acct_cur s))(a := acc_raw x), snd (acct_cur s))"
proof -
  obtain r s' where run: "sm_putAccount a x s = (r, s')" by force
  have "r = Inr () \<and> acct_cur s' = ((fst (acct_cur s))(a := acc_raw x), snd (acct_cur s))"
    using run
    by (auto simp: sm_putAccount_def cache_put_def cache_update_def sm_touchAccount_def eff_defs Let_def
        acct_cur_def drop_warm_def sm_cur_def raw_at_upd split: if_splits)
  moreover have "acct_inv s'" "acct_saved s' = acct_saved s"
    using ak_step [OF acct_kept(2) run] assms by (simp_all add: acct_keeps_def)
  ultimately show thesis using that run by blast
qed

lemma acct_got:
  assumes "sm_getAccount a s = (r, s')" "acct_inv s"
  shows "r = account_at s a" "acct_inv s'" "acct_cur s' = acct_cur s" "acct_saved s' = acct_saved s"
  using acct_get [OF assms(2), of a] assms(1) by (metis prod.inject)+

lemma acct_written:
  assumes "sm_putAccount a x s = (r, s')" "acct_inv s"
  shows "r = Inr ()" "acct_inv s'" "acct_saved s' = acct_saved s"
    "acct_cur s' = ((fst (acct_cur s))(a := acc_raw x), snd (acct_cur s))"
  using acct_put [OF assms(2), of a x] assms(1) by (metis prod.inject)+

lemma account_at_cong: "acct_cur t = acct_cur s \<Longrightarrow> account_at t = account_at s"
  by (simp add: account_at_def fun_eq_iff)

lemma account_at_put:
  assumes "acct_cur s' = ((fst (acct_cur s))(a := acc_raw x), snd (acct_cur s))"
    "acc_wf x" "0 \<le> acc_balance x"
  shows "account_at s' b = (if b = a then Inr x else account_at s b)"
  using assms fromValuesArray_raw [OF assms(2)] by (simp add: account_at_def)

lemma acct_delete:
  assumes "acct_inv s" "sm_deleteAccount a s = (r, s')"
  shows "r = Inr ()" "acct_inv s'" "acct_saved s' = acct_saved s"
    "account_at s' b = (if b = a then Inr new_account else account_at s b)"
proof -
  have "r = Inr () \<and> acct_cur s' = ((fst (acct_cur s))(a := acc_raw new_account), snd (acct_cur s))"
    using assms(2)
    by (auto simp: sm_deleteAccount_def cache_del_def cache_update_def sm_touchAccount_def eff_defs Let_def
        acct_cur_def drop_warm_def sm_cur_def raw_at_upd split: if_splits)
  then show "r = Inr ()" "account_at s' b = (if b = a then Inr new_account else account_at s b)"
    by (simp_all add: account_at_def)
  show "acct_inv s'" "acct_saved s' = acct_saved s"
    using ak_step [OF acct_kept(3) assms(2)] assms(1) by (simp_all add: acct_keeps_def)
qed

text \<open>The numbers of the account behind an address; 0 when what is stored there is no account.\<close>

definition balance_at :: "state_manager \<Rightarrow> bytes \<Rightarrow> int" where
  "balance_at s a = (case account_at s a of Inr x \<Rightarrow> acc_balance x | Inl e \<Rightarrow> 0)"

definition nonce_at :: "state_manager \<Rightarrow> bytes \<Rightarrow> int" where
  "nonce_at s a = (case account_at s a of Inr x \<Rightarrow> acc_nonce x | Inl e \<Rightarrow> 0)"

text \<open>Removing empty accounts changes no number.\<close>

definition same_numbers :: "state_manager \<Rightarrow> state_manager \<Rightarrow> bool" where
  "same_numbers s t \<longleftrightarrow> (acct_inv s \<longrightarrow> acct_inv t \<and> balance_at t = balance_at s \<and> nonce_at t = nonce_at s)"

interpretation nk: step_rel same_numbers "\<lambda>_. True"
  by unfold_locales (auto simp: same_numbers_def)

lemma same_numbers_cur: "acct_cur t = acct_cur s \<Longrightarrow> acct_inv t \<Longrightarrow> same_numbers s t"
  by (simp add: same_numbers_def balance_at_def nonce_at_def account_at_def fun_eq_iff)

lemma cleanup_one:
  "nk.keeps (bnd (sm_accountIsEmpty a) (\<lambda>empty. when_eff empty (on_cache (cache_del a))))"
  unfolding nk.keeps_def
proof (intro allI impI)
  fix s r s'
  assume run: "bnd (sm_accountIsEmpty a) (\<lambda>empty. when_eff empty (on_cache (cache_del a))) s = (r, s')"
  show "same_numbers s s'"
  proof (cases "acct_inv s")
    case inv: True
    obtain u where u: "sm_getAccount a s = (account_at s a, u)" "acct_inv u" "acct_cur u = acct_cur s"
      using acct_get [OF inv] by metis
    show ?thesis
    proof (cases "\<exists>x. account_at s a = Inr x \<and> isEmpty x")
      case True
      then obtain x where x: "account_at s a = Inr x" "isEmpty x" by blast
      have s': "on_cache (cache_del a) u = (r, s')"
        using run u(1) x by (simp add: sm_accountIsEmpty_def bnd_def ret_def when_eff_def)
      then have "acct_inv s'"
        using ak_step [OF blind_keeps [OF blind_parts(2) keeps_cache_del] s'] u(2) by (simp add: acct_keeps_def)
      moreover have "account_at s' b = (if b = a then Inr new_account else account_at s b)" for b
        using s' u(3)
        by (auto simp: cache_del_def cache_update_def eff_defs acct_cur_def drop_warm_def sm_cur_def
            raw_at_upd account_at_def split: if_splits)
      ultimately show ?thesis
        using x by (auto simp: same_numbers_def balance_at_def nonce_at_def fun_eq_iff isEmpty_def new_account_def)
    next
      case False
      have "s' = u"
        using run u(1) False
        by (cases "account_at s a") (auto simp: sm_accountIsEmpty_def bnd_def ret_def when_eff_def)
      then show ?thesis using u same_numbers_cur by blast
    qed
  qed (simp add: same_numbers_def)
qed

lemma cleanup_numbers: "nk.keeps (sm_cleanupTouchedAccounts vm)"
proof -
  have "nk.keeps (modif (\<lambda>s. s\<lparr>sm_touched := []\<rparr>))"
    by (rule nk.keeps_modif) (auto simp: same_numbers_def acct_inv_def sm_inv_def balance_at_def
        nonce_at_def account_at_def acct_cur_def drop_warm_def sm_cur_def)
  then show ?thesis
    unfolding sm_cleanupTouchedAccounts_def by (intro nk.keeps_rules cleanup_one)
qed

end
