(* ===== verification/Tx_Proofs.thy ===== *)
theory Tx_Proofs
  imports Tx
begin

text \<open>
  What the constructors guarantee of a transaction, the round trip through its serialisation, and
  the agreement of signing and recovering.
\<close>

section \<open>What a constructed transaction satisfies\<close>

lemma validate_256: "validateCannotExceedMaxInteger vs 256 False = Inr () \<longleftrightarrow>
    (\<forall>(k, v) \<in> set vs. \<forall>x. v = Some x \<longrightarrow> x \<le> MAX_INTEGER)"
  by (induction vs) (auto simp: Let_def split: option.splits if_splits)

lemma validate_64: "validateCannotExceedMaxInteger vs 64 False = Inr () \<longleftrightarrow>
    (\<forall>(k, v) \<in> set vs. \<forall>x. v = Some x \<longrightarrow> x \<le> MAX_UINT64)"
  by (induction vs) (auto simp: Let_def split: option.splits if_splits)

lemma validate_64_eq: "validateCannotExceedMaxInteger vs 64 True = Inr () \<longleftrightarrow>
    (\<forall>(k, v) \<in> set vs. \<forall>x. v = Some x \<longrightarrow> x < MAX_UINT64)"
  by (induction vs) (auto simp: Let_def split: option.splits if_splits)

lemmas validates = validate_256 validate_64 validate_64_eq

definition base_ok :: "'a base_tx_scheme \<Rightarrow> bool" where
  "base_ok b \<longleftrightarrow> 0 \<le> tx_nonce b \<and> tx_nonce b < MAX_UINT64 \<and>
     0 \<le> tx_gasLimit b \<and> tx_gasLimit b \<le> MAX_UINT64 \<and>
     0 \<le> tx_value b \<and> tx_value b \<le> MAX_INTEGER \<and>
     (case tx_to b of None \<Rightarrow> True | Some a \<Rightarrow> length a = 20) \<and>
     (\<forall>x. tx_v b = Some x \<longrightarrow> 0 \<le> x) \<and>
     (\<forall>x. tx_r b = Some x \<longrightarrow> 0 \<le> x \<and> x \<le> MAX_INTEGER) \<and>
     (\<forall>x. tx_s b = Some x \<longrightarrow> 0 \<le> x \<and> x \<le> MAX_INTEGER)"

lemma opt_bn_nonneg: "opt_bn b = Some x \<Longrightarrow> 0 \<le> x"
  by (auto simp: opt_bn_def bn_of_bytes_nonneg split: if_splits)

lemma new_base_ok: "new_base td = Inr b \<Longrightarrow> base_ok b"
  by (auto simp: new_base_def Let_def bindS_Inr_iff validates base_ok_def bn_of_bytes_nonneg
      split: if_splits dest: opt_bn_nonneg)

text \<open>The buffers that are read back as the fields of \<open>b\<close>.\<close>

definition opt_buffer :: "int option \<Rightarrow> bytes" where
  "opt_buffer v = (case v of Some x \<Rightarrow> bnToUnpaddedBuffer x | None \<Rightarrow> [])"

definition base_input :: "'a base_tx_scheme \<Rightarrow> bytes \<Rightarrow> tx_input \<Rightarrow> bool" where
  "base_input b v td \<longleftrightarrow> td_nonce td = bnToUnpaddedBuffer (tx_nonce b) \<and>
     td_gasLimit td = bnToUnpaddedBuffer (tx_gasLimit b) \<and>
     td_to td = (case tx_to b of Some a \<Rightarrow> a | None \<Rightarrow> []) \<and>
     td_value td = bnToUnpaddedBuffer (tx_value b) \<and> td_data td = tx_data b \<and> td_v td = v \<and>
     td_r td = opt_buffer (tx_r b) \<and> td_s td = opt_buffer (tx_s b)"

lemma unpadded_Nil_iff: "0 \<le> x \<Longrightarrow> bnToUnpaddedBuffer x = [] \<longleftrightarrow> x = 0"
proof
  assume "0 \<le> x" "bnToUnpaddedBuffer x = []"
  then show "x = 0"
    using bn_of_bnToUnpaddedBuffer [of x] by (simp add: bn_of_bytes_def)
next
  have "bnToUnpaddedBuffer 0 = []" by code_simp
  then show "x = 0 \<Longrightarrow> bnToUnpaddedBuffer x = []" by simp
qed

lemma opt_bn_buffer:
  assumes "v \<noteq> Some 0" "\<forall>x. v = Some x \<longrightarrow> 0 \<le> x"
  shows "opt_bn (opt_buffer v) = v"
  using assms by (auto simp: opt_bn_def opt_buffer_def unpadded_Nil_iff split: option.split)

lemma new_base_input:
  assumes "base_ok b" "base_input b v td" "opt_bn v = tx_v b" "tx_r b \<noteq> Some 0" "tx_s b \<noteq> Some 0"
  shows "new_base td = Inr (base_tx.truncate b)"
proof -
  have "opt_bn (td_r td) = tx_r b" "opt_bn (td_s td) = tx_s b"
    using assms by (simp_all add: base_input_def opt_bn_buffer base_ok_def)
  moreover have "td_to td = [] \<longleftrightarrow> tx_to b = None" "td_to td \<noteq> [] \<longrightarrow> tx_to b = Some (td_to td) \<and> length (td_to td) = 20"
    using assms by (auto simp: base_input_def base_ok_def split: option.splits)
  moreover have "bn_of_bytes (td_nonce td) = tx_nonce b" "bn_of_bytes (td_gasLimit td) = tx_gasLimit b"
    "bn_of_bytes (td_value td) = tx_value b" "td_data td = tx_data b" "opt_bn (td_v td) = tx_v b"
    using assms by (simp_all add: base_input_def base_ok_def)
  ultimately show ?thesis
    using assms(1)
    by (auto simp: new_base_def Let_def bindS_Inr_iff validates base_ok_def base_tx.truncate_def
        simp del: validateCannotExceedMaxInteger.simps)
qed

section \<open>The round trip\<close>

lemma rlp_buffers_map [simp]: "rlp_buffers (map Item bs) = Inr bs"
  by (induction bs) (simp_all add: rlp_buffer_def)

lemma access_list_of_rlp [simp]: "access_list_of (access_list_rlp l) = Inr l"
proof (induction l)
  case Nil
  then show ?case by (simp add: access_list_rlp_def access_list_of_def)
next
  case (Cons i l)
  then show ?case
    by (cases i) (simp add: access_list_rlp_def access_list_of_def access_item_def rlp_buffer_def)
qed

definition made_with :: "tx_cfg \<Rightarrow> common \<Rightarrow> transaction \<Rightarrow> bool" where
  "made_with cfg c t \<longleftrightarrow> (\<exists>type td. factory_fromTxData cfg type td (Some c) = Inr t)"

text \<open>An unsigned typed transaction is read back with the parity 0 instead of none.\<close>

definition read_back :: "transaction \<Rightarrow> transaction" where
  "read_back t = (if tx_type t \<noteq> 0 \<and> tx_v t = None then t\<lparr>tx_v := Some 0\<rparr> else t)"

lemma base_truncate [simp]: "base_tx.truncate (b :: base_tx) = b"
  by (simp add: base_tx.truncate_def)

lemma extend_fields [simp]:
  "tx_nonce (base_tx.extend b m) = tx_nonce b" "tx_gasLimit (base_tx.extend b m) = tx_gasLimit b"
  "tx_to (base_tx.extend b m) = tx_to b" "tx_value (base_tx.extend b m) = tx_value b"
  "tx_data (base_tx.extend b m) = tx_data b" "tx_v (base_tx.extend b m) = tx_v b"
  "tx_r (base_tx.extend b m) = tx_r b" "tx_s (base_tx.extend b m) = tx_s b"
  "tx_payload (base_tx.extend b (transaction.fields c caps p)) = p"
  "tx_common (base_tx.extend b (transaction.fields c caps p)) = c"
  "tx_capabilities (base_tx.extend b (transaction.fields c caps p)) = caps"
  by (simp_all add: base_tx.extend_def transaction.fields_def)

lemma new_legacy_Inr:
  assumes "new_legacy cfg td common = Inr t"
  obtains b c caps where "new_base td = Inr b" "validateTxV cfg (tx_v b) common = Inr c"
    "t = base_tx.extend b (transaction.fields c caps (Legacy (bn_of_bytes (td_gasPrice td))))"
    "bn_of_bytes (td_gasPrice td) * tx_gasLimit b \<le> MAX_INTEGER"
    "bn_of_bytes (td_gasPrice td) \<le> MAX_INTEGER"
    "caps = (if gteHardfork c ''spuriousDragon''
       then if \<not> tx_isSigned b then [155]
            else if tx_v b = Some (chainIdBN c * 2 + 35) \<or> tx_v b = Some (chainIdBN c * 2 + 36)
                 then [155] else [] else [])"
proof -
  obtain b where b: "new_base td = Inr b" using assms by (auto simp: new_legacy_def bindS_Inr_iff)
  obtain c where c: "validateTxV cfg (tx_v b) common = Inr c"
    using assms b by (auto simp: new_legacy_def bindS_Inr_iff)
  show ?thesis
    using assms b c that [OF b c]
    by (simp add: new_legacy_def bindS_Inr_iff Let_def validates
        del: validateCannotExceedMaxInteger.simps split: if_split_asm)
qed

lemma validateTxV_not_0: "validateTxV cfg v common = Inr c \<Longrightarrow> v \<noteq> Some 0"
  by (auto simp: validateTxV_def)

lemma validateTxV_Some: "validateTxV cfg v (Some c) = Inr c' \<Longrightarrow> c' = c"
  by (auto simp: validateTxV_def getCommon_def split: option.splits if_splits)

lemma no_leading_zero [simp]:
  "(bnToUnpaddedBuffer x \<noteq> [] \<and> bnToUnpaddedBuffer x ! 0 = 0) = False"
  "(opt_buffer v \<noteq> [] \<and> opt_buffer v ! 0 = 0) = False"
proof -
  have "bnToUnpaddedBuffer y \<noteq> [] \<Longrightarrow> bnToUnpaddedBuffer y ! 0 \<noteq> 0" for y
    using hd_bnToUnpaddedBuffer [of y] by (metis hd_conv_nth)
  then show "(bnToUnpaddedBuffer x \<noteq> [] \<and> bnToUnpaddedBuffer x ! 0 = 0) = False"
    "(opt_buffer v \<noteq> [] \<and> opt_buffer v ! 0 = 0) = False"
    by (auto simp: opt_buffer_def split: option.splits)
qed

lemma opt_item_buffer: "opt_item v = Item (opt_buffer v)"
  by (simp add: opt_item_def opt_buffer_def)

lemma legacy_roundtrip:
  assumes made: "new_legacy cfg td (Some c) = Inr t" and zero: "tx_r t \<noteq> Some 0" "tx_s t \<noteq> Some 0"
  shows "legacy_fromValuesArray cfg (tx_raw t) (Some c) = Inr t"
proof -
  obtain b c' caps where b: "new_base td = Inr b" and v: "validateTxV cfg (tx_v b) (Some c) = Inr c'"
    and t: "t = base_tx.extend b (transaction.fields c' caps (Legacy (bn_of_bytes (td_gasPrice td))))"
    using made by (rule new_legacy_Inr)
  let ?td = "no_data\<lparr>td_nonce := bnToUnpaddedBuffer (tx_nonce b),
      td_gasPrice := bnToUnpaddedBuffer (bn_of_bytes (td_gasPrice td)),
      td_gasLimit := bnToUnpaddedBuffer (tx_gasLimit b),
      td_to := (case tx_to b of Some a \<Rightarrow> a | None \<Rightarrow> []), td_value := bnToUnpaddedBuffer (tx_value b),
      td_data := tx_data b, td_v := opt_buffer (tx_v b), td_r := opt_buffer (tx_r b),
      td_s := opt_buffer (tx_s b)\<rparr>"
  have ok: "base_ok b" using b by (rule new_base_ok)
  have "new_base ?td = Inr (base_tx.truncate b)"
    using zero by (intro new_base_input [OF ok, where v = "opt_buffer (tx_v b)"])
      (use ok validateTxV_not_0 [OF v] in \<open>auto simp: t base_input_def base_ok_def intro!: opt_bn_buffer\<close>)
  then have "new_legacy cfg ?td (Some c) = Inr t"
    using made b by (simp add: new_legacy_def bn_of_bytes_nonneg cong: if_cong)
  moreover have "legacy_fromValuesArray cfg (tx_raw t) (Some c) = new_legacy cfg ?td (Some c)"
    by (simp add: legacy_fromValuesArray_def tx_raw_defs t bn_item_def to_item_def opt_item_buffer
        rlp_buffer_def nth_value_def val_def Let_def)
  ultimately show ?thesis by simp
qed

lemma new_eip2930_Inr:
  assumes "new_eip2930 cfg td common = Inr t"
  obtains b c where "new_base td = Inr b" "getCommon cfg ''berlin'' common (td_chainId td) = Inr c"
    "isActivatedEIP c 2930" "verifyAccessList (td_accessList td) = Inr ()" "typed_checks c b = Inr ()"
    "bn_of_bytes (td_gasPrice td) \<le> MAX_INTEGER"
    "bn_of_bytes (td_gasPrice td) * tx_gasLimit b \<le> MAX_INTEGER"
    "t = base_tx.extend b (transaction.fields c [2718, 2930]
       (AccessListEIP2930 (chainIdBN c) (bn_of_bytes (td_gasPrice td)) (td_accessList td)))"
proof -
  obtain b where b: "new_base td = Inr b" using assms by (auto simp: new_eip2930_def bindS_Inr_iff)
  obtain c where c: "getCommon cfg ''berlin'' common (td_chainId td) = Inr c"
    using assms b by (auto simp: new_eip2930_def bindS_Inr_iff)
  show ?thesis
    using assms b c that [OF b c]
    by (simp add: new_eip2930_def bindS_Inr_iff Let_def validates
        del: validateCannotExceedMaxInteger.simps split: if_split_asm)
qed

lemma new_eip1559_Inr:
  assumes "new_eip1559 cfg td common = Inr t"
  obtains b c where "new_base td = Inr b" "getCommon cfg ''london'' common (td_chainId td) = Inr c"
    "isActivatedEIP c 1559" "verifyAccessList (td_accessList td) = Inr ()" "typed_checks c b = Inr ()"
    "bn_of_bytes (td_maxFeePerGas td) \<le> MAX_INTEGER"
    "bn_of_bytes (td_maxPriorityFeePerGas td) \<le> bn_of_bytes (td_maxFeePerGas td)"
    "tx_gasLimit b * bn_of_bytes (td_maxFeePerGas td) \<le> MAX_INTEGER"
    "t = base_tx.extend b (transaction.fields c [1559, 2718, 2930]
       (FeeMarketEIP1559 (chainIdBN c) (bn_of_bytes (td_maxPriorityFeePerGas td))
         (bn_of_bytes (td_maxFeePerGas td)) (td_accessList td)))"
proof -
  obtain b where b: "new_base td = Inr b" using assms by (auto simp: new_eip1559_def bindS_Inr_iff)
  obtain c where c: "getCommon cfg ''london'' common (td_chainId td) = Inr c"
    using assms b by (auto simp: new_eip1559_def bindS_Inr_iff)
  show ?thesis
    using assms b c that [OF b c]
    by (simp add: new_eip1559_def bindS_Inr_iff Let_def validates
        del: validateCannotExceedMaxInteger.simps split: if_split_asm)
qed

lemma getCommon_Some: "getCommon cfg hf (Some c) i = Inr c' \<Longrightarrow> c' = c"
  by (auto simp: getCommon_def Let_def split: option.splits if_splits)

lemma getCommon_same [simp]: "getCommon cfg hf (Some c) (Some (chainIdBN c)) = Inr c"
  by (simp add: getCommon_def)

definition parity :: "base_tx \<Rightarrow> base_tx" where
  "parity b = b\<lparr>tx_v := Some (case tx_v b of None \<Rightarrow> 0 | Some x \<Rightarrow> x)\<rparr>"

lemma extend_parity:
  assumes "tx_type (base_tx.extend b m) \<noteq> 0"
  shows "base_tx.extend (parity b) m = read_back (base_tx.extend b m)"
  using assms by (auto simp: read_back_def parity_def base_tx.extend_def split: option.splits)

lemma typed_checks_parity: "typed_checks c b = Inr () \<Longrightarrow> typed_checks c (parity b) = Inr ()"
  by (auto simp: typed_checks_def parity_def split: if_splits option.splits)

lemma typed_base:
  assumes b: "new_base td = Inr b" and zero: "tx_r b \<noteq> Some 0" "tx_s b \<noteq> Some 0"
    and input: "base_input b (v_buffer (Some (opt_buffer (tx_v b)))) td'"
  shows "new_base td' = Inr (parity b)"
proof -
  have ok: "base_ok b" using b by (rule new_base_ok)
  have "opt_bn (v_buffer (Some (opt_buffer (tx_v b)))) = tx_v (parity b)"
  proof -
    have "opt_bn (toArrayLike_min x) = Some x" if "0 \<le> x" for x
      using that bn_of_toArrayLike_min [OF that] by (simp add: opt_bn_def toArrayLike_min_def)
    then show ?thesis
      using ok by (auto simp: v_buffer_def parity_def opt_buffer_def base_ok_def bn_of_bytes_nonneg
          bn_of_bnToUnpaddedBuffer split: option.splits)
  qed
  moreover have "base_ok (parity b)" using ok by (auto simp: base_ok_def parity_def split: option.splits)
  moreover have "base_input (parity b) (v_buffer (Some (opt_buffer (tx_v b)))) td'"
    using input by (simp add: base_input_def parity_def)
  ultimately show ?thesis
    using new_base_input [of "parity b" _ td'] zero by (simp add: parity_def)
qed

lemma eip2930_roundtrip:
  assumes made: "new_eip2930 cfg td (Some c) = Inr t" and zero: "tx_r t \<noteq> Some 0" "tx_s t \<noteq> Some 0"
    and chain: "0 \<le> chainIdBN c"
  shows "eip2930_fromValuesArray cfg (tx_raw t) (Some c) = Inr (read_back t)"
proof -
  obtain b c' where b: "new_base td = Inr b" and g: "getCommon cfg ''berlin'' (Some c) (td_chainId td) = Inr c'"
    and parts: "isActivatedEIP c' 2930" "verifyAccessList (td_accessList td) = Inr ()" "typed_checks c' b = Inr ()"
      "bn_of_bytes (td_gasPrice td) \<le> MAX_INTEGER" "bn_of_bytes (td_gasPrice td) * tx_gasLimit b \<le> MAX_INTEGER"
    and t: "t = base_tx.extend b (transaction.fields c' [2718, 2930]
       (AccessListEIP2930 (chainIdBN c') (bn_of_bytes (td_gasPrice td)) (td_accessList td)))"
    using made by (rule new_eip2930_Inr)
  have c: "c' = c" using g by (rule getCommon_Some)
  let ?td = "no_data\<lparr>td_chainId := Some (chainIdBN c), td_nonce := bnToUnpaddedBuffer (tx_nonce b),
      td_gasPrice := bnToUnpaddedBuffer (bn_of_bytes (td_gasPrice td)),
      td_gasLimit := bnToUnpaddedBuffer (tx_gasLimit b),
      td_to := (case tx_to b of Some a \<Rightarrow> a | None \<Rightarrow> []), td_value := bnToUnpaddedBuffer (tx_value b),
      td_data := tx_data b, td_accessList := td_accessList td,
      td_v := v_buffer (Some (opt_buffer (tx_v b))), td_r := opt_buffer (tx_r b),
      td_s := opt_buffer (tx_s b)\<rparr>"
  have "new_base ?td = Inr (parity b)"
    using zero by (intro typed_base [OF b]) (simp_all add: t base_input_def)
  moreover have "base_tx.extend (parity b) (transaction.fields c' [2718, 2930]
      (AccessListEIP2930 (chainIdBN c') (bn_of_bytes (td_gasPrice td)) (td_accessList td))) = read_back t"
    unfolding t by (rule extend_parity) (simp add: tx_type_def)
  ultimately have "new_eip2930 cfg ?td (Some c) = Inr (read_back t)"
    using parts typed_checks_parity [OF parts(3)]
    by (simp add: new_eip2930_def c bindS_Inr_iff Let_def parity_def bn_of_bytes_nonneg)
  moreover have "eip2930_fromValuesArray cfg (tx_raw t) (Some c) = new_eip2930 cfg ?td (Some c)"
    using chain by (simp add: eip2930_fromValuesArray_def tx_raw_defs t c bn_item_def to_item_def opt_item_buffer
        typed_values_def rlp_buffer_def nth_value_def val_def Let_def)
  ultimately show ?thesis by simp
qed

lemma eip1559_roundtrip:
  assumes made: "new_eip1559 cfg td (Some c) = Inr t" and zero: "tx_r t \<noteq> Some 0" "tx_s t \<noteq> Some 0"
    and chain: "0 \<le> chainIdBN c"
  shows "eip1559_fromValuesArray cfg (tx_raw t) (Some c) = Inr (read_back t)"
proof -
  let ?p = "bn_of_bytes (td_maxPriorityFeePerGas td)" and ?f = "bn_of_bytes (td_maxFeePerGas td)"
  obtain b c' where b: "new_base td = Inr b" and g: "getCommon cfg ''london'' (Some c) (td_chainId td) = Inr c'"
    and parts: "isActivatedEIP c' 1559" "verifyAccessList (td_accessList td) = Inr ()" "typed_checks c' b = Inr ()"
      "?f \<le> MAX_INTEGER" "?p \<le> ?f" "tx_gasLimit b * ?f \<le> MAX_INTEGER"
    and t: "t = base_tx.extend b (transaction.fields c' [1559, 2718, 2930]
       (FeeMarketEIP1559 (chainIdBN c') ?p ?f (td_accessList td)))"
    using made by (rule new_eip1559_Inr)
  have c: "c' = c" using g by (rule getCommon_Some)
  let ?td = "no_data\<lparr>td_chainId := Some (chainIdBN c), td_nonce := bnToUnpaddedBuffer (tx_nonce b),
      td_maxPriorityFeePerGas := bnToUnpaddedBuffer ?p, td_maxFeePerGas := bnToUnpaddedBuffer ?f,
      td_gasLimit := bnToUnpaddedBuffer (tx_gasLimit b),
      td_to := (case tx_to b of Some a \<Rightarrow> a | None \<Rightarrow> []), td_value := bnToUnpaddedBuffer (tx_value b),
      td_data := tx_data b, td_accessList := td_accessList td,
      td_v := v_buffer (Some (opt_buffer (tx_v b))), td_r := opt_buffer (tx_r b),
      td_s := opt_buffer (tx_s b)\<rparr>"
  have "new_base ?td = Inr (parity b)"
    using zero by (intro typed_base [OF b]) (simp_all add: t base_input_def)
  moreover have "base_tx.extend (parity b) (transaction.fields c' [1559, 2718, 2930]
      (FeeMarketEIP1559 (chainIdBN c') ?p ?f (td_accessList td))) = read_back t"
    unfolding t by (rule extend_parity) (simp add: tx_type_def)
  ultimately have "new_eip1559 cfg ?td (Some c) = Inr (read_back t)"
    using parts typed_checks_parity [OF parts(3)]
    by (simp add: new_eip1559_def c bindS_Inr_iff Let_def parity_def bn_of_bytes_nonneg)
  moreover have "eip1559_fromValuesArray cfg (tx_raw t) (Some c) = new_eip1559 cfg ?td (Some c)"
    using chain by (simp add: eip1559_fromValuesArray_def tx_raw_defs t c bn_item_def to_item_def opt_item_buffer
        typed_values_def rlp_buffer_def nth_value_def val_def Let_def bn_of_bytes_nonneg)
  ultimately show ?thesis by simp
qed

lemma payload_of:
  "new_legacy cfg td common = Inr t \<Longrightarrow> \<exists>g. tx_payload t = Legacy g"
  "new_eip2930 cfg td common = Inr t \<Longrightarrow> \<exists>c g l. tx_payload t = AccessListEIP2930 c g l"
  "new_eip1559 cfg td common = Inr t \<Longrightarrow> \<exists>c p f l. tx_payload t = FeeMarketEIP1559 c p f l"
  by (auto elim!: new_legacy_Inr new_eip2930_Inr new_eip1559_Inr)


section \<open>The invariant of transactions\<close>

definition list_ok :: "access_list \<Rightarrow> bool" where
  "list_ok l \<longleftrightarrow> (\<forall>(a, ks) \<in> set l. length a = 20 \<and> (\<forall>k \<in> set ks. length k = 32))"

definition typed_sig_ok :: "transaction \<Rightarrow> bool" where
  "typed_sig_ok t \<longleftrightarrow> tx_v t \<in> {None, Some 0, Some 1} \<and>
     (\<forall>s. tx_s t = Some s \<longrightarrow> gteHardfork (tx_common t) ''homestead'' \<longrightarrow> s \<le> N_DIV_2)"

definition tx_ok :: "transaction \<Rightarrow> bool" where
  "tx_ok t \<longleftrightarrow> base_ok t \<and>
     (case tx_payload t of
        Legacy g \<Rightarrow> 0 \<le> g \<and> tx_gasLimit t * g \<le> MAX_INTEGER \<and>
          (tx_supports t 155 \<longrightarrow> gteHardfork (tx_common t) ''spuriousDragon'') \<and>
          (\<forall>v. tx_v t = Some v \<longrightarrow> v = 27 \<or> v = 28 \<or> 37 \<le> v)
      | AccessListEIP2930 c g l \<Rightarrow> 0 \<le> g \<and> tx_gasLimit t * g \<le> MAX_INTEGER \<and>
          c = chainIdBN (tx_common t) \<and> list_ok l \<and> typed_sig_ok t \<and>
          isActivatedEIP (tx_common t) 2930
      | FeeMarketEIP1559 c p f l \<Rightarrow> 0 \<le> p \<and> p \<le> f \<and> tx_gasLimit t * f \<le> MAX_INTEGER \<and>
          c = chainIdBN (tx_common t) \<and> list_ok l \<and> typed_sig_ok t \<and>
          isActivatedEIP (tx_common t) 1559)"

lemma verify_slots_iff: "verify_slots ks = Inr () \<longleftrightarrow> (\<forall>k \<in> set ks. length k = 32)"
  by (induction ks) auto

lemma verifyAccessList_iff: "verifyAccessList l = Inr () \<longleftrightarrow> list_ok l"
  by (induction l rule: verifyAccessList.induct)
    (auto simp: list_ok_def verify_slots_iff bindS_Inr_iff)

lemma base_ok_extend [simp]: "base_ok (base_tx.extend b m) = base_ok b"
  by (simp add: base_ok_def)

lemma typed_checks_sig:
  "typed_checks c b = Inr () \<Longrightarrow> typed_sig_ok (base_tx.extend b (transaction.fields c caps p))"
  by (auto simp: typed_checks_def typed_sig_ok_def split: if_splits option.splits)

lemma new_legacy_ok: "new_legacy cfg td common = Inr t \<Longrightarrow> tx_ok t"
proof (elim new_legacy_Inr)
  fix b c caps
  assume b: "new_base td = Inr b" and v: "validateTxV cfg (tx_v b) common = Inr c"
    and t: "t = base_tx.extend b (transaction.fields c caps (Legacy (bn_of_bytes (td_gasPrice td))))"
    and le: "bn_of_bytes (td_gasPrice td) * tx_gasLimit b \<le> MAX_INTEGER"
    and caps: "caps = (if gteHardfork c ''spuriousDragon''
       then if \<not> tx_isSigned b then [155]
            else if tx_v b = Some (chainIdBN c * 2 + 35) \<or> tx_v b = Some (chainIdBN c * 2 + 36)
                 then [155] else [] else [])"
  have "\<forall>x. tx_v b = Some x \<longrightarrow> x = 27 \<or> x = 28 \<or> 37 \<le> x"
    using v by (auto simp: validateTxV_def split: if_splits)
  then show "tx_ok t"
    using new_base_ok [OF b] le
    by (auto simp: tx_ok_def t bn_of_bytes_nonneg tx_supports_def caps mult.commute)
qed

lemma new_eip2930_ok: "new_eip2930 cfg td common = Inr t \<Longrightarrow> tx_ok t"
  by (elim new_eip2930_Inr)
    (simp add: tx_ok_def new_base_ok bn_of_bytes_nonneg typed_checks_sig verifyAccessList_iff mult.commute)

lemma new_eip1559_ok: "new_eip1559 cfg td common = Inr t \<Longrightarrow> tx_ok t"
  by (elim new_eip1559_Inr)
    (simp add: tx_ok_def new_base_ok bn_of_bytes_nonneg typed_checks_sig verifyAccessList_iff)

lemmas new_tx_ok = new_legacy_ok new_eip2930_ok new_eip1559_ok

lemma factory_ok: "factory_fromTxData cfg type td common = Inr t \<Longrightarrow> tx_ok t"
  by (auto simp: factory_fromTxData_def split: option.splits if_splits intro: new_tx_ok)

lemma fromValuesArray_ok:
  "legacy_fromValuesArray cfg vs common = Inr t \<Longrightarrow> tx_ok t"
  "eip2930_fromValuesArray cfg vs common = Inr t \<Longrightarrow> tx_ok t"
  "eip1559_fromValuesArray cfg vs common = Inr t \<Longrightarrow> tx_ok t"
  by (auto simp: legacy_fromValuesArray_def eip2930_fromValuesArray_def eip1559_fromValuesArray_def
      bindS_Inr_iff Let_def simp del: validateNoLeadingZeroes.simps split: if_splits intro: new_tx_ok)

lemma fromSerializedTx_ok:
  "legacy_fromSerializedTx cfg data common = Inr t \<Longrightarrow> tx_ok t"
  "eip2930_fromSerializedTx cfg data common = Inr t \<Longrightarrow> tx_ok t"
  "eip1559_fromSerializedTx cfg data common = Inr t \<Longrightarrow> tx_ok t"
  unfolding legacy_fromSerializedTx_def eip2930_fromSerializedTx_def eip1559_fromSerializedTx_def
  by (auto simp: bindS_def split: if_split_asm rlp.split_asm sum.split_asm intro: fromValuesArray_ok)

lemma fromSerializedData_ok: "fromSerializedData cfg data common = Inr t \<Longrightarrow> tx_ok t"
  by (auto simp: fromSerializedData_def split: if_splits intro: fromSerializedTx_ok)

text \<open>C25. Every transaction that is made from data or decoded from bytes satisfies the bounds that
  the code relies on: the nonce, gas limit, value and signature fit their widths, a recipient has
  20 bytes, the gas limit times the price fits 256 bits, the priority fee is at most the fee, access
  lists hold addresses and 32 byte slots, and the signature of a typed transaction has parity 0 or 1
  and a low s. So the upfront cost stays below 2 to the 257, whatever the base fee up to the fee.\<close>

theorem transactions_bounded:
  assumes "factory_fromTxData cfg type td common = Inr t \<or> fromSerializedData cfg data common = Inr t"
  shows "tx_ok t \<and> (\<forall>baseFee \<ge> 0. 0 \<le> getUpfrontCost t baseFee \<and> getUpfrontCost t baseFee < 2 ^ 257)"
proof (intro conjI allI impI)
  show ok: "tx_ok t" using assms factory_ok fromSerializedData_ok by blast
  fix baseFee :: int
  assume base: "0 \<le> baseFee"
  have gas: "0 \<le> tx_gasLimit t" and val: "0 \<le> tx_value t" "tx_value t \<le> MAX_INTEGER"
    using ok by (auto simp: tx_ok_def base_ok_def)
  have "0 \<le> getUpfrontCost t baseFee \<and> getUpfrontCost t baseFee \<le> MAX_INTEGER + MAX_INTEGER"
  proof (cases "tx_payload t")
    case (FeeMarketEIP1559 c p f l)
    let ?g = "min p (f - baseFee) + baseFee"
    have pf: "0 \<le> p" "p \<le> f" "tx_gasLimit t * f \<le> MAX_INTEGER"
      using ok FeeMarketEIP1559 by (auto simp: tx_ok_def)
    then have "0 \<le> ?g" "?g \<le> f" using base by linarith+
    then have "0 \<le> tx_gasLimit t * ?g" "tx_gasLimit t * ?g \<le> tx_gasLimit t * f"
      using gas by (auto intro: mult_left_mono mult_nonneg_nonneg)
    then show ?thesis
      using pf val unfolding getUpfrontCost_defs FeeMarketEIP1559 Let_def tx_payload.case by linarith
  qed (use ok gas val in \<open>auto simp: tx_ok_def getUpfrontCost_defs\<close>)
  then show "0 \<le> getUpfrontCost t baseFee" "getUpfrontCost t baseFee < 2 ^ 257"
    by (auto simp: MAX_INTEGER_def)
qed

section \<open>Signing\<close>

text \<open>
  What the code relies on from the curve: a signature has 64 bytes and a recovery bit, its s is in
  the lower half, and the public key of the signer is recovered from it.
\<close>

definition signs_for :: "tx_cfg \<Rightarrow> bytes \<Rightarrow> bytes \<Rightarrow> bool" where
  "signs_for cfg privateKey key \<longleftrightarrow>
     (\<forall>msg signature n. txc_sign cfg msg privateKey = Inr (signature, n) \<longrightarrow>
        length signature = 64 \<and> n \<le> 1 \<and> bn_of_bytes (slice signature 32 64) \<le> N_DIV_2 \<and>
        txc_recover cfg signature n msg = Some key)"

lemma replicate_stripZeros: "replicate (length bs - length (stripZeros bs)) 0 @ stripZeros bs = bs"
proof (induction bs)
  case (Cons b bs)
  then show ?case using length_stripZeros [of bs] by (simp add: Suc_diff_le)
qed simp

lemma setLengthLeft_unpad: "length bs = n \<Longrightarrow> 0 < n \<Longrightarrow> setLengthLeft (unpadBuffer bs) n = bs"
  using replicate_stripZeros [of bs] length_stripZeros [of bs]
  by (auto simp: setLengthLeft_def setLength_def unpadBuffer_def)

lemma bn_toArrayLike [simp]: "0 \<le> x \<Longrightarrow> opt_bn (toArrayLike_min x) = Some x"
  using bn_of_toArrayLike_min [of x] by (simp add: opt_bn_def toArrayLike_min_def)

lemma signed_base:
  assumes "base_ok t" "0 \<le> v" "new_base (signed_data t v r s\<lparr>td_gasPrice := g, td_chainId := c,
    td_maxPriorityFeePerGas := p, td_maxFeePerGas := f, td_accessList := l\<rparr>) = Inr b"
  shows "b = (base_tx.truncate t)\<lparr>tx_v := Some v, tx_r := Some (bn_of_bytes r), tx_s := Some (bn_of_bytes s)\<rparr>"
proof -
  have "tx_to t = Some a \<Longrightarrow> a \<noteq> []" for a using assms(1) by (auto simp: base_ok_def)
  then show ?thesis
    using assms by (auto simp: new_base_def signed_data_def no_data_def Let_def bindS_Inr_iff
        base_ok_def base_tx.truncate_def bn_of_bytes_nonneg split: if_splits option.splits
        simp del: validateCannotExceedMaxInteger.simps)
qed

lemma signed_recovers:
  assumes law: "signs_for cfg privateKey key" and sig: "txc_sign cfg msg privateKey = Inr (signature, n)"
    and v: "calculateSigRecovery v chainId = int n"
  shows "ecrecover (txc_recover cfg) msg v (bnToUnpaddedBuffer (bn_of_bytes (slice signature 0 32)))
    (bnToUnpaddedBuffer (bn_of_bytes (slice signature 32 64))) chainId = Inr key"
proof -
  have len: "length signature = 64" and n: "n \<le> 1" "txc_recover cfg signature n msg = Some key"
    using law sig by (auto simp: signs_for_def)
  have "setLengthLeft (unpadBuffer (slice signature 0 32)) 32 @
      setLengthLeft (unpadBuffer (slice signature 32 64)) 32 = signature"
    using len by (simp add: setLengthLeft_unpad) (simp add: slice_def)
  then show ?thesis
    using n by (auto simp: ecrecover_def Let_def v isValidSigRecovery_def unpadBuffer_min le_Suc_eq)
qed

text \<open>The transaction that \<open>processSignature\<close> makes, in terms of the one that is signed.\<close>

definition with_sig :: "transaction \<Rightarrow> int \<Rightarrow> bytes \<Rightarrow> bytes \<Rightarrow> nat list \<Rightarrow> transaction" where
  "with_sig t v r s caps = t\<lparr>tx_v := Some v, tx_r := Some (bn_of_bytes r),
     tx_s := Some (bn_of_bytes s), tx_capabilities := caps\<rparr>"

lemma extend_with_sig:
  "base_tx.extend ((base_tx.truncate t)\<lparr>tx_v := v, tx_r := r, tx_s := s\<rparr>)
     (transaction.fields c caps p) =
   t\<lparr>tx_v := v, tx_r := r, tx_s := s, tx_common := c, tx_capabilities := caps, tx_payload := p\<rparr>"
  by (cases t) (simp add: base_tx.extend_def base_tx.truncate_def transaction.fields_def)

lemma processSignature_legacy:
  assumes ok: "base_ok t" "0 \<le> g" and leg: "tx_payload t = Legacy g"
    and v: "v' = (if tx_supports t 155 then v + (chainIdBN (tx_common t) * 2 + 8) else v)" "0 \<le> v'"
    and run: "processSignature cfg t v r s = Inr t'"
  shows "t' = with_sig t v' r s (if gteHardfork (tx_common t) ''spuriousDragon'' \<and>
    (v' = chainIdBN (tx_common t) * 2 + 35 \<or> v' = chainIdBN (tx_common t) * 2 + 36) then [155] else [])"
proof -
  have "new_legacy cfg ((signed_data t v' r s)\<lparr>td_gasPrice := toArrayLike_min g\<rparr>) (Some (tx_common t)) = Inr t'"
    using run by (simp add: processSignature_defs leg v(1) Let_def split: if_splits)
  then show ?thesis
  proof (rule new_legacy_Inr)
    fix b c caps
    assume b: "new_base ((signed_data t v' r s)\<lparr>td_gasPrice := toArrayLike_min g\<rparr>) = Inr b"
      and c: "validateTxV cfg (tx_v b) (Some (tx_common t)) = Inr c"
      and t': "t' = base_tx.extend b (transaction.fields c caps
          (Legacy (bn_of_bytes (td_gasPrice ((signed_data t v' r s)\<lparr>td_gasPrice := toArrayLike_min g\<rparr>)))))"
      and caps: "caps = (if gteHardfork c ''spuriousDragon''
         then if \<not> tx_isSigned b then [155]
              else if tx_v b = Some (chainIdBN c * 2 + 35) \<or> tx_v b = Some (chainIdBN c * 2 + 36)
                   then [155] else [] else [])"
    have b': "b = (base_tx.truncate t)\<lparr>tx_v := Some v', tx_r := Some (bn_of_bytes r), tx_s := Some (bn_of_bytes s)\<rparr>"
      using signed_base [OF ok(1) v(2), where r = r and s = s and g = "toArrayLike_min g" and c = None
          and p = "[]" and f = "[]" and l = "[]" and b = b] b
      by (simp add: signed_data_def no_data_def)
    moreover have "c = tx_common t" using c by (rule validateTxV_Some)
    ultimately show ?thesis
      using ok(2) leg
      by (simp add: t' caps extend_with_sig with_sig_def tx_isSigned_def)
  qed
qed

lemma processSignature_typed:
  assumes ok: "tx_ok t" and "tx_type t \<noteq> 0" "27 \<le> v" and run: "processSignature cfg t v r s = Inr t'"
  shows "\<exists>caps. t' = with_sig t (v - 27) r s caps"
proof (cases "tx_payload t")
  case (AccessListEIP2930 c g l)
  let ?td = "(signed_data t (v - 27) r s)\<lparr>td_chainId := Some c, td_gasPrice := toArrayLike_min g, td_accessList := l\<rparr>"
  have g: "0 \<le> g" and b_ok: "base_ok t" and c: "c = chainIdBN (tx_common t)"
    using ok AccessListEIP2930 by (auto simp: tx_ok_def)
  have "new_eip2930 cfg ?td (Some (tx_common t)) = Inr t'"
    using run by (simp add: processSignature_defs AccessListEIP2930)
  then show ?thesis
  proof (rule new_eip2930_Inr)
    fix b c'
    assume b: "new_base ?td = Inr b" and g': "getCommon cfg ''berlin'' (Some (tx_common t)) (td_chainId ?td) = Inr c'"
      and t': "t' = base_tx.extend b (transaction.fields c' [2718, 2930]
        (AccessListEIP2930 (chainIdBN c') (bn_of_bytes (td_gasPrice ?td)) (td_accessList ?td)))"
    have "b = (base_tx.truncate t)\<lparr>tx_v := Some (v - 27), tx_r := Some (bn_of_bytes r), tx_s := Some (bn_of_bytes s)\<rparr>"
      using signed_base [OF b_ok, where v = "v - 27" and r = r and s = s and g = "toArrayLike_min g"
          and c = "Some c" and p = "[]" and f = "[]" and l = l and b = b] b assms(3)
      by (simp add: signed_data_def no_data_def)
    then have "t' = with_sig t (v - 27) r s [2718, 2930]"
      using g AccessListEIP2930 getCommon_Some [OF g'] c
      by (simp add: t' extend_with_sig with_sig_def)
    then show ?thesis ..
  qed
next
  case (FeeMarketEIP1559 c p f l)
  let ?td = "(signed_data t (v - 27) r s)\<lparr>td_chainId := Some c, td_maxPriorityFeePerGas := toArrayLike_min p,
      td_maxFeePerGas := toArrayLike_min f, td_accessList := l\<rparr>"
  have g: "0 \<le> p" "p \<le> f" and b_ok: "base_ok t" and c: "c = chainIdBN (tx_common t)"
    using ok FeeMarketEIP1559 by (auto simp: tx_ok_def)
  have "new_eip1559 cfg ?td (Some (tx_common t)) = Inr t'"
    using run by (simp add: processSignature_defs FeeMarketEIP1559)
  then show ?thesis
  proof (rule new_eip1559_Inr)
    fix b c'
    assume b: "new_base ?td = Inr b" and g': "getCommon cfg ''london'' (Some (tx_common t)) (td_chainId ?td) = Inr c'"
      and t': "t' = base_tx.extend b (transaction.fields c' [1559, 2718, 2930]
        (FeeMarketEIP1559 (chainIdBN c') (bn_of_bytes (td_maxPriorityFeePerGas ?td))
          (bn_of_bytes (td_maxFeePerGas ?td)) (td_accessList ?td)))"
    have "b = (base_tx.truncate t)\<lparr>tx_v := Some (v - 27), tx_r := Some (bn_of_bytes r), tx_s := Some (bn_of_bytes s)\<rparr>"
      using signed_base [OF b_ok, where v = "v - 27" and r = r and s = s and g = "[]"
          and c = "Some c" and p = "toArrayLike_min p" and f = "toArrayLike_min f" and l = l and b = b] b assms(3)
      by (simp add: signed_data_def no_data_def)
    then have "t' = with_sig t (v - 27) r s [1559, 2718, 2930]"
      using g FeeMarketEIP1559 getCommon_Some [OF g'] c
      by (simp add: t' extend_with_sig with_sig_def)
    then show ?thesis ..
  qed
qed (use assms(2) in \<open>simp add: tx_type_def\<close>)

text \<open>The message to sign does not depend on the signature, only on the capability of EIP-155.\<close>

lemma message_with_sig:
  "tx_type t = 0 \<longrightarrow> (155 \<in> set caps) = tx_supports t 155 \<Longrightarrow>
   getMessageToSign cfg (with_sig t v r s caps) = getMessageToSign cfg t"
  by (auto simp: getMessageToSign_def message_defs legacy_message_def tx_raw_defs with_sig_def
      tx_supports_def tx_type_def to_item_def Let_def split: tx_payload.splits)

lemma with_sig_fields [simp]:
  "tx_v (with_sig t v r s caps) = Some v" "tx_r (with_sig t v r s caps) = Some (bn_of_bytes r)"
  "tx_s (with_sig t v r s caps) = Some (bn_of_bytes s)" "tx_type (with_sig t v r s caps) = tx_type t"
  "tx_common (with_sig t v r s caps) = tx_common t" "tx_isSigned (with_sig t v r s caps)"
  "tx_supports (with_sig t v r s caps) n = (n \<in> set caps)"
  by (simp_all add: with_sig_def tx_type_def tx_isSigned_def tx_supports_def)

lemma signed_sender:
  assumes law: "signs_for cfg privateKey key" and sign: "txc_sign cfg (getMessageToSign cfg t) privateKey = Inr (signature, n)"
    and t': "t' = with_sig t v (slice signature 0 32) (slice signature 32 64) caps"
    and msg: "tx_type t = 0 \<longrightarrow> (155 \<in> set caps) = tx_supports t 155"
    and v: "calculateSigRecovery (if tx_type t = 0 then v else v + 27)
      (if tx_type t = 0 \<and> 155 \<in> set caps then Some (chainIdBN (tx_common t)) else None) = int n"
  shows "getSenderPublicKey cfg t' = Inr key"
proof -
  have "bn_of_bytes (slice signature 32 64) \<le> N_DIV_2" using law sign by (auto simp: signs_for_def)
  moreover have "getMessageToVerifySignature cfg t' = Inr (getMessageToSign cfg t)"
    using message_with_sig [OF msg] by (simp add: getMessageToVerifySignature_def t')
  ultimately show ?thesis
    using signed_recovers [OF law sign v]
    by (cases "tx_type t = 0"; cases "155 \<in> set caps")
      (simp_all add: getSenderPublicKey_signed s_too_high_def try_recover_def t' getMessageToVerifySignature_def)
qed

definition sign_hack :: "transaction \<Rightarrow> bool" where
  "sign_hack t \<longleftrightarrow> tx_type t = 0 \<and> gteHardfork (tx_common t) ''spuriousDragon'' \<and> \<not> tx_supports t 155"

definition hacked :: "transaction \<Rightarrow> transaction" where
  "hacked t = (if sign_hack t then t\<lparr>tx_capabilities := tx_capabilities t @ [155]\<rparr> else t)"

lemma tx_sign_Inr:
  assumes "tx_sign cfg privateKey t = (Inr t', u)"
  obtains signature n where
    "txc_sign cfg (getMessageToSign cfg (hacked t)) privateKey = Inr (signature, n)"
    "processSignature cfg (hacked t) (int n + 27) (slice signature 0 32) (slice signature 32 64) = Inr t'"
    "u = (if sign_hack t then (hacked t)\<lparr>tx_capabilities := remove1 155 (tx_capabilities (hacked t))\<rparr>
          else hacked t)"
proof -
  let ?run = "bindS (ecsign (txc_sign cfg) (getMessageToSign cfg (hacked t)) privateKey) (\<lambda>sig.
      processSignature cfg (hacked t) (sig_v sig) (sig_r sig) (sig_s sig))"
  have "length privateKey = 32"
    using assms by (simp add: tx_sign_def split: if_split_asm)
  then have "tx_sign cfg privateKey t = (case ?run of Inl e \<Rightarrow> (Inl e, hacked t)
    | Inr tx \<Rightarrow> (Inr tx, if sign_hack t
        then (hacked t)\<lparr>tx_capabilities := remove1 155 (tx_capabilities (hacked t))\<rparr> else hacked t))"
    by (simp only: tx_sign_def sign_hack_def hacked_def Let_def simp_thms if_False)
  with assms have run: "?run = Inr t'"
    "u = (if sign_hack t then (hacked t)\<lparr>tx_capabilities := remove1 155 (tx_capabilities (hacked t))\<rparr>
          else hacked t)"
    by (cases ?run; simp)+
  from run(1) show ?thesis
    by (auto simp: ecsign_def bindS_Inr_iff intro: that [OF _ _ run(2)])
qed

text \<open>C27. Signing and recovering agree: for a signer whose public key is recovered from its
  signatures, the transaction that sign returns has that public key as its sender, with or without
  the chain id of EIP-155 in v, and otherwise the fields of the transaction that was signed, which is
  itself unchanged.\<close>

theorem sign_recovers_sender:
  assumes ok: "tx_ok t" and chain: "0 \<le> chainIdBN (tx_common t)"
    and law: "signs_for cfg privateKey key" and run: "tx_sign cfg privateKey t = (Inr t', u)"
  shows "getSenderPublicKey cfg t' = Inr key \<and> u = t \<and>
    (\<exists>v r s caps. t' = t\<lparr>tx_v := Some v, tx_r := Some r, tx_s := Some s, tx_capabilities := caps\<rparr>)"
proof -
  define w where "w = hacked t"
  have w: "base_ok w = base_ok t" "tx_type w = tx_type t" "tx_common w = tx_common t" "tx_payload w = tx_payload t"
    by (simp_all add: w_def hacked_def base_ok_def tx_type_def)
  obtain signature n where sign: "txc_sign cfg (getMessageToSign cfg w) privateKey = Inr (signature, n)"
    and proc: "processSignature cfg w (int n + 27) (slice signature 0 32) (slice signature 32 64) = Inr t'"
    and u: "u = (if sign_hack t then w\<lparr>tx_capabilities := remove1 155 (tx_capabilities w)\<rparr> else w)"
    using run unfolding w_def by (rule tx_sign_Inr)
  have n: "int n = 0 \<or> int n = 1" using law sign by (auto simp: signs_for_def le_Suc_eq)
  have "u = t" by (auto simp: u w_def hacked_def sign_hack_def tx_supports_def remove1_append)
  moreover have "\<exists>v caps. t' = with_sig w v (slice signature 0 32) (slice signature 32 64) caps \<and>
      (tx_type w = 0 \<longrightarrow> (155 \<in> set caps) = tx_supports w 155) \<and>
      calculateSigRecovery (if tx_type w = 0 then v else v + 27)
        (if tx_type w = 0 \<and> 155 \<in> set caps then Some (chainIdBN (tx_common w)) else None) = int n"
  proof (cases "tx_type t = 0")
    case True
    then obtain g where g: "tx_payload w = Legacy g" by (auto simp: tx_type_def w split: tx_payload.splits)
    define v where "v = (if tx_supports w 155 then int n + 27 + (chainIdBN (tx_common w) * 2 + 8) else int n + 27)"
    have "tx_supports w 155 = gteHardfork (tx_common t) ''spuriousDragon''"
      using ok True g [unfolded w(4)] by (auto simp: w_def hacked_def sign_hack_def tx_ok_def tx_supports_def)
    moreover have "base_ok w" "0 \<le> g" using ok g w by (auto simp: tx_ok_def)
    ultimately show ?thesis
      using processSignature_legacy [OF _ _ g v_def _ proc] chain n True
      by (intro exI [of _ v] exI conjI) (auto simp: v_def w calculateSigRecovery_def)
  next
    case False
    then have "w = t" by (simp add: w_def hacked_def sign_hack_def)
    then show ?thesis
      using processSignature_typed [OF ok False _ proc [unfolded \<open>w = t\<close>]] False n
      by (auto simp: calculateSigRecovery_def)
  qed
  ultimately show ?thesis
    using signed_sender [OF law sign] by (fastforce simp: with_sig_def w_def hacked_def)
qed

section \<open>A concrete configuration\<close>

text \<open>
  The encoder and decoder of \<open>packages/rlp\<close>, a hash that pads, and a curve with one key: its
  signature of any message is the same, with the recovery bit 1.
\<close>

definition sample_half :: bytes where
  "sample_half = replicate 31 0 @ [5]"

definition sample_tx_cfg :: tx_cfg where
  "sample_tx_cfg = \<lparr>
     txc_data = \<lparr>cd_hardforkChanges = HARDFORK_CHANGES sample_common, cd_eips = EIPs sample_common,
       cd_chains = Map.empty\<rparr>,
     txc_keccak256 = (\<lambda>bs. setLengthLeft bs 32),
     txc_encode = (\<lambda>x. case rlp_encode (as_input x) of Inr b \<Rightarrow> b | Inl e \<Rightarrow> []),
     txc_decode = (\<lambda>b. case rlp_decode (In_bytes b) False of
        Inr (Data x) \<Rightarrow> Inr x | Inr (Stream x r) \<Rightarrow> Inr x | Inl e \<Rightarrow> Inl e),
     txc_sign = (\<lambda>msg key. Inr (sample_half @ sample_half, 1)),
     txc_recover = (\<lambda>signature n msg. if signature = sample_half @ sample_half \<and> n = 1 then Some (replicate 64 6) else None)\<rparr>"

definition london_common :: common where
  "london_common = sample_common\<lparr>
     HARDFORK_CHANGES := [(''london'', \<lparr>hfc_name = ''london'', hfc_eips = Some [1559, 2930],
       hfc_topics = Map.empty, hfc_consensus = None\<rparr>)],
     hardforks := [\<lparr>hf_name = ''homestead'', hf_block = Some 0, hf_td = None\<rparr>,
       \<lparr>hf_name = ''spuriousDragon'', hf_block = Some 1, hf_td = None\<rparr>,
       \<lparr>hf_name = ''london'', hf_block = Some 2, hf_td = None\<rparr>],
     cur_hardfork := ''london''\<rparr>"

definition sample_input :: tx_input where
  "sample_input = no_data\<lparr>td_nonce := [7], td_gasLimit := [1, 244], td_to := replicate 20 1,
     td_value := [1, 0], td_data := [0, 255], td_v := [1], td_r := [9], td_s := [8],
     td_maxPriorityFeePerGas := [3], td_maxFeePerGas := [2, 0],
     td_chainId := Some 1\<rparr>"

definition sample_tx :: transaction where
  "sample_tx = \<lparr>tx_nonce = 7, tx_gasLimit = 500, tx_to = Some (replicate 20 1), tx_value = 256,
     tx_data = [0, 255], tx_v = Some 1, tx_r = Some 9,
     tx_s = Some 8, tx_common = london_common,
     tx_capabilities = [1559, 2718, 2930],
     tx_payload = FeeMarketEIP1559 1 3 512 []\<rparr>"

lemma london_active [simp]:
  "isActivatedEIP london_common 1559" "\<not> isActivatedEIP london_common 3860"
  "gteHardfork london_common ''homestead''" "gteHardfork london_common ''spuriousDragon''"
  "chainIdBN london_common = 1"
  by (simp_all add: london_common_def isActivatedEIP_def sample_common_def gteHardfork_def
      hardforkGteHardfork_def chooseHardfork_def Let_def)

lemma sample_tx_made: "factory_fromTxData sample_tx_cfg (Some 2) sample_input (Some london_common) = Inr sample_tx"
proof -
  have base: "new_base sample_input = Inr (base_tx.truncate sample_tx)" by code_simp
  have "base_tx.extend (base_tx.truncate sample_tx) (transaction.fields london_common [1559, 2718, 2930]
      (FeeMarketEIP1559 1 3 512 (td_accessList sample_input))) = sample_tx"
    by (simp add: sample_tx_def sample_input_def no_data_def base_tx.truncate_def base_tx.extend_def
        transaction.fields_def)
  moreover have "bn_of_bytes [3] = 3" "bn_of_bytes [2, 0] = 512" by code_simp+
  moreover have "8 \<le> N_DIV_2" "500 * 512 \<le> MAX_INTEGER" "(512 :: int) \<le> MAX_INTEGER" "(3 :: int) \<le> MAX_INTEGER"
    by code_simp+
  moreover have "verifyAccessList (td_accessList sample_input) = Inr ()" by code_simp
  moreover have "typed_checks london_common (base_tx.truncate sample_tx) = Inr ()"
    using \<open>8 \<le> N_DIV_2\<close>
    by (simp add: typed_checks_def sample_tx_def base_tx.truncate_def)
  moreover have "td_chainId sample_input = Some 1" "td_maxFeePerGas sample_input = [2, 0]"
    "td_maxPriorityFeePerGas sample_input = [3]" "tx_gasLimit (base_tx.truncate sample_tx) = 500"
    by (simp_all add: sample_input_def no_data_def sample_tx_def base_tx.truncate_def)
  ultimately show ?thesis
    by (simp add: factory_fromTxData_def new_eip1559_def base getCommon_def)
qed

text \<open>The witnesses: the transaction of the configuration is bounded, read back and signed.\<close>

theorem transactions_bounded_witness: "tx_ok sample_tx"
  using transactions_bounded [of sample_tx_cfg "Some 2" sample_input "Some london_common" sample_tx]
    sample_tx_made by simp

lemma sample_codec:
  assumes "length (concat (map rlp_enc xs)) < 56"
  shows "txc_encode sample_tx_cfg (Items xs) = of_nat (length (concat (map rlp_enc xs)) + 192) # concat (map rlp_enc xs)"
    "txc_decode sample_tx_cfg (txc_encode sample_tx_cfg (Items xs)) = Inr (Items xs)"
proof -
  have len: "length (rlp_enc (Items xs)) < 256 ^ 8"
    using assms by (simp add: rlp_header_def)
  then have enc: "txc_encode sample_tx_cfg (Items xs) = rlp_enc (Items xs)"
    using rlp_encode_enc [OF len] by (simp add: sample_tx_cfg_def)
  with assms show "txc_encode sample_tx_cfg (Items xs) = of_nat (length (concat (map rlp_enc xs)) + 192) # concat (map rlp_enc xs)"
    by (simp add: rlp_header_def)
  have "rlp_decode (In_bytes (rlp_enc (Items xs))) False = Inr (Data (Items xs))"
    using decode1_enc [OF len, of "[]"] rlp_enc_nonempty [of "Items xs"]
    by (simp add: rlp_decode_def empty_input_def toBytes_def)
  then show "txc_decode sample_tx_cfg (txc_encode sample_tx_cfg (Items xs)) = Inr (Items xs)"
    by (simp only: enc) (simp add: sample_tx_cfg_def)
qed

lemma sample_raw:
  "tx_raw sample_tx = map Item [[1], [7], [3], [2, 0], [1, 244], replicate 20 1, [1, 0], [0, 255]] @
     [Items [], Item [1], Item [9], Item [8]]"
proof -
  have "bnToUnpaddedBuffer 1 = [1]" "bnToUnpaddedBuffer 7 = [7]" "bnToUnpaddedBuffer 3 = [3]"
    "bnToUnpaddedBuffer 512 = [2, 0]" "bnToUnpaddedBuffer 500 = [1, 244]"
    "bnToUnpaddedBuffer 256 = [1, 0]" "bnToUnpaddedBuffer 9 = [9]" "bnToUnpaddedBuffer 8 = [8]"
    by code_simp+
  then show ?thesis
    by (simp add: tx_raw_defs sample_tx_def bn_item_def opt_item_def to_item_def access_list_rlp_def)
qed


definition unsigned_tx :: transaction where
  "unsigned_tx = sample_tx\<lparr>tx_v := None, tx_r := None, tx_s := None, tx_capabilities := [155],
     tx_payload := Legacy 20\<rparr>"

theorem sign_recovers_sender_witness:
  "\<exists>t'. tx_sign sample_tx_cfg (replicate 32 1) unsigned_tx = (Inr t', unsigned_tx) \<and>
     getSenderPublicKey sample_tx_cfg t' = Inr (replicate 64 6)"
proof -
  define td where "td = (signed_data unsigned_tx 38 sample_half sample_half)\<lparr>td_gasPrice := [20]\<rparr>"
  have td: "td = no_data\<lparr>td_nonce := [7], td_gasLimit := [1, 244], td_to := replicate 20 1,
      td_value := [1, 0], td_data := [0, 255], td_v := [38], td_r := [5],
      td_s := [5], td_gasPrice := [20]\<rparr>"
  proof -
    have "toArrayLike_min 7 = [7]" "toArrayLike_min 500 = [1, 244]" "toArrayLike_min 256 = [1, 0]"
      "toArrayLike_min 38 = [38]" "toArrayLike_min 5 = [5]" "bn_of_bytes sample_half = 5"
      by code_simp+
    then show ?thesis by (simp add: td_def signed_data_def unsigned_tx_def sample_tx_def)
  qed
  obtain b where b: "new_base td = Inr b" "tx_v b = Some 38" "tx_gasLimit b = 500"
  proof -
    have "case new_base td of Inr b \<Rightarrow> tx_v b = Some 38 \<and> tx_gasLimit b = 500 | Inl e \<Rightarrow> False"
      unfolding td by code_simp
    then show ?thesis using that by (auto split: sum.splits)
  qed
  have num: "toArrayLike_min 20 = [20]" "bn_of_bytes [20] = 20" "10000 \<le> MAX_INTEGER" "(20 :: int) \<le> MAX_INTEGER"
    by code_simp+
  have caps: "tx_common unsigned_tx = london_common" "tx_supports unsigned_tx 155"
    "tx_payload unsigned_tx = Legacy 20" "td_gasPrice td = [20]"
    by (simp_all add: unsigned_tx_def sample_tx_def tx_supports_def td_def)
  have "\<exists>t'. new_legacy sample_tx_cfg td (Some london_common) = Inr t'"
    using num by (simp add: new_legacy_def b validateTxV_def getCommon_def caps)
  then have "\<exists>t'. processSignature sample_tx_cfg unsigned_tx 28 sample_half sample_half = Inr t'"
    by (simp add: processSignature_defs caps num td_def)
  moreover have "ecsign (txc_sign sample_tx_cfg) m (replicate 32 1) =
      Inr \<lparr>sig_v = 28, sig_r = sample_half, sig_s = sample_half\<rparr>" for m
    by (simp add: ecsign_def sample_tx_cfg_def slice_def sample_half_def)
  ultimately obtain t' u where run: "tx_sign sample_tx_cfg (replicate 32 1) unsigned_tx = (Inr t', u)"
    using caps(2) by (auto simp: tx_sign_def Let_def)
  have "signs_for sample_tx_cfg (replicate 32 1) (replicate 64 6)"
  proof -
    have "bn_of_bytes (slice (sample_half @ sample_half) 32 64) \<le> N_DIV_2" by code_simp
    then show ?thesis by (simp add: signs_for_def sample_tx_cfg_def sample_half_def)
  qed
  moreover have "tx_ok unsigned_tx" "tx_common unsigned_tx = london_common"
    using transactions_bounded_witness
    by (simp_all add: tx_ok_def base_ok_def unsigned_tx_def sample_tx_def MAX_INTEGER_def)
  ultimately show ?thesis
    using sign_recovers_sender [OF _ _ _ run, of "replicate 64 6"] run by auto
qed

end
