(* ===== verification/Run_Tx_Proofs.thy ===== *)
theory Run_Tx_Proofs
  imports Run_Tx Message_Rollback State_Accounts Tx_Proofs
begin

text \<open>
  What running a transaction promises: a transaction that is refused leaves the accounts and the code
  as they were, whatever checkpoints are open around it, and the settlement takes from the sender
  what the miner gets.
\<close>

section \<open>A message keeps the checkpoints around it\<close>

definition ev_keeps :: "evm \<Rightarrow> evm \<Rightarrow> bool" where
  "ev_keeps s t \<longleftrightarrow> acct_keeps (ev_state s) (ev_state t)"

interpretation evk: step_rel ev_keeps is_vm
  by unfold_locales (auto simp: ev_keeps_def intro: ak.R_refl ak.R_trans)

lemma world_state:
  "world_checkpoint s = (Inr (), t) \<Longrightarrow> sm_checkpoint (ev_state s) = (Inr (), ev_state t)"
  "world_commit s = (Inr (), t) \<Longrightarrow> sm_commit (ev_state s) = (Inr (), ev_state t)"
  "world_revert s = (Inr (), t) \<Longrightarrow> sm_revert (ev_state s) = (Inr (), ev_state t)"
  by (auto simp: world_checkpoint_def world_commit_def world_revert_def andthen_def bnd_def zoom_def
      split: prod.splits sum.splits)

lemma ev_rel_intro:
  assumes "\<And>m s q t. exec m s = (q, t) \<Longrightarrow> (\<And>e. q = Inl e \<Longrightarrow> is_vm e) \<Longrightarrow> ev_keeps s t"
  shows "world_rel vm exec ev_keeps"
  by unfold_locales
    (use assms sm_writes_acct in \<open>auto simp: ev_keeps_def intro: ak.R_refl ak.R_trans\<close>)

lemma execute_with_accounts:
  assumes w: "world_rel vm exec ev_keeps"
    and run: "execute_with vm cx exec m0 s = (Inr (result, sd), t)"
  shows "ev_keeps s t"
proof -
  obtain m s1 s2 s3 r where p: "warm_created vm m0 s = (Inr m, s1)"
    "world_checkpoint s1 = (Inr (), s2)" "message_body vm cx exec m s2 = (Inr (r, sd), s3)"
    "close_message vm (ev_refund s1) r s3 = (Inr result, t)"
    using execute_with_parts [OF run] .
  have s1: "ev_keeps s s1"
    using world_rel.warm_created_kept [OF w] p(1) by (rule evk.keeps_step) simp
  have s3: "ev_keeps s2 s3"
    using world_rel.message_body_kept [OF w] p(3) by (rule evk.keeps_step) simp
  let ?err = "x_exceptionError (g_execResult r)"
  have close: "sm_revert (ev_state s3) = (Inr (), ev_state t) \<or> sm_commit (ev_state s3) = (Inr (), ev_state t)"
    using close_message_parts(2,3) [OF p(4)]
    by (cases "message_fails vm ?err") (auto dest!: world_state(2,3) split: if_splits)
  show ?thesis
    unfolding ev_keeps_def acct_keeps_def
  proof
    assume inv: "acct_inv (ev_state s)"
    then have i1: "acct_inv (ev_state s1)" "acct_saved (ev_state s1) = acct_saved (ev_state s)"
      using s1 by (simp_all add: ev_keeps_def acct_keeps_def)
    have i2: "acct_inv (ev_state s2)" "acct_saved (ev_state s2) = acct_cur (ev_state s1) # acct_saved (ev_state s1)"
      using accounts.checkpoint_ok [OF i1(1)] world_state(1) [OF p(2)] by auto
    have i3: "acct_inv (ev_state s3)" "acct_saved (ev_state s3) = acct_cur (ev_state s1) # acct_saved (ev_state s1)"
      using s3 i2 by (simp_all add: ev_keeps_def acct_keeps_def)
    show "acct_inv (ev_state t) \<and> acct_saved (ev_state t) = acct_saved (ev_state s)"
      using close accounts.commit_ok [OF i3] accounts.revert_ok [OF i3] i1 by auto
  qed
qed

lemma executeMessage_accounts: "world_rel vm (executeMessage vm cx n) ev_keeps"
proof (induction n)
  case 0
  show ?case by (rule ev_rel_intro) (simp add: raise_def)
next
  case (Suc n)
  show ?case
  proof (rule ev_rel_intro)
    fix m s q t
    assume run: "executeMessage vm cx (Suc n) m s = (q, t)" and q: "\<And>e. q = Inl e \<Longrightarrow> is_vm e"
    show "ev_keeps s t"
    proof (cases q)
      case (Inl e)
      with run q executeMessage_no_vm [of vm cx "Suc n" m] show ?thesis
        by (auto simp: no_vm_def)
    next
      case (Inr x)
      then show ?thesis
        using execute_with_accounts [OF Suc.IH, of cx m s "fst x" "snd x" t] run by auto
    qed
  qed
qed

lemma run_message_accounts:
  assumes "run_message vm w opts t caller g price s = (Inr results, s')"
  shows "acct_keeps s s'"
proof -
  let ?ev = "\<lparr>ev_state = s, ev_refund = 0, ev_transientStorage = new_transient_storage\<rparr>"
  obtain m sd ev where "executeMessage vm (tx_context w opts caller price) (w_depth w) m ?ev =
      (Inr (results, sd), ev)" "ev_state ev = s'"
    using assms
    by (auto simp: run_message_def bnd_def of_sum_def split: prod.splits sum.splits)
  then show ?thesis
    using world_rel.W_exec [OF executeMessage_accounts, of vm "tx_context w opts caller price" "w_depth w" m ?ev]
    by (auto simp: ev_keeps_def)
qed

section \<open>The steps of a transaction\<close>

lemma acct_clear: "ak.keeps sm_clearOriginalStorageCache"
  unfolding sm_clearOriginalStorageCache_def
  by (rule ak.keeps_modif)
    (auto simp: acct_keeps_def acct_inv_def acct_saved_def sm_inv_def sm_saved_def)

lemma clear_warmed_keeps: "ak.keeps (clear_warmed vm)"
  unfolding clear_warmed_def by (intro ak.keeps_rules acct_warm)

lemma warm_tx_keeps: "ak.keeps (warm_tx vm opts t caller)"
  unfolding warm_tx_def by (intro ak.keeps_rules acct_warm)

lemma prologue_keeps: "ak.keeps (tx_prologue vm w opts t)"
  unfolding tx_prologue_def Let_def
  by (intro ak.keeps_rules acct_kept warm_tx_keeps)

lemma settle_keeps: "ak.keeps (settle vm opts t caller price fee gasUsed)"
  unfolding settle_def add_balance_def Let_def by (intro ak.keeps_rules acct_kept)

text \<open>Receipts that hold a status do not look at the state.\<close>

definition status_receipts :: "vm \<Rightarrow> transaction \<Rightarrow> bool" where
  "status_receipts vm t \<longleftrightarrow> tx_supports t 2718 \<or> vm_gteHardfork vm ''byzantium''"

lemma epilogue_keeps:
  assumes "status_receipts vm t"
  shows "ak.keeps (tx_epilogue vm w opts t caller price fee results)"
proof -
  have "ak.keeps (generateTxReceipt vm t results bloom g)" for bloom g
    using assms by (auto simp: generateTxReceipt_def status_receipts_def Let_def intro: ak.keeps_ret)
  then show ?thesis
    unfolding tx_epilogue_def delete_destructed_def Let_def
    by (intro ak.keeps_rules acct_kept settle_keeps acct_clear)
qed

section \<open>A transaction that is refused\<close>

text \<open>
  Whether an error escapes from the message itself. The EVM turns its own errors into results; what
  is left are errors of JavaScript, and then the checkpoints of the message are still open.
\<close>

definition message_escapes ::
  "vm \<Rightarrow> tx_world \<Rightarrow> run_tx_opts \<Rightarrow> transaction \<Rightarrow> state_manager \<Rightarrow> bool" where
  "message_escapes vm w opts t s =
     (case tx_prologue vm w opts t s of
        (Inl e, s') \<Rightarrow> False
      | (Inr (caller, gasLimit, price, fee), s') \<Rightarrow>
          isl (fst (run_message vm w opts t caller gasLimit price s')))"

text \<open>The state when \<open>_runTx\<close> is called.\<close>

definition tx_start :: "vm \<Rightarrow> transaction \<Rightarrow> state_manager \<Rightarrow> (exn + unit) \<times> state_manager" where
  "tx_start vm t = andthen (clear_warmed vm) (andthen sm_checkpoint (typed_setup vm t))"

lemma inner_keeps:
  assumes "run_tx_inner vm w opts t s = (r, s')" "status_receipts vm t" "\<not> message_escapes vm w opts t s"
  shows "acct_keeps s s'"
proof -
  obtain q s1 where q: "tx_prologue vm w opts t s = (q, s1)" by force
  have k1: "acct_keeps s s1" using ak_step [OF prologue_keeps q] .
  show ?thesis
  proof (cases q)
    case (Inl e)
    then show ?thesis using assms(1) q k1 by (simp add: run_tx_inner_def bnd_def)
  next
    case (Inr x)
    obtain caller g price fee where x: "x = (caller, g, price, fee)" by (cases x) auto
    obtain results s2 where m: "run_message vm w opts t caller g price s1 = (Inr results, s2)"
      using assms(3) q Inr x
      by (cases "run_message vm w opts t caller g price s1"; cases "fst (run_message vm w opts t caller g price s1)")
        (auto simp: message_escapes_def)
    have "tx_epilogue vm w opts t caller price fee results s2 = (r, s')"
      using assms(1) q Inr x m by (simp add: run_tx_inner_def bnd_def)
    then have "acct_keeps s2 s'" using ak_step [OF epilogue_keeps [OF assms(2)]] by blast
    then show ?thesis using k1 run_message_accounts [OF m] ak.R_trans by blast
  qed
qed

lemma inner_sender:
  "run_tx_inner vm w opts t s = (Inr result, s') \<Longrightarrow> \<exists>a. getSenderAddress (w_cfg w) t = Inr a"
  by (cases "getSenderAddress (w_cfg w) t")
    (auto simp: run_tx_inner_def tx_prologue_def bnd_def of_sum_def)

lemma report_access_result:
  "\<exists>a. getSenderAddress (w_cfg w) t = Inr a \<Longrightarrow>
   \<exists>result'. report_access vm w opts t result s = (Inr result', s)"
  by (auto simp: report_access_def eff_defs Let_def)

text \<open>A state that has the accounts, the code and the open checkpoints of another.\<close>

definition same_accounts :: "state_manager \<Rightarrow> state_manager \<Rightarrow> bool" where
  "same_accounts s t \<longleftrightarrow> acct_inv t \<and> acct_cur t = acct_cur s \<and> acct_saved t = acct_saved s"

lemma same_accounts_trans: "same_accounts s t \<Longrightarrow> same_accounts t u \<Longrightarrow> same_accounts s u"
  by (simp add: same_accounts_def)

lemma plain_same: "same_plain s t \<Longrightarrow> acct_inv s \<Longrightarrow> same_accounts s t"
  using acct_plain_cong [of t s] by (simp add: same_plain_def same_accounts_def)

lemma pk_step: "pk.keeps m \<Longrightarrow> m s = (r, s') \<Longrightarrow> same_plain s s'"
  using pk.keeps_step [of m s r s'] by simp

lemma clear_warmed_ok: "\<exists>s'. clear_warmed vm s = (Inr (), s') \<and> same_plain s s'"
  by (auto simp: clear_warmed_def clearWarmedAccounts_def eff_defs same_plain_def plain_eq_iff)

lemma warm_list_plain: "pk.keeps (warm_list l)"
  unfolding warm_list_def by (intro pk.keeps_rules warm_plain)

lemma revert_and_throw_ok:
  assumes "acct_inv s" "acct_saved s = v # vs"
  shows "\<exists>s'. revert_and_throw e s = (Inl e, s') \<and> acct_inv s' \<and> acct_cur s' = v \<and> acct_saved s' = vs"
  using accounts.revert_ok [OF assms]
  by (auto simp: revert_and_throw_def andthen_def bnd_def raise_def)

text \<open>Warming does not throw when there is a frame to put the address in.\<close>

definition warms :: "(state_manager, unit) eff \<Rightarrow> bool" where
  "warms m \<longleftrightarrow> (\<forall>s. sm_accessedStorage s \<noteq> [] \<longrightarrow>
     (\<exists>s'. m s = (Inr (), s') \<and> sm_accessedStorage s' \<noteq> []))"

lemma warms_step: "warms m \<Longrightarrow> sm_accessedStorage s \<noteq> [] \<Longrightarrow>
    \<exists>s'. m s = (Inr (), s') \<and> sm_accessedStorage s' \<noteq> []"
  by (simp add: warms_def)

lemma warms_andthen: "warms m \<Longrightarrow> warms n \<Longrightarrow> warms (andthen m n)"
  unfolding warms_def andthen_def bnd_def by fastforce

lemma warms_for_each: "(\<And>x. warms (f x)) \<Longrightarrow> warms (for_each xs f)"
  by (induction xs) (auto simp: warms_andthen, simp add: warms_def ret_def)

lemma warms_upd_top: "warms (upd_top g)"
  by (auto simp: warms_def upd_top_def eff_defs split: list.split)

lemma warms_list: "warms (warm_list l)"
  unfolding warm_list_def addWarmedAddress_def addWarmedStorage_def
  by (auto intro!: warms_for_each warms_andthen warms_upd_top)

lemma checkpoint_frames: "sm_checkpoint s = (Inr (), s') \<Longrightarrow> sm_accessedStorage s' \<noteq> []"
  by (auto simp: sm_checkpoint_def base_checkpoint_def eff_defs split: prod.splits sum.splits)

text \<open>The setup of a typed transaction throws with its checkpoint taken back, or warms addresses.\<close>

lemma typed_setup_cases:
  "typed_setup vm t = ret () \<or> (\<exists>e. typed_setup vm t = revert_and_throw e) \<or>
   typed_setup vm t = warm_list (tx_accessList t)"
  by (auto simp: typed_setup_def when_eff_def)

lemma typed_setup_ok:
  assumes "acct_inv s" "acct_saved s = v # vs" "sm_accessedStorage s \<noteq> []"
  shows "(\<exists>s'. typed_setup vm t s = (Inr (), s') \<and> same_accounts s s') \<or>
    (\<exists>e s'. typed_setup vm t s = (Inl e, s') \<and> acct_inv s' \<and> acct_cur s' = v \<and> acct_saved s' = vs)"
proof -
  note rev = revert_and_throw_ok [OF assms(1,2)]
  obtain u where u: "warm_list (tx_accessList t) s = (Inr (), u)" "same_accounts s u"
    using warms_step [OF warms_list assms(3)] plain_same [OF pk_step [OF warm_list_plain] assms(1)] by blast
  have refl: "same_accounts s s" using assms(1) by (simp add: same_accounts_def)
  from typed_setup_cases [of vm t] consider "typed_setup vm t = ret ()" |
    e where "typed_setup vm t = revert_and_throw e" | "typed_setup vm t = warm_list (tx_accessList t)"
    by blast
  then show ?thesis
  proof cases
    case 1
    then have "typed_setup vm t s = (Inr (), s)" by (simp add: ret_def)
    then show ?thesis using refl by blast
  next
    case (2 e)
    then show ?thesis using rev [of e] by auto
  next
    case 3
    then show ?thesis using u by auto
  qed
qed

text \<open>What \<open>catch\<close> and \<open>finally\<close> leave of a transaction that throws.\<close>

lemma guarded_failure:
  assumes run: "finally_do (try_catch (bnd m (\<lambda>x. andthen sm_commit (k x))) revert_and_throw) (clear_warmed vm) s =
      (Inl e, t)"
    and inv: "acct_inv s" "acct_saved s = v # vs"
    and m: "\<And>r s'. m s = (r, s') \<Longrightarrow> acct_keeps s s'"
    and k: "\<And>x s' u. m s = (Inr x, s') \<Longrightarrow> \<exists>y. k x u = (Inr y, u)"
  shows "acct_inv t \<and> acct_cur t = v \<and> acct_saved t = vs"
proof -
  obtain r s' where r: "m s = (r, s')" by force
  have i': "acct_inv s'" "acct_saved s' = v # vs"
    using m [OF r] inv by (simp_all add: acct_keeps_def)
  obtain q u where q: "try_catch (bnd m (\<lambda>x. andthen sm_commit (k x))) revert_and_throw s = (q, u)" by force
  obtain t' where t': "clear_warmed vm u = (Inr (), t')" "same_plain u t'"
    using clear_warmed_ok by blast
  have qt: "q = Inl e" "t' = t" using run q t'(1) by (auto simp: finally_do_def)
  have "acct_inv u \<and> acct_cur u = v \<and> acct_saved u = vs"
  proof (cases r)
    case (Inl x)
    then have "revert_and_throw x s' = (q, u)" using q r by (simp add: try_catch_def bnd_def)
    then show ?thesis using revert_and_throw_ok [OF i', of x] by (metis prod.inject)
  next
    case (Inr x)
    obtain c where c: "sm_commit s' = (Inr (), c)" using accounts.commit_ok [OF i'] by blast
    obtain y where "k x c = (Inr y, c)" using k r Inr by blast
    then have "q = Inr y" using q r Inr c by (auto simp: try_catch_def bnd_def andthen_def)
    then show ?thesis using qt by simp
  qed
  then show ?thesis using plain_same [OF t'(2)] qt by (simp add: same_accounts_def)
qed

lemma runTx_start:
  "runTx vm w opts t s =
     (if o_skipBlockGasLimitValidation opts \<or> \<not> h_gasLimit (o_block opts) < tx_gasLimit t
      then bnd (tx_start vm t) (\<lambda>_. finally_do
        (try_catch (bnd (run_tx_inner vm w opts t) (\<lambda>result. andthen sm_commit (report_access vm w opts t result)))
          revert_and_throw) (clear_warmed vm)) s
      else (Inl (JsError ''tx has a higher gas limit than the block''), s))"
  by (simp add: runTx_def tx_start_def guard_eff_def andthen_def bnd_assoc) (simp add: raise_def)

lemma runTx_failure:
  assumes "runTx vm w opts t s = (Inl e, s')" "acct_inv s" "status_receipts vm t"
    and "\<And>s1. tx_start vm t s = (Inr (), s1) \<Longrightarrow> \<not> message_escapes vm w opts t s1"
  shows "acct_cur s' = acct_cur s \<and> acct_saved s' = acct_saved s \<and> acct_inv s'"
proof (cases "o_skipBlockGasLimitValidation opts \<or> \<not> h_gasLimit (o_block opts) < tx_gasLimit t")
  case True
  obtain s1 where s1: "clear_warmed vm s = (Inr (), s1)" "same_plain s s1" using clear_warmed_ok by blast
  then have i1: "same_accounts s s1" using plain_same assms(2) by blast
  then obtain s2 where s2: "sm_checkpoint s1 = (Inr (), s2)" "acct_inv s2"
    "acct_saved s2 = acct_cur s # acct_saved s"
    using accounts.checkpoint_ok [of s1] by (auto simp: same_accounts_def)
  have start: "tx_start vm t s = typed_setup vm t s2"
    using s1 s2 by (simp add: tx_start_def andthen_def bnd_def)
  from typed_setup_ok [OF s2(2,3) checkpoint_frames [OF s2(1)], of vm t] show ?thesis
  proof (elim disjE exE conjE)
    fix s3
    assume s3: "typed_setup vm t s2 = (Inr (), s3)" "same_accounts s2 s3"
    let ?k = "report_access vm w opts t"
    have run: "finally_do (try_catch (bnd (run_tx_inner vm w opts t) (\<lambda>x. andthen sm_commit (?k x)))
        revert_and_throw) (clear_warmed vm) s3 = (Inl e, s')"
      using assms(1) True start s3(1) by (simp add: runTx_start bnd_def)
    have i3: "acct_inv s3" "acct_saved s3 = acct_cur s # acct_saved s"
      using s3(2) s2 by (simp_all add: same_accounts_def)
    have "\<not> message_escapes vm w opts t s3" using assms(4) start s3(1) by simp
    then have "acct_inv s' \<and> acct_cur s' = acct_cur s \<and> acct_saved s' = acct_saved s"
      using guarded_failure [OF run i3] inner_keeps [OF _ assms(3)]
        report_access_result [OF inner_sender] by blast
    then show ?thesis by blast
  next
    fix e' s3
    assume "typed_setup vm t s2 = (Inl e', s3)" "acct_inv s3" "acct_cur s3 = acct_cur s" "acct_saved s3 = acct_saved s"
    then show ?thesis using assms(1) True start by (simp add: runTx_start bnd_def)
  qed
next
  case False
  then show ?thesis using assms(1,2) by (simp add: runTx_start)
qed

lemma guarded_success:
  assumes run: "finally_do (try_catch (bnd m (\<lambda>x. andthen sm_commit (k x))) revert_and_throw) (clear_warmed vm) s =
      (Inr y, t)"
    and inv: "acct_inv s" "acct_saved s = v # vs"
    and m: "\<And>r s'. m s = (r, s') \<Longrightarrow> acct_keeps s s'"
    and k: "\<And>x u. \<exists>q. k x u = (q, u)"
  shows "acct_inv t \<and> acct_saved t = vs"
proof -
  obtain r s' where r: "m s = (r, s')" by force
  have i': "acct_inv s'" "acct_saved s' = v # vs"
    using m [OF r] inv by (simp_all add: acct_keeps_def)
  obtain q u where q: "try_catch (bnd m (\<lambda>x. andthen sm_commit (k x))) revert_and_throw s = (q, u)" by force
  obtain t' where t': "clear_warmed vm u = (Inr (), t')" "same_plain u t'" using clear_warmed_ok by blast
  have qt: "q = Inr y" "t' = t" using run q t'(1) by (auto simp: finally_do_def)
  have thrown: "revert_and_throw e s' \<noteq> (Inr y, u)" for e s'
    by (auto simp: revert_and_throw_def eff_defs split: prod.splits sum.splits)
  obtain x where x: "r = Inr x"
    using q r qt(1) thrown by (cases r) (auto simp: try_catch_def bnd_def)
  obtain c where c: "sm_commit s' = (Inr (), c)" "acct_inv c" "acct_saved c = vs"
    using accounts.commit_ok [OF i'] by blast
  obtain q' where q': "k x c = (q', c)" using k by blast
  have "u = c"
    using q r x c(1) q' qt(1) thrown by (cases q') (auto simp: try_catch_def bnd_def andthen_def)
  then show ?thesis using plain_same [OF t'(2)] qt(2) c(2,3) by (auto simp: same_accounts_def)
qed

text \<open>A transaction that is run leaves the checkpoints around it as they were.\<close>

lemma runTx_success:
  assumes "runTx vm w opts t s = (Inr x, s')" "acct_inv s" "status_receipts vm t"
    and "\<And>s1. tx_start vm t s = (Inr (), s1) \<Longrightarrow> \<not> message_escapes vm w opts t s1"
  shows "acct_saved s' = acct_saved s \<and> acct_inv s'"
proof -
  have gas: "o_skipBlockGasLimitValidation opts \<or> \<not> h_gasLimit (o_block opts) < tx_gasLimit t"
    using assms(1) by (simp add: runTx_start split: if_splits)
  obtain s1 where s1: "clear_warmed vm s = (Inr (), s1)" "same_plain s s1" using clear_warmed_ok by blast
  then have i1: "same_accounts s s1" using plain_same assms(2) by blast
  then obtain s2 where s2: "sm_checkpoint s1 = (Inr (), s2)" "acct_inv s2"
    "acct_saved s2 = acct_cur s # acct_saved s"
    using accounts.checkpoint_ok [of s1] by (auto simp: same_accounts_def)
  have start: "tx_start vm t s = typed_setup vm t s2"
    using s1 s2 by (simp add: tx_start_def andthen_def bnd_def)
  obtain s3 where s3: "typed_setup vm t s2 = (Inr (), s3)"
    using assms(1) gas start by (auto simp: runTx_start bnd_def split: prod.splits sum.splits)
  then have i3: "same_accounts s2 s3"
    using typed_setup_ok [OF s2(2,3) checkpoint_frames [OF s2(1)], of vm t] by auto
  have run: "finally_do (try_catch (bnd (run_tx_inner vm w opts t) (\<lambda>x. andthen sm_commit (report_access vm w opts t x)))
      revert_and_throw) (clear_warmed vm) s3 = (Inr x, s')"
    using assms(1) gas start s3 by (simp add: runTx_start bnd_def)
  have "\<not> message_escapes vm w opts t s3" using assms(4) start s3 by simp
  moreover have "\<exists>q. report_access vm w opts t x u = (q, u)" for x u
    by (auto simp: report_access_def eff_defs Let_def split: sum.split)
  ultimately show ?thesis
    using guarded_success [OF run _ _ inner_keeps [OF _ assms(3)]] i3 s2 by (auto simp: same_accounts_def)
qed

lemma runTx_keeps:
  assumes "runTx vm w opts t s = (r, s')" "status_receipts vm t"
    and "\<And>s1. tx_start vm t s = (Inr (), s1) \<Longrightarrow> \<not> message_escapes vm w opts t s1"
  shows "acct_keeps s s'"
  using runTx_failure [of vm w opts t s _ s'] runTx_success [of vm w opts t s _ s'] assms
  by (cases r) (auto simp: acct_keeps_def)

text \<open>C28. A transaction that is refused (a check fails, or an error is thrown while it is settled) leaves
  every account and all code as they were, and the checkpoints that were open around it. The message
  itself is run to a result: an error that escapes from it is excluded, as the code then takes back the
  innermost of several open checkpoints only. And the receipt holds a status (a typed transaction, or Byzantium and later):
  an older one holds the state root, for which the cache is flushed inside the checkpoint.\<close>

theorem refused_transaction_restores_accounts:
  assumes "runTx vm w opts t s = (Inl e, s')" "acct_inv s" "status_receipts vm t"
    and "\<And>s1. tx_start vm t s = (Inr (), s1) \<Longrightarrow> \<not> message_escapes vm w opts t s1"
  shows "acct_cur s' = acct_cur s \<and> acct_saved s' = acct_saved s \<and> acct_inv s'"
  using assms by (rule runTx_failure)

section \<open>A transaction that is accepted\<close>

lemma warm_tx_cur:
  assumes "warm_tx vm opts t caller s = (r, s')" "acct_inv s"
  shows "acct_inv s'" "acct_cur s' = acct_cur s"
proof -
  have "pk.keeps (warm_tx vm opts t caller)"
    unfolding warm_tx_def by (intro pk.keeps_rules warm_plain)
  then show "acct_inv s'" "acct_cur s' = acct_cur s"
    using plain_same [OF pk_step assms(2)] assms(1) by (auto simp: same_accounts_def)
qed

text \<open>The parts of a prologue that returns.\<close>

lemma prologue_parts:
  assumes "tx_prologue vm w opts t s = (Inr (caller, gasLimit, price, fee), s')"
  obtains a s1 s2 where "getSenderAddress (w_cfg w) t = Inr caller"
    "warm_tx vm opts t caller s = (Inr (), s1)" "getBaseFee t \<le> tx_gasLimit t"
    "gasLimit = tx_gasLimit t - getBaseFee t" "check_maxFee vm opts t = Inr ()"
    "sm_getAccount caller s1 = (Inr a, s2)" "check_account vm opts t a = Inr ()"
    "effective_price vm opts t = Inr (price, fee)"
    "sm_putAccount caller (buy_gas price t a) s2 = (Inr (), s')"
  using assms
  by (auto simp: tx_prologue_def bnd_def andthen_def of_sum_def guard_eff_def ret_def raise_def Let_def
      split: prod.splits sum.splits if_splits)

lemma upfront_cost:
  assumes "effective_price vm opts t = Inr (price, fee)"
  shows "getUpfrontCost t (case h_baseFeePerGas (o_block opts) of Some b \<Rightarrow> b | None \<Rightarrow> 0) =
    tx_gasLimit t * price + tx_value t"
  using assms
  by (auto simp: effective_price_def getUpfrontCost_defs block_baseFee_def market_fees_def tx_gasPrice_def
      Let_def bindS_def split: if_splits option.splits tx_payload.splits sum.splits)

lemma account_checked:
  assumes "check_account vm opts t a = Inr ()"
  shows "vm_isActivatedEIP vm 3607 \<Longrightarrow> acc_codeHash a = KECCAK256_NULL"
    and "\<not> o_skipNonce opts \<Longrightarrow> acc_nonce a = tx_nonce t"
    and "\<not> o_skipBalance opts \<Longrightarrow>
      getUpfrontCost t (case h_baseFeePerGas (o_block opts) of Some b \<Rightarrow> b | None \<Rightarrow> 0) \<le> acc_balance a"
  using assms
  by (auto simp: check_account_def check_nonce_def check_balance_def bindS_def split: if_splits sum.splits)

text \<open>C29. A transaction gets to its message only with the nonce of its sender's account, from an account
  without code (EIP-3607), with gas for its base fee, and with a balance for all its gas and its value.
  Then the gas is paid for and the nonce has gone up, so that the transaction cannot run again; no other
  account has changed.\<close>

theorem accepted_transaction_pays:
  assumes "tx_prologue vm w opts t s = (Inr (caller, gasLimit, price, fee), s')" "acct_inv s"
    and "\<not> o_skipNonce opts" "\<not> o_skipBalance opts" "0 \<le> tx_value t"
  shows "\<exists>a. account_at s caller = Inr a \<and> acc_nonce a = tx_nonce t \<and>
    (vm_isActivatedEIP vm 3607 \<longrightarrow> acc_codeHash a = KECCAK256_NULL) \<and>
    0 \<le> gasLimit \<and> gasLimit + getBaseFee t = tx_gasLimit t \<and>
    tx_gasLimit t * price + tx_value t \<le> acc_balance a \<and>
    account_at s' caller = Inr (a\<lparr>acc_nonce := tx_nonce t + 1, acc_balance := acc_balance a - tx_gasLimit t * price\<rparr>) \<and>
    (\<forall>b. b \<noteq> caller \<longrightarrow> account_at s' b = account_at s b)"
proof -
  obtain a s1 s2 where p: "getSenderAddress (w_cfg w) t = Inr caller"
    "warm_tx vm opts t caller s = (Inr (), s1)" "getBaseFee t \<le> tx_gasLimit t"
    "gasLimit = tx_gasLimit t - getBaseFee t" "check_maxFee vm opts t = Inr ()"
    "sm_getAccount caller s1 = (Inr a, s2)" "check_account vm opts t a = Inr ()"
    "effective_price vm opts t = Inr (price, fee)"
    "sm_putAccount caller (buy_gas price t a) s2 = (Inr (), s')"
    using prologue_parts [OF assms(1)] .
  note w = warm_tx_cur [OF p(2) assms(2)]
  note g = acct_got [OF p(6) w(1)]
  have a: "account_at s caller = Inr a"
    using g(1) account_at_cong [OF w(2)] by simp
  have cost: "tx_gasLimit t * price + tx_value t \<le> acc_balance a"
    using account_checked(3) [OF p(7) assms(4)] upfront_cost [OF p(8)] by simp
  have nonce: "acc_nonce a = tx_nonce t" using account_checked(2) [OF p(7) assms(3)] .
  have wf: "acc_wf (buy_gas price t a)" "0 \<le> acc_balance (buy_gas price t a)"
    using account_at_wf [OF a] cost assms(5) by (simp_all add: buy_gas_def acc_wf_def)
  have at: "account_at s' b = (if b = caller then Inr (buy_gas price t a) else account_at s b)" for b
    using account_at_put [OF acct_written(4) [OF p(9) g(2)] wf, of b]
      account_at_cong [OF g(3)] account_at_cong [OF w(2)] by simp
  show ?thesis
    using a nonce cost account_checked(1) [OF p(7)] p(3,4) at nonce by (simp add: buy_gas_def)
qed

section \<open>The settlement\<close>

lemma add_balance_ok:
  assumes "add_balance b x s = (r, s')" "acct_inv s" "account_at s b = Inr a" "0 \<le> acc_balance a + x"
  shows "r = Inr () \<and> acct_inv s' \<and>
    (\<forall>c. account_at s' c = (if c = b then Inr (a\<lparr>acc_balance := acc_balance a + x\<rparr>) else account_at s c))"
proof -
  obtain q u where u: "sm_getAccount b s = (q, u)" by force
  note g = acct_got [OF u assms(2)]
  have q: "q = Inr a" using g(1) assms(3) by simp
  let ?a = "a\<lparr>acc_balance := acc_balance a + x\<rparr>"
  have wf: "acc_wf ?a" "0 \<le> acc_balance ?a" using account_at_wf [OF assms(3)] assms(4) by (simp_all add: acc_wf_def)
  have put: "sm_putAccount b ?a u = (r, s')" using assms(1) u q by (simp add: add_balance_def bnd_def)
  note z = acct_written [OF put g(2)]
  show ?thesis
    using account_at_put [OF z(4) wf] z(1,2) account_at_cong [OF g(3)] by simp
qed

text \<open>A loop that deletes accounts leaves nothing in them.\<close>

lemma delete_accounts:
  assumes "for_each as sm_deleteAccount s = (r, s')" "acct_inv s"
  shows "r = Inr () \<and> acct_inv s' \<and>
    (\<forall>c. account_at s' c = (if c \<in> set as then Inr new_account else account_at s c))"
  using assms
proof (induction as arbitrary: s)
  case (Cons a as)
  obtain q u where q: "sm_deleteAccount a s = (q, u)" by force
  note d = acct_delete [OF Cons.prems(2) q]
  have "for_each as sm_deleteAccount u = (r, s')" using Cons.prems(1) q d(1) by (simp add: andthen_def bnd_def)
  from Cons.IH [OF this d(2)] d(4) show ?case by auto
qed (simp add: ret_def)

definition destructed :: "exec_result \<Rightarrow> bytes set" where
  "destructed r = (case x_selfdestruct r of None \<Rightarrow> {} | Some sd \<Rightarrow> fst ` set sd)"

lemma balance_at_Inr [simp]: "account_at s a = Inr x \<Longrightarrow> balance_at s a = acc_balance x"
  by (simp add: balance_at_def)

lemma add_balance_read: "add_balance b x s = (Inr (), s') \<Longrightarrow> acct_inv s \<Longrightarrow> \<exists>a. account_at s b = Inr a"
  by (cases "sm_getAccount b s") (auto simp: add_balance_def bnd_def dest!: acct_got(1) [THEN sym] split: sum.splits)

lemma add_balance_balance:
  assumes "add_balance b x s = (Inr (), s')" "acct_inv s" "0 \<le> x"
  shows "acct_inv s'" "balance_at s' c = balance_at s c + (if c = b then x else 0)"
proof -
  obtain a where a: "account_at s b = Inr a" using add_balance_read [OF assms(1,2)] by blast
  have "0 \<le> acc_balance a + x" using account_at_wf [OF a] assms(3) by simp
  note r = add_balance_ok [OF assms(1,2) a this]
  then show "acct_inv s'" by blast
  show "balance_at s' c = balance_at s c + (if c = b then x else 0)"
    using r a by (auto simp: balance_at_def)
qed

lemma settle_balances:
  assumes run: "settle vm opts t caller price fee gasUsed s = (Inr (), s')" and inv: "acct_inv s"
    and "0 \<le> price" "\<And>x. fee = Some x \<Longrightarrow> 0 \<le> x" "0 \<le> gasUsed" "gasUsed \<le> tx_gasLimit t"
  shows "acct_inv s' \<and> (\<exists>f. miner_fee vm gasUsed price fee = Inr f \<and> (\<forall>b. balance_at s' b = balance_at s b +
    (if b = caller then (tx_gasLimit t - gasUsed) * price else 0) +
    (if b = tx_miner vm (o_block opts) then f else 0)))"
proof -
  let ?x = "tx_gasLimit t * price - gasUsed * price"
  obtain q u where q: "add_balance caller ?x s = (q, u)" by force
  then have 1: "add_balance caller ?x s = (Inr (), u)"
    using run by (cases q) (auto simp: settle_def andthen_def bnd_def)
  have x: "0 \<le> ?x" using assms(3,6) by (simp add: mult_right_mono)
  note b1 = add_balance_balance [OF 1 inv x]
  obtain f where f: "miner_fee vm gasUsed price fee = Inr f" "add_balance (tx_miner vm (o_block opts)) f u = (Inr (), s')"
    using run 1
    by (auto simp: settle_def add_balance_def andthen_def bnd_def of_sum_def split: prod.splits sum.splits)
  have "0 \<le> f"
    using f(1) assms(3-5) by (auto simp: miner_fee_def split: if_splits option.splits)
  note b2 = add_balance_balance [OF f(2) b1(1) this]
  show ?thesis using b2 b1(2) f(1) by (auto simp: algebra_simps)
qed

text \<open>The parts of an epilogue that returns.\<close>

lemma epilogue_parts:
  assumes "tx_epilogue vm w opts t caller price fee results s = (Inr res, s')" "status_receipts vm t"
  obtains s1 s2 s3 where "settle vm opts t caller price fee (charged_gas vm t results) s = (Inr (), s1)"
    "delete_destructed (g_execResult results) s1 = (Inr (), s2)"
    "sm_cleanupTouchedAccounts vm s2 = (Inr (), s3)" "s' = s3\<lparr>sm_originalStorageCache := Map.empty\<rparr>"
    "g_gasUsed res = charged_gas vm t results" "t_amountSpent res = charged_gas vm t results * price"
proof -
  obtain rc where rc: "generateTxReceipt vm t results b g = ret (rc b g)" for b g
    using assms(2) by (fastforce simp: generateTxReceipt_def status_receipts_def Let_def)
  show thesis
    using assms(1) that
    by (auto simp: tx_epilogue_def rc bnd_def andthen_def ret_def Let_def sm_clearOriginalStorageCache_def
        modif_def evm_result.defs run_tx_result.defs split: prod.splits sum.splits)
qed

lemma original_cache_numbers:
  "acct_inv s \<Longrightarrow> acct_inv (s\<lparr>sm_originalStorageCache := m\<rparr>) \<and>
     balance_at (s\<lparr>sm_originalStorageCache := m\<rparr>) = balance_at s"
  by (auto simp: acct_inv_def sm_inv_def balance_at_def account_at_def acct_cur_def drop_warm_def sm_cur_def)

lemma destructed_balances:
  assumes "delete_destructed r s = (q, s')" "acct_inv s"
  shows "acct_inv s' \<and> balance_at s' b = (if b \<in> destructed r then 0 else balance_at s b)"
proof (cases "x_selfdestruct r")
  case None
  then show ?thesis using assms by (auto simp: delete_destructed_def destructed_def ret_def)
next
  case (Some sd)
  then have "for_each (map fst sd) sm_deleteAccount s = (q, s')" using assms(1) by (simp add: delete_destructed_def)
  from delete_accounts [OF this assms(2)] show ?thesis
    using Some by (auto simp: destructed_def balance_at_def new_account_def)
qed

text \<open>C30. The settlement: the sender gets back the gas that was not used at the price it was bought for,
  the miner its fee for the gas that was used, the accounts that destroyed themselves lose what they
  have, and every other balance stays, also when touched accounts that are empty are removed.\<close>

theorem settlement_balances:
  assumes "tx_epilogue vm w opts t caller price fee results s = (Inr res, s')" "acct_inv s"
    and "status_receipts vm t" "0 \<le> price" "\<And>x. fee = Some x \<Longrightarrow> 0 \<le> x"
    and "0 \<le> charged_gas vm t results" "charged_gas vm t results \<le> tx_gasLimit t"
  shows "g_gasUsed res = charged_gas vm t results \<and> t_amountSpent res = charged_gas vm t results * price \<and>
    (\<exists>f. miner_fee vm (charged_gas vm t results) price fee = Inr f \<and> (\<forall>b. balance_at s' b =
      (if b \<in> destructed (g_execResult results) then 0
       else balance_at s b +
         (if b = caller then (tx_gasLimit t - charged_gas vm t results) * price else 0) +
         (if b = tx_miner vm (o_block opts) then f else 0))))"
proof -
  obtain s1 s2 s3 where p: "settle vm opts t caller price fee (charged_gas vm t results) s = (Inr (), s1)"
    "delete_destructed (g_execResult results) s1 = (Inr (), s2)"
    "sm_cleanupTouchedAccounts vm s2 = (Inr (), s3)" "s' = s3\<lparr>sm_originalStorageCache := Map.empty\<rparr>"
    "g_gasUsed res = charged_gas vm t results" "t_amountSpent res = charged_gas vm t results * price"
    using epilogue_parts [OF assms(1,3)] .
  note st = settle_balances [OF p(1) assms(2,4-7)]
  have i1: "acct_inv s1" using st by blast
  note d = destructed_balances [OF p(2) i1]
  have c: "acct_inv s3" "balance_at s3 = balance_at s2"
    using nk.keeps_step [OF cleanup_numbers p(3)] d by (auto simp: same_numbers_def)
  have "balance_at s' = balance_at s2" using original_cache_numbers [OF c(1)] c(2) p(4) by simp
  then show ?thesis using st d p(5,6) by auto
qed

section \<open>The witnesses\<close>

definition plain_vm :: vm where
  "plain_vm = sample_vm\<lparr>vm_isActivatedEIP := (\<lambda>e. False)\<rparr>"

definition sample_world :: tx_world where
  "sample_world = \<lparr>w_cfg = sample_tx_cfg\<lparr>txc_recover := (\<lambda>signature n msg. Some (replicate 64 6))\<rparr>,
     w_blockHash = (\<lambda>n. Inr (replicate 32 0)), w_steps = 10, w_depth = 10, w_precompiles = (\<lambda>n d g. Inl [])\<rparr>"

definition sample_opts :: run_tx_opts where
  "sample_opts = \<lparr>o_block = sample_header, o_blockHeaderGasUsed = 0, o_skipNonce = False, o_skipBalance = False,
     o_skipBlockGasLimitValidation = False, o_reportAccessList = False, o_blockGasUsed = None\<rparr>"

definition signed_tx :: transaction where
  "signed_tx = sample_tx\<lparr>tx_v := Some 27, tx_capabilities := [], tx_payload := Legacy 5\<rparr>"

definition sample_sender :: bytes where
  "sample_sender = replicate 20 6"

definition sample_account :: account where
  "sample_account = new_account\<lparr>acc_nonce := 7, acc_balance := 5000\<rparr>"

definition funded :: state_manager where
  "funded = snd (sm_putAccount sample_sender sample_account new_state_manager)"

lemma funded_account: "acct_inv funded" "acct_saved funded = []"
  "account_at funded b = (if b = sample_sender then Inr sample_account else account_at new_state_manager b)"
proof -
  obtain r where put: "sm_putAccount sample_sender sample_account new_state_manager = (r, funded)"
    unfolding funded_def by (metis prod.collapse)
  note n = sm_inv_plain [OF new_state_manager_inv]
  note w = acct_written [OF put n(1)]
  show "acct_inv funded" by (rule w(2))
  show "acct_saved funded = []"
    using w(3) n(2) by (simp add: sm_saved_def new_state_manager_def new_cache_def)
  have "acc_wf sample_account" "0 \<le> acc_balance sample_account"
    using new_account_wf unfolding acc_wf_def sample_account_def by simp_all
  then show "account_at funded b = (if b = sample_sender then Inr sample_account else account_at new_state_manager b)"
    by (rule account_at_put [OF w(4)])
qed

lemma signed_tx_sender: "getSenderAddress (w_cfg sample_world) signed_tx = Inr sample_sender"
proof -
  have "8 \<le> N_DIV_2" by code_simp
  then have "\<not> s_too_high signed_tx" by (simp add: s_too_high_def signed_tx_def sample_tx_def)
  then have "getSenderPublicKey (w_cfg sample_world) signed_tx = Inr (replicate 64 6)"
    by (simp add: getSenderPublicKey_signed [of _ 27 9 8] signed_tx_def sample_tx_def sample_world_def
        try_recover_def ecrecover_def calculateSigRecovery_def isValidSigRecovery_def tx_type_def tx_supports_def)
  moreover have "setLengthLeft (replicate 64 6) 32 = (replicate 32 6 :: bytes)" by code_simp
  ultimately show ?thesis
    by (simp add: getSenderAddress_def pubToAddress_def newAddress_def sample_world_def sample_tx_cfg_def
        sample_sender_def)
qed

lemma no_prices: "bn_param london_common topic name = 0"
  by (simp add: bn_param_def param_def paramByHardfork_def chooseHardfork_def london_common_def
      sample_common_def paramByEIP_def Let_def)

lemma signed_cost: "getBaseFee signed_tx = 0"
  by (simp add: getBaseFee_def getDataFee_def legacy_getDataFee_def base_getDataFee_def data_cost_def
      signed_tx_def sample_tx_def no_prices Let_def)

theorem accepted_transaction_pays_witness:
  "\<exists>s'. tx_prologue plain_vm sample_world sample_opts signed_tx funded = (Inr (sample_sender, 500, 5, None), s') \<and>
     account_at s' sample_sender = Inr (sample_account\<lparr>acc_nonce := 8, acc_balance := 2500\<rparr>)"
proof -
  obtain s1 where s1: "sm_getAccount sample_sender funded = (Inr sample_account, s1)"
    using acct_get [OF funded_account(1)] funded_account(3) by metis
  obtain s2 where s2: "sm_putAccount sample_sender (buy_gas 5 signed_tx sample_account) s1 = (Inr (), s2)"
    using acct_put acct_got [OF s1 funded_account(1)] by metis
  have v: "tx_gasLimit signed_tx = 500" "tx_value signed_tx = 256" "tx_nonce signed_tx = 7"
    "tx_payload signed_tx = Legacy 5" "\<not> tx_supports signed_tx 1559"
    by (simp_all add: signed_tx_def sample_tx_def tx_supports_def)
  have pure: "check_account plain_vm sample_opts signed_tx sample_account = Inr ()"
    "check_maxFee plain_vm sample_opts signed_tx = Inr ()"
    "effective_price plain_vm sample_opts signed_tx = Inr (5, None)"
    "warm_tx plain_vm sample_opts signed_tx sample_sender = ret ()"
    using v by (simp_all add: check_account_def check_balance_def check_nonce_def check_maxFee_def
        effective_price_def tx_gasPrice_def plain_vm_def sample_opts_def sample_account_def getUpfrontCost_defs
        warm_tx_def when_eff_def)
  have run: "tx_prologue plain_vm sample_world sample_opts signed_tx funded = (Inr (sample_sender, 500, 5, None), s2)"
    using s1 s2 v(1) by (simp add: tx_prologue_def signed_tx_sender signed_cost pure eff_defs)
  have "\<not> o_skipNonce sample_opts" "\<not> o_skipBalance sample_opts" by (simp_all add: sample_opts_def)
  from accepted_transaction_pays [OF run funded_account(1) this] v funded_account(3)
  show ?thesis using run by (auto simp: sample_account_def)
qed

lemma new_manager_account: "account_at new_state_manager a = Inr new_account"
  by (simp add: account_at_def acct_cur_def drop_warm_def sm_cur_def raw_at_def new_state_manager_def new_cache_def)

text \<open>The sender without money: the upfront cost is too high.\<close>

theorem refused_transaction_restores_accounts_witness:
  "\<exists>e s'. runTx plain_vm sample_world sample_opts signed_tx new_state_manager = (Inl e, s') \<and>
     acct_cur s' = acct_cur new_state_manager \<and> acct_saved s' = [] \<and> acct_inv s'"
proof -
  let ?s = new_state_manager
  note n = sm_inv_plain [OF new_state_manager_inv]
  have none: "acct_saved ?s = []"
    using n(2) by (simp add: sm_saved_def new_state_manager_def new_cache_def)
  have v: "tx_gasLimit signed_tx = 500" "tx_value signed_tx = 256" "tx_payload signed_tx = Legacy 5"
    "\<not> tx_supports signed_tx 1559" "\<not> tx_supports signed_tx 2718"
    by (simp_all add: signed_tx_def sample_tx_def tx_supports_def)
  have bad: "isl (check_account plain_vm sample_opts signed_tx new_account)"
    using v by (simp add: check_account_def check_balance_def plain_vm_def sample_opts_def new_account_def
        getUpfrontCost_defs)
  have clear: "clear_warmed plain_vm s = (Inr (), s)" for s
    by (simp add: clear_warmed_def plain_vm_def when_eff_def ret_def)
  obtain s1 where s1: "sm_checkpoint ?s = (Inr (), s1)" "acct_inv s1" "acct_cur s1 = acct_cur ?s"
    "acct_saved s1 = [acct_cur ?s]"
    using accounts.checkpoint_ok [OF n(1)] none by auto
  have start: "tx_start plain_vm signed_tx ?s = (Inr (), s1)"
    using v(5) s1(1) by (simp add: tx_start_def typed_setup_def clear andthen_def bnd_def when_eff_def ret_def)
  have "account_at s1 sample_sender = Inr new_account"
    using account_at_cong [OF s1(3)] new_manager_account by simp
  then obtain s2 where s2: "sm_getAccount sample_sender s1 = (Inr new_account, s2)"
    using acct_get [OF s1(2)] by metis
  have pure: "check_maxFee plain_vm sample_opts signed_tx = Inr ()"
    "warm_tx plain_vm sample_opts signed_tx sample_sender = ret ()"
    by (simp_all add: check_maxFee_def plain_vm_def warm_tx_def when_eff_def)
  obtain e where pro: "tx_prologue plain_vm sample_world sample_opts signed_tx s1 = (Inl e, s2)"
    using s2 v(1) bad by (cases "check_account plain_vm sample_opts signed_tx new_account")
      (auto simp: tx_prologue_def signed_tx_sender signed_cost pure eff_defs)
  then have inner: "run_tx_inner plain_vm sample_world sample_opts signed_tx s1 = (Inl e, s2)"
    by (simp add: run_tx_inner_def bnd_def)
  have s2': "acct_inv s2" "acct_saved s2 = [acct_cur ?s]" using acct_got [OF s2 s1(2)] s1(4) by simp_all
  obtain s3 where "sm_revert s2 = (Inr (), s3)" using accounts.revert_ok [OF s2'] by blast
  then have "revert_and_throw e s2 = (Inl e, s3)"
    by (simp add: revert_and_throw_def andthen_def bnd_def raise_def)
  then have run: "runTx plain_vm sample_world sample_opts signed_tx ?s = (Inl e, s3)"
    using start inner v(1) by (simp add: runTx_start bnd_def try_catch_def finally_do_def clear
        sample_opts_def sample_header_def)
  have "status_receipts plain_vm signed_tx" by (simp add: status_receipts_def plain_vm_def sample_vm_def)
  moreover have "\<not> message_escapes plain_vm sample_world sample_opts signed_tx s1"
    using pro by (simp add: message_escapes_def)
  ultimately show ?thesis
    using refused_transaction_restores_accounts [OF run n(1)] start run none by auto
qed

definition early_vm :: vm where
  "early_vm = plain_vm\<lparr>vm_gteHardfork := (\<lambda>hf. hf = ''byzantium'')\<rparr>"

definition sample_results :: evm_result where
  "sample_results = \<lparr>g_gasUsed = 100, g_createdAddress = None, g_execResult =
     \<lparr>x_exceptionError = None, x_gasUsed = 100, x_returnValue = [], x_logs = None, x_selfdestruct = None,
      x_gasRefund = Some 40\<rparr>\<rparr>"

lemma settle_steps:
  "miner_fee vm gasUsed price fee = Inr f \<Longrightarrow> settle vm opts t caller price fee gasUsed =
     andthen (add_balance caller (tx_gasLimit t * price - gasUsed * price)) (add_balance (tx_miner vm (o_block opts)) f)"
  by (simp add: settle_def add_balance_def of_sum_def [abs_def] bnd_def [abs_def])

theorem settlement_balances_witness:
  "\<exists>res s'. tx_epilogue early_vm sample_world sample_opts signed_tx sample_sender 5 None sample_results funded =
     (Inr res, s') \<and> g_gasUsed res = 67 \<and> balance_at s' sample_sender = 7165 \<and>
     balance_at s' (replicate 20 0) = 335"
proof -
  have gas: "charged_gas early_vm signed_tx sample_results = 67"
    by (simp add: charged_gas_def sample_results_def signed_cost early_vm_def plain_vm_def sample_vm_def bn_div_def)
  have v: "tx_gasLimit signed_tx = 500" "\<not> tx_supports signed_tx 2718"
    by (simp_all add: signed_tx_def sample_tx_def tx_supports_def)
  have miner: "tx_miner early_vm (o_block sample_opts) = replicate 20 0"
    by (simp add: tx_miner_def early_vm_def plain_vm_def sample_vm_def sample_opts_def sample_header_def)
  have fee: "miner_fee early_vm 67 5 None = Inr 335"
    by (simp add: miner_fee_def early_vm_def plain_vm_def)
  have early: "vm_gteHardfork early_vm ''byzantium''" "\<not> vm_gteHardfork early_vm ''spuriousDragon''"
    "x_selfdestruct (g_execResult sample_results) = None"
    by (simp_all add: early_vm_def sample_results_def)
  have status: "status_receipts early_vm signed_tx" by (simp add: status_receipts_def early_vm_def)
  obtain q1 s1 where q1: "add_balance sample_sender 2165 funded = (q1, s1)" by force
  have a: "account_at funded sample_sender = Inr sample_account" by (simp add: funded_account(3))
  have r1: "q1 = Inr ()" "acct_inv s1" "\<And>c. c \<noteq> sample_sender \<Longrightarrow> account_at s1 c = account_at funded c"
    using add_balance_ok [OF q1 funded_account(1) a] by (simp_all add: sample_account_def)
  have ne: "replicate 20 0 \<noteq> sample_sender" by (simp add: sample_sender_def)
  then have m: "account_at s1 (replicate 20 0) = Inr new_account"
    using r1(3) funded_account(3) new_manager_account by simp
  obtain q2 s2 where q2: "add_balance (replicate 20 0) 335 s1 = (q2, s2)" by force
  have r2: "q2 = Inr ()" using add_balance_ok [OF q2 r1(2) m] by (simp add: new_account_def)
  have set: "settle early_vm sample_opts signed_tx sample_sender 5 None 67 funded = (Inr (), s2)"
    using q1 q2 r1(1) r2 by (simp add: settle_steps [OF fee] miner v(1) andthen_def bnd_def)
  obtain res s' where run: "tx_epilogue early_vm sample_world sample_opts signed_tx sample_sender 5 None sample_results funded =
     (Inr res, s')"
    using set early by (simp add: tx_epilogue_def gas delete_destructed_def sm_cleanupTouchedAccounts_def
        sm_clearOriginalStorageCache_def eff_defs generateTxReceipt_def v(2) Let_def)
  have "balance_at funded (replicate 20 0) = 0" "balance_at funded sample_sender = 5000"
    using ne by (simp_all add: balance_at_def funded_account(3) new_manager_account sample_account_def new_account_def)
  then show ?thesis
    using settlement_balances [OF run funded_account(1) status] run gas fee v(1) ne miner
    by (auto simp: destructed_def sample_results_def)
qed

end
