(* ===== verification/Block_Header_Proofs.thy ===== *)
theory Block_Header_Proofs
  imports Block_Header Tx_Proofs
begin

text \<open>
  What the headers promise: the serialisation is read back, the base fee and the difficulty stay in
  their bounds, validated headers form a chain with rising numbers and timestamps, and the seal of
  a clique block names its signer.
\<close>

section \<open>Serialisation\<close>

definition fields_ok :: "header_fields \<Rightarrow> bool" where
  "fields_ok f \<longleftrightarrow> length (bh_coinbase f) = 20 \<and> 0 \<le> bh_difficulty f \<and> 0 \<le> bh_number f \<and>
     0 \<le> bh_gasLimit f \<and> 0 \<le> bh_gasUsed f \<and> 0 \<le> bh_timestamp f \<and>
     (case bh_baseFeePerGas f of Some b \<Rightarrow> 0 \<le> b | None \<Rightarrow> True)"

text \<open>The options without those that change the fields of a header.\<close>

definition plain_opts :: "common \<Rightarrow> block_opts" where
  "plain_opts c = no_block_opts\<lparr>bo_common := Some c\<rparr>"

lemma header_common_plain: "header_common cfg (plain_opts c) n = Inr c"
  by (simp add: header_common_def plain_opts_def no_block_opts_def)

lemma new_header_plain:
  "new_header cfg f (plain_opts c) = Inr h \<longleftrightarrow>
     (\<exists>b. default_baseFee c f = Inr b \<and>
        h = header_fields.extend (f\<lparr>bh_baseFeePerGas := b\<rparr>) (block_header.fields c) \<and>
        validateHeaderFields h = Inr () \<and> validateDAOExtraData h = Inr ())"
  by (auto simp: new_header_def header_common_plain bindS_Inr_iff Let_def)
    (auto simp: plain_opts_def no_block_opts_def)

lemma default_baseFee_active: "default_baseFee c f = Inr b \<Longrightarrow> b = None \<longleftrightarrow> \<not> isActivatedEIP c 1559"
  by (cases "bh_baseFeePerGas f")
    (auto simp: default_baseFee_def bindS_Inr_iff dest: sym [of "Some _"] split: if_splits)

lemma default_baseFee_again:
  "default_baseFee c f = Inr b \<Longrightarrow> default_baseFee c (f\<lparr>bh_baseFeePerGas := b\<rparr>) = Inr b"
  using default_baseFee_active [of c f b] by (cases b) (auto simp: default_baseFee_def)

lemma extend_header [simp]:
  "bh_parentHash (header_fields.extend f m) = bh_parentHash f" "bh_uncleHash (header_fields.extend f m) = bh_uncleHash f"
  "bh_coinbase (header_fields.extend f m) = bh_coinbase f" "bh_stateRoot (header_fields.extend f m) = bh_stateRoot f"
  "bh_transactionsTrie (header_fields.extend f m) = bh_transactionsTrie f"
  "bh_receiptTrie (header_fields.extend f m) = bh_receiptTrie f" "bh_logsBloom (header_fields.extend f m) = bh_logsBloom f"
  "bh_difficulty (header_fields.extend f m) = bh_difficulty f" "bh_number (header_fields.extend f m) = bh_number f"
  "bh_gasLimit (header_fields.extend f m) = bh_gasLimit f" "bh_gasUsed (header_fields.extend f m) = bh_gasUsed f"
  "bh_timestamp (header_fields.extend f m) = bh_timestamp f" "bh_extraData (header_fields.extend f m) = bh_extraData f"
  "bh_mixHash (header_fields.extend f m) = bh_mixHash f" "bh_nonce (header_fields.extend f m) = bh_nonce f"
  "bh_baseFeePerGas (header_fields.extend f m) = bh_baseFeePerGas f"
  "bh_common (header_fields.extend f (block_header.fields c)) = c"
  by (simp_all add: header_fields.extend_def block_header.fields_def)

lemma default_baseFee_nonneg:
  "default_baseFee c f = Inr (Some b) \<Longrightarrow> fields_ok f \<Longrightarrow>
   (\<And>x. num_param c ''gasConfig'' ''initialBaseFee'' = Inr x \<Longrightarrow> 0 \<le> x) \<Longrightarrow> 0 \<le> b"
  by (auto simp: default_baseFee_def bindS_Inr_iff fields_ok_def split: if_splits option.splits)

lemma header_values_raw:
  assumes "fields_ok f" "bh_baseFeePerGas f = None \<longleftrightarrow> \<not> isActivatedEIP c 1559"
  shows "header_fromValuesArray cfg (header_raw (header_fields.extend f (block_header.fields c))) opts =
    new_header cfg f opts"
  using assms
  by (cases f; cases "isActivatedEIP c 1559")
    (auto simp: header_raw_def header_fromValuesArray_def fields_ok_def newAddress_def nth_value_def)

text \<open>C35. A header made from valid fields is read back from its serialisation, with the base fee that the
  constructor filled in, when RLP reads back what it writes.\<close>

theorem header_roundtrip:
  assumes made: "new_header cfg f (plain_opts c) = Inr h" and ok: "fields_ok f"
    and fee: "\<And>x. num_param c ''gasConfig'' ''initialBaseFee'' = Inr x \<Longrightarrow> 0 \<le> x"
    and codec: "txc_decode (bc_tx cfg) (header_serialize cfg h) = Inr (Items (map Item (header_raw h)))"
  shows "fromRLPSerializedHeader cfg (header_serialize cfg h) (plain_opts c) = Inr h"
proof -
  obtain b where b: "default_baseFee c f = Inr b"
    "h = header_fields.extend (f\<lparr>bh_baseFeePerGas := b\<rparr>) (block_header.fields c)"
    "validateHeaderFields h = Inr ()" "validateDAOExtraData h = Inr ()"
    using made by (auto simp: new_header_plain)
  let ?f = "f\<lparr>bh_baseFeePerGas := b\<rparr>"
  have "fields_ok ?f"
    using ok default_baseFee_nonneg [of c f _, OF _ ok fee] b(1)
    by (auto simp: fields_ok_def split: option.splits)
  then have "header_fromValuesArray cfg (header_raw h) (plain_opts c) = new_header cfg ?f (plain_opts c)"
    using default_baseFee_active [OF b(1)] unfolding b(2) by (intro header_values_raw) simp_all
  also have "\<dots> = Inr h"
    using b default_baseFee_again [OF b(1)] by (simp add: new_header_plain)
  finally have again: "header_fromValuesArray cfg (header_raw h) (plain_opts c) = Inr h" .
  have "rlp_buffers (map Item xs) = Inr xs" for xs
    by (induction xs) (simp_all add: rlp_buffer_def)
  then show ?thesis using again codec by (simp add: fromRLPSerializedHeader_def)
qed

section \<open>The base fee\<close>

lemma fee_change_nonneg:
  "0 \<le> b \<Longrightarrow> 0 \<le> x \<Longrightarrow> 0 < t \<Longrightarrow> 0 < d \<Longrightarrow> fee_change b x t d = Inr (b * x div t div d)"
  by (simp add: fee_change_def div_checked_def pos_imp_zdiv_nonneg_iff)

lemma fee_rise:
  fixes u l e t b d :: int
  assumes "u \<le> l" "l = e * t + l mod e" "0 < t" "0 \<le> b" "0 < d"
  shows "b * (u - t) div t div d \<le> ((e - 1) * b + b * (l mod e) div t) div d"
proof -
  have "u - t \<le> (e - 1) * t + l mod e" using assms(1,2) by (simp add: algebra_simps)
  then have "b * (u - t) \<le> b * (l mod e) + ((e - 1) * b) * t"
    using mult_left_mono [of "u - t" "(e - 1) * t + l mod e" b] assms(4) by (simp add: algebra_simps)
  then have "b * (u - t) div t \<le> (e - 1) * b + b * (l mod e) div t"
    using zdiv_mono1 [of "b * (u - t)" "b * (l mod e) + ((e - 1) * b) * t" t] assms(3) by simp
  then show ?thesis using assms(5) by (simp add: zdiv_mono1)
qed

lemma fee_fall:
  fixes u t b d :: int
  assumes "0 \<le> u" "0 < t" "0 \<le> b" "0 < d" shows "b * (t - u) div t div d \<le> b div d"
proof -
  have "b * (t - u) \<le> b * t" using assms by (intro mult_left_mono) auto
  then have "b * (t - u) div t \<le> b" using assms(2) zdiv_mono1 [of "b * (t - u)" "b * t" t] by simp
  then show ?thesis using assms(4) by (simp add: zdiv_mono1)
qed

text \<open>C33. The base fee of the next block: it stays at the gas target (the gas limit divided by the elasticity, rounded down),
  rises above it (by at least one) and does not rise below it. It falls by at most the fraction that the denominator
  allows and rises by at most the elasticity less one times it, for the elasticity 2 and the denominator 8 of EIP-1559
  one eighth; a gas limit that is no multiple of the elasticity lies above that many targets by the remainder, and allows so much more.\<close>

theorem base_fee_bounds:
  fixes h :: block_header
  defines "target \<equiv> \<lambda>e. bh_gasLimit h div e"
  assumes next': "calcNextBaseFee h = Inr n" and b: "bh_baseFeePerGas h = Some b" "0 \<le> b"
    and e: "num_param (bh_common h) ''gasConfig'' ''elasticityMultiplier'' = Inr e" "1 \<le> e"
    and d: "num_param (bh_common h) ''gasConfig'' ''baseFeeMaxChangeDenominator'' = Inr d" "1 \<le> d"
    and gas: "0 \<le> bh_gasUsed h" "bh_gasUsed h \<le> bh_gasLimit h"
  shows "b - b div d \<le> n \<and> n \<le> b + max 1 (((e - 1) * b + b * (bh_gasLimit h mod e) div target e) div d) \<and> 0 \<le> n \<and>
    (e dvd bh_gasLimit h \<longrightarrow> n \<le> b + max 1 ((e - 1) * b div d)) \<and>
    (bh_gasUsed h = target e \<longrightarrow> n = b) \<and> (bh_gasUsed h > target e \<longrightarrow> b < n) \<and> (bh_gasUsed h < target e \<longrightarrow> n \<le> b)"
proof -
  let ?u = "bh_gasUsed h" and ?l = "bh_gasLimit h"
  define t where "t = ?l div e"
  have limit: "?l = e * t + ?l mod e" "0 \<le> ?l mod e" "0 \<le> t"
    using e gas by (simp_all add: t_def pos_imp_zdiv_nonneg_iff)
  have t: "div_checked ?l e = Inr t"
    using e limit gas by (simp add: div_checked_def t_def)
  have dle: "b div d \<le> b" using b d zdiv_mono2 [of b 1 d] by simp
  have rest: "0 \<le> b * (?l mod e) div t" using b limit by (simp add: div_int_pos_iff)
  have "b - b div d \<le> n \<and> n \<le> b + max 1 (((e - 1) * b + b * (?l mod e) div t) div d) \<and> 0 \<le> n \<and>
    (?u = t \<longrightarrow> n = b) \<and> (?u > t \<longrightarrow> b < n) \<and> (?u < t \<longrightarrow> n \<le> b)"
  proof -
    have room: "0 \<le> ((e - 1) * b + b * (?l mod e) div t) div d"
      using b d e rest by (simp add: pos_imp_zdiv_nonneg_iff)
    consider "?u = t" | "?u > t" | "?u < t" by linarith
    then show ?thesis
    proof cases
      case 1
      then have "n = b" using next' e t b by (auto simp: calcNextBaseFee_def split: if_splits)
      then show ?thesis using 1 b d by (auto simp: pos_imp_zdiv_nonneg_iff)
    next
      case 2
      have "t \<noteq> 0"
      proof
        assume "t = 0"
        then show False using next' 2 e d t b by (auto simp: calcNextBaseFee_def fee_change_def div_checked_def split: if_splits)
      qed
      then have pos: "0 < t" using limit(3) by simp
      let ?delta = "b * (?u - t) div t div d"
      have "fee_change b (?u - t) t d = Inr ?delta" using 2 b d pos by (intro fee_change_nonneg) auto
      then have n: "n = max ?delta 1 + b"
        using next' 2 e d t b by (auto simp: calcNextBaseFee_def split: if_splits)
      have "?delta \<le> ((e - 1) * b + b * (?l mod e) div t) div d"
        using fee_rise [OF gas(2) limit(1) pos b(2)] d by simp
      moreover have "0 \<le> b div d" using b d by (simp add: pos_imp_zdiv_nonneg_iff)
      ultimately show ?thesis using n 2 b by linarith
    next
      case 3
      then have pos: "0 < t" using gas(1) by simp
      let ?delta = "b * (t - ?u) div t div d"
      have "fee_change b (t - ?u) t d = Inr ?delta" using 3 b d pos by (intro fee_change_nonneg) auto
      then have n: "n = max (b - ?delta) 0"
        using next' 3 e d t b by (auto simp: calcNextBaseFee_def split: if_splits)
      have "?delta \<le> b div d" using fee_fall [OF gas(1) pos b(2)] d by simp
      moreover have "0 \<le> ?delta" using 3 b d pos by (simp add: pos_imp_zdiv_nonneg_iff)
      ultimately show ?thesis using n 3 b dle room by auto
    qed
  qed
  moreover from this have "n \<le> b + max 1 ((e - 1) * b div d)" if "e dvd ?l"
    using that by (simp add: dvd_imp_mod_0)
  ultimately show ?thesis by (auto simp: target_def t_def)
qed

section \<open>The difficulty\<close>

lemma bn_div_mono:
  assumes "a \<le> b" "0 \<le> d"
  shows "bn_div a d \<le> bn_div b d"
proof (cases "d = 0")
  case False
  then have d: "0 < d" using assms(2) by simp
  have neg: "bn_div x d = - ((- x) div d)" if "x < 0" for x
    using that d by (simp add: bn_div_def)
  consider "0 \<le> a" | "a < 0" "0 \<le> b" | "b < 0" using assms(1) by linarith
  then show ?thesis
  proof cases
    case 1
    then show ?thesis using assms d by (simp add: zdiv_mono1)
  next
    case 2
    have "0 \<le> (- a) div d" "0 \<le> b div d" using 2 d by (simp_all add: pos_imp_zdiv_nonneg_iff)
    then show ?thesis using 2 d neg [of a] by simp
  next
    case 3
    have "(- b) div d \<le> (- a) div d" using assms(1) d by (intro zdiv_mono1) simp_all
    then show ?thesis using 3 assms(1) neg [of a] neg [of b] by simp
  qed
qed (simp add: bn_div_def)

lemma difficulty_factor_anti: "e \<le> e' \<Longrightarrow> 0 \<le> d \<Longrightarrow> difficulty_factor e' d a \<le> difficulty_factor e d a"
  using bn_div_mono [of e e' d] by (simp add: difficulty_factor_def Let_def)

lemma difficulty_step_anti:
  assumes "difficulty_step h p hf offset = Inr (dif, num)"
    and "difficulty_step (h\<lparr>bh_timestamp := ts\<rparr>) p hf offset = Inr (dif', num')"
    and "bh_timestamp h \<le> ts" "0 \<le> offset"
  shows "dif' \<le> dif \<and> num' = num"
proof -
  let ?e = "bh_timestamp h - bh_timestamp p" and ?e' = "ts - bh_timestamp p"
  have anti: "offset * difficulty_factor ?e' d a \<le> offset * difficulty_factor ?e d a" if "0 \<le> d" for d a
    using difficulty_factor_anti [OF _ that, of ?e ?e'] assms(3,4) by (intro mult_left_mono) auto
  obtain byz where byz: "hf_gte (bh_common h) hf ''byzantium'' = Inr byz"
    using assms(1) by (auto simp: difficulty_step_def bindS_Inr_iff Let_def)
  show ?thesis
  proof (cases byz)
    case True
    then show ?thesis using assms(1,2) byz anti by (auto simp: difficulty_step_def bindS_Inr_iff Let_def)
  next
    case False
    then obtain hom where hom: "hf_gte (bh_common h) hf ''homestead'' = Inr hom"
      using assms(1) byz by (auto simp: difficulty_step_def bindS_Inr_iff Let_def)
    show ?thesis
      using assms byz False hom anti [of 10 1]
      by (cases hom) (auto simp: difficulty_step_def bindS_Inr_iff Let_def)
  qed
qed

text \<open>The canonical difficulty is never below the minimum of the hardfork, and a block that comes later
  never has a higher one.\<close>

theorem difficulty_falls_with_time:
  assumes d: "canonicalDifficulty h p = Inr d" and d': "canonicalDifficulty (h\<lparr>bh_timestamp := ts\<rparr>) p = Inr d'"
    and later: "bh_timestamp h \<le> ts" and parent: "0 \<le> bh_difficulty p"
    and hf: "header_hardfork h = Inr hf" "num_paramByHardfork (bh_common h) ''pow'' ''minimumDifficulty'' hf = Inr m"
      "num_paramByHardfork (bh_common h) ''pow'' ''difficultyBoundDivisor'' hf = Inr div'" "0 < div'"
  shows "m \<le> d' \<and> d' \<le> d"
proof -
  have hf': "header_hardfork (h\<lparr>bh_timestamp := ts\<rparr>) = Inr hf" using hf(1) by (auto simp: header_hardfork_def split: if_splits)
  have off: "div_checked (bh_difficulty p) div' = Inr (bh_difficulty p div div')" "0 \<le> bh_difficulty p div div'"
    using parent hf(4) by (simp_all add: div_checked_def pos_imp_zdiv_nonneg_iff)
  let ?o = "bh_difficulty p div div'"
  obtain dif num where s: "difficulty_step h p hf ?o = Inr (dif, num)"
    "d = (let e = bn_div num 100000 - 2; x = (if 0 \<le> e then dif + 2 ^ nat e else dif) in if x < m then m else x)"
    using d hf off by (auto simp: canonicalDifficulty_def bindS_Inr_iff Let_def split: if_splits)
  obtain dif' num' where s': "difficulty_step (h\<lparr>bh_timestamp := ts\<rparr>) p hf ?o = Inr (dif', num')"
    "d' = (let e = bn_div num' 100000 - 2; x = (if 0 \<le> e then dif' + 2 ^ nat e else dif') in if x < m then m else x)"
    using d' hf hf' off by (auto simp: canonicalDifficulty_def bindS_Inr_iff Let_def split: if_splits)
  show ?thesis
    using difficulty_step_anti [OF s(1) s'(1) later off(2)] s(2) s'(2) by (auto simp: Let_def)
qed

section \<open>Chains of valid headers\<close>

text \<open>The headers from a block back to an ancestor, newest first, each validated against the next.\<close>

fun valid_chain :: "block_cfg \<Rightarrow> header_chain \<Rightarrow> block_header list \<Rightarrow> bool" where
  "valid_chain cfg chain (h # p # hs) \<longleftrightarrow>
     \<not> isGenesis h \<and> hc_getHeader chain (bh_parentHash h) = Inr (Some p) \<and>
     header_validate cfg chain h None = Inr () \<and> valid_chain cfg chain (p # hs)"
| "valid_chain cfg chain hs \<longleftrightarrow> True"

lemma require_Inr [simp]: "require b msg = Inr x \<longleftrightarrow> b"
  by (simp add: require_def)

lemma requireS_Inr [simp]: "requireS r msg = Inr x \<longleftrightarrow> r = Inr True"
  by (cases r) (auto simp: requireS_def require_def)

lemma validated_parent:
  assumes "header_validate cfg chain h height = Inr ()" "\<not> isGenesis h"
    "hc_getHeader chain (bh_parentHash h) = Inr (Some p)"
  shows "bh_number h = bh_number p + 1" "bh_timestamp p < bh_timestamp h" "bh_gasUsed h \<le> bh_gasLimit h"
    "validateGasLimit h p = Inr True" "validate_baseFee h p = Inr ()"
    "consensusType (bh_common h) = ''pow'' \<Longrightarrow> canonicalDifficulty h p = Inr (bh_difficulty h)"
  using assms
  by (auto simp: header_validate_def bindS_Inr_iff validateDifficulty_def split: if_splits)

lemma gas_limit_step:
  assumes "validateGasLimit h p = Inr True" "is_london_block h = Inr False" "header_hardfork h = Inr hf"
    "num_paramByHardfork (bh_common h) ''gasConfig'' ''gasLimitBoundDivisor'' hf = Inr d" "0 < d" "0 \<le> bh_gasLimit p"
  shows "\<bar>bh_gasLimit h - bh_gasLimit p\<bar> < bh_gasLimit p div d"
  using assms by (auto simp: validateGasLimit_def bindS_Inr_iff div_checked_def Let_def split: if_splits)

text \<open>C32. Along a chain of validated headers the numbers count up by one, the timestamps rise with every
  block, and no block uses more gas than its limit.\<close>

theorem valid_chain_order:
  assumes "valid_chain cfg chain hs" "i < j" "j < length hs"
  shows "bh_number (hs ! i) = bh_number (hs ! j) + int (j - i) \<and>
    bh_timestamp (hs ! j) + int (j - i) \<le> bh_timestamp (hs ! i) \<and> bh_gasUsed (hs ! i) \<le> bh_gasLimit (hs ! i)"
  using assms
proof (induction cfg chain hs arbitrary: i j rule: valid_chain.induct)
  case (1 cfg chain h p hs)
  note v = validated_parent [of cfg chain h None p]
  obtain k where k: "j = Suc k" using 1 by (cases j) auto
  have hp: "bh_number h = bh_number p + 1" "bh_timestamp p < bh_timestamp h" "bh_gasUsed h \<le> bh_gasLimit h"
    using v 1 by auto
  show ?case
  proof (cases i)
    case 0
    show ?thesis
    proof (cases k)
      case 0
      then show ?thesis using \<open>i = 0\<close> k hp by simp
    next
      case (Suc l)
      have "bh_number ((p # hs) ! 0) = bh_number ((p # hs) ! k) + int (k - 0) \<and>
          bh_timestamp ((p # hs) ! k) + int (k - 0) \<le> bh_timestamp ((p # hs) ! 0) \<and>
          bh_gasUsed ((p # hs) ! 0) \<le> bh_gasLimit ((p # hs) ! 0)"
        using "1.prems" k Suc by (intro "1.IH") auto
      then show ?thesis using \<open>i = 0\<close> k hp by (simp add: algebra_simps)
    qed
  next
    case (Suc m)
    have "bh_number ((p # hs) ! m) = bh_number ((p # hs) ! k) + int (k - m) \<and>
        bh_timestamp ((p # hs) ! k) + int (k - m) \<le> bh_timestamp ((p # hs) ! m) \<and>
        bh_gasUsed ((p # hs) ! m) \<le> bh_gasLimit ((p # hs) ! m)"
      using "1.prems" k Suc by (intro "1.IH") auto
    then show ?thesis using k Suc by simp
  qed
qed auto

section \<open>Clique seals\<close>

lemma intToBuffer_bit: "n \<le> (1 :: nat) \<Longrightarrow> intToBuffer (int n) = Inr [of_nat n]"
proof -
  have "intToBuffer 0 = Inr [0]" "intToBuffer 1 = Inr [1]" by code_simp+
  then show "n \<le> 1 \<Longrightarrow> ?thesis" by (cases n) (auto simp: le_Suc_eq)
qed

lemma pad_extraData_length: "97 \<le> length (pad_extraData b)"
  by (simp add: pad_extraData_def CLIQUE_EXTRA_VANITY_def CLIQUE_EXTRA_SEAL_def)

lemma slice_to_seal:
  "CLIQUE_EXTRA_SEAL \<le> length b \<Longrightarrow>
   slice_to b (int (length b) - int CLIQUE_EXTRA_SEAL) = take (length b - CLIQUE_EXTRA_SEAL) b"
  by (simp add: slice_to_def nat_diff_distrib)

text \<open>A header that was sealed: the part before the seal is as it was, and the seal is the signature.\<close>

lemma sealed_parts:
  assumes "cliqueSealBlock cfg h key = Inr e" "signs_for (bc_tx cfg) key pub" "97 \<le> length (bh_extraData h)"
  obtains signature n sigHash where
    "cliqueSigHash cfg h = Inr sigHash" "length signature = 64" "n \<le> (1 :: nat)"
    "txc_recover (bc_tx cfg) signature n sigHash = Some pub"
    "e = take (length (bh_extraData h) - 65) (bh_extraData h) @ signature @ [of_nat n]"
    "requireClique h = Inr ()"
proof -
  obtain sigHash sg where 1: "requireClique h = Inr ()" "cliqueSigHash cfg h = Inr sigHash"
    "ecsign (txc_sign (bc_tx cfg)) sigHash key = Inr sg"
    using assms(1) by (auto simp: cliqueSealBlock_def bindS_Inr_iff Let_def)
  then obtain signature n where 2: "txc_sign (bc_tx cfg) sigHash key = Inr (signature, n)"
    "sg = \<lparr>sig_v = int n + 27, sig_r = slice signature 0 32, sig_s = slice signature 32 64\<rparr>"
    by (auto simp: ecsign_def bindS_Inr_iff)
  then have 3: "length signature = 64" "n \<le> 1" "txc_recover (bc_tx cfg) signature n sigHash = Some pub"
    using assms(2) by (auto simp: signs_for_def)
  have "slice signature 0 32 @ slice signature 32 64 = signature"
    using 3(1) by (simp add: slice_def)
  then have "e = take (length (bh_extraData h) - 65) (bh_extraData h) @ signature @ [of_nat n]"
    using assms(1,3) 1 2(2) intToBuffer_bit [OF 3(2)] slice_to_seal [of "bh_extraData h"]
    by (auto simp: cliqueSealBlock_def Let_def CLIQUE_EXTRA_SEAL_def)
  with that 1 3 show thesis by blast
qed

lemma setLengthLeft_same: "length msg = len \<Longrightarrow> setLengthLeft msg len = msg"
  by (simp add: setLengthLeft_def setLength_def)

text \<open>C34. A header that is sealed with a key names that key's address as its signer, and is verified exactly
  by the lists of signers that hold it, when what secp256k1 signs it recovers.\<close>

theorem clique_seal_names_signer:
  assumes made: "new_header cfg f opts = Inr h" and key: "bo_cliqueSigner opts = Some key"
    and law: "signs_for (bc_tx cfg) key pub"
    and address: "bindS (pubToAddress (txc_keccak256 (bc_tx cfg)) pub) newAddress = Inr a"
  shows "cliqueSigner cfg h = Inr a \<and> cliqueVerifySignature cfg h signers = Inr (a \<in> set signers)"
proof -
  obtain h2 e where e: "cliqueSealBlock cfg h2 key = Inr e" "h = h2\<lparr>bh_extraData := e\<rparr>" "97 \<le> length (bh_extraData h2)"
    using made key pad_extraData_length by (auto simp: new_header_def bindS_Inr_iff Let_def)
  obtain signature n sigHash where s: "cliqueSigHash cfg h2 = Inr sigHash" "length signature = 64" "n \<le> (1 :: nat)"
    "txc_recover (bc_tx cfg) signature n sigHash = Some pub"
    "e = take (length (bh_extraData h2) - 65) (bh_extraData h2) @ signature @ [of_nat n]"
    "requireClique h2 = Inr ()"
    using sealed_parts [OF e(1) law e(3)] .
  let ?pre = "take (length (bh_extraData h2) - 65) (bh_extraData h2)"
  have len: "length e = length (bh_extraData h2)" using s e(3) by simp
  have clique: "requireClique h = Inr ()" using s(6) e(2) by (simp add: requireClique_def)
  have "take (length e - 65) e = ?pre" using len s(5) by simp
  moreover have "(header_raw h)[12 := x] = (header_raw h2)[12 := x]" for x
    by (simp add: header_raw_def e(2))
  ultimately have hash: "cliqueSigHash cfg h = Inr sigHash"
    using s(1,6) clique e(2,3) len slice_to_seal [of e] slice_to_seal [of "bh_extraData h2"]
    by (simp add: cliqueSigHash_def CLIQUE_EXTRA_SEAL_def Let_def)
  have "slice_last e 65 = signature @ [of_nat n]"
    using len s(2,5) e(3) by (simp add: slice_last_def)
  then have seal: "cliqueExtraSeal h = Inr (signature @ [of_nat n])"
    using clique e(2) by (simp add: cliqueExtraSeal_def CLIQUE_EXTRA_SEAL_def)
  have v: "bn_of_bytes (slice (signature @ [of_nat n]) 64 65) + 27 = int n + 27"
  proof -
    have "bn_of_bytes [1] = 1" "bn_of_bytes [0] = 0" by code_simp+
    then show ?thesis using s(2,3) by (cases n) (auto simp: slice_def le_Suc_eq)
  qed
  have rs: "slice (signature @ [of_nat n]) 0 32 @ slice (signature @ [of_nat n]) 32 64 = signature"
    "length (slice (signature @ [of_nat n]) 0 32) = 32" "length (slice (signature @ [of_nat n]) 32 64) = 32"
    using s(2) by (simp_all add: slice_def)
  have "ecrecover (txc_recover (bc_tx cfg)) sigHash (int n + 27) (slice (signature @ [of_nat n]) 0 32)
      (slice (signature @ [of_nat n]) 32 64) None = Inr pub"
    using s(3,4) rs(1) setLengthLeft_same [OF rs(2)] setLengthLeft_same [OF rs(3)]
    by (simp only: ecrecover_def calculateSigRecovery_def isValidSigRecovery_def) auto
  then have "cliqueSigner cfg h = Inr a"
    using seal v hash address by (simp add: cliqueSigner_def Let_def)
  then show ?thesis using clique by (simp add: cliqueVerifySignature_def)
qed

section \<open>The witnesses\<close>

definition sample_block_cfg :: block_cfg where
  "sample_block_cfg = \<lparr>bc_tx = sample_tx_cfg, bc_genesis = (\<lambda>c. \<lparr>gp_gasLimit = 100, gp_timestamp = 0,
       gp_difficulty = 1, gp_extraData = [], gp_nonce = zero_nonce, gp_stateRoot = replicate 32 0,
       gp_baseFeePerGas = None\<rparr>),
     bc_period = (\<lambda>c. 15), bc_epoch = (\<lambda>c. 30)\<rparr>"

definition fee_common :: common where
  "fee_common = sample_common\<lparr>
     HARDFORK_CHANGES := [(''london'', \<lparr>hfc_name = ''london'', hfc_eips = Some [1559],
       hfc_topics = Map.empty, hfc_consensus = None\<rparr>)],
     EIPs := [1559 \<mapsto> \<lparr>eip_minimumHardfork = ''chainstart'', eip_requiredEIPs = [], eip_topics =
       [''gasConfig'' \<mapsto> [''elasticityMultiplier'' \<mapsto> 2, ''baseFeeMaxChangeDenominator'' \<mapsto> 8,
           ''initialBaseFee'' \<mapsto> 9, ''gasLimitBoundDivisor'' \<mapsto> 10, ''minGasLimit'' \<mapsto> 5],
        ''pow'' \<mapsto> [''minimumDifficulty'' \<mapsto> 10, ''difficultyBoundDivisor'' \<mapsto> 2],
        ''vm'' \<mapsto> [''maxExtraDataSize'' \<mapsto> 32]]\<rparr>],
     hardforks := [\<lparr>hf_name = ''homestead'', hf_block = Some 0, hf_td = None\<rparr>,
       \<lparr>hf_name = ''london'', hf_block = Some 2, hf_td = None\<rparr>],
     cur_hardfork := ''london''\<rparr>"

lemma fee_common_sel:
  "HARDFORK_CHANGES fee_common = [(''london'', \<lparr>hfc_name = ''london'', hfc_eips = Some [1559],
       hfc_topics = Map.empty, hfc_consensus = None\<rparr>)]"
  "EIPs fee_common 1559 = Some \<lparr>eip_minimumHardfork = ''chainstart'', eip_requiredEIPs = [], eip_topics =
       [''gasConfig'' \<mapsto> [''elasticityMultiplier'' \<mapsto> 2, ''baseFeeMaxChangeDenominator'' \<mapsto> 8,
           ''initialBaseFee'' \<mapsto> 9, ''gasLimitBoundDivisor'' \<mapsto> 10, ''minGasLimit'' \<mapsto> 5],
        ''pow'' \<mapsto> [''minimumDifficulty'' \<mapsto> 10, ''difficultyBoundDivisor'' \<mapsto> 2],
        ''vm'' \<mapsto> [''maxExtraDataSize'' \<mapsto> 32]]\<rparr>"
  "hardforks fee_common = [\<lparr>hf_name = ''homestead'', hf_block = Some 0, hf_td = None\<rparr>,
       \<lparr>hf_name = ''london'', hf_block = Some 2, hf_td = None\<rparr>]"
  "cur_hardfork fee_common = ''london''" "chainConsensus fee_common = chainConsensus sample_common"
  "chainConsensusType fee_common = chainConsensusType sample_common"
  "supportedHardforks fee_common = []" "eips fee_common = eips sample_common" "networkIdBN fee_common = 1"
  by (simp_all add: fee_common_def) (simp_all add: sample_common_def)

lemma fee_common_fields [simp]:
  "isActivatedEIP fee_common 1559" "hardforkBlockBN fee_common (Some ''london'') = Inr (Some 2)"
  "hardforkIsActiveOnChain fee_common (Some ''dao'') False = Inr False"
  "cur_hardfork fee_common = ''london''" "networkIdBN fee_common = 1"
  "hf_gte fee_common ''london'' ''byzantium'' = Inr False" "hf_gte fee_common ''london'' ''homestead'' = Inr True"
  by (simp_all add: fee_common_sel isActivatedEIP_def gteHardfork_def
      hardforkGteHardfork_def chooseHardfork_def hardforkBlockBN_def getHardfork_def
      hardforkIsActiveOnChain_def isSupportedHardfork_def hf_gte_def Let_def)

lemma fee_common_consensus [simp]:
  "consensusType fee_common = ''pow''" "consensusAlgorithm fee_common = ''ethash''"
  by (simp_all add: consensusType_def consensusAlgorithm_def fee_common_sel) (simp_all add: sample_common_def)

lemma fee_common_params [simp]:
  "param fee_common ''gasConfig'' ''elasticityMultiplier'' = Inr (Some 2)"
  "param fee_common ''gasConfig'' ''baseFeeMaxChangeDenominator'' = Inr (Some 8)"
  "param fee_common ''gasConfig'' ''initialBaseFee'' = Inr (Some 9)"
  "paramByHardfork fee_common ''gasConfig'' ''gasLimitBoundDivisor'' ''london'' = Inr (Some 10)"
  "paramByHardfork fee_common ''gasConfig'' ''minGasLimit'' ''london'' = Inr (Some 5)"
  "paramByHardfork fee_common ''pow'' ''minimumDifficulty'' ''london'' = Inr (Some 10)"
  "paramByHardfork fee_common ''pow'' ''difficultyBoundDivisor'' ''london'' = Inr (Some 2)"
  "paramByHardfork fee_common ''vm'' ''maxExtraDataSize'' ''london'' = Inr (Some 32)"
  by (simp_all add: fee_common_sel sample_common_def param_def paramByHardfork_def paramByEIP_def
      chooseHardfork_def isSupportedHardfork_def)

definition sample_fields :: "int \<Rightarrow> header_fields" where
  "sample_fields n = \<lparr>bh_parentHash = replicate 32 0, bh_uncleHash = [], bh_coinbase = replicate 20 0,
     bh_stateRoot = replicate 32 0, bh_transactionsTrie = replicate 32 0, bh_receiptTrie = replicate 32 0,
     bh_logsBloom = [], bh_difficulty = (if n = 5 then 60 else 40), bh_number = n, bh_gasLimit = 100,
     bh_gasUsed = 50, bh_timestamp = n, bh_extraData = [], bh_mixHash = replicate 32 0,
     bh_nonce = zero_nonce, bh_baseFeePerGas = Some 80\<rparr>"

definition sample_block_header :: "int \<Rightarrow> block_header" where
  "sample_block_header n = header_fields.extend (sample_fields n) (block_header.fields fee_common)"

lemma sample_header_made: "new_header sample_block_cfg (sample_fields n) (plain_opts fee_common) = Inr (sample_block_header n)"
proof -
  let ?h = "sample_block_header n"
  have "(sample_fields n)\<lparr>bh_baseFeePerGas := Some 80\<rparr> = sample_fields n" by (simp add: sample_fields_def)
  moreover have "validateHeaderFields ?h = Inr ()" "validateDAOExtraData ?h = Inr ()"
    by (simp_all add: validateHeaderFields_def check_nonce_length_def check_pos_fields_def validateDAOExtraData_def
        sample_block_header_def) (simp_all add: sample_fields_def zero_nonce_def require_def)
  moreover have "default_baseFee fee_common (sample_fields n) = Inr (Some 80)"
    by (simp add: default_baseFee_def) (simp add: sample_fields_def)
  ultimately show ?thesis by (simp add: new_header_plain) (simp add: sample_block_header_def)
qed

lemma sample_codec_any:
  assumes "length (rlp_enc (Items xs)) < 256 ^ 8"
  shows "txc_decode sample_tx_cfg (txc_encode sample_tx_cfg (Items xs)) = Inr (Items xs)"
proof -
  have enc: "txc_encode sample_tx_cfg (Items xs) = rlp_enc (Items xs)"
    using rlp_encode_enc [OF assms] by (simp add: sample_tx_cfg_def)
  have "rlp_decode (In_bytes (rlp_enc (Items xs))) False = Inr (Data (Items xs))"
    using decode1_enc [OF assms, of "[]"] rlp_enc_nonempty [of "Items xs"]
    by (simp add: rlp_decode_def empty_input_def toBytes_def)
  then show ?thesis by (simp only: enc) (simp add: sample_tx_cfg_def)
qed

theorem header_roundtrip_witness:
  "fromRLPSerializedHeader sample_block_cfg (header_serialize sample_block_cfg (sample_block_header 5)) (plain_opts fee_common) =
     Inr (sample_block_header 5)"
proof -
  have nums: "bnToUnpaddedBuffer 60 = [60]" "bnToUnpaddedBuffer 5 = [5]" "bnToUnpaddedBuffer 100 = [100]"
    "bnToUnpaddedBuffer 50 = [50]" "bnToUnpaddedBuffer 80 = [80]"
    by code_simp+
  have raw: "header_raw (sample_block_header 5) = [replicate 32 0, [], replicate 20 0, replicate 32 0, replicate 32 0,
     replicate 32 0, [], [60], [5], [100], [50], [5], [], replicate 32 0, zero_nonce, [80]]"
    by (simp add: header_raw_def sample_block_header_def) (simp add: sample_fields_def nums)
  have "length (min_bytes 204) = 1" by code_simp
  then have "length (rlp_enc (Items (map Item (header_raw (sample_block_header 5))))) < 256 ^ 8"
    by (simp add: raw rlp_header_def zero_nonce_def)
  then show ?thesis
    by (intro header_roundtrip [OF sample_header_made])
      (auto simp: fields_ok_def sample_fields_def num_param_def header_serialize_def rlp_of_raw_def
        sample_block_cfg_def sample_codec_any)
qed

theorem base_fee_bounds_witness:
  "calcNextBaseFee ((sample_block_header 5)\<lparr>bh_gasUsed := 60\<rparr>) = Inr 82 \<and> (82 :: int) \<le> 80 + max 1 ((2 - 1) * 80 div 8)"
proof -
  let ?h = "(sample_block_header 5)\<lparr>bh_gasUsed := 60\<rparr>"
  have f: "bh_common ?h = fee_common" "bh_gasLimit ?h = 100" "bh_gasUsed ?h = 60" "bh_baseFeePerGas ?h = Some 80"
    by (simp_all add: sample_block_header_def) (simp_all add: sample_fields_def)
  have run: "calcNextBaseFee ?h = Inr 82"
    by (simp add: calcNextBaseFee_def f num_param_def div_checked_def fee_change_def)
  then show ?thesis
    using base_fee_bounds [OF run f(4), of 2 8] by (simp add: f num_param_def)
qed

lemma sample_block_header_fields [simp]:
  "bh_common (sample_block_header n) = fee_common" "bh_gasLimit (sample_block_header n) = 100"
  "bh_gasUsed (sample_block_header n) = 50" "bh_baseFeePerGas (sample_block_header n) = Some 80"
  "bh_number (sample_block_header n) = n" "bh_timestamp (sample_block_header n) = n"
  "bh_extraData (sample_block_header n) = []" "bh_parentHash (sample_block_header n) = replicate 32 0"
  "bh_difficulty (sample_block_header n) = (if n = 5 then 60 else 40)"
  by (simp_all add: sample_block_header_def) (simp_all add: sample_fields_def)

lemma sample_difficulty:
  "canonicalDifficulty (sample_block_header 5) (sample_block_header 4) = Inr 60"
  "canonicalDifficulty ((sample_block_header 5)\<lparr>bh_timestamp := 29\<rparr>) (sample_block_header 4) = Inr 20"
  by (simp_all add: canonicalDifficulty_def header_hardfork_def num_paramByHardfork_def div_checked_def
      difficulty_step_def difficulty_factor_def Let_def)

theorem difficulty_falls_with_time_witness: "(10 :: int) \<le> 20 \<and> (20 :: int) \<le> 60"
  using difficulty_falls_with_time [OF sample_difficulty, of "''london''" 10 2]
  by (simp add: header_hardfork_def num_paramByHardfork_def)

definition sample_chain :: header_chain where
  "sample_chain = \<lparr>hc_activeSigners = None, hc_getHeader = (\<lambda>b. Inr (Some (sample_block_header 4)))\<rparr>"

theorem valid_chain_order_witness:
  "bh_number (sample_block_header 5) = bh_number (sample_block_header 4) + 1"
proof -
  have "header_validate sample_block_cfg sample_chain (sample_block_header 5) None = Inr ()"
    by (simp add: header_validate_def isGenesis_def header_hardfork_def validate_ethash_def sample_chain_def
        validateDifficulty_def sample_difficulty validateGasLimit_def is_london_block_def
        num_paramByHardfork_def div_checked_def gte_number_def validate_height_def validate_baseFee_def
        calcNextBaseFee_def num_param_def require_def requireS_def)
  then have "valid_chain sample_block_cfg sample_chain [sample_block_header 5, sample_block_header 4]"
    by (simp add: isGenesis_def sample_chain_def)
  from valid_chain_order [OF this, of 0 1] show ?thesis by simp
qed

definition clique_common :: common where
  "clique_common = fee_common\<lparr>chainConsensus := ''clique'', chainConsensusType := ''poa''\<rparr>"

definition clique_opts :: block_opts where
  "clique_opts = (plain_opts clique_common)\<lparr>bo_cliqueSigner := Some (replicate 32 1)\<rparr>"

lemma clique_common_fields [simp]:
  "isActivatedEIP clique_common 1559" "consensusAlgorithm clique_common = ''clique''"
  "consensusType clique_common = ''poa''"
  "hardforkIsActiveOnChain clique_common (Some ''dao'') False = Inr False"
  by (simp_all add: clique_common_def fee_common_sel isActivatedEIP_def consensusAlgorithm_def consensusType_def
      chooseHardfork_def hardforkIsActiveOnChain_def isSupportedHardfork_def gteHardfork_def
      hardforkGteHardfork_def getHardfork_def Let_def)

lemma sample_seals:
  "bh_common h = clique_common \<Longrightarrow> \<exists>e. cliqueSealBlock sample_block_cfg h (replicate 32 1) = Inr e"
proof -
  assume c: "bh_common h = clique_common"
  have "ecsign (txc_sign sample_tx_cfg) m (replicate 32 1) =
      Inr \<lparr>sig_v = 28, sig_r = sample_half, sig_s = sample_half\<rparr>" for m
    by (simp add: ecsign_def sample_tx_cfg_def slice_def sample_half_def)
  moreover have "bc_tx sample_block_cfg = sample_tx_cfg" by (simp add: sample_block_cfg_def)
  moreover have "intToBuffer 1 = Inr [1]" using intToBuffer_bit [of 1] by simp
  ultimately show ?thesis
    by (simp add: cliqueSealBlock_def cliqueSigHash_def requireClique_def c Let_def)
qed

theorem clique_seal_names_signer_witness:
  "\<exists>h. new_header sample_block_cfg (sample_fields 5) clique_opts = Inr h \<and>
     cliqueSigner sample_block_cfg h = Inr (replicate 20 6)"
proof -
  have f: "(sample_fields 5)\<lparr>bh_baseFeePerGas := Some 80\<rparr> = sample_fields 5" by (simp add: sample_fields_def)
  let ?h = "header_fields.extend (sample_fields 5) (block_header.fields clique_common)"
  have "validateHeaderFields ?h = Inr ()" "validateDAOExtraData ?h = Inr ()"
    by (simp_all add: validateHeaderFields_def check_nonce_length_def check_pos_fields_def validateDAOExtraData_def)
      (simp add: sample_fields_def zero_nonce_def require_def)
  moreover have "default_baseFee clique_common (sample_fields 5) = Inr (Some 80)"
    by (simp add: default_baseFee_def) (simp add: sample_fields_def)
  moreover obtain e where "cliqueSealBlock sample_block_cfg (?h\<lparr>bh_extraData := pad_extraData (bh_extraData ?h)\<rparr>)
      (replicate 32 1) = Inr e"
    using sample_seals [of "?h\<lparr>bh_extraData := pad_extraData (bh_extraData ?h)\<rparr>"] by auto
  ultimately obtain h where made: "new_header sample_block_cfg (sample_fields 5) clique_opts = Inr h"
    by (simp add: new_header_def clique_opts_def header_common_def plain_opts_def no_block_opts_def f Let_def)
  have "bn_of_bytes (slice (sample_half @ sample_half) 32 64) \<le> N_DIV_2" by code_simp
  then have "signs_for (bc_tx sample_block_cfg) (replicate 32 1) (replicate 64 6)"
    by (simp add: sample_block_cfg_def signs_for_def sample_tx_cfg_def sample_half_def)
  moreover have "bindS (pubToAddress (txc_keccak256 (bc_tx sample_block_cfg)) (replicate 64 6)) newAddress =
      Inr (replicate 20 6)"
    by (simp add: sample_block_cfg_def sample_tx_cfg_def pubToAddress_def newAddress_def setLengthLeft_def
        setLength_def)
  ultimately show ?thesis
    using clique_seal_names_signer [OF made, of "replicate 32 1"] made by (auto simp: clique_opts_def)
qed

end
