(* ===== verification/Trie_Spec.thy ===== *)
theory Trie_Spec
  imports Merkle_Trie
begin

text \<open>
  The tree that a trie stands for, as one value, and what lookups, insertions and deletions mean on
  it: the specification that \<open>Merkle_Trie\<close> implements with stacks of nodes, hashes and a database.
  A tree is a map from keys to values, and there is one well-formed tree for every map.
\<close>

datatype ptree =
    PLeaf nibbles bytes
  | PExt nibbles ptree
  | PBranch "ptree option list" "bytes option"

section \<open>Lookup\<close>

fun tget :: "nibbles \<Rightarrow> ptree \<Rightarrow> bytes option" where
  "tget k (PLeaf k' v) = (if k = k' then Some v else None)"
| "tget k (PExt k' t) = (if prefix k' k then tget (drop (length k') k) t else None)"
| "tget [] (PBranch ts w) = w"
| "tget (i # k) (PBranch ts w) = (if i < length ts then (case ts ! i of None \<Rightarrow> None | Some t \<Rightarrow> tget k t) else None)"

section \<open>Insertion\<close>

definition pext :: "nibbles \<Rightarrow> ptree \<Rightarrow> ptree" where
  "pext k t = (if k = [] then t else PExt k t)"

text \<open>A branch where two keys part, one leads to \<open>old\<close>.\<close>

definition no_children :: "ptree option list" where
  "no_children = replicate 16 None"

definition hang :: "nibbles \<Rightarrow> bytes \<Rightarrow> ptree \<Rightarrow> ptree" where
  "hang k v b = (case b of PBranch ts w \<Rightarrow>
     (case k of [] \<Rightarrow> PBranch ts (Some v) | i # k' \<Rightarrow> PBranch (ts[i := Some (PLeaf k' v)]) w) | _ \<Rightarrow> b)"

fun tput :: "nibbles \<Rightarrow> bytes \<Rightarrow> ptree \<Rightarrow> ptree" where
  "tput k v (PLeaf k' v') =
     (if k = k' then PLeaf k' v
      else (let n = matchingNibbleLength k' k
            in pext (take n k') (hang (drop n k) v (hang (drop n k') v' (PBranch no_children None)))))"
| "tput k v (PExt k' t) =
     (let n = matchingNibbleLength k' k
      in if n = length k' then PExt k' (tput (drop n k) v t)
         else pext (take n k') (hang (drop n k) v
                (PBranch (no_children[k' ! n := Some (pext (drop (Suc n) k') t)]) None)))"
| "tput [] v (PBranch ts w) = PBranch ts (Some v)"
| "tput (i # k) v (PBranch ts w) =
     PBranch (ts[i := Some (case ts ! i of None \<Rightarrow> PLeaf k v | Some t \<Rightarrow> tput k v t)]) w"

section \<open>Deletion\<close>

fun join :: "nibbles \<Rightarrow> ptree \<Rightarrow> ptree" where
  "join k (PLeaf k' v) = PLeaf (k @ k') v"
| "join k (PExt k' t) = PExt (k @ k') t"
| "join k (PBranch ts w) = PExt k (PBranch ts w)"

definition live :: "ptree option list \<Rightarrow> (nat \<times> ptree) list" where
  "live ts = concat (map (\<lambda>i. case ts ! i of None \<Rightarrow> [] | Some t \<Rightarrow> [(i, t)]) [0..<length ts])"

text \<open>As the code has it: a branch with one child is replaced by the child, also when it has a value.\<close>

definition collapse :: "ptree option list \<Rightarrow> bytes option \<Rightarrow> ptree" where
  "collapse ts w = (case live ts of [(i, t)] \<Rightarrow> join [i] t | _ \<Rightarrow> PBranch ts w)"

fun tdel :: "nibbles \<Rightarrow> ptree \<Rightarrow> ptree option" where
  "tdel k (PLeaf k' v) = (if k = k' then None else Some (PLeaf k' v))"
| "tdel k (PExt k' t) =
     (if prefix k' k
      then (case tdel (drop (length k') k) t of None \<Rightarrow> None | Some t' \<Rightarrow> Some (join k' t'))
      else Some (PExt k' t))"
| "tdel [] (PBranch ts w) = Some (collapse ts None)"
| "tdel (i # k) (PBranch ts w) =
     (case (if i < length ts then ts ! i else None) of
        None \<Rightarrow> Some (PBranch ts w)
      | Some t \<Rightarrow> (case tdel k t of
            None \<Rightarrow> Some (collapse (ts[i := None]) w)
          | Some t' \<Rightarrow> Some (PBranch (ts[i := Some t']) w)))"

section \<open>Well-formed trees\<close>

fun is_PBranch :: "ptree \<Rightarrow> bool" where
  "is_PBranch (PBranch ts w) = True"
| "is_PBranch _ = False"

text \<open>How many ways lead on from a branch.\<close>

definition ways :: "ptree option list \<Rightarrow> bytes option \<Rightarrow> nat" where
  "ways ts w = length (live ts) + (case w of None \<Rightarrow> 0 | Some v \<Rightarrow> 1)"

fun wf_tree :: "ptree \<Rightarrow> bool" where
  "wf_tree (PLeaf k v) \<longleftrightarrow> (\<forall>q\<in>set k. q < 16) \<and> v \<noteq> []"
| "wf_tree (PExt k t) \<longleftrightarrow> k \<noteq> [] \<and> (\<forall>q\<in>set k. q < 16) \<and> is_PBranch t \<and> wf_tree t"
| "wf_tree (PBranch ts w) \<longleftrightarrow> length ts = 16 \<and> w \<noteq> Some [] \<and> 2 \<le> ways ts w \<and>
     (\<forall>c\<in>set ts. case c of None \<Rightarrow> True | Some t \<Rightarrow> wf_tree t)"

text \<open>All keys have the same length, so no branch has a value.\<close>

fun keys_of_length :: "nat \<Rightarrow> ptree \<Rightarrow> bool" where
  "keys_of_length n (PLeaf k v) \<longleftrightarrow> length k = n"
| "keys_of_length n (PExt k t) \<longleftrightarrow> length k \<le> n \<and> keys_of_length (n - length k) t"
| "keys_of_length n (PBranch ts w) \<longleftrightarrow> w = None \<and> 0 < n \<and>
     (\<forall>c\<in>set ts. case c of None \<Rightarrow> True | Some t \<Rightarrow> keys_of_length (n - 1) t)"

lemma all_set_option:
  "(\<forall>c\<in>set cs. case c of None \<Rightarrow> True | Some t \<Rightarrow> P t) \<longleftrightarrow> (\<forall>i<length cs. \<forall>t. cs ! i = Some t \<longrightarrow> P t)"
  by (auto simp: all_set_conv_all_nth split: option.splits)

lemma wf_branch [simp]:
  "wf_tree (PBranch ts w) \<longleftrightarrow> length ts = 16 \<and> w \<noteq> Some [] \<and> 2 \<le> ways ts w \<and>
     (\<forall>i<16. \<forall>t. ts ! i = Some t \<longrightarrow> wf_tree t)"
  by (auto simp: all_set_option)

lemma keys_branch [simp]:
  "keys_of_length n (PBranch ts w) \<longleftrightarrow> w = None \<and> 0 < n \<and>
     (\<forall>i<length ts. \<forall>t. ts ! i = Some t \<longrightarrow> keys_of_length (n - 1) t)"
  by (simp add: all_set_option)

declare wf_tree.simps(3) [simp del] keys_of_length.simps(3) [simp del]

lemma in_live: "(i, t) \<in> set (live ts) \<longleftrightarrow> i < length ts \<and> ts ! i = Some t"
  by (auto simp: live_def split: option.splits)

lemma live_Cons:
  "live (c # ts) = (case c of None \<Rightarrow> [] | Some t \<Rightarrow> [(0, t)]) @ map (\<lambda>(i, t). (Suc i, t)) (live ts)"
  by (simp add: live_def upt_conv_Cons map_concat o_def flip: map_Suc_upt del: upt_Suc)
    (rule arg_cong [where f = concat], auto split: option.split)

lemma distinct_live: "distinct (live ts)"
proof (induction ts)
  case (Cons c ts)
  then show ?case by (auto simp: live_Cons distinct_map inj_on_def split: option.split)
qed (simp add: live_def)

lemma length_live: "length (live ts) = length (filter (\<lambda>c. c \<noteq> None) ts)"
proof (induction ts)
  case (Cons c ts)
  then show ?case by (cases c) (simp_all add: live_Cons)
qed (simp add: live_def)

lemma length_live_update:
  "i < length ts \<Longrightarrow> length (live (ts[i := c])) + (if ts ! i = None then 0 else 1) =
     length (live ts) + (if c = None then 0 else 1)"
proof (induction ts arbitrary: i)
  case (Cons c' ts)
  show ?case
  proof (cases i)
    case 0
    then show ?thesis by (auto simp: length_live)
  next
    case (Suc j)
    with Cons.prems Cons.IH [of j] show ?thesis by (auto simp: length_live split: if_splits)
  qed
qed simp

section \<open>Insertion is a map update\<close>

abbreviation hex :: "nibbles \<Rightarrow> bool" where
  "hex k \<equiv> \<forall>q\<in>set k. q < 16"

lemma tget_pext [simp]:
  "tget k (pext p t) = (if prefix p k then tget (drop (length p) k) t else None)"
  by (auto simp: pext_def)

lemma no_children_simps [simp]: "length no_children = 16" "i < 16 \<Longrightarrow> no_children ! i = None"
  "live no_children = []"
  by (simp_all add: no_children_def length_live flip: length_0_conv)

lemma hang_Nil [simp]: "hang [] v (PBranch ts w) = PBranch ts (Some v)"
  and hang_Cons [simp]: "hang (i # k) v (PBranch ts w) = PBranch (ts[i := Some (PLeaf k v)]) w"
  by (simp_all add: hang_def)

text \<open>Two keys that part after \<open>m\<close>: the tree that is built there has both, and nothing else.\<close>

lemma tget_part:
  assumes "a = [] \<or> b = [] \<or> hd a \<noteq> hd b" "a \<noteq> b" "hex a" "hex b"
  shows "tget k (hang b v (hang a v' (PBranch no_children None))) =
    (if k = b then Some v else if k = a then Some v' else None)"
  using assms by (cases a; cases b; cases k) (auto simp: nth_list_update)

lemma tget_part_ext:
  assumes "b = [] \<or> i \<noteq> hd b" "hex b" "i < 16"
  shows "tget k (hang b v (PBranch (no_children[i := Some t]) None)) =
    (if k = b then Some v else if k \<noteq> [] \<and> hd k = i then tget (tl k) t else None)"
  using assms by (cases b; cases k) (auto simp: nth_list_update)

lemma tget_tput:
  "wf_tree t \<Longrightarrow> hex k \<Longrightarrow> tget q (tput k v t) = (if q = k then Some v else tget q t)"
proof (induction k v t arbitrary: q rule: tput.induct)
  case (1 k v k' v')
  show ?case
  proof (cases "k = k'")
    case False
    obtain m a b where m: "k' = m @ a" "k = m @ b" "matchingNibbleLength k' k = length m"
      "a = [] \<or> b = [] \<or> hd a \<noteq> hd b" using matching_split by metis
    with False 1 have "tget q (tput k v (PLeaf k' v')) =
        (if prefix m q then if drop (length m) q = b then Some v
           else if drop (length m) q = a then Some v' else None else None)"
      by (simp add: tget_part)
    with m False show ?thesis by (auto simp: prefix_def)
  qed simp
next
  case (2 k v k' t)
  obtain m a b where m: "k' = m @ a" "k = m @ b" "matchingNibbleLength k' k = length m"
    "a = [] \<or> b = [] \<or> hd a \<noteq> hd b" using matching_split by metis
  show ?case
  proof (cases a)
    case Nil
    with m 2 show ?thesis by (auto simp: prefix_def)
  next
    case (Cons i a')
    with m have i: "k' ! length m = i" "drop (Suc (length m)) k' = a'" "i < 16" "hex b"
      using 2 by auto
    from Cons m have "tget q (tput k v (PExt k' t)) =
       (if prefix m q then tget (drop (length m) q) (hang b v (PBranch (no_children[i := Some (pext a' t)]) None)) else None)"
      using i by simp
    also have "\<dots> = (if q = k then Some v else tget q (PExt k' t))"
      using m Cons i by (subst tget_part_ext) (auto simp: prefix_def neq_Nil_conv)
    finally show ?thesis .
  qed
next
  case (3 v ts w)
  then show ?case by (cases q) auto
next
  case (4 i k v ts w)
  then have i: "i < length ts" by simp
  have "tget q' (case ts ! i of None \<Rightarrow> PLeaf k v | Some t \<Rightarrow> tput k v t) =
     (if q' = k then Some v else case ts ! i of None \<Rightarrow> None | Some t \<Rightarrow> tget q' t)" for q'
    using 4 i by (auto split: option.split)
  with i show ?case by (cases q) (auto simp: nth_list_update)
qed

section \<open>Insertion keeps trees well-formed\<close>

lemma live_update:
  "i < length ts \<Longrightarrow> length (live (ts[i := Some t])) = length (live ts) + (if ts ! i = None then 1 else 0)"
  using length_live_update [of i ts "Some t"] by (simp split: if_splits)

lemma ways_update:
  "i < length ts \<Longrightarrow> ways (ts[i := Some t]) w = ways ts w + (if ts ! i = None then 1 else 0)"
  by (simp add: ways_def live_update)

lemma ways_no_children [simp]: "ways no_children w = (case w of None \<Rightarrow> 0 | Some v \<Rightarrow> 1)"
  by (simp add: ways_def)

lemma is_PBranch_hang [simp]: "is_PBranch (hang k v t) = is_PBranch t"
  by (cases t; cases k) (simp_all add: hang_def)

lemma wf_pext: "hex k \<Longrightarrow> wf_tree t \<Longrightarrow> is_PBranch t \<Longrightarrow> wf_tree (pext k t)"
  by (simp add: pext_def)

lemma wf_part:
  assumes "a = [] \<or> b = [] \<or> hd a \<noteq> hd b" "a \<noteq> b" "hex a" "hex b" "v \<noteq> []" "v' \<noteq> []"
  shows "wf_tree (hang b v (hang a v' (PBranch no_children None)))"
  using assms by (cases a; cases b)
    (auto simp: ways_update nth_list_update ways_def live_update
      split: if_splits)

lemma wf_part_ext:
  assumes "b = [] \<or> i \<noteq> hd b" "hex b" "i < 16" "wf_tree t" "v \<noteq> []"
  shows "wf_tree (hang b v (PBranch (no_children[i := Some t]) None))"
  using assms by (cases b)
    (auto simp: ways_update nth_list_update ways_def live_update
      split: if_splits)

lemma is_PBranch_tput: "is_PBranch t \<Longrightarrow> is_PBranch (tput k v t)"
  by (cases t; cases k) auto

lemma wf_tput: "wf_tree t \<Longrightarrow> hex k \<Longrightarrow> v \<noteq> [] \<Longrightarrow> wf_tree (tput k v t)"
proof (induction k v t rule: tput.induct)
  case (1 k v k' v')
  obtain m a b where m: "k' = m @ a" "k = m @ b" "matchingNibbleLength k' k = length m"
    "a = [] \<or> b = [] \<or> hd a \<noteq> hd b" using matching_split by metis
  with 1 show ?case by (auto intro!: wf_pext wf_part)
next
  case (2 k v k' t)
  obtain m a b where m: "k' = m @ a" "k = m @ b" "matchingNibbleLength k' k = length m"
    "a = [] \<or> b = [] \<or> hd a \<noteq> hd b" using matching_split by metis
  show ?case
  proof (cases a)
    case Nil
    with m 2 show ?thesis by (auto simp: is_PBranch_tput)
  next
    case (Cons i a')
    then have a': "wf_tree (pext a' t)" using 2 m by (auto intro: wf_pext)
    from Cons m have "tput k v (PExt k' t) =
        pext m (hang b v (PBranch (no_children[i := Some (pext a' t)]) None))" by simp
    with Cons m 2 a' show ?thesis by (auto intro!: wf_pext wf_part_ext)
  qed
next
  case (3 v ts w)
  then show ?case by (auto simp: ways_def split: option.splits)
next
  case (4 i k v ts w)
  then have i: "i < length ts" "length ts = 16" by simp_all
  have "wf_tree (case ts ! i of None \<Rightarrow> PLeaf k v | Some t \<Rightarrow> tput k v t)"
    using 4 i by (auto split: option.split)
  with 4 i show ?case by (auto simp: ways_update nth_list_update split: if_splits)
qed

section \<open>One tree for every map\<close>

text \<open>A well-formed tree is not empty, and a branch has keys that part at once.\<close>

lemma tget_nonempty: "wf_tree t \<Longrightarrow> \<exists>k v. tget k t = Some v"
proof (induction t)
  case (PLeaf k v)
  then show ?case by auto
next
  case (PExt k t)
  then obtain q v where "tget q t = Some v" by auto
  then have "tget (k @ q) (PExt k t) = Some v" by simp
  then show ?case by blast
next
  case (PBranch ts w)
  show ?case
  proof (cases w)
    case None
    with PBranch have "live ts \<noteq> []" by (auto simp: ways_def)
    then obtain i t where "(i, t) \<in> set (live ts)" by (cases "live ts") auto
    then have i: "i < length ts" "ts ! i = Some t" by (auto simp: in_live)
    with PBranch have "wf_tree t" by auto
    then obtain q v where "tget q t = Some v" using PBranch.IH i by (metis nth_mem option.set_intros)
    with i have "tget (i # q) (PBranch ts w) = Some v" by simp
    then show ?thesis by blast
  next
    case (Some v)
    then have "tget [] (PBranch ts w) = Some v" by simp
    then show ?thesis by blast
  qed
qed

text \<open>The keys of a branch do not start with the same nibble, those below an extension do.\<close>

lemma branch_parts:
  assumes "wf_tree (PBranch ts w)"
  shows "\<not> (\<exists>p. p \<noteq> [] \<and> (\<forall>k v. tget k (PBranch ts w) = Some v \<longrightarrow> prefix p k))"
proof
  assume "\<exists>p. p \<noteq> [] \<and> (\<forall>k v. tget k (PBranch ts w) = Some v \<longrightarrow> prefix p k)"
  then obtain i p where p: "\<And>k v. tget k (PBranch ts w) = Some v \<Longrightarrow> prefix (i # p) k"
    by (metis neq_Nil_conv)
  from p [of "[]"] have w: "w = None" by (cases w) auto
  have "j = i" if "(j, t) \<in> set (live ts)" for j t
  proof -
    from that have j: "j < length ts" "ts ! j = Some t" by (auto simp: in_live)
    with assms have "wf_tree t" by simp
    then obtain q v where "tget q t = Some v" using tget_nonempty by blast
    with j have "tget (j # q) (PBranch ts w) = Some v" by simp
    with p show ?thesis by fastforce
  qed
  then have "set (live ts) \<subseteq> {(i, the (ts ! i))}" by (auto simp: in_live)
  moreover have "distinct (live ts)" by (rule distinct_live)
  ultimately have "length (live ts) \<le> 1"
    by (metis card_mono distinct_card finite.emptyI finite_insert is_singletonI is_singleton_altdef)
  with assms w show False by (simp add: ways_def)
qed

lemma tget_leaf_unique: "tget k (PLeaf k' v) = Some v' \<Longrightarrow> k = k' \<and> v' = v"
  by (simp split: if_splits)

lemma wf_two_keys:
  assumes "wf_tree (PBranch ts w)"
  shows "\<exists>k v k' v'. k \<noteq> k' \<and> tget k (PBranch ts w) = Some v \<and> tget k' (PBranch ts w) = Some v'"
proof (rule ccontr)
  assume n: "\<not> ?thesis"
  obtain k v where k: "tget k (PBranch ts w) = Some v" using tget_nonempty assms by blast
  show False
  proof (cases k)
    case Nil
    have "live ts \<noteq> []" using assms by (cases w) (auto simp: ways_def)
    then obtain j t where "(j, t) \<in> set (live ts)" by (cases "live ts") auto
    then have j: "j < length ts" "ts ! j = Some t" by (auto simp: in_live)
    with assms have "wf_tree t" by simp
    then obtain q v where "tget q t = Some v" using tget_nonempty by blast
    with j have "tget (j # q) (PBranch ts w) = Some v" by simp
    with n k Nil show ?thesis by blast
  next
    case (Cons i p)
    have "prefix k k'" if "tget k' (PBranch ts w) = Some v'" for k' v'
    proof -
      from n k that have "k' = k" by metis
      then show ?thesis by simp
    qed
    with branch_parts [OF assms] Cons show ?thesis by blast
  qed
qed

lemma two_keys: "wf_tree t \<Longrightarrow> tget k t = Some v \<Longrightarrow> (\<And>k'. k' \<noteq> k \<Longrightarrow> tget k' t = None) \<Longrightarrow> \<exists>k' v'. t = PLeaf k' v'"
proof (cases t)
  case (PExt p u)
  assume t: "wf_tree t" "tget k t = Some v" "\<And>k'. k' \<noteq> k \<Longrightarrow> tget k' t = None"
  with PExt obtain ts w where u: "u = PBranch ts w" "wf_tree (PBranch ts w)" by (cases u) auto
  then obtain q r x y where "q \<noteq> r" "tget q u = Some x" "tget r u = Some y" using wf_two_keys by blast
  then have "p @ q \<noteq> p @ r" "tget (p @ q) t = Some x" "tget (p @ r) t = Some y" using PExt by simp_all
  with t(3) have False by (metis option.distinct(1))
  then show ?thesis ..
next
  case (PBranch ts w)
  assume t: "wf_tree t" "tget k t = Some v" "\<And>k'. k' \<noteq> k \<Longrightarrow> tget k' t = None"
  with PBranch obtain q r x y where "q \<noteq> r" "tget q t = Some x" "tget r t = Some y" using wf_two_keys by blast
  with t(3) have False by (metis option.distinct(1))
  then show ?thesis ..
qed simp

lemma ext_key_unique:
  assumes "wf_tree (PExt k t)" "wf_tree (PExt k' t')" "\<And>q. tget q (PExt k t) = tget q (PExt k' t')"
  shows "k = k'"
proof -
  have no_longer: False
    if "wf_tree (PExt k t)" "\<And>q. tget q (PExt k t) = tget q (PExt (k @ p) t')" "p \<noteq> []" for k t p t'
  proof -
    from that(1) obtain ts w where t: "t = PBranch ts w" "wf_tree (PBranch ts w)" by (cases t) auto
    have "prefix p q" if "tget q t = Some v" for q v
    proof -
      have "tget (k @ q) (PExt (k @ p) t') = Some v"
        using that \<open>\<And>q. tget q (PExt k t) = tget q (PExt (k @ p) t')\<close> [of "k @ q"] by simp
      then show ?thesis by (simp split: if_splits)
    qed
    with branch_parts [OF t(2)] t(1) \<open>p \<noteq> []\<close> show False by blast
  qed
  obtain q v where q: "tget q (PExt k t) = Some v" using tget_nonempty assms(1) by blast
  then have "prefix k q" "prefix k' q" using assms(3) [of q] by (auto split: if_splits)
  then consider p where "k' = k @ p" | p where "k = k' @ p" by (metis prefix_def prefix_same_cases)
  then show ?thesis
  proof cases
    case 1
    with no_longer [of k t p t'] assms show ?thesis by (cases "p = []") auto
  next
    case 2
    with no_longer [of k' t' p t] assms show ?thesis by (cases "p = []") auto
  qed
qed

theorem tree_unique: "wf_tree t \<Longrightarrow> wf_tree t' \<Longrightarrow> (\<And>k. tget k t = tget k t') \<Longrightarrow> t = t'"
proof (induction t arbitrary: t')
  case (PLeaf k v)
  then have "tget k t' = Some v" "\<And>q. q \<noteq> k \<Longrightarrow> tget q t' = None" by (metis tget.simps(1))+
  moreover then obtain k' v' where "t' = PLeaf k' v'" using two_keys PLeaf.prems(2) by blast
  ultimately show ?case by (auto split: if_splits)
next
  case (PExt k t)
  show ?case
  proof (cases t')
    case (PLeaf k' v')
    with PExt.prems two_keys [of "PExt k t" k' v'] show ?thesis by auto
  next
    case t': (PExt k' u)
    have k: "k = k'" using ext_key_unique PExt.prems unfolding t' by blast
    have "tget q t = tget q u" for q using PExt.prems(3) [of "k @ q"] t' k by simp
    with PExt t' k show ?thesis by simp
  next
    case (PBranch ts w)
    then have "prefix k q" if "tget q (PBranch ts w) = Some v" for q v
      using PExt.prems(3) [of q] that by (auto split: if_splits)
    with branch_parts [of ts w] PBranch PExt.prems show ?thesis by auto
  qed
next
  case (PBranch ts w)
  show ?case
  proof (cases t')
    case (PLeaf k' v')
    with PBranch.prems two_keys [of "PBranch ts w" k' v'] show ?thesis by auto
  next
    case (PExt k u)
    then have pre: "prefix k q" if "tget q (PBranch ts w) = Some v" for q v
      using PBranch.prems(3) [of q] that by (auto split: if_splits)
    have "k \<noteq> []" using PBranch.prems(2) PExt by simp
    with branch_parts [OF PBranch.prems(1)] pre show ?thesis by blast
  next
    case t': (PBranch us x)
    have len: "length ts = 16" "length us = 16" using PBranch.prems t' by simp_all
    have "ts ! i = us ! i" if i: "i < 16" for i
    proof -
      have q: "(case ts ! i of None \<Rightarrow> None | Some t \<Rightarrow> tget q t) = (case us ! i of None \<Rightarrow> None | Some t \<Rightarrow> tget q t)" for q
        using len t' i PBranch.prems(3) [of "i # q"] by simp
      show ?thesis
      proof (cases "ts ! i")
        case None
        show ?thesis
        proof (cases "us ! i")
          case (Some u)
          then have "wf_tree u" using PBranch.prems(2) t' i by simp
          then obtain k v where "tget k u = Some v" using tget_nonempty by blast
          with q [of k] None Some show ?thesis by simp
        qed (simp add: None)
      next
        case (Some t)
        then have t: "wf_tree t" using PBranch.prems(1) i by simp
        obtain k v where "tget k t = Some v" using tget_nonempty [OF t] by blast
        with q [of k] Some obtain u where u: "us ! i = Some u" by (cases "us ! i") auto
        with Some q have "tget k t = tget k u" for k by simp
        moreover have "Some t \<in> set ts" using Some i PBranch.prems(1) by (metis nth_mem wf_branch)
        moreover have "wf_tree u" using u i PBranch.prems(2) t' by simp
        ultimately show ?thesis using PBranch.IH [of "Some t" t u] t Some u by simp
      qed
    qed
    with PBranch.prems t' have "ts = us" by (auto intro: nth_equalityI)
    moreover have "w = x" using PBranch.prems(3) [of "[]"] t' by simp
    ultimately show ?thesis using t' by simp
  qed
qed

section \<open>Deletion removes a key\<close>

lemma tget_join [simp]: "tget k (join p t) = (if prefix p k then tget (drop (length p) k) t else None)"
  by (cases t) (auto simp: prefix_def)

lemma live_single:
  assumes "live ts = [(i, t)]"
  shows "i < length ts" "ts ! i = Some t" "\<And>j. j < length ts \<Longrightarrow> j \<noteq> i \<Longrightarrow> ts ! j = None"
proof -
  show "i < length ts" "ts ! i = Some t" using in_live [of i t ts] assms by auto
  show "ts ! j = None" if "j < length ts" "j \<noteq> i" for j
    using in_live [of j _ ts] assms that by (cases "ts ! j") auto
qed

lemma tget_collapse: "tget k (collapse ts None) = tget k (PBranch ts None)"
proof (cases "\<exists>i t. live ts = [(i, t)]")
  case True
  then obtain i t where l: "live ts = [(i, t)]" by blast
  with live_single [OF l] show ?thesis by (cases k) (auto simp: collapse_def)
qed (auto simp: collapse_def split: list.splits)

text \<open>With keys of one length; \<open>delete_drops_sibling\<close> in \<open>Trie_Refinement\<close> shows what happens with others.\<close>

lemma keys_of_length_get: "keys_of_length n t \<Longrightarrow> tget k t = Some v \<Longrightarrow> length k = n"
proof (induction k t arbitrary: n rule: tget.induct)
  case (2 k k' t)
  then show ?case by (fastforce split: if_splits simp: prefix_def)
next
  case (4 i k ts w)
  then show ?case by (fastforce split: if_splits option.splits)
qed (auto split: if_splits)

lemma tdel_None_leaf: "tdel k t = None \<Longrightarrow> keys_of_length n t \<Longrightarrow> tget k t \<noteq> None \<and> (\<forall>q. q \<noteq> k \<longrightarrow> tget q t = None)"
proof (induction k t arbitrary: n rule: tdel.induct)
  case (2 k k' t)
  then have p: "prefix k' k" "tdel (drop (length k') k) t = None" by (auto split: if_splits option.splits)
  with 2 have "tget (drop (length k') k) t \<noteq> None \<and> (\<forall>q. q \<noteq> drop (length k') k \<longrightarrow> tget q t = None)" by auto
  with p show ?case by (auto simp: prefix_def)
qed (auto split: if_splits option.splits)

lemma tget_tdel:
  "keys_of_length n t \<Longrightarrow> wf_tree t \<Longrightarrow> tdel k t = Some t' \<Longrightarrow> tget q t' = (if q = k then None else tget q t)"
proof (induction k t arbitrary: n q t' rule: tdel.induct)
  case (1 k k' v)
  then show ?case by (auto split: if_splits)
next
  case (2 k k' t)
  show ?case
  proof (cases "prefix k' k")
    case True
    with 2 obtain u where u: "tdel (drop (length k') k) t = Some u" "t' = join k' u" by (auto split: option.splits)
    with 2 True have "tget q u = (if q = drop (length k') k then None else tget q t)" for q by auto
    with u True show ?thesis by (auto simp: prefix_def)
  next
    case False
    with 2 show ?thesis by auto
  qed
next
  case (3 ts w)
  then show ?case by (cases q) (auto simp: tget_collapse)
next
  case (4 i k ts w)
  show ?case
  proof (cases "i < length ts \<and> ts ! i \<noteq> None")
    case False
    with 4 have "t' = PBranch ts w" by (auto split: if_splits option.splits)
    with False show ?thesis by auto
  next
    case True
    then obtain t where t: "i < length ts" "ts ! i = Some t" by auto
    with 4 have k: "keys_of_length (n - 1) t" "wf_tree t" "w = None" by auto
    show ?thesis
    proof (cases "tdel k t")
      case None
      then have "tget k t \<noteq> None \<and> (\<forall>q. q \<noteq> k \<longrightarrow> tget q t = None)" using tdel_None_leaf k by blast
      with None 4 t k show ?thesis by (cases q) (auto simp: tget_collapse nth_list_update)
    next
      case (Some u)
      with 4 t k have "tget q u = (if q = k then None else tget q t)" for q by auto
      with Some 4 t show ?thesis by (cases q) (auto simp: nth_list_update)
    qed
  qed
qed

section \<open>Deletion keeps trees well-formed\<close>

lemma wf_join: "wf_tree t \<Longrightarrow> hex p \<Longrightarrow> p \<noteq> [] \<Longrightarrow> wf_tree (join p t)"
  by (cases t) auto

lemma keys_join: "keys_of_length n t \<Longrightarrow> keys_of_length (length p + n) (join p t)"
  by (cases t) auto

lemma wf_collapse:
  assumes "length ts = 16" "\<forall>i<16. \<forall>t. ts ! i = Some t \<longrightarrow> wf_tree t" "live ts \<noteq> []"
  shows "wf_tree (collapse ts None)"
proof (cases "\<exists>i t. live ts = [(i, t)]")
  case True
  then obtain i t where l: "live ts = [(i, t)]" by blast
  with live_single [OF l] assms have "i < 16" "wf_tree t" by auto
  with l show ?thesis by (auto simp: collapse_def intro!: wf_join)
next
  case False
  then have "2 \<le> length (live ts)" using assms(3) by (cases "live ts"; cases "tl (live ts)") auto
  with assms False show ?thesis by (auto simp: collapse_def ways_def split: list.splits)
qed

lemma keys_collapse:
  assumes "keys_of_length n (PBranch ts None)"
  shows "keys_of_length n (collapse ts None)"
proof (cases "\<exists>i t. live ts = [(i, t)]")
  case True
  then obtain i t where l: "live ts = [(i, t)]" by blast
  with live_single [OF l] assms have "keys_of_length (n - 1) t" "0 < n" by auto
  with keys_join [of "n - 1" t "[i]"] l show ?thesis by (simp add: collapse_def)
qed (use assms in \<open>auto simp: collapse_def split: list.splits\<close>)

lemma wf_tdel:
  "keys_of_length n t \<Longrightarrow> wf_tree t \<Longrightarrow> hex k \<Longrightarrow> tdel k t = Some t' \<Longrightarrow> length k = n \<Longrightarrow> wf_tree t' \<and> keys_of_length n t'"
proof (induction k t arbitrary: n t' rule: tdel.induct)
  case (1 k k' v)
  then show ?case by (auto split: if_splits)
next
  case (2 k k' t)
  show ?case
  proof (cases "prefix k' k")
    case True
    with 2 obtain u where u: "tdel (drop (length k') k) t = Some u" "t' = join k' u" by (auto split: option.splits)
    have "hex (drop (length k') k)" using 2 in_set_dropD by fast
    with u True 2 have "wf_tree u \<and> keys_of_length (n - length k') u" by auto
    with u 2 keys_join [of "n - length k'" u k'] show ?thesis by (auto intro: wf_join)
  qed (use 2 in auto)
next
  case (3 ts w)
  then show ?case by auto
next
  case (4 i k ts w)
  show ?case
  proof (cases "ts ! i")
    case None
    with 4 show ?thesis by auto
  next
    case (Some t)
    with 4 have k: "keys_of_length (n - 1) t" "wf_tree t" "w = None" "i < 16" "length ts = 16" by auto
    show ?thesis
    proof (cases "tdel k t")
      case None
      have "Suc (length (live (ts[i := None]))) = length (live ts)"
        using length_live_update [of i ts None] k Some by simp
      moreover have "2 \<le> length (live ts)" using 4 k by (simp add: ways_def)
      ultimately have "live (ts[i := None]) \<noteq> []" by auto
      then have "wf_tree (collapse (ts[i := None]) None)"
        using 4 k by (intro wf_collapse) (auto simp: nth_list_update)
      moreover have "keys_of_length n (collapse (ts[i := None]) None)"
        using 4 k by (intro keys_collapse) (auto simp: nth_list_update)
      ultimately show ?thesis using 4 k Some None by simp
    next
      case u: (Some u)
      with 4 Some k have "wf_tree u \<and> keys_of_length (n - 1) u" by auto
      with 4 Some k u show ?thesis by (auto simp: nth_list_update ways_update)
    qed
  qed
qed

lemma get_keys_of_length:
  "wf_tree t \<Longrightarrow> (\<And>k v. tget k t = Some v \<Longrightarrow> length k = n) \<Longrightarrow> keys_of_length n t"
proof (induction t arbitrary: n)
  case (PLeaf k v)
  from PLeaf.prems(2) [of k v] show ?case by simp
next
  case (PExt k t)
  have t: "k \<noteq> []" "hex k" "is_PBranch t" "wf_tree t" using PExt.prems(1) by simp_all
  then obtain q v where "tget q t = Some v" using tget_nonempty by blast
  with PExt.prems(2) [of "k @ q" v] have "length k \<le> n" by simp
  moreover have "keys_of_length (n - length k) t"
  proof (rule PExt.IH [OF t(4)])
    show "length q = n - length k" if "tget q t = Some v" for q v
      using PExt.prems(2) [of "k @ q" v] that by simp
  qed
  ultimately show ?case by simp
next
  case (PBranch ts w)
  have child: "keys_of_length (n - 1) t \<and> 0 < n" if i: "i < 16" "ts ! i = Some t" for i t
  proof -
    have t: "wf_tree t" "Some t \<in> set ts" using i PBranch.prems(1) by (auto simp: in_set_conv_nth)
    have l: "Suc (length q) = n" if "tget q t = Some v" for q v
      using PBranch.prems(2) [of "i # q" v] PBranch.prems(1) i that by simp
    moreover obtain q v where "tget q t = Some v" using tget_nonempty t by blast
    ultimately have "0 < n" by auto
    moreover have "keys_of_length (n - 1) t"
    proof (rule PBranch.IH [OF t(2) _ t(1)])
      show "length q = n - 1" if "tget q t = Some v" for q v using l [OF that] by simp
    qed simp
    ultimately show ?thesis by simp
  qed
  have "live ts \<noteq> []" using PBranch.prems(1) by (cases w) (auto simp: ways_def)
  then obtain i t where "(i, t) \<in> set (live ts)" by (cases "live ts") auto
  then have "0 < n" using child [of i t] PBranch.prems(1) by (simp add: in_live)
  moreover then have "w = None" using PBranch.prems(2) [of "[]"] by (cases w) auto
  ultimately show ?case using child PBranch.prems(1) by simp
qed

lemma keys_tput:
  assumes "keys_of_length n t" "wf_tree t" "length k = n" "hex k" "v \<noteq> []"
  shows "keys_of_length n (tput k v t)"
  using assms keys_of_length_get [OF assms(1)]
  by (intro get_keys_of_length) (auto simp: wf_tput tget_tput split: if_splits)

end
