(* ===== verification/Trie_Refinement.thy ===== *)
theory Trie_Refinement
  imports Trie_Spec
begin

text \<open>
  The trie of \<open>Merkle_Trie\<close> stores a tree of \<open>Trie_Spec\<close>: the root is the hash of the tree's top node,
  and the database has every node that is not embedded in its parent. Lookups, insertions and
  deletions of the trie are those of the tree, so the root hash is a function of the content.

  Hashes are assumed to be free of collisions on the nodes that occur, a set \<open>N\<close>, and RLP to read
  back what it wrote for them (\<open>codec_ok\<close>).
\<close>

section \<open>The nodes of a tree\<close>

definition format_ref :: "trie_cfg \<Rightarrow> bool \<Rightarrow> rlp \<Rightarrow> rlp" where
  "format_ref cfg topLevel x =
     (if 32 \<le> length (cfg_encode cfg x) \<or> topLevel then Item (cfg_hash cfg (cfg_encode cfg x)) else x)"

definition raw_value :: "bytes option \<Rightarrow> rlp" where
  "raw_value w = (case w of None \<Rightarrow> Item [] | Some v \<Rightarrow> Item v)"

fun traw :: "trie_cfg \<Rightarrow> ptree \<Rightarrow> rlp" where
  "traw cfg (PLeaf k v) = node_raw (Leaf k (Item v))"
| "traw cfg (PExt k t) = node_raw (Extension k (format_ref cfg False (traw cfg t)))"
| "traw cfg (PBranch ts w) =
     Items (map (\<lambda>c. case c of None \<Rightarrow> Item [] | Some t \<Rightarrow> format_ref cfg False (traw cfg t)) ts @ [raw_value w])"

definition child_ref :: "trie_cfg \<Rightarrow> ptree option \<Rightarrow> rlp" where
  "child_ref cfg c = (case c of None \<Rightarrow> Item [] | Some t \<Rightarrow> format_ref cfg False (traw cfg t))"

text \<open>The node as it is read from the database.\<close>

definition tnode :: "trie_cfg \<Rightarrow> ptree \<Rightarrow> trie_node" where
  "tnode cfg t = (case t of
       PLeaf k v \<Rightarrow> Leaf k (Item v)
     | PExt k u \<Rightarrow> Extension k (format_ref cfg False (traw cfg u))
     | PBranch ts w \<Rightarrow> Branch (map (\<lambda>c. Some (child_ref cfg c)) ts) (Some (raw_value w)))"

fun subtrees :: "ptree \<Rightarrow> ptree set" where
  "subtrees (PLeaf k v) = {PLeaf k v}"
| "subtrees (PExt k t) = insert (PExt k t) (subtrees t)"
| "subtrees (PBranch ts w) =
     insert (PBranch ts w) (\<Union>c\<in>set ts. case c of None \<Rightarrow> {} | Some t \<Rightarrow> subtrees t)"

definition nodes :: "trie_cfg \<Rightarrow> ptree \<Rightarrow> rlp set" where
  "nodes cfg t = traw cfg ` subtrees t"

lemma traw_branch: "traw cfg (PBranch ts w) = Items (map (child_ref cfg) ts @ [raw_value w])"
  by (simp add: child_ref_def [abs_def])

declare traw.simps(3) [simp del]

lemma node_raw_tnode [simp]: "node_raw (tnode cfg t) = traw cfg t"
  by (cases t) (simp_all add: tnode_def node_raw_def traw_branch o_def)

lemma read_back_tnode [simp]: "read_back (tnode cfg t) = tnode cfg t"
  by (cases t) (simp_all add: tnode_def read_back_def)

lemma node_ok_tnode: "wf_tree t \<Longrightarrow> node_ok (tnode cfg t)"
  by (cases t) (auto simp: tnode_def node_ok_def)

lemma nodes_simps [simp]:
  "nodes cfg (PLeaf k v) = {traw cfg (PLeaf k v)}"
  "nodes cfg (PExt k t) = insert (traw cfg (PExt k t)) (nodes cfg t)"
  by (simp_all add: nodes_def)

lemma nodes_branch:
  "nodes cfg (PBranch ts w) = insert (traw cfg (PBranch ts w)) (\<Union>c\<in>set ts. case c of None \<Rightarrow> {} | Some t \<Rightarrow> nodes cfg t)"
  by (auto simp: nodes_def split: option.splits) force

lemma nodes_child: "i < length ts \<Longrightarrow> ts ! i = Some t \<Longrightarrow> nodes cfg t \<subseteq> nodes cfg (PBranch ts w)"
  by (auto simp: nodes_branch split: option.splits) (metis nth_mem)

lemma nodes_self: "traw cfg t \<in> nodes cfg t"
  by (cases t) (simp_all add: nodes_branch)

section \<open>Trees in a database\<close>

definition codec_ok :: "trie_cfg \<Rightarrow> rlp set \<Rightarrow> bool" where
  "codec_ok cfg N \<longleftrightarrow> inj_on (\<lambda>x. cfg_hash cfg (cfg_encode cfg x)) N \<and>
     (\<forall>x\<in>N. cfg_decode cfg (cfg_encode cfg x) = Inr x \<and> length (cfg_hash cfg (cfg_encode cfg x)) = 32 \<and>
        cfg_hash cfg (cfg_encode cfg x) \<noteq> KECCAK256_RLP)"

definition db_of :: "bytes ctrie \<Rightarrow> bytes \<rightharpoonup> bytes" where
  "db_of s = db_view (leveldb s) (db_checkpoints s)"

definition stored :: "trie_cfg \<Rightarrow> (bytes \<rightharpoonup> bytes) \<Rightarrow> ptree \<Rightarrow> bool" where
  "stored cfg db t \<longleftrightarrow> (\<forall>x\<in>nodes cfg t. 32 \<le> length (cfg_encode cfg x) \<longrightarrow>
     db (cfg_hash cfg (cfg_encode cfg x)) = Some (cfg_encode cfg x))"

text \<open>The database holds encodings of nodes under their hashes.\<close>

definition db_ok :: "trie_cfg \<Rightarrow> rlp set \<Rightarrow> (bytes \<rightharpoonup> bytes) \<Rightarrow> bool" where
  "db_ok cfg N db \<longleftrightarrow> (\<forall>h v. db h = Some v \<longrightarrow> (\<exists>x\<in>N. v = cfg_encode cfg x \<and> h = cfg_hash cfg v))"

definition refers :: "trie_cfg \<Rightarrow> (bytes \<rightharpoonup> bytes) \<Rightarrow> rlp \<Rightarrow> ptree \<Rightarrow> bool" where
  "refers cfg db r t \<longleftrightarrow> stored cfg db t \<and>
     (let b = cfg_encode cfg (traw cfg t)
      in r = traw cfg t \<or> r = Item (cfg_hash cfg b) \<and> db (cfg_hash cfg b) = Some b)"

text \<open>What a trie stands for: nothing, or a well-formed tree.\<close>

definition trie_rep :: "trie_cfg \<Rightarrow> rlp set \<Rightarrow> bytes ctrie \<Rightarrow> ptree option \<Rightarrow> bool" where
  "trie_rep cfg N s c \<longleftrightarrow> db_ok cfg N (db_of s) \<and>
     (case c of
        None \<Rightarrow> trie_root s = KECCAK256_RLP
      | Some t \<Rightarrow> wf_tree t \<and> nodes cfg t \<subseteq> N \<and> refers cfg (db_of s) (Item (trie_root s)) t)"

lemma stored_child:
  "stored cfg db (PBranch ts w) \<Longrightarrow> i < length ts \<Longrightarrow> ts ! i = Some t \<Longrightarrow> stored cfg db t"
  unfolding stored_def using nodes_child by blast

lemma stored_ext: "stored cfg db (PExt k t) \<Longrightarrow> stored cfg db t"
  by (simp add: stored_def)

lemma refers_format:
  "stored cfg db t \<Longrightarrow> refers cfg db (format_ref cfg False (traw cfg t)) t"
  using nodes_self [of cfg t] by (auto simp: refers_def format_ref_def stored_def Let_def)

lemma traw_Items: "\<exists>xs. traw cfg t = Items xs \<and> xs \<noteq> []"
  using node_raw_Items [of "tnode cfg t"] by simp

lemma refers_root:
  "refers cfg db (Item h) t \<longleftrightarrow> stored cfg db t \<and> h = cfg_hash cfg (cfg_encode cfg (traw cfg t)) \<and>
     db h = Some (cfg_encode cfg (traw cfg t))"
  using traw_Items [of cfg t] by (auto simp: refers_def Let_def)

lemma format_ref_nonempty:
  assumes "codec_ok cfg N" "nodes cfg t \<subseteq> N"
  shows "rlp_nonempty (Some (format_ref cfg b (traw cfg t))) = Some (format_ref cfg b (traw cfg t))"
proof -
  have "length (cfg_hash cfg (cfg_encode cfg (traw cfg t))) = 32"
    using assms nodes_self [of cfg t] by (auto simp: codec_ok_def)
  then have "cfg_hash cfg (cfg_encode cfg (traw cfg t)) \<noteq> []" by auto
  then show ?thesis using traw_Items [of cfg t] by (auto simp: format_ref_def rlp_nonempty_def)
qed

section \<open>Lookup of nodes\<close>

lemma db_of_cur: "trie_cur s' = trie_cur s \<Longrightarrow> db_of s' = db_of s"
  by (simp add: trie_cur_def db_of_def)

section \<open>The path to a key\<close>

text \<open>What \<open>findPath\<close> finds, told on the tree: the node, the rest of the key, the stack.\<close>

fun trace :: "trie_cfg \<Rightarrow> nibbles \<Rightarrow> ptree \<Rightarrow> trie_node option \<times> nibbles \<times> trie_node list" where
  "trace cfg k (PLeaf k' v) = (let n = tnode cfg (PLeaf k' v) in if k = k' then (Some n, [], [n]) else (None, k, [n]))"
| "trace cfg k (PExt k' t) =
     (let n = tnode cfg (PExt k' t)
      in if prefix k' k then (let (f, r, ns) = trace cfg (drop (length k') k) t in (f, r, ns @ [n]))
         else (None, k, [n]))"
| "trace cfg [] (PBranch ts w) = (let n = tnode cfg (PBranch ts w) in (Some n, [], [n]))"
| "trace cfg (i # k) (PBranch ts w) =
     (let n = tnode cfg (PBranch ts w)
      in case (if i < length ts then ts ! i else None) of
           None \<Rightarrow> (None, i # k, [n])
         | Some t \<Rightarrow> (let (f, r, ns) = trace cfg k t in (f, r, ns @ [n])))"

definition path_of :: "trie_node list \<Rightarrow> trie_node option \<times> nibbles \<times> trie_node list \<Rightarrow> path" where
  "path_of st tr = (case tr of (f, r, ns) \<Rightarrow> \<lparr>path_node = f, path_remaining = r, path_stack = ns @ st\<rparr>)"

lemma path_of_snoc: "path_of st (case tr of (f, r, ns) \<Rightarrow> (f, r, ns @ [n])) = path_of (n # st) tr"
  by (simp add: path_of_def split: prod.split)

lemma getBranch_tnode:
  assumes "codec_ok cfg N" "nodes cfg (PBranch ts w) \<subseteq> N" "i < length ts"
  shows "getBranch (map (\<lambda>c. Some (child_ref cfg c)) ts) i =
    map_option (\<lambda>t. format_ref cfg False (traw cfg t)) (ts ! i)"
proof (cases "ts ! i")
  case (Some t)
  then have "nodes cfg t \<subseteq> N" using assms nodes_child by blast
  with Some assms show ?thesis by (simp add: getBranch_def child_ref_def format_ref_nonempty)
qed (use assms in \<open>simp add: getBranch_def child_ref_def rlp_nonempty_def\<close>)

text \<open>
  The walk needs only the nodes on the path: with them it finds the path, and without one of them
  (in a database that has no other node under its hash) it misses it.
\<close>

definition denotes :: "trie_cfg \<Rightarrow> (bytes \<rightharpoonup> bytes) \<Rightarrow> rlp \<Rightarrow> ptree \<Rightarrow> bool" where
  "denotes cfg db r t \<longleftrightarrow> (let b = cfg_encode cfg (traw cfg t)
     in r = traw cfg t \<or> r = Item (cfg_hash cfg b) \<and> db (cfg_hash cfg b) = Some b)"

definition avail :: "trie_cfg \<Rightarrow> (bytes \<rightharpoonup> bytes) \<Rightarrow> ptree \<Rightarrow> bool" where
  "avail cfg db t \<longleftrightarrow> denotes cfg db (format_ref cfg False (traw cfg t)) t"

fun path_ok :: "trie_cfg \<Rightarrow> (bytes \<rightharpoonup> bytes) \<Rightarrow> nibbles \<Rightarrow> ptree \<Rightarrow> bool" where
  "path_ok cfg db k (PLeaf k' v) = True"
| "path_ok cfg db k (PExt k' t) = (prefix k' k \<longrightarrow> avail cfg db t \<and> path_ok cfg db (drop (length k') k) t)"
| "path_ok cfg db [] (PBranch ts w) = True"
| "path_ok cfg db (i # k) (PBranch ts w) =
     (case (if i < length ts then ts ! i else None) of None \<Rightarrow> True | Some t \<Rightarrow> avail cfg db t \<and> path_ok cfg db k t)"

definition consistent :: "trie_cfg \<Rightarrow> (bytes \<rightharpoonup> bytes) \<Rightarrow> ptree \<Rightarrow> bool" where
  "consistent cfg db t \<longleftrightarrow> (\<forall>x\<in>nodes cfg t. 32 \<le> length (cfg_encode cfg x) \<longrightarrow>
     db (cfg_hash cfg (cfg_encode cfg x)) \<in> {None, Some (cfg_encode cfg x)})"

lemma refers_denotes: "refers cfg db r t \<Longrightarrow> denotes cfg db r t"
  by (simp add: refers_def denotes_def)

lemma stored_path_ok: "stored cfg db t \<Longrightarrow> consistent cfg db t \<and> path_ok cfg db k t"
proof (induction cfg db k t rule: path_ok.induct)
  case (2 cfg db k k' t)
  then show ?case using refers_format [OF stored_ext [of cfg db k' t]]
    by (auto simp: avail_def denotes_def refers_def Let_def consistent_def stored_def)
next
  case (4 cfg db i k ts w)
  have "consistent cfg db (PBranch ts w)" using 4(2) by (auto simp: consistent_def stored_def)
  moreover have "avail cfg db t \<and> path_ok cfg db k t" if "i < length ts" "ts ! i = Some t" for t
    using 4(1) stored_child [OF 4(2) that] refers_format [of cfg db t] that
    by (auto simp: avail_def denotes_def refers_def Let_def)
  ultimately show ?case by (auto split: option.split)
qed (auto simp: consistent_def stored_def)

lemma lookupNode_denotes:
  assumes "codec_ok cfg N" "nodes cfg t \<subseteq> N" "wf_tree t" "denotes cfg (db_of s) r t"
  shows "\<exists>s'. lookupNode cfg r s = (Inr (tnode cfg t), s') \<and> trie_cur s' = trie_cur s \<and> trie_saved s' = trie_saved s"
proof -
  let ?x = "traw cfg t"
  have dec: "decodeNode cfg (cfg_encode cfg ?x) = Inr (tnode cfg t)"
    using decodeNode_serialize [OF node_ok_tnode [OF assms(3)], of cfg cfg] assms(1,2) nodes_self [of cfg t]
    by (auto simp: node_serialize_def codec_ok_def)
  obtain xs where xs: "?x = Items xs" using traw_Items by blast
  show ?thesis
  proof (cases "r = ?x")
    case True
    with xs decodeRawNode_node_raw [OF node_ok_tnode [OF assms(3)], of cfg xs] show ?thesis
      by (simp add: lookupNode_def of_sum_def)
  next
    case False
    let ?h = "cfg_hash cfg (cfg_encode cfg ?x)"
    from False assms(4) have r: "r = Item ?h" "db_of s ?h = Some (cfg_encode cfg ?x)"
      by (auto simp: denotes_def Let_def)
    obtain s' where "db_get ?h s = (Inr (db_view (leveldb s) (db_checkpoints s) ?h), s')"
      "trie_cur s' = trie_cur s" "trie_saved s' = trie_saved s"
      using db_get_value [of ?h s] by blast
    with r dec show ?thesis by (simp add: lookupNode_def db_of_def bnd_def of_sum_def)
  qed
qed

text \<open>A child that is not there: its hash is missing.\<close>

lemma lookupNode_unavailable:
  assumes "consistent cfg (db_of s) t" "\<not> avail cfg (db_of s) t"
  shows "\<exists>s'. lookupNode cfg (format_ref cfg False (traw cfg t)) s = (Inl missing_node, s') \<and> trie_cur s' = trie_cur s"
proof -
  let ?h = "cfg_hash cfg (cfg_encode cfg (traw cfg t))"
  have f: "format_ref cfg False (traw cfg t) = Item ?h" "db_of s ?h = None"
    using assms nodes_self [of cfg t]
    by (auto simp: avail_def denotes_def Let_def consistent_def format_ref_def split: if_splits)
  obtain s' where "db_get ?h s = (Inr (db_of s ?h), s')" "trie_cur s' = trie_cur s"
    using db_get_value [of ?h s] by (auto simp: db_of_def)
  with f show ?thesis by (simp add: lookupNode_def bnd_def raise_def)
qed

lemma consistent_sub:
  "consistent cfg db (PExt k t) \<Longrightarrow> consistent cfg db t"
  "i < length ts \<Longrightarrow> ts ! i = Some t \<Longrightarrow> consistent cfg db (PBranch ts w) \<Longrightarrow> consistent cfg db t"
  unfolding consistent_def using nodes_child [of i ts t cfg w] by auto

definition walk_result :: "trie_cfg \<Rightarrow> (bytes \<rightharpoonup> bytes) \<Rightarrow> bool \<Rightarrow> nibbles \<Rightarrow> ptree \<Rightarrow> trie_node list \<Rightarrow> exn + path \<Rightarrow> bool" where
  "walk_result cfg db b k t st res \<longleftrightarrow>
     (path_ok cfg db k t \<longrightarrow> res = Inr (path_of st (trace cfg k t))) \<and>
     (\<not> path_ok cfg db k t \<longrightarrow> b \<longrightarrow> res = Inl missing_node)"

text \<open>One step of the walk into a child.\<close>

lemma find_walk_child:
  assumes "codec_ok cfg N" "consistent cfg (db_of s) t" "walk = find_walk cfg b n key (format_ref cfg False (traw cfg t)) p st" "0 < n"
    "\<And>s'. trie_cur s' = trie_cur s \<Longrightarrow> avail cfg (db_of s) t \<Longrightarrow>
       \<exists>res s2. walk s' = (res, s2) \<and> trie_cur s2 = trie_cur s' \<and> walk_result cfg (db_of s) b k t st res"
  shows "\<exists>res s2. walk s = (res, s2) \<and> trie_cur s2 = trie_cur s \<and>
    (if avail cfg (db_of s) t then walk_result cfg (db_of s) b k t st res else b \<longrightarrow> res = Inl missing_node)"
proof (cases "avail cfg (db_of s) t")
  case False
  obtain n' where "n = Suc n'" using assms(4) by (cases n) auto
  with lookupNode_unavailable [OF assms(2) False] assms(3) False show ?thesis
    by (auto simp: catch_eff_def ret_def raise_def)
qed (use assms(5) [of s] in auto)

lemma find_walk_path:
  "codec_ok cfg N \<Longrightarrow> nodes cfg t \<subseteq> N \<Longrightarrow> wf_tree t \<Longrightarrow> denotes cfg (db_of s) r t \<Longrightarrow> consistent cfg (db_of s) t \<Longrightarrow>
    length k < n \<Longrightarrow>
    \<exists>res s'. find_walk cfg b n (p @ k) r p st s = (res, s') \<and> trie_cur s' = trie_cur s \<and>
      walk_result cfg (db_of s) b k t st res"
proof (induction cfg k t arbitrary: n p r st s rule: trace.induct)
  case (1 cfg k k' v)
  then obtain n' where n: "n = Suc n'" by (cases n) auto
  obtain s' where s': "lookupNode cfg r s = (Inr (tnode cfg (PLeaf k' v)), s')" "trie_cur s' = trie_cur s"
    using lookupNode_denotes 1 by blast
  then show ?case
    by (simp add: n catch_eff_def tnode_def ret_def path_of_def Let_def walk_result_def)
next
  case (2 cfg k k' t)
  then obtain n' where n: "n = Suc n'" by (cases n) auto
  obtain s' where s': "lookupNode cfg r s = (Inr (tnode cfg (PExt k' t)), s')" "trie_cur s' = trie_cur s"
    using lookupNode_denotes [OF 2(2-5)] by blast
  have m: "matchingNibbleLength k k' = length k' \<longleftrightarrow> prefix k' k"
    by (metis matching_all_iff matching_comm)
  show ?case
  proof (cases "prefix k' k")
    case False
    with s' m show ?thesis by (auto simp: n catch_eff_def tnode_def ret_def path_of_def Let_def walk_result_def)
  next
    case True
    let ?q = "drop (length k') k" and ?st = "tnode cfg (PExt k' t) # st"
    have "0 < length k'" "length k' \<le> length k" using 2(4) prefix_length_le [OF True] by simp_all
    then have l: "length ?q < n'" unfolding length_drop using 2(7) n by linarith
    have t: "nodes cfg t \<subseteq> N" "wf_tree t" "consistent cfg (db_of s) t" using 2(3,4,6) consistent_sub by auto
    have k: "p @ k = (p @ k') @ ?q" using True by (auto simp: prefix_def)
    have "\<exists>res s2. find_walk cfg b n' (p @ k) (format_ref cfg False (traw cfg t)) (p @ k') ?st s' = (res, s2) \<and>
        trie_cur s2 = trie_cur s' \<and>
        (if avail cfg (db_of s') t then walk_result cfg (db_of s') b ?q t ?st res else b \<longrightarrow> res = Inl missing_node)"
    proof (rule find_walk_child [OF 2(2) _ refl])
      show "\<exists>res s2. find_walk cfg b n' (p @ k) (format_ref cfg False (traw cfg t)) (p @ k') ?st u = (res, s2) \<and>
          trie_cur s2 = trie_cur u \<and> walk_result cfg (db_of s') b ?q t ?st res"
        if "trie_cur u = trie_cur s'" "avail cfg (db_of s') t" for u
        using 2(1) [OF refl True 2(2) t(1,2) _ _ l, of u _ "p @ k'" ?st] that db_of_cur [OF that(1)] t(3) db_of_cur [OF s'(2)]
        unfolding k by (simp add: avail_def)
    qed (use t(3) db_of_cur [OF s'(2)] l in auto)
    then show ?thesis
      using s' m True db_of_cur [OF s'(2)]
      by (auto simp: n catch_eff_def tnode_def Let_def path_of_snoc walk_result_def split: if_splits)
  qed
next
  case (3 cfg ts w)
  then obtain n' where n: "n = Suc n'" by (cases n) auto
  obtain s' where s': "lookupNode cfg r s = (Inr (tnode cfg (PBranch ts w)), s')" "trie_cur s' = trie_cur s"
    using lookupNode_denotes 3 by blast
  then show ?case
    using matching_append [of p "[]"]
    by (auto simp: n catch_eff_def tnode_def ret_def path_of_def Let_def walk_result_def)
next
  case (4 cfg i k ts w)
  then obtain n' where n: "n = Suc n'" by (cases n) auto
  obtain s' where s': "lookupNode cfg r s = (Inr (tnode cfg (PBranch ts w)), s')" "trie_cur s' = trie_cur s"
    using lookupNode_denotes [OF 4(2-5)] by blast
  show ?case
  proof (cases "if i < length ts then ts ! i else None")
    case None
    then have "getBranch (map (\<lambda>c. Some (child_ref cfg c)) ts) i = None"
      using getBranch_tnode [OF 4(2,3)] by (cases "i < length ts") (simp_all add: getBranch_def child_ref_def rlp_nonempty_def)
    with s' None show ?thesis
      by (auto simp: n catch_eff_def tnode_def ret_def path_of_def Let_def walk_result_def)
  next
    case (Some t)
    let ?st = "tnode cfg (PBranch ts w) # st"
    have i: "i < length ts" "ts ! i = Some t" using Some by (auto split: if_splits)
    have g: "getBranch (map (\<lambda>c. Some (child_ref cfg c)) ts) i = Some (format_ref cfg False (traw cfg t))"
      using getBranch_tnode [OF 4(2,3) i(1)] i by simp
    have l: "length k < n'" using 4(7) n by simp
    have t: "nodes cfg t \<subseteq> N" "wf_tree t" "consistent cfg (db_of s) t"
      using 4(3,4,6) nodes_child [OF i] i consistent_sub(2) [OF i] by auto
    have "\<exists>res s2. find_walk cfg b n' (p @ i # k) (format_ref cfg False (traw cfg t)) (p @ [i]) ?st s' = (res, s2) \<and>
        trie_cur s2 = trie_cur s' \<and>
        (if avail cfg (db_of s') t then walk_result cfg (db_of s') b k t ?st res else b \<longrightarrow> res = Inl missing_node)"
    proof (rule find_walk_child [OF 4(2) _ refl])
      show "\<exists>res s2. find_walk cfg b n' (p @ i # k) (format_ref cfg False (traw cfg t)) (p @ [i]) ?st u = (res, s2) \<and>
          trie_cur s2 = trie_cur u \<and> walk_result cfg (db_of s') b k t ?st res"
        if "trie_cur u = trie_cur s'" "avail cfg (db_of s') t" for u
        using 4(1) [OF refl Some 4(2) t(1,2) _ _ l, of u _ "p @ [i]" ?st] that db_of_cur [OF that(1)] t(3) db_of_cur [OF s'(2)]
        by (simp add: avail_def)
    qed (use t(3) db_of_cur [OF s'(2)] l in auto)
    then show ?thesis
      using s' g i db_of_cur [OF s'(2)]
      by (auto simp: n catch_eff_def tnode_def Let_def path_of_snoc walk_result_def split: if_splits)
  qed
qed

lemma find_walk_trace:
  assumes "codec_ok cfg N" "nodes cfg t \<subseteq> N" "wf_tree t" "refers cfg (db_of s) r t" "length k < n"
  shows "\<exists>s'. find_walk cfg b n (p @ k) r p st s = (Inr (path_of st (trace cfg k t)), s') \<and> trie_cur s' = trie_cur s"
proof -
  have "denotes cfg (db_of s) r t" "stored cfg (db_of s) t" using assms(4) by (simp_all add: refers_def denotes_def)
  with find_walk_path [OF assms(1-3) _ _ assms(5)] stored_path_ok show ?thesis by (fastforce simp: walk_result_def)
qed

text \<open>What was found is the value at the key.\<close>

definition found_value :: "trie_node option \<times> nibbles \<times> trie_node list \<Rightarrow> rlp option" where
  "found_value tr = (case tr of (f, r, ns) \<Rightarrow>
     (case f of Some node \<Rightarrow> if r = [] then get_value node else None | None \<Rightarrow> None))"

lemma found_value_snoc: "found_value (case tr of (f, r, ns) \<Rightarrow> (f, r, ns @ [n])) = found_value tr"
  by (simp add: found_value_def split: prod.split)

lemma trace_get: "wf_tree t \<Longrightarrow> found_value (trace cfg k t) = map_option Item (tget k t)"
proof (induction cfg k t rule: trace.induct)
  case (1 cfg k k' v)
  then show ?case by (simp add: found_value_def tnode_def get_value_def Let_def)
next
  case (2 cfg k k' t)
  then show ?case by (auto simp: Let_def found_value_snoc) (simp add: found_value_def)
next
  case (3 cfg ts w)
  then show ?case
    by (cases w) (auto simp: found_value_def tnode_def get_value_def raw_value_def rlp_nonempty_def Let_def)
next
  case (4 cfg i k ts w)
  then show ?case by (auto simp: Let_def found_value_snoc split: option.split) (simp_all add: found_value_def)
qed

section \<open>Saving a stack\<close>

definition put_op :: "trie_cfg \<Rightarrow> rlp \<Rightarrow> batch_op" where
  "put_op cfg x = Put_op (cfg_hash cfg (cfg_encode cfg x)) (cfg_encode cfg x)"

definition emit :: "trie_cfg \<Rightarrow> bool \<Rightarrow> rlp \<Rightarrow> batch_op list" where
  "emit cfg topLevel x = (if 32 \<le> length (cfg_encode cfg x) \<or> topLevel then [put_op cfg x] else [])"

lemma formatNode_emit:
  "formatNode cfg n b False = (format_ref cfg b (node_raw n), emit cfg b (node_raw n))"
  "\<not> deleteFromDB cfg \<Longrightarrow> snd (formatNode cfg n b True) = []"
  by (simp_all add: formatNode_def format_ref_def emit_def put_op_def node_serialize_def Let_def)

lemma cut_key_append [simp]: "cut_key (p @ k) (length k) = p"
  by (simp add: cut_key_def)

lemma save_leaf: "save_stack cfg (p @ k) (Leaf k v # st) l ops =
    save_stack cfg p st (Some (format_ref cfg (st = []) (node_raw (Leaf k v))))
      (ops @ emit cfg (st = []) (node_raw (Leaf k v)))"
  by (simp add: formatNode_emit)

lemma save_ext: "save_stack cfg (p @ k) (Extension k c # st) (Some r) ops =
    save_stack cfg p st (Some (format_ref cfg (st = []) (node_raw (Extension k r))))
      (ops @ emit cfg (st = []) (node_raw (Extension k r)))"
  by (simp add: formatNode_emit)

lemma save_branch: "save_stack cfg (p @ [i]) (Branch cs w # st) (Some r) ops =
    save_stack cfg p st (Some (format_ref cfg (st = []) (node_raw (Branch (cs[i := Some r]) w))))
      (ops @ emit cfg (st = []) (node_raw (Branch (cs[i := Some r]) w)))"
  "save_stack cfg p (Branch cs w # st) None ops =
    save_stack cfg p st (Some (format_ref cfg (st = []) (node_raw (Branch cs w))))
      (ops @ emit cfg (st = []) (node_raw (Branch cs w)))"
  by (simp_all add: formatNode_emit setBranch_def)

text \<open>The operations store nodes of the new tree, and all of those that are not in the database.\<close>

definition puts_in :: "trie_cfg \<Rightarrow> batch_op list \<Rightarrow> rlp set \<Rightarrow> bool" where
  "puts_in cfg ops X \<longleftrightarrow> set ops \<subseteq> put_op cfg ` X"

definition covers :: "trie_cfg \<Rightarrow> batch_op list \<Rightarrow> rlp set \<Rightarrow> rlp set \<Rightarrow> bool" where
  "covers cfg ops old X \<longleftrightarrow> (\<forall>x\<in>X. 32 \<le> length (cfg_encode cfg x) \<longrightarrow> put_op cfg x \<in> set ops \<or> x \<in> old)"

lemma puts_in_simps [simp]:
  "puts_in cfg (a @ b) X \<longleftrightarrow> puts_in cfg a X \<and> puts_in cfg b X" "puts_in cfg [] X"
  "x \<in> X \<Longrightarrow> puts_in cfg (emit cfg b' x) X"
  by (auto simp: puts_in_def emit_def)

lemma puts_in_mono: "puts_in cfg a X \<Longrightarrow> X \<subseteq> Y \<Longrightarrow> puts_in cfg a Y"
  by (auto simp: puts_in_def)

lemma covers_old: "X \<subseteq> old \<Longrightarrow> covers cfg ops old X"
  by (auto simp: covers_def)

lemma covers_append: "covers cfg a old X \<or> covers cfg b old X \<Longrightarrow> covers cfg (a @ b) old X"
  by (auto simp: covers_def)

lemma covers_mono: "covers cfg a old X \<Longrightarrow> old \<subseteq> old' \<Longrightarrow> covers cfg a old' X"
  by (auto simp: covers_def)

lemma covers_insert:
  "covers cfg a old (insert x X) \<longleftrightarrow> covers cfg a old {x} \<and> covers cfg a old X"
  by (auto simp: covers_def)

lemma covers_emit: "covers cfg (emit cfg b x) old {x}"
  by (simp add: covers_def emit_def)

text \<open>
  Saving \<open>ns\<close> on top of \<open>st\<close> builds the tree \<open>t\<close> below the key \<open>p\<close>: what remains is to save \<open>st\<close>
  with a reference to \<open>t\<close>.
\<close>

definition builds :: "trie_cfg \<Rightarrow> nibbles \<Rightarrow> trie_node list \<Rightarrow> batch_op list \<Rightarrow> rlp set
    \<Rightarrow> nibbles \<Rightarrow> trie_node list \<Rightarrow> ptree \<Rightarrow> bool" where
  "builds cfg key stack ops0 old p st t \<longleftrightarrow> (\<exists>ops1.
     (\<forall>ops. save_stack cfg key stack None ops =
        save_stack cfg p st (Some (format_ref cfg (st = []) (traw cfg t))) (ops @ ops1)) \<and>
     puts_in cfg ops1 (nodes cfg t) \<and> covers cfg (ops0 @ ops1) old (nodes cfg t) \<and>
     (st = [] \<longrightarrow> put_op cfg (traw cfg t) \<in> set ops1))"

lemma emit_top [simp]: "put_op cfg x \<in> set (emit cfg True x)"
  by (simp add: emit_def)

lemma builds_leaf:
  "builds cfg (p @ k) (Leaf k (Item v) # st) ops0 old p st (PLeaf k v)"
  unfolding builds_def
  by (intro exI [where x = "emit cfg (st = []) (traw cfg (PLeaf k v))"])
    (auto simp: save_leaf intro!: covers_append covers_emit simp del: save_stack.simps)

lemma builds_ext:
  assumes "builds cfg key stack ops0 old (p @ k) (Extension k c # st) t"
  shows "builds cfg key stack ops0 old p st (PExt k t)"
proof -
  from assms obtain ops1 where o: "\<And>ops. save_stack cfg key stack None ops =
      save_stack cfg (p @ k) (Extension k c # st) (Some (format_ref cfg False (traw cfg t))) (ops @ ops1)"
    "puts_in cfg ops1 (nodes cfg t)" "covers cfg (ops0 @ ops1) old (nodes cfg t)"
    by (auto simp: builds_def)
  let ?e = "emit cfg (st = []) (traw cfg (PExt k t))"
  have "covers cfg (ops0 @ ops1 @ ?e) old (nodes cfg (PExt k t))"
    using o(3) by (auto simp: covers_def covers_insert emit_def)
  with o show ?thesis
    unfolding builds_def
    by (intro exI [where x = "ops1 @ ?e"]) (auto simp: save_ext intro: puts_in_mono simp del: save_stack.simps)
qed

lemma builds_pext:
  assumes "builds cfg key stack ops0 old (p @ m) ((if m = [] then [] else [Extension m c]) @ st) t"
  shows "builds cfg key stack ops0 old p st (pext m t)"
  using assms by (auto simp: pext_def builds_ext split: if_splits)

lemma nodes_update:
  assumes "i < length ts" "x \<in> nodes cfg (PBranch (ts[i := Some t]) w)"
  shows "x = traw cfg (PBranch (ts[i := Some t]) w) \<or> x \<in> nodes cfg t \<or>
    (\<exists>j u. j < length ts \<and> j \<noteq> i \<and> ts ! j = Some u \<and> x \<in> nodes cfg u)"
  using assms by (auto simp: nodes_branch in_set_conv_nth nth_list_update split: option.splits if_splits) metis

definition branch_for :: "trie_cfg \<Rightarrow> rlp option list \<Rightarrow> rlp option \<Rightarrow> ptree option list \<Rightarrow> bytes option \<Rightarrow> bool" where
  "branch_for cfg cs w ts w' \<longleftrightarrow> map null_raw cs = map (child_ref cfg) ts \<and> null_raw w = raw_value w'"

lemma branch_for_raw: "branch_for cfg cs w ts w' \<Longrightarrow> node_raw (Branch cs w) = traw cfg (PBranch ts w')"
  by (simp add: branch_for_def node_raw_def traw_branch)

lemma branch_for_update:
  "branch_for cfg cs w ts w' \<Longrightarrow>
     branch_for cfg (cs[i := Some (format_ref cfg False (traw cfg t))]) w (ts[i := Some t]) w'"
  by (simp add: branch_for_def map_update child_ref_def)

lemma branch_for_value: "branch_for cfg cs w ts w' \<Longrightarrow> branch_for cfg cs (Some (Item v)) ts (Some v)"
  by (simp add: branch_for_def raw_value_def)

lemma branch_for_tnode: "branch_for cfg (map (\<lambda>c. Some (child_ref cfg c)) ts) (Some (raw_value w)) ts w"
  by (simp add: branch_for_def o_def)

lemma branch_for_new: "branch_for cfg (replicate 16 None) None no_children None"
  by (simp add: branch_for_def no_children_def child_ref_def raw_value_def)

lemma builds_branch:
  assumes "builds cfg key stack ops0 old (p @ [i]) (Branch cs w # st) t" "i < length ts"
    "branch_for cfg cs w ts w'"
    "\<And>j u. j < length ts \<Longrightarrow> j \<noteq> i \<Longrightarrow> ts ! j = Some u \<Longrightarrow> covers cfg ops0 old (nodes cfg u)"
  shows "builds cfg key stack ops0 old p st (PBranch (ts[i := Some t]) w')"
proof -
  let ?T = "PBranch (ts[i := Some t]) w'"
  let ?e = "emit cfg (st = []) (traw cfg ?T)"
  from assms(1) obtain ops1 where o: "\<And>ops. save_stack cfg key stack None ops =
      save_stack cfg (p @ [i]) (Branch cs w # st) (Some (format_ref cfg False (traw cfg t))) (ops @ ops1)"
    "puts_in cfg ops1 (nodes cfg t)" "covers cfg (ops0 @ ops1) old (nodes cfg t)"
    by (auto simp: builds_def)
  have "node_raw (Branch (cs[i := Some (format_ref cfg False (traw cfg t))]) w) = traw cfg ?T"
    using branch_for_raw [OF branch_for_update [OF assms(3)]] .
  moreover have "covers cfg (ops0 @ ops1 @ ?e) old (nodes cfg ?T)"
    unfolding covers_def
  proof (intro ballI impI)
    fix x assume "x \<in> nodes cfg ?T" and l: "32 \<le> length (cfg_encode cfg x)"
    from nodes_update [OF assms(2) this(1)] show "put_op cfg x \<in> set (ops0 @ ops1 @ ?e) \<or> x \<in> old"
      using o(3) l assms(4) by (fastforce simp: covers_def emit_def)
  qed
  moreover have "nodes cfg t \<subseteq> nodes cfg ?T" using assms(2) by (intro nodes_child [of i]) auto
  ultimately show ?thesis
    using o(1,2) nodes_self [of cfg ?T] unfolding builds_def
    by (intro exI [where x = "ops1 @ ?e"]) (auto simp: save_branch intro: puts_in_mono simp del: save_stack.simps)
qed

lemma builds_branch_top:
  assumes "branch_for cfg cs w ts w'"
    "\<And>j u. j < length ts \<Longrightarrow> ts ! j = Some u \<Longrightarrow> covers cfg ops0 old (nodes cfg u)"
  shows "builds cfg p (Branch cs w # st) ops0 old p st (PBranch ts w')"
proof -
  let ?T = "PBranch ts w'"
  let ?e = "emit cfg (st = []) (traw cfg ?T)"
  have "covers cfg (ops0 @ ?e) old (nodes cfg ?T)"
    using assms(2) by (fastforce simp: covers_def nodes_branch emit_def in_set_conv_nth split: option.splits)
  then show ?thesis
    using nodes_self [of cfg ?T] branch_for_raw [OF assms(1)] unfolding builds_def
    by (intro exI [where x = ?e]) (auto simp: save_branch simp del: save_stack.simps)
qed

text \<open>A value put on a branch, or below it.\<close>

definition hang_stack :: "nibbles \<Rightarrow> bytes \<Rightarrow> rlp option list \<Rightarrow> rlp option \<Rightarrow> trie_node list" where
  "hang_stack k v cs w = (case k of [] \<Rightarrow> [Branch cs (Some (Item v))] | i # k' \<Rightarrow> [Leaf k' (Item v), Branch cs w])"

lemma builds_hang:
  assumes "branch_for cfg cs w ts w'" "length ts = 16" "hex k"
    "\<And>j u. j < length ts \<Longrightarrow> ts ! j = Some u \<Longrightarrow> covers cfg ops0 old (nodes cfg u)"
  shows "builds cfg (p @ k) (hang_stack k v cs w @ st) ops0 old p st (hang k v (PBranch ts w'))"
proof (cases k)
  case Nil
  with assms(4) show ?thesis
    by (auto simp: hang_stack_def intro!: builds_branch_top branch_for_value [OF assms(1)])
next
  case (Cons i k')
  have "builds cfg ((p @ [i]) @ k') (Leaf k' (Item v) # Branch cs w # st) ops0 old (p @ [i]) (Branch cs w # st) (PLeaf k' v)"
    by (rule builds_leaf)
  from builds_branch [OF this _ assms(1)] show ?thesis
    using Cons assms(2,3,4) by (simp add: hang_stack_def)
qed

section \<open>Insertion\<close>

text \<open>The split of a leaf or an extension: the old node goes on a branch, next to the new leaf.\<close>

definition split_branch :: "trie_cfg \<Rightarrow> trie_node \<Rightarrow> nibbles \<Rightarrow> trie_node \<times> batch_op list" where
  "split_branch cfg lastNode lastKey = (case lastKey of
      [] \<Rightarrow> (set_value (get_value lastNode) new_branch, [])
    | i # k \<Rightarrow> (if k \<noteq> [] \<or> is_Leaf lastNode
         then (setBranch i (Some (format_ref cfg False (node_raw (set_key k lastNode)))) new_branch,
               emit cfg False (node_raw (set_key k lastNode)))
         else (setBranch i (get_value lastNode) new_branch, [])))"

lemma split_node_stack:
  assumes "\<not> deleteFromDB cfg" "node_key n = m @ a" "matchingNibbleLength (m @ a) (m @ b) = length m"
    "split_branch cfg n a = (Branch cs w, ops0)"
  shows "split_node cfg n (m @ b) v st =
    (hang_stack b v cs w @ (if m = [] then [] else [Extension m (Item v)]) @ st, ops0)"
proof -
  have "snd (formatNode cfg n False True) = []" using formatNode_emit(2) assms(1) by blast
  with assms(4) show ?thesis
    using assms(2,3)
    by (cases a; cases b; cases "formatNode cfg n False True")
      (auto simp: split_node_def split_branch_def Let_def formatNode_emit(1) hang_stack_def set_value_def
        split: if_splits)
qed

lemma covers_no_children: "j < 16 \<Longrightarrow> no_children ! j = Some u \<Longrightarrow> covers cfg ops0 old (nodes cfg u)"
  by simp

lemma builds_split:
  assumes "\<not> deleteFromDB cfg" "node_key n = m @ a" "matchingNibbleLength (m @ a) (m @ b) = length m"
    "split_branch cfg n a = (Branch cs w, ops0)" "branch_for cfg cs w ts w'" "length ts = 16" "hex b"
    "\<And>j u. j < length ts \<Longrightarrow> ts ! j = Some u \<Longrightarrow> covers cfg ops0 old (nodes cfg u)"
    "split_node cfg n (m @ b) v st = (ns, ops)"
  shows "ops = ops0 \<and> builds cfg (p @ m @ b) ns ops0 old p st (pext m (hang b v (PBranch ts w')))"
proof -
  let ?st = "(if m = [] then [] else [Extension m (Item v)]) @ st"
  from assms(9) split_node_stack [OF assms(1-4), of v st]
  have ns: "ns = hang_stack b v cs w @ ?st" "ops = ops0" by simp_all
  have "builds cfg ((p @ m) @ b) (hang_stack b v cs w @ ?st) ops0 old (p @ m) ?st (hang b v (PBranch ts w'))"
    using assms(5-8) by (rule builds_hang)
  then have "builds cfg ((p @ m) @ b) ns ops0 old p st (pext m (hang b v (PBranch ts w')))"
    unfolding ns by (rule builds_pext)
  with ns show ?thesis by simp
qed

lemma puts_in_pext: "x \<in> nodes cfg t \<Longrightarrow> puts_in cfg (emit cfg c x) (nodes cfg (pext m t))"
  by (simp add: pext_def)

lemma nodes_hang_keep:
  assumes "ts ! i = Some u" "i < length ts" "b = [] \<or> hd b \<noteq> i"
  shows "nodes cfg u \<subseteq> nodes cfg (hang b v (PBranch ts w))"
  using assms nodes_child [of i ts u cfg] nodes_child [of i "ts[hd b := _]" u cfg]
  by (cases b) auto

lemma split_leaf:
  assumes "\<not> deleteFromDB cfg" "matchingNibbleLength (m @ a) (m @ b) = length m"
    "a = [] \<or> b = [] \<or> hd a \<noteq> hd b" "hex a" "hex b" "a \<noteq> b"
    "split_node cfg (Leaf (m @ a) (Item v')) (m @ b) v st = (ns, ops0)"
  shows "builds cfg (p @ m @ b) ns ops0 old p st (pext m (hang b v (hang a v' (PBranch no_children None)))) \<and>
    puts_in cfg ops0 (nodes cfg (pext m (hang b v (hang a v' (PBranch no_children None)))))"
proof (cases a)
  case Nil
  have "split_branch cfg (Leaf (m @ a) (Item v')) a = (Branch (replicate 16 None) (Some (Item v')), [])"
    using Nil by (simp add: split_branch_def set_value_def get_value_def new_branch_def)
  note split = builds_split [OF assms(1) _ assms(2) this branch_for_value [OF branch_for_new, of cfg v'],
      where v = v and st = st and ns = ns and ops = ops0 and old = old and p = p]
  then show ?thesis using split assms Nil covers_no_children by auto
next
  case (Cons i a')
  let ?x = "traw cfg (PLeaf a' v')" and ?ts = "no_children[i := Some (PLeaf a' v')]"
  have i: "i < 16" using Cons assms(4) by simp
  have s: "split_branch cfg (Leaf (m @ a) (Item v')) a =
      (Branch ((replicate 16 None)[i := Some (format_ref cfg False ?x)]) None, emit cfg False ?x)"
    using Cons by (simp add: split_branch_def set_key_def setBranch_def new_branch_def)
  have "covers cfg (emit cfg False ?x) old (nodes cfg u)" if "j < 16" "?ts ! j = Some u" for j u
    using that i by (cases "j = i") (auto intro: covers_emit)
  with builds_split [OF assms(1) _ assms(2) s branch_for_update [OF branch_for_new],
      where v = v and st = st and ns = ns and ops = ops0 and old = old and p = p]
  have "ops0 = emit cfg False ?x \<and> builds cfg (p @ m @ b) ns ops0 old p st (pext m (hang b v (PBranch ?ts None)))"
    using assms by auto
  moreover have "?x \<in> nodes cfg (hang b v (PBranch ?ts None))"
    using nodes_hang_keep [of ?ts i "PLeaf a' v'" b cfg v None] i assms(3) Cons by auto
  ultimately show ?thesis using Cons by (auto intro: puts_in_pext)
qed

lemma split_ext:
  assumes "\<not> deleteFromDB cfg" "matchingNibbleLength (m @ i # a) (m @ b) = length m"
    "b = [] \<or> i \<noteq> hd b" "i < 16" "hex b" "nodes cfg t \<subseteq> old"
    "split_node cfg (Extension (m @ i # a) (format_ref cfg False (traw cfg t))) (m @ b) v st = (ns, ops0)"
  shows "builds cfg (p @ m @ b) ns ops0 old p st (pext m (hang b v (PBranch (no_children[i := Some (pext a t)]) None))) \<and>
    puts_in cfg ops0 (nodes cfg (pext m (hang b v (PBranch (no_children[i := Some (pext a t)]) None))))"
proof -
  let ?n = "Extension (m @ i # a) (format_ref cfg False (traw cfg t))"
  let ?x = "traw cfg (pext a t)" and ?ts = "no_children[i := Some (pext a t)]"
  let ?e = "if a = [] then [] else emit cfg False ?x"
  have s: "split_branch cfg ?n (i # a) = (Branch ((replicate 16 None)[i := Some (format_ref cfg False ?x)]) None, ?e)"
    by (auto simp: split_branch_def set_key_def setBranch_def new_branch_def pext_def get_value_def)
  have "covers cfg ?e old (nodes cfg (pext a t))"
    using assms(6) by (auto simp: covers_def pext_def emit_def)
  then have "covers cfg ?e old (nodes cfg u)" if "j < 16" "?ts ! j = Some u" for j u
    using that assms(4) by (cases "j = i") auto
  with builds_split [OF assms(1) _ assms(2) s branch_for_update [OF branch_for_new],
      where v = v and st = st and ns = ns and ops = ops0 and old = old and p = p]
  have "ops0 = ?e \<and> builds cfg (p @ m @ b) ns ops0 old p st (pext m (hang b v (PBranch ?ts None)))"
    using assms by auto
  moreover have "?x \<in> nodes cfg (hang b v (PBranch ?ts None))"
    using nodes_hang_keep [of ?ts i "pext a t" b cfg v None] nodes_self [of cfg "pext a t"] assms(3,4) by auto
  ultimately show ?thesis by (auto intro: puts_in_pext)
qed

text \<open>\<open>_updateNode\<close> on the path to a key builds the tree with the key inserted.\<close>

lemma update_head:
  "\<not> is_Leaf n \<Longrightarrow> update_stack cfg key v r (n # st) =
     (case n of Branch cs w \<Rightarrow> Inr (hang_stack r v cs w @ st, []) | _ \<Rightarrow> Inr (split_node cfg n r v st))"
  by (cases n; cases r) (auto simp: update_stack_def hang_stack_def set_value_def)

lemma update_leaf:
  assumes "stack_length st = length p" "r = (if k = k' then [] else k)"
  shows "update_stack cfg (p @ k) v r (Leaf k' x # st) =
     (if k = k' then Inr (Leaf k' (Item v) # st, []) else Inr (split_node cfg (Leaf k' x) r v st))"
  using assms matching_append [of k' "[]"]
  by (auto simp: update_stack_def set_value_def Let_def)

lemma stack_length_Cons [simp]:
  "stack_length (Branch cs w # st) = Suc (stack_length st)"
  "stack_length (Extension k c # st) = length k + stack_length st"
  by (simp_all add: stack_length_def)

lemma update_trace:
  "\<not> deleteFromDB cfg \<Longrightarrow> wf_tree t \<Longrightarrow> hex k \<Longrightarrow> trace cfg k t = (f, r, ns) \<Longrightarrow> stack_length st = length p \<Longrightarrow>
    nodes cfg t \<subseteq> old \<Longrightarrow>
    \<exists>ns' ops0. update_stack cfg (p @ k) v r (ns @ st) = Inr (ns', ops0) \<and>
      builds cfg (p @ k) ns' ops0 old p st (tput k v t) \<and> puts_in cfg ops0 (nodes cfg (tput k v t))"
proof (induction cfg k t arbitrary: f r ns st p rule: trace.induct)
  case (1 cfg k k' v')
  note hyp = 1
  have tr: "r = (if k = k' then [] else k)" "ns = [Leaf k' (Item v')]"
    using hyp(4) by (auto simp: tnode_def Let_def split: if_splits)
  note upd = update_leaf [OF hyp(5) tr(1), of cfg v "Item v'"]
  show ?case
  proof (cases "k = k'")
    case True
    with upd tr show ?thesis by (auto intro: builds_leaf)
  next
    case False
    obtain m a b where m: "k' = m @ a" "k = m @ b" "matchingNibbleLength k' k = length m"
      "a = [] \<or> b = [] \<or> hd a \<noteq> hd b" using matching_split by metis
    obtain ns' ops0 where s: "split_node cfg (Leaf (m @ a) (Item v')) (m @ b) v st = (ns', ops0)" by force
    have "a \<noteq> b" "hex a" "hex b" using False m hyp(2,3) by auto
    with split_leaf [OF hyp(1) _ m(4) _ _ _ s, where old = old and p = p] m upd tr False s
    show ?thesis by auto
  qed
next
  case (2 cfg k k' t)
  note hyp = 2
  let ?E = "tnode cfg (PExt k' t)"
  have E: "?E = Extension k' (format_ref cfg False (traw cfg t))" by (simp add: tnode_def)
  show ?case
  proof (cases "prefix k' k")
    case True
    then obtain q where q: "k = k' @ q" by (auto simp: prefix_def)
    obtain f1 r1 ns1 where tr: "trace cfg q t = (f1, r1, ns1)" by (cases "trace cfg q t")
    with hyp(5) True q have rn: "r = r1" "ns = ns1 @ [?E]" by (auto simp: Let_def)
    have "wf_tree t" "hex q" "nodes cfg t \<subseteq> old" using hyp(3,4,7) q by simp_all
    with hyp(1) [OF refl True hyp(2), of f1 r1 ns1 "?E # st" "p @ k'"] tr q hyp(6) E
    obtain ns' ops0 where i: "update_stack cfg (p @ k) v r1 (ns1 @ ?E # st) = Inr (ns', ops0)"
      "builds cfg (p @ k) ns' ops0 old (p @ k') (?E # st) (tput q v t)" "puts_in cfg ops0 (nodes cfg (tput q v t))"
      by auto
    have "builds cfg (p @ k) ns' ops0 old p st (PExt k' (tput q v t))"
      using i(2) unfolding E by (rule builds_ext)
    moreover have "tput k v (PExt k' t) = PExt k' (tput q v t)" using q by simp
    ultimately show ?thesis using i(1,3) rn by (auto intro: puts_in_mono)
  next
    case False
    obtain m a b where m: "k' = m @ a" "k = m @ b" "matchingNibbleLength k' k = length m"
      "a = [] \<or> b = [] \<or> hd a \<noteq> hd b" using matching_split by metis
    with False obtain i a' where a: "a = i # a'" by (cases a) auto
    obtain ns' ops0 where s: "split_node cfg ?E (m @ b) v st = (ns', ops0)" by force
    have h: "i < 16" "hex b" "b = [] \<or> i \<noteq> hd b" "nodes cfg t \<subseteq> old" using hyp(3,4,7) m a by auto
    have "tput k v (PExt k' t) = pext m (hang b v (PBranch (no_children[i := Some (pext a' t)]) None))"
      using m a by simp
    moreover have "r = k" "ns = [?E]" using hyp(5) False by (auto simp: Let_def)
    moreover have "update_stack cfg (p @ k) v k ([?E] @ st) = Inr (ns', ops0)"
      using s E m by (simp add: update_head)
    ultimately show ?thesis
      using split_ext [OF hyp(2) _ h(3,1,2,4), of m a' v st ns' ops0 p] s m a E by auto
  qed
next
  case (3 cfg ts w)
  then have "r = []" "ns = [tnode cfg (PBranch ts w)]" by (auto simp: Let_def)
  moreover have "covers cfg [] old (nodes cfg u)" if "j < length ts" "ts ! j = Some u" for j u
    using 3(6) nodes_child [OF that, where cfg = cfg and w = w] by (intro covers_old) blast
  ultimately show ?case
    using builds_hang [OF branch_for_tnode, of ts "[]" cfg "[]" old p v w st] 3(2)
    by (auto simp: tnode_def update_head)
next
  case (4 cfg i k ts w)
  note hyp = 4
  let ?B = "tnode cfg (PBranch ts w)"
  have B: "?B = Branch (map (\<lambda>c. Some (child_ref cfg c)) ts) (Some (raw_value w))" by (simp add: tnode_def)
  have len: "length ts = 16" "i < 16" using hyp(3,4) by simp_all
  have cov: "covers cfg ops old (nodes cfg u)" if "j < length ts" "ts ! j = Some u" for j u ops
    using hyp(7) nodes_child [OF that, where cfg = cfg and w = w] by (intro covers_old) blast
  show ?case
  proof (cases "ts ! i")
    case None
    then have "r = i # k" "ns = [?B]" using hyp(5) len by (auto simp: Let_def)
    then show ?thesis
      using builds_hang [OF branch_for_tnode, of ts "i # k" cfg "[]" old p v w st] cov hyp(3,4) None B
      by (auto simp: update_head)
  next
    case (Some t)
    obtain f1 r1 ns1 where tr: "trace cfg k t = (f1, r1, ns1)" by (cases "trace cfg k t")
    with hyp(5) Some len have rn: "r = r1" "ns = ns1 @ [?B]" by (auto simp: Let_def)
    have "wf_tree t" "hex k" "nodes cfg t \<subseteq> old"
      using hyp(3,4,7) Some len nodes_child [of i ts t cfg w] by auto
    with hyp(1) [OF refl _ hyp(2), of t f1 r1 ns1 "?B # st" "p @ [i]"] tr hyp(6) Some len B
    obtain ns' ops0 where i: "update_stack cfg (p @ i # k) v r1 (ns1 @ ?B # st) = Inr (ns', ops0)"
      "builds cfg (p @ i # k) ns' ops0 old (p @ [i]) (?B # st) (tput k v t)" "puts_in cfg ops0 (nodes cfg (tput k v t))"
      by auto
    have "builds cfg (p @ i # k) ns' ops0 old p st (PBranch (ts[i := Some (tput k v t)]) w)"
      using i(2) unfolding B by (rule builds_branch) (use len cov branch_for_tnode in auto)
    moreover have "nodes cfg (tput k v t) \<subseteq> nodes cfg (PBranch (ts[i := Some (tput k v t)]) w)"
      using len by (intro nodes_child [of i]) auto
    ultimately show ?thesis using i(1,3) rn Some by (auto intro: puts_in_mono)
  qed
qed

end
