(* ===== verification/Trie_Map.thy ===== *)
theory Trie_Map
  imports Trie_Refinement
begin

text \<open>
  The operations of \<open>Merkle_Trie\<close> on a trie that stands for a tree: \<open>get\<close> looks up in the tree, \<open>put\<close>
  inserts, \<open>del\<close> removes, and with them the content of the trie is a map whose hash is the root.
\<close>

section \<open>Writing to the database\<close>

lemma db_put_result: "\<exists>s'. db_put k v s = (Inr (), s') \<and> db_of s' = (db_of s)(k \<mapsto> v) \<and> trie_root s' = trie_root s"
proof -
  obtain r s' where p: "db_put k v s = (r, s')" by force
  from db_put_view [OF this] have "r = Inr ()" by simp
  with db_put_view [OF p] p show ?thesis by (auto simp: db_of_def)
qed

lemma db_batch_puts:
  assumes "codec_ok cfg N" "set ops \<subseteq> put_op cfg ` N" "db_ok cfg N (db_of s)"
  shows "\<exists>s'. db_batch ops s = (Inr (), s') \<and> trie_root s' = trie_root s \<and> db_ok cfg N (db_of s') \<and>
    (\<forall>h v. db_of s h = Some v \<longrightarrow> db_of s' h = Some v) \<and>
    (\<forall>x\<in>N. put_op cfg x \<in> set ops \<longrightarrow>
       db_of s' (cfg_hash cfg (cfg_encode cfg x)) = Some (cfg_encode cfg x))"
  using assms(2,3)
proof (induction ops arbitrary: s)
  case Nil
  then show ?case by (auto simp: db_batch_def ret_def)
next
  case (Cons op ops)
  then obtain x where x: "x \<in> N" "op = put_op cfg x" by auto
  let ?h = "cfg_hash cfg (cfg_encode cfg x)"
  obtain s1 where s1: "db_put ?h (cfg_encode cfg x) s = (Inr (), s1)"
    "db_of s1 = (db_of s)(?h \<mapsto> cfg_encode cfg x)" "trie_root s1 = trie_root s"
    using db_put_result by blast
  have ok: "db_ok cfg N (db_of s1)" using Cons.prems(2) x by (auto simp: db_ok_def s1(2))
  have keep: "db_of s1 h = Some v" if v: "db_of s h = Some v" for h v
  proof -
    from v Cons.prems(2) obtain y where "y \<in> N" "v = cfg_encode cfg y" "h = cfg_hash cfg v" by (auto simp: db_ok_def)
    then show ?thesis using assms(1) x v s1(2) by (auto simp: codec_ok_def inj_on_def)
  qed
  obtain s' where s': "db_batch ops s1 = (Inr (), s')" "trie_root s' = trie_root s1" "db_ok cfg N (db_of s')"
    "\<forall>h v. db_of s1 h = Some v \<longrightarrow> db_of s' h = Some v"
    "\<forall>x\<in>N. put_op cfg x \<in> set ops \<longrightarrow> db_of s' (cfg_hash cfg (cfg_encode cfg x)) = Some (cfg_encode cfg x)"
    using Cons.IH [OF _ ok] Cons.prems(1) by auto
  have "db_batch (op # ops) s = (Inr (), s')"
    using s1(1) s'(1) by (simp add: db_batch_def x(2) put_op_def db_apply_def andthen_Inr)
  moreover have "db_of s' ?h = Some (cfg_encode cfg x)" using s'(4) s1(2) by simp
  moreover have "put_op cfg y = put_op cfg x \<Longrightarrow> y \<in> N \<Longrightarrow> y = x" for y
    using assms(1) x(1) by (auto simp: put_op_def codec_ok_def inj_on_def)
  ultimately show ?case using s' s1(3) keep x by auto
qed

lemma set_root_result: "length h = 32 \<Longrightarrow> set_root h s = (Inr (), s\<lparr>trie_root := h\<rparr>)"
  by (simp add: set_root_def trie_set_root_def eff_defs)

lemma db_of_root [simp]: "db_of (s\<lparr>trie_root := h\<rparr>) = db_of s"
  by (simp add: db_of_def)

text \<open>A stack that builds a tree, saved on a database that has the rest of the tree's nodes.\<close>

lemma saveStack_builds:
  assumes "builds cfg key stack ops0 old [] [] t" "puts_in cfg ops0 (nodes cfg t)" "codec_ok cfg N"
    "nodes cfg t \<subseteq> N" "db_ok cfg N (db_of s)" "wf_tree t"
    "\<And>x. x \<in> old \<Longrightarrow> 32 \<le> length (cfg_encode cfg x) \<Longrightarrow>
       db_of s (cfg_hash cfg (cfg_encode cfg x)) = Some (cfg_encode cfg x)"
  shows "\<exists>s'. saveStack cfg key stack ops0 s = (Inr (), s') \<and> trie_rep cfg N s' (Some t)"
proof -
  let ?h = "\<lambda>x. cfg_hash cfg (cfg_encode cfg x)"
  from assms(1) obtain ops1 where o: "\<And>ops. save_stack cfg key stack None ops =
      (Some (format_ref cfg True (traw cfg t)), ops @ ops1)"
    "puts_in cfg ops1 (nodes cfg t)" "covers cfg (ops0 @ ops1) old (nodes cfg t)"
    "put_op cfg (traw cfg t) \<in> set ops1"
    by (auto simp: builds_def)
  have N: "traw cfg t \<in> N" using assms(4) nodes_self [of cfg t] by blast
  then have root: "set_root (?h (traw cfg t)) s = (Inr (), s\<lparr>trie_root := ?h (traw cfg t)\<rparr>)"
    using assms(3) by (intro set_root_result) (auto simp: codec_ok_def)
  have "set (ops0 @ ops1) \<subseteq> put_op cfg ` N" using o(2) assms(2) image_mono [OF assms(4), of "put_op cfg"] by (simp add: puts_in_def) blast
  then obtain s' where s': "db_batch (ops0 @ ops1) (s\<lparr>trie_root := ?h (traw cfg t)\<rparr>) = (Inr (), s')"
    "trie_root s' = ?h (traw cfg t)" "db_ok cfg N (db_of s')"
    "\<forall>h v. db_of s h = Some v \<longrightarrow> db_of s' h = Some v"
    "\<forall>x\<in>N. put_op cfg x \<in> set (ops0 @ ops1) \<longrightarrow> db_of s' (?h x) = Some (cfg_encode cfg x)"
    using db_batch_puts [OF assms(3), of "ops0 @ ops1" "s\<lparr>trie_root := ?h (traw cfg t)\<rparr>"] assms(5) by auto
  have "stored cfg (db_of s') t"
    unfolding stored_def using o(3) s'(4,5) assms(4,7) by (fastforce simp: covers_def)
  moreover have "db_of s' (?h (traw cfg t)) = Some (cfg_encode cfg (traw cfg t))" using s'(5) N o(4) by auto
  ultimately have "trie_rep cfg N s' (Some t)"
    using s'(2,3) assms(4,6) by (simp add: trie_rep_def refers_root)
  moreover have "saveStack cfg key stack ops0 s = (Inr (), s')"
    using o(1) root s'(1) by (simp add: saveStack_def format_ref_def andthen_Inr)
  ultimately show ?thesis by blast
qed

section \<open>Lookup\<close>

lemma hex_nibbles: "hex (bufferToNibbles key)"
  using nibbles_less by blast

lemma trie_rep_cur:
  assumes "trie_cur s' = trie_cur s"
  shows "trie_rep cfg N s' c = trie_rep cfg N s c"
  using db_of_cur [OF assms] assms by (simp add: trie_rep_def trie_cur_def split: option.split)

lemma findPath_tree:
  assumes "codec_ok cfg N" "trie_rep cfg N s (Some t)"
  shows "\<exists>s'. findPath cfg key b s = (Inr (path_of [] (trace cfg (bufferToNibbles key) t)), s') \<and>
    trie_cur s' = trie_cur s"
  using find_walk_trace [OF assms(1), of t s "Item (trie_root s)" "bufferToNibbles key"
      "Suc (length (bufferToNibbles key))" b "[]" "[]"] assms(2)
  by (auto simp: findPath_def trie_rep_def bnd_def gets_def Let_def simp del: find_walk.simps)

text \<open>In an empty trie nothing is found, not even the root.\<close>

lemma findPath_empty:
  assumes "codec_ok cfg N" "trie_rep cfg N s None"
  shows "\<exists>s'. findPath cfg key False s = (Inr \<lparr>path_node = None, path_remaining = [], path_stack = []\<rparr>, s') \<and>
    trie_cur s' = trie_cur s"
proof -
  have "db_of s KECCAK256_RLP = None"
    using assms by (cases "db_of s KECCAK256_RLP") (fastforce simp: trie_rep_def db_ok_def codec_ok_def)+
  moreover obtain s' where "db_get KECCAK256_RLP s = (Inr (db_of s KECCAK256_RLP), s')" "trie_cur s' = trie_cur s"
    using db_get_value [of KECCAK256_RLP s] by (auto simp: db_of_def)
  ultimately show ?thesis
    using assms(2) by (simp add: findPath_def trie_rep_def bnd_def gets_def Let_def catch_eff_def
        lookupNode_def raise_def ret_def)
qed

definition content :: "ptree option \<Rightarrow> bytes \<rightharpoonup> bytes" where
  "content c key = (case c of None \<Rightarrow> None | Some t \<Rightarrow> tget (bufferToNibbles key) t)"

lemma trie_get_content:
  assumes "codec_ok cfg N" "trie_rep cfg N s c"
  shows "\<exists>s'. trie_get cfg key False s = (Inr (map_option Item (content c key)), s') \<and> trie_cur s' = trie_cur s"
proof (cases c)
  case None
  with findPath_empty [of cfg N s key] assms show ?thesis
    by (auto simp: trie_get_def bnd_def ret_def content_def)
next
  case (Some t)
  obtain f r ns where tr: "trace cfg (bufferToNibbles key) t = (f, r, ns)" by (cases "trace cfg (bufferToNibbles key) t")
  have "wf_tree t" using assms(2) Some by (simp add: trie_rep_def)
  from trace_get [OF this, of cfg "bufferToNibbles key"] findPath_tree [OF assms(1), of s t key False] assms(2) Some tr
  show ?thesis by (auto simp: trie_get_def bnd_def ret_def content_def path_of_def found_value_def split: option.splits)
qed

section \<open>Insertion\<close>

definition put_tree :: "bytes \<Rightarrow> bytes \<Rightarrow> ptree option \<Rightarrow> ptree" where
  "put_tree key v c = (case c of None \<Rightarrow> PLeaf (bufferToNibbles key) v | Some t \<Rightarrow> tput (bufferToNibbles key) v t)"

lemma createInitialNode_rep:
  assumes "codec_ok cfg N" "trie_rep cfg N s None" "nodes cfg (PLeaf (bufferToNibbles key) v) \<subseteq> N" "v \<noteq> []"
  shows "\<exists>s'. createInitialNode cfg key v s = (Inr (), s') \<and> trie_rep cfg N s' (Some (PLeaf (bufferToNibbles key) v))"
proof -
  let ?x = "traw cfg (PLeaf (bufferToNibbles key) v)"
  let ?h = "cfg_hash cfg (cfg_encode cfg ?x)"
  have x: "?x \<in> N" using assms(3) by simp
  then have root: "set_root ?h s = (Inr (), s\<lparr>trie_root := ?h\<rparr>)"
    using assms(1) by (intro set_root_result) (auto simp: codec_ok_def)
  obtain s' where s': "db_put ?h (cfg_encode cfg ?x) (s\<lparr>trie_root := ?h\<rparr>) = (Inr (), s')"
    "db_of s' = (db_of s)(?h \<mapsto> cfg_encode cfg ?x)" "trie_root s' = ?h"
    using db_put_result [of ?h _ "s\<lparr>trie_root := ?h\<rparr>"] by auto
  have "db_ok cfg N (db_of s')" using s'(2) assms(2) x by (auto simp: db_ok_def trie_rep_def)
  then have "trie_rep cfg N s' (Some (PLeaf (bufferToNibbles key) v))"
    using s'(2,3) assms(3,4) hex_nibbles by (auto simp: trie_rep_def refers_root stored_def)
  moreover have "createInitialNode cfg key v s = (Inr (), s')"
    using root s'(1) by (simp add: createInitialNode_def node_hash_def node_serialize_def Let_def
        andthen_Inr bnd_def gets_def)
  ultimately show ?thesis by blast
qed

lemma trie_put_rep:
  assumes "codec_ok cfg N" "\<not> deleteFromDB cfg" "trie_rep cfg N s c" "v \<noteq> []" "nodes cfg (put_tree key v c) \<subseteq> N"
  shows "\<exists>s'. trie_put cfg key v s = (Inr (), s') \<and> trie_rep cfg N s' (Some (put_tree key v c))"
proof (cases c)
  case None
  with assms createInitialNode_rep [OF assms(1), of s key v] show ?thesis
    by (simp add: trie_put_def put_tree_def trie_rep_def bnd_def gets_def)
next
  case (Some t)
  let ?k = "bufferToNibbles key"
  have t: "wf_tree t" "nodes cfg t \<subseteq> N" "db_ok cfg N (db_of s)" "refers cfg (db_of s) (Item (trie_root s)) t"
    using assms(3) Some by (simp_all add: trie_rep_def)
  have root: "trie_root s \<noteq> KECCAK256_RLP"
    using t(2,4) assms(1) nodes_self [of cfg t] by (auto simp: refers_root codec_ok_def)
  obtain f r ns where tr: "trace cfg ?k t = (f, r, ns)" by (cases "trace cfg ?k t")
  obtain s1 where s1: "findPath cfg key False s = (Inr \<lparr>path_node = f, path_remaining = r, path_stack = ns\<rparr>, s1)"
    "trie_cur s1 = trie_cur s"
    using findPath_tree [OF assms(1), of s t key False] assms(3) Some tr by (auto simp: path_of_def)
  have "stack_length [] = length []" by (simp add: stack_length_def)
  then obtain ns' ops0 where u: "update_stack cfg ?k v r ns = Inr (ns', ops0)"
    "builds cfg ?k ns' ops0 (nodes cfg t) [] [] (tput ?k v t)" "puts_in cfg ops0 (nodes cfg (tput ?k v t))"
    using update_trace [OF assms(2) t(1) hex_nibbles tr, of "[]" "[]" "nodes cfg t" v] by auto
  have "wf_tree (tput ?k v t)" using t(1) hex_nibbles assms(4) by (rule wf_tput)
  with saveStack_builds [OF u(2,3) assms(1), of s1] t(3,4) assms(5) Some db_of_cur [OF s1(2)]
  obtain s' where "saveStack cfg ?k ns' ops0 s1 = (Inr (), s')" "trie_rep cfg N s' (Some (tput ?k v t))"
    by (auto simp: put_tree_def refers_root stored_def)
  moreover have "updateNode cfg key v r ns s1 = saveStack cfg ?k ns' ops0 s1"
    using u(1) by (simp add: updateNode_def bnd_def of_sum_def Let_def)
  ultimately show ?thesis
    using root s1(1) assms(4) Some by (simp add: trie_put_def bnd_def gets_def put_tree_def)
qed

lemma content_put:
  assumes "trie_rep cfg N s c"
  shows "content (Some (put_tree key v c)) = (content c)(key \<mapsto> v)"
  using assms hex_nibbles by (auto simp: content_def put_tree_def fun_eq_iff tget_tput trie_rep_def split: option.split)

end
