(* ===== verification/Trie_Delete.thy ===== *)
theory Trie_Delete
  imports Trie_Map
begin

text \<open>
  Deletion in a trie whose keys have one length: \<open>del\<close> takes the leaf off its branch, and a branch with
  one child left is joined with what is above and below it. The trie then stands for the tree
  without the key.
\<close>

section \<open>Children of a branch\<close>

lemma getBranch_for:
  assumes "codec_ok cfg N" "branch_for cfg cs w ts w'" "i < length ts"
    "\<And>t. ts ! i = Some t \<Longrightarrow> nodes cfg t \<subseteq> N"
  shows "getBranch cs i = map_option (\<lambda>t. format_ref cfg False (traw cfg t)) (ts ! i)"
proof -
  from assms(2) have m: "map null_raw cs = map (child_ref cfg) ts" by (simp add: branch_for_def)
  then have l: "length cs = length ts" by (metis length_map)
  have "null_raw (cs ! i) = child_ref cfg (ts ! i)"
    using arg_cong [OF m, of "\<lambda>xs. xs ! i"] assms(3) l by simp
  then have "rlp_nonempty (cs ! i) = rlp_nonempty (Some (child_ref cfg (ts ! i)))"
    by (metis rlp_nonempty_null)
  then show ?thesis
    using assms l by (cases "ts ! i")
      (simp_all add: getBranch_def child_ref_def rlp_nonempty_def [of "Some (Item [])"] format_ref_nonempty)
qed

lemma getChildren_for:
  assumes "codec_ok cfg N" "branch_for cfg cs w ts w'" "length ts = 16"
    "\<And>i t. i < 16 \<Longrightarrow> ts ! i = Some t \<Longrightarrow> nodes cfg t \<subseteq> N"
  shows "getChildren cs = map (\<lambda>(i, t). (i, format_ref cfg False (traw cfg t))) (live ts)"
proof -
  have "(case getBranch cs i of None \<Rightarrow> [] | Some b \<Rightarrow> [(i, b)]) =
      map (\<lambda>(i, t). (i, format_ref cfg False (traw cfg t))) (case ts ! i of None \<Rightarrow> [] | Some t \<Rightarrow> [(i, t)])"
    if "i < 16" for i
    using getBranch_for [OF assms(1,2), of i] assms(3,4) that by (simp split: option.split)
  then have "map (\<lambda>i. case getBranch cs i of None \<Rightarrow> [] | Some b \<Rightarrow> [(i, b)]) [0..<16] =
      map (\<lambda>i. map (\<lambda>(i, t). (i, format_ref cfg False (traw cfg t))) (case ts ! i of None \<Rightarrow> [] | Some t \<Rightarrow> [(i, t)])) [0..<16]"
    by (intro map_cong) auto
  from arg_cong [OF this, of concat] show ?thesis
    unfolding getChildren_def live_def map_concat map_map o_def assms(3) .
qed

lemma branch_for_clear: "branch_for cfg cs w ts w' \<Longrightarrow> branch_for cfg (cs[i := None]) w (ts[i := None]) w'"
  by (simp add: branch_for_def map_update child_ref_def)

section \<open>Nodes that stay\<close>

lemma builds_tnode:
  assumes "nodes cfg t \<subseteq> old" "is_PBranch t"
  shows "builds cfg p (tnode cfg t # st) [] old p st t"
proof -
  obtain ts w where t: "t = PBranch ts w" using assms(2) by (cases t) auto
  have "covers cfg [] old (nodes cfg u)" if "j < length ts" "ts ! j = Some u" for j u
    using assms(1) nodes_child [OF that, where cfg = cfg and w = w] t by (intro covers_old) blast
  from builds_branch_top [OF branch_for_tnode this] t show ?thesis by (simp add: tnode_def)
qed

lemma builds_ext_top:
  assumes "nodes cfg t \<subseteq> old"
  shows "builds cfg (p @ k) (Extension k (format_ref cfg False (traw cfg t)) # st) [] old p st (PExt k t)"
proof -
  let ?e = "emit cfg (st = []) (traw cfg (PExt k t))"
  have "covers cfg ?e old (nodes cfg (PExt k t))" using assms by (auto simp: covers_def emit_def)
  then show ?thesis
    unfolding builds_def by (intro exI [where x = ?e]) (auto simp: formatNode_emit)
qed

text \<open>The child that is left on a branch, with the nibbles above it.\<close>

definition lift_node :: "nibbles \<Rightarrow> rlp \<Rightarrow> trie_node \<Rightarrow> nibbles \<times> trie_node list" where
  "lift_node k c n = (case n of Branch cs w \<Rightarrow> (k, [n, Extension k c]) | _ \<Rightarrow> (k @ node_key n, [set_key (k @ node_key n) n]))"

lemma builds_join:
  assumes "nodes cfg u \<subseteq> old" "lift_node k c (tnode cfg u) = (q, ns)"
  shows "builds cfg (p @ q) (ns @ st) [] old p st (join k u)"
proof (cases u)
  case (PLeaf k' v)
  with assms(2) builds_leaf show ?thesis by (auto simp: tnode_def lift_node_def set_key_def)
next
  case (PExt k' t)
  with assms builds_ext_top [of cfg t old p "k @ k'" st] show ?thesis
    by (auto simp: tnode_def lift_node_def set_key_def)
next
  case (PBranch ts w)
  have "builds cfg (p @ k) (tnode cfg u # Extension k c # st) [] old (p @ k) (Extension k c # st) u"
    using assms PBranch by (intro builds_tnode) simp_all
  from builds_ext [OF this] PBranch assms(2) show ?thesis by (auto simp: tnode_def lift_node_def)
qed

lemma process_plain:
  assumes "lift_node [j] (Item []) n = (q, ns)" "\<not> (\<exists>k c. parent = Some (Extension k c) \<or> parent = Some (Leaf k c))"
  shows "processBranchNode p j n parent st = (p @ q, ns @ (case parent of None \<Rightarrow> st | Some x \<Rightarrow> x # st))"
  using assms
  by (cases parent; cases n; cases "the parent") (auto simp: processBranchNode_def lift_node_def Let_def)

lemma process_ext:
  assumes "lift_node (k @ [j]) c n = (q, ns)"
  shows "processBranchNode (p @ k) j n (Some (Extension k c)) st = (p @ q, ns @ st)"
  using assms by (cases n) (auto simp: processBranchNode_def lift_node_def)

section \<open>Closing a branch\<close>

text \<open>
  What a deletion amounts to, on top of \<open>st\<close>: a tree \<open>t\<close> below the key \<open>p\<close> is built, or, when an
  extension is on top of \<open>st\<close>, the tree joined with the extension's key.
\<close>

definition closes :: "trie_cfg \<Rightarrow> nibbles \<Rightarrow> trie_node list \<Rightarrow> rlp set \<Rightarrow> nibbles \<Rightarrow> trie_node list \<Rightarrow> ptree \<Rightarrow> bool" where
  "closes cfg key stack old p st t \<longleftrightarrow>
     (case st of
        Extension k c # st' \<Rightarrow> \<forall>p'. p = p' @ k \<longrightarrow> builds cfg key stack [] old p' st' (join k t)
      | _ \<Rightarrow> builds cfg key stack [] old p st t)"

lemma builds_closes: "is_PBranch t \<Longrightarrow> builds cfg key stack [] old p st t \<Longrightarrow> closes cfg key stack old p st t"
  by (cases t) (auto simp: closes_def intro: builds_ext split: list.split trie_node.split)

lemma join_join: "join k (join [j] u) = join (k @ [j]) u"
  by (cases u) simp_all

lemma hd_stack: "(case (case st of [] \<Rightarrow> None | p # _ \<Rightarrow> Some p) of None \<Rightarrow> tl st | Some x \<Rightarrow> x # tl st) = st"
  by (cases st) simp_all

lemma close_branch_closes:
  assumes cfg: "codec_ok cfg N" and b: "branch_for cfg cs w ts None" "length ts = 16" "live ts \<noteq> []"
    and old: "\<And>i t. i < 16 \<Longrightarrow> ts ! i = Some t \<Longrightarrow> wf_tree t \<and> nodes cfg t \<subseteq> N \<and> nodes cfg t \<subseteq> old \<and> stored cfg (db_of s) t"
    and st: "\<And>k c st'. st \<noteq> Leaf k c # st'"
    and p: "\<And>k c st'. st = Extension k c # st' \<Longrightarrow> \<exists>p'. p = p' @ k"
  shows "\<exists>key' stack' s1. close_branch cfg p (Branch cs w) (case st of [] \<Rightarrow> None | x # _ \<Rightarrow> Some x) (tl st) [] s =
      saveStack cfg key' stack' [] s1 \<and> trie_cur s1 = trie_cur s \<and> closes cfg key' stack' old p st (collapse ts None)"
proof -
  let ?parent = "case st of [] \<Rightarrow> None | x # _ \<Rightarrow> Some x"
  have ch: "getChildren cs = map (\<lambda>(i, t). (i, format_ref cfg False (traw cfg t))) (live ts)"
    using getChildren_for [OF cfg b(1,2)] old by blast
  show ?thesis
  proof (cases "\<exists>j u. live ts = [(j, u)]")
    case False
    have "covers cfg [] old (nodes cfg t)" if "i < length ts" "ts ! i = Some t" for i t
      using old that b(2) by (intro covers_old) auto
    then have "builds cfg p (Branch cs w # st) [] old p st (PBranch ts None)"
      using builds_branch_top [OF b(1)] by blast
    moreover have "collapse ts None = PBranch ts None" using False by (auto simp: collapse_def split: list.split)
    moreover have "close_branch cfg p (Branch cs w) ?parent (tl st) [] s = saveStack cfg p (Branch cs w # st) [] s"
      using False b(3) hd_stack [of st] by (auto simp: close_branch_def ch split: list.splits)
    ultimately show ?thesis using builds_closes by (metis is_PBranch.simps(1))
  next
    case True
    then obtain j u where l: "live ts = [(j, u)]" by blast
    with live_single [OF l] b(2) have ju: "j < 16" "ts ! j = Some u" by simp_all
    note u = old [OF ju]
    then obtain s1 where s1: "lookupNode cfg (format_ref cfg False (traw cfg u)) s = (Inr (tnode cfg u), s1)"
      "trie_cur s1 = trie_cur s"
      using lookupNode_denotes [OF cfg _ _ refers_denotes [OF refers_format]] by blast
    have run: "close_branch cfg p (Branch cs w) ?parent (tl st) [] s =
        (case processBranchNode p j (tnode cfg u) ?parent (tl st) of (key', stack') \<Rightarrow> saveStack cfg key' stack' [] s1)"
      using s1(1) by (simp add: close_branch_def ch l bnd_def split: prod.split)
    have c: "collapse ts None = join [j] u" by (simp add: collapse_def l)
    show ?thesis
    proof (cases "\<exists>k c st'. st = Extension k c # st'")
      case True
      then obtain k c st' where e: "st = Extension k c # st'" by blast
      with p obtain p' where p': "p = p' @ k" by blast
      obtain q ns where q: "lift_node (k @ [j]) c (tnode cfg u) = (q, ns)" by force
      have "closes cfg (p' @ q) (ns @ st') old p st (join [j] u)"
        using builds_join [OF _ q] u e p' by (auto simp: closes_def join_join)
      then show ?thesis using run process_ext [OF q, of p' st'] e p' s1(2) c by auto
    next
      case False
      obtain q ns where q: "lift_node [j] (Item []) (tnode cfg u) = (q, ns)" by force
      have "closes cfg (p @ q) (ns @ st) old p st (join [j] u)"
        using builds_join [OF _ q, of old p st] u False by (auto simp: closes_def split: list.split trie_node.split)
      moreover have "processBranchNode p j (tnode cfg u) ?parent (tl st) = (p @ q, ns @ st)"
      proof -
        have "\<not> (\<exists>k c. ?parent = Some (Extension k c) \<or> ?parent = Some (Leaf k c))"
          using False st [of _ _ "tl st"] by (cases st) auto
        from process_plain [OF q this, of p "tl st"] show ?thesis unfolding hd_stack .
      qed
      ultimately show ?thesis using run s1(2) c by auto
    qed
  qed
qed

section \<open>Deleting a key\<close>

text \<open>A stack whose lowest parts are the path to the key \<open>p\<close>.\<close>

definition stack_for :: "nibbles \<Rightarrow> trie_node list \<Rightarrow> bool" where
  "stack_for p st \<longleftrightarrow> (case st of
       [] \<Rightarrow> True | Branch cs w # _ \<Rightarrow> True | Extension k c # _ \<Rightarrow> \<exists>p'. p = p' @ k | Leaf k c # _ \<Rightarrow> False)"

lemma deleteNode_leaf:
  assumes "bufferToNibbles key = p @ i # k" "\<not> deleteFromDB cfg"
  shows "deleteNode cfg key (Leaf k v # Branch cs w # st) s =
    close_branch cfg p (Branch (cs[i := None]) w) (case st of [] \<Rightarrow> None | x # _ \<Rightarrow> Some x) (tl st) [] s"
proof -
  have "cut_key (p @ i # k) (length k) = p @ [i]" using cut_key_append [of "p @ [i]" k] by simp
  then show ?thesis using assms by (simp add: deleteNode_def Let_def formatNode_emit(2) setBranch_def)
qed

lemma delete_trace:
  "codec_ok cfg N \<Longrightarrow> \<not> deleteFromDB cfg \<Longrightarrow> wf_tree t \<Longrightarrow> keys_of_length (length k) t \<Longrightarrow> hex k \<Longrightarrow>
    nodes cfg t \<subseteq> N \<Longrightarrow> nodes cfg t \<subseteq> old \<Longrightarrow> stored cfg (db_of s) t \<Longrightarrow> bufferToNibbles key = p @ k \<Longrightarrow>
    trace cfg k t = (Some n, r, ns) \<Longrightarrow> stack_for p st \<Longrightarrow> tdel k t = Some t' \<Longrightarrow>
    \<not> (\<exists>k' u. t = PExt k' u) \<or> \<not> (\<exists>k c st'. st = Extension k c # st') \<Longrightarrow>
    \<exists>key' stack' s1. deleteNode cfg key (ns @ st) s = saveStack cfg key' stack' [] s1 \<and>
      trie_cur s1 = trie_cur s \<and> closes cfg key' stack' old p st t'"
proof (induction cfg k t arbitrary: n r ns p st t' rule: trace.induct)
  case (1 cfg k k' v)
  then show ?case by (auto simp: Let_def split: if_splits)
next
  case (2 cfg k k' t)
  note hyp = 2
  let ?E = "tnode cfg (PExt k' t)"
  have E: "?E = Extension k' (format_ref cfg False (traw cfg t))" by (simp add: tnode_def)
  have pre: "prefix k' k" using hyp(11) by (auto simp: Let_def split: if_splits)
  then obtain q where q: "k = k' @ q" by (auto simp: prefix_def)
  obtain r1 ns1 where tr: "trace cfg q t = (Some n, r1, ns1)" "ns = ns1 @ [?E]"
    using hyp(11) pre q by (auto simp: Let_def split: prod.splits)
  obtain u where u: "tdel q t = Some u" "t' = join k' u" using hyp(13) pre q by (auto split: option.splits)
  have t: "wf_tree t" "keys_of_length (length q) t" "hex q" "nodes cfg t \<subseteq> N" "nodes cfg t \<subseteq> old"
    "is_PBranch t" "stored cfg (db_of s) t"
    using hyp(4-9) q stored_ext [of cfg _ k' t] by simp_all
  have "stack_for (p @ k') (?E # st)" by (auto simp: stack_for_def E)
  with hyp(1) [OF refl pre hyp(2,3), where n = n and r = r1 and ns = ns1 and p = "p @ k'" and st = "?E # st" and t' = u] t tr(1) u(1) q hyp(10)
  obtain key' stack' s1 where c: "deleteNode cfg key (ns1 @ ?E # st) s = saveStack cfg key' stack' [] s1"
    "trie_cur s1 = trie_cur s" "closes cfg key' stack' old (p @ k') (?E # st) u"
    by (cases t) auto
  from c(3) have "builds cfg key' stack' [] old p st (join k' u)" by (simp add: closes_def E)
  moreover have "\<not> (\<exists>k c st'. st = Extension k c # st')" using hyp(14) by simp
  ultimately have "closes cfg key' stack' old p st (join k' u)"
    by (auto simp: closes_def split: list.split trie_node.split)
  with c(1,2) u(2) tr(2) show ?case by auto
next
  case (3 cfg ts w)
  then show ?case by simp
next
  case (4 cfg i k ts w)
  note hyp = 4
  let ?B = "tnode cfg (PBranch ts w)" and ?cs = "map (\<lambda>c. Some (child_ref cfg c)) ts"
  have B: "?B = Branch ?cs (Some (raw_value w))" by (simp add: tnode_def)
  have len: "length ts = 16" "i < 16" "w = None" using hyp(4-6) by simp_all
  obtain t where t: "ts ! i = Some t" using hyp(11) len by (cases "ts ! i") (auto simp: Let_def)
  obtain r1 ns1 where tr: "trace cfg k t = (Some n, r1, ns1)" "ns = ns1 @ [?B]"
    using hyp(11) t len by (auto simp: Let_def split: prod.splits)
  have sub: "wf_tree u \<and> keys_of_length (length k) u \<and> nodes cfg u \<subseteq> N \<and> nodes cfg u \<subseteq> old \<and> stored cfg (db_of s) u"
    if "j < 16" "ts ! j = Some u" for j u
    using hyp(4-9) that len stored_child [of cfg _ ts w j u] nodes_child [of j ts u cfg w] by auto
  have cov: "covers cfg [] old (nodes cfg u)" if "j < length ts" "ts ! j = Some u" for j u
    using sub that len by (intro covers_old) auto
  show ?case
  proof (cases "tdel k t")
    case None
    then obtain v where v: "t = PLeaf k v"
    proof -
      assume that: "\<And>v. t = PLeaf k v \<Longrightarrow> thesis"
      have "tget k t \<noteq> None \<and> (\<forall>q. q \<noteq> k \<longrightarrow> tget q t = None)"
        using tdel_None_leaf None sub [OF len(2) t] by blast
      then obtain x where x: "tget k t = Some x" "\<And>q. q \<noteq> k \<Longrightarrow> tget q t = None" by auto
      with two_keys sub [OF len(2) t] obtain k' v' where "t = PLeaf k' v'" by blast
      with x(1) that show thesis by (auto split: if_splits)
    qed
    have "ns1 = [Leaf k (Item v)]" using tr(1) v by (auto simp: Let_def tnode_def split: if_splits)
    then have del: "deleteNode cfg key (ns @ st) s = close_branch cfg p (Branch (?cs[i := None]) (Some (raw_value w)))
        (case st of [] \<Rightarrow> None | x # _ \<Rightarrow> Some x) (tl st) [] s"
      using deleteNode_leaf [OF hyp(10,3)] tr(2) B by simp
    have "Suc (length (live (ts[i := None]))) = length (live ts)"
      using length_live_update [of i ts None] len t by simp
    moreover have "2 \<le> length (live ts)" using hyp(4) len by (simp add: ways_def)
    ultimately have l: "live (ts[i := None]) \<noteq> []" by auto
    have t': "t' = collapse (ts[i := None]) None" using hyp(13) None t len by simp
    have b: "branch_for cfg (?cs[i := None]) (Some (raw_value w)) (ts[i := None]) None"
      using branch_for_clear [OF branch_for_tnode] len by blast
    have p1: "wf_tree u \<and> nodes cfg u \<subseteq> N \<and> nodes cfg u \<subseteq> old \<and> stored cfg (db_of s) u"
      if "j < 16" "ts[i := None] ! j = Some u" for j u
      using that sub len by (cases "j = i") auto
    have p2: "st \<noteq> Leaf k c # st'" for k c st' using hyp(12) by (auto simp: stack_for_def)
    have p3: "\<exists>p'. p = p' @ k" if "st = Extension k c # st'" for k c st'
      using hyp(12) that by (simp add: stack_for_def)
    have "\<exists>key' stack' s1. close_branch cfg p (Branch (?cs[i := None]) (Some (raw_value w)))
          (case st of [] \<Rightarrow> None | x # _ \<Rightarrow> Some x) (tl st) [] s = saveStack cfg key' stack' [] s1 \<and>
        trie_cur s1 = trie_cur s \<and> closes cfg key' stack' old p st (collapse (ts[i := None]) None)"
      by (rule close_branch_closes [OF hyp(2) b _ l]) (simp add: len, rule p1, assumption+, rule p2, rule p3, assumption)
    then show ?thesis using del t' by simp
  next
    case (Some u)
    have "stack_for (p @ [i]) (?B # st)" by (simp add: stack_for_def B)
    with hyp(1) [OF refl _ hyp(2,3), where n = n and r = r1 and ns = ns1 and p = "p @ [i]" and st = "?B # st" and t' = u] t len sub [OF len(2) t] hyp(6,10) tr(1) Some B
    obtain key' stack' s1 where c: "deleteNode cfg key (ns1 @ ?B # st) s = saveStack cfg key' stack' [] s1"
      "trie_cur s1 = trie_cur s" "closes cfg key' stack' old (p @ [i]) (?B # st) u"
      by auto
    then have b: "builds cfg key' stack' [] old (p @ [i]) (Branch ?cs (Some (raw_value w)) # st) u"
      by (simp add: closes_def B)
    have "builds cfg key' stack' [] old p st (PBranch (ts[i := Some u]) w)"
      by (rule builds_branch [OF b]) (use len cov branch_for_tnode in auto)
    then have "closes cfg key' stack' old p st (PBranch (ts[i := Some u]) w)" by (simp add: builds_closes)
    moreover have "t' = PBranch (ts[i := Some u]) w" using hyp(13) Some t len by simp
    ultimately show ?thesis using c(1,2) tr(2) by auto
  qed
qed

definition del_tree :: "bytes \<Rightarrow> ptree option \<Rightarrow> ptree option" where
  "del_tree key c = (case c of None \<Rightarrow> None | Some t \<Rightarrow> tdel (bufferToNibbles key) t)"

text \<open>A key that the path does not reach is not in the tree, and deleting it changes nothing.\<close>

lemma join_branch: "is_PBranch t \<Longrightarrow> join k t = PExt k t"
  by (cases t) simp_all

lemma trace_missed: "trace cfg k t = (None, r, ns) \<Longrightarrow> wf_tree t \<Longrightarrow> tdel k t = Some t"
proof (induction cfg k t arbitrary: r ns rule: trace.induct)
  case (1 cfg k k' v)
  then show ?case by (auto simp: Let_def split: if_splits)
next
  case (2 cfg k k' t)
  then show ?case by (auto simp: Let_def join_branch split: if_splits prod.splits)
next
  case (3 cfg ts w)
  then show ?case by (simp add: Let_def)
next
  case (4 cfg i k ts w)
  show ?case
  proof (cases "i < length ts \<and> ts ! i \<noteq> None")
    case True
    then obtain t where t: "i < length ts" "ts ! i = Some t" by auto
    then obtain r1 ns1 where "trace cfg k t = (None, r1, ns1)" using 4(2) by (auto simp: Let_def split: prod.splits)
    with 4(1,3) t have "tdel k t = Some t" by auto
    with t show ?thesis by (simp add: list_update_same_conv)
  qed (use 4(2) in \<open>auto simp: Let_def\<close>)
qed

lemma trie_del_rep:
  assumes "codec_ok cfg N" "\<not> deleteFromDB cfg" "trie_rep cfg N s c"
    "\<forall>t. c = Some t \<longrightarrow> keys_of_length (2 * length key) t"
    "\<forall>t. del_tree key c = Some t \<longrightarrow> nodes cfg t \<subseteq> N"
  shows "\<exists>s'. trie_del cfg key s = (Inr (), s') \<and> trie_rep cfg N s' (del_tree key c)"
proof (cases c)
  case None
  with findPath_empty [OF assms(1), of s key] assms(3) obtain s' where
    "findPath cfg key False s = (Inr \<lparr>path_node = None, path_remaining = [], path_stack = []\<rparr>, s')"
    "trie_cur s' = trie_cur s" by auto
  with None assms(3) trie_rep_cur [of s' s cfg N None] show ?thesis
    by (simp add: trie_del_def bnd_def when_eff_def ret_def del_tree_def)
next
  case (Some t)
  let ?k = "bufferToNibbles key"
  have t: "wf_tree t" "nodes cfg t \<subseteq> N" "db_ok cfg N (db_of s)" "refers cfg (db_of s) (Item (trie_root s)) t"
    "keys_of_length (length ?k) t"
    using assms(3,4) Some by (simp_all add: trie_rep_def)
  obtain f r ns where tr: "trace cfg ?k t = (f, r, ns)" by (cases "trace cfg ?k t")
  obtain s1 where s1: "findPath cfg key False s = (Inr \<lparr>path_node = f, path_remaining = r, path_stack = ns\<rparr>, s1)"
    "trie_cur s1 = trie_cur s"
    using findPath_tree [OF assms(1), of s t key False] assms(3) Some tr by (auto simp: path_of_def)
  have rep: "trie_rep cfg N s1 (Some t)" using trie_rep_cur [OF s1(2)] assms(3) Some by simp
  show ?thesis
  proof (cases f)
    case None
    with trace_missed tr t(1) have "tdel ?k t = Some t" by blast
    with None s1(1) rep Some show ?thesis
      by (simp add: trie_del_def bnd_def when_eff_def ret_def del_tree_def)
  next
    case f: (Some n)
    have run: "trie_del cfg key s = deleteNode cfg key ns s1"
      using s1(1) f by (simp add: trie_del_def bnd_def when_eff_def)
    show ?thesis
    proof (cases "tdel ?k t")
      case None
      have "tget ?k t \<noteq> None \<and> (\<forall>q. q \<noteq> ?k \<longrightarrow> tget q t = None)" using tdel_None_leaf [OF None t(5)] .
      then obtain x where "tget ?k t = Some x" "\<And>q. q \<noteq> ?k \<Longrightarrow> tget q t = None" by auto
      with two_keys [OF t(1)] obtain k' v where "t = PLeaf k' v" by metis
      then have "ns = [Leaf k' (Item v)]" using tr by (auto simp: Let_def tnode_def split: if_splits)
      then have "deleteNode cfg key ns s1 = (Inr (), s1\<lparr>trie_root := KECCAK256_RLP\<rparr>)"
        by (simp add: deleteNode_def Let_def EMPTY_TRIE_ROOT_def KECCAK256_RLP_def set_root_result)
      then show ?thesis using run None Some rep by (simp add: trie_rep_def del_tree_def)
    next
      case t': (Some t')
      have "stored cfg (db_of s1) t" using rep by (simp add: trie_rep_def refers_root)
      with delete_trace [OF assms(1,2) t(1,5) hex_nibbles t(2) subset_refl, of s1 key "[]" n r ns "[]" t'] tr f t'
      obtain key' stack' s2 where d: "deleteNode cfg key ns s1 = saveStack cfg key' stack' [] s2"
        "trie_cur s2 = trie_cur s1" "closes cfg key' stack' (nodes cfg t) [] [] t'"
        by (auto simp: stack_for_def)
      have "trie_rep cfg N s2 (Some t)" using trie_rep_cur [OF d(2)] rep by simp
      moreover have "nodes cfg t' \<subseteq> N" using assms(5) t' Some by (simp add: del_tree_def)
      moreover have "wf_tree t'" using wf_tdel [OF t(5,1) hex_nibbles t'] by simp
      moreover have "builds cfg key' stack' [] (nodes cfg t) [] [] t'" using d(3) by (simp add: closes_def)
      ultimately obtain s' where "saveStack cfg key' stack' [] s2 = (Inr (), s')" "trie_rep cfg N s' (Some t')"
        using saveStack_builds [of cfg key' stack' "[]" "nodes cfg t" t' N s2] assms(1)
        by (auto simp: trie_rep_def refers_root stored_def)
      with run d(1) t' Some show ?thesis by (simp add: del_tree_def)
    qed
  qed
qed

end
