(* ===== verification/Trie_Proofs.thy ===== *)
theory Trie_Proofs
  imports Trie_Delete
begin

text \<open>
  The properties of the Merkle Patricia trie: what a batch of puts and deletes leaves is a map, the
  root is a function of that map and determines it, and a Merkle proof convinces of exactly what the
  trie with the given root holds.
\<close>

section \<open>The root determines the content\<close>

lemma format_ref_inject:
  assumes "codec_ok cfg N" "traw cfg t \<in> N" "traw cfg u \<in> N"
    "format_ref cfg False (traw cfg t) = format_ref cfg False (traw cfg u)"
  shows "traw cfg t = traw cfg u"
  using assms traw_Items [of cfg t] traw_Items [of cfg u]
  by (auto simp: format_ref_def codec_ok_def inj_on_def split: if_splits)

lemma child_ref_inject:
  assumes "codec_ok cfg N" "\<And>t. c = Some t \<Longrightarrow> nodes cfg t \<subseteq> N" "\<And>t. d = Some t \<Longrightarrow> nodes cfg t \<subseteq> N"
    "child_ref cfg c = child_ref cfg d"
  shows "(c = None \<and> d = None) \<or> (\<exists>t u. c = Some t \<and> d = Some u \<and> traw cfg t = traw cfg u)"
proof -
  have ne: "format_ref cfg False (traw cfg t) \<noteq> Item []" if "nodes cfg t \<subseteq> N" for t
    using format_ref_nonempty [OF assms(1) that, of False] by (auto simp: rlp_nonempty_def split: if_splits)
  show ?thesis
  proof (cases c)
    case None
    with assms(4) ne assms(3) show ?thesis by (cases d) (auto simp: child_ref_def)
  next
    case (Some t)
    with assms(4) ne [of t] assms(2) obtain u where u: "d = Some u" by (cases d) (auto simp: child_ref_def)
    have "traw cfg t \<in> N" "traw cfg u \<in> N"
      using assms(2) [OF Some] assms(3) [OF u] nodes_self by blast+
    from format_ref_inject [OF assms(1) this] assms(4) Some u show ?thesis by (simp add: child_ref_def)
  qed
qed

lemma raw_value_inject: "w \<noteq> Some [] \<Longrightarrow> w' \<noteq> Some [] \<Longrightarrow> raw_value w = raw_value w' \<Longrightarrow> w = w'"
  by (auto simp: raw_value_def split: option.splits)

lemma prefixed_key_inject:
  assumes "hex k" "hex k'" "nibblesToBuffer (addHexPrefix k b) = nibblesToBuffer (addHexPrefix k' b')"
  shows "k = k' \<and> b = b'"
  using assms stored_key by (metis hex_prefix(1,2))

lemma traw_branch_other:
  assumes "length ts = 16"
  shows "traw cfg (PBranch ts w) \<noteq> node_raw (Leaf k c)" "traw cfg (PBranch ts w) \<noteq> node_raw (Extension k c)"
proof -
  have "length (map (child_ref cfg) ts @ [raw_value w]) = 17" using assms by simp
  then show "traw cfg (PBranch ts w) \<noteq> node_raw (Leaf k c)" "traw cfg (PBranch ts w) \<noteq> node_raw (Extension k c)"
    by (auto simp: traw_branch node_raw_def simp del: length_append)
qed

lemma traw_two_inject:
  assumes "hex k" "hex k'"
  shows "node_raw (Leaf k c) = node_raw (Leaf k' c') \<longleftrightarrow> k = k' \<and> c = c'"
    "node_raw (Extension k c) = node_raw (Extension k' c') \<longleftrightarrow> k = k' \<and> c = c'"
    "node_raw (Leaf k c) \<noteq> node_raw (Extension k' c')"
  using prefixed_key_inject [OF assms] by (auto simp: node_raw_def)

lemma traw_inject:
  "codec_ok cfg N \<Longrightarrow> nodes cfg t \<subseteq> N \<Longrightarrow> nodes cfg u \<subseteq> N \<Longrightarrow> wf_tree t \<Longrightarrow> wf_tree u \<Longrightarrow>
     traw cfg t = traw cfg u \<Longrightarrow> t = u"
proof (induction t arbitrary: u)
  case (PLeaf k v)
  then show ?case
    using traw_branch_other [of _ cfg _ k "Item v", symmetric] by (cases u) (auto simp: traw_two_inject)
next
  case (PExt k t)
  note hyp = PExt
  show ?case
  proof (cases u)
    case (PExt k' t')
    then have k: "k = k'" "format_ref cfg False (traw cfg t) = format_ref cfg False (traw cfg t')"
      using hyp(5-7) by (simp_all add: traw_two_inject)
    have "traw cfg t = traw cfg t'"
      using hyp(2-4) PExt nodes_self [of cfg t] nodes_self [of cfg t'] by (intro format_ref_inject [OF hyp(2) _ _ k(2)]) auto
    with hyp PExt k(1) show ?thesis by simp
  next
    case (PLeaf k' v)
    with hyp(5-7) traw_two_inject(3) [of k' k] show ?thesis by (auto dest: sym)
  next
    case (PBranch us x)
    with hyp(6,7) traw_branch_other(2) [of us cfg x] show ?thesis by (auto dest: sym)
  qed
next
  case (PBranch ts w)
  note hyp = PBranch
  show ?case
  proof (cases u)
    case u: (PBranch us x)
    have len: "length ts = 16" "length us = 16" using hyp(5,6) u by simp_all
    have r: "map (child_ref cfg) ts = map (child_ref cfg) us" "raw_value w = raw_value x"
      using hyp(7) u by (simp_all add: traw_branch)
    have "ts ! i = us ! i" if i: "i < 16" for i
    proof -
      have c: "child_ref cfg (ts ! i) = child_ref cfg (us ! i)"
        using arg_cong [OF r(1), of "\<lambda>xs. xs ! i"] i len by simp
      have N: "nodes cfg t \<subseteq> N" if "ts ! i = Some t \<or> us ! i = Some t" for t
        using that hyp(3,4) u i len nodes_child [of i ts t cfg w] nodes_child [of i us t cfg x] by auto
      show ?thesis
      proof (cases "ts ! i = None \<and> us ! i = None")
        case False
        with child_ref_inject [OF hyp(2) _ _ c] N
        obtain t t' where t: "ts ! i = Some t" "us ! i = Some t'" "traw cfg t = traw cfg t'" by blast
        have "Some t \<in> set ts" "wf_tree t" "wf_tree t'" using t i len hyp(5,6) u by (auto simp: in_set_conv_nth)
        with hyp(1) [of "Some t" t t'] t N hyp(2) show ?thesis by auto
      qed simp
    qed
    then have "ts = us" using len by (intro nth_equalityI) auto
    moreover have "w = x" using raw_value_inject r(2) hyp(5,6) u by simp
    ultimately show ?thesis using u by simp
  qed (use hyp(5,7) traw_branch_other [of ts cfg w] in auto)
qed

section \<open>Batches of puts and deletes\<close>

definition tree_step :: "batch_op \<Rightarrow> ptree option \<Rightarrow> ptree option" where
  "tree_step op c = (case op of
       Put_op key v \<Rightarrow> if v = [] then del_tree key c else Some (put_tree key v c)
     | Del_op key \<Rightarrow> del_tree key c)"

definition map_step :: "batch_op \<Rightarrow> (bytes \<rightharpoonup> bytes) \<Rightarrow> (bytes \<rightharpoonup> bytes)" where
  "map_step op m = (case op of
       Put_op key v \<Rightarrow> if v = [] then m(key := None) else m(key \<mapsto> v) | Del_op key \<Rightarrow> m(key := None))"

definition op_key :: "batch_op \<Rightarrow> bytes" where
  "op_key op = (case op of Put_op key v \<Rightarrow> key | Del_op key \<Rightarrow> key)"

definition tree_nodes :: "trie_cfg \<Rightarrow> ptree option \<Rightarrow> rlp set" where
  "tree_nodes cfg c = (case c of None \<Rightarrow> {} | Some t \<Rightarrow> nodes cfg t)"

text \<open>The nodes of all trees that a batch goes through.\<close>

fun batch_nodes :: "trie_cfg \<Rightarrow> batch_op list \<Rightarrow> ptree option \<Rightarrow> rlp set" where
  "batch_nodes cfg [] c = tree_nodes cfg c"
| "batch_nodes cfg (op # ops) c = tree_nodes cfg c \<union> batch_nodes cfg ops (tree_step op c)"

definition tree_keys :: "nat \<Rightarrow> ptree option \<Rightarrow> bool" where
  "tree_keys n c \<longleftrightarrow> (\<forall>t. c = Some t \<longrightarrow> keys_of_length (2 * n) t)"

lemma batch_nodes_first: "tree_nodes cfg c \<subseteq> batch_nodes cfg ops c"
  by (cases ops) auto

lemma content_del:
  assumes "trie_rep cfg N s c" "tree_keys (length key) c"
  shows "content (del_tree key c) = (content c)(key := None)"
proof (cases c)
  case (Some t)
  then have t: "wf_tree t" "keys_of_length (2 * length key) t" using assms by (simp_all add: trie_rep_def tree_keys_def)
  show ?thesis
  proof (cases "tdel (bufferToNibbles key) t")
    case None
    with tdel_None_leaf [OF None t(2)] Some show ?thesis by (auto simp: content_def del_tree_def fun_eq_iff)
  next
    case (Some u)
    with tget_tdel [OF t(2,1) Some] \<open>c = Some t\<close> show ?thesis by (auto simp: content_def del_tree_def fun_eq_iff)
  qed
qed (auto simp: content_def del_tree_def)

lemma step_rep:
  assumes "codec_ok cfg N" "\<not> deleteFromDB cfg" "trie_rep cfg N s c" "tree_keys (length (op_key op)) c"
    "tree_nodes cfg (tree_step op c) \<subseteq> N"
  shows "\<exists>s'. batch_op_run cfg op s = (Inr (), s') \<and> trie_rep cfg N s' (tree_step op c) \<and>
    tree_keys (length (op_key op)) (tree_step op c) \<and> content (tree_step op c) = map_step op (content c)"
proof -
  have del: "\<exists>s'. trie_del cfg key s = (Inr (), s') \<and> trie_rep cfg N s' (del_tree key c) \<and>
      tree_keys (length key) (del_tree key c) \<and> content (del_tree key c) = (content c)(key := None)"
    if "tree_keys (length key) c" "tree_nodes cfg (del_tree key c) \<subseteq> N" for key
  proof -
    have "tree_keys (length key) (del_tree key c)"
    proof (cases c)
      case (Some t)
      then have "wf_tree t" "keys_of_length (2 * length key) t"
        using that(1) assms(3) by (simp_all add: tree_keys_def trie_rep_def)
      with Some wf_tdel [OF this(2,1) hex_nibbles, of key] show ?thesis by (simp add: tree_keys_def del_tree_def)
    qed (simp add: tree_keys_def del_tree_def)
    moreover have "\<forall>t. del_tree key c = Some t \<longrightarrow> nodes cfg t \<subseteq> N" using that(2) by (auto simp: tree_nodes_def)
    ultimately show ?thesis
      using trie_del_rep [OF assms(1-3), of key] content_del [OF assms(3) that(1)] that(1) by (auto simp: tree_keys_def)
  qed
  show ?thesis
  proof (cases op)
    case (Del_op key)
    with del [of key] assms(4,5) show ?thesis by (simp add: batch_op_run_def tree_step_def op_key_def map_step_def)
  next
    case (Put_op key v)
    show ?thesis
    proof (cases "v = []")
      case True
      with Put_op del [of key] assms(4,5) show ?thesis
        by (simp add: batch_op_run_def tree_step_def op_key_def map_step_def trie_put_def)
    next
      case False
      have "tree_keys (length key) (Some (put_tree key v c))"
        using assms(3,4) Put_op keys_tput [of "2 * length key" _ "bufferToNibbles key" v] hex_nibbles [of key] False
        by (cases c) (simp_all add: tree_keys_def put_tree_def op_key_def trie_rep_def)
      with False Put_op trie_put_rep [OF assms(1-3) False, of key] content_put [OF assms(3), of key v] assms(5)
      show ?thesis by (auto simp: batch_op_run_def tree_step_def op_key_def map_step_def tree_nodes_def)
    qed
  qed
qed

lemma batch_rep:
  assumes "codec_ok cfg N" "\<not> deleteFromDB cfg"
  shows "trie_rep cfg N s c \<Longrightarrow> tree_keys n c \<Longrightarrow> \<forall>op\<in>set ops. length (op_key op) = n \<Longrightarrow> batch_nodes cfg ops c \<subseteq> N \<Longrightarrow>
    \<exists>s'. trie_batch cfg ops s = (Inr (), s') \<and> trie_rep cfg N s' (fold tree_step ops c) \<and>
      tree_keys n (fold tree_step ops c) \<and> content (fold tree_step ops c) = fold map_step ops (content c)"
proof (induction ops arbitrary: s c)
  case Nil
  then show ?case by (simp add: trie_batch_def ret_def)
next
  case (Cons op ops)
  have n: "length (op_key op) = n" "tree_nodes cfg (tree_step op c) \<subseteq> N" "batch_nodes cfg ops (tree_step op c) \<subseteq> N"
    using Cons.prems(3,4) batch_nodes_first [of cfg "tree_step op c" ops] by auto
  obtain s1 where s1: "batch_op_run cfg op s = (Inr (), s1)" "trie_rep cfg N s1 (tree_step op c)"
    "tree_keys n (tree_step op c)" "content (tree_step op c) = map_step op (content c)"
    using step_rep [OF assms Cons.prems(1)] Cons.prems(2) n by blast
  from Cons.IH [OF s1(2,3) _ n(3)] Cons.prems(3) s1(1,4) show ?case
    by (auto simp: trie_batch_def andthen_Inr)
qed

lemma new_trie_rep: "trie_rep cfg N new_trie None"
  by (simp add: trie_rep_def new_trie_def EMPTY_TRIE_ROOT_def db_ok_def db_of_def db_view_def)

text \<open>Trees with the same content over byte keys are the same.\<close>

lemma tget_hex: "wf_tree t \<Longrightarrow> tget k t = Some v \<Longrightarrow> hex k"
proof (induction k t rule: tget.induct)
  case (2 k k' t)
  then show ?case by (auto simp: prefix_def split: if_splits)
next
  case (4 i k ts w)
  then show ?case by (fastforce split: if_splits option.splits)
qed (auto split: if_splits)

lemma tget_bytes:
  assumes "wf_tree t" "keys_of_length (2 * n) t" "tget q t = Some v"
  shows "\<exists>key. q = bufferToNibbles key"
proof -
  have "hex q" "length q = 2 * n" using tget_hex keys_of_length_get assms by blast+
  then have "bufferToNibbles (nibblesToBuffer q) = q" by (intro bufferToNibbles_nibblesToBuffer) simp_all
  then show ?thesis by metis
qed

lemma content_unique:
  assumes "trie_rep cfg N s c" "trie_rep cfg N s' c'" "tree_keys n c" "tree_keys m c'" "content c = content c'"
  shows "c = c'"
proof -
  have nonempty: "content (Some t) \<noteq> Map.empty" if t: "wf_tree t" "keys_of_length (2 * n) t" for t n
  proof -
    obtain q v where q: "tget q t = Some v" using tget_nonempty t by blast
    with tget_bytes [OF t q] show ?thesis by (auto simp: content_def fun_eq_iff)
  qed
  show ?thesis
  proof (cases c)
    case None
    then have "content c' = Map.empty" using assms(5) by (simp add: content_def [abs_def])
    with nonempty None assms(2,4) show ?thesis by (cases c') (auto simp: trie_rep_def tree_keys_def)
  next
    case (Some t)
    then have t: "wf_tree t" "keys_of_length (2 * n) t" using assms(1,3) by (simp_all add: trie_rep_def tree_keys_def)
    with nonempty [of t n] Some assms(5) obtain u where c': "c' = Some u"
      by (cases c') (auto simp: content_def [abs_def])
    then have u: "wf_tree u" "keys_of_length (2 * m) u" using assms(2,4) by (simp_all add: trie_rep_def tree_keys_def)
    have "tget q t = tget q u" for q
    proof (cases "\<exists>key. q = bufferToNibbles key")
      case True
      with fun_cong [OF assms(5)] Some c' show ?thesis by (auto simp: content_def)
    next
      case False
      then have "tget q t = None" "tget q u = None"
        using tget_bytes [OF t, of q] tget_bytes [OF u, of q] by (cases "tget q t"; cases "tget q u"; auto)+
      then show ?thesis by simp
    qed
    then have "t = u" using tree_unique t(1) u(1) by blast
    with Some c' show ?thesis by simp
  qed
qed

lemma root_of_rep: "trie_rep cfg N s c \<Longrightarrow>
    trie_root s = (case c of None \<Rightarrow> KECCAK256_RLP | Some t \<Rightarrow> cfg_hash cfg (cfg_encode cfg (traw cfg t)))"
  by (cases c) (simp_all add: trie_rep_def refers_root)

lemma root_unique:
  assumes "codec_ok cfg N" "trie_rep cfg N s c" "trie_rep cfg N s' c'" "trie_root s = trie_root s'"
  shows "c = c'"
proof (cases c; cases c')
  fix t u assume c: "c = Some t" "c' = Some u"
  then have t: "wf_tree t" "wf_tree u" "nodes cfg t \<subseteq> N" "nodes cfg u \<subseteq> N" using assms(2,3) by (simp_all add: trie_rep_def)
  have "traw cfg t \<in> N" "traw cfg u \<in> N" using t nodes_self by blast+
  with assms c have "traw cfg t = traw cfg u"
    using root_of_rep [OF assms(2)] root_of_rep [OF assms(3)] by (auto simp: codec_ok_def inj_on_def)
  with traw_inject [OF assms(1) t(3,4,1,2)] c show ?thesis by simp
next
  fix t assume c: "c = None" "c' = Some t"
  then have "traw cfg t \<in> N" using assms(3) nodes_self [of cfg t] by (auto simp: trie_rep_def)
  with assms(1,4) c root_of_rep [OF assms(2)] root_of_rep [OF assms(3)] show ?thesis by (auto simp: codec_ok_def)
next
  fix t assume c: "c = Some t" "c' = None"
  then have "traw cfg t \<in> N" using assms(2) nodes_self [of cfg t] by (auto simp: trie_rep_def)
  with assms(1,4) c root_of_rep [OF assms(2)] root_of_rep [OF assms(3)] show ?thesis by (auto simp: codec_ok_def)
qed simp

section \<open>Merkle proofs\<close>

text \<open>The database that \<open>fromProof\<close> fills: the items of the proof under their hashes.\<close>

lemma fromProof_db:
  "\<exists>s'. fromProof cfg items s = (Inr (), s') \<and> trie_root s' = trie_root s \<and>
     (\<forall>h v. db_of s' h = Some v \<longrightarrow> h = cfg_hash cfg v \<and> v \<in> set items \<or> db_of s h = Some v) \<and>
     (\<forall>h v. v \<in> set items \<or> db_of s (cfg_hash cfg v) \<noteq> None \<longrightarrow> db_of s' (cfg_hash cfg v) \<noteq> None)"
proof (induction items arbitrary: s)
  case Nil
  then show ?case by (simp add: fromProof_def db_batch_def ret_def)
next
  case (Cons v items)
  obtain s1 where s1: "db_put (cfg_hash cfg v) v s = (Inr (), s1)" "db_of s1 = (db_of s)(cfg_hash cfg v \<mapsto> v)"
    "trie_root s1 = trie_root s"
    using db_put_result by blast
  from Cons [of s1] obtain s' where s': "fromProof cfg items s1 = (Inr (), s')" "trie_root s' = trie_root s1"
    "\<forall>h v. db_of s' h = Some v \<longrightarrow> h = cfg_hash cfg v \<and> v \<in> set items \<or> db_of s1 h = Some v"
    "\<forall>h v. v \<in> set items \<or> db_of s1 (cfg_hash cfg v) \<noteq> None \<longrightarrow> db_of s' (cfg_hash cfg v) \<noteq> None"
    by blast
  have "fromProof cfg (v # items) s = (Inr (), s')"
    using s1(1) s'(1) by (simp add: fromProof_def db_batch_def db_apply_def andthen_Inr)
  moreover have "\<forall>h u. db_of s' h = Some u \<longrightarrow> h = cfg_hash cfg u \<and> u \<in> set (v # items) \<or> db_of s h = Some u"
    using s'(3) s1(2) by (metis fun_upd_apply list.set_intros option.inject)
  moreover have "\<forall>h u. u \<in> set (v # items) \<or> db_of s (cfg_hash cfg u) \<noteq> None \<longrightarrow> db_of s' (cfg_hash cfg u) \<noteq> None"
    using s'(4) s1(2) by (metis fun_upd_apply option.distinct(1) set_ConsD)
  ultimately show ?case using s'(2) s1(3) by auto
qed

definition trace_stack :: "trie_cfg \<Rightarrow> nibbles \<Rightarrow> ptree \<Rightarrow> trie_node list" where
  "trace_stack cfg k t = (case trace cfg k t of (f, r, ns) \<Rightarrow> ns)"

lemma trace_stack_simps [simp]:
  "trace_stack cfg k (PLeaf k' v) = [tnode cfg (PLeaf k' v)]"
  "trace_stack cfg k (PExt k' t) = (if prefix k' k then trace_stack cfg (drop (length k') k) t else []) @ [tnode cfg (PExt k' t)]"
  "trace_stack cfg [] (PBranch ts w) = [tnode cfg (PBranch ts w)]"
  "trace_stack cfg (i # k) (PBranch ts w) =
     (case (if i < length ts then ts ! i else None) of None \<Rightarrow> [] | Some t \<Rightarrow> trace_stack cfg k t) @ [tnode cfg (PBranch ts w)]"
  by (auto simp: trace_stack_def Let_def split: prod.split option.split)

lemma trace_stack_self: "tnode cfg t \<in> set (trace_stack cfg k t)"
  by (cases t; cases k) simp_all

lemma trace_stack_nodes: "n \<in> set (trace_stack cfg k t) \<Longrightarrow> node_raw n \<in> nodes cfg t"
proof (induction cfg k t rule: trace.induct)
  case (4 cfg i k ts w)
  show ?case
  proof (cases "n = tnode cfg (PBranch ts w)")
    case False
    with 4(2) obtain t where t: "i < length ts" "ts ! i = Some t" "n \<in> set (trace_stack cfg k t)"
      by (cases "if i < length ts then ts ! i else None") (auto split: if_splits)
    with 4(1) have "node_raw n \<in> nodes cfg t" by auto
    with nodes_child [OF t(1,2), of cfg w] show ?thesis by blast
  qed (use nodes_self [of cfg "PBranch ts w"] in simp)
qed (use nodes_self in \<open>auto split: if_splits\<close>)

text \<open>The nodes of the path are enough for the walk.\<close>

lemma path_ok_trace:
  "(\<And>n. n \<in> set (trace_stack cfg k t) \<Longrightarrow>
      db (cfg_hash cfg (node_serialize cfg n)) = Some (node_serialize cfg n)) \<Longrightarrow> path_ok cfg db k t"
proof (induction cfg k t rule: trace.induct)
  case (2 cfg k k' t)
  show ?case
  proof (cases "prefix k' k")
    case True
    have "avail cfg db t"
      using 2(2) [of "tnode cfg t"] trace_stack_self [of cfg t "drop (length k') k"] True
      by (auto simp: avail_def denotes_def Let_def format_ref_def node_serialize_def)
    moreover have "path_ok cfg db (drop (length k') k) t" using 2 True by auto
    ultimately show ?thesis by simp
  qed simp
next
  case (4 cfg i k ts w)
  have "avail cfg db t \<and> path_ok cfg db k t" if t: "i < length ts" "ts ! i = Some t" for t
  proof
    show "avail cfg db t"
      using 4(2) [of "tnode cfg t"] trace_stack_self [of cfg t k] t
      by (auto simp: avail_def denotes_def Let_def format_ref_def node_serialize_def)
    show "path_ok cfg db k t" using 4 t by auto
  qed
  then show ?case by (auto split: option.split)
qed simp_all

text \<open>
  What \<open>verifyProof\<close> makes of any list of items of which none collides with another node: the value
  in the tree when the items have the path, an error otherwise.
\<close>

definition has_path :: "trie_cfg \<Rightarrow> (bytes \<rightharpoonup> bytes) \<Rightarrow> nibbles \<Rightarrow> ptree \<Rightarrow> bool" where
  "has_path cfg db k t \<longleftrightarrow> denotes cfg db (Item (cfg_hash cfg (cfg_encode cfg (traw cfg t)))) t \<and> path_ok cfg db k t"

lemma db_of_new_trie [simp]: "db_of new_trie = Map.empty"
  by (simp add: db_of_def new_trie_def db_view_def)

lemma verifyProof_result:
  assumes "codec_ok cfg N" "wf_tree t" "nodes cfg t \<subseteq> N"
    "\<And>p x. p \<in> set items \<Longrightarrow> x \<in> N \<Longrightarrow> cfg_hash cfg p = cfg_hash cfg (cfg_encode cfg x) \<Longrightarrow> p = cfg_encode cfg x"
  shows "\<exists>db. verifyProof cfg (cfg_hash cfg (cfg_encode cfg (traw cfg t))) key items =
      (if has_path cfg db (bufferToNibbles key) t then Inr (map_option Item (content (Some t) key))
       else Inl (JsError ''Invalid proof provided'')) \<and>
    (\<forall>x\<in>N. cfg_encode cfg x \<in> set items \<longrightarrow> db (cfg_hash cfg (cfg_encode cfg x)) = Some (cfg_encode cfg x))"
proof -
  let ?r = "cfg_hash cfg (cfg_encode cfg (traw cfg t))" and ?k = "bufferToNibbles key"
  let ?s = "new_trie\<lparr>trie_root := ?r\<rparr>"
  have N: "traw cfg t \<in> N" using assms(3) nodes_self by blast
  then have len: "length ?r = 32" using assms(1) by (simp add: codec_ok_def)
  obtain s1 where s1: "fromProof cfg items ?s = (Inr (), s1)" "trie_root s1 = ?r"
    "\<And>h v. db_of s1 h = Some v \<Longrightarrow> h = cfg_hash cfg v \<and> v \<in> set items"
    "\<And>v. v \<in> set items \<Longrightarrow> db_of s1 (cfg_hash cfg v) \<noteq> None"
    using fromProof_db [of cfg items ?s] by auto
  let ?db = "db_of s1"
  have right: "v = cfg_encode cfg x" if "x \<in> N" "?db (cfg_hash cfg (cfg_encode cfg x)) = Some v" for x v
    using s1(3) [OF that(2)] assms(4) [of v x] that(1) by simp
  have cons: "consistent cfg ?db t"
    unfolding consistent_def
  proof (intro ballI impI)
    fix x assume "x \<in> nodes cfg t"
    with right [of x] assms(3) show "?db (cfg_hash cfg (cfg_encode cfg x)) \<in> {None, Some (cfg_encode cfg x)}"
      by (cases "?db (cfg_hash cfg (cfg_encode cfg x))") auto
  qed
  have get: "fst (trie_get cfg key True s1) =
      (if has_path cfg ?db ?k t then Inr (map_option Item (content (Some t) key)) else Inl missing_node)"
  proof (cases "denotes cfg ?db (Item ?r) t")
    case False
    then have "?db ?r = None" using right [OF N] by (cases "?db ?r") (auto simp: denotes_def Let_def)
    moreover obtain s2 where "db_get ?r s1 = (Inr (?db ?r), s2)" using db_get_value [of ?r s1] by (auto simp: db_of_def)
    ultimately show ?thesis
      using False s1(2) by (simp add: trie_get_def findPath_def bnd_def gets_def Let_def catch_eff_def lookupNode_def
          raise_def has_path_def)
  next
    case True
    obtain f r ns where tr: "trace cfg ?k t = (f, r, ns)" by (cases "trace cfg ?k t")
    from find_walk_path [OF assms(1,3,2) True cons, of ?k "Suc (length ?k)" True "[]" "[]"]
    obtain res s2 where w: "find_walk cfg True (Suc (length ?k)) ?k (Item ?r) [] [] s1 = (res, s2)"
      "walk_result cfg ?db True ?k t [] res" by auto
    have "found_value (f, r, ns) = map_option Item (tget ?k t)" using trace_get [OF assms(2), of cfg ?k] tr by simp
    then show ?thesis
      using w True tr s1(2)
      by (auto simp: trie_get_def findPath_def bnd_def gets_def Let_def ret_def walk_result_def has_path_def
          path_of_def content_def found_value_def simp del: find_walk.simps split: option.splits if_splits)
  qed
  have "verifyProof cfg ?r key items = (case fst (trie_get cfg key True s1) of
      Inl e \<Rightarrow> if e = missing_node then Inl (JsError ''Invalid proof provided'') else Inl e | Inr x \<Rightarrow> Inr x)"
    using s1(1) set_root_result [OF len, of new_trie]
    by (auto simp: verifyProof_def andthen_Inr catch_eff_def raise_def ret_def split: prod.split sum.split)
  then have "verifyProof cfg ?r key items =
      (if has_path cfg ?db ?k t then Inr (map_option Item (content (Some t) key))
       else Inl (JsError ''Invalid proof provided''))"
    by (simp add: get)
  moreover have "?db (cfg_hash cfg (cfg_encode cfg x)) = Some (cfg_encode cfg x)"
    if "x \<in> N" "cfg_encode cfg x \<in> set items" for x
    using s1(4) [OF that(2)] right [OF that(1)] by (cases "?db (cfg_hash cfg (cfg_encode cfg x))") auto
  ultimately show ?thesis by blast
qed

section \<open>A configuration\<close>

text \<open>The RLP of the repository, and a hash that pads short inputs (and so has no collisions on them).\<close>

definition pad_hash :: "bytes \<Rightarrow> bytes" where
  "pad_hash b = take 31 (b @ replicate 31 0) @ [of_nat (length b)]"

definition sample_cfg :: trie_cfg where
  "sample_cfg = \<lparr>cfg_hash = pad_hash, cfg_encode = rlp_enc,
     cfg_decode = (\<lambda>b. case rlp_decode (In_bytes b) False of
        Inr (Data x) \<Rightarrow> Inr x | Inr (Stream x r) \<Rightarrow> Inr x | Inl e \<Rightarrow> Inl e), deleteFromDB = False\<rparr>"

lemma pad_hash_props:
  assumes "length b \<le> 31"
  shows "length (pad_hash b) = 32" "pad_hash b \<noteq> KECCAK256_RLP"
    "length c \<le> 31 \<Longrightarrow> pad_hash b = pad_hash c \<Longrightarrow> b = c"
proof -
  have u: "unat (of_nat (length d) :: byte) = length d" if "length d \<le> 31" for d :: bytes
    using that by (simp add: unsigned_of_nat take_bit_eq_mod)
  show "length (pad_hash b) = 32" by (simp add: pad_hash_def)
  show "pad_hash b \<noteq> KECCAK256_RLP"
  proof
    assume "pad_hash b = KECCAK256_RLP"
    then have "last (pad_hash b) = last KECCAK256_RLP" by simp
    then have "unat (of_nat (length b) :: byte) = 33" by (simp add: pad_hash_def KECCAK256_RLP_def)
    with u assms show False by simp
  qed
  show "b = c" if c: "length c \<le> 31" "pad_hash b = pad_hash c"
  proof -
    have "(of_nat (length b) :: byte) = of_nat (length c)" using c(2) by (simp add: pad_hash_def)
    then have l: "length b = length c" using u c(1) assms by metis
    have "take 31 (b @ replicate 31 0) = take 31 (c @ replicate 31 0)" using c(2) by (simp add: pad_hash_def)
    then have "take (length b) (take 31 (b @ replicate 31 0)) = take (length b) (take 31 (c @ replicate 31 0))" by simp
    then show ?thesis using assms l by (simp add: min_absorb1)
  qed
qed

lemma codec_ok_sample:
  assumes "\<forall>x\<in>N. length (rlp_enc x) \<le> 31"
  shows "codec_ok sample_cfg N"
proof -
  have "cfg_decode sample_cfg (rlp_enc x) = Inr x" if "x \<in> N" for x
  proof -
    have "length (rlp_enc x) < 256 ^ 8" using assms that by fastforce
    then show ?thesis
      using decode1_enc [of x "[]"] rlp_enc_nonempty [of x]
      by (simp add: sample_cfg_def rlp_decode_def empty_input_def toBytes_def)
  qed
  moreover have "x = y" if "x \<in> N" "y \<in> N" "rlp_enc x = rlp_enc y" for x y
  proof -
    have "length (rlp_enc x) < 256 ^ 8" "length (rlp_enc y) < 256 ^ 8" using assms that by fastforce+
    then show ?thesis using decode1_enc [of x "[]"] decode1_enc [of y "[]"] that(3) by simp
  qed
  ultimately show ?thesis
    using assms pad_hash_props unfolding codec_ok_def inj_on_def by (auto simp: sample_cfg_def)
qed

definition sample_ops :: "batch_op list" where
  "sample_ops = [Put_op [0x61] [1], Put_op [0x62] [2], Del_op [0x61]]"

lemma sample_ops_nodes: "\<forall>x\<in>batch_nodes sample_cfg sample_ops None. length (rlp_enc x) \<le> 31"
  by code_simp

section \<open>Properties\<close>

text \<open>C15. A trie is a map: when a batch of puts and deletes, all of keys of one length, runs on an empty
  trie, it succeeds, and every later \<open>get\<close> returns what a map returns after the same updates (a put of
  the empty value deletes). Hashes must not collide on the nodes that the batch writes, and RLP must
  read back what it wrote.\<close>

theorem trie_is_map:
  assumes "codec_ok cfg N" "\<not> deleteFromDB cfg" "batch_nodes cfg ops None \<subseteq> N"
    "\<forall>op\<in>set ops. length (op_key op) = n"
  shows "\<exists>s. trie_batch cfg ops new_trie = (Inr (), s) \<and>
    (\<forall>key. fst (trie_get cfg key False s) = Inr (map_option Item (fold map_step ops Map.empty key)))"
proof -
  obtain s where s: "trie_batch cfg ops new_trie = (Inr (), s)" "trie_rep cfg N s (fold tree_step ops None)"
    "content (fold tree_step ops None) = fold map_step ops (content None)"
    using batch_rep [OF assms(1,2) new_trie_rep _ assms(4,3)] by (auto simp: tree_keys_def)
  have "content None = Map.empty" by (simp add: content_def fun_eq_iff)
  with s trie_get_content [OF assms(1) s(2)] show ?thesis by (metis fst_conv)
qed

theorem trie_is_map_witness:
  "\<exists>s. trie_batch sample_cfg sample_ops new_trie = (Inr (), s) \<and>
    (\<forall>key. fst (trie_get sample_cfg key False s) = Inr (map_option Item (fold map_step sample_ops Map.empty key)))"
  by (rule trie_is_map [OF codec_ok_sample [OF sample_ops_nodes] _ subset_refl, where n = 1])
    (simp_all add: sample_cfg_def sample_ops_def op_key_def)


definition sample_state :: "batch_op list \<Rightarrow> bytes ctrie" where
  "sample_state ops = snd (trie_batch sample_cfg ops new_trie)"


text \<open>C19. Puts of any keys, also of keys that are prefixes of others, make the trie a map: after a put, \<open>get\<close>
  returns the value at its key and what it returned before at every other key.\<close>

theorem put_then_get:
  assumes "codec_ok cfg N" "\<not> deleteFromDB cfg" "trie_rep cfg N s c" "v \<noteq> []" "nodes cfg (put_tree key v c) \<subseteq> N"
    "trie_put cfg key v s = (r, s')"
  shows "r = Inr () \<and> trie_rep cfg N s' (Some (put_tree key v c)) \<and>
    fst (trie_get cfg q False s') = (if q = key then Inr (Some (Item v)) else fst (trie_get cfg q False s))"
proof -
  have r: "r = Inr ()" "trie_rep cfg N s' (Some (put_tree key v c))"
    using trie_put_rep [OF assms(1-5)] assms(6) by auto
  moreover have "fst (trie_get cfg q False s') = Inr (map_option Item (((content c)(key \<mapsto> v)) q))"
    using trie_get_content [OF assms(1) r(2), of q] content_put [OF assms(3), of key v] by auto
  moreover have "fst (trie_get cfg q False s) = Inr (map_option Item (content c q))"
    using trie_get_content [OF assms(1,3), of q] by auto
  ultimately show ?thesis by simp
qed

theorem put_then_get_witness: "fst (trie_get sample_cfg [0x61] False (snd (trie_put sample_cfg [0x61] [1] new_trie))) = Inr (Some (Item [1]))"
proof -
  have "\<forall>x\<in>nodes sample_cfg (put_tree [0x61] [1] None). length (rlp_enc x) \<le> 31" by code_simp
  from put_then_get [OF codec_ok_sample [OF this] _ new_trie_rep _ subset_refl prod.collapse [symmetric], of "[0x61]"]
  show ?thesis by (simp add: sample_cfg_def)
qed

text \<open>C17. Merkle proofs are sound: when \<open>verifyProof\<close> accepts a list of items for the root of a trie that is
  not empty, what it returns is what the trie itself returns for the key. None of the items may be a
  second preimage of the hash of one of the trie's nodes.\<close>

theorem proofs_sound:
  assumes "codec_ok cfg N" "trie_rep cfg N s (Some t)"
    "\<And>p x. p \<in> set items \<Longrightarrow> x \<in> N \<Longrightarrow> cfg_hash cfg p = cfg_hash cfg (cfg_encode cfg x) \<Longrightarrow> p = cfg_encode cfg x"
    "verifyProof cfg (trie_root s) key items = Inr v"
  shows "fst (trie_get cfg key False s) = Inr v"
proof -
  have t: "wf_tree t" "nodes cfg t \<subseteq> N" using assms(2) by (simp_all add: trie_rep_def)
  obtain b where "verifyProof cfg (trie_root s) key items =
      (if b then Inr (map_option Item (content (Some t) key)) else Inl (JsError ''Invalid proof provided''))"
    using verifyProof_result [OF assms(1) t, of items key] assms(3) root_of_rep [OF assms(2)] by auto
  with assms(4) have "v = map_option Item (content (Some t) key)" by (auto split: if_splits)
  with trie_get_content [OF assms(1,2), of key] show ?thesis by auto
qed

lemma sample_put_rep:
  "codec_ok sample_cfg {traw sample_cfg (PLeaf [6, 1] [1])} \<and>
   trie_rep sample_cfg {traw sample_cfg (PLeaf [6, 1] [1])} (snd (trie_put sample_cfg [0x61] [1] new_trie)) (Some (PLeaf [6, 1] [1]))"
proof -
  have n: "put_tree [0x61] [1] None = PLeaf [6, 1] [1]" by (simp add: put_tree_def bufferToNibbles_def)
  have "\<forall>x\<in>{traw sample_cfg (PLeaf [6, 1] [1])}. length (rlp_enc x) \<le> 31" by code_simp
  from codec_ok_sample [OF this] trie_put_rep [OF codec_ok_sample [OF this] _ new_trie_rep, of "[1]" "[0x61]"] n
  show ?thesis by (auto simp: sample_cfg_def)
qed

theorem proofs_sound_witness:
  "fst (trie_get sample_cfg [0x61] False (snd (trie_put sample_cfg [0x61] [1] new_trie))) = Inr (Some (Item [1]))"
proof (rule proofs_sound [OF sample_put_rep [THEN conjunct1] sample_put_rep [THEN conjunct2],
      where items = "[rlp_enc (traw sample_cfg (PLeaf [6, 1] [1]))]"])
  show "verifyProof sample_cfg (trie_root (snd (trie_put sample_cfg [0x61] [1] new_trie))) [0x61]
      [rlp_enc (traw sample_cfg (PLeaf [6, 1] [1]))] = Inr (Some (Item [1]))" by code_simp
qed (simp add: sample_cfg_def)

text \<open>C18. Merkle proofs are complete: the proof that \<open>createProof\<close> makes for a key of a trie that is not empty,
  also for a key that is absent, is accepted by \<open>verifyProof\<close> with what \<open>get\<close> returns.\<close>

theorem proofs_complete:
  assumes "codec_ok cfg N" "trie_rep cfg N s (Some t)"
  shows "\<exists>items s'. createProof cfg key s = (Inr items, s') \<and>
    verifyProof cfg (trie_root s) key items = fst (trie_get cfg key False s)"
proof -
  let ?k = "bufferToNibbles key"
  have t: "wf_tree t" "nodes cfg t \<subseteq> N" using assms(2) by (simp_all add: trie_rep_def)
  let ?items = "map (node_serialize cfg) (rev (trace_stack cfg ?k t))"
  obtain s' where create: "createProof cfg key s = (Inr ?items, s')"
    using findPath_tree [OF assms, of key False]
    by (auto simp: createProof_def bnd_def ret_def path_of_def trace_stack_def split: prod.split)
  have item: "\<exists>x\<in>N. p = cfg_encode cfg x" if "p \<in> set ?items" for p
    using that trace_stack_nodes [of _ cfg ?k t] t(2) by (auto simp: node_serialize_def)
  have sec: "p = cfg_encode cfg x"
    if "p \<in> set ?items" "x \<in> N" "cfg_hash cfg p = cfg_hash cfg (cfg_encode cfg x)" for p x
    using item [OF that(1)] that(2,3) assms(1) by (auto simp: codec_ok_def inj_on_def)
  obtain db where db: "verifyProof cfg (cfg_hash cfg (cfg_encode cfg (traw cfg t))) key ?items =
      (if has_path cfg db ?k t then Inr (map_option Item (content (Some t) key))
       else Inl (JsError ''Invalid proof provided''))"
    "\<forall>x\<in>N. cfg_encode cfg x \<in> set ?items \<longrightarrow> db (cfg_hash cfg (cfg_encode cfg x)) = Some (cfg_encode cfg x)"
    using verifyProof_result [OF assms(1) t sec, where key = key] by blast
  have have_node: "db (cfg_hash cfg (node_serialize cfg n)) = Some (node_serialize cfg n)"
    if "n \<in> set (trace_stack cfg ?k t)" for n
    using db(2) trace_stack_nodes [OF that] t(2) that by (auto simp: node_serialize_def)
  from have_node [OF trace_stack_self] path_ok_trace [OF have_node, of ?k t] have "has_path cfg db ?k t"
    by (simp add: has_path_def denotes_def Let_def node_serialize_def)
  with db(1) create trie_get_content [OF assms, of key] root_of_rep [OF assms(2)] show ?thesis by auto
qed

theorem proofs_complete_witness:
  "\<exists>items s'. createProof sample_cfg [0x62] (snd (trie_put sample_cfg [0x61] [1] new_trie)) = (Inr items, s') \<and>
    verifyProof sample_cfg (trie_root (snd (trie_put sample_cfg [0x61] [1] new_trie))) [0x62] items =
      fst (trie_get sample_cfg [0x62] False (snd (trie_put sample_cfg [0x61] [1] new_trie)))"
  by (rule proofs_complete [OF sample_put_rep [THEN conjunct1] sample_put_rep [THEN conjunct2]])

section \<open>Where the trie is no map\<close>

text \<open>
  Deletion forgets the value of a branch that has one child left: of the keys \<open>a\<close>, \<open>a1\<close> and \<open>ab\<close>, deleting
  \<open>a1\<close> deletes \<open>a\<close> too. Deleting the empty key from a trie whose root is a branch empties the trie. And
  a put below a node that is missing from the database is written at the last node that was found,
  here at the branch of the keys \<open>1\<close> and \<open>a\<close>, as the value of the empty key.
\<close>

definition prefix_ops :: "batch_op list" where
  "prefix_ops = [Put_op [0x61] [1], Put_op [0x61, 0x31] [2], Put_op [0x61, 0x62] [3]]"

lemma delete_drops_sibling:
  "fst (trie_get sample_cfg [0x61] False (sample_state prefix_ops)) = Inr (Some (Item [1]))"
  "fst (trie_get sample_cfg [0x61] False (sample_state (prefix_ops @ [Del_op [0x61, 0x31]]))) = Inr None"
  by code_simp+

lemma delete_empty_key:
  "trie_root (sample_state [Put_op [0x31] [1], Put_op [0x61] [2], Del_op []]) = KECCAK256_RLP"
  by code_simp

definition pruned_state :: "bytes ctrie" where
  "pruned_state = (let s = sample_state [Put_op [0x31] (replicate 32 1), Put_op [0x61] (replicate 32 2)]
     in s\<lparr>leveldb := (leveldb s) |` {trie_root s}\<rparr>)"

lemma put_below_missing_node:
  "fst (trie_get sample_cfg [] False pruned_state) = Inr None"
  "fst (trie_get sample_cfg [] False (snd (trie_put sample_cfg [0x31] [7] pruned_state))) = Inr (Some (Item [7]))"
  by code_simp+

end
