(* ===== verification/Block_Proofs.thy ===== *)
theory Block_Proofs
  imports Block Block_Header_Proofs Trie_Proofs
begin

text \<open>
  What a validated block promises: its uncles are recent, new and off the chain, and the root of its
  transactions stands for exactly one list of transactions.
\<close>

lemma map_exn_Inr: "map_exn f xs = Inr ys \<Longrightarrow> x \<in> set xs \<Longrightarrow> \<exists>y. f x = Inr y"
  by (induction xs arbitrary: ys) (auto simp: bindS_Inr_iff)

lemma require_iff [simp]: "require ok msg = Inr u \<longleftrightarrow> ok"
  by (simp add: require_def)

section \<open>The ancestors of a block\<close>

inductive ancestor :: "blockchain \<Rightarrow> block \<Rightarrow> block \<Rightarrow> bool" for chain b where
  parent: "bk_getBlock chain (bh_parentHash (b_header b)) = Inr (Some p) \<Longrightarrow> ancestor chain b p"
| further: "ancestor chain b p \<Longrightarrow> bk_getBlock chain (bh_parentHash (b_header p)) = Inr (Some q) \<Longrightarrow>
    ancestor chain b q"

text \<open>A blockchain: it finds blocks by their hash, and numbers count up from a block to the next.\<close>

definition chain_law :: "block_cfg \<Rightarrow> blockchain \<Rightarrow> bool" where
  "chain_law cfg chain \<longleftrightarrow> (\<forall>h p. bk_getBlock chain h = Inr (Some p) \<longrightarrow>
     block_hash cfg p = h \<and> 0 \<le> b_number p \<and>
     (\<forall>q. bk_getBlock chain (bh_parentHash (b_header p)) = Inr (Some q) \<longrightarrow> b_number p = b_number q + 1))"

lemma canonical_blocks_nth:
  "canonical_blocks chain n h = Inr bs \<Longrightarrow>
   length bs = n \<and> (\<forall>i<n. bk_getBlock chain (case i of 0 \<Rightarrow> h | Suc j \<Rightarrow> bh_parentHash (b_header (bs ! j))) =
     Inr (Some (bs ! i)))"
proof (induction n arbitrary: h bs)
  case (Suc n)
  then obtain p rest where p: "bk_getBlock chain h = Inr (Some p)"
    "canonical_blocks chain n (bh_parentHash (b_header p)) = Inr rest" "bs = p # rest"
    by (auto simp: bindS_Inr_iff split: option.splits)
  with Suc.IH [OF p(2)] show ?case
    by (auto simp: nth_Cons split: nat.splits)
qed simp

text \<open>A block that asks a blockchain for the blocks before it, and finds its parent one number below it.\<close>

definition walks :: "block_cfg \<Rightarrow> blockchain \<Rightarrow> block \<Rightarrow> nat \<Rightarrow> block list \<Rightarrow> bool" where
  "walks cfg chain b n bs \<longleftrightarrow> chain_law cfg chain \<and>
     canonical_blocks chain n (bh_parentHash (b_header b)) = Inr bs \<and>
     (\<forall>p. bk_getBlock chain (bh_parentHash (b_header b)) = Inr (Some p) \<longrightarrow> b_number b = b_number p + 1)"

lemma walk_nth: "walks cfg chain b n bs \<Longrightarrow> i < n \<Longrightarrow>
   bk_getBlock chain (case i of 0 \<Rightarrow> bh_parentHash (b_header b)
     | Suc j \<Rightarrow> bh_parentHash (b_header (bs ! j))) = Inr (Some (bs ! i))"
  using canonical_blocks_nth by (auto simp: walks_def)

lemma walk_number:
  "walks cfg chain b n bs \<Longrightarrow> i < n \<Longrightarrow> b_number (bs ! i) = b_number b - 1 - int i \<and> ancestor chain b (bs ! i)"
proof (induction i)
  case 0
  then show ?case using walk_nth [of cfg chain b n bs 0] by (auto simp: walks_def intro: ancestor.parent)
next
  case (Suc i)
  have "bk_getBlock chain (case i of 0 \<Rightarrow> bh_parentHash (b_header b)
    | Suc j \<Rightarrow> bh_parentHash (b_header (bs ! j))) = Inr (Some (bs ! i))"
    using walk_nth [OF Suc.prems(1), of i] Suc.prems by simp
  moreover have "bk_getBlock chain (bh_parentHash (b_header (bs ! i))) = Inr (Some (bs ! Suc i))"
    using walk_nth [OF Suc.prems] by simp
  moreover have "b_number (bs ! i) = b_number b - 1 - int i" "ancestor chain b (bs ! i)" using Suc by simp_all
  ultimately show ?case using Suc.prems(1)
    unfolding walks_def chain_law_def by (fastforce intro: ancestor.further)
qed

lemma walk_complete:
  assumes w: "walks cfg chain b n bs"
  shows "ancestor chain b a \<Longrightarrow> b_number b - int n \<le> b_number a \<Longrightarrow> \<exists>i<n. a = bs ! i"
proof (induction rule: ancestor.induct)
  case (parent p)
  then have "0 < n" using w by (auto simp: walks_def)
  with walk_nth [OF w, of 0] parent show ?case by auto
next
  case (further p q)
  have "\<exists>h. bk_getBlock chain h = Inr (Some p)" using further.hyps(1) by (cases rule: ancestor.cases) blast+
  then have q: "b_number p = b_number q + 1"
    using further.hyps(2) w unfolding walks_def chain_law_def by blast
  with further.IH further.prems obtain i where i: "i < n" "p = bs ! i" by auto
  with walk_number [OF w, of i] further.prems q have "Suc i < n" by simp
  with walk_nth [OF w, of "Suc i"] i further.hyps(2) show ?case by auto
qed

section \<open>Uncles\<close>

lemma lowest_number_le: "lowest_number n us \<le> n \<and> (\<forall>u\<in>set us. lowest_number n us \<le> bh_number u)"
proof (induction us arbitrary: n)
  case (Cons u us)
  from Cons.IH [of n] Cons.IH [of "bh_number u"] show ?case by (auto simp: lowest_number_def)
qed (simp add: lowest_number_def)

lemma validated_parent_block:
  assumes "header_validate cfg (headers_of chain) h height = Inr ()" "\<not> isGenesis h"
  obtains p where "bk_getBlock chain (bh_parentHash h) = Inr (Some p)" "bh_number h = b_number p + 1"
    "validate_height height (b_header p) = Inr ()"
  using assms
  by (auto simp: header_validate_def bindS_Inr_iff headers_of_def b_number_def split: if_splits option.splits)

lemma validated_block:
  assumes "block_validate cfg chain onlyHeader b = (Inr (), b')" "b_number b \<noteq> 0"
  obtains p where "bk_getBlock chain (bh_parentHash (b_header b)) = Inr (Some p)" "b_number b = b_number p + 1"
    "length (b_uncleHeaders b) \<le> 2" "distinct (map (header_hash cfg) (b_uncleHeaders b))"
    "validateUncleHeaders cfg chain b (b_uncleHeaders b) = Inr ()"
proof -
  have v: "header_validate cfg (headers_of chain) (b_header b) None = Inr ()" "validateUncles cfg chain b = Inr ()"
    using assms(1) by (auto simp: block_validate_def eff_defs split: sum.splits)
  have "\<not> isGenesis (b_header b)" using assms(2) by (simp add: isGenesis_def b_number_def)
  with v that show thesis
    by (auto simp: validateUncles_def block_isGenesis_def bindS_Inr_iff b_number_def elim: validated_parent_block)
qed

lemma validated_walk:
  assumes law: "chain_law cfg chain" and valid: "block_validate cfg chain onlyHeader b = (Inr (), b')" "b_number b \<noteq> 0"
    and u: "u \<in> set (b_uncleHeaders b)"
  obtains n bs where "walks cfg chain b n bs" "length bs = n" "b_number b + 1 \<le> bh_number u + int n"
    "check_uncle cfg bs u = Inr ()" "header_validate cfg (headers_of chain) u (Some (b_number b)) = Inr ()"
proof -
  obtain p where p: "bk_getBlock chain (bh_parentHash (b_header b)) = Inr (Some p)" "b_number b = b_number p + 1"
    "validateUncleHeaders cfg chain b (b_uncleHeaders b) = Inr ()"
    using validated_block [OF valid] .
  let ?low = "lowest_number (b_number b) (b_uncleHeaders b)"
  obtain n bs us us2 where w: "toNumber (b_number b - ?low + 1) = Inr n"
    "canonical_blocks chain n (bh_parentHash (b_header b)) = Inr bs"
    "map_exn (check_uncle cfg bs) (b_uncleHeaders b) = Inr us"
    "map_exn (\<lambda>uh. header_validate cfg (headers_of chain) uh (Some (b_number b))) (b_uncleHeaders b) = Inr us2"
    using p(3) u by (auto simp: validateUncleHeaders_def bindS_Inr_iff split: if_splits)
  show thesis
  proof (rule that)
    show "walks cfg chain b n bs" using law w(2) p by (auto simp: walks_def)
    show "length bs = n" using canonical_blocks_nth [OF w(2)] by simp
    show "b_number b + 1 \<le> bh_number u + int n"
      using w(1) lowest_number_le [of "b_number b" "b_uncleHeaders b"] u
      by (auto simp: toNumber_def split: if_splits)
    show "check_uncle cfg bs u = Inr ()" using map_exn_Inr [OF w(3) u] by simp
    show "header_validate cfg (headers_of chain) u (Some (b_number b)) = Inr ()"
      using map_exn_Inr [OF w(4) u] by simp
  qed
qed

text \<open>C36. A block that validates, other than the genesis block, has at most two uncles, all different. Each is
  one to six numbers below the block, has an ancestor of the block as its parent, and is neither an ancestor
  itself nor an uncle of any ancestor above its parent.\<close>

theorem valid_uncles:
  assumes law: "chain_law cfg chain" and valid: "block_validate cfg chain onlyHeader b = (Inr (), b')"
    and "b_number b \<noteq> 0" and u: "u \<in> set (b_uncleHeaders b)"
  shows "length (b_uncleHeaders b) \<le> 2 \<and> distinct (map (header_hash cfg) (b_uncleHeaders b)) \<and>
    b_number b - 6 \<le> bh_number u \<and> bh_number u < b_number b \<and>
    (\<exists>p. ancestor chain b p \<and> block_hash cfg p = bh_parentHash u \<and> bh_number u = b_number p + 1) \<and>
    (\<forall>a. ancestor chain b a \<longrightarrow> bh_number u \<le> b_number a + 1 \<longrightarrow>
       header_hash cfg u \<noteq> block_hash cfg a \<and> header_hash cfg u \<notin> header_hash cfg ` set (b_uncleHeaders a))"
proof -
  obtain q where q: "bk_getBlock chain (bh_parentHash (b_header b)) = Inr (Some q)" "b_number b = b_number q + 1"
    "length (b_uncleHeaders b) \<le> 2" "distinct (map (header_hash cfg) (b_uncleHeaders b))"
    using validated_block [OF valid \<open>b_number b \<noteq> 0\<close>] .
  then have pos: "1 \<le> b_number b" using law unfolding chain_law_def by force
  obtain n bs where w: "walks cfg chain b n bs" "length bs = n" "b_number b + 1 \<le> bh_number u + int n"
    "check_uncle cfg bs u = Inr ()" "header_validate cfg (headers_of chain) u (Some (b_number b)) = Inr ()"
    using validated_walk [OF law valid \<open>b_number b \<noteq> 0\<close> u] .
  have checks: "bh_parentHash u \<in> block_hash cfg ` set bs" "header_hash cfg u \<notin> block_hash cfg ` set bs"
    "\<forall>a\<in>set bs. header_hash cfg u \<notin> header_hash cfg ` set (b_uncleHeaders a)"
    using w(4) by (auto simp: check_uncle_def Let_def bindS_Inr_iff)
  have "bh_number u \<noteq> 0"
  proof
    assume "bh_number u = 0"
    then have "nat (b_number b) < n" using w(3) pos by linarith
    from walk_number [OF w(1) this] have "b_number (bs ! nat (b_number b)) = - 1" "ancestor chain b (bs ! nat (b_number b))"
      using pos by auto
    moreover have "0 \<le> b_number a" if "ancestor chain b a" for a
      using that law unfolding chain_law_def by (metis ancestor.cases)
    ultimately show False by force
  qed
  then have "\<not> isGenesis u" by (simp add: isGenesis_def)
  then obtain p where p: "bk_getBlock chain (bh_parentHash u) = Inr (Some p)" "bh_number u = b_number p + 1"
    "validate_height (Some (b_number b)) (b_header p) = Inr ()"
    using validated_parent_block [OF w(5)] by blast
  obtain a where a: "a \<in> set bs" "block_hash cfg a = bh_parentHash u" using checks(1) by auto
  then have "ancestor chain b a" using walk_number [OF w(1)] w(2) by (auto simp: in_set_conv_nth)
  moreover have "a = p"
  proof -
    obtain h where "bk_getBlock chain h = Inr (Some a)"
      using \<open>ancestor chain b a\<close> by (cases rule: ancestor.cases) blast+
    then show ?thesis using law p(1) a(2) unfolding chain_law_def by (metis Inr_inject option.inject)
  qed
  moreover have "a' \<in> set bs" if "ancestor chain b a'" "bh_number u \<le> b_number a' + 1" for a'
    using walk_complete [OF w(1) that(1)] that(2) w(2,3) by auto
  moreover have "b_number b - 6 \<le> bh_number u \<and> bh_number u < b_number b"
    using p(2,3) by (auto simp: validate_height_def Let_def b_number_def)
  ultimately show ?thesis using q(3,4) checks(2,3) a(2) p(2) by blast
qed

definition uncle_cfg :: block_cfg where
  "uncle_cfg = sample_block_cfg\<lparr>bc_tx := sample_tx_cfg\<lparr>txc_encode := (\<lambda>x. case x of
      Items xs \<Rightarrow> (case xs ! 8 of Item n \<Rightarrow> n | Items ys \<Rightarrow> []) @ (case xs ! 12 of Item e \<Rightarrow> e | Items ys \<Rightarrow> [])
    | Item b \<Rightarrow> b)\<rparr>\<rparr>"

definition wit_header :: "int \<Rightarrow> bytes \<Rightarrow> bytes \<Rightarrow> block_header" where
  "wit_header n parent extra = (sample_block_header n)\<lparr>bh_parentHash := setLengthLeft parent 32,
     bh_difficulty := (if extra = [] \<and> n < 5 then 40 else 60), bh_extraData := extra\<rparr>"

definition wit_block :: "int \<Rightarrow> bytes \<Rightarrow> block_header list \<Rightarrow> block" where
  "wit_block n parent uncles = \<lparr>b_header = wit_header n parent [], b_transactions = [], b_uncleHeaders = uncles,
     b_txTrie = new_trie\<rparr>"

definition wit_uncle :: block_header where
  "wit_uncle = wit_header 4 [3] [1]"

definition wit_chain :: blockchain where
  "wit_chain = \<lparr>bk_activeSigners = None, bk_getBlock = (\<lambda>h. Inr (
     if h = setLengthLeft [4] 32 then Some (wit_block 4 [3] [])
     else if h = setLengthLeft [3] 32 then Some (wit_block 3 [2] []) else None))\<rparr>"

lemma short_hashes [simp]:
  "setLengthLeft [a] 32 = replicate 31 0 @ [a]" "setLengthLeft [a, b] 32 = replicate 30 0 @ [a, b]"
  by (simp_all add: setLengthLeft_def setLength_def)

lemma wit_hash [simp]:
  "header_hash uncle_cfg (wit_header 3 p e) = setLengthLeft (3 # e) 32"
  "header_hash uncle_cfg (wit_header 4 p e) = setLengthLeft (4 # e) 32"
proof -
  have nums: "bnToUnpaddedBuffer 3 = [3]" "bnToUnpaddedBuffer 4 = [4]" by code_simp+
  show "header_hash uncle_cfg (wit_header 3 p e) = setLengthLeft (3 # e) 32"
    "header_hash uncle_cfg (wit_header 4 p e) = setLengthLeft (4 # e) 32"
    by (simp_all add: header_hash_def rlp_of_raw_def uncle_cfg_def sample_tx_cfg_def header_raw_def wit_header_def nums)
qed

lemma wit_header_fields [simp]:
  "bh_common (wit_header n p e) = fee_common" "bh_gasLimit (wit_header n p e) = 100"
  "bh_gasUsed (wit_header n p e) = 50" "bh_baseFeePerGas (wit_header n p e) = Some 80"
  "bh_number (wit_header n p e) = n" "bh_timestamp (wit_header n p e) = n"
  "bh_extraData (wit_header n p e) = e" "bh_parentHash (wit_header n p e) = setLengthLeft p 32"
  "bh_difficulty (wit_header n p e) = (if e = [] \<and> n < 5 then 40 else 60)"
  by (simp_all add: wit_header_def)

lemma wit_block_fields [simp]:
  "b_header (wit_block n p us) = wit_header n p []" "b_transactions (wit_block n p us) = []"
  "b_uncleHeaders (wit_block n p us) = us" "b_number (wit_block n p us) = n"
  "block_hash cfg (wit_block n p us) = header_hash cfg (wit_header n p [])"
  by (simp_all add: wit_block_def b_number_def block_hash_def)

lemma wit_chain_blocks [simp]:
  "bk_getBlock wit_chain h = Inr (if h = setLengthLeft [4] 32 then Some (wit_block 4 [3] [])
     else if h = setLengthLeft [3] 32 then Some (wit_block 3 [2] []) else None)"
  by (simp add: wit_chain_def)

lemma wit_difficulty:
  "n = 4 \<or> n = 5 \<Longrightarrow> canonicalDifficulty (wit_header n p e) (wit_header (n - 1) p' []) = Inr 60"
  by (auto simp: canonicalDifficulty_def header_hardfork_def num_paramByHardfork_def div_checked_def
      difficulty_step_def difficulty_factor_def Let_def)

lemma wit_get [simp]:
  "hc_getHeader (headers_of wit_chain) (replicate 31 0 @ [4]) = Inr (Some (wit_header 4 [3] []))"
  "hc_getHeader (headers_of wit_chain) (replicate 31 0 @ [3]) = Inr (Some (wit_header 3 [2] []))"
  by (simp_all add: headers_of_def)

lemma wit_valid:
  "header_validate uncle_cfg (headers_of wit_chain) (wit_header 4 [3] [1]) (Some 5) = Inr ()"
  "header_validate uncle_cfg (headers_of wit_chain) (wit_header 5 [4] []) None = Inr ()"
  using wit_difficulty [of 4 "[3]" "[1]" "[2]"] wit_difficulty [of 5 "[4]" "[]" "[3]"]
  by (simp_all add: header_validate_def isGenesis_def header_hardfork_def validate_ethash_def
      validateDifficulty_def validateGasLimit_def is_london_block_def
      num_paramByHardfork_def div_checked_def gte_number_def validate_height_def validate_baseFee_def
      calcNextBaseFee_def num_param_def require_def requireS_def)

lemma wit_law: "chain_law uncle_cfg wit_chain"
  by (auto simp: chain_law_def split: if_splits)

theorem valid_uncles_witness:
  "\<exists>p. ancestor wit_chain (wit_block 5 [4] [wit_uncle]) p \<and> block_hash uncle_cfg p = bh_parentHash wit_uncle"
proof -
  have "check_uncle uncle_cfg [wit_block 4 [3] [], wit_block 3 [2] []] wit_uncle = Inr ()"
    by (simp add: check_uncle_def wit_uncle_def Let_def require_def)
  moreover have "toNumber (5 - lowest_number 5 [wit_uncle] + 1) = Inr 2"
    by (simp add: lowest_number_def wit_uncle_def toNumber_def)
  moreover have "canonical_blocks wit_chain 2 (setLengthLeft [4] 32) = Inr [wit_block 4 [3] [], wit_block 3 [2] []]"
    by (simp add: numeral_2_eq_2)
  ultimately have "validateUncles uncle_cfg wit_chain (wit_block 5 [4] [wit_uncle]) = Inr ()"
    using wit_valid(1)
    by (simp add: validateUncles_def validateUncleHeaders_def block_isGenesis_def isGenesis_def wit_uncle_def require_def)
  then have "block_validate uncle_cfg wit_chain True (wit_block 5 [4] [wit_uncle]) = (Inr (), wit_block 5 [4] [wit_uncle])"
    using wit_valid(2)
    by (simp add: block_validate_def validateData_def validateTransactions_def eff_defs)
  from valid_uncles [OF wit_law this, of wit_uncle] show ?thesis by auto
qed

section \<open>The root of the transactions\<close>

fun tx_ops :: "block_cfg \<Rightarrow> nat \<Rightarrow> transaction list \<Rightarrow> batch_op list" where
  "tx_ops cfg i [] = []"
| "tx_ops cfg i (t # ts) = Put_op (index_key cfg i) (tx_serialize (bc_tx cfg) t) # tx_ops cfg (Suc i) ts"

lemma put_txs_batch: "put_txs cfg i ts = trie_batch (tx_trie_cfg cfg) (tx_ops cfg i ts)"
  by (induction cfg i ts rule: put_txs.induct) (simp_all add: trie_batch_def batch_op_run_def)

text \<open>Puts of keys of any lengths.\<close>

definition is_put :: "batch_op \<Rightarrow> bool" where
  "is_put op \<longleftrightarrow> (case op of Put_op k v \<Rightarrow> v \<noteq> [] | Del_op k \<Rightarrow> False)"

lemma puts_rep:
  assumes "codec_ok cfg N" "\<not> deleteFromDB cfg"
  shows "trie_rep cfg N s c \<Longrightarrow> \<forall>op\<in>set ops. is_put op \<Longrightarrow> batch_nodes cfg ops c \<subseteq> N \<Longrightarrow>
    \<exists>s'. trie_batch cfg ops s = (Inr (), s') \<and> trie_rep cfg N s' (fold tree_step ops c) \<and>
      content (fold tree_step ops c) = fold map_step ops (content c)"
proof (induction ops arbitrary: s c)
  case Nil
  then show ?case by (simp add: trie_batch_def ret_def)
next
  case (Cons op ops)
  obtain k v where op: "op = Put_op k v" "v \<noteq> []" using Cons.prems(2) by (cases op) (auto simp: is_put_def)
  have n: "tree_nodes cfg (tree_step op c) \<subseteq> N" "batch_nodes cfg ops (tree_step op c) \<subseteq> N"
    using Cons.prems(3) batch_nodes_first [of cfg "tree_step op c" ops] by auto
  then obtain s1 where s1: "trie_put cfg k v s = (Inr (), s1)" "trie_rep cfg N s1 (tree_step op c)"
    using trie_put_rep [OF assms Cons.prems(1) op(2), of k] op by (auto simp: tree_step_def tree_nodes_def)
  have con: "content (tree_step op c) = map_step op (content c)"
    using content_put [OF Cons.prems(1), of k v] op by (simp add: map_step_def tree_step_def)
  obtain s2 where s2: "trie_batch cfg ops s1 = (Inr (), s2)"
    "trie_rep cfg N s2 (fold tree_step ops (tree_step op c))"
    "content (fold tree_step ops (tree_step op c)) = fold map_step ops (content (tree_step op c))"
    using Cons.IH [OF s1(2) _ n(2)] Cons.prems(2) by auto
  have "trie_batch cfg (op # ops) s = (Inr (), s2)"
    using s1(1) s2(1) op(1) by (simp add: trie_batch_def batch_op_run_def andthen_Inr)
  with s2(2,3) show ?case by (simp add: con)
qed

lemma tx_ops_content:
  "\<forall>t\<in>set ts. tx_serialize (bc_tx cfg) t \<noteq> [] \<Longrightarrow> inj_on (index_key cfg) A \<Longrightarrow> k \<in> A \<Longrightarrow> {i..<i + length ts} \<subseteq> A \<Longrightarrow>
   fold map_step (tx_ops cfg i ts) m (index_key cfg k) =
     (if i \<le> k \<and> k < i + length ts then Some (tx_serialize (bc_tx cfg) (ts ! (k - i))) else m (index_key cfg k))"
proof (induction ts arbitrary: i m)
  case (Cons t ts)
  have put: "map_step (Put_op (index_key cfg i) (tx_serialize (bc_tx cfg) t)) m =
      m(index_key cfg i \<mapsto> tx_serialize (bc_tx cfg) t)"
    using Cons.prems(1) by (simp add: map_step_def)
  have "i \<in> A" using Cons.prems(4) by (rule subsetD) simp
  then have "index_key cfg k = index_key cfg i \<longleftrightarrow> k = i"
    using inj_on_eq_iff [OF Cons.prems(2)] Cons.prems(3) by simp
  moreover have "fold map_step (tx_ops cfg (Suc i) ts) (map_step (Put_op (index_key cfg i) (tx_serialize (bc_tx cfg) t)) m)
      (index_key cfg k) = (if Suc i \<le> k \<and> k < Suc i + length ts then Some (tx_serialize (bc_tx cfg) (ts ! (k - Suc i)))
        else map_step (Put_op (index_key cfg i) (tx_serialize (bc_tx cfg) t)) m (index_key cfg k))"
    using Cons.prems by (intro Cons.IH) auto
  moreover have "(t # ts) ! (k - i) = ts ! (k - Suc i)" if "Suc i \<le> k" using that by (simp add: nth_Cons')
  ultimately show ?case
    using put by (cases "k = i") (simp_all add: Suc_le_eq)
qed auto

lemma tx_ops_puts: "\<forall>t\<in>set ts. tx_serialize (bc_tx cfg) t \<noteq> [] \<Longrightarrow> \<forall>op\<in>set (tx_ops cfg i ts). is_put op"
  by (induction ts arbitrary: i) (auto simp: is_put_def)

lemma tx_ops_map: "map (tx_serialize (bc_tx cfg)) ts = map (tx_serialize (bc_tx cfg)) us \<Longrightarrow> tx_ops cfg i ts = tx_ops cfg i us"
proof (induction ts arbitrary: us i)
  case (Cons t ts)
  then obtain u vs where "us = u # vs" "tx_serialize (bc_tx cfg) t = tx_serialize (bc_tx cfg) u"
    "map (tx_serialize (bc_tx cfg)) ts = map (tx_serialize (bc_tx cfg)) vs" by (cases us) auto
  with Cons.IH [OF this(3), of "Suc i"] show ?case by simp
qed simp

text \<open>RLP reads back the indices, so their keys differ.\<close>

lemma index_key_inj:
  assumes "\<forall>i<n. txc_decode (bc_tx cfg) (index_key cfg i) = Inr (Item (min_bytes i))"
  shows "inj_on (index_key cfg) {..<n}"
proof (rule inj_onI)
  fix i j assume "i \<in> {..<n}" "j \<in> {..<n}" "index_key cfg i = index_key cfg j"
  then have "min_bytes i = min_bytes j" using assms by (metis Inr_inject lessThan_iff rlp.inject(1))
  then show "i = j" using bn_of_min_bytes by (metis of_nat_eq_iff)
qed

lemma content_None: "content None = Map.empty"
  by (simp add: content_def fun_eq_iff)

text \<open>The validation compares the header's root with that of the trie of all transactions.\<close>

lemma built_root:
  assumes codec: "codec_ok (tx_trie_cfg cfg) N"
    and nodes: "batch_nodes (tx_trie_cfg cfg) (tx_ops cfg 0 (b_transactions b)) None \<subseteq> N"
    and ser: "\<forall>t\<in>set (b_transactions b). tx_serialize (bc_tx cfg) t \<noteq> []"
    and fresh: "b_txTrie b = new_trie"
  shows "\<exists>s. fst (validateTransactionsTrie cfg b) = Inr (trie_root s = bh_transactionsTrie (b_header b)) \<and>
    trie_rep (tx_trie_cfg cfg) N s (fold tree_step (tx_ops cfg 0 (b_transactions b)) None) \<and>
    content (fold tree_step (tx_ops cfg 0 (b_transactions b)) None) =
      fold map_step (tx_ops cfg 0 (b_transactions b)) Map.empty"
proof -
  have "\<not> deleteFromDB (tx_trie_cfg cfg)" by (simp add: tx_trie_cfg_def)
  from puts_rep [OF codec this new_trie_rep tx_ops_puts [OF ser] nodes]
  obtain s where s: "trie_batch (tx_trie_cfg cfg) (tx_ops cfg 0 (b_transactions b)) new_trie = (Inr (), s)"
    "trie_rep (tx_trie_cfg cfg) N s (fold tree_step (tx_ops cfg 0 (b_transactions b)) None)"
    "content (fold tree_step (tx_ops cfg 0 (b_transactions b)) None) =
      fold map_step (tx_ops cfg 0 (b_transactions b)) Map.empty"
    using content_None by auto
  have root: "trie_root new_trie = KECCAK256_RLP" by (simp add: new_trie_def EMPTY_TRIE_ROOT_def)
  have "fst (validateTransactionsTrie cfg b) = Inr (trie_root s = bh_transactionsTrie (b_header b))"
  proof (cases "b_transactions b = []")
    case True
    with s(1) root show ?thesis by (auto simp: validateTransactionsTrie_def eff_defs trie_batch_def)
  next
    case False
    with root fresh s(1) show ?thesis
      by (simp add: validateTransactionsTrie_def genTxTrie_def put_txs_batch eff_defs)
  qed
  with s show ?thesis by blast
qed

text \<open>Tries of lists of transactions have the same root exactly when the lists have the same serialisations.\<close>

lemma same_root_iff:
  assumes codec: "codec_ok (tx_trie_cfg cfg) N"
    and keys: "\<forall>i<Suc (max (length ts) (length us)). txc_decode (bc_tx cfg) (index_key cfg i) = Inr (Item (min_bytes i))"
    and ser: "\<forall>t\<in>set ts \<union> set us. tx_serialize (bc_tx cfg) t \<noteq> []"
    and s: "trie_rep (tx_trie_cfg cfg) N s (fold tree_step (tx_ops cfg 0 ts) None)"
      "content (fold tree_step (tx_ops cfg 0 ts) None) = fold map_step (tx_ops cfg 0 ts) Map.empty"
    and s': "trie_rep (tx_trie_cfg cfg) N s' (fold tree_step (tx_ops cfg 0 us) None)"
      "content (fold tree_step (tx_ops cfg 0 us) None) = fold map_step (tx_ops cfg 0 us) Map.empty"
  shows "trie_root s = trie_root s' \<longleftrightarrow> map (tx_serialize (bc_tx cfg)) ts = map (tx_serialize (bc_tx cfg)) us"
proof -
  let ?ser = "tx_serialize (bc_tx cfg)"
  have "map ?ser ts = map ?ser us" if "trie_root s = trie_root s'"
  proof -
    let ?n = "Suc (max (length ts) (length us))"
    have maps: "fold map_step (tx_ops cfg 0 ts) Map.empty (index_key cfg k) =
        fold map_step (tx_ops cfg 0 us) Map.empty (index_key cfg k)" for k
      using root_unique [OF codec s(1) s'(1) that] s(2) s'(2) by simp
    have at: "(if k < length ts then Some (?ser (ts ! k)) else None) =
        (if k < length us then Some (?ser (us ! k)) else None)" if "k < ?n" for k
    proof -
      have k: "k \<in> {..<?n}" "{0..<0 + length ts} \<subseteq> {..<?n}" "{0..<0 + length us} \<subseteq> {..<?n}" using that by auto
      have "\<forall>t\<in>set ts. ?ser t \<noteq> []" "\<forall>t\<in>set us. ?ser t \<noteq> []" using ser by auto
      then show ?thesis
        using maps [of k] tx_ops_content [OF _ index_key_inj [OF keys] k(1,2), of Map.empty]
          tx_ops_content [OF _ index_key_inj [OF keys] k(1,3), of Map.empty] by (simp cong: if_cong)
    qed
    have len: "length ts = length us"
      using at [of "length ts"] at [of "length us"] by (auto simp: less_Suc_eq_le split: if_splits)
    have "?ser (ts ! k) = ?ser (us ! k)" if "k < length ts" for k using at [of k] that len by simp
    then show ?thesis using len by (simp add: list_eq_iff_nth_eq)
  qed
  moreover have "trie_root s = trie_root s'" if "map ?ser ts = map ?ser us"
    using tx_ops_map [OF that, of 0] root_of_rep [OF s(1)] root_of_rep [OF s'(1)] by simp
  ultimately show ?thesis by blast
qed

text \<open>C37. The root of the transactions in a header stands for one list of transactions. Given a newly made block whose transactions
  validate against its root, every other one is checked without an error, and: if it has the same root, it
  validates exactly when its transactions have the same serialisations in the same order; and if it validates, it has the
  same root exactly then. Hashes must not collide on the nodes of the two tries, and RLP must read back what it wrote.\<close>

theorem transactions_root_commits:
  assumes codec: "codec_ok (tx_trie_cfg cfg) N"
    and nodes: "batch_nodes (tx_trie_cfg cfg) (tx_ops cfg 0 (b_transactions b)) None \<subseteq> N"
      "batch_nodes (tx_trie_cfg cfg) (tx_ops cfg 0 (b_transactions c)) None \<subseteq> N"
    and keys: "\<forall>i<Suc (max (length (b_transactions b)) (length (b_transactions c))).
      txc_decode (bc_tx cfg) (index_key cfg i) = Inr (Item (min_bytes i))"
    and ser: "\<forall>t\<in>set (b_transactions b) \<union> set (b_transactions c). tx_serialize (bc_tx cfg) t \<noteq> []"
    and fresh: "b_txTrie b = new_trie" "b_txTrie c = new_trie"
    and valid: "validateTransactionsTrie cfg b = (Inr True, b')"
  shows "\<exists>ok. fst (validateTransactionsTrie cfg c) = Inr ok \<and>
    (bh_transactionsTrie (b_header b) = bh_transactionsTrie (b_header c) \<longrightarrow>
      (ok \<longleftrightarrow> map (tx_serialize (bc_tx cfg)) (b_transactions b) = map (tx_serialize (bc_tx cfg)) (b_transactions c))) \<and>
    (ok \<longrightarrow> (bh_transactionsTrie (b_header b) = bh_transactionsTrie (b_header c) \<longleftrightarrow>
      map (tx_serialize (bc_tx cfg)) (b_transactions b) = map (tx_serialize (bc_tx cfg)) (b_transactions c)))"
proof -
  obtain s where s: "trie_root s = bh_transactionsTrie (b_header b)"
    "trie_rep (tx_trie_cfg cfg) N s (fold tree_step (tx_ops cfg 0 (b_transactions b)) None)"
    "content (fold tree_step (tx_ops cfg 0 (b_transactions b)) None) = fold map_step (tx_ops cfg 0 (b_transactions b)) Map.empty"
    using built_root [OF codec nodes(1) _ fresh(1)] valid ser by auto
  obtain s' where s': "fst (validateTransactionsTrie cfg c) = Inr (trie_root s' = bh_transactionsTrie (b_header c))"
    "trie_rep (tx_trie_cfg cfg) N s' (fold tree_step (tx_ops cfg 0 (b_transactions c)) None)"
    "content (fold tree_step (tx_ops cfg 0 (b_transactions c)) None) = fold map_step (tx_ops cfg 0 (b_transactions c)) Map.empty"
    using built_root [OF codec nodes(2) _ fresh(2)] ser by auto
  from same_root_iff [OF codec keys ser s(2,3) s'(2,3)] show ?thesis using s(1) s'(1) by auto
qed

definition tiny_tx :: transaction where
  "tiny_tx = \<lparr>tx_nonce = 1, tx_gasLimit = 2, tx_to = None, tx_value = 3, tx_data = [], tx_v = None, tx_r = None,
     tx_s = None, tx_common = fee_common, tx_capabilities = [], tx_payload = Legacy 4\<rparr>"

definition tiny_cfg :: block_cfg where
  "tiny_cfg = sample_block_cfg\<lparr>bc_tx := sample_tx_cfg\<lparr>txc_keccak256 := cfg_hash sample_cfg,
     txc_encode := cfg_encode sample_cfg, txc_decode := cfg_decode sample_cfg\<rparr>\<rparr>"

definition tiny_block :: "int \<Rightarrow> block" where
  "tiny_block n = \<lparr>b_header = (sample_block_header n)\<lparr>bh_transactionsTrie :=
       trie_root (snd (trie_put sample_cfg [0x80] [0xc9, 1, 4, 2, 0x80, 3, 0x80, 0x80, 0x80, 0x80] new_trie))\<rparr>,
     b_transactions = [tiny_tx], b_uncleHeaders = [], b_txTrie = new_trie\<rparr>"

definition empty_block :: block where
  "empty_block = \<lparr>b_header = (sample_block_header 6)\<lparr>bh_transactionsTrie := KECCAK256_RLP\<rparr>, b_transactions = [],
     b_uncleHeaders = [], b_txTrie = new_trie\<rparr>"

lemma tiny_cfgs [simp]:
  "tx_trie_cfg tiny_cfg = sample_cfg" "txc_encode (bc_tx tiny_cfg) = rlp_enc"
  "txc_decode (bc_tx tiny_cfg) = cfg_decode sample_cfg"
  by (simp_all add: tx_trie_cfg_def tiny_cfg_def) (simp_all add: sample_cfg_def)

lemma tiny_serialize [simp]: "tx_serialize (bc_tx tiny_cfg) tiny_tx = [0xc9, 1, 4, 2, 0x80, 3, 0x80, 0x80, 0x80, 0x80]"
proof -
  have "bnToUnpaddedBuffer 1 = [1]" "bnToUnpaddedBuffer 2 = [2]" "bnToUnpaddedBuffer 3 = [3]" "bnToUnpaddedBuffer 4 = [4]"
    by code_simp+
  then have "legacy_raw tiny_tx 4 = [Item [1], Item [4], Item [2], Item [], Item [3], Item [], Item [], Item [], Item []]"
    by (simp add: legacy_raw_def bn_item_def to_item_def opt_item_def tiny_tx_def)
  moreover have "rlp_enc (Items [Item [1], Item [4], Item [2], Item [], Item [3], Item [], Item [], Item [], Item []]) =
      [0xc9, 1, 4, 2, 0x80, 3, 0x80, 0x80, 0x80, 0x80]" by code_simp
  moreover have "tx_payload tiny_tx = Legacy 4" by (simp add: tiny_tx_def)
  ultimately show ?thesis by (simp add: tx_serialize_def legacy_serialize_def)
qed

lemma tiny_keys: "index_key tiny_cfg 0 = [0x80]" "index_key tiny_cfg 1 = [1]"
proof -
  have "rlp_enc (Item (min_bytes 0)) = [0x80]" "rlp_enc (Item (min_bytes 1)) = [1]" by code_simp+
  then show "index_key tiny_cfg 0 = [0x80]" "index_key tiny_cfg 1 = [1]" by (simp_all add: index_key_def)
qed

theorem transactions_root_commits_witness:
  "bh_transactionsTrie (b_header (tiny_block 5)) \<noteq> bh_transactionsTrie (b_header empty_block)"
proof -
  let ?ops = "[Put_op [0x80] [0xc9, 1, 4, 2, 0x80, 3, 0x80, 0x80, 0x80, 0x80 :: 8 word]]"
  have N: "\<forall>x\<in>batch_nodes sample_cfg ?ops None. length (rlp_enc x) \<le> 31" by code_simp
  have ops: "tx_ops tiny_cfg 0 (b_transactions (tiny_block 5)) = ?ops" "b_transactions empty_block = []"
    by (simp_all add: tiny_block_def empty_block_def tiny_keys)
  have fields: "b_transactions (tiny_block 5) = [tiny_tx]" "b_txTrie (tiny_block 5) = new_trie"
    "b_txTrie empty_block = new_trie" "bh_transactionsTrie (b_header empty_block) = KECCAK256_RLP"
    by (simp_all add: tiny_block_def empty_block_def)
  obtain s where put: "trie_put sample_cfg [0x80] [0xc9, 1, 4, 2, 0x80, 3, 0x80, 0x80, 0x80, 0x80] new_trie = (Inr (), s)"
    using trie_put_rep [OF codec_ok_sample [OF N] _ new_trie_rep, of "[0xc9, 1, 4, 2, 0x80, 3, 0x80, 0x80, 0x80, 0x80]" "[0x80]"]
    by (auto simp: sample_cfg_def tree_step_def tree_nodes_def)
  have "trie_root new_trie = KECCAK256_RLP" by (simp add: new_trie_def EMPTY_TRIE_ROOT_def)
  then have "validateTransactionsTrie tiny_cfg (tiny_block 5) = (Inr True, (tiny_block 5)\<lparr>b_txTrie := s\<rparr>)"
    using put by (simp add: validateTransactionsTrie_def genTxTrie_def eff_defs fields tiny_keys) (simp add: tiny_block_def)
  moreover have "validateTransactionsTrie tiny_cfg empty_block = (Inr True, empty_block)"
    by (simp add: validateTransactionsTrie_def eff_defs ops fields)
  moreover have "\<forall>i<Suc (max 1 0). cfg_decode sample_cfg (index_key tiny_cfg i) = Inr (Item (min_bytes i))"
  proof -
    have "rlp_decode (In_bytes [0x80]) False = Inr (Data (Item []))" "rlp_decode (In_bytes [1]) False = Inr (Data (Item [1]))"
      "min_bytes 0 = []" "min_bytes 1 = [1]" by code_simp+
    then show ?thesis by (simp add: less_Suc_eq tiny_keys[simplified] sample_cfg_def)
  qed
  ultimately show ?thesis
    using transactions_root_commits [of tiny_cfg "batch_nodes sample_cfg ?ops None" "tiny_block 5" empty_block]
      codec_ok_sample [OF N] by (auto simp: ops fields tiny_keys)
qed

end
