(* ===== verification/Run_Block_Proofs.thy ===== *)
theory Run_Block_Proofs
  imports Build_Block Run_Tx_Proofs Block_Proofs
begin

text \<open>
  What running and building blocks promise: a block whose transactions or rewards fail leaves no trace in the
  accounts, the rewards are paid to exactly the miner and the ommers, and a builder that is reverted, after whatever
  calls, restores the accounts.
\<close>

section \<open>A block that fails\<close>

text \<open>No message of the block's transactions escapes with an error, on the states that the block goes through.\<close>

definition tx_contained ::
  "vm \<Rightarrow> tx_world \<Rightarrow> run_tx_opts \<Rightarrow> transaction \<Rightarrow> state_manager \<Rightarrow> bool" where
  "tx_contained vm w opts t s =
     (case tx_start vm t s of (Inl e, s1) \<Rightarrow> True | (Inr _, s1) \<Rightarrow> \<not> message_escapes vm w opts t s1)"

definition apply_contained ::
  "block_world \<Rightarrow> common \<Rightarrow> run_block_opts \<Rightarrow> block \<Rightarrow> transaction \<Rightarrow> block_results \<Rightarrow> state_manager \<Rightarrow> bool" where
  "apply_contained w c opts b t acc s =
     (case vm_header (bw_cfg w) c (b_header b) of
        Inl e \<Rightarrow> True
      | Inr h \<Rightarrow> tx_contained (vm_at w c) (bw_tx w) (block_tx_opts opts b h (br_gasUsed acc)) t s)"

fun txs_contained ::
  "block_world \<Rightarrow> common \<Rightarrow> run_block_opts \<Rightarrow> block \<Rightarrow> nat \<Rightarrow> transaction list \<Rightarrow> block_results \<Rightarrow>
   state_manager \<Rightarrow> bool" where
  "txs_contained w c opts b i [] acc s = True"
| "txs_contained w c opts b i (t # ts) acc s =
     (apply_contained w c opts b t acc s \<and>
      (case apply_tx w c opts b i t acc s of
         (Inl e, s') \<Rightarrow> True | (Inr acc', s') \<Rightarrow> txs_contained w c opts b (Suc i) ts acc' s'))"

lemma runTx_contained_keeps:
  assumes "runTx vm w opts t s = (r, s')" "status_receipts vm t" "tx_contained vm w opts t s"
  shows "acct_keeps s s'"
  using assms(3) by (intro runTx_keeps [OF assms(1,2)]) (simp add: tx_contained_def)

lemma apply_tx_keeps:
  assumes run: "apply_tx w c opts b i t acc s = (r, s')" and st: "status_receipts (vm_at w c) t"
    and ct: "apply_contained w c opts b t acc s"
  shows "acct_keeps s s'"
proof (cases "vm_header (bw_cfg w) c (b_header b)")
  case (Inl e)
  then show ?thesis using run ak.R_refl
    by (auto simp: apply_tx_def eff_defs split: sum.splits if_splits)
next
  case (Inr h)
  let ?o = "block_tx_opts opts b h (br_gasUsed acc)"
  obtain q u where q: "runTx (vm_at w c) (bw_tx w) ?o t s = (q, u)" by force
  have "s' = s \<or> s' = u" using run Inr q
    by (auto simp: apply_tx_def eff_defs split: sum.splits if_splits)
  moreover have "acct_keeps s u"
    using runTx_contained_keeps [OF q st] ct Inr by (simp add: apply_contained_def)
  ultimately show ?thesis using ak.R_refl by blast
qed

lemma apply_txs_keeps:
  "apply_txs w c opts b i ts acc s = (r, s') \<Longrightarrow> \<forall>t\<in>set ts. status_receipts (vm_at w c) t \<Longrightarrow>
   txs_contained w c opts b i ts acc s \<Longrightarrow> acct_keeps s s'"
proof (induction ts arbitrary: i acc s)
  case Nil
  then show ?case using ak.R_refl by (simp add: ret_def)
next
  case (Cons t ts)
  obtain q u where q: "apply_tx w c opts b i t acc s = (q, u)" by force
  have k: "acct_keeps s u" using apply_tx_keeps [OF q] Cons.prems by simp
  show ?case
  proof (cases q)
    case (Inl e)
    then show ?thesis using Cons.prems(1) q k by (simp add: bnd_def)
  next
    case (Inr acc')
    then have "acct_keeps u s'" using Cons.IH [of "Suc i" acc' u] Cons.prems q by (simp add: bnd_def)
    with k show ?thesis by (rule ak.R_trans)
  qed
qed

text \<open>The bloom of the block is the merged bloom of its transactions, as that of the block builder.\<close>

lemma apply_txs_bloom:
  "apply_txs w c opts b i ts acc s = (Inr res, s') \<Longrightarrow> br_bloom acc = merged_bloom (map t_bloom (br_results acc)) \<Longrightarrow>
   br_bloom res = merged_bloom (map t_bloom (br_results res))"
proof (induction ts arbitrary: i acc s)
  case (Cons t ts)
  obtain acc' u where first: "apply_tx w c opts b i t acc s = (Inr acc', u)" "apply_txs w c opts b (Suc i) ts acc' u = (Inr res, s')"
    using Cons.prems(1) by (auto simp: bnd_def split: prod.splits sum.splits)
  then obtain txRes where "add_result (bw_cfg w) i t txRes acc = Inr acc'"
    by (auto simp: apply_tx_def andthen_def bnd_def of_sum_def split: prod.splits sum.splits)
  then have "br_bloom acc' = merged_bloom (map t_bloom (br_results acc'))"
    using Cons.prems(2) by (auto simp: add_result_def merged_bloom_def split: prod.splits sum.splits)
  with Cons.IH first(2) show ?case by blast
qed (simp add: ret_def)

lemma block_bloom_merged:
  "applyTransactions w c opts b s = (Inr res, s') \<Longrightarrow> br_bloom res = merged_bloom (map t_bloom (br_results res))"
  unfolding applyTransactions_def by (erule apply_txs_bloom) (simp add: no_results_def merged_bloom_def)

lemma reward_is_add: "bnd (rewardAccount a x) (\<lambda>_. ret ()) = add_balance a x"
  by (rule ext) (auto simp: rewardAccount_def add_balance_def eff_defs Let_def split: prod.splits sum.splits)

lemma rewards_keep: "ak.keeps (assignBlockRewards c b)"
  unfolding assignBlockRewards_def reward_is_add add_balance_def
  by (intro ak.keeps_rules acct_kept)

lemma applyBlock_keeps:
  assumes run: "applyBlock w c opts b s = (r, s')"
    and st: "\<forall>t\<in>set (b_transactions b). status_receipts (vm_at w c) t"
    and ct: "txs_contained w c opts b 0 (b_transactions b) no_results s"
  shows "acct_keeps s s'"
proof -
  let ?pre = "when_eff (\<not> rb_skipBlockValidation opts)
     (andthen (guard_eff (\<not> 0x8000000000000000 \<le> bh_gasLimit (b_header b))
         (JsError ''Invalid block with gas limit greater than (2^63 - 1)''))
       (of_sum (fst (block_validate (bw_cfg w) (bw_chain w) False b))))"
  have "\<exists>p. ?pre s = (p, s)"
    by (cases "rb_skipBlockValidation opts"; cases "(0x8000000000000000 :: int) \<le> bh_gasLimit (b_header b)")
      (simp_all add: eff_defs)
  then obtain p where p: "?pre s = (p, s)" ..
  show ?thesis
  proof (cases p)
    case (Inl e)
    then show ?thesis using run p ak.R_refl by (simp add: applyBlock_def andthen_def bnd_def)
  next
    case (Inr x)
    obtain q u where q: "applyTransactions w c opts b s = (q, u)" by force
    have k: "acct_keeps s u" using apply_txs_keeps [OF _ st ct] q by (simp add: applyTransactions_def)
    show ?thesis
    proof (cases q)
      case (Inl e)
      then show ?thesis using run p q k \<open>p = Inr x\<close> by (simp add: applyBlock_def andthen_def bnd_def)
    next
      case (Inr res)
      then have "andthen (when_eff (consensusType (b_common b) = ''pow'') (assignBlockRewards c b)) (ret res) u = (r, s')"
        using run p q \<open>p = Inr x\<close> by (simp add: applyBlock_def andthen_def bnd_def)
      moreover have "ak.keeps (andthen (when_eff (consensusType (b_common b) = ''pow'') (assignBlockRewards c b)) (ret res))"
        by (intro ak.keeps_rules rewards_keep)
      ultimately have "acct_keeps u s'" using ak_step by blast
      with k show ?thesis by (rule ak.R_trans)
    qed
  qed
qed

text \<open>C38. A block whose validation, transactions or rewards fail is run without a trace: \<open>runBlock\<close> throws, and all
  accounts and code, and the checkpoints around the block, are as they were when its checkpoint was set. As for single
  transactions, the errors that escape from messages are excluded, and the receipts hold a status: they are those of typed
  transactions or from Byzantium on, since an older one writes the state root, which flushes the cache.\<close>

theorem failed_block_restores_accounts:
  assumes fork: "set_block_hardfork w opts (b_number b) (vs_common v) = (Inr (), c)"
    and before: "before_block w c opts b (vs_state v) = (Inr (), s)" and inv: "acct_inv s"
    and start: "sm_checkpoint s = (Inr (), s1)" and fails: "applyBlock w c opts b s1 = (Inl e, s2)"
    and st: "\<forall>t\<in>set (b_transactions b). status_receipts (vm_at w c) t"
    and ct: "txs_contained w c opts b 0 (b_transactions b) no_results s1"
  shows "\<exists>s'. runBlock w opts b v = (Inl e, \<lparr>vs_common = c, vs_state = s'\<rparr>) \<and>
    acct_inv s' \<and> acct_cur s' = acct_cur s \<and> acct_saved s' = acct_saved s"
proof -
  have s1: "acct_inv s1" "acct_saved s1 = acct_cur s # acct_saved s"
    using accounts.checkpoint_ok [OF inv] start by auto
  then have s2: "acct_inv s2" "acct_saved s2 = acct_cur s # acct_saved s"
    using applyBlock_keeps [OF fails st ct] by (simp_all add: acct_keeps_def)
  obtain s' where s': "revert_and_throw e s2 = ((Inl e, s') :: (exn + block_results) \<times> state_manager)"
    "acct_inv s'" "acct_cur s' = acct_cur s" "acct_saved s' = acct_saved s"
    using revert_and_throw_ok [OF s2] by blast
  have "run_block_at w c opts b (vs_state v) = (Inl e, s')"
    using before start fails s'(1) by (simp add: run_block_at_def andthen_def bnd_def try_catch_def)
  then have "runBlock w opts b v = (Inl e, \<lparr>vs_common = c, vs_state = s'\<rparr>)"
    using fork by (simp add: runBlock_def andthen_def bnd_def zoom_def gets_def)
  with s' show ?thesis by blast
qed

section \<open>Rewards\<close>

lemma reward_loop:
  assumes "for_each us (\<lambda>u. add_balance (f u) (g u)) s = (Inr (), s')" "acct_inv s" "\<forall>u\<in>set us. 0 \<le> g u"
  shows "acct_inv s' \<and> balance_at s' a = balance_at s a + sum_list (map g (filter (\<lambda>u. f u = a) us))"
  using assms
proof (induction us arbitrary: s)
  case Nil
  then show ?case by (simp add: ret_def)
next
  case (Cons u us)
  obtain s1 where s1: "add_balance (f u) (g u) s = (Inr (), s1)"
    "for_each us (\<lambda>u. add_balance (f u) (g u)) s1 = (Inr (), s')"
    using Cons.prems(1) by (auto simp: andthen_def bnd_def split: prod.splits sum.splits)
  have a: "acct_inv s1" "balance_at s1 a = balance_at s a + (if a = f u then g u else 0)"
    using add_balance_balance [OF s1(1) Cons.prems(2)] Cons.prems(3) by auto
  from Cons.IH [OF s1(2) a(1)] Cons.prems(3) a(2) show ?case by auto
qed

text \<open>C39. The rewards of a block: the ommers' and the miner's balances grow by exactly their rewards, an ommer
  \<open>d\<close> blocks below is paid \<open>(8 - d) / 8\<close> of the block's reward, and no other balance changes.\<close>

theorem rewards_paid:
  assumes run: "assignBlockRewards c b s = (Inr (), s')" and inv: "acct_inv s"
    and R: "num_param c ''pow'' ''minerReward'' = Inr R" "0 \<le> R"
  shows "acct_inv s' \<and> balance_at s' a = balance_at s a +
      sum_list (map (\<lambda>u. calculateOmmerReward (bh_number u) (b_number b) R)
        (filter (\<lambda>u. bh_coinbase u = a) (b_uncleHeaders b))) +
      (if a = bh_coinbase (b_header b) then R + R div 32 * int (length (b_uncleHeaders b)) else 0) \<and>
    (\<forall>u\<in>set (b_uncleHeaders b). bh_number u \<le> b_number b \<longrightarrow> b_number b \<le> bh_number u + 8 \<longrightarrow>
      calculateOmmerReward (bh_number u) (b_number b) R = (8 - (b_number b - bh_number u)) * (R div 8))"
proof -
  let ?g = "\<lambda>u. calculateOmmerReward (bh_number u) (b_number b) R"
  let ?m = "calculateMinerReward R (length (b_uncleHeaders b))"
  have div: "bn_div R n = R div n" if "0 < n" for n using R(2) that by (cases "R = 0") (simp_all add: bn_div_def)
  have g: "0 \<le> ?g u" for u by (simp add: calculateOmmerReward_def Let_def)
  have m: "?m = R + R div 32 * int (length (b_uncleHeaders b))"
    by (simp add: calculateMinerReward_def Let_def div)
  have m0: "0 \<le> ?m" using R(2) by (simp add: m)
  obtain s1 where s1: "for_each (b_uncleHeaders b) (\<lambda>u. add_balance (bh_coinbase u) (?g u)) s = (Inr (), s1)"
    "add_balance (bh_coinbase (b_header b)) ?m s1 = (Inr (), s')"
    using run by (auto simp: assignBlockRewards_def reward_is_add R(1) andthen_def bnd_def of_sum_def
        split: prod.splits sum.splits)
  have a: "acct_inv s1" "balance_at s1 a = balance_at s a +
      sum_list (map ?g (filter (\<lambda>u. bh_coinbase u = a) (b_uncleHeaders b)))"
    using reward_loop [OF s1(1) inv] g by auto
  show ?thesis
    using add_balance_balance [OF s1(2) a(1) m0] a(2) m R(2)
    by (auto simp: calculateOmmerReward_def div Let_def mult_less_0_iff pos_imp_zdiv_neg_iff)
qed

section \<open>The witnesses\<close>

definition reward_common :: common where
  "reward_common = fee_common\<lparr>EIPs := [1559 \<mapsto> \<lparr>eip_minimumHardfork = ''chainstart'', eip_requiredEIPs = [],
     eip_topics = [''pow'' \<mapsto> [''minerReward'' \<mapsto> 64]]\<rparr>]\<rparr>"

lemma reward_param: "num_param reward_common ''pow'' ''minerReward'' = Inr 64"
proof -
  have "HARDFORK_CHANGES reward_common = HARDFORK_CHANGES fee_common" "cur_hardfork reward_common = ''london''"
    "eips reward_common = []" "supportedHardforks reward_common = []"
    "EIPs reward_common 1559 = Some \<lparr>eip_minimumHardfork = ''chainstart'', eip_requiredEIPs = [],
       eip_topics = [''pow'' \<mapsto> [''minerReward'' \<mapsto> 64]]\<rparr>"
    by (simp_all add: reward_common_def fee_common_sel) (simp add: sample_common_def)
  then show ?thesis
    by (simp add: num_param_def param_def paramByHardfork_def paramByEIP_def chooseHardfork_def
        isSupportedHardfork_def fee_common_sel)
qed

lemma add_balance_runs:
  assumes "acct_inv s" "account_at s b = Inr a" "0 \<le> x"
  shows "\<exists>s'. add_balance b x s = (Inr (), s') \<and> acct_inv s' \<and> (\<exists>a'. account_at s' b = Inr a')"
proof -
  obtain r s' where run: "add_balance b x s = (r, s')" by force
  have "0 \<le> acc_balance a + x" using account_at_wf [OF assms(2)] assms(3) by simp
  from add_balance_ok [OF run assms(1,2) this] run show ?thesis by auto
qed

theorem rewards_paid_witness:
  "\<exists>s'. assignBlockRewards reward_common (wit_block 5 [4] [wit_uncle]) new_state_manager = (Inr (), s') \<and>
     balance_at s' (replicate 20 0) = 122"
proof -
  let ?b = "wit_block 5 [4] [wit_uncle]" and ?z = "replicate 20 0 :: bytes"
  note n = sm_inv_plain [OF new_state_manager_inv]
  have coin: "bh_coinbase (wit_header 5 [4] []) = ?z" "bh_coinbase wit_uncle = ?z" "bh_number wit_uncle = 4"
    by (simp_all add: wit_uncle_def) (simp_all add: wit_header_def sample_block_header_def sample_fields_def)
  obtain s1 where s1: "add_balance ?z 56 new_state_manager = (Inr (), s1)" "acct_inv s1"
    "\<exists>a. account_at s1 ?z = Inr a"
    using add_balance_runs [OF n(1) new_manager_account [of ?z], of 56] by (meson zero_le_numeral)
  obtain s2 where s2: "add_balance ?z 66 s1 = (Inr (), s2)"
    using add_balance_runs [OF s1(2), of ?z _ 66] s1(3) by (meson zero_le_numeral)
  have run: "assignBlockRewards reward_common ?b new_state_manager = (Inr (), s2)"
    using s1(1) s2 by (simp add: assignBlockRewards_def reward_is_add reward_param calculateOmmerReward_def
        calculateMinerReward_def coin andthen_def bnd_def of_sum_def ret_def)
  have "balance_at new_state_manager ?z = 0"
    using new_manager_account [of ?z] by (simp add: new_account_def)
  then show ?thesis
    using rewards_paid [OF run n(1) reward_param, of ?z] run
    by (simp add: coin calculateOmmerReward_def)
qed

definition late_world :: block_world where
  "late_world = \<lparr>bw_vm = plain_vm, bw_cfg = sample_block_cfg, bw_chain = wit_chain, bw_tx = sample_world,
     bw_hardforkByBlockNumber = False, bw_hardforkByTD = None, bw_DAOAccounts = [], bw_DAORefundContract = []\<rparr>"

definition late_opts :: run_block_opts where
  "late_opts = \<lparr>rb_root = None, rb_generate = False, rb_skipBlockValidation = True, rb_skipNonce = False,
     rb_skipBalance = False, rb_hardforkByTD = None\<rparr>"

definition typed_tx :: transaction where
  "typed_tx = signed_tx\<lparr>tx_capabilities := [2718]\<rparr>"

definition full_block :: block where
  "full_block = (wit_block 5 [4] [])\<lparr>b_transactions := [typed_tx]\<rparr>"

lemma low_fee_contained:
  assumes "check_maxFee vm opts t = Inl e"
  shows "tx_contained vm w opts t s"
proof -
  have "isl (fst (tx_prologue vm w opts t s'))" for s'
    using assms by (auto simp: tx_prologue_def Let_def bnd_def andthen_def of_sum_def split: prod.splits sum.splits)
  then show ?thesis
    by (auto simp: tx_contained_def message_escapes_def split: prod.split sum.split) (metis fst_conv isl_def sum.disc(2))
qed

theorem failed_block_restores_accounts_witness:
  "\<exists>s'. runBlock late_world late_opts full_block \<lparr>vs_common = fee_common, vs_state = new_state_manager\<rparr> =
      (Inl (JsError ''tx has a higher gas limit than the block''), \<lparr>vs_common = fee_common, vs_state = s'\<rparr>) \<and>
     acct_inv s' \<and> acct_cur s' = acct_cur new_state_manager \<and> acct_saved s' = acct_saved new_state_manager"
proof -
  note n = sm_inv_plain [OF new_state_manager_inv]
  have f: "b_header full_block = wit_header 5 [4] []" "b_transactions full_block = [typed_tx]"
    by (simp_all add: full_block_def)
  have t: "tx_gasLimit typed_tx = 500" "tx_supports typed_tx 2718" "tx_payload typed_tx = Legacy 5"
    by (simp_all add: typed_tx_def signed_tx_def sample_tx_def tx_supports_def)
  obtain s1 where s1: "sm_checkpoint new_state_manager = (Inr (), s1)"
    using accounts.checkpoint_ok [OF n(1)] by blast
  have fails: "applyBlock late_world fee_common late_opts full_block s1 =
      (Inl (JsError ''tx has a higher gas limit than the block''), s1)"
    by (simp add: applyBlock_def applyTransactions_def apply_tx_def max_gas_limit_def late_opts_def f t
        js_number_def no_results_def eff_defs)
  have "vm_isActivatedEIP (vm_at late_world fee_common) 1559" by (simp add: vm_at_def)
  then have "\<exists>e. check_maxFee (vm_at late_world fee_common) (block_tx_opts late_opts full_block h 0) typed_tx = Inl e"
    if "vm_header sample_block_cfg fee_common (wit_header 5 [4] []) = Inr h" for h
    using that by (auto simp: check_maxFee_def t tx_gasPrice_def block_baseFee_def block_tx_opts_def vm_header_def)
  then have "txs_contained late_world fee_common late_opts full_block 0 (b_transactions full_block) no_results s1"
    using low_fee_contained
    by (fastforce simp: f apply_contained_def late_world_def no_results_def split: sum.split prod.split)
  moreover have "before_block late_world fee_common late_opts full_block new_state_manager = (Inr (), new_state_manager)"
    by (simp add: before_block_def late_opts_def is_dao_block_def eff_defs)
  moreover have "set_block_hardfork late_world late_opts (b_number full_block) fee_common = (Inr (), fee_common)"
    by (simp add: set_block_hardfork_def late_world_def late_opts_def eff_defs)
  ultimately show ?thesis
    using failed_block_restores_accounts [OF _ _ n(1) s1 fails] t f by (simp add: status_receipts_def)
qed

end
