(* ===== verification/Build_Block_Proofs.thy ===== *)
theory Build_Block_Proofs
  imports Run_Block_Proofs
begin

text \<open>
  The builder of a block as a state machine: whatever transactions are added, and whichever of them throw, it stays
  inside one checkpoint, and its counters belong to its results.
\<close>

text \<open>No message escapes with an error when the transaction is run.\<close>

definition add_contained :: "builder_world \<Rightarrow> transaction \<Rightarrow> block_builder \<Rightarrow> bool" where
  "add_contained w t b0 =
     (case open_checkpoint b0 of
        (Inl e, b) \<Rightarrow> True
      | (Inr _, b) \<Rightarrow>
          if tx_gasLimit t > data_gasLimit (bb_headerData b) - bb_gasUsed b then True
          else (case builder_block w ((bb_headerData b)\<lparr>hd_gasUsed := Some (toArrayLike_min (bb_gasUsed b))\<rparr>)
                  (bb_transactions b) of
             Inl e \<Rightarrow> True
           | Inr block \<Rightarrow>
               (case vm_header (bw_cfg (bd_world w)) (bd_common w) (b_header block) of
                  Inl e \<Rightarrow> True
                | Inr h \<Rightarrow> tx_contained (vm_at (bd_world w) (bd_common w)) (bw_tx (bd_world w))
                    \<lparr>o_block = h, o_blockHeaderGasUsed = bh_gasUsed (b_header block), o_skipNonce = False,
                     o_skipBalance = False, o_skipBlockGasLimitValidation = False, o_reportAccessList = False,
                     o_blockGasUsed = None\<rparr> t (bb_state b))))"

text \<open>
  Calls of \<open>addTransaction\<close>, with any result or refusal, under two conditions on the transaction. No error that is not one of
  the EVM escapes from its message, as an offset above \<open>2^53\<close> or a failed assertion of a precompile makes it: it
  leaves the checkpoints of the message open, and a revert takes back the innermost one only. And its receipt
  holds a status: one before Byzantium holds the state root, for which the cache is flushed.
\<close>

inductive contained_adds :: "builder_world \<Rightarrow> block_builder \<Rightarrow> block_builder \<Rightarrow> bool" for w b0 where
  start: "contained_adds w b0 b0"
| add: "contained_adds w b0 b \<Longrightarrow> addTransaction w t b = (r, b') \<Longrightarrow> add_contained w t b \<Longrightarrow>
    status_receipts (vm_at (bd_world w) (bd_common w)) t \<Longrightarrow> contained_adds w b0 b'"

text \<open>The invariant, for a builder that was made on a state.\<close>

definition builder_ok :: "state_manager \<Rightarrow> block_builder \<Rightarrow> bool" where
  "builder_ok s b \<longleftrightarrow> \<not> bb_built b \<and> \<not> bb_reverted b \<and>
     (if bb_checkpointed b then acct_inv (bb_state b) \<and> acct_saved (bb_state b) = acct_cur s # acct_saved s
      else bb_state b = s) \<and>
     length (bb_transactions b) = length (bb_transactionResults b) \<and>
     bb_gasUsed b = sum_list (map g_gasUsed (bb_transactionResults b))"

lemma open_checkpoint_ok:
  assumes "builder_ok s b" "acct_inv s"
  obtains b' where "open_checkpoint b = (Inr (), b')" "builder_ok s b'" "bb_checkpointed b'"
    "bb_transactions b' = bb_transactions b" "bb_transactionResults b' = bb_transactionResults b"
    "bb_gasUsed b' = bb_gasUsed b"
proof (cases "bb_checkpointed b")
  case True
  then have "open_checkpoint b = (Inr (), b)" by (simp add: open_checkpoint_def eff_defs)
  then show thesis using that True assms(1) by blast
next
  case False
  obtain u where u: "sm_checkpoint s = (Inr (), u)" "acct_inv u" "acct_saved u = acct_cur s # acct_saved s"
    using accounts.checkpoint_ok [OF assms(2)] by blast
  have "bb_state b = s" using assms(1) False by (simp add: builder_ok_def)
  then have "open_checkpoint b = (Inr (), b\<lparr>bb_state := u, bb_checkpointed := True\<rparr>)"
    using u(1) False by (simp add: open_checkpoint_def eff_defs)
  then show thesis using that u(2,3) assms(1) by (simp add: builder_ok_def)
qed

lemma contained_adds_ok:
  assumes "contained_adds w b0 b" "builder_ok s b0" "acct_inv s"
  shows "builder_ok s b"
  using assms
proof (induction rule: contained_adds.induct)
  case (add b t r b')
  let ?vm = "vm_at (bd_world w) (bd_common w)"
  have ok: "builder_ok s b" using add by blast
  obtain c where c: "open_checkpoint b = (Inr (), c)" "builder_ok s c" "bb_checkpointed c"
    using open_checkpoint_ok [OF ok add.prems(2)] by metis
  have status: "checkStatus b = (Inr (), b)" using ok by (simp add: checkStatus_def builder_ok_def eff_defs)
  let ?d = "(bb_headerData c)\<lparr>hd_gasUsed := Some (toArrayLike_min (bb_gasUsed c))\<rparr>"
  have "b' = c \<or> (\<exists>block q u. builder_block w ?d (bb_transactions c) = Inr block \<and>
      builder_runTx w block t (bb_state c) = (q, u) \<and>
      \<not> tx_gasLimit t > data_gasLimit (bb_headerData c) - bb_gasUsed c \<and>
      (case q of Inl e \<Rightarrow> b' = c\<lparr>bb_state := u\<rparr>
       | Inr res \<Rightarrow> b' = c\<lparr>bb_state := u, bb_transactions := bb_transactions c @ [t],
           bb_transactionResults := bb_transactionResults c @ [res], bb_gasUsed := bb_gasUsed c + g_gasUsed res\<rparr>))"
  proof (cases "builder_block w ?d (bb_transactions c)")
    case (Inl e)
    then show ?thesis using add.hyps(2) c(1) status by (auto simp: addTransaction_def eff_defs split: if_splits)
  next
    case (Inr block)
    obtain q u where "builder_runTx w block t (bb_state c) = (q, u)" by force
    then show ?thesis using add.hyps(2) c(1) status Inr
      by (auto simp: addTransaction_def eff_defs split: if_splits sum.splits)
  qed
  then show ?case
  proof (elim disjE exE conjE)
    fix block q u
    assume block: "builder_block w ?d (bb_transactions c) = Inr block"
      and run: "builder_runTx w block t (bb_state c) = (q, u)"
      and gas: "\<not> tx_gasLimit t > data_gasLimit (bb_headerData c) - bb_gasUsed c"
      and b': "case q of Inl e \<Rightarrow> b' = c\<lparr>bb_state := u\<rparr>
       | Inr res \<Rightarrow> b' = c\<lparr>bb_state := u, bb_transactions := bb_transactions c @ [t],
           bb_transactionResults := bb_transactionResults c @ [res], bb_gasUsed := bb_gasUsed c + g_gasUsed res\<rparr>"
    have "acct_keeps (bb_state c) u"
    proof (cases "vm_header (bw_cfg (bd_world w)) (bd_common w) (b_header block)")
      case (Inl e)
      then show ?thesis using run ak.R_refl by (auto simp: builder_runTx_def eff_defs)
    next
      case (Inr h)
      then show ?thesis
        using run add.hyps(3,4) c(1) block gas
        by (auto simp: builder_runTx_def add_contained_def bnd_def of_sum_def intro: runTx_contained_keeps)
    qed
    then show ?thesis using c(2,3) b' by (cases q) (auto simp: builder_ok_def acct_keeps_def)
  qed (use c(2) in simp)
qed simp

lemma new_builder_ok:
  "new_builder w parentBlock d s = Inr b \<Longrightarrow> builder_ok s b \<and> \<not> bb_checkpointed b"
  by (auto simp: new_builder_def builder_ok_def Let_def bindS_Inr_iff)

text \<open>C40. A builder that is reverted, after transactions were added to it and refused in any order, brings back all accounts and
  code as they were when it was made, and leaves the checkpoints around it alone, provided that no error that is
  not one of the EVM escaped from their messages (the code then loses track of its checkpoints) and that their receipts hold a
  status (typed transactions, or Byzantium and later); the gas it counted is that of its
  results. When it had run anything, every later call of its methods throws and changes nothing.\<close>

theorem builder_revert_restores:
  assumes "new_builder w parentBlock d s = Inr b0" "acct_inv s" "contained_adds w b0 b"
  shows "\<exists>b'. builder_revert b = (Inr (), b') \<and> acct_cur (bb_state b') = acct_cur s \<and>
    acct_saved (bb_state b') = acct_saved s \<and> acct_inv (bb_state b') \<and>
    bb_gasUsed b = sum_list (map g_gasUsed (bb_transactionResults b)) \<and>
    (bb_checkpointed b \<longrightarrow> (\<forall>t now seal. fst (builder_revert b') = Inl (JsError ''State has already been reverted'') \<and>
       addTransaction w t b' = (Inl (JsError ''State has already been reverted''), b') \<and>
       build w now seal b' = (Inl (JsError ''State has already been reverted''), b')))"
proof -
  have ok: "builder_ok s b" using contained_adds_ok [OF assms(3) _ assms(2)] new_builder_ok [OF assms(1)] by blast
  have status: "checkStatus b = (Inr (), b)" using ok by (simp add: checkStatus_def builder_ok_def eff_defs)
  show ?thesis
  proof (cases "bb_checkpointed b")
    case True
    then obtain u where u: "sm_revert (bb_state b) = (Inr (), u)" "acct_inv u" "acct_cur u = acct_cur s"
      "acct_saved u = acct_saved s"
      using accounts.revert_ok [of "bb_state b" "acct_cur s" "acct_saved s"] ok by (auto simp: builder_ok_def)
    let ?b = "b\<lparr>bb_state := u, bb_reverted := True\<rparr>"
    have "builder_revert b = (Inr (), ?b)"
      using status u(1) True by (simp add: builder_revert_def andthen_def bnd_def gets_def when_eff_def zoom_def modif_def)
    moreover have "checkStatus ?b = (Inl (JsError ''State has already been reverted''), ?b)"
      using ok by (simp add: checkStatus_def builder_ok_def eff_defs)
    ultimately show ?thesis
      using u ok by (auto simp: builder_ok_def builder_revert_def addTransaction_def build_def andthen_def bnd_def)
  next
    case False
    then have "builder_revert b = (Inr (), b)"
      using status by (simp add: builder_revert_def eff_defs)
    then show ?thesis using ok False assms(2) by (auto simp: builder_ok_def)
  qed
qed

section \<open>The witness\<close>

definition late_builder :: builder_world where
  "late_builder = \<lparr>bd_world = late_world, bd_common = fee_common, bd_blockOpts = no_block_opts,
     bd_putBlockIntoBlockchain = False, bd_putBlock = (\<lambda>b. Inr ())\<rparr>"

theorem builder_revert_restores_witness:
  "\<exists>b0 b b'. new_builder late_builder (wit_block 4 [3] []) no_header_data new_state_manager = Inr b0 \<and>
     addTransaction late_builder typed_tx b0 =
       (Inl (JsError ''tx has a higher gas limit than the remaining gas in the block''), b) \<and>
     builder_revert b = (Inr (), b') \<and> acct_cur (bb_state b') = acct_cur new_state_manager"
proof -
  note n = sm_inv_plain [OF new_state_manager_inv]
  have fee: "calcNextBaseFee (wit_header 4 [3] []) = Inr 80"
    by (simp add: calcNextBaseFee_def num_param_def div_checked_def)
  obtain b0 where b0: "new_builder late_builder (wit_block 4 [3] []) no_header_data new_state_manager = Inr b0"
    "data_gasLimit (bb_headerData b0) = 100" "bb_gasUsed b0 = 0"
  proof -
    have "bn_of_bytes (toArrayLike_min 100) = 100" by code_simp
    then show thesis using that fee
      by (simp add: new_builder_def late_builder_def no_header_data_def or_else_def data_gasLimit_def Let_def)
  qed
  note ok = new_builder_ok [OF b0(1)]
  have t: "tx_gasLimit typed_tx = 500" "tx_supports typed_tx 2718"
    by (simp_all add: typed_tx_def signed_tx_def sample_tx_def tx_supports_def)
  obtain u where u: "sm_checkpoint new_state_manager = (Inr (), u)"
    using accounts.checkpoint_ok [OF n(1)] by blast
  let ?b = "b0\<lparr>bb_state := u, bb_checkpointed := True\<rparr>"
  have opened: "open_checkpoint b0 = (Inr (), ?b)"
    using ok u by (auto simp: open_checkpoint_def builder_ok_def eff_defs)
  moreover have "checkStatus b0 = (Inr (), b0)" using ok by (auto simp: checkStatus_def builder_ok_def eff_defs)
  ultimately have add: "addTransaction late_builder typed_tx b0 =
      (Inl (JsError ''tx has a higher gas limit than the remaining gas in the block''), ?b)"
    using b0(2,3) t(1) by (simp add: addTransaction_def eff_defs)
  have "contained_adds late_builder b0 ?b"
    using contained_adds.add [OF contained_adds.start add] t opened b0(2,3) by (simp add: add_contained_def status_receipts_def)
  from builder_revert_restores [OF b0(1) n(1) this] b0(1) add show ?thesis by blast
qed

end
