(* ===== verification/Opcode_Tables.thy ===== *)
theory Opcode_Tables
  imports Interpreter Samples
begin

text \<open>
  The tables of opcodes of all forks against the tables of handlers: an opcode that a fork defines
  has a handler, and a handler of its dynamic price when it is marked to have one.
\<close>

lemma map_of_fold_update:
  "map_of (fold (\<lambda>(k, v) t. AList.update k v t) s t) = map_of t ++ map_of (rev s)"
  by (induction s arbitrary: t) (auto simp: map_of_update map_add_def fun_eq_iff split: option.splits)

lemma map_of_object_assign: "map_of (object_assign t s) = map_of t ++ map_of (rev s)"
  by (simp add: object_assign_def map_of_fold_update)

text \<open>All entries that a fork or an EIP can lay over the base table.\<close>

definition overlays :: opcode_table where
  "overlays = concat (map snd hardforkOpcodes) @ concat (map snd eipOpcodes)"

lemma fold_overlay:
  "map_of (fold (\<lambda>(x, t) b. if P x then object_assign b t else b) ts b) op = Some e \<Longrightarrow>
     map_of b op = Some e \<or> (op, e) \<in> set (concat (map snd ts))"
proof (induction ts arbitrary: b)
  case (Cons p ts)
  obtain x t where p: "p = (x, t)" by force
  let ?b = "if P x then object_assign b t else b"
  have "map_of ?b op = Some e \<or> (op, e) \<in> set (concat (map snd ts))"
    using Cons p by simp
  then show ?case
    using p map_of_SomeD [of "rev t" op e]
    by (auto simp: map_of_object_assign split: if_splits)
qed simp

lemma builder_entry:
  "map_of (opcodeBuilder vm) op = Some e \<Longrightarrow> (op, e) \<in> set opcodes \<union> set overlays"
  unfolding opcodeBuilder_def overlays_def
  by (drule fold_overlay, elim disjE, drule fold_overlay) (auto dest: map_of_SomeD)

lemma fold_overlay_kept:
  "op \<notin> fst ` set (concat (map snd ts)) \<Longrightarrow>
     map_of (fold (\<lambda>(x, t) b. if P x then object_assign b t else b) ts b) op = map_of b op"
proof (induction ts arbitrary: b)
  case (Cons p ts)
  obtain x t where p: "p = (x, t)" by force
  then have "map_of (rev t) op = None" using Cons.prems by (auto simp: map_of_eq_None_iff)
  then have "map_of (if P x then object_assign b t else b) op = map_of b op"
    by (simp add: map_of_object_assign map_add_def)
  with Cons p show ?case by (cases "P x") (auto simp: image_Un)
qed simp

lemma builder_base:
  "op \<notin> fst ` set overlays \<Longrightarrow> map_of (opcodeBuilder vm) op = map_of opcodes op"
  by (simp add: opcodeBuilder_def overlays_def fold_overlay_kept image_Un)

definition singles :: "nat list" where
  "singles = [0, 1, 2, 3, 4, 5, 6, 7, 8, 9, 10, 11, 0x10, 0x11, 0x12, 0x13, 0x14, 0x15, 0x16, 0x17,
     0x18, 0x19, 0x1a, 0x1b, 0x1c, 0x1d, 0x20, 0x30, 0x31, 0x32, 0x33, 0x34, 0x35, 0x36, 0x37, 0x38,
     0x39, 0x3a, 0x3b, 0x3c, 0x3d, 0x3e, 0x3f, 0x40, 0x41, 0x42, 0x43, 0x44, 0x45, 0x46, 0x47, 0x48,
     0x50, 0x51, 0x52, 0x53, 0x54, 0x55, 0x56, 0x57, 0x58, 0x59, 0x5a, 0x5b, 0x5c, 0x5d, 0x5e, 0x5f,
     0xb3, 0xb4, 0xf0, 0xf1, 0xf2, 0xf3, 0xf4, 0xf5, 0xfa, 0xfd, 0xff]"

definition priced :: "nat list" where
  "priced = [0x20, 0x31, 0x37, 0x39, 0x3b, 0x3c, 0x3e, 0x3f, 0x51, 0x52, 0x53, 0x54, 0x55,
     0xa0, 0xa1, 0xa2, 0xa3, 0xa4, 0xf0, 0xf1, 0xf2, 0xf3, 0xf4, 0xf5, 0xfa, 0xfd, 0xff]"

lemma singles_handled: "list_all (\<lambda>op. map_of (single_ops vm exec) op \<noteq> None) singles"
  by (simp add: singles_def single_ops_def)

lemma handlers_handled:
  "(0x60 \<le> op \<and> op \<le> 0xa4) \<or> op \<in> set singles \<Longrightarrow> handlers vm exec op \<noteq> None"
  using singles_handled by (auto simp: handlers_def list_all_iff)

lemma priced_dynamic: "list_all (\<lambda>op. dynamicGasHandlers vm op \<noteq> None) priced"
  by (simp add: priced_def dynamicGasHandlers_def)

definition entry_ok :: "nat \<times> opcode_entry \<Rightarrow> bool" where
  "entry_ok = (\<lambda>(op, e). (oc_dynamicGas e \<longrightarrow> op \<in> set priced) \<and>
     (oc_name e = ''INVALID'' \<or> (0x60 \<le> op \<and> op \<le> 0xa4) \<or> op \<in> set singles))"

lemma opcodes_ok: "list_all entry_ok opcodes"
  by (simp add: opcodes_def entry_ok_def oc_def singles_def priced_def)

lemma overlays_ok: "list_all entry_ok overlays"
  by (simp add: overlays_def hardforkOpcodes_def eipOpcodes_def entry_ok_def oc_def singles_def priced_def)

lemma overlay_keys:
  "fst ` set overlays = {0xf4, 0x54, 0xf1, 0xf2, 0x3b, 0x3c, 0xff, 0x31, 0xfd, 0xfa, 0x3d, 0x3e, 0x1b,
     0x1c, 0x1d, 0x3f, 0xf5, 0x46, 0x47, 0xb3, 0xb4, 0x5c, 0x5d, 0x5e, 0x48, 0x5f}"
  by (simp add: overlays_def hardforkOpcodes_def eipOpcodes_def insert_commute)

lemma base_opcode:
  "op \<notin> fst ` set overlays \<Longrightarrow> map_of opcodes op = Some e \<Longrightarrow>
     lookupOpInfo vm op = Some (createOpcode vm op e)"
  by (simp add: lookupOpInfo_def getOpcodesForHF_def builder_base)

lemma invalid_opcode: "getOpcodesForHF vm 0xfe = Some (createOpcode vm 0xfe (oc ''INVALID'' False False))"
  by (simp add: getOpcodesForHF_def builder_base overlay_keys) (simp add: opcodes_def)

text \<open>C23. Whatever the fork and the active EIPs, every opcode byte has an entry: either the entry is
  INVALID, or a handler is there under the same code; and when the entry says that the price is
  dynamic, the handler of the price is there too. So a step never calls a handler that is missing.\<close>

theorem every_opcode_has_handler:
  "\<exists>oi. lookupOpInfo vm op = Some oi \<and>
     (oc_dynamicGas oi \<longrightarrow> (\<exists>g. dynamicGasHandlers vm op = Some g)) \<and>
     (oc_name oi \<noteq> ''INVALID'' \<longrightarrow> oc_code oi = op \<and> (\<exists>h. handlers vm exec op = Some h))"
proof (cases "map_of (opcodeBuilder vm) op")
  case None
  then have "lookupOpInfo vm op = Some (createOpcode vm 0xfe (oc ''INVALID'' False False))"
    by (simp add: lookupOpInfo_def getOpcodesForHF_def [of vm op] invalid_opcode)
  then show ?thesis by (simp add: createOpcode_def oc_def)
next
  case (Some e)
  then have "entry_ok (op, e)"
    using builder_entry [OF Some] opcodes_ok overlays_ok by (auto simp: list_all_iff)
  moreover have "lookupOpInfo vm op = Some (createOpcode vm op e)"
    using Some by (simp add: lookupOpInfo_def getOpcodesForHF_def)
  moreover have "op \<in> set priced \<Longrightarrow> \<exists>g. dynamicGasHandlers vm op = Some g"
    using priced_dynamic by (auto simp: list_all_iff)
  ultimately show ?thesis
    using handlers_handled [of op vm] by (auto simp: entry_ok_def createOpcode_def)
qed

theorem every_opcode_has_handler_witness:
  "\<exists>g h. dynamicGasHandlers sample_vm 0x20 = Some g \<and> handlers sample_vm (\<lambda>m. raise (JsError [])) 0x20 = Some h"
proof -
  have "map_of opcodes 0x20 = Some (oc ''SHA3'' False True)" by (simp add: opcodes_def)
  moreover have "0x20 \<notin> fst ` set overlays" by (simp add: overlay_keys)
  ultimately have "lookupOpInfo sample_vm 0x20 = Some (createOpcode sample_vm 0x20 (oc ''SHA3'' False True))"
    using base_opcode by blast
  then show ?thesis
    using every_opcode_has_handler [where vm = sample_vm and op = "0x20" and exec = "\<lambda>m. raise (JsError [])"]
    by (simp add: createOpcode_def oc_def)
qed

end
