(* ===== verification/Jump_Analysis.thy ===== *)
theory Jump_Analysis
  imports Frame_Rules Opcode_Tables
begin

text \<open>
  The analysis of jump destinations against its meaning. \<open>instr_from code i j\<close> says that decoding
  from position \<open>i\<close>, with the data block of every PUSH skipped, arrives at \<open>j\<close>; the loop of
  \<open>_getValidJumpDests\<close> marks exactly the JUMPDEST and BEGINSUB bytes at which decoding from 0
  arrives. The frame's invariant \<open>flow_ok\<close> says that the program counter and every address on the
  return stack are such positions, so the interpreter never executes the data of a PUSH.
\<close>

inductive instr_from :: "bytes \<Rightarrow> nat \<Rightarrow> nat \<Rightarrow> bool" for code where
  here: "instr_from code i i"
| step: "i < length code \<Longrightarrow> instr_from code (i + 1 + push_data (code ! i)) j \<Longrightarrow> instr_from code i j"

inductive_cases instr_fromE: "instr_from code i j"

abbreviation instr_start :: "bytes \<Rightarrow> nat \<Rightarrow> bool" where
  "instr_start code i \<equiv> instr_from code 0 i"

lemma instr_from_ge: "instr_from code i j \<Longrightarrow> i \<le> j"
  by (induction rule: instr_from.induct) auto

lemma instr_from_unfold:
  "instr_from code i j \<longleftrightarrow> j = i \<or> (i < length code \<and> instr_from code (i + 1 + push_data (code ! i)) j)"
  by (auto intro: instr_from.intros elim: instr_fromE)

lemma instr_from_trans: "instr_from code i j \<Longrightarrow> instr_from code j k \<Longrightarrow> instr_from code i k"
  by (induction rule: instr_from.induct) (auto intro: instr_from.intros)

lemma instr_from_snoc:
  "instr_from code i j \<Longrightarrow> j < length code \<Longrightarrow> instr_from code i (j + 1 + push_data (code ! j))"
  using instr_from_trans [of code i j] step [of j code, OF _ here] by blast

text \<open>What the loop leaves at position \<open>j\<close> when it starts at \<open>i\<close>.\<close>

lemma push_data_simps:
  "b \<le> 0x7f \<Longrightarrow> 0x60 \<le> b \<Longrightarrow> push_data b = unat b - 0x5f"
  "\<not> b \<le> 0x7f \<Longrightarrow> push_data b = 0" "\<not> 0x60 \<le> b \<Longrightarrow> push_data b = 0"
  by (simp_all add: push_data_def)

lemma push_not_dest: "0x60 \<le> (b :: byte) \<Longrightarrow> b \<noteq> 0x5b \<and> b \<noteq> 0x5c"
  by (auto simp: word_le_def)

lemma length_jump_loop [simp]: "length (jump_loop code i jumps) = length jumps"
  by (induction code i jumps rule: jump_loop.induct) (subst jump_loop.simps, simp add: Let_def)

lemma jump_loop_nth:
  "length jumps = length code \<Longrightarrow> j < length code \<Longrightarrow>
     jump_loop code i jumps ! j =
       (if instr_from code i j \<and> code ! j = 0x5b then 1
        else if instr_from code i j \<and> code ! j = 0x5c then 2 else jumps ! j)"
proof (induction code i jumps rule: jump_loop.induct)
  case (1 code i jumps)
  let ?b = "code ! i"
  show ?case
  proof (cases "i < length code")
    case False
    then have "\<not> instr_from code i j" using "1.prems" by (auto simp: instr_from_unfold [of code i])
    with False show ?thesis by (simp add: jump_loop.simps [of code i])
  next
    case i: True
    have u: "instr_from code i j \<longleftrightarrow> j = i \<or> instr_from code (i + 1 + push_data ?b) j"
      using i by (simp add: instr_from_unfold [of code i])
    have n: "\<not> instr_from code (i + 1 + k) i" for k
      using instr_from_ge by fastforce
    consider "?b \<le> 0x7f" "0x60 \<le> ?b" | "?b = 0x5b" | "?b = 0x5c"
      | "?b \<le> 0x7f" "\<not> 0x60 \<le> ?b" "?b \<noteq> 0x5b" "?b \<noteq> 0x5c" | "\<not> ?b \<le> 0x7f" by blast
    then show ?thesis
    proof cases
      case 1
      have "jump_loop code i jumps = jump_loop code (i + (unat ?b - 0x5f) + 1) jumps"
        using i 1 by (subst jump_loop.simps) (simp add: Let_def)
      with "1.IH"(1) [OF i refl] 1 "1.prems" u show ?thesis
        using push_not_dest [OF 1(2)] by (auto simp: push_data_simps ac_simps)
    next
      case 2
      have "jump_loop code i jumps = jump_loop code (i + 1) (jumps[i := 1])"
        using i 2 by (subst jump_loop.simps) (simp add: Let_def)
      with "1.IH"(2) [OF i refl] 2 "1.prems" u n [of 0] i show ?thesis
        by (auto simp: push_data_simps nth_list_update)
    next
      case 3
      have "jump_loop code i jumps = jump_loop code (i + 1) (jumps[i := 2])"
        using i 3 by (subst jump_loop.simps) (simp add: Let_def)
      with "1.IH"(3) [OF i refl] 3 "1.prems" u n [of 0] i show ?thesis
        by (auto simp: push_data_simps nth_list_update)
    next
      case 4
      have "jump_loop code i jumps = jump_loop code (i + 1) jumps"
        using i 4 by (subst jump_loop.simps) (simp add: Let_def)
      with "1.IH"(4) [OF i refl] 4 "1.prems" u show ?thesis
        by (auto simp: push_data_simps)
    next
      case 5
      have "jump_loop code i jumps = jump_loop code (i + 1) jumps"
        using i 5 by (subst jump_loop.simps) (simp add: Let_def)
      with "1.IH"(5) [OF i refl] 5 "1.prems" u show ?thesis
        by (auto simp: push_data_simps)
    qed
  qed
qed

lemma getValidJumpDests_nth:
  "j < length code \<Longrightarrow> getValidJumpDests code ! j =
     (if instr_start code j \<and> code ! j = 0x5b then 1
      else if instr_start code j \<and> code ! j = 0x5c then 2 else 0)"
  by (simp add: getValidJumpDests_def jump_loop_nth)

lemma length_getValidJumpDests [simp]: "length (getValidJumpDests code) = length code"
  by (simp add: getValidJumpDests_def)

section \<open>The flow of control\<close>

definition flow_ok :: "run_state \<Rightarrow> bool" where
  "flow_ok rs \<longleftrightarrow> instr_start (rs_code rs) (programCounter rs) \<and>
     (\<forall>d \<in> set (store (returnStack rs)). instr_start (rs_code rs) (nat d)) \<and>
     (\<not> shouldDoJumpAnalysis rs \<longrightarrow> validJumps rs = getValidJumpDests (rs_code rs))"

interpretation any_world: world_rel vm exec "\<lambda>_ _. True" for vm exec
  by unfold_locales simp_all

text \<open>The part of a frame that an opcode other than a jump leaves alone.\<close>

definition flow_view :: "run_state \<Rightarrow> nat \<times> stack \<times> nat list \<times> bool \<times> nat \<times> bytes" where
  "flow_view rs = (programCounter rs, returnStack rs, validJumps rs, shouldDoJumpAnalysis rs,
     opCode rs, rs_code rs)"

lemma flow_view_same: "any_world.fl.keeps vm m \<Longrightarrow> m rs = (Inr q, s) \<Longrightarrow> flow_view s = flow_view rs"
  using any_world.fl.keeps_step [of vm m rs "Inr q" s]
  by (auto simp: flow_view_def flow_step_def frame_step_def)

lemma jump_to_lands:
  "jump_to vm d rs = (Inr (), s) \<Longrightarrow> \<exists>n. s = rs\<lparr>programCounter := n\<rparr> \<and> jumpIsValid rs n"
  by (auto simp: jump_to_def trap_at_def set_pc_def eff_defs split: if_splits prod.splits sum.splits)

lemma PUSH_flow:
  assumes "op_PUSH vm rs = (Inr (), s)"
  shows "flow_view s = flow_view (rs\<lparr>programCounter := programCounter rs + (opCode rs - 0x5f)\<rparr>)"
proof -
  obtain v where "push v (rs\<lparr>programCounter := programCounter rs + (opCode rs - 0x5f)\<rparr>) = (Inr (), s)"
    using assms by (auto simp: op_PUSH_def Let_def set_pc_def eff_defs split: if_splits)
  then show ?thesis by (rule flow_view_same [OF any_world.stack_kept(1)])
qed

lemma pop_flow: "pop rs = (Inr q, s) \<Longrightarrow> flow_view s = flow_view rs"
  and pops_flow: "pops n rs = (Inr r, s) \<Longrightarrow> flow_view s = flow_view rs"
  by (rule flow_view_same [OF any_world.stack_kept(2)], assumption)
    (rule flow_view_same [OF any_world.stack_kept(3)], assumption)

lemma JUMP_flow:
  assumes "op_JUMP vm rs = (Inr (), s)"
  shows "\<exists>n. flow_view s = flow_view (rs\<lparr>programCounter := n\<rparr>) \<and> jumpIsValid rs n"
proof -
  obtain d t where "pop rs = (Inr d, t)" "jump_to vm d t = (Inr (), s)"
    using assms by (auto simp: op_JUMP_def bnd_def split: prod.splits sum.splits)
  with pop_flow [OF this(1)] jump_to_lands [OF this(2)] show ?thesis
    by (auto simp: flow_view_def jumpIsValid_def)
qed

lemma JUMPI_flow:
  assumes "op_JUMPI vm rs = (Inr (), s)"
  shows "flow_view s = flow_view rs \<or>
    (\<exists>n. flow_view s = flow_view (rs\<lparr>programCounter := n\<rparr>) \<and> jumpIsValid rs n)"
proof -
  obtain vs t where t: "pops 2 rs = (Inr vs, t)" "when_eff (vs ! 1 \<noteq> 0) (jump_to vm (vs ! 0)) t = (Inr (), s)"
    using assms by (auto simp: op_JUMPI_def bnd_def split: prod.splits sum.splits)
  show ?thesis
  proof (cases "vs ! 1 = 0")
    case True
    with t pops_flow [OF t(1)] show ?thesis by (simp add: when_eff_def ret_def)
  next
    case False
    with t(2) have "jump_to vm (vs ! 0) t = (Inr (), s)" by (simp add: when_eff_def)
    from jump_to_lands [OF this] pops_flow [OF t(1)] show ?thesis
      by (auto simp: flow_view_def jumpIsValid_def)
  qed
qed

lemma JUMPSUB_flow:
  assumes "op_JUMPSUB vm rs = (Inr (), s)"
  shows "\<exists>n. jumpSubIsValid rs n \<and> flow_view s = flow_view (rs\<lparr>programCounter := n + 1,
    returnStack := (returnStack rs)\<lparr>store := store (returnStack rs) @ [int (programCounter rs)]\<rparr>\<rparr>)"
proof -
  obtain d t where t: "pop rs = (Inr d, t)"
    using assms by (auto simp: op_JUMPSUB_def bnd_def split: prod.splits sum.splits)
  with assms obtain n where "jumpSubIsValid t n" "s = t\<lparr>programCounter := n + 1,
    returnStack := (returnStack t)\<lparr>store := store (returnStack t) @ [int (programCounter t)]\<rparr>\<rparr>"
    by (auto simp: op_JUMPSUB_def t trap_at_def set_pc_def eff_defs stack_push_result
        split: if_splits prod.splits sum.splits)
  with pop_flow [OF t] show ?thesis
    by (auto simp: flow_view_def jumpSubIsValid_def)
qed

lemma RETURNSUB_flow:
  assumes "op_RETURNSUB rs = (Inr (), s)"
  shows "\<exists>d. d \<in> set (store (returnStack rs)) \<and> flow_view s = flow_view (rs\<lparr>programCounter := nat d,
    returnStack := (returnStack rs)\<lparr>store := butlast (store (returnStack rs))\<rparr>\<rparr>)"
  using assms
  by (auto simp: op_RETURNSUB_def set_pc_def eff_defs stack_pop_def toNumber_def flow_view_def
      split: if_splits intro!: exI [of _ "last (store (returnStack rs))"])

section \<open>One turn of the loop\<close>

lemma jump_target:
  assumes "validJumps rs = getValidJumpDests (rs_code rs)"
  shows "jumpIsValid rs n \<Longrightarrow> instr_start (rs_code rs) n \<and> n < length (rs_code rs) \<and> rs_code rs ! n = 0x5b"
    and "jumpSubIsValid rs n \<Longrightarrow> instr_start (rs_code rs) n \<and> n < length (rs_code rs) \<and> rs_code rs ! n = 0x5c"
  using assms by (auto simp: jumpIsValid_def jumpSubIsValid_def getValidJumpDests_nth split: if_splits)

text \<open>The frame when a handler runs: the counter is past the opcode, the analysis is there if needed.\<close>

definition in_handler :: "run_state \<Rightarrow> nat \<Rightarrow> bool" where
  "in_handler rs i \<longleftrightarrow> i < length (rs_code rs) \<and> instr_start (rs_code rs) i \<and>
     programCounter rs = i + 1 \<and> opCode rs = unat (rs_code rs ! i) \<and>
     (\<forall>d \<in> set (store (returnStack rs)). instr_start (rs_code rs) (nat d)) \<and>
     (\<not> shouldDoJumpAnalysis rs \<longrightarrow> validJumps rs = getValidJumpDests (rs_code rs)) \<and>
     (opCode rs \<in> {0x56, 0x57, 0x5e} \<longrightarrow> validJumps rs = getValidJumpDests (rs_code rs))"

lemma in_handler_view: "flow_view s = flow_view t \<Longrightarrow> in_handler s i = in_handler t i"
  by (simp add: flow_view_def in_handler_def)

lemma flow_ok_view: "flow_view s = flow_view t \<Longrightarrow> flow_ok s = flow_ok t"
  by (simp add: flow_view_def flow_ok_def)

lemma push_data_nat: "push_data b = (if 0x60 \<le> unat b \<and> unat b \<le> 0x7f then unat b - 0x5f else 0)"
  by (simp add: push_data_def word_le_nat_alt)

lemma next_start:
  assumes "in_handler rs i" "\<not> (0x60 \<le> opCode rs \<and> opCode rs \<le> 0x7f)"
  shows "instr_start (rs_code rs) (i + 1)"
  using instr_from_snoc [of "rs_code rs" 0 i] assms
  by (auto simp: in_handler_def push_data_nat split: if_splits)

lemma in_handler_ok:
  "in_handler rs i \<Longrightarrow> instr_start (rs_code rs) n \<Longrightarrow> flow_ok (rs\<lparr>programCounter := n\<rparr>)"
  by (simp add: in_handler_def flow_ok_def)

lemma handler_flow:
  assumes h: "handlers vm exec (opCode rs) = Some h" and rs: "in_handler rs i" and run: "h rs = (Inr (), s)"
  shows "flow_ok s \<and> rs_code s = rs_code rs"
  using h
proof (cases rule: any_world.handlers_cases)
  case 1
  have v: "flow_view s = flow_view rs" using 1(1) run by (rule flow_view_same)
  have "flow_ok (rs\<lparr>programCounter := i + 1\<rparr>)"
    using rs next_start [OF rs 1(2)] by (rule in_handler_ok)
  moreover have "rs\<lparr>programCounter := i + 1\<rparr> = rs" using rs by (simp add: in_handler_def)
  ultimately show ?thesis using v flow_ok_view [OF v] by (simp add: flow_view_def)
next
  case 2
  have v: "flow_view s = flow_view (rs\<lparr>programCounter := programCounter rs + (opCode rs - 0x5f)\<rparr>)"
    using run 2 PUSH_flow by blast
  have "instr_start (rs_code rs) (programCounter rs + (opCode rs - 0x5f))"
    using instr_from_snoc [of "rs_code rs" 0 i] rs 2 by (auto simp: in_handler_def push_data_nat)
  from in_handler_ok [OF rs this] show ?thesis using v flow_ok_view [OF v] by (simp add: flow_view_def)
next
  case 3
  then obtain n where v: "flow_view s = flow_view (rs\<lparr>programCounter := n\<rparr>)" "jumpIsValid rs n"
    using run JUMP_flow by blast
  then have "instr_start (rs_code rs) n" using jump_target(1) 3 rs by (simp add: in_handler_def)
  from in_handler_ok [OF rs this] show ?thesis using v flow_ok_view [OF v(1)] by (simp add: flow_view_def)
next
  case 4
  from JUMPI_flow [of vm rs s] run 4 consider "flow_view s = flow_view rs"
    | n where "flow_view s = flow_view (rs\<lparr>programCounter := n\<rparr>)" "jumpIsValid rs n" by blast
  then show ?thesis
  proof cases
    case a: 1
    have "flow_ok (rs\<lparr>programCounter := i + 1\<rparr>)"
      using rs next_start [OF rs] 4 by (intro in_handler_ok) simp_all
    moreover have "rs\<lparr>programCounter := i + 1\<rparr> = rs" using rs by (simp add: in_handler_def)
    ultimately show ?thesis using a flow_ok_view [OF a] by (simp add: flow_view_def)
  next
    case b: 2
    then have "instr_start (rs_code rs) n" using jump_target(1) 4 rs by (simp add: in_handler_def)
    from in_handler_ok [OF rs this] show ?thesis using b flow_ok_view [OF b(1)] by (simp add: flow_view_def)
  qed
next
  case 5
  then obtain d where v: "d \<in> set (store (returnStack rs))"
    "flow_view s = flow_view (rs\<lparr>programCounter := nat d,
      returnStack := (returnStack rs)\<lparr>store := butlast (store (returnStack rs))\<rparr>\<rparr>)"
    using run RETURNSUB_flow by blast
  then have "flow_ok (rs\<lparr>programCounter := nat d,
      returnStack := (returnStack rs)\<lparr>store := butlast (store (returnStack rs))\<rparr>\<rparr>)"
    using rs by (auto simp: in_handler_def flow_ok_def dest: in_set_butlastD)
  then show ?thesis using v(2) flow_ok_view [OF v(2)] by (simp add: flow_view_def)
next
  case 6
  then obtain n where v: "jumpSubIsValid rs n" "flow_view s = flow_view (rs\<lparr>programCounter := n + 1,
    returnStack := (returnStack rs)\<lparr>store := store (returnStack rs) @ [int (programCounter rs)]\<rparr>\<rparr>)"
    using run JUMPSUB_flow by blast
  then have n: "instr_start (rs_code rs) n" "n < length (rs_code rs)" "rs_code rs ! n = 0x5c"
    using jump_target(2) 6 rs by (auto simp: in_handler_def)
  then have "instr_start (rs_code rs) (n + 1)"
    using instr_from_snoc [of "rs_code rs" 0 n] by (simp add: push_data_nat)
  moreover have "instr_start (rs_code rs) (i + 1)" using next_start [OF rs] 6 by simp
  ultimately have "flow_ok (rs\<lparr>programCounter := n + 1,
    returnStack := (returnStack rs)\<lparr>store := store (returnStack rs) @ [int (programCounter rs)]\<rparr>\<rparr>)"
    using rs by (simp add: in_handler_def flow_ok_def nat_add_distrib)
  then show ?thesis using v(2) flow_ok_view [OF v(2)] by (simp add: flow_view_def)
qed

lemma lookupOpInfo_code:
  "lookupOpInfo vm op = Some oi \<Longrightarrow> oc_code oi = op \<or> oc_code oi = 0xfe"
  by (auto simp: lookupOpInfo_def getOpcodesForHF_def createOpcode_def split: option.splits)

lemma no_handler_fe: "handlers vm exec 0xfe = None"
  by (simp add: handlers_def single_ops_def)

lemma runStep_flow:
  assumes ok: "flow_ok rs" and pc: "programCounter rs < length (rs_code rs)"
    and run: "runStep vm exec (fetch rs) = (Inr (), s)"
  shows "flow_ok s \<and> rs_code s = rs_code rs"
proof -
  let ?r = "fetch rs"
  obtain oi where oi: "lookupOpInfo vm (opCode ?r) = Some oi"
    using run by (auto simp: runStep_def eff_defs split: option.splits)
  let ?gas = "if oc_dynamicGas oi then (case dynamicGasHandlers vm (opCode ?r) of None \<Rightarrow> raise no_handler
      | Some h \<Rightarrow> h (oc_fee oi)) else ret (oc_fee oi)"
  from run oi obtain g t where t: "?gas ?r = (Inr g, t)"
    by (auto simp: runStep_def eff_defs split: option.splits if_splits prod.splits sum.splits)
  from run oi t obtain u h where u: "on_eei (useGas g) t = (Inr (), u)"
    "handlers vm exec (oc_code oi) = Some h" "h (u\<lparr>programCounter := programCounter u + 1\<rparr>) = (Inr (), s)"
    by (auto simp: runStep_def bnd_def andthen_def gets_def trap_def raise_def modif_def
        split: option.splits if_splits prod.splits sum.splits)
  have "flow_view u = flow_view t" using any_world.on_eei_keeps [OF any_world.gas_kept(1)] u(1)
    by (rule flow_view_same)
  also have "\<dots> = flow_view ?r" using any_world.gas_part_kept t by (rule flow_view_same)
  finally have v: "flow_view (u\<lparr>programCounter := programCounter u + 1\<rparr>) =
      flow_view (?r\<lparr>programCounter := programCounter ?r + 1\<rparr>)"
    by (simp add: flow_view_def)
  have "in_handler (?r\<lparr>programCounter := programCounter ?r + 1\<rparr>) (programCounter rs)"
    using ok pc by (auto simp: fetch_def Let_def in_handler_def flow_ok_def)
  then have ih: "in_handler (u\<lparr>programCounter := programCounter u + 1\<rparr>) (programCounter rs)"
    using in_handler_view [OF v] by simp
  have "oc_code oi = opCode ?r"
    using lookupOpInfo_code [OF oi] u(2) no_handler_fe by auto
  then have "handlers vm exec (opCode (u\<lparr>programCounter := programCounter u + 1\<rparr>)) = Some h"
    using u(2) v by (simp add: flow_view_def)
  from handler_flow [OF this ih u(3)] v show ?thesis
    by (simp add: flow_view_def fetch_def Let_def split: if_splits)
qed

text \<open>The states of a frame at the head of the loop.\<close>

inductive loop_heads :: "vm \<Rightarrow> exec \<Rightarrow> run_state \<Rightarrow> run_state \<Rightarrow> bool" for vm exec rs0 where
  entry: "loop_heads vm exec rs0 rs0"
| turn: "loop_heads vm exec rs0 rs \<Longrightarrow> programCounter rs < length (rs_code rs) \<Longrightarrow>
    runStep vm exec (fetch rs) = (Inr (), s) \<Longrightarrow> loop_heads vm exec rs0 s"

lemma loop_heads_trans: "loop_heads vm exec b c \<Longrightarrow> loop_heads vm exec a b \<Longrightarrow> loop_heads vm exec a c"
  by (induction rule: loop_heads.induct) (auto intro: loop_heads.intros)

text \<open>\<open>run_loop\<close> goes through these states: it ends at one, or in the step that one takes.\<close>

lemma run_loop_heads:
  "run_loop vm exec n rs = (q, s) \<Longrightarrow> \<exists>h. loop_heads vm exec rs h \<and>
     (s = h \<or> programCounter h < length (rs_code h) \<and> s = snd (runStep vm exec (fetch h)))"
proof (induction n arbitrary: rs)
  case (Suc n)
  obtain r t where r: "runStep vm exec (fetch rs) = (r, t)" by force
  show ?case
  proof (cases "programCounter rs < length (rs_code rs) \<and> r = Inr ()")
    case True
    then have "run_loop vm exec n t = (q, s)" using Suc.prems r by simp
    from Suc.IH [OF this] loop_heads_trans [OF _ turn [OF entry]] True r show ?thesis by blast
  next
    case False
    then have "s = rs \<or> programCounter rs < length (rs_code rs) \<and> s = t"
      using Suc.prems r by (auto split: if_splits sum.splits exn.splits)
    then show ?thesis using entry [of vm exec rs] r by (metis snd_conv)
  qed
qed (auto intro: entry)

section \<open>The properties\<close>

text \<open>C6. The jump analysis marks exactly the right bytes: position j is marked 1 if and only if it is
  an instruction, not data of a PUSH, and the byte is JUMPDEST, and 2 if and only if it is such a
  BEGINSUB.\<close>

theorem jumpdests_exact:
  assumes "j < length code"
  shows "(getValidJumpDests code ! j = 1 \<longleftrightarrow> instr_start code j \<and> code ! j = 0x5b) \<and>
    (getValidJumpDests code ! j = 2 \<longleftrightarrow> instr_start code j \<and> code ! j = 0x5c)"
  using assms by (auto simp: getValidJumpDests_nth)

text \<open>PUSH1 0x5b; JUMPDEST: the first 0x5b is data, the second an instruction.\<close>

theorem jumpdests_exact_witness:
  "getValidJumpDests [0x60, 0x5b, 0x5b] ! 2 = 1 \<and> instr_start [0x60, 0x5b, 0x5b] 2 \<and>
    \<not> instr_start [0x60, 0x5b, 0x5b] 1"
proof -
  let ?c = "[0x60, 0x5b, 0x5b] :: bytes"
  have "instr_start ?c 2 \<and> \<not> instr_start ?c 1"
    by (simp add: instr_from_unfold [of ?c 0] instr_from_unfold [of ?c 2] push_data_def)
      (auto dest: instr_from_ge intro: instr_from.here simp: numeral_2_eq_2)
  then show ?thesis using jumpdests_exact [of 2 ?c] by simp
qed

text \<open>C5. From the entry of a frame to its end, whatever the messages it sends return, the
  interpreter runs the code it was given, its program counter stands only at instructions (never in
  the data of a PUSH), and so does every return address of its subroutines.\<close>

theorem executes_only_instructions:
  assumes "loop_heads vm exec ((new_run_state e)\<lparr>rs_code := code\<rparr>) rs"
  shows "rs_code rs = code \<and> instr_start code (programCounter rs) \<and>
    (\<forall>d \<in> set (store (returnStack rs)). instr_start code (nat d))"
proof -
  have "rs_code rs = code \<and> flow_ok rs"
    using assms
  proof induction
    case entry
    then show ?case
      by (simp add: new_run_state_def flow_ok_def new_stack_def instr_from.here)
  next
    case (turn rs s)
    then show ?case using runStep_flow by metis
  qed
  then show ?thesis by (auto simp: flow_ok_def)
qed

lemma sample_push_step:
  "\<exists>s. runStep sample_vm (\<lambda>m. raise (JsError []))
      (fetch ((new_run_state (sample_eei [] 9))\<lparr>rs_code := [0x60, 0x5b]\<rparr>)) = (Inr (), s) \<and>
     programCounter s = 2"
proof -
  have "map_of opcodes 0x60 = Some (oc ''PUSH'' False False)" by (simp add: opcodes_def)
  moreover have "0x60 \<notin> fst ` set overlays" by (simp add: overlay_keys)
  ultimately have "lookupOpInfo sample_vm 0x60 = Some (createOpcode sample_vm 0x60 (oc ''PUSH'' False False))"
    using base_opcode by blast
  moreover have "toLowerCase ''PUSH'' \<noteq> ''stackLimit''" by (simp add: toLowerCase_def)
  ultimately show ?thesis
    by (simp add: runStep_def fetch_def new_run_state_def sample_eei_def createOpcode_def oc_def
        eff_defs handlers_def op_PUSH_def useGas_result sample_vm_def set_pc_def push_def
        stack_push_result new_stack_def bn_of_bytes_def slice_def MAX_INTEGER_def Let_def)
qed

theorem executes_only_instructions_witness:
  "\<exists>rs. loop_heads sample_vm (\<lambda>m. raise (JsError [])) ((new_run_state (sample_eei [] 9))\<lparr>rs_code := [0x60, 0x5b]\<rparr>) rs \<and>
     programCounter rs = 2 \<and> rs_code rs = [0x60, 0x5b] \<and> instr_start [0x60, 0x5b] 2"
proof -
  let ?r = "(new_run_state (sample_eei [] 9))\<lparr>rs_code := [0x60, 0x5b]\<rparr>"
  obtain s where "runStep sample_vm (\<lambda>m. raise (JsError [])) (fetch ?r) = (Inr (), s)" "programCounter s = 2"
    using sample_push_step by blast
  then have s: "loop_heads sample_vm (\<lambda>m. raise (JsError [])) ?r s"
    by (intro turn [OF entry]) (simp_all add: new_run_state_def)
  from executes_only_instructions [OF s] s \<open>programCounter s = 2\<close> show ?thesis by metis
qed

end
