(* ===== verification/Alu_Words.thy ===== *)
theory Alu_Words
  imports Op_Codes Samples
begin

text \<open>
  The arithmetic opcodes compute on 256-bit machine words. A word \<open>x\<close> is on the stack as \<open>uint x\<close>;
  each \<open>alu_*\<close> function of \<open>Op_Alu\<close>, which follows the source's calls of \<open>bn.js\<close>, is shown to be
  the operation of the type \<open>256 word\<close>, and the handlers in the table to replace their operands by
  its result and to change nothing else of the frame.
\<close>

type_synonym w256 = "256 word"

lemma TWO_POW256_pos [simp]: "0 < TWO_POW256"
  by (simp add: TWO_POW256_def)

lemma uint_w256_less: "uint (x :: w256) < TWO_POW256"
  using uint_lt2p [of x] by (simp add: TWO_POW256_def)

lemma uint_w256_le [simp]: "uint (x :: w256) \<le> MAX_INTEGER"
  using uint_lt2p [of x] by (simp add: MAX_INTEGER_def)

lemma take_bit_256: "take_bit 256 (n :: int) = n mod TWO_POW256"
  by (simp add: take_bit_eq_mod TWO_POW256_def)

lemma uint_w256_of_int: "uint (word_of_int n :: w256) = n mod TWO_POW256"
  by (simp add: unsigned_of_int take_bit_256)

lemma uint_mod_self [simp]: "uint (x :: w256) mod TWO_POW256 = uint x"
  using uint_w256_less [of x] by simp

section \<open>Two's complement\<close>

lemma toTwos_word: "- TWO_POW256 < n \<Longrightarrow> n < TWO_POW256 \<Longrightarrow> toTwos 256 n = uint (word_of_int n :: w256)"
proof -
  assume n: "- TWO_POW256 < n" "n < TWO_POW256"
  show ?thesis
  proof (cases "n < 0")
    case True
    then have "n mod TWO_POW256 = n + TWO_POW256"
      using n mod_pos_pos_trivial [of "n + TWO_POW256" TWO_POW256] by simp
    with True show ?thesis by (simp add: toTwos_def uint_w256_of_int TWO_POW256_def)
  next
    case False
    with n show ?thesis by (simp add: toTwos_def uint_w256_of_int)
  qed
qed

lemma sint_w256: "sint (x :: w256) = uint x - TWO_POW256 * of_bool (bit x 255)"
  using signed_take_bit_eq_take_bit_minus [of 255 "uint x"]
  by (simp add: sint_uint bit_uint_iff take_bit_256) (simp add: TWO_POW256_def)

lemma fromTwos_uint: "fromTwos 256 (uint (x :: w256)) = sint x"
  by (simp add: fromTwos_def sint_w256 bit_uint_iff TWO_POW256_def)

lemma sint_w256_range: "- (2 ^ 255) \<le> sint (x :: w256)" "sint (x :: w256) < 2 ^ 255"
  using sint_range_size [of x] by (simp_all add: word_size)

lemma toTwos_sint: "- (2 ^ 255) \<le> n \<Longrightarrow> n \<le> 2 ^ 255 \<Longrightarrow> toTwos 256 n = uint (word_of_int n :: w256)"
  by (rule toTwos_word) (simp_all add: TWO_POW256_def)

lemma sdiv_abs_le: "\<bar>bn_div a b\<bar> \<le> \<bar>a\<bar>"
proof (cases "a = 0 \<or> b = 0")
  case False
  then have "0 \<le> \<bar>a\<bar> div \<bar>b\<bar>" by (simp add: pos_imp_zdiv_nonneg_iff)
  moreover have "\<bar>a\<bar> div \<bar>b\<bar> \<le> \<bar>a\<bar>"
  proof -
    consider "\<bar>b\<bar> = 1" | "1 < \<bar>b\<bar>" using False by linarith
    then show ?thesis
      using False int_div_less_self [of "\<bar>a\<bar>" "\<bar>b\<bar>"] by cases (simp, linarith)
  qed
  ultimately show ?thesis using False by (simp add: bn_div_def abs_mult)
qed (auto simp: bn_div_def)

section \<open>Bits\<close>

lemma MAX_INTEGER_mask: "MAX_INTEGER = mask 256"
  by (simp add: MAX_INTEGER_def mask_eq_exp_minus_1)

lemma bit_ones: "n \<le> 256 \<Longrightarrow> bit (2 ^ 256 - 1 - (2 ^ n - 1) :: int) i \<longleftrightarrow> n \<le> i \<and> i < 256"
proof -
  assume "n \<le> 256"
  then have "2 ^ 256 = (2 ^ n * 2 ^ (256 - n) :: int)" by (simp flip: power_add)
  then have "2 ^ 256 - 1 - (2 ^ n - 1) = (push_bit n (mask (256 - n)) :: int)"
    by (simp add: push_bit_eq_mult mask_eq_exp_minus_1 algebra_simps)
  with \<open>n \<le> 256\<close> show ?thesis by (auto simp: bit_simps)
qed

lemma bit_w256: "bit (uint x) i \<longleftrightarrow> bit x i" for x :: w256
  using bit_imp_le_length [of x i] by (auto simp: bit_uint_iff)

lemma unat_less_w256: "unat x < n \<longleftrightarrow> uint x < int n" for x :: w256
  by (metis of_nat_less_iff of_nat_unat)

section \<open>The operations\<close>

lemma alu_add_word: "alu_add (uint x) (uint y) = uint (x + y :: w256)"
  using uint_word_ariths(1) [of x y] by (simp add: alu_add_def TWO_POW256_def)

lemma alu_mul_word: "alu_mul (uint x) (uint y) = uint (x * y :: w256)"
  using uint_word_ariths(3) [of x y] by (simp add: alu_mul_def TWO_POW256_def)

lemma alu_sub_word: "alu_sub (uint x) (uint y) = uint (x - y :: w256)"
  using uint_w256_less [of x] uint_w256_less [of y]
  using toTwos_word [of "uint x - uint y"] uint_ge_0 [of x] uint_ge_0 [of y]
  by (simp add: alu_sub_def del: uint_ge_0)

lemma alu_div_word: "alu_div (uint x) (uint y) = uint (x div y :: w256)"
  by (auto simp: alu_div_def uint_div_distrib uint_0_iff)

lemma alu_mod_word: "alu_mod (uint x) (uint y) = uint (if y = 0 then 0 else x mod y :: w256)"
  by (auto simp: alu_mod_def uint_mod_distrib uint_0_iff)

lemma alu_sdiv_word: "alu_sdiv (uint (x :: w256)) (uint (y :: w256)) = uint (word_of_int (sint x sdiv sint y) :: w256)"
proof (cases "y = 0")
  case False
  have "\<bar>bn_div (sint x) (sint y)\<bar> \<le> 2 ^ 255"
    using sdiv_abs_le [of "sint x" "sint y"] sint_w256_range [of x] by linarith
  with False show ?thesis
    by (simp add: alu_sdiv_def Let_def fromTwos_uint uint_0_iff toTwos_sint bn_div_def
        signed_divide_int_def)
qed (simp add: alu_sdiv_def)

lemma alu_smod_word:
  "alu_smod (uint (x :: w256)) (uint (y :: w256)) = uint (if y = 0 then 0 else word_of_int (sint x smod sint y) :: w256)"
proof (cases "y = 0")
  case False
  then have y: "sint y \<noteq> 0" by (metis signed_eq_0_iff)
  have "0 \<le> \<bar>sint x\<bar> mod \<bar>sint y\<bar>" "\<bar>sint x\<bar> mod \<bar>sint y\<bar> \<le> 2 ^ 255"
    using y sint_w256_range [of y] pos_mod_bound [of "\<bar>sint y\<bar>" "\<bar>sint x\<bar>"] by (auto simp del: pos_mod_bound)
  with False show ?thesis
    by (auto simp: alu_smod_def Let_def fromTwos_uint uint_0_iff toTwos_sint
        signed_modulo_int_def sgn_if)
qed (simp add: alu_smod_def)

lemma alu_addmod_word:
  "alu_addmod (uint (x :: w256)) (uint (y :: w256)) (uint (z :: w256)) =
     (if z = 0 then 0 else (uint x + uint y) mod uint z)"
  by (simp add: alu_addmod_def uint_0_iff)

lemma alu_mulmod_word:
  "alu_mulmod (uint (x :: w256)) (uint (y :: w256)) (uint (z :: w256)) =
     (if z = 0 then 0 else (uint x * uint y) mod uint z)"
  by (simp add: alu_mulmod_def uint_0_iff)

lemma pow_mod_eq: "0 < m \<Longrightarrow> pow_mod b n m = b ^ n mod m"
proof (induction b n m rule: pow_mod.induct)
  case (1 b n m)
  show ?case
  proof (cases "n = 0")
    case False
    let ?h = "pow_mod (b * b mod m) (n div 2) m"
    have h: "?h = (b * b) ^ (n div 2) mod m"
      using 1 False by (simp add: power_mod)
    have "(b * b) ^ (n div 2) = b ^ (2 * (n div 2))"
      by (simp add: power_mult power2_eq_square)
    then have "odd n \<Longrightarrow> b ^ n = b * (b * b) ^ (n div 2)" "even n \<Longrightarrow> b ^ n = (b * b) ^ (n div 2)"
      by (simp_all flip: power_Suc)
    with False h show ?thesis
      by (simp add: pow_mod.simps [of b n] Let_def mod_mult_right_eq)
  qed (simp add: pow_mod.simps)
qed

lemma uint_power_w256: "uint (x ^ n) = uint x ^ n mod TWO_POW256" for x :: w256
proof (induction n)
  case (Suc n)
  have "uint (x * x ^ n) = uint x * uint (x ^ n) mod TWO_POW256"
    using uint_word_ariths(3) [of x "x ^ n"] by (simp add: TWO_POW256_def)
  with Suc show ?case by (simp add: mod_mult_right_eq)
qed (simp add: TWO_POW256_def)

lemma alu_exp_word: "0 < y \<Longrightarrow> alu_exp (uint x) (uint y) = uint (x ^ unat y)" for x y :: w256
  by (simp add: alu_exp_def uint_0_iff pow_mod_eq uint_power_w256 word_gt_0 power_0_left unat_eq_0)

lemma alu_signextend_word:
  "alu_signextend (uint k) (uint x) =
     uint (if k < 31 then word_of_int (signed_take_bit (8 * unat k + 7) (uint x)) else x)"
  for k x :: w256
proof (cases "uint k < 31")
  case True
  define n where "n = 8 * unat k + 7"
  have n: "nat (uint k * 8 + 7) = n" "n < 256" "k < 31"
    using True unat_less_w256 [of k 31]
    by (simp_all add: n_def word_less_def nat_add_distrib nat_mult_distrib)
  define m where "m = (2 ^ 256 - 1 - (2 ^ n - 1) :: int)"
  have m: "bit m i \<longleftrightarrow> n \<le> i \<and> i < 256" for i
    using n bit_ones [of n i] by (simp only: m_def) 
  have "alu_signextend (uint k) (uint x) = (if bit x n then uint x OR m else uint x AND mask n)"
    using True n by (simp add: alu_signextend_def Let_def bit_w256 m_def mask_eq_exp_minus_1)
  also have "\<dots> = uint (word_of_int (signed_take_bit n (uint x)) :: w256)"
    using n(2) by (intro bit_eqI)
      (auto simp: m bit_simps bit_w256 min_def dest: bit_imp_le_length)
  finally show ?thesis using n by (simp add: n_def)
qed (simp add: alu_signextend_def word_less_def)

lemma alu_lt_word: "alu_lt (uint x) (uint y) = of_bool (x < y)" for x y :: w256
  by (simp add: alu_lt_def word_less_def)

lemma alu_gt_word: "alu_gt (uint x) (uint y) = of_bool (y < x)" for x y :: w256
  by (simp add: alu_gt_def word_less_def)

lemma alu_slt_word: "alu_slt (uint x) (uint y) = of_bool (x <s y)" for x y :: w256
  by (simp add: alu_slt_def fromTwos_uint word_sless_alt)

lemma alu_sgt_word: "alu_sgt (uint x) (uint y) = of_bool (y <s x)" for x y :: w256
  by (simp add: alu_sgt_def fromTwos_uint word_sless_alt)

lemma alu_eq_word: "alu_eq (uint x) (uint y) = of_bool (x = y)" for x y :: w256
  by (auto simp: alu_eq_def dest: unsigned_word_eqI)

lemma alu_iszero_word: "alu_iszero (uint x) = of_bool (x = 0)" for x :: w256
  by (simp add: alu_iszero_def uint_0_iff)

lemma alu_and_word: "alu_and (uint x) (uint y) = uint (x AND y)" for x y :: w256
  by (simp add: alu_and_def uint_and)

lemma alu_or_word: "alu_or (uint x) (uint y) = uint (x OR y)" for x y :: w256
  by (simp add: alu_or_def uint_or)

lemma alu_xor_word: "alu_xor (uint x) (uint y) = uint (x XOR y)" for x y :: w256
  by (simp add: alu_xor_def uint_xor)

lemma alu_not_word: "alu_not (uint x) = uint (NOT x)" for x :: w256
proof -
  have "alu_not (uint x) = uint x XOR mask 256"
    by (simp only: alu_not_def mask_eq_exp_minus_1)
  also have "\<dots> = uint (NOT x)"
    by (intro bit_eqI) (auto simp: bit_simps bit_w256 simp del: mask_eq_exp_minus_1 dest: bit_imp_le_length)
  finally show ?thesis .
qed

lemma alu_byte_word:
  "alu_byte (uint k) (uint x) =
     (if k < 32 then uint (be_bytes 32 (uint x) ! unat k) else 0)" for k x :: w256
proof (cases "uint k < 32")
  case True
  then have k: "unat k < 32" "k < 32" by (simp_all add: word_less_def unat_less_w256)
  have "256 ^ (31 - unat k) = (2 ^ ((31 - unat k) * 8) :: int)"
    by (simp add: power_mult mult.commute [of _ 8])
  then have "uint (be_bytes 32 (uint x) ! unat k) = take_bit 8 (drop_bit ((31 - unat k) * 8) (uint x))"
    using k by (simp add: nth_be_bytes unsigned_of_int drop_bit_eq_div)
  then show ?thesis
    using True k by (simp add: alu_byte_def take_bit_eq_mask mask_eq_exp_minus_1)
qed (simp add: alu_byte_def word_less_def)

lemma alu_shl_word: "alu_shl (uint k) (uint x) = uint (push_bit (unat k) x)" for k x :: w256
proof (cases "uint k < 256")
  case True
  then show ?thesis
    by (intro bit_eqI) (auto simp: alu_shl_def bit_simps bit_w256 MAX_INTEGER_mask)
next
  case False
  then have "256 \<le> unat k" by (simp add: unat_less_w256 flip: not_less)
  with False show ?thesis
    by (intro bit_eqI) (auto simp: alu_shl_def bit_simps)
qed

lemma alu_shr_word: "alu_shr (uint k) (uint x) = uint (drop_bit (unat k) x)" for k x :: w256
proof (cases "uint k < 256")
  case True
  then show ?thesis
    by (intro bit_eqI) (auto simp: alu_shr_def bit_simps bit_w256)
next
  case False
  then have "256 \<le> unat k" by (simp add: unat_less_w256 flip: not_less)
  with False show ?thesis
    by (intro bit_eqI) (auto simp: alu_shr_def bit_simps dest: bit_imp_le_length)
qed

lemma alu_sar_word: "alu_sar (uint k) (uint x) = uint (signed_drop_bit (unat k) x)" for k x :: w256
proof (cases "uint k < 256")
  case True
  then have "unat k < 256" by (simp add: unat_less_w256)
  moreover have "bit x (unat k + i)"
    if "\<not> 256 - unat k \<le> i" "255 - unat k \<le> i" "bit x 255" for i
  proof -
    have "unat k + i = 255" using that \<open>unat k < 256\<close> by linarith
    with that(3) show ?thesis by simp
  qed
  ultimately show ?thesis using True
    by (intro bit_eqI)
      (auto simp: alu_sar_def Let_def bit_simps bit_w256 MAX_INTEGER_mask dest: bit_imp_le_length)
next
  case False
  then have "256 \<le> unat k" by (simp add: unat_less_w256 flip: not_less)
  with False show ?thesis
    by (intro bit_eqI) (auto simp: alu_sar_def bit_simps bit_w256 MAX_INTEGER_mask dest: bit_imp_le_length)
qed

section \<open>The handlers\<close>

text \<open>The machine operation of every binary opcode; the first argument is the top of the stack.\<close>

definition alu2_word :: "(nat \<times> (w256 \<Rightarrow> w256 \<Rightarrow> w256)) list" where
  "alu2_word = [
     (0x01, \<lambda>x y. x + y), (0x02, \<lambda>x y. x * y), (0x03, \<lambda>x y. x - y), (0x04, \<lambda>x y. x div y),
     (0x05, \<lambda>x y. word_of_int (sint x sdiv sint y)),
     (0x06, \<lambda>x y. if y = 0 then 0 else x mod y),
     (0x07, \<lambda>x y. if y = 0 then 0 else word_of_int (sint x smod sint y)),
     (0x0b, \<lambda>k x. if k < 31 then word_of_int (signed_take_bit (8 * unat k + 7) (uint x)) else x),
     (0x10, \<lambda>x y. of_bool (x < y)), (0x11, \<lambda>x y. of_bool (y < x)),
     (0x12, \<lambda>x y. of_bool (x <s y)), (0x13, \<lambda>x y. of_bool (y <s x)),
     (0x14, \<lambda>x y. of_bool (x = y)), (0x16, \<lambda>x y. x AND y), (0x17, \<lambda>x y. x OR y),
     (0x18, \<lambda>x y. x XOR y),
     (0x1a, \<lambda>k x. if k < 32 then ucast (be_bytes 32 (uint x) ! unat k) else 0),
     (0x1b, \<lambda>k x. push_bit (unat k) x), (0x1c, \<lambda>k x. drop_bit (unat k) x),
     (0x1d, \<lambda>k x. signed_drop_bit (unat k) x)]"

definition alu1_word :: "(nat \<times> (w256 \<Rightarrow> w256)) list" where
  "alu1_word = [(0x15, \<lambda>x. of_bool (x = 0)), (0x19, \<lambda>x. NOT x)]"

definition alu3_word :: "(nat \<times> (w256 \<Rightarrow> w256 \<Rightarrow> w256 \<Rightarrow> w256)) list" where
  "alu3_word = [
     (0x08, \<lambda>x y z. if z = 0 then 0 else word_of_int ((uint x + uint y) mod uint z)),
     (0x09, \<lambda>x y z. if z = 0 then 0 else word_of_int ((uint x * uint y) mod uint z))]"

lemma on_stack_bnd: "bnd (on_stack m) (\<lambda>x. on_stack (k x)) = on_stack (bnd m k)"
  by (rule zoom_bnd) simp_all

lemma alu_zero: "alu_mod a 0 = 0" "alu_smod a 0 = 0" "alu_addmod a b 0 = 0" "alu_mulmod a b 0 = 0"
  "alu_iszero 0 = 1"
  by (simp_all add: alu_mod_def alu_smod_def alu_addmod_def alu_mulmod_def alu_iszero_def)

lemma mod_uint_reduced: "z \<noteq> 0 \<Longrightarrow> n mod uint z mod TWO_POW256 = n mod uint z" for z :: w256
proof -
  assume "z \<noteq> 0"
  then have z: "0 < uint z" by (simp add: less_le uint_0_iff)
  then have "0 \<le> n mod uint z" by simp
  moreover have "n mod uint z < TWO_POW256"
    using pos_mod_bound [OF z, of n] uint_w256_less [of z] by (rule less_trans)
  ultimately show ?thesis by simp
qed

lemma take_bit_byte: "take_bit 256 (uint (b :: byte)) = uint b"
  using uint_byte_less [of b] by (simp add: take_bit_int_eq_self_iff)

lemmas alu_word = alu_add_word alu_mul_word alu_sub_word alu_div_word alu_mod_word alu_sdiv_word
  alu_smod_word alu_signextend_word alu_lt_word alu_gt_word alu_slt_word alu_sgt_word alu_eq_word
  alu_iszero_word alu_and_word alu_or_word alu_xor_word alu_not_word alu_shl_word alu_shr_word
  alu_sar_word

text \<open>An instruction of \<open>n\<close> operands on a frame, from the law of the stack.\<close>

lemma nop_step:
  assumes view: "stack_view (rs_stack rs) = args @ rest" "length args = n" "0 < n"
    and wf: "length (store (rs_stack rs)) \<le> maxHeight (rs_stack rs)"
    and res: "f args = uint (w :: w256)"
  shows "bnd (pops n) (\<lambda>vs. push (f vs)) rs =
    (Inr (), rs\<lparr>rs_stack := (rs_stack rs)\<lparr>store := rev rest @ [uint w]\<rparr>\<rparr>)"
proof -
  obtain st where "bnd (stack_popN n) (\<lambda>vs. stack_push (f vs)) (rs_stack rs) = (Inr (), st)"
    "stack_view st = uint w # rest" "maxHeight st = maxHeight (rs_stack rs)"
    using evm_stack.alu_ok [of n "rs_stack rs" f] assms by (auto simp flip: length_stack_view)
  moreover from this have "st = (rs_stack rs)\<lparr>store := rev rest @ [uint w]\<rparr>"
    by (simp add: stack_view_def rev_swap)
  ultimately show ?thesis
    by (simp add: pops_def push_def on_stack_bnd zoom_result)
qed

lemma pops_short:
  "length (store (rs_stack rs)) < n \<Longrightarrow>
    bnd (pops n) k rs = (Inl (VmError STACK_UNDERFLOW), rs)"
  using evm_stack.popN_short [of "rs_stack rs" n]
  by (simp add: pops_def bnd_def zoom_result)

lemma unop_pops: "unop f = bnd (pops 1) (\<lambda>vs. push (f (hd vs)))"
proof -
  have "pop = bnd (pops 1) (\<lambda>vs. ret (hd vs))"
    by (rule ext) (simp add: pop_def pops_def stack_pop_popN zoom_def eff_defs split: prod.splits sum.splits)
  then have "unop f = bnd (bnd (pops 1) (\<lambda>vs. ret (hd vs))) (\<lambda>a. push (f a))"
    by (simp only: unop_def)
  then show ?thesis by (simp only: bnd_assoc bnd_ret)
qed

lemma alu2_handler:
  assumes "map_of alu2_word op = Some f"
  shows "\<exists>g. handlers vm exec op = Some (binop g) \<and> (\<forall>x y. g (uint x) (uint y) = uint (f x y))"
  using map_of_SomeD [OF assms]
  by (simp add: alu2_word_def)
    (elim disjE conjE; simp add: handlers_def single_ops_def op_ADD_def op_MUL_def op_SUB_def
      op_DIV_def op_SDIV_def op_MOD_def op_SMOD_def op_SIGNEXTEND_def op_LT_def op_GT_def op_SLT_def
      op_SGT_def op_EQ_def op_AND_def op_OR_def op_XOR_def op_BYTE_def op_SHL_def op_SHR_def op_SAR_def;
      rule exI, rule conjI, rule refl; simp add: alu_word alu_zero alu_byte_word unsigned_ucast_eq take_bit_byte)

lemma alu3_handler:
  assumes "map_of alu3_word op = Some f"
  shows "\<exists>g. handlers vm exec op = Some (ternop g) \<and>
    (\<forall>x y z. g (uint x) (uint y) (uint z) = uint (f x y z))"
  using map_of_SomeD [OF assms]
  by (simp add: alu3_word_def)
    (elim disjE conjE; simp add: handlers_def single_ops_def op_ADDMOD_def op_MULMOD_def;
      rule exI, rule conjI, rule refl; simp add: alu_addmod_word alu_mulmod_word alu_zero uint_w256_of_int mod_uint_reduced)

lemma alu1_handler:
  assumes "map_of alu1_word op = Some f"
  shows "\<exists>g. handlers vm exec op = Some (unop g) \<and> (\<forall>x. g (uint x) = uint (f x))"
  using map_of_SomeD [OF assms]
  by (simp add: alu1_word_def)
    (elim disjE conjE; simp add: handlers_def single_ops_def op_ISZERO_def op_NOT_def;
      rule exI, rule conjI, rule refl; simp add: alu_word alu_zero)

section \<open>The properties of the arithmetic opcodes\<close>

text \<open>C4. Every binary arithmetic opcode replaces the two words on top of the stack by the 256-bit
  machine operation of the table (wrapping sums, products and differences, signed division and
  remainder truncating towards zero, division by zero giving zero, shifts of any width) and changes
  nothing else of the frame; with fewer than two operands it traps and changes nothing.\<close>

theorem alu2_opcodes:
  assumes "map_of alu2_word op = Some f"
    and "stack_view (rs_stack rs) = uint x # uint y # rest"
    and "length (store (rs_stack rs)) \<le> maxHeight (rs_stack rs)"
    and "length (store (rs_stack short)) < 2"
  shows "\<exists>h. handlers vm exec op = Some h \<and>
    h rs = (Inr (), rs\<lparr>rs_stack := (rs_stack rs)\<lparr>store := rev rest @ [uint (f x y)]\<rparr>\<rparr>) \<and>
    h short = (Inl (VmError STACK_UNDERFLOW), short)"
proof -
  obtain g where g: "handlers vm exec op = Some (binop g)" "\<And>x y. g (uint x) (uint y) = uint (f x y)"
    using alu2_handler [OF assms(1)] by blast
  then show ?thesis
    using nop_step [of rs "[uint x, uint y]" rest 2 "\<lambda>vs. g (vs ! 0) (vs ! 1)"] assms(2,3)
      pops_short [OF assms(4)]
    by (simp add: binop_def)
qed

theorem alu2_opcodes_witness:
  "\<exists>h. handlers sample_vm (\<lambda>m. raise (JsError [])) 5 = Some h \<and>
    h (sample_frame [] 0 [uint (- 7 :: w256), 2, 9]) = (Inr (), sample_frame [] 0 [uint (- 3 :: w256), 9]) \<and>
    h (sample_frame [] 0 [1]) = (Inl (VmError STACK_UNDERFLOW), sample_frame [] 0 [1])"
proof -
  have "map_of alu2_word 5 = Some (\<lambda>x y. word_of_int (sint x sdiv sint y))"
    by (simp add: alu2_word_def)
  from alu2_opcodes [OF this, of "sample_frame [] 0 [uint (- 7 :: w256), 2, 9]" "- 7" 2 "[9]"
      "sample_frame [] 0 [1]"]
  show ?thesis by (simp add: sample_frame_def stack_view_def)
qed

text \<open>ADDMOD and MULMOD reduce the exact sum and product, which may exceed 256 bits, and give
  zero for a zero modulus; ISZERO and NOT replace one word.\<close>

theorem alu13_opcodes:
  assumes "map_of alu3_word op3 = Some f3" "map_of alu1_word op1 = Some f1"
    and "stack_view (rs_stack rs) = uint x # uint y # uint z # rest"
    and "length (store (rs_stack rs)) \<le> maxHeight (rs_stack rs)"
  shows "\<exists>h3 h1. handlers vm exec op3 = Some h3 \<and> handlers vm exec op1 = Some h1 \<and>
    h3 rs = (Inr (), rs\<lparr>rs_stack := (rs_stack rs)\<lparr>store := rev rest @ [uint (f3 x y z)]\<rparr>\<rparr>) \<and>
    h1 rs = (Inr (), rs\<lparr>rs_stack := (rs_stack rs)\<lparr>store := rev (uint y # uint z # rest) @ [uint (f1 x)]\<rparr>\<rparr>)"
proof -
  obtain g h where gh: "handlers vm exec op3 = Some (ternop g)"
    "\<And>x y z. g (uint x) (uint y) (uint z) = uint (f3 x y z)"
    "handlers vm exec op1 = Some (unop h)" "\<And>x. h (uint x) = uint (f1 x)"
    using alu3_handler [OF assms(1)] alu1_handler [OF assms(2)] by metis
  have "ternop g rs = (Inr (), rs\<lparr>rs_stack := (rs_stack rs)\<lparr>store := rev rest @ [uint (f3 x y z)]\<rparr>\<rparr>)"
    using nop_step [of rs "[uint x, uint y, uint z]" rest 3 "\<lambda>vs. g (vs ! 0) (vs ! 1) (vs ! 2)"]
      assms(3,4) gh(2) by (simp add: ternop_def numeral_2_eq_2)
  moreover have "unop h rs =
      (Inr (), rs\<lparr>rs_stack := (rs_stack rs)\<lparr>store := rev (uint y # uint z # rest) @ [uint (f1 x)]\<rparr>\<rparr>)"
    using nop_step [of rs "[uint x]" "uint y # uint z # rest" 1 "\<lambda>vs. h (hd vs)"] assms(3,4) gh(4)
    by (simp add: unop_pops)
  ultimately show ?thesis using gh(1,3) by blast
qed

theorem alu13_opcodes_witness:
  "\<exists>h3 h1. handlers sample_vm (\<lambda>m. raise (JsError [])) 8 = Some h3 \<and>
    handlers sample_vm (\<lambda>m. raise (JsError [])) 0x19 = Some h1 \<and>
    h3 (sample_frame [] 0 [uint (- 1 :: w256), uint (- 1 :: w256), 7]) = (Inr (), sample_frame [] 0 [2]) \<and>
    h1 (sample_frame [] 0 [uint (- 1 :: w256), uint (- 1 :: w256), 7]) =
      (Inr (), sample_frame [] 0 [0, uint (- 1 :: w256), 7])"
proof -
  have t: "map_of alu3_word 8 = Some (\<lambda>x y z. if z = 0 then 0 else word_of_int ((uint x + uint y) mod uint z))"
    "map_of alu1_word 0x19 = Some (\<lambda>x. NOT x)"
    by (simp_all add: alu3_word_def alu1_word_def)
  have "uint (word_of_int (2 * uint (- 1 :: w256) mod 7) :: w256) = 2"
    by (simp add: unsigned_minus_1_eq_mask mask_eq_exp_minus_1)
  then show ?thesis
    using alu13_opcodes [OF t, of "sample_frame [] 0 [uint (- 1 :: w256), uint (- 1 :: w256), 7]" "- 1" "- 1" 7 "[]"]
    by (simp add: sample_frame_def stack_view_def)
qed

text \<open>C24. EXP pushes the power of the two words modulo 2^256 and charges its price for every byte of
  the exponent, no gas at all for exponent zero; when the gas does not suffice the frame is out of
  gas, with none left.\<close>

theorem exp_opcode:
  assumes "stack_view (rs_stack rs) = uint (x :: w256) # uint (y :: w256) # rest"
    and "length (store (rs_stack rs)) \<le> maxHeight (rs_stack rs)"
    and "cost = int (byteLength (uint y)) * gasPrice vm ''expByte''" "0 \<le> gasLeft_of rs"
  shows "if cost \<le> gasLeft_of rs
    then op_EXP vm rs = (Inr (), rs\<lparr>rs_stack := (rs_stack rs)\<lparr>store := rev rest @ [uint (x ^ unat y)]\<rparr>,
      rs_eei := (rs_eei rs)\<lparr>ei_gasLeft := gasLeft_of rs - cost\<rparr>\<rparr>)
    else fst (op_EXP vm rs) = Inl (VmError OUT_OF_GAS) \<and> gasLeft_of (snd (op_EXP vm rs)) = 0"
proof -
  have st: "store (rs_stack rs) = rev rest @ [uint y, uint x]"
    using assms(1) by (simp add: stack_view_def rev_swap)
  let ?s1 = "rs\<lparr>rs_stack := (rs_stack rs)\<lparr>store := rev rest\<rparr>\<rparr>"
  have p: "pops 2 rs = (Inr [uint x, uint y], ?s1)"
    by (simp add: pops_def zoom_def stack_popN_result st stack_view_def)
  have h: "length rest + 2 \<le> maxHeight (rs_stack rs)" using assms(2) st by simp
  have bl: "byteLength (uint y) \<le> 32"
    using uint_w256_less [of y] by (simp add: byteLength_le_iff TWO_POW256_def)
  have b0: "byteLength (uint y) < 1 \<longleftrightarrow> y = 0"
  proof -
    have "uint y < 1 \<longleftrightarrow> uint y = 0" using uint_ge_0 [of y] by linarith
    then show ?thesis using byteLength_le_iff [of "uint y" 0] by (simp add: uint_0_iff less_Suc_eq_le)
  qed
  have psh: "push (uint w) t = (Inr (), t\<lparr>rs_stack := (rs_stack t)\<lparr>store := store (rs_stack t) @ [uint w]\<rparr>\<rparr>)"
    if "length (store (rs_stack t)) < maxHeight (rs_stack t)" for w :: w256 and t
    using that uint_w256_le [of w] by (simp add: push_def zoom_def stack_push_result not_less)
  show ?thesis
  proof (cases "y = 0")
    case True
    with p h psh [of ?s1 1] assms(3,4) show ?thesis
      by (simp add: op_EXP_def bnd_Inr [of _ _ _ ?s1] gasLeft_of_def)
  next
    case False
    then show ?thesis
      using p h psh [of "?s1\<lparr>rs_eei := (rs_eei rs)\<lparr>ei_gasLeft := gasLeft_of rs - cost\<rparr>\<rparr>" "x ^ unat y"]
        bl b0 assms(3) alu_exp_word [of y x]
      by (simp add: op_EXP_def andthen_def bnd_def zoom_def useGas_result uint_0_iff
          gasLeft_of_def word_gt_0)
  qed
qed

theorem exp_opcode_witness:
  "op_EXP sample_vm (sample_frame [] 50 [3, 5]) = (Inr (), sample_frame [] 47 [243])"
proof -
  let ?rs = "sample_frame [] 50 [3, 5]"
  have "byteLength 5 = 1"
    by (simp add: byteLength_def byte_length_nat.simps)
  then have c: "3 = int (byteLength (uint (5 :: w256))) * gasPrice sample_vm ''expByte''"
    by (simp add: sample_vm_def)
  have v: "stack_view (rs_stack ?rs) = uint (3 :: w256) # uint (5 :: w256) # []"
    "length (store (rs_stack ?rs)) \<le> maxHeight (rs_stack ?rs)" "gasLeft_of ?rs = 50"
    by (simp_all add: sample_frame_def stack_view_def gasLeft_of_def sample_eei_def)
  have "?rs\<lparr>rs_stack := (rs_stack ?rs)\<lparr>store := rev [] @ [uint ((3 :: w256) ^ unat (5 :: w256))]\<rparr>,
      rs_eei := (rs_eei ?rs)\<lparr>ei_gasLeft := 50 - 3\<rparr>\<rparr> = sample_frame [] 47 [243]"
    by (simp add: sample_frame_def sample_eei_def)
  then show ?thesis
    using exp_opcode [OF v(1,2) c] v(3) by simp
qed

end
