(* ===== verification/Frame_Gas.thy ===== *)
theory Frame_Gas
  imports Jump_Analysis Message_Rules Alu_Words
begin

text \<open>
  The values and the gas of a frame. \<open>upholds I m Q\<close> says that an effect keeps an invariant of the
  state whatever happens, that what it returns satisfies \<open>Q\<close>, and that what it throws is not one of
  the two errors that stand for fuel that ran out. \<open>frame_fine M d A\<close> is the invariant of a frame at
  depth \<open>d\<close>: no operand is negative, the gas left is in \<open>A\<close>, and the gas that goes with a message is
  between 0 and \<open>M\<close>. With prices that are not negative (\<open>fair_prices\<close>) every handler keeps it with
  the gas only going down, and every step that does not end the frame costs at least one unit.
\<close>

section \<open>Effects that uphold an invariant\<close>

definition out_of_fuel :: "exn list" where
  "out_of_fuel = [JsError ''out of steps'', JsError ''messages nested too deep'']"

definition fine :: "exn \<Rightarrow> bool" where
  "fine e \<longleftrightarrow> e \<notin> set out_of_fuel"

definition upholds :: "('s \<Rightarrow> bool) \<Rightarrow> ('s, 'a) eff \<Rightarrow> ('a \<Rightarrow> bool) \<Rightarrow> bool" where
  "upholds I m Q \<longleftrightarrow> (\<forall>s. I s \<longrightarrow>
     I (snd (m s)) \<and> (case fst (m s) of Inr v \<Rightarrow> Q v | Inl e \<Rightarrow> fine e))"

abbreviation anything :: "'a \<Rightarrow> bool" where
  "anything \<equiv> \<lambda>_. True"

lemma fine_simps [simp]: "fine (VmError e)"
  "fine (JsError m) \<longleftrightarrow> m \<noteq> ''out of steps'' \<and> m \<noteq> ''messages nested too deep''"
  by (auto simp: fine_def out_of_fuel_def)

lemma upholdsD:
  assumes "upholds I m Q" "I s"
  shows "I (snd (m s))" "m s = (Inr v, t) \<Longrightarrow> Q v \<and> I t" "m s = (Inl e, t) \<Longrightarrow> fine e \<and> I t"
  using assms unfolding upholds_def by fastforce+

lemma upholdsI:
  "(\<And>s. I s \<Longrightarrow> I (snd (m s))) \<Longrightarrow> (\<And>s v t. I s \<Longrightarrow> m s = (Inr v, t) \<Longrightarrow> Q v) \<Longrightarrow>
     (\<And>s e t. I s \<Longrightarrow> m s = (Inl e, t) \<Longrightarrow> fine e) \<Longrightarrow> upholds I m Q"
  unfolding upholds_def by (auto split: sum.split) (metis prod.collapse)+

lemma upholds_weaken: "upholds I m P \<Longrightarrow> (\<And>x. P x \<Longrightarrow> Q x) \<Longrightarrow> upholds I m Q"
  unfolding upholds_def by (fastforce split: sum.splits)

lemma upholds_bnd:
  assumes m: "upholds I m P" and k: "\<And>x. P x \<Longrightarrow> upholds I (k x) Q"
  shows "upholds I (bnd m k) Q"
  unfolding upholds_def
proof (intro allI impI)
  fix s assume s: "I s"
  obtain r t where r: "m s = (r, t)" by force
  show "I (snd (bnd m k s)) \<and> (case fst (bnd m k s) of Inr v \<Rightarrow> Q v | Inl e \<Rightarrow> fine e)"
  proof (cases r)
    case (Inl e)
    with upholdsD(3) [OF m s] r show ?thesis by (simp add: bnd_def)
  next
    case (Inr x)
    with upholdsD(2) [OF m s] r have "P x" "I t" by auto
    with k [of x] show ?thesis using r Inr by (simp add: bnd_def upholds_def)
  qed
qed

lemma upholds_bnd_gets: "(\<And>s. I s \<Longrightarrow> upholds I (k (f s)) Q) \<Longrightarrow> upholds I (bnd (gets f) k) Q"
  by (simp add: upholds_def bnd_def gets_def)

lemma upholds_bnd_of_sum:
  "(\<And>e. r = Inl e \<Longrightarrow> fine e) \<Longrightarrow> (\<And>v. r = Inr v \<Longrightarrow> upholds I (k v) Q) \<Longrightarrow>
     upholds I (bnd (of_sum r) k) Q"
  by (cases r) (simp_all add: upholds_def bnd_def of_sum_def)

lemma upholds_andthen: "upholds I m P \<Longrightarrow> upholds I n Q \<Longrightarrow> upholds I (andthen m n) Q"
  unfolding andthen_def by (rule upholds_bnd)

lemma upholds_basic:
  "Q x \<Longrightarrow> upholds I (ret x) Q"
  "fine e \<Longrightarrow> upholds I (raise e) Q"
  "upholds I (trap v) Q"
  "(\<And>s. I s \<Longrightarrow> Q (f s)) \<Longrightarrow> upholds I (gets f) Q"
  "(\<And>e. r = Inl e \<Longrightarrow> fine e) \<Longrightarrow> (\<And>v. r = Inr v \<Longrightarrow> Q v) \<Longrightarrow> upholds I (of_sum r) Q"
  "fine e \<Longrightarrow> upholds I (guard_eff b e) anything"
  by (auto simp: upholds_def eff_defs split: sum.split)

lemma upholds_modif: "(\<And>s. I s \<Longrightarrow> I (f s)) \<Longrightarrow> upholds I (modif f) anything"
  by (simp add: upholds_def modif_def)

lemma upholds_when: "(b \<Longrightarrow> upholds I m anything) \<Longrightarrow> upholds I (when_eff b m) anything"
  by (simp add: when_eff_def upholds_basic)

lemma upholds_split:
  "(b \<Longrightarrow> upholds I m Q) \<Longrightarrow> (\<not> b \<Longrightarrow> upholds I n Q) \<Longrightarrow> upholds I (if b then m else n) Q"
  "(l = None \<Longrightarrow> upholds I m Q) \<Longrightarrow> (\<And>x. l = Some x \<Longrightarrow> upholds I (k x) Q) \<Longrightarrow>
     upholds I (case l of None \<Rightarrow> m | Some x \<Rightarrow> k x) Q"
  "(xs = [] \<Longrightarrow> upholds I m Q) \<Longrightarrow> (\<And>y ys. xs = y # ys \<Longrightarrow> upholds I (c y ys) Q) \<Longrightarrow>
     upholds I (case xs of [] \<Rightarrow> m | y # ys \<Rightarrow> c y ys) Q"
  "(\<And>x y. p = (x, y) \<Longrightarrow> upholds I (h x y) Q) \<Longrightarrow> upholds I (case p of (x, y) \<Rightarrow> h x y) Q"
  by (auto split: option.split list.split prod.split)

lemma upholds_zoom:
  assumes "upholds J m Q" "\<And>s. I s \<Longrightarrow> J (g s)" "\<And>s t. I s \<Longrightarrow> J t \<Longrightarrow> I (p t s)"
  shows "upholds I (zoom g p m) Q"
  using assms unfolding upholds_def zoom_def by (fastforce split: prod.splits)

lemmas upholds_first = upholds_bnd_gets upholds_bnd_of_sum upholds_when
lemmas upholds_rules = upholds_bnd upholds_andthen upholds_basic upholds_split

section \<open>The world\<close>

text \<open>An account that is read was written by \<open>acc_raw\<close> or checked by the constructor: it has no negative field.\<close>

lemma toNumber_fine: "toNumber x = Inl e \<Longrightarrow> fine e"
  by (auto simp: toNumber_def split: if_splits)

lemma toArrayLike_fine: "toArrayLike x n = Inl e \<Longrightarrow> fine e"
  by (auto simp: toArrayLike_def Let_def split: if_splits)

lemma fromValuesArray_fine: "fromValuesArray vs = Inl e \<Longrightarrow> fine e"
  by (auto simp: fromValuesArray_def acc_validate_def split: if_splits)

lemma storage_content_fine: "storage_content db r = Inl e \<Longrightarrow> fine e"
  by (auto simp: storage_content_def split: if_splits option.splits)

lemma bindS_fine:
  "bindS r k = Inl e \<Longrightarrow> (\<And>e. r = Inl e \<Longrightarrow> fine e) \<Longrightarrow> (\<And>v e. k v = Inl e \<Longrightarrow> fine e) \<Longrightarrow> fine e"
  by (cases r) auto

lemma getDataSlice_fine: "getDataSlice d i n = Inl e \<Longrightarrow> fine e"
  unfolding getDataSlice_def Let_def
  by (elim bindS_fine) (auto elim: toNumber_fine bindS_fine)

lemma to_arrays_fine: "to_arrays vs = Inl e \<Longrightarrow> fine e"
  by (induction vs arbitrary: e) (auto elim!: bindS_fine elim: toArrayLike_fine)

lemma check_message_fine: "check_message m = Inl e \<Longrightarrow> fine e"
  by (auto simp: check_message_def split: if_splits)

lemma cache_lookup_fine:
  "upholds anything (cache_lookup a) (\<lambda>r. \<forall>x v. r = Some (x, v) \<longrightarrow> 0 \<le> acc_balance x)"
  unfolding cache_lookup_def
  by (rule upholds_first upholds_rules | erule fromValuesArray_fine | simp)+
    (auto dest: fromValuesArray_wf)

lemma getCb_fine: "getCb t a = Inl e \<Longrightarrow> fine e"
  by (cases "t a", simp add: getCb_def, cases "fromValuesArray (the (t a))")
    (auto simp: getCb_def dest: fromValuesArray_fine)

lemma getCb_balance: "getCb t a = Inr (Some x) \<Longrightarrow> 0 \<le> acc_balance x"
  by (cases "t a", simp add: getCb_def, cases "fromValuesArray (the (t a))")
    (auto simp: getCb_def dest: fromValuesArray_wf)

lemma upholds_part: "upholds anything m Q \<Longrightarrow> upholds anything (zoom g p m) Q"
  by (rule upholds_zoom) simp_all

lemma upholds_plain: "upholds anything (modif f) anything"
  by (rule upholds_modif) simp

lemma upholds_gets_plain: "upholds anything (gets f) anything"
  by (rule upholds_basic) simp

named_theorems world \<open>effects on the world that uphold no invariant but throw nothing out of fuel\<close>

declare upholds_plain [world]

lemma cache_getOrLoad_fine:
  "upholds anything (cache_getOrLoad t a) (\<lambda>x. 0 \<le> acc_balance x)"
  unfolding cache_getOrLoad_def cache_update_def
  by (rule upholds_bnd [OF cache_lookup_fine])
    ((rule upholds_first world upholds_rules | simp add: getCb_fine getCb_balance new_account_def)+)

lemma sm_getAccount_fine [world]:
  "upholds anything (sm_getAccount a) (\<lambda>x. 0 \<le> acc_balance x)"
  unfolding sm_getAccount_def
  by (rule upholds_first upholds_part cache_getOrLoad_fine)+

lemma cache_get_fine: "upholds anything (cache_get a) anything"
  unfolding cache_get_def by (rule upholds_bnd [OF cache_lookup_fine]) (auto intro!: upholds_rules)

lemma writes_fine [world]:
  "upholds anything (sm_touchAccount a) anything" "upholds anything (sm_putAccount a x) anything"
  "upholds anything (sm_deleteAccount a) anything"
  "upholds anything (on_trie (db_put k v)) anything" "upholds anything (on_trie (db_get k)) anything"
  "upholds anything (upd_top f) anything"
  unfolding sm_touchAccount_def sm_putAccount_def sm_deleteAccount_def cache_put_def cache_update_def
    cache_del_def db_put_def db_get_def upd_top_def Let_def
  by (rule upholds_first world upholds_part upholds_rules | simp)+

lemma warm_fine [world]:
  "upholds anything (addWarmedAddress a) anything" "upholds anything (addWarmedStorage a k) anything"
  unfolding addWarmedAddress_def addWarmedStorage_def by (rule world)+

lemma storage_read_fine [world]: "upholds anything (storage_read r) anything"
  unfolding storage_read_def by (rule upholds_first world upholds_rules | erule storage_content_fine | simp)+

lemma storage_write_fine [world]: "upholds anything (storage_write vm c) anything"
  unfolding storage_write_def Let_def by (rule world upholds_rules | simp)+

lemma storage_fine [world]:
  "upholds anything (storage_put vm k v r) anything" "upholds anything (sm_getStorageTrie a) anything"
  unfolding storage_put_def sm_getStorageTrie_def sm_lookupStorageTrie_def
  by (rule upholds_first world upholds_rules | simp)+

lemma modifyContractStorage_fine [world]:
  "(\<And>r. upholds anything (f r) anything) \<Longrightarrow> upholds anything (sm_modifyContractStorage a f) anything"
  unfolding sm_modifyContractStorage_def
  by (rule upholds_bnd [OF storage_fine(2)], rule upholds_bnd, assumption)
    (rule upholds_first world upholds_andthen upholds_bnd [OF upholds_part [OF cache_get_fine]])+

lemma code_fine [world]:
  "upholds anything (sm_putContractCode vm a c) anything"
  "upholds anything (sm_getContractCode a) anything"
  "upholds anything (sm_getContractStorage a k) anything"
  "upholds anything (sm_putContractStorage vm a k v) anything"
  "upholds anything (sm_clearContractStorage a) anything"
  "upholds anything (sm_accountIsEmpty a) anything"
  unfolding sm_putContractCode_def sm_getContractCode_def sm_getContractStorage_def
    sm_putContractStorage_def sm_clearContractStorage_def sm_accountIsEmpty_def Let_def
  by (rule upholds_first world upholds_rules | simp)+

lemma accountExists_fine [world]: "upholds anything (sm_accountExists a) anything"
  unfolding sm_accountExists_def cache_keyIsDeleted_def
  by (rule upholds_bnd [OF upholds_part [OF cache_lookup_fine]],
      rule upholds_bnd [OF upholds_part [OF upholds_gets_plain]]) (rule upholds_rules | simp)+

lemma originalStorage_fine [world]: "upholds anything (sm_getOriginalContractStorage a k) anything"
  unfolding sm_getOriginalContractStorage_def
  by (rule upholds_first world upholds_rules | simp)+

lemma transient_fine [world]: "upholds anything (ts_put a k v) anything"
  unfolding ts_put_def by (rule upholds_first world upholds_rules | simp)+

section \<open>The interface\<close>

definition header_fine :: "header \<Rightarrow> bool" where
  "header_fine h \<longleftrightarrow> 0 \<le> h_number h \<and> 0 \<le> h_timestamp h \<and> 0 \<le> h_difficulty h \<and>
     0 \<le> h_gasLimit h \<and> (\<forall>f. h_baseFeePerGas h = Some f \<longrightarrow> 0 \<le> f)"

definition env_fine :: "nat \<Rightarrow> env \<Rightarrow> bool" where
  "env_fine d e \<longleftrightarrow> env_depth e = d \<and> 0 \<le> env_callValue e \<and> 0 \<le> env_gasPrice e \<and>
     0 \<le> acc_balance (env_contract e) \<and> header_fine (env_block e) \<and>
     (\<forall>n x. env_blockHash e n = Inl x \<longrightarrow> fine x)"

definition eei_fine :: "nat \<Rightarrow> int set \<Rightarrow> eei \<Rightarrow> bool" where
  "eei_fine d A e \<longleftrightarrow> env_fine d (ei_env e) \<and> ei_gasLeft e \<in> A"

named_theorems interface \<open>operations of the interface on a fine frame\<close>

lemma upholds_world [interface]:
  "upholds anything m Q \<Longrightarrow> upholds (eei_fine d A) (on_evm m) Q"
  "upholds anything n Q \<Longrightarrow> upholds anything (on_state n) Q"
  "upholds anything k Q \<Longrightarrow> upholds anything (on_transient k) Q"
  by (rule upholds_zoom; simp add: eei_fine_def)+

lemma useGas_fine [interface]:
  "0 \<le> n \<Longrightarrow> upholds (eei_fine d {0..g}) (useGas n) anything"
  by (auto simp: upholds_def useGas_result eei_fine_def)

lemma eei_plain [interface]:
  "upholds (eei_fine d A) (modif (\<lambda>e. e\<lparr>ei_result := f e\<rparr>)) anything"
  "upholds (eei_fine d A) (modif (\<lambda>e. e\<lparr>ei_lastReturned := b\<rparr>)) anything"
  by (rule upholds_modif, simp add: eei_fine_def)+

lemma refund_fine [interface]:
  "upholds (eei_fine d A) (refundGas n) anything" "upholds (eei_fine d A) (subRefund n) anything"
  unfolding refundGas_def subRefund_def
  by (rule interface upholds_first world upholds_rules | simp)+

lemma readings_fine [interface]:
  "upholds (eei_fine d A) (getExternalBalance a) (\<lambda>v. 0 \<le> v)"
  "upholds (eei_fine d A) (getExternalCode x) anything"
  "upholds (eei_fine d A) (getExternalCodeSize x) (\<lambda>v. 0 \<le> v)"
  "upholds (eei_fine d A) getBlockBaseFee (\<lambda>v. 0 \<le> v)"
  "upholds (eei_fine d A) (getBlockHash x) (\<lambda>v. 0 \<le> v)"
  "upholds (eei_fine d A) (isAccountEmpty a) anything"
  "upholds (eei_fine d A) (accountExists a) anything"
  unfolding getExternalBalance_def getExternalCode_def getExternalCodeSize_def getBlockBaseFee_def
    getBlockHash_def isAccountEmpty_def accountExists_def
  by (rule upholds_first interface world upholds_rules |
      simp add: eei_fine_def env_fine_def header_fine_def)+

lemma contract_fine [interface]:
  "0 \<le> acc_balance x \<Longrightarrow>
     upholds (eei_fine d A) (modif (\<lambda>e. e\<lparr>ei_env := (ei_env e)\<lparr>env_contract := x\<rparr>\<rparr>)) anything"
  "upholds (eei_fine d A) (modif (\<lambda>e. e\<lparr>ei_env := (ei_env e)\<lparr>env_contract :=
     (env_contract (ei_env e))\<lparr>acc_nonce := n e\<rparr>\<rparr>\<rparr>)) anything"
  by (rule upholds_modif, simp add: eei_fine_def env_fine_def)+

lemma writings_fine [interface]:
  "upholds (eei_fine d A) refresh_contract anything"
  "upholds (eei_fine d A) create_increment anything"
  "upholds (eei_fine d A) (storageLoad k b) anything"
  "upholds (eei_fine d A) (storageStore vm k v) anything"
  "upholds (eei_fine d A) (transientStorageStore k v) anything"
  "upholds (eei_fine d A) (finish bs) anything" "upholds (eei_fine d A) (eei_revert bs) anything"
  "upholds (eei_fine d A) (eei_log bs n ts) anything"
  "upholds (eei_fine d A) (append_logs q) anything"
  "upholds (eei_fine d A) (set_lastReturned bs) anything"
  "upholds (eei_fine d A) (merge_selfdestruct sd) anything"
  unfolding refresh_contract_def create_increment_def storageLoad_def storageStore_def
    transientStorageStore_def finish_def eei_revert_def eei_log_def append_logs_def
    set_lastReturned_def merge_selfdestruct_def Let_def
  by (rule upholds_first interface world upholds_rules | simp)+

lemma selfDestruct_fine [interface]: "upholds (eei_fine d A) (selfDestruct vm a) anything"
  unfolding selfDestruct_def Let_def
  by (rule upholds_first interface world upholds_rules | simp)+

text \<open>What a frame at depth \<open>d\<close> may rely on when it sends a message with at most \<open>M\<close> gas.\<close>

definition exec_fair :: "vm \<Rightarrow> exec \<Rightarrow> nat \<Rightarrow> int \<Rightarrow> bool" where
  "exec_fair vm exec d M \<longleftrightarrow> (int d < vm_param vm ''vm'' ''stackLimit'' \<longrightarrow>
     (\<forall>m. m_depth m = Suc d \<and> 0 \<le> m_value m \<and> 0 \<le> m_gasLimit m \<and> m_gasLimit m \<le> M \<longrightarrow>
        upholds anything (exec m) (\<lambda>(r, sd). 0 \<le> g_gasUsed r)))"

lemma exec_fair_on:
  assumes "exec_fair vm exec d M" "\<not> vm_param vm ''vm'' ''stackLimit'' \<le> int d" "m_depth m = Suc d"
    "0 \<le> m_value m" "0 \<le> m_gasLimit m" "m_gasLimit m \<le> M"
  shows "upholds (eei_fine d A) (on_evm (exec m)) (\<lambda>(r, sd). 0 \<le> g_gasUsed r)"
  using assms by (intro upholds_world) (simp add: exec_fair_def)

lemma check_message_ok: "check_message m = Inr m' \<Longrightarrow> m' = m \<and> 0 \<le> m_value m"
  by (auto simp: check_message_def split: if_splits)

lemma getReturnCode_nonneg: "0 \<le> getReturnCode r"
  by (simp add: getReturnCode_def split: option.split)

lemma depth_fine: "eei_fine d A e \<Longrightarrow> env_depth (ei_env e) = d"
  by (simp add: eei_fine_def env_fine_def)

lemma baseCall_fine [interface]:
  assumes "exec_fair vm exec d M" "m_depth m = Suc d" "0 \<le> m_gasLimit m" "m_gasLimit m \<le> M"
  shows "upholds (eei_fine d {0..g}) (baseCall vm exec m) (\<lambda>v. 0 \<le> v)"
  unfolding baseCall_def Let_def
proof (rule upholds_bnd_of_sum, erule check_message_fine, rule upholds_bnd_gets, rule upholds_andthen,
    rule interface, rule upholds_split)
  fix m' e
  assume m': "check_message m = Inr m'" and e: "eei_fine d {0..g} e"
  let ?m = "m'\<lparr>m_selfdestruct := Some (rr_selfdestruct (ei_result (id e)))\<rparr>"
  show "upholds (eei_fine d {0..g}) (ret 0) (\<lambda>v :: int. 0 \<le> v)"
    by (simp add: upholds_basic)
  assume "\<not> (vm_param vm ''vm'' ''stackLimit'' \<le> int (env_depth (ei_env (id e))) \<or>
    \<not> m_delegatecall ?m \<and> getSelfBalance (id e) < m_value ?m)"
  then have "upholds (eei_fine d {0..g}) (on_evm (exec ?m)) (\<lambda>(r, sd). 0 \<le> g_gasUsed r)"
    using check_message_ok [OF m'] assms depth_fine [OF e] by (intro exec_fair_on) auto
  then show "upholds (eei_fine d {0..g}) (bnd (on_evm (exec ?m)) (\<lambda>(results, selfdestruct).
      andthen (append_logs results) (andthen (useGas (g_gasUsed results))
        (andthen (when_eff (x_exceptionError (g_execResult results) = None \<or>
            x_exceptionError (g_execResult results) = Some REVERT)
          (set_lastReturned (x_returnValue (g_execResult results))))
        (andthen (when_eff (x_exceptionError (g_execResult results) = None)
            (andthen (merge_selfdestruct selfdestruct) refresh_contract))
          (ret (getReturnCode results))))))) (\<lambda>v. 0 \<le> v)"
    by (rule upholds_bnd)
      ((rule upholds_first interface upholds_rules | simp add: getReturnCode_nonneg | assumption)+)
qed

lemma calls_fine [interface]:
  assumes "exec_fair vm exec d M" "0 \<le> gl" "gl \<le> M"
  shows "upholds (eei_fine d {0..g}) (eei_call vm exec gl a v b) (\<lambda>v. 0 \<le> v)"
    "upholds (eei_fine d {0..g}) (eei_callCode vm exec gl a v b) (\<lambda>v. 0 \<le> v)"
    "upholds (eei_fine d {0..g}) (eei_callStatic vm exec gl a v b) (\<lambda>v. 0 \<le> v)"
    "upholds (eei_fine d {0..g}) (eei_callDelegate vm exec gl a v b) (\<lambda>v. 0 \<le> v)"
  unfolding eei_call_def eei_callCode_def eei_callStatic_def eei_callDelegate_def
  using assms by (auto intro!: upholds_bnd_gets baseCall_fine simp: depth_fine new_message_def)

lemma create_fine:
  assumes "exec_fair vm exec d M" "0 \<le> gl" "gl \<le> M"
  shows "upholds (eei_fine d {0..g}) (eei_create vm exec gl v b t) (\<lambda>v. 0 \<le> v)"
  unfolding eei_create_def Let_def
proof (rule upholds_bnd_gets, rule upholds_bnd_of_sum, erule check_message_fine, rule upholds_andthen,
    rule interface, rule upholds_split, goal_cases)
  case (2 e m)
  then have "m_depth m = Suc d" "0 \<le> m_value m" "m_gasLimit m = gl"
    using check_message_ok [OF 2(2)] depth_fine [OF 2(1)] by (auto simp: new_message_def)
  then have ex: "upholds (eei_fine d {0..g}) (on_evm (exec m)) (\<lambda>(r, sd). 0 \<le> g_gasUsed r)"
    using 2 assms depth_fine [OF 2(1)] by (intro exec_fair_on) auto
  show ?case
    by ((rule ex upholds_first interface upholds_rules | simp add: getReturnCode_nonneg | assumption)+)
qed (simp add: upholds_basic)

lemma creates_fine [interface]:
  assumes "exec_fair vm exec d M" "0 \<le> gl" "gl \<le> M"
  shows "upholds (eei_fine d {0..g}) (eei_create vm exec gl v b t) (\<lambda>v. 0 \<le> v)"
    "upholds (eei_fine d {0..g}) (eei_create2 vm exec gl v b s) (\<lambda>v. 0 \<le> v)"
  using assms unfolding eei_create2_def by (auto intro: create_fine)

section \<open>The frame\<close>

definition frame_fine :: "int \<Rightarrow> nat \<Rightarrow> int set \<Rightarrow> run_state \<Rightarrow> bool" where
  "frame_fine M d A rs \<longleftrightarrow> eei_fine d A (rs_eei rs) \<and>
     (\<forall>v \<in> set (store (rs_stack rs)). 0 \<le> v \<and> v \<le> MAX_INTEGER) \<and> 0 \<le> memoryWordCount rs \<and>
     (\<forall>gl. messageGasLimit rs = Some gl \<longrightarrow> 0 \<le> gl \<and> gl \<le> M)"

definition operands :: "nat \<Rightarrow> int list \<Rightarrow> bool" where
  "operands n vs \<longleftrightarrow> length vs = n \<and> (\<forall>v \<in> set vs. 0 \<le> v \<and> v \<le> MAX_INTEGER)"

lemma operands_nth: "operands n vs \<Longrightarrow> i < n \<Longrightarrow> 0 \<le> vs ! i \<and> vs ! i \<le> MAX_INTEGER"
  by (simp add: operands_def)

named_theorems frame \<open>operations on a fine frame\<close>

lemma on_eei_fine [frame]:
  "upholds (eei_fine d A) m Q \<Longrightarrow> upholds (frame_fine M d A) (on_eei m) Q"
  by (rule upholds_zoom) (simp_all add: frame_fine_def)

lemma on_stack_fine:
  assumes "\<And>st. \<forall>v \<in> set (store st). 0 \<le> v \<and> v \<le> MAX_INTEGER \<Longrightarrow>
      \<forall>v \<in> set (store (snd (m st))). 0 \<le> v \<and> v \<le> MAX_INTEGER"
    and "\<And>st v t. \<forall>v \<in> set (store st). 0 \<le> v \<and> v \<le> MAX_INTEGER \<Longrightarrow> m st = (Inr v, t) \<Longrightarrow> Q v"
    and "\<And>st e t. m st = (Inl e, t) \<Longrightarrow> fine e"
  shows "upholds (frame_fine M d A) (on_stack m) Q"
proof (rule upholds_zoom)
  show "upholds (\<lambda>st. \<forall>v \<in> set (store st). 0 \<le> v \<and> v \<le> MAX_INTEGER) m Q"
    using assms by (rule upholdsI)
qed (simp_all add: frame_fine_def)

lemma stack_fine [frame]:
  "0 \<le> v \<Longrightarrow> upholds (frame_fine M d A) (push v) anything"
  "upholds (frame_fine M d A) pop (\<lambda>v. 0 \<le> v \<and> v \<le> MAX_INTEGER)"
  "upholds (frame_fine M d A) (pops n) (operands n)"
  "upholds (frame_fine M d A) (peeks n) (operands n)"
  unfolding push_def pop_def pops_def peeks_def
  by (rule on_stack_fine; auto simp: stack_push_result stack_popN_result stack_peek_result stack_pop_popN
      stack_view_def operands_def eff_defs hd_rev split: if_splits dest: in_set_takeD)+

lemma swap_fine [frame]: "upholds (frame_fine M d A) (on_stack (stack_swap n)) anything"
  by (rule on_stack_fine) (auto simp: stack_swap_def eff_defs Let_def set_swap split: if_splits)

lemma dup_fine:
  assumes "0 < n" shows "upholds (frame_fine M d A) (on_stack (stack_dup n)) anything"
  using assms by (intro on_stack_fine)
    (auto simp: stack_dup_def stack_push_result eff_defs Let_def split: if_splits)

lemma memory_fine [frame]:
  "upholds (frame_fine M d A) (on_memory (mem_write i n b)) anything"
  "upholds (frame_fine M d A) (on_memory (mem_read i n)) anything"
  by (rule upholds_zoom [where J = anything]; auto simp: upholds_def mem_write_def mem_read_def eff_defs frame_fine_def)+

lemma trap_at_fine [frame]: "upholds (frame_fine M d A) (trap_at vm e) Q"
  unfolding trap_at_def by (rule upholds_first upholds_rules)+

lemma static_guard_fine [frame]: "upholds (frame_fine M d A) static_guard anything"
  unfolding static_guard_def by (rule upholds_first upholds_rules)+

lemma mem_operand_fine [frame]: "upholds (frame_fine M d A) (mem_operand i j) anything"
  unfolding mem_operand_def
  by (rule frame upholds_first upholds_rules | erule toNumber_fine | simp)+

lemma copy_fine [frame]: "upholds (frame_fine M d A) (copy_to_memory bs i j n) anything"
  unfolding copy_to_memory_def
  by (rule frame upholds_first upholds_rules | erule toNumber_fine getDataSlice_fine | simp)+

lemma writeCallOutput_fine [frame]: "upholds (frame_fine M d A) (writeCallOutput i j) anything"
  unfolding writeCallOutput_def Let_def
  by (rule frame upholds_first upholds_rules | erule toNumber_fine getDataSlice_fine | simp)+

lemma messageGasLimit_fine [frame]:
  "(\<And>x. l = Some x \<Longrightarrow> 0 \<le> x \<and> x \<le> M) \<Longrightarrow> upholds (frame_fine M d A) (set_messageGasLimit l) anything"
  "upholds (frame_fine M d A) take_messageGasLimit (\<lambda>gl. 0 \<le> gl \<and> gl \<le> M)"
proof -
  show *: "upholds (frame_fine M d A) (set_messageGasLimit l) anything"
    if "\<And>x. l = Some x \<Longrightarrow> 0 \<le> x \<and> x \<le> M" for l
    unfolding set_messageGasLimit_def using that by (intro upholds_modif) (auto simp: frame_fine_def)
  show "upholds (frame_fine M d A) take_messageGasLimit (\<lambda>gl. 0 \<le> gl \<and> gl \<le> M)"
    unfolding take_messageGasLimit_def
    by (rule upholds_first, rule upholds_andthen, rule *) (auto intro!: upholds_rules simp: frame_fine_def)
qed

section \<open>The handlers\<close>

lemma as_word:
  assumes "0 \<le> v" "v \<le> MAX_INTEGER" obtains x :: w256 where "v = uint x"
proof
  show "v = uint (word_of_int v :: w256)"
    using assms by (simp add: uint_w256_of_int MAX_INTEGER_def TWO_POW256_def)
qed

lemma unop_fine: "(\<And>x :: w256. 0 \<le> f (uint x)) \<Longrightarrow> upholds (frame_fine M d A) (unop f) anything"
  unfolding unop_def
  by (rule upholds_bnd [OF stack_fine(2)], rule stack_fine) (metis as_word)

lemma binop_fine:
  assumes "\<And>(x :: w256) (y :: w256). 0 \<le> f (uint x) (uint y)"
  shows "upholds (frame_fine M d A) (binop f) anything"
  unfolding binop_def
proof (rule upholds_bnd [OF stack_fine(3)], rule stack_fine)
  fix vs assume vs: "operands 2 vs"
  obtain x y :: w256 where "vs ! 0 = uint x" "vs ! 1 = uint y"
    using operands_nth [OF vs] as_word by (metis one_less_numeral_iff semiring_norm(76) zero_less_numeral)
  then show "0 \<le> f (vs ! 0) (vs ! 1)" using assms by simp
qed

lemma ternop_fine:
  assumes "\<And>(x :: w256) (y :: w256) (z :: w256). 0 \<le> f (uint x) (uint y) (uint z)"
  shows "upholds (frame_fine M d A) (ternop f) anything"
  unfolding ternop_def
proof (rule upholds_bnd [OF stack_fine(3)], rule stack_fine)
  fix vs assume vs: "operands 3 vs"
  obtain x y z :: w256 where "vs ! 0 = uint x" "vs ! 1 = uint y" "vs ! 2 = uint z"
    using operands_nth [OF vs, of 0] operands_nth [OF vs, of 1] operands_nth [OF vs, of 2]
    by simp (metis as_word)
  then show "0 \<le> f (vs ! 0) (vs ! 1) (vs ! 2)" using assms by simp
qed

lemma alu_nonneg:
  "0 \<le> alu_addmod (uint (x :: w256)) (uint (y :: w256)) (uint (z :: w256))"
  "0 \<le> alu_mulmod (uint x) (uint y) (uint z)" "0 \<le> alu_signextend (uint x) (uint y)"
  "0 \<le> alu_byte (uint x) (uint y)"
proof -
  have "uint z \<noteq> 0 \<Longrightarrow> 0 \<le> n mod uint z" for n
    by (rule pos_mod_sign) (simp add: less_le)
  then show "0 \<le> alu_addmod (uint x) (uint y) (uint z)" "0 \<le> alu_mulmod (uint x) (uint y) (uint z)"
    by (simp_all add: alu_addmod_def alu_mulmod_def)
qed (simp_all only: alu_signextend_word alu_byte_word uint_ge_0, simp)

lemma alu_fine:
  "upholds (frame_fine M d A) op_STOP anything"
  "upholds (frame_fine M d A) op_ADD anything" "upholds (frame_fine M d A) op_MUL anything"
  "upholds (frame_fine M d A) op_SUB anything" "upholds (frame_fine M d A) op_DIV anything"
  "upholds (frame_fine M d A) op_SDIV anything" "upholds (frame_fine M d A) op_MOD anything"
  "upholds (frame_fine M d A) op_SMOD anything" "upholds (frame_fine M d A) op_ADDMOD anything"
  "upholds (frame_fine M d A) op_MULMOD anything" "upholds (frame_fine M d A) op_SIGNEXTEND anything"
  "upholds (frame_fine M d A) op_LT anything" "upholds (frame_fine M d A) op_GT anything"
  "upholds (frame_fine M d A) op_SLT anything" "upholds (frame_fine M d A) op_SGT anything"
  "upholds (frame_fine M d A) op_EQ anything" "upholds (frame_fine M d A) op_ISZERO anything"
  "upholds (frame_fine M d A) op_AND anything" "upholds (frame_fine M d A) op_OR anything"
  "upholds (frame_fine M d A) op_XOR anything" "upholds (frame_fine M d A) op_NOT anything"
  "upholds (frame_fine M d A) op_BYTE anything" "upholds (frame_fine M d A) op_SHL anything"
  "upholds (frame_fine M d A) op_SHR anything" "upholds (frame_fine M d A) op_SAR anything"
  unfolding op_STOP_def op_ADD_def op_MUL_def op_SUB_def op_DIV_def op_SDIV_def op_MOD_def op_SMOD_def
    op_ADDMOD_def op_MULMOD_def op_SIGNEXTEND_def op_LT_def op_GT_def op_SLT_def op_SGT_def
    op_EQ_def op_ISZERO_def op_AND_def op_OR_def op_XOR_def op_NOT_def op_BYTE_def op_SHL_def
    op_SHR_def op_SAR_def
  by (rule upholds_basic(3) | rule unop_fine binop_fine ternop_fine, simp add: alu_word alu_nonneg)+

lemmas readings_def = getAddress_def getSelfBalance_def getCaller_def getCallValue_def getCallDataSize_def
  getCodeSize_def getReturnDataSize_def getTxGasPrice_def getTxOrigin_def getBlockNumber_def
  getBlockCoinbase_def getBlockTimestamp_def getBlockDifficulty_def getBlockPrevRandao_def
  getBlockGasLimit_def

lemmas frame_defs = frame_fine_def eei_fine_def env_fine_def header_fine_def

lemma env_ops_fine:
  "upholds (frame_fine M d A) op_ADDRESS anything" "upholds (frame_fine M d A) op_BALANCE anything"
  "upholds (frame_fine M d A) op_ORIGIN anything" "upholds (frame_fine M d A) op_CALLER anything"
  "upholds (frame_fine M d A) op_CALLVALUE anything" "upholds (frame_fine M d A) op_CALLDATALOAD anything"
  "upholds (frame_fine M d A) op_CALLDATASIZE anything" "upholds (frame_fine M d A) op_CALLDATACOPY anything"
  "upholds (frame_fine M d A) op_CODESIZE anything" "upholds (frame_fine M d A) op_CODECOPY anything"
  "upholds (frame_fine M d A) op_EXTCODESIZE anything" "upholds (frame_fine M d A) op_EXTCODECOPY anything"
  "upholds (frame_fine M d A) op_RETURNDATASIZE anything"
  "upholds (frame_fine M d A) op_RETURNDATACOPY anything"
  "upholds (frame_fine M d A) op_GASPRICE anything" "upholds (frame_fine M d A) op_BLOCKHASH anything"
  "upholds (frame_fine M d A) op_TIMESTAMP anything" "upholds (frame_fine M d A) op_NUMBER anything"
  "upholds (frame_fine M d A) op_GASLIMIT anything" "upholds (frame_fine M d A) op_SELFBALANCE anything"
  "upholds (frame_fine M d A) op_BASEFEE anything" "upholds (frame_fine M d A) (op_SHA3 vm) anything"
  "upholds (frame_fine M d A) (op_EXTCODEHASH vm) anything"
  "upholds (frame_fine M d A) (op_COINBASE vm) anything"
  "upholds (frame_fine M d A) (op_DIFFICULTY vm) anything"
  "0 \<le> vm_chainId vm \<Longrightarrow> upholds (frame_fine M d A) (op_CHAINID vm) anything"
  unfolding op_ADDRESS_def op_BALANCE_def op_ORIGIN_def op_CALLER_def op_CALLVALUE_def
    op_CALLDATALOAD_def op_CALLDATASIZE_def op_CALLDATACOPY_def op_CODESIZE_def op_CODECOPY_def
    op_EXTCODESIZE_def op_EXTCODECOPY_def op_RETURNDATASIZE_def op_RETURNDATACOPY_def
    op_GASPRICE_def op_BLOCKHASH_def op_TIMESTAMP_def op_NUMBER_def op_GASLIMIT_def
    op_SELFBALANCE_def op_BASEFEE_def op_SHA3_def op_EXTCODEHASH_def op_COINBASE_def
    op_DIFFICULTY_def op_CHAINID_def push_read_def Let_def
  by (rule frame interface upholds_first upholds_rules | erule toNumber_fine |
      simp add: readings_def frame_defs)+

lemma store_ops_fine:
  "upholds (frame_fine M d A) op_POP anything" "upholds (frame_fine M d A) op_MLOAD anything"
  "upholds (frame_fine M d A) op_MSTORE anything" "upholds (frame_fine M d A) op_MSTORE8 anything"
  "upholds (frame_fine M d A) op_SLOAD anything" "upholds (frame_fine M d A) op_TLOAD anything"
  "upholds (frame_fine M d A) op_TSTORE anything"
  "upholds (frame_fine M d A) op_MSIZE anything" "upholds (frame_fine M d {0..g}) op_GAS anything"
  "upholds (frame_fine M d A) op_JUMPDEST anything" "upholds (frame_fine M d A) op_PUSH0 anything"
  "upholds (frame_fine M d A) op_SWAP anything" "upholds (frame_fine M d A) op_LOG anything"
  "upholds (frame_fine M d A) op_RETURN anything" "upholds (frame_fine M d A) op_REVERT anything"
  "upholds (frame_fine M d A) (op_SSTORE vm) anything"
  "upholds (frame_fine M d A) (op_SELFDESTRUCT vm) anything"
  "upholds (frame_fine M d A) (op_BEGINSUB vm) anything"
  unfolding op_POP_def op_MLOAD_def op_MSTORE_def op_MSTORE8_def op_SLOAD_def op_TLOAD_def op_TSTORE_def
    op_MSIZE_def op_GAS_def op_JUMPDEST_def op_PUSH0_def op_SWAP_def
    op_LOG_def op_RETURN_def op_REVERT_def op_SSTORE_def op_SELFDESTRUCT_def op_BEGINSUB_def
    push_read_def Let_def
  by (rule frame interface upholds_first upholds_rules |
      erule toNumber_fine toArrayLike_fine to_arrays_fine | simp add: readings_def frame_defs)+

section \<open>Prices\<close>

text \<open>
  What the prices of a fork have to be: none is negative, an opcode that can go on costs something,
  by its fee or (with EIP-2929, and for SSTORE) by its dynamic part, and the stipend of a call is
  paid for by its price. The forks come in order.
\<close>

definition nonneg_prices :: "string list" where
  "nonneg_prices = [''expByte'', ''memory'', ''quadCoeffDiv'', ''sha3Word'', ''copy'', ''logTopic'',
     ''logData'', ''initCodeWordCost'', ''callStipend'', ''callNewAccount'', ''createData'', ''ecRecover'',
     ''sha256'', ''sha256Word'', ''ripemd160'', ''ripemd160Word'', ''identity'', ''identityWord'',
     ''modexpGquaddivisor'', ''coldaccountaccess'', ''coldsload'', ''blake2Round'']"

definition access_prices :: "string list" where
  "access_prices = [''coldaccountaccess'', ''coldsload'', ''warmstorageread'']"

definition sstore_prices :: "vm \<Rightarrow> string list" where
  "sstore_prices vm =
     (if vm_hardfork vm = ''constantinople''
      then [''netSstoreNoopGas'', ''netSstoreInitGas'', ''netSstoreCleanGas'', ''netSstoreDirtyGas'']
      else if vm_gteHardfork vm ''istanbul''
      then [''sstoreNoopGasEIP2200'', ''sstoreInitGasEIP2200'', ''sstoreCleanGasEIP2200'',
        ''sstoreDirtyGasEIP2200'']
      else [''sstoreReset'', ''sstoreSet''])"

definition ending_ops :: "nat list" where
  "ending_ops = [0x00, 0xf3, 0xfd, 0xfe, 0xff]"

definition accessing_ops :: "nat list" where
  "accessing_ops = [0x31, 0x3b, 0x3c, 0x3f, 0x54, 0xf1, 0xf2, 0xf4, 0xfa]"

definition least_fee :: "vm \<Rightarrow> nat \<Rightarrow> int" where
  "least_fee vm op =
     (if op \<in> set ending_ops \<or> op = 0x55 \<or> (vm_isActivatedEIP vm 2929 \<and> op \<in> set accessing_ops)
      then 0 else 1)"

definition fair_prices :: "vm \<Rightarrow> bool" where
  "fair_prices vm \<longleftrightarrow>
     list_all (\<lambda>n. 0 \<le> gasPrice vm n) nonneg_prices \<and>
     (vm_isActivatedEIP vm 2929 \<longrightarrow> list_all (\<lambda>n. 1 \<le> gasPrice vm n) access_prices) \<and>
     list_all (\<lambda>n. 1 \<le> gasPrice vm n) (sstore_prices vm) \<and>
     gasPrice vm ''callStipend'' \<le> gasPrice vm ''callValueTransfer'' \<and>
     list_all (\<lambda>(op, e). least_fee vm op \<le> gasPrice vm (toLowerCase (oc_name e))) (opcodeBuilder vm) \<and>
     (vm_gteHardfork vm ''byzantium'' \<longrightarrow> vm_gteHardfork vm ''tangerineWhistle'') \<and>
     0 \<le> vm_chainId vm"

lemma fair_nonneg:
  assumes "fair_prices vm"
  shows "0 \<le> gasPrice vm ''expByte''" "0 \<le> gasPrice vm ''memory''" "0 \<le> gasPrice vm ''quadCoeffDiv''"
    "0 \<le> gasPrice vm ''sha3Word''" "0 \<le> gasPrice vm ''copy''" "0 \<le> gasPrice vm ''logTopic''"
    "0 \<le> gasPrice vm ''logData''" "0 \<le> gasPrice vm ''initCodeWordCost''"
    "0 \<le> gasPrice vm ''callStipend''" "0 \<le> gasPrice vm ''callNewAccount''"
    "0 \<le> gasPrice vm ''createData''" "0 \<le> gasPrice vm ''ecRecover''" "0 \<le> gasPrice vm ''sha256''"
    "0 \<le> gasPrice vm ''sha256Word''" "0 \<le> gasPrice vm ''ripemd160''"
    "0 \<le> gasPrice vm ''ripemd160Word''" "0 \<le> gasPrice vm ''identity''"
    "0 \<le> gasPrice vm ''identityWord''" "0 \<le> gasPrice vm ''modexpGquaddivisor''"
    "0 \<le> gasPrice vm ''coldaccountaccess''" "0 \<le> gasPrice vm ''coldsload''"
    "gasPrice vm ''callStipend'' \<le> gasPrice vm ''callValueTransfer''" "0 \<le> vm_chainId vm"
    "0 \<le> gasPrice vm ''blake2Round''"
  using assms by (simp_all add: fair_prices_def nonneg_prices_def)

lemma fair_access:
  assumes "fair_prices vm" "vm_isActivatedEIP vm 2929"
  shows "1 \<le> gasPrice vm ''coldaccountaccess''" "1 \<le> gasPrice vm ''coldsload''"
    "1 \<le> gasPrice vm ''warmstorageread''"
  using assms by (simp_all add: fair_prices_def access_prices_def)

lemma fair_fee:
  assumes "fair_prices vm" "getOpcodesForHF vm op = Some oi"
  shows "least_fee vm op \<le> oc_fee oi"
proof -
  obtain e where "map_of (opcodeBuilder vm) op = Some e" "oi = createOpcode vm op e"
    using assms(2) by (auto simp: getOpcodesForHF_def)
  then show ?thesis
    using assms(1) map_of_SomeD by (fastforce simp: fair_prices_def list_all_iff createOpcode_def)
qed

section \<open>Jumps, calls and the rest\<close>

lemma set_pc_fine [frame]: "upholds (frame_fine M d A) (set_pc n) anything"
  unfolding set_pc_def by (rule upholds_modif) (simp add: frame_fine_def)

lemma returnStack_fine [frame]:
  "upholds (frame_fine M d A) (on_returnStack stack_pop) anything"
  "upholds (frame_fine M d A) (on_returnStack (stack_push n)) anything"
  by (rule upholds_zoom [where J = anything];
      auto simp: upholds_def stack_pop_def stack_push_def eff_defs frame_fine_def)+

lemma jump_to_fine [frame]: "upholds (frame_fine M d A) (jump_to vm x) anything"
  unfolding jump_to_def by (rule frame upholds_first upholds_rules | erule toNumber_fine)+

lemma jumps_fine:
  "upholds (frame_fine M d A) (op_JUMP vm) anything" "upholds (frame_fine M d A) (op_JUMPI vm) anything"
  "upholds (frame_fine M d A) op_RETURNSUB anything" "upholds (frame_fine M d A) (op_JUMPSUB vm) anything"
  "upholds (frame_fine M d A) (op_PUSH vm) anything"
  unfolding op_JUMP_def op_JUMPI_def op_RETURNSUB_def op_JUMPSUB_def op_PUSH_def Let_def
  by (rule frame upholds_first upholds_rules | erule toNumber_fine | simp)+

lemma call_ops_fine:
  assumes "exec_fair vm exec d M"
  shows "upholds (frame_fine M d {0..g}) (op_CREATE vm exec) anything"
    "upholds (frame_fine M d {0..g}) (op_CREATE2 vm exec) anything"
    "upholds (frame_fine M d {0..g}) (op_CALL vm exec) anything"
    "upholds (frame_fine M d {0..g}) (op_CALLCODE vm exec) anything"
    "upholds (frame_fine M d {0..g}) (op_DELEGATECALL vm exec) anything"
    "upholds (frame_fine M d {0..g}) (op_STATICCALL vm exec) anything"
  unfolding op_CREATE_def op_CREATE2_def op_CALL_def op_CALLCODE_def op_DELEGATECALL_def op_STATICCALL_def
  by (rule frame interface assms upholds_first upholds_rules | erule toArrayLike_fine conjunct1 conjunct2 | assumption)+

lemma op_EXP_fine:
  assumes "fair_prices vm" shows "upholds (frame_fine M d {0..g}) (op_EXP vm) anything"
proof -
  have "0 \<le> alu_exp b e" for b e
    by (simp add: alu_exp_def pow_mod_eq)
  then show ?thesis
    unfolding op_EXP_def Let_def using fair_nonneg(1) [OF assms]
    by - ((rule frame interface upholds_rules | simp)+)
qed

text \<open>DUP reads its position from the opcode, and PC is read after the counter was moved on.\<close>

definition started :: "nat \<Rightarrow> run_state \<Rightarrow> bool" where
  "started op rs \<longleftrightarrow> opCode rs = op \<and> 0 < programCounter rs"

lemma upholds_at:
  "upholds I m Q \<Longrightarrow> I s \<Longrightarrow> I (snd (m s)) \<and> (case fst (m s) of Inr v \<Rightarrow> Q v | Inl e \<Rightarrow> fine e)"
  by (simp add: upholds_def)

lemma op_DUP_fine:
  assumes "frame_fine M d A rs" "0x80 \<le> opCode rs"
  shows "frame_fine M d A (snd (op_DUP rs)) \<and> (case fst (op_DUP rs) of Inr v \<Rightarrow> True | Inl e \<Rightarrow> fine e)"
  using upholds_at [OF dup_fine assms(1), of "opCode rs - 0x7f"] assms(2)
  by (simp add: op_DUP_def bnd_def gets_def)

lemma op_PC_fine:
  assumes "frame_fine M d A rs" "0 < programCounter rs"
  shows "frame_fine M d A (snd (op_PC rs)) \<and> (case fst (op_PC rs) of Inr v \<Rightarrow> True | Inl e \<Rightarrow> fine e)"
  using upholds_at [OF stack_fine(1) assms(1), of "int (programCounter rs) - 1"] assms(2)
  by (simp add: op_PC_def bnd_def gets_def)

lemma single_ops_fine:
  assumes "exec_fair vm exec d M" "fair_prices vm"
  shows "list_all (\<lambda>(op, h). upholds (frame_fine M d {0..g}) h anything \<or> h = op_PC) (single_ops vm exec)"
  unfolding single_ops_def list.pred_inject prod.case
  by (intro conjI TrueI) (rule disjI2 [OF refl] list.pred_inject(1) | rule disjI1,
    rule env_ops_fine(26) [OF fair_nonneg(23) [OF assms(2)]] alu_fine env_ops_fine(1-25) store_ops_fine
      jumps_fine call_ops_fine [OF assms(1)] op_EXP_fine [OF assms(2)])+

lemma handlers_fine:
  assumes "exec_fair vm exec d M" "fair_prices vm" "handlers vm exec op = Some h"
    and "started op rs" "frame_fine M d {0..g} rs"
  shows "frame_fine M d {0..g} (snd (h rs)) \<and> (case fst (h rs) of Inr v \<Rightarrow> True | Inl e \<Rightarrow> fine e)"
proof -
  have upheld: ?thesis if "upholds (frame_fine M d {0..g}) h anything"
    using upholds_at [OF that assms(5)] .
  show ?thesis
  proof (cases "0x60 \<le> op \<and> op \<le> 0xa4")
    case True
    then consider "h = op_PUSH vm" | "h = op_DUP" "0x80 \<le> op" | "h = op_SWAP" | "h = op_LOG"
      using assms(3) unfolding handlers_def by (auto split: if_splits)
    then show ?thesis
    proof cases
      case 2
      then show ?thesis using op_DUP_fine [OF assms(5)] assms(4) by (simp add: started_def)
    qed (use upheld jumps_fine(5) store_ops_fine(12,13) in blast)+
  next
    case False
    then have "(op, h) \<in> set (single_ops vm exec)"
      using assms(3) by (auto simp: handlers_def split: if_splits dest: map_of_SomeD)
    then have "upholds (frame_fine M d {0..g}) h anything \<or> h = op_PC"
      using single_ops_fine [OF assms(1,2)] by (auto simp: list_all_iff)
    then show ?thesis
    proof
      assume "h = op_PC"
      then show ?thesis using op_PC_fine [OF assms(5)] assms(4) by (simp add: started_def)
    qed (rule upheld)
  qed
qed

end
