(* ===== verification/Gas_Costs.thy ===== *)
theory Gas_Costs
  imports Frame_Gas
begin

text \<open>
  What a step costs: the dynamic part of every price is not negative, and positive where the fee of
  the opcode may be zero; a step that does not end the frame takes at least one unit of gas, also
  when a call with value gives the stipend.
\<close>

section \<open>Parts of prices\<close>

definition access_cost :: "vm \<Rightarrow> int" where
  "access_cost vm = (if vm_isActivatedEIP vm 2929 then 1 else 0)"

named_theorems costs \<open>lower bounds of prices\<close>

lemma memory_cost_fine:
  "upholds (frame_fine M d A) (modif (\<lambda>rs. rs\<lparr>highestMemCost := h rs, memoryWordCount := n\<rparr>)) anything"
  if "0 \<le> n"
  using that by (intro upholds_modif) (simp add: frame_fine_def)

lemma subMemUsage_cost [costs]:
  assumes "fair_prices vm"
  shows "upholds (frame_fine M d A) (subMemUsage vm i n) (\<lambda>v. 0 \<le> v)"
proof -
  have cost: "0 \<le> w * gasPrice vm ''memory'' + bn_div (w * w) (gasPrice vm ''quadCoeffDiv'')"
    if "0 \<le> w" for w
    using that fair_nonneg(2,3) [OF assms] by (simp add: div_int_pos_iff)
  show ?thesis
    unfolding subMemUsage_def Let_def
    by (rule upholds_split, simp add: upholds_basic, rule upholds_bnd_gets, rule upholds_split,
        simp add: upholds_basic, rule upholds_andthen, rule memory_cost_fine)
      (auto intro!: upholds_basic cost simp: frame_fine_def)
qed

lemma accessAddress_cost [costs]:
  assumes "fair_prices vm"
  shows "upholds (frame_fine M d A) (accessAddressEIP2929 vm a b c) (\<lambda>v. 0 \<le> v)"
    "upholds (frame_fine M d A) (accessAddressEIP2929 vm a True False) (\<lambda>v. access_cost vm \<le> v)"
  unfolding accessAddressEIP2929_def access_cost_def
  by (rule frame interface world upholds_first upholds_rules |
      simp add: fair_access(1,3) [OF assms] order_trans [OF zero_le_one fair_access(1) [OF assms]]
        order_trans [OF zero_le_one fair_access(3) [OF assms]])+

lemma accessStorage_cost [costs]:
  assumes "fair_prices vm"
  shows "upholds (frame_fine M d A) (accessStorageEIP2929 vm a b) (\<lambda>v. 0 \<le> v)"
    "upholds (frame_fine M d A) (accessStorageEIP2929 vm a False) (\<lambda>v. access_cost vm \<le> v)"
  unfolding accessStorageEIP2929_def access_cost_def
  by (rule frame interface world upholds_first upholds_rules |
      simp add: fair_access(2,3) [OF assms] order_trans [OF zero_le_one fair_access(2) [OF assms]]
        order_trans [OF zero_le_one fair_access(3) [OF assms]])+

lemma coldAccess_cost [costs]:
  assumes "fair_prices vm"
  shows "upholds (frame_fine M d A) (coldAccess vm x) (\<lambda>v. access_cost vm \<le> v)"
  unfolding coldAccess_def
  by (rule upholds_split accessAddress_cost(2) [OF assms] upholds_basic | simp add: access_cost_def)+

lemma warm_self_cost [costs]:
  assumes "fair_prices vm" shows "upholds (frame_fine M d A) (warm_self vm) (\<lambda>v. 0 \<le> v)"
  unfolding warm_self_def
  by (rule upholds_split upholds_bnd_gets accessAddress_cost(1) [OF assms] upholds_basic | simp)+

lemma sstore_parts_cost:
  assumes "fair_prices vm"
  shows "upholds (frame_fine M d A)
    (if vm_hardfork vm = ''constantinople'' then updateSstoreGasEIP1283 vm b1 b2 b3
     else if vm_gteHardfork vm ''istanbul'' then updateSstoreGasEIP2200 vm b1 b2 b3 k
     else updateSstoreGas vm b1 b3) (\<lambda>v. 1 \<le> v)"
proof -
  have p: "list_all (\<lambda>n. 1 \<le> gasPrice vm n) (sstore_prices vm)" using assms by (simp add: fair_prices_def)
  have "upholds (frame_fine M d A) (updateSstoreGasEIP1283 vm b1 b2 b3) (\<lambda>v. 1 \<le> v)"
    if "vm_hardfork vm = ''constantinople''"
    using p that unfolding updateSstoreGasEIP1283_def sstore_prices_def
    by - ((rule frame interface upholds_first upholds_rules | simp)+)
  moreover have "upholds (frame_fine M d A) (updateSstoreGasEIP2200 vm b1 b2 b3 k) (\<lambda>v. 1 \<le> v)"
    if "vm_hardfork vm \<noteq> ''constantinople''" "vm_gteHardfork vm ''istanbul''"
    using p that fair_access(3) [OF assms] unfolding updateSstoreGasEIP2200_def sstore_prices_def
    by - ((rule frame interface upholds_first upholds_rules | simp add: adjustSstoreGasEIP2929_def Let_def)+)
  moreover have "upholds (frame_fine M d A) (updateSstoreGas vm b1 b3) (\<lambda>v. 1 \<le> v)"
    if "vm_hardfork vm \<noteq> ''constantinople''" "\<not> vm_gteHardfork vm ''istanbul''"
    using p that unfolding updateSstoreGas_def sstore_prices_def
    by - ((rule frame interface upholds_first upholds_rules | simp)+)
  ultimately show ?thesis by simp
qed

lemma divCeil_cost [simp]: "0 \<le> a \<Longrightarrow> 0 \<le> divCeil a 32"
  by (rule divCeil_nonneg)

lemma copyCost_nonneg: "fair_prices vm \<Longrightarrow> 0 \<le> n \<Longrightarrow> 0 \<le> copyCost vm n"
  by (simp add: copyCost_def fair_nonneg)

lemma initCodeCost_nonneg: "fair_prices vm \<Longrightarrow> 0 \<le> n \<Longrightarrow> 0 \<le> initCodeCost vm n"
  by (simp add: initCodeCost_def fair_nonneg)

section \<open>The dynamic part of the prices\<close>

lemma operand_nonneg: "operands n vs \<Longrightarrow> i < n \<Longrightarrow> 0 \<le> vs ! i"
  by (simp add: operands_nth)

lemma sum_bound:
  "0 \<le> b \<Longrightarrow> (c :: int) \<le> a \<Longrightarrow> c \<le> a + b" "k \<le> b \<Longrightarrow> c \<le> a \<Longrightarrow> c + k \<le> a + b"
  by simp_all

lemma gas_reads:
  assumes "fair_prices vm"
  shows "upholds (frame_fine M d A) (gas_BALANCE vm c) (\<lambda>v. c + access_cost vm \<le> v)"
    "upholds (frame_fine M d A) (gas_EXTCODESIZE vm c) (\<lambda>v. c + access_cost vm \<le> v)"
    "upholds (frame_fine M d A) (gas_EXTCODEHASH vm c) (\<lambda>v. c + access_cost vm \<le> v)"
    "upholds (frame_fine M d A) (gas_SLOAD vm c) (\<lambda>v. c + access_cost vm \<le> v)"
    "upholds (frame_fine M d A) (gas_SELFDESTRUCT vm c) (\<lambda>v. c \<le> v)"
  unfolding gas_BALANCE_def gas_EXTCODESIZE_def gas_EXTCODEHASH_def gas_SLOAD_def gas_SELFDESTRUCT_def
    Let_def
  by (rule frame interface coldAccess_cost [OF assms] accessStorage_cost(2) [OF assms] accessAddress_cost(1) [OF assms]
      upholds_first upholds_rules | erule toArrayLike_fine |
      simp add: fair_nonneg [OF assms] access_cost_def)+

lemma gas_memory:
  assumes "fair_prices vm"
  shows "upholds (frame_fine M d A) (gas_SHA3 vm c) (\<lambda>v. c \<le> v)"
    "upholds (frame_fine M d A) (gas_CALLDATACOPY vm c) (\<lambda>v. c \<le> v)"
    "upholds (frame_fine M d A) (gas_CODECOPY vm c) (\<lambda>v. c \<le> v)"
    "upholds (frame_fine M d A) (gas_RETURNDATACOPY vm c) (\<lambda>v. c \<le> v)"
    "upholds (frame_fine M d A) (gas_MLOAD vm c) (\<lambda>v. c \<le> v)"
    "upholds (frame_fine M d A) (gas_MSTORE vm c) (\<lambda>v. c \<le> v)"
    "upholds (frame_fine M d A) (gas_MSTORE8 vm c) (\<lambda>v. c \<le> v)"
    "upholds (frame_fine M d A) (gas_RETURN vm c) (\<lambda>v. c \<le> v)"
    "upholds (frame_fine M d A) (gas_REVERT vm c) (\<lambda>v. c \<le> v)"
    "upholds (frame_fine M d A) (gas_LOG vm c) (\<lambda>v. c \<le> v)"
  unfolding gas_SHA3_def gas_CALLDATACOPY_def gas_CODECOPY_def gas_RETURNDATACOPY_def gas_MLOAD_def
    gas_MSTORE_def gas_MSTORE8_def gas_RETURN_def gas_REVERT_def gas_LOG_def Let_def
  by (rule frame subMemUsage_cost [OF assms] upholds_first upholds_rules |
      simp add: fair_nonneg [OF assms] operand_nonneg copyCost_nonneg [OF assms] add_increasing2)+

lemma gas_EXTCODECOPY_cost:
  assumes "fair_prices vm"
  shows "upholds (frame_fine M d A) (gas_EXTCODECOPY vm c) (\<lambda>v. c + access_cost vm \<le> v)"
proof -
  have "c + access_cost vm \<le> c + m + a + copyCost vm (vs ! 3)"
    if "0 \<le> m" "access_cost vm \<le> a" "operands 4 vs" for m a vs
    using that copyCost_nonneg [OF assms operand_nonneg [OF that(3), of 3]] by simp
  then show ?thesis
    unfolding gas_EXTCODECOPY_def
    by - ((rule frame subMemUsage_cost [OF assms] coldAccess_cost [OF assms] upholds_first upholds_rules |
      assumption | simp)+)
qed

lemma gas_SSTORE_cost:
  assumes "fair_prices vm"
  shows "upholds (frame_fine M d A) (gas_SSTORE vm c) (\<lambda>v. c + 1 \<le> v)"
  unfolding gas_SSTORE_def Let_def
  by (rule frame interface sstore_parts_cost [OF assms] accessStorage_cost(1) [OF assms]
      upholds_first upholds_rules | erule toArrayLike_fine | simp)+

section \<open>Deducting the price\<close>

text \<open>
  After the price is deducted the frame is fine again, with at least \<open>k\<close> gas less; the handlers of
  calls leave the gas limit of the message, and the stipend, in the state before.
\<close>

definition less_gas :: "int \<Rightarrow> run_state \<Rightarrow> run_state" where
  "less_gas v rs = rs\<lparr>rs_eei := (rs_eei rs)\<lparr>ei_gasLeft := ei_gasLeft (rs_eei rs) - v\<rparr>\<rparr>"

definition deducted :: "int \<Rightarrow> nat \<Rightarrow> int \<Rightarrow> int \<Rightarrow> (exn + int) \<times> run_state \<Rightarrow> bool" where
  "deducted M d g k q \<longleftrightarrow>
     (case fst q of
        Inr v \<Rightarrow> v \<le> gasLeft_of (snd q) \<longrightarrow> frame_fine M d {0..g - k} (less_gas v (snd q))
      | Inl e \<Rightarrow> fine e \<and> gasLeft_of (snd q) \<le> g)"

definition deducts :: "int \<Rightarrow> nat \<Rightarrow> int \<Rightarrow> int \<Rightarrow> (run_state, int) eff \<Rightarrow> bool" where
  "deducts M d g k m \<longleftrightarrow> (\<forall>rs. frame_fine M d {g} rs \<longrightarrow> deducted M d g k (m rs))"

lemma frame_fine_gas: "frame_fine M d {g} rs \<Longrightarrow> gasLeft_of rs = g"
  by (simp add: frame_fine_def eei_fine_def gasLeft_of_def)

lemma deducts_bnd:
  assumes m: "upholds (frame_fine M d {g}) m P" and f: "\<And>x. P x \<Longrightarrow> deducts M d g k (f x)"
  shows "deducts M d g k (bnd m f)"
  unfolding deducts_def
proof (intro allI impI)
  fix rs assume rs: "frame_fine M d {g} rs"
  obtain r t where r: "m rs = (r, t)" by force
  show "deducted M d g k (bnd m f rs)"
  proof (cases r)
    case (Inl e)
    then show ?thesis
      using upholdsD(3) [OF m rs] r frame_fine_gas [of M d g t] by (simp add: bnd_def deducted_def)
  next
    case (Inr x)
    then have "P x" "frame_fine M d {g} t" using upholdsD(2) [OF m rs] r by auto
    then show ?thesis using f [of x] r Inr by (simp add: bnd_def deducts_def)
  qed
qed

lemma deducts_andthen:
  "upholds (frame_fine M d {g}) m P \<Longrightarrow> deducts M d g k n \<Longrightarrow> deducts M d g k (andthen m n)"
  unfolding andthen_def by (rule deducts_bnd)

lemma deducts_bnd_gets:
  "(\<And>s. frame_fine M d {g} s \<Longrightarrow> deducts M d g k (h (f s))) \<Longrightarrow> deducts M d g k (bnd (gets f) h)"
  by (simp add: deducts_def bnd_def gets_def)

lemma deducts_if:
  "(b \<Longrightarrow> deducts M d g k m) \<Longrightarrow> (\<not> b \<Longrightarrow> deducts M d g k n) \<Longrightarrow> deducts M d g k (if b then m else n)"
  by simp

lemma deducts_trap: "deducts M d g k (trap e)"
  using frame_fine_gas by (auto simp: deducts_def deducted_def trap_def raise_def)

lemma less_gas_fine:
  "frame_fine M d {g} rs \<Longrightarrow> v \<le> g \<Longrightarrow> k \<le> v \<Longrightarrow> frame_fine M d {0..g - k} (less_gas v rs)"
  by (simp add: frame_fine_def eei_fine_def less_gas_def)

lemma deducts_upholds:
  assumes "upholds (frame_fine M d {g}) m (\<lambda>v. k \<le> v)" shows "deducts M d g k m"
  unfolding deducts_def
proof (intro allI impI)
  fix rs assume rs: "frame_fine M d {g} rs"
  obtain r t where r: "m rs = (r, t)" by force
  then show "deducted M d g k (m rs)"
    using upholdsD(2,3) [OF assms rs] frame_fine_gas [of M d g t] less_gas_fine [of M d g t]
    by (cases r) (simp_all add: deducted_def)
qed

lemma deducts_limit:
  assumes "v \<le> g \<Longrightarrow> 0 \<le> gl \<and> gl \<le> M" "k \<le> v"
  shows "deducts M d g k (andthen (set_messageGasLimit (Some gl)) (ret v))"
  using assms by (simp add: deducts_def deducted_def set_messageGasLimit_def eff_defs frame_fine_def
      eei_fine_def less_gas_def gasLeft_of_def)

lemmas deducts_rules = deducts_bnd_gets deducts_bnd deducts_andthen deducts_if deducts_trap

section \<open>Messages\<close>

lemma maxCallGas_bound:
  assumes "0 \<le> x" "0 \<le> left" "vm_gteHardfork vm ''tangerineWhistle'' \<or> x \<le> left"
  shows "0 \<le> maxCallGas vm x left \<and> maxCallGas vm x left \<le> left"
proof -
  have "left div 64 \<le> left" "0 \<le> left div 64" using assms(2) by simp_all
  then show ?thesis using assms by (auto simp: maxCallGas_def Let_def)
qed

lemma maxCallGas_low: "0 \<le> x \<Longrightarrow> min 0 left \<le> maxCallGas vm x left"
proof -
  assume x: "0 \<le> x"
  have "bn_div left 64 \<le> max 0 left"
  proof (cases "0 \<le> left")
    case True
    then have "left div 64 \<le> left" by simp
    with True show ?thesis by simp
  next
    case False
    then have "bn_div left 64 = - (- left div 64)" by (simp add: bn_div_def)
    moreover have "0 \<le> - left div 64" using False by (simp add: pos_imp_zdiv_nonneg_iff)
    ultimately show ?thesis using False by simp
  qed
  with x show ?thesis by (auto simp: maxCallGas_def Let_def)
qed

lemma deducts_stipend:
  assumes "fair_prices vm" "g \<le> M" "0 \<le> k" "min 0 (g - v) \<le> gl" "gl \<le> g - v" "k \<le> v"
    and "val \<noteq> 0 \<Longrightarrow> gasPrice vm ''callValueTransfer'' + k \<le> v"
  shows "deducts M d g k (bnd (add_stipend vm val gl) (\<lambda>gl'.
    andthen (set_messageGasLimit (Some gl')) (ret v)))"
proof (cases "val = 0")
  case True
  then show ?thesis using assms deducts_limit [of v g gl M k d] by (simp add: add_stipend_def)
next
  case False
  define st where "st = gasPrice vm ''callStipend''"
  have st: "0 \<le> st" "st + k \<le> v" using fair_nonneg(9,22) [OF assms(1)] assms(7) False by (simp_all add: st_def)
  have "deducted M d g k (bnd (add_stipend vm val gl) (\<lambda>gl'.
      andthen (set_messageGasLimit (Some gl')) (ret v)) rs)" if "frame_fine M d {g} rs" for rs
    using that False st assms(2-6)
    by (auto simp: deducted_def add_stipend_def addStipend_def set_messageGasLimit_def eff_defs
        frame_fine_def eei_fine_def less_gas_def gasLeft_of_def simp flip: st_def)
  then show ?thesis by (simp add: deducts_def)
qed

lemma gasLeft_known:
  "(\<And>s. deducts M d g k (h g)) \<Longrightarrow> deducts M d g k (bnd (gets gasLeft_of) h)"
  by (rule deducts_bnd_gets) (simp add: frame_fine_gas)

lemma limit_known:
  "deducts M d g k (f (g - c)) \<Longrightarrow> deducts M d g k (bnd (gets (\<lambda>rs. gasLeft_of rs - c)) f)"
  by (rule deducts_bnd_gets) (simp add: frame_fine_gas)

lemma create_limit_cost:
  assumes "fair_prices vm" "g \<le> M" "k \<le> c" "0 \<le> k"
  shows "deducts M d g k (create_limit vm c)"
  unfolding create_limit_def
  using maxCallGas_bound [of "g - c" "g - c" vm] assms
  by (intro limit_known deducts_limit) auto

lemma gas_creates:
  assumes "fair_prices vm" "g \<le> M" "0 \<le> c"
  shows "deducts M d g c (gas_CREATE vm c)" "deducts M d g c (gas_CREATE2 vm c)"
  unfolding gas_CREATE_def gas_CREATE2_def
  by (rule deducts_andthen deducts_bnd create_limit_cost [OF assms(1,2)] frame
      subMemUsage_cost [OF assms(1)] warm_self_cost [OF assms(1)] |
      simp add: assms fair_nonneg [OF assms(1)] operand_nonneg initCodeCost_nonneg [OF assms(1)] add_increasing2)+

lemma gas_calls:
  assumes "fair_prices vm" "g \<le> M" "0 \<le> c"
  shows "deducts M d g (c + access_cost vm) (gas_CALL vm c)"
    "deducts M d g (c + access_cost vm) (gas_CALLCODE vm c)"
    "deducts M d g (c + access_cost vm) (gas_DELEGATECALL vm c)"
    "vm_gteHardfork vm ''tangerineWhistle'' \<Longrightarrow> deducts M d g (c + access_cost vm) (gas_STATICCALL vm c)"
proof -
  have acc: "0 \<le> access_cost vm" by (simp add: access_cost_def)
  then have k: "0 \<le> c + access_cost vm" using assms(3) by simp
  have op: "0 \<le> vs ! i" if "operands n vs" "i < n" for n vs i
    using that by (rule operand_nonneg)
  have new: "upholds (frame_fine M d {g})
      (if b then bnd (on_eei (isAccountEmpty a)) (\<lambda>empty. ret (empty \<and> v))
       else bnd (on_eei (accountExists a)) (\<lambda>exists. ret (\<not> exists))) anything" for a b v
    by (rule frame interface upholds_split upholds_rules | simp)+
  note parts = subMemUsage_cost [OF assms(1)] coldAccess_cost [OF assms(1)] stack_fine(4) new
  have tail: "deducts M d g (c + access_cost vm) (bnd (add_stipend vm val gl) (\<lambda>gl'.
      andthen (set_messageGasLimit (Some gl')) (ret (c + m1 + m2 + a + w + n))))"
    if "0 \<le> x" "gl = maxCallGas vm x (g - (c + m1 + m2 + a + w + n))" "gl \<le> g - (c + m1 + m2 + a + w + n)"
      "0 \<le> m1" "0 \<le> m2" "access_cost vm \<le> a" "0 \<le> n"
      "w = (if val \<noteq> 0 then gasPrice vm ''callValueTransfer'' else 0)" for x gl m1 m2 a w n val
  proof -
    have "0 \<le> w" using that(8) fair_nonneg(9,22) [OF assms(1)] by simp
    then show ?thesis
      using that maxCallGas_low [OF that(1), of "g - (c + m1 + m2 + a + w + n)" vm] k assms
      by (intro deducts_stipend) auto
  qed
  have n: "0 \<le> (if b then gasPrice vm ''callNewAccount'' else 0)" for b
    using fair_nonneg(10) [OF assms(1)] by simp
  show "deducts M d g (c + access_cost vm) (gas_CALL vm c)"
    unfolding gas_CALL_def Let_def
    apply (rule deducts_bnd, rule parts, rule deducts_bnd_gets, rule deducts_if, rule deducts_trap)
    apply (rule deducts_bnd, rule parts, rule deducts_bnd, rule parts, rule deducts_bnd, rule parts,
        rule deducts_bnd, rule parts)
    apply (rule gasLeft_known, rule deducts_if, rule deducts_trap, rule deducts_if, rule deducts_trap)
    apply (rule tail [OF op [of 7 _ 0]], assumption, simp, rule refl, simp_all add: n)
    done
  show "deducts M d g (c + access_cost vm) (gas_CALLCODE vm c)"
    unfolding gas_CALLCODE_def Let_def
    apply (rule deducts_bnd, rule parts, rule deducts_bnd, rule parts, rule deducts_bnd, rule parts,
        rule deducts_bnd, rule parts, rule gasLeft_known, rule deducts_if, rule deducts_trap)
    apply (rule tail [OF op [of 7 _ 0], where n = 0, unfolded add_0_right], assumption, simp, rule refl, simp_all)
    done
  show "deducts M d g (c + access_cost vm) (gas_DELEGATECALL vm c)"
    unfolding gas_DELEGATECALL_def Let_def
    apply (rule deducts_bnd, rule parts, rule deducts_bnd, rule parts, rule deducts_bnd, rule parts,
        rule deducts_bnd, rule parts, rule gasLeft_known, rule deducts_if, rule deducts_trap)
    subgoal for vs m1 m2 a
      using maxCallGas_low [OF op, of 6 vs 0 "g - (c + m1 + m2 + a)" vm] assms(2,3) acc
      by (intro deducts_limit) auto
    done
  show "deducts M d g (c + access_cost vm) (gas_STATICCALL vm c)" if fork: "vm_gteHardfork vm ''tangerineWhistle''"
    unfolding gas_STATICCALL_def Let_def
    apply (rule deducts_bnd, rule parts, rule deducts_bnd, rule parts, rule deducts_bnd, rule parts,
        rule deducts_bnd, rule parts, rule gasLeft_known)
    subgoal for vs m1 m2 a
      using maxCallGas_bound [OF op, of 6 vs 0 "g - (c + m1 + m2 + a)" vm] assms(2,3) fork acc
      by (intro deducts_limit) auto
    done
qed

section \<open>The price of a step\<close>

definition extra :: "vm \<Rightarrow> nat \<Rightarrow> int" where
  "extra vm op = (if op = 0x55 then 1 else if op \<in> set accessing_ops then access_cost vm else 0)"

lemma dynamic_deducts:
  assumes "fair_prices vm" "g \<le> M" "0 \<le> c" "dynamicGasHandlers vm op = Some h"
    and "op = 0xfa \<Longrightarrow> vm_gteHardfork vm ''tangerineWhistle''"
  shows "deducts M d g (c + extra vm op) (h c)"
proof -
  note upheld = gas_reads [OF assms(1), THEN deducts_upholds] gas_memory [OF assms(1), THEN deducts_upholds]
    gas_EXTCODECOPY_cost [OF assms(1), THEN deducts_upholds] gas_SSTORE_cost [OF assms(1), THEN deducts_upholds]
    gas_creates [OF assms(1-3)] gas_calls [OF assms(1-3)]
  show ?thesis
    using assms(4,5) unfolding dynamicGasHandlers_def
    by (auto split: if_splits dest!: map_of_SomeD simp: upheld extra_def accessing_ops_def)
qed

text \<open>The opcodes that end a frame never return to the loop.\<close>

lemma ending_fine:
  "upholds (frame_fine M d A) op_STOP (\<lambda>_. False)" "upholds (frame_fine M d A) op_RETURN (\<lambda>_. False)"
  "upholds (frame_fine M d A) op_REVERT (\<lambda>_. False)"
  "upholds (frame_fine M d A) (op_SELFDESTRUCT vm) (\<lambda>_. False)"
proof -
  have *: "upholds (eei_fine d A) (finish b) (\<lambda>_. False)" "upholds (eei_fine d A) (eei_revert b) (\<lambda>_. False)" for b
    unfolding finish_def eei_revert_def by (rule upholds_andthen [OF eei_plain(1)], rule upholds_basic)+
  have sd: "upholds (eei_fine d A) (selfDestruct vm a) (\<lambda>_. False)" for a
    unfolding selfDestruct_def Let_def
    by (rule upholds_first interface world upholds_rules | simp)+
  show "upholds (frame_fine M d A) op_STOP (\<lambda>_. False)" "upholds (frame_fine M d A) op_RETURN (\<lambda>_. False)"
    "upholds (frame_fine M d A) op_REVERT (\<lambda>_. False)"
    "upholds (frame_fine M d A) (op_SELFDESTRUCT vm) (\<lambda>_. False)"
    unfolding op_STOP_def op_RETURN_def op_REVERT_def op_SELFDESTRUCT_def
    by (rule on_eei_fine [OF *(1)] on_eei_fine [OF *(2)] on_eei_fine [OF sd] frame upholds_rules)+
qed

lemma ending_handlers:
  assumes "op \<in> set ending_ops" "handlers vm exec op = Some h"
  shows "upholds (frame_fine M d A) h (\<lambda>_. False)"
  using assms ending_fine by (auto simp: ending_ops_def handlers_def single_ops_def)

definition table_entry :: "nat \<times> opcode_entry \<Rightarrow> bool" where
  "table_entry = (\<lambda>(op, e). (op \<in> set accessing_ops \<or> op = 0x55 \<longrightarrow> oc_dynamicGas e) \<and>
     (oc_name e = ''INVALID'' \<longrightarrow> \<not> oc_dynamicGas e))"

lemma table_entries: "list_all table_entry opcodes" "list_all table_entry overlays"
  by (simp_all add: opcodes_def overlays_def hardforkOpcodes_def eipOpcodes_def oc_def table_entry_def
      accessing_ops_def)

lemma active_entry:
  assumes "getOpcodesForHF vm op = Some oi"
  shows "op \<in> set accessing_ops \<or> op = 0x55 \<Longrightarrow> oc_dynamicGas oi"
    "oc_name oi = ''INVALID'' \<Longrightarrow> \<not> oc_dynamicGas oi" "oc_code oi = op"
proof -
  obtain e where e: "map_of (opcodeBuilder vm) op = Some e" "oi = createOpcode vm op e"
    using assms by (auto simp: getOpcodesForHF_def)
  have "table_entry (op, e)"
    using builder_entry [OF e(1)] table_entries by (auto simp: list_all_iff)
  then show "op \<in> set accessing_ops \<or> op = 0x55 \<Longrightarrow> oc_dynamicGas oi"
    "oc_name oi = ''INVALID'' \<Longrightarrow> \<not> oc_dynamicGas oi" "oc_code oi = op"
    by (auto simp: table_entry_def e(2) createOpcode_def)
qed

lemma fold_overlay_active:
  "map_of (fold (\<lambda>(x, t) b. if P x then object_assign b t else b) ts b) op \<noteq> None \<Longrightarrow>
     map_of b op \<noteq> None \<or> (\<exists>(x, t) \<in> set ts. P x \<and> op \<in> fst ` set t)"
proof (induction ts arbitrary: b)
  case (Cons p ts)
  obtain x t where p: "p = (x, t)" by force
  let ?b = "if P x then object_assign b t else b"
  have "map_of ?b op \<noteq> None \<or> (\<exists>(x, t) \<in> set ts. P x \<and> op \<in> fst ` set t)"
    using Cons.IH [of ?b] Cons.prems p by simp
  moreover have "map_of ?b op \<noteq> None \<Longrightarrow> map_of b op \<noteq> None \<or> (P x \<and> op \<in> fst ` set t)"
    using map_of_eq_None_iff [of "rev t" op]
    by (auto simp: map_of_object_assign map_add_def split: if_splits option.splits)
  ultimately show ?case using p by auto
qed simp

lemma staticcall_fork:
  assumes "getOpcodesForHF vm 0xfa = Some oi" shows "vm_gteHardfork vm ''byzantium''"
proof -
  have "map_of (opcodeBuilder vm) 0xfa \<noteq> None" using assms by (auto simp: getOpcodesForHF_def)
  then have "(\<exists>(x, t) \<in> set eipOpcodes. vm_isActivatedEIP vm x \<and> 0xfa \<in> fst ` set t) \<or>
      (\<exists>(x, t) \<in> set hardforkOpcodes. vm_gteHardfork vm x \<and> 0xfa \<in> fst ` set t) \<or>
      map_of opcodes 0xfa \<noteq> None"
    unfolding opcodeBuilder_def
    by - (drule fold_overlay_active, erule disjE, drule fold_overlay_active, elim disjE;
      blast)
  moreover have "\<not> (\<exists>(x, t) \<in> set eipOpcodes. vm_isActivatedEIP vm x \<and> 0xfa \<in> fst ` set t)"
    by (simp add: eipOpcodes_def)
  moreover have "map_of opcodes 0xfa = None" by (simp add: opcodes_def)
  ultimately show ?thesis by (auto simp: hardforkOpcodes_def)
qed

section \<open>A step\<close>

lemma useGas_deducted:
  assumes "deducted M d g k (Inr v, rs)" "0 \<le> g" "0 \<le> k"
  shows "(\<exists>t. on_eei (useGas v) rs = (Inr (), t) \<and> frame_fine M d {0..g - k} t \<and> t = less_gas v rs) \<or>
    (\<exists>t. on_eei (useGas v) rs = (Inl (VmError OUT_OF_GAS), t) \<and> gasLeft_of t \<le> g)"
  using assms by (auto simp: deducted_def zoom_def useGas_result less_gas_def gasLeft_of_def)

definition step_cost :: "nat \<Rightarrow> int" where
  "step_cost op = (if op \<in> set ending_ops then 0 else 1)"

lemma least_step_cost: "step_cost op \<le> least_fee vm op + extra vm op" "0 \<le> extra vm op" "0 \<le> least_fee vm op"
  by (simp_all add: step_cost_def least_fee_def extra_def access_cost_def ending_ops_def accessing_ops_def)

lemma gas_part_deducts:
  assumes "fair_prices vm" "g \<le> M" "getOpcodesForHF vm op = Some oi"
    and "oc_dynamicGas oi \<Longrightarrow> dynamicGasHandlers vm op = Some h"
  shows "deducts M d g (step_cost op) (if oc_dynamicGas oi then h (oc_fee oi) else ret (oc_fee oi))"
proof -
  have fee: "least_fee vm op \<le> oc_fee oi" using fair_fee [OF assms(1,3)] .
  then have pos: "0 \<le> oc_fee oi" using least_step_cost(3) order_trans by blast
  show ?thesis
  proof (cases "oc_dynamicGas oi")
    case True
    have "op = 0xfa \<Longrightarrow> vm_gteHardfork vm ''tangerineWhistle''"
      using staticcall_fork assms(1,3) by (auto simp: fair_prices_def)
    then have d: "deducts M d g (oc_fee oi + extra vm op) (h (oc_fee oi))"
      by (rule dynamic_deducts [OF assms(1,2) pos assms(4) [OF True]])
    have "frame_fine M d {0..g - (oc_fee oi + extra vm op)} s \<Longrightarrow> frame_fine M d {0..g - step_cost op} s" for s
      using fee least_step_cost(1) [of op vm] by (auto simp: frame_fine_def eei_fine_def)
    with d True show ?thesis
      by (auto simp: deducts_def deducted_def split: sum.splits)
  next
    case False
    then have "extra vm op = 0" using active_entry(1) [OF assms(3)] by (auto simp: extra_def)
    then have "step_cost op \<le> oc_fee oi" using fee least_step_cost(1) [of op vm] by simp
    with False show ?thesis by (simp add: deducts_upholds upholds_basic)
  qed
qed

lemma gas_part_opcode:
  assumes "(if b then (case dynamicGasHandlers vm op of None \<Rightarrow> raise x | Some h \<Rightarrow> h f) else ret f) rs = (Inr v, t)"
  shows "opCode t = opCode rs"
  using any_world.fl.keeps_step [OF any_world.gas_part_kept assms] by (simp add: flow_step_def)

lemma frame_fine_weaken: "frame_fine M d A rs \<Longrightarrow> A \<subseteq> B \<Longrightarrow> frame_fine M d B rs"
  by (auto simp: frame_fine_def eei_fine_def)

text \<open>The last part of a step: the counter moves on and the handler runs.\<close>

lemma op_part_cost:
  assumes "fair_prices vm" "exec_fair vm exec d M" "frame_fine M d {0..g - step_cost op} rs" "opCode rs = op"
    and "andthen (modif (\<lambda>rs. rs\<lparr>programCounter := programCounter rs + 1\<rparr>))
      (case handlers vm exec op of None \<Rightarrow> raise no_handler | Some h \<Rightarrow> h) rs = (r, t)"
  shows "case r of Inr u \<Rightarrow> frame_fine M d {0..g - 1} t | Inl e \<Rightarrow> fine e \<and> gasLeft_of t \<le> g"
proof -
  let ?rs = "rs\<lparr>programCounter := programCounter rs + 1\<rparr>"
  have rs: "frame_fine M d {0..g - step_cost op} ?rs" "started op ?rs"
    using assms(3,4) by (simp_all add: frame_fine_def started_def)
  have le: "gasLeft_of s \<le> g" if "frame_fine M d {0..g - step_cost op} s" for s
    using that by (auto simp: frame_fine_def eei_fine_def gasLeft_of_def step_cost_def split: if_splits)
  show ?thesis
  proof (cases "handlers vm exec op")
    case None
    then have "r = Inl no_handler" "t = ?rs" using assms(5) by (simp_all add: eff_defs)
    then show ?thesis using le [OF rs(1)] by (simp add: no_handler_def)
  next
    case (Some h)
    then have h: "h ?rs = (r, t)" using assms(5) by (simp add: eff_defs)
    have t: "frame_fine M d {0..g - step_cost op} t" "\<And>e. r = Inl e \<Longrightarrow> fine e"
      using handlers_fine [OF assms(2,1) Some rs(2,1)] h by auto
    have "step_cost op = 1" if "r = Inr u" for u
    proof (rule ccontr)
      assume "step_cost op \<noteq> 1"
      then have "op \<in> set ending_ops" by (simp add: step_cost_def split: if_splits)
      from upholdsD(2) [OF ending_handlers [OF this Some] rs(1)] h that show False by blast
    qed
    with t le [OF t(1)] show ?thesis by (cases r) simp_all
  qed
qed

end
