(* ===== verification/Message_Ends.thy ===== *)
theory Message_Ends
  imports Gas_Costs
begin

text \<open>
  Messages end. A frame's loop with more steps than units of gas never runs out of steps, the
  nesting of messages never passes the limit of the call depth, and a message reports between 0
  and its gas limit as used: \<open>executeMessage\<close> with enough fuel is the function of the source.
\<close>

section \<open>Steps\<close>

definition step_ends :: "int \<Rightarrow> nat \<Rightarrow> int \<Rightarrow> (exn + unit) \<times> run_state \<Rightarrow> bool" where
  "step_ends M d g q \<longleftrightarrow>
     (case fst q of Inr u \<Rightarrow> frame_fine M d {0..g - 1} (snd q)
      | Inl e \<Rightarrow> fine e \<and> gasLeft_of (snd q) \<le> g)"

text \<open>The price is there, or the step fails; then the rest of the step.\<close>

lemma priced_step:
  assumes "fair_prices vm" "exec_fair vm exec d M" "0 \<le> g" "deducted M d g (step_cost op) (Inr v, rs)"
    and "opCode rs = op"
  shows "step_ends M d g (andthen (on_eei (useGas v))
    (andthen (modif (\<lambda>rs. rs\<lparr>programCounter := programCounter rs + 1\<rparr>))
      (case handlers vm exec op of None \<Rightarrow> raise no_handler | Some h \<Rightarrow> h)) rs)"
proof -
  have "0 \<le> step_cost op" by (simp add: step_cost_def)
  from useGas_deducted [OF assms(4,3) this] show ?thesis
  proof (elim disjE exE conjE)
    fix t assume t: "on_eei (useGas v) rs = (Inr (), t)" "frame_fine M d {0..g - step_cost op} t"
      "t = less_gas v rs"
    obtain r u where r: "andthen (modif (\<lambda>rs. rs\<lparr>programCounter := programCounter rs + 1\<rparr>))
        (case handlers vm exec op of None \<Rightarrow> raise no_handler | Some h \<Rightarrow> h) t = (r, u)" by force
    have "opCode t = op" using t(3) assms(5) by (simp add: less_gas_def)
    from op_part_cost [OF assms(1,2) t(2) this r] show ?thesis
      using t(1) r by (cases r) (simp_all add: andthen_Inr step_ends_def)
  next
    fix t assume "on_eei (useGas v) rs = (Inl (VmError OUT_OF_GAS), t)" "gasLeft_of t \<le> g"
    then show ?thesis by (simp add: andthen_Inl step_ends_def)
  qed
qed

lemma invalid_lookup:
  assumes "lookupOpInfo vm op = Some oi"
  obtains "getOpcodesForHF vm op = Some oi" | "\<not> oc_dynamicGas oi" "oc_name oi = ''INVALID''"
  using assms that by (auto simp: lookupOpInfo_def invalid_opcode createOpcode_def oc_def split: option.splits)

lemma runStep_ends:
  assumes "fair_prices vm" "exec_fair vm exec d M" "0 \<le> g" "g \<le> M" "frame_fine M d {g} rs"
  shows "step_ends M d g (runStep vm exec rs)"
proof -
  define op where "op = opCode rs"
  have gas: "gasLeft_of rs = g" using frame_fine_gas [OF assms(5)] .
  show ?thesis
  proof (cases "lookupOpInfo vm op")
    case None
    then show ?thesis
      using gas by (simp add: runStep_def bnd_def gets_def raise_def step_ends_def no_handler_def flip: op_def)
  next
    case (Some oi)
    let ?gas = "if oc_dynamicGas oi then (case dynamicGasHandlers vm op of None \<Rightarrow> raise no_handler
      | Some h \<Rightarrow> h (oc_fee oi)) else ret (oc_fee oi)"
    let ?rest = "\<lambda>v. if oc_name oi = ''INVALID'' then trap INVALID_OPCODE
      else andthen (on_eei (useGas v)) (andthen (modif (\<lambda>rs. rs\<lparr>programCounter := programCounter rs + 1\<rparr>))
        (case handlers vm exec (oc_code oi) of None \<Rightarrow> raise no_handler | Some h \<Rightarrow> h))"
    have run: "runStep vm exec rs = bnd ?gas ?rest rs"
      using Some by (simp add: runStep_def bnd_def [of "gets opCode"] gets_def flip: op_def)
    have trapped: "step_ends M d g (bnd ?gas ?rest rs)"
      if "\<not> oc_dynamicGas oi" "oc_name oi = ''INVALID''"
      using that gas by (simp add: trap_def raise_def step_ends_def)
    show ?thesis
      using Some
    proof (cases rule: invalid_lookup)
      case 1
      have d: "deducted M d g (step_cost op) (?gas rs)"
      proof (cases "oc_dynamicGas oi \<and> dynamicGasHandlers vm op = None")
        case True
        then show ?thesis using gas by (simp add: raise_def deducted_def no_handler_def)
      next
        case False
        then show ?thesis
          using gas_part_deducts [OF assms(1,4) 1, of "the (dynamicGasHandlers vm op)"] assms(5)
          by (cases "oc_dynamicGas oi") (auto simp: deducts_def)
      qed
      show ?thesis
      proof (cases "oc_name oi = ''INVALID''")
        case True
        then show ?thesis using active_entry(2) [OF 1] trapped run by simp
      next
        case False
        obtain q t where q: "?gas rs = (q, t)" by force
        show ?thesis
        proof (cases q)
          case (Inl e)
          with d q run show ?thesis by (simp add: bnd_def deducted_def step_ends_def)
        next
          case (Inr v)
          have "opCode t = op" using gas_part_opcode [OF q [unfolded Inr]] by (simp add: op_def)
          from priced_step [OF assms(1-3) _ this, of v] d q Inr active_entry(3) [OF 1] False run
          show ?thesis by (simp add: bnd_def)
        qed
      qed
    qed (use trapped run in simp)
  qed
qed

section \<open>The loop\<close>

lemma fetch_fine: "frame_fine M d A (fetch rs) \<longleftrightarrow> frame_fine M d A rs"
  by (simp add: fetch_def Let_def frame_fine_def)

lemma frame_fine_exact: "frame_fine M d A rs \<Longrightarrow> frame_fine M d {gasLeft_of rs} rs \<and> gasLeft_of rs \<in> A"
  by (simp add: frame_fine_def eei_fine_def gasLeft_of_def)

definition loop_ends :: "int \<Rightarrow> (exn + vm_error option) \<times> run_state \<Rightarrow> bool" where
  "loop_ends g q \<longleftrightarrow> (case fst q of Inr err \<Rightarrow> gasLeft_of (snd q) \<le> g | Inl e \<Rightarrow> fine e)"

lemma run_loop_ends:
  assumes "fair_prices vm" "exec_fair vm exec d M"
  shows "frame_fine M d {g} rs \<Longrightarrow> 0 \<le> g \<Longrightarrow> g \<le> M \<Longrightarrow> nat g < n \<Longrightarrow>
    loop_ends g (run_loop vm exec n rs)"
proof (induction n arbitrary: rs g)
  case (Suc n)
  show ?case
  proof (cases "programCounter rs < length (rs_code rs)")
    case True
    obtain r t where r: "runStep vm exec (fetch rs) = (r, t)" by force
    have ends: "step_ends M d g (r, t)"
      using runStep_ends [OF assms Suc.prems(2,3), of "fetch rs"] Suc.prems(1) r by (simp add: fetch_fine)
    show ?thesis
    proof (cases r)
      case (Inl e)
      with True ends r show ?thesis by (cases e) (simp_all add: step_ends_def loop_ends_def)
    next
      case (Inr u)
      then have t: "frame_fine M d {gasLeft_of t} t" "0 \<le> gasLeft_of t" "gasLeft_of t \<le> g - 1"
        using ends frame_fine_exact [of M d "{0..g - 1}" t] by (simp_all add: step_ends_def)
      then have "loop_ends (gasLeft_of t) (run_loop vm exec n t)"
        using Suc.IH [OF t(1,2)] Suc.prems(3,4) by auto
      with t(3) True r Inr show ?thesis
        by (auto simp: loop_ends_def split: sum.splits)
    qed
  next
    case False
    then show ?thesis using frame_fine_gas [OF Suc.prems(1)] by (simp add: loop_ends_def)
  qed
qed simp

lemma interpreter_run_ends:
  assumes "fair_prices vm" "exec_fair vm exec d M" "frame_fine M d {g} rs" "0 \<le> g" "g \<le> M" "nat g < n"
  shows "loop_ends g (interpreter_run vm exec n code rs)"
proof -
  have code: "loop_ends g (andthen (modif (\<lambda>rs. rs\<lparr>rs_code := c\<rparr>)) (run_loop vm exec n) rs)" for c
    using run_loop_ends [OF assms(1,2) _ assms(4-6), of "rs\<lparr>rs_code := c\<rparr>"] assms(3)
    by (simp add: andthen_def bnd_def modif_def frame_fine_def)
  have stop: "loop_ends g (ret err rs)" for err
    using frame_fine_gas [OF assms(3)] by (simp add: loop_ends_def ret_def)
  show ?thesis
    unfolding interpreter_run_def by (auto simp: code stop split: option.split)
qed

lemma interpreter_run_gas:
  assumes "fair_prices vm" "0 \<le> gasLeft_of rs" "interpreter_run vm exec n code rs = (Inr err, t)"
  shows "0 \<le> gasLeft_of t"
  using any_world.interpreter_run_kept [OF assms(3)] assms(2) fair_nonneg(9) [OF assms(1)]
  by (simp add: eei_step_def gasLeft_of_def)

section \<open>The body of a message\<close>

text \<open>What is known of the transaction, the block and the contracts that are not modelled.\<close>

definition context_fine :: "evm_context \<Rightarrow> bool" where
  "context_fine cx \<longleftrightarrow> 0 \<le> cx_gasPrice cx \<and> header_fine (cx_block cx) \<and>
     (\<forall>n x. cx_blockHash cx n = Inl x \<longrightarrow> fine x) \<and>
     (\<forall>n d g. 0 \<le> g \<longrightarrow> (case cx_precompiles cx n d g of Inl e \<Rightarrow> fine (JsError e)
        | Inr r \<Rightarrow> 0 \<le> x_gasUsed r \<and> x_gasUsed r \<le> g))"

definition uses_gas :: "int \<Rightarrow> exec_result \<Rightarrow> bool" where
  "uses_gas g r \<longleftrightarrow> 0 \<le> x_gasUsed r \<and> x_gasUsed r \<le> g"

definition message_fine :: "vm \<Rightarrow> evm_context \<Rightarrow> exec \<Rightarrow> message \<Rightarrow> bool" where
  "message_fine vm cx exec m \<longleftrightarrow> fair_prices vm \<and> context_fine cx \<and>
     exec_fair vm exec (m_depth m) (m_gasLimit m) \<and> 0 \<le> m_value m \<and> 0 \<le> m_gasLimit m \<and>
     m_gasLimit m < int (cx_steps cx)"

lemma message_fine_same:
  "message_fine vm cx exec m \<Longrightarrow> m_depth m' = m_depth m \<Longrightarrow> m_gasLimit m' = m_gasLimit m \<Longrightarrow>
     m_value m' = m_value m \<Longrightarrow> message_fine vm cx exec m'"
  by (simp add: message_fine_def)

lemma new_frame_fine:
  assumes "message_fine vm cx exec m" "0 \<le> acc_balance contract"
  shows "frame_fine (m_gasLimit m) (m_depth m) {m_gasLimit m}
    (new_run_state (new_eei (new_env cx m contract) ev m))"
  using assms by (simp add: message_fine_def context_fine_def frame_fine_def eei_fine_def env_fine_def
      new_run_state_def new_eei_def new_env_def new_stack_def Let_def)

lemma frame_result_gas:
  assumes "0 \<le> gasLeft_of rs" "gasLeft_of rs \<le> m_gasLimit m" "0 \<le> m_gasLimit m"
  shows "uses_gas (m_gasLimit m) (frame_result m err (rs_eei rs))"
  using assms by (simp add: uses_gas_def frame_result_def gasLeft_of_def)

lemma runInterpreter_ends:
  assumes "message_fine vm cx exec m"
  shows "upholds anything (runInterpreter vm cx exec m) (\<lambda>(r, sd). uses_gas (m_gasLimit m) r)"
  unfolding runInterpreter_def
proof (rule upholds_bnd)
  show "upholds anything (on_state (sm_getAccount (case m_to m of Some a \<Rightarrow> a | None \<Rightarrow> replicate 20 0)))
      (\<lambda>x. 0 \<le> acc_balance x)"
    by (rule upholds_world world)+
  fix contract :: account assume contract: "0 \<le> acc_balance contract"
  have m: "fair_prices vm" "exec_fair vm exec (m_depth m) (m_gasLimit m)" "0 \<le> m_gasLimit m"
    "nat (m_gasLimit m) < cx_steps cx"
    using assms by (auto simp: message_fine_def)
  let ?rs = "\<lambda>ev. new_run_state (new_eei (new_env cx m contract) ev m)"
  have ends: "loop_ends (m_gasLimit m) (interpreter_run vm exec (cx_steps cx) c (?rs ev))" for c ev
    using interpreter_run_ends [OF m(1,2) new_frame_fine [OF assms contract]] m(3,4) by simp
  have gas: "0 \<le> gasLeft_of t" if "interpreter_run vm exec (cx_steps cx) c (?rs ev) = (Inr err, t)" for c ev err t
    using interpreter_run_gas [OF m(1) _ that] m(3)
    by (simp add: new_run_state_def new_eei_def gasLeft_of_def)
  show "upholds anything (\<lambda>ev. case interpreter_run vm exec (cx_steps cx) (code_bytes (m_code m)) (?rs ev) of
      (Inl x, rs) \<Rightarrow> (Inl x, ei_evm (rs_eei rs))
    | (Inr err, rs) \<Rightarrow> (Inr (frame_result m err (rs_eei rs), rr_selfdestruct (ei_result (rs_eei rs))),
        ei_evm (rs_eei rs))) (\<lambda>(r, sd). uses_gas (m_gasLimit m) r)"
    unfolding upholds_def
  proof (intro allI impI)
    fix ev
    obtain q t where q: "interpreter_run vm exec (cx_steps cx) (code_bytes (m_code m)) (?rs ev) = (q, t)" by force
    then show "True \<and> (case fst (case interpreter_run vm exec (cx_steps cx) (code_bytes (m_code m)) (?rs ev) of
        (Inl x, rs) \<Rightarrow> (Inl x, ei_evm (rs_eei rs))
      | (Inr err, rs) \<Rightarrow> (Inr (frame_result m err (rs_eei rs), rr_selfdestruct (ei_result (rs_eei rs))),
          ei_evm (rs_eei rs))) of Inr v \<Rightarrow> (case v of (r, sd) \<Rightarrow> uses_gas (m_gasLimit m) r) | Inl e \<Rightarrow> fine e)"
      using ends [of "code_bytes (m_code m)" ev] gas [of "code_bytes (m_code m)" ev] m(3)
      by (cases q) (auto simp: loop_ends_def intro: frame_result_gas)
  qed
qed

lemma word_ceil_nonneg: "0 \<le> word_ceil d"
  by (simp add: word_ceil_def)

lemma results_gas:
  "uses_gas g (OOGResult g) \<longleftrightarrow> 0 \<le> g" "uses_gas g (exec_ok n b) \<longleftrightarrow> 0 \<le> n \<and> n \<le> g"
  "uses_gas g (VmErrorResult e n) \<longleftrightarrow> 0 \<le> n \<and> n \<le> g" "uses_gas g (early_exit err) \<longleftrightarrow> 0 \<le> g"
  by (auto simp: uses_gas_def OOGResult_def VmErrorResult_def exec_ok_def early_exit_def)

lemma publicToAddress_fine: "publicToAddress vm k = Inl e \<Longrightarrow> fine e"
  by (auto simp: publicToAddress_def Let_def split: if_splits)

lemma padded_slice_fine: "padded_slice d a b n = Inl e \<Longrightarrow> fine e"
  unfolding padded_slice_def buf_slice_def by (elim bindS_fine) (auto elim: toNumber_fine bindS_fine)

lemma number_buffer_fine: "bindS (toNumber n) (toArrayLike x) = Inl e \<Longrightarrow> fine e"
  by (elim bindS_fine) (auto elim: toNumber_fine toArrayLike_fine)

lemma multComplexity_nonneg: "0 \<le> x \<Longrightarrow> 0 \<le> multComplexity x" "0 \<le> multComplexityEIP2565 x"
proof -
  have "0 \<le> x * x div 4" "0 \<le> x * x div 16" by (simp_all add: pos_imp_zdiv_nonneg_iff)
  then show "0 \<le> x \<Longrightarrow> 0 \<le> multComplexity x" by (simp add: multComplexity_def)
qed (simp add: multComplexityEIP2565_def Let_def)

lemma upholds_Let: "(\<And>x. x = t \<Longrightarrow> upholds I (k x) Q) \<Longrightarrow> upholds I (Let t k) Q"
  by (simp add: Let_def)

lemma precompile_parts:
  assumes "fair_prices vm" "0 \<le> g"
  shows "upholds anything (pre_ecrecover vm d g) (uses_gas g)"
    "upholds anything (pre_sha256 vm d g) (uses_gas g)"
    "upholds anything (pre_ripemd160 vm d g) (uses_gas g)"
    "upholds anything (pre_identity vm d g) (uses_gas g)"
    "upholds anything (pre_blake2f vm d g) (uses_gas g)"
    "upholds anything (pre_celoTransfer d g) (uses_gas g)"
    "upholds anything (pre_celoRegistry d g) (uses_gas g)"
proof -
  note nonneg = fair_nonneg [OF assms(1)] word_ceil_nonneg assms(2)
  show "upholds anything (pre_ecrecover vm d g) (uses_gas g)"
    unfolding pre_ecrecover_def Let_def
    by (auto intro!: upholds_basic upholds_bnd_of_sum publicToAddress_fine simp: results_gas nonneg not_less split: sum.split)
  show "upholds anything (pre_sha256 vm d g) (uses_gas g)" "upholds anything (pre_ripemd160 vm d g) (uses_gas g)"
    "upholds anything (pre_identity vm d g) (uses_gas g)"
    unfolding pre_sha256_def pre_ripemd160_def pre_identity_def Let_def
    by (auto intro!: upholds_basic simp: results_gas nonneg)
  have "0 \<le> gasPrice vm ''blake2Round'' * bn_of_bytes b" for b
    using nonneg bn_of_bytes_nonneg by simp
  then show "upholds anything (pre_blake2f vm d g) (uses_gas g)"
    unfolding pre_blake2f_def Let_def by (auto intro!: upholds_basic simp: results_gas nonneg not_less)
  show "upholds anything (pre_celoTransfer d g) (uses_gas g)" "upholds anything (pre_celoRegistry d g) (uses_gas g)"
    unfolding pre_celoTransfer_def pre_celoRegistry_def Let_def
    by (rule upholds_first upholds_world world upholds_rules | simp add: results_gas nonneg)+
qed

lemma modexp_fine:
  assumes "fair_prices vm" "0 \<le> g"
  shows "upholds anything (pre_modexp vm d g) (uses_gas g)"
  unfolding pre_modexp_def
proof (intro upholds_Let, goal_cases)
  case (1 adj adjustedELen bLen eLen mLen maxLen Gquad bStart bEnd eStart eEnd mStart mEnd gasUsed)
  have "0 \<le> adjustedELen" "0 \<le> maxLen" "0 \<le> Gquad"
    using fair_nonneg(19) [OF assms(1)] by (simp_all add: 1)
  then have "0 \<le> gasUsed"
    using multComplexity_nonneg [of maxLen] by (simp add: 1(14) Let_def div_int_pos_iff)
  then have ok: "upholds anything (ret (exec_ok gasUsed out)) (uses_gas g)" if "\<not> g < gasUsed" for out
    using that by (intro upholds_basic) (simp add: results_gas)
  have oog: "upholds anything (ret (OOGResult g)) (uses_gas g)"
    using assms(2) by (intro upholds_basic) (simp add: results_gas)
  show ?case
    by (intro upholds_split oog ok upholds_bnd_of_sum upholds_Let; (assumption | erule padded_slice_fine number_buffer_fine))
qed

lemma precompile_ends:
  assumes "fair_prices vm" "context_fine cx" "0 \<le> g"
  shows "upholds anything (run_precompile vm (cx_precompiles cx) n d g) (uses_gas g)"
proof -
  have "upholds (anything :: evm \<Rightarrow> bool) (of_sum (map_sum JsError id (cx_precompiles cx n d g))) (uses_gas g)"
  proof -
    have "case cx_precompiles cx n d g of Inl e \<Rightarrow> fine (JsError e) | Inr r \<Rightarrow> uses_gas g r"
      using assms(2,3) unfolding context_fine_def uses_gas_def by blast
    then show ?thesis by (cases "cx_precompiles cx n d g") (simp_all add: upholds_def of_sum_def)
  qed
  then show ?thesis
    using precompile_parts [OF assms(1,3)] modexp_fine [OF assms(1,3)] by (simp add: run_precompile_def)
qed

definition result_gas :: "message \<Rightarrow> evm_result \<times> 'a \<Rightarrow> bool" where
  "result_gas m = (\<lambda>(r, sd). 0 \<le> g_gasUsed r \<and> g_gasUsed r \<le> m_gasLimit m)"

lemma result_gas_wrap: "result_gas m (wrap_result a r, sd) \<longleftrightarrow> uses_gas (m_gasLimit m) r"
  by (simp add: result_gas_def wrap_result_def uses_gas_def)

lemma balance_fine [world]:
  "upholds anything (reduceSenderBalance a m) anything" "upholds anything (addToBalance t a m) anything"
  unfolding reduceSenderBalance_def addToBalance_def Let_def
  by (rule upholds_world world upholds_rules | simp)+

lemma loadCode_fine:
  "upholds anything (loadCode vm m)
     (\<lambda>m'. m_depth m' = m_depth m \<and> m_gasLimit m' = m_gasLimit m \<and> m_value m' = m_value m)"
  unfolding loadCode_def
  by (rule upholds_world world upholds_rules | simp)+

lemma executeCall_ends:
  assumes "message_fine vm cx exec m"
  shows "upholds anything (executeCall vm cx exec t m) (result_gas m)"
proof -
  have m: "fair_prices vm" "context_fine cx" "0 \<le> m_gasLimit m"
    using assms by (simp_all add: message_fine_def)
  have run: "upholds anything (bnd (runInterpreter vm cx exec m') (\<lambda>(r, sd). ret (wrap_result None r, sd))) (result_gas m)"
    if "m_depth m' = m_depth m \<and> m_gasLimit m' = m_gasLimit m \<and> m_value m' = m_value m" for m'
    using runInterpreter_ends [OF message_fine_same [OF assms, of m']] that
    by (intro upholds_bnd [where P = "\<lambda>(r, sd). uses_gas (m_gasLimit m) r"])
      (auto intro!: upholds_basic simp: result_gas_wrap)
  have pre: "upholds anything (bnd (run_precompile vm (cx_precompiles cx) n d (m_gasLimit m')) (\<lambda>r.
      ret (wrap_result None r, sd_of m'))) (result_gas m)" if "m_gasLimit m' = m_gasLimit m" for m' n d
    using precompile_ends [OF m, of n d] that
    by (intro upholds_bnd [where P = "uses_gas (m_gasLimit m)"]) (simp_all add: upholds_basic result_gas_wrap)
  have early: "upholds anything (ret (wrap_result None (early_exit err), sd)) (result_gas m)" for err sd
    using m(3) by (intro upholds_basic) (simp add: result_gas_wrap results_gas)
  have add: "upholds anything (if \<not> m_delegatecall m then addToBalance t a m else ret None) anything" for a
    by (simp add: balance_fine upholds_basic)
  have code: "upholds anything (case m_code m' of
      Some (Precompile p) \<Rightarrow> bnd (run_precompile vm (cx_precompiles cx) p (m_data m') (m_gasLimit m'))
        (\<lambda>r. ret (wrap_result None r, sd_of m'))
    | _ \<Rightarrow> bnd (runInterpreter vm cx exec m') (\<lambda>(r, sd). ret (wrap_result None r, sd))) (result_gas m)"
    if "m_depth m' = m_depth m \<and> m_gasLimit m' = m_gasLimit m \<and> m_value m' = m_value m" for m'
    using run [OF that] pre [of m'] that by (auto split: option.split msg_code.split)
  show ?thesis
    unfolding executeCall_def
    by (rule upholds_bnd, (rule upholds_world world)+, rule upholds_andthen, rule upholds_when, rule world,
        rule upholds_bnd, (rule upholds_world world)+, rule upholds_bnd, rule add,
        rule upholds_bnd, rule loadCode_fine, rule upholds_split, rule early, erule code)
qed

section \<open>Creations\<close>

lemma merge_error_gas: "uses_gas g (merge_error r e) \<longleftrightarrow> uses_gas g e"
  by (simp add: uses_gas_def merge_error_def)

lemma eof_deposit_gas:
  assumes "uses_gas g r" "0 \<le> t" "t \<le> g"
  shows "uses_gas g (eof_deposit vm g t r)"
  using assms
  by (auto simp: eof_deposit_def Let_def merge_error_gas INVALID_EOF_RESULT_def
      INVALID_BYTECODE_RESULT_of_def results_gas split: option.split)
    (auto simp: uses_gas_def merge_error_def VmErrorResult_def)

lemma deposit_gas:
  assumes "fair_prices vm" "uses_gas g r"
  shows "uses_gas g (fst (deposit vm g r))"
proof -
  define fee where
    "fee = (if x_exceptionError r = None then int (length (x_returnValue r)) * gasPrice vm ''createData'' else 0)"
  define t where "t = x_gasUsed r + fee"
  have "0 \<le> fee" using fair_nonneg(11) [OF assms(1)] by (simp add: fee_def)
  then have pos: "0 \<le> g" "0 \<le> t" "x_gasUsed r \<le> t" "0 \<le> t - fee"
    using assms(2) by (simp_all add: uses_gas_def t_def)
  have paid: "uses_gas g (eof_deposit vm g t r)" "uses_gas g (r\<lparr>x_gasUsed := t\<rparr>)" if "t \<le> g"
    using that pos eof_deposit_gas [OF assms(2)] by (simp_all add: uses_gas_def)
  have failed: "uses_gas g (merge_error r (OOGResult g))"
    "t - fee \<le> g \<Longrightarrow> uses_gas g (merge_error r (COOGResult (t - fee)))"
    using pos by (simp_all add: merge_error_gas results_gas COOGResult_def)
  show ?thesis
    unfolding deposit_def Let_def fee_def [symmetric] t_def [symmetric]
    using paid failed by (simp only: split: if_split) simp
qed

lemma generateAddress_fine [world]: "upholds anything (evm_generateAddress vm m) anything"
  unfolding evm_generateAddress_def generateAddress2_def Let_def
  by (rule upholds_split, rule upholds_bnd, (rule upholds_world world)+, rule upholds_basic, simp,
      rule upholds_basic) (auto split: if_splits)

lemma save_code_fine [world]: "upholds anything (save_code vm t r c) anything"
  unfolding save_code_def
  by (rule upholds_when upholds_split upholds_world world upholds_bnd)+

lemma run_create_ends:
  assumes "message_fine vm cx exec m"
  shows "upholds anything (run_create vm cx exec t m) (result_gas m)"
proof -
  have fair: "fair_prices vm" using assms by (simp add: message_fine_def)
  have "upholds anything (let (result, CodestoreOOG) = deposit vm (m_gasLimit m) r
      in andthen (save_code vm t result CodestoreOOG) (ret (wrap_result (Some t) result, sd))) (result_gas m)"
    if "uses_gas (m_gasLimit m) r" for r sd
    using deposit_gas [OF fair that]
    by (cases "deposit vm (m_gasLimit m) r")
      (auto intro!: upholds_andthen [OF save_code_fine] upholds_basic simp: result_gas_wrap)
  then show ?thesis
    unfolding run_create_def
    by (intro upholds_bnd [OF runInterpreter_ends [OF assms]]) auto
qed

end
