(* ===== verification/Message_Total.thy ===== *)
theory Message_Total
  imports Message_Ends Message_Rollback
begin

text \<open>
  Creations and the checkpoint around a message end as well, so a message with more steps than gas
  and more nesting than the call depth allows is run to its end by \<open>executeMessage\<close>.
\<close>

section \<open>Creations\<close>

lemma clearStorage_fine [world]: "upholds anything (on_state (sm_clearContractStorage a)) anything"
  by (rule upholds_world world)+

lemma executeCreate_ends:
  assumes "message_fine vm cx exec m"
  shows "upholds anything (executeCreate vm cx exec m) (result_gas m)"
proof -
  have m: "fair_prices vm" "0 \<le> m_gasLimit m"
    using assms by (simp_all add: message_fine_def)
  have failed: "upholds anything (ret (wrap_result a (VmErrorResult e (m_gasLimit m)), sd)) (result_gas m)"
    "upholds anything (ret (wrap_result a (early_exit err), sd)) (result_gas m)" for a e sd err
    using m(2) by (intro upholds_basic; simp add: result_gas_wrap results_gas)+
  have collided: "upholds anything (ret (wrap_result a (VmErrorResult e
      (m_gasLimit (m\<lparr>m_code := c, m_data := d, m_to := t\<rparr>))), sd)) (result_gas m)" for a e sd c d t
    using failed(1) by simp
  have created: "upholds anything (run_create vm cx exec to (m\<lparr>m_code := c, m_data := d, m_to := t\<rparr>)) (result_gas m)"
    for to c d t
    using run_create_ends [OF message_fine_same [OF assms, of "m\<lparr>m_code := c, m_data := d, m_to := t\<rparr>"]]
    by (simp add: result_gas_def)
  have add: "upholds anything (addToBalance t a m') anything" for t a m'
    by (rule balance_fine)
  show ?thesis
    unfolding executeCreate_def Let_def message.simps
    by (rule upholds_bnd, (rule upholds_world world)+, rule upholds_andthen, rule world,
        rule upholds_split, rule failed, rule upholds_bnd, rule world,
        rule upholds_bnd, (rule upholds_world world)+, rule upholds_split, rule collided,
        rule upholds_andthen, rule world, rule upholds_bnd, (rule upholds_world world)+,
        rule upholds_bnd, rule add, rule upholds_split, rule failed, rule created)
qed

section \<open>The checkpoint around a message\<close>

lemma cache_checkpoint_fine [world]:
  "upholds anything cache_checkpoint anything" "upholds anything cache_commit anything"
  "upholds anything cache_revert anything" "upholds anything (cache_flush t) anything"
  unfolding cache_checkpoint_def cache_commit_def cache_revert_def cache_flush_def
  by (auto simp: upholds_def eff_defs split: list.split)

lemma trie_checkpoint_fine [world]:
  "upholds anything trie_checkpoint anything" "upholds anything trie_commit anything"
  "upholds anything trie_revert anything" "upholds anything (trie_set_root r) anything"
  unfolding trie_checkpoint_def trie_commit_def trie_revert_def trie_set_root_def
    db_checkpoint_def db_commit_def db_revert_def
  by (auto simp: upholds_def eff_defs split: list.split)

lemma flush_fine [world]: "upholds anything flush_at_zero anything"
  unfolding flush_at_zero_def sm_flush_def sm_clearOriginalStorageCache_def
  by (rule upholds_first world upholds_part upholds_andthen upholds_bnd)+

lemma base_fine [world]:
  "upholds anything base_checkpoint anything" "upholds anything base_commit anything"
  unfolding base_checkpoint_def base_commit_def
  by (rule world upholds_part upholds_andthen)+

lemma base_revert_fine [world]: "upholds anything base_revert anything"
proof -
  have "upholds anything (case ts of [] \<Rightarrow> raise (JsError ''Reverting to invalid state checkpoint failed'')
      | touched # rest \<Rightarrow> andthen (modif (f touched rest)) flush_at_zero) anything" for ts and f :: "_ \<Rightarrow> _ \<Rightarrow> state_manager \<Rightarrow> _"
    by (cases ts) (auto intro!: upholds_basic upholds_andthen world)
  then show ?thesis
    unfolding base_revert_def
    by (intro upholds_andthen [OF upholds_part [OF cache_checkpoint_fine(3)]] upholds_andthen [OF upholds_plain]
        upholds_bnd_gets) simp
qed

lemma checkpoint_fine [world]:
  "upholds anything sm_checkpoint anything" "upholds anything sm_commit anything"
  "upholds anything sm_revert anything"
  unfolding sm_checkpoint_def sm_commit_def sm_revert_def
  by (rule world upholds_part upholds_andthen)+

lemma transient_checkpoint_fine [world]:
  "upholds anything ts_checkpoint anything" "upholds anything ts_commit anything"
  "upholds anything ts_revert anything"
  unfolding ts_checkpoint_def ts_commit_def ts_revert_def Let_def
  by (auto simp: upholds_def eff_defs)

lemma warm_created_fine:
  "upholds anything (warm_created vm m)
     (\<lambda>m'. m_depth m' = m_depth m \<and> m_gasLimit m' = m_gasLimit m \<and> m_value m' = m_value m)"
  unfolding warm_created_def Let_def
  by (rule upholds_split, rule upholds_bnd, rule world, rule upholds_andthen, rule upholds_world,
      rule world, (rule upholds_basic, simp)+)

lemma close_message_fine:
  "upholds anything (close_message vm old r) (\<lambda>r'. g_gasUsed r' = g_gasUsed r)"
  unfolding close_message_def Let_def
  by (rule upholds_andthen, rule upholds_when, rule world, rule upholds_bnd_gets, rule upholds_split;
      rule upholds_andthen, rule upholds_part, rule world, rule upholds_andthen, rule upholds_part, rule world,
      rule upholds_basic, simp)

lemma execute_with_ends:
  assumes "message_fine vm cx exec m"
  shows "upholds anything (execute_with vm cx exec m) (result_gas m)"
proof -
  have body: "upholds anything (message_body vm cx exec m') (result_gas m)"
    if "m_depth m' = m_depth m \<and> m_gasLimit m' = m_gasLimit m \<and> m_value m' = m_value m" for m'
    using executeCall_ends [OF message_fine_same [OF assms, of m']]
      executeCreate_ends [OF message_fine_same [OF assms, of m']] that
    by (simp add: message_body_def result_gas_def split: option.split)
  have close: "upholds anything (case p of (r, sd) \<Rightarrow> bnd (close_message vm old r) (\<lambda>r'. ret (r', sd))) (result_gas m)"
    if "result_gas m p" for p :: "evm_result \<times> destructs" and old
    using that
    by (cases p) (auto intro!: upholds_bnd [OF close_message_fine] upholds_basic simp: result_gas_def)
  show ?thesis
    unfolding execute_with_def
    by (rule upholds_bnd, rule warm_created_fine, rule upholds_bnd_gets, rule upholds_andthen, rule upholds_part,
        rule world, rule upholds_andthen, rule upholds_part, rule world, rule upholds_bnd, erule body, erule close)
qed

section \<open>Messages\<close>

lemma executeMessage_ends:
  assumes "fair_prices vm" "context_fine cx" "vm_param vm ''vm'' ''stackLimit'' < int (m_depth m + n)"
    "int (m_depth m) \<le> vm_param vm ''vm'' ''stackLimit''" "0 \<le> m_value m" "0 \<le> m_gasLimit m"
    "m_gasLimit m < int (cx_steps cx)"
  shows "upholds anything (executeMessage vm cx n m) (result_gas m)"
  using assms(3-7)
proof (induction n arbitrary: m)
  case 0
  then show ?case by simp
next
  case (Suc n)
  have "exec_fair vm (executeMessage vm cx n) (m_depth m) (m_gasLimit m)"
    unfolding exec_fair_def
  proof (intro impI allI)
    fix m' :: message
    assume "int (m_depth m) < vm_param vm ''vm'' ''stackLimit''"
      "m_depth m' = Suc (m_depth m) \<and> 0 \<le> m_value m' \<and> 0 \<le> m_gasLimit m' \<and> m_gasLimit m' \<le> m_gasLimit m"
    then have "upholds anything (executeMessage vm cx n m') (result_gas m')"
      using Suc.prems by (intro Suc.IH) auto
    then show "upholds anything (executeMessage vm cx n m') (\<lambda>(r, sd). 0 \<le> g_gasUsed r)"
      by (rule upholds_weaken) (auto simp: result_gas_def)
  qed
  then have "message_fine vm cx (executeMessage vm cx n) m"
    using assms(1,2) Suc.prems by (simp add: message_fine_def)
  then show ?case
    by (simp add: execute_with_ends)
qed

text \<open>C2. A message ends: with more steps a frame than it has gas, and with more nesting than the
  depth of calls allows, executeMessage neither runs out of steps nor nests too deep, and a result
  reports between 0 and the gas limit as used; the tables need only give the opcodes that the loop
  can repeat a price.\<close>

theorem messages_terminate:
  assumes "fair_prices vm" "context_fine cx"
    and "int (m_depth m) \<le> vm_param vm ''vm'' ''stackLimit''"
    and "vm_param vm ''vm'' ''stackLimit'' < int (m_depth m + n)"
    and "0 \<le> m_value m" "0 \<le> m_gasLimit m" "m_gasLimit m < int (cx_steps cx)"
  shows "case fst (executeMessage vm cx n m s) of
      Inr (r, sd) \<Rightarrow> 0 \<le> g_gasUsed r \<and> g_gasUsed r \<le> m_gasLimit m
    | Inl e \<Rightarrow> e \<notin> set out_of_fuel"
  using executeMessage_ends [OF assms(1,2,4,3,5,6,7)]
  unfolding upholds_def result_gas_def fine_def by blast

text \<open>Code that jumps back to its start for ever: \<open>JUMPDEST PUSH1 0 JUMP\<close>, sent 50 gas.\<close>

definition endless_call :: message where
  "endless_call = new_message\<lparr>m_caller := replicate 20 2, m_to := Some (replicate 20 5),
     m_gasLimit := 50, m_code := Some (Bytecode [0x5b, 0x60, 0, 0x56])\<rparr>"

definition bounded_cx :: evm_context where
  "bounded_cx = sample_cx\<lparr>cx_precompiles := (\<lambda>n d g. Inr (exec_ok 0 []))\<rparr>"

lemma sample_vm_fair: "fair_prices sample_vm"
proof -
  have price: "3 \<le> gasPrice sample_vm n" for n
    by (simp add: sample_vm_def)
  then have "1 \<le> gasPrice sample_vm n" "0 \<le> gasPrice sample_vm n" "least_fee sample_vm op \<le> gasPrice sample_vm n"
    for n op
    by (rule order_trans [rotated], simp add: least_fee_def)+
  moreover have "gasPrice sample_vm ''callStipend'' \<le> gasPrice sample_vm ''callValueTransfer''" "0 \<le> vm_chainId sample_vm"
    "vm_gteHardfork sample_vm ''tangerineWhistle''"
    by (simp_all add: sample_vm_def)
  ultimately show ?thesis
    unfolding fair_prices_def list_all_iff by blast
qed

theorem messages_terminate_witness:
  "case fst (executeMessage sample_vm bounded_cx 1025 endless_call sample_evm) of
      Inr (r, sd) \<Rightarrow> 0 \<le> g_gasUsed r \<and> g_gasUsed r \<le> 50
    | Inl e \<Rightarrow> e \<notin> set out_of_fuel"
proof -
  have "context_fine bounded_cx"
    by (simp add: context_fine_def bounded_cx_def sample_cx_def header_fine_def sample_header_def exec_ok_def)
  moreover have "vm_param sample_vm ''vm'' ''stackLimit'' = 1024" "cx_steps bounded_cx = 100"
    "m_depth endless_call = 0" "m_value endless_call = 0" and gas: "m_gasLimit endless_call = 50"
    by (simp_all add: sample_vm_def endless_call_def new_message_def bounded_cx_def sample_cx_def)
  ultimately show ?thesis
    using messages_terminate [OF sample_vm_fair, of bounded_cx endless_call 1025 sample_evm] by (simp only: gas)
qed

end
