(* ===== verification/Chain_Db.thy ===== *)
theory Chain_Db
  imports Block "HOL-Library.AList"
begin

text \<open>
  \<open>blockchain/src/db\<close>: the store of the blockchain and the blockchain object over it. The level database
  is a map from the targets of \<open>DBOp\<close> to values; \<open>dbKey\<close> gives the key bytes of a target, and
  \<open>dbKey_inj\<close> shows that two targets never share a key. The LRU caches, which hold what the database
  holds, are left out. A read that finds nothing throws the error of type \<open>NotFoundError\<close>.
\<close>

section \<open>Keys: \<open>db/constants.ts\<close>, \<open>db/operation.ts\<close>\<close>

datatype db_target =
    Heads | HeadHeader | HeadBlock | HashToNumber bytes | NumberToHash int
  | TotalDifficulty int bytes | Body int bytes | Header int bytes
  | CliqueSignerStates | CliqueVotes | CliqueBlockSigners

definition ascii :: "string \<Rightarrow> bytes" where
  "ascii s = map of_char s"

definition bufBE8 :: "int \<Rightarrow> exn + bytes" where
  "bufBE8 n = toArrayLike n 8"

fun dbKey :: "db_target \<Rightarrow> exn + bytes" where
  "dbKey Heads = Inr (ascii ''heads'')"
| "dbKey HeadHeader = Inr (ascii ''LastHeader'')"
| "dbKey HeadBlock = Inr (ascii ''LastBlock'')"
| "dbKey (HashToNumber h) = Inr (ascii ''H'' @ h)"
| "dbKey (NumberToHash n) = bindS (bufBE8 n) (\<lambda>b. Inr (ascii ''h'' @ b @ ascii ''n''))"
| "dbKey (TotalDifficulty n h) = bindS (bufBE8 n) (\<lambda>b. Inr (ascii ''h'' @ b @ h @ ascii ''t''))"
| "dbKey (Body n h) = bindS (bufBE8 n) (\<lambda>b. Inr (ascii ''b'' @ b @ h))"
| "dbKey (Header n h) = bindS (bufBE8 n) (\<lambda>b. Inr (ascii ''h'' @ b @ h))"
| "dbKey CliqueSignerStates = Inr (ascii ''CliqueSigners'')"
| "dbKey CliqueVotes = Inr (ascii ''CliqueVotes'')"
| "dbKey CliqueBlockSigners = Inr (ascii ''CliqueBlockSignersSnapshot'')"

text \<open>Targets whose hashes are hashes and whose numbers are not negative.\<close>

fun target_ok :: "db_target \<Rightarrow> bool" where
  "target_ok (HashToNumber h) \<longleftrightarrow> length h = 32"
| "target_ok (NumberToHash n) \<longleftrightarrow> 0 \<le> n"
| "target_ok (TotalDifficulty n h) \<longleftrightarrow> 0 \<le> n \<and> length h = 32"
| "target_ok (Body n h) \<longleftrightarrow> 0 \<le> n \<and> length h = 32"
| "target_ok (Header n h) \<longleftrightarrow> 0 \<le> n \<and> length h = 32"
| "target_ok _ \<longleftrightarrow> True"

lemma bufBE8_iff: "0 \<le> n \<Longrightarrow> bufBE8 n = Inr b \<longleftrightarrow> n < 2 ^ 64 \<and> b = be_bytes 8 n"
  by (auto simp: bufBE8_def toArrayLike_def byteLength_le_iff)

lemma be8_inj:
  assumes "0 \<le> a" "a < 2 ^ 64" "0 \<le> b" "b < 2 ^ 64"
  shows "be_bytes 8 a = be_bytes 8 b \<longleftrightarrow> a = b"
proof
  have m: "(256 :: int) ^ 8 = 2 ^ 64" by simp
  assume "be_bytes 8 a = be_bytes 8 b"
  then have "a mod 2 ^ 64 = b mod 2 ^ 64"
    using bn_of_be_bytes [of 8 a] bn_of_be_bytes [of 8 b] unfolding m by metis
  then show "a = b" using assms by (simp only: mod_pos_pos_trivial)
qed simp

lemma ascii_length [simp]: "length (ascii s) = length s"
  by (simp add: ascii_def)

lemma dbKey_inj:
  assumes "dbKey t = Inr k" "dbKey u = Inr k" "target_ok t" "target_ok u"
  shows "t = u"
proof -
  have len: "length k = (case x of Heads \<Rightarrow> 5 | HeadHeader \<Rightarrow> 10 | HeadBlock \<Rightarrow> 9 | HashToNumber h \<Rightarrow> 33
      | NumberToHash n \<Rightarrow> 10 | TotalDifficulty n h \<Rightarrow> 42 | Body n h \<Rightarrow> 41 | Header n h \<Rightarrow> 41
      | CliqueSignerStates \<Rightarrow> 13 | CliqueVotes \<Rightarrow> 11 | CliqueBlockSigners \<Rightarrow> 26)"
    if "dbKey x = Inr k" "target_ok x" for x
    using that by (cases x) (auto simp: bindS_Inr_iff bufBE8_iff)
  have chars: "of_char CHR ''L'' \<noteq> (of_char CHR ''h'' :: 8 word)" "of_char CHR ''b'' \<noteq> (of_char CHR ''h'' :: 8 word)"
    by simp_all
  show ?thesis
    using len [OF assms(1,3)] len [OF assms(2,4)] assms chars
    by (cases t; cases u) (auto simp: bindS_Inr_iff bufBE8_iff ascii_def be8_inj)
qed

section \<open>Operations and batches\<close>

type_synonym heads = "(string \<times> bytes) list"

datatype db_value = Buf bytes | Json heads

datatype db_op = Put db_target db_value | Del db_target

fun run_op :: "db_op \<Rightarrow> (db_target \<rightharpoonup> db_value) \<Rightarrow> (db_target \<rightharpoonup> db_value)" where
  "run_op (Put t v) db = db(t \<mapsto> v)"
| "run_op (Del t) db = db(t := None)"

definition batch :: "db_op list \<Rightarrow> (db_target \<rightharpoonup> db_value) \<Rightarrow> (db_target \<rightharpoonup> db_value)" where
  "batch ops db = fold run_op ops db"

text \<open>\<open>db/helpers.ts\<close>; the numbers here have passed \<open>bufBE8\<close>. \<open>rlp.encode\<close> takes the bytes of a \<open>BN\<close>.\<close>

definition DBSetTD :: "block_cfg \<Rightarrow> int \<Rightarrow> int \<Rightarrow> bytes \<Rightarrow> db_op" where
  "DBSetTD cfg td blockNumber blockHash =
     Put (TotalDifficulty blockNumber blockHash) (Buf (txc_encode (bc_tx cfg) (Item (toArrayLike_min td))))"

definition DBSetBlockOrHeader :: "block_cfg \<Rightarrow> block \<Rightarrow> db_op list" where
  "DBSetBlockOrHeader cfg b =
     (let header = b_header b; blockNumber = bh_number header; blockHash = header_hash cfg header
      in Put (Header blockNumber blockHash) (Buf (header_serialize cfg header)) #
         (if blockNumber = 0 \<or> b_transactions b \<noteq> [] \<or> b_uncleHeaders b \<noteq> []
          then [Put (Body blockNumber blockHash)
            (Buf (txc_encode (bc_tx cfg) (Items (tl (block_raw cfg b)))))] else []))"

definition DBSetHashToNumber :: "bytes \<Rightarrow> int \<Rightarrow> db_op" where
  "DBSetHashToNumber blockHash blockNumber = Put (HashToNumber blockHash) (Buf (be_bytes 8 blockNumber))"

definition DBSaveLookups :: "bytes \<Rightarrow> int \<Rightarrow> db_op list" where
  "DBSaveLookups blockHash blockNumber =
     [Put (NumberToHash blockNumber) (Buf blockHash), DBSetHashToNumber blockHash blockNumber]"

section \<open>The state of a blockchain\<close>

type_synonym signer_state = "int \<times> bytes list"
type_synonym clique_vote = "int \<times> bytes \<times> bytes \<times> bytes"
type_synonym block_signer = "int \<times> bytes"

record chain =
  ch_db :: "db_target \<rightharpoonup> db_value"
  ch_common :: common
  ch_genesis :: "bytes option"
  ch_headBlockHash :: "bytes option"
  ch_headHeaderHash :: "bytes option"
  ch_heads :: heads
  ch_signerStates :: "signer_state list"
  ch_votes :: "clique_vote list"
  ch_blockSigners :: "block_signer list"

text \<open>
  The options of the constructor, the check of the proof of work of the package \<open>ethash\<close>, and the
  configuration of headers and blocks.
\<close>

record chain_cfg =
  cc_block :: block_cfg
  cc_hardforkByHead :: bool
  cc_validateConsensus :: bool
  cc_validateBlocks :: bool
  cc_verifyPOW :: "block \<Rightarrow> exn + bool"

section \<open>Reading: \<open>db/manager.ts\<close>\<close>

definition not_found :: exn where
  "not_found = JsError ''NotFoundError''"

definition wrong_value :: exn where
  "wrong_value = JsError ''TypeError''"

definition db_get :: "chain \<Rightarrow> db_target \<Rightarrow> exn + db_value" where
  "db_get s t = bindS (dbKey t) (\<lambda>_. case ch_db s t of None \<Rightarrow> Inl not_found | Some v \<Rightarrow> Inr v)"

definition db_buffer :: "chain \<Rightarrow> db_target \<Rightarrow> exn + bytes" where
  "db_buffer s t = bindS (db_get s t) (\<lambda>v. case v of Buf b \<Rightarrow> Inr b | Json hs \<Rightarrow> Inl wrong_value)"

definition getHeads :: "chain \<Rightarrow> exn + heads" where
  "getHeads s = bindS (db_get s Heads) (\<lambda>v. case v of Json hs \<Rightarrow> Inr hs | Buf b \<Rightarrow> Inl wrong_value)"

definition hashToNumber :: "chain \<Rightarrow> bytes \<Rightarrow> exn + int" where
  "hashToNumber s blockHash = bindS (db_buffer s (HashToNumber blockHash)) (\<lambda>v. Inr (bn_of_bytes v))"

definition numberToHash :: "chain \<Rightarrow> int \<Rightarrow> exn + bytes" where
  "numberToHash s blockNumber =
     (if blockNumber < 0 then Inl not_found else db_buffer s (NumberToHash blockNumber))"

definition getTotalDifficulty :: "chain_cfg \<Rightarrow> chain \<Rightarrow> bytes \<Rightarrow> int \<Rightarrow> exn + int" where
  "getTotalDifficulty cc s blockHash blockNumber =
     bindS (db_buffer s (TotalDifficulty blockNumber blockHash)) (\<lambda>td.
     bindS (txc_decode (bc_tx (cc_block cc)) td) (\<lambda>x.
       case x of Item b \<Rightarrow> Inr (bn_of_bytes b) | Items xs \<Rightarrow> Inl wrong_value))"

definition read_opts :: "common \<Rightarrow> int option \<Rightarrow> block_opts" where
  "read_opts c td = no_block_opts\<lparr>bo_common := Some c,
     bo_hardforkByBlockNumber := (if td = None then Some True else None), bo_hardforkByTD := td\<rparr>"

text \<open>\<open>getHeader\<close> asks for the total difficulty of the canonical block before the number, which need not be the parent.\<close>

definition canonicalParentTd :: "chain_cfg \<Rightarrow> chain \<Rightarrow> int \<Rightarrow> exn + int option" where
  "canonicalParentTd cc s blockNumber =
     (if blockNumber = 0 then Inr None
      else bindS (numberToHash s (blockNumber - 1)) (\<lambda>parentHash.
           bindS (getTotalDifficulty cc s parentHash (blockNumber - 1)) (\<lambda>td. Inr (Some td))))"

definition db_getHeader :: "chain_cfg \<Rightarrow> chain \<Rightarrow> bytes \<Rightarrow> int \<Rightarrow> exn + block_header" where
  "db_getHeader cc s blockHash blockNumber =
     bindS (db_buffer s (Header blockNumber blockHash)) (\<lambda>encodedHeader.
     bindS (canonicalParentTd cc s blockNumber) (\<lambda>td.
       fromRLPSerializedHeader (cc_block cc) encodedHeader (read_opts (ch_common s) td)))"

definition catch_missing :: "'a \<Rightarrow> exn + 'a \<Rightarrow> exn + 'a" where
  "catch_missing d r = (case r of Inl e \<Rightarrow> if e = not_found then Inr d else Inl e | Inr x \<Rightarrow> Inr x)"

definition db_getBody :: "chain_cfg \<Rightarrow> chain \<Rightarrow> bytes \<Rightarrow> int \<Rightarrow> exn + rlp list" where
  "db_getBody cc s blockHash blockNumber =
     bindS (db_buffer s (Body blockNumber blockHash)) (\<lambda>body.
     bindS (txc_decode (bc_tx (cc_block cc)) body) (\<lambda>x.
       case x of Items xs \<Rightarrow> Inr xs | Item b \<Rightarrow> Inl wrong_value))"

text \<open>The part of \<open>getBlock\<close> after the lookup of hash and number.\<close>

definition db_block :: "chain_cfg \<Rightarrow> chain \<Rightarrow> bytes \<Rightarrow> int \<Rightarrow> exn + block" where
  "db_block cc s hash number =
     bindS (db_getHeader cc s hash number) (\<lambda>header.
     bindS (catch_missing [Items [], Items []] (db_getBody cc s hash number)) (\<lambda>body.
     bindS (if number = 0 then Inr None
            else bindS (getTotalDifficulty cc s (bh_parentHash header) (number - 1)) (\<lambda>td. Inr (Some td))) (\<lambda>td.
       block_fromValuesArray (cc_block cc) (header_rlp header # body) (read_opts (ch_common s) td))))"

definition getBlock :: "chain_cfg \<Rightarrow> chain \<Rightarrow> bytes \<Rightarrow> exn + block" where
  "getBlock cc s hash = bindS (hashToNumber s hash) (\<lambda>number. db_block cc s hash number)"

definition getBlock_number :: "chain_cfg \<Rightarrow> chain \<Rightarrow> int \<Rightarrow> exn + block" where
  "getBlock_number cc s number = bindS (numberToHash s number) (\<lambda>hash. db_block cc s hash number)"

section \<open>Writing\<close>

definition db_batch :: "db_op list \<Rightarrow> (chain, unit) eff" where
  "db_batch ops = modif (\<lambda>s. s\<lparr>ch_db := batch ops (ch_db s)\<rparr>)"

text \<open>An effect that only reads.\<close>

definition reads :: "('s \<Rightarrow> exn + 'a) \<Rightarrow> ('s, 'a) eff" where
  "reads f s = (f s, s)"

end
