(* ===== verification/Chain_Clique.thy ===== *)
theory Chain_Clique
  imports Chain_Db
begin

text \<open>
  The clique part of \<open>blockchain/src/index.ts\<close> and \<open>clique.ts\<close>: the states of the signers, their votes and
  the signers of the last blocks, each kept in memory and saved to the database.
\<close>

definition CLIQUE_NONCE_AUTH :: bytes where
  "CLIQUE_NONCE_AUTH = replicate 8 0xff"

definition CLIQUE_NONCE_DROP :: bytes where
  "CLIQUE_NONCE_DROP = replicate 8 0"

definition CLIQUE_SIGNER_HISTORY_BLOCK_LIMIT :: int where
  "CLIQUE_SIGNER_HISTORY_BLOCK_LIMIT = 100"

definition chain_requireClique :: "chain \<Rightarrow> exn + unit" where
  "chain_requireClique s =
     (if consensusAlgorithm (ch_common s) \<noteq> ''clique''
      then Inl (JsError ''Function call only supported for clique PoA networks'') else Inr ())"

definition cliqueActiveSigners :: "chain \<Rightarrow> exn + bytes list" where
  "cliqueActiveSigners s =
     bindS (chain_requireClique s) (\<lambda>_.
       Inr (if length (ch_signerStates s) = 0 then [] else snd (last (ch_signerStates s))))"

definition cliqueSignerLimit :: "chain \<Rightarrow> exn + nat" where
  "cliqueSignerLimit s = bindS (cliqueActiveSigners s) (\<lambda>signers. Inr (length signers div 2 + 1))"

definition cliqueCheckRecentlySigned :: "chain_cfg \<Rightarrow> chain \<Rightarrow> block_header \<Rightarrow> exn + bool" where
  "cliqueCheckRecentlySigned cc s header =
     (if isGenesis header \<or> bh_number header = 1 then Inr False
      else bindS (cliqueSignerLimit s) (\<lambda>limit.
        let latest = ch_blockSigners s;
            signers = (if length latest < limit then latest else tl latest)
        in if 0 < length signers \<and> fst (last signers) \<noteq> bh_number header - 1 then Inr False
           else bindS (cliqueSigner (cc_block cc) header) (\<lambda>signer.
             let signers' = signers @ [(bh_number header, signer)]
             in Inr (1 < length (filter (\<lambda>x. snd x = signer) signers')))))"

section \<open>Signer states\<close>

definition rlp_signer_states :: "signer_state list \<Rightarrow> rlp" where
  "rlp_signer_states states =
     Items (map (\<lambda>(n, as). Items [Item (toArrayLike_min n), Items (map Item as)]) states)"

definition rlp_votes :: "clique_vote list \<Rightarrow> rlp" where
  "rlp_votes votes =
     Items (map (\<lambda>(n, a, b, c). Items [Item (toArrayLike_min n), Items [Item a, Item b, Item c]]) votes)"

definition rlp_block_signers :: "block_signer list \<Rightarrow> rlp" where
  "rlp_block_signers signers = Items (map (\<lambda>(n, a). Items [Item (toArrayLike_min n), Item a]) signers)"

definition save_rlp :: "chain_cfg \<Rightarrow> db_target \<Rightarrow> (chain \<Rightarrow> rlp) \<Rightarrow> (chain, unit) eff" where
  "save_rlp cc t f = bnd (gets f) (\<lambda>x. db_batch [Put t (Buf (txc_encode (bc_tx (cc_block cc)) x))])"

text \<open>The number of the last block in the list of block signers.\<close>

definition lastBlockNumber :: "chain \<Rightarrow> int option" where
  "lastBlockNumber s = (if ch_blockSigners s = [] then None else Some (fst (last (ch_blockSigners s))))"

definition trim_signer_states :: "int \<Rightarrow> signer_state list \<Rightarrow> signer_state list" where
  "trim_signer_states number states =
     (let kept = filter (\<lambda>state. fst state \<ge> number - CLIQUE_SIGNER_HISTORY_BLOCK_LIMIT) states
      in if length kept = 0 then [last states] else kept)"

definition cliqueUpdateSignerStates :: "chain_cfg \<Rightarrow> signer_state option \<Rightarrow> (chain, unit) eff" where
  "cliqueUpdateSignerStates cc signerState =
     andthen (case signerState of
        Some st \<Rightarrow> modif (\<lambda>s. s\<lparr>ch_signerStates := ch_signerStates s @ [st]\<rparr>) | None \<Rightarrow> ret ())
    (bnd (gets lastBlockNumber) (\<lambda>number.
     andthen (case number of
        Some n \<Rightarrow> bnd (gets ch_signerStates) (\<lambda>states.
          andthen (guard_eff (states \<noteq> []) wrong_value)
            (modif (\<lambda>s. s\<lparr>ch_signerStates := trim_signer_states n states\<rparr>)))
      | None \<Rightarrow> ret ())
    (andthen (save_rlp cc CliqueSignerStates (\<lambda>s. rlp_signer_states (ch_signerStates s)))
      (bnd (reads cliqueActiveSigners) (\<lambda>_. ret ())))))"

section \<open>Votes\<close>

fun buffer_le :: "bytes \<Rightarrow> bytes \<Rightarrow> bool" where
  "buffer_le [] ys \<longleftrightarrow> True"
| "buffer_le (x # xs) [] \<longleftrightarrow> False"
| "buffer_le (x # xs) (y # ys) \<longleftrightarrow> x < y \<or> x = y \<and> buffer_le xs ys"

fun insert_buffer :: "bytes \<Rightarrow> bytes list \<Rightarrow> bytes list" where
  "insert_buffer x [] = [x]"
| "insert_buffer x (y # ys) = (if buffer_le x y then x # y # ys else y # insert_buffer x ys)"

text \<open>\<open>sort\<close> by the comparison of buffers.\<close>

definition sort_buffers :: "bytes list \<Rightarrow> bytes list" where
  "sort_buffers xs = foldr insert_buffer xs []"

text \<open>The different voters, but for the signer of the block, who voted so in the epoch.\<close>

definition voters :: "clique_vote list \<Rightarrow> int \<Rightarrow> bytes \<Rightarrow> bytes \<Rightarrow> bytes \<Rightarrow> bytes list" where
  "voters votes lastEpoch signer beneficiary nonce =
     fold set_add (map (\<lambda>(n, a, b, c). a)
       (filter (\<lambda>(n, a, b, c). lastEpoch \<le> n \<and> a \<noteq> signer \<and> b = beneficiary \<and> c = nonce) votes)) []"

text \<open>A round of the loop of \<open>cliqueUpdateVotes\<close>: the signers and the votes after it, and whether there was consensus.\<close>

definition count_round ::
  "nat \<Rightarrow> nat \<Rightarrow> int \<Rightarrow> clique_vote \<Rightarrow> bytes list \<Rightarrow> clique_vote list \<Rightarrow> bytes list \<times> clique_vote list \<times> bool" where
  "count_round round limit lastEpoch latestVote active votes =
     (let (number, signer, beneficiary, nonce) = latestVote;
          numAUTH = length (voters votes lastEpoch signer beneficiary CLIQUE_NONCE_AUTH) +
            (if round = 2 \<and> nonce = CLIQUE_NONCE_AUTH then 1 else 0);
          (active1, votes1, yes1) =
            (if limit \<le> numAUTH
             then (sort_buffers (active @ [beneficiary]), filter (\<lambda>(n, a, b, c). b \<noteq> beneficiary) votes, True)
             else (active, votes, False));
          numDROP = length (voters votes1 lastEpoch signer beneficiary CLIQUE_NONCE_DROP) +
            (if round = 2 \<and> nonce = CLIQUE_NONCE_DROP then 1 else 0);
          (active2, votes2, yes2) =
            (if limit \<le> numDROP
             then (filter (\<lambda>a. a \<noteq> beneficiary) active1,
               filter (\<lambda>(n, a, b, c). a \<noteq> beneficiary \<and> b \<noteq> beneficiary) votes1, True)
             else (active1, votes1, yes1))
      in (active2, if round = 1 then votes2 @ [latestVote] else votes2, yes2))"

definition vote_round :: "chain_cfg \<Rightarrow> nat \<Rightarrow> clique_vote \<Rightarrow> (chain, bool) eff" where
  "vote_round cc round latestVote =
     bnd (gets ch_common) (\<lambda>c.
     bnd (of_sum (mod_checked (fst latestVote) (bc_epoch (cc_block cc) c))) (\<lambda>r.
     bnd (reads cliqueSignerLimit) (\<lambda>limit.
     bnd (reads cliqueActiveSigners) (\<lambda>activeSigners.
     bnd (gets ch_votes) (\<lambda>votes.
       let (active, votes', consensus) =
             count_round round limit (fst latestVote - r) latestVote activeSigners votes
       in andthen (modif (\<lambda>s. s\<lparr>ch_votes := votes'\<rparr>))
         (andthen (when_eff consensus (cliqueUpdateSignerStates cc (Some (fst latestVote, active))))
           (ret consensus)))))))"

definition trim_votes :: "chain_cfg \<Rightarrow> (chain, unit) eff" where
  "trim_votes cc =
     bnd (gets lastBlockNumber) (\<lambda>number.
       case number of
         None \<Rightarrow> ret ()
       | Some n \<Rightarrow>
           bnd (gets ch_common) (\<lambda>c.
           bnd (of_sum (mod_checked n (bc_epoch (cc_block cc) c))) (\<lambda>r.
             modif (\<lambda>s. s\<lparr>ch_votes :=
               filter (\<lambda>v. fst v \<ge> n - r - CLIQUE_SIGNER_HISTORY_BLOCK_LIMIT) (ch_votes s)\<rparr>))))"

definition save_votes :: "chain_cfg \<Rightarrow> (chain, unit) eff" where
  "save_votes cc = andthen (trim_votes cc) (save_rlp cc CliqueVotes (\<lambda>s. rlp_votes (ch_votes s)))"

text \<open>A consensus returns before the votes are saved.\<close>

definition cliqueUpdateVotes :: "chain_cfg \<Rightarrow> block_header option \<Rightarrow> (chain, unit) eff" where
  "cliqueUpdateVotes cc header =
     (case header of
        None \<Rightarrow> save_votes cc
      | Some h \<Rightarrow>
          if bh_coinbase h = replicate 20 0 then save_votes cc
          else bnd (of_sum (cliqueSigner (cc_block cc) h)) (\<lambda>signer.
            let latestVote = (bh_number h, signer, bh_coinbase h, bh_nonce h)
            in bnd (vote_round cc 1 latestVote) (\<lambda>consensus.
               if consensus then ret ()
               else bnd (vote_round cc 2 latestVote) (\<lambda>consensus'.
                 if consensus' then ret () else save_votes cc))))"

section \<open>Signers of the last blocks\<close>

definition save_block_signers :: "chain_cfg \<Rightarrow> (chain, unit) eff" where
  "save_block_signers cc = save_rlp cc CliqueBlockSigners (\<lambda>s. rlp_block_signers (ch_blockSigners s))"

definition cliqueUpdateLatestBlockSigners :: "chain_cfg \<Rightarrow> block_header option \<Rightarrow> (chain, unit) eff" where
  "cliqueUpdateLatestBlockSigners cc header =
     (case header of
        None \<Rightarrow> save_block_signers cc
      | Some h \<Rightarrow>
          if isGenesis h then ret ()
          else bnd (of_sum (cliqueSigner (cc_block cc) h)) (\<lambda>signer.
            andthen (modif (\<lambda>s. s\<lparr>ch_blockSigners := ch_blockSigners s @ [(bh_number h, signer)]\<rparr>))
           (bnd (reads cliqueSignerLimit) (\<lambda>limit.
            andthen (modif (\<lambda>s. let l = ch_blockSigners s
                in if limit < length l then s\<lparr>ch_blockSigners := drop (length l - limit) l\<rparr> else s))
              (save_block_signers cc)))))"

section \<open>Snapshots\<close>

definition cliqueSaveGenesisSigners :: "chain_cfg \<Rightarrow> block \<Rightarrow> (chain, unit) eff" where
  "cliqueSaveGenesisSigners cc genesisBlock =
     bnd (of_sum (cliqueEpochTransitionSigners (cc_block cc) (b_header genesisBlock))) (\<lambda>signers.
     andthen (cliqueUpdateSignerStates cc (Some (0, signers))) (cliqueUpdateVotes cc None))"

definition cliqueBuildSnapshots :: "chain_cfg \<Rightarrow> block_header \<Rightarrow> (chain, unit) eff" where
  "cliqueBuildSnapshots cc header =
     bnd (of_sum (cliqueIsEpochTransition (cc_block cc) header)) (\<lambda>transition.
     andthen (when_eff (\<not> transition) (cliqueUpdateVotes cc (Some header)))
       (cliqueUpdateLatestBlockSigners cc (Some header)))"

definition cliqueDeleteSnapshots :: "chain_cfg \<Rightarrow> int \<Rightarrow> (chain, unit) eff" where
  "cliqueDeleteSnapshots cc blockNumber =
     andthen (modif (\<lambda>s. s\<lparr>ch_signerStates := filter (\<lambda>x. fst x \<le> blockNumber) (ch_signerStates s)\<rparr>))
    (andthen (cliqueUpdateSignerStates cc None)
    (andthen (modif (\<lambda>s. s\<lparr>ch_votes := filter (\<lambda>x. fst x \<le> blockNumber) (ch_votes s)\<rparr>))
    (andthen (cliqueUpdateVotes cc None)
    (andthen (modif (\<lambda>s. s\<lparr>ch_blockSigners := filter (\<lambda>x. fst x \<le> blockNumber) (ch_blockSigners s)\<rparr>))
      (cliqueUpdateLatestBlockSigners cc None)))))"

section \<open>Reading the snapshots: \<open>db/manager.ts\<close>\<close>

definition snapshot_items :: "chain_cfg \<Rightarrow> chain \<Rightarrow> db_target \<Rightarrow> exn + rlp list" where
  "snapshot_items cc s t =
     catch_missing [] (bindS (db_buffer s t) (\<lambda>b.
       bindS (txc_decode (bc_tx (cc_block cc)) b) (\<lambda>x.
         case x of Items xs \<Rightarrow> Inr xs | Item b \<Rightarrow> Inl wrong_value)))"

definition read_signer_state :: "rlp \<Rightarrow> exn + signer_state" where
  "read_signer_state x =
     (case x of
        Items [Item n, Items as] \<Rightarrow>
          bindS (rlp_buffers as) (\<lambda>bs. bindS (map_exn newAddress bs) (\<lambda>signers. Inr (bn_of_bytes n, signers)))
      | _ \<Rightarrow> Inl wrong_value)"

definition read_vote :: "rlp \<Rightarrow> exn + clique_vote" where
  "read_vote x =
     (case x of
        Items [Item n, Items [Item a, Item b, Item c]] \<Rightarrow>
          bindS (newAddress a) (\<lambda>signer. bindS (newAddress b) (\<lambda>beneficiary.
            Inr (bn_of_bytes n, signer, beneficiary, c)))
      | _ \<Rightarrow> Inl wrong_value)"

definition read_block_signer :: "rlp \<Rightarrow> exn + block_signer" where
  "read_block_signer x =
     (case x of
        Items [Item n, Item a] \<Rightarrow> bindS (newAddress a) (\<lambda>signer. Inr (bn_of_bytes n, signer))
      | _ \<Rightarrow> Inl wrong_value)"

definition getCliqueLatestSignerStates :: "chain_cfg \<Rightarrow> chain \<Rightarrow> exn + signer_state list" where
  "getCliqueLatestSignerStates cc s = bindS (snapshot_items cc s CliqueSignerStates) (map_exn read_signer_state)"

definition getCliqueLatestVotes :: "chain_cfg \<Rightarrow> chain \<Rightarrow> exn + clique_vote list" where
  "getCliqueLatestVotes cc s = bindS (snapshot_items cc s CliqueVotes) (map_exn read_vote)"

definition getCliqueLatestBlockSigners :: "chain_cfg \<Rightarrow> chain \<Rightarrow> exn + block_signer list" where
  "getCliqueLatestBlockSigners cc s = bindS (snapshot_items cc s CliqueBlockSigners) (map_exn read_block_signer)"

end
