(* ===== verification/Blockchain.thy ===== *)
theory Blockchain
  imports Chain_Clique
begin

text \<open>
  \<open>blockchain/src/index.ts\<close>: putting blocks and headers, the canonical chain and its reorganisation,
  deleting blocks, and the iterators. The lock around the operations is left out: each runs alone.
\<close>

section \<open>Reads\<close>

definition safeNumberToHash :: "chain \<Rightarrow> int \<Rightarrow> exn + bytes option" where
  "safeNumberToHash s number = catch_missing None (bindS (numberToHash s number) (\<lambda>h. Inr (Some h)))"

definition chain_getHeader :: "chain_cfg \<Rightarrow> chain \<Rightarrow> bytes \<Rightarrow> exn + block_header" where
  "chain_getHeader cc s hash = bindS (hashToNumber s hash) (\<lambda>number. db_getHeader cc s hash number)"

definition getCanonicalHeader :: "chain_cfg \<Rightarrow> chain \<Rightarrow> int \<Rightarrow> exn + block_header" where
  "getCanonicalHeader cc s number = bindS (numberToHash s number) (\<lambda>hash. db_getHeader cc s hash number)"

definition totalDifficulty_of :: "chain_cfg \<Rightarrow> chain \<Rightarrow> bytes \<Rightarrow> exn + int" where
  "totalDifficulty_of cc s hash = bindS (hashToNumber s hash) (getTotalDifficulty cc s hash)"

definition head_block :: "chain_cfg \<Rightarrow> chain \<Rightarrow> bytes option \<Rightarrow> exn \<Rightarrow> exn + block" where
  "head_block cc s hash missing = (case hash of None \<Rightarrow> Inl missing | Some h \<Rightarrow> getBlock cc s h)"

definition or_hash :: "bytes option \<Rightarrow> bytes option \<Rightarrow> bytes option" where
  "or_hash a b = (case a of Some h \<Rightarrow> Some h | None \<Rightarrow> b)"

definition getIteratorHead :: "chain_cfg \<Rightarrow> chain \<Rightarrow> string \<Rightarrow> exn + block" where
  "getIteratorHead cc s name =
     head_block cc s (or_hash (map_of (ch_heads s) name) (ch_genesis s)) (JsError ''No head found.'')"

definition chain_getHead :: "chain_cfg \<Rightarrow> chain \<Rightarrow> string \<Rightarrow> exn + block" where
  "chain_getHead cc s name =
     head_block cc s (or_hash (map_of (ch_heads s) name) (ch_headBlockHash s)) (JsError ''No head found.'')"

definition getLatestHeader :: "chain_cfg \<Rightarrow> chain \<Rightarrow> exn + block_header" where
  "getLatestHeader cc s =
     bindS (head_block cc s (ch_headHeaderHash s) (JsError ''No head header set'')) (\<lambda>b. Inr (b_header b))"

definition getLatestBlock :: "chain_cfg \<Rightarrow> chain \<Rightarrow> exn + block" where
  "getLatestBlock cc s = head_block cc s (ch_headBlockHash s) (JsError ''No head block set'')"

definition cliqueSignerInTurn :: "chain_cfg \<Rightarrow> chain \<Rightarrow> bytes \<Rightarrow> exn + bool" where
  "cliqueSignerInTurn cc s signer =
     bindS (cliqueActiveSigners s) (\<lambda>signers.
       let signerIndex = signer_index signers signer 0
       in if signerIndex = -1 then Inl (JsError ''Signer not found'')
          else bindS (getLatestHeader cc s) (\<lambda>header.
            Inr (bn_mod (bh_number header + 1) (int (length signers)) = signerIndex)))"

section \<open>Stale references\<close>

text \<open>An assignment to the key of an object.\<close>

definition set_head :: "string \<Rightarrow> bytes \<Rightarrow> heads \<Rightarrow> heads" where
  "set_head name hash heads = AList.update name hash heads"

definition reset_stale :: "bytes \<Rightarrow> bytes \<Rightarrow> chain \<Rightarrow> chain" where
  "reset_stale hash headHash s = s\<lparr>
     ch_heads := map (\<lambda>(name, h). (name, if h = hash then headHash else h)) (ch_heads s),
     ch_headBlockHash := (if ch_headBlockHash s = Some hash then Some headHash else ch_headBlockHash s)\<rparr>"

lemma number_read:
  assumes "safeNumberToHash s n = Inr (Some h)"
  shows "0 \<le> n \<and> n < 2 ^ 64"
  using assms
  by (auto simp: safeNumberToHash_def catch_missing_def numberToHash_def db_buffer_def db_get_def bindS_Inr_iff
      bufBE8_iff split: sum.splits if_splits)

text \<open>The numbers end at the first that is not in the chain, and never pass the width of a key.\<close>

function deleteCanonicalChainReferences ::
  "int \<Rightarrow> bytes \<Rightarrow> db_op list \<Rightarrow> chain \<Rightarrow> (exn + db_op list) \<times> chain" where
  "deleteCanonicalChainReferences blockNumber headHash ops s =
     (case safeNumberToHash s blockNumber of
        Inl e \<Rightarrow> (Inl e, s)
      | Inr None \<Rightarrow> (Inr ops, s)
      | Inr (Some hash) \<Rightarrow>
          deleteCanonicalChainReferences (blockNumber + 1) headHash
            (ops @ [Del (NumberToHash blockNumber)]) (reset_stale hash headHash s))"
  by pat_completeness auto
termination
  by (relation "measure (\<lambda>(n, h, ops, s). nat (2 ^ 64 - n))") (auto dest: number_read)

declare deleteCanonicalChainReferences.simps [simp del]

text \<open>
  The loop of \<open>_rebuildCanonical\<close>, which only reads. Its state: the operations, the stale heads, whether
  the head block is stale, and the canonical hash. The header of number \<open>n\<close> is the \<open>n\<close>th from the
  genesis block, so the loop ends within as many steps.
\<close>

record rebuild =
  rb_ops :: "db_op list"
  rb_staleHeads :: "string list"
  rb_staleHeadBlock :: bool
  rb_currentCanonicalHash :: bytes

definition mark_stale :: "chain \<Rightarrow> bytes option \<Rightarrow> rebuild \<Rightarrow> rebuild" where
  "mark_stale s staleHash r =
     (case staleHash of
        None \<Rightarrow> r
      | Some hash \<Rightarrow> r\<lparr>
          rb_staleHeads := rb_staleHeads r @ map fst (filter (\<lambda>(name, h). h = hash) (ch_heads s)),
          rb_staleHeadBlock := (rb_staleHeadBlock r \<or> ch_headBlockHash s = Some hash)\<rparr>)"

fun rebuild_loop ::
  "chain_cfg \<Rightarrow> chain \<Rightarrow> nat \<Rightarrow> block_header \<Rightarrow> int \<Rightarrow> rebuild \<Rightarrow> exn + rebuild" where
  "rebuild_loop cc s 0 header currentNumber r = Inl (JsError ''no header of this number'')"
| "rebuild_loop cc s (Suc k) header currentNumber r =
     bindS (safeNumberToHash s currentNumber) (\<lambda>staleHash.
       let hash = header_hash (cc_block cc) header; r1 = r\<lparr>rb_currentCanonicalHash := hash\<rparr>
       in if staleHash = Some hash \<or> bh_number header = 0 then Inr r1
          else
            let r2 = mark_stale s staleHash (r1\<lparr>rb_ops := rb_ops r1 @ DBSaveLookups hash (bh_number header)\<rparr>)
            in (case db_getHeader cc s (bh_parentHash header) (currentNumber - 1) of
                  Inl e \<Rightarrow> if e = not_found then Inr (r2\<lparr>rb_staleHeads := []\<rparr>) else Inl e
                | Inr parent \<Rightarrow> rebuild_loop cc s k parent (currentNumber - 1) r2))"

definition rebuildCanonical :: "chain_cfg \<Rightarrow> block_header \<Rightarrow> db_op list \<Rightarrow> (chain, db_op list) eff" where
  "rebuildCanonical cc header ops =
     bnd (reads (\<lambda>s. rebuild_loop cc s (Suc (nat (bh_number header))) header (bh_number header)
            \<lparr>rb_ops = ops, rb_staleHeads = [], rb_staleHeadBlock = False,
             rb_currentCanonicalHash = header_hash (cc_block cc) header\<rparr>)) (\<lambda>r.
     andthen (modif (\<lambda>s. s\<lparr>
         ch_heads := fold (\<lambda>name. set_head name (rb_currentCanonicalHash r)) (rb_staleHeads r) (ch_heads s),
         ch_headBlockHash := (if rb_staleHeadBlock r then Some (rb_currentCanonicalHash r)
           else ch_headBlockHash s)\<rparr>))
       (ret (rb_ops r)))"

definition saveHeadOps :: "chain \<Rightarrow> db_op list" where
  "saveHeadOps s =
     [Put Heads (Json (ch_heads s)),
      Put HeadHeader (Buf (case ch_headHeaderHash s of Some h \<Rightarrow> h | None \<Rightarrow> [])),
      Put HeadBlock (Buf (case ch_headBlockHash s of Some h \<Rightarrow> h | None \<Rightarrow> []))]"

definition saveHeads :: "(chain, unit) eff" where
  "saveHeads = bnd (gets saveHeadOps) db_batch"

section \<open>The common ancestor\<close>

text \<open>The two loops of \<open>_findAncient\<close>, which go down one number at a time.\<close>

fun ancient_down :: "chain_cfg \<Rightarrow> chain \<Rightarrow> nat \<Rightarrow> int \<Rightarrow> block_header \<Rightarrow> exn + block_header" where
  "ancient_down cc s 0 number newHeader = Inr newHeader"
| "ancient_down cc s (Suc k) number newHeader =
     (if number \<noteq> bh_number newHeader \<and> bh_number newHeader > 0
      then bindS (db_getHeader cc s (bh_parentHash newHeader) (bh_number newHeader - 1))
             (ancient_down cc s k number)
      else Inr newHeader)"

fun ancient_common ::
  "chain_cfg \<Rightarrow> chain \<Rightarrow> nat \<Rightarrow> block_header \<Rightarrow> block_header \<Rightarrow> exn + block_header \<times> block_header" where
  "ancient_common cc s 0 header newHeader = Inr (header, newHeader)"
| "ancient_common cc s (Suc k) header newHeader =
     (if header_hash (cc_block cc) header \<noteq> header_hash (cc_block cc) newHeader \<and> bh_number header > 0
      then bindS (getCanonicalHeader cc s (bh_number header - 1)) (\<lambda>header'.
           bindS (db_getHeader cc s (bh_parentHash newHeader) (bh_number newHeader - 1)) (\<lambda>newHeader'.
             ancient_common cc s k header' newHeader'))
      else Inr (header, newHeader))"

definition findAncient :: "chain_cfg \<Rightarrow> chain \<Rightarrow> block_header \<Rightarrow> exn + block_header" where
  "findAncient cc s newHeader0 =
     bindS (getLatestHeader cc s) (\<lambda>header0.
     bindS (if bh_number header0 > bh_number newHeader0
            then bindS (getCanonicalHeader cc s (bh_number newHeader0)) (\<lambda>header. Inr (header, newHeader0))
            else bindS (ancient_down cc s (nat (bh_number newHeader0)) (bh_number header0) newHeader0)
                   (\<lambda>newHeader. Inr (header0, newHeader))) (\<lambda>(header1, newHeader1).
       if bh_number header1 \<noteq> bh_number newHeader1 then Inl (JsError ''Failed to find ancient header'')
       else bindS (ancient_common cc s (nat (bh_number header1)) header1 newHeader1) (\<lambda>(header, newHeader).
         if header_hash (cc_block cc) header \<noteq> header_hash (cc_block cc) newHeader
         then Inl (JsError ''Failed to find ancient header'') else Inr header)))"

section \<open>Putting blocks and headers\<close>

datatype chain_item = PutBlock block | PutHeader block_header

text \<open>The block of an item: a header becomes a block without a body.\<close>

definition item_block :: "chain_item \<Rightarrow> exn + block" where
  "item_block item = (case item of PutBlock b \<Rightarrow> Inr b | PutHeader h \<Rightarrow> new_block h [] [])"

definition is_header :: "chain_item \<Rightarrow> bool" where
  "is_header item = (case item of PutBlock b \<Rightarrow> False | PutHeader h \<Rightarrow> True)"

definition chain_of :: "chain_cfg \<Rightarrow> chain \<Rightarrow> blockchain" where
  "chain_of cc s = \<lparr>
     bk_activeSigners = (case cliqueActiveSigners s of Inr signers \<Rightarrow> Some signers | Inl e \<Rightarrow> Some []),
     bk_getBlock = (\<lambda>h. catch_missing None (bindS (getBlock cc s h) (\<lambda>b. Inr (Some b))))\<rparr>"

definition check_pow :: "chain_cfg \<Rightarrow> chain \<Rightarrow> block \<Rightarrow> exn + unit" where
  "check_pow cc s b =
     (if consensusAlgorithm (ch_common s) = ''ethash''
      then requireS (cc_verifyPOW cc b) ''invalid POW'' else Inr ())"

definition check_clique :: "chain_cfg \<Rightarrow> chain \<Rightarrow> block \<Rightarrow> exn + unit" where
  "check_clique cc s b =
     (if consensusAlgorithm (ch_common s) = ''clique''
      then bindS (cliqueActiveSigners s) (\<lambda>signers.
           bindS (requireS (cliqueVerifySignature (cc_block cc) (b_header b) signers)
                    ''invalid PoA block signature (clique)'') (\<lambda>_.
           bindS (cliqueCheckRecentlySigned cc s (b_header b)) (\<lambda>recently.
             require (\<not> recently) ''recently signed'')))
      else Inr ())"

fun same_signers :: "bytes list \<Rightarrow> bytes list \<Rightarrow> bool" where
  "same_signers [] active \<longleftrightarrow> True"
| "same_signers (c # cs) [] \<longleftrightarrow> False"
| "same_signers (c # cs) (a # as) \<longleftrightarrow> a = c \<and> same_signers cs as"

definition check_epoch :: "chain_cfg \<Rightarrow> chain \<Rightarrow> block \<Rightarrow> exn + unit" where
  "check_epoch cc s b =
     (if consensusAlgorithm (ch_common s) = ''clique''
      then bindS (cliqueIsEpochTransition (cc_block cc) (b_header b)) (\<lambda>transition.
           if \<not> transition then Inr ()
           else bindS (cliqueEpochTransitionSigners (cc_block cc) (b_header b)) (\<lambda>checkpointSigners.
                bindS (cliqueActiveSigners s) (\<lambda>activeSigners.
                  require (same_signers checkpointSigners activeSigners)
                    ''checkpoint signer not found in active signers list'')))
      else Inr ())"

text \<open>The checks of \<open>_putBlockOrHeader\<close> before the total difficulties are read.\<close>

definition check_item :: "chain_cfg \<Rightarrow> bool \<Rightarrow> block \<Rightarrow> chain \<Rightarrow> exn + unit" where
  "check_item cc isHeader b s =
     bindS (require (\<not> block_isGenesis b) ''Cannot put a genesis block: create a new Blockchain'') (\<lambda>_.
     bindS (require (chainIdBN (b_common b) = chainIdBN (ch_common s))
              ''Chain mismatch while trying to put block or header'') (\<lambda>_.
     bindS (if cc_validateBlocks cc then fst (block_validate (cc_block cc) (chain_of cc s) isHeader b) else Inr ())
       (\<lambda>_.
     bindS (if cc_validateConsensus cc
            then bindS (check_pow cc s b) (\<lambda>_. check_clique cc s b) else Inr ()) (\<lambda>_.
       check_epoch cc s b))))"

definition head_td :: "chain_cfg \<Rightarrow> chain \<Rightarrow> bytes option \<Rightarrow> exn + int" where
  "head_td cc s hash = (case hash of None \<Rightarrow> Inr 0 | Some h \<Rightarrow> totalDifficulty_of cc s h)"

text \<open>A block that becomes the head: heads, hardfork, and the operations of the reorganisation.\<close>

definition make_head :: "chain_cfg \<Rightarrow> bool \<Rightarrow> block \<Rightarrow> int \<Rightarrow> db_op list \<Rightarrow> (chain, db_op list) eff" where
  "make_head cc isHeader b td ops =
     (let header = b_header b; blockHash = header_hash (cc_block cc) header
      in andthen (modif (\<lambda>s. s\<lparr>ch_headHeaderHash := Some blockHash,
            ch_headBlockHash := (if isHeader then ch_headBlockHash s else Some blockHash)\<rparr>))
        (andthen (when_eff (cc_hardforkByHead cc)
           (bnd (reads (\<lambda>s. setHardforkByBlockNumber (ch_common s) (bh_number header) (Some td)))
             (\<lambda>(c, h). modif (\<lambda>s. s\<lparr>ch_common := c\<rparr>))))
        (bnd (deleteCanonicalChainReferences (bh_number header + 1) blockHash ops) (\<lambda>ops'.
           rebuildCanonical cc header ops'))))"

fun build_snapshots :: "chain_cfg \<Rightarrow> nat \<Rightarrow> int \<Rightarrow> (chain, unit) eff" where
  "build_snapshots cc 0 number = ret ()"
| "build_snapshots cc (Suc k) number =
     bnd (reads (\<lambda>s. getCanonicalHeader cc s number)) (\<lambda>canonicalHeader.
     andthen (cliqueBuildSnapshots cc canonicalHeader) (build_snapshots cc k (number + 1)))"

definition update_snapshots :: "chain_cfg \<Rightarrow> int option \<Rightarrow> int \<Rightarrow> (chain, unit) eff" where
  "update_snapshots cc ancient number =
     (case ancient of
        None \<Rightarrow> ret ()
      | Some n \<Rightarrow> andthen (cliqueDeleteSnapshots cc (n + 1))
          (build_snapshots cc (nat (number - n)) (n + 1)))"

text \<open>The block after its checks, with its total difficulty: stored, and canonical when it is heavier.\<close>

definition store_block :: "chain_cfg \<Rightarrow> bool \<Rightarrow> block \<Rightarrow> int \<Rightarrow> int \<Rightarrow> int \<Rightarrow> (chain, unit) eff" where
  "store_block cc isHeader b td currentHeader currentBlock =
     (let header = b_header b; blockHash = header_hash (cc_block cc) header; blockNumber = bh_number header;
          dbOps = DBSetTD (cc_block cc) td blockNumber blockHash # DBSetBlockOrHeader (cc_block cc) b;
          pos = (consensusType (b_common b) = ''pos'')
      in bnd (gets (\<lambda>s. consensusAlgorithm (ch_common s) = ''clique'')) (\<lambda>clique.
         if \<not> pos \<and> td > currentHeader \<or> pos
         then bnd (if clique then bnd (reads (\<lambda>s. findAncient cc s header)) (\<lambda>h. ret (Some (bh_number h)))
                   else ret None) (\<lambda>ancient.
              bnd (make_head cc isHeader b td dbOps) (\<lambda>ops.
              bnd (gets saveHeadOps) (\<lambda>headOps.
              andthen (db_batch (ops @ headOps))
                (bnd (gets (\<lambda>s. consensusAlgorithm (ch_common s) = ''clique'')) (\<lambda>clique'.
                   when_eff clique' (update_snapshots cc ancient blockNumber))))))
         else andthen (when_eff (td > currentBlock \<and> \<not> isHeader)
                (modif (\<lambda>s. s\<lparr>ch_headBlockHash := Some blockHash\<rparr>)))
              (bnd (gets saveHeadOps) (\<lambda>headOps.
                 db_batch (dbOps @ [DBSetHashToNumber blockHash blockNumber] @ headOps)))))"

definition putBlockOrHeader :: "chain_cfg \<Rightarrow> chain_item \<Rightarrow> (chain, unit) eff" where
  "putBlockOrHeader cc item =
     bnd (of_sum (item_block item)) (\<lambda>b.
     andthen (reads (check_item cc (is_header item) b))
    (bnd (reads (\<lambda>s. head_td cc s (ch_headHeaderHash s))) (\<lambda>currentHeader.
     bnd (reads (\<lambda>s. head_td cc s (ch_headBlockHash s))) (\<lambda>currentBlock.
     bnd (reads (\<lambda>s. getTotalDifficulty cc s (bh_parentHash (b_header b)) (b_number b - 1))) (\<lambda>parentTd.
     andthen (of_sum (bindS (bufBE8 (b_number b)) (\<lambda>_. Inr ())))
       (store_block cc (is_header item) b (bh_difficulty (b_header b) + parentTd) currentHeader currentBlock))))))"

definition putBlocks :: "chain_cfg \<Rightarrow> block list \<Rightarrow> (chain, unit) eff" where
  "putBlocks cc blocks = for_each blocks (\<lambda>b. putBlockOrHeader cc (PutBlock b))"

definition putHeaders :: "chain_cfg \<Rightarrow> block_header list \<Rightarrow> (chain, unit) eff" where
  "putHeaders cc headers = for_each headers (\<lambda>h. putBlockOrHeader cc (PutHeader h))"

section \<open>Deleting blocks\<close>

text \<open>The operations that delete a block, and its canonical children when there is a new head.\<close>

definition delete_ops :: "bytes \<Rightarrow> int \<Rightarrow> db_op list" where
  "delete_ops blockHash blockNumber =
     [Del (Header blockNumber blockHash), Del (Body blockNumber blockHash), Del (HashToNumber blockHash),
      Del (TotalDifficulty blockNumber blockHash)]"

definition move_heads :: "bytes \<Rightarrow> bytes \<Rightarrow> chain \<Rightarrow> chain" where
  "move_heads blockHash headHash s = s\<lparr>
     ch_headHeaderHash := (if ch_headHeaderHash s = Some blockHash then Some headHash else ch_headHeaderHash s),
     ch_headBlockHash := (if ch_headBlockHash s = Some blockHash then Some headHash else ch_headBlockHash s)\<rparr>"

lemma canonical_number:
  "getCanonicalHeader cc s n = Inr h \<Longrightarrow> 0 \<le> n \<and> n < 2 ^ 64"
  by (auto simp: getCanonicalHeader_def numberToHash_def db_buffer_def db_get_def bindS_Inr_iff bufBE8_iff split: if_splits)

text \<open>
  The child is the canonical header of the next number. The recursion takes the number that the header
  itself has; a database that holds a header under another number than its own is refused here.
\<close>

function delChild ::
  "chain_cfg \<Rightarrow> bytes \<Rightarrow> int \<Rightarrow> bytes option \<Rightarrow> db_op list \<Rightarrow> chain \<Rightarrow> (exn + db_op list) \<times> chain" where
  "delChild cc blockHash blockNumber headHash ops s =
     (let ops' = ops @ delete_ops blockHash blockNumber
      in case headHash of
           None \<Rightarrow> (Inr ops', s)
         | Some head \<Rightarrow>
             (let s' = move_heads blockHash head s
              in case getCanonicalHeader cc s' (blockNumber + 1) of
                   Inl e \<Rightarrow> if e = not_found then (Inr ops', s') else (Inl e, s')
                 | Inr childHeader \<Rightarrow>
                     if bh_number childHeader \<noteq> blockNumber + 1 then (Inl wrong_value, s')
                     else delChild cc (header_hash (cc_block cc) childHeader) (bh_number childHeader) headHash ops' s'))"
  by pat_completeness auto
termination
  by (relation "measure (\<lambda>(cc, h, n, d, ops, s). nat (2 ^ 64 - n))") (auto dest: canonical_number)

declare delChild.simps [simp del]

definition delBlock :: "chain_cfg \<Rightarrow> bytes \<Rightarrow> (chain, unit) eff" where
  "delBlock cc blockHash =
     bnd (reads (\<lambda>s. chain_getHeader cc s blockHash)) (\<lambda>header.
     bnd (reads (\<lambda>s. safeNumberToHash s (bh_number header))) (\<lambda>canonicalHash.
       let inCanonical = (canonicalHash = Some blockHash); parentHash = bh_parentHash header
       in bnd (delChild cc blockHash (bh_number header) (if inCanonical then Some parentHash else None) []) (\<lambda>ops.
          bnd (if inCanonical then deleteCanonicalChainReferences (bh_number header) parentHash ops else ret ops)
            db_batch)))"

section \<open>Iterators\<close>

text \<open>
  The callback may change the blockchain (\<open>runBlockchain\<close> deletes a block that fails) and a world
  \<open>'w\<close> of its own; an error of type \<open>NotFoundError\<close> that it throws ends the loop as well.
\<close>

type_synonym 'w on_block = "block \<Rightarrow> bool \<Rightarrow> (chain \<times> 'w, unit) eff"

definition on_chain :: "(chain, 'a) eff \<Rightarrow> (chain \<times> 'w, 'a) eff" where
  "on_chain m = zoom fst (\<lambda>c p. (c, snd p)) m"

lemma block_number_read: "getBlock_number cc s n = Inr b \<Longrightarrow> 0 \<le> n \<and> n < 2 ^ 64"
  by (auto simp: getBlock_number_def numberToHash_def db_buffer_def db_get_def bindS_Inr_iff bufBE8_iff split: if_splits)

function iterate_blocks ::
  "chain_cfg \<Rightarrow> string \<Rightarrow> 'w on_block \<Rightarrow> int option \<Rightarrow> int \<Rightarrow> int \<Rightarrow> block option \<Rightarrow> (chain \<times> 'w) \<Rightarrow>
     (exn + int) \<times> (chain \<times> 'w)" where
  "iterate_blocks cc name onBlock maxBlocks nextBlockNumber passed lastBlock s =
     (if maxBlocks = Some passed then (Inr passed, s)
      else case getBlock_number cc (fst s) nextBlockNumber of
        Inl e \<Rightarrow> if e = not_found then (Inr passed, s) else (Inl e, s)
      | Inr nextBlock \<Rightarrow>
          (let s1 = ((fst s)\<lparr>ch_heads := set_head name (block_hash (cc_block cc) nextBlock) (ch_heads (fst s))\<rparr>, snd s);
               reorg = (case lastBlock of
                  Some b \<Rightarrow> block_hash (cc_block cc) b = bh_parentHash (b_header nextBlock) | None \<Rightarrow> False)
           in case onBlock nextBlock reorg s1 of
                (Inl e, s2) \<Rightarrow> if e = not_found then (Inr passed, s2) else (Inl e, s2)
              | (Inr _, s2) \<Rightarrow>
                  iterate_blocks cc name onBlock maxBlocks (nextBlockNumber + 1) (passed + 1) (Some nextBlock) s2))"
  by pat_completeness auto
termination
  by (relation "measure (\<lambda>(cc, name, f, m, n, passed, l, s). nat (2 ^ 64 - n))") (auto dest: block_number_read)

declare iterate_blocks.simps [simp del]

definition iterator ::
  "chain_cfg \<Rightarrow> string \<Rightarrow> 'w on_block \<Rightarrow> int option \<Rightarrow> (chain \<times> 'w, int) eff" where
  "iterator cc name onBlock maxBlocks =
     bnd (gets (\<lambda>s. or_hash (map_of (ch_heads (fst s)) name) (ch_genesis (fst s)))) (\<lambda>headHash.
       case headHash of
         None \<Rightarrow> ret 0
       | Some hash \<Rightarrow>
           if (case maxBlocks of Some m \<Rightarrow> m < 0 | None \<Rightarrow> False)
           then raise (JsError ''If maxBlocks is provided, it has to be a non-negative number'')
           else bnd (on_chain (reads (\<lambda>s. hashToNumber s hash))) (\<lambda>headBlockNumber.
                bnd (iterate_blocks cc name onBlock maxBlocks (headBlockNumber + 1) 0 None) (\<lambda>passed.
                andthen (on_chain saveHeads) (ret passed))))"

definition setIteratorHead :: "string \<Rightarrow> bytes \<Rightarrow> (chain, unit) eff" where
  "setIteratorHead tag headHash =
     andthen (modif (\<lambda>s. s\<lparr>ch_heads := set_head tag headHash (ch_heads s)\<rparr>)) saveHeads"

section \<open>Looking up many blocks\<close>

text \<open>
  \<open>nextBlock\<close> of \<open>getBlocks\<close> after its first block: a block whose index is no multiple of \<open>skip + 1\<close> is
  passed over. At most \<open>maxBlocks * (skip + 1) + 1\<close> blocks are read, which is the fuel.
\<close>

datatype block_id = ByHash bytes | ByNumber int

definition getBlock_id :: "chain_cfg \<Rightarrow> chain \<Rightarrow> block_id \<Rightarrow> exn + block" where
  "getBlock_id cc s i = (case i of ByHash h \<Rightarrow> getBlock cc s h | ByNumber n \<Rightarrow> getBlock_number cc s n)"

fun next_blocks ::
  "chain_cfg \<Rightarrow> chain \<Rightarrow> nat \<Rightarrow> int \<Rightarrow> nat \<Rightarrow> bool \<Rightarrow> nat \<Rightarrow> block list \<Rightarrow> block_id \<Rightarrow> exn + block list" where
  "next_blocks cc s 0 maxBlocks skip reverse i blocks blockId = Inr blocks"
| "next_blocks cc s (Suc k) maxBlocks skip reverse i blocks blockId =
     (case getBlock_id cc s blockId of
        Inl e \<Rightarrow> if e = not_found then Inr blocks else Inl e
      | Inr block \<Rightarrow>
          (let nextBlockNumber = b_number block + (if reverse then -1 else 1)
           in if i \<noteq> 0 \<and> skip \<noteq> 0 \<and> i mod (skip + 1) \<noteq> 0
              then next_blocks cc s k maxBlocks skip reverse (i + 1) blocks (ByNumber nextBlockNumber)
              else let blocks' = blocks @ [block]
                in if int (length blocks') < maxBlocks
                   then next_blocks cc s k maxBlocks skip reverse (i + 1) blocks' (ByNumber nextBlockNumber)
                   else Inr blocks'))"

definition getBlocks :: "chain_cfg \<Rightarrow> chain \<Rightarrow> block_id \<Rightarrow> int \<Rightarrow> nat \<Rightarrow> bool \<Rightarrow> exn + block list" where
  "getBlocks cc s blockId maxBlocks skip reverse =
     next_blocks cc s (nat maxBlocks * (skip + 1) + 1) maxBlocks skip reverse 0 [] blockId"

text \<open>The binary search of \<open>selectNeededHashes\<close>; it starts at the first hash.\<close>

definition known_hash :: "chain \<Rightarrow> bytes \<Rightarrow> exn + bool" where
  "known_hash s h = catch_missing False (bindS (hashToNumber s h) (\<lambda>_. Inr True))"

function search_hashes :: "chain \<Rightarrow> bytes list \<Rightarrow> int \<Rightarrow> int \<Rightarrow> int \<Rightarrow> exn + int" where
  "search_hashes s hashes lo mid hi =
     (if hi < lo \<or> mid < lo \<or> hi < mid then Inr lo
      else case known_hash s (hashes ! nat mid) of
        Inl e \<Rightarrow> Inl e
      | Inr known \<Rightarrow>
          (let lo' = (if known then mid + 1 else lo); hi' = (if known then hi else mid - 1)
           in search_hashes s hashes lo' ((lo' + hi') div 2) hi'))"
  by pat_completeness auto
termination
  by (relation "measure (\<lambda>(s, hashes, lo, mid, hi). nat (hi + 1 - lo))") auto

declare search_hashes.simps [simp del]

definition selectNeededHashes :: "chain \<Rightarrow> bytes list \<Rightarrow> exn + bytes list" where
  "selectNeededHashes s hashes =
     bindS (search_hashes s hashes 0 0 (int (length hashes) - 1)) (\<lambda>lo. Inr (drop (nat lo) hashes))"

section \<open>Initialisation\<close>

text \<open>\<open>_init\<close> with the genesis block that the options give or that \<open>Block.genesis\<close> makes.\<close>

definition db_genesis :: "chain_cfg \<Rightarrow> chain \<Rightarrow> exn + block option" where
  "db_genesis cc s =
     catch_missing None (bindS (numberToHash s 0) (\<lambda>h. bindS (getBlock cc s h) (\<lambda>b. Inr (Some b))))"

definition genesis_ops :: "chain_cfg \<Rightarrow> block \<Rightarrow> db_op list" where
  "genesis_ops cc b =
     (let genesisHash = block_hash (cc_block cc) b
      in DBSetTD (cc_block cc) (bh_difficulty (b_header b)) 0 genesisHash #
         DBSetBlockOrHeader (cc_block cc) b @ DBSaveLookups genesisHash 0)"

definition load_snapshots :: "chain_cfg \<Rightarrow> (chain, unit) eff" where
  "load_snapshots cc =
     bnd (reads (getCliqueLatestSignerStates cc)) (\<lambda>states.
     bnd (reads (getCliqueLatestVotes cc)) (\<lambda>votes.
     bnd (reads (getCliqueLatestBlockSigners cc)) (\<lambda>signers.
       modif (\<lambda>s. s\<lparr>ch_signerStates := states, ch_votes := votes, ch_blockSigners := signers\<rparr>))))"

definition load_head :: "db_target \<Rightarrow> bytes \<Rightarrow> chain \<Rightarrow> exn + bytes" where
  "load_head t genesisHash s = catch_missing genesisHash (db_buffer s t)"

definition load_heads :: "bytes \<Rightarrow> (chain, unit) eff" where
  "load_heads genesisHash =
     bnd (reads (\<lambda>s. catch_missing [] (getHeads s))) (\<lambda>hs.
     andthen (modif (\<lambda>s. s\<lparr>ch_genesis := Some genesisHash, ch_heads := hs\<rparr>))
    (bnd (reads (load_head HeadHeader genesisHash)) (\<lambda>headHeader.
     andthen (modif (\<lambda>s. s\<lparr>ch_headHeaderHash := Some headHeader\<rparr>))
    (bnd (reads (load_head HeadBlock genesisHash)) (\<lambda>headBlock.
       modif (\<lambda>s. s\<lparr>ch_headBlockHash := Some headBlock\<rparr>))))))"

definition default_genesis :: "chain_cfg \<Rightarrow> chain \<Rightarrow> exn + block" where
  "default_genesis cc s =
     bindS (setHardforkByBlockNumber (ch_common s) 0 None) (\<lambda>(c, h).
       block_genesis (cc_block cc) \<lparr>bd_header = no_header_data, bd_transactions = [], bd_uncleHeaders = []\<rparr>
         (no_block_opts\<lparr>bo_common := Some c\<rparr>))"

definition set_hardfork_by_head :: "chain_cfg \<Rightarrow> (chain, unit) eff" where
  "set_hardfork_by_head cc =
     bnd (gets ch_headHeaderHash) (\<lambda>head.
       case head of
         None \<Rightarrow> raise wrong_value
       | Some h \<Rightarrow>
           bnd (reads (\<lambda>s. chain_getHeader cc s h)) (\<lambda>latestHeader.
           bnd (reads (\<lambda>s. totalDifficulty_of cc s h)) (\<lambda>td.
           bnd (reads (\<lambda>s. setHardforkByBlockNumber (ch_common s) (bh_number latestHeader) (Some td)))
             (\<lambda>(c, hf). modif (\<lambda>s. s\<lparr>ch_common := c\<rparr>)))))"

definition chain_init :: "chain_cfg \<Rightarrow> block option \<Rightarrow> (chain, unit) eff" where
  "chain_init cc genesisOption =
     bnd (reads (db_genesis cc)) (\<lambda>dbGenesisBlock.
     bnd (reads (\<lambda>s. case genesisOption of Some b \<Rightarrow> Inr b | None \<Rightarrow> default_genesis cc s)) (\<lambda>genesisBlock.
     let genesisHash = block_hash (cc_block cc) genesisBlock
     in andthen (guard_eff (case dbGenesisBlock of Some b \<Rightarrow> genesisHash = block_hash (cc_block cc) b | None \<Rightarrow> True)
            (JsError ''The genesis block in the DB has a different hash than the provided genesis block.''))
       (andthen (when_eff (dbGenesisBlock = None)
          (andthen (db_batch (genesis_ops cc genesisBlock))
            (bnd (gets (\<lambda>s. consensusAlgorithm (ch_common s) = ''clique'')) (\<lambda>clique.
               when_eff clique (cliqueSaveGenesisSigners cc genesisBlock)))))
       (andthen (bnd (gets (\<lambda>s. consensusAlgorithm (ch_common s) = ''clique'')) (\<lambda>clique.
               when_eff clique (load_snapshots cc)))
       (andthen (load_heads genesisHash)
         (when_eff (cc_hardforkByHead cc) (set_hardfork_by_head cc)))))))"

text \<open>The checks of the constructor, and the object before its database is read.\<close>

definition check_consensus_options :: "chain_cfg \<Rightarrow> common \<Rightarrow> exn + unit" where
  "check_consensus_options cc c =
     (if \<not> cc_validateConsensus cc then Inr ()
      else bindS (require (consensusType c = ''pow'' \<longrightarrow> consensusAlgorithm c = ''ethash'')
             ''consensus validation only supported for pow ethash algorithm'') (\<lambda>_.
           require (consensusType c = ''poa'' \<longrightarrow> consensusAlgorithm c = ''clique'')
             ''consensus (signature) validation only supported for poa clique algorithm''))"

definition new_chain :: "common \<Rightarrow> (db_target \<rightharpoonup> db_value) \<Rightarrow> chain" where
  "new_chain c db = \<lparr>ch_db = db, ch_common = c, ch_genesis = None, ch_headBlockHash = None,
     ch_headHeaderHash = None, ch_heads = [], ch_signerStates = [], ch_votes = [], ch_blockSigners = []\<rparr>"

definition create_chain ::
  "chain_cfg \<Rightarrow> common \<Rightarrow> (db_target \<rightharpoonup> db_value) \<Rightarrow> block option \<Rightarrow> exn + chain" where
  "create_chain cc c db genesisBlock =
     bindS (check_consensus_options cc c) (\<lambda>_.
     bindS (require (case genesisBlock of Some b \<Rightarrow> block_isGenesis b | None \<Rightarrow> True)
              ''supplied block is not a genesis block'') (\<lambda>_.
       case chain_init cc genesisBlock (new_chain c db) of (Inl e, s) \<Rightarrow> Inl e | (Inr _, s) \<Rightarrow> Inr s))"

end
