(* ===== verification/Chain_Proofs.thy ===== *)
theory Chain_Proofs
  imports Blockchain Block_Proofs
begin

text \<open>
  What a blockchain promises: the canonical chain leads from the genesis block to the head, each of its
  blocks with its parent below it, every stored block has its parents stored, the total difficulties are
  the sums along the chain, and the head has the greatest of them.
\<close>

section \<open>What the store holds\<close>

definition stored :: "chain \<Rightarrow> int \<Rightarrow> bytes \<Rightarrow> bool" where
  "stored s n x \<longleftrightarrow> ch_db s (Header n x) \<noteq> None"

definition canon :: "chain \<Rightarrow> int \<Rightarrow> bytes option" where
  "canon s n = (case ch_db s (NumberToHash n) of Some (Buf h) \<Rightarrow> Some h | _ \<Rightarrow> None)"

text \<open>
  The bytes of a header are read back with the fields of the header, whatever total difficulty selects the
  hardfork of the one that reads it, and a failure to read them is not taken for a missing entry.
\<close>

definition reads_back :: "chain_cfg \<Rightarrow> common \<Rightarrow> block_header \<Rightarrow> bool" where
  "reads_back cc c h \<longleftrightarrow> (\<forall>td.
     case fromRLPSerializedHeader (cc_block cc) (header_serialize (cc_block cc) h) (read_opts c td) of
       Inl e \<Rightarrow> e \<noteq> not_found
     | Inr h' \<Rightarrow> header_raw h' = header_raw h \<and> bh_number h' = bh_number h)"

definition header_ok :: "chain_cfg \<Rightarrow> common \<Rightarrow> block_header \<Rightarrow> bool" where
  "header_ok cc c h \<longleftrightarrow> 0 \<le> bh_number h \<and> 0 \<le> bh_difficulty h \<and> reads_back cc c h"

definition node :: "chain_cfg \<Rightarrow> chain \<Rightarrow> int \<Rightarrow> bytes \<Rightarrow> block_header \<Rightarrow> bool" where
  "node cc s n x h \<longleftrightarrow> ch_db s (Header n x) = Some (Buf (header_serialize (cc_block cc) h)) \<and>
     header_hash (cc_block cc) h = x \<and> bh_number h = n \<and> n < 2 ^ 64 \<and> header_ok cc (ch_common s) h"

abbreviation td_at :: "chain_cfg \<Rightarrow> chain \<Rightarrow> int \<Rightarrow> bytes \<Rightarrow> exn + int" where
  "td_at cc s n x \<equiv> getTotalDifficulty cc s x n"

definition store_ok :: "chain_cfg \<Rightarrow> bytes \<Rightarrow> chain \<Rightarrow> bool" where
  "store_ok cc g s \<longleftrightarrow>
     (\<exists>t. td_at cc s 0 g = Inr t) \<and>
     (\<forall>n x. stored s n x \<longrightarrow> ch_db s (TotalDifficulty n x) \<noteq> None \<and>
        ch_db s (HashToNumber x) = Some (Buf (be_bytes 8 n)) \<and>
        (\<exists>h. node cc s n x h \<and> (n = 0 \<longrightarrow> x = g) \<and>
          (n > 0 \<longrightarrow> stored s (n - 1) (bh_parentHash h) \<and>
             (\<exists>t. td_at cc s (n - 1) (bh_parentHash h) = Inr t \<and> td_at cc s n x = Inr (t + bh_difficulty h))))) \<and>
     (\<forall>n x. ch_db s (TotalDifficulty n x) \<noteq> None \<longrightarrow> stored s n x)"

definition canon_ok :: "chain_cfg \<Rightarrow> bytes \<Rightarrow> int \<Rightarrow> chain \<Rightarrow> bool" where
  "canon_ok cc g tip s \<longleftrightarrow> 0 \<le> tip \<and> canon s 0 = Some g \<and>
     (\<forall>n. ch_db s (NumberToHash n) \<noteq> None \<longleftrightarrow> 0 \<le> n \<and> n \<le> tip) \<and>
     (\<forall>n. 0 \<le> n \<and> n \<le> tip \<longrightarrow> (\<exists>x h. canon s n = Some x \<and> node cc s n x h \<and>
        (n > 0 \<longrightarrow> canon s (n - 1) = Some (bh_parentHash h))))"

definition heaviest :: "chain_cfg \<Rightarrow> chain \<Rightarrow> bool" where
  "heaviest cc s \<longleftrightarrow> (\<exists>x t. ch_headHeaderHash s = Some x \<and> totalDifficulty_of cc s x = Inr t \<and>
     (\<forall>n y u. td_at cc s n y = Inr u \<longrightarrow> u \<le> t))"

text \<open>Every iterator stands on a canonical block.\<close>

definition heads_ok :: "chain \<Rightarrow> bool" where
  "heads_ok s \<longleftrightarrow> (\<forall>h \<in> snd ` set (ch_heads s). \<exists>n. canon s n = Some h)"

definition chain_inv :: "chain_cfg \<Rightarrow> chain \<Rightarrow> bool" where
  "chain_inv cc s \<longleftrightarrow> (\<exists>g tip. ch_genesis s = Some g \<and> store_ok cc g s \<and> canon_ok cc g tip s \<and>
     ch_headHeaderHash s = canon s tip) \<and>
     heaviest cc s \<and> heads_ok s \<and> distinct (map fst (ch_heads s))"

section \<open>Reading\<close>

lemma key_number: "0 \<le> n \<Longrightarrow> n < 2 ^ 64 \<Longrightarrow> bufBE8 n = Inr (be_bytes 8 n)"
  by (simp add: bufBE8_iff)

lemma numberToHash_canon:
  "numberToHash s n = Inr x \<Longrightarrow> 0 \<le> n \<and> n < 2 ^ 64 \<and> canon s n = Some x"
  by (auto simp: numberToHash_def db_buffer_def db_get_def bindS_Inr_iff bufBE8_iff canon_def
      split: if_splits option.splits db_value.splits)

lemma canon_numberToHash:
  "canon s n = Some x \<Longrightarrow> 0 \<le> n \<Longrightarrow> n < 2 ^ 64 \<Longrightarrow> numberToHash s n = Inr x"
  by (auto simp: numberToHash_def db_buffer_def db_get_def key_number canon_def
      split: option.splits db_value.splits)

lemma safe_canon:
  assumes "safeNumberToHash s n = Inr r" "0 \<le> n"
  shows "r = canon s n"
proof (cases "numberToHash s n")
  case (Inl e)
  with assms have "e = not_found" "r = None"
    by (auto simp: safeNumberToHash_def catch_missing_def split: if_splits)
  moreover from this Inl assms(2) have "ch_db s (NumberToHash n) = None"
    by (auto simp: numberToHash_def db_buffer_def db_get_def wrong_value_def not_found_def bufBE8_def
        toArrayLike_def Let_def split: if_splits option.splits db_value.splits)
  ultimately show ?thesis by (simp add: canon_def)
next
  case (Inr x)
  then show ?thesis
    using assms numberToHash_canon by (auto simp: safeNumberToHash_def catch_missing_def)
qed

lemma td_stored: "td_at cc s n x = Inr t \<Longrightarrow> ch_db s (TotalDifficulty n x) \<noteq> None"
  by (auto simp: getTotalDifficulty_def db_buffer_def db_get_def bindS_Inr_iff split: option.splits)

lemma store_okD:
  assumes "store_ok cc g s" "stored s n x"
  shows "ch_db s (HashToNumber x) = Some (Buf (be_bytes 8 n))" "\<exists>t. td_at cc s n x = Inr t"
    "\<exists>h. node cc s n x h \<and> (n = 0 \<longrightarrow> x = g) \<and> (n > 0 \<longrightarrow> stored s (n - 1) (bh_parentHash h))"
proof -
  obtain h where h: "node cc s n x h" "n = 0 \<longrightarrow> x = g" "n > 0 \<longrightarrow> stored s (n - 1) (bh_parentHash h) \<and>
      (\<exists>t. td_at cc s (n - 1) (bh_parentHash h) = Inr t \<and> td_at cc s n x = Inr (t + bh_difficulty h))"
    "ch_db s (HashToNumber x) = Some (Buf (be_bytes 8 n))"
    using assms unfolding store_ok_def by blast
  show "ch_db s (HashToNumber x) = Some (Buf (be_bytes 8 n))" by (rule h(4))
  have "0 \<le> n" using h(1) by (simp add: node_def header_ok_def)
  then show "\<exists>t. td_at cc s n x = Inr t"
    using h(2,3) assms(1) by (cases "n = 0") (auto simp: store_ok_def)
  show "\<exists>h. node cc s n x h \<and> (n = 0 \<longrightarrow> x = g) \<and> (n > 0 \<longrightarrow> stored s (n - 1) (bh_parentHash h))"
    using h by blast
qed

lemma td_of_stored: "store_ok cc g s \<Longrightarrow> td_at cc s n x = Inr t \<Longrightarrow> stored s n x"
  using td_stored unfolding store_ok_def by blast

lemma hashToNumber_stored:
  assumes "store_ok cc g s" "stored s n x"
  shows "hashToNumber s x = Inr n"
proof -
  obtain h where "node cc s n x h" using store_okD(3) [OF assms] by blast
  then have "0 \<le> n" "n < 256 ^ 8" by (auto simp: node_def header_ok_def)
  then show ?thesis
    using store_okD(1) [OF assms]
    by (simp add: hashToNumber_def db_buffer_def db_get_def bn_of_be_bytes)
qed

lemma raw_parts:
  assumes "header_raw h' = header_raw h"
  shows "bh_parentHash h' = bh_parentHash h" "header_hash cfg h' = header_hash cfg h"
    "0 \<le> bh_difficulty h \<Longrightarrow> 0 \<le> bh_difficulty h' \<Longrightarrow> bh_difficulty h' = bh_difficulty h"
    "0 \<le> bh_number h \<Longrightarrow> 0 \<le> bh_number h' \<Longrightarrow> bh_number h' = bh_number h"
    "header_serialize cfg h' = header_serialize cfg h"
proof -
  show "bh_parentHash h' = bh_parentHash h" "header_hash cfg h' = header_hash cfg h"
    "header_serialize cfg h' = header_serialize cfg h"
    using assms by (simp_all add: header_raw_def header_hash_def header_serialize_def)
  have "bnToUnpaddedBuffer (bh_difficulty h') = bnToUnpaddedBuffer (bh_difficulty h)"
    "bnToUnpaddedBuffer (bh_number h') = bnToUnpaddedBuffer (bh_number h)"
    using assms by (simp_all add: header_raw_def)
  then show "0 \<le> bh_difficulty h \<Longrightarrow> 0 \<le> bh_difficulty h' \<Longrightarrow> bh_difficulty h' = bh_difficulty h"
    "0 \<le> bh_number h \<Longrightarrow> 0 \<le> bh_number h' \<Longrightarrow> bh_number h' = bh_number h"
    by (metis bn_of_bnToUnpaddedBuffer)+
qed

lemma canon_okD:
  assumes "canon_ok cc g tip s"
  shows "0 \<le> tip" "canon s 0 = Some g"
    "ch_db s (NumberToHash n) \<noteq> None \<longleftrightarrow> 0 \<le> n \<and> n \<le> tip" "canon s n \<noteq> None \<longleftrightarrow> 0 \<le> n \<and> n \<le> tip"
    "canon s n = Some x \<Longrightarrow> \<exists>h. node cc s n x h \<and> (n > 0 \<longrightarrow> canon s (n - 1) = Some (bh_parentHash h))"
proof -
  show "0 \<le> tip" "canon s 0 = Some g"
    and dom: "ch_db s (NumberToHash n) \<noteq> None \<longleftrightarrow> 0 \<le> n \<and> n \<le> tip"
    using assms by (simp_all add: canon_ok_def)
  have some: "0 \<le> n \<and> n \<le> tip \<Longrightarrow> \<exists>x h. canon s n = Some x \<and> node cc s n x h \<and>
      (n > 0 \<longrightarrow> canon s (n - 1) = Some (bh_parentHash h))"
    using assms by (simp add: canon_ok_def)
  have none: "canon s n \<noteq> None \<Longrightarrow> ch_db s (NumberToHash n) \<noteq> None"
    by (auto simp: canon_def split: option.splits)
  show "canon s n \<noteq> None \<longleftrightarrow> 0 \<le> n \<and> n \<le> tip"
    using some none dom by auto
  then show "canon s n = Some x \<Longrightarrow> \<exists>h. node cc s n x h \<and> (n > 0 \<longrightarrow> canon s (n - 1) = Some (bh_parentHash h))"
    using some by auto
qed

text \<open>A header that is read has the raw fields of the one that was stored.\<close>

lemma getHeader_node:
  assumes "node cc s n x h" "db_getHeader cc s x n = Inr h'"
  shows "header_raw h' = header_raw h" "bh_number h' = n" "header_hash (cc_block cc) h' = x"
    "bh_parentHash h' = bh_parentHash h"
proof -
  obtain td where "fromRLPSerializedHeader (cc_block cc) (header_serialize (cc_block cc) h) (read_opts (ch_common s) td) = Inr h'"
    using assms by (auto simp: node_def db_getHeader_def db_buffer_def db_get_def bindS_Inr_iff)
  then show *: "header_raw h' = header_raw h" and "bh_number h' = n"
    using assms(1) by (auto simp: node_def header_ok_def reads_back_def split: sum.splits dest: spec [of _ td])
  show "header_hash (cc_block cc) h' = x" "bh_parentHash h' = bh_parentHash h"
    using raw_parts(1,2) [OF *] assms(1) by (auto simp: node_def)
qed

lemma getHeader_found:
  assumes "store_ok cc g s" "canon_ok cc g tip s" "stored s n x" "n \<le> tip + 1"
  shows "db_getHeader cc s x n \<noteq> Inl not_found"
proof -
  obtain h where h: "node cc s n x h" using store_okD(3) [OF assms(1,3)] by blast
  then have n: "0 \<le> n" "n < 2 ^ 64" by (auto simp: node_def header_ok_def)
  have "\<exists>td. canonicalParentTd cc s n = Inr td"
  proof (cases "n = 0")
    case False
    then have "canon s (n - 1) \<noteq> None"
      using canon_okD(4) [OF assms(2), of "n - 1"] n(1) assms(4) by simp
    then obtain y k where y: "canon s (n - 1) = Some y" "node cc s (n - 1) y k"
      using canon_okD(5) [OF assms(2)] by blast
    then have "stored s (n - 1) y" by (simp add: node_def stored_def)
    then obtain t where "td_at cc s (n - 1) y = Inr t" using store_okD(2) [OF assms(1)] by blast
    with y(1) n False show ?thesis
      by (simp add: canonicalParentTd_def canon_numberToHash)
  qed (simp add: canonicalParentTd_def)
  then obtain td where td: "canonicalParentTd cc s n = Inr td" by blast
  have "db_getHeader cc s x n =
      fromRLPSerializedHeader (cc_block cc) (header_serialize (cc_block cc) h) (read_opts (ch_common s) td)"
    using h n td by (simp add: db_getHeader_def db_buffer_def db_get_def node_def key_number)
  moreover have "reads_back cc (ch_common s) h" using h by (simp add: node_def header_ok_def)
  ultimately show ?thesis
    by (auto simp: reads_back_def dest: spec [of _ td])
qed

section \<open>The reorganisation\<close>

text \<open>The lookups of a branch \<open>p\<close> from number \<open>n\<close> down to above \<open>m\<close>, as the loop pushes them.\<close>

definition lookups :: "(int \<Rightarrow> bytes) \<Rightarrow> int \<Rightarrow> int \<Rightarrow> db_op list" where
  "lookups p m n = concat (map (\<lambda>j. DBSaveLookups (p j) j) (rev [m + 1..n]))"

definition branch ::
  "chain_cfg \<Rightarrow> chain \<Rightarrow> int \<Rightarrow> int \<Rightarrow> (int \<Rightarrow> bytes) \<Rightarrow> block_header \<Rightarrow> bool" where
  "branch cc s m n p hdr \<longleftrightarrow> 0 \<le> m \<and> m \<le> n \<and> canon s m = Some (p m) \<and> p n = header_hash (cc_block cc) hdr \<and>
     (\<forall>j. m < j \<and> j \<le> n \<longrightarrow> canon s j \<noteq> Some (p j)) \<and> (m < n \<longrightarrow> bh_parentHash hdr = p (n - 1)) \<and>
     (\<forall>j. m < j \<and> j < n \<longrightarrow> (\<exists>h. node cc s j (p j) h \<and> bh_parentHash h = p (j - 1)))"

text \<open>The names of the iterators on canonical blocks with numbers above \<open>m\<close> up to \<open>n\<close>.\<close>

definition stale_names :: "chain \<Rightarrow> int \<Rightarrow> int \<Rightarrow> string set" where
  "stale_names s m n = {name. \<exists>j h. m < j \<and> j \<le> n \<and> canon s j = Some h \<and> (name, h) \<in> set (ch_heads s)}"

lemma lookups_step: "m < n \<Longrightarrow> lookups p m n = DBSaveLookups (p n) n @ lookups p m (n - 1)"
  using upto_rec2 [of "m + 1" n] by (simp add: lookups_def)

lemma lookups_cong: "(\<And>j. m < j \<Longrightarrow> j \<le> n \<Longrightarrow> p j = q j) \<Longrightarrow> lookups p m n = lookups q m n"
  unfolding lookups_def by (intro arg_cong [of _ _ concat] map_cong) auto

lemma mark_stale_parts:
  "rb_ops (mark_stale s c r) = rb_ops r" "rb_currentCanonicalHash (mark_stale s c r) = rb_currentCanonicalHash r"
  "set (rb_staleHeads (mark_stale s c r)) =
     set (rb_staleHeads r) \<union> {name. \<exists>h. c = Some h \<and> (name, h) \<in> set (ch_heads s)}"
  by (auto simp: mark_stale_def image_iff split: option.split)

lemma rebuild_path:
  assumes ok: "store_ok cc g s" "canon_ok cc g tip s"
  shows "rebuild_loop cc s (Suc (nat n)) hdr n r = Inr r' \<Longrightarrow> bh_number hdr = n \<Longrightarrow> 0 \<le> n \<Longrightarrow> n \<le> tip + 2 \<Longrightarrow>
    (n = 0 \<Longrightarrow> header_hash (cc_block cc) hdr = g) \<Longrightarrow> (n > 0 \<Longrightarrow> stored s (n - 1) (bh_parentHash hdr)) \<Longrightarrow>
    \<exists>m p. branch cc s m n p hdr \<and> rb_ops r' = rb_ops r @ lookups p m n \<and> rb_currentCanonicalHash r' = p m \<and>
      set (rb_staleHeads r') = set (rb_staleHeads r) \<union> stale_names s m n"
proof (induction "nat n" arbitrary: n hdr r)
  case 0
  then have n: "n = 0" by simp
  then have "canon s 0 = Some (header_hash (cc_block cc) hdr)"
    using 0 canon_okD(2) [OF ok(2)] by simp
  moreover have "r' = r\<lparr>rb_currentCanonicalHash := header_hash (cc_block cc) hdr\<rparr>"
    using 0 n by (auto simp: bindS_Inr_iff Let_def)
  ultimately show ?case
    using n by (intro exI [of _ 0] exI [of _ "\<lambda>_. header_hash (cc_block cc) hdr"])
      (auto simp: branch_def lookups_def stale_names_def)
next
  case (Suc k)
  let ?x = "header_hash (cc_block cc) hdr"
  have n: "0 < n" using Suc.hyps(2) by simp
  obtain c where c: "safeNumberToHash s n = Inr c"
    using Suc.prems(1) by (auto simp: bindS_Inr_iff)
  then have canon: "c = canon s n" using n by (intro safe_canon) simp_all
  show ?case
  proof (cases "c = Some ?x")
    case True
    then have "r' = r\<lparr>rb_currentCanonicalHash := ?x\<rparr>"
      using Suc.prems(1) c by (simp add: Let_def)
    then show ?thesis
      using True canon n by (intro exI [of _ n] exI [of _ "\<lambda>_. ?x"])
        (auto simp: branch_def lookups_def stale_names_def)
  next
    case False
    let ?r = "mark_stale s c (r\<lparr>rb_currentCanonicalHash := ?x, rb_ops := rb_ops r @ DBSaveLookups ?x n\<rparr>)"
    have up: "stored s (n - 1) (bh_parentHash hdr)" using Suc.prems(6) n by simp
    have "db_getHeader cc s (bh_parentHash hdr) (n - 1) \<noteq> Inl not_found"
      using getHeader_found [OF ok up] Suc.prems(4) by simp
    then obtain h' where h': "db_getHeader cc s (bh_parentHash hdr) (n - 1) = Inr h'"
      and next': "rebuild_loop cc s (Suc (nat (n - 1))) h' (n - 1) ?r = Inr r'"
    proof -
      have fuel: "nat n = Suc (nat (n - 1))" using n by simp
      show thesis
        using that Suc.prems(1) c False n Suc.prems(2) \<open>db_getHeader cc s (bh_parentHash hdr) (n - 1) \<noteq> Inl not_found\<close>
        unfolding fuel
        by (cases "db_getHeader cc s (bh_parentHash hdr) (n - 1)") (auto simp: Let_def split: if_splits)
    qed
    obtain h where h: "node cc s (n - 1) (bh_parentHash hdr) h" "n - 1 = 0 \<longrightarrow> bh_parentHash hdr = g"
      "n - 1 > 0 \<longrightarrow> stored s (n - 1 - 1) (bh_parentHash h)"
      using store_okD(3) [OF ok(1) up] by blast
    note read = getHeader_node [OF h(1) h']
    obtain m p where ih: "branch cc s m (n - 1) p h'" "rb_ops r' = rb_ops ?r @ lookups p m (n - 1)"
      "rb_currentCanonicalHash r' = p m" "set (rb_staleHeads r') = set (rb_staleHeads ?r) \<union> stale_names s m (n - 1)"
    proof -
      have "k = nat (n - 1)" using Suc.hyps(2) by simp
      from Suc.hyps(1) [OF this next' read(2)] show thesis
        using that n Suc.prems(4) h(2,3) read(3,4) by fastforce
    qed
    define q where "q = p(n := ?x)"
    have b: "0 \<le> m" "m \<le> n - 1" "canon s m = Some (p m)" "p (n - 1) = bh_parentHash hdr"
      "\<forall>j. m < j \<and> j \<le> n - 1 \<longrightarrow> canon s j \<noteq> Some (p j)" "m < n - 1 \<longrightarrow> bh_parentHash h' = p (n - 1 - 1)"
      "\<forall>j. m < j \<and> j < n - 1 \<longrightarrow> (\<exists>h. node cc s j (p j) h \<and> bh_parentHash h = p (j - 1))"
      using ih(1) read(3) by (simp_all add: branch_def)
    have q: "q n = ?x" "\<And>j. j < n \<Longrightarrow> q j = p j" by (simp_all add: q_def)
    have "branch cc s m n q hdr"
      unfolding branch_def
    proof (intro conjI allI impI)
      show "0 \<le> m" "m \<le> n" "canon s m = Some (q m)" "q n = ?x" "bh_parentHash hdr = q (n - 1)"
        using b q by simp_all
    next
      fix j assume "m < j \<and> j \<le> n"
      then show "canon s j \<noteq> Some (q j)"
        using b(5) q False canon by (cases "j = n") simp_all
    next
      fix j assume j: "m < j \<and> j < n"
      show "\<exists>h. node cc s j (q j) h \<and> bh_parentHash h = q (j - 1)"
      proof (cases "j = n - 1")
        case True
        then show ?thesis using j h(1) b(4,6) q read(4) by (intro exI [of _ h]) simp
      next
        case False
        then show ?thesis using j b(7) q by simp
      qed
    qed
    moreover have "rb_ops r' = rb_ops r @ lookups q m n"
      using ih(2) b(2) q lookups_cong [of m "n - 1" p q] by (simp add: mark_stale_parts lookups_step)
    moreover have "set (rb_staleHeads r') = set (rb_staleHeads r) \<union> stale_names s m n"
    proof -
      have "stale_names s m n = stale_names s m (n - 1) \<union> {name. \<exists>h. c = Some h \<and> (name, h) \<in> set (ch_heads s)}"
        using b(2) canon unfolding stale_names_def by (auto, metis linorder_not_less order_le_less zle_diff1_eq)
      then show ?thesis
        using ih(4) by (auto simp: mark_stale_parts)
    qed
    ultimately show ?thesis
      using ih(3) b(2) q by (intro exI [of _ m] exI [of _ q]) simp
  qed
qed

section \<open>What the operations write\<close>

lemma batch_append: "batch (a @ b) db = batch b (batch a db)"
  by (simp add: batch_def)

lemma batch_Cons: "batch (a # b) db = batch b (run_op a db)"
  by (simp add: batch_def)

lemma batch_Nil [simp]: "batch [] db = db"
  by (simp add: batch_def)

lemma batch_lookups:
  "batch (lookups p m n) db (NumberToHash j) = (if m < j \<and> j \<le> n then Some (Buf (p j)) else db (NumberToHash j))"
  "(\<And>i h. t \<noteq> NumberToHash i \<and> t \<noteq> HashToNumber h) \<Longrightarrow> batch (lookups p m n) db t = db t"
  "(\<And>i. m < i \<Longrightarrow> i \<le> n \<Longrightarrow> p i \<noteq> h) \<Longrightarrow> batch (lookups p m n) db (HashToNumber h) = db (HashToNumber h)"
  "(\<And>i. m < i \<Longrightarrow> i \<le> n \<Longrightarrow> p i = h \<Longrightarrow> i = k) \<Longrightarrow> m < k \<Longrightarrow> k \<le> n \<Longrightarrow> p k = h \<Longrightarrow>
     batch (lookups p m n) db (HashToNumber h) = Some (Buf (be_bytes 8 k))"
proof -
  have all: "batch (lookups p m n) db (NumberToHash j) = (if m < j \<and> j \<le> n then Some (Buf (p j)) else db (NumberToHash j)) \<and>
    ((\<forall>i h. t \<noteq> NumberToHash i \<and> t \<noteq> HashToNumber h) \<longrightarrow> batch (lookups p m n) db t = db t) \<and>
    ((\<forall>i. m < i \<and> i \<le> n \<longrightarrow> p i \<noteq> h) \<longrightarrow> batch (lookups p m n) db (HashToNumber h) = db (HashToNumber h)) \<and>
    ((\<forall>i. m < i \<and> i \<le> n \<and> p i = h \<longrightarrow> i = k) \<longrightarrow> m < k \<longrightarrow> k \<le> n \<longrightarrow> p k = h \<longrightarrow>
       batch (lookups p m n) db (HashToNumber h) = Some (Buf (be_bytes 8 k)))"
  proof (induction "nat (n - m)" arbitrary: n db)
    case 0
    then have "lookups p m n = []" by (simp add: lookups_def)
    with 0 show ?case by auto
  next
    case (Suc u)
    from Suc.hyps(2) have n: "m < n" and u: "u = nat (n - 1 - m)" by linarith+
    let ?db = "run_op (DBSetHashToNumber (p n) n) (run_op (Put (NumberToHash n) (Buf (p n))) db)"
    have step: "batch (lookups p m n) db = batch (lookups p m (n - 1)) ?db"
      using n by (simp add: lookups_step DBSaveLookups_def batch_Cons)
    have at: "?db (NumberToHash i) = (if i = n then Some (Buf (p n)) else db (NumberToHash i))"
      "?db (HashToNumber y) = (if y = p n then Some (Buf (be_bytes 8 n)) else db (HashToNumber y))"
      "(\<forall>i h. t \<noteq> NumberToHash i \<and> t \<noteq> HashToNumber h) \<longrightarrow> ?db t = db t" for i y
      by (auto simp: DBSetHashToNumber_def)
    note ih = Suc.hyps(1) [OF u, of ?db]
    show ?case
      unfolding step
    proof (intro conjI impI)
      show "batch (lookups p m (n - 1)) ?db (NumberToHash j) = (if m < j \<and> j \<le> n then Some (Buf (p j)) else db (NumberToHash j))"
        using conjunct1 [OF ih] n at(1) by auto
      show "batch (lookups p m (n - 1)) ?db t = db t" if "\<forall>i h. t \<noteq> NumberToHash i \<and> t \<noteq> HashToNumber h"
        using conjunct1 [OF conjunct2 [OF ih]] at(3) that by simp
      show "batch (lookups p m (n - 1)) ?db (HashToNumber h) = db (HashToNumber h)" if "\<forall>i. m < i \<and> i \<le> n \<longrightarrow> p i \<noteq> h"
        using conjunct1 [OF conjunct2 [OF conjunct2 [OF ih]]] at(2) that n by auto
      show "batch (lookups p m (n - 1)) ?db (HashToNumber h) = Some (Buf (be_bytes 8 k))"
        if k: "\<forall>i. m < i \<and> i \<le> n \<and> p i = h \<longrightarrow> i = k" "m < k" "k \<le> n" "p k = h"
      proof (cases "k = n")
        case True
        then have "\<forall>i. m < i \<and> i \<le> n - 1 \<longrightarrow> p i \<noteq> h" using k(1) by auto
        then show ?thesis using conjunct1 [OF conjunct2 [OF conjunct2 [OF ih]]] at(2) k(4) True by auto
      next
        case False
        have "\<forall>i. m < i \<and> i \<le> n - 1 \<and> p i = h \<longrightarrow> i = k" "k \<le> n - 1" using k(1,3) False by simp_all
        then show ?thesis
          by (rule mp [OF mp [OF mp [OF mp [OF conjunct2 [OF conjunct2 [OF conjunct2 [OF ih]]]] k(2)]] k(4)])
      qed
    qed
  qed
  show "batch (lookups p m n) db (NumberToHash j) = (if m < j \<and> j \<le> n then Some (Buf (p j)) else db (NumberToHash j))"
    by (rule conjunct1 [OF all])
  show "(\<And>i h. t \<noteq> NumberToHash i \<and> t \<noteq> HashToNumber h) \<Longrightarrow> batch (lookups p m n) db t = db t"
    by (rule mp [OF conjunct1 [OF conjunct2 [OF all]]]) simp
  show "(\<And>i. m < i \<Longrightarrow> i \<le> n \<Longrightarrow> p i \<noteq> h) \<Longrightarrow> batch (lookups p m n) db (HashToNumber h) = db (HashToNumber h)"
    by (rule mp [OF conjunct1 [OF conjunct2 [OF conjunct2 [OF all]]]]) simp
  show "(\<And>i. m < i \<Longrightarrow> i \<le> n \<Longrightarrow> p i = h \<Longrightarrow> i = k) \<Longrightarrow> m < k \<Longrightarrow> k \<le> n \<Longrightarrow> p k = h \<Longrightarrow>
       batch (lookups p m n) db (HashToNumber h) = Some (Buf (be_bytes 8 k))"
    using conjunct2 [OF conjunct2 [OF conjunct2 [OF all]]] by blast
qed

definition unlinked :: "int \<Rightarrow> int \<Rightarrow> db_op list" where
  "unlinked n tip = map (\<lambda>j. Del (NumberToHash j)) [n..tip]"

lemma batch_unlinked:
  "batch (unlinked n tip) db t = (if \<exists>j. n \<le> j \<and> j \<le> tip \<and> t = NumberToHash j then None else db t)"
proof -
  have "fold run_op (map (\<lambda>j. Del (NumberToHash j)) js) db t = (if \<exists>j \<in> set js. t = NumberToHash j then None else db t)"
    for js
    by (induction js arbitrary: db) auto
  from this [of "[n..tip]"] show ?thesis by (auto simp: batch_def unlinked_def)
qed

definition reset_above :: "int \<Rightarrow> bytes \<Rightarrow> chain \<Rightarrow> chain" where
  "reset_above n x s = s\<lparr>
     ch_heads := map (\<lambda>(name, h). (name, if \<exists>j \<ge> n. canon s j = Some h then x else h)) (ch_heads s),
     ch_headBlockHash := (if \<exists>j \<ge> n. ch_headBlockHash s = canon s j \<and> canon s j \<noteq> None then Some x
        else ch_headBlockHash s)\<rparr>"

lemma canon_reset_stale [simp]: "canon (reset_stale h x s) = canon s"
  by (simp add: canon_def reset_stale_def fun_eq_iff)

lemma reset_stale_fields [simp]:
  "ch_heads (reset_stale h x s) = map (\<lambda>(name, y). (name, if y = h then x else y)) (ch_heads s)"
  "ch_headBlockHash (reset_stale h x s) = (if ch_headBlockHash s = Some h then Some x else ch_headBlockHash s)"
  by (simp_all add: reset_stale_def)

lemma from_next: "(\<exists>j \<ge> n. P j) \<longleftrightarrow> P n \<or> (\<exists>j \<ge> n + 1. P j)" for n :: int
  by (metis add1_zle_eq dual_order.order_iff_strict order_refl zless_add1_eq)

lemma reset_above_step:
  assumes "canon s n = Some h"
  shows "reset_above (n + 1) x (reset_stale h x s) = reset_above n x s"
proof -
  have "(if \<exists>j \<ge> n + 1. canon s j = Some (if z = h then x else z) then x else if z = h then x else z) =
      (if \<exists>j \<ge> n. canon s j = Some z then x else z)" for z
    using assms from_next [of n "\<lambda>j. canon s j = Some z"] by auto
  then have heads: "map (\<lambda>(name, z). (name, if \<exists>j \<ge> n + 1. canon s j = Some z then x else z))
        (map (\<lambda>(name, z). (name, if z = h then x else z)) (ch_heads s)) =
      map (\<lambda>(name, z). (name, if \<exists>j \<ge> n. canon s j = Some z then x else z)) (ch_heads s)"
    by (simp add: case_prod_beta)
  have block: "(if \<exists>j \<ge> n + 1. ch_headBlockHash (reset_stale h x s) = canon s j \<and> canon s j \<noteq> None then Some x
        else ch_headBlockHash (reset_stale h x s)) =
      (if \<exists>j \<ge> n. ch_headBlockHash s = canon s j \<and> canon s j \<noteq> None then Some x else ch_headBlockHash s)"
    using assms from_next [of n "\<lambda>j. ch_headBlockHash s = canon s j \<and> canon s j \<noteq> None"]
    by (cases "ch_headBlockHash s = Some h") auto
  have "reset_above (n + 1) x (reset_stale h x s) = (reset_stale h x s)\<lparr>
      ch_heads := map (\<lambda>(name, z). (name, if \<exists>j \<ge> n. canon s j = Some z then x else z)) (ch_heads s),
      ch_headBlockHash := (if \<exists>j \<ge> n. ch_headBlockHash s = canon s j \<and> canon s j \<noteq> None then Some x
        else ch_headBlockHash s)\<rparr>"
    unfolding reset_above_def canon_reset_stale block by (simp only: reset_stale_fields(1) heads)
  then show ?thesis by (simp add: reset_above_def reset_stale_def)
qed

lemma delete_references:
  "deleteCanonicalChainReferences n x ops s = (Inr ops', t) \<Longrightarrow> 0 \<le> n \<Longrightarrow>
   (\<And>j. n \<le> j \<Longrightarrow> canon s j \<noteq> None \<longleftrightarrow> j \<le> tip) \<Longrightarrow>
     ops' = ops @ unlinked n tip \<and> t = reset_above n x s"
proof (induction n x ops s rule: deleteCanonicalChainReferences.induct)
  case (1 n x ops s)
  obtain c where c: "safeNumberToHash s n = Inr c"
    using "1.prems"(1) by (cases "safeNumberToHash s n") (auto simp: deleteCanonicalChainReferences.simps)
  then have canon: "c = canon s n" using "1.prems"(2) by (rule safe_canon)
  show ?case
  proof (cases c)
    case None
    then have "\<not> n \<le> tip" using "1.prems"(3) [of n] canon by simp
    then have none: "canon s j = None" if "n \<le> j" for j using "1.prems"(3) [of j] that by auto
    have "map (\<lambda>(name, h). (name, if \<exists>j \<ge> n. canon s j = Some h then x else h)) (ch_heads s) = ch_heads s"
      using none by (intro map_idI) auto
    moreover have block: "(\<exists>j \<ge> n. ch_headBlockHash s = canon s j \<and> canon s j \<noteq> None) = False" using none by auto
    ultimately have "reset_above n x s = s" unfolding reset_above_def block by simp
    then show ?thesis
      using "1.prems"(1) c None \<open>\<not> n \<le> tip\<close> by (simp add: deleteCanonicalChainReferences.simps unlinked_def)
  next
    case (Some h)
    have tip: "n \<le> tip" using "1.prems"(3) [of n] canon Some by auto
    have rest: "deleteCanonicalChainReferences (n + 1) x (ops @ [Del (NumberToHash n)]) (reset_stale h x s) = (Inr ops', t)"
      using "1.prems"(1) c Some by (subst (asm) deleteCanonicalChainReferences.simps) simp
    have "ops' = (ops @ [Del (NumberToHash n)]) @ unlinked (n + 1) tip \<and> t = reset_above (n + 1) x (reset_stale h x s)"
      using "1.IH" [OF c Some rest] "1.prems"(2,3) by simp
    then show ?thesis
      using reset_above_step [of s n h x] canon Some upto_rec1 [OF tip] by (simp add: unlinked_def)
  qed
qed

end
