(* ===== verification/Chain_Reorg.thy ===== *)
theory Chain_Reorg
  imports Chain_Proofs
begin

text \<open>
  The invariant of the blockchain is kept by a put: first the store with a new header, then the canonical
  chain along the new branch, the iterators and the total difficulties.
\<close>

section \<open>A header more\<close>

definition adds :: "chain_cfg \<Rightarrow> int \<Rightarrow> block_header \<Rightarrow> chain \<Rightarrow> chain \<Rightarrow> bool" where
  "adds cc td hdr s t \<longleftrightarrow>
     (let n = bh_number hdr; x = header_hash (cc_block cc) hdr
      in ch_common t = ch_common s \<and> n < 2 ^ 64 \<and>
         (\<forall>k y. ch_db t (Header k y) = (if k = n \<and> y = x then Some (Buf (header_serialize (cc_block cc) hdr))
            else ch_db s (Header k y))) \<and>
         (\<forall>k y. ch_db t (TotalDifficulty k y) = (if k = n \<and> y = x
            then Some (Buf (txc_encode (bc_tx (cc_block cc)) (Item (toArrayLike_min td))))
            else ch_db s (TotalDifficulty k y))) \<and>
         ch_db t (HashToNumber x) = Some (Buf (be_bytes 8 n)) \<and>
         (\<forall>k y. stored s k y \<longrightarrow> y \<noteq> x \<longrightarrow> ch_db t (HashToNumber y) = ch_db s (HashToNumber y)))"

text \<open>No other header of the store has the hash of this one.\<close>

definition no_clash :: "chain_cfg \<Rightarrow> chain \<Rightarrow> block_header \<Rightarrow> bool" where
  "no_clash cc s hdr \<longleftrightarrow> (\<forall>k h. node cc s k (header_hash (cc_block cc) hdr) h \<longrightarrow> header_raw h = header_raw hdr)"

text \<open>The RLP package reads back a byte string that it wrote.\<close>

definition strings_read_back :: "chain_cfg \<Rightarrow> bool" where
  "strings_read_back cc \<longleftrightarrow>
     (\<forall>b. txc_decode (bc_tx (cc_block cc)) (txc_encode (bc_tx (cc_block cc)) (Item b)) = Inr (Item b))"

lemma addsD:
  assumes "adds cc td hdr s t"
  shows "ch_common t = ch_common s" "bh_number hdr < 2 ^ 64"
    "ch_db t (Header k y) = (if k = bh_number hdr \<and> y = header_hash (cc_block cc) hdr
       then Some (Buf (header_serialize (cc_block cc) hdr)) else ch_db s (Header k y))"
    "ch_db t (TotalDifficulty k y) = (if k = bh_number hdr \<and> y = header_hash (cc_block cc) hdr
       then Some (Buf (txc_encode (bc_tx (cc_block cc)) (Item (toArrayLike_min td))))
       else ch_db s (TotalDifficulty k y))"
    "ch_db t (HashToNumber (header_hash (cc_block cc) hdr)) = Some (Buf (be_bytes 8 (bh_number hdr)))"
    "stored s k y \<Longrightarrow> y \<noteq> header_hash (cc_block cc) hdr \<Longrightarrow> ch_db t (HashToNumber y) = ch_db s (HashToNumber y)"
  using assms unfolding adds_def Let_def by blast+

lemma adds_stored:
  "adds cc td hdr s t \<Longrightarrow>
     stored t k y \<longleftrightarrow> k = bh_number hdr \<and> y = header_hash (cc_block cc) hdr \<or> stored s k y"
  by (auto simp: stored_def addsD(3))

lemma adds_new_node:
  "adds cc td hdr s t \<Longrightarrow> header_ok cc (ch_common s) hdr \<Longrightarrow>
     node cc t (bh_number hdr) (header_hash (cc_block cc) hdr) hdr"
  using addsD(2) by (fastforce simp: node_def addsD(1,3))

lemma clash_same:
  assumes "no_clash cc s hdr" "header_ok cc (ch_common s) hdr" "node cc s k (header_hash (cc_block cc) hdr) h"
  shows "k = bh_number hdr" "bh_difficulty h = bh_difficulty hdr" "bh_parentHash h = bh_parentHash hdr"
    "header_serialize (cc_block cc) h = header_serialize (cc_block cc) hdr"
proof -
  have raw: "header_raw h = header_raw hdr" using assms(1,3) by (simp add: no_clash_def)
  show "k = bh_number hdr"
    using raw_parts(4) [OF raw] assms(2,3) by (simp add: node_def header_ok_def)
  show "bh_difficulty h = bh_difficulty hdr"
    using raw_parts(3) [OF raw] assms(2,3) by (simp add: node_def header_ok_def)
  show "bh_parentHash h = bh_parentHash hdr" by (rule raw_parts(1) [OF raw])
  show "header_serialize (cc_block cc) h = header_serialize (cc_block cc) hdr" by (rule raw_parts(5) [OF raw])
qed

lemma adds_node:
  assumes "adds cc td hdr s t" "no_clash cc s hdr" "header_ok cc (ch_common s) hdr" "node cc s k y h"
  shows "node cc t k y h"
proof (cases "k = bh_number hdr \<and> y = header_hash (cc_block cc) hdr")
  case True
  then have "header_serialize (cc_block cc) h = header_serialize (cc_block cc) hdr"
    using clash_same(4) [OF assms(2,3)] assms(4) by blast
  then show ?thesis using assms(4) True by (simp add: node_def addsD(1,3) [OF assms(1)])
next
  case False
  then show ?thesis using assms(4) by (auto simp: node_def addsD(1,3) [OF assms(1)])
qed

lemma adds_td:
  assumes "adds cc td hdr s t" "strings_read_back cc" "0 \<le> td" "0 \<le> bh_number hdr"
  shows "td_at cc t (bh_number hdr) (header_hash (cc_block cc) hdr) = Inr td"
  using assms addsD(2) [OF assms(1)]
  by (simp add: getTotalDifficulty_def db_buffer_def db_get_def addsD(4) key_number strings_read_back_def)

lemma adds_other_td:
  assumes "adds cc td hdr s t" "\<not> (k = bh_number hdr \<and> y = header_hash (cc_block cc) hdr)"
  shows "td_at cc t k y = td_at cc s k y"
proof -
  have "ch_db t (TotalDifficulty k y) = ch_db s (TotalDifficulty k y)"
    using addsD(4) [OF assms(1), of k y] assms(2) by (simp only: if_False)
  then show ?thesis by (simp only: getTotalDifficulty_def db_buffer_def db_get_def)
qed

lemma td_nonneg:
  assumes "td_at cc s n x = Inr t" shows "0 \<le> t"
proof -
  obtain y where "(case y of Item b \<Rightarrow> Inr (bn_of_bytes b) | Items xs \<Rightarrow> Inl wrong_value) = Inr t"
    using assms by (auto simp: getTotalDifficulty_def bindS_Inr_iff)
  then show ?thesis by (cases y) auto
qed

lemma store_put:
  assumes ok: "store_ok cc g s" and new: "header_ok cc (ch_common s) hdr" "no_clash cc s hdr" "0 < bh_number hdr"
    and up: "td_at cc s (bh_number hdr - 1) (bh_parentHash hdr) = Inr u"
    and adds: "adds cc (bh_difficulty hdr + u) hdr s t" and codec: "strings_read_back cc"
  shows "store_ok cc g t"
proof -
  define n where "n = bh_number hdr"
  define x where "x = header_hash (cc_block cc) hdr"
  have td: "0 \<le> bh_difficulty hdr + u" "0 \<le> n"
    using new td_nonneg [OF up] by (simp_all add: header_ok_def n_def)
  note td_new = adds_td [OF adds codec td [unfolded n_def], folded n_def x_def]
    adds_other_td [OF adds, folded n_def x_def]
  note node_keeps = adds_node [OF adds new(2,1)]
  have same_td: "td_at cc t k y = td_at cc s k y" if st: "stored s k y" for k y
  proof (cases "k = n \<and> y = x")
    case True
    obtain h where h: "node cc s n x h" "\<exists>v. td_at cc s (n - 1) (bh_parentHash h) = Inr v \<and>
        td_at cc s n x = Inr (v + bh_difficulty h)"
      using ok st True new(3) unfolding store_ok_def n_def by blast
    have "td_at cc s n x = Inr (bh_difficulty hdr + u)"
      using h(2) up clash_same(2,3) [OF new(2,1), folded x_def, OF h(1)] by (auto simp: n_def)
    then show ?thesis using True td_new(1) by simp
  next
    case False
    then show ?thesis by (rule td_new(2))
  qed
  have parent: "stored s (n - 1) (bh_parentHash hdr)"
    using td_of_stored [OF ok up] by (simp add: n_def)
  note st = adds_stored [OF adds, folded n_def x_def]
  have root: "stored s 0 g"
    using ok td_of_stored [OF ok] unfolding store_ok_def by blast
  have "\<exists>v. td_at cc t 0 g = Inr v"
    using ok same_td [OF root] by (simp add: store_ok_def)
  moreover have "ch_db t (TotalDifficulty k y) \<noteq> None \<and> ch_db t (HashToNumber y) = Some (Buf (be_bytes 8 k)) \<and>
      (\<exists>h. node cc t k y h \<and> (k = 0 \<longrightarrow> y = g) \<and>
        (k > 0 \<longrightarrow> stored t (k - 1) (bh_parentHash h) \<and>
           (\<exists>v. td_at cc t (k - 1) (bh_parentHash h) = Inr v \<and> td_at cc t k y = Inr (v + bh_difficulty h))))"
    if "stored t k y" for k y
  proof (cases "k = n \<and> y = x")
    case True
    have "node cc t n x hdr" using adds_new_node [OF adds new(1)] by (simp add: n_def x_def)
    moreover have "td_at cc t (n - 1) (bh_parentHash hdr) = Inr u"
      using same_td [OF parent] up by (simp add: n_def)
    ultimately show ?thesis
      using True td_new(1) parent st new(3) addsD(5) [OF adds, folded n_def x_def] addsD(4) [OF adds]
      by (auto simp: n_def x_def add.commute)
  next
    case False
    then have s: "stored s k y" using that st by auto
    then obtain h where h: "node cc s k y h" "k = 0 \<longrightarrow> y = g" "k > 0 \<longrightarrow> stored s (k - 1) (bh_parentHash h) \<and>
        (\<exists>v. td_at cc s (k - 1) (bh_parentHash h) = Inr v \<and> td_at cc s k y = Inr (v + bh_difficulty h))"
      "ch_db s (TotalDifficulty k y) \<noteq> None" "ch_db s (HashToNumber y) = Some (Buf (be_bytes 8 k))"
      using ok unfolding store_ok_def by blast
    have "y \<noteq> x"
      using clash_same(1) [OF new(2,1), folded x_def n_def] h(1) False by blast
    then show ?thesis
      using h node_keeps [OF h(1)] same_td [OF s] same_td st False addsD(4,6) [OF adds] s
      by (auto simp: x_def n_def)
  qed
  moreover have "stored t k y" if "ch_db t (TotalDifficulty k y) \<noteq> None" for k y
    using that st ok addsD(4) [OF adds, of k y] unfolding store_ok_def n_def x_def by (auto split: if_splits)
  ultimately show ?thesis unfolding store_ok_def by blast
qed

section \<open>The canonical chain along a branch\<close>

lemma canon_put:
  assumes ok: "canon_ok cc g tip s" and branch: "branch cc s m n p hdr" "n = bh_number hdr"
    and node: "\<And>k y h. node cc s k y h \<Longrightarrow> node cc t k y h" "node cc t n (p n) hdr"
    and links: "\<And>j. ch_db t (NumberToHash j) = (if m < j \<and> j \<le> n then Some (Buf (p j))
       else if n < j \<and> j \<le> tip then None else ch_db s (NumberToHash j))"
  shows "canon_ok cc g n t" "canon t n = Some (p n)"
proof -
  have b: "0 \<le> m" "m \<le> n" "canon s m = Some (p m)" "m < n \<longrightarrow> bh_parentHash hdr = p (n - 1)"
    "\<And>j. m < j \<Longrightarrow> j < n \<Longrightarrow> \<exists>h. node cc s j (p j) h \<and> bh_parentHash h = p (j - 1)"
    using branch by (simp_all add: branch_def)
  have tip: "0 \<le> tip" "m \<le> tip"
    using canon_okD(1) [OF ok] canon_okD(4) [OF ok, of m] b(3) by simp_all
  have low: "canon t j = canon s j" if "j \<le> m" for j
    using that b(2) by (simp add: canon_def links)
  have high: "canon t j = Some (p j)" if "m < j" "j \<le> n" for j
    using that by (simp add: canon_def links)
  have at: "canon t j = Some (p j)" if "m \<le> j" "j \<le> n" for j
    using that low [of m] high [of j] b(3) by (cases "j = m") simp_all
  show "canon t n = Some (p n)" using at b(2) by simp
  have "ch_db t (NumberToHash j) \<noteq> None \<longleftrightarrow> 0 \<le> j \<and> j \<le> n" for j
    using canon_okD(3) [OF ok, of j] b(1,2) tip by (auto simp: links)
  moreover have "\<exists>x h. canon t j = Some x \<and> node cc t j x h \<and>
      (j > 0 \<longrightarrow> canon t (j - 1) = Some (bh_parentHash h))" if "0 \<le> j \<and> j \<le> n" for j
  proof (cases "j \<le> m")
    case True
    then have "canon s j \<noteq> None" using that tip canon_okD(4) [OF ok, of j] by simp
    then obtain x h where "canon s j = Some x" "node cc s j x h" "j > 0 \<longrightarrow> canon s (j - 1) = Some (bh_parentHash h)"
      using canon_okD(5) [OF ok] by blast
    then show ?thesis using True low [of j] low [of "j - 1"] node(1) [of j x h] by auto
  next
    case False
    show ?thesis
    proof (cases "j = n")
      case True
      then show ?thesis using False at [of n] at [of "n - 1"] b(2,4) node(2) by auto
    next
      case False
      then have "m < j" "j < n" using \<open>\<not> j \<le> m\<close> that by simp_all
      then obtain h where "node cc s j (p j) h" "bh_parentHash h = p (j - 1)"
        using b(5) by blast
      then show ?thesis using \<open>\<not> j \<le> m\<close> that at [of j] at [of "j - 1"] node(1) [of j "p j" h] by auto
    qed
  qed
  ultimately show "canon_ok cc g n t"
    using canon_okD(2) [OF ok] low [of 0] b(1,2) by (simp add: canon_ok_def)
qed

lemma canon_same:
  assumes "canon_ok cc g tip s" "\<And>k y h. node cc s k y h \<Longrightarrow> node cc t k y h"
    "\<And>j. ch_db t (NumberToHash j) = ch_db s (NumberToHash j)"
  shows "canon_ok cc g tip t" "canon t j = canon s j"
proof -
  show *: "canon t j = canon s j" for j using assms(3) by (simp add: canon_def)
  show "canon_ok cc g tip t"
    using assms(1,2) unfolding canon_ok_def * assms(3) by blast
qed

section \<open>The iterators\<close>

text \<open>The names of the iterators are the keys of an object: each is there once.\<close>

lemma set_heads:
  "distinct (map fst hs) \<Longrightarrow> distinct (map fst (fold (\<lambda>name. set_head name v) names hs))"
  "distinct (map fst hs) \<Longrightarrow>
     map_of (fold (\<lambda>name. set_head name v) names hs) = (\<lambda>k. if k \<in> set names then Some v else map_of hs k)"
  by (induction names arbitrary: hs)
    (auto simp: set_head_def distinct_update update_conv' fun_eq_iff)

lemma heads_put:
  assumes ok: "canon_ok cc g tip s" "heads_ok s" "distinct (map fst (ch_heads s))" and branch: "branch cc s m n p hdr"
    and s2: "s2 = reset_above (n + 1) (p n) s" and stale: "set names = stale_names s2 m n"
    and t: "ch_heads t = fold (\<lambda>name. set_head name (p m)) names (ch_heads s2)"
    and low: "\<And>j. j \<le> m \<Longrightarrow> canon t j = canon s j" and new: "canon t n = Some (p n)"
  shows "heads_ok t" "distinct (map fst (ch_heads t))"
proof -
  have s2_heads: "ch_heads s2 = map (\<lambda>(name, h). (name, if \<exists>j \<ge> n + 1. canon s j = Some h then p n else h)) (ch_heads s)"
    by (simp add: s2 reset_above_def)
  have "map fst (ch_heads s2) = map fst (ch_heads s)" by (simp add: s2_heads case_prod_beta)
  then have d: "distinct (map fst (ch_heads s2))" using ok(3) by simp
  then show "distinct (map fst (ch_heads t))" using set_heads(1) t by simp
  have canon2: "canon s2 = canon s" by (simp add: s2 reset_above_def canon_def fun_eq_iff)
  show "heads_ok t"
    unfolding heads_ok_def
  proof
    fix h assume "h \<in> snd ` set (ch_heads t)"
    then obtain name where "(name, h) \<in> set (ch_heads t)" by auto
    then have at: "map_of (ch_heads t) name = Some h"
      using set_heads(1) [OF d] t by (simp add: map_of_is_SomeI)
    show "\<exists>n. canon t n = Some h"
    proof (cases "name \<in> set names")
      case True
      then have "h = p m" using at set_heads(2) [OF d] t by simp
      moreover have "canon s m = Some (p m)" using branch by (simp add: branch_def)
      ultimately show ?thesis using low [of m] by auto
    next
      case False
      then have "map_of (ch_heads s2) name = Some h" using at set_heads(2) [OF d] t by simp
      then have mem: "(name, h) \<in> set (ch_heads s2)" by (rule map_of_SomeD)
      then obtain h0 where h0: "(name, h0) \<in> set (ch_heads s)"
        "h = (if \<exists>j \<ge> n + 1. canon s j = Some h0 then p n else h0)"
        by (auto simp: s2_heads)
      show ?thesis
      proof (cases "\<exists>j \<ge> n + 1. canon s j = Some h0")
        case True
        then show ?thesis using h0(2) new by auto
      next
        case above: False
        obtain j where j: "canon s j = Some h"
          using ok(2) h0 above unfolding heads_ok_def by force
        have "\<not> (m < j \<and> j \<le> n)"
          using False mem j unfolding stale stale_names_def canon2 by blast
        moreover have "j \<le> n"
          using above h0(2) j by (metis add1_zle_eq linorder_not_less)
        ultimately show ?thesis using low [of j] j by auto
      qed
    qed
  qed
qed

section \<open>States with the same blocks\<close>

text \<open>The targets that hold no block: the heads and the snapshots of clique.\<close>

definition side_targets :: "db_target set" where
  "side_targets = {Heads, HeadHeader, HeadBlock, CliqueSignerStates, CliqueVotes, CliqueBlockSigners}"

definition same_blocks :: "chain \<Rightarrow> chain \<Rightarrow> bool" where
  "same_blocks s t \<longleftrightarrow> ch_common t = ch_common s \<and> (\<forall>x. x \<notin> side_targets \<longrightarrow> ch_db t x = ch_db s x)"

definition same_chain :: "chain \<Rightarrow> chain \<Rightarrow> bool" where
  "same_chain s t \<longleftrightarrow> same_blocks s t \<and> ch_genesis t = ch_genesis s \<and> ch_heads t = ch_heads s \<and>
     ch_headHeaderHash t = ch_headHeaderHash s"

lemma same_blocksD:
  assumes "same_blocks s t"
  shows "ch_common t = ch_common s" "ch_db t (Header n x) = ch_db s (Header n x)"
    "ch_db t (HashToNumber x) = ch_db s (HashToNumber x)" "ch_db t (NumberToHash n) = ch_db s (NumberToHash n)"
    "ch_db t (TotalDifficulty n x) = ch_db s (TotalDifficulty n x)"
  using assms by (simp_all add: same_blocks_def side_targets_def)

lemma same_blocks_views:
  assumes "same_blocks s t"
  shows "td_at cc t n x = td_at cc s n x" "canon t n = canon s n" "node cc t n x h = node cc s n x h"
    "stored t n x = stored s n x" "hashToNumber t x = hashToNumber s x"
  by (simp_all add: getTotalDifficulty_def db_buffer_def db_get_def canon_def node_def stored_def
      hashToNumber_def same_blocksD [OF assms])

lemma same_blocks_ok:
  assumes "same_blocks s t"
  shows "store_ok cc g t = store_ok cc g s" "canon_ok cc g tip t = canon_ok cc g tip s"
  unfolding store_ok_def canon_ok_def same_blocks_views [OF assms] same_blocksD [OF assms] by (rule refl)+

lemma same_blocks_td: "same_blocks s t \<Longrightarrow> totalDifficulty_of cc t x = totalDifficulty_of cc s x"
proof -
  assume s: "same_blocks s t"
  have "getTotalDifficulty cc t x = getTotalDifficulty cc s x"
    by (rule ext) (rule same_blocks_views(1) [OF s])
  then show ?thesis by (simp add: totalDifficulty_of_def same_blocks_views(5) [OF s])
qed

lemma same_chain_inv:
  assumes "same_chain s t" "chain_inv cc s"
  shows "chain_inv cc t"
proof -
  have s: "same_blocks s t" "ch_genesis t = ch_genesis s" "ch_heads t = ch_heads s"
    "ch_headHeaderHash t = ch_headHeaderHash s"
    using assms(1) by (simp_all add: same_chain_def)
  show ?thesis
    using assms(2)
    unfolding chain_inv_def heaviest_def heads_ok_def s(2-4) same_blocks_ok [OF s(1)] same_blocks_views [OF s(1)]
      same_blocks_td [OF s(1)] .
qed

lemma same_chain_refl: "same_chain s s"
  by (simp add: same_chain_def same_blocks_def)

lemma same_chain_trans: "same_chain r s \<Longrightarrow> same_chain s t \<Longrightarrow> same_chain r t"
  by (simp add: same_chain_def same_blocks_def)

section \<open>The snapshots of clique leave the chain\<close>

definition leaves_chain :: "(chain, 'a) eff \<Rightarrow> bool" where
  "leaves_chain m \<longleftrightarrow> (\<forall>s. same_chain s (snd (m s)))"

named_theorems leaves \<open>effects that leave the chain as it is\<close>

lemma leaves_bnd: "leaves_chain m \<Longrightarrow> (\<And>x. leaves_chain (k x)) \<Longrightarrow> leaves_chain (bnd m k)"
  unfolding leaves_chain_def bnd_def
  by (auto split: prod.split sum.split intro: same_chain_trans)
    (metis same_chain_trans snd_conv)+

lemma leaves_rules [leaves]:
  "leaves_chain (ret x)" "leaves_chain (raise e)" "leaves_chain (gets f)" "leaves_chain (of_sum r)"
  "leaves_chain (reads q)" "leaves_chain (guard_eff b e)"
  by (simp_all add: leaves_chain_def eff_defs reads_def same_chain_refl)

lemma leaves_combine [leaves]:
  "leaves_chain m1 \<Longrightarrow> leaves_chain m2 \<Longrightarrow> leaves_chain (andthen m1 m2)"
  "leaves_chain u \<Longrightarrow> leaves_chain (when_eff b u)"
  "(b \<Longrightarrow> leaves_chain m) \<Longrightarrow> (\<not> b \<Longrightarrow> leaves_chain n) \<Longrightarrow> leaves_chain (if b then m else n)"
  "leaves_chain m \<Longrightarrow> (\<And>x. leaves_chain (k x)) \<Longrightarrow> leaves_chain (case l of None \<Rightarrow> m | Some x \<Rightarrow> k x)"
  "(\<And>x y. leaves_chain (h x y)) \<Longrightarrow> leaves_chain (case p of (x, y) \<Rightarrow> h x y)"
  by (auto simp: andthen_def when_eff_def leaves_rules split: option.split prod.split intro: leaves_bnd)

lemma leaves_snapshots [leaves]:
  "leaves_chain (modif (\<lambda>s. s\<lparr>ch_signerStates := f s\<rparr>))" "leaves_chain (modif (\<lambda>s. s\<lparr>ch_votes := f' s\<rparr>))"
  "leaves_chain (modif (\<lambda>s. s\<lparr>ch_blockSigners := f'' s\<rparr>))" "leaves_chain (modif (ch_votes_update g))"
  "t \<in> side_targets \<Longrightarrow> leaves_chain (db_batch [Put t v])"
  by (auto simp: leaves_chain_def eff_defs db_batch_def batch_def same_chain_def same_blocks_def)

lemma leaves_save: "t \<in> side_targets \<Longrightarrow> leaves_chain (save_rlp cc t f)"
  unfolding save_rlp_def by (rule leaves_bnd leaves | assumption)+

lemma leaves_updates [leaves]:
  "leaves_chain (cliqueUpdateSignerStates cc st)" "leaves_chain (save_votes cc)" "leaves_chain (save_block_signers cc)"
  unfolding cliqueUpdateSignerStates_def save_votes_def trim_votes_def save_block_signers_def
  by (rule leaves_bnd leaves leaves_save | simp add: side_targets_def)+

lemma leaves_votes [leaves]: "leaves_chain (vote_round cc i v)" "leaves_chain (cliqueUpdateVotes cc h)"
  unfolding vote_round_def cliqueUpdateVotes_def Let_def
  by (rule leaves_bnd leaves)+

lemma leaves_signers [leaves]: "leaves_chain (cliqueUpdateLatestBlockSigners cc h)"
proof -
  have trim: "leaves_chain (modif (\<lambda>s. let l = ch_blockSigners s in if limit < length l
      then s\<lparr>ch_blockSigners := drop (length l - limit) l\<rparr> else s))" for limit
    by (simp add: leaves_chain_def modif_def Let_def same_chain_def same_blocks_def)
  show ?thesis
    unfolding cliqueUpdateLatestBlockSigners_def by (rule leaves_bnd leaves trim)+
qed

lemma leaves_build: "leaves_chain (build_snapshots cc k n)"
  by (induction k arbitrary: n) (simp_all add: cliqueBuildSnapshots_def leaves leaves_bnd)

lemma leaves_update [leaves]: "leaves_chain (update_snapshots cc a n)"
  unfolding update_snapshots_def cliqueDeleteSnapshots_def
  by (rule leaves_bnd leaves leaves_build)+

end
