(* ===== verification/Chain_Put.thy ===== *)
theory Chain_Put
  imports Chain_Reorg
begin

text \<open>
  A put keeps the invariant of the blockchain, whether the block becomes the head or not.
\<close>

section \<open>The operations of a put\<close>

lemma batch_block:
  assumes "\<And>k y. t \<noteq> Body k y"
  shows "batch (DBSetTD cfg td n x # DBSetBlockOrHeader cfg b) db t =
    (if t = TotalDifficulty n x then Some (Buf (txc_encode (bc_tx cfg) (Item (toArrayLike_min td))))
     else if t = Header (bh_number (b_header b)) (header_hash cfg (b_header b))
     then Some (Buf (header_serialize cfg (b_header b))) else db t)"
  using assms by (auto simp: batch_def DBSetTD_def DBSetBlockOrHeader_def Let_def)

lemma batch_head_ops: "t \<notin> side_targets \<Longrightarrow> batch (saveHeadOps s) db t = db t"
  by (auto simp: batch_def saveHeadOps_def side_targets_def)

lemma make_head_run:
  assumes run: "make_head cc isHeader b td ops s = (Inr ops', t)" and hf: "\<not> cc_hardforkByHead cc"
  obtains s1 s2 dels r where
    "s1 = s\<lparr>ch_headHeaderHash := Some (header_hash (cc_block cc) (b_header b)),
       ch_headBlockHash := (if isHeader then ch_headBlockHash s else Some (header_hash (cc_block cc) (b_header b)))\<rparr>"
    "deleteCanonicalChainReferences (bh_number (b_header b) + 1) (header_hash (cc_block cc) (b_header b)) ops s1 =
       (Inr dels, s2)"
    "rebuild_loop cc s2 (Suc (nat (bh_number (b_header b)))) (b_header b) (bh_number (b_header b))
       \<lparr>rb_ops = dels, rb_staleHeads = [], rb_staleHeadBlock = False,
        rb_currentCanonicalHash = header_hash (cc_block cc) (b_header b)\<rparr> = Inr r"
    "ops' = rb_ops r"
    "t = s2\<lparr>ch_heads := fold (\<lambda>name. set_head name (rb_currentCanonicalHash r)) (rb_staleHeads r) (ch_heads s2),
       ch_headBlockHash := (if rb_staleHeadBlock r then Some (rb_currentCanonicalHash r) else ch_headBlockHash s2)\<rparr>"
proof -
  let ?x = "header_hash (cc_block cc) (b_header b)"
  let ?s1 = "s\<lparr>ch_headHeaderHash := Some ?x, ch_headBlockHash := (if isHeader then ch_headBlockHash s else Some ?x)\<rparr>"
  have "bnd (deleteCanonicalChainReferences (bh_number (b_header b) + 1) ?x ops)
      (rebuildCanonical cc (b_header b)) ?s1 = (Inr ops', t)"
    using run hf by (simp add: make_head_def Let_def andthen_def when_eff_def bnd_def modif_def ret_def)
  then obtain dels s2 where d: "deleteCanonicalChainReferences (bh_number (b_header b) + 1) ?x ops ?s1 = (Inr dels, s2)"
    "rebuildCanonical cc (b_header b) dels s2 = (Inr ops', t)"
    by (auto simp: bnd_def split: prod.splits sum.splits)
  from d(2) show thesis
    by (auto simp: rebuildCanonical_def eff_defs reads_def split: prod.splits sum.splits intro!: that [OF refl d(1)])
qed

section \<open>A new head\<close>

lemma head_put:
  assumes inv: "store_ok cc g s" "canon_ok cc g tip s" "heads_ok s" "distinct (map fst (ch_heads s))"
    and b: "b_header b = hdr" "bh_number hdr = n" "header_hash (cc_block cc) hdr = x"
    and new: "header_ok cc (ch_common s) hdr" "no_clash cc s hdr" "0 < n" "n \<le> tip + 2" "n < 2 ^ 64"
    and up: "td_at cc s (n - 1) (bh_parentHash hdr) = Inr u" and codec: "strings_read_back cc"
    and run: "make_head cc isHeader b (bh_difficulty hdr + u)
      (DBSetTD (cc_block cc) (bh_difficulty hdr + u) n x # DBSetBlockOrHeader (cc_block cc) b) s = (Inr ops, t1)"
    and hf: "\<not> cc_hardforkByHead cc"
    and t: "t = t1\<lparr>ch_db := batch (ops @ saveHeadOps t1) (ch_db t1)\<rparr>"
  shows "store_ok cc g t" "canon_ok cc g n t" "canon t n = Some x" "ch_headHeaderHash t = Some x"
    "ch_genesis t = ch_genesis s" "heads_ok t" "distinct (map fst (ch_heads t))"
    "adds cc (bh_difficulty hdr + u) hdr s t"
proof -
  let ?td = "bh_difficulty hdr + u"
  let ?ops = "DBSetTD (cc_block cc) ?td n x # DBSetBlockOrHeader (cc_block cc) b"
  obtain s1 s2 dels r where s1: "s1 = s\<lparr>ch_headHeaderHash := Some x,
      ch_headBlockHash := (if isHeader then ch_headBlockHash s else Some x)\<rparr>"
    and del: "deleteCanonicalChainReferences (n + 1) x ?ops s1 = (Inr dels, s2)"
    and loop: "rebuild_loop cc s2 (Suc (nat n)) hdr n \<lparr>rb_ops = dels, rb_staleHeads = [], rb_staleHeadBlock = False,
        rb_currentCanonicalHash = x\<rparr> = Inr r"
    and ops: "ops = rb_ops r"
    and t1: "t1 = s2\<lparr>ch_heads := fold (\<lambda>name. set_head name (rb_currentCanonicalHash r)) (rb_staleHeads r) (ch_heads s2),
       ch_headBlockHash := (if rb_staleHeadBlock r then Some (rb_currentCanonicalHash r) else ch_headBlockHash s2)\<rparr>"
    using make_head_run [OF run hf, unfolded b] by metis
  have same1: "same_blocks s s1" by (simp add: s1 same_blocks_def)
  have ok1: "store_ok cc g s1" "canon_ok cc g tip s1"
    using inv(1,2) same_blocks_ok [OF same1] by simp_all
  have dels: "dels = ?ops @ unlinked (n + 1) tip" "s2 = reset_above (n + 1) x s1"
    using delete_references [OF del] canon_okD(4) [OF ok1(2)] new(3) by auto
  have same2: "same_blocks s1 s2" "ch_headHeaderHash s2 = Some x" "ch_genesis s2 = ch_genesis s" "ch_db s2 = ch_db s"
    "ch_common s2 = ch_common s"
    by (simp_all add: dels(2) reset_above_def same_blocks_def s1)
  have ok2: "store_ok cc g s2" "canon_ok cc g tip s2"
    using ok1 same_blocks_ok [OF same2(1)] by simp_all
  have parent: "stored s (n - 1) (bh_parentHash hdr)" by (rule td_of_stored [OF inv(1) up])
  then have parent2: "stored s2 (n - 1) (bh_parentHash hdr)" by (simp add: stored_def same2(4))
  obtain m p where br2: "branch cc s2 m n p hdr" and r: "rb_ops r = dels @ lookups p m n"
    "rb_currentCanonicalHash r = p m" "set (rb_staleHeads r) = stale_names s2 m n"
    using rebuild_path [OF ok2 loop b(2) _ new(4)] new(3) parent2 by auto
  have views: "canon s2 = canon s" "\<And>k y h. node cc s2 k y h = node cc s k y h"
    by (simp_all add: fun_eq_iff canon_def node_def same2(4,5))
  have br: "branch cc s m n p hdr" using br2 by (simp add: branch_def views)
  have p: "0 \<le> m" "m \<le> n" "p n = x" "\<And>j. m < j \<Longrightarrow> j < n \<Longrightarrow> stored s j (p j)" "canon s m = Some (p m)"
    using br b(3) by (auto simp: branch_def node_def stored_def)
  have tdb: "ch_db t = batch (saveHeadOps t1) (batch (lookups p m n) (batch (unlinked (n + 1) tip) (batch ?ops (ch_db s))))"
  proof -
    have "ch_db t1 = ch_db s" by (simp add: t1 same2(4))
    moreover have "ch_db t = batch (((?ops @ unlinked (n + 1) tip) @ lookups p m n) @ saveHeadOps t1) (ch_db t1)"
      unfolding t ops r(1) dels(1) by simp
    ultimately show ?thesis by (simp only: batch_append)
  qed
  have db: "ch_db t y = batch (lookups p m n) (batch (unlinked (n + 1) tip) (batch ?ops (ch_db s))) y"
    if "y \<notin> side_targets" for y
    unfolding tdb by (rule batch_head_ops [OF that])
  have links: "ch_db t (NumberToHash j) = (if m < j \<and> j \<le> n then Some (Buf (p j))
      else if n < j \<and> j \<le> tip then None else ch_db s (NumberToHash j))" for j
    by (simp add: db side_targets_def batch_lookups batch_unlinked batch_block)
  have others: "ch_db t y = batch ?ops (ch_db s) y"
    if "y \<notin> side_targets" "\<And>i h. y \<noteq> NumberToHash i \<and> y \<noteq> HashToNumber h" for y
    using that(2) by (simp add: db [OF that(1)] batch_lookups(2) batch_unlinked)
  have hash_db: "batch (unlinked (n + 1) tip) (batch ?ops (ch_db s)) (HashToNumber y) = ch_db s (HashToNumber y)" for y
    by (simp add: batch_unlinked batch_block)
  have unique: "k = n" if "stored s k x" for k
    using store_okD(3) [OF inv(1) that] clash_same(1) [OF new(2,1), unfolded b] by blast
  have own: "ch_db t (HashToNumber x) = Some (Buf (be_bytes 8 n))"
  proof (cases "m = n")
    case True
    then have "stored s n x"
      using p(3,5) canon_okD(5) [OF inv(2)] by (auto simp: node_def stored_def)
    then have "ch_db s (HashToNumber x) = Some (Buf (be_bytes 8 n))" by (rule store_okD(1) [OF inv(1)])
    then show ?thesis using True by (simp add: db side_targets_def batch_lookups(3) hash_db)
  next
    case False
    have "i = n" if "m < i" "i \<le> n" "p i = x" for i
    proof (rule ccontr)
      assume "i \<noteq> n"
      then have "stored s i x" using that p(4) [of i] by simp
      then show False using unique \<open>i \<noteq> n\<close> by blast
    qed
    then show ?thesis
      using False p(2,3) batch_lookups(4) [of m n p x n] by (simp add: db side_targets_def)
  qed
  have hashes: "ch_db t (HashToNumber y) = ch_db s (HashToNumber y)" if st: "stored s k y" and ne: "y \<noteq> x" for k y
  proof (cases "\<exists>i. m < i \<and> i \<le> n \<and> p i = y")
    case False
    then show ?thesis by (simp add: db side_targets_def batch_lookups(3) hash_db)
  next
    case True
    then obtain i where i: "m < i" "i < n" "p i = y" using p(3) ne by (metis order_le_less)
    have at: "ch_db s (HashToNumber y) = Some (Buf (be_bytes 8 j))" if "stored s j y" for j
      by (rule store_okD(1) [OF inv(1) that])
    have "j = i" if "m < j" "j \<le> n" "p j = y" for j
    proof -
      have "j < n" using that p(3) ne by (metis order_le_less)
      then have "stored s j y" "stored s i y" using that i p(4) [of j] p(4) [of i] by auto
      moreover from this have "0 \<le> j" "j < 2 ^ 64" "0 \<le> i" "i < 2 ^ 64"
        using store_okD(3) [OF inv(1)] by (auto simp: node_def header_ok_def)
      ultimately show ?thesis using at [of j] at [of i] be8_inj [of j i] by simp
    qed
    then have "ch_db t (HashToNumber y) = Some (Buf (be_bytes 8 i))"
      using batch_lookups(4) [of m n p y i, OF _ i(1) _ i(3)] i(2) by (simp add: db side_targets_def)
    moreover have "stored s i y" using p(4) [OF i(1,2)] i(3) by simp
    ultimately show ?thesis using at [of i] by simp
  qed
  have common: "ch_common t = ch_common s" by (simp add: t t1 same2(5))
  show adds: "adds cc ?td hdr s t"
    unfolding adds_def b Let_def
    using common new(5) own hashes b by (auto simp: others side_targets_def batch_block)
  show "store_ok cc g t"
    using store_put [OF inv(1) new(1,2) _ _ adds codec] new(3) up by (simp add: b)
  have node: "node cc t k y h" if "node cc s k y h" for k y h
    by (rule adds_node [OF adds new(2,1) that])
  have "node cc t n (p n) hdr" using adds_new_node [OF adds new(1)] by (simp add: b p(3))
  from canon_put [OF inv(2) br b(2) [symmetric] node this links]
  show "canon_ok cc g n t" and at: "canon t n = Some x" by (simp_all add: p(3))
  show "ch_headHeaderHash t = Some x" "ch_genesis t = ch_genesis s" by (simp_all add: t t1 same2(2,3))
  have low: "canon t j = canon s1 j" if "j \<le> m" for j
    using that p(2) same_blocks_views(2) [OF same1] by (simp add: canon_def links)
  have "heads_ok s1" "distinct (map fst (ch_heads s1))" "branch cc s1 m n p hdr"
    using inv(3,4) br same_blocks_views(2,3) [OF same1] by (simp_all add: heads_ok_def s1 branch_def)
  moreover have "ch_heads t = fold (\<lambda>name. set_head name (p m)) (rb_staleHeads r) (ch_heads s2)"
    by (simp add: t t1 r(2))
  ultimately show "heads_ok t" "distinct (map fst (ch_heads t))"
    using heads_put [OF ok1(2) _ _ _ _ r(3) _ low] at dels(2) p(3) by blast+
qed

section \<open>A block beside the canonical chain\<close>

lemma side_put:
  assumes inv: "store_ok cc g s" "canon_ok cc g tip s" and b: "b_header b = hdr"
    and new: "header_ok cc (ch_common s) hdr" "no_clash cc s hdr" "0 < bh_number hdr" "bh_number hdr < 2 ^ 64"
    and up: "td_at cc s (bh_number hdr - 1) (bh_parentHash hdr) = Inr u" and codec: "strings_read_back cc"
    and t: "ch_db t = batch ((DBSetTD (cc_block cc) (bh_difficulty hdr + u) (bh_number hdr) (header_hash (cc_block cc) hdr) #
        DBSetBlockOrHeader (cc_block cc) b) @
      [DBSetHashToNumber (header_hash (cc_block cc) hdr) (bh_number hdr)] @ saveHeadOps s') (ch_db s)"
    "ch_common t = ch_common s"
  shows "store_ok cc g t" "canon_ok cc g tip t" "canon t j = canon s j" "adds cc (bh_difficulty hdr + u) hdr s t"
proof -
  have db: "ch_db t y = (if y = HashToNumber (header_hash (cc_block cc) hdr) then Some (Buf (be_bytes 8 (bh_number hdr)))
      else batch (DBSetTD (cc_block cc) (bh_difficulty hdr + u) (bh_number hdr) (header_hash (cc_block cc) hdr) #
        DBSetBlockOrHeader (cc_block cc) b) (ch_db s) y)" if "y \<notin> side_targets" for y
    unfolding t(1) batch_append batch_head_ops [OF that] by (simp add: batch_Cons DBSetHashToNumber_def)
  show adds: "adds cc (bh_difficulty hdr + u) hdr s t"
    unfolding adds_def Let_def using t(2) new(4) by (auto simp: db side_targets_def batch_block b)
  show "store_ok cc g t" by (rule store_put [OF inv(1) new(1-3) up adds codec])
  have "node cc t k y h" if "node cc s k y h" for k y h
    by (rule adds_node [OF adds new(2,1) that])
  from canon_same [OF inv(2) this] show "canon_ok cc g tip t" "canon t j = canon s j"
    by (simp_all add: db side_targets_def batch_block)
qed

lemma heaviest_put:
  assumes "store_ok cc g t" "adds cc td hdr s t" "strings_read_back cc" "0 \<le> td" "header_ok cc (ch_common s) hdr"
    and low: "\<And>k y v. td_at cc s k y = Inr v \<Longrightarrow> v \<le> td"
    and head: "ch_headHeaderHash t = Some (header_hash (cc_block cc) hdr)"
  shows "heaviest cc t"
proof -
  let ?x = "header_hash (cc_block cc) hdr" and ?n = "bh_number hdr"
  have n: "0 \<le> ?n" using assms(5) by (simp add: header_ok_def)
  note td = adds_td [OF assms(2-4) n]
  have "stored t ?n ?x" using adds_stored [OF assms(2)] by simp
  then have "totalDifficulty_of cc t ?x = Inr td"
    using hashToNumber_stored [OF assms(1)] td by (simp add: totalDifficulty_of_def)
  moreover have "v \<le> td" if "td_at cc t k y = Inr v" for k y v
    using that td low adds_other_td [OF assms(2), of k y] by (cases "k = ?n \<and> y = ?x") auto
  ultimately show ?thesis using head unfolding heaviest_def by blast
qed

lemma heaviest_side:
  assumes "store_ok cc g s" "store_ok cc g t" "adds cc td hdr s t" "strings_read_back cc" "0 \<le> td"
    "header_ok cc (ch_common s) hdr" "no_clash cc s hdr"
    and s: "ch_headHeaderHash s = Some z" "totalDifficulty_of cc s z = Inr w" "\<And>n y v. td_at cc s n y = Inr v \<Longrightarrow> v \<le> w"
    and low: "td \<le> w" and same: "\<And>k. td_at cc s (bh_number hdr) (header_hash (cc_block cc) hdr) = Inr k \<Longrightarrow> k = td"
    and head: "ch_headHeaderHash t = Some z"
  shows "heaviest cc t"
proof -
  let ?x = "header_hash (cc_block cc) hdr" and ?n = "bh_number hdr"
  have n: "0 \<le> ?n" using assms(6) by (simp add: header_ok_def)
  obtain k where k: "hashToNumber s z = Inr k" "td_at cc s k z = Inr w"
    using s(2) by (auto simp: totalDifficulty_of_def bindS_Inr_iff)
  have st: "stored s k z" by (rule td_of_stored [OF assms(1) k(2)])
  then have "hashToNumber t z = Inr k"
    using hashToNumber_stored [OF assms(2)] adds_stored [OF assms(3)] by blast
  moreover have "td_at cc t k z = Inr w"
    using k(2) same adds_td [OF assms(3-5) n] adds_other_td [OF assms(3), of k z] by (cases "k = ?n \<and> z = ?x") auto
  ultimately have "totalDifficulty_of cc t z = Inr w" by (simp add: totalDifficulty_of_def)
  moreover have "v \<le> w" if "td_at cc t i y = Inr v" for i y v
    using that low s(3) adds_td [OF assms(3-5) n] adds_other_td [OF assms(3), of i y] by (cases "i = ?n \<and> y = ?x") auto
  ultimately show ?thesis using head unfolding heaviest_def by blast
qed

lemma restored_td:
  assumes "store_ok cc g s" "header_ok cc (ch_common s) hdr" "no_clash cc s hdr" "0 < bh_number hdr"
    and "td_at cc s (bh_number hdr - 1) (bh_parentHash hdr) = Inr u"
    and "td_at cc s (bh_number hdr) (header_hash (cc_block cc) hdr) = Inr k"
  shows "k = bh_difficulty hdr + u"
proof -
  have "stored s (bh_number hdr) (header_hash (cc_block cc) hdr)" by (rule td_of_stored [OF assms(1,6)])
  then obtain h v where h: "node cc s (bh_number hdr) (header_hash (cc_block cc) hdr) h"
    "td_at cc s (bh_number hdr - 1) (bh_parentHash h) = Inr v"
    "td_at cc s (bh_number hdr) (header_hash (cc_block cc) hdr) = Inr (v + bh_difficulty h)"
    using assms(1,4) unfolding store_ok_def by blast
  then show ?thesis
    using clash_same(2,3) [OF assms(3,2) h(1)] assms(5,6) by simp
qed

section \<open>The whole put\<close>

text \<open>The validation has found the parent, and so the canonical block two below the new one.\<close>

lemma validated_height:
  assumes inv: "store_ok cc g s" "canon_ok cc g tip s"
    and check: "fst (block_validate (cc_block cc) (chain_of cc s) isHeader b) = Inr ()" "0 < b_number b"
    and up: "stored s (b_number b - 1) (bh_parentHash (b_header b))"
  shows "b_number b \<le> tip + 2"
proof (cases "b_number b = 1")
  case True
  then show ?thesis using canon_okD(1) [OF inv(2)] by simp
next
  case False
  let ?y = "bh_parentHash (b_header b)"
  obtain b' where "block_validate (cc_block cc) (chain_of cc s) isHeader b = (Inr (), b')"
    using check(1) by (metis prod.collapse)
  then obtain p where "bk_getBlock (chain_of cc s) ?y = Inr (Some p)"
    using validated_block check(2) by (metis less_irrefl)
  then have "getBlock cc s ?y = Inr p"
    by (auto simp: chain_of_def catch_missing_def bindS_def split: sum.splits if_splits)
  then obtain header where "db_getHeader cc s ?y (b_number b - 1) = Inr header"
    using hashToNumber_stored [OF inv(1) up] by (auto simp: getBlock_def db_block_def bindS_Inr_iff)
  then obtain td where "canonicalParentTd cc s (b_number b - 1) = Inr td"
    by (auto simp: db_getHeader_def bindS_Inr_iff)
  then obtain z where "numberToHash s (b_number b - 2) = Inr z"
    using False by (auto simp: canonicalParentTd_def bindS_Inr_iff)
  then have "canon s (b_number b - 2) \<noteq> None" using numberToHash_canon by blast
  then show ?thesis using canon_okD(4) [OF inv(2), of "b_number b - 2"] by simp
qed

lemma put_run:
  assumes run: "putBlockOrHeader cc item s = (Inr (), t)" and b: "item_block item = Inr b"
  obtains u v w where "check_item cc (is_header item) b s = Inr ()" "head_td cc s (ch_headHeaderHash s) = Inr v"
    "td_at cc s (b_number b - 1) (bh_parentHash (b_header b)) = Inr u" "bufBE8 (b_number b) = Inr w"
    "\<exists>v'. store_block cc (is_header item) b (bh_difficulty (b_header b) + u) v v' s = (Inr (), t)"
  using run
  by (auto simp: putBlockOrHeader_def b eff_defs reads_def bindS_Inr_iff intro!: that split: sum.splits prod.splits)

lemma store_block_run:
  assumes "store_block cc isHeader b td v v' s = (Inr (), t)" "consensusType (b_common b) \<noteq> ''pos''"
  defines "x \<equiv> header_hash (cc_block cc) (b_header b)"
  defines "dbOps \<equiv> DBSetTD (cc_block cc) td (bh_number (b_header b)) x # DBSetBlockOrHeader (cc_block cc) b"
  obtains ops t1 t2 where "v < td" "make_head cc isHeader b td dbOps s = (Inr ops, t1)"
      "t2 = t1\<lparr>ch_db := batch (ops @ saveHeadOps t1) (ch_db t1)\<rparr>" "same_chain t2 t"
  | s' where "td \<le> v" "same_chain s s'" "ch_db s' = ch_db s"
      "t = s'\<lparr>ch_db := batch (dbOps @ [DBSetHashToNumber x (bh_number (b_header b))] @ saveHeadOps s') (ch_db s')\<rparr>"
proof (cases "v < td")
  case True
  obtain ancient ops t1 where run: "make_head cc isHeader b td dbOps s = (Inr ops, t1)"
    "andthen (db_batch (ops @ saveHeadOps t1)) (bnd (gets (\<lambda>s. consensusAlgorithm (ch_common s) = ''clique''))
       (\<lambda>clique'. when_eff clique' (update_snapshots cc ancient (bh_number (b_header b))))) t1 = (Inr (), t)"
    using assms(1,2) True unfolding dbOps_def x_def
    by (auto simp: store_block_def Let_def bnd_def gets_def reads_def ret_def split: prod.splits sum.splits if_splits)
  have "leaves_chain (bnd (gets (\<lambda>s. consensusAlgorithm (ch_common s) = ''clique''))
      (\<lambda>clique'. when_eff clique' (update_snapshots cc ancient (bh_number (b_header b)))))"
    by (rule leaves_bnd leaves)+
  then have "same_chain (t1\<lparr>ch_db := batch (ops @ saveHeadOps t1) (ch_db t1)\<rparr>) t"
    using run(2) by (auto simp: leaves_chain_def andthen_def bnd_def db_batch_def modif_def dest: spec split: prod.splits)
      (metis snd_conv)
  then show thesis using that(1) [OF True run(1) refl] by blast
next
  case False
  let ?s' = "if v' < td \<and> \<not> isHeader then s\<lparr>ch_headBlockHash := Some x\<rparr> else s"
  have "t = ?s'\<lparr>ch_db := batch (dbOps @ [DBSetHashToNumber x (bh_number (b_header b))] @ saveHeadOps ?s') (ch_db ?s')\<rparr>"
    using assms(1,2) False unfolding dbOps_def x_def
    by (auto simp: store_block_def Let_def eff_defs db_batch_def split: if_splits)
  moreover have "same_chain s ?s'" "ch_db ?s' = ch_db s"
    by (simp_all add: same_chain_def same_blocks_def)
  ultimately show thesis using that(2) False by force
qed

text \<open>What a put needs of its block: sound numbers, bytes that read back, and a hash of its own.\<close>

definition put_ok :: "chain_cfg \<Rightarrow> chain \<Rightarrow> block \<Rightarrow> bool" where
  "put_ok cc s b \<longleftrightarrow> header_ok cc (ch_common s) (b_header b) \<and> no_clash cc s (b_header b) \<and>
     consensusType (b_common b) \<noteq> ''pos''"

end
