(* ===== verification/Chain_Start.thy ===== *)
theory Chain_Start
  imports Chain_Put
begin

text \<open>
  A new blockchain has its genesis block as its canonical chain, so the invariant holds of every state that
  accepted puts reach from it.
\<close>

section \<open>The first state\<close>

definition started :: "chain_cfg \<Rightarrow> common \<Rightarrow> block \<Rightarrow> chain" where
  "started cc c b = (let x = block_hash (cc_block cc) b
     in (new_chain c (batch (genesis_ops cc b) Map.empty))\<lparr>
          ch_genesis := Some x, ch_headHeaderHash := Some x, ch_headBlockHash := Some x\<rparr>)"

lemma genesis_db:
  assumes "\<And>k y. t \<noteq> Body k y" "bh_number (b_header b) = 0"
  shows "batch (genesis_ops cc b) Map.empty t =
    (if t = TotalDifficulty 0 (block_hash (cc_block cc) b)
     then Some (Buf (txc_encode (bc_tx (cc_block cc)) (Item (toArrayLike_min (bh_difficulty (b_header b))))))
     else if t = Header 0 (block_hash (cc_block cc) b) then Some (Buf (header_serialize (cc_block cc) (b_header b)))
     else if t = NumberToHash 0 then Some (Buf (block_hash (cc_block cc) b))
     else if t = HashToNumber (block_hash (cc_block cc) b) then Some (Buf (be_bytes 8 0)) else None)"
  using assms
  by (auto simp: batch_def genesis_ops_def DBSetTD_def DBSetBlockOrHeader_def DBSaveLookups_def
      DBSetHashToNumber_def Let_def block_hash_def)

lemma started_inv:
  assumes g: "bh_number (b_header b) = 0" "header_ok cc c (b_header b)" and codec: "strings_read_back cc"
  shows "chain_inv cc (started cc c b)"
proof -
  define x where "x = block_hash (cc_block cc) b"
  define s where "s = started cc c b"
  have db: "ch_db s t = (if t = TotalDifficulty 0 x
     then Some (Buf (txc_encode (bc_tx (cc_block cc)) (Item (toArrayLike_min (bh_difficulty (b_header b))))))
     else if t = Header 0 x then Some (Buf (header_serialize (cc_block cc) (b_header b)))
     else if t = NumberToHash 0 then Some (Buf x)
     else if t = HashToNumber x then Some (Buf (be_bytes 8 0)) else None)" if "\<And>k y. t \<noteq> Body k y" for t
    using genesis_db [OF that g(1)] by (simp add: s_def started_def new_chain_def Let_def x_def)
  have parts: "ch_common s = c" "ch_genesis s = Some x" "ch_headHeaderHash s = Some x" "ch_heads s = []"
    by (simp_all add: s_def started_def new_chain_def Let_def x_def)
  have d: "0 \<le> bh_difficulty (b_header b)" using g(2) by (simp add: header_ok_def)
  have node: "node cc s 0 x (b_header b)"
    using g by (simp add: node_def db parts x_def block_hash_def)
  have "bufBE8 0 = Inr (be_bytes 8 0)" by (simp add: key_number)
  then have td: "td_at cc s 0 x = Inr (bh_difficulty (b_header b))"
    using codec d by (simp add: getTotalDifficulty_def db_buffer_def db_get_def db strings_read_back_def)
  have st: "stored s n y \<longleftrightarrow> n = 0 \<and> y = x" for n y by (simp add: stored_def db)
  have canon: "canon s n = (if n = 0 then Some x else None)" for n by (simp add: canon_def db)
  have only: "n = 0 \<and> y = x" if "td_at cc s n y = Inr u" for n y u
    using td_stored [OF that] by (simp add: db split: if_splits)
  have store: "store_ok cc x s"
    unfolding store_ok_def st using td node by (auto simp: db)
  have "canon_ok cc x 0 s"
    unfolding canon_ok_def
  proof (intro conjI allI impI)
    fix n :: int
    show "ch_db s (NumberToHash n) \<noteq> None \<longleftrightarrow> 0 \<le> n \<and> n \<le> 0" by (auto simp: db)
    assume "0 \<le> n \<and> n \<le> 0"
    then have "n = 0" by simp
    then show "\<exists>y h. canon s n = Some y \<and> node cc s n y h \<and> (n > 0 \<longrightarrow> canon s (n - 1) = Some (bh_parentHash h))"
      using node by (auto simp: canon)
  qed (simp_all add: canon)
  moreover have "totalDifficulty_of cc s x = Inr (bh_difficulty (b_header b))"
    using hashToNumber_stored [OF store, of 0 x] st td by (simp add: totalDifficulty_of_def)
  then have "heaviest cc s"
  proof -
    assume head: "totalDifficulty_of cc s x = Inr (bh_difficulty (b_header b))"
    have "u \<le> bh_difficulty (b_header b)" if "td_at cc s n y = Inr u" for n y u
      using only [OF that] that td by simp
    then show ?thesis unfolding heaviest_def using parts(3) head by blast
  qed
  ultimately show ?thesis
    using store canon [of 0] parts unfolding chain_inv_def heads_ok_def s_def [symmetric] by auto
qed

lemma create_started:
  assumes "create_chain cc c Map.empty (Some b) = Inr s" "consensusAlgorithm c \<noteq> ''clique''" "\<not> cc_hardforkByHead cc"
  shows "s = started cc c b" "bh_number (b_header b) = 0"
proof -
  have "chain_init cc (Some b) (new_chain c Map.empty) = (Inr (), started cc c b)"
  proof -
    have "bufBE8 0 = Inr (be_bytes 8 0)" by (simp add: key_number)
    then have none: "db_genesis cc (new_chain c Map.empty) = Inr None"
      by (simp add: db_genesis_def numberToHash_def db_buffer_def db_get_def new_chain_def catch_missing_def)
    have heads: "batch (genesis_ops cc b) Map.empty t = None" if "t = Heads \<or> t = HeadHeader \<or> t = HeadBlock" for t
      using that by (auto simp: batch_def genesis_ops_def DBSetTD_def DBSetBlockOrHeader_def DBSaveLookups_def
          DBSetHashToNumber_def Let_def)
    show ?thesis
      using assms(2,3)
      by (simp add: chain_init_def bnd_def reads_def none [unfolded new_chain_def] Let_def andthen_def when_eff_def guard_eff_def gets_def
          ret_def db_batch_def modif_def load_heads_def getHeads_def load_head_def db_buffer_def db_get_def heads
          catch_missing_def new_chain_def started_def)
  qed
  moreover have "bh_number (b_header b) = 0"
    using assms(1) by (auto simp: create_chain_def bindS_Inr_iff require_def block_isGenesis_def isGenesis_def split: if_splits)
  ultimately show "s = started cc c b" "bh_number (b_header b) = 0"
    using assms(1) by (auto simp: create_chain_def bindS_Inr_iff)
qed

section \<open>A chain of two blocks\<close>

definition start_common :: common where
  "start_common = fee_common\<lparr>hardforks := [\<lparr>hf_name = ''london'', hf_block = Some 0, hf_td = None\<rparr>]\<rparr>"

text \<open>Hashes of small numbers, and an encoding that keeps of a header its number.\<close>

definition start_hash :: "int \<Rightarrow> bytes" where
  "start_hash n = setLengthLeft (1 # bnToUnpaddedBuffer n) 32"

definition start_fields :: "int \<Rightarrow> header_fields" where
  "start_fields n = (sample_fields n)\<lparr>bh_parentHash := (if n = 0 then replicate 32 0 else start_hash (n - 1)),
     bh_difficulty := (if n = 0 then 40 else 60)\<rparr>"

definition start_header :: "common \<Rightarrow> int \<Rightarrow> block_header" where
  "start_header c n = header_fields.extend (start_fields n) (block_header.fields c)"

definition start_tx_cfg :: tx_cfg where
  "start_tx_cfg = sample_tx_cfg\<lparr>
     txc_encode := (\<lambda>x. case x of Item b \<Rightarrow> 0 # b
       | Items xs \<Rightarrow> if length xs < 9 then [2] else (case xs ! 8 of Item n \<Rightarrow> 1 # n | Items ys \<Rightarrow> [])),
     txc_decode := (\<lambda>b. if b = [2] then Inr (Items [Items [], Items []])
       else case b of [] \<Rightarrow> Inl (JsError ''empty'')
         | t # r \<Rightarrow> if t = 0 then Inr (Item r) else Inr (Items (map Item (header_raw (start_header fee_common (bn_of_bytes r))))))\<rparr>"

definition start_cc :: chain_cfg where
  "start_cc = \<lparr>cc_block = sample_block_cfg\<lparr>bc_tx := start_tx_cfg\<rparr>, cc_hardforkByHead = False,
     cc_validateConsensus = False, cc_validateBlocks = True, cc_verifyPOW = (\<lambda>b. Inr True)\<rparr>"

definition start_block :: block where
  "start_block = \<lparr>b_header = start_header fee_common 0, b_transactions = [], b_uncleHeaders = [], b_txTrie = new_trie\<rparr>"

lemma start_common_sel:
  "HARDFORK_CHANGES start_common = HARDFORK_CHANGES fee_common" "EIPs start_common = EIPs fee_common"
  "hardforks start_common = [\<lparr>hf_name = ''london'', hf_block = Some 0, hf_td = None\<rparr>]"
  "cur_hardfork start_common = ''london''" "supportedHardforks start_common = []" "eips start_common = eips fee_common"
  "chainIdBN start_common = chainIdBN fee_common" "networkIdBN start_common = 1"
  "chainConsensus start_common = chainConsensus fee_common" "chainConsensusType start_common = chainConsensusType fee_common"
  by (simp_all add: start_common_def fee_common_sel)

lemma start_common_simps [simp]:
  "isActivatedEIP start_common 1559" "hardforkIsActiveOnChain start_common (Some ''dao'') False = Inr False"
  "consensusType start_common = ''pow''" "consensusAlgorithm start_common = ''ethash''"
  "param start_common ''gasConfig'' ''elasticityMultiplier'' = Inr (Some 2)"
  by (simp_all add: start_common_sel fee_common_sel isActivatedEIP_def gteHardfork_def hardforkGteHardfork_def
      chooseHardfork_def hardforkIsActiveOnChain_def isSupportedHardfork_def consensusType_def consensusAlgorithm_def
      param_def paramByHardfork_def paramByEIP_def Let_def)
    (simp_all add: sample_common_def start_common_sel fee_common_sel paramByHardfork_def paramByEIP_def
      chooseHardfork_def isSupportedHardfork_def)

lemma start_hardfork:
  assumes "0 \<le> n" shows "setHardforkByBlockNumber start_common n td = Inr (start_common, ''london'')"
proof -
  have "start_common\<lparr>cur_hardfork := ''london''\<rparr> = start_common" by (simp add: start_common_def fee_common_def)
  moreover have "getHardforkByBlockNumber start_common n td = Inr ''london''"
    using assms by (cases td) (simp_all add: getHardforkByBlockNumber_def start_common_sel Let_def)
  ultimately show ?thesis
    by (simp add: setHardforkByBlockNumber_def setHardfork_def isSupportedHardfork_def start_common_sel fee_common_sel)
qed

lemma start_header_made:
  assumes "0 \<le> n"
  shows "new_header cfg (start_fields n) (read_opts start_common td) = Inr (start_header start_common n)"
proof -
  let ?h = "start_header start_common n"
  have "(start_fields n)\<lparr>bh_baseFeePerGas := Some 80\<rparr> = start_fields n" by (simp add: start_fields_def sample_fields_def)
  moreover have "validateHeaderFields ?h = Inr ()" "validateDAOExtraData ?h = Inr ()"
    by (simp_all add: validateHeaderFields_def check_nonce_length_def check_pos_fields_def validateDAOExtraData_def
        start_header_def) (simp_all add: start_fields_def sample_fields_def zero_nonce_def require_def start_hash_def)
  moreover have "default_baseFee start_common (start_fields n) = Inr (Some 80)"
    by (simp add: default_baseFee_def start_fields_def) (simp add: sample_fields_def)
  moreover have "header_common cfg (read_opts start_common td) n = Inr start_common"
    using start_hardfork [OF assms, of td]
    by (auto simp: header_common_def read_opts_def no_block_opts_def)
  moreover have "bh_number (start_fields n) = n" by (simp add: start_fields_def sample_fields_def)
  ultimately show ?thesis
    by (simp add: new_header_def Let_def start_header_def)
      (simp add: read_opts_def no_block_opts_def)
qed

lemma start_header_fields [simp]:
  "bh_common (start_header c n) = c" "bh_gasLimit (start_header c n) = 100" "bh_gasUsed (start_header c n) = 50"
  "bh_baseFeePerGas (start_header c n) = Some 80" "bh_number (start_header c n) = n" "bh_timestamp (start_header c n) = n"
  "bh_extraData (start_header c n) = []" "bh_difficulty (start_header c n) = (if n = 0 then 40 else 60)"
  "bh_parentHash (start_header c n) = (if n = 0 then replicate 32 0 else start_hash (n - 1))"
  by (simp_all add: start_header_def) (simp_all add: start_fields_def sample_fields_def)

lemma start_raw: "header_raw (start_header start_common n) = header_raw (start_header fee_common n)"
  by (simp add: header_raw_def) (simp add: start_header_def)

lemma start_nth: "header_raw (start_header c n) ! 8 = bnToUnpaddedBuffer n" "9 \<le> length (header_raw (start_header c n))"
  by (simp_all add: header_raw_def)

lemma start_cfg [simp]:
  "bc_tx (cc_block start_cc) = start_tx_cfg" "\<not> cc_hardforkByHead start_cc" "cc_validateBlocks start_cc"
  "\<not> cc_validateConsensus start_cc" "txc_keccak256 start_tx_cfg b = setLengthLeft b 32"
  by (simp_all add: start_cc_def start_tx_cfg_def sample_tx_cfg_def)

lemma start_serialize [simp]:
  "header_serialize (cc_block start_cc) (start_header c n) = 1 # bnToUnpaddedBuffer n"
  "header_hash (cc_block start_cc) (start_header c n) = start_hash n"
proof -
  show "header_serialize (cc_block start_cc) (start_header c n) = 1 # bnToUnpaddedBuffer n"
    using start_nth(2) [of c n] by (simp add: header_serialize_def rlp_of_raw_def start_tx_cfg_def start_nth(1))
  then show "header_hash (cc_block start_cc) (start_header c n) = start_hash n"
    by (simp add: header_hash_def header_serialize_def start_hash_def)
qed

lemma start_values:
  assumes "0 \<le> n"
  shows "header_fromValuesArray cfg (header_raw (start_header c n)) (read_opts start_common td) =
    (if isActivatedEIP c 1559 then Inr (start_header start_common n)
     else header_fromValuesArray cfg (header_raw (start_header c n)) (read_opts start_common td))"
proof (cases "isActivatedEIP c 1559")
  case True
  have "header_fromValuesArray cfg (header_raw (start_header c n)) (read_opts start_common td) =
      new_header cfg (start_fields n) (read_opts start_common td)"
    unfolding start_header_def using True assms
    by (intro header_values_raw) (simp_all add: fields_ok_def start_fields_def sample_fields_def)
  then show ?thesis using True start_header_made [OF assms] by simp
qed simp

lemma buffers_items: "rlp_buffers (map Item bs) = Inr bs"
  by (induction bs) (simp_all add: rlp_buffer_def)

lemma start_reads:
  assumes "0 \<le> n"
  shows "fromRLPSerializedHeader (cc_block start_cc) (1 # bnToUnpaddedBuffer n) (read_opts start_common td) =
    Inr (start_header start_common n)"
  using assms start_values [of n "cc_block start_cc" fee_common td]
  by (simp add: fromRLPSerializedHeader_def start_tx_cfg_def buffers_items)

lemma start_header_ok: "0 \<le> n \<Longrightarrow> header_ok start_cc start_common (start_header fee_common n)"
  by (simp add: header_ok_def reads_back_def start_reads start_raw)

lemma start_codec: "strings_read_back start_cc"
  by (simp add: strings_read_back_def start_tx_cfg_def)

definition start_state :: chain where
  "start_state = started start_cc start_common start_block"

lemma start_block_fields [simp]:
  "b_header start_block = start_header fee_common 0" "block_hash (cc_block start_cc) start_block = start_hash 0"
  by (simp_all add: start_block_def block_hash_def)

lemma start_inv: "chain_inv start_cc start_state"
  unfolding start_state_def using start_header_ok [of 0] start_codec by (intro started_inv) simp_all

lemma start_fields_state [simp]:
  "ch_common start_state = start_common" "ch_headHeaderHash start_state = Some (start_hash 0)"
  "ch_headBlockHash start_state = Some (start_hash 0)" "ch_heads start_state = []" "ch_genesis start_state = Some (start_hash 0)"
  by (simp_all add: start_state_def started_def Let_def new_chain_def)

lemma start_numbers: "bnToUnpaddedBuffer 0 = []" "bnToUnpaddedBuffer 1 = [1]" "toArrayLike_min 40 = [40]" "be_bytes 8 0 = replicate 8 0"
  by code_simp+

lemma start_hash_differs: "start_hash 0 \<noteq> start_hash 1"
  by (auto simp: start_hash_def start_numbers dest: arg_cong [of _ _ last])

lemma start_db:
  "ch_db start_state (Body 0 (start_hash 0)) = Some (Buf [2])"
  "(\<And>k y. t \<noteq> Body k y) \<Longrightarrow> ch_db start_state t =
    (if t = TotalDifficulty 0 (start_hash 0) then Some (Buf [0, 40])
     else if t = Header 0 (start_hash 0) then Some (Buf [1])
     else if t = NumberToHash 0 then Some (Buf (start_hash 0))
     else if t = HashToNumber (start_hash 0) then Some (Buf (replicate 8 0)) else None)"
proof -
  have db: "ch_db start_state = batch (genesis_ops start_cc start_block) Map.empty"
    by (simp add: start_state_def started_def Let_def new_chain_def)
  show "ch_db start_state (Body 0 (start_hash 0)) = Some (Buf [2])"
    by (simp add: db genesis_ops_def batch_def DBSetTD_def DBSetBlockOrHeader_def DBSaveLookups_def DBSetHashToNumber_def
        Let_def block_raw_def start_block_def start_tx_cfg_def)
  show "ch_db start_state t =
    (if t = TotalDifficulty 0 (start_hash 0) then Some (Buf [0, 40])
     else if t = Header 0 (start_hash 0) then Some (Buf [1])
     else if t = NumberToHash 0 then Some (Buf (start_hash 0))
     else if t = HashToNumber (start_hash 0) then Some (Buf (replicate 8 0)) else None)" if "\<And>k y. t \<noteq> Body k y"
    unfolding db using genesis_db [OF that, of start_block start_cc]
    by (simp add: start_numbers) (simp add: start_tx_cfg_def)
qed

lemma start_lookup [simp]:
  "hashToNumber start_state (start_hash 0) = Inr 0" "numberToHash start_state 0 = Inr (start_hash 0)"
  "td_at start_cc start_state 0 (start_hash 0) = Inr 40"
  "0 < n \<Longrightarrow> n < 2 ^ 64 \<Longrightarrow> safeNumberToHash start_state n = Inr None"
  using bn_of_bytes_zeros [of 8 "[]"]
  by (simp_all add: hashToNumber_def numberToHash_def getTotalDifficulty_def safeNumberToHash_def catch_missing_def
      db_buffer_def db_get_def key_number start_db(2)) (simp add: bn_of_bytes_def start_tx_cfg_def)

lemma start_getHeader [simp]:
  "db_getHeader start_cc start_state (start_hash 0) 0 = Inr (start_header start_common 0)"
  using start_reads [of 0 None]
  by (simp add: db_getHeader_def db_buffer_def db_get_def key_number start_db(2) canonicalParentTd_def start_numbers)

lemma start_getBlock:
  "getBlock start_cc start_state (start_hash 0) = Inr (start_block\<lparr>b_header := start_header start_common 0\<rparr>)"
proof -
  have "header_fromValuesArray (cc_block start_cc) (header_raw (start_header start_common 0)) (read_opts start_common None) =
      Inr (start_header start_common 0)"
    using start_values [of 0 "cc_block start_cc" start_common None] by simp
  moreover have "db_getBody start_cc start_state (start_hash 0) 0 = Inr [Items [], Items []]"
    by (simp add: db_getBody_def db_buffer_def db_get_def key_number start_db(1)) (simp add: start_tx_cfg_def)
  ultimately show ?thesis
    by (simp add: getBlock_def db_block_def catch_missing_def block_fromValuesArray_def header_of_rlp_def header_rlp_def
        buffers_items list_value_def new_block_def start_block_def)
qed

lemma start_parent [simp]:
  "hc_getHeader (headers_of (chain_of start_cc start_state)) (start_hash 0) = Inr (Some (start_header start_common 0))"
  by (simp add: headers_of_def chain_of_def start_getBlock catch_missing_def)

lemma start_check:
  "check_item start_cc True (start_block\<lparr>b_header := start_header fee_common 1\<rparr>) start_state = Inr ()"
proof -
  have "canonicalDifficulty (start_header fee_common 1) (start_header start_common 0) = Inr 60"
    by (simp add: canonicalDifficulty_def header_hardfork_def num_paramByHardfork_def div_checked_def
        difficulty_step_def difficulty_factor_def Let_def)
  then have "header_validate (cc_block start_cc) (headers_of (chain_of start_cc start_state)) (start_header fee_common 1) None = Inr ()"
    by (simp add: header_validate_def isGenesis_def header_hardfork_def validate_ethash_def
        validateDifficulty_def validateGasLimit_def is_london_block_def
        num_paramByHardfork_def div_checked_def gte_number_def validate_height_def validate_baseFee_def
        calcNextBaseFee_def num_param_def require_def requireS_def)
  then show ?thesis
    by (simp add: check_item_def require_def block_isGenesis_def isGenesis_def b_common_def start_common_sel
        block_validate_def eff_defs validateUncles_def validateUncleHeaders_def validateData_def
        validateTransactions_def check_epoch_def start_block_def)
qed

lemma start_head:
  "fst (make_head start_cc True (start_block\<lparr>b_header := start_header fee_common 1\<rparr>) td ops start_state) =
     Inr (ops @ DBSaveLookups (start_hash 1) 1)"
proof -
  let ?s = "start_state\<lparr>ch_headHeaderHash := Some (start_hash 1)\<rparr>"
  have same: "safeNumberToHash ?s n = safeNumberToHash start_state n" "db_getHeader start_cc ?s y n = db_getHeader start_cc start_state y n"
    for n y
    by (simp_all add: safeNumberToHash_def numberToHash_def db_buffer_def db_get_def db_getHeader_def canonicalParentTd_def
        getTotalDifficulty_def)
  have "deleteCanonicalChainReferences 2 (start_hash 1) ops ?s = (Inr ops, ?s)"
    by (subst deleteCanonicalChainReferences.simps) (simp add: same)
  moreover have "safeNumberToHash start_state 0 = Inr (Some (start_hash 0))"
    by (simp add: safeNumberToHash_def catch_missing_def)
  then have "rebuild_loop start_cc ?s (Suc (Suc 0)) (start_header fee_common 1) 1
      \<lparr>rb_ops = ops, rb_staleHeads = [], rb_staleHeadBlock = False, rb_currentCanonicalHash = start_hash 1\<rparr> =
    Inr \<lparr>rb_ops = ops @ DBSaveLookups (start_hash 1) 1, rb_staleHeads = [], rb_staleHeadBlock = False,
      rb_currentCanonicalHash = start_hash 0\<rparr>"
    by (simp add: same mark_stale_def Let_def)
  ultimately show ?thesis
    by (simp add: make_head_def Let_def andthen_def when_eff_def bnd_def modif_def ret_def rebuildCanonical_def reads_def
        del: rebuild_loop.simps)
qed

lemma start_put: "fst (putBlockOrHeader start_cc (PutHeader (start_header fee_common 1)) start_state) = Inr ()"
proof -
  let ?b = "start_block\<lparr>b_header := start_header fee_common 1\<rparr>"
  have item: "item_block (PutHeader (start_header fee_common 1)) = Inr ?b"
    by (simp add: item_block_def new_block_def start_block_def)
  have "bufBE8 1 = Inr (be_bytes 8 1)" by (simp add: key_number)
  moreover have "totalDifficulty_of start_cc start_state (start_hash 0) = Inr 40"
    by (simp add: totalDifficulty_of_def)
  moreover obtain ops t where "make_head start_cc True ?b 100
      (DBSetTD (cc_block start_cc) 100 1 (start_hash 1) # DBSetBlockOrHeader (cc_block start_cc) ?b) start_state = (Inr ops, t)"
    using start_head by (metis prod.collapse)
  ultimately show ?thesis
    using start_check
    by (simp add: putBlockOrHeader_def item is_header_def eff_defs reads_def head_td_def b_number_def store_block_def
        b_common_def db_batch_def update_snapshots_def Let_def)
qed

text \<open>The number of a block that passes the checks of a put: above the genesis, and at most two above the canonical tip.\<close>

lemma put_height:
  assumes "check_item cc onlyHeader b s = Inr ()" "cc_validateBlocks cc" "store_ok cc g s" "canon_ok cc g tip s"
    and "header_ok cc (ch_common s) (b_header b)" "td_at cc s (bh_number (b_header b) - 1) (bh_parentHash (b_header b)) = Inr u"
    and "bufBE8 (bh_number (b_header b)) = Inr c"
  shows "0 < bh_number (b_header b)" "bh_number (b_header b) < 2 ^ 64" "bh_number (b_header b) \<le> tip + 2"
proof -
  have checks: "bh_number (b_header b) \<noteq> 0" "fst (block_validate (cc_block cc) (chain_of cc s) onlyHeader b) = Inr ()"
    using assms(1,2) by (auto simp: check_item_def bindS_Inr_iff require_def block_isGenesis_def isGenesis_def split: if_splits)
  then show n: "0 < bh_number (b_header b)" "bh_number (b_header b) < 2 ^ 64"
    using assms(5,7) bufBE8_iff [of "bh_number (b_header b)" c] by (simp_all add: header_ok_def)
  show "bh_number (b_header b) \<le> tip + 2"
    using validated_height [OF assms(3,4) checks(2)] n(1) td_of_stored [OF assms(3,6)] by (simp add: b_number_def)
qed

text \<open>C3. A put of a block or header that a proof-of-work or proof-of-authority chain with validation accepts
  keeps the invariant of the blockchain: the canonical hashes lead from the genesis block without a gap to the
  head, each block with its parent below it, whatever branch the block belongs to and however deep the
  reorganisation is; every stored block has its parents stored and the sum of their difficulties; the head has
  the greatest total difficulty; and every iterator stands on a canonical block. The block becomes the head
  exactly when it is heavier than the head before.\<close>

theorem put_keeps_canonical_chain:
  assumes "putBlockOrHeader cc item s = (Inr (), t)" "chain_inv cc s" "item_block item = Inr b" "put_ok cc s b"
    and "cc_validateBlocks cc" "\<not> cc_hardforkByHead cc" "strings_read_back cc"
  shows "chain_inv cc t \<and> (\<exists>u v.
    td_at cc s (b_number b - 1) (bh_parentHash (b_header b)) = Inr u \<and> head_td cc s (ch_headHeaderHash s) = Inr v \<and>
    ch_headHeaderHash t = (if bh_difficulty (b_header b) + u > v then Some (block_hash (cc_block cc) b)
      else ch_headHeaderHash s))"
proof -
  define hdr where "hdr = b_header b"
  define x where "x = header_hash (cc_block cc) hdr"
  note defs = hdr_def x_def b_number_def block_hash_def
  obtain g tip z w where inv: "ch_genesis s = Some g" "store_ok cc g s" "canon_ok cc g tip s"
    "ch_headHeaderHash s = canon s tip" "heads_ok s" "distinct (map fst (ch_heads s))"
    and heavy: "ch_headHeaderHash s = Some z" "totalDifficulty_of cc s z = Inr w"
      "\<And>n y v. td_at cc s n y = Inr v \<Longrightarrow> v \<le> w"
    using assms(2) unfolding chain_inv_def heaviest_def by blast
  obtain u v c v' where run: "check_item cc (is_header item) b s = Inr ()" "head_td cc s (ch_headHeaderHash s) = Inr v"
    "td_at cc s (bh_number hdr - 1) (bh_parentHash hdr) = Inr u" "bufBE8 (bh_number hdr) = Inr c"
    "store_block cc (is_header item) b (bh_difficulty hdr + u) v v' s = (Inr (), t)"
    using put_run [OF assms(1,3)] unfolding defs by metis
  have v: "v = w" using run(2) heavy(1,2) by (simp add: head_td_def)
  have hdr: "header_ok cc (ch_common s) hdr" "no_clash cc s hdr" "consensusType (b_common b) \<noteq> ''pos''"
    using assms(4) by (simp_all add: put_ok_def hdr_def)
  have n: "0 < bh_number hdr" "bh_number hdr < 2 ^ 64" and height: "bh_number hdr \<le> tip + 2"
    using put_height [OF run(1) assms(5) inv(2,3)] hdr(1) run(3,4) unfolding hdr_def by blast+
  have td: "0 \<le> bh_difficulty hdr + u" using hdr(1) td_nonneg [OF run(3)] by (simp add: header_ok_def)
  have result: "chain_inv cc t \<and> ch_headHeaderHash t = (if bh_difficulty hdr + u > v then Some x else ch_headHeaderHash s)"
  proof (cases rule: store_block_run [OF run(5) hdr(3)])
    case (1 ops t1 t2)
    note put = head_put [OF inv(2,3,5,6) hdr_def [symmetric] refl x_def [symmetric] hdr(1,2) n(1) height n(2) run(3)
        assms(7) 1(2) [folded hdr_def, folded x_def] assms(6) 1(3)]
    have "heaviest cc t2"
    proof (rule heaviest_put [OF put(1,8) assms(7) td hdr(1)])
      show "k \<le> bh_difficulty hdr + u" if "td_at cc s n y = Inr k" for n y k
        using heavy(3) [OF that] 1(1) v by simp
      show "ch_headHeaderHash t2 = Some (header_hash (cc_block cc) hdr)" using put(4) by (simp add: x_def)
    qed
    then have "chain_inv cc t2"
      using put inv(1) unfolding chain_inv_def by auto
    then show ?thesis
      using same_chain_inv [OF 1(4)] 1(1,4) put(4) by (simp add: same_chain_def)
  next
    case (2 s')
    have s': "same_blocks s s'" "ch_genesis s' = ch_genesis s" "ch_heads s' = ch_heads s"
      "ch_headHeaderHash s' = ch_headHeaderHash s" "ch_common s' = ch_common s"
      using 2(2) by (simp_all add: same_chain_def same_blocks_def)
    have "ch_db t = batch ((DBSetTD (cc_block cc) (bh_difficulty hdr + u) (bh_number hdr) (header_hash (cc_block cc) hdr) #
          DBSetBlockOrHeader (cc_block cc) b) @
        [DBSetHashToNumber (header_hash (cc_block cc) hdr) (bh_number hdr)] @ saveHeadOps s') (ch_db s)"
      "ch_common t = ch_common s"
      using 2(3,4) s'(5) by (simp_all add: hdr_def)
    note put = side_put [OF inv(2,3) hdr_def [symmetric] hdr(1,2) n run(3) assms(7) this]
    have kept: "ch_headHeaderHash t = ch_headHeaderHash s" "ch_heads t = ch_heads s" "ch_genesis t = ch_genesis s"
      using 2(4) s'(2-4) by simp_all
    have "heaviest cc t"
      using heaviest_side [OF inv(2) put(1,4) assms(7) td hdr(1,2) heavy] 2(1) v kept(1) heavy(1)
        restored_td [OF inv(2) hdr(1,2) n(1) run(3)] by simp
    then have "chain_inv cc t"
      using put inv kept unfolding chain_inv_def heads_ok_def by auto
    then show ?thesis using kept(1) 2(1) by simp
  qed
  then show ?thesis using run(2,3) by (auto simp: defs)
qed

theorem put_keeps_canonical_chain_witness:
  "chain_inv start_cc (snd (putBlockOrHeader start_cc (PutHeader (start_header fee_common 1)) start_state))"
proof -
  let ?item = "PutHeader (start_header fee_common 1)"
  have item: "item_block ?item = Inr (start_block\<lparr>b_header := start_header fee_common 1\<rparr>)"
    by (simp add: item_block_def new_block_def start_block_def)
  have "no_clash start_cc start_state (start_header fee_common 1)"
    using start_hash_differs by (auto simp: no_clash_def node_def start_db(2))
  then have "put_ok start_cc start_state (start_block\<lparr>b_header := start_header fee_common 1\<rparr>)"
    using start_header_ok [of 1] by (simp add: put_ok_def b_common_def)
  moreover have "putBlockOrHeader start_cc ?item start_state = (Inr (), snd (putBlockOrHeader start_cc ?item start_state))"
    using start_put by (metis prod.collapse)
  ultimately show ?thesis
    using put_keeps_canonical_chain [OF _ start_inv item] start_codec by simp
qed

end
