(* ===== verification/Blake2_Proofs.thy ===== *)
theory Blake2_Proofs
  imports Precompiles
begin

text \<open>
  The compression function of BLAKE2b as RFC 7693 gives it, on 64-bit words, and the proof that the
  arrays of halves compute it.
\<close>

unbundle bit_operations_syntax

section \<open>The specification\<close>

definition blake2b_IV :: "64 word list" where
  "blake2b_IV = [0x6a09e667f3bcc908, 0xbb67ae8584caa73b, 0x3c6ef372fe94f82b, 0xa54ff53a5f1d36f1,
     0x510e527fade682d1, 0x9b05688c2b3e6c1f, 0x1f83d9abfb41bd6b, 0x5be0cd19137e2179]"

definition blake2b_SIGMA :: "nat list list" where
  "blake2b_SIGMA = [
     [0, 1, 2, 3, 4, 5, 6, 7, 8, 9, 10, 11, 12, 13, 14, 15],
     [14, 10, 4, 8, 9, 15, 13, 6, 1, 12, 0, 2, 11, 7, 5, 3],
     [11, 8, 12, 0, 5, 2, 15, 13, 10, 14, 3, 6, 7, 1, 9, 4],
     [7, 9, 3, 1, 13, 12, 11, 14, 2, 6, 5, 10, 4, 0, 15, 8],
     [9, 0, 5, 7, 2, 4, 10, 15, 14, 1, 11, 12, 6, 8, 3, 13],
     [2, 12, 6, 10, 0, 11, 8, 3, 4, 13, 7, 5, 15, 14, 1, 9],
     [12, 5, 1, 15, 14, 13, 4, 10, 0, 7, 6, 3, 9, 2, 8, 11],
     [13, 11, 7, 14, 12, 1, 3, 9, 5, 0, 15, 4, 8, 6, 2, 10],
     [6, 15, 14, 9, 11, 3, 0, 8, 12, 2, 13, 7, 1, 4, 10, 5],
     [10, 2, 8, 4, 7, 6, 1, 5, 15, 11, 9, 14, 3, 12, 13, 0]]"

definition mix64 :: "64 word list \<Rightarrow> nat \<Rightarrow> nat \<Rightarrow> nat \<Rightarrow> nat \<Rightarrow> 64 word \<Rightarrow> 64 word \<Rightarrow> 64 word list" where
  "mix64 v a b c d x y =
     (let v = v[a := v ! a + v ! b + x];
          v = v[d := word_rotr 32 (v ! d XOR v ! a)];
          v = v[c := v ! c + v ! d];
          v = v[b := word_rotr 24 (v ! b XOR v ! c)];
          v = v[a := v ! a + v ! b + y];
          v = v[d := word_rotr 16 (v ! d XOR v ! a)];
          v = v[c := v ! c + v ! d]
      in v[b := word_rotr 63 (v ! b XOR v ! c)])"

definition round64 :: "64 word list \<Rightarrow> nat list \<Rightarrow> 64 word list \<Rightarrow> 64 word list" where
  "round64 m s v =
     (let v = mix64 v 0 4 8 12 (m ! (s ! 0)) (m ! (s ! 1));
          v = mix64 v 1 5 9 13 (m ! (s ! 2)) (m ! (s ! 3));
          v = mix64 v 2 6 10 14 (m ! (s ! 4)) (m ! (s ! 5));
          v = mix64 v 3 7 11 15 (m ! (s ! 6)) (m ! (s ! 7));
          v = mix64 v 0 5 10 15 (m ! (s ! 8)) (m ! (s ! 9));
          v = mix64 v 1 6 11 12 (m ! (s ! 10)) (m ! (s ! 11));
          v = mix64 v 2 7 8 13 (m ! (s ! 12)) (m ! (s ! 13))
      in mix64 v 3 4 9 14 (m ! (s ! 14)) (m ! (s ! 15)))"

definition F64 :: "64 word list \<Rightarrow> 64 word list \<Rightarrow> 64 word list \<Rightarrow> bool \<Rightarrow> nat \<Rightarrow> 64 word list" where
  "F64 h m t f rounds =
     (let v = h @ blake2b_IV;
          v = v[12 := v ! 12 XOR t ! 0, 13 := v ! 13 XOR t ! 1];
          v = (if f then v[14 := NOT (v ! 14)] else v);
          v = fold (\<lambda>i. round64 m (blake2b_SIGMA ! (i mod 10))) [0..<rounds] v
      in map (\<lambda>i. h ! i XOR v ! i XOR v ! (i + 8)) [0..<8])"

definition le64 :: "bytes \<Rightarrow> 64 word" where
  "le64 b = word_of_int (horner_sum uint 256 (take 8 b))"

definition read64 :: "bytes \<Rightarrow> nat \<Rightarrow> 64 word list" where
  "read64 b n = map (\<lambda>i. le64 (drop (8 * i) b)) [0..<n]"

definition bytes64 :: "64 word \<Rightarrow> bytes" where
  "bytes64 w = map (\<lambda>k. ucast (drop_bit (8 * k) w)) [0..<8]"

section \<open>Halves of words\<close>

definition halves :: "32 word \<Rightarrow> 32 word \<Rightarrow> 64 word" where
  "halves lo hi = word_cat hi lo"

lemma bit_halves: "bit (halves lo hi) n \<longleftrightarrow> (if n < 32 then bit lo n else n < 64 \<and> bit hi (n - 32))"
  by (auto simp: halves_def bit_word_cat_iff)

lemma halves_int: "halves lo hi = word_of_int (uint lo + 2 ^ 32 * uint hi)"
  unfolding halves_def word_cat_eq by (simp add: push_bit_eq_mult of_int_uint)

lemma halves_of_int: "halves (word_of_int x) (word_of_int y) = word_of_int (x mod 2 ^ 32 + 2 ^ 32 * (y mod 2 ^ 32))"
  unfolding halves_int uint_word_of_int by simp

lemma mod_int_carry: "(m :: int) \<le> x \<Longrightarrow> x < 2 * m \<Longrightarrow> x mod m = x - m"
  by (metis add_diff_cancel_left' diff_add_cancel diff_ge_0_iff_ge diff_less_eq mod_add_self2 mod_pos_pos_trivial mult_2)

lemma halves_add:
  "halves (word_of_int (uint a0 + uint b0))
     (word_of_int (if uint a0 + uint b0 \<ge> 0x100000000 then uint a1 + uint b1 + 1 else uint a1 + uint b1)) =
   halves a0 a1 + halves b0 b1"
proof -
  define c :: int where "c = (if uint a0 + uint b0 \<ge> 0x100000000 then 1 else 0)"
  have lo: "(uint a0 + uint b0) mod 2 ^ 32 = uint a0 + uint b0 - 2 ^ 32 * c"
    using uint_lt2p [of a0] uint_lt2p [of b0] by (auto simp: c_def mod_pos_pos_trivial mod_int_carry)
  have hi: "2 ^ 32 * (x mod 2 ^ 32) mod 2 ^ 64 = 2 ^ 32 * x mod (2 ^ 64 :: int)" for x
    using mult_mod_right [of "2 ^ 32" x "2 ^ 32 :: int"] by simp
  have "(uint a0 + uint b0 - 2 ^ 32 * c + 2 ^ 32 * ((uint a1 + uint b1 + c) mod 2 ^ 32)) mod 2 ^ 64 =
      (uint a0 + uint b0 - 2 ^ 32 * c + 2 ^ 32 * (uint a1 + uint b1 + c)) mod 2 ^ 64"
    by (rule mod_add_cong [OF refl hi])
  also have "\<dots> = (uint a0 + 2 ^ 32 * uint a1 + (uint b0 + 2 ^ 32 * uint b1)) mod 2 ^ 64"
    by (simp add: algebra_simps)
  finally have "word_of_int (uint a0 + uint b0 - 2 ^ 32 * c + 2 ^ 32 * ((uint a1 + uint b1 + c) mod 2 ^ 32)) =
      (word_of_int (uint a0 + 2 ^ 32 * uint a1 + (uint b0 + 2 ^ 32 * uint b1)) :: 64 word)"
    unfolding word_of_int_eq_iff take_bit_eq_mod by simp
  then have "halves (word_of_int (uint a0 + uint b0)) (word_of_int (uint a1 + uint b1 + c)) =
      halves a0 a1 + halves b0 b1"
    unfolding halves_of_int lo unfolding halves_int wi_hom_add .
  then show ?thesis by (cases "0x100000000 \<le> uint a0 + uint b0") (simp_all add: c_def)
qed

lemma halves_xor: "halves (a0 XOR b0) (a1 XOR b1) = halves a0 a1 XOR halves b0 b1"
  by (rule bit_word_eqI) (simp add: bit_halves bit_xor_iff)

lemma halves_not: "halves (NOT a0) (NOT a1) = NOT (halves a0 a1)"
  by (rule bit_word_eqI) (auto simp: bit_halves bit_not_iff)

lemma wrap64: "n < 64 \<Longrightarrow> k < 64 \<Longrightarrow> (n + k) mod 64 = (if n + k < 64 then n + k else n + k - (64 :: nat))"
  by (simp add: mod_if)

lemma halves_rotr:
  assumes "0 < k" "k < 32"
  shows "halves (drop_bit k lo XOR push_bit (32 - k) hi) (drop_bit k hi XOR push_bit (32 - k) lo) =
    word_rotr k (halves lo hi)"
proof (rule bit_word_eqI)
  fix n :: nat
  assume "n < LENGTH(64)"
  then show "bit (halves (drop_bit k lo XOR push_bit (32 - k) hi) (drop_bit k hi XOR push_bit (32 - k) lo)) n =
      bit (word_rotr k (halves lo hi)) n"
    using assms
    by (auto simp: bit_halves bit_word_rotr_iff bit_xor_iff bit_drop_bit_eq bit_push_bit_iff wrap64 add.commute
        dest: bit_imp_le_length)
qed

lemma halves_swap: "halves hi lo = word_rotr 32 (halves lo hi)"
  by (rule bit_word_eqI) (auto simp: bit_halves bit_word_rotr_iff wrap64)

lemma halves_rotr63:
  "halves (drop_bit 31 hi XOR push_bit 1 lo) (drop_bit 31 lo XOR push_bit 1 hi) = word_rotr 63 (halves lo hi)"
proof -
  have "word_rotr 31 (word_rotr 32 w) = word_rotr 63 (w :: 64 word)" for w
    by (rule bit_word_eqI) (auto simp: bit_word_rotr_iff mod_simps add.commute)
  then show ?thesis using halves_rotr [of 31 hi lo] by (simp add: halves_swap [of hi lo])
qed

section \<open>Arrays of halves\<close>

definition joined :: "32 word list \<Rightarrow> 64 word list" where
  "joined v = map (\<lambda>i. halves (v ! (2 * i)) (v ! (2 * i + 1))) [0..<length v div 2]"

lemma joined_length [simp]: "length (joined v) = length v div 2"
  by (simp add: joined_def)

lemma joined_nth: "2 * i + 1 < length v \<Longrightarrow> joined v ! i = halves (v ! (2 * i)) (v ! (2 * i + 1))"
proof -
  assume "2 * i + 1 < length v"
  then have "i < length v div 2" by linarith
  then show ?thesis by (simp add: joined_def)
qed

lemma joined_update:
  assumes "2 * i + 1 < length v"
  shows "joined (v[2 * i := lo, 2 * i + 1 := hi]) = (joined v)[i := halves lo hi]"
proof (rule nth_equalityI)
  fix j assume "j < length (joined (v[2 * i := lo, 2 * i + 1 := hi]))"
  then show "joined (v[2 * i := lo, 2 * i + 1 := hi]) ! j = (joined v)[i := halves lo hi] ! j"
    using assms by (cases "i = j") (auto simp: joined_nth nth_list_update)
qed simp

lemma ADD64AA_length [simp]: "length (ADD64AA v a b) = length v" "length (ADD64AC v a x y) = length v"
  by (simp_all add: ADD64AA_def ADD64AC_def Let_def)

lemma joined_ADD64AA:
  "2 * a + 1 < length v \<Longrightarrow> 2 * b + 1 < length v \<Longrightarrow>
   joined (ADD64AA v (2 * a) (2 * b)) = (joined v)[a := joined v ! a + joined v ! b]"
  by (simp only: ADD64AA_def Let_def joined_update halves_add joined_nth)

lemma joined_ADD64AC:
  "2 * a + 1 < length v \<Longrightarrow>
   joined (ADD64AC v (2 * a) (uint x) (uint y)) = (joined v)[a := joined v ! a + halves x y]"
  using halves_add [of "v ! (2 * a)" x "v ! (2 * a + 1)" y] uint_ge_0 [of x]
  by (simp only: ADD64AC_def Let_def joined_update joined_nth if_False not_less [symmetric] simp_thms)

lemma joined_xor:
  "2 * a + 1 < length v \<Longrightarrow> 2 * b + 1 < length v \<Longrightarrow>
   halves (v ! (2 * a) XOR v ! (2 * b)) (v ! (2 * a + 1) XOR v ! (2 * b + 1)) = joined v ! a XOR joined v ! b"
  by (simp only: joined_nth halves_xor)

lemma joined_G:
  assumes "2 * a + 1 < length v" "2 * b + 1 < length v" "2 * c + 1 < length v" "2 * d + 1 < length v"
    and "2 * x + 1 < length m" "2 * y + 1 < length m"
  shows "joined (B2B_G v m (2 * a) (2 * b) (2 * c) (2 * d) (2 * x) (2 * y)) =
      mix64 (joined v) a b c d (joined m ! x) (joined m ! y)" (is ?joined)
    and "length (B2B_G v m (2 * a) (2 * b) (2 * c) (2 * d) (2 * x) (2 * y)) = length v" (is ?len)
proof -
  define lo hi where "lo v i j = v ! i XOR v ! j" and "hi v i j = v ! (i + 1) XOR v ! (j + 1)"
    for v :: "32 word list" and i j :: nat
  define v1 where "v1 = ADD64AC (ADD64AA v (2 * a) (2 * b)) (2 * a) (uint (m ! (2 * x))) (uint (m ! (2 * x + 1)))"
  define v2 where "v2 = v1[2 * d := hi v1 (2 * d) (2 * a), 2 * d + 1 := lo v1 (2 * d) (2 * a)]"
  define v3 where "v3 = ADD64AA v2 (2 * c) (2 * d)"
  define v4 where "v4 = v3[
    2 * b := drop_bit 24 (lo v3 (2 * b) (2 * c)) XOR push_bit 8 (hi v3 (2 * b) (2 * c)),
    2 * b + 1 := drop_bit 24 (hi v3 (2 * b) (2 * c)) XOR push_bit 8 (lo v3 (2 * b) (2 * c))]"
  define v5 where "v5 = ADD64AC (ADD64AA v4 (2 * a) (2 * b)) (2 * a) (uint (m ! (2 * y))) (uint (m ! (2 * y + 1)))"
  define v6 where "v6 = v5[
    2 * d := drop_bit 16 (lo v5 (2 * d) (2 * a)) XOR push_bit 16 (hi v5 (2 * d) (2 * a)),
    2 * d + 1 := drop_bit 16 (hi v5 (2 * d) (2 * a)) XOR push_bit 16 (lo v5 (2 * d) (2 * a))]"
  define v7 where "v7 = ADD64AA v6 (2 * c) (2 * d)"
  define v8 where "v8 = v7[
    2 * b := drop_bit 31 (hi v7 (2 * b) (2 * c)) XOR push_bit 1 (lo v7 (2 * b) (2 * c)),
    2 * b + 1 := drop_bit 31 (lo v7 (2 * b) (2 * c)) XOR push_bit 1 (hi v7 (2 * b) (2 * c))]"
  note defs = v1_def v2_def v3_def v4_def v5_def v6_def v7_def v8_def
  have len: "length v1 = length v" "length v2 = length v" "length v3 = length v" "length v4 = length v"
    "length v5 = length v" "length v6 = length v" "length v7 = length v" "length v8 = length v"
    by (simp_all add: defs)
  have G: "B2B_G v m (2 * a) (2 * b) (2 * c) (2 * d) (2 * x) (2 * y) = v8"
    by (simp only: B2B_G_def Let_def defs lo_def hi_def)
  note in_range = assms(1-4) [folded len(1)] assms(1-4) [folded len(2)] assms(1-4) [folded len(3)]
    assms(1-4) [folded len(4)] assms(1-4) [folded len(5)] assms(1-4) [folded len(6)] assms(1-4) [folded len(7)]
  have xor: "halves (lo w (2 * i) (2 * j)) (hi w (2 * i) (2 * j)) = joined w ! i XOR joined w ! j"
    if "2 * i + 1 < length w" "2 * j + 1 < length w" for w i j
    unfolding lo_def hi_def by (rule joined_xor [OF that])
  have rot: "halves (drop_bit 24 l XOR push_bit 8 h) (drop_bit 24 h XOR push_bit 8 l) = word_rotr 24 (halves l h)"
    "halves (drop_bit 16 l XOR push_bit 16 h) (drop_bit 16 h XOR push_bit 16 l) = word_rotr 16 (halves l h)" for l h
    using halves_rotr [of 24 l h] halves_rotr [of 16 l h] by simp_all
  have "joined v1 = (joined v)[a := joined v ! a + joined v ! b + joined m ! x]"
    using assms by (simp add: v1_def joined_ADD64AA joined_ADD64AC joined_nth [of x])
  moreover have "joined v2 = (joined v1)[d := word_rotr 32 (joined v1 ! d XOR joined v1 ! a)]"
    unfolding v2_def by (simp only: joined_update in_range xor halves_swap [of "hi v1 (2 * d) (2 * a)"])
  moreover have "joined v3 = (joined v2)[c := joined v2 ! c + joined v2 ! d]"
    unfolding v3_def by (simp only: joined_ADD64AA in_range)
  moreover have "joined v4 = (joined v3)[b := word_rotr 24 (joined v3 ! b XOR joined v3 ! c)]"
    unfolding v4_def by (simp only: joined_update in_range rot xor)
  moreover have "joined v5 = (joined v4)[a := joined v4 ! a + joined v4 ! b + joined m ! y]"
    using assms in_range by (simp add: v5_def joined_ADD64AA joined_ADD64AC joined_nth [of y])
  moreover have "joined v6 = (joined v5)[d := word_rotr 16 (joined v5 ! d XOR joined v5 ! a)]"
    unfolding v6_def by (simp only: joined_update in_range rot xor)
  moreover have "joined v7 = (joined v6)[c := joined v6 ! c + joined v6 ! d]"
    unfolding v7_def by (simp only: joined_ADD64AA in_range)
  moreover have "joined v8 = (joined v7)[b := word_rotr 63 (joined v7 ! b XOR joined v7 ! c)]"
    unfolding v8_def by (simp only: joined_update in_range halves_rotr63 xor)
  ultimately show ?joined by (simp only: G mix64_def Let_def)
  show ?len by (simp only: G len)
qed

section \<open>Rounds and the whole function\<close>

lemma sigma_rows: "\<forall>r<10. \<forall>k<16. SIGMA82 ! (r * 16 + k) = 2 * (blake2b_SIGMA ! r ! k) \<and> blake2b_SIGMA ! r ! k < 16"
  by code_simp

lemma joined_round:
  assumes "length v = 32" "length m = 32"
  shows "joined (blake_round m i v) = round64 (joined m) (blake2b_SIGMA ! (i mod 10)) (joined v)"
    and "length (blake_round m i v) = 32"
proof -
  have row: "SIGMA82 ! (i mod 10 * 16 + k) = 2 * (blake2b_SIGMA ! (i mod 10) ! k)"
    "blake2b_SIGMA ! (i mod 10) ! k < 16" if "k < 16" for k
  proof -
    have "i mod 10 < 10" by simp
    then have "SIGMA82 ! (i mod 10 * 16 + k) = 2 * (blake2b_SIGMA ! (i mod 10) ! k) \<and> blake2b_SIGMA ! (i mod 10) ! k < 16"
      using sigma_rows that by blast
    then show "SIGMA82 ! (i mod 10 * 16 + k) = 2 * (blake2b_SIGMA ! (i mod 10) ! k)"
      "blake2b_SIGMA ! (i mod 10) ! k < 16" by simp_all
  qed
  have G: "joined (B2B_G w m a b c d (2 * x) (2 * y)) =
      mix64 (joined w) (a div 2) (b div 2) (c div 2) (d div 2) (joined m ! x) (joined m ! y)"
    "length (B2B_G w m a b c d (2 * x) (2 * y)) = 32"
    if "length w = 32" "even a" "even b" "even c" "even d" "a < 31" "b < 31" "c < 31" "d < 31"
      "x < 16" "y < 16" for w a b c d x y
    using joined_G [of "a div 2" w "b div 2" "c div 2" "d div 2" x m y] that assms(2) by auto
  show "joined (blake_round m i v) = round64 (joined m) (blake2b_SIGMA ! (i mod 10)) (joined v)"
    "length (blake_round m i v) = 32"
    unfolding blake_round_def round64_def Let_def by (simp_all add: row row [of 0, simplified] row [of 1, simplified] row [of 2, simplified] G assms)
qed

lemma joined_rounds:
  "length v = 32 \<Longrightarrow> length m = 32 \<Longrightarrow>
   joined (blake_rounds m k i v) = fold (\<lambda>i. round64 (joined m) (blake2b_SIGMA ! (i mod 10))) [i..<i + k] (joined v) \<and>
   length (blake_rounds m k i v) = 32"
proof (induction k arbitrary: i v)
  case (Suc k)
  then show ?case
    using joined_round [of v m i] by (simp add: upt_conv_Cons del: upt_Suc)
qed simp

lemma joined_append: "even (length xs) \<Longrightarrow> joined (xs @ ys) = joined xs @ joined ys"
proof (rule nth_equalityI)
  assume "even (length xs)"
  then obtain n where n: "length xs = 2 * n" by (elim evenE)
  then show "length (joined (xs @ ys)) = length (joined xs @ joined ys)" by simp
  fix i assume i: "i < length (joined (xs @ ys))"
  show "joined (xs @ ys) ! i = (joined xs @ joined ys) ! i"
  proof (cases "i < n")
    case True
    then show ?thesis using n by (simp add: joined_nth nth_append)
  next
    case False
    then have "2 * i - length xs = 2 * (i - n)" "Suc (2 * i) - length xs = Suc (2 * (i - n))" using n by simp_all
    then show ?thesis using False i n by (simp add: joined_nth nth_append)
  qed
qed

lemma joined_IV: "joined BLAKE2B_IV32 = blake2b_IV" "length BLAKE2B_IV32 = 16"
  by code_simp+

lemma joined_init:
  assumes "length h = 16" "length t = 4"
  shows "joined (blake_init h t f) =
      (let v = joined h @ blake2b_IV; v = v[12 := v ! 12 XOR joined t ! 0, 13 := v ! 13 XOR joined t ! 1]
       in if f then v[14 := NOT (v ! 14)] else v)"
    and "length (blake_init h t f) = 32"
proof -
  define v where "v = h @ BLAKE2B_IV32"
  have v: "map (\<lambda>i. h ! i) [0..<16] @ map (\<lambda>i. BLAKE2B_IV32 ! i) [0..<16] = v" "length v = 32"
    using map_nth [of h] map_nth [of BLAKE2B_IV32] assms(1) by (simp_all add: v_def joined_IV)
  have joined: "joined v = joined h @ blake2b_IV"
    using assms(1) by (simp add: v_def joined_append joined_IV)
  define w where "w = v[2 * 12 := v ! 24 XOR t ! 0, 2 * 12 + 1 := v ! 25 XOR t ! 1,
    2 * 13 := v ! 26 XOR t ! 2, 2 * 13 + 1 := v ! 27 XOR t ! 3]"
  have w: "blake_init h t f = (if f then w[2 * 14 := NOT (w ! 28), 2 * 14 + 1 := NOT (w ! 29)] else w)" "length w = 32"
    using v(2) by (simp_all add: blake_init_def Let_def v(1) w_def)
  have halves: "halves (v ! 24 XOR t ! 0) (v ! 25 XOR t ! 1) = joined v ! 12 XOR joined t ! 0"
    "halves (v ! 26 XOR t ! 2) (v ! 27 XOR t ! 3) = joined v ! 13 XOR joined t ! 1"
    "halves (NOT (w ! 28)) (NOT (w ! 29)) = NOT (joined w ! 14)"
    using assms(2) v(2) w(2) by (simp_all add: joined_nth halves_xor halves_not)
  have "joined w = (joined v)[12 := joined v ! 12 XOR joined t ! 0, 13 := joined v ! 13 XOR joined t ! 1]"
    unfolding w_def by (simp add: joined_update [of 12, simplified] joined_update [of 13, simplified] halves [simplified] v(2))
  moreover have "joined (w[2 * 14 := NOT (w ! 28), 2 * 14 + 1 := NOT (w ! 29)]) = (joined w)[14 := NOT (joined w ! 14)]"
    using w(2) joined_update [of 14 w] halves(3) by simp
  ultimately show "joined (blake_init h t f) =
      (let v = joined h @ blake2b_IV; v = v[12 := v ! 12 XOR joined t ! 0, 13 := v ! 13 XOR joined t ! 1]
       in if f then v[14 := NOT (v ! 14)] else v)"
    unfolding w(1) Let_def joined by (cases f; simp only: if_True if_False simp_thms)
  show "length (blake_init h t f) = 32" using w by simp
qed

lemma joined_F:
  assumes "length h = 16" "length m = 32" "length t = 4"
  shows "joined (blake_F h m t f rounds) = F64 (joined h) (joined m) (joined t) f rounds"
    and "length (blake_F h m t f rounds) = 16"
proof -
  define v where "v = blake_rounds m rounds 0 (blake_init h t f)"
  have v: "joined v = fold (\<lambda>i. round64 (joined m) (blake2b_SIGMA ! (i mod 10))) [0..<rounds] (joined (blake_init h t f))"
    "length v = 32"
    using joined_rounds [OF joined_init(2) [OF assms(1,3)] assms(2)] by (simp_all add: v_def)
  have "joined (map (\<lambda>i. h ! i XOR v ! i XOR v ! (i + 16)) [0..<16]) =
      map (\<lambda>i. joined h ! i XOR joined v ! i XOR joined v ! (i + 8)) [0..<8]" (is "?l = ?r")
  proof (rule nth_equalityI)
    fix i assume "i < length ?l"
    then show "?l ! i = ?r ! i" using assms(1) v(2) by (simp add: joined_nth halves_xor)
  qed simp
  then show "joined (blake_F h m t f rounds) = F64 (joined h) (joined m) (joined t) f rounds"
    by (simp add: blake_F_def F64_def v joined_init(1) [OF assms(1,3)] Let_def v_def [symmetric])
  show "length (blake_F h m t f rounds) = 16" by (simp add: blake_F_def Let_def)
qed

section \<open>Bytes\<close>

lemma horner_bytes_bound: "0 \<le> horner_sum uint 256 (b :: bytes) \<and> horner_sum uint 256 b < 256 ^ length b"
proof (induction b)
  case (Cons x b)
  then show ?case using uint_lt2p [of x] uint_ge_0 [of x] by auto
qed simp

lemma halves_bytes:
  assumes "length (a :: bytes) = 4" "length b = 4"
  shows "halves (word_of_int (horner_sum uint 256 a)) (word_of_int (horner_sum uint 256 b)) =
    word_of_int (horner_sum uint 256 (a @ b))"
  using horner_bytes_bound [of a] horner_bytes_bound [of b] assms
  by (simp add: halves_of_int horner_sum_append)

lemma joined_read:
  assumes "8 * n \<le> length b"
  shows "joined (read_halves b (2 * n)) = read64 b n"
proof (rule nth_equalityI)
  fix i assume "i < length (joined (read_halves b (2 * n)))"
  then have i: "i < n" by (simp add: read_halves_def)
  then have len: "length (take 4 (drop (8 * i) b)) = 4" "length (take 4 (drop (8 * i + 4) b)) = 4" using assms by simp_all
  have split: "take 4 (drop (8 * i) b) @ take 4 (drop (8 * i + 4) b) = take 8 (drop (8 * i) b)"
    using take_add [of 4 4 "drop (8 * i) b"] by (simp add: add.commute)
  have "joined (read_halves b (2 * n)) ! i = halves (readUInt32LE b (8 * i)) (readUInt32LE b (8 * i + 4))"
    using i by (simp add: joined_nth read_halves_def algebra_simps)
  also have "\<dots> = read64 b n ! i"
    unfolding readUInt32LE_def halves_bytes [OF len] split using i by (simp add: read64_def le64_def)
  finally show "joined (read_halves b (2 * n)) ! i = read64 b n ! i" .
qed (simp add: read_halves_def read64_def)

lemma bytes64_halves: "bytes64 (halves lo hi) = writeUInt32LE lo @ writeUInt32LE hi"
proof -
  have low: "ucast (drop_bit (8 * k) (halves lo hi)) = (ucast (drop_bit (8 * k) lo) :: 8 word)" if "k < 4" for k
    using that by (intro bit_word_eqI) (auto simp: bit_ucast_iff bit_drop_bit_eq bit_halves)
  have high: "ucast (drop_bit (8 * (k + 4)) (halves lo hi)) = (ucast (drop_bit (8 * k) hi) :: 8 word)" if "k < 4" for k
    using that by (intro bit_word_eqI) (auto simp: bit_ucast_iff bit_drop_bit_eq bit_halves algebra_simps)
  show ?thesis
    using low [of 0] low [of 1] low [of 2] low [of 3] high [of 0] high [of 1] high [of 2] high [of 3]
    unfolding bytes64_def writeUInt32LE_def by (simp add: upt_rec)
qed

lemma write_joined: "even (length v) \<Longrightarrow> concat (map writeUInt32LE v) = concat (map bytes64 (joined v))"
proof (induction v rule: induct_list012)
  case (3 x y v)
  moreover have "joined (x # y # v) = halves x y # joined v"
    using joined_append [of "[x, y]" v] by (simp add: joined_def)
  ultimately show ?case by (simp add: bytes64_halves)
qed (simp_all add: joined_def)

text \<open>C8. The precompiled contract 9 computes the compression function F of BLAKE2b (RFC 7693, on 64-bit words)
  from its 213 bytes of input, although it calculates with halves of words: the eight state words, sixteen message words and two
  offset words are read and written with the lowest byte first. Input of another length or with another last byte than 0 or 1 is
  out of range and takes all gas, and each round costs its price.\<close>

theorem blake2f_is_F:
  "pre_blake2f vm data gasLimit s =
    (let gasUsed = gasPrice vm ''blake2Round'' * bn_of_bytes (take 4 data);
         out = F64 (read64 (slice data 4 68) 8) (read64 (slice data 68 196) 16) (read64 (slice data 196 212) 2)
           (data ! 212 = 1) (nat (bn_of_bytes (take 4 data)))
     in (Inr (if length data = 213 \<and> data ! 212 \<in> {0, 1}
         then (if gasLimit < gasUsed then OOGResult gasLimit else exec_ok gasUsed (concat (map bytes64 out)))
         else VmErrorResult OUT_OF_RANGE gasLimit), s))"
proof (cases "length data = 213")
  case True
  define h m t where "h = slice data 4 68" and "m = slice data 68 196" and "t = slice data 196 212"
  have len: "length h = 64" "length m = 128" "length t = 16" by (simp_all add: h_def m_def t_def True)
  have "joined (blake_F (read_halves h 16) (read_halves m 32) (read_halves t 4) f r) = F64 (read64 h 8) (read64 m 16) (read64 t 2) f r"
    "length (blake_F (read_halves h 16) (read_halves m 32) (read_halves t 4) f r) = 16" for f r
    using joined_F [of "read_halves h 16" "read_halves m 32" "read_halves t 4" f r] len
      joined_read [of 8 h] joined_read [of 16 m] joined_read [of 2 t] by (simp_all add: read_halves_def)
  then show ?thesis
    using True by (simp add: pre_blake2f_def Let_def write_joined h_def m_def t_def slice_def eff_defs)
qed (simp add: pre_blake2f_def ret_def)

end
