(* ===== verification/Heap.thy ===== *)
theory Heap
  imports Prelude "HOL-Library.Multiset"
begin

text \<open>
  \<open>ganache/src/packages/utils/src/utils/heap.ts\<close>: the binary heap of the transaction pool and the miner. The
  elements are the first \<open>length\<close> entries of an array that may be longer: \<open>shift\<close> and \<open>removeBest\<close> leave
  removed entries behind. The comparator \<open>less\<close> takes the array and two indices; an element precedes
  another when the comparator says so. An index is in range wherever a well-formed heap is used.
\<close>

section \<open>The array\<close>

type_synonym 'a comparator = "'a list \<Rightarrow> nat \<Rightarrow> nat \<Rightarrow> bool"

record 'a heap =
  hp_array :: "'a list"
  hp_length :: nat

definition heap_swap :: "'a list \<Rightarrow> nat \<Rightarrow> nat \<Rightarrow> 'a list" where
  "heap_swap xs i j = xs[i := xs ! j, j := xs ! i]"

text \<open>\<open>((j - 1) / 2) | 0\<close>, which is 0 for the index 0.\<close>

definition heap_parent :: "nat \<Rightarrow> nat" where
  "heap_parent j = (j - 1) div 2"

function heap_up :: "'a comparator \<Rightarrow> 'a list \<Rightarrow> nat \<Rightarrow> 'a list" where
  "heap_up cmp xs j =
     (let i = heap_parent j
      in if i \<noteq> j \<and> cmp xs j i then heap_up cmp (heap_swap xs i j) i else xs)"
  by pat_completeness auto
termination
  by (relation "measure (\<lambda>(cmp, xs, j). j)") (auto simp: heap_parent_def)

declare heap_up.simps [simp del]

text \<open>The child that is compared, and the array with the index at which the loop stops.\<close>

definition best_child :: "'a comparator \<Rightarrow> 'a list \<Rightarrow> nat \<Rightarrow> nat \<Rightarrow> nat" where
  "best_child cmp xs i l =
     (let j1 = 2 * i + 1; j2 = j1 + 1 in if j2 < l \<and> cmp xs j2 j1 then j2 else j1)"

lemma best_child_cases: "best_child cmp xs i l = 2 * i + 1 \<or> best_child cmp xs i l = 2 * i + 2 \<and> 2 * i + 2 < l"
  by (simp add: best_child_def Let_def)

function heap_down :: "'a comparator \<Rightarrow> 'a list \<Rightarrow> nat \<Rightarrow> nat \<Rightarrow> 'a list \<times> nat" where
  "heap_down cmp xs i l =
     (if 2 * i + 1 < l \<and> cmp xs (best_child cmp xs i l) i
      then heap_down cmp (heap_swap xs i (best_child cmp xs i l)) (best_child cmp xs i l) l
      else (xs, i))"
  by pat_completeness auto
termination
proof (relation "measure (\<lambda>(cmp, xs, i, l). l - i)")
  fix cmp :: "'a comparator" and xs i l
  assume "2 * i + 1 < l \<and> cmp xs (best_child cmp xs i l) i"
  then show "((cmp, heap_swap xs i (best_child cmp xs i l), best_child cmp xs i l, l), (cmp, xs, i, l))
      \<in> measure (\<lambda>(cmp, xs, i, l). l - i)"
    using best_child_cases [of cmp xs i l] by auto
qed simp

declare heap_down.simps [simp del]

definition moved_down :: "'a comparator \<Rightarrow> 'a list \<Rightarrow> nat \<Rightarrow> nat \<Rightarrow> 'a list \<times> bool" where
  "moved_down cmp xs i l = (let (ys, j) = heap_down cmp xs i l in (ys, j > i))"

section \<open>The operations\<close>

fun heapify :: "'a comparator \<Rightarrow> nat \<Rightarrow> nat \<Rightarrow> 'a list \<Rightarrow> 'a list" where
  "heapify cmp l 0 xs = xs"
| "heapify cmp l (Suc i) xs = heapify cmp l i (fst (heap_down cmp xs i l))"

definition heap_init :: "'a comparator \<Rightarrow> 'a list \<Rightarrow> 'a heap" where
  "heap_init cmp xs =
     \<lparr>hp_array = heapify cmp (length xs) (length xs div 2) xs, hp_length = length xs\<rparr>"

text \<open>\<open>refresh\<close> changes the entries from the middle on, and then each entry before it is moved down.\<close>

fun refresh_down :: "'a comparator \<Rightarrow> ('a \<Rightarrow> 'a) \<Rightarrow> nat \<Rightarrow> nat \<Rightarrow> 'a list \<Rightarrow> 'a list" where
  "refresh_down cmp refresher l 0 xs = xs"
| "refresh_down cmp refresher l (Suc i) xs =
     refresh_down cmp refresher l i (fst (heap_down cmp (xs[i := refresher (xs ! i)]) i l))"

definition heap_refresh :: "'a comparator \<Rightarrow> ('a \<Rightarrow> 'a) \<Rightarrow> 'a heap \<Rightarrow> 'a heap" where
  "heap_refresh cmp refresher h =
     (let l = hp_length h; mid = l div 2; xs = hp_array h;
          xs = take mid xs @ map refresher (take (l - mid) (drop mid xs)) @ drop l xs
      in h\<lparr>hp_array := refresh_down cmp refresher l mid xs\<rparr>)"

text \<open>An assignment to an entry of the array, or to the one after its end.\<close>

definition heap_assign :: "'a list \<Rightarrow> nat \<Rightarrow> 'a \<Rightarrow> 'a list" where
  "heap_assign xs i v = (if i < length xs then xs[i := v] else xs @ [v])"

definition heap_push :: "'a comparator \<Rightarrow> 'a \<Rightarrow> 'a heap \<Rightarrow> 'a heap" where
  "heap_push cmp v h =
     (let i = hp_length h
      in \<lparr>hp_array = heap_up cmp (heap_assign (hp_array h) i v) i, hp_length = i + 1\<rparr>)"

definition heap_peek :: "'a heap \<Rightarrow> 'a option" where
  "heap_peek h = (case hp_array h of [] \<Rightarrow> None | x # xs \<Rightarrow> Some x)"

definition heap_clear :: "'a heap \<Rightarrow> 'a heap" where
  "heap_clear h = \<lparr>hp_array = [], hp_length = 0\<rparr>"

text \<open>The last element at the start of the heap, and moved down.\<close>

definition drop_best :: "'a comparator \<Rightarrow> 'a heap \<Rightarrow> 'a heap" where
  "drop_best cmp h =
     (let newLength = hp_length h - 1; xs = (hp_array h)[0 := hp_array h ! newLength]
      in \<lparr>hp_array = fst (heap_down cmp xs 0 newLength), hp_length = newLength\<rparr>)"

definition heap_shift :: "'a comparator \<Rightarrow> 'a heap \<Rightarrow> 'a option \<times> 'a heap" where
  "heap_shift cmp h =
     (if hp_length h \<le> 1
      then if hp_length h = 0 then (None, h) else (Some (hp_array h ! 0), heap_clear h)
      else (Some (hp_array h ! 0), drop_best cmp h))"

definition heap_replaceBest :: "'a comparator \<Rightarrow> 'a \<Rightarrow> 'a heap \<Rightarrow> 'a heap" where
  "heap_replaceBest cmp v h =
     h\<lparr>hp_array := fst (heap_down cmp (heap_assign (hp_array h) 0 v) 0 (hp_length h))\<rparr>"

definition fix_at :: "'a comparator \<Rightarrow> 'a list \<Rightarrow> nat \<Rightarrow> nat \<Rightarrow> 'a list" where
  "fix_at cmp xs i l =
     (let (ys, moved) = moved_down cmp xs i l in if \<not> moved then heap_up cmp ys i else ys)"

definition heap_fix :: "'a comparator \<Rightarrow> nat \<Rightarrow> 'a heap \<Rightarrow> 'a heap" where
  "heap_fix cmp i h = h\<lparr>hp_array := fix_at cmp (hp_array h) i (hp_length h)\<rparr>"

definition heap_replace :: "'a comparator \<Rightarrow> nat \<Rightarrow> 'a \<Rightarrow> 'a heap \<Rightarrow> 'a heap" where
  "heap_replace cmp i v h = heap_fix cmp i (h\<lparr>hp_array := heap_assign (hp_array h) i v\<rparr>)"

definition heap_remove :: "'a comparator \<Rightarrow> nat \<Rightarrow> 'a heap \<Rightarrow> 'a heap" where
  "heap_remove cmp i h =
     (let newLength = hp_length h - 1
      in h\<lparr>hp_length := newLength,
           hp_array := (if newLength \<noteq> i then fix_at cmp (heap_swap (hp_array h) i newLength) i newLength
             else hp_array h)\<rparr>)"

text \<open>\<open>removeBest\<close> on an empty heap is not meant to happen.\<close>

definition heap_removeBest :: "'a comparator \<Rightarrow> 'a heap \<Rightarrow> bool \<times> 'a heap" where
  "heap_removeBest cmp h =
     (if hp_length h = 1 then (False, heap_clear h) else (True, drop_best cmp h))"

definition heap_from :: "'a \<Rightarrow> 'a heap" where
  "heap_from item = \<lparr>hp_array = [item], hp_length = 1\<rparr>"

end
