(* ===== verification/Heap_Order.thy ===== *)
theory Heap_Order
  imports Heap
begin

text \<open>
  The heap implements a bag with a best element. The locale \<open>priority\<close> states what the operations need of
  the comparator: that it compares the two elements by a strict weak order. The pool and the miner
  interpret it on their orders.
\<close>

section \<open>Heap order on arrays\<close>

definition below :: "('a \<Rightarrow> 'a \<Rightarrow> bool) \<Rightarrow> 'a list \<Rightarrow> nat \<Rightarrow> nat \<Rightarrow> bool" where
  "below lt xs p c \<longleftrightarrow> \<not> lt (xs ! c) (xs ! p)"

text \<open>All elements of the heap whose parent is at \<open>k\<close> or later do not precede it, but perhaps the children of \<open>i\<close>.\<close>

definition ordered_but :: "('a \<Rightarrow> 'a \<Rightarrow> bool) \<Rightarrow> nat \<Rightarrow> nat \<Rightarrow> (nat \<Rightarrow> nat \<Rightarrow> bool) \<Rightarrow> 'a list \<Rightarrow> bool" where
  "ordered_but lt l k skip xs \<longleftrightarrow>
     (\<forall>c. 0 < c \<and> c < l \<and> k \<le> heap_parent c \<and> \<not> skip (heap_parent c) c \<longrightarrow> below lt xs (heap_parent c) c)"

definition heap_ordered :: "('a \<Rightarrow> 'a \<Rightarrow> bool) \<Rightarrow> nat \<Rightarrow> nat \<Rightarrow> 'a list \<Rightarrow> bool" where
  "heap_ordered lt l k xs \<longleftrightarrow> ordered_but lt l k (\<lambda>p c. False) xs"

text \<open>The children of \<open>i\<close> do not precede the parent of \<open>i\<close>.\<close>

definition bridged :: "('a \<Rightarrow> 'a \<Rightarrow> bool) \<Rightarrow> nat \<Rightarrow> nat \<Rightarrow> nat \<Rightarrow> 'a list \<Rightarrow> bool" where
  "bridged lt l k i xs \<longleftrightarrow>
     (\<forall>c. 0 < c \<and> c < l \<and> heap_parent c = i \<and> 0 < i \<and> k \<le> heap_parent i \<longrightarrow> below lt xs (heap_parent i) c)"

definition heap_bag :: "'a heap \<Rightarrow> 'a multiset" where
  "heap_bag h = mset (take (hp_length h) (hp_array h))"

definition heap_ok :: "('a \<Rightarrow> 'a \<Rightarrow> bool) \<Rightarrow> 'a heap \<Rightarrow> bool" where
  "heap_ok lt h \<longleftrightarrow> hp_length h \<le> length (hp_array h) \<and> heap_ordered lt (hp_length h) 0 (hp_array h) \<and>
     (hp_length h = 0 \<longrightarrow> hp_array h = [])"

lemma parent_less: "0 < c \<Longrightarrow> heap_parent c < c"
  by (simp add: heap_parent_def)

lemma parent_children: "0 < c \<Longrightarrow> heap_parent c = i \<longleftrightarrow> c = 2 * i + 1 \<or> c = 2 * i + 2"
  by (auto simp: heap_parent_def)

lemma swap_length [simp]: "length (heap_swap xs i j) = length xs"
  by (simp add: heap_swap_def)

lemma swap_nth: "i < length xs \<Longrightarrow> j < length xs \<Longrightarrow>
   heap_swap xs i j ! k = (if k = j then xs ! i else if k = i then xs ! j else xs ! k)"
  by (auto simp: heap_swap_def nth_list_update)

lemma take_swap: "i < l \<Longrightarrow> j < l \<Longrightarrow> take l (heap_swap xs i j) = heap_swap (take l xs) i j"
  by (simp add: heap_swap_def take_update_swap)

lemma mset_heap_swap: "i < length xs \<Longrightarrow> j < length xs \<Longrightarrow> mset (heap_swap xs i j) = mset xs"
  unfolding heap_swap_def by (rule mset_swap)

lemma mset_take_swap:
  "i < l \<Longrightarrow> j < l \<Longrightarrow> l \<le> length xs \<Longrightarrow> mset (take l (heap_swap xs i j)) = mset (take l xs)"
  by (simp add: take_swap mset_heap_swap)

locale priority =
  fixes lt :: "'a \<Rightarrow> 'a \<Rightarrow> bool" and cmp :: "'a comparator"
  assumes compares: "cmp xs i j = lt (xs ! i) (xs ! j)"
    and asym: "lt x y \<Longrightarrow> \<not> lt y x"
    and weak: "\<not> lt x y \<Longrightarrow> \<not> lt y z \<Longrightarrow> \<not> lt x z"
begin

lemma fix_at_alt: "fix_at cmp xs i l =
   (if i < snd (heap_down cmp xs i l) then fst (heap_down cmp xs i l) else heap_up cmp (fst (heap_down cmp xs i l)) i)"
  by (simp add: fix_at_def moved_down_def case_prod_unfold Let_def)

lemma irrefl: "\<not> lt x x"
  using asym by blast

lemma trans: "lt x y \<Longrightarrow> lt y z \<Longrightarrow> lt x z"
  using asym weak by blast

lemma below_swap:
  "i < length xs \<Longrightarrow> j < length xs \<Longrightarrow> i \<noteq> j \<Longrightarrow> below lt (heap_swap xs i j) p c =
     (\<not> lt (xs ! (if c = j then i else if c = i then j else c)) (xs ! (if p = j then i else if p = i then j else p)))"
  by (simp add: below_def swap_nth)

lemma up_stop: "\<not> (heap_parent j \<noteq> j \<and> lt (xs ! j) (xs ! heap_parent j)) \<Longrightarrow> heap_up cmp xs j = xs"
  unfolding heap_up.simps [of cmp xs j] Let_def compares by (rule if_not_P)

lemma up_step: "heap_parent j \<noteq> j \<and> lt (xs ! j) (xs ! heap_parent j) \<Longrightarrow>
   heap_up cmp xs j = heap_up cmp (heap_swap xs (heap_parent j) j) (heap_parent j)"
  unfolding heap_up.simps [of cmp xs j] Let_def compares by (rule if_P)

lemma down_stop: "\<not> (2 * i + 1 < l \<and> lt (xs ! best_child cmp xs i l) (xs ! i)) \<Longrightarrow> heap_down cmp xs i l = (xs, i)"
  unfolding heap_down.simps [of cmp xs i l] compares by (rule if_not_P)

lemma down_step: "2 * i + 1 < l \<and> lt (xs ! best_child cmp xs i l) (xs ! i) \<Longrightarrow>
   heap_down cmp xs i l = heap_down cmp (heap_swap xs i (best_child cmp xs i l)) (best_child cmp xs i l) l"
  unfolding heap_down.simps [of cmp xs i l] compares by (rule if_P)

lemma up_length [simp]: "length (heap_up cmp xs j) = length xs"
  by (induction cmp xs j rule: heap_up.induct) (subst heap_up.simps, simp add: Let_def)

lemma up_bag: "j < l \<Longrightarrow> l \<le> length xs \<Longrightarrow> mset (take l (heap_up cmp xs j)) = mset (take l xs)"
proof (induction cmp xs j rule: heap_up.induct)
  case (1 cmp xs j)
  show ?case
    using 1 parent_less [of j]
    by (subst heap_up.simps) (cases "j = 0"; auto simp: Let_def mset_take_swap heap_parent_def)
qed

lemma up_orders:
  "j < l \<Longrightarrow> l \<le> length xs \<Longrightarrow> ordered_but lt l 0 (\<lambda>p c. c = j) xs \<Longrightarrow> bridged lt l 0 j xs \<Longrightarrow>
   heap_ordered lt l 0 (heap_up cmp xs j)"
proof (induction j arbitrary: xs rule: less_induct)
  case (less j)
  let ?i = "heap_parent j"
  show ?case
  proof (cases "?i \<noteq> j \<and> lt (xs ! j) (xs ! ?i)")
    case False
    then have "below lt xs ?i j" by (auto simp: below_def irrefl)
    then have "heap_ordered lt l 0 xs"
      using less.prems(3) unfolding heap_ordered_def ordered_but_def by metis
    then show ?thesis using up_stop [OF False] by simp
  next
    case True
    then have "0 < j" by (cases j) (simp_all add: heap_parent_def)
    then have j: "0 < j" "?i < j" "?i < length xs" "j < length xs" using less.prems(1,2) parent_less [of j] by simp_all
    let ?ys = "heap_swap xs ?i j"
    have edge: "below lt xs (heap_parent c) c" if "0 < c" "c < l" "c \<noteq> j" for c
      using less.prems(3) that unfolding ordered_but_def by blast
    have child: "below lt xs ?i c" if "0 < c" "c < l" "heap_parent c = j" for c
      using less.prems(4) that j(1) unfolding bridged_def by blast
    have "below lt ?ys (heap_parent c) c" if c: "0 < c" "c < l" "c \<noteq> ?i" for c
    proof -
      consider "c = j" | "c \<noteq> j" "heap_parent c = j" | "c \<noteq> j" "heap_parent c = ?i"
        | "c \<noteq> j" "heap_parent c \<noteq> j" "heap_parent c \<noteq> ?i" by blast
      then show ?thesis
      proof cases
        case 1
        then show ?thesis using True j by (simp add: below_swap asym)
      next
        case 2
        then show ?thesis using child [OF c(1,2)] c j by (simp add: swap_nth below_def)
      next
        case 3
        have "\<not> lt (xs ! c) (xs ! ?i)" using edge [OF c(1,2) 3(1)] 3(2) by (simp add: below_def)
        then have "\<not> lt (xs ! c) (xs ! j)" using weak asym True by blast
        then show ?thesis using c j 3 by (simp add: below_swap)
      next
        case 4
        then show ?thesis using edge [OF c(1,2)] c j by (simp add: swap_nth below_def)
      qed
    qed
    then have "ordered_but lt l 0 (\<lambda>p c. c = ?i) ?ys" by (simp add: ordered_but_def)
    moreover have "bridged lt l 0 ?i ?ys"
      unfolding bridged_def
    proof (intro allI impI, elim conjE)
      fix c assume c: "0 < c" "c < l" "heap_parent c = ?i" "0 < ?i"
      let ?g = "heap_parent ?i"
      have g: "?g < ?i" by (rule parent_less [OF c(4)])
      have top': "\<not> lt (xs ! ?i) (xs ! ?g)" using edge [of ?i] c(4) j less.prems(1) by (simp add: below_def)
      have "\<not> lt (xs ! c) (xs ! ?i)" if "c \<noteq> j" using edge [OF c(1,2) that] c(3) by (simp add: below_def)
      then show "below lt ?ys ?g c"
        using weak [OF _ top', of "xs ! c"] top' c g j by (auto simp: below_swap)
    qed
    ultimately have "heap_ordered lt l 0 (heap_up cmp ?ys ?i)"
      using less.IH [OF j(2), of ?ys] less.prems(1,2) j(2) by simp
    then show ?thesis using up_step [OF True] by simp
  qed
qed

lemma down_length [simp]: "length (fst (heap_down cmp xs i l)) = length xs"
  by (induction cmp xs i l rule: heap_down.induct) (subst heap_down.simps, simp)

lemma child_less: "2 * i + 1 < l \<Longrightarrow> best_child cmp xs i l < l"
  using best_child_cases [of cmp xs i l] by auto

lemma down_bag: "l \<le> length xs \<Longrightarrow> mset (take l (fst (heap_down cmp xs i l))) = mset (take l xs)"
proof (induction cmp xs i l rule: heap_down.induct)
  case (1 cmp' xs i l)
  have "best_child cmp' xs i l < l" if "2 * i + 1 < l"
    using best_child_cases [of cmp' xs i l] that by auto
  then show ?case
    using 1 by (subst heap_down.simps) (auto simp: mset_take_swap)
qed

lemma down_index: "i \<le> snd (heap_down cmp xs i l)"
proof (induction "l - i" arbitrary: xs i rule: less_induct)
  case less
  let ?j = "best_child cmp xs i l"
  show ?case
  proof (cases "2 * i + 1 < l \<and> lt (xs ! ?j) (xs ! i)")
    case True
    then have "i < ?j" "l - ?j < l - i" using best_child_cases [of cmp xs i l] by auto
    then show ?thesis using less [of ?j "heap_swap xs i ?j"] down_step [OF True] by simp
  qed (simp add: down_stop)
qed

lemma down_still:
  assumes "\<not> i < snd (heap_down cmp xs i l)"
  shows "heap_down cmp xs i l = (xs, i) \<and> \<not> (2 * i + 1 < l \<and> lt (xs ! best_child cmp xs i l) (xs ! i))"
proof (cases "2 * i + 1 < l \<and> lt (xs ! best_child cmp xs i l) (xs ! i)")
  case True
  then have "i < best_child cmp xs i l" using best_child_cases [of cmp xs i l] by auto
  then show ?thesis
    using assms down_index [of "best_child cmp xs i l" "heap_swap xs i (best_child cmp xs i l)" l] down_step [OF True] by simp
qed (use down_stop in blast)

lemma best_child_best:
  assumes "0 < c" "c < l" "heap_parent c = i" "2 * i + 1 < l"
  shows "\<not> lt (xs ! c) (xs ! best_child cmp xs i l)"
  using assms parent_children [OF assms(1)]
  by (auto simp: best_child_def Let_def compares irrefl dest: asym)

lemma down_orders:
  "l \<le> length xs \<Longrightarrow> k \<le> i \<Longrightarrow> ordered_but lt l k (\<lambda>p c. p = i) xs \<Longrightarrow> bridged lt l k i xs \<Longrightarrow>
   heap_ordered lt l k (fst (heap_down cmp xs i l))"
proof (induction "l - i" arbitrary: xs i rule: less_induct)
  case less
  let ?j = "best_child cmp xs i l"
  show ?case
  proof (cases "2 * i + 1 < l \<and> lt (xs ! ?j) (xs ! i)")
    case False
    have "below lt xs (heap_parent c) c" if c: "0 < c" "c < l" "k \<le> heap_parent c" for c
    proof (cases "heap_parent c = i")
      case True
      then have inside: "2 * i + 1 < l" using parent_children [OF c(1)] c(2) by auto
      then have "\<not> lt (xs ! c) (xs ! ?j)" using best_child_best [OF c(1,2) True] by simp
      then show ?thesis using weak [of "xs ! c" "xs ! ?j" "xs ! i"] False inside True by (simp add: below_def)
    qed (use less.prems(3) c in \<open>auto simp: ordered_but_def\<close>)
    then show ?thesis using down_stop [OF False] by (simp add: heap_ordered_def ordered_but_def)
  next
    case True
    then have j: "?j < l" "i < ?j" "?j < length xs" "i < length xs" "0 < ?j" and up: "heap_parent ?j = i"
      using best_child_cases [of cmp xs i l] less.prems(1) by (auto simp: heap_parent_def)
    let ?ys = "heap_swap xs i ?j"
    have edge: "below lt xs (heap_parent c) c" if "0 < c" "c < l" "k \<le> heap_parent c" "heap_parent c \<noteq> i" for c
      using less.prems(3) that unfolding ordered_but_def by blast
    have "below lt ?ys (heap_parent c) c" if c: "0 < c" "c < l" "k \<le> heap_parent c" "heap_parent c \<noteq> ?j" for c
    proof -
      consider "c = ?j" | "c \<noteq> ?j" "heap_parent c = i" | "c = i" | "c \<noteq> ?j" "c \<noteq> i" "heap_parent c \<noteq> i" by blast
      then show ?thesis
      proof cases
        case 1
        then show ?thesis using True j up by (auto simp: below_swap asym)
      next
        case 2
        have "\<not> lt (xs ! c) (xs ! ?j)" using best_child_best [OF c(1,2) 2(2)] True by simp
        then show ?thesis using 2 j parent_less [OF c(1)] by (auto simp: below_swap)
      next
        case 3
        then have "below lt xs (heap_parent i) ?j"
          using less.prems(4) up j c unfolding bridged_def by auto
        then show ?thesis using 3 j c parent_less [OF c(1)] by (auto simp: swap_nth below_def)
      next
        case 4
        then show ?thesis using edge [OF c(1-3)] j c by (auto simp: swap_nth below_def)
      qed
    qed
    then have "ordered_but lt l k (\<lambda>p c. p = ?j) ?ys" by (simp add: ordered_but_def)
    moreover have "bridged lt l k ?j ?ys"
      unfolding bridged_def up
    proof (intro allI impI, elim conjE)
      fix c assume c: "0 < c" "c < l" "heap_parent c = ?j" "k \<le> i"
      then have "below lt xs ?j c" using edge [OF c(1,2)] j less.prems(2) by auto
      then show "below lt ?ys i c"
        using c j parent_less [OF c(1)] by (auto simp: swap_nth below_def)
    qed
    ultimately have "heap_ordered lt l k (fst (heap_down cmp ?ys ?j l))"
      using less.hyps [of ?j ?ys] less.prems(1,2) j by simp
    then show ?thesis using down_step [OF True] by simp
  qed
qed

text \<open>A heap whose entry at \<open>i\<close> has changed is repaired by moving it down, or else up.\<close>

lemma fix_orders:
  assumes "l \<le> length xs" "i < l" "ordered_but lt l 0 (\<lambda>p c. p = i \<or> c = i) xs" "bridged lt l 0 i xs"
  shows "heap_ordered lt l 0 (fix_at cmp xs i l)"
proof (cases "i < snd (heap_down cmp xs i l)")
  case True
  then have first: "2 * i + 1 < l \<and> lt (xs ! best_child cmp xs i l) (xs ! i)"
    using down_stop [of i l xs] by (metis order_less_irrefl snd_conv)
  have "below lt xs (heap_parent i) i" if "0 < i"
  proof -
    have "below lt xs (heap_parent i) (best_child cmp xs i l)"
      using assms(4) that first child_less [of i l xs] best_child_cases [of cmp xs i l]
      unfolding bridged_def by (auto simp: heap_parent_def)
    then show ?thesis using first trans by (auto simp: below_def)
  qed
  then have "ordered_but lt l 0 (\<lambda>p c. p = i) xs"
    using assms(3) unfolding ordered_but_def by metis
  then have "heap_ordered lt l 0 (fst (heap_down cmp xs i l))"
    by (intro down_orders assms(1,4)) simp_all
  then show ?thesis using True by (simp add: fix_at_alt)
next
  case False
  note still = down_still [OF False]
  have "below lt xs i c" if c: "0 < c" "c < l" "heap_parent c = i" for c
  proof -
    have inside: "2 * i + 1 < l" using parent_children [OF c(1), of i] c(2,3) by auto
    then have "\<not> lt (xs ! c) (xs ! best_child cmp xs i l)" by (rule best_child_best [OF c])
    then show ?thesis using weak still inside by (auto simp: below_def)
  qed
  then have "ordered_but lt l 0 (\<lambda>p c. c = i) xs"
    using assms(3) unfolding ordered_but_def by metis
  then have "heap_ordered lt l 0 (heap_up cmp xs i)"
    by (intro up_orders assms)
  then show ?thesis using still by (simp add: fix_at_alt)
qed

lemma fix_bag: "l \<le> length xs \<Longrightarrow> i < l \<Longrightarrow> mset (take l (fix_at cmp xs i l)) = mset (take l xs)"
  using down_bag [of l xs i] up_bag [of i l "fst (heap_down cmp xs i l)"]
  by (simp add: fix_at_alt)

lemma fix_length [simp]: "length (fix_at cmp xs i l) = length xs"
  by (simp add: fix_at_alt)

lemma heapify_orders: "l \<le> length xs \<Longrightarrow> heap_ordered lt l i xs \<Longrightarrow>
   heap_ordered lt l 0 (heapify cmp l i xs) \<and> mset (take l (heapify cmp l i xs)) = mset (take l xs) \<and>
   length (heapify cmp l i xs) = length xs"
proof (induction i arbitrary: xs)
  case (Suc i)
  have "ordered_but lt l i (\<lambda>p c. p = i) xs"
    using Suc.prems(2) by (auto simp: heap_ordered_def ordered_but_def le_Suc_eq Suc_le_eq)
  moreover have "bridged lt l i i xs" by (auto simp: bridged_def dest: parent_less)
  ultimately have "heap_ordered lt l i (fst (heap_down cmp xs i l))"
    using Suc.prems(1) by (intro down_orders) simp_all
  then show ?case using Suc.IH [of "fst (heap_down cmp xs i l)"] Suc.prems(1) down_bag by simp
qed simp

lemma half_ordered: "heap_ordered lt l (l div 2) xs"
proof -
  have False if "0 < c" "c < l" "l div 2 \<le> heap_parent c" for c
    using that unfolding heap_parent_def by linarith
  then show ?thesis unfolding heap_ordered_def ordered_but_def by blast
qed

lemma best_first: "heap_ordered lt l 0 xs \<Longrightarrow> j < l \<Longrightarrow> \<not> lt (xs ! j) (xs ! 0)"
proof (induction j rule: less_induct)
  case (less j)
  show ?case
  proof (cases "j = 0")
    case False
    then have "\<not> lt (xs ! j) (xs ! heap_parent j)"
      using less.prems by (auto simp: heap_ordered_def ordered_but_def below_def)
    moreover have "\<not> lt (xs ! heap_parent j) (xs ! 0)"
      using False less parent_less [of j] by auto
    ultimately show ?thesis by (rule weak)
  qed (simp add: irrefl)
qed

section \<open>The operations\<close>

lemma push_ok:
  assumes "heap_ok lt h"
  shows "heap_ok lt (heap_push cmp v h)" "heap_bag (heap_push cmp v h) = add_mset v (heap_bag h)"
proof -
  let ?n = "hp_length h" and ?xs = "heap_assign (hp_array h) (hp_length h) v"
  have n: "?n \<le> length (hp_array h)" "?n < length ?xs" using assms by (auto simp: heap_ok_def heap_assign_def)
  have same: "?xs ! j = hp_array h ! j" if "j < ?n" for j
    using that n(1) by (simp add: heap_assign_def nth_append)
  have here: "?xs ! ?n = v" "take ?n ?xs = take ?n (hp_array h)" using n(1) by (auto simp: heap_assign_def)
  have "below lt ?xs (heap_parent c) c" if c: "0 < c" "c < Suc ?n" "c \<noteq> ?n" for c
    using assms c parent_less [OF c(1)] same [of c] same [of "heap_parent c"]
    by (auto simp: heap_ok_def heap_ordered_def ordered_but_def below_def)
  then have "ordered_but lt (Suc ?n) 0 (\<lambda>p c. c = ?n) ?xs" by (simp add: ordered_but_def)
  moreover have "bridged lt (Suc ?n) 0 ?n ?xs" by (auto simp: bridged_def dest: parent_less)
  ultimately have "heap_ordered lt (Suc ?n) 0 (heap_up cmp ?xs ?n)" using n(2) by (intro up_orders) simp_all
  then show "heap_ok lt (heap_push cmp v h)" using n(2) by (simp add: heap_ok_def heap_push_def Let_def)
  have "mset (take (Suc ?n) (heap_up cmp ?xs ?n)) = mset (take (Suc ?n) ?xs)" using n(2) by (intro up_bag) simp_all
  then show "heap_bag (heap_push cmp v h) = add_mset v (heap_bag h)"
    using n(2) by (simp add: heap_bag_def heap_push_def Let_def take_Suc_conv_app_nth here)
qed

lemma down_from_top:
  assumes "l \<le> length xs" "heap_ordered lt l 0 ys" "\<And>j. 0 < j \<Longrightarrow> xs ! j = ys ! j"
  shows "heap_ordered lt l 0 (fst (heap_down cmp xs 0 l))"
proof (rule down_orders [OF assms(1)])
  show "ordered_but lt l 0 (\<lambda>p c. p = 0) xs"
    using assms(2,3) by (auto simp: ordered_but_def heap_ordered_def below_def)
qed (simp_all add: bridged_def)

lemma drop_best_ok:
  assumes "heap_ok lt h" "1 < hp_length h"
  shows "heap_ok lt (drop_best cmp h)" "heap_bag h = add_mset (hp_array h ! 0) (heap_bag (drop_best cmp h))"
proof -
  let ?n = "hp_length h - 1" and ?a = "hp_array h"
  let ?xs = "?a[0 := ?a ! ?n]"
  have n: "?n < length ?a" "0 < ?n" "Suc ?n = hp_length h" using assms by (auto simp: heap_ok_def)
  have "heap_ordered lt ?n 0 ?a"
    using assms by (auto simp: heap_ok_def heap_ordered_def ordered_but_def)
  then have "heap_ordered lt ?n 0 (fst (heap_down cmp ?xs 0 ?n))"
    using n(1) by (intro down_from_top [of ?n ?xs ?a]) simp_all
  then show "heap_ok lt (drop_best cmp h)" using n by (simp add: heap_ok_def drop_best_def Let_def)
  have "take ?n ?xs = (take ?n ?a)[0 := ?a ! ?n]" by (simp add: take_update_swap)
  then have "mset (take ?n ?xs) = add_mset (?a ! ?n) (mset (take ?n ?a) - {#?a ! 0#})"
    using n by (simp add: mset_update)
  moreover have "?a ! 0 \<in># mset (take ?n ?a)"
    using n(1,2) nth_mem [of 0 "take ?n ?a"] by simp
  moreover have "mset (take (hp_length h) ?a) = add_mset (?a ! ?n) (mset (take ?n ?a))"
    using take_Suc_conv_app_nth [OF n(1)] n(3) by simp
  ultimately have "mset (take (hp_length h) ?a) = add_mset (?a ! 0) (mset (take ?n ?xs))" by simp
  then show "heap_bag h = add_mset (?a ! 0) (heap_bag (drop_best cmp h))"
    using n(1) by (simp add: heap_bag_def drop_best_def Let_def down_bag)
qed

lemma clear_ok: "heap_ok lt (heap_clear h)" "heap_bag (heap_clear h) = {#}"
  by (simp_all add: heap_ok_def heap_clear_def heap_bag_def heap_ordered_def ordered_but_def)

lemma from_ok: "heap_ok lt (heap_from x)" "heap_bag (heap_from x) = {#x#}"
  by (simp_all add: heap_ok_def heap_from_def heap_bag_def heap_ordered_def ordered_but_def)

lemma peek_best:
  assumes "heap_ok lt h"
  shows "case heap_peek h of None \<Rightarrow> heap_bag h = {#}
    | Some x \<Rightarrow> 0 < hp_length h \<and> x = hp_array h ! 0 \<and> x \<in># heap_bag h \<and> (\<forall>y \<in># heap_bag h. \<not> lt y x)"
proof (cases "hp_array h")
  case (Cons x xs)
  then have n: "0 < hp_length h" "hp_length h \<le> length (hp_array h)" using assms by (auto simp: heap_ok_def)
  then have "hp_array h ! 0 \<in># heap_bag h"
    using nth_mem [of 0 "take (hp_length h) (hp_array h)"] by (auto simp: heap_bag_def)
  moreover have "\<not> lt y (hp_array h ! 0)" if "y \<in># heap_bag h" for y
    using that best_first assms n by (auto simp: heap_bag_def in_set_conv_nth heap_ok_def)
  ultimately show ?thesis using Cons n by (auto simp: heap_peek_def)
qed (simp add: heap_peek_def heap_bag_def)

lemma removeBest_ok:
  assumes "heap_ok lt h" "0 < hp_length h" "heap_removeBest cmp h = (rest, h')"
  shows "heap_ok lt h'" "heap_bag h = add_mset (hp_array h ! 0) (heap_bag h')" "rest \<longleftrightarrow> heap_bag h' \<noteq> {#}"
    "hp_length h' = hp_length h - 1"
proof -
  have "take 1 (hp_array h) = [hp_array h ! 0]" if "hp_length h = 1"
    using assms(1) that by (cases "hp_array h") (auto simp: heap_ok_def)
  then show "heap_ok lt h'" "heap_bag h = add_mset (hp_array h ! 0) (heap_bag h')" "hp_length h' = hp_length h - 1"
    using assms drop_best_ok [OF assms(1)] clear_ok [of h]
    by (auto simp: heap_removeBest_def heap_bag_def heap_clear_def drop_best_def Let_def split: if_splits)
  then show "rest \<longleftrightarrow> heap_bag h' \<noteq> {#}"
    using assms by (auto simp: heap_removeBest_def heap_bag_def heap_clear_def heap_ok_def split: if_splits)
qed

lemma shift_ok:
  assumes "heap_ok lt h" "heap_shift cmp h = (r, h')"
  shows "heap_ok lt h'" "r = heap_peek h" "heap_bag h = (case r of None \<Rightarrow> {#} | Some x \<Rightarrow> {#x#}) + heap_bag h'"
proof -
  have "hp_array h \<noteq> []" if "0 < hp_length h" using assms(1) that by (auto simp: heap_ok_def)
  then have peek: "heap_peek h = (if hp_length h = 0 then None else Some (hp_array h ! 0))"
    using assms(1) by (auto simp: heap_peek_def heap_ok_def split: list.split)
  have one: "take (hp_length h) (hp_array h) = [hp_array h ! 0]" if "hp_length h \<le> Suc 0" "0 < hp_length h"
    using assms(1) that by (cases "hp_array h"; cases "hp_length h") (auto simp: heap_ok_def)
  show "heap_ok lt h'" "r = heap_peek h" "heap_bag h = (case r of None \<Rightarrow> {#} | Some x \<Rightarrow> {#x#}) + heap_bag h'"
    using assms drop_best_ok [OF assms(1)] clear_ok [of h] one
    by (auto simp: heap_shift_def peek heap_bag_def not_le split: if_splits)
qed

lemma replaceBest_ok:
  assumes "heap_ok lt h" "0 < hp_length h"
  shows "heap_ok lt (heap_replaceBest cmp v h)"
    "add_mset (hp_array h ! 0) (heap_bag (heap_replaceBest cmp v h)) = add_mset v (heap_bag h)"
proof -
  let ?a = "hp_array h" and ?n = "hp_length h"
  let ?xs = "heap_assign ?a 0 v"
  have n: "?n \<le> length ?a" "?xs = ?a[0 := v]" using assms by (auto simp: heap_ok_def heap_assign_def)
  have "heap_ordered lt ?n 0 (fst (heap_down cmp ?xs 0 ?n))"
    using assms n by (intro down_from_top [of ?n ?xs ?a]) (auto simp: heap_ok_def)
  then show "heap_ok lt (heap_replaceBest cmp v h)" using assms n by (auto simp: heap_ok_def heap_replaceBest_def)
  have "mset (take ?n ?xs) = add_mset v (mset (take ?n ?a) - {#?a ! 0#})"
    using assms(2) n by (simp add: take_update_swap mset_update)
  moreover have "?a ! 0 \<in># mset (take ?n ?a)"
    using nth_mem [of 0 "take ?n ?a"] assms(2) n by auto
  ultimately show "add_mset (?a ! 0) (heap_bag (heap_replaceBest cmp v h)) = add_mset v (heap_bag h)"
    using n by (simp add: heap_bag_def heap_replaceBest_def down_bag)
qed

lemma init_ok: "heap_ok lt (heap_init cmp xs)" "heap_bag (heap_init cmp xs) = mset xs"
  using heapify_orders [OF order_refl half_ordered, of xs]
  by (auto simp: heap_ok_def heap_init_def heap_bag_def)

lemma down_below: "k < i \<Longrightarrow> fst (heap_down cmp xs i l) ! k = xs ! k"
proof (induction "l - i" arbitrary: xs i rule: less_induct)
  case less
  let ?j = "best_child cmp xs i l"
  show ?case
  proof (cases "2 * i + 1 < l \<and> lt (xs ! ?j) (xs ! i)")
    case True
    then have "i < ?j" "l - ?j < l - i" using best_child_cases [of cmp xs i l] by auto
    then show ?thesis
      using less.hyps [of ?j "heap_swap xs i ?j"] less.prems down_step [OF True] by (simp add: heap_swap_def)
  qed (simp add: down_stop)
qed

lemma refresh_down_ok:
  "i \<le> l \<Longrightarrow> l \<le> length xs \<Longrightarrow> heap_ordered lt l i xs \<Longrightarrow>
   heap_ordered lt l 0 (refresh_down cmp f l i xs) \<and> length (refresh_down cmp f l i xs) = length xs \<and>
   mset (take l (refresh_down cmp f l i xs)) = image_mset f (mset (take i xs)) + mset (drop i (take l xs))"
proof (induction i arbitrary: xs)
  case (Suc i)
  let ?xs = "xs[i := f (xs ! i)]"
  let ?ys = "fst (heap_down cmp ?xs i l)"
  have "ordered_but lt l i (\<lambda>p c. p = i) ?xs"
    unfolding ordered_but_def
  proof (intro allI impI, elim conjE)
    fix c assume c: "0 < c" "c < l" "i \<le> heap_parent c" "heap_parent c \<noteq> i"
    then have "i < heap_parent c" "i < c" "below lt xs (heap_parent c) c"
      using Suc.prems(3) parent_less [OF c(1)] by (simp_all add: heap_ordered_def ordered_but_def)
    then show "below lt ?xs (heap_parent c) c" by (simp add: below_def)
  qed
  moreover have "bridged lt l i i ?xs" by (auto simp: bridged_def dest: parent_less)
  ultimately have "heap_ordered lt l i ?ys"
    using Suc.prems(2) by (intro down_orders) simp_all
  then have IH: "heap_ordered lt l 0 (refresh_down cmp f l i ?ys)" "length (refresh_down cmp f l i ?ys) = length xs"
    "mset (take l (refresh_down cmp f l i ?ys)) = image_mset f (mset (take i ?ys)) + mset (drop i (take l ?ys))"
    using Suc.IH [of ?ys] Suc.prems(1,2) by simp_all
  have first: "take i ?ys = take i xs"
    using Suc.prems(1,2) by (intro nth_take_lemma) (simp_all add: down_below)
  have split: "mset (take l zs) = mset (take i zs) + mset (drop i (take l zs))" for zs :: "'a list"
    using Suc.prems(1) append_take_drop_id [of i "take l zs"] by (metis Suc_leD min.absorb1 mset_append take_take)
  have "mset (take i ?ys) + mset (drop i (take l ?ys)) = mset (take i ?xs) + mset (drop i (take l ?xs))"
    using down_bag [of l ?xs i] Suc.prems(2) unfolding split [symmetric] by simp
  then have "mset (drop i (take l ?ys)) = mset (drop i (take l ?xs))" by (simp add: first)
  also have "drop i (take l ?xs) = f (xs ! i) # drop (Suc i) (take l xs)"
    using Suc.prems(1,2) Cons_nth_drop_Suc [of i "take l ?xs"] by (simp add: drop_update_cancel take_update_swap)
  finally show ?case
    using IH Suc.prems(1,2) by (simp add: first take_Suc_conv_app_nth)
qed simp

lemma refresh_ok:
  assumes "heap_ok lt h"
  shows "heap_ok lt (heap_refresh cmp f h)" "heap_bag (heap_refresh cmp f h) = image_mset f (heap_bag h)"
proof -
  let ?l = "hp_length h" and ?a = "hp_array h"
  let ?mid = "?l div 2"
  let ?xs = "take ?mid ?a @ map f (take (?l - ?mid) (drop ?mid ?a)) @ drop ?l ?a"
  have n: "?l \<le> length ?a" using assms by (simp add: heap_ok_def)
  then have len: "length ?xs = length ?a" "?mid \<le> ?l" "?mid \<le> length ?a" by auto
  then have parts: "take ?mid ?xs = take ?mid ?a" "drop ?mid (take ?l ?xs) = map f (take (?l - ?mid) (drop ?mid ?a))"
    using n by simp_all
  have ok: "heap_ordered lt ?l 0 (refresh_down cmp f ?l ?mid ?xs)" "length (refresh_down cmp f ?l ?mid ?xs) = length ?a"
    "mset (take ?l (refresh_down cmp f ?l ?mid ?xs)) =
      image_mset f (mset (take ?mid ?a)) + mset (map f (take (?l - ?mid) (drop ?mid ?a)))"
    using refresh_down_ok [OF len(2) _ half_ordered, of ?xs f] n len(1) unfolding parts by simp_all
  have "take ?l ?a = take ?mid ?a @ take (?l - ?mid) (drop ?mid ?a)"
    using take_add [of ?mid "?l - ?mid" ?a] len(2) by simp
  then show "heap_bag (heap_refresh cmp f h) = image_mset f (heap_bag h)"
    using ok(3) by (simp add: heap_bag_def heap_refresh_def Let_def)
  show "heap_ok lt (heap_refresh cmp f h)"
    using ok assms by (auto simp: heap_ok_def heap_refresh_def Let_def)
qed

text \<open>A heap with a new entry at \<open>i\<close>, in the first \<open>l\<close> of its places.\<close>

lemma changed_orders:
  assumes "heap_ordered lt n 0 ys" "l \<le> n" "l \<le> length xs" "i < l" "\<And>j. j < l \<Longrightarrow> j \<noteq> i \<Longrightarrow> xs ! j = ys ! j"
  shows "heap_ordered lt l 0 (fix_at cmp xs i l)"
proof (rule fix_orders [OF assms(3,4)])
  have edge: "\<not> lt (ys ! c) (ys ! heap_parent c)" if "0 < c" "c < l" for c
    using assms(1,2) that by (simp add: heap_ordered_def ordered_but_def below_def)
  show "ordered_but lt l 0 (\<lambda>p c. p = i \<or> c = i) xs"
    unfolding ordered_but_def
  proof (intro allI impI, elim conjE)
    fix c assume c: "0 < c" "c < l" "\<not> (heap_parent c = i \<or> c = i)"
    then show "below lt xs (heap_parent c) c"
      using edge [OF c(1,2)] assms(5) [of c] assms(5) [of "heap_parent c"] parent_less [OF c(1)] by (simp add: below_def)
  qed
  show "bridged lt l 0 i xs"
    unfolding bridged_def
  proof (intro allI impI, elim conjE)
    fix c assume c: "0 < c" "c < l" "heap_parent c = i" "0 < i"
    have "\<not> lt (ys ! c) (ys ! heap_parent i)"
      using weak edge [OF c(1,2)] edge [OF c(4) assms(4)] c(3) by blast
    then show "below lt xs (heap_parent i) c"
      using assms(4) assms(5) [of c] assms(5) [of "heap_parent i"] parent_less [OF c(1)] parent_less [OF c(4)] c(2,3)
      by (simp add: below_def)
  qed
qed

lemma replace_ok:
  assumes "heap_ok lt h" "i < hp_length h"
  shows "heap_ok lt (heap_replace cmp i v h)"
    "add_mset (hp_array h ! i) (heap_bag (heap_replace cmp i v h)) = add_mset v (heap_bag h)"
proof -
  let ?a = "hp_array h" and ?n = "hp_length h"
  have n: "?n \<le> length ?a" "heap_assign ?a i v = ?a[i := v]" using assms by (auto simp: heap_ok_def heap_assign_def)
  have "heap_ordered lt ?n 0 (fix_at cmp (?a[i := v]) i ?n)"
    using assms n by (intro changed_orders [of ?n ?a]) (auto simp: heap_ok_def)
  then show "heap_ok lt (heap_replace cmp i v h)"
    using assms n by (auto simp: heap_ok_def heap_replace_def heap_fix_def)
  have "?a ! i \<in># mset (take ?n ?a)" using nth_mem [of i "take ?n ?a"] assms(2) n by auto
  then show "add_mset (?a ! i) (heap_bag (heap_replace cmp i v h)) = add_mset v (heap_bag h)"
    using assms(2) n by (simp add: heap_bag_def heap_replace_def heap_fix_def fix_bag take_update_swap mset_update)
qed

lemma remove_ok:
  assumes "heap_ok lt h" "i < hp_length h" "1 < hp_length h"
  shows "heap_ok lt (heap_remove cmp i h)" "heap_bag h = add_mset (hp_array h ! i) (heap_bag (heap_remove cmp i h))"
proof -
  let ?a = "hp_array h" and ?n = "hp_length h - 1"
  let ?xs = "heap_swap ?a i ?n"
  have n: "Suc ?n = hp_length h" "?n < length ?a" "i < length ?a" using assms by (auto simp: heap_ok_def)
  have "heap_ordered lt ?n 0 ?a" using assms(1) by (auto simp: heap_ok_def heap_ordered_def ordered_but_def)
  moreover have "heap_ordered lt ?n 0 (fix_at cmp ?xs i ?n)" if "i \<noteq> ?n"
  proof (rule changed_orders [of "hp_length h" ?a])
    show "heap_ordered lt (hp_length h) 0 ?a" using assms(1) by (simp add: heap_ok_def)
    show "i < ?n" using that assms(2) by linarith
    show "?xs ! j = ?a ! j" if "j < ?n" "j \<noteq> i" for j using that n by (simp add: swap_nth)
  qed (use n in simp_all)
  ultimately show "heap_ok lt (heap_remove cmp i h)"
    using n assms(3) by (auto simp: heap_ok_def heap_remove_def Let_def)
  have all: "mset (take (hp_length h) ?a) = add_mset (?xs ! ?n) (mset (take ?n ?xs))"
    using take_Suc_conv_app_nth [of ?n ?xs] mset_take_swap [of i "hp_length h" ?n ?a] n assms(2) by simp
  show "heap_bag h = add_mset (?a ! i) (heap_bag (heap_remove cmp i h))"
  proof (cases "i = ?n")
    case True
    then show ?thesis using take_Suc_conv_app_nth [OF n(2)] n(1) by (simp add: heap_bag_def heap_remove_def Let_def)
  next
    case False
    then have "i < ?n" using assms(2) by linarith
    then show ?thesis using all False n by (simp add: heap_bag_def heap_remove_def Let_def fix_bag swap_nth)
  qed
qed

end

end
