(* ===== verification/Tx_Pool.thy ===== *)
theory Tx_Pool
  imports Heap "HOL-Library.AList"
begin

text \<open>
  \<open>ganache/src/chains/ethereum/ethereum/src/transaction-pool.ts\<close>: the pool of the transactions that wait to be
  mined, by sender: a heap of those that can be executed and a heap of those behind a gap in the nonces.
  A transaction is an object; \<open>gt_id\<close> is its identity, under which the pool's state holds the hash that signing sets.
  The balance and the nonce of the sender's account, which the source awaits, are arguments; from there to its
  end \<open>prepareTransaction\<close> runs without interruption.
\<close>

section \<open>Transactions\<close>

text \<open>The fees of EIP-1559, \<open>maxPriorityFeePerGas\<close> and \<open>maxFeePerGas\<close>, are there in transactions of that type only.\<close>

record gtx =
  gt_id :: nat
  gt_from :: bytes
  gt_nonce :: "int option"
  gt_gas :: int
  gt_value :: int
  gt_to :: "bytes option"
  gt_data :: bytes
  gt_gasPrice :: int
  gt_fees :: "(int \<times> int) option"
  gt_effectiveGasPrice :: "int option"
  gt_locked :: bool

definition type_error :: exn where
  "type_error = JsError ''TypeError''"

definition nonce_value :: "gtx \<Rightarrow> int" where
  "nonce_value t = (case gt_nonce t of Some n \<Rightarrow> n | None \<Rightarrow> 0)"

definition maxGasPrice :: "gtx \<Rightarrow> int" where
  "maxGasPrice t = (case gt_fees t of Some (maxPriorityFee, maxFee) \<Rightarrow> maxFee | None \<Rightarrow> gt_gasPrice t)"

definition updateEffectiveGasPrice :: "int \<Rightarrow> gtx \<Rightarrow> gtx" where
  "updateEffectiveGasPrice baseFeePerGas t =
     (case gt_fees t of
        None \<Rightarrow> t
      | Some (maxPriorityFeePerGas, maxFeePerGas) \<Rightarrow>
          (let a = maxFeePerGas - baseFeePerGas; tip = (if a < maxPriorityFeePerGas then a else maxPriorityFeePerGas)
           in t\<lparr>gt_effectiveGasPrice := Some (baseFeePerGas + tip)\<rparr>))"

section \<open>Intrinsic gas\<close>

definition TRANSACTION_DATA_NON_ZERO_GAS :: "string \<Rightarrow> int option" where
  "TRANSACTION_DATA_NON_ZERO_GAS = map_of [
     (''chainstart'', 68), (''homestead'', 68), (''dao'', 68), (''tangerineWhistle'', 68), (''spuriousDragon'', 68),
     (''byzantium'', 68), (''constantinople'', 68), (''petersburg'', 68), (''istanbul'', 16), (''muirGlacier'', 16),
     (''berlin'', 16), (''london'', 16), (''arrowGlacier'', 16), (''grayGlacier'', 16)]"

definition MAX_UINT64 :: int where
  "MAX_UINT64 = push_bit (64 - 1) 1"

text \<open>The fee of the bytes of one price, or -1 when it would exceed the bound.\<close>

definition data_gas :: "int \<Rightarrow> int \<Rightarrow> int \<Rightarrow> int" where
  "data_gas gas n price =
     (if bn_div (MAX_UINT64 - gas) price < n then -1 else gas + n * price)"

definition calculateIntrinsicGas :: "string \<Rightarrow> gtx \<Rightarrow> exn + int" where
  "calculateIntrinsicGas hardfork t =
     (let gas = 21000 + (if gt_to t = None then 32000 else 0); input = gt_data t;
          nonZeroBytes = int (length (filter (\<lambda>b. b \<noteq> 0) input));
          zeroBytes = int (length input) - nonZeroBytes
      in if input = [] then Inr gas
         else case TRANSACTION_DATA_NON_ZERO_GAS hardfork of
           None \<Rightarrow> Inl type_error
         | Some price \<Rightarrow>
             (let g = data_gas gas nonZeroBytes price
              in Inr (if g = -1 then -1 else data_gas g zeroBytes 4)))"

section \<open>The state\<close>

record pool =
  pl_pending :: "(bytes \<times> gtx heap) list"
  pl_origins :: "(bytes \<times> gtx heap) list"
  pl_inProgress :: "gtx list"
  pl_hash :: "nat \<Rightarrow> bytes option"
  pl_rejected :: "(gtx \<times> string) list"

record pool_cfg =
  pc_blockGasLimit :: int
  pc_priceBump :: int
  pc_hardfork :: string
  pc_isEIP1559 :: bool
  pc_baseFeePerGas :: int

datatype triage = FutureQueue | Executable | ReplacesPendingExecutable | ReplacesFutureTransaction

definition byNonce :: "gtx comparator" where
  "byNonce values a b \<longleftrightarrow> nonce_value (values ! b) > nonce_value (values ! a)"

definition tx_tip :: "gtx \<Rightarrow> exn + int" where
  "tx_tip t =
     (case gt_fees t of
        Some (maxPriorityFeePerGas, maxFeePerGas) \<Rightarrow> Inr maxPriorityFeePerGas
      | None \<Rightarrow> (case gt_effectiveGasPrice t of Some p \<Rightarrow> Inr p | None \<Rightarrow> Inl type_error))"

definition tx_maxFee :: "gtx \<Rightarrow> exn + int" where
  "tx_maxFee t =
     (case gt_fees t of
        Some (maxPriorityFeePerGas, maxFeePerGas) \<Rightarrow> Inr maxFeePerGas
      | None \<Rightarrow> (case gt_effectiveGasPrice t of Some p \<Rightarrow> Inr p | None \<Rightarrow> Inl type_error))"

definition premium :: "int \<Rightarrow> int \<Rightarrow> int" where
  "premium price priceBump = price + bn_div (price * priceBump) 100"

definition shouldReplace :: "gtx \<Rightarrow> int option \<Rightarrow> gtx \<Rightarrow> int \<Rightarrow> exn + bool" where
  "shouldReplace replacee replacerNonce replacer priceBump =
     (if replacerNonce \<noteq> Some (nonce_value replacee) then Inr False
      else if gt_locked replacee then Inl (JsError ''transaction can't be replaced, mining has already started'')
      else bindS (tx_tip replacer) (\<lambda>replacerTip.
           bindS (tx_maxFee replacer) (\<lambda>replacerMaxFee.
           bindS (tx_tip replacee) (\<lambda>replaceeTip.
           bindS (tx_maxFee replacee) (\<lambda>replaceeMaxFee.
             if replacerTip < premium replaceeTip priceBump \<or> replacerMaxFee < premium replaceeMaxFee priceBump
             then Inl (JsError ''transaction underpriced'') else Inr True)))))"

section \<open>Where a transaction goes\<close>

definition validateTransaction :: "pool_cfg \<Rightarrow> gtx \<Rightarrow> exn + unit" where
  "validateTransaction cfg t =
     (if gt_gas t > pc_blockGasLimit cfg then Inl (JsError ''exceeds block gas limit'')
      else bindS (calculateIntrinsicGas (pc_hardfork cfg) t) (\<lambda>gas.
        if gas = -1 \<or> gt_gas t < gas then Inl (JsError ''intrinsic gas too low'') else Inr ()))"

text \<open>
  The loop over the entries of a heap: the index of the one to replace, if any, and the highest nonce of
  those before it.
\<close>

fun scan_heap :: "int \<Rightarrow> gtx \<Rightarrow> gtx list \<Rightarrow> nat \<Rightarrow> int \<Rightarrow> exn + nat option \<times> int" where
  "scan_heap priceBump t [] i highestNonce = Inr (None, highestNonce)"
| "scan_heap priceBump t (x # xs) i highestNonce =
     bindS (shouldReplace x (gt_nonce t) t priceBump) (\<lambda>replace.
       if replace then Inr (Some i, highestNonce)
       else scan_heap priceBump t xs (i + 1)
         (if nonce_value x > highestNonce then nonce_value x else highestNonce))"

definition scan :: "pool_cfg \<Rightarrow> gtx \<Rightarrow> gtx heap \<Rightarrow> exn + nat option \<times> int" where
  "scan cfg t h = scan_heap (pc_priceBump cfg) t (take (hp_length h) (hp_array h)) 0 0"

definition set_entry :: "nat \<Rightarrow> gtx \<Rightarrow> gtx heap \<Rightarrow> gtx heap" where
  "set_entry i t h = h\<lparr>hp_array := (hp_array h)[i := t]\<rparr>"

definition reject :: "gtx \<Rightarrow> pool \<Rightarrow> pool" where
  "reject t p = p\<lparr>pl_rejected := pl_rejected p @ [(t, ''transaction replaced by better transaction'')]\<rparr>"

definition replace_pending :: "gtx \<Rightarrow> gtx heap \<Rightarrow> nat \<Rightarrow> pool \<Rightarrow> pool" where
  "replace_pending t h i p =
     reject (hp_array h ! i) (p\<lparr>pl_pending := AList.update (gt_from t) (set_entry i t h) (pl_pending p)\<rparr>)"

definition replace_queued :: "gtx \<Rightarrow> gtx heap \<Rightarrow> nat \<Rightarrow> pool \<Rightarrow> pool" where
  "replace_queued t h i p =
     reject (hp_array h ! i) (p\<lparr>pl_origins := AList.update (gt_from t) (set_entry i t h) (pl_origins p)\<rparr>)"

text \<open>The sender has executable transactions, \<open>h\<close>. The nonce is compared with the highest one also after a replacement.\<close>

definition place_after :: "pool_cfg \<Rightarrow> gtx \<Rightarrow> gtx heap \<Rightarrow> (pool, gtx \<times> triage) eff" where
  "place_after cfg t h =
     bnd (of_sum (scan cfg t h)) (\<lambda>(found, highestNonce).
     andthen (case found of Some i \<Rightarrow> modif (replace_pending t h i) | None \<Rightarrow> ret ())
       (case gt_nonce t of
          None \<Rightarrow> ret (t\<lparr>gt_nonce := Some (highestNonce + 1)\<rparr>, Executable)
        | Some n \<Rightarrow> ret (t, if n = highestNonce + 1 then Executable
            else if found \<noteq> None then ReplacesPendingExecutable else FutureQueue)))"

text \<open>The sender has none; the nonce is that of the account.\<close>

definition place_first :: "gtx \<Rightarrow> int \<Rightarrow> exn + gtx \<times> triage" where
  "place_first t transactorNonce =
     (case gt_nonce t of
        None \<Rightarrow> Inr (t\<lparr>gt_nonce := Some transactorNonce\<rparr>, Executable)
      | Some n \<Rightarrow>
          if n < transactorNonce then Inl (JsError ''the tx doesn't have the correct nonce'')
          else Inr (t, if n = transactorNonce then Executable else FutureQueue))"

definition place :: "pool_cfg \<Rightarrow> gtx \<Rightarrow> int \<Rightarrow> (pool, gtx \<times> triage) eff" where
  "place cfg t transactorNonce =
     bnd (gets (\<lambda>p. map_of (pl_pending p) (gt_from t))) (\<lambda>h.
       case h of
         Some h \<Rightarrow> if hp_length h \<noteq> 0 then place_after cfg t h else of_sum (place_first t transactorNonce)
       | None \<Rightarrow> of_sum (place_first t transactorNonce))"

text \<open>A transaction that is not executable may replace one in the queue of its sender.\<close>

definition place_queued :: "pool_cfg \<Rightarrow> gtx \<Rightarrow> triage \<Rightarrow> (pool, triage) eff" where
  "place_queued cfg t placement =
     bnd (gets (\<lambda>p. map_of (pl_origins p) (gt_from t))) (\<lambda>q.
       case q of
         None \<Rightarrow> ret placement
       | Some h \<Rightarrow>
           if placement \<noteq> Executable \<and> placement \<noteq> ReplacesPendingExecutable \<and> hp_length h \<noteq> 0
           then bnd (of_sum (scan cfg t h)) (\<lambda>(found, highestNonce).
             case found of
               Some i \<Rightarrow> andthen (modif (replace_queued t h i)) (ret ReplacesFutureTransaction)
             | None \<Rightarrow> ret placement)
           else ret placement)"

section \<open>Adding it\<close>

text \<open>
  Queued transactions that have become executable move to the pending heap. The queue is gone when it is empty.
\<close>

function drain_queue :: "gtx heap \<Rightarrow> gtx heap \<Rightarrow> int \<Rightarrow> exn + gtx heap \<times> gtx heap option" where
  "drain_queue pending queued nextExpectedNonce =
     (case heap_peek queued of
        None \<Rightarrow> Inl type_error
      | Some nextTx \<Rightarrow>
          if hp_length queued = 0 then Inl type_error
          else if nonce_value nextTx \<noteq> nextExpectedNonce then Inr (pending, Some queued)
          else
            (let pending' = heap_push byNonce nextTx pending;
                 (more', queued') = heap_removeBest byNonce queued
             in if \<not> more' then Inr (pending', None)
                else drain_queue pending' queued' (nextExpectedNonce + 1)))"
  by pat_completeness auto
termination
  by (relation "measure (\<lambda>(p, q, n). hp_length q)")
    (auto simp: heap_removeBest_def drop_best_def heap_clear_def Let_def split: if_splits)

declare drain_queue.simps [simp del]

definition add_executable :: "gtx \<Rightarrow> (pool, unit) eff" where
  "add_executable t =
     bnd (gets (\<lambda>p. map_of (pl_pending p) (gt_from t))) (\<lambda>h.
       let pending = (case h of Some h \<Rightarrow> heap_push byNonce t h | None \<Rightarrow> heap_from t)
       in andthen (modif (\<lambda>p. p\<lparr>pl_pending := AList.update (gt_from t) pending (pl_pending p)\<rparr>))
         (bnd (gets (\<lambda>p. map_of (pl_origins p) (gt_from t))) (\<lambda>q.
            case q of
              None \<Rightarrow> ret ()
            | Some queued \<Rightarrow>
                bnd (of_sum (drain_queue pending queued (nonce_value t + 1))) (\<lambda>(pending', queued').
                  modif (\<lambda>p. p\<lparr>
                    pl_pending := AList.update (gt_from t) pending' (pl_pending p),
                    pl_origins := (case queued' of
                        Some queued' \<Rightarrow> AList.update (gt_from t) queued' (pl_origins p)
                      | None \<Rightarrow> AList.delete (gt_from t) (pl_origins p))\<rparr>)))))"

definition add_future :: "gtx \<Rightarrow> pool \<Rightarrow> pool" where
  "add_future t p =
     (let queued = (case map_of (pl_origins p) (gt_from t) of
            Some h \<Rightarrow> heap_push byNonce t h | None \<Rightarrow> heap_from t)
      in p\<lparr>pl_origins := AList.update (gt_from t) queued (pl_origins p)\<rparr>)"

definition insert_tx :: "gtx \<Rightarrow> triage \<Rightarrow> (pool, bool) eff" where
  "insert_tx t placement =
     (case placement of
        Executable \<Rightarrow> andthen (add_executable t) (ret True)
      | FutureQueue \<Rightarrow> andthen (modif (add_future t)) (ret False)
      | ReplacesPendingExecutable \<Rightarrow> ret True
      | ReplacesFutureTransaction \<Rightarrow> ret False)"

text \<open>\<open>signAndHash\<close> with the secret key, when there is one: it throws, or gives the hash.\<close>

definition sign_tx :: "(gtx \<Rightarrow> exn + bytes) option \<Rightarrow> gtx \<Rightarrow> (pool, unit) eff" where
  "sign_tx signAndHash t =
     (case signAndHash of
        None \<Rightarrow> ret ()
      | Some f \<Rightarrow> bnd (of_sum (f t)) (\<lambda>h. modif (\<lambda>p. p\<lparr>pl_hash := (pl_hash p)(gt_id t := Some h)\<rparr>)))"

definition with_price :: "pool_cfg \<Rightarrow> gtx \<Rightarrow> gtx" where
  "with_price cfg t =
     (if gt_effectiveGasPrice t = None \<and> pc_isEIP1559 cfg
      then updateEffectiveGasPrice (pc_baseFeePerGas cfg) t else t)"

definition prepareTransaction ::
  "pool_cfg \<Rightarrow> (gtx \<Rightarrow> exn + bytes) option \<Rightarrow> int \<Rightarrow> int \<Rightarrow> gtx \<Rightarrow> (pool, bool) eff" where
  "prepareTransaction cfg signAndHash balance nonce transaction =
     andthen (of_sum (validateTransaction cfg transaction))
       (let t = with_price cfg transaction; cost = gt_gas t * maxGasPrice t + gt_value t
        in andthen (guard_eff (\<not> balance < cost) (JsError ''insufficient funds for gas * price + value''))
          (bnd (place cfg t nonce) (\<lambda>(t, placement).
           bnd (place_queued cfg t placement) (\<lambda>placement.
           andthen (sign_tx signAndHash t) (insert_tx t placement)))))"

section \<open>The other operations\<close>

definition pool_clear :: "pool \<Rightarrow> pool" where
  "pool_clear p = p\<lparr>pl_origins := [], pl_pending := []\<rparr>"

fun find_hash :: "(nat \<Rightarrow> bytes option) \<Rightarrow> bytes \<Rightarrow> gtx list \<Rightarrow> exn + gtx option" where
  "find_hash hashes transactionHash [] = Inr None"
| "find_hash hashes transactionHash (t # ts) =
     (case hashes (gt_id t) of
        None \<Rightarrow> Inl type_error
      | Some h \<Rightarrow> if h = transactionHash then Inr (Some t) else find_hash hashes transactionHash ts)"

definition heap_txs :: "(bytes \<times> gtx heap) list \<Rightarrow> gtx list" where
  "heap_txs hs = concat (map (\<lambda>(origin, h). take (hp_length h) (hp_array h)) hs)"

definition pool_find :: "pool \<Rightarrow> bytes \<Rightarrow> exn + gtx option" where
  "pool_find p transactionHash =
     find_hash (pl_hash p) transactionHash
       (heap_txs (pl_origins p) @ heap_txs (pl_pending p) @ pl_inProgress p)"

end
