(* ===== verification/Tx_Pool_Proofs.thy ===== *)
theory Tx_Pool_Proofs
  imports Heap_Order Tx_Pool
begin

text \<open>
  What the pool promises: its heaps are heaps by nonce, so the best transaction of a sender is the one with the
  lowest nonce, and a transaction that it takes joins the others of its sender, of which at most one is
  replaced, by a transaction that pays enough more.
\<close>

section \<open>The order of the heaps\<close>

definition by_nonce :: "gtx \<Rightarrow> gtx \<Rightarrow> bool" where
  "by_nonce x y \<longleftrightarrow> nonce_value y > nonce_value x"

interpretation nonces: priority by_nonce byNonce
  by unfold_locales (auto simp: byNonce_def by_nonce_def)

definition pool_ok :: "pool \<Rightarrow> bool" where
  "pool_ok p \<longleftrightarrow>
     (\<forall>a h. map_of (pl_pending p) a = Some h \<longrightarrow> heap_ok by_nonce h) \<and>
     (\<forall>a h. map_of (pl_origins p) a = Some h \<longrightarrow> heap_ok by_nonce h \<and> hp_length h \<noteq> 0)"

definition bag_of :: "(bytes \<times> gtx heap) list \<Rightarrow> bytes \<Rightarrow> gtx multiset" where
  "bag_of hs a = (case map_of hs a of Some h \<Rightarrow> heap_bag h | None \<Rightarrow> {#})"

definition waiting :: "pool \<Rightarrow> bytes \<Rightarrow> gtx multiset" where
  "waiting p a = bag_of (pl_pending p) a + bag_of (pl_origins p) a"

lemma bag_update [simp]:
  "bag_of (AList.update k h hs) a = (if a = k then heap_bag h else bag_of hs a)"
  "bag_of (AList.delete k hs) a = (if a = k then {#} else bag_of hs a)"
  by (simp_all add: bag_of_def update_conv delete_conv)

lemma set_entry_ok:
  assumes "heap_ok by_nonce h" "i < hp_length h" "nonce_value t = nonce_value (hp_array h ! i)"
  shows "heap_ok by_nonce (set_entry i t h)" "hp_length (set_entry i t h) = hp_length h"
    "add_mset (hp_array h ! i) (heap_bag (set_entry i t h)) = add_mset t (heap_bag h)"
    "t \<in># heap_bag (set_entry i t h)"
proof -
  let ?a = "hp_array h" and ?n = "hp_length h"
  have n: "?n \<le> length ?a" using assms(1) by (simp add: heap_ok_def)
  have "nonce_value (?a[i := t] ! j) = nonce_value (?a ! j)" for j
    using assms(2,3) n by (cases "i = j") auto
  then show "heap_ok by_nonce (set_entry i t h)" "hp_length (set_entry i t h) = ?n"
    using assms(1,2) by (auto simp: heap_ok_def set_entry_def heap_ordered_def ordered_but_def below_def by_nonce_def)
  have bag: "heap_bag (set_entry i t h) = add_mset t (heap_bag h - {#?a ! i#})"
    using assms(2) n by (simp add: heap_bag_def set_entry_def take_update_swap mset_update)
  have "?a ! i \<in># heap_bag h" using nth_mem [of i "take ?n ?a"] assms(2) n by (auto simp: heap_bag_def)
  then show "add_mset (?a ! i) (heap_bag (set_entry i t h)) = add_mset t (heap_bag h)" "t \<in># heap_bag (set_entry i t h)"
    by (simp_all add: bag)
qed

section \<open>Replacement\<close>

text \<open>\<open>t\<close> pays more than \<open>old\<close> by the price bump, both as a tip and at most, and \<open>old\<close> is not being mined.\<close>

definition outbids :: "pool_cfg \<Rightarrow> gtx \<Rightarrow> gtx \<Rightarrow> bool" where
  "outbids cfg t old \<longleftrightarrow> \<not> gt_locked old \<and> gt_nonce t = Some (nonce_value old) \<and>
     (\<exists>a b c d. tx_tip t = Inr a \<and> tx_maxFee t = Inr b \<and> tx_tip old = Inr c \<and> tx_maxFee old = Inr d \<and>
        premium c (pc_priceBump cfg) \<le> a \<and> premium d (pc_priceBump cfg) \<le> b)"

lemma shouldReplace_outbids: "shouldReplace old (gt_nonce t) t (pc_priceBump cfg) = Inr True \<Longrightarrow> outbids cfg t old"
  by (auto simp: shouldReplace_def outbids_def bindS_Inr_iff split: if_splits)

lemma scan_heap_found:
  "scan_heap (pc_priceBump cfg) t xs i m = Inr (Some j, m') \<Longrightarrow>
   i \<le> j \<and> j < i + length xs \<and> outbids cfg t (xs ! (j - i))"
proof (induction xs arbitrary: i m)
  case (Cons x xs)
  show ?case
  proof (cases "shouldReplace x (gt_nonce t) t (pc_priceBump cfg) = Inr True")
    case True
    then show ?thesis using Cons.prems shouldReplace_outbids by (auto simp: bindS_Inr_iff)
  next
    case False
    then obtain k where "scan_heap (pc_priceBump cfg) t xs (i + 1) k = Inr (Some j, m')"
      using Cons.prems by (auto simp: bindS_Inr_iff split: if_splits)
    then have "i + 1 \<le> j \<and> j < i + 1 + length xs \<and> outbids cfg t (xs ! (j - (i + 1)))" by (rule Cons.IH)
    then show ?thesis by (auto simp: nth_Cons' Suc_diff_Suc)
  qed
qed simp

lemma scan_found:
  assumes "scan cfg t h = Inr (Some i, m)" "heap_ok by_nonce h"
  shows "i < hp_length h" "outbids cfg t (hp_array h ! i)" "nonce_value t = nonce_value (hp_array h ! i)"
proof -
  show i: "i < hp_length h" and "outbids cfg t (hp_array h ! i)"
    using scan_heap_found [OF assms(1) [unfolded scan_def]] assms(2) by (auto simp: heap_ok_def)
  then show "nonce_value t = nonce_value (hp_array h ! i)" by (simp add: outbids_def nonce_value_def)
qed

section \<open>The queue\<close>

definition drained :: "gtx multiset \<Rightarrow> gtx multiset \<Rightarrow> gtx heap \<Rightarrow> gtx heap option \<Rightarrow> bool" where
  "drained pending queued p q \<longleftrightarrow> heap_ok by_nonce p \<and> pending \<subseteq># heap_bag p \<and>
     (case q of
        Some q \<Rightarrow> heap_ok by_nonce q \<and> hp_length q \<noteq> 0 \<and> heap_bag p + heap_bag q = pending + queued
      | None \<Rightarrow> heap_bag p = pending + queued)"

lemma drained_step: "drained (add_mset x pending) queued p q \<Longrightarrow> drained pending (add_mset x queued) p q"
  unfolding drained_def by (auto split: option.splits elim: subset_mset.order_trans [rotated])

lemma drain_ok:
  assumes "heap_ok by_nonce pending" "heap_ok by_nonce queued" "hp_length queued \<noteq> 0"
  shows "\<exists>p q. drain_queue pending queued n = Inr (p, q) \<and> drained (heap_bag pending) (heap_bag queued) p q"
  using assms
proof (induction pending queued n rule: drain_queue.induct)
  case (1 pending queued n)
  let ?x = "hp_array queued ! 0"
  have x: "heap_peek queued = Some ?x"
    using 1(3,4) by (cases "hp_array queued") (auto simp: heap_peek_def heap_ok_def)
  obtain rest q where r: "heap_removeBest byNonce queued = (rest, q)" by force
  note removed = nonces.removeBest_ok [OF 1(3) _ r]
  note pushed = nonces.push_ok [OF 1(2), of ?x]
  show ?case
  proof (cases "nonce_value ?x = n")
    case False
    then show ?thesis using 1(2-4) x by (subst drain_queue.simps) (simp add: drained_def)
  next
    case True
    show ?thesis
    proof (cases rest)
      case False
      then show ?thesis
        using True 1(4) x r pushed removed by (subst drain_queue.simps) (simp add: Let_def drained_def heap_bag_def)
    next
      case more: True
      have q: "hp_length q \<noteq> 0" using removed(3) more 1(4) by (auto simp: heap_bag_def)
      have step: "drain_queue pending queued n = drain_queue (heap_push byNonce ?x pending) q (n + 1)"
        using True 1(4) x r more by (subst drain_queue.simps) (simp add: Let_def)
      have "\<exists>p q'. drain_queue (heap_push byNonce ?x pending) q (n + 1) = Inr (p, q') \<and>
          drained (heap_bag (heap_push byNonce ?x pending)) (heap_bag q) p q'"
        using 1(1) [OF x _ _ refl r [symmetric] refl] 1(4) True more pushed(1) removed(1) q by simp
      then show ?thesis
        unfolding step pushed(2) using removed(2) 1(4) drained_step by (metis gr0I)
    qed
  qed
qed

section \<open>Taking a transaction\<close>

text \<open>The pool \<open>q\<close> is \<open>p\<close> with \<open>t\<close> in the place of \<open>old\<close>, or besides the others; \<open>ts\<close> is what came in.\<close>

definition joins :: "pool_cfg \<Rightarrow> gtx \<Rightarrow> gtx option \<Rightarrow> gtx multiset \<Rightarrow> pool \<Rightarrow> pool \<Rightarrow> bool" where
  "joins cfg t old ts p q \<longleftrightarrow> pool_ok q \<and> (\<forall>a. a \<noteq> gt_from t \<longrightarrow> waiting q a = waiting p a) \<and>
     (case old of
        None \<Rightarrow> waiting q (gt_from t) = waiting p (gt_from t) + ts \<and> pl_rejected q = pl_rejected p
      | Some x \<Rightarrow> waiting q (gt_from t) + {#x#} = waiting p (gt_from t) + ts \<and> outbids cfg t x \<and>
          pl_rejected q = pl_rejected p @ [(x, ''transaction replaced by better transaction'')])"

lemma joins_nothing: "pool_ok p \<Longrightarrow> joins cfg t None {#} p p"
  by (simp add: joins_def)

lemma replace_pending_ok:
  assumes "pool_ok p" "map_of (pl_pending p) (gt_from t) = Some h" "scan cfg t h = Inr (Some i, m)"
  shows "joins cfg t (Some (hp_array h ! i)) {#t#} p (replace_pending t h i p)"
    "t \<in># bag_of (pl_pending (replace_pending t h i p)) (gt_from t)"
proof -
  have h: "heap_ok by_nonce h" using assms(1,2) by (auto simp: pool_ok_def)
  note found = scan_found [OF assms(3) h]
  note entry = set_entry_ok [OF h found(1,3)]
  show "joins cfg t (Some (hp_array h ! i)) {#t#} p (replace_pending t h i p)"
    using assms(1,2) found(2) entry
    by (auto simp: joins_def replace_pending_def reject_def pool_ok_def update_conv waiting_def bag_of_def
        split: if_splits)
  show "t \<in># bag_of (pl_pending (replace_pending t h i p)) (gt_from t)"
    using entry(4) by (simp add: replace_pending_def reject_def)
qed

lemma replace_queued_ok:
  assumes "pool_ok p" "map_of (pl_origins p) (gt_from t) = Some h" "scan cfg t h = Inr (Some i, m)"
  shows "joins cfg t (Some (hp_array h ! i)) {#t#} p (replace_queued t h i p)"
    "t \<in># bag_of (pl_origins (replace_queued t h i p)) (gt_from t)"
proof -
  have h: "heap_ok by_nonce h" "hp_length h \<noteq> 0" using assms(1,2) by (auto simp: pool_ok_def)
  note found = scan_found [OF assms(3) h(1)]
  note entry = set_entry_ok [OF h(1) found(1,3)]
  show "joins cfg t (Some (hp_array h ! i)) {#t#} p (replace_queued t h i p)"
    using assms(1,2) found(2) entry h(2)
    by (auto simp: joins_def replace_queued_def reject_def pool_ok_def update_conv waiting_def bag_of_def
        split: if_splits)
  show "t \<in># bag_of (pl_origins (replace_queued t h i p)) (gt_from t)"
    using entry(4) by (simp add: replace_queued_def reject_def)
qed

lemma add_future_ok:
  assumes "pool_ok p"
  shows "joins cfg t None {#t#} p (add_future t p)" "t \<in># bag_of (pl_origins (add_future t p)) (gt_from t)"
proof -
  define h where "h = (case map_of (pl_origins p) (gt_from t) of Some h \<Rightarrow> heap_push byNonce t h | None \<Rightarrow> heap_from t)"
  have h: "heap_ok by_nonce h" "heap_bag h = add_mset t (bag_of (pl_origins p) (gt_from t))" "hp_length h \<noteq> 0"
    using assms nonces.push_ok nonces.from_ok [of t]
    by (auto simp: h_def pool_ok_def bag_of_def heap_push_def heap_from_def Let_def split: option.splits)
  have "add_future t p = p\<lparr>pl_origins := AList.update (gt_from t) h (pl_origins p)\<rparr>"
    by (simp add: add_future_def h_def)
  then show "joins cfg t None {#t#} p (add_future t p)" "t \<in># bag_of (pl_origins (add_future t p)) (gt_from t)"
    using assms h by (auto simp: joins_def pool_ok_def update_conv waiting_def split: if_splits)
qed

lemma add_executable_ok:
  assumes "pool_ok p"
  shows "\<exists>q. add_executable t p = (Inr (), q) \<and> joins cfg t None {#t#} p q \<and> t \<in># bag_of (pl_pending q) (gt_from t)"
proof -
  define h where "h = (case map_of (pl_pending p) (gt_from t) of Some h \<Rightarrow> heap_push byNonce t h | None \<Rightarrow> heap_from t)"
  have h: "heap_ok by_nonce h" "heap_bag h = add_mset t (bag_of (pl_pending p) (gt_from t))"
    using assms nonces.push_ok nonces.from_ok [of t] by (auto simp: h_def pool_ok_def bag_of_def split: option.splits)
  let ?p = "p\<lparr>pl_pending := AList.update (gt_from t) h (pl_pending p)\<rparr>"
  show ?thesis
  proof (cases "map_of (pl_origins p) (gt_from t)")
    case None
    then have "add_executable t p = (Inr (), ?p)" by (simp add: add_executable_def eff_defs h_def [symmetric] Let_def)
    moreover have "joins cfg t None {#t#} p ?p"
      using assms h by (auto simp: joins_def pool_ok_def update_conv waiting_def split: if_splits)
    ultimately show ?thesis using h(2) by auto
  next
    case (Some queued)
    then have queued: "heap_ok by_nonce queued" "hp_length queued \<noteq> 0" using assms by (auto simp: pool_ok_def)
    obtain h' q where d: "drain_queue h queued (nonce_value t + 1) = Inr (h', q)"
        "drained (heap_bag h) (heap_bag queued) h' q"
      using drain_ok [OF h(1) queued] by metis
    let ?q = "?p\<lparr>pl_pending := AList.update (gt_from t) h' (pl_pending ?p),
      pl_origins := (case q of Some q \<Rightarrow> AList.update (gt_from t) q (pl_origins p) | None \<Rightarrow> AList.delete (gt_from t) (pl_origins p))\<rparr>"
    have "add_executable t p = (Inr (), ?q)"
      using Some d(1) by (cases q) (simp_all add: add_executable_def eff_defs h_def [symmetric] Let_def)
    moreover have "joins cfg t None {#t#} p ?q"
      using assms d(2) Some h(2)
      by (cases q) (auto simp: drained_def joins_def pool_ok_def update_conv delete_conv waiting_def bag_of_def split: if_splits)
    moreover have "t \<in># heap_bag h'" using d(2) h(2) by (auto simp: drained_def dest: mset_subset_eqD)
    ultimately show ?thesis by auto
  qed
qed

section \<open>The whole operation\<close>

text \<open>What \<open>place\<close> makes of a transaction: its nonce, when it had none.\<close>

definition placed_as :: "gtx \<Rightarrow> gtx \<Rightarrow> bool" where
  "placed_as t t' \<longleftrightarrow> gt_nonce t' \<noteq> None \<and> (t' = t \<or> gt_nonce t = None \<and> (\<exists>n. t' = t\<lparr>gt_nonce := Some n\<rparr>))"

lemma placed_sender: "placed_as t t' \<Longrightarrow> gt_from t' = gt_from t"
  by (auto simp: placed_as_def)

lemma place_result:
  assumes "place cfg t n p = (r, q)" "pool_ok p"
  shows "case r of Inl e \<Rightarrow> q = p
    | Inr (t', placement) \<Rightarrow> placed_as t t' \<and>
        (q = p \<and> placement \<in> {Executable, FutureQueue} \<or>
         t' = t \<and> (\<exists>old. joins cfg t (Some old) {#t#} p q) \<and> t \<in># bag_of (pl_pending q) (gt_from t) \<and>
           placement \<in> {Executable, ReplacesPendingExecutable})"
proof (cases "\<exists>h. map_of (pl_pending p) (gt_from t) = Some h \<and> hp_length h \<noteq> 0")
  case False
  then have "place cfg t n p = (place_first t n, p)" by (auto simp: place_def eff_defs split: option.splits)
  then show ?thesis using assms(1) by (auto simp: place_first_def placed_as_def split: option.splits if_splits)
next
  case True
  then obtain h where h: "map_of (pl_pending p) (gt_from t) = Some h" "hp_length h \<noteq> 0" by blast
  then have run: "place_after cfg t h p = (r, q)" using assms(1) by (simp add: place_def eff_defs)
  show ?thesis
  proof (cases "scan cfg t h")
    case (Inl e)
    then show ?thesis using run by (auto simp: place_after_def eff_defs)
  next
    case (Inr res)
    then obtain found m where scan: "scan cfg t h = Inr (found, m)" by (cases res) simp
    show ?thesis
    proof (cases found)
      case None
      then show ?thesis
        using run scan by (auto simp: place_after_def eff_defs placed_as_def split: option.splits)
    next
      case (Some i)
      have nonce: "gt_nonce t = Some (nonce_value (hp_array h ! i))"
        using scan_found(2) scan assms(2) h(1) Some by (auto simp: pool_ok_def outbids_def)
      then show ?thesis
        using run scan Some replace_pending_ok [OF assms(2) h(1), of cfg i m]
        by (auto simp: place_after_def eff_defs placed_as_def)
    qed
  qed
qed

lemma place_queued_result:
  assumes "place_queued cfg t placement p = (r, q)" "pool_ok p"
  shows "case r of Inl e \<Rightarrow> q = p
    | Inr placement' \<Rightarrow> q = p \<and> placement' = placement \<or>
        placement \<notin> {Executable, ReplacesPendingExecutable} \<and> placement' = ReplacesFutureTransaction \<and>
        (\<exists>old. joins cfg t (Some old) {#t#} p q) \<and> t \<in># bag_of (pl_origins q) (gt_from t)"
proof (cases "map_of (pl_origins p) (gt_from t)")
  case None
  then show ?thesis using assms(1) by (auto simp: place_queued_def eff_defs)
next
  case (Some h)
  then show ?thesis
    using assms replace_queued_ok [OF assms(2) Some]
    by (fastforce simp: place_queued_def eff_defs split: if_splits sum.splits prod.splits option.splits)
qed

lemma sign_result:
  "sign_tx f t p = (r, q) \<Longrightarrow> (\<exists>g. q = p\<lparr>pl_hash := g\<rparr>)"
  by (cases "p") (auto simp: sign_tx_def eff_defs split: option.splits sum.splits)

lemma hash_irrelevant:
  "pool_ok (p\<lparr>pl_hash := g\<rparr>) = pool_ok p" "waiting (p\<lparr>pl_hash := g\<rparr>) a = waiting p a"
  "joins cfg t old ts p (q\<lparr>pl_hash := g\<rparr>) = joins cfg t old ts p q"
  by (simp_all add: pool_ok_def waiting_def joins_def split: option.split)

lemma joins_trans:
  assumes "joins cfg t old ts p q" "joins cfg t None us q r"
  shows "joins cfg t old (ts + us) p r"
  using assms by (auto simp: joins_def ac_simps split: option.splits)

lemma insert_result:
  assumes "pool_ok p"
  shows "\<exists>q. insert_tx t placement p = (Inr (placement \<in> {Executable, ReplacesPendingExecutable}), q) \<and>
    joins cfg t None (if placement \<in> {Executable, FutureQueue} then {#t#} else {#}) p q \<and>
    (placement = Executable \<longrightarrow> t \<in># bag_of (pl_pending q) (gt_from t)) \<and>
    (placement = FutureQueue \<longrightarrow> t \<in># bag_of (pl_origins q) (gt_from t)) \<and>
    (placement \<notin> {Executable, FutureQueue} \<longrightarrow> q = p)"
proof (cases placement)
  case Executable
  then show ?thesis
    using add_executable_ok [OF assms, of t] by (auto simp: insert_tx_def eff_defs joins_def)
qed (use add_future_ok [OF assms] joins_nothing [OF assms, of cfg t] in \<open>auto simp: insert_tx_def eff_defs joins_def\<close>)

text \<open>The transaction and the pool before it is signed and inserted.\<close>

lemma placements:
  assumes "place cfg t n p = (Inr (t', a), p1)" "place_queued cfg t' a p1 = (Inr b, q)" "pool_ok p"
  shows "placed_as t t'"
    "q = p \<and> b \<in> {Executable, FutureQueue} \<or>
     (\<exists>old. joins cfg t' (Some old) {#t'#} p q) \<and>
       (b \<in> {Executable, ReplacesPendingExecutable} \<and> t' \<in># bag_of (pl_pending q) (gt_from t') \<or>
        b = ReplacesFutureTransaction \<and> t' \<in># bag_of (pl_origins q) (gt_from t'))"
proof -
  note first = place_result [OF assms(1,3), simplified]
  then show "placed_as t t'" by blast
  have "pool_ok p1" using first assms(3) by (auto simp: joins_def)
  note second = place_queued_result [OF assms(2) this, simplified]
  from first second show "q = p \<and> b \<in> {Executable, FutureQueue} \<or>
     (\<exists>old. joins cfg t' (Some old) {#t'#} p q) \<and>
       (b \<in> {Executable, ReplacesPendingExecutable} \<and> t' \<in># bag_of (pl_pending q) (gt_from t') \<or>
        b = ReplacesFutureTransaction \<and> t' \<in># bag_of (pl_origins q) (gt_from t'))"
    by (cases a) auto
qed

text \<open>From the placement to the insertion: the transaction joins those that wait, in place of one that it outbids if there is one.\<close>

lemma inserted_joins:
  assumes "place cfg t0 nonce p = (Inr (t, a), p1)" "place_queued cfg t a p1 = (Inr b, p2)" "pool_ok p"
    and inserted: "insert_tx t b (p2\<lparr>pl_hash := g\<rparr>) = (Inr executable, q)"
  shows "\<exists>old. placed_as t0 t \<and> t \<in># bag_of (if executable then pl_pending q else pl_origins q) (gt_from t) \<and>
    (joins cfg t old {#t#} p q \<or> executable \<and> old \<noteq> None \<and> joins cfg t old {#t, t#} p q)"
proof -
  let ?p = "p2\<lparr>pl_hash := g\<rparr>"
  note places = placements [OF assms(1,2,3)]
  have "pool_ok ?p" using places(2) assms(3) by (auto simp: joins_def hash_irrelevant)
  from insert_result [OF this] inserted
  have fourth: "executable \<longleftrightarrow> b \<in> {Executable, ReplacesPendingExecutable}"
      "joins cfg t None (if b \<in> {Executable, FutureQueue} then {#t#} else {#}) ?p q"
      "b = Executable \<longrightarrow> t \<in># bag_of (pl_pending q) (gt_from t)"
      "b = FutureQueue \<longrightarrow> t \<in># bag_of (pl_origins q) (gt_from t)"
      "b \<notin> {Executable, FutureQueue} \<longrightarrow> q = ?p"
    by (metis Pair_inject sum.inject(2))+
  from places(2) show ?thesis
  proof
    assume same: "p2 = p \<and> b \<in> {Executable, FutureQueue}"
    then have "joins cfg t None {#t#} p q" using fourth(2) by (simp add: joins_def waiting_def)
    then show ?thesis using same fourth(1,3,4) places(1) by auto
  next
    assume replaced: "(\<exists>old. joins cfg t (Some old) {#t#} p p2) \<and>
      (b \<in> {Executable, ReplacesPendingExecutable} \<and> t \<in># bag_of (pl_pending p2) (gt_from t) \<or>
       b = ReplacesFutureTransaction \<and> t \<in># bag_of (pl_origins p2) (gt_from t))"
    then obtain old where "joins cfg t (Some old) {#t#} p ?p" by (auto simp: hash_irrelevant)
    from joins_trans [OF this fourth(2)]
    have "joins cfg t (Some old) ({#t#} + (if b \<in> {Executable, FutureQueue} then {#t#} else {#})) p q" .
    then show ?thesis using replaced fourth(1,3,5) places(1) by (auto split: if_splits)
  qed
qed

text \<open>C7. The pool takes a transaction: it joins the waiting transactions of its sender, among the executable ones
  when the pool says so and behind a gap otherwise, with its nonce filled in when it had none. All others stay, but for at
  most one of the same sender and nonce, not being mined, which the new one outbids by the price bump and which is
  rejected (the new one may then be in the heap twice). Whatever happens, also when the pool refuses it, the heaps stay ordered by
  nonce, no queue is empty and other senders are not affected.\<close>

theorem pool_takes_transaction:
  assumes "pool_ok p"
  shows "case prepareTransaction cfg signAndHash balance nonce tx p of
      (Inl e, q) \<Rightarrow> pool_ok q \<and> (\<forall>a. a \<noteq> gt_from tx \<longrightarrow> waiting q a = waiting p a)
    | (Inr executable, q) \<Rightarrow> \<exists>t old. placed_as (with_price cfg tx) t \<and>
        t \<in># bag_of (if executable then pl_pending q else pl_origins q) (gt_from tx) \<and>
        (joins cfg t old {#t#} p q \<or> executable \<and> old \<noteq> None \<and> joins cfg t old {#t, t#} p q)"
proof -
  let ?t = "with_price cfg tx"
  have sender: "gt_from ?t = gt_from tx" by (simp add: with_price_def updateEffectiveGasPrice_def Let_def split: option.split)
  show ?thesis
  proof (cases "validateTransaction cfg tx = Inr () \<and> \<not> balance < gt_gas ?t * maxGasPrice ?t + gt_value ?t")
    case False
    then have "\<exists>e. prepareTransaction cfg signAndHash balance nonce tx p = (Inl e, p)"
      by (cases "validateTransaction cfg tx") (auto simp: prepareTransaction_def eff_defs)
    then show ?thesis using assms by auto
  next
    case True
    then have run: "prepareTransaction cfg signAndHash balance nonce tx p =
        bnd (place cfg ?t nonce) (\<lambda>(t, placement). bnd (place_queued cfg t placement) (\<lambda>placement.
          andthen (sign_tx signAndHash t) (insert_tx t placement))) p"
      by (simp add: prepareTransaction_def andthen_def bnd_def of_sum_def guard_eff_def ret_def Let_def)
    obtain r1 p1 where first: "place cfg ?t nonce p = (r1, p1)" by force
    show ?thesis
    proof (cases r1)
      case (Inl e)
      then show ?thesis
        using first place_result [OF first assms] assms unfolding run by (simp add: bnd_def)
    next
      case (Inr x)
      then obtain t a where one: "place cfg ?t nonce p = (Inr (t, a), p1)" using first by (cases x) simp
      have p1: "pool_ok p1" "\<forall>a. a \<noteq> gt_from tx \<longrightarrow> waiting p1 a = waiting p a" "gt_from t = gt_from tx"
        using place_result [OF one assms] assms placed_sender sender by (auto simp: joins_def)
      obtain r2 p2 where second: "place_queued cfg t a p1 = (r2, p2)" by force
      show ?thesis
      proof (cases r2)
        case (Inl e)
        then show ?thesis
          using one second place_queued_result [OF second p1(1)] p1 unfolding run by (simp add: bnd_def)
      next
        case (Inr b)
        have p2: "pool_ok p2" "\<forall>a. a \<noteq> gt_from tx \<longrightarrow> waiting p2 a = waiting p a"
          using placements(2) [OF one second [unfolded Inr] assms] assms p1(3) by (auto simp: joins_def)
        obtain r3 p3 g where third: "sign_tx signAndHash t p2 = (r3, p3)" "p3 = p2\<lparr>pl_hash := g\<rparr>"
          using sign_result by (metis prod.exhaust)
        have p3: "pool_ok p3" "\<forall>a. a \<noteq> gt_from tx \<longrightarrow> waiting p3 a = waiting p a"
          using p2 by (simp_all add: third(2) hash_irrelevant)
        show ?thesis
        proof (cases r3)
          case (Inl e)
          then show ?thesis using one second \<open>r2 = Inr b\<close> third p3 unfolding run by (simp add: bnd_def andthen_def)
        next
          case (Inr u)
          obtain executable q where fourth: "insert_tx t b p3 = (Inr executable, q)"
            using insert_result [OF p3(1)] by metis
          have out: "prepareTransaction cfg signAndHash balance nonce tx p = (Inr executable, q)"
            using one second \<open>r2 = Inr b\<close> third(1) Inr fourth unfolding run by (simp add: bnd_def andthen_def)
          show ?thesis
            using inserted_joins [OF one second [unfolded \<open>r2 = Inr b\<close>] assms fourth [unfolded third(2)]]
            unfolding out p1(3) prod.case sum.case by blast
        qed
      qed
    qed
  qed
qed

section \<open>A pool with two executable transactions\<close>

definition some_tx :: "nat \<Rightarrow> int \<Rightarrow> int \<Rightarrow> gtx" where
  "some_tx ident nonce price = \<lparr>gt_id = ident, gt_from = [1], gt_nonce = Some nonce, gt_gas = 21000, gt_value = 0,
     gt_to = Some [2], gt_data = [], gt_gasPrice = price, gt_fees = None, gt_effectiveGasPrice = Some price,
     gt_locked = False\<rparr>"

definition some_pool :: pool where
  "some_pool = \<lparr>pl_pending = [([1], \<lparr>hp_array = [some_tx 0 0 50, some_tx 1 1 50], hp_length = 2\<rparr>)], pl_origins = [],
     pl_inProgress = [], pl_hash = Map.empty, pl_rejected = []\<rparr>"

definition some_cfg :: pool_cfg where
  "some_cfg = \<lparr>pc_blockGasLimit = 30000000, pc_priceBump = 10, pc_hardfork = ''london'', pc_isEIP1559 = True,
     pc_baseFeePerGas = 7\<rparr>"

lemma some_pool_ok: "pool_ok some_pool"
proof -
  have "heap_ok by_nonce \<lparr>hp_array = [some_tx 0 0 50, some_tx 1 1 50], hp_length = 2\<rparr>"
    by (auto simp: heap_ok_def heap_ordered_def ordered_but_def below_def by_nonce_def nonce_value_def some_tx_def less_2_cases_iff
        heap_parent_def)
  then show ?thesis by (auto simp: pool_ok_def some_pool_def split: if_splits)
qed

text \<open>A transaction that replaces the second of them is added to the heap as well.\<close>

lemma replacement_twice:
  "prepareTransaction some_cfg None 5000000 0 (some_tx 2 1 55) some_pool =
     (Inr True, some_pool\<lparr>
        pl_pending := [([1], \<lparr>hp_array = [some_tx 0 0 50, some_tx 2 1 55, some_tx 2 1 55], hp_length = 3\<rparr>)],
        pl_rejected := [(some_tx 1 1 50, ''transaction replaced by better transaction'')]\<rparr>)"
  by (simp add: prepareTransaction_def eff_defs validateTransaction_def calculateIntrinsicGas_def some_cfg_def some_tx_def
      some_pool_def with_price_def maxGasPrice_def place_def place_after_def scan_def shouldReplace_def nonce_value_def
      tx_tip_def tx_maxFee_def premium_def bn_div_def replace_pending_def reject_def set_entry_def place_queued_def
      sign_tx_def insert_tx_def add_executable_def heap_push_def heap_assign_def Let_def heap_up.simps heap_parent_def
      byNonce_def numeral_2_eq_2 numeral_3_eq_3)

theorem pool_takes_transaction_witness:
  "\<exists>t old. placed_as (some_tx 2 1 55) t \<and> t \<in># bag_of (pl_pending (snd (prepareTransaction some_cfg None 5000000 0 (some_tx 2 1 55) some_pool))) [1] \<and>
     (joins some_cfg t old {#t#} some_pool (snd (prepareTransaction some_cfg None 5000000 0 (some_tx 2 1 55) some_pool)) \<or>
      old \<noteq> None \<and> joins some_cfg t old {#t, t#} some_pool (snd (prepareTransaction some_cfg None 5000000 0 (some_tx 2 1 55) some_pool)))"
proof -
  have "with_price some_cfg (some_tx 2 1 55) = some_tx 2 1 55" "gt_from (some_tx 2 1 55) = [1]"
    by (simp_all add: with_price_def some_tx_def)
  then show ?thesis
    using pool_takes_transaction [OF some_pool_ok, where cfg = some_cfg and signAndHash = None and
        balance = 5000000 and nonce = 0 and tx = "some_tx 2 1 55"]
    unfolding replacement_twice by simp
qed

section \<open>The heap as a queue\<close>

text \<open>C9. The heap of a sender is a priority queue by nonce: making it of an array and pushing keep the order and the elements;
  shift and removeBest take out a transaction with the lowest nonce and leave the others; replacing an entry
  exchanges just that one; refreshing changes every entry.\<close>

theorem heap_is_priority_queue:
  assumes "heap_ok by_nonce h" "i < hp_length h"
  shows "heap_ok by_nonce (heap_init byNonce xs) \<and> heap_bag (heap_init byNonce xs) = mset xs \<and>
     heap_ok by_nonce (heap_push byNonce x h) \<and> heap_bag (heap_push byNonce x h) = add_mset x (heap_bag h) \<and>
     (\<exists>y h'. heap_shift byNonce h = (Some y, h') \<and> heap_peek h = Some y \<and> heap_ok by_nonce h' \<and>
        heap_bag h = add_mset y (heap_bag h') \<and> (\<forall>z \<in># heap_bag h. nonce_value y \<le> nonce_value z) \<and>
        heap_removeBest byNonce h = (heap_bag h' \<noteq> {#}, h')) \<and>
     heap_ok by_nonce (heap_replace byNonce i x h) \<and>
     add_mset (hp_array h ! i) (heap_bag (heap_replace byNonce i x h)) = add_mset x (heap_bag h) \<and>
     heap_ok by_nonce (heap_refresh byNonce f h) \<and> heap_bag (heap_refresh byNonce f h) = image_mset f (heap_bag h)"
proof -
  have "\<exists>y h'. heap_shift byNonce h = (Some y, h') \<and> heap_peek h = Some y \<and> heap_ok by_nonce h' \<and>
      heap_bag h = add_mset y (heap_bag h') \<and> (\<forall>z \<in># heap_bag h. nonce_value y \<le> nonce_value z) \<and>
      heap_removeBest byNonce h = (heap_bag h' \<noteq> {#}, h')"
  proof -
    obtain r h' where shift: "heap_shift byNonce h = (r, h')" by force
    obtain rest h'' where best: "heap_removeBest byNonce h = (rest, h'')" by force
    have "hp_array h ! 0 \<in># heap_bag h" if "heap_bag h = add_mset (hp_array h ! 0) b" for b using that by simp
    then obtain y where y: "heap_peek h = Some y" "y = hp_array h ! 0" "\<forall>z \<in># heap_bag h. \<not> by_nonce z y"
      using nonces.peek_best [OF assms(1)] nonces.removeBest_ok(2) [OF assms(1) _ best] assms(2)
      by (cases "heap_peek h") auto
    have same: "h'' = h'" using shift best assms(2) by (auto simp: heap_shift_def heap_removeBest_def split: if_splits)
    show ?thesis
      using shift best y nonces.shift_ok [OF assms(1) shift] nonces.removeBest_ok(3) [OF assms(1) _ best] assms(2)
      unfolding same by (auto simp: by_nonce_def not_less)
  qed
  then show ?thesis
    using nonces.init_ok nonces.push_ok [OF assms(1)] nonces.replace_ok [OF assms] nonces.refresh_ok [OF assms(1)] by simp
qed

theorem heap_is_priority_queue_witness:
  "\<exists>y h'. heap_shift byNonce \<lparr>hp_array = [some_tx 0 0 50, some_tx 1 1 50], hp_length = 2\<rparr> = (Some y, h') \<and>
     nonce_value y \<le> 0"
proof -
  let ?h = "\<lparr>hp_array = [some_tx 0 0 50, some_tx 1 1 50], hp_length = 2\<rparr>"
  have ok: "heap_ok by_nonce ?h" "1 < hp_length ?h" using some_pool_ok by (simp_all add: pool_ok_def some_pool_def)
  have "some_tx 0 0 50 \<in># heap_bag ?h" "nonce_value (some_tx 0 0 50) = 0"
    by (simp_all add: heap_bag_def nonce_value_def some_tx_def)
  then show ?thesis using heap_is_priority_queue [OF ok] by metis
qed

end
