(* ===== verification/Ethash.thy ===== *)
theory Ethash
  imports Block Blake2
begin

text \<open>
  \<open>packages/ethash/src\<close>: the proof of work. \<open>util.ts\<close> has the sizes of an epoch, its seed and the mixing of words;
  \<open>index.ts\<close> the cache, the hash of a header with its nonce, the database of caches, the check of a header or
  block, and the miner. The parameters of \<open>util.ts\<close> can be changed and are an argument, as are keccak-512, the test for
  primes of the package \<open>miller-rabin\<close> and the package \<open>buffer-xor\<close>. Indices and sizes are natural numbers, the parameters are positive.
  A loop that need not end returns \<open>None\<close> then. While the miner waits, nobody else uses its Ethash object.
\<close>

unbundle bit_operations_syntax

section \<open>Parameters\<close>

record ethash_params =
  DATASET_BYTES_INIT :: int
  DATASET_BYTES_GROWTH :: int
  CACHE_BYTES_INIT :: int
  CACHE_BYTES_GROWTH :: int
  EPOCH_LENGTH :: nat
  MIX_BYTES :: nat
  HASH_BYTES :: nat
  DATASET_PARENTS :: nat
  CACHE_ROUNDS :: nat
  ACCESSES :: nat
  WORD_BYTES :: nat

definition ethash_defaults :: ethash_params where
  "ethash_defaults = \<lparr>DATASET_BYTES_INIT = 1073741824, DATASET_BYTES_GROWTH = 8388608,
     CACHE_BYTES_INIT = 16777216, CACHE_BYTES_GROWTH = 131072, EPOCH_LENGTH = 30000, MIX_BYTES = 128,
     HASH_BYTES = 64, DATASET_PARENTS = 256, CACHE_ROUNDS = 3, ACCESSES = 64, WORD_BYTES = 4\<rparr>"

record ethash_cfg =
  ec_params :: ethash_params
  ec_block :: block_cfg
  ec_keccak512 :: "bytes \<Rightarrow> bytes"
  ec_isPrime :: "int \<Rightarrow> bool"
  ec_xor :: "bytes \<Rightarrow> bytes \<Rightarrow> bytes"

definition ec_keccak256 :: "ethash_cfg \<Rightarrow> bytes \<Rightarrow> bytes" where
  "ec_keccak256 cfg = txc_keccak256 (bc_tx (ec_block cfg))"

section \<open>Sizes and epochs\<close>

text \<open>The loop of both sizes: \<open>sz\<close> goes down until it is a prime number of units.\<close>

partial_function (option) size_loop :: "(int \<Rightarrow> bool) \<Rightarrow> int \<Rightarrow> int \<Rightarrow> int option" where
  "size_loop prime_test unit_bytes sz =
     (if prime_test (bn_div sz unit_bytes) then Some sz
      else size_loop prime_test unit_bytes (sz - 2 * unit_bytes))"

definition getCacheSize :: "ethash_cfg \<Rightarrow> nat \<Rightarrow> int option" where
  "getCacheSize cfg epoc =
     (let p = ec_params cfg; sz = CACHE_BYTES_INIT p + CACHE_BYTES_GROWTH p * int epoc
      in size_loop (ec_isPrime cfg) (int (HASH_BYTES p)) (sz - int (HASH_BYTES p)))"

definition getFullSize :: "ethash_cfg \<Rightarrow> nat \<Rightarrow> int option" where
  "getFullSize cfg epoc =
     (let p = ec_params cfg; sz = DATASET_BYTES_INIT p + DATASET_BYTES_GROWTH p * int epoc
      in size_loop (ec_isPrime cfg) (int (MIX_BYTES p)) (sz - int (MIX_BYTES p)))"

definition getEpoc :: "ethash_cfg \<Rightarrow> nat \<Rightarrow> nat" where
  "getEpoc cfg blockNumber = blockNumber div EPOCH_LENGTH (ec_params cfg)"

text \<open>
  A Buffer, or what the database makes of one: it stores its entries as JSON, and an entry that is read has plain
  objects with the bytes in place of Buffers. The hash functions accept Buffers only.
\<close>

datatype js_buffer = Buf bytes | Parsed bytes

definition keccak256_js :: "ethash_cfg \<Rightarrow> js_buffer \<Rightarrow> exn + bytes" where
  "keccak256_js cfg b =
     (case b of Buf x \<Rightarrow> Inr (ec_keccak256 cfg x)
      | Parsed x \<Rightarrow> Inl (JsError ''This method only supports Buffer''))"

definition keccak512_js :: "ethash_cfg \<Rightarrow> js_buffer \<Rightarrow> exn + bytes" where
  "keccak512_js cfg b =
     (case b of Buf x \<Rightarrow> Inr (ec_keccak512 cfg x)
      | Parsed x \<Rightarrow> Inl (JsError ''This method only supports Buffer''))"

function getSeed :: "ethash_cfg \<Rightarrow> js_buffer \<Rightarrow> nat \<Rightarrow> nat \<Rightarrow> exn + js_buffer" where
  "getSeed cfg seed i e =
     (if i < e then bindS (keccak256_js cfg seed) (\<lambda>s. getSeed cfg (Buf s) (i + 1) e) else Inr seed)"
  by pat_completeness auto
termination by (relation "measure (\<lambda>(cfg, seed, i, e). e - i)") auto

declare getSeed.simps [simp del]

section \<open>Words\<close>

text \<open>The bitwise operators of JavaScript give signed 32-bit numbers; \<open>x | 0\<close> is \<open>to_int32 x\<close>.\<close>

definition to_int32 :: "int \<Rightarrow> int" where
  "to_int32 x = sint (word_of_int x :: 32 word)"

definition js_xor :: "int \<Rightarrow> int \<Rightarrow> int" where
  "js_xor x y = sint ((word_of_int x :: 32 word) XOR word_of_int y)"

definition fnv :: "int \<Rightarrow> int \<Rightarrow> int" where
  "fnv x y =
     uint (word_of_int (js_xor (to_int32 (x * 0x01000000) + to_int32 (x * 0x193)) y) :: 32 word)"

definition read_u32 :: "bytes \<Rightarrow> nat \<Rightarrow> exn + int" where
  "read_u32 b i =
     (if i + 4 \<le> length b then Inr (uint (readUInt32LE b i)) else Inl (JsError ''ERR_OUT_OF_RANGE''))"

definition write_u32 :: "int \<Rightarrow> bytes" where
  "write_u32 x = writeUInt32LE (word_of_int x)"

definition fnvBuffer :: "bytes \<Rightarrow> bytes \<Rightarrow> exn + bytes" where
  "fnvBuffer a b =
     bindS (map_exn (\<lambda>k. bindS (read_u32 a (4 * k)) (\<lambda>x. bindS (read_u32 b (4 * k)) (\<lambda>y.
              Inr (write_u32 (fnv x y))))) [0..<(length a + 3) div 4]) (\<lambda>words. Inr (concat words))"

definition bufReverse :: "bytes \<Rightarrow> bytes" where
  "bufReverse a = map (\<lambda>i. a ! (length a - i - 1)) [0..<length a]"

section \<open>The cache\<close>

fun hash_chain :: "ethash_cfg \<Rightarrow> nat \<Rightarrow> bytes list \<Rightarrow> bytes list" where
  "hash_chain cfg 0 o' = o'"
| "hash_chain cfg (Suc k) o' = hash_chain cfg k (o' @ [ec_keccak512 cfg (last o')])"

definition cache_step :: "ethash_cfg \<Rightarrow> nat \<Rightarrow> bytes list \<Rightarrow> nat \<Rightarrow> exn + bytes list" where
  "cache_step cfg n o' i =
     bindS (read_u32 (o' ! i) 0) (\<lambda>w.
       let v = nat w mod n
       in Inr (o'[i := ec_keccak512 cfg (ec_xor cfg (o' ! ((i + n - 1) mod n)) (o' ! v))]))"

fun fold_exn :: "('a \<Rightarrow> 'b \<Rightarrow> exn + 'a) \<Rightarrow> 'a \<Rightarrow> 'b list \<Rightarrow> exn + 'a" where
  "fold_exn f a [] = Inr a"
| "fold_exn f a (x # xs) = bindS (f a x) (\<lambda>a'. fold_exn f a' xs)"

definition mkcache :: "ethash_cfg \<Rightarrow> int \<Rightarrow> js_buffer \<Rightarrow> exn + bytes list" where
  "mkcache cfg cacheSize seed =
     (let p = ec_params cfg; n = nat (cacheSize div int (HASH_BYTES p))
      in bindS (keccak512_js cfg seed) (\<lambda>first.
         fold_exn (\<lambda>o' _. fold_exn (cache_step cfg n) o' [0..<n])
           (hash_chain cfg (n - 1) [first]) [0..<CACHE_ROUNDS p]))"

section \<open>The hash of a header\<close>

definition mix_parent :: "bytes list \<Rightarrow> nat \<Rightarrow> nat \<Rightarrow> bytes \<Rightarrow> nat \<Rightarrow> exn + bytes" where
  "mix_parent cache i r mix j =
     bindS (read_u32 mix (j mod r * 4)) (\<lambda>w.
       let cacheIndex = fnv (js_xor (int i) (int j)) w
       in fnvBuffer mix (cache ! (nat cacheIndex mod length cache)))"

definition calcDatasetItem :: "ethash_cfg \<Rightarrow> bytes list \<Rightarrow> nat \<Rightarrow> exn + bytes" where
  "calcDatasetItem cfg cache i =
     (if cache = [] then Inl (JsError ''TypeError'')
      else
        (let p = ec_params cfg; r = HASH_BYTES p div WORD_BYTES p; mix = cache ! (i mod length cache)
         in bindS (read_u32 mix 0) (\<lambda>w.
            let mix = ec_keccak512 cfg (write_u32 (js_xor w (int i)) @ drop 4 mix)
            in bindS (fold_exn (mix_parent cache i r) mix [0..<DATASET_PARENTS p]) (\<lambda>mix.
               Inr (ec_keccak512 cfg mix)))))"

definition access :: "ethash_cfg \<Rightarrow> bytes list \<Rightarrow> nat \<Rightarrow> bytes \<Rightarrow> bytes \<Rightarrow> nat \<Rightarrow> exn + bytes" where
  "access cfg cache n s mix i =
     (let p = ec_params cfg; w = MIX_BYTES p div WORD_BYTES p; mixhashes = MIX_BYTES p div HASH_BYTES p
      in bindS (read_u32 s 0) (\<lambda>s0.
         bindS (read_u32 mix (i mod w * 4)) (\<lambda>m.
           if n div mixhashes = 0 then Inl (JsError ''TypeError'')
           else
             (let k = nat (fnv (js_xor (int i) s0) m) mod (n div mixhashes) * mixhashes
              in bindS (map_exn (\<lambda>j. calcDatasetItem cfg cache (k + j)) [0..<mixhashes]) (\<lambda>newdata.
                 fnvBuffer mix (concat newdata))))))"

text \<open>Four words of the mix become one.\<close>

definition compress :: "bytes \<Rightarrow> exn + bytes" where
  "compress mix =
     bindS (map_exn (\<lambda>k. let i = 4 * k in
         bindS (read_u32 mix (i * 4)) (\<lambda>m0. bindS (read_u32 mix ((i + 1) * 4)) (\<lambda>m1.
         bindS (read_u32 mix ((i + 2) * 4)) (\<lambda>m2. bindS (read_u32 mix ((i + 3) * 4)) (\<lambda>m3.
           let a = fnv m0 m1; b = fnv a m2; c = fnv b m3 in Inr (write_u32 c))))))
       [0..<(length mix div 4 + 3) div 4]) (\<lambda>words. Inr (concat words))"

definition ethash_hash ::
  "ethash_cfg \<Rightarrow> bytes list \<Rightarrow> int \<Rightarrow> bytes \<Rightarrow> bytes \<Rightarrow> exn + bytes \<times> bytes" where
  "ethash_hash cfg cache fullSize input nonce =
     (let p = ec_params cfg; n = nat (fullSize div int (HASH_BYTES p));
          s = ec_keccak512 cfg (input @ bufReverse nonce); mixhashes = MIX_BYTES p div HASH_BYTES p;
          mix = concat (replicate mixhashes s)
      in bindS (fold_exn (access cfg cache n s) mix [0..<ACCESSES p]) (\<lambda>mix.
         bindS (compress mix) (\<lambda>cmix. Inr (cmix, ec_keccak256 cfg (s @ cmix)))))"

section \<open>The object\<close>

record cache_entry =
  ce_cacheSize :: int
  ce_fullSize :: int
  ce_seed :: bytes
  ce_cache :: "bytes list"

record ethash =
  es_cacheDB :: "(nat \<Rightarrow> cache_entry option) option"
  es_cache :: "bytes list"
  es_epoc :: "nat option"
  es_fullSize :: "int option"
  es_cacheSize :: "int option"
  es_seed :: "js_buffer option"

definition new_ethash :: "(nat \<Rightarrow> cache_entry option) option \<Rightarrow> ethash" where
  "new_ethash cacheDB = \<lparr>es_cacheDB = cacheDB, es_cache = [], es_epoc = None, es_fullSize = None,
     es_cacheSize = None, es_seed = None\<rparr>"

text \<open>A size of 0 counts as none.\<close>

definition given_size :: "int option \<Rightarrow> bool" where
  "given_size v = (case v of None \<Rightarrow> False | Some n \<Rightarrow> n \<noteq> 0)"

definition ethash_run :: "ethash_cfg \<Rightarrow> ethash \<Rightarrow> bytes \<Rightarrow> bytes \<Rightarrow> int option \<Rightarrow> exn + bytes \<times> bytes" where
  "ethash_run cfg s input nonce fullSize =
     (let fullSize = (if \<not> given_size fullSize \<and> given_size (es_fullSize s) then es_fullSize s else fullSize)
      in if \<not> given_size fullSize then Inl (JsError ''fullSize needed'')
         else ethash_hash cfg (es_cache s) (the fullSize) input nonce)"

definition cacheHash :: "ethash_cfg \<Rightarrow> ethash \<Rightarrow> bytes" where
  "cacheHash cfg s = ec_keccak256 cfg (concat (es_cache s))"

text \<open>The hash of the header without its last two values.\<close>

definition ethash_headerHash :: "ethash_cfg \<Rightarrow> bytes list \<Rightarrow> bytes" where
  "ethash_headerHash cfg rawHeader =
     ec_keccak256 cfg (rlp_of_raw (ec_block cfg) (take (length rawHeader - 2) rawHeader))"

fun findLastSeed :: "(nat \<Rightarrow> cache_entry option) \<Rightarrow> nat \<Rightarrow> js_buffer \<times> nat" where
  "findLastSeed db 0 = (Buf (replicate 32 0), 0)"
| "findLastSeed db (Suc e) =
     (case db (Suc e) of Some d \<Rightarrow> (Parsed (ce_seed d), Suc e) | None \<Rightarrow> findLastSeed db e)"

definition seed_bytes :: "js_buffer \<Rightarrow> bytes" where
  "seed_bytes b = (case b of Buf x \<Rightarrow> x | Parsed x \<Rightarrow> x)"

text \<open>A new epoch: its sizes, its seed from that of the last epoch in the database, its cache, which is stored.\<close>

definition make_epoc ::
  "ethash_cfg \<Rightarrow> (nat \<Rightarrow> cache_entry option) \<Rightarrow> nat \<Rightarrow> ethash \<Rightarrow> ((exn + unit) \<times> ethash) option" where
  "make_epoc cfg db epoc s =
     Option.bind (getCacheSize cfg epoc) (\<lambda>cacheSize.
     Option.bind (getFullSize cfg epoc) (\<lambda>fullSize.
       let s = s\<lparr>es_cacheSize := Some cacheSize, es_fullSize := Some fullSize\<rparr>;
           (seed, foundEpoc) = findLastSeed db epoc
       in Some (case getSeed cfg seed foundEpoc epoc of
            Inl e \<Rightarrow> (Inl e, s)
          | Inr seed \<Rightarrow>
              (let s = s\<lparr>es_seed := Some seed\<rparr>
               in case mkcache cfg cacheSize seed of
                    Inl e \<Rightarrow> (Inl e, s)
                  | Inr cache \<Rightarrow>
                      (Inr (), s\<lparr>es_cache := cache, es_cacheDB := Some (db(epoc \<mapsto>
                         \<lparr>ce_cacheSize = cacheSize, ce_fullSize = fullSize, ce_seed = seed_bytes seed,
                          ce_cache = cache\<rparr>))\<rparr>)))))"

definition loadEpoc :: "ethash_cfg \<Rightarrow> nat \<Rightarrow> ethash \<Rightarrow> ((exn + unit) \<times> ethash) option" where
  "loadEpoc cfg number s =
     (let epoc = getEpoc cfg number
      in if es_epoc s = Some epoc then Some (Inr (), s)
         else
           (let s = s\<lparr>es_epoc := Some epoc\<rparr>
            in case es_cacheDB s of
                 None \<Rightarrow> Some (Inl (JsError ''cacheDB needed''), s)
               | Some db \<Rightarrow>
                   (case db epoc of
                      None \<Rightarrow> make_epoc cfg db epoc s
                    | Some d \<Rightarrow> Some (Inr (), s\<lparr>es_cache := ce_cache d, es_cacheSize := Some (ce_cacheSize d),
                        es_fullSize := Some (ce_fullSize d), es_seed := Some (Buf (ce_seed d))\<rparr>))))"

text \<open>\<open>loadEpoc(number.toNumber())\<close>, and then a function of the object.\<close>

definition with_epoc ::
  "ethash_cfg \<Rightarrow> int \<Rightarrow> (ethash \<Rightarrow> exn + 'a) \<Rightarrow> ethash \<Rightarrow> ((exn + 'a) \<times> ethash) option" where
  "with_epoc cfg number f s =
     (case toNumber number of
        Inl e \<Rightarrow> Some (Inl e, s)
      | Inr n \<Rightarrow> Option.bind (loadEpoc cfg n s) (\<lambda>(r, s').
          Some (bindS r (\<lambda>_. f s'), s')))"

section \<open>Verification\<close>

definition below_target :: "int \<Rightarrow> bytes \<Rightarrow> exn + bool" where
  "below_target difficulty h = bindS (div_checked (2 ^ 256) difficulty) (\<lambda>q. Inr (q > bn_of_bytes h))"

definition verifyPOW_header :: "ethash_cfg \<Rightarrow> block_header \<Rightarrow> ethash \<Rightarrow> ((exn + bool) \<times> ethash) option" where
  "verifyPOW_header cfg header =
     with_epoc cfg (bh_number header) (\<lambda>s.
       bindS (ethash_run cfg s (ethash_headerHash cfg (header_raw header)) (bh_nonce header) None) (\<lambda>(mix, h).
         if mix \<noteq> bh_mixHash header then Inr False else below_target (bh_difficulty header) h))"

fun verify_all :: "ethash_cfg \<Rightarrow> block_header list \<Rightarrow> ethash \<Rightarrow> ((exn + bool) \<times> ethash) option" where
  "verify_all cfg [] s = Some (Inr True, s)"
| "verify_all cfg (h # hs) s =
     Option.bind (verifyPOW_header cfg h s) (\<lambda>(r, s').
       if r = Inr True then verify_all cfg hs s' else Some (r, s'))"

definition verifyPOW :: "ethash_cfg \<Rightarrow> block \<Rightarrow> ethash \<Rightarrow> ((exn + bool) \<times> ethash) option" where
  "verifyPOW cfg b s =
     (if block_isGenesis b then Some (Inr True, s) else verify_all cfg (b_header b # b_uncleHeaders b) s)"

section \<open>The miner\<close>

record miner =
  mi_blockHeader :: block_header
  mi_solution :: "(bytes \<times> bytes) option"
  mi_currentNonce :: int
  mi_headerHash :: "bytes option"
  mi_stopMining :: bool

definition new_miner :: "block_header \<Rightarrow> miner" where
  "new_miner h = \<lparr>mi_blockHeader = h, mi_solution = None, mi_currentNonce = 0, mi_headerHash = None,
     mi_stopMining = False\<rparr>"

definition miner_stop :: "miner \<Rightarrow> miner" where
  "miner_stop m = m\<lparr>mi_stopMining := True\<rparr>"

definition try_nonce :: "ethash_cfg \<Rightarrow> ethash \<Rightarrow> bytes \<Rightarrow> miner \<Rightarrow> exn + (bytes \<times> bytes) option" where
  "try_nonce cfg s headerHash m =
     bindS (toArrayLike (mi_currentNonce m) 8) (\<lambda>nonce.
     bindS (ethash_run cfg s headerHash nonce None) (\<lambda>(mix, h).
     bindS (below_target (bh_difficulty (mi_blockHeader m)) h) (\<lambda>found.
       Inr (if found then Some (mix, nonce) else None))))"

text \<open>
  The loop; \<open>stops k\<close> tells whether \<open>stop\<close> is called while the attempt \<open>k\<close> waits for its timer. An exception in the
  timer's callback rejects no promise: it ends the program.
\<close>

partial_function (option) mine_loop ::
  "ethash_cfg \<Rightarrow> ethash \<Rightarrow> (nat \<Rightarrow> bool) \<Rightarrow> bytes \<Rightarrow> nat \<Rightarrow> int \<Rightarrow> miner
    \<Rightarrow> ((exn + (bytes \<times> bytes) option) \<times> miner) option" where
  "mine_loop cfg s stops headerHash k iterations m =
     (if iterations = 0 \<or> mi_stopMining m then Some (Inr None, m)
      else
        (let m = (if stops k then miner_stop m else m)
         in case try_nonce cfg s headerHash m of
              Inl e \<Rightarrow> Some (Inl e, m)
            | Inr found \<Rightarrow>
                (case found of
                   Some sol \<Rightarrow> Some (Inr (Some sol), m\<lparr>mi_solution := Some sol\<rparr>)
                 | None \<Rightarrow> mine_loop cfg s stops headerHash (k + 1) (iterations - 1)
                     (m\<lparr>mi_currentNonce := mi_currentNonce m + 1\<rparr>))))"

definition known_hash :: "ethash_cfg \<Rightarrow> miner \<Rightarrow> bytes" where
  "known_hash cfg m =
     (case mi_headerHash m of Some h \<Rightarrow> h | None \<Rightarrow> ethash_headerHash cfg (header_raw (mi_blockHeader m)))"

definition miner_iterate ::
  "ethash_cfg \<Rightarrow> (nat \<Rightarrow> bool) \<Rightarrow> int \<Rightarrow> miner \<Rightarrow> ethash
    \<Rightarrow> ((exn + (bytes \<times> bytes) option) \<times> miner \<times> ethash) option" where
  "miner_iterate cfg stops iterations m s =
     (if mi_solution m \<noteq> None then Some (Inr (mi_solution m), m, s)
      else
        (let headerHash = known_hash cfg m; m = m\<lparr>mi_headerHash := Some headerHash\<rparr>
         in case toNumber (bh_number (mi_blockHeader m)) of
              Inl e \<Rightarrow> Some (Inl e, m, s)
            | Inr n \<Rightarrow> Option.bind (loadEpoc cfg n s) (\<lambda>(r, s').
                case r of
                  Inl e \<Rightarrow> Some (Inl e, m, s')
                | Inr _ \<Rightarrow> Option.bind (mine_loop cfg s' stops headerHash 0 iterations m) (\<lambda>(found, m').
                    Some (found, m', s')))))"

text \<open>What \<open>toJSON\<close> prints of a header, as the buffers that are read back from it.\<close>

definition header_json :: "block_header \<Rightarrow> header_data" where
  "header_json h = \<lparr>hd_parentHash = Some (bh_parentHash h), hd_uncleHash = Some (bh_uncleHash h),
     hd_coinbase = Some (bh_coinbase h), hd_stateRoot = Some (bh_stateRoot h),
     hd_transactionsTrie = Some (bh_transactionsTrie h), hd_receiptTrie = Some (bh_receiptTrie h),
     hd_logsBloom = Some (bh_logsBloom h), hd_difficulty = Some (toArrayLike_min (bh_difficulty h)),
     hd_number = Some (toArrayLike_min (bh_number h)), hd_gasLimit = Some (toArrayLike_min (bh_gasLimit h)),
     hd_gasUsed = Some (toArrayLike_min (bh_gasUsed h)), hd_timestamp = Some (toArrayLike_min (bh_timestamp h)),
     hd_extraData = Some (bh_extraData h), hd_mixHash = Some (bh_mixHash h), hd_nonce = Some (bh_nonce h),
     hd_baseFeePerGas = (if isActivatedEIP (bh_common h) 1559
       then map_option toArrayLike_min (bh_baseFeePerGas h) else None)\<rparr>"

text \<open>The header with the solution. Of a block, the transactions and uncles are copied as well, which is left out.\<close>

definition mined_header :: "ethash_cfg \<Rightarrow> block_header \<Rightarrow> bytes \<times> bytes \<Rightarrow> exn + block_header" where
  "mined_header cfg h sol =
     fromHeaderData (ec_block cfg) ((header_json h)\<lparr>hd_mixHash := Some (fst sol), hd_nonce := Some (snd sol)\<rparr>)
       (no_block_opts\<lparr>bo_common := Some (bh_common h)\<rparr>)"

definition miner_mine ::
  "ethash_cfg \<Rightarrow> (nat \<Rightarrow> bool) \<Rightarrow> int \<Rightarrow> miner \<Rightarrow> ethash
    \<Rightarrow> ((exn + block_header option) \<times> miner \<times> ethash) option" where
  "miner_mine cfg stops iterations m s =
     Option.bind (miner_iterate cfg stops iterations m s) (\<lambda>(r, m', s').
       Some (bindS r (\<lambda>solution.
         case solution of
           None \<Rightarrow> Inr None
         | Some sol \<Rightarrow> bindS (mined_header cfg (mi_blockHeader m') sol) (\<lambda>h. Inr (Some h))), m', s'))"

end
