(* ===== verification/Ethash_Proofs.thy ===== *)
theory Ethash_Proofs
  imports Ethash Block_Header_Proofs
begin

text \<open>
  The proof of work. What an epoch's cache must be (\<open>epoch_entry\<close>) and when a header is valid (\<open>pow_result\<close>) are
  functions of the number and the header; the invariant \<open>pow_inv\<close> says that the object and its database hold such caches
  only. Then: what the verification returns, that a mined header is accepted, and that mining goes on until it succeeds.
\<close>

section \<open>Words\<close>

text \<open>The mixing of words is the hash of Fowler, Noll and Vo on 32-bit words.\<close>

lemma fnv_word: "word_of_int (fnv x y) = (word_of_int x * 0x01000193) XOR (word_of_int y :: 32 word)"
proof -
  have cast: "word_of_int (to_int32 z) = (word_of_int z :: 32 word)" for z by (simp add: to_int32_def)
  have "word_of_int (fnv x y) = word_of_int (to_int32 (x * 0x01000000) + to_int32 (x * 0x193)) XOR (word_of_int y :: 32 word)"
    by (simp add: fnv_def js_xor_def)
  also have "\<dots> = (word_of_int x * 0x01000000 + word_of_int x * 0x193) XOR word_of_int y"
    by (simp only: wi_hom_add [symmetric] cast wi_hom_mult [symmetric]) simp
  finally show ?thesis by (simp add: distrib_left [symmetric])
qed

section \<open>Seeds\<close>

definition epoch_seed :: "ethash_cfg \<Rightarrow> nat \<Rightarrow> bytes" where
  "epoch_seed cfg e = (ec_keccak256 cfg ^^ e) (replicate 32 0)"

lemma getSeed_Buf: "i \<le> e \<Longrightarrow> getSeed cfg (Buf b) i e = Inr (Buf ((ec_keccak256 cfg ^^ (e - i)) b))"
proof (induction "e - i" arbitrary: i b)
  case 0
  then show ?case by (subst getSeed.simps) simp
next
  case (Suc k)
  then have "e - (i + 1) = k" "i + 1 \<le> e" "e - i = Suc k" "i < e" by simp_all
  with Suc(1) [of "i + 1" "ec_keccak256 cfg b"] show ?case
    by (subst getSeed.simps) (simp add: keccak256_js_def funpow_swap1)
qed

lemma getSeed_Parsed: "i < e \<Longrightarrow> \<exists>x. getSeed cfg (Parsed b) i e = Inl x"
  by (subst getSeed.simps) (simp add: keccak256_js_def)

text \<open>The last seed is that of an entry, or the first one when there is no entry for an epoch after the first.\<close>

lemma findLastSeed_cases:
  assumes "findLastSeed db e = (seed, i)"
  obtains d where "0 < i" "i \<le> e" "db i = Some d" "seed = Parsed (ce_seed d)"
  | "i = 0" "seed = Buf (replicate 32 0)" "\<forall>j. 0 < j \<and> j \<le> e \<longrightarrow> db j = None"
proof -
  have "(\<exists>d. 0 < i \<and> i \<le> e \<and> db i = Some d \<and> seed = Parsed (ce_seed d)) \<or>
      i = 0 \<and> seed = Buf (replicate 32 0) \<and> (\<forall>j. 0 < j \<and> j \<le> e \<longrightarrow> db j = None)"
    using assms by (induction e) (auto simp: le_Suc_eq split: option.splits)
  then show thesis using that by blast
qed

lemma findLastSeed_first: "\<forall>j. 0 < j \<and> j \<le> e \<longrightarrow> db j = None \<Longrightarrow> findLastSeed db e = (Buf (replicate 32 0), 0)"
  by (induction e) simp_all

section \<open>The cache of an epoch\<close>

definition epoch_entry :: "ethash_cfg \<Rightarrow> nat \<Rightarrow> cache_entry option" where
  "epoch_entry cfg e =
     Option.bind (getCacheSize cfg e) (\<lambda>cacheSize.
     Option.bind (getFullSize cfg e) (\<lambda>fullSize.
       case mkcache cfg cacheSize (Buf (epoch_seed cfg e)) of
         Inl x \<Rightarrow> None
       | Inr cache \<Rightarrow> Some \<lparr>ce_cacheSize = cacheSize, ce_fullSize = fullSize, ce_seed = epoch_seed cfg e, ce_cache = cache\<rparr>))"

lemma epoch_entry_Some:
  "epoch_entry cfg e = Some d \<longleftrightarrow> getCacheSize cfg e = Some (ce_cacheSize d) \<and> getFullSize cfg e = Some (ce_fullSize d) \<and>
     mkcache cfg (ce_cacheSize d) (Buf (epoch_seed cfg e)) = Inr (ce_cache d) \<and> ce_seed d = epoch_seed cfg e"
proof (cases "getCacheSize cfg e")
  case (Some cs)
  then show ?thesis
    by (cases "getFullSize cfg e"; cases "mkcache cfg cs (Buf (epoch_seed cfg e))"; cases d)
      (auto simp: epoch_entry_def)
qed (simp add: epoch_entry_def)

definition loaded :: "ethash_cfg \<Rightarrow> ethash \<Rightarrow> nat \<Rightarrow> bool" where
  "loaded cfg s e \<longleftrightarrow> es_epoc s = Some e \<and>
     (\<exists>d. epoch_entry cfg e = Some d \<and> es_cache s = ce_cache d \<and> es_fullSize s = Some (ce_fullSize d))"

definition pow_inv :: "ethash_cfg \<Rightarrow> ethash \<Rightarrow> bool" where
  "pow_inv cfg s \<longleftrightarrow>
     (\<forall>db e d. es_cacheDB s = Some db \<longrightarrow> db e = Some d \<longrightarrow> epoch_entry cfg e = Some d) \<and>
     (\<forall>e. es_epoc s = Some e \<longrightarrow> loaded cfg s e)"

lemma new_ethash_inv: "pow_inv cfg (new_ethash (Some Map.empty))"
  by (simp add: pow_inv_def new_ethash_def)

lemma make_epoc_loaded:
  assumes "make_epoc cfg db e s = Some (Inr (), s')" "db e = None" "es_epoc s = Some e" "es_cacheDB s = Some db"
  shows "loaded cfg s' e" "\<exists>d. epoch_entry cfg e = Some d \<and> es_cacheDB s' = Some (db(e \<mapsto> d))"
proof -
  obtain cs fs where sizes: "getCacheSize cfg e = Some cs" "getFullSize cfg e = Some fs"
    using assms(1) by (auto simp: make_epoc_def bind_eq_Some_conv)
  obtain seed i where last: "findLastSeed db e = (seed, i)" by force
  have "(\<exists>cache. mkcache cfg cs (Buf (epoch_seed cfg e)) = Inr cache \<and>
      s' = s\<lparr>es_cacheSize := Some cs, es_fullSize := Some fs, es_seed := Some (Buf (epoch_seed cfg e)), es_cache := cache,
        es_cacheDB := Some (db(e \<mapsto> \<lparr>ce_cacheSize = cs, ce_fullSize = fs, ce_seed = epoch_seed cfg e, ce_cache = cache\<rparr>))\<rparr>)"
    using last
  proof (cases rule: findLastSeed_cases)
    case (1 d)
    then have "i < e" using assms(2) by (metis le_neq_implies_less option.distinct(1))
    then show ?thesis
      using getSeed_Parsed [of i e cfg "ce_seed d"] assms(1) 1 by (auto simp: make_epoc_def sizes last)
  next
    case 2
    then show ?thesis
      using assms(1) by (auto simp: make_epoc_def sizes last getSeed_Buf epoch_seed_def seed_bytes_def Let_def split: sum.splits)
  qed
  then show "loaded cfg s' e" "\<exists>d. epoch_entry cfg e = Some d \<and> es_cacheDB s' = Some (db(e \<mapsto> d))"
    using assms(3) by (auto simp: loaded_def epoch_entry_def sizes)
qed

lemma make_epoc_epoc:
  assumes "make_epoc cfg db e s = Some (r, s')" shows "es_epoc s' = es_epoc s"
proof -
  obtain seed i where "findLastSeed db e = (seed, i)" by force
  then show ?thesis
    using assms by (cases "getSeed cfg seed i e"; cases "mkcache cfg (the (getCacheSize cfg e)) (projr (getSeed cfg seed i e))")
      (auto simp: make_epoc_def bind_eq_Some_conv Let_def)
qed

lemma loadEpoc_loaded:
  assumes "pow_inv cfg s" "loadEpoc cfg n s = Some (Inr (), s')"
  shows "pow_inv cfg s' \<and> loaded cfg s' (getEpoc cfg n)"
proof (cases "es_epoc s = Some (getEpoc cfg n)")
  case True
  then show ?thesis using assms by (auto simp: loadEpoc_def pow_inv_def)
next
  case False
  let ?e = "getEpoc cfg n" and ?s = "s\<lparr>es_epoc := Some (getEpoc cfg n)\<rparr>"
  obtain db where db: "es_cacheDB s = Some db"
    using False assms(2) by (cases "es_cacheDB s") (auto simp: loadEpoc_def Let_def)
  show ?thesis
  proof (cases "db ?e")
    case None
    then have "make_epoc cfg db ?e ?s = Some (Inr (), s')" using False assms(2) db by (simp add: loadEpoc_def Let_def)
    from make_epoc_loaded [OF this None] db assms(1) show ?thesis
      by (fastforce simp: pow_inv_def loaded_def split: if_splits)
  next
    case (Some d)
    then have "epoch_entry cfg ?e = Some d" using assms(1) db by (simp add: pow_inv_def)
    moreover have "s' = ?s\<lparr>es_cache := ce_cache d, es_cacheSize := Some (ce_cacheSize d),
        es_fullSize := Some (ce_fullSize d), es_seed := Some (Buf (ce_seed d))\<rparr>"
      using Some False assms(2) db by (simp add: loadEpoc_def)
    ultimately show ?thesis using assms(1) by (simp add: pow_inv_def loaded_def)
  qed
qed

text \<open>
  When an epoch can be loaded: it is the current one, or stored, or no epoch between the first and it is stored. Otherwise
  the seed of an earlier epoch is read back from the database, where it is no buffer any more, and its hash throws.
\<close>

definition storable :: "(nat \<Rightarrow> cache_entry option) \<Rightarrow> nat \<Rightarrow> bool" where
  "storable db e \<longleftrightarrow> db e \<noteq> None \<or> (\<forall>j. 0 < j \<and> j < e \<longrightarrow> db j = None)"

definition loadable :: "(nat \<Rightarrow> cache_entry option) \<Rightarrow> ethash \<Rightarrow> nat \<Rightarrow> bool" where
  "loadable db s e \<longleftrightarrow> es_epoc s = Some e \<or> storable db e"

lemma loadEpoc_returns:
  assumes "es_cacheDB s = Some db" "loadable db s (getEpoc cfg n)" "epoch_entry cfg (getEpoc cfg n) = Some d"
  shows "\<exists>s'. loadEpoc cfg n s = Some (Inr (), s') \<and>
    (es_cacheDB s' = Some db \<or> es_cacheDB s' = Some (db(getEpoc cfg n \<mapsto> d)))"
proof (cases "es_epoc s = Some (getEpoc cfg n) \<or> db (getEpoc cfg n) \<noteq> None")
  case True
  then show ?thesis using assms(1) by (auto simp: loadEpoc_def Let_def)
next
  case False
  then have "findLastSeed db (getEpoc cfg n) = (Buf (replicate 32 0), 0)"
    using assms(2) by (intro findLastSeed_first) (auto simp: loadable_def storable_def le_less)
  then show ?thesis
    using False assms(1,3)
    by (cases d) (simp add: epoch_entry_Some loadEpoc_def make_epoc_def getSeed_Buf epoch_seed_def seed_bytes_def Let_def)
qed

lemma loadEpoc_throws:
  assumes "es_cacheDB s = Some db" "\<not> loadable db s (getEpoc cfg n)" "epoch_entry cfg (getEpoc cfg n) = Some d"
  shows "\<exists>x s'. loadEpoc cfg n s = Some (Inl x, s')"
proof -
  let ?e = "getEpoc cfg n"
  have new: "es_epoc s \<noteq> Some ?e" "db ?e = None" "\<not> (\<forall>j. 0 < j \<and> j < ?e \<longrightarrow> db j = None)"
    using assms(2) by (auto simp: loadable_def storable_def)
  obtain seed i where last: "findLastSeed db ?e = (seed, i)" by force
  then show ?thesis
  proof (cases rule: findLastSeed_cases)
    case (1 d')
    then have "i < ?e" using new(2) by (metis le_neq_implies_less option.distinct(1))
    then show ?thesis using getSeed_Parsed [of i ?e cfg "ce_seed d'"] assms(1,3) new(1,2) 1(4) last
      by (auto simp: epoch_entry_Some loadEpoc_def make_epoc_def Let_def)
  qed (use new(3) in auto)
qed

section \<open>The verdict\<close>

definition pow_result :: "ethash_cfg \<Rightarrow> cache_entry \<Rightarrow> block_header \<Rightarrow> exn + bool" where
  "pow_result cfg d h =
     bindS (ethash_hash cfg (ce_cache d) (ce_fullSize d) (ethash_headerHash cfg (header_raw h)) (bh_nonce h))
       (\<lambda>(mix, r). if mix \<noteq> bh_mixHash h then Inr False else below_target (bh_difficulty h) r)"

definition header_epoch :: "ethash_cfg \<Rightarrow> block_header \<Rightarrow> nat" where
  "header_epoch cfg h = getEpoc cfg (nat (bh_number h))"

lemma loaded_run:
  "loaded cfg s e \<Longrightarrow> epoch_entry cfg e = Some d \<Longrightarrow> ce_fullSize d \<noteq> 0 \<Longrightarrow>
   ethash_run cfg s input nonce None = ethash_hash cfg (ce_cache d) (ce_fullSize d) input nonce"
  by (auto simp: loaded_def ethash_run_def given_size_def)

text \<open>What the verification must say of a header: a function of the header alone.\<close>

definition pow_verdict :: "ethash_cfg \<Rightarrow> block_header \<Rightarrow> exn + bool" where
  "pow_verdict cfg h =
     (case epoch_entry cfg (header_epoch cfg h) of None \<Rightarrow> Inl (JsError ''no cache'') | Some d \<Rightarrow> pow_result cfg d h)"

text \<open>The headers it is asked about: their epoch has a cache, and their number is one that JavaScript can hold.\<close>

definition pow_ready :: "ethash_cfg \<Rightarrow> block_header \<Rightarrow> bool" where
  "pow_ready cfg h \<longleftrightarrow> (\<exists>d. epoch_entry cfg (header_epoch cfg h) = Some d \<and> ce_fullSize d \<noteq> 0) \<and>
     0 \<le> bh_number h \<and> bh_number h < 2 ^ 53"

lemma verifyPOW_header_result:
  assumes "pow_inv cfg s" "es_cacheDB s = Some db" "pow_ready cfg h" "loadable db s (header_epoch cfg h)"
  shows "\<exists>s' db'. verifyPOW_header cfg h s = Some (pow_verdict cfg h, s') \<and> pow_inv cfg s' \<and>
    es_epoc s' = Some (header_epoch cfg h) \<and> es_cacheDB s' = Some db' \<and> (\<forall>j. j \<noteq> header_epoch cfg h \<longrightarrow> db' j = db j)"
proof -
  obtain d where d: "epoch_entry cfg (header_epoch cfg h) = Some d" "ce_fullSize d \<noteq> 0"
    and number: "0 \<le> bh_number h" "bh_number h < 2 ^ 53" using assms(3) by (auto simp: pow_ready_def)
  obtain s' where load: "loadEpoc cfg (nat (bh_number h)) s = Some (Inr (), s')"
      "es_cacheDB s' = Some db \<or> es_cacheDB s' = Some (db(header_epoch cfg h \<mapsto> d))"
    using loadEpoc_returns [of s db cfg "nat (bh_number h)" d] assms(2,4) d(1) by (auto simp: header_epoch_def)
  from loadEpoc_loaded [OF assms(1) load(1)] have ok: "pow_inv cfg s'" "loaded cfg s' (header_epoch cfg h)"
    by (simp_all add: header_epoch_def)
  from loaded_run [OF ok(2) d] have "verifyPOW_header cfg h s = Some (pow_verdict cfg h, s')"
    using number d(1) by (simp add: verifyPOW_header_def with_epoc_def toNumber_def load(1) pow_result_def pow_verdict_def)
  with ok load(2) show ?thesis by (auto simp: loaded_def)
qed

lemma verifyPOW_header_throws:
  assumes "es_cacheDB s = Some db" "pow_ready cfg h" "\<not> loadable db s (header_epoch cfg h)"
  shows "\<exists>x s'. verifyPOW_header cfg h s = Some (Inl x, s')"
  using assms loadEpoc_throws [of s db cfg "nat (bh_number h)"]
  by (fastforce simp: pow_ready_def verifyPOW_header_def with_epoc_def toNumber_def header_epoch_def)

lemma verify_all_answers:
  assumes "pow_inv cfg s" "es_cacheDB s \<noteq> None" "\<forall>h \<in> set hs. pow_ready cfg h"
  shows "\<exists>r s'. verify_all cfg hs s = Some (r, s') \<and>
    (\<forall>v. r = Inr v \<longrightarrow> pow_inv cfg s' \<and> (v \<longleftrightarrow> (\<forall>h \<in> set hs. pow_verdict cfg h = Inr True)))"
  using assms
proof (induction hs arbitrary: s)
  case (Cons h hs)
  obtain db where db: "es_cacheDB s = Some db" using Cons(3) by auto
  show ?case
  proof (cases "loadable db s (header_epoch cfg h)")
    case True
    with verifyPOW_header_result [OF Cons(2) db _ True] Cons(4) obtain s' where
      s': "verifyPOW_header cfg h s = Some (pow_verdict cfg h, s')" "pow_inv cfg s'" "es_cacheDB s' \<noteq> None" by auto
    with Cons(1) [OF s'(2,3)] Cons(4) show ?thesis by (cases "pow_verdict cfg h = Inr True") auto
  next
    case False
    with verifyPOW_header_throws [OF db] Cons(4) show ?thesis by fastforce
  qed
qed simp

text \<open>No cache is in the way when the headers come in descending order of epochs that can be stored.\<close>

definition epochs_load :: "ethash_cfg \<Rightarrow> (nat \<Rightarrow> cache_entry option) \<Rightarrow> nat \<Rightarrow> block_header list \<Rightarrow> bool" where
  "epochs_load cfg db e hs \<longleftrightarrow> (\<forall>h \<in> set hs. header_epoch cfg h \<le> e \<and> (header_epoch cfg h = e \<or> storable db (header_epoch cfg h))) \<and>
     sorted_wrt (\<lambda>h h'. header_epoch cfg h' \<le> header_epoch cfg h) hs"

lemma epochs_load_next:
  assumes "epochs_load cfg db e (h # hs)" "\<forall>j. j \<noteq> header_epoch cfg h \<longrightarrow> db' j = db j"
  shows "epochs_load cfg db' (header_epoch cfg h) hs"
  using assms by (fastforce simp: epochs_load_def storable_def)

lemma verify_all_verdict:
  assumes "pow_inv cfg s" "es_cacheDB s = Some db" "\<forall>h \<in> set hs. pow_ready cfg h"
    and "es_epoc s = Some e" "epochs_load cfg db e hs"
  shows "\<exists>r s'. verify_all cfg hs s = Some (r, s') \<and> pow_inv cfg s' \<and> (r = Inr True \<or> r \<in> pow_verdict cfg ` set hs)"
  using assms
proof (induction hs arbitrary: s db e)
  case (Cons h hs)
  from Cons(5,6) have "loadable db s (header_epoch cfg h)" by (auto simp: loadable_def epochs_load_def)
  from verifyPOW_header_result [OF Cons(2,3) _ this] Cons(4) obtain s' db' where
    s': "verifyPOW_header cfg h s = Some (pow_verdict cfg h, s')" "pow_inv cfg s'"
      "es_epoc s' = Some (header_epoch cfg h)" "es_cacheDB s' = Some db'" "\<forall>j. j \<noteq> header_epoch cfg h \<longrightarrow> db' j = db j" by auto
  from Cons(1) [OF s'(2,4) _ s'(3) epochs_load_next [OF Cons(6) s'(5)]] Cons(4) s'(1,2) show ?case
    by (cases "pow_verdict cfg h = Inr True") auto
qed simp

text \<open>C10. The verification of the proof of work returns. Let every cache that the object and its database hold be that of its epoch, as
  is so of a new object. When the verification returns a verdict, this is the right one whichever caches are there: the
  block is accepted exactly when it is the genesis block or each of its headers, with the cache that belongs to its number, has
  the right mix hash and a hash below its target; and the caches are still those of their epochs. It returns the
  acceptance, or the refusal or error of one of the headers, when the block's epoch can be loaded, and so can those
  of its uncles, which come in descending order. But when the block's epoch is neither the current one nor stored, and
  an earlier one than it, not the first, is, the verification throws, whatever the header; such a failed
  load sets the epoch without its cache, so nothing is said of the object after it.\<close>

theorem block_verified:
  assumes "pow_inv cfg s" "es_cacheDB s = Some db" "\<forall>h \<in> set (b_header b # b_uncleHeaders b). pow_ready cfg h"
  shows "\<exists>r s'. verifyPOW cfg b s = Some (r, s') \<and>
     (\<forall>v. r = Inr v \<longrightarrow> pow_inv cfg s' \<and>
        (v \<longleftrightarrow> block_isGenesis b \<or> (\<forall>h \<in> set (b_header b # b_uncleHeaders b). pow_verdict cfg h = Inr True))) \<and>
     (loadable db s (header_epoch cfg (b_header b)) \<and> epochs_load cfg db (header_epoch cfg (b_header b)) (b_uncleHeaders b) \<longrightarrow>
        pow_inv cfg s' \<and> (r = Inr True \<or> r \<in> pow_verdict cfg ` set (b_header b # b_uncleHeaders b))) \<and>
     (\<not> block_isGenesis b \<and> \<not> loadable db s (header_epoch cfg (b_header b)) \<longrightarrow> (\<exists>x. r = Inl x)) \<and>
     pow_inv cfg (new_ethash (Some Map.empty))"
proof (cases "block_isGenesis b")
  case True
  then show ?thesis using assms(1) new_ethash_inv by (simp add: verifyPOW_def)
next
  case False
  let ?h = "b_header b" and ?hs = "b_header b # b_uncleHeaders b" and ?e = "header_epoch cfg (b_header b)"
  obtain r s' where answer: "verify_all cfg ?hs s = Some (r, s')"
      "\<forall>v. r = Inr v \<longrightarrow> pow_inv cfg s' \<and> (v \<longleftrightarrow> (\<forall>h \<in> set ?hs. pow_verdict cfg h = Inr True))"
    using verify_all_answers [OF assms(1) _ assms(3)] assms(2) by auto
  have "pow_inv cfg s' \<and> (r = Inr True \<or> r \<in> pow_verdict cfg ` set ?hs)"
    if load: "loadable db s ?e" "epochs_load cfg db ?e (b_uncleHeaders b)"
  proof -
    obtain s1 db1 where s1: "verifyPOW_header cfg ?h s = Some (pow_verdict cfg ?h, s1)" "pow_inv cfg s1" "es_epoc s1 = Some ?e"
        "es_cacheDB s1 = Some db1" "\<forall>j. j \<noteq> ?e \<longrightarrow> db1 j = db j"
      using verifyPOW_header_result [OF assms(1,2) _ load(1)] assms(3) by auto
    have "epochs_load cfg db ?e ?hs" using load(2) by (auto simp: epochs_load_def)
    from verify_all_verdict [OF s1(2,4) _ s1(3) epochs_load_next [OF this s1(5)]] assms(3) answer(1) s1(1,2) show ?thesis
      by (cases "pow_verdict cfg ?h = Inr True") auto
  qed
  moreover have "\<exists>x. r = Inl x" if "\<not> loadable db s ?e"
    using verifyPOW_header_throws [OF assms(2) _ that] assms(3) answer(1) by auto
  ultimately show ?thesis using False answer new_ethash_inv by (auto simp: verifyPOW_def)
qed

section \<open>Mining\<close>

text \<open>The attempt with a nonce.\<close>

definition attempt :: "ethash_cfg \<Rightarrow> ethash \<Rightarrow> bytes \<Rightarrow> block_header \<Rightarrow> int \<Rightarrow> exn + (bytes \<times> bytes) option" where
  "attempt cfg s headerHash h nonce = try_nonce cfg s headerHash ((new_miner h)\<lparr>mi_currentNonce := nonce\<rparr>)"

lemma try_attempt: "try_nonce cfg s headerHash m = attempt cfg s headerHash (mi_blockHeader m) (mi_currentNonce m)"
  by (simp add: attempt_def try_nonce_def new_miner_def)

lemma stop_miner [simp]:
  "mi_blockHeader (if c then miner_stop m else m) = mi_blockHeader m"
  "mi_currentNonce (if c then miner_stop m else m) = mi_currentNonce m"
  by (simp_all add: miner_stop_def)

lemma mine_loop_found:
  assumes "mine_loop cfg s stops hash k iterations m = Some (Inr (Some sol), m')"
  shows "mi_blockHeader m' = mi_blockHeader m \<and> (\<exists>nonce. attempt cfg s hash (mi_blockHeader m) nonce = Inr (Some sol))"
proof -
  have "\<forall>sol. fst r = Inr (Some sol) \<longrightarrow> mi_blockHeader (snd r) = mi_blockHeader m \<and>
      (\<exists>nonce. attempt cfg s hash (mi_blockHeader m) nonce = Inr (Some sol))"
    if "mine_loop cfg s stops hash k iterations m = Some r" for r
  proof (rule mine_loop.raw_induct [where P = "\<lambda>cfg s stops hash k iterations m r. \<forall>sol. fst r = Inr (Some sol) \<longrightarrow>
      mi_blockHeader (snd r) = mi_blockHeader m \<and> (\<exists>nonce. attempt cfg s hash (mi_blockHeader m) nonce = Inr (Some sol))",
      OF _ that], goal_cases)
    case (1 loop cfg s stops hash k iterations m r)
    show ?case
    proof (cases "iterations = 0 \<or> mi_stopMining m")
      case False
      let ?m = "if stops k then miner_stop m else m"
      show ?thesis
      proof (cases "try_nonce cfg s hash ?m")
        case (Inr found)
        show ?thesis
        proof (cases found)
          case None
          let ?next = "?m\<lparr>mi_currentNonce := mi_currentNonce ?m + 1\<rparr>"
          have "loop cfg s stops hash (k + 1) (iterations - 1) ?next = Some r"
            using 1(2) False None Inr by (simp add: Let_def)
          from 1(1) [OF this] show ?thesis by simp
        next
          case (Some found)
          then show ?thesis
            using 1(2) False Inr by (auto simp: Let_def try_attempt simp del: if_split)
        qed
      qed (use 1(2) False in \<open>auto simp: Let_def\<close>)
    qed (use 1 in auto)
  qed
  from this [OF assms] show ?thesis by simp
qed

lemma mine_loop_finds:
  assumes "\<not> mi_stopMining m" "\<forall>j < n. \<not> stops (k + j) \<and> attempt cfg s hash (mi_blockHeader m) (mi_currentNonce m + int j) = Inr None"
    and "attempt cfg s hash (mi_blockHeader m) (mi_currentNonce m + int n) = Inr (Some sol)"
    and "iterations < 0 \<or> int n < iterations"
  shows "\<exists>m'. mine_loop cfg s stops hash k iterations m = Some (Inr (Some sol), m') \<and> mi_solution m' = Some sol"
  using assms
proof (induction n arbitrary: k iterations m)
  case 0
  then show ?case by (subst mine_loop.simps) (auto simp: try_attempt Let_def)
next
  case (Suc n)
  let ?m = "m\<lparr>mi_currentNonce := mi_currentNonce m + 1\<rparr>"
  have first: "\<not> stops k" "attempt cfg s hash (mi_blockHeader m) (mi_currentNonce m) = Inr None"
    using Suc(3) [rule_format, of 0] by simp_all
  have "\<forall>j < n. \<not> stops (k + 1 + j) \<and> attempt cfg s hash (mi_blockHeader ?m) (mi_currentNonce ?m + int j) = Inr None"
    using Suc(3) [rule_format, of "Suc j" for j] by (simp add: add.assoc)
  then have "\<exists>m'. mine_loop cfg s stops hash (k + 1) (iterations - 1) ?m = Some (Inr (Some sol), m') \<and> mi_solution m' = Some sol"
    using Suc(2,4,5) by (intro Suc(1)) (auto simp: add.assoc)
  then show ?case
    using first Suc(2,5) by (subst mine_loop.simps) (auto simp: try_attempt Let_def)
qed

text \<open>C12. Mining succeeds when it can: with a loaded epoch, when the nonces before \<open>n\<close> fail, the nonce \<open>n\<close> solves the header and nobody
  stops the miner before, \<open>iterate\<close> with more than \<open>n\<close> iterations, or without a limit, returns this solution and keeps it.\<close>

theorem mining_finds_solution:
  assumes "loadEpoc cfg (nat (bh_number h)) s = Some (Inr (), s')" "0 \<le> bh_number h" "bh_number h < 2 ^ 53"
    and "\<forall>j < n. \<not> stops j \<and> attempt cfg s' (ethash_headerHash cfg (header_raw h)) h (int j) = Inr None"
    and "attempt cfg s' (ethash_headerHash cfg (header_raw h)) h (int n) = Inr (Some sol)"
    and "iterations < 0 \<or> int n < iterations"
  shows "\<exists>m. miner_iterate cfg stops iterations (new_miner h) s = Some (Inr (Some sol), m, s') \<and> mi_solution m = Some sol"
proof -
  let ?hash = "ethash_headerHash cfg (header_raw h)" and ?m = "(new_miner h)\<lparr>mi_headerHash := Some (ethash_headerHash cfg (header_raw h))\<rparr>"
  have "\<exists>m'. mine_loop cfg s' stops ?hash 0 iterations ?m = Some (Inr (Some sol), m') \<and> mi_solution m' = Some sol"
    using assms(4-6) by (intro mine_loop_finds) (simp_all add: new_miner_def)
  then show ?thesis
    using assms(1-3) by (auto simp: miner_iterate_def known_hash_def new_miner_def toNumber_def Let_def)
qed

section \<open>Mined headers\<close>

lemma header_json_read:
  assumes "new_header (ec_block cfg) f (plain_opts c) = Inr h" "fields_ok f" "\<not> isActivatedEIP c 1559"
  shows "mined_header cfg h sol = new_header (ec_block cfg) (f\<lparr>bh_mixHash := fst sol, bh_nonce := snd sol\<rparr>) (plain_opts c)"
proof -
  obtain b where b: "default_baseFee c f = Inr b" and h: "h = header_fields.extend (f\<lparr>bh_baseFeePerGas := b\<rparr>) (block_header.fields c)"
    using assms(1) by (auto simp: new_header_plain)
  have none: "bh_baseFeePerGas f = None" using b assms(3) by (auto simp: default_baseFee_def split: if_splits)
  have "newAddress (bh_coinbase f) = Inr (bh_coinbase f)" using assms(2) by (simp add: fields_ok_def newAddress_def)
  then have "mined_header cfg h sol = new_header (ec_block cfg) \<lparr>bh_parentHash = bh_parentHash f, bh_uncleHash = bh_uncleHash f,
      bh_coinbase = bh_coinbase f, bh_stateRoot = bh_stateRoot f, bh_transactionsTrie = bh_transactionsTrie f,
      bh_receiptTrie = bh_receiptTrie f, bh_logsBloom = bh_logsBloom f, bh_difficulty = bh_difficulty f, bh_number = bh_number f,
      bh_gasLimit = bh_gasLimit f, bh_gasUsed = bh_gasUsed f, bh_timestamp = bh_timestamp f, bh_extraData = bh_extraData f,
      bh_mixHash = fst sol, bh_nonce = snd sol, bh_baseFeePerGas = None\<rparr> (plain_opts c)"
    using assms(2,3) by (simp add: mined_header_def fromHeaderData_def header_json_def h or_default_def bn_or_def
        fields_ok_def plain_opts_def)
  moreover have "f\<lparr>bh_mixHash := fst sol, bh_nonce := snd sol\<rparr> = \<lparr>bh_parentHash = bh_parentHash f, bh_uncleHash = bh_uncleHash f,
      bh_coinbase = bh_coinbase f, bh_stateRoot = bh_stateRoot f, bh_transactionsTrie = bh_transactionsTrie f,
      bh_receiptTrie = bh_receiptTrie f, bh_logsBloom = bh_logsBloom f, bh_difficulty = bh_difficulty f, bh_number = bh_number f,
      bh_gasLimit = bh_gasLimit f, bh_gasUsed = bh_gasUsed f, bh_timestamp = bh_timestamp f, bh_extraData = bh_extraData f,
      bh_mixHash = fst sol, bh_nonce = snd sol, bh_baseFeePerGas = None\<rparr>"
    by (rule header_fields.equality) (simp_all add: none)
  ultimately show ?thesis by simp
qed

lemma seal_outside_hash:
  assumes "\<not> isActivatedEIP c 1559"
  shows "ethash_headerHash cfg (header_raw (header_fields.extend (f\<lparr>bh_mixHash := x, bh_nonce := y, bh_baseFeePerGas := b\<rparr>) (block_header.fields c))) =
    ethash_headerHash cfg (header_raw (header_fields.extend (f\<lparr>bh_baseFeePerGas := b'\<rparr>) (block_header.fields c)))"
  using assms by (simp add: ethash_headerHash_def header_raw_def)

lemma miner_iterate_found:
  assumes "miner_iterate cfg stops iterations (new_miner h) s = Some (Inr (Some sol), m, s')"
  shows "\<exists>n. toNumber (bh_number h) = Inr n \<and> loadEpoc cfg n s = Some (Inr (), s') \<and>
    mine_loop cfg s' stops (ethash_headerHash cfg (header_raw h)) 0 iterations
      ((new_miner h)\<lparr>mi_headerHash := Some (ethash_headerHash cfg (header_raw h))\<rparr>) = Some (Inr (Some sol), m)"
proof (cases "toNumber (bh_number h)")
  case (Inr n)
  then obtain r s1 where load: "loadEpoc cfg n s = Some (r, s1)"
    using assms by (auto simp: miner_iterate_def new_miner_def bind_eq_Some_conv Let_def)
  then show ?thesis
    using assms Inr by (cases r) (auto simp: miner_iterate_def new_miner_def known_hash_def bind_eq_Some_conv Let_def)
qed (use assms in \<open>auto simp: miner_iterate_def new_miner_def Let_def\<close>)

text \<open>C11. A header that the miner returns has the fields of the one it was given but for mix hash and nonce, and the verification
  accepts it, when EIP-1559 is not active.\<close>

theorem mined_header_verifies:
  assumes "new_header (ec_block cfg) f (plain_opts c) = Inr h" "fields_ok f" "\<not> isActivatedEIP c 1559"
    and mined: "miner_mine cfg stops iterations (new_miner h) s = Some (Inr (Some h'), m, s')"
  shows "h' = h\<lparr>bh_mixHash := bh_mixHash h', bh_nonce := bh_nonce h'\<rparr> \<and> verifyPOW_header cfg h' s' = Some (Inr True, s')"
proof -
  obtain sol where found: "miner_iterate cfg stops iterations (new_miner h) s = Some (Inr (Some sol), m, s')"
      and made: "mined_header cfg (mi_blockHeader m) sol = Inr h'"
    using mined by (auto simp: miner_mine_def bind_eq_Some_conv bindS_Inr_iff split: option.splits)
  from miner_iterate_found [OF found] obtain n where n: "toNumber (bh_number h) = Inr n" "loadEpoc cfg n s = Some (Inr (), s')"
      and loop: "mine_loop cfg s' stops (ethash_headerHash cfg (header_raw h)) 0 iterations
        ((new_miner h)\<lparr>mi_headerHash := Some (ethash_headerHash cfg (header_raw h))\<rparr>) = Some (Inr (Some sol), m)"
    by blast
  obtain nonce where same: "mi_blockHeader m = h"
      and solved: "attempt cfg s' (ethash_headerHash cfg (header_raw h)) h nonce = Inr (Some sol)"
    using mine_loop_found [OF loop] by (auto simp: new_miner_def)
  obtain r where run: "ethash_run cfg s' (ethash_headerHash cfg (header_raw h)) (snd sol) None = Inr (fst sol, r)"
      "below_target (bh_difficulty h) r = Inr True"
    using solved by (auto simp: attempt_def try_nonce_def new_miner_def bindS_Inr_iff split: if_splits)
  obtain b where h: "h = header_fields.extend (f\<lparr>bh_baseFeePerGas := b\<rparr>) (block_header.fields c)" and b: "default_baseFee c f = Inr b"
    using assms(1) by (auto simp: new_header_plain)
  have "default_baseFee c (f\<lparr>bh_mixHash := fst sol, bh_nonce := snd sol\<rparr>) = default_baseFee c f"
    using assms(3) by (simp add: default_baseFee_def)
  then have h': "h' = header_fields.extend (f\<lparr>bh_mixHash := fst sol, bh_nonce := snd sol, bh_baseFeePerGas := b\<rparr>) (block_header.fields c)"
    using made b unfolding same header_json_read [OF assms(1-3)] by (auto simp: new_header_plain)
  have "es_epoc s' = Some (getEpoc cfg n)"
    using n(2) make_epoc_epoc by (fastforce simp: loadEpoc_def Let_def split: if_splits option.splits)
  then have "loadEpoc cfg n s' = Some (Inr (), s')" by (simp add: loadEpoc_def)
  moreover have "ethash_headerHash cfg (header_raw h') = ethash_headerHash cfg (header_raw h)"
    unfolding h h' by (rule seal_outside_hash [OF assms(3)])
  ultimately have "verifyPOW_header cfg h' s' = Some (Inr True, s')"
    using n(1) run by (simp add: verifyPOW_header_def with_epoc_def) (simp add: h h')
  moreover have "h' = h\<lparr>bh_mixHash := bh_mixHash h', bh_nonce := bh_nonce h'\<rparr>"
    by (simp add: h h' header_fields.extend_def block_header.fields_def)
  ultimately show ?thesis by simp
qed

section \<open>The witnesses\<close>

text \<open>Epochs of ten blocks with a cache of one item, hash functions that return zeros, and headers before EIP-1559.\<close>

definition pow_common :: common where
  "pow_common = fee_common\<lparr>HARDFORK_CHANGES := []\<rparr>"

definition pow_cfg :: ethash_cfg where
  "pow_cfg = \<lparr>ec_params = \<lparr>DATASET_BYTES_INIT = 512, DATASET_BYTES_GROWTH = 0, CACHE_BYTES_INIT = 128,
       CACHE_BYTES_GROWTH = 0, EPOCH_LENGTH = 10, MIX_BYTES = 128, HASH_BYTES = 64, DATASET_PARENTS = 1,
       CACHE_ROUNDS = 1, ACCESSES = 1, WORD_BYTES = 4\<rparr>,
     ec_block = sample_block_cfg\<lparr>bc_tx := sample_tx_cfg\<lparr>txc_keccak256 := (\<lambda>b. replicate 32 0)\<rparr>\<rparr>,
     ec_keccak512 = (\<lambda>b. replicate 64 0), ec_isPrime = (\<lambda>n. True), ec_xor = (\<lambda>a b. a)\<rparr>"

definition pow_fields :: "int \<Rightarrow> header_fields" where
  "pow_fields n = (sample_fields n)\<lparr>bh_baseFeePerGas := None\<rparr>"

definition pow_header :: "int \<Rightarrow> block_header" where
  "pow_header n = header_fields.extend (pow_fields n) (block_header.fields pow_common)"

lemma pow_cfg_sel [simp]:
  "ec_keccak512 pow_cfg b = replicate 64 0" "ec_keccak256 pow_cfg b = replicate 32 0" "ec_isPrime pow_cfg n"
  "ec_xor pow_cfg a b = a" "HASH_BYTES (ec_params pow_cfg) = 64" "MIX_BYTES (ec_params pow_cfg) = 128"
  "WORD_BYTES (ec_params pow_cfg) = 4" "DATASET_PARENTS (ec_params pow_cfg) = 1" "CACHE_ROUNDS (ec_params pow_cfg) = 1"
  "ACCESSES (ec_params pow_cfg) = 1" "EPOCH_LENGTH (ec_params pow_cfg) = 10"
  by (simp_all add: pow_cfg_def ec_keccak256_def)

lemma zero_words:
  "read_u32 (replicate n 0) i = (if i + 4 \<le> n then Inr 0 else Inl (JsError ''ERR_OUT_OF_RANGE''))"
  "fnv 0 0 = 0" "write_u32 0 = replicate 4 0"
proof -
  have "horner_sum uint 256 (replicate k (0 :: byte)) = (0 :: int)" for k by (induction k) simp_all
  then show "read_u32 (replicate n 0) i = (if i + 4 \<le> n then Inr 0 else Inl (JsError ''ERR_OUT_OF_RANGE''))"
    by (simp add: read_u32_def readUInt32LE_def)
  show "fnv 0 0 = 0" by (simp add: fnv_def js_xor_def to_int32_def)
  show "write_u32 0 = replicate 4 0" by (simp add: write_u32_def writeUInt32LE_def eval_nat_numeral)
qed

lemma map_exn_const: "(\<And>x. x \<in> set xs \<Longrightarrow> f x = Inr y) \<Longrightarrow> map_exn f xs = Inr (replicate (length xs) y)"
  by (induction xs) simp_all

lemma concat_zeros: "concat (replicate n (replicate k (0 :: byte))) = replicate (n * k) 0"
  by (induction n) (simp_all add: replicate_add)

lemma zero_buffers:
  assumes "n = 4 * k" shows "fnvBuffer (replicate n 0) (replicate n 0) = Inr (replicate n 0)"
proof -
  have "map_exn (\<lambda>k. bindS (read_u32 (replicate n 0) (4 * k)) (\<lambda>x. bindS (read_u32 (replicate n 0) (4 * k)) (\<lambda>y.
      Inr (write_u32 (fnv x y))))) [0..<(n + 3) div 4] = Inr (replicate (length [0..<(n + 3) div 4]) (replicate 4 0))"
    using assms by (intro map_exn_const) (simp add: zero_words)
  moreover have "(n + 3) div 4 = k" using assms by simp
  ultimately show ?thesis using assms by (simp add: fnvBuffer_def concat_zeros mult.commute)
qed

lemma pow_item: "calcDatasetItem pow_cfg [replicate 64 0] i = Inr (replicate 64 0)"
  using zero_buffers [of 64 16] by (simp add: calcDatasetItem_def mix_parent_def zero_words)

lemma pow_hash: "ethash_hash pow_cfg [replicate 64 0] 384 input nonce = Inr (replicate 32 0, replicate 32 0)"
proof -
  have "map_exn (\<lambda>j. calcDatasetItem pow_cfg [replicate 64 0] (k + j)) [0..<2] = Inr [replicate 64 0, replicate 64 0]" for k
    by (simp only: pow_item) (simp add: eval_nat_numeral)
  moreover have "replicate 64 0 @ replicate 64 0 = replicate 128 (0 :: byte)" by (simp flip: replicate_add)
  ultimately have "access pow_cfg [replicate 64 0] 6 (replicate 64 0) (replicate 128 0) 0 = Inr (replicate 128 0)"
    using zero_buffers [of 128 32] by (simp add: access_def zero_words Let_def)
  moreover have "compress (replicate 128 0) = Inr (replicate 32 0)"
  proof -
    have "map_exn (\<lambda>k. let i = 4 * k in
         bindS (read_u32 (replicate 128 0) (i * 4)) (\<lambda>m0. bindS (read_u32 (replicate 128 0) ((i + 1) * 4)) (\<lambda>m1.
         bindS (read_u32 (replicate 128 0) ((i + 2) * 4)) (\<lambda>m2. bindS (read_u32 (replicate 128 0) ((i + 3) * 4)) (\<lambda>m3.
           let a = fnv m0 m1; b = fnv a m2; c = fnv b m3 in Inr (write_u32 c)))))) [0..<8] =
        Inr (replicate (length [0..<8]) (replicate 4 0))"
      by (intro map_exn_const) (simp add: zero_words Let_def)
    then show ?thesis using concat_zeros [of 8 4] by (simp add: compress_def)
  qed
  moreover have "concat (replicate 2 (replicate 64 0)) = replicate 128 (0 :: byte)" using concat_zeros [of 2 64] by simp
  ultimately show ?thesis by (simp add: ethash_hash_def Let_def)
qed

lemma pow_entry:
  "epoch_entry pow_cfg e = Some \<lparr>ce_cacheSize = 64, ce_fullSize = 384, ce_seed = epoch_seed pow_cfg e, ce_cache = [replicate 64 0]\<rparr>"
proof -
  have "getCacheSize pow_cfg e = Some 64" "getFullSize pow_cfg e = Some 384"
    by (simp_all add: getCacheSize_def getFullSize_def size_loop.simps) (simp_all add: pow_cfg_def)
  then show ?thesis
    by (simp add: epoch_entry_Some mkcache_def keccak512_js_def cache_step_def zero_words Let_def)
qed

lemma pow_fields_ok: "0 \<le> n \<Longrightarrow> fields_ok (pow_fields n)"
  by (simp add: fields_ok_def pow_fields_def sample_fields_def)

lemma pow_common_simps [simp]:
  "\<not> isActivatedEIP pow_common 1559" "hardforkIsActiveOnChain pow_common (Some ''dao'') False = Inr False"
  "consensusType pow_common = ''pow''" "networkIdBN pow_common = 1"
proof -
  have sel: "HARDFORK_CHANGES pow_common = []" "EIPs pow_common = EIPs fee_common" "hardforks pow_common = hardforks fee_common"
    "cur_hardfork pow_common = ''london''" "supportedHardforks pow_common = []" "eips pow_common = eips fee_common"
    "chainConsensus pow_common = chainConsensus fee_common" "chainConsensusType pow_common = chainConsensusType fee_common"
    "networkIdBN pow_common = 1"
    by (simp_all add: pow_common_def fee_common_sel)
  then show "\<not> isActivatedEIP pow_common 1559" "hardforkIsActiveOnChain pow_common (Some ''dao'') False = Inr False"
    "consensusType pow_common = ''pow''" "networkIdBN pow_common = 1"
    by (simp_all add: fee_common_sel sample_common_def isActivatedEIP_def gteHardfork_def hardforkGteHardfork_def
        chooseHardfork_def hardforkIsActiveOnChain_def isSupportedHardfork_def consensusType_def Let_def)
qed

lemma pow_header_made: "new_header cfg (pow_fields n) (plain_opts pow_common) = Inr (pow_header n)"
proof -
  let ?h = "pow_header n"
  have "(pow_fields n)\<lparr>bh_baseFeePerGas := None\<rparr> = pow_fields n" by (simp add: pow_fields_def)
  moreover have "validateHeaderFields ?h = Inr ()" "validateDAOExtraData ?h = Inr ()"
    by (simp_all add: validateHeaderFields_def check_nonce_length_def check_pos_fields_def validateDAOExtraData_def
        pow_header_def) (simp_all add: pow_fields_def sample_fields_def zero_nonce_def require_def)
  moreover have "default_baseFee pow_common (pow_fields n) = Inr None"
    by (simp add: default_baseFee_def) (simp add: pow_fields_def)
  ultimately show ?thesis by (simp add: new_header_plain) (simp add: pow_header_def)
qed

lemma pow_header_sel [simp]:
  "bh_number (pow_header n) = n" "bh_difficulty (pow_header n) = (if n = 5 then 60 else 40)"
  "bh_mixHash (pow_header n) = replicate 32 0" "bh_nonce (pow_header n) = zero_nonce" "bh_common (pow_header n) = pow_common"
  by (simp_all add: pow_header_def) (simp_all add: pow_fields_def sample_fields_def)

lemma pow_run: "loaded pow_cfg s e \<Longrightarrow> ethash_run pow_cfg s input nonce None = Inr (replicate 32 0, replicate 32 0)"
  using pow_entry [of e] by (simp add: loaded_run pow_hash)

lemma zero_hash: "0 < d \<Longrightarrow> d \<le> 2 ^ 256 \<Longrightarrow> below_target d (replicate 32 0) = Inr True"
proof -
  assume d: "0 < d" "d \<le> 2 ^ 256"
  have "bn_of_bytes (replicate 32 0) = 0" using bn_of_bytes_zeros [of 32 "[]"] by simp
  moreover have "0 < (2 ^ 256 :: int) div d" using d by (simp add: pos_imp_zdiv_pos_iff)
  ultimately show ?thesis using d(1) by (simp add: below_target_def div_checked_def bn_div_def)
qed

lemma pow_accepts: "epoch_entry pow_cfg e = Some d \<Longrightarrow> pow_result pow_cfg d (pow_header n) = Inr True"
  using pow_entry [of e] zero_hash [of "bh_difficulty (pow_header n)"] by (auto simp: pow_result_def pow_hash)

lemma pow_attempt:
  "loaded pow_cfg s e \<Longrightarrow> attempt pow_cfg s hash (pow_header n) 0 = Inr (Some (replicate 32 0, zero_nonce))"
proof -
  assume l: "loaded pow_cfg s e"
  have "be_bytes 8 0 = zero_nonce" by (simp add: zero_nonce_def eval_nat_numeral)
  then show ?thesis
    using pow_run [OF l] zero_hash [of "bh_difficulty (pow_header n)"]
    by (simp add: attempt_def try_nonce_def new_miner_def toArrayLike_fits)
qed

definition pow_block :: block where
  "pow_block = \<lparr>b_header = pow_header 3, b_transactions = [], b_uncleHeaders = [pow_header 2], b_txTrie = new_trie\<rparr>"

lemma pow_load:
  "0 \<le> n \<Longrightarrow> n < 10 \<Longrightarrow> \<exists>s'. loadEpoc pow_cfg (nat n) (new_ethash (Some Map.empty)) = Some (Inr (), s') \<and> loaded pow_cfg s' 0"
  using loadEpoc_returns [of "new_ethash (Some Map.empty)" Map.empty pow_cfg "nat n"] pow_entry [of 0]
    loadEpoc_loaded [OF new_ethash_inv, of pow_cfg "nat n"]
  by (fastforce simp: new_ethash_def loadable_def storable_def getEpoc_def)

text \<open>With no caches the block is accepted; with the second epoch stored, a block of the third one is not even looked at.\<close>

lemma pow_ready_header: "0 \<le> n \<Longrightarrow> n < 2 ^ 53 \<Longrightarrow> pow_ready pow_cfg (pow_header n)"
  using pow_entry by (simp add: pow_ready_def)

definition pow_stored :: ethash where
  "pow_stored = new_ethash (Some [1 \<mapsto> the (epoch_entry pow_cfg 1)])"

theorem block_verified_witness:
  "(\<exists>s'. verifyPOW pow_cfg pow_block (new_ethash (Some Map.empty)) = Some (Inr True, s') \<and> pow_inv pow_cfg s') \<and>
   (\<exists>x s'. verifyPOW pow_cfg (pow_block\<lparr>b_header := pow_header 23\<rparr>) pow_stored = Some (Inl x, s'))"
proof -
  let ?s = "new_ethash (Some Map.empty)" and ?b = "pow_block\<lparr>b_header := pow_header 23\<rparr>"
  obtain d where d: "epoch_entry pow_cfg 0 = Some d" "ce_fullSize d \<noteq> 0" using pow_entry [of 0] by auto
  have "\<forall>h \<in> set (b_header pow_block # b_uncleHeaders pow_block). pow_ready pow_cfg h \<and> header_epoch pow_cfg h = 0"
    using pow_ready_header by (simp add: pow_block_def header_epoch_def getEpoc_def)
  moreover have "es_cacheDB ?s = Some Map.empty" "loadable Map.empty ?s 0"
    by (simp_all add: new_ethash_def loadable_def storable_def)
  ultimately have "\<exists>s'. verifyPOW pow_cfg pow_block ?s = Some (Inr True, s') \<and> pow_inv pow_cfg s'"
    using block_verified [of pow_cfg ?s Map.empty pow_block] new_ethash_inv pow_accepts [OF d(1)] d(1)
    by (auto simp: pow_block_def epochs_load_def pow_verdict_def)
  moreover have "pow_inv pow_cfg pow_stored" "es_cacheDB pow_stored = Some [1 \<mapsto> the (epoch_entry pow_cfg 1)]"
    using pow_entry [of 1] by (auto simp: pow_inv_def pow_stored_def new_ethash_def)
  moreover have "\<not> loadable [1 \<mapsto> the (epoch_entry pow_cfg 1)] pow_stored (header_epoch pow_cfg (pow_header 23))"
    using pow_entry [of 1] by (auto simp: loadable_def storable_def pow_stored_def new_ethash_def header_epoch_def getEpoc_def intro!: exI[of _ 1])
  moreover have "\<not> block_isGenesis ?b" by (simp add: block_isGenesis_def pow_block_def isGenesis_def)
  ultimately show ?thesis
    using block_verified [of pow_cfg pow_stored _ ?b] pow_ready_header by (fastforce simp: pow_block_def)
qed

theorem mining_finds_solution_witness:
  "\<exists>m s'. miner_iterate pow_cfg (\<lambda>j. False) (-1) (new_miner (pow_header 3)) (new_ethash (Some Map.empty)) =
     Some (Inr (Some (replicate 32 0, zero_nonce)), m, s')"
proof -
  obtain s' where s': "loadEpoc pow_cfg (nat 3) (new_ethash (Some Map.empty)) = Some (Inr (), s')" "loaded pow_cfg s' 0"
    using pow_load [of 3] by auto
  then show ?thesis
    using mining_finds_solution [of pow_cfg "pow_header 3" "new_ethash (Some Map.empty)" s' 0 "\<lambda>j. False"
        "(replicate 32 0, zero_nonce)" "-1"] pow_attempt [OF s'(2)] by auto
qed

lemma pow_mined:
  "\<exists>m s'. miner_mine pow_cfg (\<lambda>j. False) (-1) (new_miner (pow_header 3)) (new_ethash (Some Map.empty)) =
     Some (Inr (Some (pow_header 3)), m, s')"
proof -
  let ?hash = "ethash_headerHash pow_cfg (header_raw (pow_header 3))"
  let ?m = "(new_miner (pow_header 3))\<lparr>mi_headerHash := Some ?hash\<rparr>" and ?sol = "(replicate 32 0, zero_nonce)"
  obtain s' where s': "loadEpoc pow_cfg 3 (new_ethash (Some Map.empty)) = Some (Inr (), s')" "loaded pow_cfg s' 0"
    using pow_load [of 3] by auto
  obtain m' where m': "mine_loop pow_cfg s' (\<lambda>j. False) ?hash 0 (-1) ?m = Some (Inr (Some ?sol), m')"
    using mine_loop_finds [of ?m 0 "\<lambda>j. False" 0 pow_cfg s' ?hash ?sol "-1"] pow_attempt [OF s'(2)]
    by (auto simp: new_miner_def)
  have "mi_blockHeader m' = pow_header 3" using mine_loop_found [OF m'] by (simp add: new_miner_def)
  moreover have "mined_header pow_cfg (pow_header 3) ?sol = Inr (pow_header 3)"
  proof -
    have "(pow_fields 3)\<lparr>bh_mixHash := replicate 32 0, bh_nonce := zero_nonce\<rparr> = pow_fields 3"
      by (simp add: pow_fields_def sample_fields_def)
    then show ?thesis using header_json_read [OF pow_header_made pow_fields_ok, of 3 pow_cfg ?sol] by (simp add: pow_header_made)
  qed
  ultimately show ?thesis
    using s' m' by (auto simp: miner_mine_def miner_iterate_def known_hash_def new_miner_def toNumber_def Let_def)
qed

theorem mined_header_verifies_witness:
  "\<exists>m s'. miner_mine pow_cfg (\<lambda>j. False) (-1) (new_miner (pow_header 3)) (new_ethash (Some Map.empty)) =
     Some (Inr (Some (pow_header 3)), m, s') \<and> verifyPOW_header pow_cfg (pow_header 3) s' = Some (Inr True, s')"
proof -
  obtain m s' where mined: "miner_mine pow_cfg (\<lambda>j. False) (-1) (new_miner (pow_header 3)) (new_ethash (Some Map.empty)) =
     Some (Inr (Some (pow_header 3)), m, s')" using pow_mined by blast
  from mined_header_verifies [OF pow_header_made pow_fields_ok _ this] mined show ?thesis by auto
qed

end
