(* ===== verification/Spec2Isabelle.thy ===== *)
theory Spec2Isabelle
  imports Common_Chains Build_Block_Proofs Message_Total Chain_Start Blake2_Proofs Tx_Pool_Proofs Ethash_Proofs
begin

text \<open>
  \<^bold>\<open>Overview.\<close> The repository is a fork of the EthereumJS monorepo (version 5.9.3 of the virtual machine, under
  \<open>src/ethereumjs-monorepo--ethereumjs-vm-5.9.3/packages\<close>) for the Celo network, a copy of the development node
  Ganache (\<open>src/ganache-7.4.4\<close>) that runs on it, and Solidity tests that use both. This library models the
  execution and consensus core, the packages \<open>vm\<close>, \<open>block\<close>, \<open>blockchain\<close>, \<open>tx\<close>, \<open>trie\<close>, \<open>rlp\<close>, \<open>common\<close> and
  \<open>util\<close>, and also \<open>ethash\<close> and Ganache's transaction pool. Paths below are relative to \<open>packages\<close>, those of Ganache to \<open>src/ganache-7.4.4/src\<close>.

  \<^bold>\<open>How the parts work together.\<close> \<open>Blockchain.putBlock\<close> checks a block (\<open>Block.validate\<close>, which checks its
  header against the parent, its uncles and its transactions trie), stores it and, when it is the heaviest, makes its
  branch the canonical one. \<open>VM.runBlock\<close> sets the state root of the parent, runs the transactions of the block with
  \<open>VM.runTx\<close> inside one checkpoint of the state manager and pays the rewards. \<open>runTx\<close> checks nonce and balance, buys
  the gas and hands a message to \<open>EVM.executeMessage\<close>, which opens a checkpoint, transfers the value, finds the
  precompile or the code, and starts the interpreter. The interpreter's opcodes act on the machine (stack, memory,
  program counter) and, through the environment interface EEI, on the state manager, the transient storage and, for
  calls and creations, on \<open>executeMessage\<close> again. The state manager keeps accounts in a cache over a trie with
  checkpoints. \<open>Common\<close> says which hardfork and EIPs are active and what every operation costs.

  \<^bold>\<open>Conventions\<close> (\<open>Prelude\<close>). An operation on a state \<open>'s\<close> is an effect, a function of the state that returns
  an error or a value beside the new state; what the source changed before it threw is kept. A \<open>VmError\<close> and an
  exception of JavaScript are different constructors of the errors, as the source tells them apart by a test. A BN
  is an \<open>int\<close>, a buffer a list of bytes (\<open>8 word\<close>), a Map an association list or a function to options. Promises are
  run in the order in which the source awaits them; locks and events are left out.

  \<^bold>\<open>The theories, component by component.\<close>
  \<^item> \<open>Prelude\<close>, \<open>Util_Bytes\<close>, \<open>Util_Hex\<close>, \<open>Signature\<close>: \<open>vm/src/exceptions.ts\<close>, \<open>util/src/bytes.ts\<close>,
    \<open>internal.ts\<close>, \<open>signature.ts\<close>, \<open>address.ts\<close>. \<open>Samples\<close> holds the configurations of the witnesses.
  \<^item> \<open>Common\<close>, \<open>Common_Chains\<close>, \<open>Vm_Params\<close>: \<open>common/src/index.ts\<close>, \<open>chains/index.ts\<close>. The JSON files of chains,
    hardforks and EIPs are arguments. What \<open>isActivatedEIP\<close> reports
    comes from lists that only grow (they cannot express that petersburg removes EIP-1283); \<open>setEIPs\<close> accepts closed lists only.
  \<^item> \<open>Rlp\<close>: \<open>rlp/src/index.ts\<close>. Encoding and decoding are inverse to each other in both directions.
  \<^item> \<open>Checkpoints\<close> (the locale of a store with nested checkpoints), \<open>Checkpoint_Trie\<close>, \<open>Account_Cache\<close>,
    \<open>State_Manager\<close>, \<open>State_Checkpoints\<close>, \<open>State_Accounts\<close>, \<open>Transient_Storage\<close>: \<open>trie/src/checkpointDb.ts\<close>,
    \<open>checkpointTrie.ts\<close>, \<open>util/src/account.ts\<close>, \<open>vm/src/state\<close>. The locale is interpreted for the transient
    storage, for the state manager, for its accounts without the warm addresses, and for both stores together.
  \<^item> \<open>Nibbles\<close>, \<open>Trie_Node\<close>, \<open>Merkle_Trie\<close>: \<open>trie/src/trieNode.ts\<close>, \<open>util/nibbles.ts\<close>, \<open>util/hex.ts\<close>,
    \<open>baseTrie.ts\<close>. \<open>Trie_Spec\<close> is the tree that a trie stands for, \<open>Trie_Refinement\<close> ties the database of nodes to it,
    \<open>Trie_Map\<close> and \<open>Trie_Delete\<close> refine the operations, \<open>Trie_Proofs\<close> has the properties: a trie is a map, its
    root commits to the map, proofs are sound and complete.
  \<^item> \<open>Evm_Memory\<close>, \<open>Evm_Stack\<close>, \<open>Evm_State\<close>, \<open>Eei\<close>, \<open>Op_Util\<close>, \<open>Op_Gas\<close>, \<open>Op_Alu\<close>, \<open>Op_Functions\<close>, \<open>Op_Codes\<close>,
    \<open>Blake2\<close>, \<open>Precompiles\<close>, \<open>Interpreter\<close>, \<open>Evm\<close>: \<open>vm/src/evm\<close>, in the order memory, stack, message and machine records,
    \<open>eei.ts\<close>, \<open>opcodes/util.ts\<close> with the storage prices of EIP-1283, 2200 and 2929, \<open>opcodes/gas.ts\<close>,
    \<open>opcodes/functions.ts\<close>, \<open>opcodes/codes.ts\<close>, \<open>precompiles\<close>, \<open>interpreter.ts\<close> with \<open>opcodes/eof.ts\<close>, \<open>evm.ts\<close>.
  \<^item> Proofs about the virtual machine. \<open>Alu_Words\<close>: the arithmetic is that of 256-bit words. \<open>Blake2_Proofs\<close>: the
    contract 9 computes BLAKE2b's F on 64-bit words. \<open>Opcode_Tables\<close>: every
    opcode of every fork has its handlers. \<open>Jump_Analysis\<close>: only instruction starts are executed. \<open>Frame_Rules\<close>,
    \<open>Message_Rules\<close>, \<open>Message_Rollback\<close>: what a step and a message may change; a failed message restores the world.
    \<open>Frame_Gas\<close>, \<open>Gas_Costs\<close>, \<open>Message_Ends\<close>, \<open>Message_Total\<close>: every step that goes on takes gas, so messages end.
  \<^item> \<open>Tx\<close>, \<open>Tx_Proofs\<close>: \<open>tx/src\<close>, the three kinds of transactions and their factory: bounds, round trips, senders.
  \<^item> \<open>Bloom\<close>, \<open>Run_Tx\<close>, \<open>Run_Tx_Proofs\<close>: \<open>vm/src/bloom\<close>, \<open>vm/src/runTx.ts\<close>: refusals leave no trace, gas is paid
    before the message, and the settlement balances. The blooms of transactions and of the blocks into which they are merged
    find every log.
  \<^item> \<open>Block_Header\<close>, \<open>Block\<close> with their proofs: \<open>block/src/header.ts\<close>, \<open>clique.ts\<close>, \<open>block.ts\<close>. The blockchain is an
    argument, a record of the calls they make; \<open>Blockchain.chain_of\<close> is that record of the modelled blockchain.
  \<^item> \<open>Run_Block\<close>, \<open>Build_Block\<close> with their proofs: \<open>vm/src/runBlock.ts\<close>, \<open>buildBlock.ts\<close>.
  \<^item> \<open>Chain_Db\<close>, \<open>Chain_Clique\<close>, \<open>Blockchain\<close>: \<open>blockchain/src/db\<close>, \<open>clique.ts\<close> and \<open>index.ts\<close>. The level database is
    a function from keys to values, a batch is atomic. \<open>Chain_Proofs\<close> states the invariant \<open>chain_inv\<close>, \<open>Chain_Reorg\<close>
    follows it through the steps of a reorganisation, \<open>Chain_Put\<close> through the two branches of \<open>_putBlockOrHeader\<close>, and
    \<open>Chain_Start\<close> shows it of a new blockchain and states that puts keep it.
  \<^item> \<open>Ethash\<close>: \<open>ethash/src/util.ts\<close> and \<open>index.ts\<close>: the proof of work, its database of caches, and the miner.
    \<open>Ethash_Proofs\<close>: a verdict does not depend on the caches made before (but with some of them the
    verification throws, which is stated as well), mined headers verify, mining succeeds when it can.
  \<^item> \<open>Heap\<close>, \<open>Tx_Pool\<close>: Ganache's \<open>packages/utils/src/utils/heap.ts\<close> and \<open>chains/ethereum/ethereum/src/transaction-pool.ts\<close>.
    \<open>Heap_Order\<close> holds the locale \<open>priority\<close> of a comparator that comes from an order, and what every operation keeps and
    returns; \<open>Tx_Pool_Proofs\<close> interprets it for the order by nonce and follows a transaction into the pool.
\<close>

text \<open>
  \<^bold>\<open>Fuel and bounds.\<close> The interpreter's loop and the nesting of messages may not end in the source when gas is
  free, so both have fuel: \<open>cx_steps\<close> steps of a frame and the number given to \<open>executeMessage\<close> for the nesting. When the
  steps exceed the gas limit and the nesting exceeds the stack limit that remains, neither runs out
  (\<open>messages_terminate\<close>). A walk through a trie has as much fuel as the key has nibbles, and one more; each step takes
  one. The reorganisation has one step per block number. The search for the sizes of an epoch and the miner of Ethash need not end: they are partial
  functions, \<open>None\<close> when they do not return, and \<open>block_verified\<close> and \<open>mining_finds_solution\<close> state that they do.
  All other loops are structural or have a measure.

  \<^bold>\<open>Arguments of the model.\<close> Keccak-256, SHA-256, RIPEMD-160, the elliptic curve secp256k1, the curve and
  BLS precompiles, the proof-of-work check that a blockchain is given, Keccak-512 and the prime test of Ethash, the
  version 2 of RLP that other packages depend on, the level database, the JSON parameters and the clock. Hypotheses about them (a hash function without collisions on the nodes
  in question, a signature from which the signer is recovered, a decoder that reads what the encoder wrote) are named in
  the properties that need them, and hold for the functions of \<open>Samples\<close> and of the witnesses.

  \<^bold>\<open>Where the model abstracts.\<close> \<open>toNumber\<close> of a BN yields a natural number where the source then uses it as an index;
  the locks of the trie and the blockchain, the events, the caches of hashes and the LRU caches of the database are
  left out, as are the texts of errors and the waiting of Ganache's pool for the account of a sender; the root of a storage trie stands for its content; \<open>delBlock\<close> refuses a
  header that is stored under a number which is not its own.

  \<^bold>\<open>Not modelled.\<close> The client, devp2p and the rest of Ganache are network code, RPC servers and wrappers of the packages
  above, in which nearly every line awaits a socket, a database or a worker. The entry points \<open>runCall\<close>, \<open>runCode\<close>
  and \<open>runBlockchain\<close> wrap \<open>executeMessage\<close>, the interpreter and \<open>runBlock\<close>. The conversions of JSON objects from RPC (\<open>block/src/from-rpc.ts\<close>), range proofs and
  read streams of tries, and printing (\<open>toJSON\<close>, \<open>errorStr\<close>) are left out.
\<close>

end
